(* ===== verification/WM_Prelude.thy ===== *)
theory WM_Prelude
  imports Main "HOL-Library.Word" "HOL-Library.AList"
begin

text \<open>
  Shared vocabulary of the development.

  \<^item> Bytes are \<open>8 word\<close>; a \<open>Uint8Array\<close> is a list of bytes.
  \<^item> A JavaScript \<open>Map\<close> iterates in insertion order, keeps the position of a key that is set
    again, and forgets it on \<open>delete\<close>: it is an association list with distinct keys, updated
    with the library's \<open>AList.update\<close> and \<open>AList.delete\<close>.
  \<^item> A JavaScript \<open>Set\<close> is a list without repetitions, in insertion order.
  \<^item> A thrown error is the left value of a sum, an absent value is \<open>None\<close>.
  \<^item> \<open>firstAsync\<close> and \<open>eachInOrder\<close> are the sequential helpers of
    \<open>ts/packages/core/src/domain/sequential.ts\<close>; a predicate whose promise never settles is
    a predicate with value \<open>None\<close>.
\<close>

named_theorems js_simps \<open>rewriting with the JavaScript container operations\<close>

type_synonym byte = "8 word"
type_synonym bytes = "byte list"
type_synonym device_id = bytes

abbreviation Ok :: "'a \<Rightarrow> 'e + 'a" where "Ok \<equiv> Inr"
abbreviation Err :: "'e \<Rightarrow> 'e + 'a" where "Err \<equiv> Inl"

definition is_ok :: "'e + 'a \<Rightarrow> bool" where
  "is_ok r = (case r of Inr _ \<Rightarrow> True | Inl _ \<Rightarrow> False)"

lemma is_ok_simps [simp]: "is_ok (Ok x)" "\<not> is_ok (Err e)"
  by (simp_all add: is_ok_def)

lemma is_ok_iff: "is_ok r \<longleftrightarrow> (\<exists>x. r = Ok x)"
  by (cases r) simp_all

lemma those_Some_iff: "those xs = Some ys \<longleftrightarrow> xs = map Some ys"
  by (induction xs arbitrary: ys) (auto split: option.splits)

subsection \<open>Insertion-ordered maps\<close>

type_synonym ('k, 'v) jmap = "('k \<times> 'v) list"

abbreviation jget :: "('k, 'v) jmap \<Rightarrow> 'k \<Rightarrow> 'v option" where
  "jget m k \<equiv> map_of m k"

abbreviation jset :: "('k, 'v) jmap \<Rightarrow> 'k \<Rightarrow> 'v \<Rightarrow> ('k, 'v) jmap" where
  "jset m k v \<equiv> AList.update k v m"

abbreviation jdel :: "('k, 'v) jmap \<Rightarrow> 'k \<Rightarrow> ('k, 'v) jmap" where
  "jdel m k \<equiv> AList.delete k m"

abbreviation jkeys :: "('k, 'v) jmap \<Rightarrow> 'k list" where
  "jkeys m \<equiv> map fst m"

abbreviation jvals :: "('k, 'v) jmap \<Rightarrow> 'v list" where
  "jvals m \<equiv> map snd m"

definition jwf :: "('k, 'v) jmap \<Rightarrow> bool" where
  "jwf m \<longleftrightarrow> distinct (jkeys m)"

lemma jwf_Nil [simp, intro]: "jwf []"
  by (simp add: jwf_def)

lemma jwf_jset [simp, intro]: "jwf m \<Longrightarrow> jwf (jset m k v)"
  by (simp add: jwf_def distinct_update)

lemma jwf_jdel [simp, intro]: "jwf m \<Longrightarrow> jwf (jdel m k)"
  by (simp add: jwf_def distinct_delete)

lemma jwf_filter [simp, intro]: "jwf m \<Longrightarrow> jwf (filter P m)"
  by (simp add: jwf_def distinct_map_filter)

lemma jget_jset [simp, js_simps]: "jget (jset m k v) k' = (if k' = k then Some v else jget m k')"
  by (simp add: update_conv')

lemma jget_jdel [simp, js_simps]: "jget (jdel m k) k' = (if k' = k then None else jget m k')"
  by (simp add: delete_conv')

lemma jget_in_set: "jwf m \<Longrightarrow> (k, v) \<in> set m \<longleftrightarrow> jget m k = Some v"
  by (simp add: jwf_def)

lemma jget_filter:
  assumes "jwf m"
  shows "jget (filter P m) k = (case jget m k of None \<Rightarrow> None | Some v \<Rightarrow> if P (k, v) then Some v else None)"
proof -
  from assms have "jwf (filter P m)" by blast
  then have sub: "jget (filter P m) k = Some v \<longleftrightarrow> jget m k = Some v \<and> P (k, v)" for v
    using assms by (auto simp flip: jget_in_set)
  show ?thesis
  proof (cases "jget (filter P m) k")
    case None
    then show ?thesis using sub by (auto split: option.splits)
  next
    case (Some v)
    then show ?thesis using sub by auto
  qed
qed

lemma jvals_iff: "jwf m \<Longrightarrow> v \<in> set (jvals m) \<longleftrightarrow> (\<exists>k. jget m k = Some v)"
  by (force simp: jget_in_set [symmetric])

lemma jset_fresh: "jget m k = None \<Longrightarrow> jset m k v = m @ [(k, v)]"
  by (induction m) (auto split: if_splits)

lemma list_all_jset: "list_all P m \<Longrightarrow> P (k, v) \<Longrightarrow> list_all P (jset m k v)"
  by (induction m) auto

lemma list_all_jdel: "list_all P m \<Longrightarrow> list_all P (jdel m k)"
  by (induction m) auto

lemma jdel_fresh: "jget m k = None \<Longrightarrow> jdel m k = m"
  by (simp add: delete_id map_of_eq_None_iff)

subsection \<open>The contract of a keyed store\<close>

text \<open>
  What the components rely on when they keep a \<open>Map\<close>: reads after writes and deletes, and an
  invariant every operation keeps. The client lemmas are proved once from the laws.
\<close>

locale keyed_store =
  fixes get :: "'s \<Rightarrow> 'k \<Rightarrow> 'v option"
    and put :: "'s \<Rightarrow> 'k \<Rightarrow> 'v \<Rightarrow> 's"
    and del :: "'s \<Rightarrow> 'k \<Rightarrow> 's"
    and inv :: "'s \<Rightarrow> bool"
  assumes get_put: "get (put s k v) k' = (if k' = k then Some v else get s k')"
    and get_del: "get (del s k) k' = (if k' = k then None else get s k')"
    and inv_put: "inv s \<Longrightarrow> inv (put s k v)"
    and inv_del: "inv s \<Longrightarrow> inv (del s k)"
begin

lemma put_overrides: "get (put (put s k v) k w) = get (put s k w)"
  by (rule ext) (simp add: get_put)

lemma put_commutes: "k \<noteq> k' \<Longrightarrow> get (put (put s k v) k' w) = get (put (put s k' w) k v)"
  by (rule ext) (simp add: get_put)

lemma del_put_same: "get (del (put s k v) k) = get (del s k)"
  by (rule ext) (simp add: get_put get_del)

lemma frame: "k' \<noteq> k \<Longrightarrow> get (put s k v) k' = get s k'"
  by (simp add: get_put)

lemma inv_puts: "inv s \<Longrightarrow> inv (foldl (\<lambda>t (k, v). put t k v) s kvs)"
  by (induction kvs arbitrary: s) (auto simp: inv_put)

end

interpretation jstore: keyed_store
  "\<lambda>m k. jget m k" "\<lambda>m k v. jset m k v" "\<lambda>m k. jdel m k" "\<lambda>m. jwf m"
  by unfold_locales auto

subsection \<open>Insertion-ordered sets\<close>

definition sadd :: "'a list \<Rightarrow> 'a \<Rightarrow> 'a list" where
  "sadd s x = (if x \<in> set s then s else s @ [x])"

definition sdel :: "'a list \<Rightarrow> 'a \<Rightarrow> 'a list" where
  "sdel s x = filter (\<lambda>y. y \<noteq> x) s"

lemma set_sadd [simp]: "set (sadd s x) = insert x (set s)"
  by (auto simp: sadd_def)

lemma distinct_sadd [simp]: "distinct (sadd s x) = distinct s"
  by (simp add: sadd_def)

lemma set_sdel [simp]: "set (sdel s x) = set s - {x}"
  by (auto simp: sdel_def)

lemma distinct_sdel [simp]: "distinct s \<Longrightarrow> distinct (sdel s x)"
  by (simp add: sdel_def)

subsection \<open>Sequential helpers (sequential.ts)\<close>

fun firstAsync :: "'a list \<Rightarrow> ('a \<Rightarrow> bool option) \<Rightarrow> 'a option option" where
  "firstAsync [] p = Some None"
| "firstAsync (x # xs) p =
     (case p x of
        None \<Rightarrow> None
      | Some True \<Rightarrow> Some (Some x)
      | Some False \<Rightarrow> firstAsync xs p)"

lemma firstAsync_total: "firstAsync xs (\<lambda>x. Some (p x)) = Some (List.find p xs)"
  by (induction xs) (auto split: bool.splits)

lemma firstAsync_cong [fundef_cong]:
  assumes "xs = ys" and "\<And>x. x \<in> set ys \<Longrightarrow> p x = q x"
  shows "firstAsync xs p = firstAsync ys q"
proof -
  have "firstAsync ys p = firstAsync ys q" using assms(2)
    by (induction ys) (auto split: option.splits bool.splits)
  then show ?thesis using assms(1) by simp
qed

lemma firstAsync_SomeD: "firstAsync xs p = Some (Some x) \<Longrightarrow> x \<in> set xs \<and> p x = Some True"
  by (induction xs) (auto split: option.splits bool.splits)

lemma firstAsync_NoneD: "firstAsync xs p = Some None \<Longrightarrow> x \<in> set xs \<Longrightarrow> p x = Some False"
  by (induction xs) (auto split: option.splits bool.splits)

lemma firstAsync_Some_None_iff:
  "firstAsync xs p = Some None \<longleftrightarrow> (\<forall>x \<in> set xs. p x = Some False)"
  by (induction xs) (auto split: option.splits bool.splits)

lemma firstAsync_hit: "x \<in> set xs \<Longrightarrow> p x = Some True \<Longrightarrow> firstAsync xs p \<noteq> Some None"
  by (auto simp: firstAsync_Some_None_iff intro: bexI [of _ x])

lemma firstAsync_mono:
  assumes "\<And>x r. x \<in> set xs \<Longrightarrow> p x = Some r \<Longrightarrow> q x = Some r"
    and "firstAsync xs p = Some r"
  shows "firstAsync xs q = Some r"
  using assms by (induction xs) (fastforce split: option.splits bool.splits)+

text \<open>\<open>eachInOrder\<close>: the steps run one after another and stop at the first that rejects.\<close>

fun eachInOrder :: "'a list \<Rightarrow> ('s \<Rightarrow> 'a \<Rightarrow> 'e + 's) \<Rightarrow> 's \<Rightarrow> 'e + 's" where
  "eachInOrder [] step s = Ok s"
| "eachInOrder (x # xs) step s =
     (case step s x of Inl e \<Rightarrow> Err e | Inr s' \<Rightarrow> eachInOrder xs step s')"

lemma eachInOrder_append:
  "eachInOrder (xs @ ys) step s =
     (case eachInOrder xs step s of Inl e \<Rightarrow> Err e | Inr s' \<Rightarrow> eachInOrder ys step s')"
  by (induction xs arbitrary: s) (auto split: sum.splits)

end
