(* ===== verification/DeviceIds.thy ===== *)
theory DeviceIds
  imports WM_Prelude
begin

text \<open>
  The canonical device-id and byte-string codec of
  \<open>ts/packages/core/src/domain/device-id.ts\<close>: \<open>bytesToHex\<close>, \<open>bytesFromHex\<close>,
  \<open>deviceIdToHex\<close> and \<open>deviceIdFromHex\<close>, with both round trips and the injectivity every
  map keyed by device hex relies on.
\<close>

definition HEX_RADIX :: nat where "HEX_RADIX = 16"
definition HEX_BYTE_WIDTH :: nat where "HEX_BYTE_WIDTH = 2"
definition DEVICE_ID_HEX_LENGTH :: nat where "DEVICE_ID_HEX_LENGTH = 64"
definition DEVICE_ID_LENGTH :: nat where "DEVICE_ID_LENGTH = 32"

definition hexDigits :: string where
  "hexDigits = ''0123456789abcdef''"

text \<open>\<open>Number.prototype.toString(16)\<close> on a byte, and \<open>padStart\<close>.\<close>

definition byteToString :: "byte \<Rightarrow> string" where
  "byteToString b =
     (if unat b < HEX_RADIX then [hexDigits ! unat b]
      else [hexDigits ! (unat b div HEX_RADIX), hexDigits ! (unat b mod HEX_RADIX)])"

definition padStart :: "nat \<Rightarrow> char \<Rightarrow> string \<Rightarrow> string" where
  "padStart n c s = replicate (n - length s) c @ s"

fun bytesToHex :: "bytes \<Rightarrow> string" where
  "bytesToHex [] = []"
| "bytesToHex (b # bs) = padStart HEX_BYTE_WIDTH (CHR ''0'') (byteToString b) @ bytesToHex bs"

definition deviceIdToHex :: "device_id \<Rightarrow> string" where
  "deviceIdToHex device = bytesToHex device"

text \<open>
  \<open>parseHexDigit\<close> gives the value of a character in the class \<open>[0-9a-f]\<close> and nothing for any
  other; \<open>hexMatches\<close> is the regular expression \<open>^([0-9a-f]{2})*$\<close>, \<open>parseInt16\<close> is
  \<open>Number.parseInt(_, 16)\<close> on two such characters.
\<close>

fun indexOf :: "'a list \<Rightarrow> 'a \<Rightarrow> nat option" where
  "indexOf [] x = None"
| "indexOf (y # ys) x = (if y = x then Some 0 else map_option Suc (indexOf ys x))"

definition parseHexDigit :: "char \<Rightarrow> nat option" where
  "parseHexDigit c = indexOf hexDigits c"

fun hexMatches :: "string \<Rightarrow> bool" where
  "hexMatches [] = True"
| "hexMatches [_] = False"
| "hexMatches (c # d # cs) = (parseHexDigit c \<noteq> None \<and> parseHexDigit d \<noteq> None \<and> hexMatches cs)"

definition parseInt16 :: "char \<Rightarrow> char \<Rightarrow> byte" where
  "parseInt16 c d =
     of_nat (HEX_RADIX * the (parseHexDigit c) + the (parseHexDigit d))"

fun parseHexPairs :: "string \<Rightarrow> bytes" where
  "parseHexPairs (c # d # cs) = parseInt16 c d # parseHexPairs cs"
| "parseHexPairs _ = []"

datatype hex_error = NotEvenLowercaseHex string | NotDeviceIdHex string | NotDeviceId

definition bytesFromHex :: "string \<Rightarrow> hex_error + bytes" where
  "bytesFromHex hex =
     (if \<not> hexMatches hex then Err (NotEvenLowercaseHex hex) else Ok (parseHexPairs hex))"

text \<open>\<open>deviceIdSchema\<close> of the generated protocol: exactly 32 bytes.\<close>

definition deviceIdFromHex :: "string \<Rightarrow> hex_error + device_id" where
  "deviceIdFromHex hex =
     (if length hex \<noteq> DEVICE_ID_HEX_LENGTH then Err (NotDeviceIdHex hex)
      else case bytesFromHex hex of
             Inl e \<Rightarrow> Err e
           | Inr bs \<Rightarrow> if length bs = DEVICE_ID_LENGTH then Ok bs else Err NotDeviceId)"

subsection \<open>Digits\<close>

lemmas hex_consts = HEX_RADIX_def HEX_BYTE_WIDTH_def DEVICE_ID_HEX_LENGTH_def DEVICE_ID_LENGTH_def

lemma indexOf_nth: "distinct xs \<Longrightarrow> i < length xs \<Longrightarrow> indexOf xs (xs ! i) = Some i"
proof (induction xs arbitrary: i)
  case (Cons x xs)
  then show ?case by (cases i) auto
qed simp

lemma indexOf_SomeD: "indexOf xs x = Some i \<Longrightarrow> i < length xs \<and> xs ! i = x"
  by (induction xs arbitrary: i) (auto split: if_splits)

lemma hexDigits_props [simp]: "length hexDigits = 16" "distinct hexDigits"
  by (simp_all add: hexDigits_def)

lemma parseHexDigit_nth [simp]: "i < 16 \<Longrightarrow> parseHexDigit (hexDigits ! i) = Some i"
  by (simp add: parseHexDigit_def indexOf_nth)

lemma parseHexDigit_SomeD: "parseHexDigit c = Some i \<Longrightarrow> i < 16 \<and> hexDigits ! i = c"
  unfolding parseHexDigit_def by (drule indexOf_SomeD) simp

lemma hexDigits_0: "CHR ''0'' = hexDigits ! 0"
  by (simp add: hexDigits_def)

lemma padded_byte:
  "padStart HEX_BYTE_WIDTH (CHR ''0'') (byteToString b) =
     [hexDigits ! (unat b div 16), hexDigits ! (unat b mod 16)]"
  by (simp add: padStart_def byteToString_def hex_consts hexDigits_0)

lemma unat_byte_less: "unat (b :: byte) < 256"
  using unsigned_less [of b, where ?'a = nat] by simp

lemma bytesToHex_Cons:
  "bytesToHex (b # bs) = hexDigits ! (unat b div 16) # hexDigits ! (unat b mod 16) # bytesToHex bs"
  by (simp add: padded_byte)

lemma nibble_bounds: "unat (b :: byte) div 16 < 16" "unat b mod 16 < 16"
  using unat_byte_less [of b] by auto

lemma parseInt16_digits:
  "parseInt16 (hexDigits ! (unat b div 16)) (hexDigits ! (unat b mod 16)) = b"
  by (simp add: parseInt16_def nibble_bounds hex_consts flip: mult.commute)

lemma hexMatches_bytesToHex [simp]: "hexMatches (bytesToHex bs)"
  by (induction bs) (simp_all add: bytesToHex_Cons nibble_bounds del: bytesToHex.simps(2))

lemma parse_bytesToHex [simp]: "parseHexPairs (bytesToHex bs) = bs"
  by (induction bs) (simp_all add: bytesToHex_Cons parseInt16_digits del: bytesToHex.simps(2))

lemma length_bytesToHex [simp]: "length (bytesToHex bs) = 2 * length bs"
  by (induction bs) (simp_all add: bytesToHex_Cons del: bytesToHex.simps(2))

lemma bytesToHex_inj [simp]: "bytesToHex a = bytesToHex b \<longleftrightarrow> a = b"
  by (metis parse_bytesToHex)

lemma deviceIdToHex_inj [simp]: "deviceIdToHex a = deviceIdToHex b \<longleftrightarrow> a = b"
  by (simp add: deviceIdToHex_def)

lemma inj_deviceIdToHex: "inj deviceIdToHex"
  by (rule injI) simp

lemma bytesToHex_parseHexPairs: "hexMatches hex \<Longrightarrow> bytesToHex (parseHexPairs hex) = hex"
proof (induction hex rule: hexMatches.induct)
  case (3 c d cs)
  from 3(2) obtain i j where ij: "parseHexDigit c = Some i" "parseHexDigit d = Some j" by auto
  then have b: "i < 16" "hexDigits ! i = c" "j < 16" "hexDigits ! j = d"
    using parseHexDigit_SomeD by blast+
  have "unat (parseInt16 c d) = 16 * i + j"
    using b ij by (simp add: parseInt16_def hex_consts unat_of_nat take_bit_nat_eq_self del: of_nat_add of_nat_mult)
  with b have "bytesToHex [parseInt16 c d] = [c, d]"
    by (simp add: bytesToHex_Cons del: bytesToHex.simps(2))
  with 3 show ?case by simp
qed auto

lemma length_parseHexPairs: "hexMatches hex \<Longrightarrow> 2 * length (parseHexPairs hex) = length hex"
  by (induction hex rule: hexMatches.induct) auto

lemma bytesFromHex_iff: "bytesFromHex hex = Ok bs \<longleftrightarrow> hex = bytesToHex bs"
  by (auto simp: bytesFromHex_def bytesToHex_parseHexPairs)

text \<open>Composed storage keys separate a hex id from what follows by a slash.\<close>

lemma hexDigits_no_slash: "CHR ''/'' \<notin> set hexDigits"
  by (simp add: hexDigits_def)

lemma hex_no_slash: "CHR ''/'' \<notin> set (bytesToHex bs)"
proof (induction bs)
  case (Cons b bs)
  have "hexDigits ! i \<noteq> CHR ''/''" if "i < 16" for i
    using that hexDigits_no_slash by (metis hexDigits_props(1) nth_mem)
  from this [of "unat b div 16"] this [of "unat b mod 16"] show ?case
    using Cons nibble_bounds [of b] by (simp add: bytesToHex_Cons eq_commute del: bytesToHex.simps(2))
qed simp

lemma prefix_to_slash_unique:
  "c \<notin> set xs \<Longrightarrow> c \<notin> set ys \<Longrightarrow> xs @ c # us = ys @ c # vs \<longleftrightarrow> xs = ys \<and> us = vs"
proof (induction xs arbitrary: ys)
  case Nil
  then show ?case by (cases ys) auto
next
  case (Cons x xs)
  then show ?case by (cases ys) auto
qed

end
