(* ===== verification/TokenScope.thy ===== *)
theory TokenScope
  imports WM_Prelude "HOL-Library.Sublist"
begin

text \<open>
  \<open>ts/packages/core/src/domain/token-scope.ts\<close>: byte equality, and the lexical narrowing of
  capability scopes that every delegation link is checked with. The lexical test of
  \<open>pathNarrows\<close> (string prefix plus a look at one character) is shown to be containment of
  the path's \<open>/\<close>-segments, and narrowing is shown to be a transitive relation, so that a chain
  of links can never leave the scope of its root.
\<close>

record capability_scope =
  kind :: string
  path :: "string option"

definition bytesEqual :: "bytes \<Rightarrow> bytes \<Rightarrow> bool" where
  "bytesEqual a b =
     (if length a \<noteq> length b then False else list_all (\<lambda>i. a ! i = b ! i) [0..<length a])"

text \<open>\<open>String.prototype.split("/")\<close>: always at least one segment.\<close>

fun splitSlash :: "string \<Rightarrow> string list" where
  "splitSlash [] = [[]]"
| "splitSlash (c # cs) =
     (if c = CHR ''/'' then [] # splitSlash cs
      else (c # hd (splitSlash cs)) # tl (splitSlash cs))"

definition startsWith :: "string \<Rightarrow> string \<Rightarrow> bool" where
  "startsWith s p = (take (length p) s = p)"

definition endsWithSlash :: "string \<Rightarrow> bool" where
  "endsWithSlash s = (s \<noteq> [] \<and> last s = CHR ''/'')"

text \<open>\<open>String.prototype.charAt\<close> gives the empty string out of range.\<close>

definition charAt :: "string \<Rightarrow> nat \<Rightarrow> string" where
  "charAt s i = (if i < length s then [s ! i] else [])"

definition hasRelativeSegment :: "string \<Rightarrow> bool" where
  "hasRelativeSegment p = list_ex (\<lambda>segment. segment = ''.'' \<or> segment = ''..'') (splitSlash p)"

definition pathNarrows :: "string \<Rightarrow> string \<Rightarrow> bool" where
  "pathNarrows childPath parentPath =
     (if hasRelativeSegment childPath \<or> hasRelativeSegment parentPath then False
      else if childPath = parentPath then True
      else if \<not> startsWith childPath parentPath then False
      else if endsWithSlash parentPath then True
      else charAt childPath (length parentPath) = ''/'')"

definition scopeNarrows :: "capability_scope \<Rightarrow> capability_scope \<Rightarrow> bool" where
  "scopeNarrows parent child =
     (if kind parent \<noteq> kind child then False
      else case path parent of
             None \<Rightarrow> True
           | Some pp \<Rightarrow> (case path child of None \<Rightarrow> False | Some cp \<Rightarrow> pathNarrows cp pp))"

subsection \<open>Byte equality\<close>

lemma bytesEqual_iff [simp]: "bytesEqual a b \<longleftrightarrow> a = b"
  by (auto simp: bytesEqual_def list_all_iff intro: nth_equalityI)

subsection \<open>Paths as segment lists\<close>

lemma splitSlash_nonempty [simp]: "splitSlash s \<noteq> []"
  by (cases s) auto

lemma splitSlash_append_slash:
  "splitSlash (s @ CHR ''/'' # t) = splitSlash s @ splitSlash t"
  by (induction s) (auto simp: tl_append split: list.splits)

lemma hd_tl_splitSlash [simp]: "hd (splitSlash s) # tl (splitSlash s) = splitSlash s"
  by (rule list.collapse) simp

text \<open>\<open>joinSlash\<close> is \<open>Array.prototype.join("/")\<close>, the inverse of \<open>split\<close>.\<close>

fun joinSlash :: "string list \<Rightarrow> string" where
  "joinSlash [] = []"
| "joinSlash [x] = x"
| "joinSlash (x # y # ys) = x @ CHR ''/'' # joinSlash (y # ys)"

lemma joinSlash_Cons: "ys \<noteq> [] \<Longrightarrow> joinSlash (x # ys) = x @ CHR ''/'' # joinSlash ys"
  by (cases ys) auto

lemma join_split [simp]: "joinSlash (splitSlash s) = s"
proof (induction s)
  case (Cons c cs)
  have "joinSlash ((c # hd (splitSlash cs)) # tl (splitSlash cs)) = c # joinSlash (splitSlash cs)"
    by (cases "splitSlash cs"; cases "tl (splitSlash cs)") auto
  with Cons show ?case by (simp add: joinSlash_Cons)
qed simp

lemma splitSlash_inject [simp]: "splitSlash s = splitSlash t \<longleftrightarrow> s = t"
  by (metis join_split)

lemma splitSlash_prefix_iff:
  "prefix (splitSlash p) (splitSlash c) \<longleftrightarrow> c = p \<or> (\<exists>r. c = p @ CHR ''/'' # r)"
proof
  assume "prefix (splitSlash p) (splitSlash c)"
  then obtain rs where rs: "splitSlash c = splitSlash p @ rs" by (auto simp: prefix_def)
  show "c = p \<or> (\<exists>r. c = p @ CHR ''/'' # r)"
  proof (cases "rs = []")
    case True
    with rs show ?thesis by simp
  next
    case False
    have "joinSlash (xs @ rs) = joinSlash xs @ CHR ''/'' # joinSlash rs" if "xs \<noteq> []" for xs
      using that False by (induction xs rule: joinSlash.induct) (auto simp: joinSlash_Cons)
    from this [of "splitSlash p"] rs [symmetric] show ?thesis
      by (metis join_split splitSlash_nonempty)
  qed
qed (auto simp: splitSlash_append_slash)

lemma startsWith_iff: "startsWith s p \<longleftrightarrow> (\<exists>r. s = p @ r)"
  by (metis append_eq_conv_conj append_take_drop_id startsWith_def)

lemma endsWithSlash_iff: "endsWithSlash p \<longleftrightarrow> (\<exists>q. p = q @ ''/'')"
  unfolding endsWithSlash_def by (metis append_butlast_last_id last_snoc snoc_eq_iff_butlast)

lemma charAt_append_slash: "charAt (p @ r) (length p) = ''/'' \<longleftrightarrow> (\<exists>t. r = CHR ''/'' # t)"
  by (cases r) (auto simp: charAt_def)

text \<open>The lexical test, in terms of the strings.\<close>

lemma pathNarrows_iff:
  "pathNarrows c p \<longleftrightarrow>
     \<not> hasRelativeSegment c \<and> \<not> hasRelativeSegment p \<and>
     (c = p \<or> (\<exists>r. c = p @ CHR ''/'' # r) \<or> endsWithSlash p \<and> (\<exists>r. c = p @ r))"
  unfolding pathNarrows_def startsWith_iff
  by (auto simp: charAt_append_slash)

lemma pathNarrows_trans: "pathNarrows c b \<Longrightarrow> pathNarrows b a \<Longrightarrow> pathNarrows c a"
  unfolding pathNarrows_iff by fastforce

lemma scopeNarrows_trans: "scopeNarrows a b \<Longrightarrow> scopeNarrows b c \<Longrightarrow> scopeNarrows a c"
  unfolding scopeNarrows_def
  by (auto split: if_splits option.splits dest: pathNarrows_trans)

subsection \<open>A chain of links stays below its root\<close>

text \<open>
  What a walk up a delegation chain relies on: each link is in a transitive relation, so the
  whole chain is. The relation reads "the second is no wider than the first".
\<close>

locale attenuation =
  fixes wider :: "'a \<Rightarrow> 'a \<Rightarrow> bool"
  assumes wider_trans: "wider a b \<Longrightarrow> wider b c \<Longrightarrow> wider a c"
begin

text \<open>\<open>chain\<close> lists a leaf's ancestors from the leaf to the root.\<close>

fun chain :: "'a list \<Rightarrow> bool" where
  "chain [] = True"
| "chain [x] = True"
| "chain (x # y # ys) = (wider y x \<and> chain (y # ys))"

lemma chain_root: "chain (x # xs) \<Longrightarrow> xs \<noteq> [] \<Longrightarrow> wider (last xs) x"
proof (induction xs arbitrary: x)
  case (Cons y ys)
  then show ?case
    by (cases "ys = []") (auto intro: wider_trans)
qed simp

lemma chain_all: "chain (x # xs) \<Longrightarrow> y \<in> set xs \<Longrightarrow> wider y x"
proof (induction xs arbitrary: x)
  case (Cons z zs)
  then show ?case by (auto intro: wider_trans)
qed simp

lemma chain_tl: "chain (x # xs) \<Longrightarrow> chain xs"
  by (cases xs) auto

end

interpretation scope_att: attenuation scopeNarrows
  by unfold_locales (rule scopeNarrows_trans)

interpretation path_att: attenuation "\<lambda>p c. pathNarrows c p"
  by unfold_locales (rule pathNarrows_trans)

subsection \<open>Segment containment\<close>

lemma endsWithSlash_split: "endsWithSlash p \<Longrightarrow> \<exists>q. p = q @ ''/'' \<and> splitSlash p = splitSlash q @ [[]]"
  by (auto simp: endsWithSlash_iff splitSlash_append_slash)

text \<open>The segments a path denotes: a trailing slash adds no segment of its own.\<close>

definition segments :: "string \<Rightarrow> string list" where
  "segments p = (if endsWithSlash p then butlast (splitSlash p) else splitSlash p)"

lemma pathNarrows_contained:
  "pathNarrows c p \<Longrightarrow> prefix (segments p) (splitSlash c)"
  unfolding pathNarrows_iff segments_def
  by (cases "endsWithSlash p") (auto dest!: endsWithSlash_split simp: splitSlash_append_slash)

lemma pathNarrows_not_bare: "pathNarrows c p \<Longrightarrow> endsWithSlash p \<Longrightarrow> segments p \<noteq> splitSlash c"
  unfolding pathNarrows_iff segments_def
  by (auto dest!: endsWithSlash_split simp: splitSlash_append_slash)

lemma contained_pathNarrows:
  assumes "\<not> hasRelativeSegment c" and "\<not> hasRelativeSegment p"
    and "prefix (segments p) (splitSlash c)" and "endsWithSlash p \<Longrightarrow> segments p \<noteq> splitSlash c"
  shows "pathNarrows c p"
proof (cases "endsWithSlash p")
  case True
  then obtain q where q: "p = q @ ''/''" "splitSlash p = splitSlash q @ [[]]"
    using endsWithSlash_split by blast
  with True have "segments p = splitSlash q" by (simp add: segments_def)
  with assms True obtain r where "c = q @ CHR ''/'' # r"
    by (auto simp: splitSlash_prefix_iff)
  with assms True q show ?thesis by (auto simp: pathNarrows_iff)
next
  case False
  with assms show ?thesis by (simp add: segments_def splitSlash_prefix_iff pathNarrows_iff)
qed

end
