(* ===== verification/TokenPredicates.thy ===== *)
theory TokenPredicates
  imports DeviceIds TokenScope
begin

text \<open>
  \<open>ts/packages/core/src/domain/token-predicates.ts\<close>: the delegate systems a verifier
  registers, the five mandatory narrowing checks, and the evaluation of a token's own
  \<open>conditions\<close>.

  The predicate evaluator is the third-party package \<open>trilean\<close>. It is the parameter
  \<open>evaluator\<close> of every definition that calls it; \<open>trilean_spec\<close> collects what the source
  relies on: comparing a delegate with a boolean literal is definite when the resolver found a
  boolean and indeterminate when it found nothing, negation and conjunction follow Kleene on
  definite operands, and negation keeps indeterminacy.
\<close>

subsection \<open>Tokens' claims\<close>

record identity_key =
  alg :: int
  public_key :: bytes

record token_claims =
  token_id :: bytes
  issuer :: device_id
  issuer_key :: identity_key
  bearer :: device_id
  capability :: string
  scope :: capability_scope
  expires :: int
  not_before :: "int option"
  valid_until :: "int option"
  parent :: "bytes option"
  delegations_remaining :: "int option"
  conditions :: "bytes option"
  authorised_by :: "bytes option"
  grants_capability :: "string option"
  requests_capability :: "string option"

subsection \<open>trilean's nodes and results\<close>

datatype json_value = JNull | JBool bool | JNumber int | JString string | JArray "json_value list"
  | JObject "(string \<times> json_value) list" | JBytes bytes

datatype computed_value = BooleanValue bool | OtherValue json_value

datatype resolution = NotFound | Found computed_value

datatype expression_node = Delegate string json_value | BooleanLiteral bool | OtherExpression json_value

datatype predicate_node =
    Compare string expression_node expression_node
  | NotNode predicate_node
  | AndNode predicate_node predicate_node
  | OtherPredicate json_value

datatype evaluation = Definite bool | Indeterminate

type_synonym delegate_resolver = "string \<Rightarrow> json_value \<Rightarrow> resolution"
type_synonym evaluator = "predicate_node \<Rightarrow> delegate_resolver \<Rightarrow> evaluation"

definition trilean_spec :: "evaluator \<Rightarrow> bool" where
  "trilean_spec ev \<longleftrightarrow>
     (\<forall>system payload lit res v.
        res system payload = Found (BooleanValue v) \<longrightarrow>
        ev (Compare ''eq'' (Delegate system payload) (BooleanLiteral lit)) res = Definite (v = lit)) \<and>
     (\<forall>system payload lit res.
        res system payload = NotFound \<longrightarrow>
        ev (Compare ''eq'' (Delegate system payload) (BooleanLiteral lit)) res = Indeterminate) \<and>
     (\<forall>p res b. ev p res = Definite b \<longrightarrow> ev (NotNode p) res = Definite (\<not> b)) \<and>
     (\<forall>p res. ev p res = Indeterminate \<longrightarrow> ev (NotNode p) res = Indeterminate) \<and>
     (\<forall>p q res a b. ev p res = Definite a \<longrightarrow> ev q res = Definite b \<longrightarrow>
        ev (AndNode p q) res = Definite (a \<and> b))"

subsection \<open>The delegate systems\<close>

datatype narrowing_system = BEARER_IS | EXPIRES_AT | SCOPE_NARROWS | CAPABILITY_IS | DEPTH_REMAINING

fun system_name :: "narrowing_system \<Rightarrow> string" where
  "system_name BEARER_IS = ''bearer-is''"
| "system_name EXPIRES_AT = ''expires-at''"
| "system_name SCOPE_NARROWS = ''scope-narrows''"
| "system_name CAPABILITY_IS = ''capability-is''"
| "system_name DEPTH_REMAINING = ''depth-remaining''"

definition NARROWING_SYSTEMS :: "narrowing_system list" where
  "NARROWING_SYSTEMS = [BEARER_IS, EXPIRES_AT, SCOPE_NARROWS, CAPABILITY_IS, DEPTH_REMAINING]"

text \<open>\<open>isNarrowingSystem\<close> with the narrowed type as its result.\<close>

definition isNarrowingSystem :: "string \<Rightarrow> narrowing_system option" where
  "isNarrowingSystem system = List.find (\<lambda>s. system_name s = system) NARROWING_SYSTEMS"

record narrowing_candidate =
  nc_capability :: string
  nc_scope :: capability_scope
  nc_expires :: int
  nc_delegationsRemaining :: "int option"

record token_predicate_context =
  childIssuer :: device_id
  candidate :: narrowing_candidate
  parentClaims :: "token_claims option"

record grant_subject =
  gs_capability :: string
  gs_scope :: capability_scope
  gs_bearer :: device_id
  gs_expires :: int
  gs_delegationsRemaining :: "int option"

record conditions_context =
  cc_now :: int
  cc_claims :: token_claims
  cc_subject :: "grant_subject option"

definition GRANTEE_IS :: string where "GRANTEE_IS = ''grantee-is''"
definition GRANTED_CAPABILITY_IS :: string where "GRANTED_CAPABILITY_IS = ''granted-capability-is''"

definition isSubjectSystem :: "string \<Rightarrow> bool" where
  "isSubjectSystem system \<longleftrightarrow> system = GRANTEE_IS \<or> system = GRANTED_CAPABILITY_IS"

definition booleanFound :: "bool \<Rightarrow> resolution" where
  "booleanFound value = Found (BooleanValue value)"

definition subjectHandlers :: "string \<Rightarrow> json_value \<Rightarrow> conditions_context \<Rightarrow> resolution" where
  "subjectHandlers system payload context =
     (case cc_subject context of
        None \<Rightarrow> NotFound
      | Some subject \<Rightarrow>
          (case payload of
             JString p \<Rightarrow>
               (if system = GRANTEE_IS then booleanFound (deviceIdToHex (gs_bearer subject) = p)
                else booleanFound (gs_capability subject = p))
           | _ \<Rightarrow> NotFound))"

fun narrowingHandlers :: "narrowing_system \<Rightarrow> token_predicate_context \<Rightarrow> resolution" where
  "narrowingHandlers BEARER_IS context =
     (case parentClaims context of None \<Rightarrow> booleanFound False
      | Some pc \<Rightarrow> booleanFound (bytesEqual (bearer pc) (childIssuer context)))"
| "narrowingHandlers EXPIRES_AT context =
     (case parentClaims context of None \<Rightarrow> booleanFound False
      | Some pc \<Rightarrow> booleanFound (nc_expires (candidate context) \<le> expires pc))"
| "narrowingHandlers SCOPE_NARROWS context =
     (case parentClaims context of None \<Rightarrow> booleanFound False
      | Some pc \<Rightarrow> booleanFound (scopeNarrows (scope pc) (nc_scope (candidate context))))"
| "narrowingHandlers CAPABILITY_IS context =
     (case parentClaims context of None \<Rightarrow> booleanFound False
      | Some pc \<Rightarrow> booleanFound (capability pc = nc_capability (candidate context)))"
| "narrowingHandlers DEPTH_REMAINING context =
     (case parentClaims context of None \<Rightarrow> booleanFound False
      | Some pc \<Rightarrow>
          (case delegations_remaining pc of
             None \<Rightarrow> booleanFound True
           | Some parentRemaining \<Rightarrow>
               booleanFound (case nc_delegationsRemaining (candidate context) of
                               None \<Rightarrow> False
                             | Some r \<Rightarrow> r < parentRemaining)))"

definition delegateIsTrue :: "string \<Rightarrow> json_value \<Rightarrow> predicate_node" where
  "delegateIsTrue system payload =
     Compare ''eq'' (Delegate system payload) (BooleanLiteral True)"

definition noSelfGrantBar :: "string \<Rightarrow> device_id \<Rightarrow> predicate_node" where
  "noSelfGrantBar cap device =
     NotNode (AndNode (delegateIsTrue GRANTED_CAPABILITY_IS (JString cap))
                      (delegateIsTrue GRANTEE_IS (JString (deviceIdToHex device))))"

definition narrowingResolver :: "token_predicate_context \<Rightarrow> delegate_resolver" where
  "narrowingResolver context system payload =
     (case isNarrowingSystem system of
        None \<Rightarrow> NotFound
      | Some s \<Rightarrow> narrowingHandlers s context)"

definition unsatisfied :: "evaluation \<Rightarrow> bool" where
  "unsatisfied result = (case result of Indeterminate \<Rightarrow> True | Definite value \<Rightarrow> \<not> value)"

definition evaluateNarrowing ::
  "evaluator \<Rightarrow> token_claims \<Rightarrow> device_id \<Rightarrow> narrowing_candidate \<Rightarrow> narrowing_system option" where
  "evaluateNarrowing ev parent_claims child_issuer cand =
     (let context = \<lparr>childIssuer = child_issuer, candidate = cand, parentClaims = Some parent_claims\<rparr>
      in the (firstAsync NARROWING_SYSTEMS
           (\<lambda>system. Some (unsatisfied
              (ev (delegateIsTrue (system_name system) JNull) (narrowingResolver context))))))"

text \<open>
  Handlers a domain registers for its own conditions. A handler may throw; both call sites turn
  that into "not found".
\<close>

type_synonym extra_handlers = "(string \<times> (json_value \<Rightarrow> conditions_context \<Rightarrow> string + resolution)) list"

definition conditionsResolver ::
  "extra_handlers \<Rightarrow> conditions_context \<Rightarrow> delegate_resolver" where
  "conditionsResolver extraHandlers context system payload =
     (if cc_subject context \<noteq> None \<and> isSubjectSystem system
      then subjectHandlers system payload context
      else case map_of extraHandlers system of
             None \<Rightarrow> NotFound
           | Some handler \<Rightarrow> (case handler payload context of Inl _ \<Rightarrow> NotFound | Inr r \<Rightarrow> r))"

text \<open>\<open>True\<close> is \<open>ok\<close>, \<open>False\<close> the reason \<open>not_satisfied\<close>.\<close>

definition evaluateConditions ::
  "evaluator \<Rightarrow> predicate_node list \<Rightarrow> token_claims \<Rightarrow> int \<Rightarrow> extra_handlers \<Rightarrow> grant_subject option \<Rightarrow> bool" where
  "evaluateConditions ev nodes claims now extraHandlers subject =
     (let context = \<lparr>cc_now = now, cc_claims = claims, cc_subject = subject\<rparr>
      in the (firstAsync nodes
           (\<lambda>node. Some (unsatisfied (ev node (conditionsResolver extraHandlers context))))) = None)"

subsection \<open>What narrowing means\<close>

text \<open>The specification of one delegation link, as the schema states it.\<close>

definition narrows :: "token_claims \<Rightarrow> device_id \<Rightarrow> narrowing_candidate \<Rightarrow> bool" where
  "narrows pc child_issuer cand \<longleftrightarrow>
     bearer pc = child_issuer \<and>
     nc_expires cand \<le> expires pc \<and>
     scopeNarrows (scope pc) (nc_scope cand) \<and>
     capability pc = nc_capability cand \<and>
     (\<forall>n. delegations_remaining pc = Some n \<longrightarrow> (\<exists>m. nc_delegationsRemaining cand = Some m \<and> m < n))"

fun holds :: "narrowing_system \<Rightarrow> token_claims \<Rightarrow> device_id \<Rightarrow> narrowing_candidate \<Rightarrow> bool" where
  "holds BEARER_IS pc i cand = (bearer pc = i)"
| "holds EXPIRES_AT pc i cand = (nc_expires cand \<le> expires pc)"
| "holds SCOPE_NARROWS pc i cand = scopeNarrows (scope pc) (nc_scope cand)"
| "holds CAPABILITY_IS pc i cand = (capability pc = nc_capability cand)"
| "holds DEPTH_REMAINING pc i cand =
     (case delegations_remaining pc of None \<Rightarrow> True
      | Some n \<Rightarrow> (case nc_delegationsRemaining cand of None \<Rightarrow> False | Some m \<Rightarrow> m < n))"

lemma isNarrowingSystem_name [simp]: "isNarrowingSystem (system_name s) = Some s"
  by (cases s) (simp_all add: isNarrowingSystem_def NARROWING_SYSTEMS_def)

lemma trilean_compare_found:
  "trilean_spec ev \<Longrightarrow> res system payload = Found (BooleanValue v) \<Longrightarrow>
     ev (delegateIsTrue system payload) res = Definite v"
  by (simp add: trilean_spec_def delegateIsTrue_def)

lemma trilean_compare_not_found:
  "trilean_spec ev \<Longrightarrow> res system payload = NotFound \<Longrightarrow>
     ev (delegateIsTrue system payload) res = Indeterminate"
  by (simp add: trilean_spec_def delegateIsTrue_def)

lemma narrowing_resolves:
  "narrowingResolver \<lparr>childIssuer = i, candidate = cand, parentClaims = Some pc\<rparr> (system_name s) p =
     Found (BooleanValue (holds s pc i cand))"
  unfolding narrowingResolver_def isNarrowingSystem_name
  by (cases s) (simp_all add: booleanFound_def split: option.splits)

lemma evaluateNarrowing_find:
  assumes "trilean_spec ev"
  shows "evaluateNarrowing ev pc i cand = List.find (\<lambda>s. \<not> holds s pc i cand) NARROWING_SYSTEMS"
proof -
  have "ev (delegateIsTrue (system_name s) JNull)
          (narrowingResolver \<lparr>childIssuer = i, candidate = cand, parentClaims = Some pc\<rparr>) =
        Definite (holds s pc i cand)" for s
    by (rule trilean_compare_found [OF assms]) (rule narrowing_resolves)
  then show ?thesis
    by (simp add: evaluateNarrowing_def firstAsync_total unsatisfied_def)
qed

lemma narrows_iff_holds: "narrows pc i cand \<longleftrightarrow> (\<forall>s \<in> set NARROWING_SYSTEMS. holds s pc i cand)"
  by (auto simp: narrows_def NARROWING_SYSTEMS_def split: option.splits)

lemma evaluateNarrowing_None_iff:
  "trilean_spec ev \<Longrightarrow> evaluateNarrowing ev pc i cand = None \<longleftrightarrow> narrows pc i cand"
  by (auto simp: evaluateNarrowing_find narrows_iff_holds find_None_iff)

subsection \<open>Conditions\<close>

lemma evaluateConditions_iff:
  "evaluateConditions ev nodes claims now extra subject \<longleftrightarrow>
     (\<forall>node \<in> set nodes.
        ev node (conditionsResolver extra \<lparr>cc_now = now, cc_claims = claims, cc_subject = subject\<rparr>) = Definite True)"
proof -
  have "unsatisfied e \<longleftrightarrow> e \<noteq> Definite True" for e
    by (cases e) (auto simp: unsatisfied_def)
  then show ?thesis
    by (auto simp: evaluateConditions_def firstAsync_total find_None_iff)
qed

lemma evaluateConditions_refuted:
  "node \<in> set nodes \<Longrightarrow>
     ev node (conditionsResolver extra \<lparr>cc_now = now, cc_claims = claims, cc_subject = subject\<rparr>) = Definite False \<Longrightarrow>
     \<not> evaluateConditions ev nodes claims now extra subject"
  unfolding evaluateConditions_iff by (metis evaluation.inject)

lemma subject_resolver:
  "isSubjectSystem system \<Longrightarrow> cc_subject context = Some s \<Longrightarrow>
     conditionsResolver extra context system payload = subjectHandlers system payload context"
  by (simp add: conditionsResolver_def)

lemma noSelfGrantBar_eval:
  assumes "trilean_spec ev" and "cc_subject context = Some s"
  shows "ev (noSelfGrantBar cap device) (conditionsResolver extra context) =
           Definite (\<not> (gs_capability s = cap \<and> gs_bearer s = device))"
proof -
  let ?res = "conditionsResolver extra context"
  have cap: "ev (delegateIsTrue GRANTED_CAPABILITY_IS (JString cap)) ?res = Definite (gs_capability s = cap)"
    by (rule trilean_compare_found [OF assms(1)])
      (simp add: subject_resolver [OF _ assms(2)] isSubjectSystem_def subjectHandlers_def assms(2)
        booleanFound_def GRANTED_CAPABILITY_IS_def GRANTEE_IS_def)
  have grantee: "ev (delegateIsTrue GRANTEE_IS (JString (deviceIdToHex device))) ?res =
      Definite (gs_bearer s = device)"
    by (rule trilean_compare_found [OF assms(1)])
      (simp add: subject_resolver [OF _ assms(2)] isSubjectSystem_def subjectHandlers_def assms(2)
        booleanFound_def)
  from cap grantee assms(1) show ?thesis
    by (simp add: trilean_spec_def noSelfGrantBar_def)
qed

subsection \<open>A reference evaluator\<close>

text \<open>
  A concrete evaluator with the specified behaviour, for the witnesses: it decides the nodes
  this module builds and is indeterminate on every other node.
\<close>

fun kleene_eval :: evaluator where
  "kleene_eval (Compare op (Delegate system payload) (BooleanLiteral lit)) res =
     (if op = ''eq'' then
        (case res system payload of
           Found (BooleanValue v) \<Rightarrow> Definite (v = lit)
         | _ \<Rightarrow> Indeterminate)
      else Indeterminate)"
| "kleene_eval (Compare _ _ _) res = Indeterminate"
| "kleene_eval (NotNode p) res =
     (case kleene_eval p res of Definite b \<Rightarrow> Definite (\<not> b) | Indeterminate \<Rightarrow> Indeterminate)"
| "kleene_eval (AndNode p q) res =
     (case (kleene_eval p res, kleene_eval q res) of
        (Definite a, Definite b) \<Rightarrow> Definite (a \<and> b)
      | (Definite False, _) \<Rightarrow> Definite False
      | (_, Definite False) \<Rightarrow> Definite False
      | _ \<Rightarrow> Indeterminate)"
| "kleene_eval (OtherPredicate _) res = Indeterminate"

lemma kleene_eval_spec: "trilean_spec kleene_eval"
  by (simp add: trilean_spec_def split: bool.splits)

end
