(* ===== verification/Tokens.thy ===== *)
theory Tokens
  imports TokenPredicates
begin

text \<open>
  \<open>ts/packages/core/src/domain/tokens.ts\<close>: verification of capability tokens along their
  delegation chains, revocation entries, and minting.

  Code outside the sources enters as parameters, collected in records: the CBOR codec with the
  generated schemas (\<open>cbor_codec\<close>; a decoder that throws or a schema that refuses is
  \<open>None\<close>), the identity port's cryptography (\<open>identity_port\<close>) and trilean's evaluator.
  The clock is read once per verification. A verification may call itself on parents,
  authorisers and the authorisations of revocation entries; the last of these carries no depth
  bound in the source, so the walk is modelled with fuel and not returning is \<open>None\<close>.
\<close>

subsection \<open>Envelopes, ports and options\<close>

record cose_sign1 =
  protectedHeader :: bytes
  unprotectedHeader :: "(int \<times> json_value) list"
  payload :: "bytes option"
  signature :: bytes

record revocation_claims =
  rc_token_id :: bytes
  rc_issuer :: device_id
  rc_issuer_key :: identity_key
  rc_revoked_at :: int
  rc_authorization :: "bytes option"

record identity_port =
  deviceId :: device_id
  identityKey :: identity_key
  sign :: "bytes \<Rightarrow> bytes"
  verify :: "identity_key \<Rightarrow> bytes \<Rightarrow> bytes \<Rightarrow> bool"
  deriveDeviceId :: "bytes \<Rightarrow> device_id"

record cbor_codec =
  dec_claims :: "bytes \<Rightarrow> token_claims option"
  enc_claims :: "token_claims \<Rightarrow> bytes"
  dec_token :: "bytes \<Rightarrow> cose_sign1 option"
  enc_token :: "cose_sign1 \<Rightarrow> bytes"
  dec_conditions :: "bytes \<Rightarrow> predicate_node list option"
  enc_conditions :: "predicate_node list \<Rightarrow> bytes"
  dec_revocation :: "bytes \<Rightarrow> revocation_claims option"
  enc_revocation :: "revocation_claims \<Rightarrow> bytes"
  enc_sig_structure :: "string \<times> bytes \<times> bytes \<times> bytes \<Rightarrow> bytes"
  enc_header :: "int \<times> device_id \<Rightarrow> bytes"

record verify_env =
  env_codec :: cbor_codec
  env_identity :: identity_port
  env_evaluator :: evaluator
  env_now :: int
  env_revocation :: "bytes \<Rightarrow> revocation_claims list"
  env_extra :: extra_handlers

definition MANAGE_GRANT_CAPABILITY :: string where "MANAGE_GRANT_CAPABILITY = ''manage:grant''"
definition MANAGE_REVOKE_CAPABILITY :: string where "MANAGE_REVOKE_CAPABILITY = ''manage:revoke''"
definition MAX_CHAIN_DEPTH :: nat where "MAX_CHAIN_DEPTH = 64"

datatype token_verdict_reason =
    malformed | bad_signature | wrong_issuer | bearer_mismatch | expired | not_yet_valid
  | content_expired | revoked | delegation_exceeds_parent | parent_invalid | authorisation_invalid
  | chain_too_deep | chain_cycle | conditions_invalid | conditions_not_satisfied

datatype token_verdict =
    Accepted (v_claims: token_claims) (v_rootIssuer: device_id) (v_rootIssuerKey: identity_key) (v_depth: nat)
  | Refused token_verdict_reason

subsection \<open>Signing structure\<close>

definition sig1ToBeSigned :: "cbor_codec \<Rightarrow> bytes \<Rightarrow> bytes \<Rightarrow> bytes" where
  "sig1ToBeSigned codec header body = enc_sig_structure codec (''Signature1'', header, [], body)"

definition protectedHeaderFor :: "cbor_codec \<Rightarrow> identity_port \<Rightarrow> bytes" where
  "protectedHeaderFor codec identity = enc_header codec (alg (identityKey identity), deviceId identity)"

definition decodeTokenClaims :: "cbor_codec \<Rightarrow> cose_sign1 \<Rightarrow> token_claims option" where
  "decodeTokenClaims codec token =
     (case payload token of None \<Rightarrow> None | Some body \<Rightarrow> dec_claims codec body)"

subsection \<open>Verification\<close>

text \<open>
  The checks a token passes on its own, before anything is looked up: shape, depth, cycle,
  signature, self-certifying issuer and the three time bounds. The result carries the decoded
  claims and the payloads seen on the path.
\<close>

definition checkEnvelope ::
  "verify_env \<Rightarrow> cose_sign1 \<Rightarrow> nat \<Rightarrow> string list \<Rightarrow> token_verdict_reason + token_claims \<times> string list" where
  "checkEnvelope env token depth seen =
     (case payload token of
        None \<Rightarrow> Err malformed
      | Some body \<Rightarrow>
          if depth \<ge> MAX_CHAIN_DEPTH then Err chain_too_deep
          else if bytesToHex body \<in> set seen then Err chain_cycle
          else
            (case dec_claims (env_codec env) body of
               None \<Rightarrow> Err malformed
             | Some claims \<Rightarrow>
                 if \<not> verify (env_identity env) (issuer_key claims)
                        (sig1ToBeSigned (env_codec env) (protectedHeader token) body) (signature token)
                 then Err bad_signature
                 else if \<not> bytesEqual (deriveDeviceId (env_identity env) (public_key (issuer_key claims)))
                             (issuer claims)
                 then Err wrong_issuer
                 else if expires claims \<le> env_now env then Err expired
                 else if (case not_before claims of None \<Rightarrow> False | Some nb \<Rightarrow> nb > env_now env)
                 then Err not_yet_valid
                 else if (case valid_until claims of None \<Rightarrow> False | Some vu \<Rightarrow> vu \<le> env_now env)
                 then Err content_expired
                 else Ok (claims, sadd seen (bytesToHex body))))"

text \<open>
  \<open>verifyCapabilityToken\<close>, over the walk it starts: the bearer is checked on the leaf only.
\<close>

definition checkBearer :: "token_verdict option \<Rightarrow> device_id option \<Rightarrow> token_verdict option" where
  "checkBearer walk expectedBearer =
     (case walk of
        None \<Rightarrow> None
      | Some (Refused r) \<Rightarrow> Some (Refused r)
      | Some (Accepted c root key d) \<Rightarrow>
          (case expectedBearer of
             None \<Rightarrow> Some (Accepted c root key d)
           | Some b \<Rightarrow> if \<not> bytesEqual (bearer c) b then Some (Refused bearer_mismatch)
                       else Some (Accepted c root key d)))"

definition revocationEntryGrantsRevoke ::
  "(cose_sign1 \<Rightarrow> token_verdict option) \<Rightarrow> verify_env \<Rightarrow> revocation_claims \<Rightarrow> token_claims \<Rightarrow> bool option" where
  "revocationEntryGrantsRevoke walk env entry targetClaims =
     (if bytesEqual (rc_issuer entry) (issuer targetClaims) then Some True
      else case rc_authorization entry of
             None \<Rightarrow> Some False
           | Some bs \<Rightarrow>
               (case dec_token (env_codec env) bs of
                  None \<Rightarrow> Some False
                | Some authorization \<Rightarrow>
                    (case checkBearer (walk authorization) (Some (rc_issuer entry)) of
                       None \<Rightarrow> None
                     | Some (Refused _) \<Rightarrow> Some False
                     | Some (Accepted c _ _ _) \<Rightarrow>
                         Some (capability c = MANAGE_REVOKE_CAPABILITY
                               \<and> scopeNarrows (scope c) (scope targetClaims)))))"

definition checkConditions ::
  "verify_env \<Rightarrow> token_claims \<Rightarrow> grant_subject option \<Rightarrow> token_verdict_reason option" where
  "checkConditions env claims subject =
     (case conditions claims of
        None \<Rightarrow> None
      | Some bs \<Rightarrow>
          (case dec_conditions (env_codec env) bs of
             None \<Rightarrow> Some conditions_invalid
           | Some nodes \<Rightarrow>
               if evaluateConditions (env_evaluator env) nodes claims (env_now env) (env_extra env) subject
               then None else Some conditions_not_satisfied))"

definition candidateOf :: "token_claims \<Rightarrow> narrowing_candidate" where
  "candidateOf claims =
     \<lparr>nc_capability = capability claims, nc_scope = scope claims, nc_expires = expires claims,
      nc_delegationsRemaining = delegations_remaining claims\<rparr>"

text \<open>
  The claims passed as the subject of an authoriser: the handlers read the capability and the
  bearer; the claims object has no field \<open>delegationsRemaining\<close> under that name.
\<close>

definition subjectOf :: "token_claims \<Rightarrow> grant_subject" where
  "subjectOf claims =
     \<lparr>gs_capability = capability claims, gs_scope = scope claims, gs_bearer = bearer claims,
      gs_expires = expires claims, gs_delegationsRemaining = None\<rparr>"

definition walkReason :: "token_verdict_reason \<Rightarrow> token_verdict_reason \<Rightarrow> token_verdict_reason" where
  "walkReason r otherwise = (if r = chain_too_deep \<or> r = chain_cycle then r else otherwise)"

definition parentLink :: "verify_env \<Rightarrow> token_claims \<Rightarrow> token_verdict \<Rightarrow> token_verdict" where
  "parentLink env claims parentVerdict =
     (case parentVerdict of
        Refused r \<Rightarrow> Refused (walkReason r parent_invalid)
      | Accepted pc root key d \<Rightarrow>
          (case evaluateNarrowing (env_evaluator env) pc (issuer claims) (candidateOf claims) of
             Some _ \<Rightarrow> Refused delegation_exceeds_parent
           | None \<Rightarrow> Accepted claims root key (d + 1)))"

definition linkOk :: "token_claims \<Rightarrow> token_claims \<Rightarrow> bool" where
  "linkOk authoriser claims \<longleftrightarrow>
     bytesEqual (bearer authoriser) (issuer claims) \<and>
     capability authoriser = MANAGE_GRANT_CAPABILITY \<and>
     (case grants_capability authoriser of None \<Rightarrow> True | Some g \<Rightarrow> g = capability claims) \<and>
     scopeNarrows (scope authoriser) (scope claims) \<and>
     expires claims \<le> expires authoriser \<and>
     (case delegations_remaining authoriser of
        None \<Rightarrow> True
      | Some n \<Rightarrow> (case delegations_remaining claims of None \<Rightarrow> False | Some m \<Rightarrow> m < n))"

definition authoriserLink :: "token_claims \<Rightarrow> token_verdict \<Rightarrow> token_verdict" where
  "authoriserLink claims authoriserVerdict =
     (case authoriserVerdict of
        Refused r \<Rightarrow> Refused (walkReason r authorisation_invalid)
      | Accepted ac root key d \<Rightarrow>
          if \<not> linkOk ac claims then Refused authorisation_invalid
          else Accepted claims root key (d + 1))"

text \<open>
  The link a token hangs from: a parent it narrows, an authoriser that permitted it, or none.
  \<open>walk\<close> is the recursive call, with the subject, depth and path of the link.
\<close>

type_synonym chain_walk =
  "cose_sign1 \<Rightarrow> grant_subject option \<Rightarrow> nat \<Rightarrow> string list \<Rightarrow> token_verdict option"

definition checkLinks ::
  "chain_walk \<Rightarrow> verify_env \<Rightarrow> token_claims \<Rightarrow> nat \<Rightarrow> string list \<Rightarrow> token_verdict option" where
  "checkLinks walk env claims depth deeperSeen =
     (if capability claims = MANAGE_GRANT_CAPABILITY \<and> parent claims \<noteq> None
      then Some (Refused authorisation_invalid)
      else if parent claims \<noteq> None \<and> authorised_by claims \<noteq> None then Some (Refused malformed)
      else
        (case parent claims of
           Some bs \<Rightarrow>
             (case dec_token (env_codec env) bs of
                None \<Rightarrow> Some (Refused parent_invalid)
              | Some parentToken \<Rightarrow>
                  map_option (parentLink env claims) (walk parentToken None (depth + 1) deeperSeen))
         | None \<Rightarrow>
             (case authorised_by claims of
                Some bs \<Rightarrow>
                  (case dec_token (env_codec env) bs of
                     None \<Rightarrow> Some (Refused authorisation_invalid)
                   | Some authoriser \<Rightarrow>
                       map_option (authoriserLink claims)
                         (walk authoriser (Some (subjectOf claims)) (depth + 1) deeperSeen))
              | None \<Rightarrow> Some (Accepted claims (issuer claims) (issuer_key claims) 0))))"

text \<open>
  One call of \<open>verifyTokenChain\<close>, over the walk its recursive calls make; a revocation entry's
  authorization is verified as a leaf of its own, at depth 0 and with nothing seen.
\<close>

definition chainStep :: "chain_walk \<Rightarrow> verify_env \<Rightarrow> chain_walk" where
  "chainStep walk env token subject depth seen =
     (case checkEnvelope env token depth seen of
        Inl r \<Rightarrow> Some (Refused r)
      | Inr (claims, deeperSeen) \<Rightarrow>
          (case firstAsync (env_revocation env (token_id claims))
                  (\<lambda>entry. revocationEntryGrantsRevoke (\<lambda>t. walk t None 0 []) env entry claims) of
             None \<Rightarrow> None
           | Some (Some _) \<Rightarrow> Some (Refused revoked)
           | Some None \<Rightarrow>
               (case checkConditions env claims subject of
                  Some r \<Rightarrow> Some (Refused r)
                | None \<Rightarrow> checkLinks walk env claims depth deeperSeen)))"

primrec verifyTokenChain :: "nat \<Rightarrow> verify_env \<Rightarrow> chain_walk" where
  "verifyTokenChain 0 env = (\<lambda>token subject depth seen. None)"
| "verifyTokenChain (Suc fuel) env = chainStep (verifyTokenChain fuel env) env"

definition verifyCapabilityToken ::
  "nat \<Rightarrow> verify_env \<Rightarrow> cose_sign1 \<Rightarrow> device_id option \<Rightarrow> token_verdict option" where
  "verifyCapabilityToken fuel env token expectedBearer =
     checkBearer (verifyTokenChain fuel env token None 0 []) expectedBearer"

subsection \<open>Revocation entries\<close>

datatype revocation_entry_reason = re_malformed | re_bad_signature | re_wrong_issuer

definition verifyRevocationEntry ::
  "cbor_codec \<Rightarrow> identity_port \<Rightarrow> cose_sign1 \<Rightarrow> revocation_entry_reason + revocation_claims" where
  "verifyRevocationEntry codec identity entry =
     (case payload entry of
        None \<Rightarrow> Err re_malformed
      | Some body \<Rightarrow>
          (case dec_revocation codec body of
             None \<Rightarrow> Err re_malformed
           | Some claims \<Rightarrow>
               if \<not> verify identity (rc_issuer_key claims)
                      (sig1ToBeSigned codec (protectedHeader entry) body) (signature entry)
               then Err re_bad_signature
               else if \<not> bytesEqual (deriveDeviceId identity (public_key (rc_issuer_key claims)))
                           (rc_issuer claims)
               then Err re_wrong_issuer
               else Ok claims))"

subsection \<open>Minting\<close>

datatype mint_refusal_reason =
    already_expired | parent_malformed | parent_bearer_mismatch | expires_exceeds_parent
  | scope_does_not_narrow | capability_mismatch | mint_delegation_exceeds_parent | links_exclusive
  | authorisation_malformed | authorisation_parent_forbidden | authorisation_bearer_mismatch
  | authorisation_capability_mismatch | authorisation_scope_does_not_narrow
  | authorisation_exceeds_authoriser | authorisation_delegation_exceeds
  | authorisation_conditions_not_satisfied

fun NARROWING_SYSTEM_TO_MINT_REFUSAL :: "narrowing_system \<Rightarrow> mint_refusal_reason" where
  "NARROWING_SYSTEM_TO_MINT_REFUSAL BEARER_IS = parent_bearer_mismatch"
| "NARROWING_SYSTEM_TO_MINT_REFUSAL EXPIRES_AT = expires_exceeds_parent"
| "NARROWING_SYSTEM_TO_MINT_REFUSAL SCOPE_NARROWS = scope_does_not_narrow"
| "NARROWING_SYSTEM_TO_MINT_REFUSAL CAPABILITY_IS = capability_mismatch"
| "NARROWING_SYSTEM_TO_MINT_REFUSAL DEPTH_REMAINING = mint_delegation_exceeds_parent"

definition checkNarrowing ::
  "evaluator \<Rightarrow> token_claims \<Rightarrow> device_id \<Rightarrow> narrowing_candidate \<Rightarrow> mint_refusal_reason option" where
  "checkNarrowing ev parent_claims granterDeviceId cand =
     map_option NARROWING_SYSTEM_TO_MINT_REFUSAL (evaluateNarrowing ev parent_claims granterDeviceId cand)"

definition checkAuthorisation ::
  "cbor_codec \<Rightarrow> evaluator \<Rightarrow> token_claims \<Rightarrow> device_id \<Rightarrow> grant_subject \<Rightarrow> mint_refusal_reason option" where
  "checkAuthorisation codec ev authorisingClaims minterDeviceId cand =
     (if parent authorisingClaims \<noteq> None then Some authorisation_parent_forbidden
      else if \<not> bytesEqual (bearer authorisingClaims) minterDeviceId
      then Some authorisation_bearer_mismatch
      else if capability authorisingClaims \<noteq> MANAGE_GRANT_CAPABILITY
           \<or> (case grants_capability authorisingClaims of None \<Rightarrow> False | Some g \<Rightarrow> g \<noteq> gs_capability cand)
      then Some authorisation_capability_mismatch
      else if \<not> scopeNarrows (scope authorisingClaims) (gs_scope cand)
      then Some authorisation_scope_does_not_narrow
      else if gs_expires cand > expires authorisingClaims then Some authorisation_exceeds_authoriser
      else if (case delegations_remaining authorisingClaims of
                 None \<Rightarrow> False
               | Some remaining \<Rightarrow>
                   (case gs_delegationsRemaining cand of None \<Rightarrow> True | Some m \<Rightarrow> m \<ge> remaining))
      then Some authorisation_delegation_exceeds
      else
        (case conditions authorisingClaims of
           None \<Rightarrow> None
         | Some bs \<Rightarrow>
             (case dec_conditions codec bs of
                None \<Rightarrow> Some authorisation_malformed
              | Some nodes \<Rightarrow>
                  if evaluateConditions ev nodes authorisingClaims 0 [] (Some cand) then None
                  else Some authorisation_conditions_not_satisfied)))"

definition canGrant ::
  "cbor_codec \<Rightarrow> evaluator \<Rightarrow> cose_sign1 \<Rightarrow> device_id \<Rightarrow> narrowing_candidate \<Rightarrow> int \<Rightarrow> bool" where
  "canGrant codec ev heldToken device cand now =
     (if nc_expires cand \<le> now then False
      else case decodeTokenClaims codec heldToken of
             None \<Rightarrow> False
           | Some heldClaims \<Rightarrow> checkNarrowing ev heldClaims device cand = None)"

definition canGrantVia ::
  "cbor_codec \<Rightarrow> evaluator \<Rightarrow> cose_sign1 \<Rightarrow> device_id \<Rightarrow> grant_subject \<Rightarrow> int \<Rightarrow> bool" where
  "canGrantVia codec ev heldGrantCapability device cand now =
     (if gs_expires cand \<le> now then False
      else case decodeTokenClaims codec heldGrantCapability of
             None \<Rightarrow> False
           | Some heldClaims \<Rightarrow> checkAuthorisation codec ev heldClaims device cand = None)"

record mint_options =
  mo_identity :: identity_port
  mo_now :: int
  mo_tokenId :: bytes
  mo_bearer :: device_id
  mo_capability :: string
  mo_scope :: capability_scope
  mo_expires :: int
  mo_notBefore :: "int option"
  mo_delegationsRemaining :: "int option"
  mo_parent :: "cose_sign1 option"
  mo_conditions :: "predicate_node list option"
  mo_authorisedBy :: "cose_sign1 option"
  mo_grantsCapability :: "string option"
  mo_requestsCapability :: "string option"

definition mintCandidate :: "mint_options \<Rightarrow> narrowing_candidate" where
  "mintCandidate o' =
     \<lparr>nc_capability = mo_capability o', nc_scope = mo_scope o', nc_expires = mo_expires o',
      nc_delegationsRemaining = mo_delegationsRemaining o'\<rparr>"

definition mintSubject :: "mint_options \<Rightarrow> grant_subject" where
  "mintSubject o' =
     \<lparr>gs_capability = mo_capability o', gs_scope = mo_scope o', gs_bearer = mo_bearer o',
      gs_expires = mo_expires o', gs_delegationsRemaining = mo_delegationsRemaining o'\<rparr>"

definition mintClaims :: "cbor_codec \<Rightarrow> mint_options \<Rightarrow> token_claims" where
  "mintClaims codec o' =
     \<lparr>token_id = mo_tokenId o', issuer = deviceId (mo_identity o'),
      issuer_key = identityKey (mo_identity o'), bearer = mo_bearer o',
      capability = mo_capability o', scope = mo_scope o', expires = mo_expires o',
      not_before = mo_notBefore o', valid_until = None,
      parent = map_option (enc_token codec) (mo_parent o'),
      delegations_remaining = mo_delegationsRemaining o',
      conditions = map_option (enc_conditions codec) (mo_conditions o'),
      authorised_by = map_option (enc_token codec) (mo_authorisedBy o'),
      grants_capability = mo_grantsCapability o', requests_capability = mo_requestsCapability o'\<rparr>"

text \<open>The refusals of one mint, in the order the source tests them.\<close>

definition mintRefusal :: "cbor_codec \<Rightarrow> evaluator \<Rightarrow> mint_options \<Rightarrow> mint_refusal_reason option" where
  "mintRefusal codec ev o' =
     (if mo_expires o' \<le> mo_now o' then Some already_expired
      else if mo_parent o' \<noteq> None \<and> mo_authorisedBy o' \<noteq> None then Some links_exclusive
      else if mo_capability o' = MANAGE_GRANT_CAPABILITY \<and> mo_parent o' \<noteq> None
      then Some authorisation_parent_forbidden
      else
        (case mo_parent o' of
           Some parentToken \<Rightarrow>
             (case decodeTokenClaims codec parentToken of
                None \<Rightarrow> Some parent_malformed
              | Some pc \<Rightarrow> checkNarrowing ev pc (deviceId (mo_identity o')) (mintCandidate o'))
         | None \<Rightarrow>
             (case mo_authorisedBy o' of
                Some authoriser \<Rightarrow>
                  (case decodeTokenClaims codec authoriser of
                     None \<Rightarrow> Some authorisation_malformed
                   | Some ac \<Rightarrow> checkAuthorisation codec ev ac (deviceId (mo_identity o')) (mintSubject o'))
              | None \<Rightarrow> None)))"

definition signEnvelope :: "cbor_codec \<Rightarrow> identity_port \<Rightarrow> bytes \<Rightarrow> cose_sign1" where
  "signEnvelope codec identity body =
     (let header = protectedHeaderFor codec identity
      in \<lparr>protectedHeader = header, unprotectedHeader = [], payload = Some body,
          signature = sign identity (sig1ToBeSigned codec header body)\<rparr>)"

definition mintCapabilityToken ::
  "cbor_codec \<Rightarrow> evaluator \<Rightarrow> mint_options \<Rightarrow> mint_refusal_reason + cose_sign1" where
  "mintCapabilityToken codec ev o' =
     (case mintRefusal codec ev o' of
        Some r \<Rightarrow> Err r
      | None \<Rightarrow> Ok (signEnvelope codec (mo_identity o') (enc_claims codec (mintClaims codec o'))))"

definition mintRevocationEntry ::
  "cbor_codec \<Rightarrow> identity_port \<Rightarrow> bytes \<Rightarrow> int \<Rightarrow> cose_sign1" where
  "mintRevocationEntry codec identity tokenId revokedAt =
     signEnvelope codec identity
       (enc_revocation codec
          \<lparr>rc_token_id = tokenId, rc_issuer = deviceId identity, rc_issuer_key = identityKey identity,
           rc_revoked_at = revokedAt, rc_authorization = None\<rparr>)"

end
