(* ===== verification/TokenChains.thy ===== *)
theory TokenChains
  imports Tokens
begin

text \<open>
  What verification of a capability token establishes. \<open>delegation\<close> is the specification of a
  valid chain: every token authentic, current and not revoked by its own issuer, every link
  narrowing. Acceptance implies such a chain, its root and its length; a chain cannot widen the
  scope or the lifetime of its root; without delegated revocations the walk always returns, and
  with a self-authorising revocation entry it never does.
\<close>

subsection \<open>Fuel\<close>

lemma checkBearer_mono:
  "(\<And>r. w = Some r \<Longrightarrow> w' = Some r) \<Longrightarrow> checkBearer w b = Some v \<Longrightarrow> checkBearer w' b = Some v"
  by (cases w) (auto simp: checkBearer_def)

lemma revocation_mono:
  assumes "\<And>t r. walk t = Some r \<Longrightarrow> walk' t = Some r"
    and "revocationEntryGrantsRevoke walk env entry c = Some r"
  shows "revocationEntryGrantsRevoke walk' env entry c = Some r"
proof -
  have "checkBearer (walk t) b = Some v \<Longrightarrow> checkBearer (walk' t) b = Some v" for t b v
    using assms(1) by (rule checkBearer_mono)
  with assms(2) show ?thesis
    unfolding revocationEntryGrantsRevoke_def
    by (fastforce split: if_splits option.splits token_verdict.splits)
qed

lemma checkLinks_mono:
  assumes "\<And>t s d l r. walk t s d l = Some r \<Longrightarrow> walk' t s d l = Some r"
    and "checkLinks walk env c d l = Some r"
  shows "checkLinks walk' env c d l = Some r"
  using assms unfolding checkLinks_def
  by (fastforce split: if_splits option.splits)

lemma chainStep_mono:
  assumes le: "\<And>t s d l r. walk t s d l = Some r \<Longrightarrow> walk' t s d l = Some r"
    and "chainStep walk env t s d l = Some r"
  shows "chainStep walk' env t s d l = Some r"
proof -
  have "firstAsync es (\<lambda>e. revocationEntryGrantsRevoke (\<lambda>t. walk t None 0 []) env e c) = Some x \<Longrightarrow>
        firstAsync es (\<lambda>e. revocationEntryGrantsRevoke (\<lambda>t. walk' t None 0 []) env e c) = Some x" for es c x
    by (erule firstAsync_mono [rotated]) (rule revocation_mono, rule le)
  moreover have "checkLinks walk env c d l = Some x \<Longrightarrow> checkLinks walk' env c d l = Some x" for c l x
    by (erule checkLinks_mono [rotated]) (rule le)
  ultimately show ?thesis
    using assms(2) unfolding chainStep_def by (fastforce split: sum.splits option.splits)
qed

text \<open>More fuel never changes a verdict.\<close>

lemma verifyTokenChain_Suc_mono:
  "verifyTokenChain fuel env t s d l = Some r \<Longrightarrow> verifyTokenChain (Suc fuel) env t s d l = Some r"
proof (induction fuel arbitrary: t s d l r)
  case (Suc fuel)
  from Suc.prems show ?case
    unfolding verifyTokenChain.simps(2) by (rule chainStep_mono [rotated]) (use Suc.IH in simp)
qed simp

lemma verifyTokenChain_mono:
  "fuel \<le> fuel' \<Longrightarrow> verifyTokenChain fuel env t s d l = Some r \<Longrightarrow>
     verifyTokenChain fuel' env t s d l = Some r"
  by (induction rule: dec_induct) (auto intro: verifyTokenChain_Suc_mono simp del: verifyTokenChain.simps(2))

subsection \<open>The specification of a chain\<close>

definition authentic :: "verify_env \<Rightarrow> cose_sign1 \<Rightarrow> token_claims \<Rightarrow> bool" where
  "authentic env token c \<longleftrightarrow>
     (\<exists>body. payload token = Some body \<and> dec_claims (env_codec env) body = Some c \<and>
        verify (env_identity env) (issuer_key c)
          (sig1ToBeSigned (env_codec env) (protectedHeader token) body) (signature token)) \<and>
     deriveDeviceId (env_identity env) (public_key (issuer_key c)) = issuer c"

definition current :: "verify_env \<Rightarrow> token_claims \<Rightarrow> bool" where
  "current env c \<longleftrightarrow>
     env_now env < expires c \<and>
     (\<forall>t. not_before c = Some t \<longrightarrow> t \<le> env_now env) \<and>
     (\<forall>t. valid_until c = Some t \<longrightarrow> env_now env < t)"

definition not_self_revoked :: "verify_env \<Rightarrow> token_claims \<Rightarrow> bool" where
  "not_self_revoked env c \<longleftrightarrow> (\<forall>e \<in> set (env_revocation env (token_id c)). rc_issuer e \<noteq> issuer c)"

definition good :: "verify_env \<Rightarrow> cose_sign1 \<Rightarrow> token_claims \<Rightarrow> bool" where
  "good env token c \<longleftrightarrow> authentic env token c \<and> current env c \<and> not_self_revoked env c"

inductive delegation :: "verify_env \<Rightarrow> cose_sign1 \<Rightarrow> token_claims list \<Rightarrow> bool" where
  root: "good env t c \<Longrightarrow> parent c = None \<Longrightarrow> authorised_by c = None \<Longrightarrow> delegation env t [c]"
| by_parent:
    "good env t c \<Longrightarrow> capability c \<noteq> MANAGE_GRANT_CAPABILITY \<Longrightarrow> authorised_by c = None \<Longrightarrow>
     parent c = Some bs \<Longrightarrow> dec_token (env_codec env) bs = Some pt \<Longrightarrow>
     delegation env pt (pc # cs) \<Longrightarrow> narrows pc (issuer c) (candidateOf c) \<Longrightarrow>
     delegation env t (c # pc # cs)"
| by_authority:
    "good env t c \<Longrightarrow> parent c = None \<Longrightarrow>
     authorised_by c = Some bs \<Longrightarrow> dec_token (env_codec env) bs = Some at \<Longrightarrow>
     delegation env at (ac # cs) \<Longrightarrow> linkOk ac c \<Longrightarrow>
     delegation env t (c # ac # cs)"

inductive_cases delegation_ConsE: "delegation env t (c # cs)"
inductive_cases delegation_NilE [elim!]: "delegation env t []"

subsection \<open>Soundness of acceptance\<close>

lemma checkEnvelope_OkD:
  assumes "checkEnvelope env t depth seen = Ok (c, seen')"
  shows "authentic env t c" "current env c" "depth < MAX_CHAIN_DEPTH"
    and "\<exists>body. payload t = Some body \<and> bytesToHex body \<notin> set seen \<and> seen' = sadd seen (bytesToHex body)"
  using assms
  by (auto simp: checkEnvelope_def authentic_def current_def split: option.splits if_splits)

lemma not_revoked_not_self:
  "firstAsync (env_revocation env (token_id c))
     (\<lambda>e. revocationEntryGrantsRevoke walk env e c) = Some None \<Longrightarrow> not_self_revoked env c"
  by (auto simp: not_self_revoked_def firstAsync_Some_None_iff revocationEntryGrantsRevoke_def)

lemma parentLink_AcceptedD:
  "parentLink env c v = Accepted c' r k n \<Longrightarrow>
     \<exists>pc m. v = Accepted pc r k m \<and> n = m + 1 \<and> c' = c \<and>
       evaluateNarrowing (env_evaluator env) pc (issuer c) (candidateOf c) = None"
  by (auto simp: parentLink_def split: token_verdict.splits option.splits)

lemma authoriserLink_AcceptedD:
  "authoriserLink c v = Accepted c' r k n \<Longrightarrow>
     \<exists>ac m. v = Accepted ac r k m \<and> n = m + 1 \<and> c' = c \<and> linkOk ac c"
  by (auto simp: authoriserLink_def split: token_verdict.splits if_splits)

lemma verifyTokenChain_AcceptedE:
  assumes "verifyTokenChain (Suc fuel) env t s d l = Some (Accepted c root key n)"
  obtains deeper where "checkEnvelope env t d l = Ok (c, deeper)" "good env t c"
    "checkLinks (verifyTokenChain fuel env) env c d deeper = Some (Accepted c root key n)"
proof -
  from assms obtain c' deeper where ok: "checkEnvelope env t d l = Ok (c', deeper)"
    and nr: "firstAsync (env_revocation env (token_id c'))
       (\<lambda>e. revocationEntryGrantsRevoke (\<lambda>t. verifyTokenChain fuel env t None 0 []) env e c') = Some None"
    and body: "checkLinks (verifyTokenChain fuel env) env c' d deeper = Some (Accepted c root key n)"
    unfolding verifyTokenChain.simps(2) chainStep_def by (auto split: sum.splits option.splits)
  from body have "c' = c"
    by (auto simp: checkLinks_def split: if_splits option.splits
        dest: parentLink_AcceptedD authoriserLink_AcceptedD)
  with ok nr body show ?thesis
    using that checkEnvelope_OkD [of env t d l c] not_revoked_not_self unfolding good_def by blast
qed

lemma verifyTokenChain_sound:
  assumes tri: "trilean_spec (env_evaluator env)"
  shows "verifyTokenChain fuel env t s d l = Some (Accepted c root key n) \<Longrightarrow>
    \<exists>cs. delegation env t (c # cs) \<and> n = length cs \<and> n + d < MAX_CHAIN_DEPTH \<and>
      root = issuer (last (c # cs)) \<and> key = issuer_key (last (c # cs))"
proof (induction fuel arbitrary: t s d l c root key n)
  case (Suc fuel)
  then obtain deeper where env_ok: "checkEnvelope env t d l = Ok (c, deeper)" and g: "good env t c"
    and body: "checkLinks (verifyTokenChain fuel env) env c d deeper = Some (Accepted c root key n)"
    by (elim verifyTokenChain_AcceptedE)
  have depth: "d < MAX_CHAIN_DEPTH" using env_ok by (rule checkEnvelope_OkD)
  show ?case
  proof (cases "parent c")
    case (Some bs)
    with body obtain pt v where pt: "dec_token (env_codec env) bs = Some pt"
      and v: "verifyTokenChain fuel env pt None (d + 1) deeper = Some v"
      and link: "parentLink env c v = Accepted c root key n"
      and other: "authorised_by c = None" "capability c \<noteq> MANAGE_GRANT_CAPABILITY"
      by (auto simp: checkLinks_def split: if_splits option.splits)
    from link obtain pc m where v_eq: "v = Accepted pc root key m" and "n = m + 1"
      and "evaluateNarrowing (env_evaluator env) pc (issuer c) (candidateOf c) = None"
      using parentLink_AcceptedD by blast
    moreover from Suc.IH [OF v [unfolded v_eq]] obtain cs where "delegation env pt (pc # cs)"
      "m = length cs" "m + (d + 1) < MAX_CHAIN_DEPTH" "root = issuer (last (pc # cs))"
      "key = issuer_key (last (pc # cs))" by blast
    ultimately show ?thesis
      using delegation.by_parent [OF g other(2,1) Some pt] evaluateNarrowing_None_iff [OF tri]
      by (intro exI [of _ "pc # cs"]) auto
  next
    case None
    show ?thesis
    proof (cases "authorised_by c")
      case (Some bs)
      with body None obtain at v where at: "dec_token (env_codec env) bs = Some at"
        and v: "verifyTokenChain fuel env at (Some (subjectOf c)) (d + 1) deeper = Some v"
        and link: "authoriserLink c v = Accepted c root key n"
        by (auto simp: checkLinks_def split: if_splits option.splits)
      from link obtain ac m where v_eq: "v = Accepted ac root key m" and "n = m + 1" and "linkOk ac c"
        using authoriserLink_AcceptedD by blast
      moreover from Suc.IH [OF v [unfolded v_eq]] obtain cs where "delegation env at (ac # cs)"
        "m = length cs" "m + (d + 1) < MAX_CHAIN_DEPTH" "root = issuer (last (ac # cs))"
        "key = issuer_key (last (ac # cs))" by blast
      ultimately show ?thesis
        using delegation.by_authority [OF g None Some at]
        by (intro exI [of _ "ac # cs"]) auto
    next
      assume auth: "authorised_by c = None"
      with body None have "root = issuer c" "key = issuer_key c" "n = 0"
        by (auto simp: checkLinks_def split: if_splits)
      then show ?thesis using delegation.root [OF g None auth] depth by auto
    qed
  qed
qed simp

text \<open>
  Where an accepted token stands in a walk does not matter to its verdict, as long as its chain still fits below the depth
  bound and the walk has not met one of its payloads: \<open>F\<close> are payloads of tokens with an id that the chain does not use.
\<close>

lemma verifyTokenChain_deeper:
  assumes tri: "trilean_spec (env_evaluator env)"
    and F: "\<And>body a. bytesToHex body \<in> F \<Longrightarrow> dec_claims (env_codec env) body = Some a \<Longrightarrow> token_id a = tid"
  shows "verifyTokenChain fuel env t s d l = Some (Accepted c root key n) \<Longrightarrow>
    \<exists>cs. delegation env t (c # cs) \<and> (\<forall>d' l'. n + d' < MAX_CHAIN_DEPTH \<longrightarrow> set l' \<subseteq> set l \<union> F \<longrightarrow> tid \<notin> token_id ` set (c # cs) \<longrightarrow>
      verifyTokenChain fuel env t s d' l' = Some (Accepted c root key n))"
proof (induction fuel arbitrary: t s d l c root key n)
  case (Suc fuel)
  then obtain deeper where env_ok: "checkEnvelope env t d l = Ok (c, deeper)" and g: "good env t c"
    and body: "checkLinks (verifyTokenChain fuel env) env c d deeper = Some (Accepted c root key n)"
    by (elim verifyTokenChain_AcceptedE)
  have moved: "checkEnvelope env t d' l' = Ok (c, sadd l' (bytesToHex (the (payload t)))) \<and>
      set (sadd l' (bytesToHex (the (payload t)))) \<subseteq> set deeper \<union> F"
    if "d' < MAX_CHAIN_DEPTH" "set l' \<subseteq> set l \<union> F" "token_id c \<noteq> tid" for d' l'
    using env_ok that F
    by (auto simp: checkEnvelope_def split: option.splits if_splits)
  have step: "verifyTokenChain (Suc fuel) env t s d' l' = Some (Accepted c root key n)"
    if "checkEnvelope env t d' l' = Ok (c, deeper')" "checkLinks (verifyTokenChain fuel env) env c d' deeper' = Some (Accepted c root key n)" for d' l' deeper'
    using Suc.prems env_ok that by (auto simp: chainStep_def split: option.splits)
  show ?case
  proof (cases "parent c")
    case (Some bs)
    with body obtain pt v where pt: "dec_token (env_codec env) bs = Some pt"
      and v: "verifyTokenChain fuel env pt None (d + 1) deeper = Some v"
      and link: "parentLink env c v = Accepted c root key n"
      and other: "authorised_by c = None" "capability c \<noteq> MANAGE_GRANT_CAPABILITY"
      by (auto simp: checkLinks_def split: if_splits option.splits)
    from link obtain pc m where v_eq: "v = Accepted pc root key m" and m: "n = m + 1"
      and nar: "evaluateNarrowing (env_evaluator env) pc (issuer c) (candidateOf c) = None"
      using parentLink_AcceptedD by blast
    from Suc.IH [OF v [unfolded v_eq]] obtain cs where cs: "delegation env pt (pc # cs)"
      "\<And>d' l'. m + d' < MAX_CHAIN_DEPTH \<Longrightarrow> set l' \<subseteq> set deeper \<union> F \<Longrightarrow> tid \<notin> token_id ` set (pc # cs) \<Longrightarrow>
         verifyTokenChain fuel env pt None d' l' = Some (Accepted pc root key m)" by blast
    have "delegation env t (c # pc # cs)"
      using delegation.by_parent [OF g other(2,1) Some pt cs(1)] nar evaluateNarrowing_None_iff [OF tri] by blast
    moreover have "verifyTokenChain (Suc fuel) env t s d' l' = Some (Accepted c root key n)"
      if "n + d' < MAX_CHAIN_DEPTH" "set l' \<subseteq> set l \<union> F" "tid \<notin> token_id ` set (c # pc # cs)" for d' l'
      using that m moved [of d' l'] cs(2) [of "d' + 1" "sadd l' (bytesToHex (the (payload t)))"] Some pt other link v_eq
      by (intro step [where deeper' = "sadd l' (bytesToHex (the (payload t)))"]) (auto simp: checkLinks_def)
    ultimately show ?thesis by blast
  next
    case None
    show ?thesis
    proof (cases "authorised_by c")
      case (Some bs)
      with body None obtain at v where at: "dec_token (env_codec env) bs = Some at"
        and v: "verifyTokenChain fuel env at (Some (subjectOf c)) (d + 1) deeper = Some v"
        and link: "authoriserLink c v = Accepted c root key n"
        by (auto simp: checkLinks_def split: if_splits option.splits)
      from link obtain ac m where v_eq: "v = Accepted ac root key m" and m: "n = m + 1" and lk: "linkOk ac c"
        using authoriserLink_AcceptedD by blast
      from Suc.IH [OF v [unfolded v_eq]] obtain cs where cs: "delegation env at (ac # cs)"
        "\<And>d' l'. m + d' < MAX_CHAIN_DEPTH \<Longrightarrow> set l' \<subseteq> set deeper \<union> F \<Longrightarrow> tid \<notin> token_id ` set (ac # cs) \<Longrightarrow>
           verifyTokenChain fuel env at (Some (subjectOf c)) d' l' = Some (Accepted ac root key m)" by blast
      have "delegation env t (c # ac # cs)" using delegation.by_authority [OF g None Some at cs(1) lk] .
      moreover have "verifyTokenChain (Suc fuel) env t s d' l' = Some (Accepted c root key n)"
        if "n + d' < MAX_CHAIN_DEPTH" "set l' \<subseteq> set l \<union> F" "tid \<notin> token_id ` set (c # ac # cs)" for d' l'
        using that m moved [of d' l'] cs(2) [of "d' + 1" "sadd l' (bytesToHex (the (payload t)))"] None Some at link v_eq
        by (intro step [where deeper' = "sadd l' (bytesToHex (the (payload t)))"]) (auto simp: checkLinks_def)
      ultimately show ?thesis by blast
    next
      assume auth: "authorised_by c = None"
      with body None have root: "root = issuer c" "key = issuer_key c" "n = 0"
        by (auto simp: checkLinks_def split: if_splits)
      have "verifyTokenChain (Suc fuel) env t s d' l' = Some (Accepted c root key n)"
        if "n + d' < MAX_CHAIN_DEPTH" "set l' \<subseteq> set l \<union> F" "tid \<notin> token_id ` set [c]" for d' l'
        using that moved [of d' l'] None auth root
        by (intro step [where deeper' = "sadd l' (bytesToHex (the (payload t)))"]) (auto simp: checkLinks_def)
      then show ?thesis using delegation.root [OF g None auth] by blast
    qed
  qed
qed simp

lemma verifyCapabilityToken_sound:
  assumes "trilean_spec (env_evaluator env)" and "verifyCapabilityToken fuel env t expected = Some (Accepted c root key n)"
  obtains cs where "delegation env t (c # cs)" "n = length cs" "n < MAX_CHAIN_DEPTH" "root = issuer (last (c # cs))"
    "key = issuer_key (last (c # cs))" "\<forall>b. expected = Some b \<longrightarrow> bearer c = b"
proof -
  from assms(2) have "verifyTokenChain fuel env t None 0 [] = Some (Accepted c root key n)" "\<forall>b. expected = Some b \<longrightarrow> bearer c = b"
    by (auto simp: verifyCapabilityToken_def checkBearer_def split: option.splits token_verdict.splits if_splits)
  with verifyTokenChain_sound [OF assms(1) this(1)] that show ?thesis by auto
qed

lemma delegation_extra: "delegation (env\<lparr>env_extra := x\<rparr>) t cs \<Longrightarrow> delegation env t cs"
proof (induction "env\<lparr>env_extra := x\<rparr>" t cs rule: delegation.induct)
  case (root t c)
  then show ?case by (intro delegation.root) (simp_all add: good_def authentic_def current_def not_self_revoked_def)
next
  case (by_parent t c bs pt pc cs)
  then show ?case by (intro delegation.by_parent) (simp_all add: good_def authentic_def current_def not_self_revoked_def)
next
  case (by_authority t c bs at ac cs)
  then show ?case by (intro delegation.by_authority) (simp_all add: good_def authentic_def current_def not_self_revoked_def)
qed

subsection \<open>A chain never widens\<close>

definition claims_wider :: "token_claims \<Rightarrow> token_claims \<Rightarrow> bool" where
  "claims_wider a c \<longleftrightarrow> scopeNarrows (scope a) (scope c) \<and> expires c \<le> expires a"

interpretation claims_att: attenuation claims_wider
  by unfold_locales (auto simp: claims_wider_def intro: scopeNarrows_trans)

lemma narrows_wider: "narrows pc i (candidateOf c) \<Longrightarrow> claims_wider pc c"
  by (simp add: narrows_def candidateOf_def claims_wider_def)

lemma linkOk_wider: "linkOk ac c \<Longrightarrow> claims_wider ac c"
  by (simp add: linkOk_def claims_wider_def)

lemma delegation_chain: "delegation env t cs \<Longrightarrow> claims_att.chain cs"
  by (induction rule: delegation.induct) (auto intro: narrows_wider linkOk_wider)

lemma delegation_all_good: "delegation env t cs \<Longrightarrow> c \<in> set cs \<Longrightarrow> \<exists>t'. good env t' c"
  by (induction rule: delegation.induct) auto

subsection \<open>Termination\<close>

definition no_delegated_revocations :: "verify_env \<Rightarrow> bool" where
  "no_delegated_revocations env \<longleftrightarrow>
     (\<forall>tid. \<forall>e \<in> set (env_revocation env tid). rc_authorization e = None)"

lemma revocation_decided:
  "rc_authorization e = None \<Longrightarrow>
     revocationEntryGrantsRevoke walk env e c = Some (rc_issuer e = issuer c)"
  by (simp add: revocationEntryGrantsRevoke_def)

lemma verifyTokenChain_returns:
  assumes "no_delegated_revocations env"
  shows "MAX_CHAIN_DEPTH < fuel + d \<Longrightarrow> 0 < fuel \<Longrightarrow> \<exists>v. verifyTokenChain fuel env t s d l = Some v"
proof (induction fuel arbitrary: t s d l)
  case (Suc fuel)
  show ?case
  proof (cases "checkEnvelope env t d l")
    case (Inl r)
    then show ?thesis by (simp add: chainStep_def)
  next
    case (Inr p)
    obtain c deeper where p: "p = (c, deeper)" by (cases p)
    with Inr have "d < MAX_CHAIN_DEPTH" using checkEnvelope_OkD(3) by blast
    with Suc.prems have rec: "\<exists>v. verifyTokenChain fuel env t' s' (d + 1) l' = Some v" for t' s' l'
      by (intro Suc.IH) auto
    then have "\<exists>v. checkLinks (verifyTokenChain fuel env) env c d deeper = Some v"
      unfolding checkLinks_def by (auto split: option.splits)
    moreover have "firstAsync (env_revocation env (token_id c))
        (\<lambda>e. revocationEntryGrantsRevoke (\<lambda>t. verifyTokenChain fuel env t None 0 []) env e c) =
      Some (List.find (\<lambda>e. rc_issuer e = issuer c) (env_revocation env (token_id c)))"
      using assms unfolding no_delegated_revocations_def
      by (subst firstAsync_total [symmetric], intro firstAsync_cong) (auto simp: revocation_decided)
    ultimately show ?thesis
      using Inr p by (auto simp: chainStep_def split: option.splits)
  qed
qed simp

subsection \<open>Divergence\<close>

text \<open>
  The entries recorded against a token are judged in order until one revokes it: an entry of another device that cites
  token \<open>a\<close> is reached when those before it are of other devices and cite nothing.
\<close>

definition reaches_citation :: "verify_env \<Rightarrow> token_claims \<Rightarrow> cose_sign1 \<Rightarrow> bool" where
  "reaches_citation env c a \<longleftrightarrow>
     (\<exists>before e after bs. env_revocation env (token_id c) = before @ e # after \<and>
        (\<forall>x \<in> set before. rc_issuer x \<noteq> issuer c \<and> rc_authorization x = None) \<and>
        rc_issuer e \<noteq> issuer c \<and> rc_authorization e = Some bs \<and> dec_token (env_codec env) bs = Some a)"

lemma firstAsync_skip: "\<forall>x \<in> set before. p x = Some False \<Longrightarrow> firstAsync (before @ rest) p = firstAsync rest p"
  by (induction before) auto

lemma citation_awaits:
  assumes "reaches_citation env c a" "walk a = None"
  shows "firstAsync (env_revocation env (token_id c)) (\<lambda>e. revocationEntryGrantsRevoke walk env e c) = None"
proof -
  from assms(1) obtain before e after bs where e: "env_revocation env (token_id c) = before @ e # after"
    "\<forall>x \<in> set before. rc_issuer x \<noteq> issuer c \<and> rc_authorization x = None"
    "rc_issuer e \<noteq> issuer c" "rc_authorization e = Some bs" "dec_token (env_codec env) bs = Some a"
    unfolding reaches_citation_def by blast
  have "\<forall>x \<in> set before. revocationEntryGrantsRevoke walk env x c = Some False"
    using e(2) by (simp add: revocationEntryGrantsRevoke_def)
  from firstAsync_skip [OF this] show ?thesis
    using e assms(2) by (simp add: revocationEntryGrantsRevoke_def checkBearer_def)
qed

lemma self_authorised_entry_diverges:
  assumes "checkEnvelope env a 0 [] = Ok (c, deeper)" and "reaches_citation env c a"
  shows "verifyTokenChain fuel env a s 0 [] = None"
proof (induction fuel arbitrary: s)
  case (Suc fuel)
  with assms citation_awaits [OF assms(2), of "\<lambda>t. verifyTokenChain fuel env t None 0 []"] show ?case
    by (simp add: chainStep_def)
qed simp

lemma poisoned_token_diverges:
  assumes "\<And>fuel. verifyTokenChain fuel env a None 0 [] = None"
    and "checkEnvelope env t d l = Ok (c, deeper)" and "reaches_citation env c a"
  shows "verifyTokenChain fuel env t s d l = None"
proof (cases fuel)
  case (Suc f)
  then show ?thesis
    using assms citation_awaits [OF assms(3), of "\<lambda>t. verifyTokenChain f env t None 0 []"] by (simp add: chainStep_def)
qed simp

end
