(* ===== verification/TokenMinting.thy ===== *)
theory TokenMinting
  imports TokenChains
begin

text \<open>
  Minting against verification: what \<open>mintCapabilityToken\<close> refuses is what the verifier would
  refuse, \<open>canGrant\<close> predicts it, and what it produces verifies. The cryptography is assumed
  to be consistent for the minting key (\<open>keypair_ok\<close>), and the codec to round-trip the values
  at hand.
\<close>

definition keypair_ok :: "identity_port \<Rightarrow> identity_port \<Rightarrow> bool" where
  "keypair_ok verifier ident \<longleftrightarrow>
     (\<forall>m. verify verifier (identityKey ident) m (sign ident m)) \<and>
     deriveDeviceId verifier (public_key (identityKey ident)) = deviceId ident"

subsection \<open>Refusals\<close>

lemma checkNarrowing_None_iff:
  "trilean_spec ev \<Longrightarrow> checkNarrowing ev pc i cand = None \<longleftrightarrow> narrows pc i cand"
  by (simp add: checkNarrowing_def evaluateNarrowing_None_iff)

lemma mint_Ok_iff:
  "mintCapabilityToken codec ev o' = Ok tok \<longleftrightarrow>
     mintRefusal codec ev o' = None \<and>
     tok = signEnvelope codec (mo_identity o') (enc_claims codec (mintClaims codec o'))"
  by (auto simp: mintCapabilityToken_def split: option.splits)

lemma is_ok_mint: "is_ok (mintCapabilityToken codec ev o') \<longleftrightarrow> mintRefusal codec ev o' = None"
  by (simp add: mintCapabilityToken_def split: option.splits)

lemma mintRefusal_root:
  "mo_parent o' = None \<Longrightarrow> mo_authorisedBy o' = None \<Longrightarrow>
     mintRefusal codec ev o' = None \<longleftrightarrow> mo_now o' < mo_expires o'"
  by (auto simp: mintRefusal_def)

lemma mintRefusal_parent:
  assumes "trilean_spec ev" and "mo_parent o' = Some pt" and "decodeTokenClaims codec pt = Some pc"
  shows "mintRefusal codec ev o' = None \<longleftrightarrow>
     mo_now o' < mo_expires o' \<and> mo_authorisedBy o' = None \<and>
     mo_capability o' \<noteq> MANAGE_GRANT_CAPABILITY \<and>
     narrows pc (deviceId (mo_identity o')) (mintCandidate o')"
  using assms by (auto simp: mintRefusal_def checkNarrowing_None_iff)

text \<open>The mint-time authorisation check is the verifier's link check plus the conditions.\<close>

lemma checkAuthorisation_None_iff:
  "checkAuthorisation codec ev ac i cand = None \<longleftrightarrow>
     parent ac = None \<and> bearer ac = i \<and> capability ac = MANAGE_GRANT_CAPABILITY \<and>
     (\<forall>g. grants_capability ac = Some g \<longrightarrow> g = gs_capability cand) \<and>
     scopeNarrows (scope ac) (gs_scope cand) \<and> gs_expires cand \<le> expires ac \<and>
     (\<forall>n. delegations_remaining ac = Some n \<longrightarrow> (\<exists>m. gs_delegationsRemaining cand = Some m \<and> m < n)) \<and>
     (\<forall>bs. conditions ac = Some bs \<longrightarrow>
        (\<exists>nodes. dec_conditions codec bs = Some nodes \<and> evaluateConditions ev nodes ac 0 [] (Some cand)))"
  unfolding checkAuthorisation_def
  by (auto simp: not_less not_le split: option.splits)

lemma mintSubject_linkOk:
  assumes "checkAuthorisation codec ev ac (deviceId (mo_identity o')) (mintSubject o') = None"
  shows "linkOk ac (mintClaims codec o')"
  using assms unfolding checkAuthorisation_None_iff linkOk_def
  by (auto simp: mintSubject_def mintClaims_def split: option.splits)

subsection \<open>Minted tokens verify\<close>

lemma signEnvelope_simps [simp]:
  "payload (signEnvelope codec ident body) = Some body"
  "protectedHeader (signEnvelope codec ident body) = protectedHeaderFor codec ident"
  "signature (signEnvelope codec ident body) =
     sign ident (sig1ToBeSigned codec (protectedHeaderFor codec ident) body)"
  by (simp_all add: signEnvelope_def Let_def)

lemma mintClaims_simps [simp]:
  "token_id (mintClaims codec o') = mo_tokenId o'"
  "issuer (mintClaims codec o') = deviceId (mo_identity o')"
  "issuer_key (mintClaims codec o') = identityKey (mo_identity o')"
  "bearer (mintClaims codec o') = mo_bearer o'"
  "capability (mintClaims codec o') = mo_capability o'"
  "expires (mintClaims codec o') = mo_expires o'"
  "not_before (mintClaims codec o') = mo_notBefore o'"
  "valid_until (mintClaims codec o') = None"
  "parent (mintClaims codec o') = map_option (enc_token codec) (mo_parent o')"
  "authorised_by (mintClaims codec o') = map_option (enc_token codec) (mo_authorisedBy o')"
  "conditions (mintClaims codec o') = map_option (enc_conditions codec) (mo_conditions o')"
  by (simp_all add: mintClaims_def)

lemma candidateOf_mintClaims [simp]: "candidateOf (mintClaims codec o') = mintCandidate o'"
  by (simp add: candidateOf_def mintClaims_def mintCandidate_def)

text \<open>The verifier's side conditions on a freshly minted token, apart from its link.\<close>

definition mint_accepted_by :: "verify_env \<Rightarrow> mint_options \<Rightarrow> bool" where
  "mint_accepted_by env o' \<longleftrightarrow>
     keypair_ok (env_identity env) (mo_identity o') \<and>
     dec_claims (env_codec env) (enc_claims (env_codec env) (mintClaims (env_codec env) o')) =
       Some (mintClaims (env_codec env) o') \<and>
     env_now env < mo_expires o' \<and>
     (case mo_notBefore o' of None \<Rightarrow> True | Some t \<Rightarrow> t \<le> env_now env) \<and>
     env_revocation env (mo_tokenId o') = [] \<and>
     checkConditions env (mintClaims (env_codec env) o') None = None"

lemma unconditional [simp]: "conditions c = None \<Longrightarrow> checkConditions env c s = None"
  by (simp add: checkConditions_def)

lemma minted_envelope:
  assumes "mintCapabilityToken (env_codec env) ev o' = Ok tok" and "mint_accepted_by env o'"
  shows "checkEnvelope env tok 0 [] =
    Ok (mintClaims (env_codec env) o',
        [bytesToHex (enc_claims (env_codec env) (mintClaims (env_codec env) o'))])"
  using assms unfolding mint_Ok_iff mint_accepted_by_def
  by (auto simp: checkEnvelope_def keypair_ok_def MAX_CHAIN_DEPTH_def sadd_def split: option.splits)

lemma minted_step:
  assumes "mintCapabilityToken (env_codec env) ev o' = Ok tok" and "mint_accepted_by env o'"
  shows "verifyTokenChain (Suc fuel) env tok None 0 [] =
    checkLinks (verifyTokenChain fuel env) env (mintClaims (env_codec env) o') 0
      [bytesToHex (enc_claims (env_codec env) (mintClaims (env_codec env) o'))]"
  using assms minted_envelope [OF assms]
  by (simp add: chainStep_def mint_accepted_by_def)

lemma minted_root_verifies:
  assumes "mintCapabilityToken (env_codec env) ev o' = Ok tok" and "mint_accepted_by env o'"
    and "mo_parent o' = None" and "mo_authorisedBy o' = None"
  shows "verifyTokenChain (Suc fuel) env tok None 0 [] =
    Some (Accepted (mintClaims (env_codec env) o') (deviceId (mo_identity o')) (identityKey (mo_identity o')) 0)"
  using minted_step [OF assms(1,2)] assms(3,4) by (simp add: checkLinks_def)

lemma minted_delegation_verifies:
  assumes "mintCapabilityToken (env_codec env) (env_evaluator env) o' = Ok tok" and "mint_accepted_by env o'"
    and "trilean_spec (env_evaluator env)"
    and "mo_parent o' = Some pt" and "dec_token (env_codec env) (enc_token (env_codec env) pt) = Some pt"
    and "decodeTokenClaims (env_codec env) pt = Some pc"
    and "verifyTokenChain fuel env pt None 1
           [bytesToHex (enc_claims (env_codec env) (mintClaims (env_codec env) o'))] =
         Some (Accepted pc root key d)"
  shows "verifyTokenChain (Suc fuel) env tok None 0 [] =
    Some (Accepted (mintClaims (env_codec env) o') root key (d + 1))"
proof -
  have refusal: "mintRefusal (env_codec env) (env_evaluator env) o' = None"
    using assms(1) by (simp add: mint_Ok_iff)
  then have side: "mo_authorisedBy o' = None" "mo_capability o' \<noteq> MANAGE_GRANT_CAPABILITY"
    "narrows pc (deviceId (mo_identity o')) (mintCandidate o')"
    using mintRefusal_parent [OF assms(3,4,6)] by auto
  have "evaluateNarrowing (env_evaluator env) pc (deviceId (mo_identity o')) (mintCandidate o') = None"
    using side evaluateNarrowing_None_iff [OF assms(3)] by simp
  then show ?thesis
    using minted_step [OF assms(1,2), of fuel] assms(4,5,7) side
    by (simp add: checkLinks_def parentLink_def)
qed

lemma minted_authorised_verifies:
  assumes "mintCapabilityToken (env_codec env) (env_evaluator env) o' = Ok tok" and "mint_accepted_by env o'"
    and "mo_authorisedBy o' = Some at" and "dec_token (env_codec env) (enc_token (env_codec env) at) = Some at"
    and "decodeTokenClaims (env_codec env) at = Some ac"
    and "verifyTokenChain fuel env at (Some (subjectOf (mintClaims (env_codec env) o'))) 1
           [bytesToHex (enc_claims (env_codec env) (mintClaims (env_codec env) o'))] =
         Some (Accepted ac root key d)"
  shows "verifyTokenChain (Suc fuel) env tok None 0 [] =
    Some (Accepted (mintClaims (env_codec env) o') root key (d + 1))"
proof -
  have refusal: "mintRefusal (env_codec env) (env_evaluator env) o' = None"
    using assms(1) by (simp add: mint_Ok_iff)
  with assms(3,5) have par: "mo_parent o' = None"
    and auth: "checkAuthorisation (env_codec env) (env_evaluator env) ac (deviceId (mo_identity o')) (mintSubject o') = None"
    by (auto simp: mintRefusal_def split: if_splits option.splits)
  from mintSubject_linkOk [OF auth] show ?thesis
    using minted_step [OF assms(1,2), of fuel] assms(3,4,6) par
    by (simp add: checkLinks_def authoriserLink_def)
qed

lemma accepted_claims_decode:
  assumes "verifyTokenChain fuel env t s d l = Some (Accepted c root key n)"
  shows "decodeTokenClaims (env_codec env) t = Some c"
proof (cases fuel)
  case (Suc f)
  have "good env t c" by (rule verifyTokenChain_AcceptedE [OF assms [unfolded Suc]])
  then show ?thesis by (auto simp: decodeTokenClaims_def good_def authentic_def)
qed (use assms in simp)

text \<open>
  A token the verifier accepts on its own is also accepted as the link of a fresh token: it is one hop deeper, and the
  fresh token's id keeps its payload apart from those of the chain.
\<close>

lemma accepted_as_link:
  assumes "mint_accepted_by env o'" and "trilean_spec (env_evaluator env)"
    and "verifyTokenChain fuel env lt s 0 [] = Some (Accepted lc root key d)" and "d + 1 < MAX_CHAIN_DEPTH"
    and "\<And>cs. delegation env lt cs \<Longrightarrow> mo_tokenId o' \<notin> token_id ` set cs"
  shows "verifyTokenChain fuel env lt s 1 [bytesToHex (enc_claims (env_codec env) (mintClaims (env_codec env) o'))] =
    Some (Accepted lc root key d)"
proof -
  let ?F = "{bytesToHex (enc_claims (env_codec env) (mintClaims (env_codec env) o'))}"
  have "token_id a = mo_tokenId o'" if "bytesToHex body \<in> ?F" "dec_claims (env_codec env) body = Some a" for body a
    using that assms(1) by (auto simp: mint_accepted_by_def)
  note deeper = verifyTokenChain_deeper [OF assms(2) this assms(3)]
  show ?thesis
  proof (rule exE [OF deeper])
    fix cs
    assume cs: "delegation env lt (lc # cs) \<and> (\<forall>d' l'. d + d' < MAX_CHAIN_DEPTH \<longrightarrow> set l' \<subseteq> set [] \<union> ?F \<longrightarrow>
      mo_tokenId o' \<notin> token_id ` set (lc # cs) \<longrightarrow> verifyTokenChain fuel env lt s d' l' = Some (Accepted lc root key d))"
    show ?thesis using assms(4) assms(5) [OF conjunct1 [OF cs]] by (intro conjunct2 [OF cs, rule_format]) simp_all
  qed
qed

subsection \<open>Bars on granting\<close>

text \<open>An authoriser whose conditions hold the no-self-grant bar refuses its bearer's own grant.\<close>

lemma noSelfGrantBar_refuses_mint:
  assumes "trilean_spec ev" and "mo_authorisedBy o' = Some at" and "decodeTokenClaims codec at = Some ac"
    and "conditions ac = Some bs" and "dec_conditions codec bs = Some nodes"
    and "noSelfGrantBar (mo_capability o') (mo_bearer o') \<in> set nodes"
  shows "\<not> is_ok (mintCapabilityToken codec ev o')"
proof -
  let ?ctx = "\<lparr>cc_now = 0, cc_claims = ac, cc_subject = Some (mintSubject o')\<rparr>"
  have "ev (noSelfGrantBar (mo_capability o') (mo_bearer o')) (conditionsResolver [] ?ctx) = Definite False"
    by (simp add: noSelfGrantBar_eval [OF assms(1)] mintSubject_def)
  with assms(6) have "\<not> evaluateConditions ev nodes ac 0 [] (Some (mintSubject o'))"
    by (rule evaluateConditions_refuted)
  with assms(4,5) have "checkAuthorisation codec ev ac (deviceId (mo_identity o')) (mintSubject o') \<noteq> None"
    by (auto simp: checkAuthorisation_None_iff)
  then show ?thesis
    using assms(2,3) by (auto simp: is_ok_mint mintRefusal_def)
qed

lemma noSelfGrantBar_refuses_verify:
  assumes "trilean_spec (env_evaluator env)" and "conditions ac = Some bs"
    and "dec_conditions (env_codec env) bs = Some nodes"
    and "noSelfGrantBar (capability c) (bearer c) \<in> set nodes"
  shows "checkConditions env ac (Some (subjectOf c)) = Some conditions_not_satisfied"
proof -
  let ?ctx = "\<lparr>cc_now = env_now env, cc_claims = ac, cc_subject = Some (subjectOf c)\<rparr>"
  have "env_evaluator env (noSelfGrantBar (capability c) (bearer c)) (conditionsResolver (env_extra env) ?ctx) =
      Definite False"
    by (simp add: noSelfGrantBar_eval [OF assms(1)] subjectOf_def)
  with assms(4) have "\<not> evaluateConditions (env_evaluator env) nodes ac (env_now env) (env_extra env) (Some (subjectOf c))"
    by (rule evaluateConditions_refuted)
  with assms(2,3) show ?thesis by (simp add: checkConditions_def)
qed

end
