(* ===== verification/RevocationViews.thy ===== *)
theory RevocationViews
  imports TokenMinting
begin

text \<open>
  \<open>ts/packages/core/src/domain/revocation-view.ts\<close>: the in-memory view fed by gossiped
  revocation entries, keyed by token-id hex. Only entries that verify are kept, an entry never
  displaces another, and an entry by a token's own issuer makes every later verification of that
  token answer \<open>revoked\<close>.
\<close>

type_synonym revocation_view = "(string, revocation_claims list) jmap"

definition revocationKey :: "bytes \<Rightarrow> string" where
  "revocationKey tokenId = bytesToHex tokenId"

definition createRevocationView :: revocation_view where
  "createRevocationView = []"

definition entriesFor :: "revocation_view \<Rightarrow> bytes \<Rightarrow> revocation_claims list" where
  "entriesFor view tokenId = (case jget view (revocationKey tokenId) of None \<Rightarrow> [] | Some es \<Rightarrow> es)"

definition record_entry ::
  "cbor_codec \<Rightarrow> identity_port \<Rightarrow> revocation_view \<Rightarrow> cose_sign1 \<Rightarrow>
   (revocation_entry_reason + revocation_claims) \<times> revocation_view" where
  "record_entry codec identity view entry =
     (let verdict = verifyRevocationEntry codec identity entry
      in case verdict of
           Inl _ \<Rightarrow> (verdict, view)
         | Inr claims \<Rightarrow>
             (let key = revocationKey (rc_token_id claims)
              in case jget view key of
                   None \<Rightarrow> (verdict, jset view key [claims])
                 | Some existing \<Rightarrow> (verdict, jset view key (existing @ [claims]))))"

lemma record_entry_Err:
  "verifyRevocationEntry codec identity entry = Err r \<Longrightarrow>
     record_entry codec identity view entry = (Err r, view)"
  by (simp add: record_entry_def)

lemma record_entry_Ok:
  "verifyRevocationEntry codec identity entry = Ok claims \<Longrightarrow>
     fst (record_entry codec identity view entry) = Ok claims \<and>
     entriesFor (snd (record_entry codec identity view entry)) tid =
       entriesFor view tid @ (if tid = rc_token_id claims then [claims] else [])"
  by (auto simp: record_entry_def entriesFor_def revocationKey_def Let_def split: option.splits)

lemma entriesFor_record:
  "entriesFor (snd (record_entry codec identity view entry)) tid =
     entriesFor view tid @
     (case verifyRevocationEntry codec identity entry of
        Inl _ \<Rightarrow> [] | Inr claims \<Rightarrow> if tid = rc_token_id claims then [claims] else [])"
  by (cases "verifyRevocationEntry codec identity entry")
    (simp_all add: record_entry_Err record_entry_Ok)

text \<open>A whole gossip history.\<close>

fun record_all :: "cbor_codec \<Rightarrow> identity_port \<Rightarrow> revocation_view \<Rightarrow> cose_sign1 list \<Rightarrow> revocation_view" where
  "record_all codec identity view [] = view"
| "record_all codec identity view (e # es) =
     record_all codec identity (snd (record_entry codec identity view e)) es"

lemma record_all_entries:
  "set (entriesFor (record_all codec identity view es) tid) =
     set (entriesFor view tid) \<union>
     {c. rc_token_id c = tid \<and> (\<exists>e \<in> set es. verifyRevocationEntry codec identity e = Ok c)}"
  by (induction es arbitrary: view) (auto simp: entriesFor_record split: sum.splits if_splits)

lemma entriesFor_empty [simp]: "entriesFor createRevocationView tid = []"
  by (simp add: createRevocationView_def entriesFor_def)

lemma mintRevocationEntry_verifies:
  assumes "keypair_ok verifier ident"
    and "dec_revocation codec (enc_revocation codec c) = Some c"
    and "c = \<lparr>rc_token_id = tid, rc_issuer = deviceId ident, rc_issuer_key = identityKey ident,
             rc_revoked_at = at, rc_authorization = None\<rparr>"
  shows "verifyRevocationEntry codec verifier (mintRevocationEntry codec ident tid at) = Ok c"
  using assms by (simp add: verifyRevocationEntry_def mintRevocationEntry_def keypair_ok_def)

text \<open>A recorded entry by the token's own issuer decides the verdict, whatever else is recorded before it.\<close>

lemma own_issuer_entry_revokes:
  assumes "checkEnvelope env t d l = Ok (c, deeper)"
    and "e \<in> set (env_revocation env (token_id c))" and "rc_issuer e = issuer c"
    and "verifyTokenChain (Suc fuel) env t s d l = Some v"
  shows "v = Refused revoked"
proof -
  let ?p = "\<lambda>e. revocationEntryGrantsRevoke (\<lambda>t. verifyTokenChain fuel env t None 0 []) env e c"
  from assms(4) obtain r where r: "firstAsync (env_revocation env (token_id c)) ?p = Some r"
    using assms(1) by (auto simp: chainStep_def split: option.splits)
  have "?p e = Some True" using assms(3) by (simp add: revocationEntryGrantsRevoke_def)
  then have "firstAsync (env_revocation env (token_id c)) ?p \<noteq> Some None"
    using assms(2) by (rule firstAsync_hit [rotated])
  with r obtain x where "r = Some x" by (cases r) auto
  then show ?thesis using assms(1,4) r by (auto simp: chainStep_def)
qed

end
