(* ===== verification/TokenProperties.thy ===== *)
theory TokenProperties
  imports RevocationViews
begin

text \<open>
  The properties of the capability-token component (scopes, predicates, chains, minting,
  revocation), each a few steps over the lemmas of its theories, with concrete instances that
  show their hypotheses can hold.
\<close>

subsection \<open>A concrete mesh\<close>

text \<open>
  Three devices with transparent cryptography: a signature is the signed message, a device-id is
  the public key. Alice grants Bob a room scope, Bob delegates a sub-path to Carol.
\<close>

definition w_port :: "byte \<Rightarrow> identity_port" where
  "w_port b =
     \<lparr>deviceId = [b], identityKey = \<lparr>alg = -7, public_key = [b]\<rparr>, sign = (\<lambda>m. m),
      verify = (\<lambda>k m s. s = m), deriveDeviceId = (\<lambda>pk. pk)\<rparr>"

definition w_claims :: "byte \<Rightarrow> byte \<Rightarrow> byte \<Rightarrow> string \<Rightarrow> string \<Rightarrow> int \<Rightarrow> bytes option \<Rightarrow> token_claims" where
  "w_claims tid i b cap p e par =
     \<lparr>token_id = [tid], issuer = [i], issuer_key = \<lparr>alg = -7, public_key = [i]\<rparr>, bearer = [b],
      capability = cap, scope = \<lparr>kind = ''room'', path = Some p\<rparr>, expires = e, not_before = None,
      valid_until = None, parent = par, delegations_remaining = None, conditions = None,
      authorised_by = None, grants_capability = None, requests_capability = None\<rparr>"

definition w_root_claims :: token_claims where
  "w_root_claims = w_claims 10 1 2 ''room:send'' ''/work'' 100 None"

definition w_leaf_claims :: token_claims where
  "w_leaf_claims = w_claims 11 2 3 ''room:send'' ''/work/sub'' 50 (Some [200, 100, 10])"

definition w_revoker_claims :: token_claims where
  "w_revoker_claims = w_claims 12 4 5 ''manage:revoke'' ''/work'' 100 None"

definition w_token :: "byte \<Rightarrow> cose_sign1" where
  "w_token tid = \<lparr>protectedHeader = [], unprotectedHeader = [], payload = Some [100, tid], signature = [100, tid]\<rparr>"

definition w_codec :: cbor_codec where
  "w_codec =
     \<lparr>dec_claims = map_of [([100, 10], w_root_claims), ([100, 11], w_leaf_claims), ([100, 12], w_revoker_claims)],
      enc_claims = (\<lambda>c. 100 # token_id c),
      dec_token = map_of [([200, 100, 10], w_token 10), ([200, 100, 12], w_token 12)],
      enc_token = (\<lambda>t. 200 # (case payload t of None \<Rightarrow> [] | Some b \<Rightarrow> b)),
      dec_conditions = (\<lambda>bs. if bs = [77] then Some [noSelfGrantBar ''room:send'' [2]] else None),
      enc_conditions = (\<lambda>_. [77]),
      dec_revocation = (\<lambda>bs. if bs = [88, 10] then Some \<lparr>rc_token_id = [10], rc_issuer = [1],
         rc_issuer_key = \<lparr>alg = -7, public_key = [1]\<rparr>, rc_revoked_at = 20, rc_authorization = None\<rparr> else None),
      enc_revocation = (\<lambda>c. 88 # rc_token_id c),
      enc_sig_structure = (\<lambda>(s, h, a, p). h @ p),
      enc_header = (\<lambda>_. [])\<rparr>"

definition w_env :: verify_env where
  "w_env = \<lparr>env_codec = w_codec, env_identity = w_port 9, env_evaluator = kleene_eval, env_now = 20,
            env_revocation = (\<lambda>_. []), env_extra = []\<rparr>"

definition w_root_options :: mint_options where
  "w_root_options = \<lparr>mo_identity = w_port 1, mo_now = 20, mo_tokenId = [10], mo_bearer = [2],
     mo_capability = ''room:send'', mo_scope = \<lparr>kind = ''room'', path = Some ''/work''\<rparr>, mo_expires = 100,
     mo_notBefore = None, mo_delegationsRemaining = None, mo_parent = None, mo_conditions = None,
     mo_authorisedBy = None, mo_grantsCapability = None, mo_requestsCapability = None\<rparr>"

definition w_leaf_options :: mint_options where
  "w_leaf_options = w_root_options\<lparr>mo_identity := w_port 2, mo_tokenId := [11], mo_bearer := [3],
     mo_scope := \<lparr>kind = ''room'', path = Some ''/work/sub''\<rparr>, mo_expires := 50, mo_parent := Some (w_token 10)\<rparr>"

lemmas w_defs = w_port_def w_claims_def w_root_claims_def w_leaf_claims_def w_revoker_claims_def
  w_token_def w_codec_def w_env_def w_root_options_def w_leaf_options_def

lemma w_env_evaluator [simp]: "env_evaluator w_env = kleene_eval"
  by (simp add: w_env_def)

lemma w_leaf_accepted:
  "verifyCapabilityToken 2 w_env (w_token 11) (Some [3]) =
     Some (Accepted w_leaf_claims [1] \<lparr>alg = -7, public_key = [1]\<rparr> 1)"
  by code_simp

subsection \<open>Chains\<close>

text \<open>C1: When a token is accepted, it heads a chain of authentic, current tokens that are not
  revoked by their own issuers, in which every link narrows or is authorised; the reported root
  issuer, root key and depth are those of the chain, whose length is below the bound; and the
  token bears the expected device.\<close>

theorem acceptance_establishes_delegation:
  assumes "trilean_spec (env_evaluator env)"
    and "verifyCapabilityToken fuel env t expected = Some (Accepted c root key n)"
  shows "\<exists>cs. delegation env t (c # cs) \<and> n = length cs \<and> n < 64 \<and>
           root = issuer (last (c # cs)) \<and> key = issuer_key (last (c # cs)) \<and>
           (\<forall>b. expected = Some b \<longrightarrow> bearer c = b)"
proof -
  from verifyCapabilityToken_sound [OF assms] obtain cs where
    "delegation env t (c # cs)" "n = length cs" "n < MAX_CHAIN_DEPTH" "root = issuer (last (c # cs))"
    "key = issuer_key (last (c # cs))" "\<forall>b. expected = Some b \<longrightarrow> bearer c = b" .
  then show ?thesis unfolding MAX_CHAIN_DEPTH_def by blast
qed

theorem acceptance_establishes_delegation_witness:
  "\<exists>cs. delegation w_env (w_token 11) (w_leaf_claims # cs) \<and> length cs = 1 \<and>
     [1] = issuer (last (w_leaf_claims # cs))"
proof -
  have "trilean_spec (env_evaluator w_env)" by (simp add: kleene_eval_spec)
  from acceptance_establishes_delegation [OF this w_leaf_accepted] show ?thesis by metis
qed

text \<open>C2: No chain widens authority: an accepted token heads a delegation chain of the reported
  length that ends at the reported root, and along it the token's scope narrows the scope of every
  ancestor up to the root and it expires no later than any of them, every ancestor being itself
  authentic, current and not revoked by its issuer.\<close>

theorem accepted_token_never_wider_than_ancestors:
  assumes "trilean_spec (env_evaluator env)"
    and "verifyCapabilityToken fuel env t expected = Some (Accepted c root key n)"
  shows "\<exists>cs. delegation env t (c # cs) \<and> length cs = n \<and> root = issuer (last (c # cs)) \<and>
           (\<forall>a \<in> set cs. scopeNarrows (scope a) (scope c) \<and> expires c \<le> expires a \<and>
              (\<exists>t'. good env t' a))"
proof -
  from verifyCapabilityToken_sound [OF assms] obtain cs where
    cs: "delegation env t (c # cs)" "n = length cs" "root = issuer (last (c # cs))" by metis
  have "claims_wider a c" if "a \<in> set cs" for a
    using claims_att.chain_all [OF delegation_chain [OF cs(1)] that] .
  moreover have "\<exists>t'. good env t' a" if "a \<in> set cs" for a
    using delegation_all_good [OF cs(1)] that by simp
  ultimately show ?thesis using cs by (auto simp: claims_wider_def)
qed

theorem accepted_token_never_wider_than_ancestors_witness:
  "\<exists>cs. delegation w_env (w_token 11) (w_leaf_claims # cs) \<and> length cs = 1 \<and>
     (\<forall>a \<in> set cs. scopeNarrows (scope a) (scope w_leaf_claims))"
proof -
  have "trilean_spec (env_evaluator w_env)" by (simp add: kleene_eval_spec)
  from accepted_token_never_wider_than_ancestors [OF this w_leaf_accepted] show ?thesis by blast
qed

text \<open>C5: Verification always returns a verdict, within the depth bound, as long as no recorded
  revocation entry carries a delegated authorization: 65 nested calls are enough for every token,
  including cyclic chains and chains of any length.\<close>

theorem verification_returns:
  assumes "no_delegated_revocations env"
  shows "\<exists>v. verifyCapabilityToken 65 env t expected = Some v"
proof -
  obtain v where "verifyTokenChain 65 env t None 0 [] = Some v"
    using verifyTokenChain_returns [OF assms, of 65 0 t None "[]"] by (auto simp: MAX_CHAIN_DEPTH_def)
  then show ?thesis
    by (cases v) (auto simp: verifyCapabilityToken_def checkBearer_def split: option.splits)
qed

theorem verification_returns_witness:
  "\<exists>v. verifyCapabilityToken 65 w_env (w_token 11) None = Some v"
  using verification_returns [of w_env] by (simp add: no_delegated_revocations_def w_env_def)

text \<open>C6: A delegated revocation is verified with no depth bound. Take a token \<open>a\<close> that passes its own
  checks and against which an entry is recorded that cites \<open>a\<close> itself as its authorization: verifying
  any token that passes its own checks and whose entries reach a citation of \<open>a\<close> (such as \<open>a\<close>) never
  returns, whatever fuel it is given. An entry is reached when it comes from another device than the
  token's issuer and those recorded before it do too and cite nothing.\<close>

theorem self_authorising_revocation_never_returns:
  assumes "checkEnvelope env a 0 [] = Ok (ca, seen_a)" and "reaches_citation env ca a"
    and "checkEnvelope env victim 0 [] = Ok (cv, seen_v)" and "reaches_citation env cv a"
  shows "verifyCapabilityToken fuel env victim expected = None"
proof -
  have "verifyTokenChain f env a None 0 [] = None" for f
    by (rule self_authorised_entry_diverges [OF assms(1,2)])
  from poisoned_token_diverges [OF this assms(3,4)] show ?thesis
    by (simp add: verifyCapabilityToken_def checkBearer_def)
qed

definition w_poison :: "bytes \<Rightarrow> revocation_claims" where
  "w_poison tid = \<lparr>rc_token_id = tid, rc_issuer = [5], rc_issuer_key = \<lparr>alg = -7, public_key = [5]\<rparr>,
     rc_revoked_at = 20, rc_authorization = Some [200, 100, 12]\<rparr>"

definition w_poisoned_env :: verify_env where
  "w_poisoned_env = w_env\<lparr>env_revocation := (\<lambda>tid. if tid = [12] \<or> tid = [10] then [w_poison tid] else [])\<rparr>"

theorem self_authorising_revocation_never_returns_witness:
  "verifyCapabilityToken 1000000 w_poisoned_env (w_token 10) None = None"
proof -
  have a: "checkEnvelope w_poisoned_env (w_token 12) 0 [] = Ok (w_revoker_claims, [bytesToHex [100, 12]])"
    by code_simp
  have v: "checkEnvelope w_poisoned_env (w_token 10) 0 [] = Ok (w_root_claims, [bytesToHex [100, 10]])"
    by code_simp
  have "reaches_citation w_poisoned_env w_revoker_claims (w_token 12)"
    unfolding reaches_citation_def
    by (rule exI [of _ "[]"], rule exI [of _ "w_poison [12]"]) (simp add: w_poisoned_env_def w_poison_def w_defs)
  moreover have "reaches_citation w_poisoned_env w_root_claims (w_token 12)"
    unfolding reaches_citation_def
    by (rule exI [of _ "[]"], rule exI [of _ "w_poison [10]"]) (simp add: w_poisoned_env_def w_poison_def w_defs)
  ultimately show ?thesis by (rule self_authorising_revocation_never_returns [OF a _ v])
qed

subsection \<open>Minting\<close>

text \<open>C14: A delegation is minted exactly when the candidate has not already expired, names no
  second link, is not a grant-capability, and narrows the parent's claims: same capability,
  scope within the parent's, expiry no later, strictly fewer delegations when the parent bounds
  them, and the minter is the parent's bearer.\<close>

theorem delegation_minted_iff_narrows:
  assumes "trilean_spec ev" and "mo_parent o' = Some pt" and "decodeTokenClaims codec pt = Some pc"
  shows "is_ok (mintCapabilityToken codec ev o') \<longleftrightarrow>
    mo_now o' < mo_expires o' \<and> mo_authorisedBy o' = None \<and> mo_capability o' \<noteq> ''manage:grant'' \<and>
    bearer pc = deviceId (mo_identity o') \<and> mo_expires o' \<le> expires pc \<and>
    scopeNarrows (scope pc) (mo_scope o') \<and> capability pc = mo_capability o' \<and>
    (\<forall>k. delegations_remaining pc = Some k \<longrightarrow> (\<exists>m. mo_delegationsRemaining o' = Some m \<and> m < k))"
  using mintRefusal_parent [OF assms]
  by (simp add: is_ok_mint narrows_def mintCandidate_def MANAGE_GRANT_CAPABILITY_def)

lemma w_decode_root: "decodeTokenClaims w_codec (w_token 10) = Some w_root_claims"
  by code_simp

theorem delegation_minted_iff_narrows_witness:
  "is_ok (mintCapabilityToken w_codec kleene_eval w_leaf_options) \<and>
   \<not> is_ok (mintCapabilityToken w_codec kleene_eval (w_leaf_options\<lparr>mo_expires := 101\<rparr>))"
proof -
  have narrow: "scopeNarrows \<lparr>kind = ''room'', path = Some ''/work''\<rparr> \<lparr>kind = ''room'', path = Some ''/work/sub''\<rparr>"
    by code_simp
  from delegation_minted_iff_narrows [OF kleene_eval_spec _ w_decode_root, of w_leaf_options]
    delegation_minted_iff_narrows [OF kleene_eval_spec _ w_decode_root, of "w_leaf_options\<lparr>mo_expires := 101\<rparr>"]
  show ?thesis using narrow by (simp add: w_defs)
qed

text \<open>\<open>canGrant\<close> is an exact forecast: it answers yes for a held token and a candidate exactly
  when minting that candidate as a delegation of the held token would succeed.\<close>

theorem canGrant_forecasts_mint:
  assumes "mo_parent o' = Some held" and "mo_authorisedBy o' = None"
    and "mo_capability o' \<noteq> ''manage:grant''"
  shows "canGrant codec ev held (deviceId (mo_identity o')) (mintCandidate o') (mo_now o') \<longleftrightarrow>
         is_ok (mintCapabilityToken codec ev o')"
  using assms
  by (auto simp: is_ok_mint mintRefusal_def canGrant_def mintCandidate_def MANAGE_GRANT_CAPABILITY_def
      split: option.splits)

theorem canGrant_forecasts_mint_witness:
  "canGrant w_codec kleene_eval (w_token 10) [2] (mintCandidate w_leaf_options) 20 \<longleftrightarrow>
   is_ok (mintCapabilityToken w_codec kleene_eval w_leaf_options)"
  using canGrant_forecasts_mint [of w_leaf_options "w_token 10" w_codec kleene_eval] by (simp add: w_defs)

text \<open>C4: What is minted verifies, where the verifier's clock is within the token's validity, the
  token's own conditions hold there and no entry is recorded against its id: a root grant is accepted
  as its own root at depth 0. A delegation is accepted under its parent's root, one hop deeper, when
  the verifier accepts the parent, and so is a token minted under an authoriser when the verifier
  accepts the authoriser for it, provided the link's chain leaves room for one more hop below the
  depth bound of 64 and does not use the new token's id.\<close>

theorem minted_tokens_verify:
  assumes "mintCapabilityToken (env_codec env) (env_evaluator env) o' = Ok tok"
    and "mint_accepted_by env o'" and "trilean_spec (env_evaluator env)"
    and "link = (case mo_parent o' of Some pt \<Rightarrow> Some pt | None \<Rightarrow> mo_authorisedBy o')"
    and "subject = (case mo_parent o' of Some _ \<Rightarrow> None
                    | None \<Rightarrow> Some (subjectOf (mintClaims (env_codec env) o')))"
    and "\<And>lt. link = Some lt \<Longrightarrow>
           dec_token (env_codec env) (enc_token (env_codec env) lt) = Some lt \<and>
           verifyTokenChain fuel env lt subject 0 [] = Some (Accepted lc root key d) \<and> d + 1 < 64 \<and>
           (\<forall>cs. delegation env lt cs \<longrightarrow> mo_tokenId o' \<notin> token_id ` set cs)"
  shows "verifyCapabilityToken (Suc fuel) env tok (Some (mo_bearer o')) =
    Some (if link = None
          then Accepted (mintClaims (env_codec env) o') (deviceId (mo_identity o')) (identityKey (mo_identity o')) 0
          else Accepted (mintClaims (env_codec env) o') root key (d + 1))"
proof -
  have linked: "dec_token (env_codec env) (enc_token (env_codec env) lt) = Some lt"
    "decodeTokenClaims (env_codec env) lt = Some lc"
    "verifyTokenChain fuel env lt subject 1 [bytesToHex (enc_claims (env_codec env) (mintClaims (env_codec env) o'))] = Some (Accepted lc root key d)"
    if "link = Some lt" for lt
    using assms(6) [OF that] accepted_as_link [OF assms(2,3), of fuel lt subject lc root key d] accepted_claims_decode
    by (simp_all add: MAX_CHAIN_DEPTH_def)
  have "verifyTokenChain (Suc fuel) env tok None 0 [] = Some (if link = None
      then Accepted (mintClaims (env_codec env) o') (deviceId (mo_identity o')) (identityKey (mo_identity o')) 0
      else Accepted (mintClaims (env_codec env) o') root key (d + 1))"
  proof (cases "mo_parent o'")
    case (Some pt)
    then show ?thesis using minted_delegation_verifies [OF assms(1-3) Some] linked assms(4,5) by simp
  next
    case None
    then show ?thesis
      using minted_root_verifies [OF assms(1,2) None] minted_authorised_verifies [OF assms(1,2)] linked assms(4,5)
      by (cases "mo_authorisedBy o'") simp_all
  qed
  then show ?thesis by (simp add: verifyCapabilityToken_def checkBearer_def)
qed

lemma w_root_chain: "delegation w_env (w_token 10) cs \<Longrightarrow> cs = [w_root_claims]"
  by (erule delegation.cases) (auto simp: good_def authentic_def w_defs)

theorem minted_tokens_verify_witness:
  "verifyCapabilityToken 2 w_env (w_token 11) (Some [3]) =
     Some (Accepted (mintClaims w_codec w_leaf_options) [1] \<lparr>alg = -7, public_key = [1]\<rparr> 1)"
proof -
  have m: "mintCapabilityToken (env_codec w_env) (env_evaluator w_env) w_leaf_options = Ok (w_token 11)"
    by code_simp
  have acc: "mint_accepted_by w_env w_leaf_options"
    by (simp add: mint_accepted_by_def keypair_ok_def mintClaims_def w_defs)
  have par: "verifyTokenChain (Suc 0) w_env (w_token 10) None 0 [] =
      Some (Accepted w_root_claims [1] \<lparr>alg = -7, public_key = [1]\<rparr> 0)"
    by code_simp
  have dt: "dec_token w_codec (enc_token w_codec (w_token 10)) = Some (w_token 10)"
    by code_simp
  have fresh: "mo_tokenId w_leaf_options \<notin> token_id ` set cs" if "delegation w_env (w_token 10) cs" for cs
    using w_root_chain [OF that] by (simp add: w_defs)
  have link: "mo_parent w_leaf_options = Some (w_token 10)" "mo_bearer w_leaf_options = [3]"
    "env_codec w_env = w_codec" by (simp_all add: w_defs)
  show ?thesis
    using minted_tokens_verify [OF m acc, of "Some (w_token 10)" None "Suc 0" w_root_claims "[1]"
        "\<lparr>alg = -7, public_key = [1]\<rparr>" 0] par dt link fresh
    by (simp add: kleene_eval_spec numeral_2_eq_2)
qed

text \<open>The no-self-grant bar holds at both ends: an authoriser whose conditions contain the bar
  for a capability and a device neither lets that device's own grant of the capability be minted,
  nor lets such a token pass the verifier's evaluation of the authoriser's conditions.\<close>

theorem no_self_grant_bar_enforced:
  assumes "trilean_spec (env_evaluator env)" and "mo_authorisedBy o' = Some at"
    and "decodeTokenClaims (env_codec env) at = Some ac" and "conditions ac = Some bs"
    and "dec_conditions (env_codec env) bs = Some nodes"
    and "noSelfGrantBar (mo_capability o') (mo_bearer o') \<in> set nodes"
  shows "\<not> is_ok (mintCapabilityToken (env_codec env) (env_evaluator env) o') \<and>
    checkConditions env ac (Some (subjectOf (mintClaims (env_codec env) o'))) = Some conditions_not_satisfied"
  using noSelfGrantBar_refuses_mint [OF assms]
    noSelfGrantBar_refuses_verify [OF assms(1,4,5), of "mintClaims (env_codec env) o'"] assms(6)
  by simp

definition w_barred_claims :: token_claims where
  "w_barred_claims = (w_claims 13 1 2 ''manage:grant'' ''/work'' 100 None)\<lparr>conditions := Some [77]\<rparr>"

definition w_bar_env :: verify_env where
  "w_bar_env = w_env\<lparr>env_codec := w_codec\<lparr>dec_claims := (\<lambda>bs. if bs = [100, 13] then Some w_barred_claims else None)\<rparr>\<rparr>"

theorem no_self_grant_bar_enforced_witness:
  "\<not> is_ok (mintCapabilityToken (env_codec w_bar_env) kleene_eval
       (w_root_options\<lparr>mo_identity := w_port 2, mo_authorisedBy := Some (w_token 13)\<rparr>))"
proof -
  have "decodeTokenClaims (env_codec w_bar_env) (w_token 13) = Some w_barred_claims" by code_simp
  from no_self_grant_bar_enforced [of w_bar_env
      "w_root_options\<lparr>mo_identity := w_port 2, mo_authorisedBy := Some (w_token 13)\<rparr>", OF _ _ this]
  show ?thesis by (simp add: w_bar_env_def w_barred_claims_def w_defs kleene_eval_spec)
qed

subsection \<open>Revocation\<close>

text \<open>C29: Revocation is effective and permanent: once the entry a token's issuer minted has been
  gossiped, after and before any other entries, every verdict on that token that is reached is
  \<open>revoked\<close>.\<close>

theorem gossiped_revocation_refuses_token:
  assumes "keypair_ok (env_identity env) ident"
    and "dec_revocation (env_codec env) (enc_revocation (env_codec env) rc) = Some rc"
    and "rc = \<lparr>rc_token_id = token_id c, rc_issuer = deviceId ident, rc_issuer_key = identityKey ident,
               rc_revoked_at = at, rc_authorization = None\<rparr>"
    and "env_revocation env = entriesFor (record_all (env_codec env) (env_identity env) view
           (before @ mintRevocationEntry (env_codec env) ident (token_id c) at # after))"
    and "checkEnvelope env t d l = Ok (c, seen')" and "issuer c = deviceId ident"
    and "verifyTokenChain fuel env t s d l = Some v"
  shows "v = Refused revoked"
proof -
  have "verifyRevocationEntry (env_codec env) (env_identity env)
          (mintRevocationEntry (env_codec env) ident (token_id c) at) = Ok rc"
    using mintRevocationEntry_verifies [OF assms(1,2,3)] .
  then have "rc \<in> set (env_revocation env (token_id c))"
    unfolding assms(4) record_all_entries using assms(3) by auto
  moreover obtain f where "fuel = Suc f" using assms(7) by (cases fuel) auto
  ultimately show ?thesis
    using own_issuer_entry_revokes [OF assms(5), of rc f s v] assms(3,6,7) by auto
qed

definition w_revoked_env :: verify_env where
  "w_revoked_env = w_env\<lparr>env_revocation := entriesFor (record_all w_codec (w_port 9) createRevocationView
     ([] @ mintRevocationEntry w_codec (w_port 1) (token_id w_root_claims) 20 # []))\<rparr>"

theorem gossiped_revocation_refuses_token_witness:
  "verifyTokenChain 65 w_revoked_env (w_token 10) None 0 [] = Some (Refused revoked)"
proof -
  have env: "checkEnvelope w_revoked_env (w_token 10) 0 [] = Ok (w_root_claims, [''640a''])"
    by code_simp
  have entries: "env_revocation w_revoked_env = entriesFor (record_all w_codec (w_port 9) createRevocationView
     ([] @ mintRevocationEntry w_codec (w_port 1) (token_id w_root_claims) 20 # []))"
    by (simp add: w_revoked_env_def del: record_all.simps)
  have "no_delegated_revocations w_revoked_env"
    unfolding no_delegated_revocations_def entries record_all_entries
    by (auto simp: verifyRevocationEntry_def mintRevocationEntry_def w_codec_def w_port_def split: if_splits)
  then obtain v where v: "verifyTokenChain 65 w_revoked_env (w_token 10) None 0 [] = Some v"
    using verifyTokenChain_returns [of w_revoked_env 65 0 "w_token 10" None "[]"]
    by (auto simp: MAX_CHAIN_DEPTH_def)
  have "v = Refused revoked"
    by (rule gossiped_revocation_refuses_token [OF _ _ refl _ env _ v, of "w_port 1" 20 createRevocationView "[]" "[]"])
      (simp_all add: w_revoked_env_def keypair_ok_def w_defs)
  with v show ?thesis by simp
qed

subsection \<open>Scopes and identifiers\<close>

text \<open>C36: The lexical path test is containment of segments: a child path narrows a parent path
  exactly when neither has a relative segment and the parent's segments (a trailing slash adding
  none) are an initial part of the child's, a proper one when the parent ends in a slash and the
  two differ.\<close>

theorem pathNarrows_is_segment_containment:
  "pathNarrows c p \<longleftrightarrow>
     \<not> hasRelativeSegment c \<and> \<not> hasRelativeSegment p \<and>
     prefix (segments p) (splitSlash c) \<and> (endsWithSlash p \<and> segments p = splitSlash c \<longleftrightarrow> False)"
proof
  assume "pathNarrows c p"
  then show "\<not> hasRelativeSegment c \<and> \<not> hasRelativeSegment p \<and>
     prefix (segments p) (splitSlash c) \<and> (endsWithSlash p \<and> segments p = splitSlash c \<longleftrightarrow> False)"
    using pathNarrows_contained [of c p] pathNarrows_not_bare [of c p] by (auto simp: pathNarrows_iff)
qed (auto intro: contained_pathNarrows)

text \<open>Device hex strings and device-ids are in bijection: the parser accepts exactly the strings
  the printer produces for 32-byte identifiers, and returns the identifier.\<close>

theorem deviceIdFromHex_iff:
  "deviceIdFromHex hex = Ok d \<longleftrightarrow> length d = 32 \<and> hex = deviceIdToHex d"
  by (auto simp: deviceIdFromHex_def deviceIdToHex_def bytesFromHex_iff hex_consts split: sum.splits if_splits)
    (auto simp: bytesFromHex_def bytesToHex_parseHexPairs)

end
