(* ===== verification/GF256.thy ===== *)
theory GF256
  imports WM_Prelude
begin

text \<open>
  The arithmetic of \<open>ts/packages/core/src/domain/erasure-coding.ts\<close>: the exponent and logarithm
  tables built at module load, \<open>gfMul\<close> and \<open>gfInv\<close>. The tables are shown to be inverse to each
  other on the 255 non-zero bytes, and with XOR as addition the operations form a field: the type
  \<open>gf256\<close> is an instance of the library's class \<open>field\<close>, so the linear algebra of the erasure
  code is done with the library's sums and field lemmas.
\<close>

unbundle bit_operations_syntax

definition GF_POLY :: "32 word" where "GF_POLY = 0x11d"
definition GF_OVERFLOW_BIT :: "32 word" where "GF_OVERFLOW_BIT = 0x100"
definition GF_MAX_SHARDS :: nat where "GF_MAX_SHARDS = 255"

text \<open>
  \<open>x <<= 1\<close>, then the reduction: JavaScript's bitwise operators work on 32-bit integers, and
  the loop variable is a byte between iterations.
\<close>

definition gfDouble :: "byte \<Rightarrow> byte" where
  "gfDouble x =
     (let y = push_bit 1 (ucast x :: 32 word)
      in ucast (if y AND GF_OVERFLOW_BIT \<noteq> 0 then y XOR GF_POLY else y))"

text \<open>The first loop fills \<open>gfExp\<close> and \<open>gfLog\<close>, the second copies the upper half of \<open>gfExp\<close>.\<close>

primrec gfLoop :: "nat \<Rightarrow> byte \<times> byte list \<times> nat list" where
  "gfLoop 0 = (1, replicate (2 * GF_MAX_SHARDS) 0, replicate (GF_MAX_SHARDS + 1) 0)"
| "gfLoop (Suc pw) =
     (case gfLoop pw of (x, e, l) \<Rightarrow> (gfDouble x, e[pw := x], l[unat x := pw]))"

definition gfExp :: "byte list" where
  "gfExp =
     fold (\<lambda>pw e. e[pw := e ! (pw - GF_MAX_SHARDS)])
       [GF_MAX_SHARDS..<2 * GF_MAX_SHARDS] (fst (snd (gfLoop GF_MAX_SHARDS)))"

definition gfLog :: "nat list" where
  "gfLog = snd (snd (gfLoop GF_MAX_SHARDS))"

definition gfMul :: "byte \<Rightarrow> byte \<Rightarrow> byte" where
  "gfMul a b =
     (if a = 0 \<or> b = 0 then 0 else gfExp ! (gfLog ! unat a + gfLog ! unat b))"

definition gfInv :: "byte \<Rightarrow> byte" where
  "gfInv a = gfExp ! (GF_MAX_SHARDS - gfLog ! unat a)"

subsection \<open>Doubling is linear and bijective\<close>

lemma overflow_bit: "y AND GF_OVERFLOW_BIT \<noteq> 0 \<longleftrightarrow> bit y 8"
  using and_exp_eq_0_iff_not_bit [of y 8] by (simp add: GF_OVERFLOW_BIT_def)

lemma gfDouble_alt:
  "gfDouble x = ucast (push_bit 1 (ucast x :: 32 word)) XOR (if bit x 7 then 0x1d else 0)"
proof -
  have "bit (push_bit 1 (ucast x :: 32 word)) 8 \<longleftrightarrow> bit x 7"
    by (simp add: bit_push_bit_iff bit_ucast_iff del: push_bit_Suc One_nat_def)
  moreover have "(ucast GF_POLY :: byte) = 0x1d"
    by (simp add: GF_POLY_def)
  ultimately show ?thesis
    by (simp add: gfDouble_def Let_def overflow_bit unsigned_xor_eq)
qed

lemma gfDouble_0 [simp]: "gfDouble 0 = 0"
  by (simp add: gfDouble_alt)

lemma gfDouble_xor: "gfDouble (a XOR b) = gfDouble a XOR gfDouble b"
proof -
  have cancel: "(A XOR B) XOR (if p \<noteq> q then c else 0) =
      (A XOR (if p then c else 0)) XOR (B XOR (if q then c else 0))" for A B c :: byte and p q
    by (rule bit_word_eqI) (auto simp: bit_xor_iff)
  show ?thesis
    unfolding gfDouble_alt unsigned_xor_eq push_bit_xor bit_xor_iff by (rule cancel)
qed

lemma bit_gfDouble:
  "bit (gfDouble x) k \<longleftrightarrow> (0 < k \<and> k < 8 \<and> bit x (k - 1)) \<noteq> (bit x 7 \<and> bit (0x1d :: byte) k)"
  unfolding gfDouble_alt
  by (auto simp: bit_xor_iff bit_push_bit_iff bit_ucast_iff simp del: push_bit_Suc One_nat_def
      dest: bit_imp_le_length)

lemma gfDouble_eq_0: "gfDouble x = 0 \<Longrightarrow> x = 0"
proof -
  assume "gfDouble x = 0"
  then have z: "\<not> bit (gfDouble x) k" for k by simp
  from z [of 0] have seven: "\<not> bit x 7" by (simp add: bit_gfDouble)
  show "x = 0"
  proof (rule bit_word_eqI)
    fix k assume "k < LENGTH(8)"
    then consider "k = 7" | "Suc k < 8" by fastforce
    then show "bit x k \<longleftrightarrow> bit (0 :: byte) k"
    proof cases
      case 2
      with z [of "Suc k"] seven show ?thesis by (simp add: bit_gfDouble)
    qed (use seven in simp)
  qed
qed

lemma gfDouble_inject [simp]: "gfDouble a = gfDouble b \<longleftrightarrow> a = b"
proof
  assume "gfDouble a = gfDouble b"
  then have "gfDouble (a XOR b) = 0" by (simp add: gfDouble_xor)
  then have "a XOR b = 0" by (rule gfDouble_eq_0)
  then show "a = b" by (metis xor.assoc xor.right_neutral xor_self_eq xor.left_neutral)
qed simp

subsection \<open>The generator has order 255\<close>

definition gfPow :: "nat \<Rightarrow> byte" where
  "gfPow i = (gfDouble ^^ i) 1"

lemma gfPow_0 [simp]: "gfPow 0 = 1"
  by (simp add: gfPow_def)

lemma gfPow_Suc: "gfPow (Suc i) = gfDouble (gfPow i)"
  by (simp add: gfPow_def)

text \<open>The orbit of the generator, checked one doubling at a time.\<close>

fun orbit :: "byte \<Rightarrow> byte list \<Rightarrow> bool" where
  "orbit a [] = True"
| "orbit a (b # bs) = (gfDouble a = b \<and> orbit b bs)"

lemma orbit_funpow: "orbit a bs \<Longrightarrow> i < length bs \<Longrightarrow> (gfDouble ^^ Suc i) a = bs ! i"
proof (induction bs arbitrary: a i)
  case (Cons b bs)
  then show ?case
    by (cases i) (auto simp: funpow_swap1)
qed simp

definition gfOrbit :: "byte list" where
  "gfOrbit =
     [2, 4, 8, 16, 32, 64, 128, 29, 58, 116, 232, 205, 135, 19, 38, 76, 152, 45, 90, 180, 117,
      234, 201, 143, 3, 6, 12, 24, 48, 96, 192, 157, 39, 78, 156, 37, 74, 148, 53, 106, 212, 181,
      119, 238, 193, 159, 35, 70, 140, 5, 10, 20, 40, 80, 160, 93, 186, 105, 210, 185, 111, 222,
      161, 95, 190, 97, 194, 153, 47, 94, 188, 101, 202, 137, 15, 30, 60, 120, 240, 253, 231,
      211, 187, 107, 214, 177, 127, 254, 225, 223, 163, 91, 182, 113, 226, 217, 175, 67, 134, 17,
      34, 68, 136, 13, 26, 52, 104, 208, 189, 103, 206, 129, 31, 62, 124, 248, 237, 199, 147, 59,
      118, 236, 197, 151, 51, 102, 204, 133, 23, 46, 92, 184, 109, 218, 169, 79, 158, 33, 66,
      132, 21, 42, 84, 168, 77, 154, 41, 82, 164, 85, 170, 73, 146, 57, 114, 228, 213, 183, 115,
      230, 209, 191, 99, 198, 145, 63, 126, 252, 229, 215, 179, 123, 246, 241, 255, 227, 219,
      171, 75, 150, 49, 98, 196, 149, 55, 110, 220, 165, 87, 174, 65, 130, 25, 50, 100, 200, 141,
      7, 14, 28, 56, 112, 224, 221, 167, 83, 166, 81, 162, 89, 178, 121, 242, 249, 239, 195, 155,
      43, 86, 172, 69, 138, 9, 18, 36, 72, 144, 61, 122, 244, 245, 247, 243, 251, 235, 203, 139,
      11, 22, 44, 88, 176, 125, 250, 233, 207, 131, 27, 54, 108, 216, 173, 71, 142, 1]"

lemma gfOrbit_ok: "orbit 1 gfOrbit"
  by (simp add: gfOrbit_def gfDouble_def GF_POLY_def GF_OVERFLOW_BIT_def)

lemma gfPow_orbit: "i < 255 \<Longrightarrow> gfPow (Suc i) = gfOrbit ! i"
  unfolding gfPow_def by (rule orbit_funpow [OF gfOrbit_ok]) (simp add: gfOrbit_def)

lemma gfPow_values:
  "gfPow 15 = 38" "gfPow 51 = 10" "gfPow 85 = 214" "gfPow 255 = 1"
  using gfPow_orbit [of 14] gfPow_orbit [of 50] gfPow_orbit [of 84] gfPow_orbit [of 254]
  by (simp_all add: gfOrbit_def)

lemma gfPow_nonzero [simp]: "gfPow i \<noteq> 0"
  by (induction i) (auto simp: gfPow_Suc dest: gfDouble_eq_0)

lemma gfPow_add: "gfPow (i + j) = (gfDouble ^^ i) (gfPow j)"
  by (simp add: gfPow_def funpow_add)

lemma funpow_gfDouble_inject [simp]: "(gfDouble ^^ i) a = (gfDouble ^^ i) b \<longleftrightarrow> a = b"
  by (induction i) auto

lemma gfPow_period: "gfPow (i + 255) = gfPow i"
  by (simp add: gfPow_add gfPow_values) (simp add: gfPow_def)

lemma gfPow_mult_period: "gfPow (i + k * 255) = gfPow i"
proof (induction k)
  case (Suc k)
  have "gfPow (i + Suc k * 255) = gfPow ((i + k * 255) + 255)" by (simp add: algebra_simps)
  with Suc show ?case by (simp only: gfPow_period)
qed simp

lemma gfPow_mod: "gfPow (i mod 255) = gfPow i"
  using gfPow_mult_period [of "i mod 255" "i div 255"] by (simp add: mod_mult_div_eq mult.commute)

text \<open>The exponents whose power is 1 are closed under remainder, so the order divides 255.\<close>

lemma gfPow_one_gcd: "gfPow m = 1 \<Longrightarrow> gfPow n = 1 \<Longrightarrow> gfPow (gcd m n) = 1"
proof (induction m n rule: gcd_nat_induct)
  case (step m n)
  have period: "gfPow (i + k * n) = gfPow i" for i k
  proof (induction k)
    case (Suc k)
    have "gfPow (i + Suc k * n) = (gfDouble ^^ (i + k * n)) (gfPow n)"
      by (simp add: gfPow_add [symmetric] algebra_simps)
    with Suc step.prems show ?case by (simp add: gfPow_def)
  qed simp
  from period [of "m mod n" "m div n"] step.prems have "gfPow (m mod n) = 1"
    by (simp add: mod_mult_div_eq mult.commute)
  with step show ?case by (metis gcd_red_nat)
qed simp

lemma divisors_255: "list_all (\<lambda>d. d dvd 255 \<longrightarrow> d dvd 15 \<or> d dvd 51 \<or> d dvd (85 :: nat)) [0..<255]"
  by code_simp

lemma proper_divisor_255: "d dvd 255 \<Longrightarrow> d < 255 \<Longrightarrow> d dvd 15 \<or> d dvd 51 \<or> d dvd (85 :: nat)"
  using divisors_255 by (simp add: list_all_iff)

lemma gfPow_mult_one: "gfPow d = 1 \<Longrightarrow> gfPow (k * d) = 1"
proof (induction k)
  case (Suc k)
  have "gfPow (Suc k * d) = (gfDouble ^^ d) (gfPow (k * d))"
    using gfPow_add [of d "k * d"] by simp
  also have "\<dots> = gfPow d" using Suc by (simp add: gfPow_def)
  finally show ?case using Suc by simp
qed simp

lemma gfPow_dvd_one: "gfPow d = 1 \<Longrightarrow> d dvd n \<Longrightarrow> gfPow n = 1"
  using gfPow_mult_one [of d] by (metis dvdE mult.commute)

lemma gfPow_eq_one: "0 < n \<Longrightarrow> n < 255 \<Longrightarrow> gfPow n \<noteq> 1"
proof
  assume n: "0 < n" "n < 255" "gfPow n = 1"
  define d where "d = gcd n 255"
  have one: "gfPow d = 1" unfolding d_def by (rule gfPow_one_gcd) (simp_all add: n gfPow_values)
  have "d \<le> n" unfolding d_def using n by (intro gcd_le1_nat) simp
  with n have "d < 255" by linarith
  moreover have "d dvd 255" unfolding d_def by (rule gcd_dvd2)
  ultimately have "d dvd 15 \<or> d dvd 51 \<or> d dvd 85" by (intro proper_divisor_255)
  with one have "gfPow 15 = 1 \<or> gfPow 51 = 1 \<or> gfPow 85 = 1"
    using gfPow_dvd_one by blast
  then show False by (simp add: gfPow_values)
qed

lemma gfPow_inj: "inj_on gfPow {..<255}"
proof (rule linorder_inj_onI)
  fix i j :: nat assume ij: "i < j" "i \<in> {..<255}" "j \<in> {..<255}"
  then have "gfPow j = (gfDouble ^^ i) (gfPow (j - i))" by (simp flip: gfPow_add)
  moreover have "gfPow (j - i) \<noteq> 1" using ij by (intro gfPow_eq_one) auto
  ultimately show "gfPow i \<noteq> gfPow j" by (auto simp: gfPow_def)
qed auto

lemma gfPow_surj: "a \<noteq> 0 \<Longrightarrow> \<exists>i < 255. gfPow i = a"
proof -
  have "card (UNIV - {0} :: byte set) = 255" by (simp add: card_word)
  then have "card (gfPow ` {..<255}) = card (UNIV - {0} :: byte set)"
    by (simp only: card_image [OF gfPow_inj] card_lessThan)
  moreover have "gfPow ` {..<255} \<subseteq> UNIV - {0}" by (rule image_subsetI) (metis DiffI UNIV_I gfPow_nonzero singletonD)
  ultimately have "gfPow ` {..<255} = UNIV - {0}" using card_subset_eq [OF finite] by metis
  then have "a \<in> gfPow ` {..<255} \<longleftrightarrow> a \<noteq> 0" by (simp only: Diff_iff UNIV_I singleton_iff simp_thms)
  then show "a \<noteq> 0 \<Longrightarrow> \<exists>i < 255. gfPow i = a" by (metis imageE lessThan_iff)
qed

subsection \<open>The tables\<close>

lemma gfLoop_fst: "fst (gfLoop n) = gfPow n"
  by (induction n) (auto simp: gfPow_Suc split: prod.splits)

lemma gfLoop_Suc:
  "gfLoop (Suc n) = (gfPow (Suc n), (fst (snd (gfLoop n)))[n := gfPow n], (snd (snd (gfLoop n)))[unat (gfPow n) := n])"
  using gfLoop_fst [of n] by (auto simp: gfPow_Suc split: prod.splits)

lemma gfLoop_lengths [simp]:
  "length (fst (snd (gfLoop n))) = 510" "length (snd (snd (gfLoop n))) = 256"
  by (induction n) (simp_all add: gfLoop_Suc GF_MAX_SHARDS_def del: gfLoop.simps(2))

lemma gfLoop_exp: "n \<le> 255 \<Longrightarrow> i < n \<Longrightarrow> fst (snd (gfLoop n)) ! i = gfPow i"
  by (induction n) (auto simp: gfLoop_Suc nth_list_update less_Suc_eq simp del: gfLoop.simps(2))

lemma gfLoop_log: "n \<le> 255 \<Longrightarrow> i < n \<Longrightarrow> snd (snd (gfLoop n)) ! unat (gfPow i) = i"
proof (induction n)
  case (Suc n)
  have bound: "unat (gfPow i) < 256" for i using unsigned_less [of "gfPow i", where ?'a = nat] by simp
  show ?case
  proof (cases "i = n")
    case True
    with bound show ?thesis by (simp add: gfLoop_Suc del: gfLoop.simps(2))
  next
    case False
    with Suc.prems have "gfPow i \<noteq> gfPow n" using gfPow_inj by (auto simp: inj_on_def)
    then have "unat (gfPow n) \<noteq> unat (gfPow i)" by (metis word_unat_eq_iff)
    with Suc False show ?thesis by (simp add: gfLoop_Suc del: gfLoop.simps(2))
  qed
qed simp

lemma gfLog_gfPow: "i < 255 \<Longrightarrow> gfLog ! unat (gfPow i) = i"
  by (simp add: gfLog_def GF_MAX_SHARDS_def gfLoop_log)

lemma fold_copy:
  assumes len: "m + m = length e" and period: "\<And>i. P (m + i) = P i"
    and base: "\<And>i. i < m \<Longrightarrow> e ! i = P i"
  shows "n \<le> m \<Longrightarrow> length (fold (\<lambda>pw e. e[pw := e ! (pw - m)]) [m..<m + n] e) = m + m \<and>
    (\<forall>i < m + n. fold (\<lambda>pw e. e[pw := e ! (pw - m)]) [m..<m + n] e ! i = P i)"
proof (induction n)
  case (Suc n)
  then show ?case using period [of n] by (auto simp: nth_list_update less_Suc_eq)
qed (use assms in auto)

lemma gfExp_nth: "i < 510 \<Longrightarrow> gfExp ! i = gfPow i"
proof -
  define m :: nat where "m = 255"
  assume "i < 510"
  then have i: "i < m + m" by (simp add: m_def)
  have "gfPow (m + j) = gfPow j" for j
    using gfPow_period [of j] by (simp only: m_def add.commute)
  moreover have "m + m = length (fst (snd (gfLoop m)))" by (simp add: m_def)
  moreover have "fst (snd (gfLoop m)) ! j = gfPow j" if "j < m" for j
    using that by (intro gfLoop_exp) (simp_all add: m_def)
  ultimately have "fold (\<lambda>pw e. e[pw := e ! (pw - m)]) [m..<m + m] (fst (snd (gfLoop m))) ! i = gfPow i"
    using fold_copy [of m "fst (snd (gfLoop m))" gfPow m] i by blast
  then show ?thesis by (simp only: gfExp_def GF_MAX_SHARDS_def m_def [symmetric] mult_2)
qed

subsection \<open>Multiplication and inversion\<close>

lemma gfMul_pow: "i < 255 \<Longrightarrow> j < 255 \<Longrightarrow> gfMul (gfPow i) (gfPow j) = gfPow (i + j)"
  by (simp add: gfMul_def gfLog_gfPow gfExp_nth)

lemma gfInv_pow: "i < 255 \<Longrightarrow> gfInv (gfPow i) = gfPow (255 - i)"
  by (simp add: gfInv_def gfLog_gfPow gfExp_nth GF_MAX_SHARDS_def)

lemma gfMul_zero [simp]: "gfMul 0 b = 0" "gfMul a 0 = 0"
  by (simp_all add: gfMul_def)

text \<open>Multiplying by a power of the generator is repeated doubling, hence linear.\<close>

lemma funpow_gfDouble_0 [simp]: "(gfDouble ^^ i) 0 = 0"
  by (induction i) simp_all

lemma gfMul_pow_left: "i < 255 \<Longrightarrow> gfMul (gfPow i) b = (gfDouble ^^ i) b"
  using gfPow_surj [of b] by (cases "b = 0") (auto simp: gfMul_pow gfPow_add)

lemma funpow_gfDouble_xor: "(gfDouble ^^ i) (a XOR b) = (gfDouble ^^ i) a XOR (gfDouble ^^ i) b"
  by (induction i) (simp_all add: gfDouble_xor)

lemma gfMul_commute: "gfMul a b = gfMul b a"
  by (auto simp: gfMul_def add.commute)

lemma gfMul_xor_right: "gfMul a (b XOR c) = gfMul a b XOR gfMul a c"
  using gfPow_surj [of a] by (cases "a = 0") (auto simp: gfMul_pow_left funpow_gfDouble_xor)

lemma gfMul_powers: "gfMul (gfPow i) (gfPow j) = gfPow (i + j)"
proof -
  have "gfMul (gfPow i) (gfPow j) = gfMul (gfPow (i mod 255)) (gfPow (j mod 255))"
    by (simp only: gfPow_mod)
  also have "\<dots> = gfPow (i mod 255 + j mod 255)" by (rule gfMul_pow) simp_all
  also have "\<dots> = gfPow ((i mod 255 + j mod 255) mod 255)" by (simp only: gfPow_mod)
  also have "\<dots> = gfPow (i + j)" by (simp only: mod_add_eq gfPow_mod)
  finally show ?thesis .
qed

lemma gfMul_assoc: "gfMul (gfMul a b) c = gfMul a (gfMul b c)"
proof (cases "a = 0 \<or> b = 0 \<or> c = 0")
  case False
  then obtain i j k where "a = gfPow i" "b = gfPow j" "c = gfPow k"
    using gfPow_surj by metis
  then show ?thesis by (simp add: gfMul_powers add.assoc)
qed auto

lemma gfMul_one [simp]: "gfMul 1 b = b"
  using gfMul_pow_left [of 0 b] by simp

lemma gfMul_inverse: "a \<noteq> 0 \<Longrightarrow> gfMul (gfInv a) a = 1"
proof -
  assume "a \<noteq> 0"
  then obtain i where i: "i < 255" "a = gfPow i" using gfPow_surj by blast
  then have "gfMul (gfInv a) a = gfPow (255 - i + i)"
    by (simp only: gfInv_pow gfMul_powers)
  also have "\<dots> = 1" using i by (simp add: gfPow_values)
  finally show ?thesis .
qed

subsection \<open>The field\<close>

typedef gf256 = "UNIV :: byte set"
  morphisms byte_of gf ..

setup_lifting type_definition_gf256

instantiation gf256 :: field
begin

lift_definition zero_gf256 :: gf256 is 0 .
lift_definition one_gf256 :: gf256 is 1 .
lift_definition plus_gf256 :: "gf256 \<Rightarrow> gf256 \<Rightarrow> gf256" is "(XOR)" .
lift_definition minus_gf256 :: "gf256 \<Rightarrow> gf256 \<Rightarrow> gf256" is "(XOR)" .
lift_definition uminus_gf256 :: "gf256 \<Rightarrow> gf256" is "\<lambda>a. a" .
lift_definition times_gf256 :: "gf256 \<Rightarrow> gf256 \<Rightarrow> gf256" is gfMul .
lift_definition inverse_gf256 :: "gf256 \<Rightarrow> gf256" is "\<lambda>a. if a = 0 then 0 else gfInv a" .
definition divide_gf256 :: "gf256 \<Rightarrow> gf256 \<Rightarrow> gf256" where "divide_gf256 a b = a * inverse b"

instance
proof
  fix a b c :: gf256
  show "a * b * c = a * (b * c)" by transfer (rule gfMul_assoc)
  show "a * b = b * a" by transfer (rule gfMul_commute)
  show "1 * a = a" by transfer simp
  show "a + b + c = a + (b + c)" by transfer (rule xor.assoc)
  show "a + b = b + a" by transfer (rule xor.commute)
  show "0 + a = a" by transfer simp
  show "- a + a = 0" by transfer simp
  show "a - b = a + - b" by transfer simp
  show "(a + b) * c = a * c + b * c"
    by transfer (metis gfMul_commute gfMul_xor_right)
  show "(0 :: gf256) \<noteq> 1" by transfer simp
  show "a \<noteq> 0 \<Longrightarrow> inverse a * a = 1" by transfer (simp add: gfMul_inverse)
  show "a div b = a * inverse b" by (rule divide_gf256_def)
  show "inverse (0 :: gf256) = 0" by transfer simp
qed

end

lemma gf_0 [simp]: "gf 0 = 0"
  by (rule zero_gf256.abs_eq [symmetric])

lemma gf_1 [simp]: "gf 1 = 1"
  by (rule one_gf256.abs_eq [symmetric])

lemma gf_xor: "gf (a XOR b) = gf a + gf b"
  by (rule plus_gf256.abs_eq [symmetric])

lemma gf_gfMul: "gf (gfMul a b) = gf a * gf b"
  by (rule times_gf256.abs_eq [symmetric])

lemma gf_gfInv: "a \<noteq> 0 \<Longrightarrow> gf (gfInv a) = inverse (gf a)"
  by (simp add: inverse_gf256.abs_eq)

lemma gf_inject_iff [simp]: "gf a = gf b \<longleftrightarrow> a = b"
  by (simp add: gf_inject)

lemma gf_eq_0 [simp]: "gf a = 0 \<longleftrightarrow> a = 0"
  using gf_inject_iff [of a 0] by (simp del: gf_inject_iff)

lemma byte_of_gf [simp]: "byte_of (gf a) = a"
  by (simp add: gf_inverse)

lemma gf_byte_of [simp]: "gf (byte_of a) = a"
  by (rule byte_of_inverse)

lemma gf256_minus [simp]: "- (a :: gf256) = a"
  by transfer simp

lemma gf256_diff: "(a :: gf256) - b = a + b"
  by transfer simp

lemmas gf_simps = gf_xor gf_gfMul

text \<open>C37: the table-driven \<open>gfMul\<close> and \<open>gfInv\<close> are the multiplication and inversion of a field whose
  addition is XOR: \<open>gfMul\<close> is associative and commutative with unit 1, distributes over XOR, has no
  zero divisors, and \<open>gfInv\<close> inverts every non-zero byte.
\<close>

theorem gf_field_laws:
  "gfMul (gfMul a b) c = gfMul a (gfMul b c) \<and> gfMul a b = gfMul b a \<and> gfMul 1 a = a
     \<and> gfMul a (b XOR c) = gfMul a b XOR gfMul a c
     \<and> (gfMul a b = 0 \<longleftrightarrow> a = 0 \<or> b = 0)
     \<and> gfMul (gfInv a) a = (if a = 0 then 0 else 1)"
proof -
  have "gfMul a b = 0 \<longleftrightarrow> a = 0 \<or> b = 0"
    using gf_gfMul [of a b] by (metis gf_eq_0 mult_eq_0_iff)
  then show ?thesis
    by (intro conjI gfMul_assoc gfMul_commute gfMul_xor_right) (simp_all add: gfMul_inverse)
qed

end
