(* ===== verification/FieldMatrix.thy ===== *)
theory FieldMatrix
  imports WM_Prelude
begin

text \<open>
  The linear algebra behind the erasure code, over an arbitrary field: matrices as functions of a
  row and a column index, the null space that elementary row operations keep, what a matrix whose
  leading columns are unit vectors says about its null space, and the non-singularity of Cauchy
  matrices. Nothing here mentions the program.
\<close>

type_synonym 'a matrix = "nat \<Rightarrow> nat \<Rightarrow> 'a"

definition kernel :: "nat \<Rightarrow> nat \<Rightarrow> ('a :: field) matrix \<Rightarrow> (nat \<Rightarrow> 'a) \<Rightarrow> bool" where
  "kernel n m W v \<longleftrightarrow> (\<forall>r < n. (\<Sum>c < m. W r c * v c) = 0)"

lemma kernelD: "kernel n m W v \<Longrightarrow> r < n \<Longrightarrow> (\<Sum>c < m. W r c * v c) = 0"
  by (simp add: kernel_def)

lemma kernel_cong:
  assumes "\<And>r c. r < n \<Longrightarrow> c < m \<Longrightarrow> W r c = W' r c"
  shows "kernel n m W v \<longleftrightarrow> kernel n m W' v"
  unfolding kernel_def using assms by (auto intro!: sum.cong)

subsection \<open>Elementary row operations\<close>

lemma kernel_swap:
  assumes "p < n" "q < n"
  shows "kernel n m (W(p := W q, q := W p)) v \<longleftrightarrow> kernel n m W v"
proof -
  have "(\<Sum>c < m. (W(p := W q, q := W p)) r c * v c) =
      (\<Sum>c < m. W (if r = q then p else if r = p then q else r) c * v c)" for r
    by simp
  moreover have "(\<forall>r < n. P (if r = q then p else if r = p then q else r)) \<longleftrightarrow> (\<forall>r < n. P r)" for P
    using assms by (metis (full_types))
  ultimately show ?thesis unfolding kernel_def by (simp only:)
qed

lemma kernel_scale:
  assumes "p < n" "s \<noteq> 0"
  shows "kernel n m (W(p := \<lambda>c. W p c * s)) v \<longleftrightarrow> kernel n m W v"
proof -
  have "(\<Sum>c < m. W p c * s * v c) = s * (\<Sum>c < m. W p c * v c)"
    by (simp add: sum_distrib_left algebra_simps)
  then have "(\<Sum>c < m. W p c * s * v c) = 0 \<longleftrightarrow> (\<Sum>c < m. W p c * v c) = 0"
    using assms by simp
  then show ?thesis unfolding kernel_def using assms by auto
qed

lemma kernel_eliminate:
  fixes W :: "('a :: field) matrix"
  assumes "p < n" "q < n" "p \<noteq> q"
  shows "kernel n m (W(q := \<lambda>c. W q c + f * W p c)) v \<longleftrightarrow> kernel n m W v"
proof -
  have "(\<Sum>c < m. (W q c + f * W p c) * v c) = (\<Sum>c < m. W q c * v c) + f * (\<Sum>c < m. W p c * v c)"
    by (simp add: sum.distrib sum_distrib_left algebra_simps)
  then have "(\<Sum>c < m. (W(q := \<lambda>c. W q c + f * W p c)) r c * v c) =
      (\<Sum>c < m. W r c * v c) + (if r = q then f * (\<Sum>c < m. W p c * v c) else 0)" for r
    by simp
  moreover have "(\<forall>r < n. z r + (if r = q then f * z p else 0) = 0) \<longleftrightarrow> (\<forall>r < n. z r = 0)"
    for z :: "nat \<Rightarrow> 'a"
  proof
    assume a: "\<forall>r < n. z r + (if r = q then f * z p else 0) = 0"
    from a assms have "z p = 0" by auto
    with a show "\<forall>r < n. z r = 0" by (auto split: if_splits)
  qed (use assms in auto)
  ultimately show ?thesis unfolding kernel_def by (simp only:)
qed

subsection \<open>Unit columns\<close>

definition unit_columns :: "nat \<Rightarrow> nat \<Rightarrow> ('a :: field) matrix \<Rightarrow> bool" where
  "unit_columns n j W \<longleftrightarrow> (\<forall>r < n. \<forall>c < j. W r c = (if r = c then 1 else 0))"

lemma unit_columnsD: "unit_columns n j W \<Longrightarrow> r < n \<Longrightarrow> c < j \<Longrightarrow> W r c = (if r = c then 1 else 0)"
  by (simp add: unit_columns_def)

lemma sum_split_first:
  fixes f :: "nat \<Rightarrow> 'a :: comm_monoid_add"
  assumes "n \<le> m"
  shows "(\<Sum>c < m. f c) = (\<Sum>c < n. f c) + (\<Sum>c < m - n. f (n + c))"
proof -
  have "(\<Sum>c \<in> {n..<m}. f c) = (\<Sum>c < m - n. f (n + c))"
    using assms sum.shift_bounds_nat_ivl [of f 0 n "m - n"]
    by (simp add: lessThan_atLeast0 add.commute)
  moreover have "{..<m} = {..<n} \<union> {n..<m}" using assms by auto
  moreover have "{..<n} \<inter> {n..<m} = {}" by auto
  ultimately show ?thesis by (simp add: sum.union_disjoint)
qed

text \<open>With all leading columns unit, a null vector's head is read off its tail.\<close>

lemma kernel_unit_tail:
  fixes W :: "('a :: field) matrix"
  assumes unit: "unit_columns n n W" and ker: "kernel n (n + m) W v" and r: "r < n"
  shows "v r = - (\<Sum>c < m. W r (n + c) * v (n + c))"
proof -
  have "(\<Sum>c < n. W r c * v c) = (\<Sum>c < n. if c = r then v c else 0)"
    by (intro sum.cong refl) (use unit r in \<open>auto simp: unit_columns_def\<close>)
  then have "(\<Sum>c < n. W r c * v c) = v r" using r by (simp add: sum.delta)
  with kernelD [OF ker r] have "v r + (\<Sum>c < m. W r (n + c) * v (n + c)) = 0"
    by (simp add: sum_split_first [of n "n + m"])
  then show ?thesis by (rule eq_neg_iff_add_eq_0 [THEN iffD2])
qed

text \<open>A column without a pivot gives a null vector that is one there and zero to its right.\<close>

definition stuck_vector :: "('a :: field) matrix \<Rightarrow> nat \<Rightarrow> nat \<Rightarrow> 'a" where
  "stuck_vector W j c = (if c < j then - W c j else if c = j then 1 else 0)"

lemma kernel_stuck:
  fixes W :: "('a :: field) matrix"
  assumes unit: "unit_columns n j W" and j: "j < m" "j \<le> n"
    and zero: "\<And>r. j \<le> r \<Longrightarrow> r < n \<Longrightarrow> W r j = 0"
  shows "kernel n m W (stuck_vector W j)"
  unfolding kernel_def
proof (intro allI impI)
  fix r assume r: "r < n"
  let ?v = "stuck_vector W j"
  have "(\<Sum>c < m. W r c * ?v c) = (\<Sum>c < Suc j. W r c * ?v c) + (\<Sum>c < m - Suc j. W r (Suc j + c) * ?v (Suc j + c))"
    using j by (intro sum_split_first) simp
  also have "(\<Sum>c < m - Suc j. W r (Suc j + c) * ?v (Suc j + c)) = 0"
    by (intro sum.neutral) (simp add: stuck_vector_def)
  also have "(\<Sum>c < Suc j. W r c * ?v c) = (\<Sum>c < j. if c = r then - W c j else 0) + W r j"
  proof -
    have "(\<Sum>c < j. W r c * ?v c) = (\<Sum>c < j. if c = r then - W c j else 0)"
      by (intro sum.cong refl) (use unit r in \<open>auto simp: unit_columns_def stuck_vector_def\<close>)
    then show ?thesis by (simp add: stuck_vector_def)
  qed
  also have "\<dots> = 0" using zero [of r] r by (cases "r < j") (auto simp: sum.delta)
  finally show "(\<Sum>c < m. W r c * ?v c) = 0" by simp
qed

subsection \<open>Cauchy matrices\<close>

lemma cauchy_reduce:
  fixes p q p0 q0 :: "'a :: field"
  assumes "p \<noteq> q" "p0 \<noteq> q"
  shows "(p - q0) / (p - q) - (p0 - q0) / (p0 - q) = (p0 - p) * ((q - q0) / (p0 - q) / (p - q))"
  using assms by (simp add: divide_simps) (simp add: algebra_simps)

text \<open>
  A square Cauchy matrix with rows \<open>P\<close> and columns \<open>Q\<close> has only the zero null vector. The
  induction clears row \<open>p0\<close> and column \<open>q0\<close> at once: what remains is again a Cauchy system for
  the rescaled unknowns.
\<close>

lemma cauchy_step:
  fixes c :: "'a :: field \<Rightarrow> 'a"
  assumes fin: "finite Q" and q0: "q0 \<in> Q" and p: "p \<notin> Q" and p0: "p0 \<notin> Q" "p \<noteq> p0"
    and zp: "(\<Sum>q \<in> Q. c q / (p - q)) = 0" and zp0: "(\<Sum>q \<in> Q. c q / (p0 - q)) = 0"
  shows "(\<Sum>q \<in> Q - {q0}. c q * (q - q0) / (p0 - q) / (p - q)) = 0"
proof -
  have ne: "p \<noteq> q" "p0 \<noteq> q" if "q \<in> Q" for q using that p p0 by auto
  let ?t = "\<lambda>q. c q * (q - q0) / (p0 - q) / (p - q)"
  have "(p0 - p) * (\<Sum>q \<in> Q. ?t q) =
      (\<Sum>q \<in> Q. c q * ((p - q0) / (p - q) - (p0 - q0) / (p0 - q)))"
    unfolding sum_distrib_left by (intro sum.cong refl) (simp add: cauchy_reduce ne)
  also have "\<dots> = (p - q0) * (\<Sum>q \<in> Q. c q / (p - q)) - (p0 - q0) * (\<Sum>q \<in> Q. c q / (p0 - q))"
    by (simp add: sum_distrib_left sum_subtractf algebra_simps)
  also have "\<dots> = 0" by (simp add: zp zp0)
  finally have "(\<Sum>q \<in> Q. ?t q) = 0" using p0 by simp
  then show ?thesis using fin q0 by (simp add: sum.remove [of Q q0])
qed

lemma cauchy_null:
  fixes c :: "'a :: field \<Rightarrow> 'a"
  assumes "finite P" "finite Q" "card P = card Q" "P \<inter> Q = {}"
    and "\<And>p. p \<in> P \<Longrightarrow> (\<Sum>q \<in> Q. c q / (p - q)) = 0" and "q \<in> Q"
  shows "c q = 0"
  using assms
proof (induction "card Q" arbitrary: P Q c q)
  case 0
  then show ?case by simp
next
  case (Suc k)
  then obtain p0 where p0: "p0 \<in> P" by (metis card.empty ex_in_conv nat.distinct(1))
  have q: "p0 - q \<noteq> 0" if "q \<in> Q" for q using that p0 Suc.prems(4) by auto
  have rest: "c r = 0" if r: "r \<in> Q" "r \<noteq> q0" and q0: "q0 \<in> Q" for q0 r
  proof -
    let ?d = "\<lambda>q. c q * (q - q0) / (p0 - q)"
    have zero: "(\<Sum>q \<in> Q - {q0}. ?d q / (p - q)) = 0" if "p \<in> P - {p0}" for p
      by (rule cauchy_step) (use that Suc.prems p0 q0 in auto)
    have "?d r = 0"
      by (rule Suc.hyps(1) [of "Q - {q0}" "P - {p0}" ?d r])
         (use Suc.hyps(2) Suc.prems p0 q0 r zero in \<open>auto simp: card_Diff_singleton\<close>)
    then show ?thesis using q [of r] r by auto
  qed
  have "(\<Sum>r \<in> Q. c r / (p0 - r)) = c q / (p0 - q) + (\<Sum>r \<in> Q - {q}. c r / (p0 - r))"
    using Suc.prems by (intro sum.remove) auto
  also have "(\<Sum>r \<in> Q - {q}. c r / (p0 - r)) = 0"
    by (intro sum.neutral) (use rest Suc.prems(6) in auto)
  finally show ?case using Suc.prems(5) [OF p0] q [of q] Suc.prems(6) by simp
qed

text \<open>The same for rows and columns that are numbered injectively into the field.\<close>

lemma cauchy_null_indexed:
  fixes g v :: "'i \<Rightarrow> 'a :: field"
  assumes inj: "inj_on g S" and sub: "P \<subseteq> S" "Q \<subseteq> S" and fin: "finite P" "finite Q"
    and card: "card P = card Q" and disj: "P \<inter> Q = {}"
    and zero: "\<And>i. i \<in> P \<Longrightarrow> (\<Sum>c \<in> Q. v c / (g i - g c)) = 0" and c: "c \<in> Q"
  shows "v c = 0"
proof -
  let ?v = "\<lambda>q. v (the_inv_into S g q)"
  have renumber: "the_inv_into S g (g c) = c" if "c \<in> Q" for c
    using that sub inj by (auto simp: the_inv_into_f_f)
  have "(\<Sum>q \<in> g ` Q. ?v q / (g i - q)) = (\<Sum>c \<in> Q. v c / (g i - g c))" for i
    using inj_on_subset [OF inj sub(2)] by (subst sum.reindex) (auto simp: renumber intro: sum.cong)
  then have "(\<Sum>q \<in> g ` Q. ?v q / (p - q)) = 0" if "p \<in> g ` P" for p
    using zero that by auto
  moreover have "g ` P \<inter> g ` Q = {}" using inj_on_image_Int [OF inj sub] disj by simp
  moreover have "card (g ` P) = card (g ` Q)"
    using card card_image [OF inj_on_subset [OF inj]] sub by simp
  ultimately have "?v (g c) = 0"
    using cauchy_null [of "g ` P" "g ` Q" ?v "g c"] fin c by blast
  then show ?thesis using renumber [OF c] by simp
qed

end
