(* ===== verification/ErasureCoding.thy ===== *)
theory ErasureCoding
  imports GF256 FieldMatrix
begin

text \<open>
  \<open>ts/packages/core/src/domain/erasure-coding.ts\<close>: the systematic K-of-N code built on the
  arithmetic of theory \<open>GF256\<close>. \<open>encodeShards\<close> splits the padded input into data shards and
  appends parity shards, \<open>decodeShards\<close> reconstructs the input from any K presented shards through
  \<open>invertMatrix\<close>, a Gauss-Jordan elimination on an augmented matrix. The lemmas show that the
  elimination keeps the null space, that it never reports a singular matrix on K distinct rows of
  the encode matrix, and that what it returns recovers the data.

  JavaScript numbers that the code checks with \<open>Number.isInteger\<close> are integers here; a fractional
  configuration is rejected by the source before anything else happens. Reads past the end of an
  array are \<open>rowAt\<close> (\<open>xs[i] ?? 0\<close>).
\<close>

record shard_config =
  dataShards :: int
  totalShards :: int

record presented_shard =
  shardIndex :: int
  shardData :: bytes

datatype shard_error =
    DataShardsNotPositive int
  | TotalShardsBelowData int int
  | TooManyShards int
  | MatrixSingular
  | ShardIndexOutside int int
  | TooFewShards int nat
  | DataShardMissing
  | LengthExceedsCapacity nat nat
  | StitchOutOfRange

definition validateConfig :: "shard_config \<Rightarrow> shard_error + unit" where
  "validateConfig config =
     (if dataShards config < 1 then Err (DataShardsNotPositive (dataShards config))
      else if totalShards config < dataShards config
        then Err (TotalShardsBelowData (dataShards config) (totalShards config))
      else if totalShards config > int GF_MAX_SHARDS then Err (TooManyShards (totalShards config))
      else Ok ())"

definition rowAt :: "byte list \<Rightarrow> nat \<Rightarrow> byte" where
  "rowAt row c = (if c < length row then row ! c else 0)"

definition encodeMatrixRow :: "nat \<Rightarrow> nat \<Rightarrow> byte list" where
  "encodeMatrixRow row k =
     (if row < k then (replicate k 0)[row := 1]
      else map (\<lambda>column. gfInv (word_of_nat row XOR word_of_nat column)) [0..<k])"

subsection \<open>Gauss-Jordan elimination\<close>

definition cell :: "byte list list \<Rightarrow> nat \<Rightarrow> nat \<Rightarrow> byte" where
  "cell work r c = (if r < length work then rowAt (work ! r) c else 0)"

definition augment :: "byte list list \<Rightarrow> byte list list" where
  "augment matrix =
     (let sz = length matrix
      in map (\<lambda>(rowIndex, row). (row @ replicate sz 0)[sz + rowIndex := 1])
           (enumerate 0 matrix))"

definition findPivot :: "nat \<Rightarrow> nat \<Rightarrow> byte list list \<Rightarrow> nat option" where
  "findPivot sz column work = find (\<lambda>candidate. cell work candidate column \<noteq> 0) [column..<sz]"

definition swapRows :: "nat \<Rightarrow> nat \<Rightarrow> byte list list \<Rightarrow> byte list list" where
  "swapRows column pivotRow work =
     (if pivotRow \<noteq> column then work[column := work ! pivotRow, pivotRow := work ! column] else work)"

text \<open>The loops over \<open>c < 2 * size\<close> write every cell of a row in place.\<close>

definition scaleRow :: "nat \<Rightarrow> byte \<Rightarrow> byte list \<Rightarrow> byte list" where
  "scaleRow sz pivotInverse row =
     map (\<lambda>c. gfMul (rowAt row c) pivotInverse) [0..<2 * sz] @ drop (2 * sz) row"

definition eliminateRow :: "nat \<Rightarrow> nat \<Rightarrow> nat \<Rightarrow> byte list list \<Rightarrow> byte list list" where
  "eliminateRow sz column other work =
     (if other = column then work
      else let factor = cell work other column
        in if factor = 0 then work
           else work[other :=
             map (\<lambda>c. cell work other c XOR gfMul factor (cell work column c)) [0..<2 * sz] @
             drop (2 * sz) (work ! other)])"

definition eliminateColumn :: "nat \<Rightarrow> nat \<Rightarrow> byte list list \<Rightarrow> shard_error + byte list list" where
  "eliminateColumn sz column work =
     (case findPivot sz column work of
        None \<Rightarrow> Err MatrixSingular
      | Some pivotRow \<Rightarrow>
          let swapped = swapRows column pivotRow work;
              scaled = swapped[column := scaleRow sz (gfInv (cell swapped column column)) (swapped ! column)]
          in Ok (fold (eliminateRow sz column) [0..<sz] scaled))"

primrec eliminateColumns :: "nat \<Rightarrow> nat list \<Rightarrow> byte list list \<Rightarrow> shard_error + byte list list" where
  "eliminateColumns sz [] work = Ok work"
| "eliminateColumns sz (column # columns) work =
     (case eliminateColumn sz column work of
        Inl e \<Rightarrow> Err e
      | Inr work' \<Rightarrow> eliminateColumns sz columns work')"

definition invertMatrix :: "byte list list \<Rightarrow> shard_error + byte list list" where
  "invertMatrix matrix =
     (let sz = length matrix
      in case eliminateColumns sz [0..<sz] (augment matrix) of
           Inl e \<Rightarrow> Err e
         | Inr work \<Rightarrow> Ok (map (drop sz) work))"

subsection \<open>Encoding and decoding\<close>

text \<open>\<open>Math.ceil(data.length / dataShards)\<close>.\<close>

definition shardLengthFor :: "nat \<Rightarrow> nat \<Rightarrow> nat" where
  "shardLengthFor len k = (len + k - 1) div k"

definition dataRun :: "bytes \<Rightarrow> nat \<Rightarrow> nat \<Rightarrow> bytes" where
  "dataRun data len i =
     (let run = take len (drop (i * len) data) in run @ replicate (len - length run) 0)"

definition parityRun :: "byte list \<Rightarrow> nat \<Rightarrow> nat \<Rightarrow> bytes list \<Rightarrow> bytes" where
  "parityRun coefficients k len shards =
     map (\<lambda>position.
            fold (\<lambda>column accumulated.
                    accumulated XOR gfMul (rowAt coefficients column) (cell shards column position))
              [0..<k] 0)
       [0..<len]"

definition encodeShards :: "bytes \<Rightarrow> shard_config \<Rightarrow> shard_error + bytes list" where
  "encodeShards data config =
     (case validateConfig config of
        Inl e \<Rightarrow> Err e
      | Inr _ \<Rightarrow>
          let k = nat (dataShards config);
              n = nat (totalShards config);
              len = shardLengthFor (length data) k;
              runs = map (dataRun data len) [0..<k]
          in Ok (runs @ map (\<lambda>parityIndex. parityRun (encodeMatrixRow parityIndex k) k len runs) [k..<n]))"

text \<open>A loop that stops with the given error at the first missing value.\<close>

definition those_or :: "'e \<Rightarrow> 'a option list \<Rightarrow> 'e + 'a list" where
  "those_or e xs = (case those xs of None \<Rightarrow> Err e | Some ys \<Rightarrow> Ok ys)"

definition passThrough :: "nat \<Rightarrow> presented_shard list \<Rightarrow> shard_error + bytes list" where
  "passThrough k chosen =
     those_or DataShardMissing
       (map (\<lambda>dataIndex. map_option shardData (find (\<lambda>c. shardIndex c = int dataIndex) chosen)) [0..<k])"

definition recoverRow :: "nat \<Rightarrow> nat \<Rightarrow> byte list \<Rightarrow> presented_shard list \<Rightarrow> bytes" where
  "recoverRow k len coefficients chosen =
     fold (\<lambda>chosenIndex row.
             let coefficient = rowAt coefficients chosenIndex
             in if coefficient = 0 then row
                else map (\<lambda>position. rowAt row position XOR
                            gfMul coefficient (cell (map shardData chosen) chosenIndex position)) [0..<len])
       [0..<k] (replicate len 0)"

definition recoverRuns :: "nat \<Rightarrow> presented_shard list \<Rightarrow> shard_error + bytes list" where
  "recoverRuns k chosen =
     (let len = length (shardData (hd chosen))
      in if list_all (\<lambda>entry. shardIndex entry < int k) chosen then passThrough k chosen
         else case invertMatrix (map (\<lambda>entry. encodeMatrixRow (nat (shardIndex entry)) k) chosen) of
                Inl e \<Rightarrow> Err e
              | Inr inverted \<Rightarrow> Ok (map (\<lambda>dataIndex. recoverRow k len (inverted ! dataIndex) chosen) [0..<k]))"

definition stitch :: "bytes list \<Rightarrow> nat \<Rightarrow> nat \<Rightarrow> shard_error + bytes" where
  "stitch recovered len originalLength =
     those_or StitchOutOfRange
       (map (\<lambda>position.
               let si = position div len; within = position mod len
               in if si < length recovered \<and> within < length (recovered ! si)
                  then Some (recovered ! si ! within) else None)
         [0..<originalLength])"

definition decodeShards ::
    "presented_shard list \<Rightarrow> shard_config \<Rightarrow> nat \<Rightarrow> shard_error + bytes" where
  "decodeShards presented config originalLength =
     (case validateConfig config of
        Inl e \<Rightarrow> Err e
      | Inr _ \<Rightarrow>
          (case find (\<lambda>entry. shardIndex entry < 0 \<or> shardIndex entry \<ge> totalShards config) presented of
             Some entry \<Rightarrow> Err (ShardIndexOutside (shardIndex entry) (totalShards config - 1))
           | None \<Rightarrow>
               let k = nat (dataShards config)
               in if length presented < k then Err (TooFewShards (dataShards config) (length presented))
                  else let chosen = take k presented;
                           len = length (shardData (hd chosen))
                       in case recoverRuns k chosen of
                            Inl e \<Rightarrow> Err e
                          | Inr recovered \<Rightarrow>
                              if originalLength > k * len
                              then Err (LengthExceedsCapacity originalLength (k * len))
                              else stitch recovered len originalLength))"

end
