(* ===== verification/ErasureElimination.thy ===== *)
theory ErasureElimination
  imports ErasureCoding
begin

text \<open>
  What \<open>invertMatrix\<close> computes: read over the field \<open>gf256\<close>, each column step keeps the null space
  of the augmented matrix and makes one more column a unit vector, and it fails only when that
  null space has a vector with a non-zero head.
\<close>

definition mat :: "byte list list \<Rightarrow> gf256 matrix" where
  "mat work r c = gf (cell work r c)"

definition shape :: "nat \<Rightarrow> byte list list \<Rightarrow> bool" where
  "shape n work \<longleftrightarrow> length work = n \<and> (\<forall>row \<in> set work. length row = 2 * n)"

lemma shape_length: "shape n work \<Longrightarrow> length work = n"
  by (simp add: shape_def)

lemma shape_row: "shape n work \<Longrightarrow> r < n \<Longrightarrow> length (work ! r) = 2 * n"
  by (simp add: shape_def)

lemma shape_update: "shape n work \<Longrightarrow> length row = 2 * n \<Longrightarrow> shape n (work[r := row])"
  unfolding shape_def using set_update_subset_insert [of work r row] by auto

lemma cell_update:
  "r < length work \<Longrightarrow> cell (work[r := row]) r' c = (if r' = r then rowAt row c else cell work r' c)"
  by (auto simp: cell_def)

subsection \<open>One row operation at a time\<close>

lemma swapRows_shape:
  "shape n work \<Longrightarrow> p < n \<Longrightarrow> q < n \<Longrightarrow> shape n (swapRows q p work)"
  by (simp add: swapRows_def shape_update shape_row)

lemma mat_swapRows:
  "shape n work \<Longrightarrow> p < n \<Longrightarrow> q < n \<Longrightarrow> mat (swapRows q p work) = (mat work)(p := mat work q, q := mat work p)"
  by (intro ext) (auto simp: mat_def swapRows_def cell_def nth_list_update dest: shape_length)

lemma scaleRow_length: "length row = 2 * n \<Longrightarrow> length (scaleRow n s row) = 2 * n"
  by (simp add: scaleRow_def)

lemma rowAt_scaleRow: "length row = 2 * n \<Longrightarrow> rowAt (scaleRow n s row) c = gfMul (rowAt row c) s"
  by (auto simp: scaleRow_def rowAt_def)

lemma mat_scale:
  assumes "shape n work" "p < n"
  shows "mat (work[p := scaleRow n s (work ! p)]) = (mat work)(p := \<lambda>c. mat work p c * gf s)"
  using assms by (intro ext) (auto simp: mat_def cell_update rowAt_scaleRow shape_row gf_simps cell_def dest: shape_length)

lemma eliminateRow_shape: "shape n work \<Longrightarrow> q < n \<Longrightarrow> shape n (eliminateRow n p q work)"
  by (auto simp: eliminateRow_def Let_def shape_row intro!: shape_update)

lemma mat_eliminateRow:
  assumes sh: "shape n work" and "p < n" "q < n" "q \<noteq> p"
  shows "mat (eliminateRow n p q work) = (mat work)(q := \<lambda>c. mat work q c + mat work q p * mat work p c)"
proof (intro ext)
  fix r c
  have z: "c \<ge> 2 * n \<Longrightarrow> cell work q c = 0" "c \<ge> 2 * n \<Longrightarrow> cell work p c = 0"
    using shape_row [OF sh] assms by (auto simp: cell_def rowAt_def)
  show "mat (eliminateRow n p q work) r c =
      ((mat work)(q := \<lambda>c. mat work q c + mat work q p * mat work p c)) r c"
    using assms shape_row [OF sh, of q] shape_length [OF sh] z
    by (auto simp: mat_def eliminateRow_def Let_def cell_update rowAt_def gf_simps)
qed

lemma eliminateRow_self [simp]: "eliminateRow n p p work = work"
  by (simp add: eliminateRow_def)

subsection \<open>Clearing a column\<close>

text \<open>
  After the rows before \<open>k\<close> are treated, their entries in the pivot column are zero and the pivot
  row is untouched, while every other column that was zero in the pivot row keeps its values.
\<close>

lemma clear_column:
  assumes sh: "shape n work" and p: "p < n" and unit: "mat work p p = 1"
  shows "k \<le> n \<Longrightarrow>
    (let w = fold (eliminateRow n p) [0..<k] work
     in shape n w \<and> mat w p = mat work p
      \<and> (\<forall>v. kernel n m (mat w) v \<longleftrightarrow> kernel n m (mat work) v)
      \<and> (\<forall>r < k. r \<noteq> p \<longrightarrow> mat w r p = 0)
      \<and> (\<forall>r c. k \<le> r \<or> mat work p c = 0 \<longrightarrow> mat w r c = mat work r c))"
proof (induction k)
  case 0
  then show ?case using sh by (simp add: Let_def)
next
  case (Suc k)
  define w where "w = fold (eliminateRow n p) [0..<k] work"
  from Suc have ih: "shape n w" "mat w p = mat work p" "k < n"
      "\<forall>v. kernel n m (mat w) v \<longleftrightarrow> kernel n m (mat work) v"
      "\<forall>r < k. r \<noteq> p \<longrightarrow> mat w r p = 0"
      "\<forall>r c. k \<le> r \<or> mat work p c = 0 \<longrightarrow> mat w r c = mat work r c"
    by (simp_all add: w_def Let_def)
  have step: "fold (eliminateRow n p) [0..<Suc k] work = eliminateRow n p k w" by (simp add: w_def)
  show ?case
  proof (cases "k = p")
    case True
    with ih step show ?thesis by (simp add: Let_def less_Suc_eq)
  next
    case False
    have m: "mat (eliminateRow n p k w) = (mat w)(k := \<lambda>c. mat w k c + mat w k p * mat w p c)"
      by (rule mat_eliminateRow) (use ih(1,3) p False in auto)
    have "kernel n m (mat (eliminateRow n p k w)) v \<longleftrightarrow> kernel n m (mat w) v" for v
      unfolding m by (rule kernel_eliminate) (use p ih(3) False in auto)
    moreover have "a + a = 0" for a :: gf256 by (metis gf256_diff diff_self)
    ultimately show ?thesis
      using ih False unit eliminateRow_shape [OF ih(1,3), of p]
      unfolding step Let_def by (auto simp: m less_Suc_eq)
  qed
qed

subsection \<open>One column step\<close>

lemma findPivot_None: "findPivot n j work = None \<longleftrightarrow> (\<forall>r. j \<le> r \<longrightarrow> r < n \<longrightarrow> mat work r j = 0)"
  by (auto simp: findPivot_def find_None_iff mat_def)

lemma findPivot_Some:
  "findPivot n j work = Some p \<Longrightarrow> j \<le> p \<and> p < n \<and> mat work p j \<noteq> 0"
  by (auto simp: findPivot_def find_Some_iff mat_def)

definition pivoted :: "nat \<Rightarrow> nat \<Rightarrow> byte list list \<Rightarrow> nat \<Rightarrow> byte list list" where
  "pivoted n j work p =
     (let swapped = swapRows j p work
      in swapped[j := scaleRow n (gfInv (cell swapped j j)) (swapped ! j)])"

lemma eliminateColumn_pivoted:
  "eliminateColumn n j work =
     (case findPivot n j work of None \<Rightarrow> Err MatrixSingular
      | Some p \<Rightarrow> Ok (fold (eliminateRow n j) [0..<n] (pivoted n j work p)))"
  by (simp add: eliminateColumn_def pivoted_def Let_def split: option.split)

lemma pivoted_props:
  assumes sh: "shape n work" and j: "j \<le> p" "p < n" and nz: "mat work p j \<noteq> 0"
    and unit: "unit_columns n j (mat work)"
  shows "shape n (pivoted n j work p)"
    and "kernel n m (mat (pivoted n j work p)) v \<longleftrightarrow> kernel n m (mat work) v"
    and "mat (pivoted n j work p) j j = 1"
    and "unit_columns n j (mat (pivoted n j work p))"
proof -
  define s where "s = swapRows j p work"
  have shs: "shape n s" unfolding s_def by (rule swapRows_shape) (use sh j in auto)
  have ms: "mat s = (mat work)(p := mat work j, j := mat work p)"
    unfolding s_def by (rule mat_swapRows) (use sh j in auto)
  have nz': "cell s j j \<noteq> 0" using nz ms by (metis fun_upd_same gf_eq_0 mat_def)
  then have inv: "gf (gfInv (cell s j j)) = inverse (mat s j j)"
    by (simp add: gf_gfInv mat_def)
  have mp: "mat (pivoted n j work p) = (mat s)(j := \<lambda>c. mat s j c * inverse (mat s j j))"
    unfolding pivoted_def Let_def s_def [symmetric] inv [symmetric]
    by (rule mat_scale) (use shs j in auto)
  show "shape n (pivoted n j work p)"
    unfolding pivoted_def Let_def s_def [symmetric]
    by (rule shape_update) (use shs j shape_row [OF shs] scaleRow_length in auto)
  have "inverse (mat s j j) \<noteq> 0" using nz' by (simp add: mat_def)
  then show "kernel n m (mat (pivoted n j work p)) v \<longleftrightarrow> kernel n m (mat work) v"
    using kernel_scale [of j n "inverse (mat s j j)" m "mat s" v] kernel_swap [of p n j m "mat work" v] j
    unfolding mp ms by simp
  show "mat (pivoted n j work p) j j = 1" using nz' by (simp add: mp mat_def)
  show "unit_columns n j (mat (pivoted n j work p))"
    using unit j by (auto simp: unit_columns_def mp ms)
qed

lemma eliminateColumn_ok:
  assumes sh: "shape n work" and unit: "unit_columns n j (mat work)" and j: "j < n"
    and ok: "eliminateColumn n j work = Ok work'"
  shows "shape n work'" and "unit_columns n (Suc j) (mat work')"
    and "kernel n m (mat work') v \<longleftrightarrow> kernel n m (mat work) v"
proof -
  from ok obtain p where p: "findPivot n j work = Some p"
      "work' = fold (eliminateRow n j) [0..<n] (pivoted n j work p)"
    by (auto simp: eliminateColumn_pivoted split: option.splits)
  let ?q = "pivoted n j work p"
  have jp: "j \<le> p" "p < n" "mat work p j \<noteq> 0" using findPivot_Some [OF p(1)] by auto
  note q = pivoted_props [OF sh jp unit]
  note c = clear_column [OF q(1) j q(3), of n, unfolded Let_def, simplified, folded p(2)]
  from c show "shape n work'" by blast
  from c [of m] q(2) show "kernel n m (mat work') v \<longleftrightarrow> kernel n m (mat work) v" by blast
  have "mat ?q j c = 0" if "c < j" for c using q(4) that j by (auto simp: unit_columns_def)
  with c q(3,4) show "unit_columns n (Suc j) (mat work')"
    by (auto simp: unit_columns_def less_Suc_eq)
qed

text \<open>A column step that finds no pivot exhibits a null vector.\<close>

lemma eliminateColumn_fails:
  assumes "unit_columns n j (mat work)" "j < n" "j < m" "eliminateColumn n j work = Err e"
  shows "e = MatrixSingular \<and> kernel n m (mat work) (stuck_vector (mat work) j)"
  using assms by (auto simp: eliminateColumn_pivoted findPivot_None split: option.splits intro!: kernel_stuck)

subsection \<open>The whole elimination\<close>

lemma eliminateColumns_result:
  assumes "shape n work" "unit_columns n j (mat work)" "j \<le> n"
  shows "(\<exists>work'. eliminateColumns n [j..<n] work = Ok work' \<and> shape n work' \<and> unit_columns n n (mat work')
            \<and> (\<forall>v. kernel n (n + n) (mat work') v \<longleftrightarrow> kernel n (n + n) (mat work) v))
       \<or> (eliminateColumns n [j..<n] work = Err MatrixSingular
            \<and> (\<exists>v i. kernel n (n + n) (mat work) v \<and> i < n \<and> v i = 1 \<and> (\<forall>c > i. v c = 0)))"
  using assms
proof (induction "n - j" arbitrary: j work)
  case 0
  then show ?case by simp
next
  case (Suc d)
  then have j: "j < n" "[j..<n] = j # [Suc j..<n]" by (auto simp: upt_conv_Cons)
  show ?case
  proof (cases "eliminateColumn n j work")
    case (Inl e)
    with eliminateColumn_fails [OF Suc.prems(2) j(1), of "n + n" e] j
    have "e = MatrixSingular \<and> kernel n (n + n) (mat work) (stuck_vector (mat work) j)" by simp
    moreover have "stuck_vector (mat work) j j = 1" "\<forall>c > j. stuck_vector (mat work) j c = 0"
      by (simp_all add: stuck_vector_def)
    ultimately show ?thesis using Inl j by auto
  next
    case (Inr work')
    note ok = eliminateColumn_ok [OF Suc.prems(1,2) j(1) Inr]
    from Suc.hyps(1) [of "Suc j" work'] Suc.hyps(2) ok(1,2) j
    show ?thesis by (simp add: Inr ok(3))
  qed
qed

end
