(* ===== verification/ErasureProperties.thy ===== *)
theory ErasureProperties
  imports ErasureElimination
begin

text \<open>
  The promise of the erasure code: \<open>invertMatrix\<close> inverts every non-singular matrix and rejects
  every singular one, K distinct rows of the encode matrix are non-singular, hence K distinct
  shards reconstruct the input.
\<close>

subsection \<open>Correctness of the inversion\<close>

definition square :: "byte list list \<Rightarrow> bool" where
  "square M \<longleftrightarrow> (\<forall>row \<in> set M. length row = length M)"

definition nonsingular :: "byte list list \<Rightarrow> bool" where
  "nonsingular M \<longleftrightarrow> (\<forall>v. kernel (length M) (length M) (mat M) v \<longrightarrow> (\<forall>c < length M. v c = 0))"

lemma augment_shape: "square M \<Longrightarrow> shape (length M) (augment M)"
  by (auto simp: shape_def square_def augment_def Let_def in_set_enumerate_eq)

lemma mat_augment:
  assumes "square M" "r < length M" "c < 2 * length M"
  shows "mat (augment M) r c =
    (if c < length M then mat M r c else if c = length M + r then 1 else 0)"
proof -
  have "length (M ! r) = length M" using assms by (simp add: square_def)
  then show ?thesis using assms
    by (auto simp: mat_def cell_def augment_def Let_def rowAt_def nth_enumerate_eq nth_append nth_list_update)
qed

lemma kernel_augment:
  assumes sq: "square M" and n: "n = length M"
  shows "kernel n (n + n) (mat (augment M)) v \<longleftrightarrow> (\<forall>r < n. (\<Sum>c < n. mat M r c * v c) + v (n + r) = 0)"
proof -
  have "(\<Sum>c < n + n. mat (augment M) r c * v c) = (\<Sum>c < n. mat M r c * v c) + v (n + r)" if r: "r < n" for r
  proof -
    have "(\<Sum>c < n. mat (augment M) r c * v c) = (\<Sum>c < n. mat M r c * v c)"
      by (intro sum.cong refl) (use sq r n in \<open>simp add: mat_augment\<close>)
    moreover have "(\<Sum>c < n. mat (augment M) r (n + c) * v (n + c)) = (\<Sum>c < n. if c = r then v (n + c) else 0)"
      by (intro sum.cong refl) (use sq r n in \<open>simp add: mat_augment\<close>)
    ultimately show ?thesis using r by (simp add: sum_split_first [of n "n + n"])
  qed
  then show ?thesis by (simp add: kernel_def)
qed

lemma gf256_add_eq_0 [simp]: "(a :: gf256) + b = 0 \<longleftrightarrow> a = b"
  by (metis gf256_diff right_minus_eq)

lemma invertMatrix_cases:
  assumes sq: "square M" and n: "n = length M"
  obtains w where "invertMatrix M = Ok (map (drop n) w)" "shape n w" "unit_columns n n (mat w)"
      "\<And>v. kernel n (n + n) (mat w) v \<longleftrightarrow> kernel n (n + n) (mat (augment M)) v"
  | "invertMatrix M = Err MatrixSingular" "\<not> nonsingular M"
proof -
  have sh: "shape n (augment M)" using augment_shape sq n by simp
  have singular: "\<not> nonsingular M"
    if v: "kernel n (n + n) (mat (augment M)) v" "i < n" "v i = 1" "\<forall>c > i. v c = 0" for v i
  proof -
    from v(1) have "\<forall>r < n. (\<Sum>c < n. mat M r c * v c) + v (n + r) = 0"
      by (simp only: kernel_augment [OF sq n])
    with v(2,4) have "kernel n n (mat M) v" by (simp add: kernel_def)
    moreover have "v i \<noteq> 0" using v(3) by simp
    ultimately show ?thesis using v(2) unfolding nonsingular_def n [symmetric] by blast
  qed
  have "unit_columns n 0 (mat (augment M))" by (simp add: unit_columns_def)
  from eliminateColumns_result [OF sh this] show thesis
    using that singular by (auto simp: invertMatrix_def Let_def n [symmetric])
qed

lemma invertMatrix_ok_nonsingular:
  assumes sq: "square M" and ok: "invertMatrix M = Ok inverted"
  shows "nonsingular M"
proof -
  define n where "n = length M"
  show ?thesis
  proof (rule invertMatrix_cases [OF sq n_def])
    fix w
    assume w: "shape n w" "unit_columns n n (mat w)"
      and ker: "\<And>v. kernel n (n + n) (mat w) v \<longleftrightarrow> kernel n (n + n) (mat (augment M)) v"
    show ?thesis
      unfolding nonsingular_def n_def [symmetric]
    proof (intro allI impI)
      fix v c assume v: "kernel n n (mat M) v" and c: "c < n"
      define u where "u c = (if c < n then v c else 0)" for c
      have "kernel n (n + n) (mat w) u"
        unfolding ker kernel_augment [OF sq n_def] using v by (simp add: u_def kernel_def)
      from kernel_unit_tail [OF w(2) this c] show "v c = 0" using c by (simp add: u_def)
    qed
  qed (use ok in simp)
qed

lemma invertMatrix_nonsingular:
  assumes sq: "square M" and ns: "nonsingular M" and n: "n = length M"
  shows "\<exists>inverted. invertMatrix M = Ok inverted \<and> length inverted = n
    \<and> (\<forall>d. \<forall>r < n. d r = (\<Sum>c < n. mat inverted r c * (\<Sum>i < n. mat M c i * d i)))"
proof (rule invertMatrix_cases [OF sq n])
  fix w
  assume inv: "invertMatrix M = Ok (map (drop n) w)" and w: "shape n w" "unit_columns n n (mat w)"
    and ker: "\<And>v. kernel n (n + n) (mat w) v \<longleftrightarrow> kernel n (n + n) (mat (augment M)) v"
  have cells: "mat (map (drop n) w) r c = mat w r (n + c)" if "r < n" "c < n" for r c
    using that shape_row [OF w(1)] shape_length [OF w(1)] by (auto simp: mat_def cell_def rowAt_def)
  have "d r = (\<Sum>c < n. mat (map (drop n) w) r c * (\<Sum>i < n. mat M c i * d i))" if r: "r < n" for d r
  proof -
    define v where "v c = (if c < n then d c else (\<Sum>i < n. mat M (c - n) i * d i))" for c
    have "kernel n (n + n) (mat w) v"
      unfolding ker kernel_augment [OF sq n] gf256_add_eq_0 by (simp add: v_def)
    from kernel_unit_tail [OF w(2) this r]
    have "d r = (\<Sum>c < n. mat w r (n + c) * (\<Sum>i < n. mat M c i * d i))" using r by (simp add: v_def)
    then show ?thesis using cells r by simp
  qed
  with inv show ?thesis using shape_length [OF w(1)] by auto
qed (use ns in auto)

text \<open>\<open>invertMatrix\<close> throws on a square matrix exactly when the matrix is singular.\<close>

theorem invertMatrix_singular_iff:
  "square M \<Longrightarrow> invertMatrix M = Err MatrixSingular \<longleftrightarrow> \<not> nonsingular M"
  using invertMatrix_cases [OF _ refl, of M] invertMatrix_ok_nonsingular [of M]
  by (metis Inl_Inr_False)

theorem invertMatrix_singular_iff_witness:
  "square [[0, 0], [0, 1]] \<and> invertMatrix [[0, 0], [0, 1]] = Err MatrixSingular \<and> \<not> nonsingular [[0, 0], [0, 1]]"
proof -
  have sq: "square [[0, 0], [0, 1]]" by (simp add: square_def)
  have "invertMatrix [[0, 0], [0, 1]] = Err MatrixSingular"
    by (simp add: invertMatrix_def augment_def enumerate_eq_zip upt_rec eliminateColumn_def findPivot_def cell_def rowAt_def)
  then show ?thesis using invertMatrix_singular_iff [OF sq] sq by blast
qed

subsection \<open>The encode matrix\<close>

lemma encodeMatrixRow_length [simp]: "length (encodeMatrixRow row k) = k"
  by (simp add: encodeMatrixRow_def)

lemma word_of_nat_byte_inj: "r < 256 \<Longrightarrow> c < 256 \<Longrightarrow> (word_of_nat r :: byte) = word_of_nat c \<longleftrightarrow> r = c"
  by (simp add: word_of_nat_eq_iff take_bit_nat_eq_self)

lemma word_of_nat_xor_eq_0: "r < 256 \<Longrightarrow> c < 256 \<Longrightarrow> (word_of_nat r :: byte) XOR word_of_nat c = 0 \<longleftrightarrow> r = c"
  by (metis gf_eq_0 gf_xor gf256_add_eq_0 gf_inject_iff word_of_nat_byte_inj)

lemma encodeMatrixRow_gf:
  assumes "row < 256" "k \<le> 256" "c < k"
  shows "gf (rowAt (encodeMatrixRow row k) c) =
    (if row < k then if c = row then 1 else 0 else 1 / (gf (word_of_nat row) - gf (word_of_nat c)))"
  using assms
  by (auto simp: encodeMatrixRow_def rowAt_def gf_gfInv word_of_nat_xor_eq_0 gf_xor gf256_diff inverse_eq_divide)

lemma card_cross_diff:
  assumes "distinct idx" "length idx = k"
  shows "card (set idx - {..<k}) = card ({..<k} - set idx)"
proof -
  have "card (set idx) = card {..<k}" using assms distinct_card by fastforce
  then show ?thesis by (simp add: card_Diff_subset_Int Int_commute)
qed

lemma encode_rows_nonsingular:
  assumes dist: "distinct idx" and len: "length idx = k" and range: "set idx \<subseteq> {..<256}" and k: "k \<le> 256"
  shows "nonsingular (map (\<lambda>row. encodeMatrixRow row k) idx)"
  unfolding nonsingular_def
proof (intro allI impI)
  let ?M = "map (\<lambda>row. encodeMatrixRow row k) idx"
  let ?g = "\<lambda>i. gf (word_of_nat i :: byte)"
  fix v c assume ker: "kernel (length ?M) (length ?M) (mat ?M) v" and c: "c < length ?M"
  have row: "(\<Sum>c < k. gf (rowAt (encodeMatrixRow i k) c) * v c) = 0" if i: "i \<in> set idx" for i
  proof -
    from i len obtain r where r: "r < k" "idx ! r = i" by (auto simp: in_set_conv_nth)
    with kernelD [OF ker, of r] len show ?thesis by (simp add: mat_def cell_def)
  qed
  have data: "v i = 0" if i: "i \<in> set idx" "i < k" for i
  proof -
    have "(\<Sum>c < k. gf (rowAt (encodeMatrixRow i k) c) * v c) = (\<Sum>c < k. if c = i then v c else 0)"
      by (intro sum.cong refl) (use i k in \<open>simp add: encodeMatrixRow_gf\<close>)
    with row [OF i(1)] i(2) show ?thesis by simp
  qed
  have parity: "(\<Sum>c \<in> {..<k} - set idx. v c / (?g i - ?g c)) = 0" if i: "i \<in> set idx - {..<k}" for i
  proof -
    have "(\<Sum>c \<in> {..<k} - set idx. v c / (?g i - ?g c)) = (\<Sum>c < k. v c / (?g i - ?g c))"
      by (rule sum.mono_neutral_left) (use data in auto)
    also have "\<dots> = (\<Sum>c < k. gf (rowAt (encodeMatrixRow i k) c) * v c)"
      by (intro sum.cong refl) (use i range k in \<open>auto simp: encodeMatrixRow_gf\<close>)
    finally show ?thesis using row i by simp
  qed
  have inj: "inj_on ?g {..<256}" by (auto simp: inj_on_def word_of_nat_byte_inj)
  have sub: "set idx - {..<k} \<subseteq> {..<256}" "{..<k} - set idx \<subseteq> {..<256}" using range k by auto
  have "(set idx - {..<k}) \<inter> ({..<k} - set idx) = {}" by blast
  from cauchy_null_indexed [OF inj sub _ _ card_cross_diff [OF dist len] this parity, of c]
  show "v c = 0" using data [of c] c len by (cases "c \<in> set idx") simp_all
qed

subsection \<open>What the shards hold\<close>

lemma gf_fold_xor:
  "gf (fold (\<lambda>c acc. acc XOR f c) [0..<k] a) = gf a + (\<Sum>c < k. gf (f c))"
  by (induction k) (simp_all add: gf_xor add.assoc)

lemma dataRun_length: "length (dataRun data len i) = len"
  by (simp add: dataRun_def Let_def)

lemma parityRun_length: "length (parityRun co k len shards) = len"
  by (simp add: parityRun_def)

lemma gf_parityRun:
  "p < len \<Longrightarrow> gf (parityRun co k len runs ! p) = (\<Sum>c < k. gf (rowAt co c) * gf (cell runs c p))"
  by (simp add: parityRun_def gf_fold_xor gf_gfMul)

lemma dataRun_nth:
  "i * len + w < length data \<Longrightarrow> w < len \<Longrightarrow> dataRun data len i ! w = data ! (i * len + w)"
  by (auto simp: dataRun_def Let_def nth_append)

definition runsOf :: "bytes \<Rightarrow> nat \<Rightarrow> bytes list" where
  "runsOf data k = map (dataRun data (shardLengthFor (length data) k)) [0..<k]"

definition shardOf :: "bytes \<Rightarrow> nat \<Rightarrow> nat \<Rightarrow> bytes" where
  "shardOf data k i =
     (if i < k then runsOf data k ! i
      else parityRun (encodeMatrixRow i k) k (shardLengthFor (length data) k) (runsOf data k))"

lemma encodeShards_ok:
  "encodeShards data config = Ok shards \<longleftrightarrow>
     validateConfig config = Ok () \<and>
     shards = map (shardOf data (nat (dataShards config))) [0..<nat (totalShards config)]"
proof -
  let ?k = "nat (dataShards config)" and ?n = "nat (totalShards config)"
  have "[0..<?n] = [0..<?k] @ [?k..<?n]" if "validateConfig config = Ok ()"
    using that upt_add_eq_append [of 0 ?k "?n - ?k"]
    by (auto simp: validateConfig_def split: if_splits)
  moreover have "map (shardOf data ?k) [0..<?k] = runsOf data ?k"
    by (rule nth_equalityI) (simp_all add: shardOf_def runsOf_def)
  moreover have "map (shardOf data ?k) [?k..<?n] =
      map (\<lambda>i. parityRun (encodeMatrixRow i ?k) ?k (shardLengthFor (length data) ?k) (runsOf data ?k)) [?k..<?n]"
    by (simp add: shardOf_def)
  ultimately show ?thesis
    by (auto simp: encodeShards_def Let_def runsOf_def split: sum.splits)
qed

lemma shardOf_length: "length (shardOf data k i) = shardLengthFor (length data) k"
  by (simp add: shardOf_def runsOf_def dataRun_length parityRun_length)

lemma gf_shardOf:
  assumes "p < shardLengthFor (length data) k" "i < 256" "k \<le> 256"
  shows "gf (shardOf data k i ! p) =
    (\<Sum>c < k. gf (rowAt (encodeMatrixRow i k) c) * gf (cell (runsOf data k) c p))"
proof (cases "i < k")
  case True
  have "(\<Sum>c < k. gf (rowAt (encodeMatrixRow i k) c) * gf (cell (runsOf data k) c p)) =
      (\<Sum>c < k. if c = i then gf (cell (runsOf data k) c p) else 0)"
    by (intro sum.cong refl) (use True assms in \<open>simp add: encodeMatrixRow_gf\<close>)
  then show ?thesis using True assms
    by (simp add: shardOf_def cell_def rowAt_def runsOf_def dataRun_length)
qed (use assms in \<open>simp add: shardOf_def gf_parityRun\<close>)

subsection \<open>Recovering the data runs\<close>

lemma recoverRow_fold:
  assumes "length row = len"
  shows "length (fold (\<lambda>ci row. let co = rowAt cs ci in if co = 0 then row
           else map (\<lambda>p. rowAt row p XOR gfMul co (cell D ci p)) [0..<len]) [0..<k] row) = len
    \<and> (\<forall>p < len. gf (fold (\<lambda>ci row. let co = rowAt cs ci in if co = 0 then row
           else map (\<lambda>p. rowAt row p XOR gfMul co (cell D ci p)) [0..<len]) [0..<k] row ! p)
         = gf (row ! p) + (\<Sum>ci < k. gf (rowAt cs ci) * gf (cell D ci p)))"
  using assms by (induction k) (simp_all add: Let_def gf_simps rowAt_def add.assoc)

lemma recoverRow_length: "length (recoverRow k len cs chosen) = len"
  using recoverRow_fold [of "replicate len 0" len] by (simp add: recoverRow_def)

lemma gf_recoverRow:
  "p < len \<Longrightarrow> gf (recoverRow k len cs chosen ! p) =
     (\<Sum>ci < k. gf (rowAt cs ci) * gf (cell (map shardData chosen) ci p))"
  using recoverRow_fold [of "replicate len 0" len] by (simp add: recoverRow_def)

definition genuine :: "bytes \<Rightarrow> nat \<Rightarrow> presented_shard list \<Rightarrow> bool" where
  "genuine data k chosen \<longleftrightarrow>
     list_all (\<lambda>e. 0 \<le> shardIndex e \<and> shardIndex e < 255 \<and> shardData e = shardOf data k (nat (shardIndex e))) chosen"

lemma genuine_nth:
  "genuine data k chosen \<Longrightarrow> i < length chosen \<Longrightarrow>
     0 \<le> shardIndex (chosen ! i) \<and> shardIndex (chosen ! i) < 255 \<and>
     shardData (chosen ! i) = shardOf data k (nat (shardIndex (chosen ! i)))"
  by (simp add: genuine_def list_all_length)

lemma received_cell:
  assumes gen: "genuine data k chosen" and len: "length chosen = k" and k: "k \<le> 255"
    and cp: "c < k" "p < shardLengthFor (length data) k"
  shows "gf (cell (map shardData chosen) c p) =
    (\<Sum>i < k. mat (map (\<lambda>row. encodeMatrixRow row k) (map (\<lambda>e. nat (shardIndex e)) chosen)) c i
       * gf (cell (runsOf data k) i p))"
proof -
  let ?i = "nat (shardIndex (chosen ! c))"
  have "mat (map (\<lambda>row. encodeMatrixRow row k) (map (\<lambda>e. nat (shardIndex e)) chosen)) c i =
      gf (rowAt (encodeMatrixRow ?i k) i)" for i
    using cp len by (simp add: mat_def cell_def)
  moreover have "cell (map shardData chosen) c p = shardOf data k ?i ! p"
    using genuine_nth [OF gen, of c] cp len by (simp add: cell_def rowAt_def shardOf_length)
  moreover have "?i < 256" using genuine_nth [OF gen, of c] cp len by (simp add: nat_less_iff)
  ultimately show ?thesis using gf_shardOf [of p data k ?i] cp k by simp
qed

lemma recoverRuns_parity:
  assumes gen: "genuine data k chosen" and len: "length chosen = k"
    and dist: "distinct (map shardIndex chosen)" and k: "0 < k" "k \<le> 255"
    and par: "\<not> list_all (\<lambda>e. shardIndex e < int k) chosen"
  shows "recoverRuns k chosen = Ok (runsOf data k)"
proof -
  define idx where "idx = map (\<lambda>e. nat (shardIndex e)) chosen"
  define L where "L = shardLengthFor (length data) k"
  let ?M = "map (\<lambda>row. encodeMatrixRow row k) idx" and ?D = "map shardData chosen"
  have di: "distinct idx"
    using dist genuine_nth [OF gen] by (simp add: idx_def distinct_conv_nth) (metis int_nat_eq)
  have sub: "set idx \<subseteq> {..<256}" using gen by (auto simp: idx_def genuine_def list_all_iff)
  have li: "length idx = k" by (simp add: idx_def len)
  have ns: "nonsingular ?M" by (rule encode_rows_nonsingular) (use di li sub k in auto)
  have sq: "square ?M" by (auto simp: square_def li)
  obtain inverted where inv: "invertMatrix ?M = Ok inverted"
    "length inverted = k" "\<And>d r. r < k \<Longrightarrow> d r = (\<Sum>c < k. mat inverted r c * (\<Sum>i < k. mat ?M c i * d i))"
    using invertMatrix_nonsingular [OF sq ns, of k] li by auto
  have L: "length (shardData (hd chosen)) = L"
    using genuine_nth [OF gen, of 0] len k by (cases chosen) (auto simp: shardOf_length L_def)
  have dat: "gf (cell ?D c p) = (\<Sum>i < k. mat ?M c i * gf (cell (runsOf data k) i p))" if "c < k" "p < L" for c p
    using received_cell [OF gen len, of c p] that k by (simp add: idx_def L_def)
  have "recoverRow k L (inverted ! r) chosen = runsOf data k ! r" if r: "r < k" for r
  proof (rule nth_equalityI)
    show "length (recoverRow k L (inverted ! r) chosen) = length (runsOf data k ! r)"
      using r by (simp add: recoverRow_length runsOf_def dataRun_length L_def)
    fix p assume "p < length (recoverRow k L (inverted ! r) chosen)"
    then have p: "p < L" by (simp add: recoverRow_length)
    have "gf (recoverRow k L (inverted ! r) chosen ! p) =
        (\<Sum>c < k. mat inverted r c * (\<Sum>i < k. mat ?M c i * gf (cell (runsOf data k) i p)))"
      using inv(2) r p by (simp add: gf_recoverRow dat mat_def cell_def [of inverted])
    also have "\<dots> = gf (cell (runsOf data k) r p)"
      using inv(3) [OF r, of "\<lambda>i. gf (cell (runsOf data k) i p)"] by simp
    finally show "recoverRow k L (inverted ! r) chosen ! p = runsOf data k ! r ! p"
      using r p by (simp add: cell_def rowAt_def runsOf_def dataRun_length L_def)
  qed
  then have "map (\<lambda>r. recoverRow k L (inverted ! r) chosen) [0..<k] = runsOf data k"
    by (intro nth_equalityI) (simp_all add: runsOf_def)
  moreover have "?M = map (\<lambda>e. encodeMatrixRow (nat (shardIndex e)) k) chosen" by (simp add: idx_def)
  ultimately show ?thesis using inv(1) par by (simp add: recoverRuns_def Let_def L)
qed

lemma those_or_Some: "(\<And>i. i \<in> set xs \<Longrightarrow> f i = Some (g i)) \<Longrightarrow> those_or e (map f xs) = Ok (map g xs)"
  by (induction xs) (auto simp: those_or_def split: option.splits)

lemma index_present:
  assumes "distinct (map shardIndex chosen)" "length chosen = k"
    and "list_all (\<lambda>e. 0 \<le> shardIndex e \<and> shardIndex e < int k) chosen" and "i < k"
  shows "\<exists>e \<in> set chosen. shardIndex e = int i"
proof -
  have "card (shardIndex ` set chosen) = k" using assms(1,2) distinct_card by fastforce
  moreover have "card (int ` {..<k}) = k" by (simp add: card_image)
  moreover have "shardIndex ` set chosen \<subseteq> int ` {..<k}"
    using assms(3) by (auto simp: list_all_iff image_iff) (metis lessThan_iff nat_0_le nat_less_iff)
  ultimately have "shardIndex ` set chosen = int ` {..<k}" by (intro card_subset_eq) auto
  then have "int i \<in> shardIndex ` set chosen" using assms(4) by simp
  then show ?thesis by (metis imageE)
qed

lemma recoverRuns_data:
  assumes gen: "genuine data k chosen" and len: "length chosen = k"
    and dist: "distinct (map shardIndex chosen)"
    and dat: "list_all (\<lambda>e. shardIndex e < int k) chosen"
  shows "recoverRuns k chosen = Ok (runsOf data k)"
proof -
  have "map_option shardData (find (\<lambda>c. shardIndex c = int i) chosen) = Some (runsOf data k ! i)" if i: "i < k" for i
  proof -
    have "\<exists>e \<in> set chosen. shardIndex e = int i"
      using index_present [OF dist len _ i] dat gen by (auto simp: genuine_def list_all_iff)
    then obtain e where e: "find (\<lambda>c. shardIndex c = int i) chosen = Some e" "e \<in> set chosen" "shardIndex e = int i"
      by (metis (mono_tags, lifting) find_None_iff find_Some_iff nth_mem option.exhaust)
    then show ?thesis using gen i by (auto simp: genuine_def list_all_iff shardOf_def)
  qed
  then have "passThrough k chosen = Ok (map (\<lambda>i. runsOf data k ! i) [0..<k])"
    unfolding passThrough_def by (intro those_or_Some) (simp only: set_upt atLeastLessThan_iff)
  moreover have "map (\<lambda>i. runsOf data k ! i) [0..<k] = runsOf data k"
    by (rule nth_equalityI) (simp_all add: runsOf_def)
  ultimately show ?thesis using dat by (simp add: recoverRuns_def Let_def)
qed

lemma shardLengthFor_covers: "0 < k \<Longrightarrow> len \<le> k * shardLengthFor len k"
proof -
  assume k: "0 < k"
  have "len + k - 1 < k * Suc ((len + k - 1) div k)" using dividend_less_times_div [OF k, of "len + k - 1"] by simp
  then show ?thesis using k by (simp add: shardLengthFor_def)
qed

lemma stitch_runsOf:
  assumes k: "0 < k"
  shows "stitch (runsOf data k) (shardLengthFor (length data) k) (length data) = Ok data"
proof -
  define L where "L = shardLengthFor (length data) k"
  have byte: "(let si = p div L; w = p mod L
      in if si < length (runsOf data k) \<and> w < length (runsOf data k ! si)
         then Some (runsOf data k ! si ! w) else None) = Some (data ! p)" if p: "p < length data" for p
  proof -
    have "p < k * L" using p shardLengthFor_covers [OF k, of "length data"] by (simp add: L_def)
    then have si: "p div L < k" and L: "0 < L" by (auto simp: less_mult_imp_div_less intro: gr0I)
    have "dataRun data L (p div L) ! (p mod L) = data ! p"
      using dataRun_nth [of "p div L" L "p mod L" data] p L by simp
    then show ?thesis using si L by (simp add: runsOf_def L_def [symmetric] dataRun_length Let_def)
  qed
  have "stitch (runsOf data k) L (length data) = Ok (map (\<lambda>p. data ! p) [0..<length data])"
    unfolding stitch_def by (intro those_or_Some) (simp only: byte set_upt atLeastLessThan_iff)
  then show ?thesis by (simp add: L_def map_nth)
qed

subsection \<open>Any K distinct shards reconstruct the input\<close>

lemma decodeShards_encodeShards:
  assumes "encodeShards data config = Ok shards"
    and "nat (dataShards config) \<le> length presented"
    and "distinct (map shardIndex (take (nat (dataShards config)) presented))"
    and "list_all (\<lambda>e. 0 \<le> shardIndex e \<and> shardIndex e < totalShards config
           \<and> shardData e = shards ! nat (shardIndex e)) presented"
  shows "decodeShards presented config (length data) = Ok data"
proof -
  define k where "k = nat (dataShards config)"
  let ?chosen = "take k presented"
  have v: "validateConfig config = Ok ()" and sh: "shards = map (shardOf data k) [0..<nat (totalShards config)]"
    using assms(1) by (simp_all add: encodeShards_ok k_def)
  have k: "0 < k" "k \<le> 255" "totalShards config \<le> 255"
    using v by (auto simp: validateConfig_def GF_MAX_SHARDS_def k_def split: if_splits)
  have len: "length ?chosen = k" using assms(2) by (simp add: k_def)
  have gen: "genuine data k ?chosen"
    using assms(4) k sh by (auto simp: genuine_def list_all_iff dest!: in_set_takeD)
  have rec: "recoverRuns k ?chosen = Ok (runsOf data k)"
    using recoverRuns_data [OF gen len] recoverRuns_parity [OF gen len _ k(1,2)] assms(3)
    by (auto simp: k_def)
  have L: "length (shardData (hd ?chosen)) = shardLengthFor (length data) k"
    using genuine_nth [OF gen, of 0] len k by (cases "?chosen") (auto simp: shardOf_length)
  have "find (\<lambda>e. shardIndex e < 0 \<or> shardIndex e \<ge> totalShards config) presented = None"
    using assms(4) by (auto simp: find_None_iff list_all_iff)
  then show ?thesis
    using v assms(2) rec shardLengthFor_covers [OF k(1), of "length data"] stitch_runsOf [OF k(1), of data] L
    by (simp add: decodeShards_def Let_def k_def [symmetric])
qed

text \<open>C3: every input survives the loss of any \<open>totalShards - dataShards\<close> shards. If \<open>encodeShards\<close>
  produced the shards, and at least \<open>dataShards\<close> of them are presented in any order under their
  own indices, the first \<open>dataShards\<close> of them with distinct indices, then \<open>decodeShards\<close> returns
  exactly the original bytes; in particular the submatrix of the surviving rows is never singular.
\<close>

theorem decode_after_encode:
  assumes "encodeShards data config = Ok shards"
    and "nat (dataShards config) \<le> length presented"
    and "distinct (map shardIndex (take (nat (dataShards config)) presented))"
    and "list_all (\<lambda>e. 0 \<le> shardIndex e \<and> shardIndex e < totalShards config
           \<and> shardData e = shards ! nat (shardIndex e)) presented"
  shows "decodeShards presented config (length data) = Ok data"
  by (rule decodeShards_encodeShards [OF assms])

lemma encode_2_of_3: "\<exists>shards. encodeShards [119, 105, 114, 101, 45, 109, 101, 115, 104]
    \<lparr>dataShards = 2, totalShards = 3\<rparr> = Ok shards"
  by (simp add: encodeShards_def validateConfig_def Let_def GF_MAX_SHARDS_def)

theorem decode_after_encode_witness:
  "\<exists>shards. encodeShards [119, 105, 114, 101, 45, 109, 101, 115, 104] \<lparr>dataShards = 2, totalShards = 3\<rparr> = Ok shards
     \<and> decodeShards [\<lparr>shardIndex = 2, shardData = shards ! 2\<rparr>, \<lparr>shardIndex = 0, shardData = shards ! 0\<rparr>]
         \<lparr>dataShards = 2, totalShards = 3\<rparr> 9 = Ok [119, 105, 114, 101, 45, 109, 101, 115, 104]"
proof -
  obtain shards where s: "encodeShards [119, 105, 114, 101, 45, 109, 101, 115, 104]
      \<lparr>dataShards = 2, totalShards = 3\<rparr> = Ok shards" using encode_2_of_3 by blast
  have "decodeShards [\<lparr>shardIndex = 2, shardData = shards ! 2\<rparr>, \<lparr>shardIndex = 0, shardData = shards ! 0\<rparr>]
         \<lparr>dataShards = 2, totalShards = 3\<rparr> (length [119, 105, 114, 101, 45, 109, 101, 115, 104 :: byte]) =
       Ok [119, 105, 114, 101, 45, 109, 101, 115, 104]"
    by (rule decode_after_encode [OF s]) simp_all
  moreover have "length [119, 105, 114, 101, 45, 109, 101, 115, 104 :: byte] = 9" by simp
  ultimately show ?thesis using s by metis
qed

end
