(* ===== verification/Election.thy ===== *)
theory Election
  imports DeviceIds
begin

text \<open>
  \<open>ts/packages/core/src/domain/coordinator-election.ts\<close>: the term-based coordinator election.
  The state of \<open>CoordinatorElection\<close> is a record, and \<open>claim\<close>, \<open>announceCurrent\<close> and \<open>evaluate\<close>
  are its operations. The locale \<open>priority\<close> holds the argument for convergence: a choice of the
  best claim heard so far, under a strict order that is total up to a key, depends only on the
  set of claims heard. Terms are integers: every term a state can hold is a safe integer, on which
  the source's double arithmetic is exact.
\<close>

fun compareDeviceIds :: "bytes \<Rightarrow> bytes \<Rightarrow> int" where
  "compareDeviceIds (a # as) (b # bs) =
     (if a \<noteq> b then (if a < b then -1 else 1) else compareDeviceIds as bs)"
| "compareDeviceIds as bs = int (length as) - int (length bs)"

definition MAX_SAFE_INTEGER :: int where "MAX_SAFE_INTEGER = 2 ^ 53 - 1"

definition isSupersedableTerm :: "int \<Rightarrow> bool" where
  "isSupersedableTerm t \<longleftrightarrow> \<bar>t\<bar> \<le> MAX_SAFE_INTEGER \<and> t \<ge> 0 \<and> t < MAX_SAFE_INTEGER"

record coordinator_claim =
  claimTerm :: int
  coordinator :: bytes
  capacityHint :: "int option"

type_synonym coordinator_frame = coordinator_claim

datatype evaluation_outcome =
    ClaimAccepted coordinator_claim
  | Retained coordinator_claim
  | ClaimRejected

record election =
  ownDevice :: bytes
  incumbent :: "coordinator_claim option"

datatype election_error = NoTermLeft int

definition newElection :: "bytes \<Rightarrow> election" where
  "newElection own = \<lparr>ownDevice = own, incumbent = None\<rparr>"

definition isSelf :: "election \<Rightarrow> bool" where
  "isSelf e \<longleftrightarrow> (case incumbent e of None \<Rightarrow> False
     | Some c \<Rightarrow> compareDeviceIds (coordinator c) (ownDevice e) = 0)"

definition lastTerm :: "election \<Rightarrow> int" where
  "lastTerm e = (case incumbent e of None \<Rightarrow> -1 | Some c \<Rightarrow> claimTerm c)"

definition claimRole :: "int option \<Rightarrow> election \<Rightarrow> election_error + (coordinator_frame \<times> election)" where
  "claimRole hint e =
     (let t = lastTerm e + 1
      in if \<not> isSupersedableTerm t then Err (NoTermLeft (lastTerm e))
         else let frame = \<lparr>claimTerm = t, coordinator = ownDevice e, capacityHint = hint\<rparr>
              in Ok (frame, e\<lparr>incumbent := Some frame\<rparr>))"

definition announceCurrent :: "election \<Rightarrow> coordinator_frame option" where
  "announceCurrent e = incumbent e"

definition evaluate :: "coordinator_frame \<Rightarrow> election \<Rightarrow> evaluation_outcome \<times> election" where
  "evaluate frame e =
     (if \<not> isSupersedableTerm (claimTerm frame) then (ClaimRejected, e)
      else case incumbent e of
             None \<Rightarrow> (ClaimAccepted frame, e\<lparr>incumbent := Some frame\<rparr>)
           | Some previous \<Rightarrow>
               if claimTerm frame > claimTerm previous
                  \<or> claimTerm frame = claimTerm previous
                    \<and> compareDeviceIds (coordinator frame) (coordinator previous) < 0
               then (ClaimAccepted frame, e\<lparr>incumbent := Some frame\<rparr>)
               else (Retained previous, e))"

definition evaluateAll :: "coordinator_frame list \<Rightarrow> election \<Rightarrow> election" where
  "evaluateAll frames e = fold (\<lambda>f s. snd (evaluate f s)) frames e"

subsection \<open>The device order\<close>

lemma compareDeviceIds_self [simp]: "compareDeviceIds a a = 0"
  by (induction a) simp_all

lemma compareDeviceIds_0 [simp]: "compareDeviceIds a b = 0 \<longleftrightarrow> a = b"
  by (induction a b rule: compareDeviceIds.induct) auto

lemma compareDeviceIds_neg: "compareDeviceIds a b < 0 \<longleftrightarrow> compareDeviceIds b a > 0"
  by (induction a b rule: compareDeviceIds.induct) auto

lemma compareDeviceIds_trans:
  "compareDeviceIds a b < 0 \<Longrightarrow> compareDeviceIds b c < 0 \<Longrightarrow> compareDeviceIds a c < 0"
proof (induction a arbitrary: b c)
  case Nil
  then show ?case by (cases b; cases c) (auto split: if_splits)
next
  case (Cons x a)
  then show ?case by (cases b; cases c) (auto split: if_splits)
qed

subsection \<open>The best claim heard\<close>

locale priority =
  fixes beats :: "'c \<Rightarrow> 'c \<Rightarrow> bool" and key :: "'c \<Rightarrow> 'k"
  assumes beats_trans: "beats a b \<Longrightarrow> beats b c \<Longrightarrow> beats a c"
    and beats_irrefl: "\<not> beats a a"
    and unbeaten_key: "key a = key b \<longleftrightarrow> \<not> beats a b \<and> \<not> beats b a"
begin

definition favour :: "'c \<Rightarrow> 'c option \<Rightarrow> 'c option" where
  "favour c cur = (case cur of None \<Rightarrow> Some c | Some p \<Rightarrow> if beats c p then Some c else Some p)"

definition best_of :: "'c \<Rightarrow> 'c set \<Rightarrow> bool" where
  "best_of w C \<longleftrightarrow> w \<in> C \<and> (\<forall>c \<in> C. \<not> beats c w)"

lemma unbeaten_trans: "\<not> beats a b \<Longrightarrow> \<not> beats b c \<Longrightarrow> \<not> beats a c"
  by (metis beats_trans unbeaten_key)

lemma favour_best:
  "best_of p C \<Longrightarrow> \<exists>w. favour c (Some p) = Some w \<and> best_of w (insert c C)"
  unfolding best_of_def favour_def by (auto simp: beats_irrefl dest: beats_trans)

lemma fold_favour_Some: "best_of p C \<Longrightarrow> \<exists>w. fold favour cs (Some p) = Some w \<and> best_of w (C \<union> set cs)"
proof (induction cs arbitrary: p C)
  case (Cons c cs)
  from favour_best [OF Cons.prems, of c] obtain w
    where w: "favour c (Some p) = Some w" "best_of w (insert c C)" by blast
  from Cons.IH [OF w(2)] w(1) show ?case by simp
qed auto

lemma fold_favour_None: "cs \<noteq> [] \<Longrightarrow> \<exists>w. fold favour cs None = Some w \<and> best_of w (set cs)"
proof (cases cs)
  case (Cons c cs')
  have "best_of c {c}" by (simp add: best_of_def beats_irrefl)
  from fold_favour_Some [OF this, of cs'] Cons show ?thesis by (simp add: favour_def)
qed simp

lemma best_key:
  assumes "best_of w C" "best_of w' C'" "key ` C = key ` C'"
  shows "key w = key w'"
proof -
  have le: "\<not> beats x w'" if x: "x \<in> C" for x
  proof -
    from x assms(3) obtain y where y: "y \<in> C'" "key y = key x" by (metis imageE imageI)
    then show ?thesis using assms(2) unbeaten_key [of y x] unbeaten_trans [of x y w'] by (auto simp: best_of_def)
  qed
  have "\<not> beats x w" if x: "x \<in> C'" for x
  proof -
    from x assms(3) obtain y where y: "y \<in> C" "key y = key x" by (metis imageE imageI)
    then show ?thesis using assms(1) unbeaten_key [of y x] unbeaten_trans [of x y w] by (auto simp: best_of_def)
  qed
  with le show ?thesis using assms(1,2) unbeaten_key by (auto simp: best_of_def)
qed

text \<open>What is preferred in the end depends only on the set of keys heard.\<close>

lemma fold_favour_cong:
  assumes "key ` set cs = key ` set ds"
  shows "map_option key (fold favour cs None) = map_option key (fold favour ds None)"
proof (cases "cs = []")
  case False
  with assms have "ds \<noteq> []" by auto
  with False fold_favour_None [of cs] fold_favour_None [of ds] best_key [OF _ _ assms] show ?thesis by force
qed (use assms in auto)

end

definition claimBeats :: "coordinator_claim \<Rightarrow> coordinator_claim \<Rightarrow> bool" where
  "claimBeats c p \<longleftrightarrow> claimTerm c > claimTerm p
     \<or> claimTerm c = claimTerm p \<and> compareDeviceIds (coordinator c) (coordinator p) < 0"

definition claimKey :: "coordinator_claim \<Rightarrow> int \<times> bytes" where
  "claimKey c = (claimTerm c, coordinator c)"

interpretation claims: priority claimBeats claimKey
proof
  fix a b c
  show "claimBeats a b \<Longrightarrow> claimBeats b c \<Longrightarrow> claimBeats a c"
    by (auto simp: claimBeats_def dest: compareDeviceIds_trans)
  show "\<not> claimBeats a a" by (simp add: claimBeats_def)
  have "compareDeviceIds (coordinator a) (coordinator b) < 0 \<or> compareDeviceIds (coordinator b) (coordinator a) < 0
      \<or> coordinator a = coordinator b"
    using compareDeviceIds_neg [of "coordinator b" "coordinator a"] compareDeviceIds_0 [of "coordinator a" "coordinator b"]
    by linarith
  then show "claimKey a = claimKey b \<longleftrightarrow> \<not> claimBeats a b \<and> \<not> claimBeats b a"
    by (auto simp: claimBeats_def claimKey_def)
qed

subsection \<open>Evaluation is preference among the supersedable claims\<close>

definition electable :: "coordinator_frame \<Rightarrow> bool" where
  "electable f \<longleftrightarrow> isSupersedableTerm (claimTerm f)"

lemma evaluate_incumbent:
  "incumbent (snd (evaluate f e)) =
     (if electable f then claims.favour f (incumbent e) else incumbent e)"
  by (auto simp: evaluate_def claims.favour_def claimBeats_def electable_def split: option.splits)

lemma evaluateAll_incumbent:
  "incumbent (evaluateAll fs e) = fold claims.favour (filter electable fs) (incumbent e)"
  unfolding evaluateAll_def by (induction fs arbitrary: e) (simp_all add: evaluate_incumbent)

definition election_ok :: "election \<Rightarrow> bool" where
  "election_ok e \<longleftrightarrow> (case incumbent e of None \<Rightarrow> True | Some c \<Rightarrow> electable c)"

lemma evaluate_ok: "election_ok e \<Longrightarrow> election_ok (snd (evaluate f e))"
  by (auto simp: election_ok_def evaluate_def electable_def split: option.splits)

lemma claimRole_ok: "claimRole hint e = Ok (f, e') \<Longrightarrow> election_ok e'"
  by (auto simp: claimRole_def election_ok_def electable_def Let_def split: if_splits)

subsection \<open>Runs\<close>

inductive election_step :: "election \<Rightarrow> election \<Rightarrow> bool" where
  hear: "election_step e (snd (evaluate f e))"
| raise: "claimRole hint e = Ok (f, e') \<Longrightarrow> election_step e e'"

inductive_cases election_stepE: "election_step e e'"

inductive election_run :: "election \<Rightarrow> election \<Rightarrow> bool" where
  here: "election_run e e"
| more: "election_run e e' \<Longrightarrow> election_step e' e'' \<Longrightarrow> election_run e e''"

lemma step_lastTerm: "election_step e e' \<Longrightarrow> election_ok e \<Longrightarrow> lastTerm e \<le> lastTerm e' \<and> election_ok e'"
  by (erule election_stepE)
     (auto simp: evaluate_ok claimRole_ok,
      auto simp: evaluate_def claimRole_def lastTerm_def Let_def isSupersedableTerm_def split: option.splits if_splits)

lemma run_lastTerm: "election_run e e' \<Longrightarrow> election_ok e \<Longrightarrow> lastTerm e \<le> lastTerm e' \<and> election_ok e'"
  by (induction rule: election_run.induct) (auto dest: step_lastTerm)

subsection \<open>Properties\<close>

text \<open>C35: Elections converge. Two peers that start with no claim and hear claims with the same
  set of (term, coordinator) pairs, in any order, with any repetition and with any unacceptable
  claims mixed in, end up with the same coordinator at the same term.\<close>

theorem election_converges:
  assumes "claimKey ` set (filter electable fs) = claimKey ` set (filter electable gs)"
  shows "map_option claimKey (incumbent (evaluateAll fs (newElection a))) =
         map_option claimKey (incumbent (evaluateAll gs (newElection b)))"
  using claims.fold_favour_cong [OF assms] by (simp add: evaluateAll_incumbent newElection_def)

theorem election_converges_witness:
  "map_option claimKey (incumbent (evaluateAll
       [\<lparr>claimTerm = 3, coordinator = [7], capacityHint = None\<rparr>, \<lparr>claimTerm = 3, coordinator = [2], capacityHint = None\<rparr>]
       (newElection [1]))) =
   map_option claimKey (incumbent (evaluateAll
       [\<lparr>claimTerm = 3, coordinator = [2], capacityHint = None\<rparr>, \<lparr>claimTerm = -1, coordinator = [0], capacityHint = None\<rparr>,
        \<lparr>claimTerm = 3, coordinator = [7], capacityHint = None\<rparr>] (newElection [9])))"
  by (rule election_converges)
     (auto simp: electable_def isSupersedableTerm_def MAX_SAFE_INTEGER_def claimKey_def)

text \<open>A claim wins. When \<open>claim\<close> succeeds, every peer whose incumbent has a term no higher than
  the claimant's accepts the returned frame, and over a whole run the term a peer holds never goes
  down and stays one that \<open>isSupersedableTerm\<close> admits.\<close>

theorem claim_is_accepted:
  assumes "claimRole hint e = Ok (f, e')" and "election_ok p" and "lastTerm p \<le> lastTerm e"
  shows "evaluate f p = (ClaimAccepted f, p\<lparr>incumbent := Some f\<rparr>) \<and> isSelf e'
    \<and> (election_run p q \<longrightarrow> lastTerm p \<le> lastTerm q \<and> election_ok q)"
  using assms run_lastTerm [of p q]
  by (auto simp: claimRole_def evaluate_def isSelf_def lastTerm_def Let_def split: option.splits if_splits)

theorem claim_is_accepted_witness:
  "\<exists>f e' q. claimRole None (newElection [1]) = Ok (f, e') \<and> evaluate f (newElection [2]) = (ClaimAccepted f, q)
     \<and> incumbent q = Some f \<and> lastTerm q = 0"
proof -
  let ?f = "\<lparr>claimTerm = 0, coordinator = [1], capacityHint = None\<rparr>"
  have c: "claimRole None (newElection [1]) = Ok (?f, (newElection [1])\<lparr>incumbent := Some ?f\<rparr>)"
    by (simp add: claimRole_def newElection_def lastTerm_def isSupersedableTerm_def MAX_SAFE_INTEGER_def Let_def)
  have "evaluate ?f (newElection [2]) = (ClaimAccepted ?f, (newElection [2])\<lparr>incumbent := Some ?f\<rparr>)"
    using claim_is_accepted [OF c, of "newElection [2]" "newElection [2]"]
    by (simp add: election_ok_def newElection_def lastTerm_def)
  with c show ?thesis by (auto simp: lastTerm_def)
qed

text \<open>The highest term the election accepts is not supersedable. Once a claim at
  \<open>MAX_SAFE_INTEGER - 1\<close> is the incumbent, \<open>claim\<close> throws on every peer that holds it, and nothing
  a peer can hear, in any number of steps, ever moves it to a higher term: only the equal-term
  tie-break can still replace the coordinator. The comment on \<open>isSupersedableTerm\<close> promises that
  accepted terms can always be superseded.\<close>

theorem top_term_not_superseded:
  assumes "election_run e e'" and "election_ok e" and "lastTerm e = MAX_SAFE_INTEGER - 1"
  shows "lastTerm e' = MAX_SAFE_INTEGER - 1 \<and> claimRole hint e' = Err (NoTermLeft (MAX_SAFE_INTEGER - 1))"
proof -
  have "lastTerm e \<le> lastTerm e' \<and> election_ok e'" using run_lastTerm assms(1,2) by blast
  then have "lastTerm e' = MAX_SAFE_INTEGER - 1"
    using assms(3) by (auto simp: election_ok_def lastTerm_def electable_def isSupersedableTerm_def MAX_SAFE_INTEGER_def
        split: option.splits)
  then show ?thesis by (simp add: claimRole_def isSupersedableTerm_def)
qed

theorem top_term_not_superseded_witness:
  "claimRole None (snd (evaluate \<lparr>claimTerm = MAX_SAFE_INTEGER - 1, coordinator = [9], capacityHint = None\<rparr> (newElection [1])))
     = Err (NoTermLeft (MAX_SAFE_INTEGER - 1))"
  by (rule top_term_not_superseded [OF here, THEN conjunct2])
     (simp_all add: evaluate_def newElection_def election_ok_def electable_def lastTerm_def isSupersedableTerm_def MAX_SAFE_INTEGER_def)

end
