(* ===== verification/JsText.thy ===== *)
theory JsText
  imports WM_Prelude
begin

text \<open>
  The number and text conversions the stores use: \<open>String(n)\<close> on a non-negative integer, \<open>Number\<close>
  on such a string, and \<open>TextEncoder\<close> and \<open>TextDecoder\<close> on ASCII text. Decimal numerals are
  read back and are injective, which the composed storage keys rely on.
\<close>

definition decDigits :: string where "decDigits = ''0123456789''"

fun natToString :: "nat \<Rightarrow> string" where
  "natToString n = (if n < 10 then [decDigits ! n] else natToString (n div 10) @ [decDigits ! (n mod 10)])"

declare natToString.simps [simp del]

definition digitValue :: "char \<Rightarrow> nat" where
  "digitValue c = of_char c - 48"

definition stringToNat :: "string \<Rightarrow> nat" where
  "stringToNat s = foldl (\<lambda>n c. 10 * n + digitValue c) 0 s"

definition textEncode :: "string \<Rightarrow> bytes" where
  "textEncode s = map of_char s"

definition textDecode :: "bytes \<Rightarrow> string" where
  "textDecode bs = map (\<lambda>b. char_of (unat b)) bs"

definition isDigit :: "char \<Rightarrow> bool" where
  "isDigit c \<longleftrightarrow> c \<in> set decDigits"

lemma digitValue_nth: "d < 10 \<Longrightarrow> digitValue (decDigits ! d) = d"
proof -
  assume "d < 10"
  then have "d \<in> set [0..<10]" by simp
  then show ?thesis by (simp add: upt_rec, elim disjE) (simp_all add: decDigits_def digitValue_def)
qed

lemma isDigit_nth [simp]: "d < 10 \<Longrightarrow> isDigit (decDigits ! d)"
  by (simp add: isDigit_def decDigits_def nth_mem del: set_simps)

lemma natToString_digits: "list_all isDigit (natToString n)"
  by (induction n rule: natToString.induct) (subst natToString.simps, simp)

lemma natToString_ne [simp]: "natToString n \<noteq> []"
  by (subst natToString.simps) simp

lemma stringToNat_natToString [simp]: "stringToNat (natToString n) = n"
proof (induction n rule: natToString.induct)
  case (1 n)
  then show ?case
    by (subst natToString.simps) (auto simp: stringToNat_def digitValue_nth)
qed

lemma natToString_inject [simp]: "natToString m = natToString n \<longleftrightarrow> m = n"
  by (metis stringToNat_natToString)

lemma textDecode_textEncode [simp]: "textDecode (textEncode s) = s"
proof (induction s)
  case (Cons c s)
  have "unat (of_char c :: byte) = of_char c"
    using nat_of_char_less_256 [of c] unat_of_nat [of "of_char c", where ?'a = 8]
    by (simp add: of_nat_of_char take_bit_nat_eq_self)
  with Cons show ?case by (simp add: textDecode_def textEncode_def)
qed (simp add: textDecode_def textEncode_def)

lemma not_digit_slash [simp]: "\<not> isDigit (CHR ''/'')" "\<not> isDigit (CHR '':'')"
  by (simp_all add: isDigit_def decDigits_def)

text \<open>A digit string followed by a non-digit is read off uniquely.\<close>

lemma digits_prefix_unique:
  "list_all isDigit s \<Longrightarrow> list_all isDigit t \<Longrightarrow> \<not> isDigit c \<Longrightarrow> \<not> isDigit d \<Longrightarrow>
     s @ c # xs = t @ d # ys \<longleftrightarrow> s = t \<and> c = d \<and> xs = ys"
proof (induction s arbitrary: t)
  case Nil
  then show ?case by (cases t) auto
next
  case (Cons a s)
  then show ?case by (cases t) auto
qed

end
