(* ===== verification/VerdictCache.thy ===== *)
theory VerdictCache
  imports JsText
begin

text \<open>
  \<open>ts/packages/core/src/domain/verdict-cache.ts\<close>: the byte-budgeted memo of verdicts.
  A call to \<open>verdict\<close> runs synchronously up to the point where it holds a promise, and the
  computation settles later, so the model has two operations, \<open>verdictCall\<close> and \<open>verdictSettle\<close>,
  that may interleave in any order. A promise is a number; \<open>vc_inflight\<close> holds, for every
  computation that has not settled, the key and cost its closures captured. The lemmas show that
  a shared promise always belongs to a computation on the same bytes, and that neither the held
  entries nor the computations still running ever charge more than the budget.
\<close>

definition ENTRY_OVERHEAD_BYTES :: nat where "ENTRY_OVERHEAD_BYTES = 16"
definition FROM_CHAR_CODE_CHUNK :: nat where "FROM_CHAR_CODE_CHUNK = 4096"

definition bytesKeyLength :: "bytes list \<Rightarrow> nat" where
  "bytesKeyLength parts =
     foldl (\<lambda>len part. len + (length (natToString (length part)) + 1 + length part)) 0 parts"

text \<open>The inner loop appends one chunk of characters at a time.\<close>

function chunkText :: "bytes \<Rightarrow> string" where
  "chunkText part =
     (if part = [] then []
      else map (\<lambda>b. char_of (unat b)) (take FROM_CHAR_CODE_CHUNK part)
             @ chunkText (drop FROM_CHAR_CODE_CHUNK part))"
  by pat_completeness auto
termination
  by (relation "measure length") (auto simp: FROM_CHAR_CODE_CHUNK_def)

declare chunkText.simps [simp del]

definition bytesKey :: "bytes list \<Rightarrow> string" where
  "bytesKey parts =
     foldl (\<lambda>key part. key @ natToString (length part) @ '':'' @ chunkText part) [] parts"

record verdict_entry =
  ve_promise :: nat
  ve_cost :: int

record verdict_cache =
  vc_entries :: "(string, verdict_entry) jmap"
  vc_used :: int
  vc_pending :: int
  vc_inflight :: "(nat, string \<times> int) jmap"
  vc_next :: nat

definition createVerdictCache :: verdict_cache where
  "createVerdictCache = \<lparr>vc_entries = [], vc_used = 0, vc_pending = 0, vc_inflight = [], vc_next = 0\<rparr>"

definition forget :: "string \<Rightarrow> verdict_cache \<Rightarrow> verdict_cache" where
  "forget key c =
     (case jget (vc_entries c) key of
        None \<Rightarrow> c
      | Some e \<Rightarrow> c\<lparr>vc_entries := jdel (vc_entries c) key, vc_used := vc_used c - ve_cost e\<rparr>)"

primrec evictLoop :: "int \<Rightarrow> string list \<Rightarrow> verdict_cache \<Rightarrow> verdict_cache" where
  "evictLoop budget [] c = c"
| "evictLoop budget (oldest # ks) c =
     (if vc_used c \<le> budget then c else evictLoop budget ks (forget oldest c))"

datatype verdict_start = Direct | Shared nat | Started nat

definition callCost :: "bytes list \<Rightarrow> int" where
  "callCost parts = int (bytesKeyLength parts) + int ENTRY_OVERHEAD_BYTES"

definition verdictCall :: "int \<Rightarrow> bytes list \<Rightarrow> verdict_cache \<Rightarrow> verdict_start \<times> verdict_cache" where
  "verdictCall budget parts c =
     (let cost = callCost parts
      in if cost > budget then (Direct, c)
         else if vc_pending c + cost > budget then (Direct, c)
         else let key = bytesKey parts
              in case jget (vc_entries c) key of
                   Some held \<Rightarrow>
                     (Shared (ve_promise held), c\<lparr>vc_entries := jset (jdel (vc_entries c) key) key held\<rparr>)
                 | None \<Rightarrow>
                     let pid = vc_next c;
                         started = c\<lparr>vc_pending := vc_pending c + cost,
                                     vc_inflight := jset (vc_inflight c) pid (key, cost),
                                     vc_entries := jset (vc_entries c) key \<lparr>ve_promise = pid, ve_cost = cost\<rparr>,
                                     vc_used := vc_used c + cost,
                                     vc_next := Suc pid\<rparr>
                     in (Started pid, evictLoop budget (jkeys (vc_entries started)) started))"

text \<open>\<open>compute\<close> resolves: an undefined outcome is forgotten, and the charge is released.\<close>

definition verdictSettle :: "nat \<Rightarrow> bool option \<Rightarrow> verdict_cache \<Rightarrow> verdict_cache" where
  "verdictSettle pid outcome c =
     (case jget (vc_inflight c) pid of
        None \<Rightarrow> c
      | Some (key, cost) \<Rightarrow>
          let c' = (if outcome = None then forget key c else c)
          in c'\<lparr>vc_pending := vc_pending c' - cost, vc_inflight := jdel (vc_inflight c') pid\<rparr>)"

subsection \<open>Keys\<close>

lemma chunkText_eq: "chunkText part = map (\<lambda>b. char_of (unat b)) part"
proof (induction part rule: chunkText.induct)
  case (1 part)
  then show ?case by (subst chunkText.simps) (simp flip: map_append)
qed

lemma bytesKeyLength_Nil [simp]: "bytesKeyLength [] = 0"
  by (simp add: bytesKeyLength_def)

lemma bytesKeyLength_Cons [simp]:
  "bytesKeyLength (p # ps) = length (natToString (length p)) + 1 + length p + bytesKeyLength ps"
proof -
  have "foldl (\<lambda>len part. len + (f part :: nat)) n ps = n + foldl (\<lambda>len part. len + f part) 0 ps" for f n
  proof (induction ps arbitrary: n)
    case (Cons a ps)
    from Cons.IH [of "n + f a"] Cons.IH [of "f a"] show ?case by simp
  qed simp
  from this [of "\<lambda>part. length (natToString (length part)) + 1 + length part"
      "length (natToString (length p)) + 1 + length p"]
  show ?thesis unfolding bytesKeyLength_def foldl_Cons add_0 .
qed

lemma bytesKey_Nil [simp]: "bytesKey [] = []"
  by (simp add: bytesKey_def)

lemma bytesKey_Cons [simp]:
  "bytesKey (p # ps) = natToString (length p) @ CHR '':'' # map (\<lambda>b. char_of (unat b)) p @ bytesKey ps"
proof -
  have "foldl (\<lambda>key part. key @ f part) k ps = k @ foldl (\<lambda>key part. key @ f part) [] ps" for f k
  proof (induction ps arbitrary: k)
    case (Cons a ps)
    from Cons.IH [of "k @ f a"] Cons.IH [of "f a"] show ?case by simp
  qed simp
  from this [of "\<lambda>part. natToString (length part) @ '':'' @ chunkText part"
      "natToString (length p) @ '':'' @ chunkText p"]
  have "bytesKey (p # ps) = (natToString (length p) @ '':'' @ chunkText p) @ bytesKey ps"
    unfolding bytesKey_def foldl_Cons append_Nil .
  then show ?thesis by (simp add: chunkText_eq)
qed

lemma length_bytesKey: "length (bytesKey parts) = bytesKeyLength parts"
  by (induction parts) simp_all

lemma char_of_unat_inj: "char_of (unat (a :: byte)) = (char_of (unat b) :: char) \<Longrightarrow> a = b"
proof -
  assume "char_of (unat a) = (char_of (unat b) :: char)"
  then have "(of_char (char_of (unat a)) :: nat) = of_char (char_of (unat b))" by (rule arg_cong)
  moreover have "unat (x :: byte) mod 256 = unat x" for x
    using unsigned_less [of x, where ?'a = nat] by simp
  ultimately show "a = b" by (metis of_char_of word_unat_eq_iff)
qed

lemma map_byte_chars_inj:
  "map (\<lambda>b. char_of (unat (b :: byte)) :: char) p = map (\<lambda>b. char_of (unat b)) q \<Longrightarrow> p = q"
  by (rule map_injective) (auto intro: injI char_of_unat_inj)

lemma bytesKey_inject [simp]: "bytesKey ps = bytesKey qs \<longleftrightarrow> ps = qs"
proof (induction ps arbitrary: qs)
  case Nil
  then show ?case by (cases qs) auto
next
  case (Cons p ps)
  show ?case
  proof (cases qs)
    case (Cons q qs')
    have "bytesKey (p # ps) = bytesKey (q # qs') \<longleftrightarrow>
        length p = length q \<and> map (\<lambda>b. char_of (unat b) :: char) p @ bytesKey ps = map (\<lambda>b. char_of (unat b)) q @ bytesKey qs'"
      by (simp add: digits_prefix_unique natToString_digits)
    also have "\<dots> \<longleftrightarrow> p = q \<and> ps = qs'"
      using Cons.IH [of qs'] map_byte_chars_inj [of p q] by auto
    finally show ?thesis using Cons by simp
  qed simp
qed

subsection \<open>Accounting\<close>

definition totalCost :: "(string, verdict_entry) jmap \<Rightarrow> int" where
  "totalCost m = sum_list (map (ve_cost \<circ> snd) m)"

definition inflightCost :: "(nat, string \<times> int) jmap \<Rightarrow> int" where
  "inflightCost m = sum_list (map (snd \<circ> snd) m)"

lemma sum_list_jdel:
  assumes "jwf m" "jget m k = Some v"
  shows "sum_list (map (f \<circ> snd) (jdel m k)) = sum_list (map (f \<circ> snd) m) - (f v :: int)"
  using assms
proof (induction m)
  case (Cons kv m)
  show ?case
  proof (cases "fst kv = k")
    case True
    then have "jget m k = None" using Cons.prems by (auto simp: jwf_def map_of_eq_None_iff)
    with True Cons.prems show ?thesis by (cases kv) (simp add: jdel_fresh)
  next
    case False
    with Cons show ?thesis by (cases kv) (auto simp: jwf_def)
  qed
qed simp

lemma set_jdel: "set (jdel m k) \<subseteq> set m"
  by (auto simp: AList.delete_eq)

definition cache_inv :: "int \<Rightarrow> (nat, bytes list) jmap \<Rightarrow> verdict_cache \<Rightarrow> bool" where
  "cache_inv budget h c \<longleftrightarrow>
     jwf (vc_entries c) \<and> jwf (vc_inflight c)
     \<and> vc_used c = totalCost (vc_entries c) \<and> vc_pending c = inflightCost (vc_inflight c)
     \<and> vc_pending c \<le> budget
     \<and> (\<forall>x \<in> set (vc_entries c). 0 \<le> ve_cost (snd x))
     \<and> (\<forall>x \<in> set (vc_inflight c). 0 \<le> snd (snd x) \<and> fst x < vc_next c)
     \<and> (\<forall>x \<in> set h. fst x < vc_next c)
     \<and> (\<forall>k e. jget (vc_entries c) k = Some e \<longrightarrow> (\<exists>parts. jget h (ve_promise e) = Some parts \<and> k = bytesKey parts))"

lemma forget_inv: "cache_inv budget h c \<Longrightarrow> cache_inv budget h (forget key c)"
  unfolding cache_inv_def forget_def totalCost_def inflightCost_def
  by (auto simp: sum_list_jdel split: option.splits dest: set_jdel [THEN subsetD])

lemma forget_entries: "vc_entries (forget key c) = jdel (vc_entries c) key"
  by (simp add: forget_def jdel_fresh split: option.splits)

lemma forget_frame [simp]:
  "vc_pending (forget key c) = vc_pending c" "vc_inflight (forget key c) = vc_inflight c" "vc_next (forget key c) = vc_next c"
  by (simp_all add: forget_def split: option.splits)

lemma forget_used: "cache_inv budget h c \<Longrightarrow> vc_used (forget key c) \<le> vc_used c"
  by (auto simp: forget_def cache_inv_def split: option.splits dest!: map_of_SomeD)

lemma evictLoop_inv: "cache_inv budget h c \<Longrightarrow> cache_inv budget h (evictLoop budget ks c)"
  by (induction ks arbitrary: c) (simp_all add: forget_inv)

lemma evictLoop_used:
  assumes "cache_inv budget h c" "0 \<le> budget" "set (jkeys (vc_entries c)) \<subseteq> set ks"
  shows "vc_used (evictLoop budget ks c) \<le> budget"
  using assms
proof (induction ks arbitrary: c)
  case Nil
  then have "vc_entries c = []" by simp
  with Nil show ?case by (simp add: cache_inv_def totalCost_def)
next
  case (Cons k ks)
  have "set (jkeys (vc_entries (forget k c))) \<subseteq> set ks"
    using Cons.prems(3) by (auto simp: forget_entries AList.delete_eq)
  with Cons show ?case by (simp add: forget_inv)
qed

lemma inflightCost_nonneg: "cache_inv budget h c \<Longrightarrow> 0 \<le> vc_pending c"
  unfolding cache_inv_def inflightCost_def by (auto intro!: sum_list_nonneg)

lemma used_nonneg: "cache_inv budget h c \<Longrightarrow> 0 \<le> vc_used c"
  unfolding cache_inv_def totalCost_def by (auto intro!: sum_list_nonneg)

subsection \<open>Runs\<close>

datatype cache_event = CallEvent "bytes list" | SettleEvent nat "bool option"

definition cacheStep ::
    "int \<Rightarrow> cache_event \<Rightarrow> verdict_cache \<times> (nat, bytes list) jmap \<Rightarrow> verdict_cache \<times> (nat, bytes list) jmap" where
  "cacheStep budget ev s =
     (case s of (c, h) \<Rightarrow>
        (case ev of
           SettleEvent pid outcome \<Rightarrow> (verdictSettle pid outcome c, h)
         | CallEvent parts \<Rightarrow>
             (case verdictCall budget parts c of
                (Started pid, c') \<Rightarrow> (c', (pid, parts) # h)
              | (_, c') \<Rightarrow> (c', h))))"

definition cacheRun :: "int \<Rightarrow> cache_event list \<Rightarrow> verdict_cache \<times> (nat, bytes list) jmap" where
  "cacheRun budget evs = fold (cacheStep budget) evs (createVerdictCache, [])"

definition cache_good :: "int \<Rightarrow> verdict_cache \<times> (nat, bytes list) jmap \<Rightarrow> bool" where
  "cache_good budget s \<longleftrightarrow> cache_inv budget (snd s) (fst s) \<and> vc_used (fst s) \<le> budget"

lemma settle_good: "cache_good budget (c, h) \<Longrightarrow> cache_good budget (verdictSettle pid outcome c, h)"
proof (cases "jget (vc_inflight c) pid")
  case (Some kc)
  obtain key cost where kc: "kc = (key, cost)" by (cases kc)
  assume good: "cache_good budget (c, h)"
  define c' where "c' = (if outcome = None then forget key c else c)"
  have c': "cache_inv budget h c'" "vc_inflight c' = vc_inflight c" "vc_used c' \<le> budget"
    using good forget_used [of budget h c key] by (auto simp: cache_good_def c'_def forget_inv)
  have "0 \<le> cost" using good Some kc by (auto simp: cache_good_def cache_inv_def dest!: map_of_SomeD)
  moreover have "verdictSettle pid outcome c = c'\<lparr>vc_pending := vc_pending c' - cost, vc_inflight := jdel (vc_inflight c') pid\<rparr>"
    using Some kc by (simp add: verdictSettle_def c'_def Let_def)
  ultimately show ?thesis
    using c' Some kc sum_list_jdel [of "vc_inflight c" pid kc snd]
    by (auto simp: cache_good_def cache_inv_def inflightCost_def dest: set_jdel [THEN subsetD])
qed (simp add: verdictSettle_def)

lemma shared_same_bytes:
  "cache_inv budget h c \<Longrightarrow> verdictCall budget parts c = (Shared pid, c') \<Longrightarrow> jget h pid = Some parts"
  by (fastforce simp: verdictCall_def cache_inv_def Let_def split: if_splits option.splits)

lemma touch_good:
  assumes "cache_good budget (c, h)" "jget (vc_entries c) key = Some held"
  shows "cache_good budget (c\<lparr>vc_entries := jset (jdel (vc_entries c) key) key held\<rparr>, h)"
proof -
  have append: "jset (jdel (vc_entries c) key) key held = jdel (vc_entries c) key @ [(key, held)]"
    by (rule jset_fresh) simp
  have inv: "cache_inv budget h c" using assms(1) by (simp add: cache_good_def)
  have "totalCost (jdel (vc_entries c) key @ [(key, held)]) = totalCost (vc_entries c)"
    using sum_list_jdel [of "vc_entries c" key held ve_cost] inv assms(2)
    by (simp add: totalCost_def cache_inv_def)
  moreover have "jwf (jset (jdel (vc_entries c) key) key held)" using inv by (simp add: cache_inv_def)
  moreover have "(key, held) \<in> set (vc_entries c)" using assms(2) by (rule map_of_SomeD)
  ultimately show ?thesis
    using assms by (auto simp: cache_good_def cache_inv_def append split: if_splits dest: set_jdel [THEN subsetD])
qed

lemma callCost_nonneg: "0 \<le> callCost parts"
  by (simp add: callCost_def)

definition startCall :: "bytes list \<Rightarrow> verdict_cache \<Rightarrow> verdict_cache" where
  "startCall parts c =
     c\<lparr>vc_pending := vc_pending c + callCost parts,
       vc_inflight := jset (vc_inflight c) (vc_next c) (bytesKey parts, callCost parts),
       vc_entries := jset (vc_entries c) (bytesKey parts) \<lparr>ve_promise = vc_next c, ve_cost = callCost parts\<rparr>,
       vc_used := vc_used c + callCost parts,
       vc_next := Suc (vc_next c)\<rparr>"

lemma startCall_inv:
  assumes inv: "cache_inv budget h c" and fresh: "jget (vc_entries c) (bytesKey parts) = None"
    and room: "vc_pending c + callCost parts \<le> budget"
  shows "cache_inv budget ((vc_next c, parts) # h) (startCall parts c)"
proof -
  have "jget (vc_inflight c) (vc_next c) = None" "jget h (vc_next c) = None"
    using inv by (force simp: cache_inv_def map_of_eq_None_iff)+
  moreover have "(\<exists>ps'. jget h p = Some ps' \<and> P ps') \<Longrightarrow> p \<noteq> vc_next c" for p P
    using inv by (fastforce simp: cache_inv_def dest: map_of_SomeD)
  ultimately show ?thesis
    using inv fresh room callCost_nonneg [of parts]
    by (auto simp: startCall_def cache_inv_def jset_fresh totalCost_def inflightCost_def jwf_def
        map_of_eq_None_iff less_SucI split: if_splits) blast+
qed

lemma call_good:
  assumes "cache_good budget (c, h)" "0 \<le> budget"
  shows "cache_good budget (cacheStep budget (CallEvent parts) (c, h))"
proof (cases "callCost parts > budget \<or> vc_pending c + callCost parts > budget")
  case True
  then have "verdictCall budget parts c = (Direct, c)" by (auto simp: verdictCall_def Let_def)
  with assms show ?thesis by (simp add: cacheStep_def)
next
  case room: False
  show ?thesis
  proof (cases "jget (vc_entries c) (bytesKey parts)")
    case None
    have "cache_inv budget ((vc_next c, parts) # h) (startCall parts c)"
      using assms room None by (intro startCall_inv) (auto simp: cache_good_def)
    moreover have "cacheStep budget (CallEvent parts) (c, h) =
        (evictLoop budget (jkeys (vc_entries (startCall parts c))) (startCall parts c), (vc_next c, parts) # h)"
      using room None by (simp add: cacheStep_def verdictCall_def Let_def startCall_def)
    ultimately show ?thesis using assms(2) evictLoop_inv evictLoop_used by (simp add: cache_good_def)
  next
    case (Some held)
    then have "cacheStep budget (CallEvent parts) (c, h) =
        (c\<lparr>vc_entries := jset (jdel (vc_entries c) (bytesKey parts)) (bytesKey parts) held\<rparr>, h)"
      using room by (simp add: cacheStep_def verdictCall_def Let_def)
    then show ?thesis using touch_good [OF assms(1) Some] by simp
  qed
qed

lemma cacheRun_good: "0 \<le> budget \<Longrightarrow> cache_good budget (cacheRun budget evs)"
proof -
  assume b: "0 \<le> budget"
  have step: "cache_good budget s \<Longrightarrow> cache_good budget (cacheStep budget ev s)" for s ev
    using b call_good settle_good by (cases s; cases ev) (auto simp: cacheStep_def)
  have "cache_good budget s \<Longrightarrow> cache_good budget (fold (cacheStep budget) evs s)" for s
    using step by (induction evs arbitrary: s) auto
  moreover have "cache_good budget (createVerdictCache, [])"
    using b by (simp add: cache_good_def cache_inv_def createVerdictCache_def totalCost_def inflightCost_def)
  ultimately show ?thesis by (simp add: cacheRun_def)
qed

subsection \<open>Properties\<close>

text \<open>The memo is transparent and bounded. In every interleaving of calls and settlements, a
  call that is answered from the cache shares a computation that was started for exactly the same
  byte sequences, and both the cost of the held entries and the cost of the computations still
  running stay within the budget, which counts every character of the keys they hold.\<close>

theorem verdict_cache_sound:
  "case cacheRun (int budget) evs of (c, h) \<Rightarrow>
     (case verdictCall (int budget) parts c of (Shared pid, _) \<Rightarrow> jget h pid = Some parts | _ \<Rightarrow> True)
     \<and> 0 \<le> vc_used c \<and> vc_used c \<le> int budget \<and> vc_used c = (\<Sum>(k, e) \<leftarrow> vc_entries c. ve_cost e)
     \<and> 0 \<le> vc_pending c \<and> vc_pending c \<le> int budget
     \<and> int (length (bytesKey parts)) + int ENTRY_OVERHEAD_BYTES = callCost parts"
proof -
  obtain c h where r: "cacheRun (int budget) evs = (c, h)" by fastforce
  then have good: "cache_inv (int budget) h c" "vc_used c \<le> int budget"
    using cacheRun_good [of "int budget" evs] by (simp_all add: cache_good_def)
  have "vc_used c = (\<Sum>(k, e) \<leftarrow> vc_entries c. ve_cost e)"
    using good(1) by (simp add: cache_inv_def totalCost_def comp_def split_def)
  moreover have "vc_pending c \<le> int budget" using good(1) by (simp add: cache_inv_def)
  ultimately show ?thesis
    using r good shared_same_bytes [OF good(1), of parts] used_nonneg [OF good(1)] inflightCost_nonneg [OF good(1)]
    by (auto simp: length_bytesKey callCost_def split: prod.splits verdict_start.splits)
qed

end
