(* ===== verification/PeerAdverts.thy ===== *)
theory PeerAdverts
  imports TokenPredicates JsText
begin

text \<open>
  Gossiped adverts: \<open>peer-advert.ts\<close> (signing and verification), \<open>gossip-extensions.ts\<close> and
  \<open>advert-extension-policy.ts\<close> (what the open extension tail may hold) and \<open>relay-advert.ts\<close>
  (relay offers carried in the tail), all under \<open>ts/packages/core/src/domain/\<close>. The canonical CBOR
  encoder and the cryptography are parameters; a rejecting primitive is \<open>None\<close>. The verdict memo in
  front of \<open>checkPeerAdvert\<close> is the subject of theory \<open>VerdictCache\<close>, which shows it transparent, so
  verification here is the check itself.
\<close>

subsection \<open>Adverts and their signatures\<close>

record unsigned_peer_advert =
  device :: device_id
  addresses :: "string list"
  snapshotSeconds :: int
  advIdentityKey :: identity_key
  extensions :: "(string \<times> json_value) list"

record peer_advert = unsigned_peer_advert +
  advSignature :: bytes

text \<open>The verifying half of the identity port, and the encoder; \<open>None\<close> where the code throws.\<close>

record advert_verifier =
  av_verify :: "identity_key \<Rightarrow> bytes \<Rightarrow> bytes \<Rightarrow> bool option"
  av_deriveDeviceId :: "bytes \<Rightarrow> device_id option"
  av_encode :: "unsigned_peer_advert \<Rightarrow> bytes option"

definition PEER_ADVERT_SIGNING_CONTEXT :: bytes where
  "PEER_ADVERT_SIGNING_CONTEXT = textEncode ''wire-mesh/peer-advert/v1'' @ [0]"

definition peerAdvertSigningInput ::
    "(unsigned_peer_advert \<Rightarrow> bytes option) \<Rightarrow> unsigned_peer_advert \<Rightarrow> bytes option" where
  "peerAdvertSigningInput enc content =
     map_option (\<lambda>encoded. PEER_ADVERT_SIGNING_CONTEXT @ encoded) (enc content)"

definition withSignature :: "unsigned_peer_advert \<Rightarrow> bytes \<Rightarrow> peer_advert" where
  "withSignature content sig =
     \<lparr>device = device content, addresses = addresses content, snapshotSeconds = snapshotSeconds content,
      advIdentityKey = advIdentityKey content, extensions = extensions content, advSignature = sig\<rparr>"

definition withoutSignature :: "peer_advert \<Rightarrow> unsigned_peer_advert" where
  "withoutSignature advert = unsigned_peer_advert.truncate advert"

definition signPeerAdvert ::
    "(bytes \<Rightarrow> bytes) \<Rightarrow> (unsigned_peer_advert \<Rightarrow> bytes option) \<Rightarrow> unsigned_peer_advert \<Rightarrow> peer_advert option" where
  "signPeerAdvert signer enc content =
     map_option (\<lambda>input. withSignature content (signer input)) (peerAdvertSigningInput enc content)"

definition checkPeerAdvert :: "advert_verifier \<Rightarrow> peer_advert \<Rightarrow> bytes \<Rightarrow> bool option" where
  "checkPeerAdvert identity advert signedBytes =
     (case av_deriveDeviceId identity (public_key (advIdentityKey advert)) of
        None \<Rightarrow> None
      | Some derived \<Rightarrow>
          if \<not> bytesEqual derived (device advert) then Some False
          else av_verify identity (advIdentityKey advert) signedBytes (advSignature advert))"

definition verifyPeerAdvert :: "advert_verifier \<Rightarrow> peer_advert \<Rightarrow> bool" where
  "verifyPeerAdvert identity advert =
     (case peerAdvertSigningInput (av_encode identity) (withoutSignature advert) of
        None \<Rightarrow> False
      | Some signedBytes \<Rightarrow>
          (case checkPeerAdvert identity advert signedBytes of None \<Rightarrow> False | Some verdict \<Rightarrow> verdict))"

subsection \<open>The extension tail\<close>

definition RESERVED_PEER_ADVERT_KEYS :: "string list" where
  "RESERVED_PEER_ADVERT_KEYS = [''device'', ''addresses'', ''snapshot-seconds'', ''identity-key'', ''signature'']"

definition TOPOLOGY_PEERS_GOSSIP_KEY :: string where "TOPOLOGY_PEERS_GOSSIP_KEY = ''topology/peers''"
definition CORE_VERSION_GOSSIP_KEY :: string where "CORE_VERSION_GOSSIP_KEY = ''wire-mesh/version''"
definition RELAY_OFFER_GOSSIP_KEY :: string where "RELAY_OFFER_GOSSIP_KEY = ''wire-mesh/relay-offer''"

definition CORE_EXTENSION_KEYS :: "string list" where
  "CORE_EXTENSION_KEYS = [TOPOLOGY_PEERS_GOSSIP_KEY, CORE_VERSION_GOSSIP_KEY]"

text \<open>\<open>/^[a-z][a-z0-9-]*\/[a-z][a-z0-9-]*$/\<close>.\<close>

definition isLower :: "char \<Rightarrow> bool" where
  "isLower c \<longleftrightarrow> c \<in> set ''abcdefghijklmnopqrstuvwxyz''"

definition isKebab :: "char \<Rightarrow> bool" where
  "isKebab c \<longleftrightarrow> isLower c \<or> isDigit c \<or> c = CHR ''-''"

fun kebabWord :: "string \<Rightarrow> bool" where
  "kebabWord [] = False"
| "kebabWord (c # cs) = (isLower c \<and> list_all isKebab cs)"

definition domainQualified :: "string \<Rightarrow> bool" where
  "domainQualified key =
     (case dropWhile (\<lambda>c. c \<noteq> CHR ''/'') key of
        [] \<Rightarrow> False
      | _ # field \<Rightarrow> kebabWord (takeWhile (\<lambda>c. c \<noteq> CHR ''/'') key) \<and> kebabWord field)"

datatype extension_error =
    CollidesWithAdvertField string
  | CollidesWithSessionField string
  | ReservedForVersion string
  | NotDomainQualified string

fun validateGossipExtensions :: "(string \<times> json_value) list \<Rightarrow> extension_error + unit" where
  "validateGossipExtensions [] = Ok ()"
| "validateGossipExtensions ((key, v) # rest) =
     (if key \<in> set RESERVED_PEER_ADVERT_KEYS then Err (CollidesWithAdvertField key)
      else if key = TOPOLOGY_PEERS_GOSSIP_KEY then Err (CollidesWithSessionField key)
      else if key = CORE_VERSION_GOSSIP_KEY then Err (ReservedForVersion key)
      else if \<not> domainQualified key then Err (NotDomainQualified key)
      else validateGossipExtensions rest)"

type_synonym extension_policy = "(string \<times> (json_value \<Rightarrow> bool)) list"

text \<open>The entries of the five typed fields are skipped like every reserved key.\<close>

fun checkExtensionEntries :: "extension_policy \<Rightarrow> (string \<times> json_value) list \<Rightarrow> string + unit" where
  "checkExtensionEntries policy [] = Ok ()"
| "checkExtensionEntries policy ((key, v) # rest) =
     (if key \<in> set RESERVED_PEER_ADVERT_KEYS \<or> key \<in> set CORE_EXTENSION_KEYS
      then checkExtensionEntries policy rest
      else case map_of policy key of
             None \<Rightarrow> Err key
           | Some validator \<Rightarrow> if validator v then checkExtensionEntries policy rest else Err key)"

definition checkAdvertExtensions :: "peer_advert \<Rightarrow> extension_policy \<Rightarrow> string + unit" where
  "checkAdvertExtensions advert policy = checkExtensionEntries policy (extensions advert)"

subsection \<open>Relay offers\<close>

datatype relay_offer_error = EmptyRelayOffer

definition buildRelayOfferExtension :: "string list \<Rightarrow> relay_offer_error + (string \<times> json_value) list" where
  "buildRelayOfferExtension addrs =
     (if addrs = [] then Err EmptyRelayOffer else Ok [(RELAY_OFFER_GOSSIP_KEY, JArray (map JString addrs))])"

fun stringEntries :: "json_value list \<Rightarrow> string list option" where
  "stringEntries [] = Some []"
| "stringEntries (JString s # rest) = map_option (Cons s) (stringEntries rest)"
| "stringEntries (_ # rest) = None"

definition readRelayOffer :: "peer_advert \<Rightarrow> string list option" where
  "readRelayOffer advert =
     (case map_of (extensions advert) RELAY_OFFER_GOSSIP_KEY of
        Some (JArray entries) \<Rightarrow>
          (case stringEntries entries of
             None \<Rightarrow> None
           | Some addrs \<Rightarrow> if addrs = [] then None else Some addrs)
      | _ \<Rightarrow> None)"

subsection \<open>Lemmas\<close>

lemma withoutSignature_withSignature [simp]: "withoutSignature (withSignature content sig) = content"
  by (simp add: withoutSignature_def withSignature_def unsigned_peer_advert.defs)

lemma withSignature_fields [simp]:
  "device (withSignature c s) = device c" "advIdentityKey (withSignature c s) = advIdentityKey c"
  "extensions (withSignature c s) = extensions c" "advSignature (withSignature c s) = s"
  by (simp_all add: withSignature_def)

lemma verifyPeerAdvert_iff:
  "verifyPeerAdvert identity advert \<longleftrightarrow>
     av_deriveDeviceId identity (public_key (advIdentityKey advert)) = Some (device advert) \<and>
     (\<exists>encoded. av_encode identity (withoutSignature advert) = Some encoded \<and>
        av_verify identity (advIdentityKey advert) (PEER_ADVERT_SIGNING_CONTEXT @ encoded) (advSignature advert) = Some True)"
  by (auto simp: verifyPeerAdvert_def checkPeerAdvert_def peerAdvertSigningInput_def split: option.splits)

lemma stringEntries_map [simp]: "stringEntries (map JString addrs) = Some addrs"
  by (induction addrs) simp_all

lemma map_JString_inject [simp]: "map JString xs = map JString ys \<longleftrightarrow> xs = ys"
  by (simp add: inj_map_eq_map inj_def)

lemma stringEntries_iff: "stringEntries vs = Some addrs \<longleftrightarrow> vs = map JString addrs"
  by (induction vs arbitrary: addrs rule: stringEntries.induct) auto

lemma checkExtensionEntries_iff:
  "checkExtensionEntries policy es = Ok () \<longleftrightarrow>
     list_all (\<lambda>(key, v). key \<in> set RESERVED_PEER_ADVERT_KEYS \<or> key \<in> set CORE_EXTENSION_KEYS
        \<or> (\<exists>validator. map_of policy key = Some validator \<and> validator v)) es"
  by (induction policy es rule: checkExtensionEntries.induct) (simp_all split: option.split)

lemma validateGossipExtensions_iff:
  "validateGossipExtensions es = Ok () \<longleftrightarrow>
     list_all (\<lambda>(key, v). key \<notin> set RESERVED_PEER_ADVERT_KEYS \<and> key \<notin> set CORE_EXTENSION_KEYS \<and> domainQualified key) es"
  by (induction es rule: validateGossipExtensions.induct) (simp_all add: CORE_EXTENSION_KEYS_def)

subsection \<open>Properties\<close>

text \<open>Adverts are self-certifying. Verification accepts an advert exactly when the embedded key
  hashes to the device the advert names and the signature checks under that key over the domain
  separation prefix followed by the encoding of every other entry; and an advert signed by the
  holder of such a key verifies for everyone.\<close>

theorem advert_verification:
  assumes "\<And>m. av_verify identity (advIdentityKey content) m (signer m) = Some True"
    and "signPeerAdvert signer (av_encode identity) content = Some signedAdvert"
  shows "(verifyPeerAdvert identity signedAdvert \<longleftrightarrow>
      av_deriveDeviceId identity (public_key (advIdentityKey content)) = Some (device content))
   \<and> (verifyPeerAdvert identity advert \<longleftrightarrow>
      av_deriveDeviceId identity (public_key (advIdentityKey advert)) = Some (device advert) \<and>
      (\<exists>encoded. av_encode identity (withoutSignature advert) = Some encoded \<and>
         av_verify identity (advIdentityKey advert) (PEER_ADVERT_SIGNING_CONTEXT @ encoded) (advSignature advert) = Some True))"
  using assms by (auto simp: verifyPeerAdvert_iff signPeerAdvert_def peerAdvertSigningInput_def)

definition toy_verifier :: advert_verifier where
  "toy_verifier = \<lparr>av_verify = (\<lambda>k m s. Some (s = public_key k @ m)), av_deriveDeviceId = (\<lambda>k. Some (0 # k)),
     av_encode = (\<lambda>c. Some (device c @ [of_int (snapshotSeconds c)]))\<rparr>"

definition toy_content :: "device_id \<Rightarrow> int \<Rightarrow> unsigned_peer_advert" where
  "toy_content d t = \<lparr>device = 0 # d, addresses = [], snapshotSeconds = t,
     advIdentityKey = \<lparr>alg = -8, public_key = d\<rparr>, extensions = []\<rparr>"

theorem advert_verification_witness:
  "verifyPeerAdvert toy_verifier
     (the (signPeerAdvert (\<lambda>m. [7] @ m) (av_encode toy_verifier) (toy_content [7] 5)))"
proof -
  obtain signedAdvert where s: "signPeerAdvert (\<lambda>m. [7] @ m) (av_encode toy_verifier) (toy_content [7] 5) = Some signedAdvert"
    by (auto simp: signPeerAdvert_def peerAdvertSigningInput_def toy_verifier_def)
  have "verifyPeerAdvert toy_verifier signedAdvert \<longleftrightarrow>
      av_deriveDeviceId toy_verifier (public_key (advIdentityKey (toy_content [7] 5))) = Some (device (toy_content [7] 5))"
    by (rule advert_verification [OF _ s, THEN conjunct1]) (simp add: toy_verifier_def toy_content_def)
  with s show ?thesis by (simp add: toy_verifier_def toy_content_def)
qed

text \<open>A relay offer is read back as it was built, and only then: reading an advert yields
  exactly the non-empty address lists that \<open>buildRelayOfferExtension\<close> puts under the offer key, every
  other value reads as no offer, and the built extension bag passes \<open>validateGossipExtensions\<close>.\<close>

theorem relay_offer_roundtrip:
  "(readRelayOffer advert = Some addrs \<longleftrightarrow>
      (\<exists>bag. buildRelayOfferExtension addrs = Ok bag \<and>
         map_of (extensions advert) RELAY_OFFER_GOSSIP_KEY = map_of bag RELAY_OFFER_GOSSIP_KEY))
   \<and> (case buildRelayOfferExtension addrs of Inl _ \<Rightarrow> addrs = [] | Inr bag \<Rightarrow> validateGossipExtensions bag = Ok ())"
proof -
  have "domainQualified RELAY_OFFER_GOSSIP_KEY"
    by (simp add: domainQualified_def RELAY_OFFER_GOSSIP_KEY_def isLower_def isKebab_def isDigit_def)
  then show ?thesis
    by (auto simp: readRelayOffer_def buildRelayOfferExtension_def stringEntries_iff RELAY_OFFER_GOSSIP_KEY_def
        RESERVED_PEER_ADVERT_KEYS_def TOPOLOGY_PEERS_GOSSIP_KEY_def CORE_VERSION_GOSSIP_KEY_def
        split: option.splits json_value.splits if_splits)
qed

end
