(* ===== verification/DataSync.thy ===== *)
theory DataSync
  imports DeviceIds JsText
begin

text \<open>
  \<open>ts/packages/core/src/domain/data-sync.ts\<close>: the have/request/entries primitive over a key/value
  store (\<open>ports/storage.ts\<close>, here the \<open>Map\<close> of \<open>adapters/memory-storage.ts\<close>). The specification is
  a log per peer, the list of its entries: \<open>logOf\<close> abstracts a store to it, and every operation is
  shown to implement its effect on the logs. Replication by rounds of have, request and entries is
  shown to reach the author's log.
\<close>

type_synonym kv_store = "(string, bytes) jmap"

definition headKey :: "device_id \<Rightarrow> string" where
  "headKey peer = ''data/'' @ deviceIdToHex peer @ ''/head''"

definition entryKey :: "device_id \<Rightarrow> nat \<Rightarrow> string" where
  "entryKey peer seq = ''data/'' @ deviceIdToHex peer @ ''/entry/'' @ natToString seq"

definition readHeadSeq :: "kv_store \<Rightarrow> device_id \<Rightarrow> nat" where
  "readHeadSeq st peer =
     (case jget st (headKey peer) of None \<Rightarrow> 0 | Some raw \<Rightarrow> stringToNat (textDecode raw))"

definition writeHeadSeq :: "kv_store \<Rightarrow> device_id \<Rightarrow> nat \<Rightarrow> kv_store" where
  "writeHeadSeq st peer seq = jset st (headKey peer) (textEncode (natToString seq))"

definition headSeqFor :: "kv_store \<Rightarrow> device_id \<Rightarrow> nat" where
  "headSeqFor st peer = readHeadSeq st peer"

record data_have_frame =
  have_peer :: device_id
  have_head :: nat

record data_request_frame =
  req_peer :: device_id
  req_from :: nat

record data_entries_frame =
  ent_peer :: device_id
  ent_from :: nat
  ent_entries :: "bytes list"

definition appendOwnEntry :: "device_id \<Rightarrow> bytes \<Rightarrow> kv_store \<Rightarrow> (nat \<times> data_have_frame) \<times> kv_store" where
  "appendOwnEntry own entry st =
     (let seq = readHeadSeq st own + 1;
          st' = writeHeadSeq (jset st (entryKey own seq) entry) own seq
      in ((seq, \<lparr>have_peer = own, have_head = seq\<rparr>), st'))"

definition handleDataHave :: "kv_store \<Rightarrow> data_have_frame \<Rightarrow> data_request_frame option" where
  "handleDataHave st frame =
     (let ourHead = readHeadSeq st (have_peer frame)
      in if ourHead \<ge> have_head frame then None
         else Some \<lparr>req_peer = have_peer frame, req_from = ourHead\<rparr>)"

text \<open>\<open>readRun\<close>: entries \<open>first..last\<close>, cut at the first hole.\<close>

function readRun :: "kv_store \<Rightarrow> device_id \<Rightarrow> nat \<Rightarrow> nat \<Rightarrow> bytes list" where
  "readRun st peer seq lastSeq =
     (if seq > lastSeq then []
      else case jget st (entryKey peer seq) of
             None \<Rightarrow> []
           | Some entry \<Rightarrow> entry # readRun st peer (seq + 1) lastSeq)"
  by pat_completeness auto
termination
  by (relation "measure (\<lambda>(st, peer, seq, lastSeq). Suc lastSeq - seq)") auto

declare readRun.simps [simp del]

definition handleDataRequest :: "kv_store \<Rightarrow> data_request_frame \<Rightarrow> nat \<Rightarrow> data_entries_frame option" where
  "handleDataRequest st frame limit =
     (let ourHead = readHeadSeq st (req_peer frame)
      in if ourHead \<le> req_from frame then None
         else let entries = readRun st (req_peer frame) (req_from frame + 1) (min ourHead (req_from frame + limit))
              in if entries = [] then None
                 else Some \<lparr>ent_peer = req_peer frame, ent_from = req_from frame, ent_entries = entries\<rparr>)"

datatype entries_error = Gap

primrec storeEntries :: "device_id \<Rightarrow> nat \<Rightarrow> bytes list \<Rightarrow> kv_store \<Rightarrow> kv_store" where
  "storeEntries peer seq [] st = st"
| "storeEntries peer seq (e # es) st = storeEntries peer (Suc seq) es (jset st (entryKey peer seq) e)"

definition handleDataEntries :: "kv_store \<Rightarrow> data_entries_frame \<Rightarrow> entries_error + kv_store" where
  "handleDataEntries st frame =
     (if ent_from frame \<noteq> readHeadSeq st (ent_peer frame) then Err Gap
      else Ok (writeHeadSeq (storeEntries (ent_peer frame) (ent_from frame + 1) (ent_entries frame) st)
                 (ent_peer frame) (ent_from frame + length (ent_entries frame))))"

definition readEntries :: "kv_store \<Rightarrow> device_id \<Rightarrow> nat \<Rightarrow> bytes list" where
  "readEntries st peer fromSeqExclusive =
     readRun st peer (fromSeqExclusive + 1) (readHeadSeq st peer)"

subsection \<open>Keys\<close>

lemma device_prefix_unique:
  "deviceIdToHex p @ CHR ''/'' # us = deviceIdToHex q @ CHR ''/'' # vs \<longleftrightarrow> p = q \<and> us = vs"
  using prefix_to_slash_unique [of "CHR ''/''" "deviceIdToHex p" "deviceIdToHex q"]
  by (simp add: deviceIdToHex_def hex_no_slash)

lemma headKey_inject [simp]: "headKey p = headKey q \<longleftrightarrow> p = q"
  by (simp add: headKey_def device_prefix_unique)

lemma entryKey_inject [simp]: "entryKey p i = entryKey q j \<longleftrightarrow> p = q \<and> i = j"
  by (auto simp: entryKey_def device_prefix_unique)

lemma headKey_entryKey [simp]: "headKey p \<noteq> entryKey q i" "entryKey q i \<noteq> headKey p"
  by (auto simp: headKey_def entryKey_def device_prefix_unique)

subsection \<open>The log a store holds\<close>

definition logOf :: "kv_store \<Rightarrow> device_id \<Rightarrow> bytes list" where
  "logOf st peer = map (\<lambda>i. the (jget st (entryKey peer (Suc i)))) [0..<readHeadSeq st peer]"

definition log_ok :: "kv_store \<Rightarrow> device_id \<Rightarrow> bool" where
  "log_ok st peer \<longleftrightarrow> (\<forall>i < readHeadSeq st peer. jget st (entryKey peer (Suc i)) \<noteq> None)"

lemma length_logOf [simp]: "length (logOf st peer) = readHeadSeq st peer"
  by (simp add: logOf_def)

lemma logOf_nth: "log_ok st peer \<Longrightarrow> i < readHeadSeq st peer \<Longrightarrow> jget st (entryKey peer (Suc i)) = Some (logOf st peer ! i)"
  by (auto simp: log_ok_def logOf_def)

lemma readHeadSeq_write [simp]: "readHeadSeq (writeHeadSeq st p n) q = (if q = p then n else readHeadSeq st q)"
  by (simp add: readHeadSeq_def writeHeadSeq_def)

lemma readHeadSeq_entry [simp]: "readHeadSeq (jset st (entryKey p i) e) q = readHeadSeq st q"
  by (simp add: readHeadSeq_def)

lemma get_write_entry [simp]: "jget (writeHeadSeq st p n) (entryKey q i) = jget st (entryKey q i)"
  by (simp add: writeHeadSeq_def)

lemma storeEntries_head [simp]: "readHeadSeq (storeEntries p seq es st) q = readHeadSeq st q"
  by (induction es arbitrary: seq st) simp_all

lemma storeEntries_get:
  "jget (storeEntries p seq es st) (entryKey q i) =
     (if q = p \<and> seq \<le> i \<and> i < seq + length es then Some (es ! (i - seq)) else jget st (entryKey q i))"
proof (induction es arbitrary: seq st)
  case (Cons e es)
  show ?case
  proof (cases "i = seq")
    case False
    then have "seq \<le> i \<Longrightarrow> i - seq = Suc (i - Suc seq)" by simp
    then have "seq \<le> i \<Longrightarrow> (e # es) ! (i - seq) = es ! (i - Suc seq)" by simp
    then show ?thesis using Cons [of "Suc seq" "jset st (entryKey p seq) e"] False by auto
  qed (use Cons in auto)
qed auto

text \<open>Storing entries at the head appends them to that peer's log and touches no other.\<close>

lemma append_entries:
  fixes es :: "bytes list"
  assumes "log_ok st p" and "n = readHeadSeq st p"
  defines "st' \<equiv> writeHeadSeq (storeEntries p (n + 1) es st) p (n + length es)"
  shows "logOf st' q = (if q = p then logOf st p @ es else logOf st q)"
    and "log_ok st' q \<longleftrightarrow> q = p \<or> log_ok st q"
proof -
  have get: "jget st' (entryKey p (Suc i)) = (if i < n then jget st (entryKey p (Suc i)) else Some (es ! (i - n)))"
    if "i < n + length es" for i
    using that by (auto simp: st'_def storeEntries_get)
  have "logOf st' p = logOf st p @ es"
  proof (rule nth_equalityI)
    fix i assume "i < length (logOf st' p)"
    then have "i < n + length es" by (simp add: st'_def)
    then show "logOf st' p ! i = (logOf st p @ es) ! i"
      using get [of i] assms(2) by (auto simp: logOf_def nth_append st'_def)
  qed (simp add: st'_def assms(2))
  moreover have "q \<noteq> p \<Longrightarrow> logOf st' q = logOf st q" by (simp add: logOf_def st'_def storeEntries_get)
  ultimately show "logOf st' q = (if q = p then logOf st p @ es else logOf st q)" by simp
  have "log_ok st' p" using get assms(1,2) by (auto simp: log_ok_def st'_def)
  moreover have "q \<noteq> p \<Longrightarrow> log_ok st' q \<longleftrightarrow> log_ok st q" by (simp add: log_ok_def st'_def storeEntries_get)
  ultimately show "log_ok st' q \<longleftrightarrow> q = p \<or> log_ok st q" by auto
qed

lemma handleDataEntries_ok:
  assumes "log_ok st (ent_peer f)" and "handleDataEntries st f = Ok st'"
  shows "ent_from f = length (logOf st (ent_peer f))"
    and "logOf st' q = (if q = ent_peer f then logOf st q @ ent_entries f else logOf st q)"
    and "log_ok st' q \<longleftrightarrow> q = ent_peer f \<or> log_ok st q"
  using assms append_entries [OF assms(1) refl, of "ent_entries f" q]
  by (auto simp: handleDataEntries_def split: if_splits)

lemma appendOwnEntry_log:
  assumes "log_ok st own" and "appendOwnEntry own entry st = ((seq, have), st')"
  shows "logOf st' q = (if q = own then logOf st own @ [entry] else logOf st q)"
    and "log_ok st' q \<longleftrightarrow> q = own \<or> log_ok st q"
    and "seq = length (logOf st own) + 1 \<and> have = \<lparr>have_peer = own, have_head = seq\<rparr>"
  using assms append_entries [OF assms(1) refl, of "[entry]" q]
  by (auto simp: appendOwnEntry_def Let_def)

lemma readRun_log:
  "log_ok st p \<Longrightarrow> lastSeq \<le> readHeadSeq st p \<Longrightarrow> readRun st p (Suc i) lastSeq = drop i (take lastSeq (logOf st p))"
proof (induction "lastSeq - i" arbitrary: i)
  case 0
  then show ?case by (subst readRun.simps) simp
next
  case (Suc d)
  then have "i < lastSeq" by simp
  then have "drop i (take lastSeq (logOf st p)) = logOf st p ! i # drop (Suc i) (take lastSeq (logOf st p))"
    using Suc.prems by (subst Cons_nth_drop_Suc [symmetric]) auto
  then show ?case using Suc \<open>i < lastSeq\<close>
    by (subst readRun.simps) (simp add: logOf_nth)
qed

lemma handleDataRequest_log:
  assumes "log_ok st (req_peer f)"
  shows "handleDataRequest st f limit =
    (let es = take limit (drop (req_from f) (logOf st (req_peer f)))
     in if es = [] then None else Some \<lparr>ent_peer = req_peer f, ent_from = req_from f, ent_entries = es\<rparr>)"
proof -
  let ?n = "readHeadSeq st (req_peer f)"
  have "drop i (take (min n (i + k)) xs) = take k (drop i xs)" if "n = length xs" for i k n and xs :: "bytes list"
    using that by (simp add: drop_take min_def)
  from this [of ?n "logOf st (req_peer f)" "req_from f" limit]
  have "readRun st (req_peer f) (req_from f + 1) (min ?n (req_from f + limit)) =
      take limit (drop (req_from f) (logOf st (req_peer f)))"
    using readRun_log [OF assms, of "min ?n (req_from f + limit)" "req_from f"] by simp
  then show ?thesis unfolding handleDataRequest_def Let_def
    by (cases "?n \<le> req_from f") (simp_all only: if_True if_False, simp_all)
qed

lemma readEntries_log: "log_ok st p \<Longrightarrow> readEntries st p i = drop i (logOf st p)"
  using readRun_log [of st p "readHeadSeq st p" i] by (simp add: readEntries_def)

subsection \<open>Replication\<close>

text \<open>
  One round between a holder and a replica: the holder announces its head, the replica asks from
  its own head, the holder answers with at most \<open>limit\<close> entries and the replica stores them.
\<close>

definition syncRound :: "kv_store \<Rightarrow> device_id \<Rightarrow> nat \<Rightarrow> kv_store \<Rightarrow> kv_store" where
  "syncRound holder peer limit replica =
     (case handleDataHave replica \<lparr>have_peer = peer, have_head = headSeqFor holder peer\<rparr> of
        None \<Rightarrow> replica
      | Some request \<Rightarrow>
          (case handleDataRequest holder request limit of
             None \<Rightarrow> replica
           | Some answer \<Rightarrow>
               (case handleDataEntries replica answer of Inl _ \<Rightarrow> replica | Inr replica' \<Rightarrow> replica')))"

lemma syncRound_log:
  assumes "log_ok holder peer" "log_ok replica peer"
    and "logOf replica peer = take (readHeadSeq replica peer) (logOf holder peer)"
  shows "logOf (syncRound holder peer limit replica) peer = take (readHeadSeq replica peer + limit) (logOf holder peer)"
    and "log_ok (syncRound holder peer limit replica) peer"
proof -
  let ?n = "readHeadSeq replica peer" and ?es = "take limit (drop (readHeadSeq replica peer) (logOf holder peer))"
  have split: "take (?n + limit) (logOf holder peer) = take ?n (logOf holder peer) @ ?es" by (rule take_add)
  have req: "handleDataRequest holder \<lparr>req_peer = peer, req_from = ?n\<rparr> limit =
      (if ?es = [] then None else Some \<lparr>ent_peer = peer, ent_from = ?n, ent_entries = ?es\<rparr>)"
    using handleDataRequest_log [of holder "\<lparr>req_peer = peer, req_from = ?n\<rparr>" limit] assms(1) by (simp add: Let_def)
  let ?r = "syncRound holder peer limit replica"
  let ?f = "\<lparr>ent_peer = peer, ent_from = ?n, ent_entries = ?es\<rparr>"
  have have_eq: "handleDataHave replica \<lparr>have_peer = peer, have_head = headSeqFor holder peer\<rparr> =
      (if readHeadSeq holder peer \<le> ?n then None else Some \<lparr>req_peer = peer, req_from = ?n\<rparr>)"
    by (simp add: handleDataHave_def headSeqFor_def Let_def)
  have stored: "\<exists>r. handleDataEntries replica ?f = Ok r" by (simp add: handleDataEntries_def)
  have "?r = replica \<and> ?es = [] \<or> handleDataEntries replica ?f = Ok ?r"
  proof (cases "readHeadSeq holder peer \<le> ?n \<or> ?es = []")
    case True
    then have "?es = []" by auto
    then show ?thesis using req have_eq by (simp add: syncRound_def split: if_splits)
  next
    case False
    with stored req have_eq show ?thesis by (auto simp: syncRound_def)
  qed
  then consider (same) "?r = replica" "?es = []" | (grown) "handleDataEntries replica ?f = Ok ?r" by blast
  then have "logOf ?r peer = take (?n + limit) (logOf holder peer) \<and> log_ok ?r peer"
  proof cases
    case same
    then show ?thesis using assms split by simp
  next
    case grown
    from handleDataEntries_ok [OF _ this] assms split show ?thesis by simp
  qed
  then show "logOf ?r peer = take (?n + limit) (logOf holder peer)" "log_ok ?r peer" by simp_all
qed

text \<open>C38: Replication reaches the author's log without ever holding a gap. When a replica's log is a
  prefix of the holder's, every round leaves it a prefix grown by up to \<open>limit\<close> entries, so after
  \<open>n\<close> rounds it holds the first \<open>m + n * limit\<close> entries (\<open>m\<close> at the start), and reading it back
  returns exactly those entries.\<close>

theorem replication_converges:
  assumes "log_ok holder peer" "log_ok replica peer"
    and "logOf replica peer = take m (logOf holder peer)" and "m \<le> length (logOf holder peer)"
  shows "readEntries ((syncRound holder peer limit ^^ n) replica) peer 0 = take (m + n * limit) (logOf holder peer)
    \<and> log_ok ((syncRound holder peer limit ^^ n) replica) peer"
proof -
  have "logOf ((syncRound holder peer limit ^^ n) replica) peer = take (m + n * limit) (logOf holder peer)
      \<and> log_ok ((syncRound holder peer limit ^^ n) replica) peer"
  proof (induction n)
    case (Suc n)
    let ?r = "(syncRound holder peer limit ^^ n) replica"
    have head: "readHeadSeq ?r peer = min (m + n * limit) (readHeadSeq holder peer)"
      using Suc by (metis length_logOf length_take min.commute)
    then have "logOf ?r peer = take (readHeadSeq ?r peer) (logOf holder peer)" using Suc by (simp add: min_def)
    from syncRound_log [OF assms(1) _ this, of limit] Suc head show ?case
      by (auto simp: min_def algebra_simps)
  qed (use assms in simp)
  then show ?thesis using readEntries_log [of _ peer 0] by simp
qed

theorem replication_converges_witness:
  "\<exists>holder. logOf holder [1] = [[10], [20], [30]]
     \<and> readEntries ((syncRound holder [1] 2 ^^ 2) []) [1] 0 = [[10], [20], [30]]"
proof -
  define h0 :: kv_store where "h0 = []"
  have ok: "log_ok h0 [1]" and l0: "logOf h0 [1] = []" by (simp_all add: h0_def log_ok_def logOf_def readHeadSeq_def)
  define h where "h = writeHeadSeq (storeEntries [1] (0 + 1) [[10], [20], [30]] h0) [1] (0 + length [[10], [20], [30 :: byte]])"
  have h: "logOf h [1] = [[10], [20], [30]]" "log_ok h [1]"
    using append_entries [OF ok, of 0 "[[10], [20], [30]]" "[1]"] l0 unfolding h_def by (simp_all add: h0_def readHeadSeq_def)
  have "readEntries ((syncRound h [1] 2 ^^ 2) h0) [1] 0 = take (0 + 2 * 2) (logOf h [1])"
    by (rule replication_converges [THEN conjunct1]) (use h ok l0 in simp_all)
  then show ?thesis using h(1) by (auto simp: h0_def)
qed

end
