(* ===== verification/HubMailbox.thy ===== *)
theory HubMailbox
  imports DataSync "HOL-Library.Sublist"
begin

text \<open>
  \<open>ts/packages/core/src/domain/hub-mailbox.ts\<close>: the announcer role of a relay hub, a replicator of
  the logs of theory \<open>DataSync\<close> that decides who may write and how much. \<open>handleMailbox\<close> is the
  mailbox's \<open>handle\<close> with its three branches, each run to its end; \<open>entriesStage\<close> is the one handler
  that writes, cut at its awaits, so that handlers of different connections can interleave. The
  lemmas show that on a host that lets one handler finish before the next starts, the counters kept
  in the store are exact, the three bounds hold and only a log's owner changes it; and that on a
  host that does not, two handlers can together exceed the limit and lose a count.
\<close>

record mailbox_limits =
  maxLogs :: nat
  maxLogBytes :: nat
  maxEntryBytes :: nat
  readBatch :: nat

datatype mailbox_refusal = NotTheOwner | UnregisteredSender | LogLimit | SizeLimit | EntryLimit | GapRefusal

datatype data_frame =
    DataHave data_have_frame
  | DataRequest data_request_frame
  | DataEntries data_entries_frame

definition LOG_COUNT_KEY :: string where "LOG_COUNT_KEY = ''mailbox/log-count''"

definition logBytesKey :: "device_id \<Rightarrow> string" where
  "logBytesKey peer = ''mailbox/'' @ deviceIdToHex peer @ ''/bytes''"

definition encodeCount :: "nat \<Rightarrow> bytes" where
  "encodeCount n = textEncode (natToString n)"

definition readCount :: "kv_store \<Rightarrow> string \<Rightarrow> nat" where
  "readCount st key = (case jget st key of None \<Rightarrow> 0 | Some raw \<Rightarrow> stringToNat (textDecode raw))"

definition sameDevice :: "device_id \<Rightarrow> device_id \<Rightarrow> bool" where
  "sameDevice a b \<longleftrightarrow> deviceIdToHex a = deviceIdToHex b"

type_synonym mailbox_result = "data_frame option \<times> mailbox_refusal option \<times> kv_store"

definition handleHave :: "mailbox_limits \<Rightarrow> device_id \<Rightarrow> data_have_frame \<Rightarrow> kv_store \<Rightarrow> mailbox_result" where
  "handleHave limits sender frame st =
     (if \<not> sameDevice sender (have_peer frame) then (None, Some NotTheOwner, st)
      else if headSeqFor st (have_peer frame) = 0 \<and> readCount st LOG_COUNT_KEY \<ge> maxLogs limits
      then (None, Some LogLimit, st)
      else (map_option DataRequest (handleDataHave st frame), None, st))"

definition handleEntries :: "mailbox_limits \<Rightarrow> device_id \<Rightarrow> data_entries_frame \<Rightarrow> kv_store \<Rightarrow> mailbox_result" where
  "handleEntries limits sender frame st =
     (if \<not> sameDevice sender (ent_peer frame) then (None, Some NotTheOwner, st)
      else if list_ex (\<lambda>entry. length entry > maxEntryBytes limits) (ent_entries frame)
      then (None, Some SizeLimit, st)
      else let held = readCount st (logBytesKey (ent_peer frame));
               added = foldl (\<lambda>s entry. s + length entry) 0 (ent_entries frame)
           in if held + added > maxLogBytes limits then (None, Some EntryLimit, st)
              else let isNewLog = (headSeqFor st (ent_peer frame) = 0)
                   in if isNewLog \<and> readCount st LOG_COUNT_KEY \<ge> maxLogs limits then (None, Some LogLimit, st)
                      else case handleDataEntries st frame of
                             Inl _ \<Rightarrow> (None, Some GapRefusal, st)
                           | Inr stored \<Rightarrow>
                               let st1 = jset stored (logBytesKey (ent_peer frame)) (encodeCount (held + added));
                                   st2 = (if isNewLog \<and> ent_entries frame \<noteq> []
                                          then jset st1 LOG_COUNT_KEY (encodeCount (readCount st1 LOG_COUNT_KEY + 1))
                                          else st1)
                               in (None, None, st2))"

text \<open>
  The same handler between its awaits, each of which is a storage operation: a stage names what the
  handler has read so far, and \<open>entriesStage\<close> runs it to its next await. \<open>handleDataEntries\<close> counts
  as one operation: its entries become part of the log when it writes the new head, last.
\<close>

datatype entries_stage =
    Arrived
  | Measured nat
  | Placed nat bool
  | Admitted nat bool
  | Kept nat bool
  | Charged
  | Counting nat

fun entriesStage ::
    "mailbox_limits \<Rightarrow> device_id \<Rightarrow> data_entries_frame \<Rightarrow> entries_stage \<Rightarrow> kv_store
       \<Rightarrow> entries_stage option \<times> mailbox_refusal option \<times> kv_store" where
  "entriesStage limits sender frame Arrived st =
     (if \<not> sameDevice sender (ent_peer frame) then (None, Some NotTheOwner, st)
      else if list_ex (\<lambda>entry. length entry > maxEntryBytes limits) (ent_entries frame)
      then (None, Some SizeLimit, st)
      else (Some (Measured (readCount st (logBytesKey (ent_peer frame)))), None, st))"
| "entriesStage limits sender frame (Measured held) st =
     (let added = foldl (\<lambda>s entry. s + length entry) 0 (ent_entries frame)
      in if held + added > maxLogBytes limits then (None, Some EntryLimit, st)
         else (Some (Placed (held + added) (headSeqFor st (ent_peer frame) = 0)), None, st))"
| "entriesStage limits sender frame (Placed grown isNewLog) st =
     (if isNewLog \<and> readCount st LOG_COUNT_KEY \<ge> maxLogs limits then (None, Some LogLimit, st)
      else (Some (Admitted grown isNewLog), None, st))"
| "entriesStage limits sender frame (Admitted grown isNewLog) st =
     (case handleDataEntries st frame of
        Inl _ \<Rightarrow> (None, Some GapRefusal, st)
      | Inr stored \<Rightarrow> (Some (Kept grown isNewLog), None, stored))"
| "entriesStage limits sender frame (Kept grown isNewLog) st =
     (if isNewLog \<and> ent_entries frame \<noteq> [] then Some Charged else None,
      None, jset st (logBytesKey (ent_peer frame)) (encodeCount grown))"
| "entriesStage limits sender frame Charged st = (Some (Counting (readCount st LOG_COUNT_KEY)), None, st)"
| "entriesStage limits sender frame (Counting n) st = (None, None, jset st LOG_COUNT_KEY (encodeCount (n + 1)))"

definition handleMailbox ::
    "mailbox_limits \<Rightarrow> device_id option \<Rightarrow> data_frame \<Rightarrow> kv_store \<Rightarrow> mailbox_result" where
  "handleMailbox limits sender frame st =
     (case sender of
        None \<Rightarrow> (None, Some UnregisteredSender, st)
      | Some device \<Rightarrow>
          (case frame of
             DataHave f \<Rightarrow> handleHave limits device f st
           | DataEntries f \<Rightarrow> handleEntries limits device f st
           | DataRequest f \<Rightarrow> (map_option DataEntries (handleDataRequest st f (readBatch limits)), None, st)))"

subsection \<open>Keys and counters\<close>

lemma logBytesKey_inject [simp]: "logBytesKey p = logBytesKey q \<longleftrightarrow> p = q"
  by (simp add: logBytesKey_def device_prefix_unique)

lemma LOG_COUNT_KEY_fresh [simp]:
  "LOG_COUNT_KEY \<noteq> logBytesKey p" "LOG_COUNT_KEY \<noteq> headKey p" "LOG_COUNT_KEY \<noteq> entryKey p i"
proof -
  have "''log-count'' \<noteq> deviceIdToHex p @ ''/bytes''"
  proof
    assume "''log-count'' = deviceIdToHex p @ ''/bytes''"
    then have "CHR ''/'' \<in> set ''log-count''" by (metis in_set_conv_decomp)
    then show False by simp
  qed
  then show "LOG_COUNT_KEY \<noteq> logBytesKey p" by (simp add: LOG_COUNT_KEY_def logBytesKey_def)
qed (simp_all add: LOG_COUNT_KEY_def headKey_def entryKey_def)

lemma logBytesKey_fresh [simp]: "logBytesKey p \<noteq> headKey q" "logBytesKey p \<noteq> entryKey q i"
  by (simp_all add: logBytesKey_def headKey_def entryKey_def)

lemma key_fresh_sym [simp]:
  "headKey q \<noteq> logBytesKey p" "entryKey q i \<noteq> logBytesKey p" "headKey q \<noteq> LOG_COUNT_KEY" "entryKey q i \<noteq> LOG_COUNT_KEY"
  "logBytesKey p \<noteq> LOG_COUNT_KEY"
  by (metis logBytesKey_fresh LOG_COUNT_KEY_fresh)+

lemma readCount_set [simp]:
  "readCount (jset st k (encodeCount n)) k' = (if k' = k then n else readCount st k')"
  by (simp add: readCount_def encodeCount_def)

lemma counter_log [simp]:
  "logOf (jset st LOG_COUNT_KEY v) p = logOf st p" "logOf (jset st (logBytesKey q) v) p = logOf st p"
  "log_ok (jset st LOG_COUNT_KEY v) p = log_ok st p" "log_ok (jset st (logBytesKey q) v) p = log_ok st p"
  by (simp_all add: logOf_def log_ok_def readHeadSeq_def)

lemma storeEntries_counter: "k \<notin> range (entryKey p) \<Longrightarrow> jget (storeEntries p n es st) k = jget st k"
  by (induction es arbitrary: n st) auto

lemma handleDataEntries_counter:
  assumes "handleDataEntries st f = Ok st'"
  shows "readCount st' LOG_COUNT_KEY = readCount st LOG_COUNT_KEY"
    and "readCount st' (logBytesKey p) = readCount st (logBytesKey p)"
proof -
  have "jget (storeEntries q n es st) LOG_COUNT_KEY = jget st LOG_COUNT_KEY"
       "jget (storeEntries q n es st) (logBytesKey p) = jget st (logBytesKey p)" for q n es
    by (rule storeEntries_counter; force)+
  then show "readCount st' LOG_COUNT_KEY = readCount st LOG_COUNT_KEY"
      "readCount st' (logBytesKey p) = readCount st (logBytesKey p)"
    using assms by (auto simp: handleDataEntries_def readCount_def writeHeadSeq_def split: if_splits)
qed

lemma foldl_add_lengths: "foldl (\<lambda>s e. s + length e) n es = n + sum_list (map length es)"
  by (induction es arbitrary: n) simp_all

subsection \<open>The invariant\<close>

definition logBytes :: "kv_store \<Rightarrow> device_id \<Rightarrow> nat" where
  "logBytes st p = sum_list (map length (logOf st p))"

definition heldLogs :: "kv_store \<Rightarrow> device_id set" where
  "heldLogs st = {p. logOf st p \<noteq> []}"

definition mailbox_inv :: "mailbox_limits \<Rightarrow> kv_store \<Rightarrow> bool" where
  "mailbox_inv limits st \<longleftrightarrow>
     (\<forall>p. log_ok st p \<and> readCount st (logBytesKey p) = logBytes st p \<and> logBytes st p \<le> maxLogBytes limits
        \<and> (\<forall>e \<in> set (logOf st p). length e \<le> maxEntryBytes limits))
     \<and> finite (heldLogs st) \<and> readCount st LOG_COUNT_KEY = card (heldLogs st) \<and> card (heldLogs st) \<le> maxLogs limits"

lemma mailbox_inv_empty: "mailbox_inv limits []"
  by (simp add: mailbox_inv_def log_ok_def logBytes_def heldLogs_def logOf_def readHeadSeq_def readCount_def)

lemma headSeqFor_log: "headSeqFor st p = 0 \<longleftrightarrow> logOf st p = []"
  by (metis headSeqFor_def length_0_conv length_logOf)

text \<open>The only branch that writes, with everything it guarantees.\<close>

lemma handleEntries_cases:
  assumes inv: "mailbox_inv limits st" and run: "handleEntries limits sender f st = (reply, refusal, st')"
  shows "st' = st \<or>
    (sender = ent_peer f \<and> refusal = None \<and> ent_from f = length (logOf st sender)
     \<and> (\<forall>p. logOf st' p = (if p = sender then logOf st p @ ent_entries f else logOf st p))
     \<and> (\<forall>p. log_ok st' p)
     \<and> (\<forall>p. readCount st' (logBytesKey p) = (if p = sender then logBytes st p + sum_list (map length (ent_entries f)) else logBytes st p))
     \<and> readCount st' LOG_COUNT_KEY = card (heldLogs st) + (if logOf st sender = [] \<and> ent_entries f \<noteq> [] then 1 else 0)
     \<and> (\<forall>e \<in> set (ent_entries f). length e \<le> maxEntryBytes limits)
     \<and> logBytes st sender + sum_list (map length (ent_entries f)) \<le> maxLogBytes limits
     \<and> (logOf st sender = [] \<longrightarrow> card (heldLogs st) < maxLogs limits))"
proof (cases "st' = st")
  case False
  let ?p = "ent_peer f"
  have ok: "log_ok st q" "readCount st (logBytesKey q) = logBytes st q" "readCount st LOG_COUNT_KEY = card (heldLogs st)" for q
    using inv by (simp_all add: mailbox_inv_def)
  from run False have guards: "sender = ?p" "\<not> list_ex (\<lambda>e. length e > maxEntryBytes limits) (ent_entries f)"
      "readCount st (logBytesKey ?p) + sum_list (map length (ent_entries f)) \<le> maxLogBytes limits"
      "\<not> (headSeqFor st ?p = 0 \<and> readCount st LOG_COUNT_KEY \<ge> maxLogs limits)"
    by (auto simp: handleEntries_def Let_def sameDevice_def foldl_add_lengths split: if_splits)
  with run False obtain stored where st: "handleDataEntries st f = Ok stored" "refusal = None"
      "st' = (let st1 = jset stored (logBytesKey ?p) (encodeCount (readCount st (logBytesKey ?p) + sum_list (map length (ent_entries f))))
              in if headSeqFor st ?p = 0 \<and> ent_entries f \<noteq> [] then jset st1 LOG_COUNT_KEY (encodeCount (readCount st1 LOG_COUNT_KEY + 1)) else st1)"
    by (auto simp: handleEntries_def sameDevice_def foldl_add_lengths Let_def split: sum.splits if_splits)
  note e = handleDataEntries_ok [OF ok(1) st(1)] and c = handleDataEntries_counter [OF st(1)]
  have "sender = ?p \<and> refusal = None \<and> ent_from f = length (logOf st sender)" using guards e(1) st(2) by simp
  moreover have "logOf st' p = (if p = sender then logOf st p @ ent_entries f else logOf st p)" "log_ok st' p" for p
    using st(3) e(2,3) guards(1) ok(1) by (simp_all add: Let_def)
  moreover have "readCount st' (logBytesKey p) = (if p = sender then logBytes st p + sum_list (map length (ent_entries f)) else logBytes st p)" for p
    using st(3) c guards(1) ok(2) by (simp add: Let_def)
  moreover have "readCount st' LOG_COUNT_KEY = card (heldLogs st) + (if logOf st sender = [] \<and> ent_entries f \<noteq> [] then 1 else 0)"
    using st(3) c guards(1) ok(3) by (simp add: Let_def headSeqFor_log)
  moreover have "\<forall>e \<in> set (ent_entries f). length e \<le> maxEntryBytes limits"
    using guards(2) by (auto simp: list_ex_iff not_less)
  moreover have "logBytes st sender + sum_list (map length (ent_entries f)) \<le> maxLogBytes limits"
      "logOf st sender = [] \<longrightarrow> card (heldLogs st) < maxLogs limits"
    using guards ok(2) [of ?p] ok(3) by (auto simp: headSeqFor_log not_le)
  ultimately show ?thesis by blast
qed simp

lemma handleEntries_inv:
  assumes inv: "mailbox_inv limits st" and run: "handleEntries limits sender f st = (reply, refusal, st')"
  shows "mailbox_inv limits st'"
  using handleEntries_cases [OF inv run]
proof (elim disjE conjE)
  assume logs: "\<forall>p. logOf st' p = (if p = sender then logOf st p @ ent_entries f else logOf st p)"
    and ok: "\<forall>p. log_ok st' p"
    and bytes: "\<forall>p. readCount st' (logBytesKey p) =
      (if p = sender then logBytes st p + sum_list (map length (ent_entries f)) else logBytes st p)"
    and count: "readCount st' LOG_COUNT_KEY = card (heldLogs st) + (if logOf st sender = [] \<and> ent_entries f \<noteq> [] then 1 else 0)"
    and small: "\<forall>e \<in> set (ent_entries f). length e \<le> maxEntryBytes limits"
    and room: "logBytes st sender + sum_list (map length (ent_entries f)) \<le> maxLogBytes limits"
    and free: "logOf st sender = [] \<longrightarrow> card (heldLogs st) < maxLogs limits"
  have held: "heldLogs st' = (if ent_entries f = [] then heldLogs st else insert sender (heldLogs st))"
    using logs by (auto simp: heldLogs_def)
  have fin: "finite (heldLogs st)" "card (heldLogs st) \<le> maxLogs limits" using inv by (auto simp: mailbox_inv_def)
  have card: "card (heldLogs st') = card (heldLogs st) + (if logOf st sender = [] \<and> ent_entries f \<noteq> [] then 1 else 0)"
    using fin(1) by (auto simp: held card_insert_if) (auto simp: heldLogs_def)
  have "readCount st' (logBytesKey p) = logBytes st' p" "logBytes st' p \<le> maxLogBytes limits" for p
    using inv logs bytes room by (simp_all add: logBytes_def mailbox_inv_def)
  moreover have "\<forall>e \<in> set (logOf st' p). length e \<le> maxEntryBytes limits" for p
    using inv logs small by (auto simp: mailbox_inv_def)
  moreover have "card (heldLogs st') \<le> maxLogs limits" using card fin free by auto
  ultimately show ?thesis using ok count card held fin(1) by (auto simp: mailbox_inv_def)
qed (use inv in simp)

lemma handleMailbox_inv: "mailbox_inv limits st \<Longrightarrow> mailbox_inv limits (snd (snd (handleMailbox limits sender frame st)))"
  by (cases "handleMailbox limits sender frame st")
     (auto simp: handleMailbox_def handleHave_def dest: handleEntries_inv split: option.splits data_frame.splits if_splits)

subsection \<open>Runs\<close>

type_synonym mailbox_op = "device_id option \<times> data_frame"

definition mailboxRun :: "mailbox_limits \<Rightarrow> mailbox_op list \<Rightarrow> kv_store \<Rightarrow> kv_store" where
  "mailboxRun limits ops st = fold (\<lambda>(sender, frame) st. snd (snd (handleMailbox limits sender frame st))) ops st"

lemma mailboxRun_simps [simp]:
  "mailboxRun limits [] st = st"
  "mailboxRun limits (ops @ [(sender, frame)]) st = snd (snd (handleMailbox limits sender frame (mailboxRun limits ops st)))"
  by (simp_all add: mailboxRun_def)

lemma mailboxRun_inv: "mailbox_inv limits st \<Longrightarrow> mailbox_inv limits (mailboxRun limits ops st)"
  by (induction ops rule: rev_induct) (auto simp: handleMailbox_inv)

definition wroteEntry :: "device_id \<Rightarrow> bytes \<Rightarrow> mailbox_op \<Rightarrow> bool" where
  "wroteEntry p e op \<longleftrightarrow> fst op = Some p \<and>
     (case snd op of DataEntries f \<Rightarrow> ent_peer f = p \<and> e \<in> set (ent_entries f) | _ \<Rightarrow> False)"

text \<open>One frame leaves a log alone, or is its owner's and appends what the frame carries.\<close>

lemma handleMailbox_log:
  assumes "mailbox_inv limits st"
  shows "logOf (snd (snd (handleMailbox limits sender frame st))) p = logOf st p \<or>
    (\<exists>f. sender = Some p \<and> frame = DataEntries f \<and> ent_peer f = p \<and> ent_from f = length (logOf st p)
       \<and> logOf (snd (snd (handleMailbox limits sender frame st))) p = logOf st p @ ent_entries f)"
proof (cases "\<exists>d f. sender = Some d \<and> frame = DataEntries f")
  case True
  then obtain d f where df: "sender = Some d" "frame = DataEntries f" by blast
  obtain reply refusal st' where r: "handleEntries limits d f st = (reply, refusal, st')" by (cases "handleEntries limits d f st")
  from handleEntries_cases [OF assms r] show ?thesis
    using df r by (cases "p = d") (auto simp: handleMailbox_def)
qed (auto simp: handleMailbox_def handleHave_def split: option.splits data_frame.splits)

subsection \<open>Handlers under way\<close>

type_synonym handler = "device_id \<times> data_entries_frame \<times> entries_stage"

type_synonym mailbox_state = "kv_store \<times> handler list"

definition resumedHandler :: "device_id \<Rightarrow> data_entries_frame \<Rightarrow> entries_stage option \<Rightarrow> handler list" where
  "resumedHandler sender frame continued = (case continued of None \<Rightarrow> [] | Some stage \<Rightarrow> [(sender, frame, stage)])"

text \<open>
  The mailbox of a host. \<open>gated\<close> says that the host lets a handler end before it delivers the next
  \<open>data-entries\<close> frame. The other frames only read.
\<close>

inductive mailbox_reach :: "bool \<Rightarrow> mailbox_limits \<Rightarrow> mailbox_state \<Rightarrow> bool" for gated limits where
  empty: "mailbox_reach gated limits ([], [])"
| arrives: "mailbox_reach gated limits (st, hs) \<Longrightarrow> gated \<longrightarrow> hs = [] \<Longrightarrow>
    mailbox_reach gated limits (st, hs @ [(sender, frame, Arrived)])"
| continues: "mailbox_reach gated limits (st, before @ (sender, frame, stage) # after) \<Longrightarrow>
    entriesStage limits sender frame stage st = (continued, refusal, st') \<Longrightarrow>
    mailbox_reach gated limits (st', before @ resumedHandler sender frame continued @ after)"
| reads: "mailbox_reach gated limits (st, hs) \<Longrightarrow> \<forall>f. frame \<noteq> DataEntries f \<Longrightarrow>
    handleMailbox limits sender frame st = (reply, refusal, st') \<Longrightarrow> mailbox_reach gated limits (st', hs)"

text \<open>Where a handler that started on \<open>st0\<close> and was left alone is at each stage.\<close>

definition entriesCharged :: "data_entries_frame \<Rightarrow> kv_store \<Rightarrow> nat" where
  "entriesCharged frame st0 = readCount st0 (logBytesKey (ent_peer frame)) + foldl (\<lambda>s entry. s + length entry) 0 (ent_entries frame)"

definition entriesNew :: "data_entries_frame \<Rightarrow> kv_store \<Rightarrow> bool" where
  "entriesNew frame st0 \<longleftrightarrow> headSeqFor st0 (ent_peer frame) = 0"

definition entriesSized :: "mailbox_limits \<Rightarrow> device_id \<Rightarrow> data_entries_frame \<Rightarrow> bool" where
  "entriesSized limits sender frame \<longleftrightarrow> sameDevice sender (ent_peer frame)
     \<and> \<not> list_ex (\<lambda>entry. length entry > maxEntryBytes limits) (ent_entries frame)"

definition entriesAdmitted :: "mailbox_limits \<Rightarrow> device_id \<Rightarrow> data_entries_frame \<Rightarrow> kv_store \<Rightarrow> bool" where
  "entriesAdmitted limits sender frame st0 \<longleftrightarrow> entriesSized limits sender frame \<and> entriesCharged frame st0 \<le> maxLogBytes limits
     \<and> \<not> (entriesNew frame st0 \<and> readCount st0 LOG_COUNT_KEY \<ge> maxLogs limits)"

definition entriesWrote :: "mailbox_limits \<Rightarrow> device_id \<Rightarrow> data_entries_frame \<Rightarrow> kv_store \<Rightarrow> kv_store \<Rightarrow> bool" where
  "entriesWrote limits sender frame st0 st \<longleftrightarrow> (\<exists>stored. handleDataEntries st0 frame = Ok stored
     \<and> entriesAdmitted limits sender frame st0 \<and> entriesNew frame st0 \<and> ent_entries frame \<noteq> []
     \<and> st = jset stored (logBytesKey (ent_peer frame)) (encodeCount (entriesCharged frame st0)))"

fun runsAlone :: "mailbox_limits \<Rightarrow> device_id \<Rightarrow> data_entries_frame \<Rightarrow> kv_store \<Rightarrow> entries_stage \<Rightarrow> kv_store \<Rightarrow> bool" where
  "runsAlone limits sender frame st0 Arrived st \<longleftrightarrow> st = st0"
| "runsAlone limits sender frame st0 (Measured held) st \<longleftrightarrow> st = st0 \<and> entriesSized limits sender frame
     \<and> held = readCount st0 (logBytesKey (ent_peer frame))"
| "runsAlone limits sender frame st0 (Placed n new) st \<longleftrightarrow> st = st0 \<and> entriesSized limits sender frame
     \<and> n = entriesCharged frame st0 \<and> n \<le> maxLogBytes limits \<and> new = entriesNew frame st0"
| "runsAlone limits sender frame st0 (Admitted n new) st \<longleftrightarrow> st = st0 \<and> entriesAdmitted limits sender frame st0
     \<and> n = entriesCharged frame st0 \<and> new = entriesNew frame st0"
| "runsAlone limits sender frame st0 (Kept n new) st \<longleftrightarrow> handleDataEntries st0 frame = Ok st
     \<and> entriesAdmitted limits sender frame st0 \<and> n = entriesCharged frame st0 \<and> new = entriesNew frame st0"
| "runsAlone limits sender frame st0 Charged st \<longleftrightarrow> entriesWrote limits sender frame st0 st"
| "runsAlone limits sender frame st0 (Counting n) st \<longleftrightarrow> entriesWrote limits sender frame st0 st \<and> n = readCount st LOG_COUNT_KEY"

lemmas runsAlone_defs = entriesCharged_def entriesNew_def entriesSized_def entriesAdmitted_def entriesWrote_def

text \<open>Left alone, a handler reaches what \<open>handleEntries\<close> returns.\<close>

lemma runsAlone_step:
  assumes "runsAlone limits sender frame st0 stage st"
    and "entriesStage limits sender frame stage st = (continued, refusal, st')"
  shows "case continued of None \<Rightarrow> handleEntries limits sender frame st0 = (None, refusal, st')
    | Some stage' \<Rightarrow> runsAlone limits sender frame st0 stage' st'"
  using assms
  by (cases stage) (auto simp: runsAlone_defs handleEntries_def Let_def not_le not_less split: if_splits sum.splits)

lemma runsAlone_logs:
  assumes "mailbox_inv limits st0" "runsAlone limits sender frame st0 stage st"
  shows "\<exists>st'. mailbox_inv limits st' \<and> (\<forall>p. logOf st p = logOf st' p)"
proof (cases "st = st0")
  case False
  then obtain stored where stored: "handleDataEntries st0 frame = Ok stored" "entriesAdmitted limits sender frame st0"
      "st = stored \<or> st = jset stored (logBytesKey (ent_peer frame)) (encodeCount (entriesCharged frame st0))"
    using assms(2) by (cases stage) (auto simp: entriesWrote_def)
  obtain reply refusal st' where run: "handleEntries limits sender frame st0 = (reply, refusal, st')" by (metis prod_cases3)
  have "logOf st' p = logOf stored p" for p
    using run stored(1,2) by (auto simp: handleEntries_def runsAlone_defs Let_def split: if_splits)
  then show ?thesis using stored(3) handleEntries_inv [OF assms(1) run] by (intro exI [of _ st']) auto
qed (use assms(1) in blast)

fun gated_inv :: "mailbox_limits \<Rightarrow> mailbox_state \<Rightarrow> bool" where
  "gated_inv limits (st, []) \<longleftrightarrow> mailbox_inv limits st"
| "gated_inv limits (st, [(sender, frame, stage)]) \<longleftrightarrow>
     (\<exists>st0. mailbox_inv limits st0 \<and> runsAlone limits sender frame st0 stage st)"
| "gated_inv limits (st, h # h' # hs) \<longleftrightarrow> False"

lemma gated_inv_logs:
  assumes "gated_inv limits (st, hs)"
  obtains st' where "mailbox_inv limits st'" "\<And>p. logOf st p = logOf st' p"
  using assms by (cases "(limits, st, hs)" rule: gated_inv.cases) (auto dest: runsAlone_logs)

lemma gated_continues:
  assumes "gated_inv limits (st, [(sender, frame, stage)])"
    and "entriesStage limits sender frame stage st = (continued, refusal, st')"
  shows "gated_inv limits (st', resumedHandler sender frame continued)"
proof -
  obtain st0 where "mailbox_inv limits st0" "runsAlone limits sender frame st0 stage st" using assms(1) by auto
  then show ?thesis using runsAlone_step [OF _ assms(2)] handleEntries_inv
    by (cases continued) (fastforce simp: resumedHandler_def)+
qed

lemma reads_keep: "\<forall>f. frame \<noteq> DataEntries f \<Longrightarrow> handleMailbox limits sender frame st = (reply, refusal, st') \<Longrightarrow> st' = st"
  by (auto simp: handleMailbox_def handleHave_def split: option.splits data_frame.splits if_splits)

lemma gated_reach_inv: "mailbox_reach True limits s \<Longrightarrow> gated_inv limits s"
proof (induction rule: mailbox_reach.induct)
  case (arrives st hs sender frame)
  then show ?case by auto
next
  case (continues st before sender frame stage after continued refusal st')
  then have "before = []" "after = []"
    by (cases before; cases after; simp; cases "tl before"; simp)+
  with continues show ?case using gated_continues by simp
next
  case (reads st hs frame sender reply refusal st')
  then show ?case using reads_keep [OF reads.hyps(2,3)] by simp
qed (simp add: mailbox_inv_empty)

subsection \<open>Properties\<close>

text \<open>C40: The mailbox stays within its limits on a host that finishes one \<open>data-entries\<close> frame before
  it starts the next, as the input gates of a Durable Object do. Whatever frames arrive there and
  from whom, at every await of every handler the mailbox holds at most \<open>maxLogs\<close> logs, no log
  exceeds \<open>maxLogBytes\<close> and no entry exceeds \<open>maxEntryBytes\<close>; and when no handler is under way the
  byte and log counters it keeps in its store are exact. (Without the gate the limit fails, see
  below: the node's server interleaves its connections over a file store.)\<close>

theorem mailbox_bounded:
  assumes "mailbox_reach True limits (st, under_way)"
  shows "card {p. logOf st p \<noteq> []} \<le> maxLogs limits
     \<and> sum_list (map length (logOf st p)) \<le> maxLogBytes limits
     \<and> list_all (\<lambda>e. length e \<le> maxEntryBytes limits) (logOf st p)
     \<and> (under_way = [] \<longrightarrow> readCount st LOG_COUNT_KEY = card {p. logOf st p \<noteq> []}
          \<and> readCount st (logBytesKey p) = sum_list (map length (logOf st p)))"
proof -
  have inv: "gated_inv limits (st, under_way)" using assms by (rule gated_reach_inv)
  obtain st' where "mailbox_inv limits st'" "\<And>p. logOf st p = logOf st' p" by (rule gated_inv_logs [OF inv]) blast
  moreover have "mailbox_inv limits st" if "under_way = []" using inv that by simp
  ultimately show ?thesis
    by (auto simp: mailbox_inv_def heldLogs_def logBytes_def list_all_iff)
qed

definition sampleLimits :: mailbox_limits where
  "sampleLimits = \<lparr>maxLogs = 1, maxLogBytes = 10, maxEntryBytes = 10, readBatch = 5\<rparr>"

definition firstEntry :: "byte \<Rightarrow> data_entries_frame" where
  "firstEntry d = \<lparr>ent_peer = [d], ent_from = 0, ent_entries = [[7]]\<rparr>"

definition storedFirst :: "byte \<Rightarrow> kv_store \<Rightarrow> kv_store" where
  "storedFirst d st = jset (writeHeadSeq (jset st (entryKey [d] 1) [7]) [d] 1) (logBytesKey [d]) (encodeCount 1)"

lemma storedFirst_counts [simp]:
  "readCount (storedFirst d st) LOG_COUNT_KEY = readCount st LOG_COUNT_KEY"
  by (simp add: storedFirst_def readCount_def writeHeadSeq_def)

lemma storedFirst_head: "headSeqFor (storedFirst d st) p = (if p = [d] then 1 else headSeqFor st p)"
  by (simp add: storedFirst_def headSeqFor_def readHeadSeq_def writeHeadSeq_def)

lemma storedFirst_log: "logOf (storedFirst d st) p = (if p = [d] then [[7]] else logOf st p)"
  by (simp add: logOf_def storedFirst_def readHeadSeq_def writeHeadSeq_def)

lemmas sample_defs = sampleLimits_def firstEntry_def sameDevice_def

lemma stage_goes_on:
  "mailbox_reach gated limits (st, bs @ (sender, frame, stage) # as) \<Longrightarrow>
     entriesStage limits sender frame stage st = (Some stage', None, st') \<Longrightarrow>
     mailbox_reach gated limits (st', bs @ (sender, frame, stage') # as)"
  using continues [of gated limits st bs sender frame stage as "Some stage'" None st'] by (simp add: resumedHandler_def)

lemma stage_ends:
  "mailbox_reach gated limits (st, bs @ (sender, frame, stage) # as) \<Longrightarrow>
     entriesStage limits sender frame stage st = (None, refusal, st') \<Longrightarrow> mailbox_reach gated limits (st', bs @ as)"
  using continues [of gated limits st bs sender frame stage as None refusal st'] by (simp add: resumedHandler_def)

lemma firstEntry_admitted:
  assumes "mailbox_reach gated sampleLimits (st, bs @ ([d], firstEntry d, Arrived) # as)"
    and "headSeqFor st [d] = 0" "readCount st (logBytesKey [d]) = 0" "readCount st LOG_COUNT_KEY = 0"
  shows "mailbox_reach gated sampleLimits (st, bs @ ([d], firstEntry d, Admitted 1 True) # as)"
proof -
  have "mailbox_reach gated sampleLimits (st, bs @ ([d], firstEntry d, Measured 0) # as)"
    by (rule stage_goes_on [OF assms(1)]) (simp add: assms sample_defs)
  then have "mailbox_reach gated sampleLimits (st, bs @ ([d], firstEntry d, Placed 1 True) # as)"
    by (rule stage_goes_on) (simp add: assms sample_defs)
  then show ?thesis by (rule stage_goes_on) (simp add: assms sample_defs)
qed

lemma firstEntry_stored:
  assumes "mailbox_reach gated sampleLimits (st, bs @ ([d], firstEntry d, Admitted 1 True) # as)" "headSeqFor st [d] = 0"
  shows "mailbox_reach gated sampleLimits (storedFirst d st, bs @ ([d], firstEntry d, Counting (readCount st LOG_COUNT_KEY)) # as)"
proof -
  have "mailbox_reach gated sampleLimits
      (writeHeadSeq (jset st (entryKey [d] 1) [7]) [d] 1, bs @ ([d], firstEntry d, Kept 1 True) # as)"
    by (rule stage_goes_on [OF assms(1)]) (use assms(2) in \<open>simp add: firstEntry_def handleDataEntries_def headSeqFor_def\<close>)
  then have "mailbox_reach gated sampleLimits (storedFirst d st, bs @ ([d], firstEntry d, Charged) # as)"
    by (rule stage_goes_on) (simp add: firstEntry_def storedFirst_def)
  then show ?thesis by (rule stage_goes_on) simp
qed

lemma empty_mailbox: "readCount [] k = 0" "headSeqFor [] p = 0" "logOf [] p = []"
  by (simp_all add: readCount_def headSeqFor_def readHeadSeq_def logOf_def)

definition sampleMailbox :: kv_store where
  "sampleMailbox = jset (storedFirst 1 []) LOG_COUNT_KEY (encodeCount 1)"

lemma sampleMailbox_reached: "mailbox_reach True sampleLimits (sampleMailbox, [])"
proof -
  have "mailbox_reach True sampleLimits ([], [] @ [([1], firstEntry 1, Arrived)])" by (rule arrives [OF empty]) simp
  then have "mailbox_reach True sampleLimits ([], [] @ [([1], firstEntry 1, Admitted 1 True)])"
    by (rule firstEntry_admitted) (simp_all add: empty_mailbox)
  then have "mailbox_reach True sampleLimits (storedFirst 1 [], [] @ [([1], firstEntry 1, Counting (readCount [] LOG_COUNT_KEY))])"
    by (rule firstEntry_stored) (simp add: empty_mailbox)
  from stage_ends [OF this] show ?thesis by (simp add: sampleMailbox_def empty_mailbox)
qed

theorem mailbox_bounded_witness:
  "mailbox_reach True sampleLimits (sampleMailbox, []) \<and> logOf sampleMailbox [1] = [[7]]
     \<and> card {p. logOf sampleMailbox p \<noteq> []} \<le> 1 \<and> readCount sampleMailbox (logBytesKey [1]) = 1"
proof -
  have "logOf sampleMailbox [1] = [[7]]" by (simp add: sampleMailbox_def storedFirst_log)
  with mailbox_bounded [OF sampleMailbox_reached, of "[1]"] show ?thesis
    using sampleMailbox_reached by (simp add: sampleLimits_def)
qed

subsection \<open>Where the code falls short\<close>

text \<open>On a host that interleaves handlers the limit does not hold and the counter is wrong. With
  room for one log, the first entries of two devices are both admitted before either is stored;
  both logs are then kept, and both handlers read the log count before either writes it, so it
  ends at one.\<close>

theorem overlapping_handlers_exceed_limit:
  "\<exists>st. mailbox_reach False sampleLimits (st, []) \<and> {p. logOf st p \<noteq> []} = {[1], [2]}
     \<and> maxLogs sampleLimits = 1 \<and> readCount st LOG_COUNT_KEY = 1"
proof -
  let ?h = "\<lambda>d stage. ([d], firstEntry d, stage)"
  let ?st = "storedFirst 2 (storedFirst 1 [])"
  have "mailbox_reach False sampleLimits ([], [] @ [?h 1 Arrived])" by (rule arrives [OF empty]) simp
  then have "mailbox_reach False sampleLimits ([], ([] @ [?h 1 Arrived]) @ [?h 2 Arrived])" by (rule arrives) simp
  then have "mailbox_reach False sampleLimits ([], [] @ ?h 1 (Admitted 1 True) # [?h 2 Arrived])"
    by (intro firstEntry_admitted) (simp_all add: empty_mailbox)
  then have "mailbox_reach False sampleLimits ([], [?h 1 (Admitted 1 True)] @ ?h 2 (Admitted 1 True) # [])"
    by (intro firstEntry_admitted) (simp_all add: empty_mailbox)
  then have "mailbox_reach False sampleLimits (storedFirst 1 [], [] @ ?h 1 (Counting (readCount [] LOG_COUNT_KEY)) # [?h 2 (Admitted 1 True)])"
    by (intro firstEntry_stored) (simp_all add: empty_mailbox)
  then have "mailbox_reach False sampleLimits (storedFirst 1 [], [?h 1 (Counting 0)] @ ?h 2 (Admitted 1 True) # [])"
    by (simp add: empty_mailbox)
  then have "mailbox_reach False sampleLimits (?st, [?h 1 (Counting 0)] @ ?h 2 (Counting (readCount (storedFirst 1 []) LOG_COUNT_KEY)) # [])"
    by (rule firstEntry_stored) (simp add: storedFirst_head empty_mailbox)
  then have "mailbox_reach False sampleLimits (?st, [] @ ?h 1 (Counting 0) # [?h 2 (Counting 0)])" by (simp add: empty_mailbox)
  then have "mailbox_reach False sampleLimits (jset ?st LOG_COUNT_KEY (encodeCount 1), [] @ ?h 2 (Counting 0) # [])"
    unfolding append_Nil by (rule stage_ends [where bs = "[]", unfolded append_Nil]) simp
  then have "mailbox_reach False sampleLimits (jset (jset ?st LOG_COUNT_KEY (encodeCount 1)) LOG_COUNT_KEY (encodeCount 1), [] @ [])"
    by (rule stage_ends) simp
  moreover have "{p. logOf (jset (jset ?st LOG_COUNT_KEY (encodeCount 1)) LOG_COUNT_KEY (encodeCount 1)) p \<noteq> []} = {[1], [2]}"
    by (auto simp: storedFirst_log empty_mailbox split: if_splits)
  ultimately show ?thesis unfolding append_Nil
    by (intro exI [of _ "jset (jset ?st LOG_COUNT_KEY (encodeCount 1)) LOG_COUNT_KEY (encodeCount 1)"] conjI)
       (assumption | simp add: sampleLimits_def)+
qed

text \<open>Only the owner writes. In any run, every entry of a log was carried by a \<open>data-entries\<close> frame
  that arrived from a connection verified as that log's own device, and a further frame, whoever
  sends it, leaves the log a prefix of what it becomes: nothing is overwritten, reordered or
  removed, and the sequence has no gap.\<close>

theorem mailbox_owner_only:
  "list_all (\<lambda>e. list_ex (wroteEntry p e) ops) (logOf (mailboxRun limits ops []) p)
   \<and> prefix (logOf (mailboxRun limits ops []) p) (logOf (mailboxRun limits (ops @ [(sender, frame)]) []) p)
   \<and> readEntries (mailboxRun limits ops []) p n = drop n (logOf (mailboxRun limits ops []) p)"
proof -
  have inv: "mailbox_inv limits (mailboxRun limits ops [])" for ops by (rule mailboxRun_inv [OF mailbox_inv_empty])
  have "list_all (\<lambda>e. list_ex (wroteEntry p e) ops) (logOf (mailboxRun limits ops []) p)"
  proof (induction ops rule: rev_induct)
    case Nil
    then show ?case by (simp add: logOf_def readHeadSeq_def)
  next
    case (snoc op ops)
    obtain s f where "op = (s, f)" by (cases op)
    with handleMailbox_log [OF inv [of ops], of s f p] snoc show ?case
      by (auto simp: list_all_iff wroteEntry_def)
  qed
  moreover have "log_ok (mailboxRun limits ops []) p" using inv by (simp add: mailbox_inv_def)
  ultimately show ?thesis
    using handleMailbox_log [OF inv [of ops], of sender frame p] by (auto simp: prefix_def readEntries_log)
qed

end
