(* ===== verification/RelayHub.thy ===== *)
theory RelayHub
  imports PeerAdverts HubMailbox
begin

text \<open>
  \<open>ts/packages/core/src/domain/relay-hub.ts\<close>: the transport-agnostic relay hub, with the mailbox of
  theory \<open>HubMailbox\<close> behind it, and the \<open>relay:use\<close> gate of \<open>relay-use-gate.ts\<close> in front of it.
  The closure's variables are a record, every \<open>Map\<close> and \<open>Set\<close> an insertion-ordered list, a
  \<open>Connection\<close> a number. An operation returns the new state, what it did to the outside (frames
  sent, callbacks), and whether it rejected: a send to a connection that is no longer alive
  rejects, and the code catches that for gossip, mailbox replies and pongs but not for relay
  frames. The handlers below run each frame to its end; where a handler awaits in the middle, its
  stages are definitions of their own.
\<close>

type_synonym conn = nat

datatype frame =
    Gossip "peer_advert list"
  | RelayConnect device_id "device_id option"
  | RelayInbound device_id "device_id option"
  | RelayData bytes "device_id option" "device_id option"
  | DataFrame data_frame
  | Ping
  | Pong
  | OtherFrame string

datatype hub_effect =
    Send conn frame
  | StateChanged conn
  | AdvertRefused device_id string
  | MailboxRefused "device_id option" mailbox_refusal

record hub_options =
  ho_identity :: advert_verifier
  ho_extensionPolicy :: "extension_policy option"
  ho_mailbox :: "mailbox_limits option"

record registration =
  reg_connection :: conn
  reg_advert :: peer_advert

record relay_hub =
  connections :: "conn list"
  uplink :: "conn option"
  devices :: "(string, registration) jmap"
  connectionDevice :: "(conn, device_id) jmap"
  pairings :: "(conn, (string, conn) jmap) jmap"
  mostRecentPairing :: "(conn, conn) jmap"
  mailboxStore :: kv_store

type_synonym hub_result = "relay_hub \<times> hub_effect list \<times> bool"

definition createRelayHub :: "kv_store \<Rightarrow> relay_hub" where
  "createRelayHub store =
     \<lparr>connections = [], uplink = None, devices = [], connectionDevice = [], pairings = [],
      mostRecentPairing = [], mailboxStore = store\<rparr>"

subsection \<open>Device keys\<close>

definition deviceKey :: "device_id \<Rightarrow> string" where
  "deviceKey dev = foldl (\<lambda>key b. key @ padStart HEX_BYTE_WIDTH (CHR ''0'') (byteToString b)) [] dev"

definition deviceFromKey :: "string \<Rightarrow> device_id" where
  "deviceFromKey key =
     map (\<lambda>i. parseInt16 (key ! (i * HEX_BYTE_WIDTH)) (key ! (i * HEX_BYTE_WIDTH + 1)))
       [0..<length key div HEX_BYTE_WIDTH]"

definition supersedes :: "registration \<Rightarrow> peer_advert \<Rightarrow> conn \<Rightarrow> bool" where
  "supersedes registered advert c =
     (if reg_connection registered = c
      then snapshotSeconds advert \<ge> snapshotSeconds (reg_advert registered)
      else snapshotSeconds advert > snapshotSeconds (reg_advert registered))"

subsection \<open>Pairings\<close>

definition pairingsOf :: "relay_hub \<Rightarrow> conn \<Rightarrow> (string, conn) jmap" where
  "pairingsOf hub c = (case jget (pairings hub) c of Some own \<Rightarrow> own | None \<Rightarrow> [])"

definition setPairing :: "conn \<Rightarrow> string \<Rightarrow> conn \<Rightarrow> relay_hub \<Rightarrow> relay_hub" where
  "setPairing c key peer hub =
     hub\<lparr>pairings := jset (pairings hub) c (jset (pairingsOf hub c) key peer)\<rparr>"

definition setRecent :: "conn \<Rightarrow> conn \<Rightarrow> relay_hub \<Rightarrow> relay_hub" where
  "setRecent c peer hub = hub\<lparr>mostRecentPairing := jset (mostRecentPairing hub) c peer\<rparr>"

definition addPairing :: "conn \<Rightarrow> device_id \<Rightarrow> conn \<Rightarrow> device_id \<Rightarrow> relay_hub \<Rightarrow> relay_hub" where
  "addPairing a aDevice b bDevice hub =
     setRecent b a (setRecent a b (setPairing b (deviceKey aDevice) a (setPairing a (deviceKey bDevice) b hub)))"

definition forgetPairingsWith :: "conn \<Rightarrow> (string, conn) jmap \<Rightarrow> (string, conn) jmap" where
  "forgetPairingsWith c own = filter (\<lambda>(key, paired). paired \<noteq> c) own"

text \<open>One turn of the loop over the peers a leaving connection was paired with.\<close>

definition forgetPeer :: "conn \<Rightarrow> conn \<Rightarrow> relay_hub \<Rightarrow> relay_hub" where
  "forgetPeer c peer hub =
     (let hub1 = (case jget (pairings hub) peer of
                    None \<Rightarrow> hub
                  | Some peerOwn \<Rightarrow> hub\<lparr>pairings := jset (pairings hub) peer (forgetPairingsWith c peerOwn)\<rparr>)
      in if jget (mostRecentPairing hub1) peer = Some c
         then hub1\<lparr>mostRecentPairing := jdel (mostRecentPairing hub1) peer\<rparr> else hub1)"

definition unregister :: "conn \<Rightarrow> relay_hub \<Rightarrow> relay_hub" where
  "unregister c hub =
     hub\<lparr>connections := sdel (connections hub) c,
         devices := filter (\<lambda>(key, r). reg_connection r \<noteq> c) (devices hub),
         connectionDevice := jdel (connectionDevice hub) c,
         mostRecentPairing := jdel (mostRecentPairing hub) c,
         uplink := (if uplink hub = Some c then None else uplink hub)\<rparr>"

definition forgetConnection :: "conn \<Rightarrow> relay_hub \<Rightarrow> relay_hub \<times> hub_effect list" where
  "forgetConnection c hub0 =
     (let hub = unregister c hub0
      in case jget (pairings hub) c of
           None \<Rightarrow> (hub, [])
         | Some own \<Rightarrow>
             let hub' = fold (forgetPeer c) (jvals own) hub
             in (hub'\<lparr>pairings := jdel (pairings hub') c\<rparr>, map StateChanged (jvals own)))"

subsection \<open>Exporting and restoring\<close>

record relay_connection_state =
  rs_device :: device_id
  rs_adverts :: "peer_advert list"
  rs_pairedDevices :: "device_id list"
  rs_mostRecentDevice :: "device_id option"

definition exportConnection :: "conn \<Rightarrow> relay_hub \<Rightarrow> relay_connection_state option" where
  "exportConnection c hub =
     (case jget (connectionDevice hub) c of
        None \<Rightarrow> None
      | Some dev \<Rightarrow>
          Some \<lparr>rs_device = dev,
                rs_adverts = map reg_advert (filter (\<lambda>r. reg_connection r = c) (jvals (devices hub))),
                rs_pairedDevices = map deviceFromKey (jkeys (pairingsOf hub c)),
                rs_mostRecentDevice =
                  (case jget (mostRecentPairing hub) c of
                     None \<Rightarrow> None
                   | Some recentPeer \<Rightarrow>
                       map_option (\<lambda>(key, peer). deviceFromKey key)
                         (find (\<lambda>(key, peer). peer = recentPeer) (pairingsOf hub c)))\<rparr>)"

type_synonym relay_restore = "conn \<times> relay_connection_state"

definition restoreRegistrations ::
    "relay_restore \<Rightarrow> relay_hub \<times> (string, conn) jmap \<Rightarrow> relay_hub \<times> (string, conn) jmap" where
  "restoreRegistrations entry s =
     (case entry of (c, st) \<Rightarrow> case s of (hub, byDevice) \<Rightarrow>
        (hub\<lparr>connections := sadd (connections hub) c,
             connectionDevice := jset (connectionDevice hub) c (rs_device st),
             devices := fold (\<lambda>advert ds. jset ds (deviceKey (device advert))
                                  \<lparr>reg_connection = c, reg_advert = advert\<rparr>) (rs_adverts st) (devices hub)\<rparr>,
         jset byDevice (deviceKey (rs_device st)) c))"

definition resolveAdverts :: "relay_restore \<Rightarrow> (string, conn) jmap \<Rightarrow> (string, conn) jmap" where
  "resolveAdverts entry byDevice =
     (case entry of (c, st) \<Rightarrow>
        fold (\<lambda>advert m. if jget m (deviceKey (device advert)) = None
                then jset m (deviceKey (device advert)) c else m) (rs_adverts st) byDevice)"

definition restorePairings :: "(string, conn) jmap \<Rightarrow> relay_restore \<Rightarrow> relay_hub \<Rightarrow> relay_hub" where
  "restorePairings byDevice entry hub =
     (case entry of (c, st) \<Rightarrow>
        fold (\<lambda>paired hub. case jget byDevice (deviceKey paired) of
                None \<Rightarrow> hub
              | Some peer \<Rightarrow> setPairing c (deviceKey paired) peer hub) (rs_pairedDevices st) hub)"

definition restoreRecent :: "(string, conn) jmap \<Rightarrow> relay_restore \<Rightarrow> relay_hub \<Rightarrow> relay_hub" where
  "restoreRecent byDevice entry hub =
     (case entry of (c, st) \<Rightarrow>
        (case rs_mostRecentDevice st of
           None \<Rightarrow> hub
         | Some recent \<Rightarrow>
             (case jget byDevice (deviceKey recent) of None \<Rightarrow> hub | Some peer \<Rightarrow> setRecent c peer hub)))"

definition restoreConnections :: "relay_restore list \<Rightarrow> relay_hub \<Rightarrow> relay_hub" where
  "restoreConnections entries hub =
     (case fold restoreRegistrations entries (hub, []) of
        (registered, own) \<Rightarrow>
          let byDevice = fold resolveAdverts entries own
          in fold (restoreRecent byDevice) entries (fold (restorePairings byDevice) entries registered))"

subsection \<open>Frames\<close>

definition initiatorOf :: "relay_hub \<Rightarrow> conn \<Rightarrow> device_id option \<Rightarrow> device_id option" where
  "initiatorOf hub c claimed =
     (case claimed of
        None \<Rightarrow> jget (connectionDevice hub) c
      | Some dev \<Rightarrow>
          (case jget (devices hub) (deviceKey dev) of
             Some r \<Rightarrow> if reg_connection r = c then Some dev else None
           | None \<Rightarrow> None))"

definition trySend :: "(conn \<Rightarrow> bool) \<Rightarrow> conn \<Rightarrow> frame \<Rightarrow> hub_effect list" where
  "trySend alive c f = (if alive c then [Send c f] else [])"

text \<open>A send whose rejection the handler does not catch ends the handler.\<close>

definition mustSend :: "(conn \<Rightarrow> bool) \<Rightarrow> conn \<Rightarrow> frame \<Rightarrow> relay_hub \<Rightarrow> hub_effect list \<Rightarrow> hub_result" where
  "mustSend alive c f hub before =
     (if alive c then (hub, before @ [Send c f], False) else (hub, before, True))"

record gossip_walk =
  gw_devices :: "(string, registration) jmap"
  gw_supplanted :: "conn list"
  gw_accepted :: "peer_advert list"
  gw_effects :: "hub_effect list"

definition extensionVerdict :: "hub_options \<Rightarrow> peer_advert \<Rightarrow> string + unit" where
  "extensionVerdict opts advert =
     (case ho_extensionPolicy opts of None \<Rightarrow> Ok () | Some policy \<Rightarrow> checkAdvertExtensions advert policy)"

definition considerAdvert :: "hub_options \<Rightarrow> conn \<Rightarrow> peer_advert \<Rightarrow> gossip_walk \<Rightarrow> gossip_walk" where
  "considerAdvert opts c advert w =
     (case extensionVerdict opts advert of
        Inl key \<Rightarrow> w\<lparr>gw_effects := gw_effects w @ [AdvertRefused (device advert) key]\<rparr>
      | Inr _ \<Rightarrow>
          let key = deviceKey (device advert);
              registered = w\<lparr>gw_devices := jset (gw_devices w) key \<lparr>reg_connection = c, reg_advert = advert\<rparr>,
                             gw_accepted := gw_accepted w @ [advert]\<rparr>
          in case jget (gw_devices w) key of
               None \<Rightarrow> registered
             | Some previous \<Rightarrow>
                 if \<not> supersedes previous advert c then w
                 else if reg_connection previous \<noteq> c
                 then registered\<lparr>gw_supplanted := sadd (gw_supplanted w) (reg_connection previous)\<rparr>
                 else registered)"

text \<open>
  A gossip frame is handled in stages, with an await between them: all adverts are verified
  together, then the verified ones are registered, then the accepted ones are sent to every other
  connection in turn, then the sender is caught up. What happens at the hub during the awaits is
  a matter of the host; theory \<open>RelayHubProperties\<close> lets anything happen there.
\<close>

definition verifiedAdverts :: "hub_options \<Rightarrow> peer_advert list \<Rightarrow> peer_advert list" where
  "verifiedAdverts opts peers = filter (verifyPeerAdvert (ho_identity opts)) peers"

definition registerAdverts ::
    "hub_options \<Rightarrow> conn \<Rightarrow> peer_advert list \<Rightarrow> relay_hub \<Rightarrow> relay_hub \<times> hub_effect list \<times> peer_advert list" where
  "registerAdverts opts c verified hub =
     (let w = fold (considerAdvert opts c) verified
                \<lparr>gw_devices = devices hub, gw_supplanted = [], gw_accepted = [], gw_effects = []\<rparr>;
          hub1 = hub\<lparr>devices := gw_devices w\<rparr>
      in if gw_accepted w = [] then (hub1, gw_effects w, [])
         else
           ((case find (\<lambda>r. reg_connection r = c) (jvals (devices hub1)) of
               None \<Rightarrow> hub1
             | Some r \<Rightarrow> hub1\<lparr>connectionDevice := jset (connectionDevice hub1) c (device (reg_advert r))\<rparr>),
            gw_effects w @ StateChanged c # map StateChanged (gw_supplanted w),
            gw_accepted w))"

definition forwardTo :: "(conn \<Rightarrow> bool) \<Rightarrow> conn \<Rightarrow> peer_advert list \<Rightarrow> conn \<Rightarrow> hub_effect list" where
  "forwardTo alive c accepted other = (if other \<noteq> c then trySend alive other (Gossip accepted) else [])"

definition catchUpSender :: "(conn \<Rightarrow> bool) \<Rightarrow> conn \<Rightarrow> relay_hub \<Rightarrow> hub_effect list" where
  "catchUpSender alive c hub =
     (let catchUp = map reg_advert (filter (\<lambda>r. reg_connection r \<noteq> c) (jvals (devices hub)))
      in if catchUp \<noteq> [] \<and> uplink hub \<noteq> Some c then trySend alive c (Gossip catchUp) else [])"

definition handleGossip :: "hub_options \<Rightarrow> (conn \<Rightarrow> bool) \<Rightarrow> conn \<Rightarrow> peer_advert list \<Rightarrow> relay_hub \<Rightarrow> hub_result" where
  "handleGossip opts alive c peers hub =
     (case registerAdverts opts c (verifiedAdverts opts peers) hub of
        (hub', effects, accepted) \<Rightarrow>
          if accepted = [] then (hub', effects, False)
          else (hub', effects @ concat (map (forwardTo alive c accepted) (connections hub'))
                  @ catchUpSender alive c hub', False))"

definition handleRelayConnect ::
    "(conn \<Rightarrow> bool) \<Rightarrow> conn \<Rightarrow> device_id \<Rightarrow> device_id option \<Rightarrow> relay_hub \<Rightarrow> hub_result" where
  "handleRelayConnect alive c target source hub =
     (case jget (devices hub) (deviceKey target) of
        None \<Rightarrow> (hub, [], False)
      | Some r \<Rightarrow>
          if reg_connection r = c then (hub, [], False)
          else (case initiatorOf hub c source of
                  None \<Rightarrow> (hub, [], False)
                | Some initiator \<Rightarrow>
                    if uplink hub = Some c then (hub, [], False)
                    else
                      let hub' = addPairing c initiator (reg_connection r) (device (reg_advert r)) hub;
                          changes = [StateChanged c, StateChanged (reg_connection r)]
                      in if uplink hub' = Some (reg_connection r)
                         then mustSend alive (reg_connection r)
                                (RelayConnect (device (reg_advert r)) (Some initiator)) hub' changes
                         else mustSend alive (reg_connection r)
                                (RelayInbound initiator (Some (device (reg_advert r)))) hub' changes))"

definition handleUplinkInbound ::
    "(conn \<Rightarrow> bool) \<Rightarrow> conn \<Rightarrow> device_id \<Rightarrow> device_id option \<Rightarrow> relay_hub \<Rightarrow> hub_result" where
  "handleUplinkInbound alive c source targetClaim hub =
     (case targetClaim of
        None \<Rightarrow> (hub, [], False)
      | Some target \<Rightarrow>
          if uplink hub \<noteq> Some c then (hub, [], False)
          else (case jget (devices hub) (deviceKey target) of
                  None \<Rightarrow> (hub, [], False)
                | Some local \<Rightarrow>
                    if reg_connection local = c
                       \<or> map_option reg_connection (jget (devices hub) (deviceKey source)) \<noteq> Some c
                    then (hub, [], False)
                    else mustSend alive (reg_connection local) (RelayInbound source (Some target))
                           (addPairing (reg_connection local) target c source hub)
                           [StateChanged (reg_connection local), StateChanged c]))"

definition handleRelayData ::
    "(conn \<Rightarrow> bool) \<Rightarrow> conn \<Rightarrow> bytes \<Rightarrow> device_id option \<Rightarrow> device_id option \<Rightarrow> relay_hub \<Rightarrow> hub_result" where
  "handleRelayData alive c body toDevice claimedFrom hub =
     (case (case toDevice of Some d \<Rightarrow> jget (pairingsOf hub c) (deviceKey d)
                           | None \<Rightarrow> jget (mostRecentPairing hub) c) of
        None \<Rightarrow> (hub, [], False)
      | Some peer \<Rightarrow>
          (case initiatorOf hub c claimedFrom of
             None \<Rightarrow> (hub, [], False)
           | Some senderDevice \<Rightarrow>
               if (case claimedFrom of None \<Rightarrow> False
                   | Some d \<Rightarrow> jget (pairingsOf hub peer) (deviceKey d) \<noteq> Some c)
               then (hub, [], False)
               else mustSend alive peer (RelayData body toDevice (Some senderDevice)) hub []))"

definition handleMailboxFrame ::
    "hub_options \<Rightarrow> (conn \<Rightarrow> bool) \<Rightarrow> conn \<Rightarrow> data_frame \<Rightarrow> relay_hub \<Rightarrow> hub_result" where
  "handleMailboxFrame opts alive c frame hub =
     (case ho_mailbox opts of
        None \<Rightarrow> (hub, [], False)
      | Some limits \<Rightarrow>
          (let sender = jget (connectionDevice hub) c
           in case handleMailbox limits sender frame (mailboxStore hub) of
                (reply, refusal, store) \<Rightarrow>
                  (hub\<lparr>mailboxStore := store\<rparr>,
                   (case refusal of None \<Rightarrow> [] | Some reason \<Rightarrow> [MailboxRefused sender reason])
                     @ (case reply of None \<Rightarrow> [] | Some answer \<Rightarrow> trySend alive c (DataFrame answer)),
                   False)))"

definition handleFrame :: "hub_options \<Rightarrow> (conn \<Rightarrow> bool) \<Rightarrow> conn \<Rightarrow> frame \<Rightarrow> relay_hub \<Rightarrow> hub_result" where
  "handleFrame opts alive c frame hub =
     (case frame of
        Gossip peers \<Rightarrow> handleGossip opts alive c peers hub
      | RelayConnect target source \<Rightarrow> handleRelayConnect alive c target source hub
      | RelayInbound source target \<Rightarrow> handleUplinkInbound alive c source target hub
      | RelayData body toDevice fromDevice \<Rightarrow> handleRelayData alive c body toDevice fromDevice hub
      | DataFrame f \<Rightarrow> handleMailboxFrame opts alive c f hub
      | Ping \<Rightarrow> (hub, trySend alive c Pong, False)
      | _ \<Rightarrow> (hub, [], False))"

subsection \<open>Connection lifecycle\<close>

definition registerConnection :: "conn \<Rightarrow> relay_hub \<Rightarrow> relay_hub" where
  "registerConnection c hub = hub\<lparr>connections := sadd (connections hub) c\<rparr>"

text \<open>
  One turn of \<open>serve\<close>'s loop: a handler that rejects leaves the loop, and the \<open>finally\<close> block forgets
  the connection whose frame was being handled.
\<close>

definition serveFrame :: "hub_options \<Rightarrow> (conn \<Rightarrow> bool) \<Rightarrow> conn \<Rightarrow> frame \<Rightarrow> relay_hub \<Rightarrow> relay_hub \<times> hub_effect list" where
  "serveFrame opts alive c frame hub =
     (case handleFrame opts alive c frame hub of
        (hub', effects, rejected) \<Rightarrow>
          if rejected then (case forgetConnection c hub' of (hub'', cleanup) \<Rightarrow> (hub'', effects @ cleanup))
          else (hub', effects))"

datatype hub_error = UplinkAlreadyAttached

definition handleUplink :: "(conn \<Rightarrow> bool) \<Rightarrow> conn \<Rightarrow> relay_hub \<Rightarrow> hub_error + relay_hub \<times> hub_effect list" where
  "handleUplink alive c hub =
     (if uplink hub \<noteq> None then Err UplinkAlreadyAttached
      else let local = map reg_advert (jvals (devices hub))
           in Ok (registerConnection c (hub\<lparr>uplink := Some c\<rparr>),
                  if local \<noteq> [] then trySend alive c (Gossip local) else []))"

definition stop :: "relay_hub \<Rightarrow> relay_hub" where
  "stop hub =
     hub\<lparr>connections := [], devices := [], connectionDevice := [], pairings := [], mostRecentPairing := [],
         uplink := None\<rparr>"

subsection \<open>The relay-use gate\<close>

type_synonym relay_use_tracker = "conn list"

definition isAuthorized :: "relay_use_tracker \<Rightarrow> conn \<Rightarrow> bool" where
  "isAuthorized tracker c \<longleftrightarrow> c \<in> set tracker"

definition authorize :: "conn \<Rightarrow> relay_use_tracker \<Rightarrow> relay_use_tracker" where
  "authorize c tracker = sadd tracker c"

definition revoke :: "conn \<Rightarrow> relay_use_tracker \<Rightarrow> relay_use_tracker" where
  "revoke c tracker = sdel tracker c"

definition gatedOnFrame ::
    "hub_options \<Rightarrow> (conn \<Rightarrow> bool) \<Rightarrow> relay_use_tracker \<Rightarrow> conn \<Rightarrow> frame \<Rightarrow> relay_hub \<Rightarrow> hub_result" where
  "gatedOnFrame opts alive tracker c frame hub =
     (if (case frame of RelayConnect _ _ \<Rightarrow> True | _ \<Rightarrow> False) \<and> \<not> isAuthorized tracker c then (hub, [], False)
      else handleFrame opts alive c frame hub)"

end
