(* ===== verification/RelayHubProperties.thy ===== *)
theory RelayHubProperties
  imports RelayHub
begin

text \<open>
  What the relay hub promises: its registry holds only verified adverts of live connections, a
  replayed advert never takes over a route, relay frames stay within pairings and carry a device
  the hub attributed to their sender, and leaving removes a connection from the registry. Three
  properties record where the code falls short of what its comments say.
\<close>

subsection \<open>Keys\<close>

lemma deviceKey_hex: "deviceKey dev = bytesToHex dev"
proof -
  have "foldl (\<lambda>key b. key @ padStart HEX_BYTE_WIDTH (CHR ''0'') (byteToString b)) k dev = k @ bytesToHex dev" for k
    by (induction dev arbitrary: k) simp_all
  then show ?thesis by (simp add: deviceKey_def)
qed

lemma deviceKey_inject [simp]: "deviceKey a = deviceKey b \<longleftrightarrow> a = b"
  by (simp add: deviceKey_hex)

lemma parse_pairs: "map (\<lambda>i. parseInt16 (key ! (i * 2)) (key ! (i * 2 + 1))) [0..<length key div 2] = parseHexPairs key"
proof (induction key rule: parseHexPairs.induct)
  case (1 c d cs)
  have "[0..<length (c # d # cs) div 2] = 0 # map Suc [0..<length cs div 2]"
    by (simp add: map_Suc_upt upt_conv_Cons del: upt_Suc)
  then show ?case using 1 by (simp add: comp_def del: upt_Suc)
qed auto

lemma deviceFromKey_deviceKey [simp]: "deviceFromKey (deviceKey dev) = dev"
  using parse_pairs [of "deviceKey dev"] by (simp add: deviceFromKey_def HEX_BYTE_WIDTH_def deviceKey_hex)

subsection \<open>Considering adverts\<close>

definition carriable :: "hub_options \<Rightarrow> peer_advert \<Rightarrow> bool" where
  "carriable opts advert \<longleftrightarrow> verifyPeerAdvert (ho_identity opts) advert
     \<and> extensionVerdict opts advert = Ok ()"

definition registry_ok :: "hub_options \<Rightarrow> (string, registration) jmap \<Rightarrow> bool" where
  "registry_ok opts ds \<longleftrightarrow> jwf ds \<and>
     (\<forall>k r. jget ds k = Some r \<longrightarrow> k = deviceKey (device (reg_advert r)) \<and> carriable opts (reg_advert r))"

lemma registry_ok_jset:
  "registry_ok opts ds \<Longrightarrow> carriable opts (reg_advert r) \<Longrightarrow> k = deviceKey (device (reg_advert r)) \<Longrightarrow>
     registry_ok opts (jset ds k r)"
  by (simp add: registry_ok_def)

text \<open>One advert either changes nothing in the registry, or takes its device's entry.\<close>

lemma considerAdvert_cases:
  assumes "verifyPeerAdvert (ho_identity opts) advert"
  obtains "gw_devices (considerAdvert opts c advert w) = gw_devices w"
      "gw_accepted (considerAdvert opts c advert w) = gw_accepted w"
  | "carriable opts advert"
      "gw_devices (considerAdvert opts c advert w) =
         jset (gw_devices w) (deviceKey (device advert)) \<lparr>reg_connection = c, reg_advert = advert\<rparr>"
      "gw_accepted (considerAdvert opts c advert w) = gw_accepted w @ [advert]"
      "\<forall>r. jget (gw_devices w) (deviceKey (device advert)) = Some r \<longrightarrow> supersedes r advert c"
proof (cases "extensionVerdict opts advert")
  case (Inl key)
  then show ?thesis using that(1) by (simp add: considerAdvert_def)
next
  case (Inr u)
  then have carry: "carriable opts advert" using assms by (simp add: carriable_def)
  show ?thesis
  proof (cases "jget (gw_devices w) (deviceKey (device advert))")
    case None
    then show ?thesis using that(2) Inr carry by (simp add: considerAdvert_def Let_def)
  next
    case (Some r)
    then show ?thesis using that Inr carry by (cases "supersedes r advert c") (simp_all add: considerAdvert_def Let_def)
  qed
qed

lemma considerAdvert_effects:
  "set (gw_effects (considerAdvert opts c advert w)) \<subseteq> set (gw_effects w) \<union> range (\<lambda>(d, k). AdvertRefused d k)"
  by (auto simp: considerAdvert_def Let_def split: option.splits sum.splits)

definition walk :: "hub_options \<Rightarrow> conn \<Rightarrow> peer_advert list \<Rightarrow> relay_hub \<Rightarrow> gossip_walk" where
  "walk opts c peers hub = fold (considerAdvert opts c) (verifiedAdverts opts peers)
     \<lparr>gw_devices = devices hub, gw_supplanted = [], gw_accepted = [], gw_effects = []\<rparr>"

definition walk_inv :: "hub_options \<Rightarrow> conn \<Rightarrow> (string, registration) jmap \<Rightarrow> gossip_walk \<Rightarrow> bool" where
  "walk_inv opts c ds w \<longleftrightarrow> registry_ok opts (gw_devices w) \<and> list_all (carriable opts) (gw_accepted w)
     \<and> (\<forall>k r. jget (gw_devices w) k = Some r \<longrightarrow> jget ds k = Some r \<or> reg_connection r = c)"

lemma walk_inv_step:
  assumes "walk_inv opts c ds w" "verifyPeerAdvert (ho_identity opts) a"
  shows "walk_inv opts c ds (considerAdvert opts c a w)"
proof (rule considerAdvert_cases [OF assms(2), of c w])
  assume "carriable opts a" "gw_accepted (considerAdvert opts c a w) = gw_accepted w @ [a]"
    "gw_devices (considerAdvert opts c a w) = jset (gw_devices w) (deviceKey (device a)) \<lparr>reg_connection = c, reg_advert = a\<rparr>"
  then show ?thesis using assms(1) by (simp add: walk_inv_def registry_ok_jset)
qed (use assms(1) in \<open>simp add: walk_inv_def\<close>)

lemma walk_inv_fold:
  "list_all (verifyPeerAdvert (ho_identity opts)) as \<Longrightarrow> walk_inv opts c ds w \<Longrightarrow>
     walk_inv opts c ds (fold (considerAdvert opts c) as w)"
  by (induction as arbitrary: w) (simp_all add: walk_inv_step)

lemma walk_ok: "registry_ok opts (devices hub) \<Longrightarrow> walk_inv opts c (devices hub) (walk opts c peers hub)"
  unfolding walk_def by (rule walk_inv_fold) (simp_all add: verifiedAdverts_def list_all_iff walk_inv_def)

text \<open>A registration held by another connection survives every advert that is not strictly newer.\<close>

lemma consider_keeps_route:
  assumes "jget (gw_devices w) k = Some r" "reg_connection r \<noteq> c" "verifyPeerAdvert (ho_identity opts) a"
    and "carriable opts a \<and> deviceKey (device a) = k \<longrightarrow> snapshotSeconds a \<le> snapshotSeconds (reg_advert r)"
  shows "jget (gw_devices (considerAdvert opts c a w)) k = Some r"
proof (rule considerAdvert_cases [OF assms(3), of c w])
  assume a: "carriable opts a"
    "gw_devices (considerAdvert opts c a w) = jset (gw_devices w) (deviceKey (device a)) \<lparr>reg_connection = c, reg_advert = a\<rparr>"
    "\<forall>r. jget (gw_devices w) (deviceKey (device a)) = Some r \<longrightarrow> supersedes r a c"
  have "deviceKey (device a) \<noteq> k"
  proof
    assume "deviceKey (device a) = k"
    with a(1,3) assms show False by (auto simp: supersedes_def)
  qed
  with a(2) assms(1) show ?thesis by simp
qed (use assms(1) in simp)

lemma walk_keeps_route:
  assumes "jget (devices hub) k = Some r" "reg_connection r \<noteq> c"
    and "list_all (\<lambda>a. carriable opts a \<and> deviceKey (device a) = k \<longrightarrow> snapshotSeconds a \<le> snapshotSeconds (reg_advert r)) peers"
  shows "jget (gw_devices (walk opts c peers hub)) k = Some r"
proof -
  have "jget (gw_devices (fold (considerAdvert opts c) (filter (verifyPeerAdvert (ho_identity opts)) as) w)) k = Some r"
    if "jget (gw_devices w) k = Some r"
      "list_all (\<lambda>a. carriable opts a \<and> deviceKey (device a) = k \<longrightarrow> snapshotSeconds a \<le> snapshotSeconds (reg_advert r)) as" for as w
    using that by (induction as arbitrary: w) (simp_all add: consider_keeps_route [OF _ assms(2)])
  then show ?thesis using assms(1,3) by (simp add: walk_def verifiedAdverts_def)
qed

subsection \<open>The invariant of the hub\<close>

definition hub_inv :: "hub_options \<Rightarrow> relay_hub \<Rightarrow> bool" where
  "hub_inv opts hub \<longleftrightarrow> registry_ok opts (devices hub) \<and> distinct (connections hub)
     \<and> (\<forall>k r. jget (devices hub) k = Some r \<longrightarrow> reg_connection r \<in> set (connections hub))
     \<and> (\<forall>c. jget (connectionDevice hub) c \<noteq> None \<longrightarrow> c \<in> set (connections hub))
     \<and> (\<forall>c. jget (pairings hub) c \<noteq> None \<longrightarrow> c \<in> set (connections hub))
     \<and> (\<forall>c. jget (mostRecentPairing hub) c \<noteq> None \<longrightarrow> c \<in> set (connections hub))
     \<and> (\<forall>c. uplink hub = Some c \<longrightarrow> c \<in> set (connections hub))"

lemma hub_inv_create: "hub_inv opts (createRelayHub store)"
  by (simp add: hub_inv_def createRelayHub_def registry_ok_def)

lemma addPairing_frame [simp]:
  "connections (addPairing a x b y hub) = connections hub" "devices (addPairing a x b y hub) = devices hub"
  "connectionDevice (addPairing a x b y hub) = connectionDevice hub" "uplink (addPairing a x b y hub) = uplink hub"
  "mailboxStore (addPairing a x b y hub) = mailboxStore hub"
  by (simp_all add: addPairing_def setRecent_def setPairing_def)

lemma addPairing_keys:
  "jget (pairings (addPairing a x b y hub)) c \<noteq> None \<longleftrightarrow> c = a \<or> c = b \<or> jget (pairings hub) c \<noteq> None"
  "jget (mostRecentPairing (addPairing a x b y hub)) c \<noteq> None \<longleftrightarrow> c = a \<or> c = b \<or> jget (mostRecentPairing hub) c \<noteq> None"
  by (auto simp: addPairing_def setRecent_def setPairing_def)

lemma addPairing_inv:
  "hub_inv opts hub \<Longrightarrow> a \<in> set (connections hub) \<Longrightarrow> b \<in> set (connections hub) \<Longrightarrow> hub_inv opts (addPairing a x b y hub)"
  unfolding hub_inv_def addPairing_frame addPairing_keys by auto

lemma handleGossip_walk:
  "handleGossip opts alive c peers hub =
     (let w = walk opts c peers hub; hub1 = hub\<lparr>devices := gw_devices w\<rparr>
      in if gw_accepted w = [] then (hub1, gw_effects w, False)
         else
           let hub2 = (case find (\<lambda>r. reg_connection r = c) (jvals (gw_devices w)) of
                         None \<Rightarrow> hub1
                       | Some r \<Rightarrow> hub1\<lparr>connectionDevice := jset (connectionDevice hub) c (device (reg_advert r))\<rparr>);
               catchUp = map reg_advert (filter (\<lambda>r. reg_connection r \<noteq> c) (jvals (gw_devices w)))
           in (hub2,
               gw_effects w @ (StateChanged c # map StateChanged (gw_supplanted w))
               @ concat (map (\<lambda>other. if other \<noteq> c then trySend alive other (Gossip (gw_accepted w)) else []) (connections hub))
               @ (if catchUp \<noteq> [] \<and> uplink hub \<noteq> Some c then trySend alive c (Gossip catchUp) else []),
               False))"
  unfolding handleGossip_def registerAdverts_def forwardTo_def catchUpSender_def walk_def [symmetric]
  by (simp add: Let_def split: option.split)

lemma handleGossip_inv:
  assumes inv: "hub_inv opts hub" and c: "c \<in> set (connections hub)"
  shows "hub_inv opts (fst (handleGossip opts alive c peers hub))"
proof -
  have w: "walk_inv opts c (devices hub) (walk opts c peers hub)" using inv by (intro walk_ok) (simp add: hub_inv_def)
  then have live: "jget (gw_devices (walk opts c peers hub)) k = Some r \<Longrightarrow> reg_connection r \<in> set (connections hub)" for k r
    using inv c by (auto simp: walk_inv_def hub_inv_def)
  show ?thesis
    using inv c w live unfolding handleGossip_walk
    by (auto simp: hub_inv_def walk_inv_def Let_def split: option.split)
qed

lemma handleRelayConnect_inv:
  "hub_inv opts hub \<Longrightarrow> c \<in> set (connections hub) \<Longrightarrow> hub_inv opts (fst (handleRelayConnect alive c target source hub))"
  by (auto simp: handleRelayConnect_def mustSend_def Let_def hub_inv_def [of opts hub]
      split: option.split intro!: addPairing_inv)

lemma handleUplinkInbound_inv:
  "hub_inv opts hub \<Longrightarrow> c \<in> set (connections hub) \<Longrightarrow> hub_inv opts (fst (handleUplinkInbound alive c source target hub))"
  by (auto simp: handleUplinkInbound_def mustSend_def hub_inv_def [of opts hub]
      split: option.split intro!: addPairing_inv)

lemma handleRelayData_state: "fst (handleRelayData alive c body t f hub) = hub"
  by (simp add: handleRelayData_def mustSend_def split: option.split)

lemma handleMailboxFrame_inv:
  "hub_inv opts hub \<Longrightarrow> hub_inv opts (fst (handleMailboxFrame opts alive c f hub))"
  by (auto simp: handleMailboxFrame_def hub_inv_def Let_def split: option.splits prod.splits)

lemma handleFrame_inv:
  "hub_inv opts hub \<Longrightarrow> c \<in> set (connections hub) \<Longrightarrow> hub_inv opts (fst (handleFrame opts alive c frame hub))"
  by (cases frame) (simp_all add: handleFrame_def handleGossip_inv handleRelayConnect_inv handleUplinkInbound_inv
      handleRelayData_state handleMailboxFrame_inv)

subsection \<open>Leaving\<close>

lemma forgetPeer_frame [simp]:
  "connections (forgetPeer c p hub) = connections hub" "devices (forgetPeer c p hub) = devices hub"
  "connectionDevice (forgetPeer c p hub) = connectionDevice hub" "uplink (forgetPeer c p hub) = uplink hub"
  "mailboxStore (forgetPeer c p hub) = mailboxStore hub"
  by (simp_all add: forgetPeer_def Let_def split: option.split)

lemma forgetPeer_keys:
  "jget (pairings (forgetPeer c p hub)) x \<noteq> None \<longleftrightarrow> jget (pairings hub) x \<noteq> None"
  "jget (mostRecentPairing (forgetPeer c p hub)) x \<noteq> None \<Longrightarrow> jget (mostRecentPairing hub) x \<noteq> None"
  by (auto simp: forgetPeer_def Let_def split: option.splits if_splits)

lemma fold_forgetPeer_frame [simp]:
  "connections (fold (forgetPeer c) ps hub) = connections hub" "devices (fold (forgetPeer c) ps hub) = devices hub"
  "connectionDevice (fold (forgetPeer c) ps hub) = connectionDevice hub" "uplink (fold (forgetPeer c) ps hub) = uplink hub"
  "mailboxStore (fold (forgetPeer c) ps hub) = mailboxStore hub"
  by (induction ps arbitrary: hub) simp_all

lemma fold_forgetPeer_keys:
  "jget (pairings (fold (forgetPeer c) ps hub)) x \<noteq> None \<longleftrightarrow> jget (pairings hub) x \<noteq> None"
  "jget (mostRecentPairing (fold (forgetPeer c) ps hub)) x \<noteq> None \<Longrightarrow> jget (mostRecentPairing hub) x \<noteq> None"
proof -
  show "jget (pairings (fold (forgetPeer c) ps hub)) x \<noteq> None \<longleftrightarrow> jget (pairings hub) x \<noteq> None"
    by (induction ps arbitrary: hub) (simp, metis fold_simps(2) forgetPeer_keys(1))
  show "jget (mostRecentPairing (fold (forgetPeer c) ps hub)) x \<noteq> None \<Longrightarrow> jget (mostRecentPairing hub) x \<noteq> None"
    by (induction ps arbitrary: hub) (simp, metis fold_simps(2) forgetPeer_keys(2))
qed

lemma forgetConnection_frame:
  "connections (fst (forgetConnection c hub)) = sdel (connections hub) c"
  "devices (fst (forgetConnection c hub)) = filter (\<lambda>(k, r). reg_connection r \<noteq> c) (devices hub)"
  "connectionDevice (fst (forgetConnection c hub)) = jdel (connectionDevice hub) c"
  "uplink (fst (forgetConnection c hub)) = (if uplink hub = Some c then None else uplink hub)"
  "mailboxStore (fst (forgetConnection c hub)) = mailboxStore hub"
  by (simp_all add: forgetConnection_def unregister_def Let_def split: option.split)

lemma forgetConnection_keys:
  "jget (pairings (fst (forgetConnection c hub))) x \<noteq> None \<Longrightarrow> x \<noteq> c \<and> jget (pairings hub) x \<noteq> None"
  "jget (mostRecentPairing (fst (forgetConnection c hub))) x \<noteq> None \<Longrightarrow> x \<noteq> c \<and> jget (mostRecentPairing hub) x \<noteq> None"
proof -
  let ?u = "unregister c hub"
  have u: "jget (mostRecentPairing ?u) x \<noteq> None \<Longrightarrow> x \<noteq> c \<and> jget (mostRecentPairing hub) x \<noteq> None"
    "pairings ?u = pairings hub" by (auto simp: unregister_def split: if_splits)
  show "jget (pairings (fst (forgetConnection c hub))) x \<noteq> None \<Longrightarrow> x \<noteq> c \<and> jget (pairings hub) x \<noteq> None"
    using u(2) fold_forgetPeer_keys(1) [of c _ ?u x]
    by (auto simp: forgetConnection_def Let_def split: option.splits if_splits)
  show "jget (mostRecentPairing (fst (forgetConnection c hub))) x \<noteq> None \<Longrightarrow> x \<noteq> c \<and> jget (mostRecentPairing hub) x \<noteq> None"
    using u(1) fold_forgetPeer_keys(2) [of c _ ?u x]
    by (cases "jget (pairings ?u) c") (auto simp: forgetConnection_def Let_def)
qed

lemma forgetConnection_inv: "hub_inv opts hub \<Longrightarrow> hub_inv opts (fst (forgetConnection c hub))"
  using forgetConnection_keys [of c hub]
  by (auto simp: hub_inv_def forgetConnection_frame registry_ok_def jget_filter split: option.splits if_splits)

subsection \<open>What the hub sends\<close>

definition sends_ok :: "hub_options \<Rightarrow> hub_effect \<Rightarrow> bool" where
  "sends_ok opts e \<longleftrightarrow> (case e of Send c (Gossip adverts) \<Rightarrow> list_all (carriable opts) adverts | _ \<Rightarrow> True)"

lemma sends_ok_simps [simp]:
  "sends_ok opts (Send c (Gossip as)) = list_all (carriable opts) as" "sends_ok opts (StateChanged c)"
  "sends_ok opts (AdvertRefused d k)" "sends_ok opts (MailboxRefused s m)" "sends_ok opts (Send c (RelayConnect t src))"
  "sends_ok opts (Send c (RelayInbound d u))" "sends_ok opts (Send c (RelayData b u v))" "sends_ok opts (Send c (DataFrame x))"
  "sends_ok opts (Send c Pong)"
  by (simp_all add: sends_ok_def)

lemma registry_adverts: "registry_ok opts ds \<Longrightarrow> list_all (\<lambda>r. carriable opts (reg_advert r)) (jvals ds)"
  unfolding list_all_iff registry_ok_def by (metis jvals_iff)

lemma walk_effects: "list_all (sends_ok opts) (gw_effects (walk opts c peers hub))"
proof -
  have "list_all (sends_ok opts) (gw_effects w) \<Longrightarrow> list_all (sends_ok opts) (gw_effects (fold (considerAdvert opts c) as w))" for as w
  proof (induction as arbitrary: w)
    case (Cons a as)
    have "list_all (sends_ok opts) (gw_effects (considerAdvert opts c a w))"
      using Cons.prems considerAdvert_effects [of opts c a w] by (force simp: list_all_iff)
    with Cons.IH show ?case by simp
  qed simp
  then show ?thesis by (simp add: walk_def)
qed

lemma trySend_ok: "sends_ok opts (Send c f) \<Longrightarrow> list_all (sends_ok opts) (trySend alive c f)"
  by (simp add: trySend_def)

subsection \<open>Steps of the hub\<close>

text \<open>
  A run of the hub on a host that interleaves its connections: a gossip frame is verified and
  forwarded across awaits, so the frames under way are part of the state. A step may register a
  connection, start or advance a gossip frame, handle any other frame up to its single send,
  forget a connection whether or not one of its frames is still under way (\<open>onDisconnect\<close>, or the
  \<open>finally\<close> block after a rejected send), attach an uplink, restore connections whose adverts were
  registered before, or stop the hub.
\<close>

datatype gossip_stage = Verifying conn "peer_advert list" | Forwarding conn "peer_advert list"

type_synonym hub_run = "relay_hub \<times> gossip_stage list"

fun gossips :: "frame \<Rightarrow> bool" where
  "gossips (Gossip peers) = True"
| "gossips f = False"

definition forwardingStage :: "conn \<Rightarrow> peer_advert list \<Rightarrow> gossip_stage list" where
  "forwardingStage c accepted = (if accepted = [] then [] else [Forwarding c accepted])"

inductive hub_step :: "hub_options \<Rightarrow> hub_run \<Rightarrow> hub_effect list \<Rightarrow> hub_run \<Rightarrow> bool" for opts where
  join: "hub_step opts (hub, stages) [] (registerConnection c hub, stages)"
| gossip: "hub_step opts (hub, stages) [] (hub, Verifying c peers # stages)"
| verified: "Verifying c peers \<in> set stages \<Longrightarrow>
    registerAdverts opts c (verifiedAdverts opts peers) hub = (hub', effs, accepted) \<Longrightarrow>
    hub_step opts (hub, stages) effs (hub', forwardingStage c accepted @ remove1 (Verifying c peers) stages)"
| forwards: "Forwarding c accepted \<in> set stages \<Longrightarrow> other \<in> set (connections hub) \<Longrightarrow>
    hub_step opts (hub, stages) (forwardTo alive c accepted other) (hub, stages)"
| ends: "Forwarding c accepted \<in> set stages \<Longrightarrow>
    hub_step opts (hub, stages) (catchUpSender alive c hub) (hub, remove1 (Forwarding c accepted) stages)"
| frame: "\<not> gossips f \<Longrightarrow> handleFrame opts alive c f hub = (hub', effs, rejected) \<Longrightarrow>
    hub_step opts (hub, stages) effs (hub', stages)"
| leave: "forgetConnection c hub = (hub', effs) \<Longrightarrow> hub_step opts (hub, stages) effs (hub', stages)"
| attach: "handleUplink alive c hub = Ok (hub', effs) \<Longrightarrow> hub_step opts (hub, stages) effs (hub', stages)"
| restore: "list_all (\<lambda>(c, st). list_all (carriable opts) (rs_adverts st)) entries \<Longrightarrow>
    hub_step opts (hub, stages) [] (restoreConnections entries hub, stages)"
| halt: "hub_step opts (hub, stages) [] (stop hub, stages)"

inductive_cases hub_stepE: "hub_step opts (hub, stages) effs (hub', stages')"

inductive hub_reachable :: "hub_options \<Rightarrow> kv_store \<Rightarrow> hub_run \<Rightarrow> bool" for opts store where
  start: "hub_reachable opts store (createRelayHub store, [])"
| step: "hub_reachable opts store run \<Longrightarrow> hub_step opts run effs run' \<Longrightarrow> hub_reachable opts store run'"

text \<open>What every stage keeps: the registry and the adverts still to be forwarded are authentic.\<close>

definition run_ok :: "hub_options \<Rightarrow> hub_run \<Rightarrow> bool" where
  "run_ok opts run \<longleftrightarrow> registry_ok opts (devices (fst run))
     \<and> (\<forall>c accepted. Forwarding c accepted \<in> set (snd run) \<longrightarrow> list_all (carriable opts) accepted)"

lemma registerAdverts_walk:
  assumes "registerAdverts opts c (verifiedAdverts opts peers) hub = (hub', effs, accepted)"
  shows "devices hub' = gw_devices (walk opts c peers hub)" "accepted = gw_accepted (walk opts c peers hub)"
    "set effs \<subseteq> set (gw_effects (walk opts c peers hub)) \<union> range StateChanged"
  using assms by (auto simp: registerAdverts_def walk_def Let_def split: if_splits option.splits)

lemma restoreRegistrations_ok:
  "list_all (carriable opts) (rs_adverts st) \<Longrightarrow> registry_ok opts (devices hub) \<Longrightarrow>
     registry_ok opts (devices (fst (restoreRegistrations (c, st) (hub, own))))"
proof -
  have "list_all (carriable opts) as \<Longrightarrow> registry_ok opts ds \<Longrightarrow> registry_ok opts
      (fold (\<lambda>advert ds. jset ds (deviceKey (device advert)) \<lparr>reg_connection = c, reg_advert = advert\<rparr>) as ds)" for as ds
    by (induction as arbitrary: ds) (simp_all add: registry_ok_jset)
  then show "list_all (carriable opts) (rs_adverts st) \<Longrightarrow> registry_ok opts (devices hub) \<Longrightarrow> ?thesis"
    by (simp add: restoreRegistrations_def)
qed

lemma restoring_devices:
  "devices (fold (restorePairings byDevice) es hub) = devices hub"
  "devices (fold (restoreRecent byDevice) es hub) = devices hub"
proof -
  have "devices (fold (\<lambda>paired hub. case jget byDevice (deviceKey paired) of None \<Rightarrow> hub
      | Some peer \<Rightarrow> setPairing c (deviceKey paired) peer hub) ps hub) = devices hub" for c ps hub
    by (induction ps arbitrary: hub) (simp_all add: setPairing_def split: option.split)
  then have "devices (restorePairings byDevice e hub) = devices hub" for e hub
    by (simp add: restorePairings_def split: prod.split)
  then show "devices (fold (restorePairings byDevice) es hub) = devices hub"
    by (induction es arbitrary: hub) simp_all
  have "devices (restoreRecent byDevice e hub) = devices hub" for e hub
    by (simp add: restoreRecent_def setRecent_def split: prod.split option.split)
  then show "devices (fold (restoreRecent byDevice) es hub) = devices hub"
    by (induction es arbitrary: hub) simp_all
qed

lemma restoreConnections_ok:
  assumes "list_all (\<lambda>(c, st). list_all (carriable opts) (rs_adverts st)) entries" "registry_ok opts (devices hub)"
  shows "registry_ok opts (devices (restoreConnections entries hub))"
proof -
  have "registry_ok opts (devices (fst (fold restoreRegistrations es s)))"
    if "list_all (\<lambda>(c, st). list_all (carriable opts) (rs_adverts st)) es" "registry_ok opts (devices (fst s))" for es s
    using that
  proof (induction es arbitrary: s)
    case (Cons e es)
    then show ?case using restoreRegistrations_ok [of opts "snd e" "fst s" "fst e" "snd s"] by (simp add: case_prod_beta)
  qed simp
  from this [OF assms(1), of "(hub, [])"] assms(2) show ?thesis
    by (simp add: restoreConnections_def restoring_devices case_prod_beta Let_def)
qed

lemma other_frames_keep_devices:
  "\<not> gossips f \<Longrightarrow> handleFrame opts alive c f hub = (hub', effs, rejected) \<Longrightarrow> devices hub' = devices hub"
  by (cases f) (auto simp: handleFrame_def handleRelayConnect_def handleUplinkInbound_def handleRelayData_def
      handleMailboxFrame_def mustSend_def Let_def split: option.splits if_splits prod.splits)

lemma other_frames_send:
  "\<not> gossips f \<Longrightarrow> handleFrame opts alive c f hub = (hub', effs, rejected) \<Longrightarrow> list_all (sends_ok opts) effs"
  by (cases f) (auto simp: handleFrame_def handleRelayConnect_def handleUplinkInbound_def handleRelayData_def
      handleMailboxFrame_def mustSend_def trySend_ok Let_def split: option.splits if_splits prod.splits)

lemma registry_ok_filter: "registry_ok opts ds \<Longrightarrow> registry_ok opts (filter (\<lambda>(k, r). reg_connection r \<noteq> c) ds)"
  by (auto simp: registry_ok_def jget_filter split: option.splits if_splits)

lemma hub_step_ok:
  assumes "hub_step opts run effs run'" "run_ok opts run"
  shows "run_ok opts run' \<and> list_all (sends_ok opts) effs"
  using assms
proof (induction rule: hub_step.induct)
  case (verified c peers stages hub hub' effs accepted)
  have w: "walk_inv opts c (devices hub) (walk opts c peers hub)"
    using verified.prems by (intro walk_ok) (simp add: run_ok_def)
  have "list_all (sends_ok opts) effs"
    using registerAdverts_walk(3) [OF verified.hyps(2)] walk_effects [of opts c peers hub] by (force simp: list_all_iff)
  with w verified show ?case
    by (auto simp: run_ok_def walk_inv_def registerAdverts_walk [OF verified.hyps(2)] forwardingStage_def dest: notin_set_remove1
        intro: set_remove1_subset [THEN subsetD])
next
  case (forwards c accepted stages other hub alive)
  then show ?case by (simp add: run_ok_def forwardTo_def trySend_ok)
next
  case (ends c accepted stages hub alive)
  have "list_all (carriable opts) (map reg_advert (filter (\<lambda>r. reg_connection r \<noteq> c) (jvals (devices hub))))"
    using registry_adverts [of opts "devices hub"] ends.prems by (auto simp: run_ok_def list_all_iff)
  then show ?case using ends.prems
    by (auto simp: run_ok_def catchUpSender_def Let_def trySend_ok dest: set_remove1_subset [THEN subsetD])
next
  case (frame f alive c hub hub' effs rejected under)
  then show ?case using other_frames_send [OF frame.hyps] other_frames_keep_devices [OF frame.hyps] by (simp add: run_ok_def)
next
  case (leave c hub hub' effs under)
  have "devices hub' = filter (\<lambda>(k, r). reg_connection r \<noteq> c) (devices hub)" using forgetConnection_frame(2) [of c hub] leave by simp
  moreover have "list_all (sends_ok opts) effs"
    using leave.hyps by (auto simp: forgetConnection_def list_all_iff Let_def split: option.splits)
  ultimately show ?case using leave.prems by (simp add: run_ok_def registry_ok_filter)
next
  case (attach alive c hub hub' effs under)
  have "list_all (carriable opts) (map reg_advert (jvals (devices hub)))"
    using registry_adverts [of opts "devices hub"] attach.prems by (simp add: run_ok_def list.pred_map comp_def)
  with attach show ?case
    by (auto simp: run_ok_def handleUplink_def registerConnection_def Let_def trySend_ok split: if_splits)
next
  case (restore entries hub under)
  then show ?case by (simp add: run_ok_def restoreConnections_ok)
qed (auto simp: run_ok_def registerConnection_def stop_def registry_ok_def)

lemma hub_reachable_ok: "hub_reachable opts store run \<Longrightarrow> run_ok opts run"
  by (induction rule: hub_reachable.induct)
     (auto simp: run_ok_def createRelayHub_def registry_ok_def dest: hub_step_ok)

subsection \<open>Properties\<close>

text \<open>C7: The directory is authentic. Whatever the hub's connections do, and however their frames
  interleave with the awaits in which gossip is verified and forwarded, each advert registered in a
  reachable state verified under its own key, passed the extension policy and is filed under its
  own device; and in every step taken from there, every gossip frame the hub sends, forwarded,
  caught up or announced to an uplink, carries only such adverts. (Connections restored after a
  hibernation bring adverts that were accepted before.)\<close>

theorem hub_registry_authentic:
  assumes "hub_reachable opts store (hub, stages)"
  shows "(\<forall>k r. jget (devices hub) k = Some r \<longrightarrow>
      verifyPeerAdvert (ho_identity opts) (reg_advert r) \<and> extensionVerdict opts (reg_advert r) = Ok ()
      \<and> k = deviceKey (device (reg_advert r)))
    \<and> (\<forall>effs run c adverts. hub_step opts (hub, stages) effs run \<and> Send c (Gossip adverts) \<in> set effs \<longrightarrow>
      list_all (\<lambda>a. verifyPeerAdvert (ho_identity opts) a \<and> extensionVerdict opts a = Ok ()) adverts)"
proof -
  have ok: "run_ok opts (hub, stages)" using assms by (rule hub_reachable_ok)
  have "list_all (carriable opts) adverts"
    if "hub_step opts (hub, stages) effs run" "Send c (Gossip adverts) \<in> set effs" for effs run c adverts
  proof -
    have "sends_ok opts (Send c (Gossip adverts))"
      using hub_step_ok [OF that(1) ok] that(2) by (auto simp: list_all_iff)
    then show ?thesis by simp
  qed
  moreover have "\<forall>k r. jget (devices hub) k = Some r \<longrightarrow> k = deviceKey (device (reg_advert r)) \<and> carriable opts (reg_advert r)"
    using ok by (simp add: run_ok_def registry_ok_def)
  ultimately show ?thesis unfolding carriable_def by metis
qed

text \<open>C8: A replayed advert never takes over a route. While a device is registered to one
  connection, a gossip frame from another connection leaves that registration untouched unless it
  carries a verified advert of that device whose \<open>snapshot-seconds\<close> is strictly greater.\<close>

theorem replay_cannot_take_route:
  assumes "jget (devices hub) (deviceKey d) = Some r" and "reg_connection r \<noteq> c"
    and "\<not> list_ex (\<lambda>a. verifyPeerAdvert (ho_identity opts) a \<and> device a = d
            \<and> snapshotSeconds a > snapshotSeconds (reg_advert r)) peers"
  shows "jget (devices (fst (handleFrame opts alive c (Gossip peers) hub))) (deviceKey d) = Some r"
proof -
  have "list_all (\<lambda>a. carriable opts a \<and> deviceKey (device a) = deviceKey d \<longrightarrow>
      snapshotSeconds a \<le> snapshotSeconds (reg_advert r)) peers"
    using assms(3) by (auto simp: list_ex_iff list_all_iff carriable_def not_less)
  from walk_keeps_route [OF assms(1,2) this] show ?thesis
    by (simp add: handleFrame_def handleGossip_walk Let_def split: option.split)
qed

text \<open>A small hub for concrete runs: devices 1, 2 and 3, whose adverts the toy verifier accepts.\<close>

definition toyOptions :: hub_options where
  "toyOptions = \<lparr>ho_identity = toy_verifier, ho_extensionPolicy = None, ho_mailbox = None\<rparr>"

definition toyAdvert :: "byte \<Rightarrow> int \<Rightarrow> peer_advert" where
  "toyAdvert d t = withSignature (toy_content [d] t)
     ([d] @ PEER_ADVERT_SIGNING_CONTEXT @ [0, d, of_int t])"

definition toyDevice :: "byte \<Rightarrow> device_id" where
  "toyDevice d = [0, d]"

lemma toyAdvert_verifies: "verifyPeerAdvert toy_verifier (toyAdvert d t)"
  by (simp add: verifyPeerAdvert_iff toyAdvert_def toy_verifier_def toy_content_def withoutSignature_def
      unsigned_peer_advert.defs withSignature_def)

lemma toyAdvert_fields [simp]:
  "device (toyAdvert d t) = toyDevice d" "snapshotSeconds (toyAdvert d t) = t" "extensions (toyAdvert d t) = []"
  by (simp_all add: toyAdvert_def toy_content_def toyDevice_def withSignature_def)

lemma toyDevice_inject [simp]: "toyDevice a = toyDevice b \<longleftrightarrow> a = b"
  by (simp add: toyDevice_def)

lemma toyOptions_simps [simp]:
  "ho_identity toyOptions = toy_verifier" "ho_mailbox toyOptions = None" "extensionVerdict toyOptions a = Ok ()"
  by (simp_all add: toyOptions_def extensionVerdict_def)

definition toyServe :: "(conn \<Rightarrow> bool) \<Rightarrow> (conn \<times> frame) list \<Rightarrow> relay_hub \<Rightarrow> relay_hub" where
  "toyServe alive frames hub = fold (\<lambda>(c, f) hub. fst (serveFrame toyOptions alive c f hub)) frames hub"

definition toyHub :: "conn list \<Rightarrow> relay_hub" where
  "toyHub cs = fold registerConnection cs (createRelayHub [])"

lemmas toy_simps = toyServe_def toyHub_def registerConnection_def createRelayHub_def serveFrame_def handleFrame_def
  handleGossip_def registerAdverts_def verifiedAdverts_def forwardTo_def catchUpSender_def considerAdvert_def trySend_def sadd_def toyAdvert_verifies supersedes_def Let_def

theorem replay_cannot_take_route_witness:
  "jget (devices (fst (handleFrame toyOptions (\<lambda>_. True) 12 (Gossip [toyAdvert 1 5])
       (toyServe (\<lambda>_. True) [(11, Gossip [toyAdvert 1 5])] (toyHub [11, 12]))))) (deviceKey (toyDevice 1))
     = Some \<lparr>reg_connection = 11, reg_advert = toyAdvert 1 5\<rparr>"
  by (rule replay_cannot_take_route) (simp_all add: toy_simps)

lemma toyHub_reachable: "hub_reachable toyOptions [] (toyHub cs, [])"
proof -
  have "hub_reachable toyOptions [] (hub, []) \<Longrightarrow> hub_reachable toyOptions [] (fold registerConnection cs hub, [])" for hub
    by (induction cs arbitrary: hub) (auto intro: hub_reachable.step join)
  then show ?thesis unfolding toyHub_def by (simp add: hub_reachable.start)
qed

text \<open>Connection 11 gossips device 1; its advert is verified and registered, and about to be forwarded.\<close>

definition toyRegistered :: relay_hub where
  "toyRegistered = (toyHub [11, 12])\<lparr>devices := [(deviceKey (toyDevice 1), \<lparr>reg_connection = 11, reg_advert = toyAdvert 1 5\<rparr>)],
     connectionDevice := [(11, toyDevice 1)]\<rparr>"

lemma toyHub_registers:
  "registerAdverts toyOptions 11 (verifiedAdverts toyOptions [toyAdvert 1 5]) (toyHub [11, 12])
     = (toyRegistered, [StateChanged 11], [toyAdvert 1 5])"
  by (simp add: toyRegistered_def toy_simps)

lemma toyRegistered_reachable: "hub_reachable toyOptions [] (toyRegistered, [Forwarding 11 [toyAdvert 1 5]])"
proof -
  have "hub_reachable toyOptions [] (toyHub [11, 12], [Verifying 11 [toyAdvert 1 5]])"
    by (rule hub_reachable.step [OF toyHub_reachable gossip])
  then show ?thesis using hub_reachable.step [OF _ verified [OF _ toyHub_registers]] by (force simp: forwardingStage_def)
qed

theorem hub_registry_authentic_witness:
  "verifyPeerAdvert toy_verifier (toyAdvert 1 5) \<and>
   (\<exists>effs run. hub_step toyOptions (toyRegistered, [Forwarding 11 [toyAdvert 1 5]]) effs run
     \<and> Send 12 (Gossip [toyAdvert 1 5]) \<in> set effs \<and> extensionVerdict toyOptions (toyAdvert 1 5) = Ok ())"
proof -
  note main = hub_registry_authentic [OF toyRegistered_reachable]
  have step: "hub_step toyOptions (toyRegistered, [Forwarding 11 [toyAdvert 1 5]])
      (forwardTo (\<lambda>_. True) 11 [toyAdvert 1 5] 12) (toyRegistered, [Forwarding 11 [toyAdvert 1 5]])"
    by (rule forwards) (simp_all add: toyRegistered_def toy_simps)
  have sent: "Send 12 (Gossip [toyAdvert 1 5]) \<in> set (forwardTo (\<lambda>_. True) 11 [toyAdvert 1 5] 12)"
    by (simp add: forwardTo_def trySend_def)
  have "jget (devices toyRegistered) (deviceKey (toyDevice 1)) = Some \<lparr>reg_connection = 11, reg_advert = toyAdvert 1 5\<rparr>"
    by (simp add: toyRegistered_def)
  from conjunct1 [OF main, rule_format, OF this] have "verifyPeerAdvert toy_verifier (toyAdvert 1 5)" by simp
  moreover from conjunct2 [OF main, rule_format, OF conjI, OF step sent] have "extensionVerdict toyOptions (toyAdvert 1 5) = Ok ()"
    by simp
  ultimately show ?thesis using step sent by blast
qed

text \<open>C9: Relay data stays within pairings and cannot be forged. A \<open>relay-data\<close> frame changes no hub
  state and is delivered at most once: to the connection its sender is paired with under the
  device it names (or its most recent pairing when it names none), with the payload and address
  untouched, and stamped with a device the hub attributes to the sender: the device the frame
  claims only if that device is registered to this very connection and paired with the receiver.\<close>

theorem relay_data_confined:
  assumes "handleFrame opts alive c (RelayData body to from) hub = (hub', effs, rejected)"
  shows "hub' = hub \<and> (effs = [] \<or> (\<exists>peer sender. effs = [Send peer (RelayData body to (Some sender))]
    \<and> alive peer
    \<and> (case to of Some t \<Rightarrow> jget (pairingsOf hub c) (deviceKey t) = Some peer
                | None \<Rightarrow> jget (mostRecentPairing hub) c = Some peer)
    \<and> (case from of None \<Rightarrow> jget (connectionDevice hub) c = Some sender
                  | Some claimed \<Rightarrow> sender = claimed
                      \<and> map_option reg_connection (jget (devices hub) (deviceKey claimed)) = Some c
                      \<and> jget (pairingsOf hub peer) (deviceKey claimed) = Some c)))"
  using assms
  by (auto simp: handleFrame_def handleRelayData_def mustSend_def initiatorOf_def split: option.splits if_splits)

theorem relay_data_confined_witness:
  "snd (handleFrame toyOptions (\<lambda>_. True) 11 (RelayData [42] (Some (toyDevice 2)) None)
       (toyServe (\<lambda>_. True) [(11, Gossip [toyAdvert 1 5]), (12, Gossip [toyAdvert 2 5]), (11, RelayConnect (toyDevice 2) None)] (toyHub [11, 12])))
     = ([Send 12 (RelayData [42] (Some (toyDevice 2)) (Some (toyDevice 1)))], False)"
proof -
  let ?hub = "toyServe (\<lambda>_. True) [(11, Gossip [toyAdvert 1 5]), (12, Gossip [toyAdvert 2 5]), (11, RelayConnect (toyDevice 2) None)] (toyHub [11, 12])"
  obtain hub' effs rej where h: "handleFrame toyOptions (\<lambda>_. True) 11 (RelayData [42] (Some (toyDevice 2)) None) ?hub = (hub', effs, rej)"
    by (cases "handleFrame toyOptions (\<lambda>_. True) 11 (RelayData [42] (Some (toyDevice 2)) None) ?hub")
  from relay_data_confined [OF h] h show ?thesis
    by (auto simp: toy_simps handleRelayConnect_def initiatorOf_def mustSend_def addPairing_def setRecent_def setPairing_def
        pairingsOf_def handleRelayData_def)
qed

text \<open>A leaving connection is unregistered. After \<open>forgetConnection\<close> the connection is not in the
  fan-out set, holds no pairing map, no attribution and no route, every device it had registered
  is gone from the directory, and every other registration and attribution is as it was.\<close>

theorem disconnect_unregisters:
  assumes "hub_reachable opts store (hub, stages)" and "forgetConnection c hub = (hub', effs)"
  shows "set (connections hub') = set (connections hub) - {c}
    \<and> jget (pairings hub') c = None \<and> jget (mostRecentPairing hub') c = None \<and> uplink hub' \<noteq> Some c
    \<and> jget (connectionDevice hub') d = (if d = c then None else jget (connectionDevice hub) d)
    \<and> jget (devices hub') k = (case jget (devices hub) k of None \<Rightarrow> None
        | Some r \<Rightarrow> if reg_connection r = c then None else Some r)"
proof -
  have hub': "hub' = fst (forgetConnection c hub)" using assms(2) by simp
  have "jwf (devices hub)" using hub_reachable_ok [OF assms(1)] by (simp add: run_ok_def registry_ok_def)
  moreover have "jget (pairings hub') c = None" "jget (mostRecentPairing hub') c = None"
    using forgetConnection_keys [of c hub c] unfolding hub' by blast+
  ultimately show ?thesis
    unfolding hub' by (auto simp: forgetConnection_frame jget_filter split: option.split)
qed

theorem disconnect_unregisters_witness:
  "connections (fst (forgetConnection 11 (toyHub [11, 12]))) \<noteq> [] \<and> 11 \<notin> set (connections (fst (forgetConnection 11 (toyHub [11, 12]))))"
proof -
  obtain hub' effs where h: "forgetConnection 11 (toyHub [11, 12]) = (hub', effs)" by fastforce
  have "set (connections (toyHub [11, 12])) = {11, 12}" by (auto simp: toyHub_def registerConnection_def createRelayHub_def)
  with disconnect_unregisters [OF toyHub_reachable h] h show ?thesis by auto
qed

subsection \<open>Where the code falls short\<close>

text \<open>A connection that is forgotten while its gossip is being verified is registered afterwards.
  Connection 11 gossips device 1 and closes during the await; when verification ends, the hub
  files device 1 under connection 11 all the same, although that connection is not among its
  connections any more and no later disconnect of it will come to remove the entry.\<close>

theorem closed_connection_registered:
  "\<exists>hub stages. hub_reachable toyOptions [] (hub, stages) \<and> 11 \<notin> set (connections hub)
     \<and> jget (devices hub) (deviceKey (toyDevice 1)) = Some \<lparr>reg_connection = 11, reg_advert = toyAdvert 1 5\<rparr>"
proof -
  let ?left = "fst (forgetConnection 11 (toyHub [11, 12]))"
  obtain hub effs accepted where r:
    "registerAdverts toyOptions 11 (verifiedAdverts toyOptions [toyAdvert 1 5]) ?left = (hub, effs, accepted)"
    by (metis prod_cases3)
  have hub: "11 \<notin> set (connections hub)"
    "jget (devices hub) (deviceKey (toyDevice 1)) = Some \<lparr>reg_connection = 11, reg_advert = toyAdvert 1 5\<rparr>"
    using r by (auto simp: forgetConnection_def unregister_def sdel_def toy_simps)
  have "hub_reachable toyOptions [] (toyHub [11, 12], [Verifying 11 [toyAdvert 1 5]])"
    by (rule hub_reachable.step [OF toyHub_reachable gossip])
  then have "hub_reachable toyOptions [] (?left, [Verifying 11 [toyAdvert 1 5]])"
    by (rule hub_reachable.step [OF _ leave]) (rule prod.collapse [symmetric])
  from hub_reachable.step [OF this verified [OF _ r]] hub show ?thesis by fastforce
qed

lemma handleGossip_other_device:
  "c \<noteq> c' \<Longrightarrow> jget (connectionDevice (fst (handleGossip opts alive c' peers hub))) c = jget (connectionDevice hub) c"
  by (simp add: handleGossip_walk Let_def split: option.split)

text \<open>A superseded connection keeps speaking as a device it no longer fronts. When a device moves to
  a new connection by a fresher advert, the hub re-registers it there but leaves the old
  connection's attribution in place, so a frame from the old connection that names no device is
  still accepted as coming from that device. The module header says a connection can never
  initiate or send as a device it does not front.\<close>

theorem supplanted_connection_still_speaks:
  assumes "jget (devices hub) (deviceKey (device a)) = Some r" and "reg_connection r \<noteq> c"
    and "jget (connectionDevice hub) (reg_connection r) = Some (device a)"
    and "verifyPeerAdvert (ho_identity opts) a" and "extensionVerdict opts a = Ok ()"
    and "snapshotSeconds a > snapshotSeconds (reg_advert r)"
    and "handleFrame opts alive c (Gossip [a]) hub = (hub', effs, rejected)"
  shows "jget (devices hub') (deviceKey (device a)) = Some \<lparr>reg_connection = c, reg_advert = a\<rparr>
    \<and> initiatorOf hub' (reg_connection r) (Some (device a)) = None
    \<and> initiatorOf hub' (reg_connection r) None = Some (device a)"
proof -
  have hub'_def: "hub' = fst (handleFrame opts alive c (Gossip [a]) hub)" using assms(7) by simp
  have "gw_devices (walk opts c [a] hub) = jset (devices hub) (deviceKey (device a)) \<lparr>reg_connection = c, reg_advert = a\<rparr>"
    using assms by (simp add: walk_def verifiedAdverts_def considerAdvert_def supersedes_def Let_def)
  then have "jget (devices hub') (deviceKey (device a)) = Some \<lparr>reg_connection = c, reg_advert = a\<rparr>"
    by (simp add: hub'_def handleFrame_def handleGossip_walk Let_def split: option.split)
  moreover have "jget (connectionDevice hub') (reg_connection r) = Some (device a)"
    using handleGossip_other_device [of "reg_connection r" c opts alive "[a]" hub] assms(2,3)
    by (simp add: hub'_def handleFrame_def)
  ultimately show ?thesis using assms(2) by (simp add: initiatorOf_def)
qed

theorem supplanted_connection_still_speaks_witness:
  "initiatorOf (fst (handleFrame toyOptions (\<lambda>_. True) 12 (Gossip [toyAdvert 1 6])
       (toyServe (\<lambda>_. True) [(11, Gossip [toyAdvert 1 5])] (toyHub [11, 12])))) 11 None = Some (toyDevice 1)"
proof -
  let ?hub = "toyServe (\<lambda>_. True) [(11, Gossip [toyAdvert 1 5])] (toyHub [11, 12])"
  obtain hub' effs rej where h: "handleFrame toyOptions (\<lambda>_. True) 12 (Gossip [toyAdvert 1 6]) ?hub = (hub', effs, rej)"
    by (cases "handleFrame toyOptions (\<lambda>_. True) 12 (Gossip [toyAdvert 1 6]) ?hub")
  have d: "jget (devices ?hub) (deviceKey (device (toyAdvert 1 6))) = Some \<lparr>reg_connection = 11, reg_advert = toyAdvert 1 5\<rparr>"
    and c: "jget (connectionDevice ?hub) 11 = Some (toyDevice 1)"
    by (simp_all add: toy_simps)
  have "initiatorOf hub' (reg_connection \<lparr>reg_connection = 11, reg_advert = toyAdvert 1 5\<rparr>) None = Some (device (toyAdvert 1 6))"
    by (rule supplanted_connection_still_speaks [OF d _ _ _ _ _ h, THEN conjunct2, THEN conjunct2])
       (simp_all add: c toyAdvert_verifies)
  with h show ?thesis by simp
qed

text \<open>C33: Sending to a dead peer costs the sender its own registration. Let a connection send a
  relay-data frame the hub would forward: it is paired with some peer (under the device the frame
  addresses, or by its most recent pairing when it addresses none), the hub attributes a device to
  it, and a device it claims is its own and paired with that peer. If that peer's connection has
  died, the failed send leaves \<open>serve\<close>'s loop and its \<open>finally\<close> block forgets the connection that
  sent the frame, although nothing is wrong with it: afterwards it is not in the fan-out set, not
  one device is registered to it, it has no attribution, pairing or most recent peer and is not the
  uplink, and nothing was sent to anyone. The comment in \<open>serve\<close> treats this as the peer's
  disconnect.\<close>

theorem failed_forward_drops_sender:
  assumes "(case to of Some t \<Rightarrow> jget (pairingsOf hub c) (deviceKey t) | None \<Rightarrow> jget (mostRecentPairing hub) c) = Some peer"
    and "initiatorOf hub c claimed = Some sender"
    and "\<forall>d. claimed = Some d \<longrightarrow> jget (pairingsOf hub peer) (deviceKey d) = Some c"
    and "\<not> alive peer"
    and "serveFrame opts alive c (RelayData body to claimed) hub = (hub', effs)"
  shows "c \<notin> set (connections hub') \<and> jget (connectionDevice hub') c = None \<and> uplink hub' \<noteq> Some c
    \<and> jget (pairings hub') c = None \<and> jget (mostRecentPairing hub') c = None
    \<and> list_all (\<lambda>(k, r). reg_connection r \<noteq> c) (devices hub')
    \<and> (\<forall>other body. Send other body \<notin> set effs)"
proof -
  have "handleFrame opts alive c (RelayData body to claimed) hub = (hub, [], True)"
    using assms(1-4) by (auto simp: handleFrame_def handleRelayData_def mustSend_def split: option.split)
  then have f: "forgetConnection c hub = (hub', effs)" using assms(5) by (simp add: serveFrame_def split: prod.splits)
  then have hub': "hub' = fst (forgetConnection c hub)" by simp
  have "jget (pairings hub') c = None" "jget (mostRecentPairing hub') c = None"
    using forgetConnection_keys [of c hub c] unfolding hub' by blast+
  moreover have "\<forall>other body. Send other body \<notin> set effs"
    using f by (auto simp: forgetConnection_def Let_def split: option.splits)
  ultimately show ?thesis
    by (auto simp: hub' forgetConnection_frame list_all_iff split: if_splits)
qed

lemmas toy_relay_simps = toy_simps handleRelayConnect_def initiatorOf_def mustSend_def addPairing_def setRecent_def
  setPairing_def pairingsOf_def

definition toyPaired :: relay_hub where
  "toyPaired = toyServe (\<lambda>_. True)
     [(11, Gossip [toyAdvert 1 5]), (12, Gossip [toyAdvert 2 5]), (11, RelayConnect (toyDevice 2) None)] (toyHub [11, 12, 13])"

theorem failed_forward_drops_sender_witness:
  "11 \<notin> set (connections (fst (serveFrame toyOptions (\<lambda>c. c = 11) 11 (RelayData [42] (Some (toyDevice 2)) None) toyPaired)))"
proof -
  have "jget (pairingsOf toyPaired 11) (deviceKey (toyDevice 2)) = Some 12" "initiatorOf toyPaired 11 None = Some (toyDevice 1)"
    by (simp_all add: toyPaired_def toy_relay_simps)
  note facts = this
  show ?thesis
    by (rule failed_forward_drops_sender [of toyPaired 11 "Some (toyDevice 2)" 12 None, THEN conjunct1, OF _ facts(2) _ _ prod.collapse [symmetric]])
       (simp_all add: facts)
qed

text \<open>Pairings can outlive the connection they lead to. Device 2 moves from connection 12 to
  connection 13 and device 1 pairs with it again, which replaces connection 11's side of the first
  pairing but not connection 12's; when connection 11 leaves, connection 12 still holds a pairing
  to it, and its next frame along that pairing is routed to a closed connection and drops
  connection 12 as well. The comment on the pairing map calls it symmetric.\<close>

theorem pairing_outlives_connection:
  "(let hub = fst (forgetConnection 11 (toyServe (\<lambda>_. True)
        [(13, Gossip [toyAdvert 2 6]), (11, RelayConnect (toyDevice 2) None)] toyPaired))
    in 11 \<notin> set (connections hub) \<and> jget (pairingsOf hub 12) (deviceKey (toyDevice 1)) = Some 11
     \<and> 12 \<in> set (connections hub)
     \<and> 12 \<notin> set (connections (fst (serveFrame toyOptions (\<lambda>c. c \<noteq> 11) 12 (RelayData [42] (Some (toyDevice 1)) None) hub))))"
proof -
  define h where "h = toyServe (\<lambda>_. True) [(13, Gossip [toyAdvert 2 6]), (11, RelayConnect (toyDevice 2) None)] toyPaired"
  define h' where "h' = fst (forgetConnection 11 h)"
  have h: "connections h = [11, 12, 13]" "pairings h = [(11, [(deviceKey (toyDevice 2), 13)]), (12, [(deviceKey (toyDevice 1), 11)]),
      (13, [(deviceKey (toyDevice 1), 11)])]" "connectionDevice h = [(11, toyDevice 1), (12, toyDevice 2), (13, toyDevice 2)]"
    by (simp_all add: h_def toyPaired_def toy_relay_simps)
  have h': "connections h' = [12, 13]" "jget (pairingsOf h' 12) (deviceKey (toyDevice 1)) = Some 11"
    "jget (connectionDevice h') 12 = Some (toyDevice 2)"
    by (simp_all add: h'_def h forgetConnection_def unregister_def forgetPeer_def forgetPairingsWith_def sdel_def pairingsOf_def Let_def)
  have "fst (serveFrame toyOptions (\<lambda>c. c \<noteq> 11) 12 (RelayData [42] (Some (toyDevice 1)) None) h') = fst (forgetConnection 12 h')"
    using h'(2,3) by (auto simp: serveFrame_def handleFrame_def handleRelayData_def initiatorOf_def mustSend_def split: prod.splits)
  then show ?thesis
    using h' by (simp add: Let_def h_def [symmetric] h'_def [symmetric] forgetConnection_frame sdel_def)
qed

end
