(* ===== verification/RelayGate.thy ===== *)
theory RelayGate
  imports RelayHubProperties
begin

text \<open>
  \<open>ts/packages/core/src/domain/relay-use-gate.ts\<close> around the hub: in every run of an opted-in node
  that drives its hub through the gate, each pairing the hub holds was opened by a connection
  that had been granted \<open>relay:use\<close>. The set of connections ever granted is recorded next to the
  state; the node has no uplink.
\<close>

inductive gated_run :: "hub_options \<Rightarrow> relay_hub \<Rightarrow> relay_use_tracker \<Rightarrow> conn set \<Rightarrow> bool" for opts where
  start: "gated_run opts (createRelayHub store) [] {}"
| join: "gated_run opts hub t A \<Longrightarrow> gated_run opts (registerConnection c hub) t A"
| grant: "gated_run opts hub t A \<Longrightarrow> gated_run opts hub (authorize c t) (insert c A)"
| withdraw: "gated_run opts hub t A \<Longrightarrow> gated_run opts hub (revoke c t) A"
| frame: "gated_run opts hub t A \<Longrightarrow> gatedOnFrame opts alive t c f hub = (hub', effs, rejected) \<Longrightarrow> gated_run opts hub' t A"
| leave: "gated_run opts hub t A \<Longrightarrow> gated_run opts (fst (forgetConnection c hub)) t A"

definition side_in :: "conn set \<Rightarrow> conn \<Rightarrow> conn \<Rightarrow> bool" where
  "side_in A c d \<longleftrightarrow> c \<in> A \<or> d \<in> A"

definition opened_by :: "conn set \<Rightarrow> relay_hub \<Rightarrow> bool" where
  "opened_by A hub \<longleftrightarrow> uplink hub = None
     \<and> list_all (\<lambda>x. list_all (\<lambda>y. side_in A (fst x) (snd y)) (snd x)) (pairings hub)
     \<and> list_all (\<lambda>x. side_in A (fst x) (snd x)) (mostRecentPairing hub)"

lemma list_all_jget: "list_all P m \<Longrightarrow> jget m k = Some v \<Longrightarrow> P (k, v)"
  by (auto simp: list_all_iff dest: map_of_SomeD)

lemma opened_by_mono: "opened_by A hub \<Longrightarrow> A \<subseteq> B \<Longrightarrow> opened_by B hub"
  unfolding opened_by_def side_in_def list_all_iff by blast

lemma opened_by_own: "opened_by A hub \<Longrightarrow> list_all (\<lambda>y. side_in A c (snd y)) (pairingsOf hub c)"
  using list_all_jget [of "\<lambda>x. list_all (\<lambda>y. side_in A (fst x) (snd y)) (snd x)" "pairings hub" c]
  by (simp add: opened_by_def pairingsOf_def split: option.split)

lemma opened_by_pairings:
  "opened_by A hub \<Longrightarrow> list_all (\<lambda>y. side_in A c (snd y)) own \<Longrightarrow> opened_by A (hub\<lparr>pairings := jset (pairings hub) c own\<rparr>)"
  by (simp add: opened_by_def list_all_jset)

lemma opened_by_setPairing: "opened_by A hub \<Longrightarrow> side_in A c d \<Longrightarrow> opened_by A (setPairing c k d hub)"
  unfolding setPairing_def by (simp add: opened_by_pairings list_all_jset opened_by_own)

lemma opened_by_setRecent: "opened_by A hub \<Longrightarrow> side_in A c d \<Longrightarrow> opened_by A (setRecent c d hub)"
  by (simp add: opened_by_def setRecent_def list_all_jset)

lemma opened_by_addPairing: "opened_by A hub \<Longrightarrow> a \<in> A \<Longrightarrow> opened_by A (addPairing a x b y hub)"
  by (simp add: addPairing_def opened_by_setRecent opened_by_setPairing side_in_def)

lemma opened_by_dropRecent: "opened_by A hub \<Longrightarrow> opened_by A (hub\<lparr>mostRecentPairing := jdel (mostRecentPairing hub) c\<rparr>)"
  by (simp add: opened_by_def list_all_jdel)

lemma opened_by_forgetPeer:
  assumes "opened_by A hub" shows "opened_by A (forgetPeer c p hub)"
proof -
  define hub1 where "hub1 = (case jget (pairings hub) p of None \<Rightarrow> hub
      | Some own \<Rightarrow> hub\<lparr>pairings := jset (pairings hub) p (forgetPairingsWith c own)\<rparr>)"
  have "list_all (\<lambda>y. side_in A p (snd y)) (forgetPairingsWith c own)" if "jget (pairings hub) p = Some own" for own
    using opened_by_own [OF assms, of p] that by (auto simp: forgetPairingsWith_def pairingsOf_def list_all_iff)
  then have "opened_by A hub1"
    using assms by (simp add: hub1_def opened_by_pairings split: option.split)
  then show ?thesis by (simp add: forgetPeer_def hub1_def [symmetric] Let_def opened_by_dropRecent)
qed

lemma opened_by_forget: "opened_by A hub \<Longrightarrow> opened_by A (fst (forgetConnection c hub))"
proof -
  assume o: "opened_by A hub"
  then have u: "opened_by A (unregister c hub)" by (simp add: opened_by_def unregister_def list_all_jdel)
  have fold: "opened_by A h \<Longrightarrow> opened_by A (fold (forgetPeer c) ps h)" for h ps
    by (induction ps arbitrary: h) (simp_all add: opened_by_forgetPeer)
  have "opened_by A h \<Longrightarrow> opened_by A (h\<lparr>pairings := jdel (pairings h) c\<rparr>)" for h
    by (simp add: opened_by_def list_all_jdel)
  with u fold show ?thesis by (simp add: forgetConnection_def Let_def split: option.split)
qed

lemma opened_by_frame:
  assumes "opened_by A hub" "set t \<subseteq> A"
  shows "opened_by A (fst (gatedOnFrame opts alive t c f hub))"
proof (cases f)
  case (RelayConnect target source)
  then show ?thesis using assms
    by (auto simp: gatedOnFrame_def handleFrame_def handleRelayConnect_def isAuthorized_def mustSend_def Let_def
        split: option.split intro!: opened_by_addPairing)
next
  case (RelayInbound source target)
  then show ?thesis using assms
    by (auto simp: gatedOnFrame_def handleFrame_def handleUplinkInbound_def opened_by_def split: option.split)
next
  case (Gossip peers)
  then show ?thesis using assms
    by (auto simp: gatedOnFrame_def handleFrame_def handleGossip_walk opened_by_def Let_def split: option.split)
next
  case (RelayData b t' f')
  then show ?thesis using assms by (simp add: gatedOnFrame_def handleFrame_def handleRelayData_state)
next
  case (DataFrame x)
  then show ?thesis using assms
    by (auto simp: gatedOnFrame_def handleFrame_def handleMailboxFrame_def opened_by_def Let_def split: option.split prod.split)
qed (use assms in \<open>simp_all add: gatedOnFrame_def handleFrame_def\<close>)

lemma gated_run_inv: "gated_run opts hub t A \<Longrightarrow> opened_by A hub \<and> set t \<subseteq> A"
proof (induction rule: gated_run.induct)
  case (frame hub t A alive c f hub' effs rejected)
  then show ?case using opened_by_frame [of A hub t opts alive c f] by simp
next
  case (grant hub t A c)
  then show ?case using opened_by_mono [of A hub "insert c A"] by (auto simp: authorize_def)
qed (auto simp: opened_by_forget, auto simp: opened_by_def createRelayHub_def registerConnection_def revoke_def)

text \<open>The relay-use gate holds. In every run of a node that drives its hub through the gate,
  whatever is gossiped, granted, withdrawn or disconnected in between, every relay-data frame the
  hub delivers passes between two connections of which at least one had been granted \<open>relay:use\<close>.\<close>

theorem relay_gate_enforced:
  assumes "gated_run opts hub t A" and "gatedOnFrame opts alive t c (RelayData body to from) hub = (hub', effs, rejected)"
    and "Send peer f \<in> set effs"
  shows "c \<in> A \<or> peer \<in> A"
proof -
  have o: "opened_by A hub" using gated_run_inv [OF assms(1)] by simp
  have "(\<exists>k. jget (pairingsOf hub c) k = Some peer) \<or> jget (mostRecentPairing hub) c = Some peer"
    using assms(2,3)
    by (auto simp: gatedOnFrame_def handleFrame_def handleRelayData_def mustSend_def split: option.splits if_splits)
  then have "side_in A c peer"
    using list_all_jget [OF opened_by_own [OF o, of c]]
      list_all_jget [of "\<lambda>x. side_in A (fst x) (snd x)" "mostRecentPairing hub" c] o
    by (auto simp: opened_by_def)
  then show ?thesis by (simp add: side_in_def)
qed

theorem relay_gate_enforced_witness:
  "\<exists>hub effs rejected. gated_run toyOptions hub [11] {11}
     \<and> gatedOnFrame toyOptions (\<lambda>_. True) [11] 11 (RelayData [42] (Some (toyDevice 2)) None) hub = (hub, effs, rejected)
     \<and> Send 12 (RelayData [42] (Some (toyDevice 2)) (Some (toyDevice 1))) \<in> set effs \<and> (11 \<in> {11} \<or> 12 \<in> {11 :: conn})"
proof -
  let ?f = "\<lambda>c f hub. fst (gatedOnFrame toyOptions (\<lambda>_. True) [11] c f hub)"
  have step: "gated_run toyOptions hub [11] {11} \<Longrightarrow> gated_run toyOptions (?f c f hub) [11] {11}" for c f hub
    by (cases "gatedOnFrame toyOptions (\<lambda>_. True) [11] c f hub") (auto intro: gated_run.frame)
  have "gated_run toyOptions (toyHub [11, 12]) [] {}"
    by (simp add: toyHub_def gated_run.start gated_run.join)
  from gated_run.grant [OF this, of 11] have g: "gated_run toyOptions (toyHub [11, 12]) [11] {11}"
    by (simp add: authorize_def sadd_def)
  define hub where "hub = ?f 11 (RelayConnect (toyDevice 2) None) (?f 12 (Gossip [toyAdvert 2 5]) (?f 11 (Gossip [toyAdvert 1 5]) (toyHub [11, 12])))"
  have run: "gated_run toyOptions hub [11] {11}" unfolding hub_def by (intro step g)
  have h: "jget (pairingsOf hub 11) (deviceKey (toyDevice 2)) = Some 12" "jget (connectionDevice hub) 11 = Some (toyDevice 1)"
    by (simp_all add: hub_def gatedOnFrame_def isAuthorized_def toy_relay_simps)
  have data: "gatedOnFrame toyOptions (\<lambda>_. True) [11] 11 (RelayData [42] (Some (toyDevice 2)) None) hub =
      (hub, [Send 12 (RelayData [42] (Some (toyDevice 2)) (Some (toyDevice 1)))], False)"
    using h by (simp add: gatedOnFrame_def handleFrame_def handleRelayData_def initiatorOf_def mustSend_def)
  from relay_gate_enforced [OF run data] have "11 \<in> {11} \<or> 12 \<in> {11 :: conn}" by simp
  moreover have "Send 12 (RelayData [42] (Some (toyDevice 2)) (Some (toyDevice 1)))
      \<in> set [Send 12 (RelayData [42] (Some (toyDevice 2)) (Some (toyDevice 1)))]" by simp
  ultimately show ?thesis using run data by blast
qed

end
