(* ===== verification/SecureChannel.thy ===== *)
theory SecureChannel
  imports TokenPredicates JsText "HOL-Library.Sublist"
begin

text \<open>
  \<open>ts/packages/core/src/domain/secure-channel.ts\<close>: the end-to-end channel two devices open inside a
  relay pairing. The Web Crypto primitives, the identity port and the frame codec are parameters
  (\<open>None\<close> where they reject); the handshake, the key schedule, the IV and associated-data layout
  and the counter discipline are the code's. \<open>seal\<close> and \<open>open\<close> are chained by the source so that
  calls run one after another, which is how they are modelled.
\<close>

record hello_identity =
  hi_deviceId :: device_id
  hi_identityKey :: identity_key
  hi_sign :: "bytes \<Rightarrow> bytes"
  hi_verify :: "identity_key \<Rightarrow> bytes \<Rightarrow> bytes \<Rightarrow> bool option"
  hi_deriveDeviceId :: "bytes \<Rightarrow> device_id option"

text \<open>ECDH from a private key and a raw public key, HKDF from secret, salt and info, AES-GCM, and the frame codec.\<close>

record 'f channel_crypto =
  cc_ecdh :: "bytes \<Rightarrow> bytes \<Rightarrow> bytes option"
  cc_hkdf :: "bytes \<Rightarrow> bytes \<Rightarrow> bytes \<Rightarrow> bytes"
  cc_encrypt :: "bytes \<Rightarrow> bytes \<Rightarrow> bytes \<Rightarrow> bytes \<Rightarrow> bytes"
  cc_decrypt :: "bytes \<Rightarrow> bytes \<Rightarrow> bytes \<Rightarrow> bytes \<Rightarrow> bytes option"
  cc_messageFromFrame :: "'f \<Rightarrow> bytes"
  cc_tryDecodeFrame :: "bytes \<Rightarrow> 'f option"

definition IV_COUNTER_OFFSET :: nat where "IV_COUNTER_OFFSET = 4"
definition COUNTER_BYTE_LENGTH :: nat where "COUNTER_BYTE_LENGTH = 8"
definition HELLO_CONTEXT :: bytes where "HELLO_CONTEXT = textEncode ''wire-mesh/secure-hello/v1'' @ [0]"
definition CHANNEL_CONTEXT :: bytes where "CHANNEL_CONTEXT = textEncode ''wire-mesh/secure-channel/v1'' @ [0]"
definition DATA_CONTEXT :: bytes where "DATA_CONTEXT = textEncode ''wire-mesh/secure-data/v1'' @ [0]"
definition LABEL_LOW_TO_HIGH :: bytes where "LABEL_LOW_TO_HIGH = textEncode ''lo-to-hi''"
definition LABEL_HIGH_TO_LOW :: bytes where "LABEL_HIGH_TO_LOW = textEncode ''hi-to-lo''"

fun compareBytes :: "bytes \<Rightarrow> bytes \<Rightarrow> int" where
  "compareBytes (a # as) (b # bs) =
     (let difference = uint a - uint b in if difference \<noteq> 0 then difference else compareBytes as bs)"
| "compareBytes as bs = int (length as) - int (length bs)"

text \<open>\<open>setBigUint64\<close>, big-endian.\<close>

definition counterBytes :: "nat \<Rightarrow> bytes" where
  "counterBytes counter =
     map (\<lambda>i. word_of_nat (counter div 256 ^ (COUNTER_BYTE_LENGTH - 1 - i))) [0..<COUNTER_BYTE_LENGTH]"

definition helloSigningInput :: "bytes \<Rightarrow> bytes \<Rightarrow> device_id \<Rightarrow> device_id \<Rightarrow> bytes" where
  "helloSigningInput ephemeralKey nonce sender recipient =
     HELLO_CONTEXT @ ephemeralKey @ nonce @ sender @ recipient"

record secure_hello =
  sh_ephemeralKey :: bytes
  sh_nonce :: bytes
  sh_identityKey :: identity_key
  sh_toDevice :: device_id
  sh_signature :: bytes

record pending_handshake =
  ph_peer :: device_id
  ph_hello :: secure_hello
  ph_privateKey :: bytes

record secure_channel_peer =
  peer_deviceId :: device_id
  peer_identityKey :: identity_key

text \<open>The generated key pair and nonce are arguments.\<close>

definition beginHandshake :: "hello_identity \<Rightarrow> bytes \<times> bytes \<Rightarrow> bytes \<Rightarrow> device_id \<Rightarrow> pending_handshake" where
  "beginHandshake identity pair nonce peer =
     \<lparr>ph_peer = peer,
      ph_hello = \<lparr>sh_ephemeralKey = snd pair, sh_nonce = nonce, sh_identityKey = hi_identityKey identity,
                  sh_toDevice = peer,
                  sh_signature = hi_sign identity (helloSigningInput (snd pair) nonce (hi_deviceId identity) peer)\<rparr>,
      ph_privateKey = fst pair\<rparr>"

datatype hello_refusal = IdentityMismatch | WrongRecipient | BadHelloSignature

definition verifyHello :: "hello_identity \<Rightarrow> secure_hello \<Rightarrow> hello_refusal + secure_channel_peer" where
  "verifyHello identity hello =
     (case hi_deriveDeviceId identity (public_key (sh_identityKey hello)) of
        None \<Rightarrow> Err IdentityMismatch
      | Some sender \<Rightarrow>
          if \<not> bytesEqual (sh_toDevice hello) (hi_deviceId identity) then Err WrongRecipient
          else (case hi_verify identity (sh_identityKey hello)
                       (helloSigningInput (sh_ephemeralKey hello) (sh_nonce hello) sender (hi_deviceId identity))
                       (sh_signature hello) of
                  None \<Rightarrow> Err IdentityMismatch
                | Some valid \<Rightarrow>
                    if valid then Ok \<lparr>peer_deviceId = sender, peer_identityKey = sh_identityKey hello\<rparr>
                    else Err BadHelloSignature))"

definition ivFor :: "nat \<Rightarrow> bytes" where
  "ivFor counter = replicate IV_COUNTER_OFFSET 0 @ counterBytes counter"

definition associatedData :: "device_id \<Rightarrow> device_id \<Rightarrow> nat \<Rightarrow> bytes" where
  "associatedData sender recipient counter = DATA_CONTEXT @ sender @ recipient @ counterBytes counter"

definition deriveDirectionKey ::
    "'f channel_crypto \<Rightarrow> bytes \<Rightarrow> bytes \<Rightarrow> device_id \<Rightarrow> device_id \<Rightarrow> bytes \<Rightarrow> bytes" where
  "deriveDirectionKey crypto secret salt low high label =
     cc_hkdf crypto secret salt (CHANNEL_CONTEXT @ low @ high @ label)"

record secure_channel =
  sc_local :: device_id
  sc_peer :: secure_channel_peer
  sc_sendKey :: bytes
  sc_receiveKey :: bytes
  sc_nextSendCounter :: nat
  sc_highestReceived :: int

definition establishChannel ::
    "'f channel_crypto \<Rightarrow> hello_identity \<Rightarrow> pending_handshake \<Rightarrow> secure_hello \<Rightarrow> secure_channel_peer \<Rightarrow> secure_channel option" where
  "establishChannel crypto identity pending remote peer =
     (case cc_ecdh crypto (ph_privateKey pending) (sh_ephemeralKey remote) of
        None \<Rightarrow> None
      | Some secret \<Rightarrow>
          let own = hi_deviceId identity; other = peer_deviceId peer;
              localIsLow = (compareBytes own other < 0);
              low = (if localIsLow then own else other);
              high = (if localIsLow then other else own);
              lowNonce = (if localIsLow then sh_nonce (ph_hello pending) else sh_nonce remote);
              highNonce = (if localIsLow then sh_nonce remote else sh_nonce (ph_hello pending));
              salt = lowNonce @ highNonce;
              lowToHigh = deriveDirectionKey crypto secret salt low high LABEL_LOW_TO_HIGH;
              highToLow = deriveDirectionKey crypto secret salt low high LABEL_HIGH_TO_LOW
          in Some \<lparr>sc_local = own, sc_peer = peer,
                   sc_sendKey = (if localIsLow then lowToHigh else highToLow),
                   sc_receiveKey = (if localIsLow then highToLow else lowToHigh),
                   sc_nextSendCounter = 0, sc_highestReceived = -1\<rparr>)"

record secure_data =
  sd_counter :: nat
  sd_ciphertext :: bytes

definition sealAt :: "'f channel_crypto \<Rightarrow> secure_channel \<Rightarrow> 'f \<Rightarrow> nat \<Rightarrow> secure_data" where
  "sealAt crypto ch frame counter =
     \<lparr>sd_counter = counter,
      sd_ciphertext = cc_encrypt crypto (sc_sendKey ch) (ivFor counter)
        (associatedData (sc_local ch) (peer_deviceId (sc_peer ch)) counter) (cc_messageFromFrame crypto frame)\<rparr>"

definition sealFrame :: "'f channel_crypto \<Rightarrow> 'f \<Rightarrow> secure_channel \<Rightarrow> secure_data \<times> secure_channel" where
  "sealFrame crypto frame ch =
     (sealAt crypto ch frame (sc_nextSendCounter ch), ch\<lparr>sc_nextSendCounter := sc_nextSendCounter ch + 1\<rparr>)"

text \<open>What decrypting a frame yields, and what opening it returns and leaves behind.\<close>

definition decryptFrom :: "'f channel_crypto \<Rightarrow> secure_channel \<Rightarrow> secure_data \<Rightarrow> bytes option" where
  "decryptFrom crypto ch dat =
     cc_decrypt crypto (sc_receiveKey ch) (ivFor (sd_counter dat))
       (associatedData (peer_deviceId (sc_peer ch)) (sc_local ch) (sd_counter dat)) (sd_ciphertext dat)"

definition openOne :: "'f channel_crypto \<Rightarrow> secure_data \<Rightarrow> secure_channel \<Rightarrow> 'f option \<times> secure_channel" where
  "openOne crypto dat ch =
     (if int (sd_counter dat) \<le> sc_highestReceived ch then (None, ch)
      else case decryptFrom crypto ch dat of
             None \<Rightarrow> (None, ch)
           | Some plaintext \<Rightarrow>
               (cc_tryDecodeFrame crypto plaintext,
                ch\<lparr>sc_highestReceived := max (sc_highestReceived ch) (int (sd_counter dat))\<rparr>))"

subsection \<open>Sequences\<close>

primrec sealAll :: "'f channel_crypto \<Rightarrow> 'f list \<Rightarrow> secure_channel \<Rightarrow> secure_data list" where
  "sealAll crypto [] ch = []"
| "sealAll crypto (f # fs) ch = (case sealFrame crypto f ch of (d, ch') \<Rightarrow> d # sealAll crypto fs ch')"

primrec openAll :: "'f channel_crypto \<Rightarrow> secure_data list \<Rightarrow> secure_channel \<Rightarrow> 'f option list" where
  "openAll crypto [] ch = []"
| "openAll crypto (d # ds) ch = (case openOne crypto d ch of (r, ch') \<Rightarrow> r # openAll crypto ds ch')"

text \<open>The counters of the frames that opened, in the order they were opened.\<close>

primrec acceptedCounters :: "'f channel_crypto \<Rightarrow> secure_data list \<Rightarrow> secure_channel \<Rightarrow> int list" where
  "acceptedCounters crypto [] ch = []"
| "acceptedCounters crypto (d # ds) ch =
     (case openOne crypto d ch of (r, ch') \<Rightarrow>
        (if r = None then [] else [int (sd_counter d)]) @ acceptedCounters crypto ds ch')"

subsection \<open>Counters and device order\<close>

definition bigEndian :: "nat list \<Rightarrow> nat" where
  "bigEndian ds = foldl (\<lambda>acc d. 256 * acc + d) 0 ds"

lemma bigEndian_snoc: "bigEndian (ds @ [d]) = 256 * bigEndian ds + d"
  by (simp add: bigEndian_def)

lemma bigEndian_digits: "bigEndian (map (\<lambda>i. n div 256 ^ (k - 1 - i) mod 256) [0..<k]) = n mod 256 ^ k"
proof (induction k arbitrary: n)
  case (Suc k)
  have step: "n div 256 ^ (Suc k - 1 - i) mod 256 = n div 256 div 256 ^ (k - 1 - i) mod 256" if "i < k" for i
  proof -
    have "Suc k - 1 - i = Suc (k - 1 - i)" using that by simp
    then show ?thesis by (simp only: power_Suc div_mult2_eq)
  qed
  have digits: "map (\<lambda>i. n div 256 ^ (Suc k - 1 - i) mod 256) [0..<Suc k] =
      map (\<lambda>i. n div 256 div 256 ^ (k - 1 - i) mod 256) [0..<k] @ [n mod 256]"
  proof -
    have "map (\<lambda>i. n div 256 ^ (Suc k - 1 - i) mod 256) [0..<k] = map (\<lambda>i. n div 256 div 256 ^ (k - 1 - i) mod 256) [0..<k]"
      by (rule map_cong [OF refl]) (rule step, simp)
    then show ?thesis by simp
  qed
  have "n mod 256 ^ Suc k = 256 * (n div 256 mod 256 ^ k) + n mod 256"
    by (simp only: power_Suc mod_mult2_eq)
  then show ?case unfolding digits bigEndian_snoc Suc [of "n div 256"] by simp
qed (simp add: bigEndian_def)

lemma counterBytes_value: "bigEndian (map unat (counterBytes n)) = n mod 2 ^ 64"
proof -
  have "map unat (counterBytes n) = map (\<lambda>i. n div 256 ^ (COUNTER_BYTE_LENGTH - 1 - i) mod 256) [0..<COUNTER_BYTE_LENGTH]"
    by (simp add: counterBytes_def unat_of_nat)
  then have "bigEndian (map unat (counterBytes n)) = n mod 256 ^ COUNTER_BYTE_LENGTH" by (simp only: bigEndian_digits)
  then show ?thesis by (simp add: COUNTER_BYTE_LENGTH_def)
qed

lemma counterBytes_inject: "m < 2 ^ 64 \<Longrightarrow> n < 2 ^ 64 \<Longrightarrow> counterBytes m = counterBytes n \<longleftrightarrow> m = n"
  using counterBytes_value [of m] counterBytes_value [of n] by (metis mod_less)

lemma ivFor_inject: "m < 2 ^ 64 \<Longrightarrow> n < 2 ^ 64 \<Longrightarrow> ivFor m = ivFor n \<longleftrightarrow> m = n"
  by (simp add: ivFor_def counterBytes_inject)

lemma compareBytes_antisym: "compareBytes a b = - compareBytes b a"
  by (induction a b rule: compareBytes.induct) (auto simp: Let_def)

lemma compareBytes_0: "compareBytes a b = 0 \<longleftrightarrow> a = b"
  by (induction a b rule: compareBytes.induct) (auto simp: Let_def word_uint_eq_iff)

subsection \<open>Sealing and opening\<close>

lemma sealAll_nth:
  "i < length fs \<Longrightarrow> sealAll crypto fs ch ! i = sealAt crypto ch (fs ! i) (sc_nextSendCounter ch + i)"
proof (induction fs arbitrary: i ch)
  case (Cons f fs)
  then show ?case by (cases i) (simp_all add: sealFrame_def sealAt_def)
qed simp

lemma length_sealAll [simp]: "length (sealAll crypto fs ch) = length fs"
  by (induction fs arbitrary: ch) (simp_all add: sealFrame_def)

lemma openOne_advances:
  "sc_highestReceived ch \<le> sc_highestReceived (snd (openOne crypto d ch))"
  "fst (openOne crypto d ch) \<noteq> None \<Longrightarrow> sc_highestReceived ch < int (sd_counter d)
     \<and> sc_highestReceived (snd (openOne crypto d ch)) = int (sd_counter d)"
  by (auto simp: openOne_def split: option.splits if_splits)

lemma acceptedCounters_above: "list_all (\<lambda>n. n > sc_highestReceived ch) (acceptedCounters crypto ds ch)"
proof (induction ds arbitrary: ch)
  case (Cons d ds)
  from openOne_advances(1) [of ch crypto d] openOne_advances(2) [of crypto d ch] Cons [of "snd (openOne crypto d ch)"] show ?case
    by (auto simp: list_all_iff case_prod_beta)
qed simp

lemma acceptedCounters_sorted: "sorted_wrt (<) (acceptedCounters crypto ds ch)"
proof (induction ds arbitrary: ch)
  case (Cons d ds)
  with openOne_advances(2) [of crypto d ch] acceptedCounters_above [of "snd (openOne crypto d ch)" crypto ds] show ?case
    by (auto simp: case_prod_beta list_all_iff)
qed simp

text \<open>What two ends must share for one direction.\<close>

definition mirrored :: "secure_channel \<Rightarrow> secure_channel \<Rightarrow> bool" where
  "mirrored a b \<longleftrightarrow> sc_sendKey a = sc_receiveKey b \<and> sc_local a = peer_deviceId (sc_peer b)
     \<and> peer_deviceId (sc_peer a) = sc_local b"

lemma open_sealed:
  assumes "mirrored a b" and "\<And>k iv ad pt. cc_decrypt crypto k iv ad (cc_encrypt crypto k iv ad pt) = Some pt"
    and "\<And>f. cc_tryDecodeFrame crypto (cc_messageFromFrame crypto f) = Some f" and "sc_highestReceived b < int n"
  shows "openOne crypto (sealAt crypto a f n) b = (Some f, b\<lparr>sc_highestReceived := int n\<rparr>)"
  using assms by (simp add: openOne_def decryptFrom_def sealAt_def mirrored_def max_def)

lemma mirrored_update [simp]: "mirrored a (b\<lparr>sc_highestReceived := h\<rparr>) = mirrored a b"
  by (simp add: mirrored_def)

lemma openAll_sealed:
  assumes "mirrored a b" and "\<And>k iv ad pt. cc_decrypt crypto k iv ad (cc_encrypt crypto k iv ad pt) = Some pt"
    and "\<And>f. cc_tryDecodeFrame crypto (cc_messageFromFrame crypto f) = Some f"
    and "sorted_wrt (<) ns" and "list_all (\<lambda>n. sc_highestReceived b < int n) ns"
  shows "openAll crypto (map (\<lambda>n. sealAt crypto a (fs n) n) ns) b = map (\<lambda>n. Some (fs n)) ns"
  using assms(1,4,5)
proof (induction ns arbitrary: b)
  case (Cons n ns)
  have "openOne crypto (sealAt crypto a (fs n) n) b = (Some (fs n), b\<lparr>sc_highestReceived := int n\<rparr>)"
    by (rule open_sealed [OF Cons.prems(1) assms(2,3)]) (use Cons.prems in simp)
  with Cons show ?case by (simp add: list_all_iff)
qed simp

subsection \<open>Properties\<close>

lemma sorted_nths_upt: "sorted_wrt (<) (nths [0..<n] I)"
  by (induction n) (auto simp: nths_append sorted_wrt_append dest: notin_set_nthsI in_set_nthsD)

lemma establishChannel_mirrored:
  assumes ids: "hi_deviceId idA \<noteq> hi_deviceId idB"
    and s: "cc_ecdh crypto (ph_privateKey pA) (sh_ephemeralKey (ph_hello pB)) = Some secret"
      "cc_ecdh crypto (ph_privateKey pB) (sh_ephemeralKey (ph_hello pA)) = Some secret"
  shows "\<exists>a b. establishChannel crypto idA pA (ph_hello pB) \<lparr>peer_deviceId = hi_deviceId idB, peer_identityKey = kB\<rparr> = Some a
    \<and> establishChannel crypto idB pB (ph_hello pA) \<lparr>peer_deviceId = hi_deviceId idA, peer_identityKey = kA\<rparr> = Some b
    \<and> mirrored a b \<and> mirrored b a
    \<and> sc_nextSendCounter a = 0 \<and> sc_nextSendCounter b = 0 \<and> sc_highestReceived a = -1 \<and> sc_highestReceived b = -1"
proof -
  have flip: "compareBytes (hi_deviceId idB) (hi_deviceId idA) < 0 \<longleftrightarrow> \<not> compareBytes (hi_deviceId idA) (hi_deviceId idB) < 0"
    using compareBytes_antisym [of "hi_deviceId idA" "hi_deviceId idB"] compareBytes_0 [of "hi_deviceId idA" "hi_deviceId idB"] ids
    by linarith
  show ?thesis
    by (cases "compareBytes (hi_deviceId idA) (hi_deviceId idB) < 0")
      (simp_all add: establishChannel_def mirrored_def Let_def s flip)
qed

lemma sealed_delivery:
  assumes m: "mirrored a b" and start: "sc_nextSendCounter a = 0" "sc_highestReceived b = -1"
    and gcm: "\<And>k iv ad pt. cc_decrypt crypto k iv ad (cc_encrypt crypto k iv ad pt) = Some pt"
    and codec: "\<And>f. cc_tryDecodeFrame crypto (cc_messageFromFrame crypto f) = Some f"
  shows "openAll crypto (nths (sealAll crypto fs a) I) b = map Some (nths fs I)"
proof -
  let ?ns = "nths [0..<length fs] I"
  have "sealAll crypto fs a = map (\<lambda>n. sealAt crypto a (fs ! n) n) [0..<length fs]"
    by (rule nth_equalityI) (simp_all add: sealAll_nth start)
  then have sealed: "nths (sealAll crypto fs a) I = map (\<lambda>n. sealAt crypto a (fs ! n) n) ?ns" by (simp add: nths_map)
  have "list_all (\<lambda>n. sc_highestReceived b < int n) ?ns" by (simp add: list_all_iff start)
  with sorted_nths_upt have "openAll crypto (nths (sealAll crypto fs a) I) b = map (\<lambda>n. Some (fs ! n)) ?ns"
    unfolding sealed by (rule openAll_sealed [OF m gcm codec])
  also have "\<dots> = map Some (nths (map (\<lambda>n. fs ! n) [0..<length fs]) I)" by (simp add: nths_map comp_def)
  finally show ?thesis by (simp add: map_nth)
qed

text \<open>The identity port's promises: a device's own id is what its key hashes to, and its signatures verify.\<close>

definition honest_identity :: "hello_identity \<Rightarrow> hello_identity \<Rightarrow> bool" where
  "honest_identity self verifier \<longleftrightarrow>
     hi_deriveDeviceId verifier (public_key (hi_identityKey self)) = Some (hi_deviceId self)
     \<and> (\<forall>bs. hi_verify verifier (hi_identityKey self) bs (hi_sign self bs) = Some True)"

text \<open>C15: Two honest devices always reach a working channel. Each one's hello verifies at the other as
  that device, both ends are established, each one's sending key is the other's receiving key, and
  the frames one side seals, delivered in order with any of them lost, open at the other side to
  exactly the frames that were sealed.\<close>

theorem secure_channel_delivers:
  assumes "hi_deviceId idA \<noteq> hi_deviceId idB" and "honest_identity idA idB" and "honest_identity idB idA"
    and "cc_ecdh crypto (fst pairA) (snd pairB) = Some secret" and "cc_ecdh crypto (fst pairB) (snd pairA) = Some secret"
    and "\<And>k iv ad pt. cc_decrypt crypto k iv ad (cc_encrypt crypto k iv ad pt) = Some pt"
    and "\<And>f. cc_tryDecodeFrame crypto (cc_messageFromFrame crypto f) = Some f"
    and "pA = beginHandshake idA pairA nonceA (hi_deviceId idB)"
    and "pB = beginHandshake idB pairB nonceB (hi_deviceId idA)"
  shows "\<exists>peerA peerB a b. verifyHello idB (ph_hello pA) = Ok peerA \<and> peer_deviceId peerA = hi_deviceId idA
    \<and> verifyHello idA (ph_hello pB) = Ok peerB \<and> peer_deviceId peerB = hi_deviceId idB
    \<and> establishChannel crypto idA pA (ph_hello pB) peerB = Some a
    \<and> establishChannel crypto idB pB (ph_hello pA) peerA = Some b
    \<and> sc_sendKey a = sc_receiveKey b \<and> sc_sendKey b = sc_receiveKey a
    \<and> (\<forall>fs I. openAll crypto (nths (sealAll crypto fs a) I) b = map Some (nths fs I))"
proof -
  let ?A = "\<lparr>peer_deviceId = hi_deviceId idA, peer_identityKey = hi_identityKey idA\<rparr>"
  let ?B = "\<lparr>peer_deviceId = hi_deviceId idB, peer_identityKey = hi_identityKey idB\<rparr>"
  have "verifyHello idB (ph_hello pA) = Ok ?A" "verifyHello idA (ph_hello pB) = Ok ?B"
    using assms(2,3) by (simp_all add: verifyHello_def beginHandshake_def honest_identity_def assms(8,9))
  moreover obtain a b where ab: "establishChannel crypto idA pA (ph_hello pB) ?B = Some a"
      "establishChannel crypto idB pB (ph_hello pA) ?A = Some b" "mirrored a b" "mirrored b a"
      "sc_nextSendCounter a = 0" "sc_highestReceived b = -1"
    using establishChannel_mirrored [of idA idB crypto pA pB secret "hi_identityKey idB" "hi_identityKey idA"] assms
    by (auto simp: beginHandshake_def)
  ultimately show ?thesis
    using sealed_delivery [OF ab(3,5,6) assms(6,7)]
    by (intro exI [of _ ?A] exI [of _ ?B] exI [of _ a] exI [of _ b]) (simp add: mirrored_def)
qed

text \<open>A concrete instance: an exchange that adds the two keys, a cipher that prepends what it binds, frames
  that are their own encoding.\<close>

definition sampleCrypto :: "bytes channel_crypto" where
  "sampleCrypto = \<lparr>cc_ecdh = (\<lambda>own other. Some (map2 (+) own other)), cc_hkdf = (\<lambda>secret salt info. secret @ salt @ info),
     cc_encrypt = (\<lambda>k iv ad pt. k @ iv @ ad @ pt),
     cc_decrypt = (\<lambda>k iv ad ct. let p = k @ iv @ ad in if take (length p) ct = p then Some (drop (length p) ct) else None),
     cc_messageFromFrame = id, cc_tryDecodeFrame = Some\<rparr>"

definition sampleHelloIdentity :: "8 word \<Rightarrow> hello_identity" where
  "sampleHelloIdentity n = \<lparr>hi_deviceId = [n], hi_identityKey = \<lparr>alg = -7, public_key = [n]\<rparr>, hi_sign = (\<lambda>bs. n # bs),
     hi_verify = (\<lambda>k bs sig. Some (sig = public_key k @ bs)), hi_deriveDeviceId = Some\<rparr>"

lemma sampleCrypto_laws:
  "cc_decrypt sampleCrypto k iv ad (cc_encrypt sampleCrypto k iv ad pt) = Some pt"
  "cc_tryDecodeFrame sampleCrypto (cc_messageFromFrame sampleCrypto f) = Some f"
  "cc_ecdh sampleCrypto [3] [4] = Some [7]" "cc_ecdh sampleCrypto [4] [3] = Some [7]"
  by (simp_all add: sampleCrypto_def Let_def)

lemma sampleHelloIdentity_laws:
  "honest_identity (sampleHelloIdentity m) (sampleHelloIdentity n)" "hi_deviceId (sampleHelloIdentity n) = [n]"
  by (simp_all add: sampleHelloIdentity_def honest_identity_def)

theorem secure_channel_delivers_witness:
  "\<exists>peer a b. establishChannel sampleCrypto (sampleHelloIdentity 1)
      (beginHandshake (sampleHelloIdentity 1) ([3], [3]) [7] [2])
      (ph_hello (beginHandshake (sampleHelloIdentity 2) ([4], [4]) [8] [1])) peer = Some a
    \<and> openAll sampleCrypto (nths (sealAll sampleCrypto [[5], [6]] a) UNIV) b = [Some [5], Some [6]]"
proof -
  let ?a = "beginHandshake (sampleHelloIdentity 1) ([3], [3]) [7] [2]"
  let ?b = "beginHandshake (sampleHelloIdentity 2) ([4], [4]) [8] [1]"
  have "?a = beginHandshake (sampleHelloIdentity 1) ([3], [3]) [7] (hi_deviceId (sampleHelloIdentity 2))"
    "?b = beginHandshake (sampleHelloIdentity 2) ([4], [4]) [8] (hi_deviceId (sampleHelloIdentity 1))"
    "hi_deviceId (sampleHelloIdentity 1) \<noteq> hi_deviceId (sampleHelloIdentity 2)"
    "cc_ecdh sampleCrypto (fst ([3], [3])) (snd ([4], [4])) = Some [7]" "cc_ecdh sampleCrypto (fst ([4], [4])) (snd ([3], [3])) = Some [7]"
    by (simp_all add: sampleHelloIdentity_laws sampleCrypto_laws)
  note run = secure_channel_delivers [OF this(3) sampleHelloIdentity_laws(1) sampleHelloIdentity_laws(1) this(4,5)
    sampleCrypto_laws(1,2) this(1,2)]
  obtain peer a b where "establishChannel sampleCrypto (sampleHelloIdentity 1) ?a (ph_hello ?b) peer = Some a"
      and delivered: "openAll sampleCrypto (nths (sealAll sampleCrypto fs a) I) b = map Some (nths fs I)" for fs I
    using run by blast
  moreover have "openAll sampleCrypto (nths (sealAll sampleCrypto [[5], [6]] a) UNIV) b = [Some [5], Some [6]]"
    unfolding delivered by (simp add: nths_all)
  ultimately show ?thesis by blast
qed

text \<open>C19: One key never encrypts under the same IV twice. There are IVs, pairwise distinct and twelve bytes
  long, such that whatever the cipher, the ciphertext of the n-th frame sealed on a channel is what the
  cipher makes of that frame under the channel's sending key, the n-th of these IVs and the associated
  data of the counter sent with the frame; and these counters count up by one from the channel's next.
  The bound is the range in which a counter is an exact integer of the source.\<close>

theorem secure_channel_iv_fresh:
  assumes "sc_nextSendCounter ch + length fs \<le> 2 ^ 53"
  shows "\<exists>ivs. length ivs = length fs \<and> distinct ivs \<and> list_all (\<lambda>iv. length iv = 12) ivs
    \<and> (\<forall>crypto. sealAll crypto fs ch =
         map (\<lambda>i. \<lparr>sd_counter = sc_nextSendCounter ch + i,
                   sd_ciphertext = cc_encrypt crypto (sc_sendKey ch) (ivs ! i)
                     (associatedData (sc_local ch) (peer_deviceId (sc_peer ch)) (sc_nextSendCounter ch + i))
                     (cc_messageFromFrame crypto (fs ! i))\<rparr>) [0..<length fs])"
proof -
  let ?ns = "[sc_nextSendCounter ch..<sc_nextSendCounter ch + length fs]"
  have "inj_on ivFor (set ?ns)"
    by (rule inj_onI) (use assms ivFor_inject in auto)
  then have "distinct (map ivFor ?ns)" by (simp only: distinct_map distinct_upt)
  moreover have "length (map ivFor ?ns) = length fs" by simp
  moreover have "list_all (\<lambda>iv. length iv = 12) (map ivFor ?ns)"
    by (simp add: list_all_iff ivFor_def counterBytes_def IV_COUNTER_OFFSET_def COUNTER_BYTE_LENGTH_def)
  moreover have "sealAll crypto fs ch = map (\<lambda>i. \<lparr>sd_counter = sc_nextSendCounter ch + i,
      sd_ciphertext = cc_encrypt crypto (sc_sendKey ch) (map ivFor ?ns ! i)
        (associatedData (sc_local ch) (peer_deviceId (sc_peer ch)) (sc_nextSendCounter ch + i))
        (cc_messageFromFrame crypto (fs ! i))\<rparr>) [0..<length fs]" for crypto
    by (rule nth_equalityI) (simp_all add: sealAll_nth sealAt_def)
  ultimately show ?thesis by blast
qed

theorem secure_channel_iv_fresh_witness:
  "\<exists>iv iv'. iv \<noteq> iv' \<and> map sd_ciphertext (sealAll sampleCrypto [[5], [6]]
     \<lparr>sc_local = [1], sc_peer = \<lparr>peer_deviceId = [2], peer_identityKey = \<lparr>alg = -7, public_key = [2]\<rparr>\<rparr>,
      sc_sendKey = [9], sc_receiveKey = [10], sc_nextSendCounter = 0, sc_highestReceived = -1\<rparr>)
     = [[9] @ iv @ associatedData [1] [2] 0 @ [5], [9] @ iv' @ associatedData [1] [2] 1 @ [6]]"
proof -
  let ?ch = "\<lparr>sc_local = [1], sc_peer = \<lparr>peer_deviceId = [2], peer_identityKey = \<lparr>alg = -7, public_key = [2]\<rparr>\<rparr>,
      sc_sendKey = [9], sc_receiveKey = [10], sc_nextSendCounter = 0, sc_highestReceived = -1\<rparr>"
  obtain ivs where "length ivs = length [[5], [6 :: 8 word]]" "distinct ivs"
    and ciphers: "sealAll sampleCrypto [[5], [6]] ?ch = map (\<lambda>i. \<lparr>sd_counter = sc_nextSendCounter ?ch + i,
      sd_ciphertext = cc_encrypt sampleCrypto (sc_sendKey ?ch) (ivs ! i)
        (associatedData (sc_local ?ch) (peer_deviceId (sc_peer ?ch)) (sc_nextSendCounter ?ch + i))
        (cc_messageFromFrame sampleCrypto ([[5], [6]] ! i))\<rparr>) [0..<length [[5], [6 :: 8 word]]]"
    using secure_channel_iv_fresh [of ?ch "[[5], [6]]"] by auto
  then have "ivs ! 0 \<noteq> ivs ! 1" by (auto simp: nth_eq_iff_index_eq)
  then show ?thesis unfolding ciphers by (intro exI conjI) (simp_all add: sampleCrypto_def)
qed

text \<open>C16: No frame opens twice and none out of order: whatever the relay delivers, replays or forges, the
  counters of the frames that open are strictly increasing and above what was opened before.\<close>

theorem secure_channel_rejects_replay:
  "sorted_wrt (<) (acceptedCounters crypto ds ch)
   \<and> list_all (\<lambda>n. n > sc_highestReceived ch) (acceptedCounters crypto ds ch)"
  by (simp add: acceptedCounters_sorted acceptedCounters_above)

end
