(* ===== verification/Bulk.thy ===== *)
theory Bulk
  imports TokenPredicates JsText DeviceIds
begin

text \<open>
  \<open>ts/packages/core/src/domain/bulk.ts\<close>: resumable bulk transfer. The receiver is a state over its
  key-value store and its registrations; each handler returns what it sends or reports and the new
  state. The sender is a set of asynchronous \<open>stream\<close> calls sharing one queue of waiting
  acknowledgements: a task is one such call, its phase says what it awaits, and \<open>taskStep\<close> runs it
  from there to its next \<open>await\<close>, so that acknowledgements, cancellations and lost connections may
  arrive between any two awaits. SHA-256, the chunk source and the request schemas are parameters.
\<close>

subsection \<open>Commands\<close>

definition BULK_WRITE_CAPABILITY :: string where "BULK_WRITE_CAPABILITY = ''bulk:write''"
definition BULK_READ_CAPABILITY :: string where "BULK_READ_CAPABILITY = ''bulk:read''"

record manage_command =
  mc_verb :: string
  mc_params :: "(string \<times> json_value) list"

definition buildBulkOpenCommand :: "bytes \<Rightarrow> nat option \<Rightarrow> string option \<Rightarrow> manage_command" where
  "buildBulkOpenCommand transferId totalSize contentType =
     \<lparr>mc_verb = BULK_WRITE_CAPABILITY,
      mc_params = [(''verb'', JString ''bulk.open''), (''transfer-id'', JBytes transferId)]
        @ (case totalSize of Some n \<Rightarrow> [(''total-size'', JNumber (int n))] | None \<Rightarrow> [])
        @ (case contentType of Some t \<Rightarrow> [(''content-type'', JString t)] | None \<Rightarrow> [])\<rparr>"

definition buildBulkResumeCommand :: "bytes \<Rightarrow> nat \<Rightarrow> manage_command" where
  "buildBulkResumeCommand transferId ackSeq =
     \<lparr>mc_verb = BULK_READ_CAPABILITY,
      mc_params = [(''verb'', JString ''bulk.resume''), (''transfer-id'', JBytes transferId), (''ack-seq'', JNumber (int ackSeq))]\<rparr>"

definition buildBulkCancelCommand :: "bytes \<Rightarrow> string \<Rightarrow> string option \<Rightarrow> manage_command" where
  "buildBulkCancelCommand transferId authority reason =
     \<lparr>mc_verb = authority,
      mc_params = [(''verb'', JString ''bulk.cancel''), (''transfer-id'', JBytes transferId)]
        @ (case reason of Some t \<Rightarrow> [(''reason'', JString t)] | None \<Rightarrow> [])\<rparr>"

subsection \<open>Frames and effects\<close>

datatype bulk_frame =
    BulkData bytes nat bytes
  | BulkAck bytes nat nat
  | BulkEnd bytes bytes
  | OtherFrame

record bulk_offer =
  of_transferId :: bytes
  of_totalSize :: "nat option"
  of_contentType :: "string option"
  of_openerDevice :: device_id

datatype 'c bulk_effect =
    Sends 'c bulk_frame
  | RespondsOk
  | RespondsError string "string option"
  | Offers "'c" bulk_offer
  | Requests manage_command
  | Completes nat bool nat

definition transferIdHex :: "bytes \<Rightarrow> string" where
  "transferIdHex transferId = bytesToHex transferId"

subsection \<open>The sender\<close>

datatype send_status = Complete | Incomplete | Rejected

record bulk_send_outcome =
  so_status :: send_status
  so_ackedCount :: nat
  so_code :: "string option"

text \<open>What a \<open>stream\<close> call awaits. \<open>Threw\<close> is a call whose promise was rejected.\<close>

datatype task_phase =
    AwaitingOpen
  | AwaitingFirstAck
  | GotFirstAck nat nat
  | Pulling
  | AwaitingCredit bytes
  | GotCredit bytes nat nat
  | Sending bytes
  | Digesting
  | SendingEnd
  | Finished bulk_send_outcome
  | Threw

record 'c sender_task =
  st_connection :: 'c
  st_transferId :: bytes
  st_phase :: task_phase
  st_seq :: nat
  st_ackedCount :: nat
  st_window :: int
  st_bytesInFlight :: int
  st_inFlight :: "(nat \<times> nat) list"
  st_rest :: "bytes list"

definition exceedsWindow :: "nat \<Rightarrow> 'c sender_task \<Rightarrow> bool" where
  "exceedsWindow len t \<longleftrightarrow> st_bytesInFlight t + int len > st_window t"

fun retire :: "nat \<Rightarrow> (nat \<times> nat) list \<Rightarrow> int \<Rightarrow> (nat \<times> nat) list \<times> int" where
  "retire acked [] inflight = ([], inflight)"
| "retire acked ((s, len) # rest) inflight =
     (if s < acked then retire acked rest (inflight - int len) else ((s, len) # rest, inflight))"

definition applyAck :: "nat \<Rightarrow> nat \<Rightarrow> 'c sender_task \<Rightarrow> 'c sender_task" where
  "applyAck ackSeq window t =
     (case retire ackSeq (st_inFlight t) (st_bytesInFlight t) of (queue, inflight) \<Rightarrow>
        t\<lparr>st_ackedCount := ackSeq, st_window := int window, st_inFlight := queue, st_bytesInFlight := inflight\<rparr>)"

definition dataFrame :: "'c sender_task \<Rightarrow> bytes \<Rightarrow> bulk_frame" where
  "dataFrame t chunk = BulkData (st_transferId t) (st_seq t) chunk"

definition sendOrWait :: "bytes \<Rightarrow> 'c sender_task \<Rightarrow> 'c bulk_effect list \<times> 'c sender_task" where
  "sendOrWait chunk t =
     (if exceedsWindow (length chunk) t then ([], t\<lparr>st_phase := AwaitingCredit chunk\<rparr>)
      else ([Sends (st_connection t) (dataFrame t chunk)], t\<lparr>st_phase := Sending chunk\<rparr>))"

definition finish :: "send_status \<Rightarrow> nat \<Rightarrow> string option \<Rightarrow> task_phase" where
  "finish status count code = Finished \<lparr>so_status = status, so_ackedCount = count, so_code = code\<rparr>"

text \<open>How what a task awaits settles: it succeeds, it throws, or (for \<open>bulk.open\<close>) it is answered with an error code.\<close>

datatype task_input = Turn | Throws | OpenRefused string

definition taskStep ::
    "(nat \<Rightarrow> bytes list) \<Rightarrow> (bytes \<Rightarrow> bytes) \<Rightarrow> string list \<Rightarrow> task_input \<Rightarrow> 'c sender_task \<Rightarrow> 'c bulk_effect list \<times> 'c sender_task" where
  "taskStep source digestOf cancelled input t =
     (case st_phase t of
        AwaitingOpen \<Rightarrow>
          (case input of
             Turn \<Rightarrow> ([], t\<lparr>st_phase := AwaitingFirstAck\<rparr>)
           | OpenRefused code \<Rightarrow> ([], t\<lparr>st_phase := finish Rejected 0 (Some code)\<rparr>)
           | Throws \<Rightarrow> ([], t\<lparr>st_phase := Threw\<rparr>))
      | GotFirstAck ackSeq window \<Rightarrow>
          ([], t\<lparr>st_seq := ackSeq, st_ackedCount := ackSeq, st_window := int window, st_bytesInFlight := 0,
                 st_inFlight := [], st_rest := source ackSeq, st_phase := Pulling\<rparr>)
      | Pulling \<Rightarrow>
          (if input \<noteq> Turn then ([], t\<lparr>st_phase := finish Incomplete (st_ackedCount t) None\<rparr>)
           else (case st_rest t of
                   [] \<Rightarrow> ([], t\<lparr>st_phase := Digesting\<rparr>)
                 | chunk # rest \<Rightarrow>
                     if transferIdHex (st_transferId t) \<in> set cancelled
                     then ([], t\<lparr>st_phase := finish Incomplete (st_ackedCount t) None\<rparr>)
                     else sendOrWait chunk (t\<lparr>st_rest := rest\<rparr>)))
      | GotCredit chunk ackSeq window \<Rightarrow> sendOrWait chunk (applyAck ackSeq window t)
      | Sending chunk \<Rightarrow>
          (if input \<noteq> Turn then ([], t\<lparr>st_phase := finish Incomplete (st_ackedCount t) None\<rparr>)
           else ([], t\<lparr>st_inFlight := st_inFlight t @ [(st_seq t, length chunk)],
                       st_bytesInFlight := st_bytesInFlight t + int (length chunk),
                       st_seq := st_seq t + 1, st_phase := Pulling\<rparr>))
      | Digesting \<Rightarrow>
          (if input \<noteq> Turn then ([], t\<lparr>st_phase := Threw\<rparr>)
           else ([Sends (st_connection t) (BulkEnd (st_transferId t) (digestOf (concat (source 0))))], t\<lparr>st_phase := SendingEnd\<rparr>))
      | SendingEnd \<Rightarrow>
          (if input \<noteq> Turn then ([], t\<lparr>st_phase := Threw\<rparr>)
           else ([], t\<lparr>st_phase := finish Complete (st_seq t) None\<rparr>))
      | _ \<Rightarrow> ([], t))"

record 'c bulk_sender =
  bs_pendingAcks :: "(string, nat list) jmap"
  bs_cancelled :: "string list"
  bs_activeTransferId :: "string option"
  bs_activeConnection :: "'c option"
  bs_tasks :: "'c sender_task list"

definition createBulkSender :: "'c bulk_sender" where
  "createBulkSender = \<lparr>bs_pendingAcks = [], bs_cancelled = [], bs_activeTransferId = None, bs_activeConnection = None, bs_tasks = []\<rparr>"

definition resolveWaiter :: "nat \<Rightarrow> nat \<Rightarrow> 'c sender_task \<Rightarrow> 'c sender_task" where
  "resolveWaiter ackSeq window t =
     (case st_phase t of
        AwaitingFirstAck \<Rightarrow> t\<lparr>st_phase := GotFirstAck ackSeq window\<rparr>
      | AwaitingCredit chunk \<Rightarrow> t\<lparr>st_phase := GotCredit chunk ackSeq window\<rparr>
      | _ \<Rightarrow> t)"

text \<open>A rejected wait inside \<open>stream\<close> is caught there; the first wait, in \<open>resumeStream\<close>, is not.\<close>

definition rejectWaiter :: "'c sender_task \<Rightarrow> 'c sender_task" where
  "rejectWaiter t =
     (case st_phase t of
        AwaitingFirstAck \<Rightarrow> t\<lparr>st_phase := Threw\<rparr>
      | AwaitingCredit chunk \<Rightarrow> t\<lparr>st_phase := finish Incomplete (st_ackedCount t) None\<rparr>
      | _ \<Rightarrow> t)"

definition updTask :: "nat \<Rightarrow> ('c sender_task \<Rightarrow> 'c sender_task) \<Rightarrow> 'c sender_task list \<Rightarrow> 'c sender_task list" where
  "updTask k f ts = (if k < length ts then ts[k := f (ts ! k)] else ts)"

definition resolveNextAck :: "string \<Rightarrow> nat \<Rightarrow> nat \<Rightarrow> 'c bulk_sender \<Rightarrow> 'c bulk_sender" where
  "resolveNextAck i ackSeq window s =
     (case jget (bs_pendingAcks s) i of
        None \<Rightarrow> s
      | Some [] \<Rightarrow> s
      | Some (k # queue) \<Rightarrow>
          s\<lparr>bs_pendingAcks := jset (bs_pendingAcks s) i queue, bs_tasks := updTask k (resolveWaiter ackSeq window) (bs_tasks s)\<rparr>)"

definition rejectAllAcks :: "string \<Rightarrow> 'c bulk_sender \<Rightarrow> 'c bulk_sender" where
  "rejectAllAcks i s =
     (case jget (bs_pendingAcks s) i of
        None \<Rightarrow> s
      | Some queue \<Rightarrow>
          s\<lparr>bs_pendingAcks := jset (bs_pendingAcks s) i [],
            bs_tasks := fold (\<lambda>k. updTask k rejectWaiter) queue (bs_tasks s)\<rparr>)"

text \<open>\<open>waitForAck\<close> appends the waiter to its transfer's queue.\<close>

definition waitForAck :: "nat \<Rightarrow> 'c bulk_sender \<Rightarrow> 'c bulk_sender" where
  "waitForAck k s =
     (let i = transferIdHex (st_transferId (bs_tasks s ! k))
      in s\<lparr>bs_pendingAcks := jset (bs_pendingAcks s) i (case jget (bs_pendingAcks s) i of None \<Rightarrow> [k] | Some q \<Rightarrow> q @ [k])\<rparr>)"

definition awaitsAck :: "'c sender_task \<Rightarrow> bool" where
  "awaitsAck t \<longleftrightarrow> (case st_phase t of AwaitingFirstAck \<Rightarrow> True | AwaitingCredit _ \<Rightarrow> True | _ \<Rightarrow> False)"

definition newTask :: "'c \<Rightarrow> bytes \<Rightarrow> task_phase \<Rightarrow> 'c sender_task" where
  "newTask connection transferId phase =
     \<lparr>st_connection = connection, st_transferId = transferId, st_phase = phase, st_seq = 0, st_ackedCount = 0,
      st_window = 0, st_bytesInFlight = 0, st_inFlight = [], st_rest = []\<rparr>"

definition startTask :: "'c sender_task \<Rightarrow> 'c bulk_sender \<Rightarrow> 'c bulk_sender" where
  "startTask t s =
     (let s' = s\<lparr>bs_tasks := bs_tasks s @ [t]\<rparr>
      in if awaitsAck t then waitForAck (length (bs_tasks s)) s' else s')"

text \<open>What happens to a sender: the calls of its interface and the turns of its running tasks.\<close>

datatype 'c sender_event =
    OpenCall 'c bytes "nat option" "string option"
  | ContinueFrom 'c bytes
  | ResumeRequest 'c "bytes option"
  | CancelRequest "bytes option"
  | FrameArrives bulk_frame
  | ConnectionEnds 'c
  | TaskRuns nat task_input

definition senderStep ::
    "(nat \<Rightarrow> bytes list) \<Rightarrow> (bytes \<Rightarrow> bytes) \<Rightarrow> 'c sender_event \<Rightarrow> 'c bulk_sender \<Rightarrow> 'c bulk_effect list \<times> 'c bulk_sender" where
  "senderStep source digestOf event s =
     (case event of
        OpenCall c i totalSize contentType \<Rightarrow>
          ([Requests (buildBulkOpenCommand i totalSize contentType)],
           startTask (newTask c i AwaitingOpen) (s\<lparr>bs_activeTransferId := Some (transferIdHex i), bs_activeConnection := Some c\<rparr>))
      | ContinueFrom c i \<Rightarrow>
          ([], startTask (newTask c i AwaitingFirstAck) (s\<lparr>bs_activeTransferId := Some (transferIdHex i), bs_activeConnection := Some c\<rparr>))
      | ResumeRequest c parsed \<Rightarrow>
          (case parsed of
             None \<Rightarrow> ([RespondsError ''malformed'' None], s)
           | Some i \<Rightarrow>
               if Some (transferIdHex i) \<noteq> bs_activeTransferId s then ([RespondsError ''unknown_transfer'' None], s)
               else ([RespondsOk], startTask (newTask c i AwaitingFirstAck) (s\<lparr>bs_activeConnection := Some c\<rparr>)))
      | CancelRequest parsed \<Rightarrow>
          (case parsed of
             None \<Rightarrow> ([RespondsError ''malformed'' None], s)
           | Some i \<Rightarrow> ([RespondsOk], s\<lparr>bs_cancelled := sadd (bs_cancelled s) (transferIdHex i)\<rparr>))
      | FrameArrives frame \<Rightarrow>
          (case frame of BulkAck i ackSeq window \<Rightarrow> ([], resolveNextAck (transferIdHex i) ackSeq window s) | _ \<Rightarrow> ([], s))
      | ConnectionEnds c \<Rightarrow>
          (case bs_activeTransferId s of
             None \<Rightarrow> ([], s)
           | Some i \<Rightarrow> if bs_activeConnection s \<noteq> Some c then ([], s) else ([], rejectAllAcks i s))
      | TaskRuns k input \<Rightarrow>
          if length (bs_tasks s) \<le> k \<or> awaitsAck (bs_tasks s ! k) then ([], s)
          else (case taskStep source digestOf (bs_cancelled s) input (bs_tasks s ! k) of
                  (effects, t) \<Rightarrow>
                    let s' = s\<lparr>bs_tasks := (bs_tasks s)[k := t]\<rparr>
                    in (effects, if awaitsAck t then waitForAck k s' else s')))"

primrec senderRun ::
    "(nat \<Rightarrow> bytes list) \<Rightarrow> (bytes \<Rightarrow> bytes) \<Rightarrow> 'c sender_event list \<Rightarrow> 'c bulk_sender \<Rightarrow> 'c bulk_effect list \<times> 'c bulk_sender" where
  "senderRun source digestOf [] s = ([], s)"
| "senderRun source digestOf (e # es) s =
     (case senderStep source digestOf e s of (fx, s') \<Rightarrow>
        case senderRun source digestOf es s' of (gx, s'') \<Rightarrow> (fx @ gx, s''))"

subsection \<open>The receiver\<close>

definition openerKey :: "string \<Rightarrow> string" where "openerKey i = ''bulk/'' @ i @ ''/opener''"
definition ackSeqKey :: "string \<Rightarrow> string" where "ackSeqKey i = ''bulk/'' @ i @ ''/ack-seq''"
definition windowKey :: "string \<Rightarrow> string" where "windowKey i = ''bulk/'' @ i @ ''/window''"
definition chunkKey :: "string \<Rightarrow> nat \<Rightarrow> string" where "chunkKey i seq = ''bulk/'' @ i @ ''/chunk/'' @ natToString seq"

definition encodeUint :: "nat \<Rightarrow> bytes" where "encodeUint n = textEncode (natToString n)"
definition decodeUint :: "bytes \<Rightarrow> nat" where "decodeUint bs = stringToNat (textDecode bs)"

text \<open>The completion callback of a registration is named by a number.\<close>

record 'c bulk_registration =
  breg_openerDevice :: device_id
  breg_connection :: 'c
  breg_onComplete :: "nat option"

record 'c bulk_receiver =
  br_storage :: "(string, bytes) jmap"
  br_registrations :: "(string, 'c bulk_registration) jmap"

definition readUint :: "(string, bytes) jmap \<Rightarrow> string \<Rightarrow> nat" where
  "readUint storage key = (case jget storage key of None \<Rightarrow> 0 | Some bs \<Rightarrow> decodeUint bs)"

definition readAckSeq :: "'c bulk_receiver \<Rightarrow> string \<Rightarrow> nat" where
  "readAckSeq r i = readUint (br_storage r) (ackSeqKey i)"

definition storedChunks :: "(string, bytes) jmap \<Rightarrow> string \<Rightarrow> nat \<Rightarrow> bytes list" where
  "storedChunks storage i count = List.map_filter (\<lambda>seq. jget storage (chunkKey i seq)) [0..<count]"

definition onBulkData :: "'c \<Rightarrow> bytes \<Rightarrow> nat \<Rightarrow> bytes \<Rightarrow> 'c bulk_receiver \<Rightarrow> 'c bulk_effect list \<times> 'c bulk_receiver" where
  "onBulkData c transferId seq chunk r =
     (let i = transferIdHex transferId; ackedCount = readAckSeq r i
      in if seq \<noteq> ackedCount then ([], r)
         else let stored = jset (br_storage r) (chunkKey i seq) chunk;
                  newAckedCount = ackedCount + 1;
                  storage = jset stored (ackSeqKey i) (encodeUint newAckedCount)
              in ([Sends c (BulkAck transferId newAckedCount (readUint storage (windowKey i)))], r\<lparr>br_storage := storage\<rparr>))"

definition onBulkEnd :: "(bytes \<Rightarrow> bytes) \<Rightarrow> 'c bulk_registration \<Rightarrow> bytes \<Rightarrow> bytes \<Rightarrow> 'c bulk_receiver \<Rightarrow> 'c bulk_effect list" where
  "onBulkEnd digestOf reg transferId digest r =
     (let i = transferIdHex transferId; ackedCount = readAckSeq r i;
          chunks = storedChunks (br_storage r) i ackedCount
      in case breg_onComplete reg of
           None \<Rightarrow> []
         | Some k \<Rightarrow> [Completes k (digestOf (concat chunks) = digest) ackedCount])"

definition receiverOnFrame :: "(bytes \<Rightarrow> bytes) \<Rightarrow> 'c \<Rightarrow> bulk_frame \<Rightarrow> 'c bulk_receiver \<Rightarrow> 'c bulk_effect list \<times> 'c bulk_receiver" where
  "receiverOnFrame digestOf c frame r =
     (case frame of
        BulkData i seq chunk \<Rightarrow>
          (case jget (br_registrations r) (transferIdHex i) of
             None \<Rightarrow> ([], r)
           | Some reg \<Rightarrow> if breg_connection reg \<noteq> c then ([], r) else onBulkData c i seq chunk r)
      | BulkEnd i digest \<Rightarrow>
          (case jget (br_registrations r) (transferIdHex i) of
             None \<Rightarrow> ([], r)
           | Some reg \<Rightarrow> if breg_connection reg \<noteq> c then ([], r) else (onBulkEnd digestOf reg i digest r, r))
      | _ \<Rightarrow> ([], r))"

definition handleBulkOpen ::
    "device_id \<Rightarrow> 'c \<Rightarrow> (bytes \<times> nat option \<times> string option) option \<Rightarrow> 'c bulk_receiver \<Rightarrow> 'c bulk_effect list" where
  "handleBulkOpen openerDevice c parsed r =
     (case parsed of
        None \<Rightarrow> [RespondsError ''malformed'' None]
      | Some (transferId, totalSize, contentType) \<Rightarrow>
          if jget (br_storage r) (openerKey (transferIdHex transferId)) \<noteq> None
          then [RespondsError ''already_exists'' None]
          else [Offers c \<lparr>of_transferId = transferId, of_totalSize = totalSize, of_contentType = contentType,
                          of_openerDevice = openerDevice\<rparr>])"

datatype offer_decision = Accept nat "nat option" | Reject "string option"

definition decide :: "'c \<Rightarrow> bulk_offer \<Rightarrow> offer_decision \<Rightarrow> 'c bulk_receiver \<Rightarrow> 'c bulk_effect list \<times> 'c bulk_receiver" where
  "decide c offer decision r =
     (case decision of
        Reject reason \<Rightarrow> ([RespondsError ''denied'' reason], r)
      | Accept window onComplete \<Rightarrow>
          let i = transferIdHex (of_transferId offer);
              s1 = jset (br_storage r) (openerKey i) (of_openerDevice offer);
              s2 = jset s1 (ackSeqKey i) (encodeUint 0);
              s3 = jset s2 (windowKey i) (encodeUint window)
          in ([RespondsOk, Sends c (BulkAck (of_transferId offer) 0 window)],
              r\<lparr>br_storage := s3,
                br_registrations := jset (br_registrations r) i
                  \<lparr>breg_openerDevice = of_openerDevice offer, breg_connection = c, breg_onComplete = onComplete\<rparr>\<rparr>))"

text \<open>\<open>requestResume\<close> up to the request it awaits, and after its answer.\<close>

record 'c pending_resume =
  pr_transferId :: bytes
  pr_existing :: "'c bulk_registration option"
  pr_openerDevice :: device_id
  pr_ackedCount :: nat

definition beginResume :: "bytes \<Rightarrow> 'c bulk_receiver \<Rightarrow> string + manage_command \<times> 'c pending_resume" where
  "beginResume transferId r =
     (let i = transferIdHex transferId;
          existing = jget (br_registrations r) i;
          opener = (case existing of Some reg \<Rightarrow> Some (breg_openerDevice reg) | None \<Rightarrow> jget (br_storage r) (openerKey i))
      in case opener of
           None \<Rightarrow> Err ''unknown_transfer''
         | Some openerDevice \<Rightarrow>
             Ok (buildBulkResumeCommand transferId (readAckSeq r i),
                 \<lparr>pr_transferId = transferId, pr_existing = existing, pr_openerDevice = openerDevice, pr_ackedCount = readAckSeq r i\<rparr>))"

definition finishResume :: "'c \<Rightarrow> 'c pending_resume \<Rightarrow> string option \<Rightarrow> 'c bulk_receiver \<Rightarrow> (string option \<times> 'c bulk_effect list) \<times> 'c bulk_receiver" where
  "finishResume c pending refusal r =
     (case refusal of
        Some code \<Rightarrow> ((Some code, []), r)
      | None \<Rightarrow>
          let i = transferIdHex (pr_transferId pending)
          in ((None, [Sends c (BulkAck (pr_transferId pending) (pr_ackedCount pending) (readUint (br_storage r) (windowKey i)))]),
              r\<lparr>br_registrations := jset (br_registrations r) i
                  \<lparr>breg_openerDevice = pr_openerDevice pending, breg_connection = c,
                   breg_onComplete = (case pr_existing pending of Some reg \<Rightarrow> breg_onComplete reg | None \<Rightarrow> None)\<rparr>\<rparr>))"

definition receiverCancel :: "bytes option \<Rightarrow> 'c bulk_receiver \<Rightarrow> 'c bulk_effect list \<times> 'c bulk_receiver" where
  "receiverCancel parsed r =
     (case parsed of
        None \<Rightarrow> ([RespondsError ''malformed'' None], r)
      | Some i \<Rightarrow> ([RespondsOk], r\<lparr>br_registrations := jdel (br_registrations r) (transferIdHex i)\<rparr>))"

text \<open>Reading a stored transfer back: the chunks yielded up to the acknowledged count, and the error thrown at a missing one.\<close>

primrec readBack :: "(string, bytes) jmap \<Rightarrow> string \<Rightarrow> nat \<Rightarrow> nat list \<Rightarrow> bytes list \<times> string option" where
  "readBack storage i ackedCount [] = ([], None)"
| "readBack storage i ackedCount (seq # rest) =
     (case jget storage (chunkKey i seq) of
        None \<Rightarrow> ([], Some (''stored transfer '' @ i @ '' is missing chunk '' @ natToString seq
                           @ '' though ack-seq claims '' @ natToString ackedCount @ '' durable''))
      | Some chunk \<Rightarrow> (case readBack storage i ackedCount rest of (chunks, e) \<Rightarrow> (chunk # chunks, e)))"

definition storedTransferSource :: "(string, bytes) jmap \<Rightarrow> bytes \<Rightarrow> nat \<Rightarrow> bytes list \<times> string option" where
  "storedTransferSource storage transferId fromSeq =
     (let i = transferIdHex transferId; ackedCount = readUint storage (ackSeqKey i)
      in readBack storage i ackedCount [fromSeq..<ackedCount])"

datatype 'c receiver_event =
    RFrame 'c bulk_frame
  | RDecide 'c bulk_offer offer_decision
  | RResumed 'c "'c pending_resume" "string option"
  | RCancel "bytes option"

definition receiverStep :: "(bytes \<Rightarrow> bytes) \<Rightarrow> 'c receiver_event \<Rightarrow> 'c bulk_receiver \<Rightarrow> 'c bulk_effect list \<times> 'c bulk_receiver" where
  "receiverStep digestOf event r =
     (case event of
        RFrame c frame \<Rightarrow> receiverOnFrame digestOf c frame r
      | RDecide c offer decision \<Rightarrow> decide c offer decision r
      | RResumed c pending refusal \<Rightarrow> (case finishResume c pending refusal r of ((_, fx), r') \<Rightarrow> (fx, r'))
      | RCancel parsed \<Rightarrow> receiverCancel parsed r)"

primrec receiverRun :: "(bytes \<Rightarrow> bytes) \<Rightarrow> 'c receiver_event list \<Rightarrow> 'c bulk_receiver \<Rightarrow> 'c bulk_effect list \<times> 'c bulk_receiver" where
  "receiverRun digestOf [] r = ([], r)"
| "receiverRun digestOf (e # es) r =
     (case receiverStep digestOf e r of (fx, r') \<Rightarrow>
        case receiverRun digestOf es r' of (gx, r'') \<Rightarrow> (fx @ gx, r''))"

end
