(* ===== verification/BulkProperties.thy ===== *)
theory BulkProperties
  imports Bulk
begin

text \<open>
  What the bulk transfer promises: the storage keys of transfers never collide, the receiver's store is
  always a prefix of the content that was sent, whatever is lost, repeated, cancelled or resumed, the
  sender never has more bytes outstanding than the receiver allowed, and three interleavings in which
  the source does something it does not mean to.
\<close>

subsection \<open>Storage keys\<close>

lemma transferIdHex_eq: "transferIdHex i = transferIdHex j \<longleftrightarrow> i = j"
  by (simp add: transferIdHex_def)

lemma id_key_eq:
  "''bulk/'' @ transferIdHex i @ CHR ''/'' # as = ''bulk/'' @ transferIdHex j @ CHR ''/'' # bs \<longleftrightarrow> i = j \<and> as = bs"
  unfolding transferIdHex_def by (simp add: prefix_to_slash_unique hex_no_slash)

lemma bulk_keys [simp]:
  "chunkKey (transferIdHex i) m = chunkKey (transferIdHex j) n \<longleftrightarrow> i = j \<and> m = n"
  "ackSeqKey (transferIdHex i) = ackSeqKey (transferIdHex j) \<longleftrightarrow> i = j"
  "chunkKey (transferIdHex i) m \<noteq> ackSeqKey (transferIdHex j)" "ackSeqKey (transferIdHex j) \<noteq> chunkKey (transferIdHex i) m"
  "chunkKey (transferIdHex i) m \<noteq> windowKey (transferIdHex j)" "chunkKey (transferIdHex i) m \<noteq> openerKey (transferIdHex j)"
  "ackSeqKey (transferIdHex i) \<noteq> windowKey (transferIdHex j)" "ackSeqKey (transferIdHex i) \<noteq> openerKey (transferIdHex j)"
  "windowKey (transferIdHex j) \<noteq> ackSeqKey (transferIdHex i)" "openerKey (transferIdHex j) \<noteq> ackSeqKey (transferIdHex i)"
  "windowKey (transferIdHex j) \<noteq> chunkKey (transferIdHex i) m" "openerKey (transferIdHex j) \<noteq> chunkKey (transferIdHex i) m"
  "windowKey (transferIdHex i) \<noteq> openerKey (transferIdHex j)" "openerKey (transferIdHex i) \<noteq> windowKey (transferIdHex j)"
  using id_key_eq [of i _ j] id_key_eq [of j _ i] transferIdHex_eq [of i j] by (simp_all add: chunkKey_def ackSeqKey_def windowKey_def openerKey_def)

lemma decode_encodeUint [simp]: "decodeUint (encodeUint n) = n"
  by (simp add: decodeUint_def encodeUint_def)

subsection \<open>The receiver's store\<close>

definition holdsPrefix :: "bytes list \<Rightarrow> bytes \<Rightarrow> (string, bytes) jmap \<Rightarrow> bool" where
  "holdsPrefix content i storage \<longleftrightarrow>
     (let n = readUint storage (ackSeqKey (transferIdHex i))
      in n \<le> length content \<and> (\<forall>k<n. jget storage (chunkKey (transferIdHex i) k) = Some (content ! k)))"

lemma holdsPrefix_stored:
  assumes "holdsPrefix content i storage" and "n = readUint storage (ackSeqKey (transferIdHex i))"
  shows "storedChunks storage (transferIdHex i) n = take n content"
    and "storedTransferSource storage i from = (drop from (take n content), None)"
proof -
  have have_chunk: "jget storage (chunkKey (transferIdHex i) k) = Some (content ! k)" if "k < n" for k
    using assms that by (simp add: holdsPrefix_def Let_def)
  have n: "n \<le> length content" using assms by (simp add: holdsPrefix_def Let_def)
  have prefix: "map (\<lambda>k. content ! k) [m..<n] = drop m (take n content)" for m
    using n by (intro nth_equalityI) auto
  have "storedChunks storage (transferIdHex i) n = map (\<lambda>k. content ! k) [0..<n]"
    unfolding storedChunks_def List.map_filter_def
    by (simp add: have_chunk cong: map_cong filter_cong)
  with prefix [of 0] show "storedChunks storage (transferIdHex i) n = take n content" by simp
  have "list_all (\<lambda>k. jget storage (chunkKey (transferIdHex i) k) = Some (content ! k)) ks \<Longrightarrow>
      readBack storage (transferIdHex i) n ks = (map (\<lambda>k. content ! k) ks, None)" for ks
    by (induction ks) simp_all
  from this [of "[from..<n]"] prefix [of "from"] show "storedTransferSource storage i from = (drop from (take n content), None)"
    by (simp add: storedTransferSource_def Let_def assms(2) [symmetric] list_all_iff have_chunk)
qed

text \<open>A data frame of the transfer carries the content's chunk at its position.\<close>

definition frameOf :: "bytes list \<Rightarrow> bytes \<Rightarrow> bulk_frame \<Rightarrow> bool" where
  "frameOf content i frame =
     (case frame of BulkData j seq chunk \<Rightarrow> j = i \<longrightarrow> seq < length content \<and> chunk = content ! seq | _ \<Rightarrow> True)"

definition eventOf :: "bytes list \<Rightarrow> bytes \<Rightarrow> 'c receiver_event \<Rightarrow> bool" where
  "eventOf content i event = (case event of RFrame c frame \<Rightarrow> frameOf content i frame | _ \<Rightarrow> True)"

lemma readUint_jset: "readUint (jset storage k v) k' = (if k' = k then decodeUint v else readUint storage k')"
  by (simp add: readUint_def)

lemma holdsPrefix_data:
  assumes "holdsPrefix content i (br_storage r)" and "frameOf content i (BulkData j seq chunk)"
  shows "holdsPrefix content i (br_storage (snd (onBulkData c j seq chunk r)))"
proof (cases "seq = readAckSeq r (transferIdHex j)")
  case True
  then have s: "br_storage (snd (onBulkData c j seq chunk r)) =
      jset (jset (br_storage r) (chunkKey (transferIdHex j) seq) chunk) (ackSeqKey (transferIdHex j)) (encodeUint (seq + 1))"
    by (simp add: onBulkData_def Let_def)
  show ?thesis
    using assms True unfolding s holdsPrefix_def
    by (cases "j = i") (auto simp: readUint_jset frameOf_def readAckSeq_def Let_def less_Suc_eq)
qed (use assms in \<open>simp add: onBulkData_def Let_def\<close>)

lemma holdsPrefix_decide:
  "holdsPrefix content i (br_storage r) \<Longrightarrow> holdsPrefix content i (br_storage (snd (decide c offer decision r)))"
  by (cases decision) (auto simp: decide_def holdsPrefix_def Let_def readUint_jset)

lemma holdsPrefix_step:
  assumes "holdsPrefix content i (br_storage r)" and "eventOf content i e"
  shows "holdsPrefix content i (br_storage (snd (receiverStep digestOf e r)))"
proof (cases e)
  case (RFrame c frame)
  then show ?thesis
    using assms holdsPrefix_data [of content i r]
    by (cases frame) (auto simp: receiverStep_def receiverOnFrame_def eventOf_def split: option.split)
next
  case (RResumed c p refusal)
  then show ?thesis using assms by (cases refusal) (simp_all add: receiverStep_def finishResume_def Let_def)
next
  case (RCancel parsed)
  then show ?thesis using assms by (cases parsed) (simp_all add: receiverStep_def receiverCancel_def)
qed (use assms holdsPrefix_decide in \<open>simp add: receiverStep_def\<close>)

lemma holdsPrefix_run:
  "holdsPrefix content i (br_storage r) \<Longrightarrow> list_all (eventOf content i) es \<Longrightarrow>
     holdsPrefix content i (br_storage (snd (receiverRun digestOf es r)))"
proof (induction es arbitrary: r)
  case (Cons e es)
  then show ?case using holdsPrefix_step [of content i r e digestOf] by (simp add: case_prod_beta)
qed simp

lemma holdsPrefix_init: "jget storage (ackSeqKey (transferIdHex i)) = None \<Longrightarrow> holdsPrefix content i storage"
  by (simp add: holdsPrefix_def readUint_def)

subsection \<open>The sender's tasks\<close>

text \<open>Where a task is in the content, and what it has outstanding.\<close>

definition taskReads :: "bytes list \<Rightarrow> 'c sender_task \<Rightarrow> bool" where
  "taskReads content t =
     (case st_phase t of
        Pulling \<Rightarrow> st_rest t = drop (st_seq t) content
      | AwaitingCredit chunk \<Rightarrow> chunk # st_rest t = drop (st_seq t) content
      | GotCredit chunk _ _ \<Rightarrow> chunk # st_rest t = drop (st_seq t) content
      | Sending chunk \<Rightarrow> chunk # st_rest t = drop (st_seq t) content
      | _ \<Rightarrow> True)"

definition taskInFlight :: "'c sender_task \<Rightarrow> bool" where
  "taskInFlight t \<longleftrightarrow>
     st_bytesInFlight t = (\<Sum>(s, len) \<leftarrow> st_inFlight t. int len)
     \<and> map fst (st_inFlight t) = [st_seq t - length (st_inFlight t)..<st_seq t]
     \<and> length (st_inFlight t) \<le> st_seq t
     \<and> (case st_phase t of Sending chunk \<Rightarrow> st_bytesInFlight t + int (length chunk) \<le> st_window t | _ \<Rightarrow> True)"

lemma retire_keeps:
  assumes "retire acked q b = (q', b')" and "b = (\<Sum>(s, len) \<leftarrow> q. int len)" and "map fst q = [n - length q..<n]"
    and "length q \<le> n"
  shows "b' = (\<Sum>(s, len) \<leftarrow> q'. int len) \<and> map fst q' = [n - length q'..<n] \<and> length q' \<le> n"
  using assms
proof (induction acked q b rule: retire.induct)
  case (2 acked s len rest b)
  then have "[n - Suc (length rest)..<n] = (n - Suc (length rest)) # [n - length rest..<n]"
    by (subst upt_conv_Cons) (auto simp: Suc_diff_Suc)
  with 2 show ?case by (auto split: if_splits)
qed simp

lemma applyAck_inFlight:
  assumes "taskInFlight t"
  shows "taskInFlight (snd (sendOrWait chunk (applyAck a w t)))"
proof -
  obtain q' b' where r: "retire a (st_inFlight t) (st_bytesInFlight t) = (q', b')" by fastforce
  then have t': "applyAck a w t = t\<lparr>st_ackedCount := a, st_window := int w, st_inFlight := q', st_bytesInFlight := b'\<rparr>"
    by (simp add: applyAck_def)
  from retire_keeps [OF r, of "st_seq t"] assms show ?thesis
    unfolding t' by (simp add: taskInFlight_def sendOrWait_def exceedsWindow_def)
qed

lemma taskStep_inFlight: "taskInFlight t \<Longrightarrow> taskInFlight (snd (taskStep source digestOf cancelled input t))"
proof (cases "st_phase t")
  case (GotCredit chunk a w)
  assume "taskInFlight t"
  with applyAck_inFlight [of t chunk a w] GotCredit show ?thesis by (simp add: taskStep_def)
next
  case (Sending chunk)
  assume "taskInFlight t"
  with Sending show ?thesis by (simp add: taskStep_def taskInFlight_def finish_def Suc_diff_le)
qed (auto simp: taskStep_def taskInFlight_def sendOrWait_def exceedsWindow_def finish_def
       split: task_input.split list.split)

definition sentFrom :: "bytes list \<Rightarrow> (bytes \<Rightarrow> bytes) \<Rightarrow> 'c bulk_effect \<Rightarrow> bool" where
  "sentFrom content digestOf e =
     (case e of
        Sends c f \<Rightarrow>
          (case f of
             BulkData j seq chunk \<Rightarrow> seq < length content \<and> chunk = content ! seq
           | BulkEnd j digest \<Rightarrow> digest = digestOf (concat content)
           | _ \<Rightarrow> True)
      | _ \<Rightarrow> True)"

lemma drop_Cons: "x # xs = drop n ys \<Longrightarrow> n < length ys \<and> x = ys ! n \<and> xs = drop (Suc n) ys"
  by (metis Cons_nth_drop_Suc drop_eq_Nil2 linorder_not_le list.distinct(1) list.inject)

lemma applyAck_same [simp]:
  "st_rest (applyAck a w t) = st_rest t" "st_seq (applyAck a w t) = st_seq t" "st_phase (applyAck a w t) = st_phase t"
  "st_transferId (applyAck a w t) = st_transferId t" "st_connection (applyAck a w t) = st_connection t"
  by (simp_all add: applyAck_def case_prod_beta)

lemma sendOrWait_reads:
  assumes "chunk # st_rest t = drop (st_seq t) content"
  shows "taskReads content (snd (sendOrWait chunk t)) \<and> list_all (sentFrom content digestOf) (fst (sendOrWait chunk t))"
  using assms drop_Cons [OF assms] by (simp add: sendOrWait_def taskReads_def sentFrom_def dataFrame_def)

lemma taskReads_finish: "taskReads content (t\<lparr>st_phase := finish status count code\<rparr>)"
  by (simp add: taskReads_def finish_def)

lemma taskStep_reads:
  assumes source: "\<And>k. source k = drop k (source 0)" and "taskReads (source 0) t"
  shows "taskReads (source 0) (snd (taskStep source digestOf cancelled input t))
    \<and> list_all (sentFrom (source 0) digestOf) (fst (taskStep source digestOf cancelled input t))"
proof (cases "st_phase t")
  case AwaitingOpen
  then show ?thesis by (cases input) (simp_all add: taskStep_def taskReads_def finish_def)
next
  case (GotFirstAck a w)
  then show ?thesis using source [of a] by (simp add: taskStep_def taskReads_def)
next
  case Pulling
  show ?thesis
  proof (cases "st_rest t")
    case (Cons chunk rest)
    then have "chunk # st_rest (t\<lparr>st_rest := rest\<rparr>) = drop (st_seq (t\<lparr>st_rest := rest\<rparr>)) (source 0)"
      using assms(2) Pulling by (simp add: taskReads_def)
    from sendOrWait_reads [OF this] Cons Pulling show ?thesis
      by (simp add: taskStep_def taskReads_finish)
  qed (use Pulling in \<open>simp add: taskStep_def taskReads_def finish_def\<close>)
next
  case (GotCredit chunk a w)
  with assms(2) sendOrWait_reads [of chunk "applyAck a w t" "source 0"] show ?thesis
    by (simp add: taskStep_def taskReads_def)
next
  case (Sending chunk)
  with assms(2) have "st_rest t = drop (Suc (st_seq t)) (source 0)" by (simp add: taskReads_def drop_Cons)
  with Sending show ?thesis by (simp add: taskStep_def taskReads_def finish_def)
qed (use assms(2) in \<open>simp_all add: taskStep_def taskReads_def finish_def sentFrom_def\<close>)

subsection \<open>The sender as a whole\<close>

definition taskGood :: "bytes list \<Rightarrow> 'c sender_task \<Rightarrow> bool" where
  "taskGood content t \<longleftrightarrow> taskReads content t \<and> taskInFlight t"

lemma list_all_updTask: "list_all P ts \<Longrightarrow> (\<And>t. P t \<Longrightarrow> P (f t)) \<Longrightarrow> list_all P (updTask k f ts)"
  by (auto simp: updTask_def list_all_length nth_list_update)

lemma taskGood_waiter:
  "taskGood content t \<Longrightarrow> taskGood content (resolveWaiter a w t)"
  "taskGood content t \<Longrightarrow> taskGood content (rejectWaiter t)"
  by (auto simp: taskGood_def resolveWaiter_def rejectWaiter_def taskReads_def taskInFlight_def finish_def split: task_phase.splits)

lemma tasks_startTask:
  "list_all (taskGood content) (bs_tasks s) \<Longrightarrow> phase = AwaitingOpen \<or> phase = AwaitingFirstAck \<Longrightarrow>
     list_all (taskGood content) (bs_tasks (startTask (newTask c i phase) s))"
  by (auto simp: startTask_def waitForAck_def Let_def taskGood_def newTask_def taskReads_def taskInFlight_def)

lemma tasks_fold_reject:
  "list_all (taskGood content) ts \<Longrightarrow> list_all (taskGood content) (fold (\<lambda>k. updTask k rejectWaiter) q ts)"
  by (induction q arbitrary: ts) (simp_all add: list_all_updTask taskGood_waiter)

lemma tasks_rejectAll:
  "list_all (taskGood content) (bs_tasks s) \<Longrightarrow> list_all (taskGood content) (bs_tasks (rejectAllAcks i s))"
  by (simp add: rejectAllAcks_def tasks_fold_reject split: option.split)

lemma tasks_resolve:
  "list_all (taskGood content) (bs_tasks s) \<Longrightarrow> list_all (taskGood content) (bs_tasks (resolveNextAck i a w s))"
  by (simp add: resolveNextAck_def list_all_updTask taskGood_waiter split: option.split list.split)

lemma tasks_taskRuns:
  assumes source: "\<And>k. source k = drop k (source 0)" and tasks: "list_all (taskGood (source 0)) (bs_tasks s)"
  shows "list_all (taskGood (source 0)) (bs_tasks (snd (senderStep source digestOf (TaskRuns k input) s)))
    \<and> list_all (sentFrom (source 0) digestOf) (fst (senderStep source digestOf (TaskRuns k input) s))"
proof (cases "length (bs_tasks s) \<le> k \<or> awaitsAck (bs_tasks s ! k)")
  case False
  let ?step = "taskStep source digestOf (bs_cancelled s) input (bs_tasks s ! k)"
  have "taskGood (source 0) (bs_tasks s ! k)" using False tasks by (simp add: list_all_length)
  then have "taskGood (source 0) (snd ?step) \<and> list_all (sentFrom (source 0) digestOf) (fst ?step)"
    unfolding taskGood_def using taskStep_reads [OF source] taskStep_inFlight by blast
  then show ?thesis
    using False tasks
    by (auto simp: senderStep_def case_prod_beta Let_def waitForAck_def list_all_length nth_list_update)
qed (use tasks in \<open>simp add: senderStep_def\<close>)

lemma senderStep_good:
  assumes source: "\<And>k. source k = drop k (source 0)" and tasks: "list_all (taskGood (source 0)) (bs_tasks s)"
  shows "list_all (taskGood (source 0)) (bs_tasks (snd (senderStep source digestOf e s)))
    \<and> list_all (sentFrom (source 0) digestOf) (fst (senderStep source digestOf e s))"
proof (cases e)
  case (TaskRuns k input)
  then show ?thesis using tasks_taskRuns [OF source tasks] by simp
qed (use tasks in \<open>auto simp: senderStep_def tasks_startTask tasks_rejectAll tasks_resolve sentFrom_def
       split: option.split bulk_frame.split\<close>)

lemma senderRun_good:
  assumes source: "\<And>k. source k = drop k (source 0)" and tasks: "list_all (taskGood (source 0)) (bs_tasks s)"
  shows "list_all (taskGood (source 0)) (bs_tasks (snd (senderRun source digestOf es s)))
    \<and> list_all (sentFrom (source 0) digestOf) (fst (senderRun source digestOf es s))"
  using tasks
proof (induction es arbitrary: s)
  case (Cons e es)
  from senderStep_good [OF source Cons.prems, of digestOf e] Cons.IH show ?case by (simp add: case_prod_beta)
qed simp

lemma createBulkSender_good: "list_all (taskGood content) (bs_tasks createBulkSender)"
  by (simp add: createBulkSender_def)

subsection \<open>Properties\<close>

text \<open>A chunk source over fixed content yields the same bytes however often and wherever it is re-read.\<close>

definition contentSource :: "bytes list \<Rightarrow> nat \<Rightarrow> bytes list" where
  "contentSource content k = drop k content"

lemma contentSource_law: "contentSource content k = drop k (contentSource content 0)"
  by (simp add: contentSource_def)

lemma contentSource_run:
  "list_all (taskGood content) (bs_tasks (snd (senderRun (contentSource content) digestOf es createBulkSender)))
   \<and> list_all (sentFrom content digestOf) (fst (senderRun (contentSource content) digestOf es createBulkSender))"
  using senderRun_good [of "contentSource content" createBulkSender digestOf es, OF contentSource_law createBulkSender_good]
  by (simp add: contentSource_def)

text \<open>The data frames of transfer \<open>i\<close> that reach the receiver are frames the sender sent.\<close>

definition relayed :: "bytes \<Rightarrow> 'd bulk_effect list \<Rightarrow> 'c receiver_event \<Rightarrow> bool" where
  "relayed i sent e =
     (case e of
        RFrame c f \<Rightarrow>
          (case f of
             BulkData j seq chunk \<Rightarrow> j = i \<longrightarrow> list_ex (\<lambda>x. case x of Sends c' g \<Rightarrow> g = f | _ \<Rightarrow> False) sent
           | _ \<Rightarrow> True)
      | _ \<Rightarrow> True)"

lemma relayed_eventOf: "list_all (sentFrom content digestOf) sent \<Longrightarrow> relayed i sent e \<Longrightarrow> eventOf content i e"
proof (cases "\<exists>c seq chunk. e = RFrame c (BulkData i seq chunk)")
  case True
  then obtain c seq chunk where e: "e = RFrame c (BulkData i seq chunk)" by blast
  assume sent: "list_all (sentFrom content digestOf) sent" and "relayed i sent e"
  then obtain x where x: "x \<in> set sent" "case x of Sends c' g \<Rightarrow> g = BulkData i seq chunk | _ \<Rightarrow> False"
    by (auto simp: e relayed_def list_ex_iff)
  obtain c' where "Sends c' (BulkData i seq chunk) \<in> set sent"
    by (cases x rule: bulk_effect.exhaust) (use x in auto)
  then have "sentFrom content digestOf (Sends c' (BulkData i seq chunk))" using sent by (simp add: list_all_iff)
  then show ?thesis by (simp add: e eventOf_def frameOf_def sentFrom_def)
qed (auto simp: eventOf_def frameOf_def split: receiver_event.split bulk_frame.split)

text \<open>C20: A transfer is faithful and resumable. Whatever the interleaving of opens, resumes, cancellations,
  acknowledgements and lost connections on both sides, and whichever of the sender's frames arrive,
  in any order and repeated, the receiver durably holds exactly the first \<open>n\<close> chunks of the content,
  where \<open>n\<close> is the count it acknowledges and resumes from; reading the transfer back yields them; and
  the completion it reports against the sender's digest is true precisely when the digests agree.\<close>

theorem bulk_transfer_faithful:
  assumes "jget (br_storage r0) (ackSeqKey (transferIdHex i)) = None"
    and "list_all (relayed i (fst (senderRun (contentSource content) digestOf sends createBulkSender))) es"
    and "r = snd (receiverRun digestOf es r0)" and "n = readAckSeq r (transferIdHex i)"
  shows "n \<le> length content \<and> storedTransferSource (br_storage r) i from = (drop from (take n content), None)
    \<and> onBulkEnd digestOf reg i (digestOf (concat content)) r =
        (case breg_onComplete reg of None \<Rightarrow> []
         | Some k \<Rightarrow> [Completes k (digestOf (concat (take n content)) = digestOf (concat content)) n])"
proof -
  have "list_all (eventOf content i) es"
    using assms(2) relayed_eventOf [OF conjunct2 [OF contentSource_run]] by (metis (no_types, lifting) list.pred_mono_strong)
  then have holds: "holdsPrefix content i (br_storage r)"
    unfolding assms(3) by (intro holdsPrefix_run holdsPrefix_init assms(1))
  then have "n \<le> length content" by (simp add: assms(4) holdsPrefix_def Let_def readAckSeq_def)
  moreover have "storedChunks (br_storage r) (transferIdHex i) n = take n content"
    "storedTransferSource (br_storage r) i from = (drop from (take n content), None)"
    using holdsPrefix_stored [OF holds] assms(4) by (simp_all add: readAckSeq_def)
  ultimately show ?thesis
    unfolding onBulkEnd_def Let_def assms(4) [symmetric] by (simp split: option.split)
qed

definition sampleSends :: "nat sender_event list" where
  "sampleSends = [OpenCall 11 [9] None None, TaskRuns 0 Turn, FrameArrives (BulkAck [9] 0 1), TaskRuns 0 Turn, TaskRuns 0 Turn]"

definition sampleOffer :: "byte \<Rightarrow> bulk_offer" where
  "sampleOffer device = \<lparr>of_transferId = [9], of_totalSize = None, of_contentType = None, of_openerDevice = [device]\<rparr>"

definition sampleReceiver :: "nat bulk_receiver" where
  "sampleReceiver = \<lparr>br_storage = [], br_registrations = []\<rparr>"

definition sampleArrivals :: "nat receiver_event list" where
  "sampleArrivals = [RDecide 21 (sampleOffer 1) (Accept 1 None), RFrame 21 (BulkData [9] 0 [1])]"

lemmas sender_eval = senderStep_def startTask_def newTask_def createBulkSender_def awaitsAck_def waitForAck_def
  taskStep_def contentSource_def sendOrWait_def exceedsWindow_def resolveNextAck_def rejectAllAcks_def updTask_def
  resolveWaiter_def rejectWaiter_def dataFrame_def finish_def applyAck_def sampleSends_def Let_def

lemmas receiver_eval = receiverStep_def receiverOnFrame_def decide_def onBulkData_def readAckSeq_def readUint_def
  sampleReceiver_def sampleOffer_def Let_def

theorem bulk_transfer_faithful_witness:
  "storedTransferSource (br_storage (snd (receiverRun id sampleArrivals sampleReceiver))) [9] 0 = ([[1]], None)"
proof -
  have sent: "fst (senderRun (contentSource [[1], [2]]) id sampleSends createBulkSender) =
      [Requests (buildBulkOpenCommand [9] None None), Sends 11 (BulkData [9] 0 [1])]"
    by (simp add: sender_eval)
  have start: "jget (br_storage sampleReceiver) (ackSeqKey (transferIdHex [9])) = None" by (simp add: sampleReceiver_def)
  have arrives: "list_all (relayed [9] (fst (senderRun (contentSource [[1], [2]]) id sampleSends createBulkSender))) sampleArrivals"
    unfolding sent by (simp add: relayed_def sampleArrivals_def)
  have "1 = readAckSeq (snd (receiverRun id sampleArrivals sampleReceiver)) (transferIdHex [9])"
    by (simp add: sampleArrivals_def receiver_eval)
  from bulk_transfer_faithful [OF start arrives refl this] show ?thesis by simp
qed

subsection \<open>Flow control\<close>

text \<open>
  What a stream has been granted, read off the acknowledgements it took and nothing else: the first
  chunk it may not forget yet, and the window of the latest acknowledgement. The acknowledgement a
  stream starts from fixes both; a later one acknowledges at most what had been sent when it was taken.
\<close>

type_synonym credit = "nat \<times> nat"

definition creditStep :: "nat \<Rightarrow> 'c sender_event \<Rightarrow> 'c bulk_sender \<Rightarrow> credit \<Rightarrow> credit" where
  "creditStep k event s credit =
     (case event of
        TaskRuns j input \<Rightarrow>
          if j = k \<and> k < length (bs_tasks s)
          then (case st_phase (bs_tasks s ! k) of
                  GotFirstAck ackSeq window \<Rightarrow> (ackSeq, window)
                | GotCredit chunk ackSeq window \<Rightarrow> (max (fst credit) (min ackSeq (st_seq (bs_tasks s ! k))), window)
                | _ \<Rightarrow> credit)
          else credit
      | _ \<Rightarrow> credit)"

primrec creditOf ::
    "(nat \<Rightarrow> bytes list) \<Rightarrow> (bytes \<Rightarrow> bytes) \<Rightarrow> nat \<Rightarrow> 'c sender_event list \<Rightarrow> 'c bulk_sender \<Rightarrow> credit \<Rightarrow> credit" where
  "creditOf source digestOf k [] s credit = credit"
| "creditOf source digestOf k (e # es) s credit =
     creditOf source digestOf k es (snd (senderStep source digestOf e s)) (creditStep k e s credit)"

definition owes :: "bytes list \<Rightarrow> 'c sender_task \<Rightarrow> credit \<Rightarrow> bool" where
  "owes content t credit \<longleftrightarrow> fst credit \<le> st_seq t \<and> st_window t = int (snd credit)
     \<and> st_inFlight t = map (\<lambda>s. (s, length (content ! s))) [fst credit..<st_seq t]"

lemma retire_upt:
  "m \<le> n \<Longrightarrow> fst (retire acked (map (\<lambda>s. (s, f s)) [m..<n]) b) = map (\<lambda>s. (s, f s)) [max m (min acked n)..<n]"
proof (induction "n - m" arbitrary: m b)
  case (Suc d)
  then have "[m..<n] = m # [Suc m..<n]" by (simp add: upt_conv_Cons)
  with Suc show ?case by (cases "m < acked") (auto simp: max_def min_def not_less_eq_eq)
qed simp

lemma owes_sendOrWait: "owes content t credit \<Longrightarrow> owes content (snd (sendOrWait chunk t)) credit"
  by (simp add: owes_def sendOrWait_def)

lemma owes_applyAck:
  assumes "owes content t credit"
  shows "owes content (applyAck a w t) (max (fst credit) (min a (st_seq t)), w)"
proof -
  have "st_inFlight (applyAck a w t) = fst (retire a (st_inFlight t) (st_bytesInFlight t))" "st_window (applyAck a w t) = int w"
    by (simp_all add: applyAck_def case_prod_beta)
  with assms retire_upt [of "fst credit" "st_seq t" a "\<lambda>s. length (content ! s)" "st_bytesInFlight t"] show ?thesis
    by (simp add: owes_def)
qed

lemma owes_taskStep:
  assumes "taskReads content t" "owes content t credit"
  shows "owes content (snd (taskStep source digestOf cancelled input t))
    (case st_phase t of GotFirstAck a w \<Rightarrow> (a, w)
     | GotCredit chunk a w \<Rightarrow> (max (fst credit) (min a (st_seq t)), w) | _ \<Rightarrow> credit)"
proof (cases "st_phase t")
  case (GotCredit chunk a w)
  with owes_sendOrWait [OF owes_applyAck [OF assms(2)]] show ?thesis by (simp add: taskStep_def)
next
  case (Sending chunk)
  then have "chunk = content ! st_seq t" using assms(1) drop_Cons [of chunk "st_rest t"] by (simp add: taskReads_def)
  with Sending assms(2) show ?thesis by (simp add: taskStep_def owes_def)
next
  case Pulling
  have "owes content (t\<lparr>st_rest := rest\<rparr>) credit" "owes content (t\<lparr>st_phase := phase\<rparr>) credit" for rest phase
    using assms(2) by (simp_all add: owes_def)
  then show ?thesis using Pulling owes_sendOrWait [of content "t\<lparr>st_rest := _\<rparr>" credit]
    by (simp add: taskStep_def split: list.split)
qed (use assms(2) in \<open>simp_all add: taskStep_def owes_def split: task_input.split\<close>)

lemma owes_waiter:
  "owes content t credit \<Longrightarrow> owes content (resolveWaiter a w t) credit" "owes content t credit \<Longrightarrow> owes content (rejectWaiter t) credit"
  by (simp_all add: owes_def resolveWaiter_def rejectWaiter_def split: task_phase.split)

text \<open>All streams of a sender, with the credit of each; one that has not started has none.\<close>

definition allOwe :: "bytes list \<Rightarrow> (nat \<Rightarrow> credit) \<Rightarrow> 'c sender_task list \<Rightarrow> bool" where
  "allOwe content credits ts \<longleftrightarrow> (\<forall>k. if k < length ts then owes content (ts ! k) (credits k) else credits k = (0, 0))"

lemma allOwe_update:
  "allOwe content credits ts \<Longrightarrow> (\<And>t c. owes content t c \<Longrightarrow> owes content (f t) c) \<Longrightarrow> allOwe content credits (updTask k f ts)"
  by (auto simp: allOwe_def updTask_def nth_list_update)

lemma allOwe_reject:
  "allOwe content credits ts \<Longrightarrow> allOwe content credits (fold (\<lambda>k. updTask k rejectWaiter) q ts)"
  by (induction q arbitrary: ts) (simp_all add: allOwe_update owes_waiter)

lemma allOwe_start:
  "allOwe content credits (bs_tasks s) \<Longrightarrow> allOwe content credits (bs_tasks (startTask (newTask c i phase) s))"
proof -
  assume owe: "allOwe content credits (bs_tasks s)"
  have tasks: "bs_tasks (startTask (newTask c i phase) s) = bs_tasks s @ [newTask c i phase]"
    by (simp add: startTask_def waitForAck_def Let_def)
  have "owes content (newTask c i phase) (0, 0)" by (simp add: owes_def newTask_def)
  moreover have "credits k = (0, 0)" if "\<not> k < length (bs_tasks s)" for k using owe that unfolding allOwe_def by metis
  moreover have "owes content (bs_tasks s ! k) (credits k)" if "k < length (bs_tasks s)" for k using owe that unfolding allOwe_def by metis
  ultimately show ?thesis unfolding allOwe_def tasks by (simp add: nth_append less_Suc_eq)
qed

lemma allOwe_taskRuns:
  assumes "list_all (taskGood content) (bs_tasks s)" "allOwe content credits (bs_tasks s)"
  shows "allOwe content (\<lambda>k. creditStep k (TaskRuns j input) s (credits k))
    (bs_tasks (snd (senderStep source digestOf (TaskRuns j input) s)))"
proof (cases "length (bs_tasks s) \<le> j \<or> awaitsAck (bs_tasks s ! j)")
  case True
  then have "creditStep k (TaskRuns j input) s (credits k) = credits k" for k
    by (auto simp: creditStep_def awaitsAck_def split: task_phase.split)
  with True assms(2) show ?thesis by (simp add: senderStep_def)
next
  case False
  let ?t = "snd (taskStep source digestOf (bs_cancelled s) input (bs_tasks s ! j))"
  have "bs_tasks (snd (senderStep source digestOf (TaskRuns j input) s)) = (bs_tasks s)[j := ?t]"
    using False by (simp add: senderStep_def case_prod_beta Let_def waitForAck_def)
  moreover have "taskReads content (bs_tasks s ! j)" "owes content (bs_tasks s ! j) (credits j)"
    using False assms by (simp_all add: list_all_length taskGood_def allOwe_def)
  then have "owes content ?t (creditStep j (TaskRuns j input) s (credits j))"
    using owes_taskStep [of content "bs_tasks s ! j" "credits j" source digestOf "bs_cancelled s" input] False
    by (simp add: creditStep_def)
  moreover have "k \<noteq> j \<Longrightarrow> creditStep k (TaskRuns j input) s (credits k) = credits k" for k by (simp add: creditStep_def)
  moreover have "k \<noteq> j \<Longrightarrow> if k < length (bs_tasks s) then owes content (bs_tasks s ! k) (credits k) else credits k = (0, 0)" for k
    using assms(2) by (simp add: allOwe_def)
  ultimately show ?thesis using False unfolding allOwe_def by (metis length_list_update not_le nth_list_update_eq nth_list_update_neq)
qed

lemma allOwe_step:
  assumes "list_all (taskGood content) (bs_tasks s)" "allOwe content credits (bs_tasks s)"
  shows "allOwe content (\<lambda>k. creditStep k e s (credits k)) (bs_tasks (snd (senderStep source digestOf e s)))"
proof (cases e)
  case (TaskRuns j input)
  then show ?thesis using allOwe_taskRuns [OF assms] by simp
qed (use assms(2) in \<open>auto simp: creditStep_def senderStep_def allOwe_start rejectAllAcks_def resolveNextAck_def allOwe_reject
       allOwe_update owes_waiter split: option.split bulk_frame.split list.split\<close>)

lemma allOwe_run:
  assumes source: "\<And>k. source k = drop k (source 0)" and "list_all (taskGood (source 0)) (bs_tasks s)" "allOwe (source 0) credits (bs_tasks s)"
  shows "allOwe (source 0) (\<lambda>k. creditOf source digestOf k es s (credits k)) (bs_tasks (snd (senderRun source digestOf es s)))"
  using assms(2,3)
proof (induction es arbitrary: s credits)
  case (Cons e es)
  have "list_all (taskGood (source 0)) (bs_tasks (snd (senderStep source digestOf e s)))"
    using senderStep_good [OF source Cons.prems(1)] by blast
  from Cons.IH [OF this allOwe_step [OF Cons.prems]] show ?case by (simp add: case_prod_beta)
qed simp

text \<open>C21: Flow control. In every state a sender can reach, whatever was acknowledged, each of its streams
  holds outstanding exactly the chunks from the first one the acknowledgements it took left
  unacknowledged up to its current position, with their true lengths; its byte count is their total
  length; and a chunk is only ever being sent when it fits, together with them, in the window of the
  latest acknowledgement the stream took.\<close>

theorem bulk_window_respected:
  assumes "s = snd (senderRun (contentSource content) digestOf es createBulkSender)" and "k < length (bs_tasks s)"
    and "(first, window) = creditOf (contentSource content) digestOf k es createBulkSender (0, 0)"
  shows "first \<le> st_seq (bs_tasks s ! k)
    \<and> st_inFlight (bs_tasks s ! k) = map (\<lambda>n. (n, length (content ! n))) [first..<st_seq (bs_tasks s ! k)]
    \<and> st_bytesInFlight (bs_tasks s ! k) = int (\<Sum>n \<leftarrow> [first..<st_seq (bs_tasks s ! k)]. length (content ! n))
    \<and> (\<forall>chunk. st_phase (bs_tasks s ! k) = Sending chunk \<longrightarrow> chunk = content ! st_seq (bs_tasks s ! k)
         \<and> (\<Sum>n \<leftarrow> [first..<st_seq (bs_tasks s ! k)]. length (content ! n)) + length chunk \<le> window)"
proof -
  let ?t = "bs_tasks s ! k"
  have start: "allOwe content (\<lambda>k. (0, 0)) (bs_tasks createBulkSender)" by (simp add: allOwe_def createBulkSender_def)
  have good: "taskGood content ?t"
    using conjunct1 [OF contentSource_run] assms(1,2) by (metis list_all_length)
  have owes: "owes content ?t (first, window)"
  proof -
    have zero: "contentSource content 0 = content" by (simp add: contentSource_def)
    have "allOwe content (\<lambda>k. creditOf (contentSource content) digestOf k es createBulkSender (0, 0)) (bs_tasks s)"
      using allOwe_run [of "contentSource content" createBulkSender "\<lambda>k. (0, 0)" digestOf es, OF contentSource_law] start
        createBulkSender_good [of content] unfolding zero assms(1) by blast
    then show ?thesis using assms(2,3) unfolding allOwe_def by metis
  qed
  have bytes: "st_bytesInFlight ?t = int (\<Sum>n \<leftarrow> [first..<st_seq ?t]. length (content ! n))"
    using good owes by (simp add: taskGood_def taskInFlight_def owes_def comp_def flip: sum_list_of_nat)
  have "chunk = content ! st_seq ?t \<and> (\<Sum>n \<leftarrow> [first..<st_seq ?t]. length (content ! n)) + length chunk \<le> window"
    if "st_phase ?t = Sending chunk" for chunk
    using good owes bytes that drop_Cons [of chunk "st_rest ?t" "st_seq ?t" content]
    by (simp add: taskGood_def taskInFlight_def taskReads_def owes_def)
  with owes bytes show ?thesis by (simp add: owes_def)
qed

theorem bulk_window_respected_witness:
  "st_inFlight (bs_tasks (snd (senderRun (contentSource [[1], [2]]) id (sampleSends @ [TaskRuns 0 Turn]) createBulkSender)) ! 0) = [(0, 1)]"
proof -
  have "(0, 1) = creditOf (contentSource [[1], [2]]) id 0 (sampleSends @ [TaskRuns 0 Turn]) createBulkSender (0, 0)"
    "0 < length (bs_tasks (snd (senderRun (contentSource [[1], [2]]) id (sampleSends @ [TaskRuns 0 Turn]) createBulkSender)))"
    "st_seq (bs_tasks (snd (senderRun (contentSource [[1], [2]]) id (sampleSends @ [TaskRuns 0 Turn]) createBulkSender)) ! 0) = 1"
    by (simp_all add: sender_eval creditStep_def)
  from bulk_window_respected [OF refl this(2,1)] this(3) show ?thesis by simp
qed

text \<open>An acknowledgement that arrives while \<open>connection.send\<close> is still pending finds no waiter and is
  dropped. With room for one chunk, the stream then waits for credit that was already given, and no
  turn of it changes anything.\<close>

lemma dropped_ack_stalls:
  "st_phase (bs_tasks (snd (senderRun (contentSource [[1], [2]]) id
      (sampleSends @ [FrameArrives (BulkAck [9] 1 1), TaskRuns 0 Turn, TaskRuns 0 Turn]) createBulkSender)) ! 0) = AwaitingCredit [2]"
  by (simp add: sender_eval)

text \<open>A resume that overtakes the old connection's end is lost. The stream on connection 11 waits for
  credit; the receiver resumes on connection 12; the end of connection 11 is then ignored, because it
  is no longer the active one; and the acknowledgement that should start the resumed stream goes to
  the old stream, which sends the next chunk on connection 11, while the new one waits.\<close>

theorem resumed_stream_starved:
  "case senderRun (contentSource [[1], [2]]) id
      (sampleSends @ [TaskRuns 0 Turn, TaskRuns 0 Turn, ResumeRequest 12 (Some [9]), ConnectionEnds 11,
        FrameArrives (BulkAck [9] 1 1), TaskRuns 0 Turn]) createBulkSender of
     (effects, s) \<Rightarrow> last effects = Sends 11 (BulkData [9] 1 [2]) \<and> st_phase (bs_tasks s ! 0) = Sending [2]
       \<and> st_connection (bs_tasks s ! 1) = 12 \<and> st_phase (bs_tasks s ! 1) = AwaitingFirstAck"
  by (simp add: sender_eval)

text \<open>The already-exists check holds only when a transfer is offered. Two devices offer the same transfer
  id before either offer is decided; the first is accepted and its chunk stored; accepting the second
  then makes the other device the opener, resets the acknowledged count and moves the registration,
  so that the first device's next chunk is ignored.\<close>

theorem pending_offer_takes_over:
  "handleBulkOpen [1] 21 (Some ([9], None, None)) sampleReceiver = [Offers 21 (sampleOffer 1)]
   \<and> handleBulkOpen [2] 22 (Some ([9], None, None)) sampleReceiver = [Offers 22 (sampleOffer 2)]
   \<and> (case receiverRun id [RDecide 21 (sampleOffer 1) (Accept 4 None), RFrame 21 (BulkData [9] 0 [1]),
          RDecide 22 (sampleOffer 2) (Accept 4 None)] sampleReceiver of
        (_, r) \<Rightarrow> jget (br_storage r) (openerKey (transferIdHex [9])) = Some [2] \<and> readAckSeq r (transferIdHex [9]) = 0
          \<and> receiverOnFrame id 21 (BulkData [9] 1 [3]) r = ([], r))"
  by (simp add: handleBulkOpen_def receiver_eval)

end
