(* ===== verification/RelayChannels.thy ===== *)
theory RelayChannels
  imports SecureChannel DeviceIds
begin

text \<open>
  \<open>ts/packages/core/src/domain/relay-channels.ts\<close>: the secure channels a session holds with the devices
  it reaches through a relay, one per peer. Handshakes and channels are objects that several calls
  share, so they live in stores and are named by their position there; \<open>rc_completing\<close> holds the
  \<open>applyHello\<close> calls that have chosen their handshake and await the key derivation, so that any other
  call may run in between. A handshake remembers who waits for it, since rejecting a promise nobody
  waits for is an unhandled rejection of the process. The ephemeral key pair and nonce of a started
  handshake are arguments.
\<close>

datatype channel_state = Awaiting nat | Established nat

datatype settlement = Unsettled | Resolved nat | RejectedWith string

record handshake_entry =
  he_pending :: pending_handshake
  he_settled :: settlement
  he_waiters :: "nat list"

record relay_channels =
  rc_channels :: "(string, channel_state) jmap"
  rc_entries :: "handshake_entry list"
  rc_store :: "secure_channel list"
  rc_completing :: "(nat \<times> secure_channel_peer \<times> secure_hello) list"

datatype channel_effect = SendHello device_id secure_hello | UnhandledRejection string

type_synonym key_material = "(bytes \<times> bytes) \<times> bytes"

definition createRelayChannels :: relay_channels where
  "createRelayChannels = \<lparr>rc_channels = [], rc_entries = [], rc_store = [], rc_completing = []\<rparr>"

subsection \<open>Operations\<close>

definition start :: "hello_identity \<Rightarrow> key_material \<Rightarrow> device_id \<Rightarrow> relay_channels \<Rightarrow> nat \<times> channel_effect list \<times> relay_channels" where
  "start identity fresh peer rc =
     (let pending = beginHandshake identity (fst fresh) (snd fresh) peer;
          i = length (rc_entries rc)
      in (i, [SendHello peer (ph_hello pending)],
          rc\<lparr>rc_channels := jset (rc_channels rc) (deviceIdToHex peer) (Awaiting i),
             rc_entries := rc_entries rc @ [\<lparr>he_pending = pending, he_settled = Unsettled, he_waiters = []\<rparr>]\<rparr>))"

definition settleReject :: "nat \<Rightarrow> string \<Rightarrow> relay_channels \<Rightarrow> channel_effect list \<times> relay_channels" where
  "settleReject i reason rc =
     (let entry = rc_entries rc ! i
      in if he_settled entry \<noteq> Unsettled then ([], rc)
         else (if he_waiters entry = [] then [UnhandledRejection reason] else [],
               rc\<lparr>rc_entries := (rc_entries rc)[i := entry\<lparr>he_settled := RejectedWith reason\<rparr>]\<rparr>))"

definition settleResolve :: "nat \<Rightarrow> nat \<Rightarrow> relay_channels \<Rightarrow> relay_channels" where
  "settleResolve i addr rc =
     (let entry = rc_entries rc ! i
      in if he_settled entry \<noteq> Unsettled then rc
         else rc\<lparr>rc_entries := (rc_entries rc)[i := entry\<lparr>he_settled := Resolved addr\<rparr>]\<rparr>)"

definition deleteIf :: "string \<Rightarrow> nat \<Rightarrow> relay_channels \<Rightarrow> relay_channels" where
  "deleteIf key i rc =
     (if jget (rc_channels rc) key = Some (Awaiting i) then rc\<lparr>rc_channels := jdel (rc_channels rc) key\<rparr> else rc)"

text \<open>The catch of \<open>start\<close>: the hello of handshake \<open>i\<close> could not be made or sent.\<close>

definition helloFailed :: "nat \<Rightarrow> string \<Rightarrow> relay_channels \<Rightarrow> channel_effect list \<times> relay_channels" where
  "helloFailed i reason rc =
     (case settleReject i reason rc of (effects, rc') \<Rightarrow>
        (effects, deleteIf (deviceIdToHex (ph_peer (he_pending (rc_entries rc ! i)))) i rc'))"

text \<open>\<open>ensure\<close>: the channel, or the handshake whose settlement the caller awaits.\<close>

datatype ensured = ChannelReady nat | AwaitsEntry nat

definition addWaiter :: "nat \<Rightarrow> nat \<Rightarrow> relay_channels \<Rightarrow> relay_channels" where
  "addWaiter caller i rc =
     rc\<lparr>rc_entries := (rc_entries rc)[i := (rc_entries rc ! i)\<lparr>he_waiters := he_waiters (rc_entries rc ! i) @ [caller]\<rparr>]\<rparr>"

definition ensure ::
    "hello_identity \<Rightarrow> key_material \<Rightarrow> nat \<Rightarrow> device_id \<Rightarrow> relay_channels \<Rightarrow> ensured \<times> channel_effect list \<times> relay_channels" where
  "ensure identity fresh caller peer rc =
     (case jget (rc_channels rc) (deviceIdToHex peer) of
        Some (Established addr) \<Rightarrow> (ChannelReady addr, [], rc)
      | Some (Awaiting i) \<Rightarrow> (AwaitsEntry i, [], addWaiter caller i rc)
      | None \<Rightarrow> (case start identity fresh peer rc of (i, effects, rc') \<Rightarrow> (AwaitsEntry i, effects, addWaiter caller i rc')))"

text \<open>\<open>applyHello\<close> up to its wait for the keys, and from there.\<close>

definition applyHelloBegin ::
    "hello_identity \<Rightarrow> key_material \<Rightarrow> secure_hello \<Rightarrow> relay_channels \<Rightarrow> channel_effect list \<times> relay_channels" where
  "applyHelloBegin identity fresh hello rc =
     (case verifyHello identity hello of
        Err _ \<Rightarrow> ([], rc)
      | Ok peer \<Rightarrow>
          (case jget (rc_channels rc) (deviceIdToHex (peer_deviceId peer)) of
             Some (Awaiting i) \<Rightarrow> ([], rc\<lparr>rc_completing := rc_completing rc @ [(i, peer, hello)]\<rparr>)
           | _ \<Rightarrow> (case start identity fresh (peer_deviceId peer) rc of (i, effects, rc') \<Rightarrow>
                     (effects, rc'\<lparr>rc_completing := rc_completing rc' @ [(i, peer, hello)]\<rparr>))))"

definition applyHelloFinish ::
    "'f channel_crypto \<Rightarrow> hello_identity \<Rightarrow> nat \<times> secure_channel_peer \<times> secure_hello \<Rightarrow> relay_channels \<Rightarrow> channel_effect list \<times> relay_channels" where
  "applyHelloFinish crypto identity call rc =
     (case call of (i, peer, hello) \<Rightarrow>
        let key = deviceIdToHex (peer_deviceId peer)
        in case establishChannel crypto identity (he_pending (rc_entries rc ! i)) hello peer of
             None \<Rightarrow> (case settleReject i ''the peer sent an unusable ephemeral key'' rc of
                       (effects, rc') \<Rightarrow> (effects, deleteIf key i rc'))
           | Some channel \<Rightarrow>
               let addr = length (rc_store rc)
               in ([], settleResolve i addr
                         (rc\<lparr>rc_channels := jset (rc_channels rc) key (Established addr), rc_store := rc_store rc @ [channel]\<rparr>)))"

definition finishCompleting :: "'f channel_crypto \<Rightarrow> hello_identity \<Rightarrow> nat \<Rightarrow> relay_channels \<Rightarrow> channel_effect list \<times> relay_channels" where
  "finishCompleting crypto identity k rc =
     (if k < length (rc_completing rc)
      then applyHelloFinish crypto identity (rc_completing rc ! k)
             (rc\<lparr>rc_completing := take k (rc_completing rc) @ drop (Suc k) (rc_completing rc)\<rparr>)
      else ([], rc))"

definition channelOpen ::
    "'f channel_crypto \<Rightarrow> secure_data \<Rightarrow> device_id option \<Rightarrow> relay_channels \<Rightarrow> ('f \<times> device_id) option \<times> relay_channels" where
  "channelOpen crypto dat claimedFrom rc =
     (case claimedFrom of
        None \<Rightarrow> (None, rc)
      | Some device \<Rightarrow>
          (case jget (rc_channels rc) (deviceIdToHex device) of
             Some (Established addr) \<Rightarrow>
               (case openOne crypto dat (rc_store rc ! addr) of (frame, channel) \<Rightarrow>
                  (map_option (\<lambda>f. (f, peer_deviceId (sc_peer channel))) frame,
                   rc\<lparr>rc_store := (rc_store rc)[addr := channel]\<rparr>))
           | _ \<Rightarrow> (None, rc)))"

definition channelSeal :: "'f channel_crypto \<Rightarrow> 'f \<Rightarrow> nat \<Rightarrow> relay_channels \<Rightarrow> secure_data \<times> relay_channels" where
  "channelSeal crypto frame addr rc =
     (case sealFrame crypto frame (rc_store rc ! addr) of (sealed, channel) \<Rightarrow>
        (sealed, rc\<lparr>rc_store := (rc_store rc)[addr := channel]\<rparr>))"

definition channelForget :: "device_id \<Rightarrow> relay_channels \<Rightarrow> channel_effect list \<times> relay_channels" where
  "channelForget peer rc =
     (let key = deviceIdToHex peer
      in case (case jget (rc_channels rc) key of
                 Some (Awaiting i) \<Rightarrow> settleReject i ''the relay pairing was lost'' rc
               | _ \<Rightarrow> ([], rc)) of
           (effects, rc') \<Rightarrow> (effects, rc'\<lparr>rc_channels := jdel (rc_channels rc') key\<rparr>))"

primrec rejectAwaiting :: "string \<Rightarrow> channel_state list \<Rightarrow> relay_channels \<Rightarrow> channel_effect list \<times> relay_channels" where
  "rejectAwaiting reason [] rc = ([], rc)"
| "rejectAwaiting reason (c # cs) rc =
     (case (case c of Awaiting i \<Rightarrow> settleReject i reason rc | Established _ \<Rightarrow> ([], rc)) of
        (fx, rc') \<Rightarrow> case rejectAwaiting reason cs rc' of (gx, rc'') \<Rightarrow> (fx @ gx, rc''))"

definition channelReset :: "string \<Rightarrow> relay_channels \<Rightarrow> channel_effect list \<times> relay_channels" where
  "channelReset reason rc =
     (case rejectAwaiting reason (jvals (rc_channels rc)) rc of (effects, rc') \<Rightarrow> (effects, rc'\<lparr>rc_channels := []\<rparr>))"

subsection \<open>Runs\<close>

datatype 'f channel_event =
    Ensure nat device_id key_material
  | HelloArrives secure_hello key_material
  | HelloCompletes nat
  | HelloFails nat string
  | DataArrives secure_data "device_id option"
  | Seal 'f nat
  | Forget device_id
  | Reset string

definition channelStep :: "'f channel_crypto \<Rightarrow> hello_identity \<Rightarrow> 'f channel_event \<Rightarrow> relay_channels \<Rightarrow> relay_channels" where
  "channelStep crypto identity event rc =
     (case event of
        Ensure caller peer fresh \<Rightarrow> snd (snd (ensure identity fresh caller peer rc))
      | HelloArrives hello fresh \<Rightarrow> snd (applyHelloBegin identity fresh hello rc)
      | HelloCompletes k \<Rightarrow> snd (finishCompleting crypto identity k rc)
      | HelloFails i reason \<Rightarrow> if i < length (rc_entries rc) then snd (helloFailed i reason rc) else rc
      | DataArrives dat from \<Rightarrow> snd (channelOpen crypto dat from rc)
      | Seal frame addr \<Rightarrow> if addr < length (rc_store rc) then snd (channelSeal crypto frame addr rc) else rc
      | Forget peer \<Rightarrow> snd (channelForget peer rc)
      | Reset reason \<Rightarrow> snd (channelReset reason rc))"

text \<open>A run and the events it consists of.\<close>

inductive channels_run :: "'f channel_crypto \<Rightarrow> hello_identity \<Rightarrow> 'f channel_event list \<Rightarrow> relay_channels \<Rightarrow> bool" for crypto identity where
  run_init: "channels_run crypto identity [] createRelayChannels"
| run_step: "channels_run crypto identity es rc \<Longrightarrow> channels_run crypto identity (es @ [event]) (channelStep crypto identity event rc)"

text \<open>A hello handled with nothing in between, as the frame loop of a session handles it.\<close>

definition applyHello ::
    "'f channel_crypto \<Rightarrow> hello_identity \<Rightarrow> key_material \<Rightarrow> secure_hello \<Rightarrow> relay_channels \<Rightarrow> channel_effect list \<times> relay_channels" where
  "applyHello crypto identity fresh hello rc =
     (case applyHelloBegin identity fresh hello rc of (fx, rc') \<Rightarrow>
        if length (rc_completing rc') = length (rc_completing rc) then (fx, rc')
        else (case finishCompleting crypto identity (length (rc_completing rc)) rc' of (gx, rc'') \<Rightarrow> (fx @ gx, rc'')))"

subsection \<open>Every channel was authenticated\<close>

text \<open>
  A peer is authenticated by one of the hellos that arrived; a channel rests on such a hello, on a
  handshake this side started with that peer, and on the keys derived from the two. The map's keys
  name the peers of what they hold.
\<close>

definition authenticated :: "secure_hello set \<Rightarrow> hello_identity \<Rightarrow> secure_channel_peer \<Rightarrow> bool" where
  "authenticated arrived identity peer \<longleftrightarrow> (\<exists>hello \<in> arrived. verifyHello identity hello = Ok peer)"

definition ownHandshakes :: "relay_channels \<Rightarrow> pending_handshake set" where
  "ownHandshakes rc = he_pending ` set (rc_entries rc)"

definition restsOn ::
    "'f channel_crypto \<Rightarrow> hello_identity \<Rightarrow> secure_hello set \<Rightarrow> pending_handshake set \<Rightarrow> secure_channel \<Rightarrow> bool" where
  "restsOn crypto identity arrived own ch \<longleftrightarrow>
     (\<exists>hello \<in> arrived. \<exists>p \<in> own. \<exists>made. verifyHello identity hello = Ok (sc_peer ch) \<and> ph_peer p = peer_deviceId (sc_peer ch)
        \<and> establishChannel crypto identity p hello (sc_peer ch) = Some made
        \<and> sc_sendKey ch = sc_sendKey made \<and> sc_receiveKey ch = sc_receiveKey made \<and> sc_local ch = sc_local made)"

definition stateOk :: "relay_channels \<Rightarrow> string \<Rightarrow> channel_state \<Rightarrow> bool" where
  "stateOk rc key c =
     (case c of
        Awaiting i \<Rightarrow> i < length (rc_entries rc) \<and> key = deviceIdToHex (ph_peer (he_pending (rc_entries rc ! i)))
      | Established a \<Rightarrow> a < length (rc_store rc) \<and> key = deviceIdToHex (peer_deviceId (sc_peer (rc_store rc ! a))))"

definition callOk :: "hello_identity \<Rightarrow> secure_hello set \<Rightarrow> handshake_entry list \<Rightarrow> nat \<times> secure_channel_peer \<times> secure_hello \<Rightarrow> bool" where
  "callOk identity arrived entries call =
     (case call of (i, peer, hello) \<Rightarrow> i < length entries \<and> ph_peer (he_pending (entries ! i)) = peer_deviceId peer
        \<and> hello \<in> arrived \<and> verifyHello identity hello = Ok peer)"

definition channelsOk :: "'f channel_crypto \<Rightarrow> hello_identity \<Rightarrow> secure_hello set \<Rightarrow> relay_channels \<Rightarrow> bool" where
  "channelsOk crypto identity arrived rc \<longleftrightarrow>
     list_all (\<lambda>(key, c). stateOk rc key c) (rc_channels rc)
     \<and> list_all (restsOn crypto identity arrived (ownHandshakes rc)) (rc_store rc)
     \<and> list_all (callOk identity arrived (rc_entries rc)) (rc_completing rc)"

lemma channelsOk_init: "channelsOk crypto identity arrived createRelayChannels"
  by (simp add: channelsOk_def createRelayChannels_def)

lemma restsOn_mono: "restsOn crypto identity arrived own ch \<Longrightarrow> arrived \<subseteq> arrived' \<Longrightarrow> own \<subseteq> own' \<Longrightarrow> restsOn crypto identity arrived' own' ch"
  unfolding restsOn_def by blast

lemma channelsOk_mono: "channelsOk crypto identity arrived rc \<Longrightarrow> arrived \<subseteq> arrived' \<Longrightarrow> channelsOk crypto identity arrived' rc"
  by (auto simp: channelsOk_def list_all_iff callOk_def intro: restsOn_mono)

text \<open>Settling a handshake or adding a waiter changes none of what the invariant reads.\<close>

definition sameShape :: "relay_channels \<Rightarrow> relay_channels \<Rightarrow> bool" where
  "sameShape a b \<longleftrightarrow> map he_pending (rc_entries a) = map he_pending (rc_entries b) \<and> rc_store a = rc_store b
     \<and> rc_completing a = rc_completing b"

lemma sameShape_entries:
  assumes "sameShape a b"
  shows "length (rc_entries a) = length (rc_entries b)"
    and "i < length (rc_entries b) \<Longrightarrow> he_pending (rc_entries a ! i) = he_pending (rc_entries b ! i)"
    and "ownHandshakes a = ownHandshakes b"
proof -
  from assms have eq: "map he_pending (rc_entries a) = map he_pending (rc_entries b)" by (simp add: sameShape_def)
  from arg_cong [OF eq, of length] show len: "length (rc_entries a) = length (rc_entries b)" by simp
  show "he_pending (rc_entries a ! i) = he_pending (rc_entries b ! i)" if "i < length (rc_entries b)"
    using arg_cong [OF eq, of "\<lambda>xs. xs ! i"] that len by simp
  show "ownHandshakes a = ownHandshakes b" using arg_cong [OF eq, of set] by (simp add: ownHandshakes_def)
qed

lemma stateOk_same: "sameShape a b \<Longrightarrow> stateOk b key c \<Longrightarrow> stateOk a key c"
  using sameShape_entries [of a b] by (auto simp: stateOk_def sameShape_def split: channel_state.splits)

lemma channelsOk_same:
  assumes "channelsOk crypto identity arrived b" and "sameShape a b" and "list_all (\<lambda>(key, c). stateOk b key c) (rc_channels a)"
  shows "channelsOk crypto identity arrived a"
proof -
  have "callOk identity arrived (rc_entries b) call \<Longrightarrow> callOk identity arrived (rc_entries a) call" for call
    using sameShape_entries [OF assms(2)] by (auto simp: callOk_def)
  moreover have "list_all (\<lambda>(key, c). stateOk a key c) (rc_channels a)"
    using assms(3) stateOk_same [OF assms(2)] by (auto simp: list_all_iff)
  ultimately show ?thesis
    using assms(1,2) sameShape_entries(3) [OF assms(2)] by (auto simp: channelsOk_def sameShape_def list_all_iff)
qed

lemma map_update_same: "f y = f (xs ! i) \<Longrightarrow> map f (xs[i := y]) = map f xs"
  by (cases "i < length xs") (metis list_update_id map_update nth_map, simp add: list_update_beyond)

lemma sameShape_settle:
  "sameShape (snd (settleReject i reason rc)) rc" "sameShape (settleResolve i addr rc) rc" "sameShape (addWaiter c i rc) rc"
  "rc_channels (snd (settleReject i reason rc)) = rc_channels rc" "rc_channels (settleResolve i addr rc) = rc_channels rc"
  "rc_channels (addWaiter c i rc) = rc_channels rc"
  by (simp_all add: sameShape_def settleReject_def settleResolve_def addWaiter_def Let_def map_update_same)

lemma channelsOk_settle:
  assumes "channelsOk crypto identity arrived rc"
  shows "channelsOk crypto identity arrived (snd (settleReject i reason rc))" "channelsOk crypto identity arrived (settleResolve i addr rc)"
    "channelsOk crypto identity arrived (addWaiter c i rc)" "channelsOk crypto identity arrived (deleteIf key i rc)"
    "channelsOk crypto identity arrived (rc\<lparr>rc_channels := jdel (rc_channels rc) key\<rparr>)"
    "channelsOk crypto identity arrived (rc\<lparr>rc_channels := []\<rparr>)"
proof -
  have ok: "list_all (\<lambda>(key, c). stateOk rc key c) (rc_channels rc)" using assms by (simp add: channelsOk_def)
  show "channelsOk crypto identity arrived (snd (settleReject i reason rc))" "channelsOk crypto identity arrived (settleResolve i addr rc)"
    "channelsOk crypto identity arrived (addWaiter c i rc)"
    by (rule channelsOk_same [OF assms]; simp add: sameShape_settle ok)+
  show del: "channelsOk crypto identity arrived (rc\<lparr>rc_channels := jdel (rc_channels rc) key\<rparr>)" for key
    by (rule channelsOk_same [OF assms]) (simp_all add: sameShape_def ok list_all_jdel)
  then show "channelsOk crypto identity arrived (deleteIf key i rc)" using assms by (simp add: deleteIf_def)
  show "channelsOk crypto identity arrived (rc\<lparr>rc_channels := []\<rparr>)"
    by (rule channelsOk_same [OF assms]) (simp_all add: sameShape_def)
qed

lemma stateOk_grow:
  "stateOk rc key c \<Longrightarrow> stateOk (rc\<lparr>rc_channels := m, rc_entries := rc_entries rc @ es, rc_store := rc_store rc @ cs\<rparr>) key c"
  by (auto simp: stateOk_def nth_append split: channel_state.splits)

lemma channelsOk_start:
  assumes "channelsOk crypto identity arrived rc" and "start ident fresh peer rc = (i, fx, rc')"
  shows "channelsOk crypto identity arrived rc' \<and> i < length (rc_entries rc') \<and> ph_peer (he_pending (rc_entries rc' ! i)) = peer"
proof -
  let ?e = "\<lparr>he_pending = beginHandshake ident (fst fresh) (snd fresh) peer, he_settled = Unsettled, he_waiters = []\<rparr>"
  let ?m = "jset (rc_channels rc) (deviceIdToHex peer) (Awaiting (length (rc_entries rc)))"
  have rc': "rc' = rc\<lparr>rc_channels := ?m, rc_entries := rc_entries rc @ [?e]\<rparr>" and i: "i = length (rc_entries rc)"
    using assms(2) by (auto simp: start_def Let_def)
  have grow: "stateOk rc key c \<Longrightarrow> stateOk rc' key c" for key c
    using stateOk_grow [where rc = rc and m = ?m and es = "[?e]" and cs = "[]"] by (simp add: rc')
  have "list_all (\<lambda>(key, c). stateOk rc' key c) (rc_channels rc)"
    using assms(1) grow by (auto simp: channelsOk_def list_all_iff)
  moreover have "stateOk rc' (deviceIdToHex peer) (Awaiting (length (rc_entries rc)))"
    by (simp add: rc' stateOk_def nth_append beginHandshake_def)
  ultimately have "list_all (\<lambda>(key, c). stateOk rc' key c) ?m" by (simp add: list_all_jset)
  moreover have "ownHandshakes rc \<subseteq> ownHandshakes rc'" by (auto simp: ownHandshakes_def rc')
  then have "list_all (restsOn crypto identity arrived (ownHandshakes rc')) (rc_store rc)"
    using assms(1) by (auto simp: channelsOk_def list_all_iff intro: restsOn_mono)
  moreover have "list_all (callOk identity arrived (rc_entries rc')) (rc_completing rc)"
    using assms(1) by (auto simp: channelsOk_def list_all_iff callOk_def rc' nth_append)
  ultimately show ?thesis by (simp add: channelsOk_def i rc' nth_append beginHandshake_def)
qed

lemma establishChannel_peer:
  "establishChannel crypto identity p hello peer = Some ch \<Longrightarrow> sc_peer ch = peer \<and> sc_local ch = hi_deviceId identity"
  by (auto simp: establishChannel_def Let_def split: option.splits)

lemma channelsOk_finish:
  assumes ok: "channelsOk crypto identity arrived rc" and call: "callOk identity arrived (rc_entries rc) (i, peer, hello)"
  shows "channelsOk crypto identity arrived (snd (applyHelloFinish crypto identity (i, peer, hello) rc))"
proof (cases "establishChannel crypto identity (he_pending (rc_entries rc ! i)) hello peer")
  case None
  with ok show ?thesis by (simp add: applyHelloFinish_def Let_def case_prod_beta channelsOk_settle)
next
  case (Some ch)
  let ?m = "jset (rc_channels rc) (deviceIdToHex (peer_deviceId peer)) (Established (length (rc_store rc)))"
  let ?rc = "rc\<lparr>rc_channels := ?m, rc_store := rc_store rc @ [ch]\<rparr>"
  note ch = establishChannel_peer [OF Some]
  have "list_all (\<lambda>(key, c). stateOk ?rc key c) (rc_channels rc)"
    using ok stateOk_grow [where rc = rc and m = ?m and es = "[]" and cs = "[ch]"] by (auto simp: channelsOk_def list_all_iff)
  moreover have "stateOk ?rc (deviceIdToHex (peer_deviceId peer)) (Established (length (rc_store rc)))"
    using ch by (simp add: stateOk_def nth_append)
  moreover have "restsOn crypto identity arrived (ownHandshakes rc) ch"
    unfolding restsOn_def using call Some ch
    by (intro bexI [of _ hello] bexI [of _ "he_pending (rc_entries rc ! i)"] exI [of _ ch])
       (simp_all add: callOk_def ownHandshakes_def)
  ultimately have "channelsOk crypto identity arrived ?rc" using ok by (simp add: channelsOk_def list_all_jset ownHandshakes_def)
  then show ?thesis using Some by (simp add: applyHelloFinish_def Let_def channelsOk_settle)
qed

lemma channelsOk_store:
  assumes "channelsOk crypto identity arrived rc" and "sc_peer ch = sc_peer (rc_store rc ! a)" and "sc_local ch = sc_local (rc_store rc ! a)"
    and "sc_sendKey ch = sc_sendKey (rc_store rc ! a)" and "sc_receiveKey ch = sc_receiveKey (rc_store rc ! a)"
  shows "channelsOk crypto identity arrived (rc\<lparr>rc_store := (rc_store rc)[a := ch]\<rparr>)"
proof (cases "a < length (rc_store rc)")
  case True
  have "stateOk rc key c \<Longrightarrow> stateOk (rc\<lparr>rc_store := (rc_store rc)[a := ch]\<rparr>) key c" for key c
    using assms(2) True by (auto simp: stateOk_def nth_list_update split: channel_state.splits)
  moreover have "restsOn crypto identity arrived (ownHandshakes rc) ch"
    using assms True by (simp add: channelsOk_def list_all_length restsOn_def)
  ultimately show ?thesis using assms(1) True
    by (auto simp: channelsOk_def list_all_iff ownHandshakes_def dest!: set_update_subset_insert [THEN subsetD])
qed (use assms in \<open>simp add: list_update_beyond\<close>)

fun helloOf :: "'f channel_event \<Rightarrow> secure_hello set" where
  "helloOf (HelloArrives hello fresh) = {hello}"
| "helloOf event = {}"

lemma channelsOk_begin:
  assumes ok: "channelsOk crypto identity arrived rc" and arrived: "hello \<in> arrived"
  shows "channelsOk crypto identity arrived (snd (applyHelloBegin identity fresh hello rc))"
proof (cases "verifyHello identity hello")
  case (Inl e)
  then show ?thesis using ok by (simp add: applyHelloBegin_def)
next
  case (Inr peer)
  obtain i fx rc' where st: "start identity fresh (peer_deviceId peer) rc = (i, fx, rc')" by (metis prod_cases3)
  have grow: "channelsOk crypto identity arrived (r\<lparr>rc_completing := rc_completing r @ [(j, peer, hello)]\<rparr>)"
    if "channelsOk crypto identity arrived r" "j < length (rc_entries r)" "ph_peer (he_pending (rc_entries r ! j)) = peer_deviceId peer" for r j
    using that arrived Inr by (simp add: channelsOk_def stateOk_def callOk_def ownHandshakes_def cong: channel_state.case_cong)
  have awaiting: "j < length (rc_entries rc) \<and> ph_peer (he_pending (rc_entries rc ! j)) = peer_deviceId peer"
    if "jget (rc_channels rc) (deviceIdToHex (peer_deviceId peer)) = Some (Awaiting j)" for j
    using ok map_of_SomeD [OF that] by (auto simp: channelsOk_def list_all_iff stateOk_def)
  show ?thesis
    using ok Inr st channelsOk_start [OF ok st]
    by (auto simp: applyHelloBegin_def grow awaiting split: option.split channel_state.split)
qed

lemma channelsOk_completing:
  assumes ok: "channelsOk crypto identity arrived rc"
  shows "channelsOk crypto identity arrived (snd (finishCompleting crypto identity k rc))"
proof (cases "k < length (rc_completing rc)")
  case True
  let ?rc = "rc\<lparr>rc_completing := take k (rc_completing rc) @ drop (Suc k) (rc_completing rc)\<rparr>"
  obtain i peer hello where call: "rc_completing rc ! k = (i, peer, hello)" by (metis prod_cases3)
  have "channelsOk crypto identity arrived ?rc"
    using ok by (auto simp: channelsOk_def list_all_iff stateOk_def ownHandshakes_def dest: in_set_takeD in_set_dropD cong: channel_state.case_cong)
  moreover have "callOk identity arrived (rc_entries ?rc) (i, peer, hello)"
    using ok True nth_mem [OF True] by (auto simp: channelsOk_def list_all_iff call)
  ultimately show ?thesis using True by (simp add: finishCompleting_def call channelsOk_finish)
qed (use ok in \<open>simp add: finishCompleting_def\<close>)

lemma channelsOk_step:
  assumes ok: "channelsOk crypto identity arrived rc" and arrived: "helloOf event \<subseteq> arrived"
  shows "channelsOk crypto identity arrived (channelStep crypto identity event rc)"
proof (cases event)
  case (Ensure caller peer fresh)
  obtain i fx rc' where st: "start identity fresh peer rc = (i, fx, rc')" by (metis prod_cases3)
  show ?thesis
    using ok channelsOk_start [OF ok st] Ensure st
    by (auto simp: channelStep_def ensure_def channelsOk_settle split: option.split channel_state.split)
next
  case (HelloArrives hello fresh)
  then show ?thesis using channelsOk_begin [OF ok] arrived by (simp add: channelStep_def)
next
  case (HelloCompletes k)
  then show ?thesis using channelsOk_completing [OF ok] by (simp add: channelStep_def)
next
  case (HelloFails i reason)
  then show ?thesis using ok by (simp add: channelStep_def helloFailed_def case_prod_beta channelsOk_settle)
next
  case (DataArrives dat claimed)
  have "channelsOk crypto identity arrived (rc\<lparr>rc_store := (rc_store rc)[a := snd (openOne crypto dat (rc_store rc ! a))]\<rparr>)" for a
    by (rule channelsOk_store [OF ok]) (simp add: openOne_def split: option.split)+
  then show ?thesis
    using ok DataArrives by (simp add: channelStep_def channelOpen_def case_prod_beta split: option.split channel_state.split)
next
  case (Seal frame addr)
  have "channelsOk crypto identity arrived (rc\<lparr>rc_store := (rc_store rc)[addr := snd (sealFrame crypto frame (rc_store rc ! addr))]\<rparr>)"
    by (rule channelsOk_store [OF ok]) (simp_all add: sealFrame_def)
  then show ?thesis using ok Seal by (simp add: channelStep_def channelSeal_def case_prod_beta)
next
  case (Forget peer)
  then show ?thesis
    using ok by (auto simp: channelStep_def channelForget_def case_prod_beta Let_def channelsOk_settle split: option.split channel_state.split)
next
  case (Reset reason)
  have "channelsOk crypto identity arrived r \<Longrightarrow> channelsOk crypto identity arrived (snd (rejectAwaiting reason cs r))" for cs r
    by (induction cs arbitrary: r) (simp_all add: case_prod_beta channelsOk_settle split: channel_state.split)
  then show ?thesis using ok Reset by (simp add: channelStep_def channelReset_def case_prod_beta channelsOk_settle)
qed

lemma channels_run_ok: "channels_run crypto identity es rc \<Longrightarrow> channelsOk crypto identity (\<Union> (helloOf ` set es)) rc"
proof (induction rule: channels_run.induct)
  case (run_step es rc event)
  have "channelsOk crypto identity (\<Union> (helloOf ` set (es @ [event]))) rc" by (rule channelsOk_mono [OF run_step.IH]) auto
  then show ?case by (rule channelsOk_step) auto
qed (simp add: channelsOk_init)

end
