(* ===== verification/RelayChannelProperties.thy ===== *)
theory RelayChannelProperties
  imports RelayChannels
begin

text \<open>
  What a session's relay channels promise: a frame is attributed only to the device whose signed hello
  the channel rests on, and a handshake that starts with no channel on the initiating side ends with
  two channels that match. And what they do not: a hello that reaches a side whose channel is already
  established starts a handshake that never ends, and a hello with an unusable key rejects a promise
  that nobody awaits.
\<close>

subsection \<open>Handling one hello\<close>

lemma jset_jset: "jset (jset m k v) k w = jset m k w"
  by (induction m) auto

text \<open>The hello of a device this side has no handshake outstanding with is answered, and its channel replaces any other.\<close>

definition notAwaiting :: "relay_channels \<Rightarrow> device_id \<Rightarrow> bool" where
  "notAwaiting rc peer \<longleftrightarrow> (case jget (rc_channels rc) (deviceIdToHex peer) of Some (Awaiting _) \<Rightarrow> False | _ \<Rightarrow> True)"

lemma applyHelloBegin_answers:
  assumes "verifyHello identity hello = Ok peer" and "notAwaiting rc (peer_deviceId peer)"
    and "p = beginHandshake identity (fst fresh) (snd fresh) (peer_deviceId peer)"
  shows "applyHelloBegin identity fresh hello rc =
     ([SendHello (peer_deviceId peer) (ph_hello p)],
      rc\<lparr>rc_channels := jset (rc_channels rc) (deviceIdToHex (peer_deviceId peer)) (Awaiting (length (rc_entries rc))),
         rc_entries := rc_entries rc @ [\<lparr>he_pending = p, he_settled = Unsettled, he_waiters = []\<rparr>],
         rc_completing := rc_completing rc @ [(length (rc_entries rc), peer, hello)]\<rparr>)"
  using assms by (auto simp: applyHelloBegin_def start_def Let_def notAwaiting_def split: option.splits channel_state.splits)

lemma applyHello_answers:
  assumes "verifyHello identity hello = Ok peer" and "notAwaiting rc (peer_deviceId peer)"
    and "p = beginHandshake identity (fst fresh) (snd fresh) (peer_deviceId peer)"
    and "establishChannel crypto identity p hello peer = Some channel"
  shows "applyHello crypto identity fresh hello rc =
    ([SendHello (peer_deviceId peer) (ph_hello p)],
     rc\<lparr>rc_channels := jset (rc_channels rc) (deviceIdToHex (peer_deviceId peer)) (Established (length (rc_store rc))),
        rc_entries := rc_entries rc @ [\<lparr>he_pending = p, he_settled = Resolved (length (rc_store rc)), he_waiters = []\<rparr>],
        rc_store := rc_store rc @ [channel]\<rparr>)"
  using assms(4)
  by (simp add: applyHello_def applyHelloBegin_answers [OF assms(1-3)] finishCompleting_def applyHelloFinish_def Let_def
      settleResolve_def jset_jset)

lemma applyHello_completes:
  assumes v: "verifyHello identity hello = Ok peer"
    and key: "key = deviceIdToHex (peer_deviceId peer)" and awaiting: "jget (rc_channels rc) key = Some (Awaiting i)"
    and ch: "establishChannel crypto identity (he_pending (rc_entries rc ! i)) hello peer = Some channel"
    and unsettled: "he_settled (rc_entries rc ! i) = Unsettled"
  shows "applyHello crypto identity fresh hello rc =
    ([], rc\<lparr>rc_channels := jset (rc_channels rc) key (Established (length (rc_store rc))),
            rc_entries := (rc_entries rc)[i := (rc_entries rc ! i)\<lparr>he_settled := Resolved (length (rc_store rc))\<rparr>],
            rc_store := rc_store rc @ [channel]\<rparr>)"
  by (simp add: applyHello_def applyHelloBegin_def v awaiting [unfolded key] finishCompleting_def applyHelloFinish_def Let_def ch
      settleResolve_def key unsettled)

lemma honest_hello:
  assumes "honest_identity self other"
  shows "verifyHello other (ph_hello (beginHandshake self pair nonce (hi_deviceId other))) =
    Ok \<lparr>peer_deviceId = hi_deviceId self, peer_identityKey = hi_identityKey self\<rparr>"
  using assms by (simp add: verifyHello_def beginHandshake_def honest_identity_def)

lemma verifyHello_Ok:
  assumes "verifyHello identity hello = Ok peer"
  shows "sh_toDevice hello = hi_deviceId identity
    \<and> hi_deriveDeviceId identity (public_key (sh_identityKey hello)) = Some (peer_deviceId peer)
    \<and> hi_verify identity (sh_identityKey hello)
        (helloSigningInput (sh_ephemeralKey hello) (sh_nonce hello) (peer_deviceId peer) (hi_deviceId identity)) (sh_signature hello) = Some True"
  using assms by (auto simp: verifyHello_def split: option.splits if_splits)

lemma opened_channel:
  assumes ok: "channelsOk crypto identity arrived rc" and opened: "fst (channelOpen crypto dat claimed rc) = Some (frame, sender)"
  shows "\<exists>ch plaintext. claimed = Some sender \<and> peer_deviceId (sc_peer ch) = sender
    \<and> restsOn crypto identity arrived (ownHandshakes rc) ch
    \<and> decryptFrom crypto ch dat = Some plaintext \<and> cc_tryDecodeFrame crypto plaintext = Some frame"
proof -
  obtain device addr where claimed: "claimed = Some device"
      and est: "jget (rc_channels rc) (deviceIdToHex device) = Some (Established addr)"
      and sender: "sender = peer_deviceId (sc_peer (snd (openOne crypto dat (rc_store rc ! addr))))"
      and frame: "fst (openOne crypto dat (rc_store rc ! addr)) = Some frame"
    using opened by (auto simp: channelOpen_def case_prod_beta split: option.splits channel_state.splits)
  have same: "sc_peer (snd (openOne crypto dat (rc_store rc ! addr))) = sc_peer (rc_store rc ! addr)"
    by (simp add: openOne_def split: option.split)
  have "stateOk rc (deviceIdToHex device) (Established addr)"
    using ok map_of_SomeD [OF est] by (auto simp: channelsOk_def list_all_iff)
  then have "addr < length (rc_store rc)" "device = sender" by (simp_all add: stateOk_def sender same)
  moreover from this(1) have "restsOn crypto identity arrived (ownHandshakes rc) (rc_store rc ! addr)"
    using ok by (simp add: channelsOk_def list_all_length)
  moreover obtain plaintext where "decryptFrom crypto (rc_store rc ! addr) dat = Some plaintext"
      "cc_tryDecodeFrame crypto plaintext = Some frame"
    using frame by (auto simp: openOne_def split: option.splits if_splits)
  ultimately show ?thesis using claimed sender same by auto
qed

lemma opened_authenticated:
  assumes "channelsOk crypto identity arrived rc" and "fst (channelOpen crypto dat claimed rc) = Some (frame, sender)"
  shows "claimed = Some sender \<and> (\<exists>peer. authenticated arrived identity peer \<and> peer_deviceId peer = sender)"
  using opened_channel [OF assms] by (auto simp: restsOn_def authenticated_def)

subsection \<open>Properties\<close>

text \<open>C17: A frame is attributed only to the device that proved itself. Whatever hellos, data and relay
  stamps a session received before, when sealed data opens, the device it is attributed to is the one
  the relay named, and among the hellos received in the run there is one, signed for this device
  under an identity key from which that device's id is derived, whose ephemeral key and nonce, with
  those of a handshake this side started with that device, give the very keys that decrypt the data
  to the frame.\<close>

theorem relay_frames_attributed:
  assumes "channels_run crypto identity es rc" and "fst (channelOpen crypto dat claimed rc) = Some (frame, sender)"
  shows "claimed = Some sender \<and> (\<exists>hello fresh entry ch plaintext.
      HelloArrives hello fresh \<in> set es \<and> sh_toDevice hello = hi_deviceId identity
    \<and> hi_deriveDeviceId identity (public_key (sh_identityKey hello)) = Some sender
    \<and> hi_verify identity (sh_identityKey hello)
        (helloSigningInput (sh_ephemeralKey hello) (sh_nonce hello) sender (hi_deviceId identity)) (sh_signature hello) = Some True
    \<and> entry \<in> set (rc_entries rc) \<and> ph_peer (he_pending entry) = sender
    \<and> establishChannel crypto identity (he_pending entry) hello \<lparr>peer_deviceId = sender, peer_identityKey = sh_identityKey hello\<rparr> = Some ch
    \<and> decryptFrom crypto ch dat = Some plaintext \<and> cc_tryDecodeFrame crypto plaintext = Some frame)"
proof -
  from opened_channel [OF channels_run_ok [OF assms(1)] assms(2)] obtain ch plaintext where
    ch: "claimed = Some sender" "peer_deviceId (sc_peer ch) = sender"
      "restsOn crypto identity (\<Union> (helloOf ` set es)) (ownHandshakes rc) ch"
      "decryptFrom crypto ch dat = Some plaintext" "cc_tryDecodeFrame crypto plaintext = Some frame" by blast
  from ch(3) obtain hello p made where made: "hello \<in> \<Union> (helloOf ` set es)" "p \<in> ownHandshakes rc"
      "verifyHello identity hello = Ok (sc_peer ch)" "ph_peer p = peer_deviceId (sc_peer ch)"
      "establishChannel crypto identity p hello (sc_peer ch) = Some made"
      "sc_receiveKey ch = sc_receiveKey made" "sc_local ch = sc_local made"
    unfolding restsOn_def by blast
  obtain event where "event \<in> set es" "hello \<in> helloOf event" using made(1) by blast
  moreover have "\<exists>fresh. event = HelloArrives hello fresh" if "hello \<in> helloOf event" using that by (cases event) auto
  ultimately obtain fresh where arrives: "HelloArrives hello fresh \<in> set es" by blast
  obtain entry where entry: "entry \<in> set (rc_entries rc)" "he_pending entry = p" using made(2) by (auto simp: ownHandshakes_def)
  note v = verifyHello_Ok [OF made(3)]
  have peer: "sc_peer ch = \<lparr>peer_deviceId = sender, peer_identityKey = sh_identityKey hello\<rparr>"
    using made(3) unfolding ch(2) [symmetric] by (auto simp: verifyHello_def split: option.splits if_splits dest: sym)
  have "decryptFrom crypto made dat = decryptFrom crypto ch dat"
    using made(6,7) establishChannel_peer [OF made(5)] by (simp add: decryptFrom_def)
  with ch arrives entry made(4,5) v peer show ?thesis
    by (intro conjI exI [of _ hello] exI [of _ fresh] exI [of _ entry] exI [of _ made] exI [of _ plaintext]) simp_all
qed

definition sampleHello :: secure_hello where
  "sampleHello = ph_hello (beginHandshake (sampleHelloIdentity 2) ([4], [4]) [8] [1])"

definition sampleChannels :: relay_channels where
  "sampleChannels = channelStep sampleCrypto (sampleHelloIdentity 1) (HelloCompletes 0)
     (channelStep sampleCrypto (sampleHelloIdentity 1) (HelloArrives sampleHello (([3], [3]), [7])) createRelayChannels)"

lemma sampleChannels_run:
  "channels_run sampleCrypto (sampleHelloIdentity 1) [HelloArrives sampleHello (([3], [3]), [7]), HelloCompletes 0] sampleChannels"
  unfolding sampleChannels_def using run_step [OF run_step [OF run_init]] by fastforce

lemma sampleHello_verified:
  "verifyHello (sampleHelloIdentity 1) sampleHello = Ok \<lparr>peer_deviceId = [2], peer_identityKey = \<lparr>alg = -7, public_key = [2]\<rparr>\<rparr>"
  using honest_hello [OF sampleHelloIdentity_laws(1), of 1 2 "([4], [4])" "[8]"]
  by (simp add: sampleHello_def sampleHelloIdentity_def)

theorem relay_frames_attributed_witness:
  "\<exists>dat. fst (channelOpen sampleCrypto dat (Some [2]) sampleChannels) = Some ([5], [2])
    \<and> hi_deriveDeviceId (sampleHelloIdentity 1) (public_key (sh_identityKey sampleHello)) = Some [2]"
proof -
  let ?p = "beginHandshake (sampleHelloIdentity 1) ([3], [3]) [7] [2]"
  obtain ch where ch: "establishChannel sampleCrypto (sampleHelloIdentity 1) ?p sampleHello
      \<lparr>peer_deviceId = [2], peer_identityKey = \<lparr>alg = -7, public_key = [2]\<rparr>\<rparr> = Some ch" and start: "sc_highestReceived ch = -1"
    by (simp add: establishChannel_def sampleCrypto_def beginHandshake_def Let_def)
  note peer = establishChannel_peer [OF ch]
  have est: "jget (rc_channels sampleChannels) (deviceIdToHex [2]) = Some (Established 0)" "rc_store sampleChannels = [ch]"
    by (simp_all add: sampleChannels_def channelStep_def applyHelloBegin_def sampleHello_verified createRelayChannels_def
        start_def Let_def finishCompleting_def applyHelloFinish_def ch settleResolve_def)
  let ?dat = "\<lparr>sd_counter = 0, sd_ciphertext = cc_encrypt sampleCrypto (sc_receiveKey ch) (ivFor 0)
      (associatedData (peer_deviceId (sc_peer ch)) (sc_local ch) 0) [5]\<rparr>"
  have opened: "fst (channelOpen sampleCrypto ?dat (Some [2]) sampleChannels) = Some ([5], [2])"
    using peer start by (simp add: channelOpen_def est openOne_def decryptFrom_def sampleCrypto_laws) (simp add: sampleCrypto_def)
  from relay_frames_attributed [OF sampleChannels_run opened] opened show ?thesis by fastforce
qed

text \<open>C18: A handshake completes. When the initiating side has no channel or handshake for the peer, and the
  peer has none outstanding, asking for the channel sends one hello, the peer answers it with one and
  has its channel, and that answer completes the initiator's without another: the two channels then
  match in both directions.\<close>

theorem relay_handshake_completes:
  assumes "hi_deviceId idA \<noteq> hi_deviceId idB" and "honest_identity idA idB" and "honest_identity idB idA"
    and "cc_ecdh crypto (fst (fst fa)) (snd (fst fb)) = Some secret" and "cc_ecdh crypto (fst (fst fb)) (snd (fst fa)) = Some secret"
    and "jget (rc_channels rcA) (deviceIdToHex (hi_deviceId idB)) = None"
    and "jget (rc_channels rcB) (deviceIdToHex (hi_deviceId idA)) = None"
    and "ensure idA fa caller (hi_deviceId idB) rcA = (waits, sent, rcA1)"
  shows "\<exists>helloA helloB rcA2 rcB2 a b. sent = [SendHello (hi_deviceId idB) helloA]
    \<and> applyHello crypto idB fb helloA rcB = ([SendHello (hi_deviceId idA) helloB], rcB2)
    \<and> applyHello crypto idA fx helloB rcA1 = ([], rcA2)
    \<and> jget (rc_channels rcA2) (deviceIdToHex (hi_deviceId idB)) = Some (Established a)
    \<and> jget (rc_channels rcB2) (deviceIdToHex (hi_deviceId idA)) = Some (Established b)
    \<and> mirrored (rc_store rcA2 ! a) (rc_store rcB2 ! b) \<and> mirrored (rc_store rcB2 ! b) (rc_store rcA2 ! a)
    \<and> waits = AwaitsEntry (length (rc_entries rcA))
    \<and> he_settled (rc_entries rcA2 ! length (rc_entries rcA)) = Resolved a"
proof -
  let ?pA = "beginHandshake idA (fst fa) (snd fa) (hi_deviceId idB)"
  let ?pB = "beginHandshake idB (fst fb) (snd fb) (hi_deviceId idA)"
  let ?A = "\<lparr>peer_deviceId = hi_deviceId idA, peer_identityKey = hi_identityKey idA\<rparr>"
  let ?B = "\<lparr>peer_deviceId = hi_deviceId idB, peer_identityKey = hi_identityKey idB\<rparr>"
  let ?eB = "\<lparr>he_pending = ?pB, he_settled = Resolved (length (rc_store rcB)), he_waiters = []\<rparr>"
  obtain a b where ab: "establishChannel crypto idA ?pA (ph_hello ?pB) ?B = Some a"
      "establishChannel crypto idB ?pB (ph_hello ?pA) ?A = Some b" "mirrored a b" "mirrored b a"
    using establishChannel_mirrored [of idA idB crypto ?pA ?pB secret "hi_identityKey idB" "hi_identityKey idA"] assms(1,4,5)
    by (auto simp: beginHandshake_def)
  have A1: "waits = AwaitsEntry (length (rc_entries rcA))" "sent = [SendHello (hi_deviceId idB) (ph_hello ?pA)]"
    "rcA1 = rcA\<lparr>rc_channels := jset (rc_channels rcA) (deviceIdToHex (hi_deviceId idB)) (Awaiting (length (rc_entries rcA))),
       rc_entries := rc_entries rcA @ [\<lparr>he_pending = ?pA, he_settled = Unsettled, he_waiters = [caller]\<rparr>]\<rparr>"
    using assms(6,8) by (auto simp: ensure_def start_def addWaiter_def Let_def)
  have B: "applyHello crypto idB fb (ph_hello ?pA) rcB = ([SendHello (hi_deviceId idA) (ph_hello ?pB)],
      rcB\<lparr>rc_channels := jset (rc_channels rcB) (deviceIdToHex (hi_deviceId idA)) (Established (length (rc_store rcB))),
        rc_entries := rc_entries rcB @ [?eB], rc_store := rc_store rcB @ [b]\<rparr>)"
    using applyHello_answers [OF honest_hello [OF assms(2), of "fst fa" "snd fa"] _ refl,
        where rc = rcB and fresh = fb and crypto = crypto and channel = b] assms(7) ab(2) by (simp add: notAwaiting_def)
  have A2: "applyHello crypto idA fx (ph_hello ?pB) rcA1 = ([],
      rcA1\<lparr>rc_channels := jset (rc_channels rcA1) (deviceIdToHex (hi_deviceId idB)) (Established (length (rc_store rcA1))),
        rc_entries := (rc_entries rcA1)[length (rc_entries rcA) := (rc_entries rcA1 ! length (rc_entries rcA))\<lparr>he_settled := Resolved (length (rc_store rcA1))\<rparr>],
        rc_store := rc_store rcA1 @ [a]\<rparr>)"
    by (rule applyHello_completes [OF honest_hello [OF assms(3)]]) (simp_all add: A1(3) ab(1))
  show ?thesis
    using A1(1,2) B A2 ab(3,4)
    by (intro exI conjI) (assumption | simp add: A1(3) nth_append)+
qed

theorem relay_handshake_completes_witness:
  "\<exists>helloA helloB rcA2 rcB2 a. snd (ensure (sampleHelloIdentity 1) (([3], [3]), [7]) 0 [2] createRelayChannels) =
      ([SendHello [2] helloA], snd (snd (ensure (sampleHelloIdentity 1) (([3], [3]), [7]) 0 [2] createRelayChannels)))
    \<and> applyHello sampleCrypto (sampleHelloIdentity 2) (([4], [4]), [8]) helloA createRelayChannels = ([SendHello [1] helloB], rcB2)
    \<and> applyHello sampleCrypto (sampleHelloIdentity 1) (([5], [5]), [9]) helloB
        (snd (snd (ensure (sampleHelloIdentity 1) (([3], [3]), [7]) 0 [2] createRelayChannels))) = ([], rcA2)
    \<and> jget (rc_channels rcA2) (deviceIdToHex [2]) = Some (Established a)"
proof -
  obtain waits sent rc where asked: "ensure (sampleHelloIdentity 1) (([3], [3]), [7]) 0 [2] createRelayChannels = (waits, sent, rc)"
    by (metis prod_cases3)
  have "cc_ecdh sampleCrypto [3] [4] = Some [7]" "cc_ecdh sampleCrypto [4] [3] = Some [7]" by (simp_all add: sampleCrypto_def)
  then show ?thesis
    using relay_handshake_completes [OF _ sampleHelloIdentity_laws(1) [of 1 2] sampleHelloIdentity_laws(1) [of 2 1],
        where crypto = sampleCrypto and fa = "(([3], [3]), [7])" and fb = "(([4], [4]), [8])" and secret = "[7]" and caller = 0
          and rcA = createRelayChannels and rcB = createRelayChannels and fx = "(([5], [5]), [9])"] asked
    by (auto simp: sampleHelloIdentity_laws(2) createRelayChannels_def)
qed

text \<open>Delivering each hello to the side it is for, as long as the answer is a hello.\<close>

primrec pingpong ::
    "'f channel_crypto \<Rightarrow> (nat \<Rightarrow> key_material) \<Rightarrow> nat \<Rightarrow> hello_identity \<times> relay_channels \<Rightarrow> hello_identity \<times> relay_channels \<Rightarrow> secure_hello
      \<Rightarrow> secure_hello option" where
  "pingpong crypto fresh 0 x y hello = Some hello"
| "pingpong crypto fresh (Suc n) x y hello =
     (case applyHello crypto (fst x) (fresh n) hello (snd x) of
        ([SendHello _ hello'], rc) \<Rightarrow> pingpong crypto fresh n y (fst x, rc) hello'
      | _ \<Rightarrow> None)"

lemma establishChannel_Some:
  "cc_ecdh crypto (ph_privateKey p) (sh_ephemeralKey hello) \<noteq> None \<Longrightarrow> \<exists>ch. establishChannel crypto identity p hello peer = Some ch"
  by (auto simp: establishChannel_def Let_def)

lemma pingpong_continues:
  assumes "honest_identity (fst x) (fst y)" and "honest_identity (fst y) (fst x)"
    and "notAwaiting (snd x) (hi_deviceId (fst y))" and "notAwaiting (snd y) (hi_deviceId (fst x))"
    and "hello = ph_hello (beginHandshake (fst y) (fst late) (snd late) (hi_deviceId (fst x)))"
    and "\<And>i. cc_ecdh crypto (fst (fst (fresh i))) (snd (fst late)) \<noteq> None"
    and keys: "\<And>i j. cc_ecdh crypto (fst (fst (fresh i))) (snd (fst (fresh j))) \<noteq> None"
  shows "pingpong crypto fresh n x y hello \<noteq> None"
  using assms(1-6)
proof (induction n arbitrary: x y hello late)
  case (Suc n)
  let ?p = "beginHandshake (fst x) (fst (fresh n)) (snd (fresh n)) (hi_deviceId (fst y))"
  obtain ch where ch: "establishChannel crypto (fst x) ?p hello
      \<lparr>peer_deviceId = hi_deviceId (fst y), peer_identityKey = hi_identityKey (fst y)\<rparr> = Some ch"
  proof -
    have "cc_ecdh crypto (ph_privateKey ?p) (sh_ephemeralKey hello) \<noteq> None"
      using Suc.prems(6) by (simp add: Suc.prems(5) beginHandshake_def)
    from establishChannel_Some [OF this] show ?thesis using that by blast
  qed
  obtain rc where step: "applyHello crypto (fst x) (fresh n) hello (snd x) = ([SendHello (hi_deviceId (fst y)) (ph_hello ?p)], rc)"
      and est: "jget (rc_channels rc) (deviceIdToHex (hi_deviceId (fst y))) = Some (Established (length (rc_store (snd x))))"
    using applyHello_answers [OF honest_hello [OF Suc.prems(2), of "fst late" "snd late"] _ refl,
        where rc = "snd x" and fresh = "fresh n" and crypto = crypto and channel = ch] ch Suc.prems(3,5) by simp
  have "pingpong crypto fresh n y (fst x, rc) (ph_hello ?p) \<noteq> None"
    by (rule Suc.IH [of y "(fst x, rc)" "ph_hello ?p" "fresh n"])
      (use Suc.prems keys est in \<open>simp_all add: notAwaiting_def\<close>)
  then show ?case by (simp add: step)
qed simp

text \<open>A late hello starts a handshake that never ends. Neither side has a handshake outstanding, as when
  both channels are established, and a hello of one reaches the other: by replay, or after a request
  that timed out and was repeated. That side answers it with a hello of its own, which the other side
  answers in turn; after any number of deliveries a hello is still on its way, and each one has
  replaced the receiver's channel by one the other side does not have.\<close>

theorem late_hello_never_settles:
  assumes "honest_identity idA idB" and "honest_identity idB idA"
    and "notAwaiting rcA (hi_deviceId idB)" and "notAwaiting rcB (hi_deviceId idA)"
    and "\<And>i. cc_ecdh crypto (fst (fst (fresh i))) (snd pair) \<noteq> None"
    and "\<And>i j. cc_ecdh crypto (fst (fst (fresh i))) (snd (fst (fresh j))) \<noteq> None"
  shows "pingpong crypto fresh n (idA, rcA) (idB, rcB) (ph_hello (beginHandshake idB pair nonce (hi_deviceId idA))) \<noteq> None"
  by (rule pingpong_continues [of "(idA, rcA)" "(idB, rcB)" _ "(pair, nonce)"]) (use assms in \<open>auto simp del: not_None_eq\<close>)

theorem late_hello_never_settles_witness:
  "pingpong sampleCrypto (\<lambda>_. (([3], [3]), [7])) 1000 (sampleHelloIdentity 1, sampleChannels) (sampleHelloIdentity 2, createRelayChannels)
     (ph_hello (beginHandshake (sampleHelloIdentity 2) ([4], [4]) [8] [1])) \<noteq> None"
proof -
  have "notAwaiting sampleChannels [2]"
  proof -
    have "\<exists>ch. establishChannel sampleCrypto (sampleHelloIdentity 1) p h q = Some ch" for p h q
      by (rule establishChannel_Some) (simp add: sampleCrypto_def)
    then obtain ch where "establishChannel sampleCrypto (sampleHelloIdentity 1) (beginHandshake (sampleHelloIdentity 1) ([3], [3]) [7] [2])
        sampleHello \<lparr>peer_deviceId = [2], peer_identityKey = \<lparr>alg = -7, public_key = [2]\<rparr>\<rparr> = Some ch" by blast
    then show ?thesis
      by (simp add: notAwaiting_def sampleChannels_def channelStep_def applyHelloBegin_def sampleHello_verified createRelayChannels_def
        start_def Let_def finishCompleting_def applyHelloFinish_def settleResolve_def)
  qed
  moreover have "notAwaiting createRelayChannels [1]" by (simp add: notAwaiting_def createRelayChannels_def)
  moreover have "cc_ecdh sampleCrypto k e \<noteq> None" for k e by (simp add: sampleCrypto_def)
  ultimately show ?thesis
    using late_hello_never_settles [OF sampleHelloIdentity_laws(1) [of 1 2] sampleHelloIdentity_laws(1) [of 2 1]]
    unfolding sampleHelloIdentity_laws(2) by blast
qed

text \<open>A hello can be signed correctly and carry a key that is no point of the curve. It is refused, but
  the handshake this side started to answer it is rejected with nobody awaiting it, which the
  runtime reports as an unhandled rejection.\<close>

theorem unusable_key_rejects_unawaited:
  assumes "verifyHello identity hello = Ok peer" and "notAwaiting rc (peer_deviceId peer)"
    and "cc_ecdh crypto (fst (fst fresh)) (sh_ephemeralKey hello) = None"
  shows "\<exists>own rc'. applyHello crypto identity fresh hello rc =
    ([SendHello (peer_deviceId peer) own, UnhandledRejection ''the peer sent an unusable ephemeral key''], rc')"
proof -
  have "establishChannel crypto identity (beginHandshake identity (fst fresh) (snd fresh) (peer_deviceId peer)) hello peer = None"
    using assms(3) by (simp add: establishChannel_def beginHandshake_def)
  then show ?thesis
    by (simp add: applyHello_def applyHelloBegin_answers [OF assms(1,2) refl] finishCompleting_def applyHelloFinish_def settleReject_def Let_def)
qed

definition pointlessCrypto :: "bytes channel_crypto" where
  "pointlessCrypto = sampleCrypto\<lparr>cc_ecdh := (\<lambda>own other. if other = [0] then None else Some (map2 (+) own other))\<rparr>"

theorem unusable_key_rejects_unawaited_witness:
  "\<exists>own rc'. applyHello pointlessCrypto (sampleHelloIdentity 1) (([3], [3]), [7])
      (ph_hello (beginHandshake (sampleHelloIdentity 2) ([4], [0]) [8] [1])) createRelayChannels =
    ([SendHello [2] own, UnhandledRejection ''the peer sent an unusable ephemeral key''], rc')"
  using unusable_key_rejects_unawaited [OF honest_hello [OF sampleHelloIdentity_laws(1), of 1 2 "([4], [0])" "[8]"],
      where rc = createRelayChannels and crypto = pointlessCrypto and fresh = "(([3], [3]), [7])"]
  by (simp add: notAwaiting_def createRelayChannels_def pointlessCrypto_def beginHandshake_def sampleHelloIdentity_laws(2))

end
