(* ===== verification/SessionParts.thy ===== *)
theory SessionParts
  imports DeviceIds TokenPredicates
begin

text \<open>
  The parts a session is assembled from, under \<open>ts/packages/core/src/domain/\<close>: version and domain
  negotiation (\<open>handshake.ts\<close>), the relay pairings of one connection (\<open>relay-pairing.ts\<close>), the queue
  behind every stream a session offers (\<open>async-queue.ts\<close>), the pairing of pings with pongs
  (\<open>ping-round-trips.ts\<close>) and the topology self-advert (\<open>topology-snapshot.ts\<close>).
\<close>

subsection \<open>Negotiation\<close>

record handshake_frame =
  hs_version :: int
  hs_domains :: "string list"

record negotiation_result =
  nr_ok :: bool
  nr_version :: int
  nr_sharedDomains :: "string list"

definition SUPPORTED_PROTOCOL_VERSION :: int where "SUPPORTED_PROTOCOL_VERSION = 1"
definition RETIRED_DOMAINS :: "string list" where "RETIRED_DOMAINS = [''core/federation'']"

definition negotiate :: "handshake_frame \<Rightarrow> handshake_frame \<Rightarrow> negotiation_result" where
  "negotiate own remote =
     (let version = min (hs_version own) (hs_version remote);
          sharedDomains = filter (\<lambda>d. d \<notin> set RETIRED_DOMAINS \<and> d \<in> set (hs_domains remote)) (hs_domains own)
      in \<lparr>nr_ok = (version \<ge> 1 \<and> length sharedDomains > 0), nr_version = version, nr_sharedDomains = sharedDomains\<rparr>)"

lemma negotiate_symmetric:
  "nr_ok (negotiate a b) = nr_ok (negotiate b a) \<and> nr_version (negotiate a b) = nr_version (negotiate b a)
   \<and> set (nr_sharedDomains (negotiate a b)) = set (nr_sharedDomains (negotiate b a))
   \<and> set (nr_sharedDomains (negotiate a b)) = set (hs_domains a) \<inter> set (hs_domains b) - set RETIRED_DOMAINS"
proof -
  have shared: "set (nr_sharedDomains (negotiate x y)) = set (hs_domains x) \<inter> set (hs_domains y) - set RETIRED_DOMAINS" for x y
    by (auto simp: negotiate_def Let_def)
  have "nr_ok (negotiate x y) \<longleftrightarrow> nr_version (negotiate x y) \<ge> 1 \<and> set (nr_sharedDomains (negotiate x y)) \<noteq> {}" for x y
    by (auto simp: negotiate_def Let_def filter_empty_conv)
  moreover have "nr_version (negotiate a b) = nr_version (negotiate b a)" by (simp add: negotiate_def Let_def min.commute)
  ultimately show ?thesis using shared [of a b] shared [of b a] by (metis Int_commute)
qed

subsection \<open>Relay pairings\<close>

type_synonym relay_pairings = "(string, device_id) jmap"

definition pairingHas :: "device_id \<Rightarrow> relay_pairings \<Rightarrow> bool" where
  "pairingHas d ps \<longleftrightarrow> jget ps (deviceIdToHex d) \<noteq> None"

definition pairingAdd :: "device_id \<Rightarrow> relay_pairings \<Rightarrow> relay_pairings" where
  "pairingAdd d ps = jset ps (deviceIdToHex d) d"

definition pairingRemove :: "device_id \<Rightarrow> relay_pairings \<Rightarrow> relay_pairings" where
  "pairingRemove d ps = jdel ps (deviceIdToHex d)"

definition pairingList :: "relay_pairings \<Rightarrow> device_id list" where
  "pairingList ps = jvals ps"

lemma pairingHas_simps [simp]:
  "pairingHas d (pairingAdd e ps) \<longleftrightarrow> d = e \<or> pairingHas d ps"
  "pairingHas d (pairingRemove e ps) \<longleftrightarrow> d \<noteq> e \<and> pairingHas d ps"
  "\<not> pairingHas d []"
  by (auto simp: pairingHas_def pairingAdd_def pairingRemove_def)

subsection \<open>The queue behind a stream\<close>

record ('w, 'v) async_queue =
  aq_waiters :: "'w list"
  aq_backlog :: "'v list"

definition createAsyncQueue :: "('w, 'v) async_queue" where
  "createAsyncQueue = \<lparr>aq_waiters = [], aq_backlog = []\<rparr>"

definition queuePush :: "'v \<Rightarrow> ('w, 'v) async_queue \<Rightarrow> ('w \<times> 'v) list \<times> ('w, 'v) async_queue" where
  "queuePush v q =
     (case aq_waiters q of
        w # ws \<Rightarrow> ([(w, v)], q\<lparr>aq_waiters := ws\<rparr>)
      | [] \<Rightarrow> ([], q\<lparr>aq_backlog := aq_backlog q @ [v]\<rparr>))"

definition queueNext :: "'w \<Rightarrow> ('w, 'v) async_queue \<Rightarrow> ('w \<times> 'v) list \<times> ('w, 'v) async_queue" where
  "queueNext w q =
     (case aq_backlog q of
        v # vs \<Rightarrow> ([(w, v)], q\<lparr>aq_backlog := vs\<rparr>)
      | [] \<Rightarrow> ([], q\<lparr>aq_waiters := aq_waiters q @ [w]\<rparr>))"

datatype ('w, 'v) queue_call = Push 'v | Next 'w

primrec queueRun :: "('w, 'v) queue_call list \<Rightarrow> ('w, 'v) async_queue \<Rightarrow> ('w \<times> 'v) list \<times> ('w, 'v) async_queue" where
  "queueRun [] q = ([], q)"
| "queueRun (c # cs) q =
     (case (case c of Push v \<Rightarrow> queuePush v q | Next w \<Rightarrow> queueNext w q) of (ds, q') \<Rightarrow>
        case queueRun cs q' of (es, q'') \<Rightarrow> (ds @ es, q''))"

fun pushed :: "('w, 'v) queue_call list \<Rightarrow> 'v list" where
  "pushed [] = []"
| "pushed (Push v # cs) = v # pushed cs"
| "pushed (Next w # cs) = pushed cs"

fun asked :: "('w, 'v) queue_call list \<Rightarrow> 'w list" where
  "asked [] = []"
| "asked (Push v # cs) = asked cs"
| "asked (Next w # cs) = w # asked cs"

text \<open>Pushes and requests in any order: the \<open>n\<close>-th value goes to the \<open>n\<close>-th request, nothing is lost or
  repeated, and what is left over is on one side only.\<close>

lemma queueRun_fifo:
  assumes "aq_waiters q = [] \<or> aq_backlog q = []" and "queueRun cs q = (ds, q')"
  shows "ds = zip (aq_waiters q @ asked cs) (aq_backlog q @ pushed cs)
    \<and> aq_waiters q' = drop (length ds) (aq_waiters q @ asked cs) \<and> aq_backlog q' = drop (length ds) (aq_backlog q @ pushed cs)
    \<and> (aq_waiters q' = [] \<or> aq_backlog q' = [])"
  using assms
proof (induction cs arbitrary: q ds)
  case Nil
  then show ?case by auto
next
  case (Cons c cs)
  obtain d q1 where step: "(case c of Push v \<Rightarrow> queuePush v q | Next w \<Rightarrow> queueNext w q) = (d, q1)" by fastforce
  obtain e where rest: "queueRun cs q1 = (e, q')" "ds = d @ e" using Cons.prems(2) step by (auto simp: case_prod_beta prod_eq_iff)
  show ?case
  proof (cases c)
    case (Push v)
    then show ?thesis
      using Cons.prems(1) step rest Cons.IH [OF _ rest(1)]
      by (cases "aq_waiters q") (auto simp: queuePush_def simp del: drop_append)
  next
    case (Next w)
    then show ?thesis
      using Cons.prems(1) step rest Cons.IH [OF _ rest(1)]
      by (cases "aq_backlog q") (auto simp: queueNext_def simp del: drop_append)
  qed
qed

subsection \<open>Pings\<close>

text \<open>A pending call and the time it was made; settlements are the promises that were resolved or rejected.\<close>

type_synonym ping_round_trips = "(nat \<times> int) list"

datatype ping_settlement = RoundTrip nat int | PingRejected nat string | PingTimedOut nat

definition pingRegister :: "nat \<Rightarrow> int \<Rightarrow> ping_round_trips \<Rightarrow> ping_round_trips" where
  "pingRegister call sentAt ps = ps @ [(call, sentAt)]"

definition resolveOldest :: "int \<Rightarrow> ping_round_trips \<Rightarrow> ping_settlement list \<times> ping_round_trips" where
  "resolveOldest now ps = (case ps of [] \<Rightarrow> ([], []) | (call, sentAt) # rest \<Rightarrow> ([RoundTrip call (now - sentAt)], rest))"

definition pingRejectAll :: "string \<Rightarrow> ping_round_trips \<Rightarrow> ping_settlement list \<times> ping_round_trips" where
  "pingRejectAll reason ps = (map (\<lambda>(call, _). PingRejected call reason) ps, [])"

fun pingCancel :: "int \<Rightarrow> ping_round_trips \<Rightarrow> bool \<times> ping_round_trips" where
  "pingCancel sentAt [] = (False, [])"
| "pingCancel sentAt ((call, t) # rest) =
     (if t = sentAt then (True, rest) else case pingCancel sentAt rest of (found, rest') \<Rightarrow> (found, (call, t) # rest'))"

text \<open>The timer of a call made at \<open>sentAt\<close>.\<close>

definition pingTimeout :: "nat \<Rightarrow> int \<Rightarrow> ping_round_trips \<Rightarrow> ping_settlement list \<times> ping_round_trips" where
  "pingTimeout call sentAt ps =
     (case pingCancel sentAt ps of (found, rest) \<Rightarrow> (if found then [PingTimedOut call] else [], rest))"

text \<open>Two pings made in the same millisecond share their key. When the second one's timer fires first it
  removes the first one's entry; the pong then settles the second call again, which changes nothing,
  and the first call's own timer finds no entry, so the first call is never settled.\<close>

lemma ping_never_settles:
  "let ps = pingRegister 2 t (pingRegister 1 t []);
       (timedOut, ps1) = pingTimeout 2 t ps;
       (answered, ps2) = resolveOldest now ps1;
       (late, ps3) = pingTimeout 1 t ps2
   in timedOut = [PingTimedOut 2] \<and> answered = [RoundTrip 2 (now - t)] \<and> late = [] \<and> ps3 = []"
  by (simp add: pingRegister_def pingTimeout_def resolveOldest_def)

subsection \<open>Topology self-advert\<close>

record topology_peers =
  tp_direct :: "device_id list"
  tp_relayed :: "(device_id \<times> device_id option) list"

definition directPeerDevice :: "device_id option \<Rightarrow> device_id option \<Rightarrow> bool \<Rightarrow> device_id option" where
  "directPeerDevice authenticatedPeer firstAdvertised isAccepted =
     (case authenticatedPeer of Some d \<Rightarrow> Some d | None \<Rightarrow> if isAccepted then firstAdvertised else None)"

definition computeTopologyPeers :: "device_id option \<Rightarrow> device_id option \<Rightarrow> bool \<Rightarrow> device_id list \<Rightarrow> topology_peers" where
  "computeTopologyPeers authenticatedPeer firstAdvertised isAccepted relayed =
     (let direct = directPeerDevice authenticatedPeer firstAdvertised isAccepted
      in \<lparr>tp_direct = (case direct of Some d \<Rightarrow> [d] | None \<Rightarrow> []), tp_relayed = map (\<lambda>d. (d, direct)) relayed\<rparr>)"

definition recordAdvert :: "device_id \<Rightarrow> device_id option \<Rightarrow> device_id option" where
  "recordAdvert d first = (case first of Some f \<Rightarrow> Some f | None \<Rightarrow> Some d)"

end
