(* ===== verification/MeshSession.thy ===== *)
theory MeshSession
  imports RelayChannels SessionParts PeerAdverts HubMailbox Tokens Election Bulk
begin

text \<open>
  \<open>ts/packages/core/src/domain/mesh-session.ts\<close>: one node's session over one connection at a time. An
  operation maps the session to the error it throws, if any, what it does outwardly and the session
  it leaves; \<open>andThen\<close> and \<open>tryCatch\<close> compose operations the way the source's statements and catch
  clauses do. What the source suspends is kept in the session until the event that resumes it: dials
  (\<open>ss_dialling\<close>), relayed frames waiting for their channel (\<open>ss_waiting\<close>), manage-requests waiting for
  their answer (\<open>ss_pending\<close>), timers, and the receive loop of each connection (\<open>ss_consumers\<close>). A send
  on a connection succeeds or fails at once. The streams a session offers are modelled by the values
  pushed to them; theory \<open>SessionParts\<close> shows the queue behind them delivers those in order.
\<close>

type_synonym link = nat

datatype handshake_status = HsPending | HsNegotiated int "string list" | HsUnanswered | HsRejected string

datatype connection_state =
    Idle
  | Connecting string
  | Connected string handshake_status
  | Reconnecting string nat string
  | Closed string string

datatype manage_outcome = ManageOk "(string \<times> json_value) list" | ManageError string "string option"

record manage_request =
  mr_requestId :: nat
  mr_command :: manage_command
  mr_scope :: capability_scope
  mr_token :: "cose_sign1 option"

datatype mesh_frame =
    FHandshake handshake_frame
  | FGossip "peer_advert list"
  | FRelayConnect device_id
  | FRelayInbound device_id
  | FRelayData bytes "device_id option" "device_id option"
  | FManageRequest manage_request
  | FManageResponse nat manage_outcome
  | FPing
  | FPong
  | FRevocationAnnounce "cose_sign1 list"
  | FData data_frame
  | FCoordinator coordinator_frame
  | FSecureHello secure_hello
  | FSecureData secure_data
  | FOther

text \<open>Where a relayed frame came from: the device its channel authenticated and the one it was addressed to.\<close>

type_synonym origin = "device_id \<times> device_id option"

record incoming_request =
  ir_request :: manage_request
  ir_origin :: "origin option"

record incoming_data =
  id_frame :: data_frame
  id_origin :: "origin option"

datatype direction = Sent | Received

datatype send_purpose = ForRequest nat | ForResponse | ForData

record waiting_send =
  ws_entry :: nat
  ws_frame :: mesh_frame
  ws_to :: device_id
  ws_purpose :: send_purpose

record mesh_session =
  ss_connection :: "link option"
  ss_state :: connection_state
  ss_handshake :: handshake_status
  ss_directory :: "(string, peer_advert) jmap"
  ss_frameLog :: "(direction \<times> mesh_frame) list"
  ss_feedCancelled :: bool
  ss_handshakeTimer :: bool
  ss_reconnectTimer :: "(string \<times> string list) option"
  ss_attempt :: nat
  ss_currentToken :: "cose_sign1 option"
  ss_nextRequestId :: nat
  ss_pairings :: relay_pairings
  ss_firstAdvert :: "device_id option"
  ss_pending :: "(nat, device_id option) jmap"
  ss_channels :: relay_channels
  ss_incoming :: "incoming_request list"
  ss_revocations :: "cose_sign1 list"
  ss_coordinator :: "coordinator_frame list"
  ss_data :: "incoming_data list"
  ss_pings :: ping_round_trips
  ss_localHandshake :: handshake_frame
  ss_dialling :: "(string \<times> string list) list"
  ss_waiting :: "waiting_send list"
  ss_consumers :: "(link, string \<times> string list \<times> bool) jmap"

datatype session_effect =
    SendsFrame link mesh_frame
  | Emits connection_state
  | ResolvesRequest nat manage_outcome
  | RejectsRequest nat string
  | RejectsSend string
  | PeerAdvertSeen peer_advert
  | PingSettles ping_settlement
  | Dials string
  | ClosesLink link
  | SessionEnded link
  | Unhandled string

record session_env =
  se_identity :: hello_identity
  se_crypto :: "mesh_frame channel_crypto"
  se_verifier :: advert_verifier
  se_reconnect :: "nat option"
  se_canDial :: bool
  se_addresses :: "string list"
  se_version :: string
  se_redial :: "link \<Rightarrow> string option"
  se_authPeer :: "link \<Rightarrow> device_id option"

text \<open>What varies from step to step: which connections take a send, fresh key material and the clock.\<close>

record moment =
  mo_alive :: "link \<Rightarrow> bool"
  mo_fresh :: key_material
  mo_clock :: int

definition FRAME_LOG_WINDOW :: nat where "FRAME_LOG_WINDOW = 256"
definition MS_PER_SECOND :: int where "MS_PER_SECOND = 1000"
definition VERSION_GET_VERB :: string where "VERSION_GET_VERB = ''version.get''"

subsection \<open>Operations and their composition\<close>

type_synonym session_op = "mesh_session \<Rightarrow> string option \<times> session_effect list \<times> mesh_session"

definition skip :: session_op where "skip s = (None, [], s)"
definition throwing :: "string \<Rightarrow> session_op" where "throwing e s = (Some e, [], s)"
definition perform :: "session_effect list \<Rightarrow> session_op" where "perform fx s = (None, fx, s)"
definition modify :: "(mesh_session \<Rightarrow> mesh_session) \<Rightarrow> session_op" where "modify f s = (None, [], f s)"

definition andThen :: "session_op \<Rightarrow> session_op \<Rightarrow> session_op" where
  "andThen f g s =
     (case f s of
        (Some e, fx, s') \<Rightarrow> (Some e, fx, s')
      | (None, fx, s') \<Rightarrow> (case g s' of (r, gx, s'') \<Rightarrow> (r, fx @ gx, s'')))"

definition tryCatch :: "session_op \<Rightarrow> (string \<Rightarrow> session_op) \<Rightarrow> session_op" where
  "tryCatch f h s =
     (case f s of
        (None, fx, s') \<Rightarrow> (None, fx, s')
      | (Some e, fx, s') \<Rightarrow> (case h e s' of (r, gx, s'') \<Rightarrow> (r, fx @ gx, s'')))"

primrec inSequence :: "session_op list \<Rightarrow> session_op" where
  "inSequence [] = skip"
| "inSequence (f # fs) = andThen f (inSequence fs)"

subsection \<open>Small pieces\<close>

definition localHandshake :: "string list \<Rightarrow> handshake_frame" where
  "localHandshake domains = \<lparr>hs_version = SUPPORTED_PROTOCOL_VERSION, hs_domains = domains\<rparr>"

definition pushLog :: "direction \<times> mesh_frame \<Rightarrow> (direction \<times> mesh_frame) list \<Rightarrow> (direction \<times> mesh_frame) list" where
  "pushLog entry frameLog =
     (let l = frameLog @ [entry]
      in if length l > FRAME_LOG_WINDOW then drop (length l - FRAME_LOG_WINDOW) l else l)"

definition recordFrame :: "direction \<Rightarrow> mesh_frame \<Rightarrow> session_op" where
  "recordFrame d f = modify (\<lambda>s. s\<lparr>ss_frameLog := pushLog (d, f) (ss_frameLog s)\<rparr>)"

definition emit :: session_op where
  "emit s = perform [Emits (ss_state s)] s"

definition sendOn :: "moment \<Rightarrow> link \<Rightarrow> mesh_frame \<Rightarrow> session_op" where
  "sendOn m l f = (if mo_alive m l then perform [SendsFrame l f] else throwing ''send failed'')"

definition rejectPendingManageRequests :: "string \<Rightarrow> session_op" where
  "rejectPendingManageRequests reason s =
     (None, map (\<lambda>i. RejectsRequest i reason) (jkeys (ss_pending s)), s\<lparr>ss_pending := []\<rparr>)"

definition rejectAllPings :: "string \<Rightarrow> session_op" where
  "rejectAllPings reason s =
     (case pingRejectAll reason (ss_pings s) of (rs, ps) \<Rightarrow> (None, map PingSettles rs, s\<lparr>ss_pings := ps\<rparr>))"

definition buildManageRequest :: "manage_command \<Rightarrow> capability_scope \<Rightarrow> cose_sign1 option \<Rightarrow> mesh_session \<Rightarrow> manage_request \<times> mesh_session" where
  "buildManageRequest command scope' tokenOverride s =
     (\<lparr>mr_requestId = ss_nextRequestId s, mr_command = command, mr_scope = scope',
       mr_token = (case tokenOverride of Some t \<Rightarrow> Some t | None \<Rightarrow> ss_currentToken s)\<rparr>,
      s\<lparr>ss_nextRequestId := ss_nextRequestId s + 1\<rparr>)"

definition requireConnectedLink :: "mesh_session \<Rightarrow> link option" where
  "requireConnectedLink s =
     (case ss_connection s of
        None \<Rightarrow> None
      | Some l \<Rightarrow> (case ss_state s of Connected _ _ \<Rightarrow> Some l | _ \<Rightarrow> None))"

definition whenConnected :: "(link \<Rightarrow> session_op) \<Rightarrow> session_op" where
  "whenConnected f s = (case requireConnectedLink s of None \<Rightarrow> throwing ''not connected'' s | Some l \<Rightarrow> f l s)"

definition isVersionGetCommand :: "(string \<times> json_value) list \<Rightarrow> bool" where
  "isVersionGetCommand params \<longleftrightarrow> jget params ''verb'' = Some (JString VERSION_GET_VERB)"

definition versionGetOutcome :: "session_env \<Rightarrow> manage_outcome" where
  "versionGetOutcome env = ManageOk [(''version'', JString (se_version env))]"

definition wrapRelayData :: "session_env \<Rightarrow> mesh_frame \<Rightarrow> device_id option \<Rightarrow> mesh_frame" where
  "wrapRelayData env f to = FRelayData (cc_messageFromFrame (se_crypto env) f) to None"

subsection \<open>Relayed frames\<close>

text \<open>The hello sender given to the relay channels, with the catch of \<open>start\<close>: the handshake just started is the last one.\<close>

definition sendHello :: "session_env \<Rightarrow> moment \<Rightarrow> device_id \<Rightarrow> secure_hello \<Rightarrow> session_op" where
  "sendHello env m peer hello s =
     (case ss_connection s of
        None \<Rightarrow> throwing ''not connected'' s
      | Some l \<Rightarrow>
          inSequence [recordFrame Sent (FSecureHello hello), sendOn m l (wrapRelayData env (FSecureHello hello) (Some peer)), emit] s)"

definition helloNotSent :: "string \<Rightarrow> session_op" where
  "helloNotSent e s =
     (case helloFailed (length (rc_entries (ss_channels s)) - 1) e (ss_channels s) of
        (fx, rc) \<Rightarrow> (None, List.map_filter (\<lambda>x. case x of UnhandledRejection r \<Rightarrow> Some (Unhandled r) | _ \<Rightarrow> None) fx,
                     s\<lparr>ss_channels := rc\<rparr>))"

definition channelEffect :: "session_env \<Rightarrow> moment \<Rightarrow> channel_effect \<Rightarrow> session_op" where
  "channelEffect env m x =
     (case x of
        SendHello peer hello \<Rightarrow> tryCatch (sendHello env m peer hello) helloNotSent
      | UnhandledRejection r \<Rightarrow> perform [Unhandled r])"

definition channelEffects :: "session_env \<Rightarrow> moment \<Rightarrow> channel_effect list \<Rightarrow> session_op" where
  "channelEffects env m fx = inSequence (map (channelEffect env m) fx)"

definition sealAndSend :: "session_env \<Rightarrow> moment \<Rightarrow> link \<Rightarrow> nat \<Rightarrow> mesh_frame \<Rightarrow> device_id \<Rightarrow> session_op" where
  "sealAndSend env m l addr f d s =
     (case channelSeal (se_crypto env) f addr (ss_channels s) of
        (sealed, rc) \<Rightarrow> sendOn m l (wrapRelayData env (FSecureData sealed) (Some d)) (s\<lparr>ss_channels := rc\<rparr>))"

text \<open>\<open>transmit\<close> and the emit every caller does after it; a relayed frame whose channel is not there yet waits.\<close>

definition transmit :: "session_env \<Rightarrow> moment \<Rightarrow> send_purpose \<Rightarrow> mesh_frame \<Rightarrow> bool \<Rightarrow> device_id option \<Rightarrow> session_op" where
  "transmit env m purpose f viaRelay toDevice s =
     (case ss_connection s of
        None \<Rightarrow> throwing ''not connected'' s
      | Some l \<Rightarrow>
          if \<not> viaRelay then andThen (sendOn m l f) emit s
          else (case toDevice of
                  None \<Rightarrow> throwing ''a relayed frame needs the device it is for'' s
                | Some d \<Rightarrow>
                    (case ensure (se_identity env) (mo_fresh m) (length (ss_waiting s)) d (ss_channels s) of
                       (ChannelReady addr, fx, rc) \<Rightarrow> andThen (sealAndSend env m l addr f d) emit (s\<lparr>ss_channels := rc\<rparr>)
                     | (AwaitsEntry i, fx, rc) \<Rightarrow>
                         channelEffects env m fx
                           (s\<lparr>ss_channels := rc,
                              ss_waiting := ss_waiting s @ [\<lparr>ws_entry = i, ws_frame = f, ws_to = d, ws_purpose = purpose\<rparr>]\<rparr>))))"

definition sendFailed :: "send_purpose \<Rightarrow> string \<Rightarrow> session_op" where
  "sendFailed purpose e =
     (case purpose of
        ForRequest i \<Rightarrow> (\<lambda>s. (None, [RejectsRequest i e], s\<lparr>ss_pending := jdel (ss_pending s) i\<rparr>))
      | ForResponse \<Rightarrow> perform [RejectsSend e]
      | ForData \<Rightarrow> perform [RejectsSend e])"

definition resumeSend :: "session_env \<Rightarrow> moment \<Rightarrow> nat \<Rightarrow> session_op" where
  "resumeSend env m k s =
     (if k \<ge> length (ss_waiting s) then skip s
      else let w = ss_waiting s ! k;
               s' = s\<lparr>ss_waiting := take k (ss_waiting s) @ drop (Suc k) (ss_waiting s)\<rparr>
           in case he_settled (rc_entries (ss_channels s) ! ws_entry w) of
                Unsettled \<Rightarrow> skip s
              | RejectedWith r \<Rightarrow> sendFailed (ws_purpose w) r s'
              | Resolved addr \<Rightarrow>
                  (case ss_connection s of
                     None \<Rightarrow> skip s'
                   | Some l \<Rightarrow> tryCatch (andThen (sealAndSend env m l addr (ws_frame w) (ws_to w)) emit) (sendFailed (ws_purpose w)) s'))"

definition ensureRelayPairing :: "moment \<Rightarrow> device_id \<Rightarrow> session_op" where
  "ensureRelayPairing m target s =
     (case ss_connection s of
        None \<Rightarrow> throwing ''not connected'' s
      | Some l \<Rightarrow>
          if pairingHas target (ss_pairings s) then skip s
          else inSequence [recordFrame Sent (FRelayConnect target), sendOn m l (FRelayConnect target),
                 modify (\<lambda>s. s\<lparr>ss_pairings := pairingAdd target (ss_pairings s)\<rparr>), emit] s)"

subsection \<open>Received frames\<close>

definition applyManageResponse :: "nat \<Rightarrow> manage_outcome \<Rightarrow> device_id option \<Rightarrow> session_op" where
  "applyManageResponse requestId outcome sender s =
     (case jget (ss_pending s) requestId of
        None \<Rightarrow> skip s
      | Some expected \<Rightarrow>
          if (case expected of
                None \<Rightarrow> sender = None
              | Some d \<Rightarrow> (case sender of None \<Rightarrow> False | Some e \<Rightarrow> deviceIdToHex e = deviceIdToHex d))
          then (None, [ResolvesRequest requestId outcome], s\<lparr>ss_pending := jdel (ss_pending s) requestId\<rparr>)
          else skip s)"

definition respond :: "session_env \<Rightarrow> moment \<Rightarrow> incoming_request \<Rightarrow> manage_outcome \<Rightarrow> session_op" where
  "respond env m incoming outcome =
     (let response = FManageResponse (mr_requestId (ir_request incoming)) outcome
      in andThen (recordFrame Sent response)
           (transmit env m ForResponse response (ir_origin incoming \<noteq> None) (map_option fst (ir_origin incoming))))"

definition applyManageRequest :: "session_env \<Rightarrow> moment \<Rightarrow> manage_request \<Rightarrow> origin option \<Rightarrow> session_op" where
  "applyManageRequest env m request orig =
     (let incoming = \<lparr>ir_request = request, ir_origin = orig\<rparr>
      in if isVersionGetCommand (mc_params (mr_command request))
         then tryCatch (respond env m incoming (versionGetOutcome env)) (\<lambda>e. perform [Unhandled e])
         else modify (\<lambda>s. s\<lparr>ss_incoming := ss_incoming s @ [incoming]\<rparr>))"

definition applyRemoteHandshake :: "handshake_frame \<Rightarrow> mesh_session \<Rightarrow> mesh_session" where
  "applyRemoteHandshake remote s =
     (if ss_handshake s \<noteq> HsPending then s
      else let result = negotiate (ss_localHandshake s) remote;
               hs = (if nr_ok result then HsNegotiated (nr_version result) (nr_sharedDomains result)
                     else HsRejected ''no shared domains or version'')
           in s\<lparr>ss_handshakeTimer := False, ss_handshake := hs,
                ss_state := (case ss_state s of Connected a _ \<Rightarrow> Connected a hs | st \<Rightarrow> st)\<rparr>)"

definition applyAdvert :: "peer_advert \<Rightarrow> session_op" where
  "applyAdvert advert s =
     (let key = deviceIdToHex (device advert)
      in if (case jget (ss_directory s) key of None \<Rightarrow> False | Some held \<Rightarrow> snapshotSeconds advert < snapshotSeconds held) then skip s
         else (None, [PeerAdvertSeen advert],
               s\<lparr>ss_directory := jset (ss_directory s) key advert, ss_firstAdvert := recordAdvert (device advert) (ss_firstAdvert s)\<rparr>))"

definition applyOpened :: "session_env \<Rightarrow> moment \<Rightarrow> mesh_frame \<Rightarrow> device_id \<Rightarrow> device_id option \<Rightarrow> session_op" where
  "applyOpened env m f sender to =
     (case f of
        FManageResponse i outcome \<Rightarrow> andThen (recordFrame Received f) (applyManageResponse i outcome (Some sender))
      | FData d \<Rightarrow> andThen (recordFrame Received f)
          (modify (\<lambda>s. s\<lparr>ss_data := ss_data s @ [\<lparr>id_frame = d, id_origin = Some (sender, to)\<rparr>]\<rparr>))
      | FManageRequest r \<Rightarrow> andThen (recordFrame Received f) (applyManageRequest env m r (Some (sender, to)))
      | _ \<Rightarrow> skip)"

definition applyRelayData :: "session_env \<Rightarrow> moment \<Rightarrow> bytes \<Rightarrow> device_id option \<Rightarrow> device_id option \<Rightarrow> session_op" where
  "applyRelayData env m body to claimed =
     (case cc_tryDecodeFrame (se_crypto env) body of
        Some (FSecureHello hello) \<Rightarrow>
          andThen (recordFrame Received (FSecureHello hello))
            (\<lambda>s. case applyHello (se_crypto env) (se_identity env) (mo_fresh m) hello (ss_channels s) of
                   (fx, rc) \<Rightarrow> channelEffects env m fx (s\<lparr>ss_channels := rc\<rparr>))
      | Some (FSecureData dat) \<Rightarrow>
          (\<lambda>s. case channelOpen (se_crypto env) dat claimed (ss_channels s) of
                 (None, rc) \<Rightarrow> skip (s\<lparr>ss_channels := rc\<rparr>)
               | (Some (f, sender), rc) \<Rightarrow> applyOpened env m f sender to (s\<lparr>ss_channels := rc\<rparr>))
      | _ \<Rightarrow> recordFrame Received (FRelayData body to claimed))"

definition applyFrame :: "session_env \<Rightarrow> moment \<Rightarrow> mesh_frame \<Rightarrow> session_op" where
  "applyFrame env m f =
     (case f of
        FRelayData body to claimed \<Rightarrow> applyRelayData env m body to claimed
      | _ \<Rightarrow>
          andThen (recordFrame Received f)
            (case f of
               FHandshake remote \<Rightarrow> modify (applyRemoteHandshake remote)
             | FGossip peers \<Rightarrow> inSequence (map applyAdvert (filter (verifyPeerAdvert (se_verifier env)) peers))
             | FRelayInbound source \<Rightarrow> modify (\<lambda>s. s\<lparr>ss_pairings := pairingAdd source (ss_pairings s)\<rparr>)
             | FManageResponse i outcome \<Rightarrow> applyManageResponse i outcome None
             | FManageRequest r \<Rightarrow> applyManageRequest env m r None
             | FPong \<Rightarrow> (\<lambda>s. case resolveOldest (mo_clock m) (ss_pings s) of
                              (rs, ps) \<Rightarrow> (None, map PingSettles rs, s\<lparr>ss_pings := ps\<rparr>))
             | FRevocationAnnounce entries \<Rightarrow> modify (\<lambda>s. s\<lparr>ss_revocations := ss_revocations s @ entries\<rparr>)
             | FData d \<Rightarrow> modify (\<lambda>s. s\<lparr>ss_data := ss_data s @ [\<lparr>id_frame = d, id_origin = None\<rparr>]\<rparr>)
             | FCoordinator c \<Rightarrow> modify (\<lambda>s. s\<lparr>ss_coordinator := ss_coordinator s @ [c]\<rparr>)
             | _ \<Rightarrow> skip))"

subsection \<open>Connections\<close>

definition handleDisconnect :: "session_env \<Rightarrow> string \<Rightarrow> string \<Rightarrow> string list \<Rightarrow> session_op" where
  "handleDisconnect env reason address domains s =
     (if ss_feedCancelled s then skip s
      else inSequence
        [rejectPendingManageRequests ''disconnected before a response arrived'',
         rejectAllPings ''disconnected before a pong arrived'',
         (\<lambda>s. if (case se_reconnect env of None \<Rightarrow> False | Some maxAttempts \<Rightarrow> ss_attempt s < maxAttempts)
              then andThen (modify (\<lambda>s. s\<lparr>ss_attempt := ss_attempt s + 1,
                                        ss_state := Reconnecting address (ss_attempt s + 1) reason\<rparr>))
                     (andThen emit (modify (\<lambda>s. s\<lparr>ss_reconnectTimer := Some (address, domains)\<rparr>))) s
              else andThen (modify (\<lambda>s. s\<lparr>ss_state := Closed address reason\<rparr>)) emit s)] s)"

definition topologyJson :: "topology_peers \<Rightarrow> json_value" where
  "topologyJson tp =
     JObject [(''direct'', JArray (map JBytes (tp_direct tp))),
              (''relayed'', JArray (map (\<lambda>(d, via). JObject ((''device'', JBytes d)
                 # (case via of Some v \<Rightarrow> [(''via'', JBytes v)] | None \<Rightarrow> []))) (tp_relayed tp)))]"

definition getTopologyPeers :: "session_env \<Rightarrow> mesh_session \<Rightarrow> topology_peers" where
  "getTopologyPeers env s =
     computeTopologyPeers (Option.bind (ss_connection s) (se_authPeer env)) (ss_firstAdvert s) (\<not> se_canDial env)
       (pairingList (ss_pairings s))"

definition buildSelfAdvert :: "session_env \<Rightarrow> moment \<Rightarrow> (string \<times> json_value) list \<Rightarrow> mesh_session \<Rightarrow> string + mesh_frame" where
  "buildSelfAdvert env m ext s =
     (case validateGossipExtensions ext of
        Inl _ \<Rightarrow> Err ''invalid gossip extension''
      | Inr _ \<Rightarrow>
          (case signPeerAdvert (hi_sign (se_identity env)) (av_encode (se_verifier env))
                  \<lparr>device = hi_deviceId (se_identity env), addresses = se_addresses env,
                   snapshotSeconds = mo_clock m div MS_PER_SECOND, advIdentityKey = hi_identityKey (se_identity env),
                   extensions = ext @ [(CORE_VERSION_GOSSIP_KEY, JString (se_version env)),
                                       (TOPOLOGY_PEERS_GOSSIP_KEY, topologyJson (getTopologyPeers env s))]\<rparr> of
             None \<Rightarrow> Err ''the advert cannot be signed''
           | Some advert \<Rightarrow> Ok (FGossip [advert])))"

definition channelsReset :: "session_env \<Rightarrow> moment \<Rightarrow> string \<Rightarrow> session_op" where
  "channelsReset env m reason s =
     (case channelReset reason (ss_channels s) of (fx, rc) \<Rightarrow> channelEffects env m fx (s\<lparr>ss_channels := rc\<rparr>))"

definition wireUpConnection :: "session_env \<Rightarrow> moment \<Rightarrow> link \<Rightarrow> string \<Rightarrow> string list \<Rightarrow> session_op" where
  "wireUpConnection env m l address domains =
     inSequence
       [modify (\<lambda>s. s\<lparr>ss_connection := Some l\<rparr>),
        channelsReset env m ''the connection changed before the channel was ready'',
        modify (\<lambda>s. s\<lparr>ss_pairings := [], ss_localHandshake := localHandshake domains, ss_handshake := HsPending,
                      ss_state := Connected address HsPending\<rparr>),
        recordFrame Sent (FHandshake (localHandshake domains)),
        sendOn m l (FHandshake (localHandshake domains)),
        emit,
        (\<lambda>s. case buildSelfAdvert env m [] s of
               Inl e \<Rightarrow> throwing e s
             | Inr advert \<Rightarrow> inSequence [recordFrame Sent advert, sendOn m l advert, emit] s),
        modify (\<lambda>s. s\<lparr>ss_handshakeTimer := True, ss_consumers := jset (ss_consumers s) l (address, domains, False)\<rparr>)]"

definition doConnect :: "session_env \<Rightarrow> string \<Rightarrow> string list \<Rightarrow> session_op" where
  "doConnect env address domains =
     (if \<not> se_canDial env then throwing ''this session is already connected; there is nothing to dial''
      else inSequence
        [modify (\<lambda>s. s\<lparr>ss_handshakeTimer := False, ss_state := Connecting address\<rparr>), emit, perform [Dials address],
         modify (\<lambda>s. s\<lparr>ss_dialling := ss_dialling s @ [(address, domains)]\<rparr>)])"

text \<open>The end of a dial: the call that started it, and the reconnect timer, treat a failure alike.\<close>

definition dialSettles :: "session_env \<Rightarrow> moment \<Rightarrow> nat \<Rightarrow> string + link \<Rightarrow> session_op" where
  "dialSettles env m k result s =
     (if k \<ge> length (ss_dialling s) then skip s
      else let (address, domains) = ss_dialling s ! k;
               s' = s\<lparr>ss_dialling := take k (ss_dialling s) @ drop (Suc k) (ss_dialling s)\<rparr>
           in tryCatch
                (case result of
                   Inl e \<Rightarrow> throwing e
                 | Inr l \<Rightarrow> (\<lambda>s. if ss_feedCancelled s then perform [ClosesLink l] s else wireUpConnection env m l address domains s))
                (\<lambda>e. handleDisconnect env e address domains) s')"

definition connect :: "session_env \<Rightarrow> string \<Rightarrow> string list \<Rightarrow> session_op" where
  "connect env address domains s =
     (if ss_connection s \<noteq> None then throwing ''a session connects once; create a new one to reconnect'' s
      else tryCatch (andThen (modify (\<lambda>s. s\<lparr>ss_attempt := 0\<rparr>)) (doConnect env address domains))
             (\<lambda>e. andThen (handleDisconnect env e address domains) (throwing e)) s)"

definition frameArrives :: "session_env \<Rightarrow> moment \<Rightarrow> link \<Rightarrow> mesh_frame \<Rightarrow> session_op" where
  "frameArrives env m l f s =
     (case jget (ss_consumers s) l of
        None \<Rightarrow> skip s
      | Some (address, domains, heard) \<Rightarrow>
          if ss_feedCancelled s then modify (\<lambda>s. s\<lparr>ss_consumers := jdel (ss_consumers s) l\<rparr>) s
          else inSequence
            [(if heard then skip
              else modify (\<lambda>s. s\<lparr>ss_consumers := jset (ss_consumers s) l (address, domains, True), ss_attempt := 0\<rparr>)),
             applyFrame env m f, emit] s)"

definition linkDown :: "session_env \<Rightarrow> link \<Rightarrow> string \<Rightarrow> string \<Rightarrow> string list \<Rightarrow> session_op" where
  "linkDown env l reason address domains s =
     (case ss_state s of
        Connected _ _ \<Rightarrow> handleDisconnect env reason (case se_redial env l of Some a \<Rightarrow> a | None \<Rightarrow> address) domains s
      | _ \<Rightarrow> skip s)"

text \<open>The receive loop ends, or throws (an observer of the frames failed, or the stream did).\<close>

definition streamEnds :: "session_env \<Rightarrow> link \<Rightarrow> string option \<Rightarrow> session_op" where
  "streamEnds env l failure s =
     (case jget (ss_consumers s) l of
        None \<Rightarrow> skip s
      | Some (address, domains, heard) \<Rightarrow>
          inSequence
            [modify (\<lambda>s. s\<lparr>ss_consumers := jdel (ss_consumers s) l\<rparr>),
             (case failure of None \<Rightarrow> perform [SessionEnded l] | Some e \<Rightarrow> skip),
             linkDown env l (case failure of None \<Rightarrow> ''node closed the connection'' | Some e \<Rightarrow> e) address domains] s)"

definition handshakeTimeout :: session_op where
  "handshakeTimeout s =
     (if \<not> ss_handshakeTimer s then skip s
      else let s' = s\<lparr>ss_handshakeTimer := False\<rparr>
           in if ss_handshake s' \<noteq> HsPending then skip s'
              else andThen (modify (\<lambda>s. s\<lparr>ss_handshake := HsUnanswered,
                      ss_state := (case ss_state s of Connected a _ \<Rightarrow> Connected a HsUnanswered | st \<Rightarrow> st)\<rparr>)) emit s')"

definition reconnectTimeout :: "session_env \<Rightarrow> session_op" where
  "reconnectTimeout env s =
     (case ss_reconnectTimer s of
        None \<Rightarrow> skip s
      | Some (address, domains) \<Rightarrow>
          tryCatch (doConnect env address domains) (\<lambda>e. handleDisconnect env e address domains) (s\<lparr>ss_reconnectTimer := None\<rparr>))"

subsection \<open>The session's interface\<close>

definition sendDirect :: "session_env \<Rightarrow> moment \<Rightarrow> mesh_frame \<Rightarrow> session_op" where
  "sendDirect env m f = andThen (recordFrame Sent f) (transmit env m ForData f False None)"

definition sendPing :: "moment \<Rightarrow> session_op" where
  "sendPing m = whenConnected (\<lambda>l. inSequence [recordFrame Sent FPing, sendOn m l FPing, emit])"

definition sendPingMeasureRtt :: "moment \<Rightarrow> nat \<Rightarrow> session_op" where
  "sendPingMeasureRtt m call =
     whenConnected (\<lambda>l. inSequence [modify (\<lambda>s. s\<lparr>ss_pings := pingRegister call (mo_clock m) (ss_pings s)\<rparr>),
       recordFrame Sent FPing, sendOn m l FPing, emit])"

definition pingTimer :: "nat \<Rightarrow> int \<Rightarrow> session_op" where
  "pingTimer call sentAt s =
     (case pingTimeout call sentAt (ss_pings s) of (rs, ps) \<Rightarrow> (None, map PingSettles rs, s\<lparr>ss_pings := ps\<rparr>))"

definition setToken :: "cose_sign1 \<Rightarrow> session_op" where
  "setToken t = modify (\<lambda>s. s\<lparr>ss_currentToken := Some t\<rparr>)"

definition sendManageRequest ::
    "session_env \<Rightarrow> moment \<Rightarrow> manage_command \<Rightarrow> capability_scope \<Rightarrow> device_id option \<Rightarrow> cose_sign1 option \<Rightarrow> session_op" where
  "sendManageRequest env m command scope' target token =
     whenConnected (\<lambda>_. andThen
       (case target of None \<Rightarrow> skip | Some d \<Rightarrow> ensureRelayPairing m d)
       (\<lambda>s. case buildManageRequest command scope' token s of
              (request, s') \<Rightarrow>
                inSequence
                  [modify (\<lambda>s. s\<lparr>ss_pending := jset (ss_pending s) (mr_requestId request) target\<rparr>),
                   recordFrame Sent (FManageRequest request),
                   tryCatch (transmit env m (ForRequest (mr_requestId request)) (FManageRequest request) (target \<noteq> None) target)
                     (\<lambda>e. andThen (modify (\<lambda>s. s\<lparr>ss_pending := jdel (ss_pending s) (mr_requestId request)\<rparr>)) (throwing e))] s'))"

definition requestTimesOut :: "session_env \<Rightarrow> moment \<Rightarrow> nat \<Rightarrow> session_op" where
  "requestTimesOut env m requestId s =
     (case jget (ss_pending s) requestId of
        None \<Rightarrow> skip s
      | Some target \<Rightarrow>
          inSequence
            [modify (\<lambda>s. s\<lparr>ss_pending := jdel (ss_pending s) requestId\<rparr>),
             (case target of
                None \<Rightarrow> skip
              | Some d \<Rightarrow> andThen (modify (\<lambda>s. s\<lparr>ss_pairings := pairingRemove d (ss_pairings s)\<rparr>))
                  (\<lambda>s. case channelForget d (ss_channels s) of (fx, rc) \<Rightarrow> channelEffects env m fx (s\<lparr>ss_channels := rc\<rparr>))),
             perform [ResolvesRequest requestId (ManageError ''timeout'' None)]] s)"

definition sendRevocationAnnounce :: "session_env \<Rightarrow> moment \<Rightarrow> cose_sign1 list \<Rightarrow> session_op" where
  "sendRevocationAnnounce env m entries = whenConnected (\<lambda>_. sendDirect env m (FRevocationAnnounce entries))"

definition sendCoordinatorClaim :: "session_env \<Rightarrow> moment \<Rightarrow> coordinator_frame \<Rightarrow> session_op" where
  "sendCoordinatorClaim env m claim = whenConnected (\<lambda>_. sendDirect env m (FCoordinator claim))"

definition sendGossipUpdate :: "session_env \<Rightarrow> moment \<Rightarrow> (string \<times> json_value) list \<Rightarrow> session_op" where
  "sendGossipUpdate env m ext =
     whenConnected (\<lambda>_ s. case buildSelfAdvert env m ext s of Inl e \<Rightarrow> throwing e s | Inr advert \<Rightarrow> sendDirect env m advert s)"

definition sendDataFrame :: "session_env \<Rightarrow> moment \<Rightarrow> data_frame \<Rightarrow> device_id option \<Rightarrow> session_op" where
  "sendDataFrame env m f target =
     whenConnected (\<lambda>_. inSequence
       [(case target of None \<Rightarrow> skip | Some d \<Rightarrow> ensureRelayPairing m d),
        recordFrame Sent (FData f),
        transmit env m ForData (FData f) (target \<noteq> None) target])"

definition close :: "session_env \<Rightarrow> moment \<Rightarrow> session_op" where
  "close env m =
     inSequence
       [modify (\<lambda>s. s\<lparr>ss_feedCancelled := True, ss_handshakeTimer := False, ss_reconnectTimer := None\<rparr>),
        rejectPendingManageRequests ''connection closed before a response arrived'',
        channelsReset env m ''the session closed before the channel was ready'',
        rejectAllPings ''connection closed before a pong arrived'',
        (\<lambda>s. perform (case ss_connection s of None \<Rightarrow> [] | Some l \<Rightarrow> [ClosesLink l]) s),
        modify (\<lambda>s. s\<lparr>ss_state := (case ss_state s of
            Connected a _ \<Rightarrow> Closed a ''closed by you''
          | Connecting a \<Rightarrow> Closed a ''closed by you''
          | Reconnecting a _ _ \<Rightarrow> Closed a ''closed by you''
          | st \<Rightarrow> st)\<rparr>),
        emit]"

definition createSessionCore :: mesh_session where
  "createSessionCore =
     \<lparr>ss_connection = None, ss_state = Idle, ss_handshake = HsPending, ss_directory = [], ss_frameLog = [], ss_feedCancelled = False,
      ss_handshakeTimer = False, ss_reconnectTimer = None, ss_attempt = 0, ss_currentToken = None, ss_nextRequestId = 0,
      ss_pairings = [], ss_firstAdvert = None, ss_pending = [], ss_channels = createRelayChannels, ss_incoming = [],
      ss_revocations = [], ss_coordinator = [], ss_data = [], ss_pings = [], ss_localHandshake = localHandshake [],
      ss_dialling = [], ss_waiting = [], ss_consumers = []\<rparr>"

definition acceptMeshSession :: "session_env \<Rightarrow> moment \<Rightarrow> link \<Rightarrow> string option \<Rightarrow> string list \<Rightarrow> string option \<times> session_effect list \<times> mesh_session" where
  "acceptMeshSession env m l label domains =
     wireUpConnection env m l (case label of Some a \<Rightarrow> a | None \<Rightarrow> ''accepted'') domains createSessionCore"

subsection \<open>Steps\<close>

datatype session_event =
    Connect string "string list"
  | AcceptLink link string "string list"
  | DialSettles nat "string + link"
  | FrameIn link mesh_frame
  | StreamEnds link "string option"
  | HandshakeTimeout
  | ReconnectTimeout
  | SendPing
  | MeasureRtt nat
  | PingTimer nat int
  | SetToken cose_sign1
  | ManageRequest manage_command capability_scope "device_id option" "cose_sign1 option"
  | RequestTimesOut nat
  | ResumeSend nat
  | Respond nat manage_outcome
  | AnnounceRevocation "cose_sign1 list"
  | ClaimCoordinator coordinator_frame
  | GossipUpdate "(string \<times> json_value) list"
  | SendData data_frame "device_id option"
  | CloseSession

definition sessionStep :: "session_env \<Rightarrow> moment \<Rightarrow> session_event \<Rightarrow> session_op" where
  "sessionStep env m event =
     (case event of
        Connect a d \<Rightarrow> connect env a d
      | AcceptLink l a d \<Rightarrow> wireUpConnection env m l a d
      | DialSettles k r \<Rightarrow> dialSettles env m k r
      | FrameIn l f \<Rightarrow> frameArrives env m l f
      | StreamEnds l e \<Rightarrow> streamEnds env l e
      | HandshakeTimeout \<Rightarrow> handshakeTimeout
      | ReconnectTimeout \<Rightarrow> reconnectTimeout env
      | SendPing \<Rightarrow> sendPing m
      | MeasureRtt c \<Rightarrow> sendPingMeasureRtt m c
      | PingTimer c t \<Rightarrow> pingTimer c t
      | SetToken t \<Rightarrow> setToken t
      | ManageRequest c sc target t \<Rightarrow> sendManageRequest env m c sc target t
      | RequestTimesOut i \<Rightarrow> requestTimesOut env m i
      | ResumeSend k \<Rightarrow> resumeSend env m k
      | Respond k outcome \<Rightarrow> (\<lambda>s. if k < length (ss_incoming s) then respond env m (ss_incoming s ! k) outcome s else skip s)
      | AnnounceRevocation es \<Rightarrow> sendRevocationAnnounce env m es
      | ClaimCoordinator c \<Rightarrow> sendCoordinatorClaim env m c
      | GossipUpdate ext \<Rightarrow> sendGossipUpdate env m ext
      | SendData f target \<Rightarrow> sendDataFrame env m f target
      | CloseSession \<Rightarrow> close env m)"

inductive session_reach :: "session_env \<Rightarrow> mesh_session \<Rightarrow> bool" for env where
  session_init: "session_reach env createSessionCore"
| session_step: "session_reach env s \<Longrightarrow> session_reach env (snd (snd (sessionStep env m event s)))"

text \<open>The same runs, with the events they consist of.\<close>

inductive session_run :: "session_env \<Rightarrow> session_event list \<Rightarrow> mesh_session \<Rightarrow> bool" for env where
  run_starts: "session_run env [] createSessionCore"
| run_continues: "session_run env es s \<Longrightarrow> session_run env (es @ [event]) (snd (snd (sessionStep env m event s)))"

end
