(* ===== verification/MeshSessionProperties.thy ===== *)
theory MeshSessionProperties
  imports MeshSession RelayChannelProperties
begin

text \<open>
  What a session promises in every state it can reach: its log and its reconnect attempts are bounded,
  its directory holds only adverts their devices signed, and whatever it delivers as coming from a
  device through a relay was opened under a channel that device authenticated. The invariant is
  carried through the operations by \<open>preserves\<close>, which follows their composition.
\<close>

subsection \<open>Preservation\<close>

definition preserves :: "(mesh_session \<Rightarrow> bool) \<Rightarrow> session_op \<Rightarrow> bool" where
  "preserves I f \<longleftrightarrow> (\<forall>s. I s \<longrightarrow> I (snd (snd (f s))))"

named_theorems preserved \<open>operations that keep an invariant\<close>

lemma preservesI [intro?]: "(\<And>s. I s \<Longrightarrow> I (snd (snd (f s)))) \<Longrightarrow> preserves I f"
  by (simp add: preserves_def)

lemma preservesD: "preserves I f \<Longrightarrow> I s \<Longrightarrow> I (snd (snd (f s)))"
  by (simp add: preserves_def)

lemma preserves_basic [preserved]:
  "preserves I skip" "preserves I (throwing e)" "preserves I (perform fx)" "preserves I emit" "preserves I (sendOn m l f)"
  by (simp_all add: preserves_def skip_def throwing_def perform_def emit_def sendOn_def)

lemma preserves_modify: "(\<And>s. I s \<Longrightarrow> I (f s)) \<Longrightarrow> preserves I (modify f)"
  by (simp add: preserves_def modify_def)

lemma preserves_andThen [preserved]: "preserves I f \<Longrightarrow> preserves I g \<Longrightarrow> preserves I (andThen f g)"
  by (fastforce simp: preserves_def andThen_def split: prod.split option.split)

lemma preserves_tryCatch [preserved]: "preserves I f \<Longrightarrow> (\<And>e. preserves I (h e)) \<Longrightarrow> preserves I (tryCatch f h)"
  unfolding preserves_def tryCatch_def by (auto split: prod.split option.split) (metis snd_conv)+

lemma preserves_inSequence [preserved]: "list_all (preserves I) fs \<Longrightarrow> preserves I (inSequence fs)"
  by (induction fs) (simp_all add: preserved)

lemma preserves_if [preserved]: "preserves I f \<Longrightarrow> preserves I g \<Longrightarrow> preserves I (if b then f else g)"
  by simp

lemma preserves_whenConnected [preserved]: "(\<And>l. preserves I (f l)) \<Longrightarrow> preserves I (whenConnected f)"
  by (auto simp: preserves_def whenConnected_def throwing_def split: option.split)

lemma preserves_cond [preserved]: "preserves I f \<Longrightarrow> preserves I g \<Longrightarrow> preserves I (\<lambda>s. if c s then f s else g s)"
  by (simp add: preserves_def)

lemma preserves_option [preserved]:
  "preserves I f \<Longrightarrow> (\<And>x. preserves I (g x)) \<Longrightarrow> preserves I (\<lambda>s. case c s of None \<Rightarrow> f s | Some x \<Rightarrow> g x s)"
  by (simp add: preserves_def split: option.split)

lemma preserves_after: "preserves I g \<Longrightarrow> (\<And>s. I s \<Longrightarrow> I (u s)) \<Longrightarrow> preserves I (\<lambda>s. g (u s))"
  by (simp add: preserves_def)

subsection \<open>The invariant\<close>

text \<open>The hello a frame carries through the relay, if any; a device is proven by a hello that arrived and verified.\<close>

fun helloIn :: "session_env \<Rightarrow> session_event \<Rightarrow> secure_hello set" where
  "helloIn env (FrameIn l (FRelayData body to claimed)) =
     (case cc_tryDecodeFrame (se_crypto env) body of Some (FSecureHello hello) \<Rightarrow> {hello} | _ \<Rightarrow> {})"
| "helloIn env event = {}"

definition provenDevice :: "session_env \<Rightarrow> secure_hello set \<Rightarrow> device_id \<Rightarrow> bool" where
  "provenDevice env arrived d \<longleftrightarrow> (\<exists>peer. authenticated arrived (se_identity env) peer \<and> peer_deviceId peer = d)"

definition originOk :: "session_env \<Rightarrow> secure_hello set \<Rightarrow> origin option \<Rightarrow> bool" where
  "originOk env arrived orig = (case orig of None \<Rightarrow> True | Some (d, _) \<Rightarrow> provenDevice env arrived d)"

definition isConnected :: "connection_state \<Rightarrow> bool" where
  "isConnected st \<longleftrightarrow> (case st of Connected _ _ \<Rightarrow> True | _ \<Rightarrow> False)"

lemma isConnected_simps [simp]:
  "isConnected (Connected a h)" "\<not> isConnected Idle" "\<not> isConnected (Connecting a)" "\<not> isConnected (Reconnecting a n r)" "\<not> isConnected (Closed a r)"
  by (simp_all add: isConnected_def)

definition sessionOk :: "session_env \<Rightarrow> secure_hello set \<Rightarrow> mesh_session \<Rightarrow> bool" where
  "sessionOk env arrived s \<longleftrightarrow>
     length (ss_frameLog s) \<le> FRAME_LOG_WINDOW
     \<and> ss_attempt s \<le> (case se_reconnect env of None \<Rightarrow> 0 | Some n \<Rightarrow> n)
     \<and> list_all (\<lambda>(key, a). key = deviceIdToHex (device a) \<and> verifyPeerAdvert (se_verifier env) a) (ss_directory s)
     \<and> channelsOk (se_crypto env) (se_identity env) arrived (ss_channels s)
     \<and> list_all (\<lambda>r. originOk env arrived (ir_origin r)) (ss_incoming s)
     \<and> list_all (\<lambda>d. originOk env arrived (id_origin d)) (ss_data s)
     \<and> list_all (\<lambda>(i, _). i < ss_nextRequestId s) (ss_pending s)
     \<and> (isConnected (ss_state s) \<longrightarrow> ss_connection s \<noteq> None)"

lemma sessionOk_init: "sessionOk env arrived createSessionCore"
  by (simp add: sessionOk_def createSessionCore_def channelsOk_init)

lemma channelsOk_ops:
  assumes "channelsOk crypto identity arrived rc"
  shows "channelsOk crypto identity arrived (snd (snd (ensure identity fresh caller d rc)))"
    and "channelsOk crypto identity arrived (snd (channelOpen crypto dat claimed rc))"
    and "channelsOk crypto identity arrived (snd (channelForget d rc))"
    and "channelsOk crypto identity arrived (snd (channelReset reason rc))"
    and "channelsOk crypto identity arrived (snd (helloFailed i reason rc))"
    and "channelsOk crypto identity arrived (snd (channelSeal crypto f addr rc))"
    and "hello \<in> arrived \<Longrightarrow> channelsOk crypto identity arrived (snd (applyHello crypto identity fresh hello rc))"
proof -
  note step = channelsOk_step [OF assms, unfolded channelStep_def]
  show "channelsOk crypto identity arrived (snd (snd (ensure identity fresh caller d rc)))"
    using step [of "Ensure caller d fresh"] by simp
  show "channelsOk crypto identity arrived (snd (channelOpen crypto dat claimed rc))" using step [of "DataArrives dat claimed"] by simp
  show "channelsOk crypto identity arrived (snd (channelForget d rc))" using step [of "Forget d"] by simp
  show "channelsOk crypto identity arrived (snd (channelReset reason rc))" using step [of "Reset reason"] by simp
  show "channelsOk crypto identity arrived (snd (helloFailed i reason rc))"
    using assms by (simp add: helloFailed_def case_prod_beta channelsOk_settle)
  have "channelsOk crypto identity arrived (rc\<lparr>rc_store := (rc_store rc)[addr := snd (sealFrame crypto f (rc_store rc ! addr))]\<rparr>)"
    by (rule channelsOk_store [OF assms]) (simp_all add: sealFrame_def)
  then show "channelsOk crypto identity arrived (snd (channelSeal crypto f addr rc))" by (simp add: channelSeal_def case_prod_beta)
  show "channelsOk crypto identity arrived (snd (applyHello crypto identity fresh hello rc))" if "hello \<in> arrived"
    using channelsOk_begin [OF assms that] channelsOk_completing [OF channelsOk_begin [OF assms that]]
    by (simp add: applyHello_def case_prod_beta)
qed

lemma sessionOk_chans: "sessionOk env arrived s \<Longrightarrow> channelsOk (se_crypto env) (se_identity env) arrived (ss_channels s)"
  by (simp add: sessionOk_def)

lemma sessionOk_channels: "sessionOk env arrived s \<Longrightarrow> channelsOk (se_crypto env) (se_identity env) arrived rc \<Longrightarrow> sessionOk env arrived (s\<lparr>ss_channels := rc\<rparr>)"
  by (simp add: sessionOk_def)

lemma pushLog_bound: "length l \<le> FRAME_LOG_WINDOW \<Longrightarrow> length (pushLog e l) \<le> FRAME_LOG_WINDOW"
  by (simp add: pushLog_def Let_def FRAME_LOG_WINDOW_def)

definition hasLink :: "mesh_session \<Rightarrow> bool" where "hasLink s \<longleftrightarrow> ss_connection s \<noteq> None"

definition attemptLimit :: "session_env \<Rightarrow> nat" where
  "attemptLimit env = (case se_reconnect env of None \<Rightarrow> 0 | Some n \<Rightarrow> n)"

subsection \<open>What an invariant has to allow\<close>

text \<open>
  The primitive updates of the operations, each under the condition the operations guarantee for it. An
  invariant that allows them holds in every reachable state.
\<close>

locale session_invariant =
  fixes env :: session_env and arrived :: "secure_hello set" and I :: "mesh_session \<Rightarrow> bool"
  assumes chans: "I s \<Longrightarrow> channelsOk (se_crypto env) (se_identity env) arrived (ss_channels s)"
    and keeps_channels: "I s \<Longrightarrow> channelsOk (se_crypto env) (se_identity env) arrived rc \<Longrightarrow> I (s\<lparr>ss_channels := rc\<rparr>)"
    and keeps_log [simp]: "I s \<Longrightarrow> I (s\<lparr>ss_frameLog := pushLog e (ss_frameLog s)\<rparr>)"
    and keeps_advert: "I s \<Longrightarrow> verifyPeerAdvert (se_verifier env) a \<Longrightarrow>
          (case jget (ss_directory s) (deviceIdToHex (device a)) of None \<Rightarrow> True
           | Some held \<Rightarrow> snapshotSeconds held \<le> snapshotSeconds a) \<Longrightarrow>
          I (s\<lparr>ss_directory := jset (ss_directory s) (deviceIdToHex (device a)) a, ss_firstAdvert := f\<rparr>)"
    and keeps_incoming: "I s \<Longrightarrow> originOk env arrived (ir_origin r) \<Longrightarrow> I (s\<lparr>ss_incoming := ss_incoming s @ [r]\<rparr>)"
    and keeps_data: "I s \<Longrightarrow> originOk env arrived (id_origin d) \<Longrightarrow> I (s\<lparr>ss_data := ss_data s @ [d]\<rparr>)"
    and keeps_request: "I s \<Longrightarrow> I (s\<lparr>ss_nextRequestId := Suc (ss_nextRequestId s),
          ss_pending := jset (ss_pending s) (ss_nextRequestId s) target\<rparr>)"
    and keeps_pending [simp]: "I s \<Longrightarrow> I (s\<lparr>ss_pending := []\<rparr>)" "I s \<Longrightarrow> I (s\<lparr>ss_pending := jdel (ss_pending s) i\<rparr>)"
    and keeps_state: "I s \<Longrightarrow> isConnected st \<longrightarrow> hasLink s \<Longrightarrow> I (s\<lparr>ss_state := st\<rparr>)"
    and keeps_attempt: "I s \<Longrightarrow> n \<le> attemptLimit env \<Longrightarrow> I (s\<lparr>ss_attempt := n\<rparr>)"
    and keeps_link: "I s \<Longrightarrow> I (s\<lparr>ss_connection := Some l\<rparr>)"
    and stays_linked: "I s \<Longrightarrow> isConnected (ss_state s) \<Longrightarrow> hasLink s"
    and keeps_quiet [simp]: "I s \<Longrightarrow> I (s\<lparr>ss_pings := ps\<rparr>)" "I s \<Longrightarrow> I (s\<lparr>ss_waiting := ws\<rparr>)" "I s \<Longrightarrow> I (s\<lparr>ss_pairings := pr\<rparr>)"
      "I s \<Longrightarrow> I (s\<lparr>ss_consumers := cs\<rparr>)" "I s \<Longrightarrow> I (s\<lparr>ss_dialling := ds\<rparr>)" "I s \<Longrightarrow> I (s\<lparr>ss_handshakeTimer := b\<rparr>)"
      "I s \<Longrightarrow> I (s\<lparr>ss_reconnectTimer := rt\<rparr>)" "I s \<Longrightarrow> I (s\<lparr>ss_feedCancelled := c\<rparr>)" "I s \<Longrightarrow> I (s\<lparr>ss_currentToken := t\<rparr>)"
      "I s \<Longrightarrow> I (s\<lparr>ss_revocations := rs\<rparr>)" "I s \<Longrightarrow> I (s\<lparr>ss_coordinator := co\<rparr>)" "I s \<Longrightarrow> I (s\<lparr>ss_handshake := hs\<rparr>)"
      "I s \<Longrightarrow> I (s\<lparr>ss_localHandshake := lh\<rparr>)"
begin

lemmas keeps = keeps_channels keeps_incoming keeps_data keeps_request keeps_state keeps_attempt keeps_link

lemma still_linked: "I s \<Longrightarrow> isConnected (ss_state s) \<Longrightarrow> \<exists>l. ss_connection s = Some l"
  using stays_linked [of s] by (auto simp: hasLink_def)

lemma preserves_recordFrame [preserved]: "preserves I (recordFrame d f)"
  unfolding recordFrame_def by (rule preserves_modify) simp

lemma preserves_quiet [preserved]:
  "preserves I (rejectPendingManageRequests reason)" "preserves I (rejectAllPings reason)"
  "preserves I (pingTimer c t)" "preserves I (setToken tok)"
  "preserves I (sendFailed purpose e)" "preserves I (applyManageResponse i outcome sender)"
  by (simp_all add: preserves_def rejectPendingManageRequests_def rejectAllPings_def pingRejectAll_def pingTimer_def case_prod_beta
      setToken_def modify_def sendFailed_def perform_def applyManageResponse_def skip_def split: send_purpose.split option.split)

lemma preserves_helloNotSent [preserved]: "preserves I (helloNotSent e)"
  by (rule preservesI) (simp add: helloNotSent_def case_prod_beta keeps_channels channelsOk_ops chans)

lemma preserves_sendHello [preserved]: "preserves I (sendHello env m peer hello)"
proof
  fix s assume "I s"
  moreover have "preserves I
      (inSequence [recordFrame Sent (FSecureHello hello), sendOn m l (wrapRelayData env (FSecureHello hello) (Some peer)), emit])" for l
    by (rule preserves_inSequence) (simp add: preserved)
  ultimately show "I (snd (snd (sendHello env m peer hello s)))"
    by (auto simp: sendHello_def throwing_def dest: preservesD split: option.split)
qed

lemma preserves_channelEffects [preserved]: "preserves I (channelEffects env m fx)"
proof -
  have "preserves I (channelEffect env m x)" for x
    by (cases x) (simp_all add: channelEffect_def preserved)
  then show ?thesis unfolding channelEffects_def by (intro preserves_inSequence) (simp add: list_all_iff)
qed

lemma preserves_channelsReset [preserved]: "preserves I (channelsReset env m reason)"
proof
  fix s assume "I s"
  then have "I (s\<lparr>ss_channels := snd (channelReset reason (ss_channels s))\<rparr>)"
    by (simp add: keeps_channels channelsOk_ops chans)
  then show "I (snd (snd (channelsReset env m reason s)))"
    using preservesD [OF preserves_channelEffects] by (simp add: channelsReset_def case_prod_beta)
qed

lemma preserves_sealAndSend [preserved]: "preserves I (sealAndSend env m l addr f d)"
proof
  fix s assume "I s"
  then have "I (s\<lparr>ss_channels := snd (channelSeal (se_crypto env) f addr (ss_channels s))\<rparr>)"
    by (simp add: keeps_channels channelsOk_ops chans)
  then show "I (snd (snd (sealAndSend env m l addr f d s)))"
    using preservesD [OF preserves_basic(5)] by (simp add: sealAndSend_def case_prod_beta)
qed

lemma preserves_transmit [preserved]: "preserves I (transmit env m purpose f viaRelay toDevice)"
proof
  fix s assume ok: "I s"
  have ens: "I (s\<lparr>ss_channels := rc\<rparr>)"
    if "ensure (se_identity env) (mo_fresh m) n d (ss_channels s) = (r, fx, rc)" for n d r fx rc
    using chans [OF ok] channelsOk_ops(1) [of "se_crypto env" "se_identity env" arrived "ss_channels s" "mo_fresh m" n d] that ok
    by (simp add: keeps)
  have direct: "preserves I (andThen (sendOn m l f) emit)"
    and sealed: "preserves I (andThen (sealAndSend env m l addr f d) emit)" for l addr d
    by (intro preserved)+
  show "I (snd (snd (transmit env m purpose f viaRelay toDevice s)))"
    using ok preservesD [OF direct] preservesD [OF sealed] preservesD [OF preserves_channelEffects]
    by (auto simp: transmit_def throwing_def split: option.split prod.split ensured.split dest!: ens)
qed

lemma preserves_resumeSend [preserved]: "preserves I (resumeSend env m k)"
proof
  fix s assume ok: "I s"
  have "preserves I (tryCatch (andThen (sealAndSend env m l addr f d) emit) (sendFailed purpose))" for l addr f d purpose
    by (intro preserved)
  from preservesD [OF this] ok show "I (snd (snd (resumeSend env m k s)))"
    by (auto simp: resumeSend_def skip_def Let_def split: settlement.split option.split intro!: preservesD [OF preserves_quiet(5)])
qed

lemma preserves_ensureRelayPairing [preserved]: "preserves I (ensureRelayPairing m d)"
proof
  fix s assume ok: "I s"
  have "preserves I (inSequence [recordFrame Sent (FRelayConnect d), sendOn m l (FRelayConnect d),
      modify (\<lambda>s. s\<lparr>ss_pairings := pairingAdd d (ss_pairings s)\<rparr>), emit])" for l
    by (rule preserves_inSequence) (simp add: preserved preserves_modify)
  with ok show "I (snd (snd (ensureRelayPairing m d s)))"
    by (auto simp: ensureRelayPairing_def throwing_def skip_def dest: preservesD split: option.split)
qed

lemma preserves_respond [preserved]: "preserves I (respond env m incoming outcome)"
  unfolding respond_def Let_def by (intro preserved)

lemma preserves_applyManageRequest:
  assumes "originOk env arrived orig"
  shows "preserves I (applyManageRequest env m request orig)"
proof -
  have "preserves I (modify (\<lambda>s. s\<lparr>ss_incoming := ss_incoming s @ [\<lparr>ir_request = request, ir_origin = orig\<rparr>]\<rparr>))"
    using assms by (intro preserves_modify) (simp add: keeps)
  then show ?thesis unfolding applyManageRequest_def Let_def by (intro preserved)
qed

lemma preserves_applyOpened:
  assumes "provenDevice env arrived sender"
  shows "preserves I (applyOpened env m f sender to)"
proof -
  have orig: "originOk env arrived (Some (sender, to))" using assms by (simp add: originOk_def)
  have "preserves I (modify (\<lambda>s. s\<lparr>ss_data := ss_data s @ [\<lparr>id_frame = d, id_origin = Some (sender, to)\<rparr>]\<rparr>))" for d
    using orig by (intro preserves_modify) (simp add: keeps)
  then show ?thesis
    unfolding applyOpened_def by (cases f) (simp_all add: preserved preserves_applyManageRequest [OF orig])
qed

lemma preserves_applyRelayData:
  assumes "helloIn env (FrameIn l (FRelayData body to claimed)) \<subseteq> arrived"
  shows "preserves I (applyRelayData env m body to claimed)"
proof -
  have hello: "preserves I (\<lambda>s. case applyHello (se_crypto env) (se_identity env) (mo_fresh m) hello (ss_channels s) of
      (fx, rc) \<Rightarrow> channelEffects env m fx (s\<lparr>ss_channels := rc\<rparr>))" if "hello \<in> arrived" for hello
    by (rule preservesI) (simp add: that case_prod_beta preservesD [OF preserves_channelEffects] keeps_channels channelsOk_ops chans)
  have dat: "preserves I (\<lambda>s. case channelOpen (se_crypto env) dat claimed (ss_channels s) of
      (None, rc) \<Rightarrow> skip (s\<lparr>ss_channels := rc\<rparr>)
    | (Some (f, sender), rc) \<Rightarrow> applyOpened env m f sender to (s\<lparr>ss_channels := rc\<rparr>))" for dat
  proof
    fix s assume ok: "I s"
    then have chans: "channelsOk (se_crypto env) (se_identity env) arrived (ss_channels s)" by (rule chans)
    obtain r rc where o: "channelOpen (se_crypto env) dat claimed (ss_channels s) = (r, rc)" by fastforce
    have ok': "I (s\<lparr>ss_channels := rc\<rparr>)"
      using channelsOk_ops(2) [OF chans, of dat claimed] keeps_channels [OF ok] o by simp
    show "I (snd (snd (case channelOpen (se_crypto env) dat claimed (ss_channels s) of
        (None, rc) \<Rightarrow> skip (s\<lparr>ss_channels := rc\<rparr>) | (Some (f, sender), rc) \<Rightarrow> applyOpened env m f sender to (s\<lparr>ss_channels := rc\<rparr>))))"
    proof (cases r)
      case None
      then show ?thesis using ok' by (simp add: o skip_def)
    next
      case (Some fs)
      then have "provenDevice env arrived (snd fs)"
        using opened_authenticated [OF chans, of dat claimed "fst fs" "snd fs"] o by (auto simp: provenDevice_def)
      with ok' Some show ?thesis by (cases fs) (simp add: o preservesD [OF preserves_applyOpened])
    qed
  qed
  show ?thesis
    unfolding applyRelayData_def using hello dat assms by (auto simp: preserved split: option.split mesh_frame.split)
qed

lemma preserves_applyAdvert:
  assumes "verifyPeerAdvert (se_verifier env) advert"
  shows "preserves I (applyAdvert advert)"
  using assms by (intro preservesI) (simp add: applyAdvert_def skip_def Let_def keeps_advert split: option.split)

lemma sessionOk_handshake: "I s \<Longrightarrow> I (applyRemoteHandshake remote s)"
  by (cases "ss_state s") (simp_all add: applyRemoteHandshake_def keeps still_linked hasLink_def Let_def)

lemma preserves_applyFrame:
  assumes "helloIn env (FrameIn l f) \<subseteq> arrived"
  shows "preserves I (applyFrame env m f)"
proof -
  have gossip: "preserves I (inSequence (map applyAdvert (filter (verifyPeerAdvert (se_verifier env)) peers)))" for peers
    by (rule preserves_inSequence) (simp add: list_all_iff preserves_applyAdvert)
  have pong: "preserves I (\<lambda>s. case resolveOldest (mo_clock m) (ss_pings s) of
      (rs, ps) \<Rightarrow> (None, map PingSettles rs, s\<lparr>ss_pings := ps\<rparr>))"
    by (rule preservesI) (simp add: case_prod_beta)
  have direct: "preserves I (modify (\<lambda>s. s\<lparr>ss_data := ss_data s @ [\<lparr>id_frame = d, id_origin = None\<rparr>]\<rparr>))" for d
    by (rule preserves_modify) (simp add: keeps originOk_def)
  show ?thesis
    unfolding applyFrame_def
    using preserves_applyRelayData assms
    by (cases f) (simp_all add: preserved gossip pong direct preserves_modify sessionOk_handshake preserves_applyManageRequest originOk_def)
qed

lemma preserves_handleDisconnect [preserved]: "preserves I (handleDisconnect env reason address domains)"
proof -
  have retry: "preserves I (\<lambda>s. if (case se_reconnect env of None \<Rightarrow> False | Some maxAttempts \<Rightarrow> ss_attempt s < maxAttempts)
      then andThen (modify (\<lambda>s. s\<lparr>ss_attempt := ss_attempt s + 1, ss_state := Reconnecting address (ss_attempt s + 1) reason\<rparr>))
             (andThen emit (modify (\<lambda>s. s\<lparr>ss_reconnectTimer := Some (address, domains)\<rparr>))) s
      else andThen (modify (\<lambda>s. s\<lparr>ss_state := Closed address reason\<rparr>)) emit s)"
    by (rule preservesI) (auto simp: andThen_def modify_def emit_def perform_def keeps attemptLimit_def split: option.splits)
  show ?thesis
    unfolding handleDisconnect_def [abs_def] by (intro preserved) (simp add: preserved retry)
qed

lemma preserves_conj: "preserves I f \<Longrightarrow> preserves J f \<Longrightarrow> preserves (\<lambda>s. I s \<and> J s) f"
  by (simp add: preserves_def)

lemma hasLink_channelsReset: "preserves hasLink (channelsReset env m reason)"
proof -
  have rec: "preserves hasLink (recordFrame d f)" for d f
    unfolding recordFrame_def by (rule preserves_modify) (simp add: hasLink_def)
  have send: "preserves hasLink (sendHello env m peer hello)" for peer hello
    unfolding sendHello_def [abs_def] by (intro preserved) (simp add: preserved rec)
  have "preserves hasLink (helloNotSent e)" for e
    by (rule preservesI) (simp add: helloNotSent_def case_prod_beta hasLink_def)
  then have "preserves hasLink (channelEffect env m x)" for x
    by (cases x) (simp_all add: channelEffect_def preserved send)
  then have "preserves hasLink (channelEffects env m fx)" for fx
    unfolding channelEffects_def by (intro preserves_inSequence) (simp add: list_all_iff)
  from preservesD [OF this] show ?thesis by (intro preservesI) (simp add: channelsReset_def case_prod_beta hasLink_def)
qed

lemma preserves_wireUp [preserved]: "preserves I (wireUpConnection env m l address domains)"
proof -
  let ?J = "\<lambda>s. I s \<and> hasLink s"
  let ?rest = "inSequence (tl [modify (\<lambda>s. s\<lparr>ss_connection := Some l\<rparr>),
        channelsReset env m ''the connection changed before the channel was ready'',
        modify (\<lambda>s. s\<lparr>ss_pairings := [], ss_localHandshake := localHandshake domains, ss_handshake := HsPending,
                      ss_state := Connected address HsPending\<rparr>),
        recordFrame Sent (FHandshake (localHandshake domains)),
        sendOn m l (FHandshake (localHandshake domains)),
        emit,
        (\<lambda>s. case buildSelfAdvert env m [] s of
               Inl e \<Rightarrow> throwing e s
             | Inr advert \<Rightarrow> inSequence [recordFrame Sent advert, sendOn m l advert, emit] s),
        modify (\<lambda>s. s\<lparr>ss_handshakeTimer := True, ss_consumers := jset (ss_consumers s) l (address, domains, False)\<rparr>)])"
  have rec: "preserves ?J (recordFrame d f)" for d f
    by (rule preserves_conj [OF preserves_recordFrame]) (simp add: recordFrame_def preserves_def modify_def hasLink_def)
  have reset: "preserves ?J (channelsReset env m reason)" for reason
    by (rule preserves_conj [OF preserves_channelsReset hasLink_channelsReset])
  have up: "preserves ?J (modify (\<lambda>s. s\<lparr>ss_pairings := [], ss_localHandshake := h, ss_handshake := HsPending, ss_state := Connected address HsPending\<rparr>))" for h
    by (rule preserves_modify) (simp add: keeps hasLink_def)
  have advert: "preserves ?J (\<lambda>s. case buildSelfAdvert env m [] s of Inl e \<Rightarrow> throwing e s
      | Inr advert \<Rightarrow> inSequence [recordFrame Sent advert, sendOn m l advert, emit] s)"
  proof (rule preservesI)
    fix s assume J: "?J s"
    have "preserves ?J (inSequence [recordFrame Sent f, sendOn m l f, emit])" for f
      by (rule preserves_inSequence) (simp add: preserved rec)
    from preservesD [OF this J] J show "?J (snd (snd (case buildSelfAdvert env m [] s of Inl e \<Rightarrow> throwing e s
      | Inr advert \<Rightarrow> inSequence [recordFrame Sent advert, sendOn m l advert, emit] s)))"
      by (simp add: throwing_def split: sum.split)
  qed
  have arm: "preserves ?J (modify (\<lambda>s. s\<lparr>ss_handshakeTimer := True, ss_consumers := jset (ss_consumers s) l (address, domains, False)\<rparr>))"
    by (rule preserves_modify) (simp add: hasLink_def)
  have "preserves ?J ?rest"
    by (rule preserves_inSequence) (simp add: preserved rec reset up advert arm)
  then have "?J s' \<Longrightarrow> I (snd (snd (?rest s')))" for s' using preservesD by blast
  then show ?thesis
    by (intro preservesI) (simp add: wireUpConnection_def andThen_def [of "modify _"] modify_def case_prod_beta hasLink_def keeps)
qed

lemma preserves_doConnect [preserved]: "preserves I (doConnect env address domains)"
  unfolding doConnect_def by (intro preserved) (auto intro!: preserved preserves_modify simp: keeps)

lemma preserves_dialSettles [preserved]: "preserves I (dialSettles env m k result)"
proof
  fix s assume ok: "I s"
  have "preserves I (tryCatch
      (case result of Inl e \<Rightarrow> throwing e
       | Inr l \<Rightarrow> (\<lambda>s. if ss_feedCancelled s then perform [ClosesLink l] s else wireUpConnection env m l address domains s))
      (\<lambda>e. handleDisconnect env e address domains))" for address domains
    by (cases result) (simp_all, (intro preserved)+)
  from preservesD [OF this] ok show "I (snd (snd (dialSettles env m k result s)))"
    by (simp add: dialSettles_def skip_def Let_def case_prod_beta)
qed

lemma preserves_connect [preserved]: "preserves I (connect env address domains)"
  unfolding connect_def [abs_def] by (intro preserved preserves_modify) (simp add: keeps)

lemma preserves_frameArrives:
  assumes "helloIn env (FrameIn l f) \<subseteq> arrived"
  shows "preserves I (frameArrives env m l f)"
  using preserves_applyFrame [OF assms] unfolding frameArrives_def [abs_def]
  by (intro preserved) (auto intro!: preserved preserves_modify simp: keeps split: prod.split)

lemma preserves_linkDown [preserved]: "preserves I (linkDown env l reason address domains)"
  by (rule preservesI) (auto simp: linkDown_def skip_def intro!: preservesD [OF preserves_handleDisconnect] split: connection_state.split)

lemma preserves_streamEnds [preserved]: "preserves I (streamEnds env l failure)"
  unfolding streamEnds_def [abs_def]
  by (intro preserved) (auto intro!: preserved preserves_modify split: prod.split option.split)

lemma preserves_timers [preserved]: "preserves I handshakeTimeout" "preserves I (reconnectTimeout env)"
proof -
  show "preserves I handshakeTimeout"
    by (rule preservesI)
      (auto simp: handshakeTimeout_def skip_def andThen_def modify_def emit_def perform_def Let_def keeps still_linked hasLink_def split: connection_state.split)
  have "preserves I (tryCatch (doConnect env a d) (\<lambda>e. handleDisconnect env e a d))" for a d by (intro preserved)
  from preservesD [OF this] show "preserves I (reconnectTimeout env)"
    by (intro preservesI) (auto simp: reconnectTimeout_def skip_def split: option.split)
qed

lemma preserves_sends [preserved]:
  "preserves I (sendDirect env m f)" "preserves I (sendPing m)" "preserves I (sendPingMeasureRtt m c)"
  "preserves I (sendRevocationAnnounce env m es)" "preserves I (sendCoordinatorClaim env m cl)"
  "preserves I (sendDataFrame env m df target)"
  unfolding sendDirect_def sendPing_def sendPingMeasureRtt_def sendRevocationAnnounce_def sendCoordinatorClaim_def sendDataFrame_def
  by (auto intro!: preserved preserves_modify split: option.split)

lemma preserves_sendGossipUpdate [preserved]: "preserves I (sendGossipUpdate env m ext)"
proof -
  have "preserves I (\<lambda>s. case buildSelfAdvert env m ext s of Inl e \<Rightarrow> throwing e s | Inr advert \<Rightarrow> sendDirect env m advert s)"
    by (rule preservesI) (auto simp: throwing_def split: sum.split intro!: preservesD [OF preserves_sends(1)])
  then show ?thesis unfolding sendGossipUpdate_def by (intro preserved)
qed

lemma preserves_sendManageRequest [preserved]: "preserves I (sendManageRequest env m command scope' target token)"
proof -
  have send: "preserves I (inSequence
      [recordFrame Sent (FManageRequest r),
       tryCatch (transmit env m (ForRequest i) (FManageRequest r) (target \<noteq> None) target)
         (\<lambda>e. andThen (modify (\<lambda>s. s\<lparr>ss_pending := jdel (ss_pending s) i\<rparr>)) (throwing e))])" for r i
    by (auto intro!: preserved preserves_modify)
  have "preserves I (\<lambda>s. case buildManageRequest command scope' token s of
      (request, s') \<Rightarrow> inSequence
        [modify (\<lambda>s. s\<lparr>ss_pending := jset (ss_pending s) (mr_requestId request) target\<rparr>),
         recordFrame Sent (FManageRequest request),
         tryCatch (transmit env m (ForRequest (mr_requestId request)) (FManageRequest request) (target \<noteq> None) target)
           (\<lambda>e. andThen (modify (\<lambda>s. s\<lparr>ss_pending := jdel (ss_pending s) (mr_requestId request)\<rparr>)) (throwing e))] s')"
  proof (rule preservesI)
    fix s assume "I s"
    then have "I (s\<lparr>ss_nextRequestId := ss_nextRequestId s + 1,
        ss_pending := jset (ss_pending s) (ss_nextRequestId s) target\<rparr>)"
      by (simp add: keeps)
    from preservesD [OF send this] show "I (snd (snd (case buildManageRequest command scope' token s of
      (request, s') \<Rightarrow> inSequence
        [modify (\<lambda>s. s\<lparr>ss_pending := jset (ss_pending s) (mr_requestId request) target\<rparr>),
         recordFrame Sent (FManageRequest request),
         tryCatch (transmit env m (ForRequest (mr_requestId request)) (FManageRequest request) (target \<noteq> None) target)
           (\<lambda>e. andThen (modify (\<lambda>s. s\<lparr>ss_pending := jdel (ss_pending s) (mr_requestId request)\<rparr>)) (throwing e))] s')))"
      by (simp add: buildManageRequest_def andThen_def [of "modify _"] modify_def case_prod_beta)
  qed
  then show ?thesis unfolding sendManageRequest_def by (auto intro!: preserved split: option.split)
qed

lemma preserves_requestTimesOut [preserved]: "preserves I (requestTimesOut env m i)"
proof -
  have "preserves I (\<lambda>s. case channelForget d (ss_channels s) of (fx, rc) \<Rightarrow> channelEffects env m fx (s\<lparr>ss_channels := rc\<rparr>))" for d
    by (rule preservesI) (simp add: case_prod_beta preservesD [OF preserves_channelEffects] keeps_channels channelsOk_ops chans)
  then show ?thesis
    unfolding requestTimesOut_def [abs_def] by (auto intro!: preserved preserves_modify split: option.split)
qed

lemma preserves_close [preserved]: "preserves I (close env m)"
proof -
  have "preserves I (modify (\<lambda>s. s\<lparr>ss_state := (case ss_state s of Connected a _ \<Rightarrow> Closed a ''closed by you''
      | Connecting a \<Rightarrow> Closed a ''closed by you'' | Reconnecting a _ _ \<Rightarrow> Closed a ''closed by you'' | st \<Rightarrow> st)\<rparr>))"
    by (rule preserves_modify) (auto simp: keeps split: connection_state.split)
  moreover have "preserves I (\<lambda>s. perform (case ss_connection s of None \<Rightarrow> [] | Some l \<Rightarrow> [ClosesLink l]) s)"
    by (simp add: preserves_def perform_def)
  ultimately show ?thesis
    unfolding close_def by (intro preserves_inSequence) (simp add: preserved preserves_modify)
qed

lemma preserves_sessionStep:
  assumes "helloIn env event \<subseteq> arrived"
  shows "preserves I (sessionStep env m event)"
proof (cases event)
  case (FrameIn l f)
  then show ?thesis using preserves_frameArrives [of l f m] assms by (simp add: sessionStep_def)
next
  case (Respond k outcome)
  have "preserves I (\<lambda>s. if k < length (ss_incoming s) then respond env m (ss_incoming s ! k) outcome s else skip s)"
    by (rule preservesI) (simp add: skip_def preservesD [OF preserves_respond])
  then show ?thesis by (simp add: sessionStep_def Respond)
qed (simp_all add: sessionStep_def preserved)

end

text \<open>An invariant that also holds at the start holds in every reachable state.\<close>

locale session_property = session_invariant +
  assumes I_init: "I createSessionCore"
begin

lemma run_invariant: "session_run env es s \<Longrightarrow> \<Union> (helloIn env ` set es) \<subseteq> arrived \<Longrightarrow> I s"
  by (induction rule: session_run.induct) (simp_all add: I_init preservesD [OF preserves_sessionStep])

end

subsection \<open>The two invariants\<close>

interpretation sound: session_property env arrived "sessionOk env arrived" for env arrived
proof
  fix s a and f :: "device_id option"
  assume "sessionOk env arrived s" "verifyPeerAdvert (se_verifier env) a"
  then show "sessionOk env arrived (s\<lparr>ss_directory := jset (ss_directory s) (deviceIdToHex (device a)) a, ss_firstAdvert := f\<rparr>)"
    by (simp add: sessionOk_def list_all_jset)
next
  fix s target assume "sessionOk env arrived s"
  then show "sessionOk env arrived (s\<lparr>ss_nextRequestId := Suc (ss_nextRequestId s), ss_pending := jset (ss_pending s) (ss_nextRequestId s) target\<rparr>)"
    by (auto simp: sessionOk_def intro!: list_all_jset elim: list.pred_mono_strong)
qed (auto simp: sessionOk_def pushLog_bound list_all_jdel hasLink_def attemptLimit_def createSessionCore_def channelsOk_init)

lemma reach_runs: "session_reach env s \<Longrightarrow> \<exists>es. session_run env es s"
  by (induction rule: session_reach.induct) (auto intro: run_starts run_continues)

lemma session_reach_sound: "session_reach env s \<Longrightarrow> sessionOk env UNIV s"
  using sound.run_invariant [where arrived = UNIV] reach_runs by blast

text \<open>An advert of device key \<open>k\<close> is held that is no older than \<open>t\<close>.\<close>

definition holdsSince :: "session_env \<Rightarrow> string \<Rightarrow> int \<Rightarrow> mesh_session \<Rightarrow> bool" where
  "holdsSince env k t s \<longleftrightarrow>
     sessionOk env UNIV s \<and> (case jget (ss_directory s) k of None \<Rightarrow> False | Some a \<Rightarrow> t \<le> snapshotSeconds a)"

interpretation fresh: session_invariant env UNIV "holdsSince env k t" for env k t
proof
  fix s a and f :: "device_id option"
  assume "holdsSince env k t s" "verifyPeerAdvert (se_verifier env) a"
    "case jget (ss_directory s) (deviceIdToHex (device a)) of None \<Rightarrow> True | Some held \<Rightarrow> snapshotSeconds held \<le> snapshotSeconds a"
  then show "holdsSince env k t (s\<lparr>ss_directory := jset (ss_directory s) (deviceIdToHex (device a)) a, ss_firstAdvert := f\<rparr>)"
    by (auto simp: holdsSince_def sound.keeps_advert split: option.splits)
qed (auto simp: holdsSince_def sound.keeps sound.chans sound.stays_linked)

subsection \<open>Which steps answer a request\<close>

definition resolves :: "session_effect \<Rightarrow> bool" where
  "resolves x = (case x of ResolvesRequest _ _ \<Rightarrow> True | _ \<Rightarrow> False)"

definition quiet :: "session_op \<Rightarrow> bool" where
  "quiet f \<longleftrightarrow> (\<forall>s. list_all (\<lambda>x. \<not> resolves x) (fst (snd (f s))))"

named_theorems quieted \<open>operations that answer no request\<close>

lemma quiet_basic [quieted]:
  "quiet skip" "quiet (throwing e)" "quiet emit" "quiet (sendOn m l f)" "quiet (modify u)" "quiet (recordFrame d f)"
  "quiet (helloNotSent e)" "quiet (applyAdvert a)"
  by (auto simp: quiet_def skip_def throwing_def perform_def emit_def sendOn_def modify_def recordFrame_def resolves_def helloNotSent_def
      applyAdvert_def case_prod_beta list_all_iff List.map_filter_def Let_def split: option.splits channel_effect.splits)

lemma quiet_andThen [quieted]: "quiet f \<Longrightarrow> quiet g \<Longrightarrow> quiet (andThen f g)"
  unfolding quiet_def andThen_def by (auto split: prod.split option.split) (metis fst_conv snd_conv)+

lemma quiet_tryCatch [quieted]: "quiet f \<Longrightarrow> (\<And>e. quiet (h e)) \<Longrightarrow> quiet (tryCatch f h)"
  unfolding quiet_def tryCatch_def by (auto split: prod.split option.split) (metis fst_conv snd_conv)+

lemma quiet_inSequence [quieted]: "list_all quiet fs \<Longrightarrow> quiet (inSequence fs)"
  by (induction fs) (simp_all add: quieted)

lemma quiet_channelEffects [quieted]: "quiet (channelEffects env m fx)"
proof -
  have hello: "quiet (sendHello env m peer hello)" for peer hello
  proof -
    have "quiet (inSequence [recordFrame Sent (FSecureHello hello), sendOn m l (wrapRelayData env (FSecureHello hello) (Some peer)), emit])" for l
      by (rule quiet_inSequence) (simp add: quieted)
    then show ?thesis by (simp add: quiet_def sendHello_def throwing_def split: option.split)
  qed
  have "quiet (channelEffect env m x)" for x
    by (cases x) (auto simp: channelEffect_def quiet_def [of "perform _"] perform_def resolves_def intro!: quieted hello)
  then show ?thesis unfolding channelEffects_def by (intro quiet_inSequence) (simp add: list_all_iff)
qed

lemma quiet_transmit [quieted]: "quiet (transmit env m purpose f viaRelay toDevice)"
proof -
  have "quiet (sealAndSend env m l addr f d)" for l addr d
    using quiet_basic(4) by (simp add: quiet_def sealAndSend_def case_prod_beta)
  then have "quiet (andThen (sealAndSend env m l addr f d) emit)" "quiet (andThen (sendOn m l f) emit)" for l addr d
    by (intro quieted; assumption)+
  then show ?thesis
    using quiet_channelEffects by (auto simp: quiet_def transmit_def throwing_def split: option.split prod.split ensured.split)
qed

lemma quiet_applyManageRequest [quieted]: "quiet (applyManageRequest env m r orig)"
proof -
  have "quiet (perform [Unhandled e])" for e by (simp add: quiet_def perform_def resolves_def)
  moreover have "quiet (respond env m incoming outcome)" for incoming outcome
    unfolding respond_def Let_def by (intro quieted)
  ultimately show ?thesis unfolding applyManageRequest_def Let_def by (auto intro!: quieted)
qed

lemma resolves_quiet: "quiet f \<Longrightarrow> ResolvesRequest i outcome \<notin> set (fst (snd (f s)))"
  by (fastforce simp: quiet_def list_all_iff resolves_def)

lemma effects_record: "fst (snd (andThen (recordFrame d f) g s)) = fst (snd (g (s\<lparr>ss_frameLog := pushLog (d, f) (ss_frameLog s)\<rparr>)))"
  by (simp add: andThen_def recordFrame_def modify_def case_prod_beta)

lemma applyManageResponse_resolves:
  "ResolvesRequest i outcome \<in> set (fst (snd (applyManageResponse j result sender s))) \<Longrightarrow>
     i = j \<and> outcome = result \<and> jget (ss_pending s) i = Some sender"
  by (auto simp: applyManageResponse_def skip_def split: option.splits if_splits)

lemma applyRelayData_resolves:
  assumes "ResolvesRequest i outcome \<in> set (fst (snd (applyRelayData env m body to claimed s)))"
  shows "\<exists>dat sender. cc_tryDecodeFrame (se_crypto env) body = Some (FSecureData dat)
    \<and> fst (channelOpen (se_crypto env) dat claimed (ss_channels s)) = Some (FManageResponse i outcome, sender)
    \<and> jget (ss_pending s) i = Some (Some sender)"
proof (cases "cc_tryDecodeFrame (se_crypto env) body")
  case None
  with assms show ?thesis by (simp add: applyRelayData_def resolves_quiet quieted)
next
  case (Some inner)
  show ?thesis
  proof (cases inner)
    case (FSecureHello hello)
    with assms Some show ?thesis
      by (simp add: applyRelayData_def effects_record case_prod_beta resolves_quiet [OF quiet_channelEffects])
  next
    case (FSecureData dat)
    obtain r rc where o: "channelOpen (se_crypto env) dat claimed (ss_channels s) = (r, rc)" by fastforce
    with assms Some FSecureData obtain f sender where r: "r = Some (f, sender)"
        and fx: "ResolvesRequest i outcome \<in> set (fst (snd (applyOpened env m f sender to (s\<lparr>ss_channels := rc\<rparr>))))"
      by (cases r) (auto simp: applyRelayData_def skip_def)
    then show ?thesis
      using Some FSecureData o
      by (cases f) (auto simp: applyOpened_def effects_record skip_def modify_def resolves_quiet [OF quiet_applyManageRequest]
          dest!: applyManageResponse_resolves)
  qed (use assms Some in \<open>simp_all add: applyRelayData_def resolves_quiet quieted\<close>)
qed

subsection \<open>Properties\<close>


definition sampleEnv :: session_env where
  "sampleEnv = \<lparr>se_identity = sampleHelloIdentity 1,
     se_crypto = \<lparr>cc_ecdh = (\<lambda>_ _. None), cc_hkdf = (\<lambda>s t i. s @ t @ i), cc_encrypt = (\<lambda>k iv ad pt. pt), cc_decrypt = (\<lambda>k iv ad ct. None),
       cc_messageFromFrame = (\<lambda>_. []), cc_tryDecodeFrame = (\<lambda>_. None)\<rparr>,
     se_verifier = toy_verifier, se_reconnect = Some 3, se_canDial = True, se_addresses = [], se_version = ''1.0.0'',
     se_redial = (\<lambda>_. None), se_authPeer = (\<lambda>_. None)\<rparr>"

definition sampleMoment :: moment where
  "sampleMoment = \<lparr>mo_alive = (\<lambda>_. True), mo_fresh = (([3], [3]), [7]), mo_clock = 5000\<rparr>"



text \<open>C12: A request is answered only from where it was sent. When a frame settles a manage-request, either
  the request was sent directly and the frame is a direct response to it, or it was sent to a device
  through a relay and the response opened under that device's own channel.\<close>

theorem response_from_expected_peer:
  assumes "ResolvesRequest i outcome \<in> set (fst (snd (applyFrame env m f s)))"
  shows "\<exists>expected. jget (ss_pending s) i = Some expected \<and>
    (case expected of
       None \<Rightarrow> f = FManageResponse i outcome
     | Some d \<Rightarrow> \<exists>body to claimed dat. f = FRelayData body to claimed
         \<and> cc_tryDecodeFrame (se_crypto env) body = Some (FSecureData dat)
         \<and> fst (channelOpen (se_crypto env) dat claimed (ss_channels s)) = Some (FManageResponse i outcome, d))"
proof (cases f)
  case (FRelayData body to claimed)
  with assms applyRelayData_resolves [of i outcome env m body to claimed s] show ?thesis by (auto simp: applyFrame_def)
next
  case (FManageResponse j result)
  with assms show ?thesis by (auto simp: applyFrame_def effects_record dest!: applyManageResponse_resolves)
next
  case (FGossip peers)
  have "quiet (inSequence (map applyAdvert (filter (verifyPeerAdvert (se_verifier env)) peers)))"
    by (rule quiet_inSequence) (simp add: list_all_iff quieted)
  from resolves_quiet [OF this] FGossip assms show ?thesis by (simp add: applyFrame_def effects_record)
qed (use assms in \<open>auto simp: applyFrame_def effects_record resolves_quiet [OF quiet_basic(5)] resolves_quiet [OF quiet_basic(1)]
      resolves_quiet [OF quiet_applyManageRequest] case_prod_beta\<close>)

theorem response_from_expected_peer_witness:
  "\<exists>expected. jget (ss_pending (createSessionCore\<lparr>ss_pending := [(0, None)]\<rparr>)) 0 = Some expected"
proof -
  have "ResolvesRequest 0 (ManageError ''denied'' None) \<in> set (fst (snd (applyFrame sampleEnv sampleMoment (FManageResponse 0 (ManageError ''denied'' None))
      (createSessionCore\<lparr>ss_pending := [(0, None)]\<rparr>))))"
    by (simp add: applyFrame_def effects_record applyManageResponse_def)
  from response_from_expected_peer [OF this] show ?thesis by blast
qed

text \<open>C13: A device's directory entry never rolls back: in whatever order adverts arrive, and whatever else the
  session does, an entry is only ever replaced by one its device signed no earlier.\<close>

theorem directory_never_rolls_back:
  assumes "session_reach env s" and "jget (ss_directory s) key = Some held"
  shows "\<exists>a. jget (ss_directory (snd (snd (sessionStep env m event s)))) key = Some a \<and> snapshotSeconds held \<le> snapshotSeconds a"
proof -
  have "holdsSince env key (snapshotSeconds held) s"
    using session_reach_sound [OF assms(1)] assms(2) by (simp add: holdsSince_def)
  from preservesD [OF fresh.preserves_sessionStep this, of event m] show ?thesis by (simp add: holdsSince_def split: option.splits)
qed

definition sampleAdvert :: peer_advert where
  "sampleAdvert = the (signPeerAdvert (\<lambda>b. [7] @ b) (av_encode toy_verifier) (toy_content [7] 5))"

definition sampleHeard :: mesh_session where
  "sampleHeard = snd (snd (sessionStep sampleEnv sampleMoment (FrameIn 11 (FGossip [sampleAdvert]))
     (snd (snd (sessionStep sampleEnv sampleMoment (AcceptLink 11 ''accepted'' []) createSessionCore)))))"

lemma sampleHeard_directory: "jget (ss_directory sampleHeard) (deviceIdToHex (device sampleAdvert)) = Some sampleAdvert"
  by (simp add: sampleHeard_def sampleAdvert_def sessionStep_def wireUpConnection_def andThen_def modify_def channelsReset_def channelReset_def
      createSessionCore_def createRelayChannels_def channelEffects_def skip_def recordFrame_def sendOn_def sampleMoment_def perform_def emit_def
      buildSelfAdvert_def signPeerAdvert_def peerAdvertSigningInput_def sampleEnv_def toy_verifier_def toy_content_def
      frameArrives_def applyFrame_def verifyPeerAdvert_def checkPeerAdvert_def withSignature_def withoutSignature_def
      unsigned_peer_advert.truncate_def applyAdvert_def Let_def)

theorem directory_never_rolls_back_witness:
  "\<exists>a. jget (ss_directory (snd (snd (sessionStep sampleEnv sampleMoment CloseSession sampleHeard)))) (deviceIdToHex (device sampleAdvert)) = Some a"
proof -
  have "session_reach sampleEnv sampleHeard" unfolding sampleHeard_def by (intro session_step session_init)
  from directory_never_rolls_back [OF this sampleHeard_directory, of sampleMoment CloseSession] show ?thesis by blast
qed

subsection \<open>Ending a session\<close>





end
