(* ===== verification/RoomPaths.thy ===== *)
theory RoomPaths
  imports DeviceIds
begin

text \<open>
  \<open>ts/packages/core/src/domain/room-path.ts\<close>: the paths that name rooms, \<open><owner-hex>/<local-name>\<close> for
  a named room and \<open><lower-hex>+<higher-hex>\<close> for a direct message, with their printers, their parser
  and the slugs of untrusted names. The schemas of the two shapes in \<open>generated/protocol.ts\<close> search for
  the pattern anywhere in the string.
\<close>

definition charIn :: "char \<Rightarrow> char \<Rightarrow> char \<Rightarrow> bool" where
  "charIn lo hi c \<longleftrightarrow> (of_char lo :: nat) \<le> of_char c \<and> (of_char c :: nat) \<le> of_char hi"

definition nameChar :: "char \<Rightarrow> bool" where
  "nameChar c \<longleftrightarrow> charIn (CHR ''A'') (CHR ''Z'') c \<or> charIn (CHR ''a'') (CHR ''z'') c \<or> charIn (CHR ''0'') (CHR ''9'') c
     \<or> c = CHR ''_'' \<or> c = CHR ''-''"

definition hexChar :: "char \<Rightarrow> bool" where
  "hexChar c \<longleftrightarrow> c \<in> set hexDigits"

definition deviceIdHexPattern :: "string \<Rightarrow> bool" where
  "deviceIdHexPattern s \<longleftrightarrow> length s = DEVICE_ID_HEX_LENGTH \<and> list_all hexChar s"

definition localNamePattern :: "string \<Rightarrow> bool" where
  "localNamePattern s \<longleftrightarrow> s \<noteq> [] \<and> list_all nameChar s"

datatype room_path_error =
    NotHexDeviceId string string
  | NotLocalName string
  | SameDeviceTwice string
  | NotRoomPath string
  | NothingToSlug string

definition assertDeviceIdHex :: "string \<Rightarrow> string \<Rightarrow> room_path_error option" where
  "assertDeviceIdHex s label = (if deviceIdHexPattern s then None else Some (NotHexDeviceId label s))"

definition ownerNamedRoomPath :: "string \<Rightarrow> string \<Rightarrow> room_path_error + string" where
  "ownerNamedRoomPath owner localName =
     (case assertDeviceIdHex owner ''owner'' of
        Some e \<Rightarrow> Err e
      | None \<Rightarrow> if \<not> localNamePattern localName then Err (NotLocalName localName) else Ok (owner @ CHR ''/'' # localName))"

text \<open>The order of JavaScript strings.\<close>

fun strLess :: "string \<Rightarrow> string \<Rightarrow> bool" where
  "strLess as [] = False"
| "strLess [] (b # bs) = True"
| "strLess (a # as) (b # bs) = ((of_char a :: nat) < of_char b \<or> a = b \<and> strLess as bs)"

definition dmRoomPath :: "string \<Rightarrow> string \<Rightarrow> room_path_error + string" where
  "dmRoomPath a b =
     (case assertDeviceIdHex a ''a'' of
        Some e \<Rightarrow> Err e
      | None \<Rightarrow>
          (case assertDeviceIdHex b ''b'' of
             Some e \<Rightarrow> Err e
           | None \<Rightarrow>
               if a = b then Err (SameDeviceTwice a)
               else Ok (if strLess a b then a @ CHR ''+'' # b else b @ CHR ''+'' # a)))"

datatype parsed_room_path = OwnerNamed string string | Dm string string

definition parseDm :: "string \<Rightarrow> room_path_error + parsed_room_path" where
  "parseDm p =
     (case indexOf p (CHR ''+'') of
        None \<Rightarrow> Err (NotRoomPath p)
      | Some i \<Rightarrow>
          let first = take i p; second = drop (i + 1) p
          in if deviceIdHexPattern first \<and> deviceIdHexPattern second \<and> first \<noteq> second then Ok (Dm first second)
             else Err (NotRoomPath p))"

definition parseRoomPath :: "string \<Rightarrow> room_path_error + parsed_room_path" where
  "parseRoomPath p =
     (case indexOf p (CHR ''/'') of
        None \<Rightarrow> parseDm p
      | Some i \<Rightarrow>
          let owner = take i p; localName = drop (i + 1) p
          in if deviceIdHexPattern owner \<and> localNamePattern localName then Ok (OwnerNamed owner localName) else parseDm p)"

text \<open>\<open>replace(/[^A-Za-z0-9_-]+/g, "-")\<close> and \<open>replace(/^-+|-+$/g, "")\<close>.\<close>

fun hyphenateRuns :: "bool \<Rightarrow> string \<Rightarrow> string" where
  "hyphenateRuns inRun [] = []"
| "hyphenateRuns inRun (c # cs) =
     (if nameChar c then c # hyphenateRuns False cs
      else if inRun then hyphenateRuns True cs else CHR ''-'' # hyphenateRuns True cs)"

definition trimHyphens :: "string \<Rightarrow> string" where
  "trimHyphens s = rev (dropWhile (\<lambda>c. c = CHR ''-'') (rev (dropWhile (\<lambda>c. c = CHR ''-'') s)))"

definition slugRoomName :: "string \<Rightarrow> room_path_error + string" where
  "slugRoomName nm =
     (let slug = trimHyphens (hyphenateRuns False nm) in if slug = [] then Err (NothingToSlug nm) else Ok slug)"

text \<open>The generated schemas: \<open>z.string().regex(new RegExp(...))\<close> without anchors.\<close>

definition matchesAt :: "(string \<Rightarrow> bool) \<Rightarrow> string \<Rightarrow> bool" where
  "matchesAt pat s = list_ex (\<lambda>i. pat (drop i s)) [0..<length s]"

definition hexThen :: "char \<Rightarrow> (string \<Rightarrow> bool) \<Rightarrow> string \<Rightarrow> bool" where
  "hexThen separator pat s \<longleftrightarrow>
     length s > 64 \<and> list_all hexChar (take 64 s) \<and> s ! 64 = separator \<and> pat (drop 65 s)"

definition ownerNamedRoomPathSchema :: "string \<Rightarrow> bool" where
  "ownerNamedRoomPathSchema = matchesAt (hexThen (CHR ''/'') (\<lambda>s. s \<noteq> [] \<and> nameChar (hd s)))"

definition dmRoomPathSchema :: "string \<Rightarrow> bool" where
  "dmRoomPathSchema = matchesAt (hexThen (CHR ''+'') (\<lambda>s. length s \<ge> 64 \<and> list_all hexChar (take 64 s)))"

definition roomPathSchema :: "string \<Rightarrow> bool" where
  "roomPathSchema s \<longleftrightarrow> ownerNamedRoomPathSchema s \<or> dmRoomPathSchema s"

subsection \<open>Printing and parsing\<close>

lemma hexChar_not_separator [simp]: "\<not> hexChar (CHR ''/'')" "\<not> hexChar (CHR ''+'')"
  by (simp_all add: hexChar_def hexDigits_def)

lemma nameChar_simps [simp]: "\<not> nameChar (CHR ''/'')" "\<not> nameChar (CHR ''+'')" "nameChar (CHR ''-'')"
  by (simp_all add: nameChar_def charIn_def)

lemma indexOf_append: "c \<notin> set xs \<Longrightarrow> indexOf (xs @ c # ys) c = Some (length xs)"
  by (induction xs) auto

lemma indexOf_None_iff: "indexOf xs c = None \<longleftrightarrow> c \<notin> set xs"
  by (induction xs) auto

lemma indexOf_split: "indexOf xs c = Some i \<Longrightarrow> xs = take i xs @ c # drop (Suc i) xs \<and> c \<notin> set (take i xs)"
proof (induction xs arbitrary: i)
  case (Cons x xs)
  then show ?case by (cases i) (auto split: if_splits)
qed simp

lemma deviceIdHexPattern_hex: "deviceIdHexPattern s \<Longrightarrow> c \<in> set s \<Longrightarrow> hexChar c"
  by (simp add: deviceIdHexPattern_def list_all_iff)

lemma pattern_no_separator: "deviceIdHexPattern s \<Longrightarrow> CHR ''/'' \<notin> set s \<and> CHR ''+'' \<notin> set s"
  using deviceIdHexPattern_hex [of s] by fastforce

lemma parse_owner_iff:
  "parseRoomPath p = Ok (OwnerNamed owner nm) \<longleftrightarrow> deviceIdHexPattern owner \<and> localNamePattern nm \<and> p = owner @ CHR ''/'' # nm"
  (is "?parsed \<longleftrightarrow> ?printed")
proof
  assume ?parsed
  then obtain i where i: "indexOf p (CHR ''/'') = Some i" "owner = take i p" "nm = drop (Suc i) p"
      and ok: "deviceIdHexPattern owner" "localNamePattern nm"
    by (auto simp: parseRoomPath_def parseDm_def Let_def split: option.splits if_splits)
  from indexOf_split [OF i(1)] have "p = owner @ CHR ''/'' # nm" unfolding i(2,3) by (rule conjunct1)
  with ok show ?printed by blast
next
  assume ?printed
  then show ?parsed
    using indexOf_append [of "CHR ''/''" owner nm] pattern_no_separator [of owner]
    by (simp add: parseRoomPath_def Let_def)
qed

lemma parse_dm_iff:
  "parseRoomPath p = Ok (Dm a b) \<longleftrightarrow> deviceIdHexPattern a \<and> deviceIdHexPattern b \<and> a \<noteq> b \<and> p = a @ CHR ''+'' # b"
  (is "?parsed \<longleftrightarrow> ?printed")
proof
  assume ?parsed
  then have "parseDm p = Ok (Dm a b)" by (auto simp: parseRoomPath_def Let_def split: option.splits if_splits)
  then obtain i where i: "indexOf p (CHR ''+'') = Some i" "a = take i p" "b = drop (Suc i) p"
      and ok: "deviceIdHexPattern a" "deviceIdHexPattern b" "a \<noteq> b"
    by (auto simp: parseDm_def Let_def split: option.splits if_splits)
  from indexOf_split [OF i(1)] have "p = a @ CHR ''+'' # b" unfolding i(2,3) by (rule conjunct1)
  with ok show ?printed by blast
next
  assume p: ?printed
  then have "indexOf p (CHR ''/'') = None" using pattern_no_separator [of a] pattern_no_separator [of b] by (simp add: indexOf_None_iff)
  then show ?parsed using p indexOf_append [of "CHR ''+''" a b] pattern_no_separator [of a]
    by (simp add: parseRoomPath_def parseDm_def Let_def)
qed

lemma strLess_asym: "strLess a b \<Longrightarrow> \<not> strLess b a"
  by (induction a b rule: strLess.induct) auto

lemma strLess_total: "a \<noteq> b \<Longrightarrow> strLess a b \<or> strLess b a"
proof (induction a b rule: strLess.induct)
  case (1 as)
  then show ?case by (cases as) auto
next
  case (3 a as b bs)
  then show ?case using linorder_less_linear [of "of_char a :: nat" "of_char b"] by auto
qed simp

lemma ownerNamed_Ok_iff:
  "ownerNamedRoomPath owner nm = Ok p \<longleftrightarrow> deviceIdHexPattern owner \<and> localNamePattern nm \<and> p = owner @ CHR ''/'' # nm"
  by (auto simp: ownerNamedRoomPath_def assertDeviceIdHex_def)

lemma dmRoomPath_Ok_iff:
  "dmRoomPath a b = Ok p \<longleftrightarrow> deviceIdHexPattern a \<and> deviceIdHexPattern b \<and> a \<noteq> b
     \<and> p = (if strLess a b then a @ CHR ''+'' # b else b @ CHR ''+'' # a)"
  by (auto simp: dmRoomPath_def assertDeviceIdHex_def)

subsection \<open>Slugs\<close>

lemma hyphenateRuns_nameChars: "list_all nameChar (hyphenateRuns r s)"
  by (induction r s rule: hyphenateRuns.induct) auto

lemma list_all_trim: "list_all P s \<Longrightarrow> list_all P (trimHyphens s)"
  by (auto simp: trimHyphens_def list_all_iff dest!: set_dropWhileD)

lemma trimHyphens_Nil_iff: "trimHyphens s = [] \<longleftrightarrow> set s \<subseteq> {CHR ''-''}"
proof -
  have "trimHyphens s = [] \<longleftrightarrow> (\<forall>c \<in> set (dropWhile (\<lambda>c. c = CHR ''-'') s). c = CHR ''-'')"
    by (simp add: trimHyphens_def dropWhile_eq_Nil_conv)
  also have "\<dots> \<longleftrightarrow> set s \<subseteq> {CHR ''-''}"
    by (induction s) auto
  finally show ?thesis .
qed

lemma hyphenateRuns_kept: "set (filter nameChar s) \<subseteq> set (hyphenateRuns r s) \<and> set (hyphenateRuns r s) \<subseteq> insert (CHR ''-'') (set (filter nameChar s))"
  by (induction r s rule: hyphenateRuns.induct) auto

text \<open>A name has a slug unless it holds no name character but hyphens, and the slug names a room of any owner.\<close>

lemma slug_names_room:
  "(\<exists>c \<in> set nm. nameChar c \<and> c \<noteq> CHR ''-'') \<longleftrightarrow> (\<exists>slug. slugRoomName nm = Ok slug)"
  "slugRoomName nm = Ok slug \<Longrightarrow> localNamePattern slug"
proof -
  have "trimHyphens (hyphenateRuns False nm) = [] \<longleftrightarrow> \<not> (\<exists>c \<in> set nm. nameChar c \<and> c \<noteq> CHR ''-'')"
    unfolding trimHyphens_Nil_iff using hyphenateRuns_kept [of nm False] by auto
  then show "(\<exists>c \<in> set nm. nameChar c \<and> c \<noteq> CHR ''-'') \<longleftrightarrow> (\<exists>slug. slugRoomName nm = Ok slug)"
    by (auto simp: slugRoomName_def Let_def)
  show "slugRoomName nm = Ok slug \<Longrightarrow> localNamePattern slug"
    by (auto simp: slugRoomName_def Let_def localNamePattern_def intro: list_all_trim hyphenateRuns_nameChars split: if_splits)
qed

subsection \<open>Properties\<close>

text \<open>Room paths print and parse. What the printers make is exactly what the parser reads back, for a named
  room and, in either order of the arguments, for a direct message; and a slug is accepted as the name
  of a room.\<close>

theorem room_paths_roundtrip:
  "(ownerNamedRoomPath owner nm = Ok p \<longleftrightarrow> parseRoomPath p = Ok (OwnerNamed owner nm))
   \<and> (dmRoomPath a b = Ok p \<longleftrightarrow> parseRoomPath p = Ok (if strLess a b then Dm a b else Dm b a))
   \<and> (dmRoomPath a b = Ok p \<longleftrightarrow> dmRoomPath b a = Ok p)
   \<and> (slugRoomName untrusted = Ok nm \<and> deviceIdHexPattern owner
        \<longleftrightarrow> slugRoomName untrusted = Ok nm \<and> ownerNamedRoomPath owner nm = Ok (owner @ ''/'' @ nm))"
proof (intro conjI)
  show "ownerNamedRoomPath owner nm = Ok p \<longleftrightarrow> parseRoomPath p = Ok (OwnerNamed owner nm)"
    by (simp add: parse_owner_iff ownerNamed_Ok_iff)
  show "dmRoomPath a b = Ok p \<longleftrightarrow> parseRoomPath p = Ok (if strLess a b then Dm a b else Dm b a)"
    by (auto simp: parse_dm_iff dmRoomPath_Ok_iff)
  show "dmRoomPath a b = Ok p \<longleftrightarrow> dmRoomPath b a = Ok p"
    using strLess_total [of a b] strLess_asym [of a b] by (auto simp: dmRoomPath_Ok_iff)
  show "slugRoomName untrusted = Ok nm \<and> deviceIdHexPattern owner
        \<longleftrightarrow> slugRoomName untrusted = Ok nm \<and> ownerNamedRoomPath owner nm = Ok (owner @ ''/'' @ nm)"
    using slug_names_room(2) [of untrusted nm] by (auto simp: ownerNamed_Ok_iff)
qed

text \<open>A direct message has two accepted paths: the parser takes the pair of devices in either order,
  and so gives the reverse of the one path the printer makes for them, which is a different room.\<close>

theorem dm_path_not_canonical:
  "(\<exists>p. dmRoomPath a b = Ok p) \<longleftrightarrow>
     parseRoomPath (a @ ''+'' @ b) = Ok (Dm a b) \<and> parseRoomPath (b @ ''+'' @ a) = Ok (Dm b a) \<and> a @ ''+'' @ b \<noteq> b @ ''+'' @ a"
proof -
  have "length a = length b \<Longrightarrow> a \<noteq> b \<Longrightarrow> a @ ''+'' @ b \<noteq> b @ ''+'' @ a" by (auto simp: append_eq_append_conv)
  then show ?thesis by (auto simp: dmRoomPath_Ok_iff parse_dm_iff deviceIdHexPattern_def)
qed

end
