(* ===== verification/GroupKeys.thy ===== *)
theory GroupKeys
  imports SecureChannel
begin

text \<open>
  \<open>ts/packages/core/src/domain/group-key.ts\<close>: the keys a room's content is encrypted under. Web Crypto is
  a parameter (\<open>group_crypto\<close>): HKDF-SHA-256 to an AES key, the import of a raw AES key, which fails on a
  length that is no AES key size, and AES-GCM. Random initialisation vectors are arguments. A
  \<open>CryptoKey\<close> is its raw bytes.
\<close>

record group_crypto =
  gc_hkdf :: "bytes \<Rightarrow> bytes \<Rightarrow> bytes \<Rightarrow> bytes"
  gc_importKey :: "bytes \<Rightarrow> bytes option"
  gc_encrypt :: "bytes \<Rightarrow> bytes \<Rightarrow> bytes \<Rightarrow> bytes"
  gc_decrypt :: "bytes \<Rightarrow> bytes \<Rightarrow> bytes \<Rightarrow> bytes option"

definition GCM_IV_BYTE_LENGTH :: nat where "GCM_IV_BYTE_LENGTH = 12"
definition UINT32_BYTE_LENGTH :: nat where "UINT32_BYTE_LENGTH = 4"
definition HKDF_INFO_PREFIX :: bytes where "HKDF_INFO_PREFIX = textEncode ''wire-mesh/room-rekey/v1'' @ [0]"
definition ENCRYPTED_CONTENT_TYPE_SUFFIX :: string where "ENCRYPTED_CONTENT_TYPE_SUFFIX = ''+aes256gcm''"

text \<open>\<open>setUint32\<close> and \<open>setBigUint64(BigInt(n))\<close>, big-endian; both wrap around.\<close>

definition uint32Bytes :: "nat \<Rightarrow> bytes" where
  "uint32Bytes n = map (\<lambda>i. word_of_nat (n div 256 ^ (UINT32_BYTE_LENGTH - 1 - i))) [0..<UINT32_BYTE_LENGTH]"

definition epochBytes :: "int \<Rightarrow> bytes" where
  "epochBytes epoch = counterBytes (nat (epoch mod 2 ^ 64))"

definition hkdfInfo :: "string \<Rightarrow> int \<Rightarrow> bytes" where
  "hkdfInfo room keyEpoch =
     HKDF_INFO_PREFIX @ uint32Bytes (length (textEncode room)) @ textEncode room @ epochBytes keyEpoch"

definition deriveWrappingKey :: "group_crypto \<Rightarrow> bytes \<Rightarrow> string \<Rightarrow> int \<Rightarrow> bytes" where
  "deriveWrappingKey crypto sharedSecret room keyEpoch = gc_hkdf crypto sharedSecret [] (hkdfInfo room keyEpoch)"

definition aesGcmEncrypt :: "group_crypto \<Rightarrow> bytes \<Rightarrow> bytes \<Rightarrow> bytes \<Rightarrow> bytes" where
  "aesGcmEncrypt crypto iv key plaintext = iv @ gc_encrypt crypto key iv plaintext"

definition aesGcmDecrypt :: "group_crypto \<Rightarrow> bytes \<Rightarrow> bytes \<Rightarrow> bytes option" where
  "aesGcmDecrypt crypto key ivAndCiphertext =
     (if length ivAndCiphertext < GCM_IV_BYTE_LENGTH then None
      else gc_decrypt crypto key (take GCM_IV_BYTE_LENGTH ivAndCiphertext) (drop GCM_IV_BYTE_LENGTH ivAndCiphertext))"

definition wrapContentKey :: "group_crypto \<Rightarrow> bytes \<Rightarrow> bytes \<Rightarrow> bytes \<Rightarrow> bytes" where
  "wrapContentKey crypto iv wrappingKey contentKey = aesGcmEncrypt crypto iv wrappingKey contentKey"

definition unwrapContentKey :: "group_crypto \<Rightarrow> bytes \<Rightarrow> bytes \<Rightarrow> bytes option" where
  "unwrapContentKey crypto wrappingKey wrapped = aesGcmDecrypt crypto wrappingKey wrapped"

definition encryptNoticeContent :: "group_crypto \<Rightarrow> bytes \<Rightarrow> bytes \<Rightarrow> bytes \<Rightarrow> bytes option" where
  "encryptNoticeContent crypto iv contentKey plaintext =
     (case gc_importKey crypto contentKey of None \<Rightarrow> None | Some key \<Rightarrow> Some (aesGcmEncrypt crypto iv key plaintext))"

definition decryptNoticeContent :: "group_crypto \<Rightarrow> bytes \<Rightarrow> bytes \<Rightarrow> bytes option" where
  "decryptNoticeContent crypto contentKey ciphertext =
     (case gc_importKey crypto contentKey of None \<Rightarrow> None | Some key \<Rightarrow> aesGcmDecrypt crypto key ciphertext)"

definition stringEndsWith :: "string \<Rightarrow> string \<Rightarrow> bool" where
  "stringEndsWith s ending \<longleftrightarrow> length ending \<le> length s \<and> drop (length s - length ending) s = ending"

definition isEncryptedContentType :: "string \<Rightarrow> bool" where
  "isEncryptedContentType contentType = stringEndsWith contentType ENCRYPTED_CONTENT_TYPE_SUFFIX"

definition encryptedContentType :: "string \<Rightarrow> string" where
  "encryptedContentType t = (if isEncryptedContentType t then t else t @ ENCRYPTED_CONTENT_TYPE_SUFFIX)"

definition plaintextContentType :: "string \<Rightarrow> string" where
  "plaintextContentType t =
     (if isEncryptedContentType t then take (length t - length ENCRYPTED_CONTENT_TYPE_SUFFIX) t else t)"

subsection \<open>Domain separation\<close>

lemma textEncode_inject [simp]: "textEncode s = textEncode t \<longleftrightarrow> s = t"
  by (metis textDecode_textEncode)

lemma textEncode_length [simp]: "length (textEncode s) = length s"
  by (simp add: textEncode_def)

lemma epochBytes_length [simp]: "length (epochBytes e) = 8"
  by (simp add: epochBytes_def counterBytes_def COUNTER_BYTE_LENGTH_def)

lemma uint32Bytes_length [simp]: "length (uint32Bytes n) = 4"
  by (simp add: uint32Bytes_def UINT32_BYTE_LENGTH_def)

lemma epochBytes_inject: "epochBytes d = epochBytes e \<longleftrightarrow> d mod 2 ^ 64 = e mod 2 ^ 64"
proof -
  have "nat (x mod 2 ^ 64) < 2 ^ 64" for x :: int by (simp add: nat_less_iff)
  from counterBytes_inject [OF this [of d] this [of e]] show ?thesis
    by (auto simp: epochBytes_def nat_eq_iff2 simp del: power_numeral)
qed

text \<open>The derivation input is the same only for the same room and the same epoch, up to the width of the epoch field.\<close>

lemma hkdfInfo_inject: "hkdfInfo r d = hkdfInfo s e \<longleftrightarrow> r = s \<and> d mod 2 ^ 64 = e mod 2 ^ 64"
  by (auto simp: hkdfInfo_def epochBytes_inject simp del: power_numeral)

subsection \<open>Content types\<close>

lemma encrypted_encryptedContentType [simp]: "isEncryptedContentType (encryptedContentType t)"
  by (simp add: encryptedContentType_def isEncryptedContentType_def stringEndsWith_def)

lemma plaintext_encryptedContentType: "\<not> isEncryptedContentType t \<Longrightarrow> plaintextContentType (encryptedContentType t) = t"
  by (simp add: plaintextContentType_def) (simp add: encryptedContentType_def)

lemma encryptedContentType_idem: "encryptedContentType (encryptedContentType t) = encryptedContentType t"
  by (subst encryptedContentType_def) simp

subsection \<open>Wrapping and unwrapping\<close>

definition gcm_law :: "group_crypto \<Rightarrow> bool" where
  "gcm_law crypto \<longleftrightarrow> (\<forall>key iv plaintext. gc_decrypt crypto key iv (gc_encrypt crypto key iv plaintext) = Some plaintext)"

lemma aesGcm_roundtrip: "gcm_law crypto \<Longrightarrow> length iv = GCM_IV_BYTE_LENGTH \<Longrightarrow> aesGcmDecrypt crypto key (aesGcmEncrypt crypto iv key p) = Some p"
  by (simp add: aesGcmDecrypt_def aesGcmEncrypt_def gcm_law_def)

lemma noticeContent_roundtrip:
  "gcm_law crypto \<Longrightarrow> length iv = GCM_IV_BYTE_LENGTH \<Longrightarrow> encryptNoticeContent crypto iv key p = Some c \<Longrightarrow>
     decryptNoticeContent crypto key c = Some p"
  by (auto simp: encryptNoticeContent_def decryptNoticeContent_def aesGcm_roundtrip split: option.splits)

end
