(* ===== verification/Rooms.thy ===== *)
theory Rooms
  imports RoomPaths GroupKeys MeshSession
begin

text \<open>
  Rooms, under \<open>ts/packages/core/src/domain/\<close>: the verification of membership tokens
  (\<open>room-token-verification.ts\<close>), the signed notices members post (\<open>room.ts\<close>) and the distribution of a
  room's content keys (\<open>room-rekey.ts\<close>). The outer option of a result is that of the token walk, whose fuel
  may run out; the sum's left is a thrown error. The codec of a notice's claims is a pair of arguments;
  the pattern of its \<open>room\<close> field is checked here.
\<close>

subsection \<open>Membership tokens\<close>

definition ROOM_MEMBER_CAPABILITY :: string where "ROOM_MEMBER_CAPABILITY = ''room:member''"

datatype room_token_reason = TokenReason token_verdict_reason | wrong_scope_kind | wrong_scope_path | wrong_chain_root

datatype room_token_verdict = RoomAccepted token_claims identity_key | RoomRefused room_token_reason

datatype dm_root_policy = SelfOnly | EitherParticipant

definition rootAllowed :: "device_id \<Rightarrow> dm_root_policy \<Rightarrow> device_id \<Rightarrow> parsed_room_path \<Rightarrow> bool" where
  "rootAllowed self policy root parsed =
     (case parsed of
        OwnerNamed owner _ \<Rightarrow> deviceIdToHex root = owner
      | Dm a b \<Rightarrow>
          (case policy of
             EitherParticipant \<Rightarrow> deviceIdToHex root = a \<or> deviceIdToHex root = b
           | SelfOnly \<Rightarrow> deviceIdToHex root = deviceIdToHex self))"

text \<open>The options are passed on without further condition handlers.\<close>

definition verifyRoomToken ::
    "nat \<Rightarrow> verify_env \<Rightarrow> cose_sign1 \<Rightarrow> device_id \<Rightarrow> string \<Rightarrow> dm_root_policy \<Rightarrow> (room_path_error + room_token_verdict) option" where
  "verifyRoomToken fuel env token expectedBearer roomPath policy =
     (case verifyCapabilityToken fuel (env\<lparr>env_extra := []\<rparr>) token (Some expectedBearer) of
        None \<Rightarrow> None
      | Some (Refused r) \<Rightarrow> Some (Ok (RoomRefused (TokenReason r)))
      | Some (Accepted claims root key _) \<Rightarrow>
          Some (if kind (scope claims) \<noteq> ''room'' then Ok (RoomRefused wrong_scope_kind)
                else if path (scope claims) \<noteq> Some roomPath then Ok (RoomRefused wrong_scope_path)
                else case parseRoomPath roomPath of
                       Inl e \<Rightarrow> Err e
                     | Inr parsed \<Rightarrow>
                         if \<not> rootAllowed (deviceId (env_identity env)) policy root parsed then Ok (RoomRefused wrong_chain_root)
                         else Ok (RoomAccepted claims key)))"

subsection \<open>Notices\<close>

record room_notice_claims =
  rn_room :: string
  rn_poster :: device_id
  rn_posterKey :: identity_key
  rn_token :: cose_sign1
  rn_noticeId :: bytes
  rn_postedAt :: int
  rn_contentType :: string
  rn_content :: bytes
  rn_refs :: "(bytes \<times> string) list option"
  rn_validUntil :: "int option"
  rn_keyEpoch :: "int option"

datatype room_notice_reason =
    notice_malformed | wrong_room | notice_bad_signature | wrong_poster | notice_expired | key_epoch_mismatch
  | MemberToken room_token_reason

datatype room_notice_verdict = NoticeAccepted room_notice_claims | NoticeRefused room_notice_reason

definition roomNoticeClaimsSchema :: "(bytes \<Rightarrow> room_notice_claims option) \<Rightarrow> bytes \<Rightarrow> room_notice_claims option" where
  "roomNoticeClaimsSchema decNotice body =
     (case decNotice body of None \<Rightarrow> None | Some claims \<Rightarrow> if roomPathSchema (rn_room claims) then Some claims else None)"

definition verifyRoomNotice ::
    "nat \<Rightarrow> verify_env \<Rightarrow> (bytes \<Rightarrow> room_notice_claims option) \<Rightarrow> cose_sign1 \<Rightarrow> string option \<Rightarrow> dm_root_policy
      \<Rightarrow> (room_path_error + room_notice_verdict) option" where
  "verifyRoomNotice fuel env decNotice notice expectedRoom policy =
     (case payload notice of
        None \<Rightarrow> Some (Ok (NoticeRefused notice_malformed))
      | Some body \<Rightarrow>
          (case roomNoticeClaimsSchema decNotice body of
             None \<Rightarrow> Some (Ok (NoticeRefused notice_malformed))
           | Some claims \<Rightarrow>
               if (case expectedRoom of None \<Rightarrow> False | Some r \<Rightarrow> rn_room claims \<noteq> r) then Some (Ok (NoticeRefused wrong_room))
               else if \<not> verify (env_identity env) (rn_posterKey claims)
                       (sig1ToBeSigned (env_codec env) (protectedHeader notice) body) (signature notice)
               then Some (Ok (NoticeRefused notice_bad_signature))
               else if \<not> bytesEqual (deriveDeviceId (env_identity env) (public_key (rn_posterKey claims))) (rn_poster claims)
               then Some (Ok (NoticeRefused wrong_poster))
               else if (case rn_validUntil claims of None \<Rightarrow> False | Some t \<Rightarrow> t \<le> env_now env)
               then Some (Ok (NoticeRefused notice_expired))
               else if isEncryptedContentType (rn_contentType claims) \<noteq> (rn_keyEpoch claims \<noteq> None)
               then Some (Ok (NoticeRefused key_epoch_mismatch))
               else (case verifyRoomToken fuel env (rn_token claims) (rn_poster claims) (rn_room claims) policy of
                       None \<Rightarrow> None
                     | Some (Inl e) \<Rightarrow> Some (Err e)
                     | Some (Inr (RoomRefused r)) \<Rightarrow> Some (Ok (NoticeRefused (MemberToken r)))
                     | Some (Inr (RoomAccepted _ _)) \<Rightarrow> Some (Ok (NoticeAccepted claims)))))"

definition compareRoomNotices :: "room_notice_claims \<Rightarrow> room_notice_claims \<Rightarrow> int" where
  "compareRoomNotices a b =
     (if rn_postedAt a \<noteq> rn_postedAt b then rn_postedAt a - rn_postedAt b
      else let posterOrder = compareBytes (rn_poster a) (rn_poster b)
           in if posterOrder \<noteq> 0 then posterOrder else compareBytes (rn_noticeId a) (rn_noticeId b))"

record room_notice_options =
  ro_room :: string
  ro_token :: cose_sign1
  ro_noticeId :: bytes
  ro_contentType :: string
  ro_content :: bytes
  ro_refs :: "(bytes \<times> string) list option"
  ro_validUntil :: "int option"
  ro_keyEpoch :: "int option"

definition noticeClaims :: "identity_port \<Rightarrow> int \<Rightarrow> room_notice_options \<Rightarrow> room_notice_claims" where
  "noticeClaims identity now o' =
     \<lparr>rn_room = ro_room o', rn_poster = deviceId identity, rn_posterKey = identityKey identity, rn_token = ro_token o',
      rn_noticeId = ro_noticeId o', rn_postedAt = now, rn_contentType = ro_contentType o', rn_content = ro_content o',
      rn_refs = ro_refs o', rn_validUntil = ro_validUntil o', rn_keyEpoch = ro_keyEpoch o'\<rparr>"

definition createRoomNotice ::
    "cbor_codec \<Rightarrow> (room_notice_claims \<Rightarrow> bytes) \<Rightarrow> identity_port \<Rightarrow> int \<Rightarrow> room_notice_options \<Rightarrow> cose_sign1" where
  "createRoomNotice codec encNotice identity now o' = signEnvelope codec identity (encNotice (noticeClaims identity now o'))"

subsection \<open>Content keys\<close>

datatype wrapped_key = OneKey bytes | KeyList "bytes list"

definition buildRoomRekeyCommand :: "int \<Rightarrow> wrapped_key \<Rightarrow> manage_command" where
  "buildRoomRekeyCommand keyEpoch wrapped =
     \<lparr>mc_verb = ROOM_MEMBER_CAPABILITY,
      mc_params = [(''verb'', JString ''room.rekey''), (''key-epoch'', JNumber keyEpoch),
                   (''wrapped-key'', case wrapped of OneKey b \<Rightarrow> JBytes b | KeyList bs \<Rightarrow> JArray (map JBytes bs))]\<rparr>"

definition sendRoomRekey ::
    "session_env \<Rightarrow> moment \<Rightarrow> string \<Rightarrow> int \<Rightarrow> wrapped_key \<Rightarrow> device_id option \<Rightarrow> cose_sign1 option \<Rightarrow> session_op" where
  "sendRoomRekey env m roomPath keyEpoch wrapped target token =
     sendManageRequest env m (buildRoomRekeyCommand keyEpoch wrapped) \<lparr>kind = ''room'', path = Some roomPath\<rparr> target token"

definition bytesOf :: "json_value \<Rightarrow> bytes option" where
  "bytesOf j = (case j of JBytes b \<Rightarrow> Some b | _ \<Rightarrow> None)"

definition roomRekeySchema :: "(string \<times> json_value) list \<Rightarrow> (int \<times> wrapped_key) option" where
  "roomRekeySchema params =
     (if jget params ''verb'' \<noteq> Some (JString ''room.rekey'') then None
      else case jget params ''key-epoch'' of
             Some (JNumber epoch) \<Rightarrow>
               if epoch < 0 then None
               else (case jget params ''wrapped-key'' of
                       Some (JBytes b) \<Rightarrow> Some (epoch, OneKey b)
                     | Some (JArray js) \<Rightarrow> map_option (\<lambda>bs. (epoch, KeyList bs)) (those (map bytesOf js))
                     | _ \<Rightarrow> None)
           | _ \<Rightarrow> None)"

record rekey_event =
  re_room :: string
  re_keyEpoch :: int
  re_contentKeys :: "bytes list"

datatype rekey_effect = Responds manage_outcome | StoresKeys rekey_event

datatype rekey_throw = PathThrows room_path_error | StoreThrows string

record rekey_options =
  rk_env :: verify_env
  rk_crypto :: group_crypto
  rk_deriveSharedSecret :: "(identity_key \<Rightarrow> bytes option) option"
  rk_ownToken :: cose_sign1
  rk_onRekey :: "rekey_event \<Rightarrow> string option"

definition reasonCode :: "token_verdict_reason \<Rightarrow> string" where
  "reasonCode r =
     (case r of
        malformed \<Rightarrow> ''malformed'' | bad_signature \<Rightarrow> ''bad_signature'' | wrong_issuer \<Rightarrow> ''wrong_issuer''
      | bearer_mismatch \<Rightarrow> ''bearer_mismatch'' | expired \<Rightarrow> ''expired'' | not_yet_valid \<Rightarrow> ''not_yet_valid''
      | content_expired \<Rightarrow> ''content_expired'' | revoked \<Rightarrow> ''revoked'' | delegation_exceeds_parent \<Rightarrow> ''delegation_exceeds_parent''
      | parent_invalid \<Rightarrow> ''parent_invalid'' | authorisation_invalid \<Rightarrow> ''authorisation_invalid''
      | chain_too_deep \<Rightarrow> ''chain_too_deep'' | chain_cycle \<Rightarrow> ''chain_cycle'' | conditions_invalid \<Rightarrow> ''conditions_invalid''
      | conditions_not_satisfied \<Rightarrow> ''conditions_not_satisfied'')"

definition roomReasonCode :: "room_token_reason \<Rightarrow> string" where
  "roomReasonCode r =
     (case r of
        TokenReason t \<Rightarrow> reasonCode t | wrong_scope_kind \<Rightarrow> ''wrong_scope_kind'' | wrong_scope_path \<Rightarrow> ''wrong_scope_path''
      | wrong_chain_root \<Rightarrow> ''wrong_chain_root'')"

definition wrappedKeys :: "wrapped_key \<Rightarrow> bytes list" where
  "wrappedKeys w = (case w of OneKey b \<Rightarrow> [b] | KeyList bs \<Rightarrow> bs)"

definition unwrapAll :: "group_crypto \<Rightarrow> bytes \<Rightarrow> string \<Rightarrow> int \<Rightarrow> bytes list \<Rightarrow> bytes list option" where
  "unwrapAll crypto secret room firstEpoch ws =
     those (map (\<lambda>i. unwrapContentKey crypto (deriveWrappingKey crypto secret room (firstEpoch + int i)) (ws ! i)) [0..<length ws])"

definition storeAndAnswer :: "rekey_options \<Rightarrow> rekey_event \<Rightarrow> rekey_effect list \<times> rekey_throw option" where
  "storeAndAnswer opts event =
     (case rk_onRekey opts event of
        Some e \<Rightarrow> ([StoresKeys event, Responds (ManageError ''store_failed'' None)], Some (StoreThrows e))
      | None \<Rightarrow> ([StoresKeys event, Responds (ManageOk [])], None))"

definition handleRoomRekey :: "nat \<Rightarrow> rekey_options \<Rightarrow> incoming_request \<Rightarrow> (rekey_effect list \<times> rekey_throw option) option" where
  "handleRoomRekey fuel opts incoming =
     (let command = mr_command (ir_request incoming); sc = mr_scope (ir_request incoming);
          refuse = (\<lambda>code. Some ([Responds (ManageError code None)], None))
      in if mc_verb command \<noteq> ROOM_MEMBER_CAPABILITY then refuse ''malformed''
         else case roomRekeySchema (mc_params command) of
                None \<Rightarrow> refuse ''malformed''
              | Some (keyEpoch, wrapped) \<Rightarrow>
                  (case (if kind sc = ''room'' then path sc else None) of
                     None \<Rightarrow> refuse ''scope_mismatch''
                   | Some roomPath \<Rightarrow>
                       (case verifyRoomToken fuel (rk_env opts) (rk_ownToken opts) (deviceId (env_identity (rk_env opts)))
                               roomPath EitherParticipant of
                          None \<Rightarrow> None
                        | Some (Inl e) \<Rightarrow> Some ([], Some (PathThrows e))
                        | Some (Inr (RoomRefused r)) \<Rightarrow> refuse (roomReasonCode r)
                        | Some (Inr (RoomAccepted _ rootKey)) \<Rightarrow>
                            (case rk_deriveSharedSecret opts of
                               None \<Rightarrow> refuse ''ecdh_unsupported''
                             | Some derive \<Rightarrow>
                                 let ws = wrappedKeys wrapped; firstEpoch = keyEpoch - int (length ws) + 1
                                 in case Option.bind (derive rootKey) (\<lambda>secret. unwrapAll (rk_crypto opts) secret roomPath firstEpoch ws) of
                                      None \<Rightarrow> refuse ''unwrap_failed''
                                    | Some keys \<Rightarrow>
                                        Some (storeAndAnswer opts \<lparr>re_room = roomPath, re_keyEpoch = keyEpoch, re_contentKeys = keys\<rparr>)))))"

end
