(* ===== verification/RoomProperties.thy ===== *)
theory RoomProperties
  imports Rooms TokenProperties
begin

text \<open>
  What rooms promise: an accepted notice was signed by the device it names, which holds a membership
  token whose chain ends at the room's rightful root; what a member posts is accepted; the order of
  notices is the same for every reader; and a key the owner distributes arrives as it was sent. And four
  things they do not keep: the capability of a membership token is not looked at, a direct message has two
  paths, a notice of a room whose path does not parse makes its reader throw, and a rekey without keys is
  accepted from anyone.
\<close>

subsection \<open>Accepted tokens\<close>

lemma verifyRoomToken_Accepted_iff:
  "verifyRoomToken fuel env t b p policy = Some (Ok (RoomAccepted c key)) \<longleftrightarrow>
     (\<exists>root n parsed. verifyCapabilityToken fuel (env\<lparr>env_extra := []\<rparr>) t (Some b) = Some (Accepted c root key n)
        \<and> scope c = \<lparr>kind = ''room'', path = Some p\<rparr> \<and> parseRoomPath p = Ok parsed
        \<and> rootAllowed (deviceId (env_identity env)) policy root parsed)"
  by (cases "scope c") (auto simp: verifyRoomToken_def split: option.splits token_verdict.splits if_splits sum.splits)

lemma verifyRoomToken_sound:
  assumes "trilean_spec (env_evaluator env)" and "verifyRoomToken fuel env t b p policy = Some (Ok (RoomAccepted c key))"
  obtains cs parsed where "delegation env t (c # cs)" "bearer c = b" "scope c = \<lparr>kind = ''room'', path = Some p\<rparr>"
    "parseRoomPath p = Ok parsed" "rootAllowed (deviceId (env_identity env)) policy (issuer (last (c # cs))) parsed"
    "key = issuer_key (last (c # cs))"
proof -
  obtain root n parsed where acc: "verifyCapabilityToken fuel (env\<lparr>env_extra := []\<rparr>) t (Some b) = Some (Accepted c root key n)"
    and rest: "scope c = \<lparr>kind = ''room'', path = Some p\<rparr>" "parseRoomPath p = Ok parsed"
      "rootAllowed (deviceId (env_identity env)) policy root parsed"
    using assms(2) unfolding verifyRoomToken_Accepted_iff by blast
  have "trilean_spec (env_evaluator (env\<lparr>env_extra := []\<rparr>))" using assms(1) by simp
  from verifyCapabilityToken_sound [OF this acc] obtain cs where
    "delegation (env\<lparr>env_extra := []\<rparr>) t (c # cs)" "root = issuer (last (c # cs))" "key = issuer_key (last (c # cs))" "bearer c = b"
    by metis
  with rest that delegation_extra show ?thesis by blast
qed

subsection \<open>Path schemas\<close>

lemma matchesAt_start: "s \<noteq> [] \<Longrightarrow> pat s \<Longrightarrow> matchesAt pat s"
  by (auto simp: matchesAt_def list_ex_iff intro!: bexI [of _ 0])

lemma hexThen_append: "deviceIdHexPattern s \<Longrightarrow> hexThen c pat (s @ c # t) \<longleftrightarrow> pat t"
  by (simp add: hexThen_def deviceIdHexPattern_def DEVICE_ID_HEX_LENGTH_def nth_append)

lemma parsed_path_schema: "parseRoomPath p = Ok parsed \<Longrightarrow> roomPathSchema p"
proof (cases parsed)
  case (OwnerNamed owner nm)
  assume "parseRoomPath p = Ok parsed"
  with OwnerNamed have "deviceIdHexPattern owner" "localNamePattern nm" "p = owner @ CHR ''/'' # nm" by (simp_all add: parse_owner_iff)
  then show ?thesis
    by (auto simp: roomPathSchema_def ownerNamedRoomPathSchema_def localNamePattern_def hexThen_append neq_Nil_conv intro!: disjI1 matchesAt_start)
next
  case (Dm a b)
  assume "parseRoomPath p = Ok parsed"
  with Dm have "deviceIdHexPattern a" "deviceIdHexPattern b" "p = a @ CHR ''+'' # b" by (simp_all add: parse_dm_iff)
  then show ?thesis
    by (auto simp: roomPathSchema_def dmRoomPathSchema_def hexThen_append intro!: disjI2 matchesAt_start)
       (simp_all add: deviceIdHexPattern_def DEVICE_ID_HEX_LENGTH_def)
qed

text \<open>The schema does not anchor its pattern: anything before it passes the schema and not the parser.\<close>

lemma matchesAt_later: "matchesAt pat s \<Longrightarrow> matchesAt pat (c # s)"
proof -
  assume "matchesAt pat s"
  then obtain i where "i < length s" "pat (drop i s)" by (auto simp: matchesAt_def list_ex_iff)
  then have "Suc i \<in> set [0..<length (c # s)]" "pat (drop (Suc i) (c # s))" by (simp_all del: upt_Suc)
  then show ?thesis unfolding matchesAt_def list_ex_iff by blast
qed

subsection \<open>A room with one member\<close>

definition r_id :: "byte \<Rightarrow> device_id" where "r_id b = replicate 32 b"

definition r_port :: "byte \<Rightarrow> identity_port" where
  "r_port b = \<lparr>deviceId = r_id b, identityKey = \<lparr>alg = -7, public_key = r_id b\<rparr>, sign = (\<lambda>m. m),
     verify = (\<lambda>k m s. s = m), deriveDeviceId = (\<lambda>pk. pk)\<rparr>"

definition r_path :: string where "r_path = deviceIdToHex (r_id 1) @ ''/general''"

definition r_claims :: "byte \<Rightarrow> string \<Rightarrow> string \<Rightarrow> token_claims" where
  "r_claims tid cap p = \<lparr>token_id = [tid], issuer = r_id 1, issuer_key = \<lparr>alg = -7, public_key = r_id 1\<rparr>, bearer = r_id 2,
     capability = cap, scope = \<lparr>kind = ''room'', path = Some p\<rparr>, expires = 100, not_before = None, valid_until = None, parent = None,
     delegations_remaining = None, conditions = None, authorised_by = None, grants_capability = None, requests_capability = None\<rparr>"

definition r_codec :: cbor_codec where
  "r_codec = w_codec\<lparr>dec_claims := map_of [([100, 10], r_claims 10 ''room:member'' r_path),
     ([100, 11], r_claims 11 ''bulk:read'' r_path), ([100, 12], r_claims 12 ''room:member'' (CHR ''z'' # r_path))]\<rparr>"

definition r_env :: verify_env where
  "r_env = \<lparr>env_codec = r_codec, env_identity = r_port 9, env_evaluator = kleene_eval, env_now = 20,
     env_revocation = (\<lambda>_. []), env_extra = []\<rparr>"

lemma r_path_parses: "parseRoomPath r_path = Ok (OwnerNamed (deviceIdToHex (r_id 1)) ''general'')"
  by code_simp

lemma r_member: "verifyRoomToken 1 r_env (w_token 10) (r_id 2) r_path SelfOnly = Some (Ok (RoomAccepted (r_claims 10 ''room:member'' r_path) \<lparr>alg = -7, public_key = r_id 1\<rparr>))"
  by code_simp

definition r_notice :: "byte \<Rightarrow> string \<Rightarrow> room_notice_options" where
  "r_notice tid p = \<lparr>ro_room = p, ro_token = w_token tid, ro_noticeId = [1], ro_contentType = ''text/plain'', ro_content = [65],
     ro_refs = None, ro_validUntil = None, ro_keyEpoch = None\<rparr>"

definition r_dec :: "bytes \<Rightarrow> room_notice_claims option" where
  "r_dec b = map_of [([50], noticeClaims (r_port 2) 20 (r_notice 10 r_path)),
     ([51], noticeClaims (r_port 2) 20 (r_notice 12 (CHR ''z'' # r_path)))] b"

subsection \<open>Notices\<close>

text \<open>C23: An accepted notice comes from a member. Its poster signed it with the key its device id is derived
  from, it is for the expected room and has not lapsed, and names a key epoch exactly when it is encrypted;
  the token it carries heads a chain of authentic, current tokens, bears the poster, is scoped to this very
  room, and its chain ends at the room's owner, or for a direct message at the verifier or, where the
  caller allows it, at a participant.\<close>

theorem accepted_notice_from_member:
  assumes "trilean_spec (env_evaluator env)"
    and "verifyRoomNotice fuel env decNotice notice expected policy = Some (Ok (NoticeAccepted claims))"
  shows "\<exists>body member cs parsed. payload notice = Some body \<and> decNotice body = Some claims
    \<and> verify (env_identity env) (rn_posterKey claims) (sig1ToBeSigned (env_codec env) (protectedHeader notice) body) (signature notice)
    \<and> deriveDeviceId (env_identity env) (public_key (rn_posterKey claims)) = rn_poster claims
    \<and> expected \<in> {None, Some (rn_room claims)}
    \<and> (case rn_validUntil claims of None \<Rightarrow> True | Some t \<Rightarrow> env_now env < t)
    \<and> (rn_keyEpoch claims = None \<longleftrightarrow> \<not> isEncryptedContentType (rn_contentType claims))
    \<and> delegation env (rn_token claims) (member # cs) \<and> bearer member = rn_poster claims
    \<and> scope member = \<lparr>kind = ''room'', path = Some (rn_room claims)\<rparr> \<and> parseRoomPath (rn_room claims) = Ok parsed
    \<and> rootAllowed (deviceId (env_identity env)) policy (issuer (last (member # cs))) parsed"
proof -
  obtain body where body: "payload notice = Some body" using assms(2) by (cases "payload notice") (simp_all add: verifyRoomNotice_def)
  obtain read where read: "roomNoticeClaimsSchema decNotice body = Some read"
    using assms(2) body by (cases "roomNoticeClaimsSchema decNotice body") (simp_all add: verifyRoomNotice_def)
  note unfolded = assms(2) [unfolded verifyRoomNotice_def body read option.case]
  from unfolded have eq: "read = claims" by (auto split: if_splits option.splits sum.splits room_token_verdict.splits)
  from unfolded obtain member key where
    token: "verifyRoomToken fuel env (rn_token claims) (rn_poster claims) (rn_room claims) policy = Some (Ok (RoomAccepted member key))"
    unfolding eq by (auto split: if_splits option.splits sum.splits room_token_verdict.splits)
  from unfolded have checks: "verify (env_identity env) (rn_posterKey claims) (sig1ToBeSigned (env_codec env) (protectedHeader notice) body) (signature notice)"
    "deriveDeviceId (env_identity env) (public_key (rn_posterKey claims)) = rn_poster claims"
    "\<not> (case expected of None \<Rightarrow> False | Some r \<Rightarrow> rn_room claims \<noteq> r)" "\<not> (case rn_validUntil claims of None \<Rightarrow> False | Some t \<Rightarrow> t \<le> env_now env)"
    "rn_keyEpoch claims = None \<longleftrightarrow> \<not> isEncryptedContentType (rn_contentType claims)"
    unfolding eq bytesEqual_iff by (auto split: if_splits)
  have "decNotice body = Some claims" using read eq by (simp add: roomNoticeClaimsSchema_def split: option.splits if_splits)
  moreover from verifyRoomToken_sound [OF assms(1) token] obtain cs parsed where
    "delegation env (rn_token claims) (member # cs)" "bearer member = rn_poster claims"
    "scope member = \<lparr>kind = ''room'', path = Some (rn_room claims)\<rparr>" "parseRoomPath (rn_room claims) = Ok parsed"
    "rootAllowed (deviceId (env_identity env)) policy (issuer (last (member # cs))) parsed" by metis
  moreover have "expected \<in> {None, Some (rn_room claims)}" using checks(3) by (auto split: option.splits)
  moreover have "case rn_validUntil claims of None \<Rightarrow> True | Some t \<Rightarrow> env_now env < t" using checks(4) by (auto split: option.splits)
  ultimately show ?thesis using body checks(1,2,5) by (intro exI conjI) assumption+
qed

text \<open>What a member posts is accepted: a notice made by a device whose token the reader accepts for the
  room, with a key epoch exactly when its content is encrypted, is accepted by every such reader until it
  lapses, with the claims the poster gave it.\<close>

theorem posted_notice_accepted:
  assumes "keypair_ok (env_identity env) poster" and "decNotice (encNotice (noticeClaims poster posted o')) = Some (noticeClaims poster posted o')"
    and "verifyRoomToken fuel env (ro_token o') (deviceId poster) (ro_room o') policy = Some (Ok (RoomAccepted c key))"
    and "ro_keyEpoch o' = None \<longleftrightarrow> \<not> isEncryptedContentType (ro_contentType o')"
    and "case ro_validUntil o' of None \<Rightarrow> True | Some t \<Rightarrow> env_now env < t"
  shows "verifyRoomNotice fuel env decNotice (createRoomNotice (env_codec env) encNotice poster posted o') (Some (ro_room o')) policy
    = Some (Ok (NoticeAccepted (noticeClaims poster posted o')))"
proof -
  have "roomPathSchema (ro_room o')" using assms(3) parsed_path_schema unfolding verifyRoomToken_Accepted_iff by blast
  then have "roomNoticeClaimsSchema decNotice (encNotice (noticeClaims poster posted o')) = Some (noticeClaims poster posted o')"
    using assms(2) by (simp add: roomNoticeClaimsSchema_def) (simp add: noticeClaims_def)
  moreover have "\<not> (case ro_validUntil o' of None \<Rightarrow> False | Some t \<Rightarrow> t \<le> env_now env)" using assms(5) by (auto split: option.splits)
  ultimately show ?thesis
    using assms(1,3,4) by (simp add: verifyRoomNotice_def createRoomNotice_def keypair_ok_def noticeClaims_def)
qed

theorem accepted_notice_from_member_witness:
  "\<exists>member cs. delegation r_env (w_token 10) (member # cs) \<and> bearer member = r_id 2 \<and> scope member = \<lparr>kind = ''room'', path = Some r_path\<rparr>"
proof -
  have "verifyRoomNotice 1 r_env r_dec (createRoomNotice r_codec (\<lambda>_. [50]) (r_port 2) 20 (r_notice 10 r_path)) (Some r_path) SelfOnly
      = Some (Ok (NoticeAccepted (noticeClaims (r_port 2) 20 (r_notice 10 r_path))))" by code_simp
  moreover have "trilean_spec (env_evaluator r_env)" by (simp add: r_env_def kleene_eval_spec)
  ultimately show ?thesis
    using accepted_notice_from_member [of r_env 1] by (fastforce simp: noticeClaims_def r_notice_def r_port_def)
qed

theorem posted_notice_accepted_witness:
  "verifyRoomNotice 1 r_env r_dec (createRoomNotice r_codec (\<lambda>_. [50]) (r_port 2) 20 (r_notice 10 r_path)) (Some r_path) SelfOnly
    = Some (Ok (NoticeAccepted (noticeClaims (r_port 2) 20 (r_notice 10 r_path))))"
proof -
  have "keypair_ok (env_identity r_env) (r_port 2)" by (simp add: keypair_ok_def r_env_def r_port_def)
  moreover have "r_dec [50] = Some (noticeClaims (r_port 2) 20 (r_notice 10 r_path))" by (simp add: r_dec_def)
  moreover have "\<not> isEncryptedContentType ''text/plain''" by code_simp
  ultimately show ?thesis
    using posted_notice_accepted [of r_env "r_port 2" r_dec "\<lambda>_. [50]" 20 "r_notice 10 r_path" 1 SelfOnly] r_member
    by (simp add: r_notice_def r_port_def) (simp add: r_env_def)
qed

text \<open>The capability of a membership token is not looked at: a token the room's owner granted for another
  capability over the room is accepted as membership.\<close>

theorem any_capability_is_membership:
  "\<exists>env t b p c key. verifyRoomToken 1 env t b p SelfOnly = Some (Ok (RoomAccepted c key)) \<and> capability c = ''bulk:read''
     \<and> capability c \<noteq> ROOM_MEMBER_CAPABILITY"
proof -
  have "verifyRoomToken 1 r_env (w_token 11) (r_id 2) r_path SelfOnly =
      Some (Ok (RoomAccepted (r_claims 11 ''bulk:read'' r_path) \<lparr>alg = -7, public_key = r_id 1\<rparr>))" by code_simp
  moreover have "capability (r_claims 11 ''bulk:read'' r_path) = ''bulk:read''" by (simp add: r_claims_def)
  moreover have "''bulk:read'' \<noteq> ROOM_MEMBER_CAPABILITY" by (simp add: ROOM_MEMBER_CAPABILITY_def)
  ultimately show ?thesis by (intro exI conjI) (assumption, simp_all)
qed

text \<open>A notice can make its reader throw. The schema of a room's path looks for the pattern anywhere in
  the string, so a device can sign a notice, and a token of its own, for a path that passes the schema and
  does not parse; verification then throws instead of refusing it.\<close>

theorem unparsable_room_throws:
  assumes "keypair_ok (env_identity env) poster" and "decNotice (encNotice (noticeClaims poster posted o')) = Some (noticeClaims poster posted o')"
    and "roomPathSchema (ro_room o')" and "parseRoomPath (ro_room o') = Err e"
    and "verifyCapabilityToken fuel (env\<lparr>env_extra := []\<rparr>) (ro_token o') (Some (deviceId poster)) = Some (Accepted c root key n)"
    and "scope c = \<lparr>kind = ''room'', path = Some (ro_room o')\<rparr>"
    and "ro_keyEpoch o' = None" and "\<not> isEncryptedContentType (ro_contentType o')" and "ro_validUntil o' = None"
  shows "verifyRoomNotice fuel env decNotice (createRoomNotice (env_codec env) encNotice poster posted o') None policy = Some (Err e)"
proof -
  have "roomNoticeClaimsSchema decNotice (encNotice (noticeClaims poster posted o')) = Some (noticeClaims poster posted o')"
    using assms(2,3) by (simp add: roomNoticeClaimsSchema_def) (simp add: noticeClaims_def)
  moreover have "verifyRoomToken fuel env (ro_token o') (deviceId poster) (ro_room o') policy = Some (Err e)"
    using assms(4-6) by (simp add: verifyRoomToken_def)
  ultimately show ?thesis
    using assms(1,7-9) by (simp add: verifyRoomNotice_def createRoomNotice_def keypair_ok_def noticeClaims_def)
qed

theorem unparsable_room_throws_witness:
  "verifyRoomNotice 1 r_env r_dec (createRoomNotice r_codec (\<lambda>_. [51]) (r_port 2) 20 (r_notice 12 (CHR ''z'' # r_path))) None SelfOnly
    = Some (Err (NotRoomPath (CHR ''z'' # r_path)))"
proof -
  have "keypair_ok (env_identity r_env) (r_port 2)" by (simp add: keypair_ok_def r_env_def r_port_def)
  moreover have "r_dec [51] = Some (noticeClaims (r_port 2) 20 (r_notice 12 (CHR ''z'' # r_path)))" by (simp add: r_dec_def)
  moreover have "roomPathSchema (CHR ''z'' # r_path)" by code_simp
  moreover have "parseRoomPath (CHR ''z'' # r_path) = Err (NotRoomPath (CHR ''z'' # r_path))" by code_simp
  moreover have "verifyCapabilityToken 1 (r_env\<lparr>env_extra := []\<rparr>) (w_token 12) (Some (r_id 2)) =
      Some (Accepted (r_claims 12 ''room:member'' (CHR ''z'' # r_path)) (r_id 1) \<lparr>alg = -7, public_key = r_id 1\<rparr> 0)" by code_simp
  moreover have "\<not> isEncryptedContentType ''text/plain''" by code_simp
  ultimately show ?thesis
    using unparsable_room_throws [of r_env "r_port 2" r_dec "\<lambda>_. [51]" 20 "r_notice 12 (CHR ''z'' # r_path)"]
    by (simp add: r_notice_def r_port_def r_claims_def) (simp add: r_env_def)
qed

subsection \<open>The order of notices\<close>

locale comparator_order =
  fixes cmp :: "'a \<Rightarrow> 'a \<Rightarrow> int"
  assumes anti: "cmp a b = - cmp b a"
    and trans: "cmp a b \<le> 0 \<Longrightarrow> cmp b c \<le> 0 \<Longrightarrow> cmp a c \<le> 0"
begin

lemma sorted_unique:
  assumes "sorted_wrt (\<lambda>a b. cmp a b \<le> 0) xs" and "sorted_wrt (\<lambda>a b. cmp a b \<le> 0) ys"
    and "distinct xs" and "distinct ys" and "set xs = set ys" and "\<forall>a \<in> set xs. \<forall>b \<in> set xs. cmp a b = 0 \<longrightarrow> a = b"
  shows "xs = ys"
  using assms
proof (induction xs arbitrary: ys)
  case (Cons x xs)
  then obtain y zs where ys: "ys = y # zs" by (cases ys) auto
  have "x = y"
  proof (rule ccontr)
    assume ne: "x \<noteq> y"
    then have "y \<in> set xs" "x \<in> set zs" using Cons.prems(5) ys by auto
    then have "cmp x y \<le> 0" "cmp y x \<le> 0" using Cons.prems(1,2) ys by auto
    with anti [of x y] have "cmp x y = 0" by simp
    with Cons.prems(6) \<open>y \<in> set xs\<close> ne show False by simp
  qed
  moreover have "set xs = set zs" using Cons.prems(3-5) ys \<open>x = y\<close> by auto
  with Cons.IH [of zs] Cons.prems ys have "xs = zs" by simp
  ultimately show ?case using ys by simp
qed simp

end

lemma compareBytes_trans: "compareBytes a b \<le> 0 \<Longrightarrow> compareBytes b c \<le> 0 \<Longrightarrow> compareBytes a c \<le> 0"
proof (induction a arbitrary: b c)
  case Nil
  then show ?case by (cases c) auto
next
  case (Cons x a)
  then show ?case by (cases b; cases c) (auto simp: Let_def split: if_splits)
qed

definition noticeKey :: "room_notice_claims \<Rightarrow> int \<times> device_id \<times> bytes" where
  "noticeKey n = (rn_postedAt n, rn_poster n, rn_noticeId n)"

lemma compareRoomNotices_0: "compareRoomNotices a b = 0 \<longleftrightarrow> noticeKey a = noticeKey b"
  by (auto simp: compareRoomNotices_def noticeKey_def Let_def compareBytes_0)

interpretation notices: comparator_order compareRoomNotices
proof
  fix a b c
  show "compareRoomNotices a b = - compareRoomNotices b a"
    using compareBytes_antisym [of "rn_poster a" "rn_poster b"] compareBytes_antisym [of "rn_noticeId a" "rn_noticeId b"]
    by (simp add: compareRoomNotices_def Let_def)
  assume "compareRoomNotices a b \<le> 0" "compareRoomNotices b c \<le> 0"
  then show "compareRoomNotices a c \<le> 0"
    using compareBytes_trans [of "rn_poster a" "rn_poster b" "rn_poster c"] compareBytes_0 [of "rn_poster a" "rn_poster b"]
      compareBytes_0 [of "rn_poster b" "rn_poster c"] compareBytes_0 [of "rn_poster a" "rn_poster c"]
      compareBytes_antisym [of "rn_poster a" "rn_poster b"] compareBytes_trans [of "rn_noticeId a" "rn_noticeId b" "rn_noticeId c"]
    by (auto simp: compareRoomNotices_def Let_def split: if_splits)
qed

text \<open>Every reader shows the same order. Two lists of the same notices, each sorted by \<open>compareRoomNotices\<close>,
  are equal, as long as no two of the notices share their time, poster and notice id.\<close>

theorem notice_order_deterministic:
  assumes "sorted_wrt (\<lambda>a b. compareRoomNotices a b \<le> 0) xs" and "sorted_wrt (\<lambda>a b. compareRoomNotices a b \<le> 0) ys"
    and "distinct xs" and "distinct ys" and "set xs = set ys" and "inj_on noticeKey (set xs)"
  shows "xs = ys"
  by (rule notices.sorted_unique [OF assms(1-5)]) (use assms(6) in \<open>auto simp: compareRoomNotices_0 inj_on_def\<close>)

theorem notice_order_deterministic_witness:
  "\<exists>a b. a \<noteq> b \<and> (\<forall>ys. sorted_wrt (\<lambda>a b. compareRoomNotices a b \<le> 0) ys \<and> distinct ys \<and> set ys = {a, b} \<longrightarrow> ys = [a, b])"
proof -
  let ?a = "noticeClaims (r_port 2) 20 (r_notice 10 r_path)" and ?b = "noticeClaims (r_port 2) 21 (r_notice 10 r_path)"
  have "compareRoomNotices ?a ?b \<le> 0" "?a \<noteq> ?b" "inj_on noticeKey {?a, ?b}"
    by (simp_all add: compareRoomNotices_def noticeClaims_def noticeKey_def inj_on_def)
  then show ?thesis using notice_order_deterministic [of "[?a, ?b]"] by (intro exI [of _ ?a] exI [of _ ?b]) fastforce
qed

subsection \<open>Content keys\<close>

lemma those_bytesOf [simp]: "those (map (bytesOf \<circ> JBytes) bs) = Some bs"
  by (induction bs) (simp_all add: bytesOf_def)

lemma roomRekeySchema_build:
  "roomRekeySchema (mc_params (buildRoomRekeyCommand epoch w)) = (if epoch < 0 then None else Some (epoch, w))"
  by (cases w) (simp_all add: roomRekeySchema_def buildRoomRekeyCommand_def)

lemma handleRoomRekey_stores:
  assumes "mc_verb (mr_command (ir_request incoming)) = ROOM_MEMBER_CAPABILITY"
    and "roomRekeySchema (mc_params (mr_command (ir_request incoming))) = Some (keyEpoch, wrapped)"
    and "mr_scope (ir_request incoming) = \<lparr>kind = ''room'', path = Some room\<rparr>"
    and "verifyRoomToken fuel (rk_env opts) (rk_ownToken opts) (deviceId (env_identity (rk_env opts))) room EitherParticipant
      = Some (Ok (RoomAccepted c rootKey))"
    and "rk_deriveSharedSecret opts = Some derive" and "derive rootKey = Some secret"
    and "unwrapAll (rk_crypto opts) secret room (keyEpoch - int (length (wrappedKeys wrapped)) + 1) (wrappedKeys wrapped) = Some keys"
  shows "handleRoomRekey fuel opts incoming =
    Some (storeAndAnswer opts \<lparr>re_room = room, re_keyEpoch = keyEpoch, re_contentKeys = keys\<rparr>)"
  using assms by (simp add: handleRoomRekey_def Let_def)

definition rekeyRequest :: "nat \<Rightarrow> string \<Rightarrow> int \<Rightarrow> wrapped_key \<Rightarrow> incoming_request" where
  "rekeyRequest i room epoch wrapped = \<lparr>ir_request = \<lparr>mr_requestId = i, mr_command = buildRoomRekeyCommand epoch wrapped,
     mr_scope = \<lparr>kind = ''room'', path = Some room\<rparr>, mr_token = None\<rparr>, ir_origin = None\<rparr>"

lemma rekeyRequest_simps [simp]:
  "mc_verb (buildRoomRekeyCommand epoch wrapped) = ROOM_MEMBER_CAPABILITY"
  "mr_command (ir_request (rekeyRequest i room epoch wrapped)) = buildRoomRekeyCommand epoch wrapped"
  "mr_scope (ir_request (rekeyRequest i room epoch wrapped)) = \<lparr>kind = ''room'', path = Some room\<rparr>"
  by (simp_all add: rekeyRequest_def buildRoomRekeyCommand_def)

text \<open>A distributed key arrives. The keys of consecutive epochs, each wrapped by a device that shares the
  secret of the room's root, are stored by the member exactly as they were sent, and answered with success.\<close>

theorem rekey_delivers_keys:
  assumes "gcm_law (rk_crypto opts)" and "0 \<le> keyEpoch" and "length ivs = length keys" and "list_all (\<lambda>iv. length iv = 12) ivs"
    and "verifyRoomToken fuel (rk_env opts) (rk_ownToken opts) (deviceId (env_identity (rk_env opts))) room EitherParticipant
      = Some (Ok (RoomAccepted c rootKey))"
    and "rk_deriveSharedSecret opts = Some derive" and "derive rootKey = Some secret"
    and "ws = map (\<lambda>i. wrapContentKey (rk_crypto opts) (ivs ! i)
        (deriveWrappingKey (rk_crypto opts) secret room (keyEpoch - int (length keys) + 1 + int i)) (keys ! i)) [0..<length keys]"
    and "rk_onRekey opts \<lparr>re_room = room, re_keyEpoch = keyEpoch, re_contentKeys = keys\<rparr> = None"
  shows "handleRoomRekey fuel opts (rekeyRequest i room keyEpoch (KeyList ws)) =
    Some ([StoresKeys \<lparr>re_room = room, re_keyEpoch = keyEpoch, re_contentKeys = keys\<rparr>, Responds (ManageOk [])], None)"
proof -
  have "unwrapAll (rk_crypto opts) secret room (keyEpoch - int (length ws) + 1) ws = Some keys"
    using assms(1,3,4)
    by (auto simp: unwrapAll_def those_Some_iff assms(8) unwrapContentKey_def wrapContentKey_def list_all_length
        aesGcm_roundtrip GCM_IV_BYTE_LENGTH_def intro!: nth_equalityI)
  then show ?thesis
    using handleRoomRekey_stores [of "rekeyRequest i room keyEpoch (KeyList ws)" keyEpoch "KeyList ws", OF _ _ _ assms(5-7)] assms(2,9)
    by (simp add: roomRekeySchema_build wrappedKeys_def storeAndAnswer_def)
qed

definition r_crypto :: group_crypto where
  "r_crypto = \<lparr>gc_hkdf = (\<lambda>s t i. s @ i), gc_importKey = Some, gc_encrypt = (\<lambda>key iv p. key @ p),
     gc_decrypt = (\<lambda>key iv c. if take (length key) c = key then Some (drop (length key) c) else None)\<rparr>"

definition r_options :: rekey_options where
  "r_options = \<lparr>rk_env = r_env\<lparr>env_identity := r_port 2\<rparr>, rk_crypto = r_crypto, rk_deriveSharedSecret = Some (\<lambda>k. Some (public_key k)),
     rk_ownToken = w_token 10, rk_onRekey = (\<lambda>_. None)\<rparr>"

lemma r_options_token:
  "verifyRoomToken 1 (rk_env r_options) (rk_ownToken r_options) (deviceId (env_identity (rk_env r_options))) r_path EitherParticipant
    = Some (Ok (RoomAccepted (r_claims 10 ''room:member'' r_path) \<lparr>alg = -7, public_key = r_id 1\<rparr>))"
  by code_simp

lemma r_crypto_law: "gcm_law r_crypto"
  by (simp add: gcm_law_def r_crypto_def)

theorem rekey_delivers_keys_witness:
  "\<exists>ws. handleRoomRekey 1 r_options (rekeyRequest 0 r_path 3 (KeyList ws)) =
    Some ([StoresKeys \<lparr>re_room = r_path, re_keyEpoch = 3, re_contentKeys = [[5], [6]]\<rparr>, Responds (ManageOk [])], None)"
proof -
  have "gcm_law (rk_crypto r_options)" "rk_deriveSharedSecret r_options = Some (\<lambda>k. Some (public_key k))"
    "rk_onRekey r_options \<lparr>re_room = r_path, re_keyEpoch = 3, re_contentKeys = [[5], [6]]\<rparr> = None"
    using r_crypto_law by (simp_all add: r_options_def)
  with rekey_delivers_keys [of r_options 3 "[replicate 12 0, replicate 12 1]" "[[5], [6]]" 1 r_path _ _ "\<lambda>k. Some (public_key k)"
      "r_id 1" _ 0, OF _ _ _ _ r_options_token] show ?thesis by simp blast
qed

text \<open>A rekey is answered with success only when its keys were stored, and every stored key was unwrapped
  under the secret shared with the root of the member's own token, for this room and the key's own epoch.\<close>

theorem rekey_success_is_authentic:
  assumes "trilean_spec (env_evaluator (rk_env opts))" and "handleRoomRekey fuel opts incoming = Some (fx, thrown)"
    and "Responds (ManageOk []) \<in> set fx"
  shows "\<exists>room keyEpoch wrapped keys member cs parsed derive secret.
    fx = [StoresKeys \<lparr>re_room = room, re_keyEpoch = keyEpoch, re_contentKeys = keys\<rparr>, Responds (ManageOk [])] \<and> thrown = None
    \<and> rk_onRekey opts \<lparr>re_room = room, re_keyEpoch = keyEpoch, re_contentKeys = keys\<rparr> = None
    \<and> roomRekeySchema (mc_params (mr_command (ir_request incoming))) = Some (keyEpoch, wrapped)
    \<and> delegation (rk_env opts) (rk_ownToken opts) (member # cs) \<and> parseRoomPath room = Ok parsed
    \<and> rootAllowed (deviceId (env_identity (rk_env opts))) EitherParticipant (issuer (last (member # cs))) parsed
    \<and> rk_deriveSharedSecret opts = Some derive \<and> derive (issuer_key (last (member # cs))) = Some secret
    \<and> unwrapAll (rk_crypto opts) secret room (keyEpoch - int (length (wrappedKeys wrapped)) + 1) (wrappedKeys wrapped) = Some keys"
proof -
  obtain room keyEpoch wrapped keys member rootKey derive secret where
    schema: "roomRekeySchema (mc_params (mr_command (ir_request incoming))) = Some (keyEpoch, wrapped)"
    and token: "verifyRoomToken fuel (rk_env opts) (rk_ownToken opts) (deviceId (env_identity (rk_env opts))) room EitherParticipant
      = Some (Ok (RoomAccepted member rootKey))"
    and secret: "rk_deriveSharedSecret opts = Some derive" "derive rootKey = Some secret"
    and keys: "unwrapAll (rk_crypto opts) secret room (keyEpoch - int (length (wrappedKeys wrapped)) + 1) (wrappedKeys wrapped) = Some keys"
    and stored: "(fx, thrown) = storeAndAnswer opts \<lparr>re_room = room, re_keyEpoch = keyEpoch, re_contentKeys = keys\<rparr>"
    using assms(2,3)
    by (auto simp: handleRoomRekey_def Let_def split: if_splits option.splits prod.splits sum.splits room_token_verdict.splits
        Option.bind_splits)
  from stored assms(3) have "fx = [StoresKeys \<lparr>re_room = room, re_keyEpoch = keyEpoch, re_contentKeys = keys\<rparr>, Responds (ManageOk [])]"
    "thrown = None" "rk_onRekey opts \<lparr>re_room = room, re_keyEpoch = keyEpoch, re_contentKeys = keys\<rparr> = None"
    by (auto simp: storeAndAnswer_def split: option.splits)
  moreover from verifyRoomToken_sound [OF assms(1) token] obtain cs parsed where
    "delegation (rk_env opts) (rk_ownToken opts) (member # cs)" "parseRoomPath room = Ok parsed"
    "rootAllowed (deviceId (env_identity (rk_env opts))) EitherParticipant (issuer (last (member # cs))) parsed"
    "rootKey = issuer_key (last (member # cs))" by metis
  ultimately show ?thesis using schema secret keys by (intro exI conjI) (assumption | simp only:)+
qed

text \<open>A rekey without keys is accepted from anyone. With an empty list of wrapped keys nothing is unwrapped,
  so a sender who knows no secret has any epoch it names handed to the member's store, and is answered with
  success.\<close>

theorem empty_rekey_accepted:
  assumes "0 \<le> keyEpoch"
    and "verifyRoomToken fuel (rk_env opts) (rk_ownToken opts) (deviceId (env_identity (rk_env opts))) room EitherParticipant
      = Some (Ok (RoomAccepted c rootKey))"
    and "rk_deriveSharedSecret opts = Some derive" and "derive rootKey = Some secret"
  shows "handleRoomRekey fuel opts (rekeyRequest i room keyEpoch (KeyList [])) =
    Some (storeAndAnswer opts \<lparr>re_room = room, re_keyEpoch = keyEpoch, re_contentKeys = []\<rparr>)"
  by (rule handleRoomRekey_stores [OF _ _ _ assms(2-4), where wrapped = "KeyList []"])
    (use assms(1) in \<open>simp_all add: roomRekeySchema_build wrappedKeys_def unwrapAll_def\<close>)

theorem empty_rekey_accepted_witness:
  "handleRoomRekey 1 r_options (rekeyRequest 0 r_path 1000000 (KeyList [])) =
    Some ([StoresKeys \<lparr>re_room = r_path, re_keyEpoch = 1000000, re_contentKeys = []\<rparr>, Responds (ManageOk [])], None)"
  using empty_rekey_accepted [OF _ r_options_token, of 1000000 "\<lambda>k. Some (public_key k)" "r_id 1" 0]
  by (simp add: r_options_def storeAndAnswer_def)

theorem rekey_success_is_authentic_witness:
  "\<exists>member cs. delegation (rk_env r_options) (rk_ownToken r_options) (member # cs)"
proof -
  let ?fx = "[StoresKeys \<lparr>re_room = r_path, re_keyEpoch = 3, re_contentKeys = []\<rparr>, Responds (ManageOk [])]"
  have tri: "trilean_spec (env_evaluator (rk_env r_options))" by (simp add: r_options_def r_env_def kleene_eval_spec)
  have run: "handleRoomRekey 1 r_options (rekeyRequest 0 r_path 3 (KeyList [])) = Some (?fx, None)"
    using handleRoomRekey_stores [OF _ _ _ r_options_token, of "rekeyRequest 0 r_path 3 (KeyList [])" 3 "KeyList []" "\<lambda>k. Some (public_key k)" "r_id 1" "[]"]
    by (simp add: roomRekeySchema_build wrappedKeys_def unwrapAll_def storeAndAnswer_def) (simp add: r_options_def)
  have answered: "Responds (ManageOk []) \<in> set ?fx" by simp
  from rekey_success_is_authentic [OF tri run answered] show ?thesis by (elim exE conjE) (rule exI, rule exI, assumption)
qed

end
