(* ===== verification/NoticeBoard.thy ===== *)
theory NoticeBoard
  imports RoomProperties DataSync
begin

text \<open>
  \<open>ts/packages/core/src/domain/notice-board.ts\<close>: notices posted to one's own replicated log, peers' entries
  taken in, and a room's notices read back, verified and decrypted where the key of their epoch is held.
  The room key store is the application's; it is the argument \<open>room_keys\<close>. The codec of a log entry
  (\<open>roomNoticeSchema\<close> over CBOR) is a pair of arguments, the random notice id and initialisation vector too.
  A read that meets a thrown error stops with it; \<open>Err None\<close> is a token walk that did not return.
\<close>

record room_keys =
  rks_get :: "string \<Rightarrow> int \<Rightarrow> bytes option"
  rks_currentEpoch :: "string \<Rightarrow> int option"

record board_options =
  bo_env :: verify_env
  bo_crypto :: group_crypto
  bo_keys :: room_keys
  bo_decNotice :: "bytes \<Rightarrow> room_notice_claims option"
  bo_encNotice :: "room_notice_claims \<Rightarrow> bytes"
  bo_decEntry :: "bytes \<Rightarrow> cose_sign1 option"
  bo_encEntry :: "cose_sign1 \<Rightarrow> bytes"

record notice_board_entry =
  nbe_verified :: bool
  nbe_reason :: "room_notice_reason option"
  nbe_contentType :: "string option"
  nbe_plaintext :: "bytes option"
  nbe_claims :: "room_notice_claims option"

record notice_post =
  np_room :: string
  np_token :: cose_sign1
  np_contentType :: string
  np_plaintext :: bytes
  np_noticeId :: "bytes option"

datatype post_error = NoContentKey string | KeyStoreInconsistent int string | KeyNotUsable

definition noticeOptions :: "notice_post \<Rightarrow> bytes \<Rightarrow> bytes \<Rightarrow> int \<Rightarrow> room_notice_options" where
  "noticeOptions post noticeId ciphertext keyEpoch =
     \<lparr>ro_room = np_room post, ro_token = np_token post, ro_noticeId = noticeId,
      ro_contentType = encryptedContentType (np_contentType post), ro_content = ciphertext, ro_refs = None,
      ro_validUntil = None, ro_keyEpoch = Some keyEpoch\<rparr>"

definition postEncryptedNotice ::
    "board_options \<Rightarrow> bytes \<Rightarrow> bytes \<Rightarrow> notice_post \<Rightarrow> kv_store \<Rightarrow> post_error + (data_have_frame \<times> cose_sign1 \<times> int) \<times> kv_store" where
  "postEncryptedNotice opts iv randomId post st =
     (case rks_currentEpoch (bo_keys opts) (np_room post) of
        None \<Rightarrow> Err (NoContentKey (np_room post))
      | Some keyEpoch \<Rightarrow>
          (case rks_get (bo_keys opts) (np_room post) keyEpoch of
             None \<Rightarrow> Err (KeyStoreInconsistent keyEpoch (np_room post))
           | Some contentKey \<Rightarrow>
               let noticeId = (case np_noticeId post of Some i \<Rightarrow> i | None \<Rightarrow> randomId)
               in case encryptNoticeContent (bo_crypto opts) iv contentKey (np_plaintext post) of
                    None \<Rightarrow> Err KeyNotUsable
                  | Some ciphertext \<Rightarrow>
                      let notice = createRoomNotice (env_codec (bo_env opts)) (bo_encNotice opts) (env_identity (bo_env opts))
                            (env_now (bo_env opts)) (noticeOptions post noticeId ciphertext keyEpoch)
                      in case appendOwnEntry (deviceId (env_identity (bo_env opts))) (bo_encEntry opts notice) st of
                           ((_, haveFrame), st') \<Rightarrow> Ok ((haveFrame, notice, keyEpoch), st')))"

definition ingestPeerEntry :: "device_id \<Rightarrow> bytes \<Rightarrow> kv_store \<Rightarrow> nat + kv_store" where
  "ingestPeerEntry peer entry st =
     (let fromSeq = headSeqFor st peer
      in case handleDataEntries st \<lparr>ent_peer = peer, ent_from = fromSeq, ent_entries = [entry]\<rparr> of
           Inl _ \<Rightarrow> Err fromSeq
         | Inr st' \<Rightarrow> Ok st')"

definition refusedEntry :: "room_notice_reason \<Rightarrow> notice_board_entry" where
  "refusedEntry reason =
     \<lparr>nbe_verified = False, nbe_reason = Some reason, nbe_contentType = None, nbe_plaintext = None, nbe_claims = None\<rparr>"

definition verifiedEntry :: "room_notice_claims \<Rightarrow> string \<Rightarrow> bytes option \<Rightarrow> notice_board_entry" where
  "verifiedEntry claims contentType plaintext =
     \<lparr>nbe_verified = True, nbe_reason = None, nbe_contentType = Some contentType, nbe_plaintext = plaintext, nbe_claims = Some claims\<rparr>"

definition openNotice :: "board_options \<Rightarrow> room_notice_claims \<Rightarrow> notice_board_entry" where
  "openNotice opts claims =
     (if \<not> isEncryptedContentType (rn_contentType claims)
      then verifiedEntry claims (rn_contentType claims) (Some (rn_content claims))
      else case rn_keyEpoch claims of
             None \<Rightarrow> refusedEntry key_epoch_mismatch
           | Some keyEpoch \<Rightarrow>
               verifiedEntry claims (plaintextContentType (rn_contentType claims))
                 (case rks_get (bo_keys opts) (rn_room claims) keyEpoch of
                    None \<Rightarrow> None
                  | Some contentKey \<Rightarrow> decryptNoticeContent (bo_crypto opts) contentKey (rn_content claims)))"

definition readOne ::
    "nat \<Rightarrow> board_options \<Rightarrow> bytes \<Rightarrow> string \<Rightarrow> dm_root_policy \<Rightarrow> (room_path_error + notice_board_entry) option" where
  "readOne fuel opts entry room policy =
     (case bo_decEntry opts entry of
        None \<Rightarrow> Some (Ok (refusedEntry notice_malformed))
      | Some notice \<Rightarrow>
          (case verifyRoomNotice fuel (bo_env opts) (bo_decNotice opts) notice (Some room) policy of
             None \<Rightarrow> None
           | Some (Inl e) \<Rightarrow> Some (Err e)
           | Some (Inr (NoticeRefused reason)) \<Rightarrow> Some (Ok (refusedEntry reason))
           | Some (Inr (NoticeAccepted claims)) \<Rightarrow> Some (Ok (openNotice opts claims))))"

definition readStep ::
    "nat \<Rightarrow> board_options \<Rightarrow> string \<Rightarrow> dm_root_policy \<Rightarrow> notice_board_entry list \<Rightarrow> bytes \<Rightarrow> room_path_error option + notice_board_entry list" where
  "readStep fuel opts room policy out entry =
     (case readOne fuel opts entry room policy of None \<Rightarrow> Err None | Some (Inl e) \<Rightarrow> Err (Some e) | Some (Inr x) \<Rightarrow> Ok (out @ [x]))"

definition readLog ::
    "nat \<Rightarrow> board_options \<Rightarrow> device_id \<Rightarrow> string \<Rightarrow> dm_root_policy \<Rightarrow> kv_store \<Rightarrow> room_path_error option + notice_board_entry list" where
  "readLog fuel opts peer room policy st = eachInOrder (readEntries st peer 0) (readStep fuel opts room policy) []"

definition readOwnNotices :: "nat \<Rightarrow> board_options \<Rightarrow> string \<Rightarrow> kv_store \<Rightarrow> room_path_error option + notice_board_entry list" where
  "readOwnNotices fuel opts room st = readLog fuel opts (deviceId (env_identity (bo_env opts))) room EitherParticipant st"

definition readPeerNotices :: "nat \<Rightarrow> board_options \<Rightarrow> device_id \<Rightarrow> string \<Rightarrow> kv_store \<Rightarrow> room_path_error option + notice_board_entry list" where
  "readPeerNotices fuel opts peer room st = readLog fuel opts peer room SelfOnly st"

subsection \<open>Reading\<close>

lemma readLog_log: "log_ok st peer \<Longrightarrow> readLog fuel opts peer room policy st = eachInOrder (logOf st peer) (readStep fuel opts room policy) []"
  by (simp add: readLog_def readEntries_log)

lemma readStep_append: "eachInOrder es (readStep fuel opts room policy) out =
    (case eachInOrder es (readStep fuel opts room policy) [] of Inl e \<Rightarrow> Err e | Inr read \<Rightarrow> Ok (out @ read))"
proof (induction es arbitrary: out)
  case (Cons e es)
  show ?case
  proof (cases "readOne fuel opts e room policy")
    case (Some r)
    then show ?thesis
    proof (cases r)
      case (Inr x)
      with Some Cons [of "out @ [x]"] Cons [of "[x]"] show ?thesis by (simp add: readStep_def split: sum.split)
    qed (simp add: readStep_def)
  qed (simp add: readStep_def)
qed simp

lemma ingestPeerEntry_log:
  assumes "log_ok st peer" and "ingestPeerEntry peer entry st = Ok st'"
  shows "logOf st' q = (if q = peer then logOf st q @ [entry] else logOf st q)" and "log_ok st' q \<longleftrightarrow> q = peer \<or> log_ok st q"
  using assms handleDataEntries_ok(2,3) [of st "\<lparr>ent_peer = peer, ent_from = headSeqFor st peer, ent_entries = [entry]\<rparr>" st' q]
  by (auto simp: ingestPeerEntry_def Let_def split: sum.splits)

lemma ingestPeerEntry_total: "\<exists>st'. ingestPeerEntry peer entry st = Ok st'"
  by (simp add: ingestPeerEntry_def headSeqFor_def handleDataEntries_def Let_def)

text \<open>A notice made by this board's device reads back as it was posted, by any reader who holds its epoch's key.\<close>

lemma readOne_posted:
  assumes post: "postEncryptedNotice opts iv randomId post st = Ok ((haveFrame, notice, keyEpoch), st')"
    and keys: "keypair_ok (env_identity (bo_env reader)) (env_identity (bo_env opts))" "env_codec (bo_env reader) = env_codec (bo_env opts)"
    and codecs: "\<And>c. payload notice = Some (bo_encNotice opts c) \<Longrightarrow> bo_decNotice reader (bo_encNotice opts c) = Some c" "bo_decEntry reader (bo_encEntry opts notice) = Some notice"
    and member: "verifyRoomToken fuel (bo_env reader) (np_token post) (deviceId (env_identity (bo_env opts))) (np_room post) policy
      = Some (Ok (RoomAccepted c key))"
    and "roomPathSchema (np_room post)"
  shows "\<exists>claims ciphertext contentKey. rks_get (bo_keys opts) (np_room post) keyEpoch = Some contentKey
    \<and> encryptNoticeContent (bo_crypto opts) iv contentKey (np_plaintext post) = Some ciphertext
    \<and> rn_room claims = np_room post \<and> rn_keyEpoch claims = Some keyEpoch \<and> rn_content claims = ciphertext
    \<and> rn_contentType claims = encryptedContentType (np_contentType post) \<and> rn_poster claims = deviceId (env_identity (bo_env opts))
    \<and> readOne fuel reader (bo_encEntry opts notice) (np_room post) policy = Some (Ok (openNotice reader claims))"
proof -
  let ?nid = "case np_noticeId post of Some i \<Rightarrow> i | None \<Rightarrow> randomId"
  obtain contentKey ciphertext where held: "rks_get (bo_keys opts) (np_room post) keyEpoch = Some contentKey"
      "encryptNoticeContent (bo_crypto opts) iv contentKey (np_plaintext post) = Some ciphertext"
      and notice: "notice = createRoomNotice (env_codec (bo_env opts)) (bo_encNotice opts) (env_identity (bo_env opts))
        (env_now (bo_env opts)) (noticeOptions post ?nid ciphertext keyEpoch)"
    using post by (auto simp: postEncryptedNotice_def Let_def split: option.splits prod.splits)
  let ?claims = "noticeClaims (env_identity (bo_env opts)) (env_now (bo_env opts)) (noticeOptions post ?nid ciphertext keyEpoch)"
  have claims: "rn_room ?claims = np_room post" "rn_keyEpoch ?claims = Some keyEpoch" "rn_content ?claims = ciphertext"
    "rn_contentType ?claims = encryptedContentType (np_contentType post)" "rn_poster ?claims = deviceId (env_identity (bo_env opts))"
    "rn_posterKey ?claims = identityKey (env_identity (bo_env opts))" "rn_validUntil ?claims = None" "rn_token ?claims = np_token post"
    by (simp_all add: noticeClaims_def noticeOptions_def)
  have "verifyRoomNotice fuel (bo_env reader) (bo_decNotice reader) notice (Some (np_room post)) policy = Some (Ok (NoticeAccepted ?claims))"
    using keys member codecs(1) [of ?claims] assms(7)
    by (simp add: verifyRoomNotice_def notice createRoomNotice_def keypair_ok_def claims roomNoticeClaimsSchema_def)
  then have "readOne fuel reader (bo_encEntry opts notice) (np_room post) policy = Some (Ok (openNotice reader ?claims))"
    by (simp add: readOne_def codecs(2))
  with held claims show ?thesis by blast
qed

lemma openNotice_posted:
  assumes "gcm_law crypto" and "length iv = GCM_IV_BYTE_LENGTH" and "bo_crypto reader = crypto"
    and "encryptNoticeContent crypto iv contentKey plaintext = Some (rn_content claims)"
    and "rn_keyEpoch claims = Some keyEpoch" and "rn_contentType claims = encryptedContentType contentType"
  shows "openNotice reader claims = verifiedEntry claims (plaintextContentType (encryptedContentType contentType))
    (if rks_get (bo_keys reader) (rn_room claims) keyEpoch = Some contentKey then Some plaintext
     else case rks_get (bo_keys reader) (rn_room claims) keyEpoch of None \<Rightarrow> None
          | Some other \<Rightarrow> decryptNoticeContent crypto other (rn_content claims))"
  using noticeContent_roundtrip [OF assms(1,2,4)] assms(3,5,6) by (simp add: openNotice_def split: option.split)

text \<open>C24: What is posted is read. A notice posted to one's own log is appended there and announced; whoever holds
  a copy of the log and the key of its epoch, and accepts the poster's token, reads it after everything
  that was there before, verified, with the plaintext that was posted; a reader without the key reads
  it verified and without content.\<close>

theorem posted_notice_is_read:
  assumes "postEncryptedNotice opts iv randomId post st = Ok ((haveFrame, notice, keyEpoch), st')" and "log_ok st own"
    and "own = deviceId (env_identity (bo_env opts))" and "length iv = GCM_IV_BYTE_LENGTH"
    and "gcm_law (bo_crypto opts)" and "bo_crypto reader = bo_crypto opts"
    and "keypair_ok (env_identity (bo_env reader)) (env_identity (bo_env opts))" and "env_codec (bo_env reader) = env_codec (bo_env opts)"
    and "\<And>c. payload notice = Some (bo_encNotice opts c) \<Longrightarrow> bo_decNotice reader (bo_encNotice opts c) = Some c" and "bo_decEntry reader (bo_encEntry opts notice) = Some notice"
    and "verifyRoomToken fuel (bo_env reader) (np_token post) own (np_room post) policy = Some (Ok (RoomAccepted c key))"
    and "roomPathSchema (np_room post)" and "log_ok copy own" and "logOf copy own = logOf st' own"
    and "readLog fuel reader own (np_room post) policy st = Ok before"
    and "rks_get (bo_keys reader) (np_room post) keyEpoch \<in> {None, rks_get (bo_keys opts) (np_room post) keyEpoch}"
  shows "\<exists>claims. readLog fuel reader own (np_room post) policy copy = Ok (before @
      [verifiedEntry claims (plaintextContentType (encryptedContentType (np_contentType post)))
         (if rks_get (bo_keys reader) (np_room post) keyEpoch = None then None else Some (np_plaintext post))])
    \<and> rn_poster claims = own \<and> rn_room claims = np_room post \<and> have_head haveFrame = length (logOf st own) + 1"
proof -
  obtain claims ciphertext contentKey where held: "rks_get (bo_keys opts) (np_room post) keyEpoch = Some contentKey"
      "encryptNoticeContent (bo_crypto opts) iv contentKey (np_plaintext post) = Some (rn_content claims)"
      and claims: "rn_room claims = np_room post" "rn_keyEpoch claims = Some keyEpoch" "rn_contentType claims = encryptedContentType (np_contentType post)"
        "rn_poster claims = own"
      and one: "readOne fuel reader (bo_encEntry opts notice) (np_room post) policy = Some (Ok (openNotice reader claims))"
    using readOne_posted [OF assms(1,7,8,9,10), of fuel policy c key] assms(3,11,12) by blast
  obtain seq where "appendOwnEntry own (bo_encEntry opts notice) st = ((seq, haveFrame), st')"
    using assms(1,3) by (auto simp: postEncryptedNotice_def Let_def split: option.splits prod.splits)
  note appended = appendOwnEntry_log [OF assms(2) this]
  have entry: "openNotice reader claims = verifiedEntry claims (plaintextContentType (encryptedContentType (np_contentType post)))
      (if rks_get (bo_keys reader) (np_room post) keyEpoch = None then None else Some (np_plaintext post))"
    using openNotice_posted [OF assms(5,4,6) held(2) claims(2,3)] claims(1) held(1) assms(16) by auto
  have "readLog fuel reader own (np_room post) policy copy = Ok (before @ [openNotice reader claims])"
    using assms(15) one appended(1) [of own]
    by (simp add: readLog_log assms(2,13,14) eachInOrder_append readStep_def)
  with entry claims appended(3) show ?thesis by auto
qed

definition b_post :: notice_post where
  "b_post = \<lparr>np_room = r_path, np_token = w_token 10, np_contentType = ''text/plain'', np_plaintext = [65], np_noticeId = Some [1]\<rparr>"

definition b_claims :: room_notice_claims where
  "b_claims = noticeClaims (r_port 2) 20 (noticeOptions b_post [1] (replicate 12 0 @ [7, 65]) 1)"

definition b_options :: board_options where
  "b_options = \<lparr>bo_env = r_env\<lparr>env_identity := r_port 2\<rparr>, bo_crypto = r_crypto,
     bo_keys = \<lparr>rks_get = (\<lambda>r e. if e = 1 then Some [7] else None), rks_currentEpoch = (\<lambda>_. Some 1)\<rparr>,
     bo_decNotice = (\<lambda>b. if b = [50] then Some b_claims else None), bo_encNotice = (\<lambda>c. if c = b_claims then [50] else [51]),
     bo_decEntry = (\<lambda>b. case b of [] \<Rightarrow> None | x # body \<Rightarrow>
       Some \<lparr>protectedHeader = [], unprotectedHeader = [], payload = Some body, signature = body\<rparr>),
     bo_encEntry = (\<lambda>n. 0 # the (payload n))\<rparr>"

lemma b_posted:
  "\<exists>haveFrame st'. postEncryptedNotice b_options (replicate 12 0) [] b_post [] =
     Ok ((haveFrame, \<lparr>protectedHeader = [], unprotectedHeader = [], payload = Some [50], signature = [50]\<rparr>, 1), st') \<and> log_ok st' (r_id 2)"
proof -
  let ?n = "\<lparr>protectedHeader = [], unprotectedHeader = [], payload = Some [50], signature = [50]\<rparr>"
  have "createRoomNotice r_codec (bo_encNotice b_options) (r_port 2) 20 (noticeOptions b_post [1] (replicate 12 0 @ [7, 65]) 1) = ?n"
    unfolding createRoomNotice_def b_claims_def [symmetric]
    by (simp add: b_options_def signEnvelope_def protectedHeaderFor_def sig1ToBeSigned_def r_codec_def w_codec_def r_port_def)
  then have "postEncryptedNotice b_options (replicate 12 0) [] b_post [] =
      (case appendOwnEntry (r_id 2) [0, 50] [] of ((_, h), st') \<Rightarrow> Ok ((h, ?n, 1), st'))"
    by (simp add: postEncryptedNotice_def encryptNoticeContent_def aesGcmEncrypt_def r_crypto_def)
       (simp add: b_options_def r_env_def r_port_def b_post_def r_crypto_def encryptNoticeContent_def aesGcmEncrypt_def)
  moreover have "log_ok [] (r_id 2)" by (simp add: log_ok_def readHeadSeq_def)
  ultimately show ?thesis using appendOwnEntry_log(2) [of "[]" "r_id 2" "[0, 50]"] by (auto split: prod.splits)
qed

theorem posted_notice_is_read_witness:
  "\<exists>haveFrame notice st' claims. postEncryptedNotice b_options (replicate 12 0) [] b_post [] = Ok ((haveFrame, notice, 1), st')
     \<and> readLog 1 b_options (r_id 2) r_path EitherParticipant st' = Ok [verifiedEntry claims ''text/plain'' (Some [65])]"
proof -
  let ?n = "\<lparr>protectedHeader = [], unprotectedHeader = [], payload = Some [50], signature = [50]\<rparr>"
  obtain h st' where posted: "postEncryptedNotice b_options (replicate 12 0) [] b_post [] = Ok ((h, ?n, 1), st')" and ok: "log_ok st' (r_id 2)"
    using b_posted by blast
  have member: "verifyRoomToken 1 (bo_env b_options) (np_token b_post) (r_id 2) (np_room b_post) EitherParticipant
      = Some (Ok (RoomAccepted (r_claims 10 ''room:member'' r_path) \<lparr>alg = -7, public_key = r_id 1\<rparr>))"
    using r_options_token by (simp add: b_options_def r_options_def b_post_def r_env_def r_port_def)
  have types: "plaintextContentType (encryptedContentType ''text/plain'') = ''text/plain''" by code_simp
  have empty: "log_ok [] (r_id 2)" "readLog 1 b_options (r_id 2) (np_room b_post) EitherParticipant [] = Ok []"
    by (simp_all add: log_ok_def readHeadSeq_def readLog_log logOf_def)
  have own: "r_id 2 = deviceId (env_identity (bo_env b_options))" by (simp add: b_options_def r_port_def)
  have "\<exists>claims. readLog 1 b_options (r_id 2) (np_room b_post) EitherParticipant st' = Ok ([] @
      [verifiedEntry claims (plaintextContentType (encryptedContentType (np_contentType b_post)))
         (if rks_get (bo_keys b_options) (np_room b_post) 1 = None then None else Some (np_plaintext b_post))])
    \<and> rn_poster claims = r_id 2 \<and> rn_room claims = np_room b_post \<and> have_head h = length (logOf [] (r_id 2)) + 1"
    by (rule posted_notice_is_read [OF posted empty(1) own _ _ _ _ _ _ _ member _ ok _ empty(2)])
       (use parsed_path_schema [OF r_path_parses] r_crypto_law in
         \<open>auto simp: b_options_def b_post_def GCM_IV_BYTE_LENGTH_def keypair_ok_def r_port_def split: if_splits\<close>)
  moreover have "rks_get (bo_keys b_options) r_path 1 \<noteq> None" by (simp add: b_options_def)
  ultimately obtain claims where "readLog 1 b_options (r_id 2) r_path EitherParticipant st' = Ok [verifiedEntry claims ''text/plain'' (Some [65])]"
    using types by (auto simp: b_post_def)
  with posted show ?thesis by blast
qed

text \<open>Nothing unverified is surfaced. An entry read back carries content or claims only when its notice passed
  every check for the room that was asked for, and its content is the notice's own, or what the key held for
  that room and epoch makes of it.\<close>

theorem board_surfaces_only_verified:
  assumes "readOne fuel opts entry room policy = Some (Ok e)"
  shows "case nbe_claims e of
      None \<Rightarrow> \<not> nbe_verified e \<and> nbe_plaintext e = None \<and> nbe_contentType e = None \<and> nbe_reason e \<noteq> None
    | Some claims \<Rightarrow> nbe_verified e \<and> rn_room claims = room
        \<and> (\<exists>notice. bo_decEntry opts entry = Some notice
             \<and> verifyRoomNotice fuel (bo_env opts) (bo_decNotice opts) notice (Some room) policy = Some (Ok (NoticeAccepted claims)))
        \<and> nbe_plaintext e = (if isEncryptedContentType (rn_contentType claims)
             then Option.bind (Option.bind (rn_keyEpoch claims) (rks_get (bo_keys opts) room)) (\<lambda>k. decryptNoticeContent (bo_crypto opts) k (rn_content claims))
             else Some (rn_content claims))"
proof (cases "bo_decEntry opts entry")
  case None
  with assms have "e = refusedEntry notice_malformed" by (simp add: readOne_def)
  then show ?thesis by (simp add: refusedEntry_def)
next
  case (Some notice)
  note read = assms [unfolded readOne_def Some option.case]
  from read obtain verdict where verdict:
      "verifyRoomNotice fuel (bo_env opts) (bo_decNotice opts) notice (Some room) policy = Some (Ok verdict)"
    by (auto split: option.splits sum.splits)
  show ?thesis
  proof (cases verdict)
    case (NoticeRefused reason)
    with read verdict have "e = refusedEntry reason" by simp
    then show ?thesis by (simp add: refusedEntry_def)
  next
    case (NoticeAccepted claims)
    with verdict have room: "rn_room claims = room"
      by (auto simp: verifyRoomNotice_def split: option.splits sum.splits if_splits room_token_verdict.splits)
    from read verdict NoticeAccepted have "e = openNotice opts claims" by simp
    then show ?thesis using Some verdict NoticeAccepted room
      by (auto simp: openNotice_def verifiedEntry_def refusedEntry_def split: option.splits)
  qed
qed

theorem board_surfaces_only_verified_witness:
  "\<exists>e. readOne 1 b_options [] r_path SelfOnly = Some (Ok e) \<and> nbe_plaintext e = None"
proof -
  have read: "readOne 1 b_options [] r_path SelfOnly = Some (Ok (refusedEntry notice_malformed))" by (simp add: readOne_def b_options_def)
  from board_surfaces_only_verified [OF this] read show ?thesis by (auto simp: refusedEntry_def)
qed

end
