(* ===== verification/ShardManifests.thy ===== *)
theory ShardManifests
  imports ErasureProperties DataSync TokenPredicates
begin

text \<open>
  \<open>ts/packages/core/src/domain/shard-manifest.ts\<close>: the record that names where the shards of a payload are
  and how many reconstruct it. The CBOR codec is a pair of arguments between bytes and decoded values; the
  source's own validation of a decoded value is modelled. A decoded byte string counts as a record without
  fields, as it does for \<open>typeof value === "object"\<close>.
\<close>

record shard_location =
  sl_device :: device_id
  sl_transferId :: bytes

record shard_manifest =
  sm_totalShards :: int
  sm_threshold :: int
  sm_contentType :: string
  sm_originalLength :: int
  sm_shards :: "shard_location list"

datatype manifest_error =
    ShardCountMismatch int nat
  | ThresholdOutOfRange int int
  | NotCbor
  | NotAMap
  | MissingCounts
  | MissingTypeOrLength
  | MissingShards
  | EntryMalformed
  | LocationMissingBytes
  | NoTarget nat nat
  | TooFewTargets int nat
  | Coding shard_error
  | NegativeLength

definition validateManifest :: "shard_manifest \<Rightarrow> manifest_error option" where
  "validateManifest manifest =
     (if int (length (sm_shards manifest)) \<noteq> sm_totalShards manifest
      then Some (ShardCountMismatch (sm_totalShards manifest) (length (sm_shards manifest)))
      else if sm_threshold manifest < 1 \<or> sm_threshold manifest > sm_totalShards manifest
      then Some (ThresholdOutOfRange (sm_threshold manifest) (sm_totalShards manifest))
      else None)"

definition locationJson :: "shard_location \<Rightarrow> json_value" where
  "locationJson l = JObject [(''device'', JBytes (sl_device l)), (''transfer-id'', JBytes (sl_transferId l))]"

definition manifestJson :: "shard_manifest \<Rightarrow> json_value" where
  "manifestJson manifest =
     JObject [(''total-shards'', JNumber (sm_totalShards manifest)), (''threshold'', JNumber (sm_threshold manifest)),
       (''content-type'', JString (sm_contentType manifest)), (''original-length'', JNumber (sm_originalLength manifest)),
       (''shards'', JArray (map locationJson (sm_shards manifest)))]"

definition encodeShardManifest :: "(json_value \<Rightarrow> bytes) \<Rightarrow> shard_manifest \<Rightarrow> manifest_error + bytes" where
  "encodeShardManifest enc manifest =
     (case validateManifest manifest of Some e \<Rightarrow> Err e | None \<Rightarrow> Ok (enc (manifestJson manifest)))"

definition stringKeyedRecord :: "json_value \<Rightarrow> (string \<times> json_value) list option" where
  "stringKeyedRecord j = (case j of JObject kvs \<Rightarrow> Some kvs | JBytes _ \<Rightarrow> Some [] | _ \<Rightarrow> None)"

definition decodeLocation :: "json_value \<Rightarrow> manifest_error + shard_location" where
  "decodeLocation raw =
     (case stringKeyedRecord raw of
        None \<Rightarrow> Err EntryMalformed
      | Some kvs \<Rightarrow>
          (case (jget kvs ''device'', jget kvs ''transfer-id'') of
             (Some (JBytes d), Some (JBytes t)) \<Rightarrow> Ok \<lparr>sl_device = d, sl_transferId = t\<rparr>
           | _ \<Rightarrow> Err LocationMissingBytes))"

definition decodeLocations :: "json_value list \<Rightarrow> manifest_error + shard_location list" where
  "decodeLocations js =
     eachInOrder js (\<lambda>out j. case decodeLocation j of Inl e \<Rightarrow> Err e | Inr l \<Rightarrow> Ok (out @ [l])) []"

definition decodeShardManifest :: "(bytes \<Rightarrow> json_value option) \<Rightarrow> bytes \<Rightarrow> manifest_error + shard_manifest" where
  "decodeShardManifest dec entry =
     (case dec entry of
        None \<Rightarrow> Err NotCbor
      | Some decoded \<Rightarrow>
          (case stringKeyedRecord decoded of
             None \<Rightarrow> Err NotAMap
           | Some kvs \<Rightarrow>
               (case (jget kvs ''total-shards'', jget kvs ''threshold'') of
                  (Some (JNumber totalCount), Some (JNumber threshold)) \<Rightarrow>
                    (case (jget kvs ''content-type'', jget kvs ''original-length'') of
                       (Some (JString contentType), Some (JNumber originalLength)) \<Rightarrow>
                         (case jget kvs ''shards'' of
                            Some (JArray shards) \<Rightarrow>
                              (case decodeLocations shards of
                                 Inl e \<Rightarrow> Err e
                               | Inr locations \<Rightarrow>
                                   let manifest = \<lparr>sm_totalShards = totalCount, sm_threshold = threshold, sm_contentType = contentType,
                                                   sm_originalLength = originalLength, sm_shards = locations\<rparr>
                                   in case validateManifest manifest of Some e \<Rightarrow> Err e | None \<Rightarrow> Ok manifest)
                          | _ \<Rightarrow> Err MissingShards)
                     | _ \<Rightarrow> Err MissingTypeOrLength)
                | _ \<Rightarrow> Err MissingCounts)))"

definition targetFor :: "device_id list \<Rightarrow> nat \<Rightarrow> bytes \<Rightarrow> manifest_error + device_id" where
  "targetFor targets index shard = (if index < length targets then Ok (targets ! index) else Err (NoTarget index (length shard)))"

definition shardLocations :: "device_id list \<Rightarrow> (nat \<Rightarrow> bytes) \<Rightarrow> bytes list \<Rightarrow> manifest_error + shard_location list" where
  "shardLocations targets nextTransferId shards =
     eachInOrder (enumerate 0 shards)
       (\<lambda>out (index, shard). case targetFor targets index shard of
          Inl e \<Rightarrow> Err e
        | Inr target \<Rightarrow> Ok (out @ [\<lparr>sl_device = target, sl_transferId = nextTransferId index\<rparr>])) []"

definition splitForShardedDelivery ::
    "(json_value \<Rightarrow> bytes) \<Rightarrow> bytes \<Rightarrow> shard_config \<Rightarrow> string \<Rightarrow> device_id list \<Rightarrow> (nat \<Rightarrow> bytes)
      \<Rightarrow> manifest_error + shard_manifest \<times> bytes list \<times> bytes" where
  "splitForShardedDelivery enc body config contentType targets nextTransferId =
     (if int (length targets) < totalShards config then Err (TooFewTargets (totalShards config) (length targets))
      else case encodeShards body config of
             Inl e \<Rightarrow> Err (Coding e)
           | Inr shards \<Rightarrow>
               (case shardLocations targets nextTransferId shards of
                  Inl e \<Rightarrow> Err e
                | Inr locations \<Rightarrow>
                    let manifest = \<lparr>sm_totalShards = totalShards config, sm_threshold = dataShards config, sm_contentType = contentType,
                                    sm_originalLength = int (length body), sm_shards = locations\<rparr>
                    in case encodeShardManifest enc manifest of
                         Inl e \<Rightarrow> Err e
                       | Inr entry \<Rightarrow> Ok (manifest, shards, entry)))"

text \<open>The decryptor is an argument; a rejection of it is the right's \<open>None\<close>.\<close>

definition reconstructFromShards ::
    "presented_shard list \<Rightarrow> shard_manifest \<Rightarrow> (bytes \<Rightarrow> bytes option) option \<Rightarrow> manifest_error + bytes option" where
  "reconstructFromShards fetched manifest decrypt =
     (case decodeShards fetched \<lparr>dataShards = sm_threshold manifest, totalShards = sm_totalShards manifest\<rparr> (nat (sm_originalLength manifest)) of
        Inl e \<Rightarrow> Err (Coding e)
      | Inr reconstructed \<Rightarrow>
          if sm_originalLength manifest < 0 then Err NegativeLength
          else Ok (case decrypt of None \<Rightarrow> Some reconstructed | Some d \<Rightarrow> d reconstructed))"

definition locateShardManifests :: "(bytes \<Rightarrow> json_value option) \<Rightarrow> kv_store \<Rightarrow> device_id \<Rightarrow> shard_manifest list" where
  "locateShardManifests dec st publisher =
     List.map_filter (\<lambda>entry. case decodeShardManifest dec entry of Inl _ \<Rightarrow> None | Inr manifest \<Rightarrow> Some manifest)
       (readEntries st publisher 0)"

subsection \<open>Encoding and decoding\<close>

lemma decodeLocation_json: "decodeLocation (locationJson l) = Ok l"
  by (simp add: decodeLocation_def locationJson_def stringKeyedRecord_def)

lemma decodeLocations_json: "decodeLocations (map locationJson ls) = Ok ls"
proof -
  have "eachInOrder (map locationJson ls) (\<lambda>out j. case decodeLocation j of Inl e \<Rightarrow> Err e | Inr l \<Rightarrow> Ok (out @ [l])) acc = Ok (acc @ ls)" for acc
    by (induction ls arbitrary: acc) (simp_all add: decodeLocation_json)
  from this [of "[]"] show ?thesis by (simp add: decodeLocations_def)
qed

lemma manifest_roundtrip:
  assumes "dec (enc (manifestJson manifest)) = Some (manifestJson manifest)" and "encodeShardManifest enc manifest = Ok entry"
  shows "decodeShardManifest dec entry = Ok manifest"
  using assms by (cases manifest) (auto simp: encodeShardManifest_def decodeShardManifest_def manifestJson_def stringKeyedRecord_def decodeLocations_json Let_def
      split: option.splits)

lemma shardLocations_Ok:
  assumes "length shards \<le> length targets"
  shows "shardLocations targets nextTransferId shards =
    Ok (map (\<lambda>i. \<lparr>sl_device = targets ! i, sl_transferId = nextTransferId i\<rparr>) [0..<length shards])"
proof -
  have "eachInOrder (enumerate n ss) (\<lambda>out (index, shard). case targetFor targets index shard of
          Inl e \<Rightarrow> Err e | Inr target \<Rightarrow> Ok (out @ [\<lparr>sl_device = target, sl_transferId = nextTransferId index\<rparr>])) acc =
      Ok (acc @ map (\<lambda>i. \<lparr>sl_device = targets ! i, sl_transferId = nextTransferId i\<rparr>) [n..<n + length ss])"
    if "n + length ss \<le> length targets" for n ss acc
    using that
  proof (induction ss arbitrary: n acc)
    case (Cons s ss)
    have "[n..<n + length (s # ss)] = n # [Suc n..<Suc n + length ss]" by (simp add: upt_conv_Cons del: upt_Suc)
    with Cons.prems Cons.IH [of "Suc n"] show ?case by (simp add: targetFor_def del: upt_Suc)
  qed simp
  from this [of 0 shards "[]"] assms show ?thesis by (simp add: shardLocations_def)
qed

lemma split_Ok:
  assumes "splitForShardedDelivery enc body config contentType targets nextTransferId = Ok (manifest, shards, entry)"
  shows "encodeShards body config = Ok shards" and "encodeShardManifest enc manifest = Ok entry"
    and "sm_totalShards manifest = totalShards config" and "sm_threshold manifest = dataShards config"
    and "sm_originalLength manifest = int (length body)"
    and "sm_shards manifest = map (\<lambda>i. \<lparr>sl_device = targets ! i, sl_transferId = nextTransferId i\<rparr>) [0..<length shards]"
proof -
  have split: "\<not> int (length targets) < totalShards config" "encodeShards body config = Ok shards"
    "encodeShardManifest enc manifest = Ok entry" "sm_totalShards manifest = totalShards config" "sm_threshold manifest = dataShards config"
    "sm_originalLength manifest = int (length body)" "shardLocations targets nextTransferId shards = Ok (sm_shards manifest)"
    using assms by (auto simp: splitForShardedDelivery_def Let_def split: if_splits sum.splits)
  have "length shards = nat (totalShards config)" using encodeShards_ok [of body config shards] split(2) by simp
  then have "length shards \<le> length targets" using split(1) by linarith
  with split shardLocations_Ok [OF this, of nextTransferId]
  show "encodeShards body config = Ok shards" and "encodeShardManifest enc manifest = Ok entry"
    and "sm_totalShards manifest = totalShards config" and "sm_threshold manifest = dataShards config"
    and "sm_originalLength manifest = int (length body)"
    and "sm_shards manifest = map (\<lambda>i. \<lparr>sl_device = targets ! i, sl_transferId = nextTransferId i\<rparr>) [0..<length shards]"
    by simp_all
qed

end
