(* ===== verification/ShardedDelivery.thy ===== *)
theory ShardedDelivery
  imports ShardManifests BulkProperties
begin

text \<open>
  \<open>ts/packages/core/src/domain/sharded-delivery.ts\<close>: a payload is pushed shard by shard to its holders and its
  manifest published, holders store and serve shards, and a reader collects enough of them and
  reconstructs. The transfers are those of theory \<open>Bulk\<close>. A collector's offers are decided when they
  arrive; a finished transfer is read back in a step of its own (\<open>col_reading\<close>), so that frames may arrive
  in between.
\<close>

subsection \<open>Sender\<close>

definition singleChunkSource :: "bytes \<Rightarrow> nat \<Rightarrow> bytes list" where
  "singleChunkSource chunk fromSeq = (if fromSeq > 0 then [] else [chunk])"

record 'c shard_push =
  sp_channel :: 'c
  sp_transferId :: bytes
  sp_targetDevice :: device_id
  sp_contentType :: string
  sp_totalSize :: nat
  sp_source :: "nat \<Rightarrow> bytes list"

datatype distribute_error = TooFewChannels int nat | Manifest manifest_error | PushThrew

definition distributeStart ::
    "(json_value \<Rightarrow> bytes) \<Rightarrow> bytes \<Rightarrow> shard_config \<Rightarrow> string \<Rightarrow> device_id list \<Rightarrow> 'c list \<Rightarrow> (nat \<Rightarrow> bytes)
      \<Rightarrow> distribute_error + shard_manifest \<times> bytes \<times> 'c shard_push list" where
  "distributeStart enc body config contentType targets channels nextTransferId =
     (if int (length channels) < totalShards config then Err (TooFewChannels (totalShards config) (length channels))
      else case splitForShardedDelivery enc body config contentType targets nextTransferId of
             Inl e \<Rightarrow> Err (Manifest e)
           | Inr (manifest, shards, entry) \<Rightarrow>
               Ok (manifest, entry,
                   map (\<lambda>i. \<lparr>sp_channel = channels ! i, sp_transferId = sl_transferId (sm_shards manifest ! i),
                             sp_targetDevice = sl_device (sm_shards manifest ! i), sp_contentType = sm_contentType manifest,
                             sp_totalSize = length (shards ! i), sp_source = singleChunkSource (shards ! i)\<rparr>) [0..<length shards]))"

text \<open>Each push settles with an outcome, or throws (\<open>None\<close>), and \<open>Promise.all\<close> waits for the first that throws or for all.\<close>

definition distributeFinish ::
    "device_id \<Rightarrow> bytes \<Rightarrow> bulk_send_outcome option list \<Rightarrow> kv_store \<Rightarrow> distribute_error + (data_have_frame \<times> bulk_send_outcome list) \<times> kv_store" where
  "distributeFinish own entry pushes st =
     (case those pushes of
        None \<Rightarrow> Err PushThrew
      | Some outcomes \<Rightarrow> (case appendOwnEntry own entry st of ((_, haveFrame), st') \<Rightarrow> Ok ((haveFrame, outcomes), st')))"

subsection \<open>Holder\<close>

definition createShardHolder :: "(string, bytes) jmap \<Rightarrow> 'c bulk_receiver" where
  "createShardHolder storage = \<lparr>br_storage = storage, br_registrations = []\<rparr>"

definition serveSource :: "'c bulk_receiver \<Rightarrow> bytes \<Rightarrow> nat \<Rightarrow> bytes list" where
  "serveSource holder transferId fromSeq = fst (storedTransferSource (br_storage holder) transferId fromSeq)"

definition serveShard ::
    "'c bulk_receiver \<Rightarrow> (bytes \<Rightarrow> bytes) \<Rightarrow> 'd \<Rightarrow> bytes \<Rightarrow> nat option \<Rightarrow> string option \<Rightarrow> 'd bulk_effect list \<times> 'd bulk_sender" where
  "serveShard holder digestOf c transferId totalSize contentType =
     senderStep (serveSource holder transferId) digestOf (OpenCall c transferId totalSize contentType) createBulkSender"

subsection \<open>Reader\<close>

definition readStoredTransferBytes :: "(string, bytes) jmap \<Rightarrow> bytes \<Rightarrow> string + bytes" where
  "readStoredTransferBytes storage transferId =
     (case storedTransferSource storage transferId 0 of (chunks, None) \<Rightarrow> Ok (concat chunks) | (_, Some e) \<Rightarrow> Err e)"

datatype collect_error = ReadFailed string | ReconstructFailed manifest_error | DecryptFailed

record 'c shard_collector =
  col_receiver :: "'c bulk_receiver"
  col_presented :: "(nat, bytes) jmap"
  col_reading :: "nat list"
  col_settled :: bool
  col_result :: "(collect_error + bytes) option"

definition createShardCollector :: "(string, bytes) jmap \<Rightarrow> 'c shard_collector" where
  "createShardCollector storage =
     \<lparr>col_receiver = \<lparr>br_storage = storage, br_registrations = []\<rparr>, col_presented = [], col_reading = [], col_settled = False, col_result = None\<rparr>"

text \<open>A promise settles once.\<close>

definition settleResult :: "collect_error + bytes \<Rightarrow> 'c shard_collector \<Rightarrow> 'c shard_collector" where
  "settleResult r s = (case col_result s of None \<Rightarrow> s\<lparr>col_result := Some r\<rparr> | Some _ \<Rightarrow> s)"

definition reconstructed :: "shard_manifest \<Rightarrow> (bytes \<Rightarrow> bytes option) option \<Rightarrow> (nat, bytes) jmap \<Rightarrow> collect_error + bytes" where
  "reconstructed manifest decrypt presented =
     (case reconstructFromShards (map (\<lambda>(i, d). \<lparr>shardIndex = int i, shardData = d\<rparr>) (take (nat (sm_threshold manifest)) presented))
             manifest decrypt of
        Inl e \<Rightarrow> Err (ReconstructFailed e)
      | Inr None \<Rightarrow> Err DecryptFailed
      | Inr (Some b) \<Rightarrow> Ok b)"

definition maybeFinish :: "shard_manifest \<Rightarrow> (bytes \<Rightarrow> bytes option) option \<Rightarrow> 'c shard_collector \<Rightarrow> 'c shard_collector" where
  "maybeFinish manifest decrypt s =
     (if col_settled s \<or> int (length (col_presented s)) < sm_threshold manifest then s
      else settleResult (reconstructed manifest decrypt (col_presented s)) (s\<lparr>col_settled := True\<rparr>))"

definition onOfferForIndex :: "shard_manifest \<Rightarrow> nat \<Rightarrow> bulk_offer \<Rightarrow> offer_decision" where
  "onOfferForIndex manifest index offer =
     (if index < length (sm_shards manifest) \<and> bytesEqual (of_transferId offer) (sl_transferId (sm_shards manifest ! index))
      then Accept (case of_totalSize offer of Some n \<Rightarrow> n | None \<Rightarrow> nat (sm_originalLength manifest)) (Some index)
      else Reject (Some ''shard offer does not match the manifest''))"

definition onShardComplete :: "nat \<Rightarrow> bool \<Rightarrow> 'c shard_collector \<Rightarrow> 'c shard_collector" where
  "onShardComplete index ok s = (if col_settled s \<or> \<not> ok then s else s\<lparr>col_reading := col_reading s @ [index]\<rparr>)"

definition completions :: "'c bulk_effect list \<Rightarrow> 'c shard_collector \<Rightarrow> 'c shard_collector" where
  "completions fx s = fold (\<lambda>x s. case x of Completes k ok n \<Rightarrow> onShardComplete k ok s | _ \<Rightarrow> s) fx s"

datatype 'c collector_event =
    OfferAt nat 'c device_id "(bytes \<times> nat option \<times> string option) option"
  | ShardFrame 'c bulk_frame
  | ReadBack nat

definition offerAt ::
    "shard_manifest \<Rightarrow> nat \<Rightarrow> 'c \<Rightarrow> device_id \<Rightarrow> (bytes \<times> nat option \<times> string option) option \<Rightarrow> 'c shard_collector \<Rightarrow> 'c shard_collector" where
  "offerAt manifest index c holder parsed s =
     (case handleBulkOpen holder c parsed (col_receiver s) of
        [Offers _ offer] \<Rightarrow> s\<lparr>col_receiver := snd (decide c offer (onOfferForIndex manifest index offer) (col_receiver s))\<rparr>
      | _ \<Rightarrow> s)"

definition readBackShard :: "shard_manifest \<Rightarrow> (bytes \<Rightarrow> bytes option) option \<Rightarrow> nat \<Rightarrow> 'c shard_collector \<Rightarrow> 'c shard_collector" where
  "readBackShard manifest decrypt k s =
     (if k \<ge> length (col_reading s) then s
      else let index = col_reading s ! k;
               s' = s\<lparr>col_reading := take k (col_reading s) @ drop (Suc k) (col_reading s)\<rparr>
           in case readStoredTransferBytes (br_storage (col_receiver s)) (sl_transferId (sm_shards manifest ! index)) of
                Inl e \<Rightarrow> settleResult (Err (ReadFailed e)) s'
              | Inr d \<Rightarrow> maybeFinish manifest decrypt (s'\<lparr>col_presented := jset (col_presented s') index d\<rparr>))"

definition collectorStep ::
    "(bytes \<Rightarrow> bytes) \<Rightarrow> shard_manifest \<Rightarrow> (bytes \<Rightarrow> bytes option) option \<Rightarrow> 'c collector_event \<Rightarrow> 'c shard_collector \<Rightarrow> 'c shard_collector" where
  "collectorStep digestOf manifest decrypt event s =
     (case event of
        OfferAt index c holder parsed \<Rightarrow> offerAt manifest index c holder parsed s
      | ShardFrame c frame \<Rightarrow>
          (case receiverOnFrame digestOf c frame (col_receiver s) of (fx, r) \<Rightarrow> completions fx (s\<lparr>col_receiver := r\<rparr>))
      | ReadBack k \<Rightarrow> readBackShard manifest decrypt k s)"

lemma singleChunkSource_content: "singleChunkSource chunk = contentSource [chunk]"
  by (auto simp: singleChunkSource_def contentSource_def fun_eq_iff drop_Cons')

text \<open>One push that throws keeps the manifest from being published, whatever became of the others.\<close>

lemma distributeFinish_throws: "None \<in> set pushes \<Longrightarrow> distributeFinish own entry pushes st = Err PushThrew"
proof -
  have "None \<in> set pushes \<Longrightarrow> those pushes = None" by (induction pushes) (auto split: option.splits)
  then show "None \<in> set pushes \<Longrightarrow> ?thesis" by (simp add: distributeFinish_def)
qed

subsection \<open>What a collector holds\<close>

abbreviation tidAt :: "shard_manifest \<Rightarrow> nat \<Rightarrow> bytes" where
  "tidAt manifest i \<equiv> sl_transferId (sm_shards manifest ! i)"

definition wholeAt :: "shard_manifest \<Rightarrow> bytes list \<Rightarrow> (string, bytes) jmap \<Rightarrow> nat \<Rightarrow> bool" where
  "wholeAt manifest shards st i \<longleftrightarrow> i < length shards \<and> jget st (openerKey (transferIdHex (tidAt manifest i))) \<noteq> None
     \<and> concat (take (readUint st (ackSeqKey (transferIdHex (tidAt manifest i)))) [shards ! i]) = shards ! i"

definition registered :: "shard_manifest \<Rightarrow> bytes list \<Rightarrow> (string, bytes) jmap \<Rightarrow> string \<times> 'c bulk_registration \<Rightarrow> bool" where
  "registered manifest shards st entry \<longleftrightarrow> (\<exists>i < length shards. fst entry = transferIdHex (tidAt manifest i)
     \<and> breg_onComplete (snd entry) = Some i \<and> jget st (openerKey (fst entry)) \<noteq> None)"

definition receiverOk :: "shard_manifest \<Rightarrow> bytes list \<Rightarrow> 'c bulk_receiver \<Rightarrow> bool" where
  "receiverOk manifest shards r \<longleftrightarrow>
     (\<forall>i < length shards. holdsPrefix [shards ! i] (tidAt manifest i) (br_storage r))
     \<and> list_all (registered manifest shards (br_storage r)) (br_registrations r)"

text \<open>Frames come from holders of genuine shards: data frames carry the shard, the end carries its digest.\<close>

definition honestFrame :: "(bytes \<Rightarrow> bytes) \<Rightarrow> shard_manifest \<Rightarrow> bytes list \<Rightarrow> bulk_frame \<Rightarrow> bool" where
  "honestFrame digestOf manifest shards f \<longleftrightarrow> (\<forall>i < length shards. frameOf [shards ! i] (tidAt manifest i) f
     \<and> (case f of BulkEnd j digest \<Rightarrow> j = tidAt manifest i \<longrightarrow> digest = digestOf (shards ! i) | _ \<Rightarrow> True))"

lemma concat_take_more: "concat (take m [x]) = x \<Longrightarrow> m \<le> m' \<Longrightarrow> concat (take m' [x]) = x"
  by (cases m; cases m') auto

lemma onBulkData_storage:
  "br_storage (snd (onBulkData c j seq chunk r)) =
     (if seq \<noteq> readAckSeq r (transferIdHex j) then br_storage r
      else jset (jset (br_storage r) (chunkKey (transferIdHex j) seq) chunk) (ackSeqKey (transferIdHex j)) (encodeUint (seq + 1)))"
  "br_registrations (snd (onBulkData c j seq chunk r)) = br_registrations r"
  by (simp_all add: onBulkData_def Let_def)

lemma wholeAt_data:
  "wholeAt manifest shards (br_storage r) i \<Longrightarrow> wholeAt manifest shards (br_storage (snd (onBulkData c j seq chunk r))) i"
  unfolding wholeAt_def onBulkData_storage
  by (cases "j = tidAt manifest i") (auto simp: readUint_jset readAckSeq_def intro: concat_take_more)

lemma registered_data:
  "registered manifest shards (br_storage r) e \<Longrightarrow> registered manifest shards (br_storage (snd (onBulkData c j seq chunk r))) e"
  unfolding registered_def onBulkData_storage by auto

lemma frame_receiverOk:
  assumes "receiverOk manifest shards r" and "honestFrame digestOf manifest shards f"
  shows "receiverOk manifest shards (snd (receiverOnFrame digestOf c f r))
    \<and> (\<forall>i. wholeAt manifest shards (br_storage r) i \<longrightarrow> wholeAt manifest shards (br_storage (snd (receiverOnFrame digestOf c f r))) i)"
proof (cases f)
  case (BulkData j seq chunk)
  have "receiverOk manifest shards (snd (onBulkData c j seq chunk r))"
    using assms unfolding BulkData receiverOk_def honestFrame_def onBulkData_storage(2) list_all_iff
    by (blast intro: registered_data holdsPrefix_data)
  then show ?thesis using BulkData assms(1) wholeAt_data by (auto simp: receiverOnFrame_def split: option.split)
qed (use assms in \<open>auto simp: receiverOnFrame_def split: option.split\<close>)

text \<open>An offer is taken only for a transfer nothing is stored of, so accepting it resets no shard.\<close>

lemma offer_receiverOk:
  assumes "receiverOk manifest shards r" and "length (sm_shards manifest) = length shards"
    and "jget (br_storage r) (openerKey (transferIdHex (of_transferId offer))) = None"
  shows "receiverOk manifest shards (snd (decide c offer (onOfferForIndex manifest index offer) r))
    \<and> (\<forall>i. wholeAt manifest shards (br_storage r) i \<longrightarrow>
         wholeAt manifest shards (br_storage (snd (decide c offer (onOfferForIndex manifest index offer) r))) i)"
proof (cases "index < length shards \<and> of_transferId offer = tidAt manifest index")
  case False
  then have "onOfferForIndex manifest index offer = Reject (Some ''shard offer does not match the manifest'')"
    using assms(2) by (simp add: onOfferForIndex_def)
  then show ?thesis using assms(1) by (simp add: decide_def)
next
  case True
  then obtain window where accept: "onOfferForIndex manifest index offer = Accept window (Some index)"
    using assms(2) by (simp add: onOfferForIndex_def)
  have whole: "of_transferId offer \<noteq> tidAt manifest i" if "wholeAt manifest shards (br_storage r) i" for i
    using that assms(3) by (auto simp: wholeAt_def)
  let ?r = "snd (decide c offer (Accept window (Some index)) r)"
  have old: "registered manifest shards (br_storage ?r) e" if "registered manifest shards (br_storage r) e" for e
    using that by (auto simp: registered_def decide_def Let_def)
  have new: "registered manifest shards (br_storage ?r)
      (transferIdHex (of_transferId offer), \<lparr>breg_openerDevice = of_openerDevice offer, breg_connection = c, breg_onComplete = Some index\<rparr>)"
    using True by (auto simp: registered_def decide_def Let_def)
  have "list_all (registered manifest shards (br_storage ?r)) (br_registrations r)"
    using assms(1) old unfolding receiverOk_def list_all_iff by blast
  from list_all_jset [OF this new] have "list_all (registered manifest shards (br_storage ?r)) (br_registrations ?r)"
    by (simp add: decide_def Let_def)
  then have "receiverOk manifest shards (snd (decide c offer (Accept window (Some index)) r))"
    using assms(1) by (auto simp: receiverOk_def intro: holdsPrefix_decide)
  moreover have "wholeAt manifest shards (br_storage (snd (decide c offer (Accept window (Some index)) r))) i"
    if "wholeAt manifest shards (br_storage r) i" for i
    using that whole [OF that] by (auto simp: wholeAt_def decide_def Let_def readUint_jset)
  ultimately show ?thesis by (simp add: accept)
qed

lemma completed_whole:
  assumes "receiverOk manifest shards r" and "honestFrame digestOf manifest shards f"
    and "\<forall>i < length shards. digestOf [] = digestOf (shards ! i) \<longrightarrow> shards ! i = []"
    and "Completes k True n \<in> set (fst (receiverOnFrame digestOf c f r))"
  shows "wholeAt manifest shards (br_storage r) k"
proof -
  obtain j digest reg where f: "f = BulkEnd j digest" and reg: "jget (br_registrations r) (transferIdHex j) = Some reg"
      and ended: "Completes k True n \<in> set (onBulkEnd digestOf reg j digest r)"
    using assms(4) by (auto simp: receiverOnFrame_def onBulkData_def Let_def split: bulk_frame.splits option.splits if_splits)
  obtain i where i: "i < length shards" "j = tidAt manifest i" "breg_onComplete reg = Some i"
      "jget (br_storage r) (openerKey (transferIdHex j)) \<noteq> None"
    using assms(1) map_of_SomeD [OF reg] by (auto simp: receiverOk_def list_all_iff registered_def transferIdHex_def)
  let ?a = "readUint (br_storage r) (ackSeqKey (transferIdHex j))"
  have holds: "holdsPrefix [shards ! i] j (br_storage r)" using assms(1) i by (simp add: receiverOk_def)
  have "k = i" "digestOf (concat (take ?a [shards ! i])) = digest"
    using ended i(3) holdsPrefix_stored(1) [OF holds refl] by (auto simp: onBulkEnd_def Let_def readAckSeq_def split: option.splits)
  moreover have "digest = digestOf (shards ! i)" using assms(2) i(1,2) f by (simp add: honestFrame_def)
  ultimately have "concat (take ?a [shards ! i]) = shards ! i" using assms(3) i(1) by (cases ?a) auto
  with i \<open>k = i\<close> show ?thesis by (simp add: wholeAt_def)
qed

subsection \<open>What a collector settles with\<close>

definition delivered :: "(bytes \<Rightarrow> bytes option) option \<Rightarrow> bytes \<Rightarrow> collect_error + bytes" where
  "delivered decrypt body =
     (case decrypt of
        None \<Rightarrow> Ok body
      | Some d \<Rightarrow> (case d body of None \<Rightarrow> Err DecryptFailed | Some plain \<Rightarrow> Ok plain))"

definition genuineShards :: "bytes list \<Rightarrow> (nat, bytes) jmap \<Rightarrow> bool" where
  "genuineShards shards presented \<longleftrightarrow> jwf presented \<and> list_all (\<lambda>(i, d). i < length shards \<and> d = shards ! i) presented"

definition collectorOk ::
    "shard_manifest \<Rightarrow> bytes list \<Rightarrow> collect_error + bytes \<Rightarrow> 'c shard_collector \<Rightarrow> bool" where
  "collectorOk manifest shards expected s \<longleftrightarrow>
     receiverOk manifest shards (col_receiver s)
     \<and> list_all (wholeAt manifest shards (br_storage (col_receiver s))) (col_reading s)
     \<and> genuineShards shards (col_presented s)
     \<and> col_result s = (if col_settled s then Some expected else None)
     \<and> col_settled s = (sm_threshold manifest \<le> int (length (col_presented s)))"

lemma reconstructed_delivers:
  assumes "encodeShards body config = Ok shards" and "sm_totalShards manifest = totalShards config"
    and "sm_threshold manifest = dataShards config" and "sm_originalLength manifest = int (length body)"
    and "genuineShards shards presented" and "sm_threshold manifest \<le> int (length presented)"
  shows "reconstructed manifest decrypt presented = delivered decrypt body"
proof -
  let ?chosen = "map (\<lambda>(i, d). \<lparr>shardIndex = int i, shardData = d\<rparr>) (take (nat (sm_threshold manifest)) presented)"
  have total: "length shards = nat (totalShards config)" using encodeShards_ok [of body config shards] assms(1) by simp
  have "map shardIndex ?chosen = map int (take (nat (sm_threshold manifest)) (jkeys presented))"
    by (auto simp: take_map)
  moreover have "distinct (take (nat (sm_threshold manifest)) (jkeys presented))" using assms(5) by (simp add: genuineShards_def jwf_def)
  ultimately have "distinct (map shardIndex ?chosen)" by (simp add: distinct_map)
  then have "decodeShards ?chosen config (length body) = Ok body"
    using assms(3,5,6) total by (intro decodeShards_encodeShards [OF assms(1)])
      (auto simp: genuineShards_def list_all_iff dest!: in_set_takeD)
  then show ?thesis using assms(2-4)
    by (cases config) (auto simp: reconstructed_def reconstructFromShards_def delivered_def split: option.splits)
qed

lemma wholeAt_read:
  assumes "receiverOk manifest shards r" and "wholeAt manifest shards (br_storage r) i"
  shows "readStoredTransferBytes (br_storage r) (tidAt manifest i) = Ok (shards ! i)" and "i < length shards"
proof -
  show "i < length shards" using assms(2) by (simp add: wholeAt_def)
  then have "holdsPrefix [shards ! i] (tidAt manifest i) (br_storage r)" using assms(1) by (simp add: receiverOk_def)
  from holdsPrefix_stored(2) [OF this refl, of 0] assms(2)
  show "readStoredTransferBytes (br_storage r) (tidAt manifest i) = Ok (shards ! i)"
    by (simp add: readStoredTransferBytes_def wholeAt_def)
qed

lemma jset_grows: "length m \<le> length (jset m k v)"
  by (induction m) auto

lemma readBack_ok:
  assumes "collectorOk manifest shards (delivered decrypt body) s"
    and "encodeShards body config = Ok shards" and "sm_totalShards manifest = totalShards config"
    and "sm_threshold manifest = dataShards config" and "sm_originalLength manifest = int (length body)"
  shows "collectorOk manifest shards (delivered decrypt body) (readBackShard manifest decrypt k s)"
proof (cases "k < length (col_reading s)")
  case True
  let ?i = "col_reading s ! k"
  let ?s = "s\<lparr>col_reading := take k (col_reading s) @ drop (Suc k) (col_reading s), col_presented := jset (col_presented s) ?i (shards ! ?i)\<rparr>"
  have receiver: "receiverOk manifest shards (col_receiver s)" and whole: "wholeAt manifest shards (br_storage (col_receiver s)) ?i"
    using assms(1) True by (auto simp: collectorOk_def list_all_length)
  note stored = wholeAt_read [OF receiver whole]
  have genuine: "genuineShards shards (jset (col_presented s) ?i (shards ! ?i))"
    using assms(1) stored(2) by (auto simp: collectorOk_def genuineShards_def intro!: list_all_jset)
  have reading: "list_all (wholeAt manifest shards (br_storage (col_receiver s))) (take k (col_reading s) @ drop (Suc k) (col_reading s))"
    using assms(1) by (auto simp: collectorOk_def list_all_iff dest: in_set_takeD in_set_dropD)
  have "collectorOk manifest shards (delivered decrypt body) (maybeFinish manifest decrypt ?s)"
    using assms(1) receiver genuine reading reconstructed_delivers [OF assms(2-5) genuine]
      jset_grows [of "col_presented s" ?i "shards ! ?i"]
    by (auto simp: maybeFinish_def settleResult_def collectorOk_def)
  then show ?thesis using True stored(1) by (simp add: readBackShard_def Let_def)
qed (use assms(1) in \<open>simp add: readBackShard_def\<close>)

lemma completions_ok:
  assumes "collectorOk manifest shards expected s"
    and "list_all (\<lambda>x. case x of Completes k ok n \<Rightarrow> ok \<longrightarrow> wholeAt manifest shards (br_storage (col_receiver s)) k | _ \<Rightarrow> True) fx"
  shows "collectorOk manifest shards expected (completions fx s)"
  using assms
proof (induction fx arbitrary: s)
  case (Cons x fx)
  have step: "collectorOk manifest shards expected (completions [x] s)" and same: "col_receiver (completions [x] s) = col_receiver s"
    using Cons.prems by (cases x; auto simp: completions_def onShardComplete_def collectorOk_def)+
  have "collectorOk manifest shards expected (completions fx (completions [x] s))"
    using Cons.prems(2) by (intro Cons.IH [OF step], unfold same) simp
  then show ?case by (simp add: completions_def)
qed (simp add: completions_def)

text \<open>Events of a collection from genuine holders: offers and read-backs are arbitrary.\<close>

definition honestEvent :: "(bytes \<Rightarrow> bytes) \<Rightarrow> shard_manifest \<Rightarrow> bytes list \<Rightarrow> 'c collector_event \<Rightarrow> bool" where
  "honestEvent digestOf manifest shards event \<longleftrightarrow> (case event of ShardFrame c f \<Rightarrow> honestFrame digestOf manifest shards f | _ \<Rightarrow> True)"

lemma offer_ok:
  assumes "collectorOk manifest shards expected s" and "length (sm_shards manifest) = length shards"
  shows "collectorOk manifest shards expected (offerAt manifest index c holder parsed s)"
proof (cases "\<exists>offer. handleBulkOpen holder c parsed (col_receiver s) = [Offers c offer]")
  case True
  then obtain offer where offer: "handleBulkOpen holder c parsed (col_receiver s) = [Offers c offer]" by blast
  then have "jget (br_storage (col_receiver s)) (openerKey (transferIdHex (of_transferId offer))) = None"
    by (auto simp: handleBulkOpen_def split: option.splits if_splits)
  from offer_receiverOk [OF _ assms(2) this] show ?thesis
    using assms(1) offer by (auto simp: offerAt_def collectorOk_def list_all_iff)
next
  case False
  then show ?thesis using assms(1) by (auto simp: offerAt_def handleBulkOpen_def split: option.splits if_splits)
qed

lemma frame_ok:
  assumes "collectorOk manifest shards expected s" and "honestFrame digestOf manifest shards f"
    and "\<forall>i < length shards. digestOf [] = digestOf (shards ! i) \<longrightarrow> shards ! i = []"
    and "receiverOnFrame digestOf c f (col_receiver s) = (fx, r)"
  shows "collectorOk manifest shards expected (completions fx (s\<lparr>col_receiver := r\<rparr>))"
proof (rule completions_ok)
  have receiver: "receiverOk manifest shards (col_receiver s)" using assms(1) by (simp add: collectorOk_def)
  note step = frame_receiverOk [OF receiver assms(2), of c, unfolded assms(4) snd_conv]
  show "collectorOk manifest shards expected (s\<lparr>col_receiver := r\<rparr>)"
    using assms(1) step by (auto simp: collectorOk_def list_all_iff)
  have "wholeAt manifest shards (br_storage r) k" if "Completes k True n \<in> set fx" for k n
    using completed_whole [OF receiver assms(2,3)] step assms(4) that by (metis fst_conv)
  then show "list_all (\<lambda>x. case x of Completes k ok n \<Rightarrow> ok \<longrightarrow> wholeAt manifest shards (br_storage (col_receiver (s\<lparr>col_receiver := r\<rparr>))) k | _ \<Rightarrow> True) fx"
    by (auto simp: list_all_iff split: bulk_effect.split)
qed

lemma run_ok:
  assumes "collectorOk manifest shards (delivered decrypt body) s" and "list_all (honestEvent digestOf manifest shards) events"
    and "length (sm_shards manifest) = length shards"
    and "\<forall>i < length shards. digestOf [] = digestOf (shards ! i) \<longrightarrow> shards ! i = []"
    and "encodeShards body config = Ok shards" and "sm_totalShards manifest = totalShards config"
    and "sm_threshold manifest = dataShards config" and "sm_originalLength manifest = int (length body)"
  shows "collectorOk manifest shards (delivered decrypt body) (fold (collectorStep digestOf manifest decrypt) events s)"
  using assms(1,2)
proof (induction events arbitrary: s)
  case (Cons e events)
  have "collectorOk manifest shards (delivered decrypt body) (collectorStep digestOf manifest decrypt e s)"
  proof (cases e)
    case (OfferAt index c holder parsed)
    then show ?thesis using offer_ok [OF Cons.prems(1) assms(3)] by (simp add: collectorStep_def)
  next
    case (ShardFrame c f)
    then have "honestFrame digestOf manifest shards f" using Cons.prems(2) by (simp add: honestEvent_def)
    from frame_ok [OF Cons.prems(1) this assms(4)] show ?thesis
      by (auto simp: collectorStep_def ShardFrame split: prod.split)
  next
    case (ReadBack k)
    then show ?thesis using readBack_ok [OF Cons.prems(1) assms(5-8)] by (simp add: collectorStep_def)
  qed
  then show ?case using Cons by simp
qed simp

text \<open>C22: a payload split over holders is delivered from any threshold of them. The sender's manifest entry
  decodes back to the manifest; and whatever offers, frames of genuine holders and read-backs a collector with
  none of these transfers in its storage meets, in any order and over any connections, it has settled exactly
  when the threshold of distinct shards has been read back, and then with the payload the sender split
  (decrypted where a decryptor is given), never with an error of reading or of reconstruction.
\<close>

theorem collector_reconstructs:
  assumes "splitForShardedDelivery enc body config contentType targets nextTransferId = Ok (manifest, shards, entry)"
    and "dec (enc (manifestJson manifest)) = Some (manifestJson manifest)"
    and "\<And>i. i < length shards \<Longrightarrow> jget storage (ackSeqKey (transferIdHex (nextTransferId i))) = None"
    and "\<And>i. i < length shards \<Longrightarrow> digestOf [] = digestOf (shards ! i) \<Longrightarrow> shards ! i = []"
    and "list_all (honestEvent digestOf manifest shards) events"
    and "s = fold (collectorStep digestOf manifest decrypt) events (createShardCollector storage)"
  shows "decodeShardManifest dec entry = Ok manifest
    \<and> col_result s = (if sm_threshold manifest \<le> int (length (col_presented s)) then Some (delivered decrypt body) else None)"
proof
  note split = split_Ok [OF assms(1)]
  show "decodeShardManifest dec entry = Ok manifest" using assms(2) split(2) by (rule manifest_roundtrip)
  have "1 \<le> sm_threshold manifest"
    using split(2) by (auto simp: encodeShardManifest_def validateManifest_def split: if_splits)
  then have "collectorOk manifest shards (delivered decrypt body) (createShardCollector storage)"
    using assms(3) split(6) by (auto simp: collectorOk_def createShardCollector_def receiverOk_def genuineShards_def
        intro!: holdsPrefix_init)
  from run_ok [OF this assms(5) _ _ split(1,3-5)] assms(4) split(6)
  have "collectorOk manifest shards (delivered decrypt body) s" unfolding assms(6) by simp
  then show "col_result s = (if sm_threshold manifest \<le> int (length (col_presented s)) then Some (delivered decrypt body) else None)"
    by (auto simp: collectorOk_def)
qed

definition c_config :: shard_config where
  "c_config = \<lparr>dataShards = 1, totalShards = 2\<rparr>"

definition c_manifest :: shard_manifest where
  "c_manifest = \<lparr>sm_totalShards = 2, sm_threshold = 1, sm_contentType = ''text/plain'', sm_originalLength = 2,
     sm_shards = [\<lparr>sl_device = [1], sl_transferId = [0]\<rparr>, \<lparr>sl_device = [2], sl_transferId = [1]\<rparr>]\<rparr>"

definition c_shards :: "bytes list" where
  "c_shards = map (shardOf [7, 8] 1) [0, 1]"

definition c_events :: "nat collector_event list" where
  "c_events = [OfferAt 1 0 [2] (Some ([1], Some 2, None)), ShardFrame 0 (BulkData [1] 0 (c_shards ! 1)),
     ShardFrame 0 (BulkEnd [1] (c_shards ! 1)), ReadBack 0]"

lemma c_encode: "encodeShards [7, 8] c_config = Ok c_shards"
  by (simp add: encodeShards_ok c_config_def c_shards_def validateConfig_def GF_MAX_SHARDS_def upt_rec)

lemma c_split: "splitForShardedDelivery (\<lambda>_. []) [7, 8] c_config ''text/plain'' [[1], [2]] (\<lambda>i. [of_nat i]) = Ok (c_manifest, c_shards, [])"
  unfolding splitForShardedDelivery_def c_encode
  by (simp add: c_shards_def c_config_def c_manifest_def shardLocations_Ok encodeShardManifest_def validateManifest_def)

lemma c_honest: "list_all (honestEvent (\<lambda>x. x) c_manifest c_shards) c_events"
  by (simp add: c_events_def honestEvent_def honestFrame_def c_manifest_def c_shards_def frameOf_def less_Suc_eq all_conj_distrib)

lemma c_run: "length (col_presented (fold (collectorStep (\<lambda>x. x) c_manifest None) c_events (createShardCollector []))) = 1"
  by (simp add: c_events_def c_manifest_def collectorStep_def offerAt_def createShardCollector_def handleBulkOpen_def onOfferForIndex_def
      decide_def Let_def receiverOnFrame_def onBulkData_def onBulkEnd_def readAckSeq_def readUint_jset readUint_def completions_def
      onShardComplete_def readBackShard_def storedChunks_def List.map_filter_def readStoredTransferBytes_def storedTransferSource_def maybeFinish_def settleResult_def)

theorem collector_reconstructs_witness:
  "decodeShardManifest (\<lambda>_. Some (manifestJson c_manifest)) [] = Ok c_manifest
    \<and> col_result (fold (collectorStep (\<lambda>x. x) c_manifest None) c_events (createShardCollector [])) = Some (Ok [7, 8])"
proof -
  let ?s = "fold (collectorStep (\<lambda>x. x) c_manifest None) c_events (createShardCollector [])"
  have "decodeShardManifest (\<lambda>_. Some (manifestJson c_manifest)) [] = Ok c_manifest
    \<and> col_result ?s = (if sm_threshold c_manifest \<le> int (length (col_presented ?s)) then Some (delivered None [7, 8]) else None)"
    by (rule collector_reconstructs [OF c_split _ _ _ c_honest, where storage = "[]"]) simp_all
  then show ?thesis using c_run by (simp add: c_manifest_def delivered_def)
qed

end
