(* ===== verification/FrameStreams.thy ===== *)
theory FrameStreams
  imports WM_Prelude
begin

text \<open>
  Frames on byte streams and in messages: \<open>frame-codec.ts\<close>, \<open>byte-stream-connection.ts\<close>, and the framing of
  \<open>tcp-transport.ts\<close> and \<open>tls-transport.ts\<close> (one text in both), all under \<open>ts/packages/core/src/adapters/\<close>. The CBOR
  coder and the generated frame schema are a record of functions; sockets and streams are the chunks that
  arrive, in whatever sizes.
\<close>

subsection \<open>The codec\<close>

record ('f, 'j) frame_codec =
  fc_encode :: "'f \<Rightarrow> bytes"
  fc_decode :: "bytes \<Rightarrow> 'j option"
  fc_schema :: "'j \<Rightarrow> 'f option"

datatype 'f body_result = DecodedFrame 'f | SchemaInvalid | DecodeFailed

definition messageFromFrame :: "('f, 'j) frame_codec \<Rightarrow> 'f \<Rightarrow> bytes" where
  "messageFromFrame codec f = fc_encode codec f"

definition decodeMessage :: "('f, 'j) frame_codec \<Rightarrow> bytes \<Rightarrow> 'f body_result" where
  "decodeMessage codec data =
     (case fc_decode codec data of
        None \<Rightarrow> DecodeFailed
      | Some decoded \<Rightarrow> (case fc_schema codec decoded of None \<Rightarrow> SchemaInvalid | Some f \<Rightarrow> DecodedFrame f))"

definition tryDecodeFrame :: "('f, 'j) frame_codec \<Rightarrow> bytes \<Rightarrow> 'f option" where
  "tryDecodeFrame codec data = Option.bind (fc_decode codec data) (fc_schema codec)"

subsection \<open>Length prefixes\<close>

definition LENGTH_PREFIX_BYTES :: nat where "LENGTH_PREFIX_BYTES = 4"

definition MAX_FRAME_BYTES :: nat where "MAX_FRAME_BYTES = 100 * (1024 * 1024)"

definition STREAM_OPEN_MARKER :: bytes where "STREAM_OPEN_MARKER = replicate LENGTH_PREFIX_BYTES 0"

text \<open>\<open>DataView.setUint32\<close> keeps the low 32 bits; \<open>getUint32\<close> reads the first four bytes.\<close>

definition setUint32 :: "nat \<Rightarrow> bytes" where
  "setUint32 n = [of_nat (n div 2 ^ 24), of_nat (n div 2 ^ 16), of_nat (n div 2 ^ 8), of_nat n]"

definition getUint32 :: "bytes \<Rightarrow> nat" where
  "getUint32 b = unat (b ! 0) * 2 ^ 24 + unat (b ! 1) * 2 ^ 16 + unat (b ! 2) * 2 ^ 8 + unat (b ! 3)"

definition encodeLengthPrefixedFrame :: "('f, 'j) frame_codec \<Rightarrow> 'f \<Rightarrow> bytes" where
  "encodeLengthPrefixedFrame codec f = (let body = fc_encode codec f in setUint32 (length body) @ body)"

text \<open>\<open>Buffer.writeUInt32BE\<close> throws (\<open>None\<close>) instead of wrapping.\<close>

definition writeFrame :: "('f, 'j) frame_codec \<Rightarrow> 'f \<Rightarrow> bytes list option" where
  "writeFrame codec f =
     (let body = fc_encode codec f in if length body \<ge> 2 ^ 32 then None else Some [setUint32 (length body), body])"

subsection \<open>Reading a byte stream\<close>

text \<open>
  The inner loop of \<open>readFrames\<close>: the frames it yields, what stays buffered, and whether it throws.
\<close>

function (sequential) readBuffered :: "('f, 'j) frame_codec \<Rightarrow> bytes \<Rightarrow> 'f list \<times> bytes \<times> bool" where
  "readBuffered codec buffered =
     (if length buffered < LENGTH_PREFIX_BYTES then ([], buffered, False)
      else let bodyLength = getUint32 buffered
           in if bodyLength > MAX_FRAME_BYTES then ([], buffered, True)
              else if length buffered < LENGTH_PREFIX_BYTES + bodyLength then ([], buffered, False)
              else if bodyLength = 0 then readBuffered codec (drop LENGTH_PREFIX_BYTES buffered)
              else case decodeMessage codec (take bodyLength (drop LENGTH_PREFIX_BYTES buffered)) of
                     DecodeFailed \<Rightarrow> ([], drop (LENGTH_PREFIX_BYTES + bodyLength) buffered, True)
                   | SchemaInvalid \<Rightarrow> readBuffered codec (drop (LENGTH_PREFIX_BYTES + bodyLength) buffered)
                   | DecodedFrame f \<Rightarrow>
                       (case readBuffered codec (drop (LENGTH_PREFIX_BYTES + bodyLength) buffered) of
                          (fs, rest, failed) \<Rightarrow> (f # fs, rest, failed)))"
  by pat_completeness auto
termination by (relation "measure (\<lambda>(_, buffered). length buffered)") (auto simp: LENGTH_PREFIX_BYTES_def)

declare readBuffered.simps [simp del]

fun readFrames :: "('f, 'j) frame_codec \<Rightarrow> bytes \<Rightarrow> bytes list \<Rightarrow> 'f list \<times> bool" where
  "readFrames codec buffered [] = ([], False)"
| "readFrames codec buffered (chunk # chunks) =
     (case readBuffered codec (buffered @ chunk) of
        (fs, rest, True) \<Rightarrow> (fs, True)
      | (fs, rest, False) \<Rightarrow> (case readFrames codec rest chunks of (gs, failed) \<Rightarrow> (fs @ gs, failed)))"

text \<open>What \<open>connectionFromByteStream\<close> writes for the frames sent over it, in order.\<close>

definition streamBytes :: "('f, 'j) frame_codec \<Rightarrow> bool \<Rightarrow> 'f list \<Rightarrow> bytes" where
  "streamBytes codec opened fs =
     (if opened then STREAM_OPEN_MARKER else []) @ concat (map (encodeLengthPrefixedFrame codec) fs)"

subsection \<open>Reading a socket\<close>

text \<open>
  \<open>frameReader\<close>: frames nobody has asked for wait in \<open>fr_queued\<close>, calls of \<open>next\<close> that found none in
  \<open>fr_waiters\<close>, by their number.
\<close>

record 'f frame_reader =
  fr_buffer :: bytes
  fr_queued :: "'f list"
  fr_waiters :: "nat list"
  fr_ended :: bool
  fr_failed :: bool
  fr_nextCall :: nat

definition createFrameReader :: "'f frame_reader" where
  "createFrameReader = \<lparr>fr_buffer = [], fr_queued = [], fr_waiters = [], fr_ended = False, fr_failed = False, fr_nextCall = 0\<rparr>"

datatype 'f reader_effect = Yields nat 'f | Finishes nat | Rejects nat | DestroysSocket

definition deliver :: "'f \<Rightarrow> 'f frame_reader \<Rightarrow> 'f reader_effect list \<times> 'f frame_reader" where
  "deliver f r =
     (case fr_waiters r of
        [] \<Rightarrow> ([], r\<lparr>fr_queued := fr_queued r @ [f]\<rparr>)
      | w # ws \<Rightarrow> ([Yields w f], r\<lparr>fr_waiters := ws\<rparr>))"

definition endAll :: "'f frame_reader \<Rightarrow> 'f reader_effect list \<times> 'f frame_reader" where
  "endAll r = (map Finishes (fr_waiters r), r\<lparr>fr_ended := True, fr_waiters := []\<rparr>)"

definition failAll :: "'f frame_reader \<Rightarrow> 'f reader_effect list \<times> 'f frame_reader" where
  "failAll r = (map Rejects (fr_waiters r), r\<lparr>fr_failed := True, fr_ended := True, fr_waiters := []\<rparr>)"

function (sequential) tryDrain :: "('f, 'j) frame_codec \<Rightarrow> 'f frame_reader \<Rightarrow> 'f reader_effect list \<times> 'f frame_reader" where
  "tryDrain codec r =
     (if length (fr_buffer r) < LENGTH_PREFIX_BYTES then ([], r)
      else let bodyLength = getUint32 (fr_buffer r)
           in if length (fr_buffer r) < LENGTH_PREFIX_BYTES + bodyLength then ([], r)
              else let body = take bodyLength (drop LENGTH_PREFIX_BYTES (fr_buffer r));
                       r' = r\<lparr>fr_buffer := drop (LENGTH_PREFIX_BYTES + bodyLength) (fr_buffer r)\<rparr>
                   in case decodeMessage codec body of
                        DecodeFailed \<Rightarrow> (case failAll r' of (fx, r'') \<Rightarrow> (fx @ [DestroysSocket], r''))
                      | SchemaInvalid \<Rightarrow> tryDrain codec r'
                      | DecodedFrame f \<Rightarrow>
                          (case tryDrain codec (snd (deliver f r')) of (gx, r'') \<Rightarrow> (fst (deliver f r') @ gx, r'')))"
  by pat_completeness auto
termination
  by (relation "measure (\<lambda>(_, r). length (fr_buffer r))")
    (auto simp: LENGTH_PREFIX_BYTES_def deliver_def split: list.splits)

declare tryDrain.simps [simp del]

definition onData :: "('f, 'j) frame_codec \<Rightarrow> bytes \<Rightarrow> 'f frame_reader \<Rightarrow> 'f reader_effect list \<times> 'f frame_reader" where
  "onData codec chunk r = tryDrain codec (r\<lparr>fr_buffer := fr_buffer r @ chunk\<rparr>)"

definition nextFrame :: "'f frame_reader \<Rightarrow> 'f reader_effect list \<times> 'f frame_reader" where
  "nextFrame r =
     (let i = fr_nextCall r; r' = r\<lparr>fr_nextCall := Suc i\<rparr>
      in case fr_queued r of
           f # fs \<Rightarrow> ([Yields i f], r'\<lparr>fr_queued := fs\<rparr>)
         | [] \<Rightarrow> if fr_failed r then ([Rejects i], r')
                 else if fr_ended r then ([Finishes i], r')
                 else ([], r'\<lparr>fr_waiters := fr_waiters r @ [i]\<rparr>))"

datatype reader_event = BytesArrive bytes | StreamCloses | NextCalled

definition readerStep :: "('f, 'j) frame_codec \<Rightarrow> reader_event \<Rightarrow> 'f frame_reader \<Rightarrow> 'f reader_effect list \<times> 'f frame_reader" where
  "readerStep codec event r =
     (case event of BytesArrive chunk \<Rightarrow> onData codec chunk r | StreamCloses \<Rightarrow> endAll r | NextCalled \<Rightarrow> nextFrame r)"

fun readerRun :: "('f, 'j) frame_codec \<Rightarrow> reader_event list \<Rightarrow> 'f frame_reader \<Rightarrow> 'f reader_effect list \<times> 'f frame_reader" where
  "readerRun codec [] r = ([], r)"
| "readerRun codec (e # es) r =
     (case readerStep codec e r of (fx, r') \<Rightarrow> (case readerRun codec es r' of (gx, r'') \<Rightarrow> (fx @ gx, r'')))"

subsection \<open>Addresses\<close>

text \<open>\<open>lastIndexOf(":")\<close> and the two slices around it; \<open>toNumber\<close> is JavaScript's \<open>Number\<close>.\<close>

definition parseAddress :: "(string \<Rightarrow> 'n) \<Rightarrow> string \<Rightarrow> (string \<times> 'n) option" where
  "parseAddress toNumber address =
     (if CHR '':'' \<notin> set address then None
      else let port = takeWhile (\<lambda>c. c \<noteq> CHR '':'') (rev address)
           in Some (take (length address - length port - 1) address, toNumber (rev port)))"

end
