(* ===== verification/FrameStreamProperties.thy ===== *)
theory FrameStreamProperties
  imports FrameStreams "HOL-Library.Sublist"
begin

text \<open>
  Both readers cut a stream where the writers joined it, however the bytes were chunked on the way: the
  frames come out in order, none is lost, none is made up.
\<close>

subsection \<open>Length prefixes\<close>

lemma setUint32_length [simp]: "length (setUint32 n) = LENGTH_PREFIX_BYTES"
  by (simp add: setUint32_def LENGTH_PREFIX_BYTES_def)

lemma getUint32_append: "LENGTH_PREFIX_BYTES \<le> length b \<Longrightarrow> getUint32 (b @ c) = getUint32 b"
  by (auto simp: getUint32_def LENGTH_PREFIX_BYTES_def nth_append)

lemma getUint32_setUint32:
  assumes "n < 2 ^ 32"
  shows "getUint32 (setUint32 n @ c) = n"
proof -
  have byte: "unat (of_nat m :: byte) = m mod 256" for m by (simp add: unat_of_nat)
  have "n = 256 * (n div 256) + n mod 256" by simp
  moreover have "n div 256 = 256 * (n div 65536) + n div 256 mod 256" by (simp add: div_mult2_eq [of n 256 256, simplified])
  moreover have "n div 65536 = 256 * (n div 16777216) + n div 65536 mod 256" by (simp add: div_mult2_eq [of n 65536 256, simplified])
  moreover have top: "n div 16777216 mod 256 = n div 16777216" using assms by simp
  ultimately have "(n div 16777216) * 16777216 + (n div 65536 mod 256) * 65536 + (n div 256 mod 256) * 256 + n mod 256 = n" by linarith
  then show ?thesis by (simp add: getUint32_def setUint32_def byte top)
qed

subsection \<open>Cutting a stream\<close>

definition continue :: "'f list \<Rightarrow> 'f list \<times> bytes \<times> bool \<Rightarrow> 'f list \<times> bytes \<times> bool" where
  "continue fs result = (case result of (gs, rest, failed) \<Rightarrow> (fs @ gs, rest, failed))"

lemma continue_simps [simp]: "continue [] x = x" "continue fs (continue gs x) = continue (fs @ gs) x"
  "fst (continue fs x) = fs @ fst x" "fst (snd (continue fs x)) = fst (snd x)" "snd (snd (continue fs x)) = snd (snd x)"
  by (auto simp: continue_def split: prod.splits)

definition framed :: "(nat \<Rightarrow> bool) \<Rightarrow> (bytes \<Rightarrow> 'f body_result) \<Rightarrow> 'f \<Rightarrow> bytes \<Rightarrow> bool" where
  "framed tooLong body f x \<longleftrightarrow> LENGTH_PREFIX_BYTES \<le> length x \<and> getUint32 x = length x - LENGTH_PREFIX_BYTES
     \<and> \<not> tooLong (getUint32 x) \<and> body (drop LENGTH_PREFIX_BYTES x) = DecodedFrame f"

text \<open>The loop that both readers run over what is buffered.\<close>

locale length_prefixed =
  fixes drain :: "bytes \<Rightarrow> 'f list \<times> bytes \<times> bool" and tooLong :: "nat \<Rightarrow> bool" and body :: "bytes \<Rightarrow> 'f body_result"
  assumes drain_eq: "drain b =
    (if length b < LENGTH_PREFIX_BYTES then ([], b, False)
     else if tooLong (getUint32 b) then ([], b, True)
     else if length b < LENGTH_PREFIX_BYTES + getUint32 b then ([], b, False)
     else case body (take (getUint32 b) (drop LENGTH_PREFIX_BYTES b)) of
            DecodeFailed \<Rightarrow> ([], drop (LENGTH_PREFIX_BYTES + getUint32 b) b, True)
          | SchemaInvalid \<Rightarrow> drain (drop (LENGTH_PREFIX_BYTES + getUint32 b) b)
          | DecodedFrame f \<Rightarrow> (case drain (drop (LENGTH_PREFIX_BYTES + getUint32 b) b) of (fs, rest, failed) \<Rightarrow> (f # fs, rest, failed)))"
begin

lemma drain_step: "drain b =
    (if length b < LENGTH_PREFIX_BYTES then ([], b, False)
     else if tooLong (getUint32 b) then ([], b, True)
     else if length b < LENGTH_PREFIX_BYTES + getUint32 b then ([], b, False)
     else case body (take (getUint32 b) (drop LENGTH_PREFIX_BYTES b)) of
            DecodeFailed \<Rightarrow> ([], drop (LENGTH_PREFIX_BYTES + getUint32 b) b, True)
          | SchemaInvalid \<Rightarrow> drain (drop (LENGTH_PREFIX_BYTES + getUint32 b) b)
          | DecodedFrame f \<Rightarrow> continue [f] (drain (drop (LENGTH_PREFIX_BYTES + getUint32 b) b)))"
  by (subst drain_eq) (auto simp: continue_def split: body_result.split prod.split)

text \<open>A buffer cut first and continued later gives what cutting it at once gives.\<close>

lemma drain_append:
  "drain b = (fs, rest, False) \<Longrightarrow> drain (b @ c) = continue fs (drain (rest @ c))"
  "drain b = (fs, rest, True) \<Longrightarrow> \<exists>r. drain (b @ c) = (fs, r, True)"
proof (induction "length b" arbitrary: b fs rule: less_induct)
  case less
  let ?n = "getUint32 b"
  let ?tail = "drop (LENGTH_PREFIX_BYTES + ?n) b"
  {
    case 1
    show ?case
    proof (cases "length b < LENGTH_PREFIX_BYTES \<or> length b < LENGTH_PREFIX_BYTES + ?n")
      case True
      then show ?thesis using 1 by (auto simp: drain_step [of b] split: if_splits)
    next
      case False
      then have len: "LENGTH_PREFIX_BYTES \<le> length b" "\<not> length b < LENGTH_PREFIX_BYTES" "\<not> length (b @ c) < LENGTH_PREFIX_BYTES"
        "\<not> length b < LENGTH_PREFIX_BYTES + ?n" "\<not> length (b @ c) < LENGTH_PREFIX_BYTES + ?n" by auto
      have "length ?tail < length b" using False by (auto simp: LENGTH_PREFIX_BYTES_def)
      note IH = less(1) [OF this]
      show ?thesis
        using 1 len IH by (auto simp: drain_step [of b] drain_step [of "b @ c"] getUint32_append continue_def split: if_splits body_result.splits prod.splits)
    qed
  next
    case 2
    show ?case
    proof (cases "length b < LENGTH_PREFIX_BYTES \<or> tooLong ?n \<or> length b < LENGTH_PREFIX_BYTES + ?n")
      case True
      then show ?thesis using 2 by (auto simp: drain_step [of b] drain_step [of "b @ c"] getUint32_append split: if_splits)
    next
      case False
      then have len: "LENGTH_PREFIX_BYTES \<le> length b" "\<not> length b < LENGTH_PREFIX_BYTES" "\<not> length (b @ c) < LENGTH_PREFIX_BYTES"
        "\<not> length b < LENGTH_PREFIX_BYTES + ?n" "\<not> length (b @ c) < LENGTH_PREFIX_BYTES + ?n" by auto
      have "length ?tail < length b" using False by (auto simp: LENGTH_PREFIX_BYTES_def)
      note IH = less(2) [OF this]
      show ?thesis
        using 2 len IH False by (fastforce simp: drain_step [of b] drain_step [of "b @ c"] getUint32_append continue_def split: if_splits body_result.splits prod.splits)
    qed
  }
qed

lemma drain_rest: "drain b = (fs, rest, False) \<Longrightarrow> drain rest = ([], rest, False)"
proof (induction "length b" arbitrary: b fs rule: less_induct)
  case less
  let ?tail = "drop (LENGTH_PREFIX_BYTES + getUint32 b) b"
  show ?case
  proof (cases "length b < LENGTH_PREFIX_BYTES \<or> length b < LENGTH_PREFIX_BYTES + getUint32 b")
    case True
    with less.prems have "rest = b" "fs = []" by (auto simp: drain_step [of b] split: if_splits)
    with less.prems show ?thesis by simp
  next
    case False
    have "length ?tail < length b" using False by (auto simp: LENGTH_PREFIX_BYTES_def)
    note IH = less.hyps [OF this]
    obtain gs where "drain ?tail = (gs, rest, False)"
      using less.prems False by (auto simp: drain_step [of b] continue_def split: if_splits body_result.splits prod.splits)
    from IH [OF this] show ?thesis .
  qed
qed

lemma drain_framed: "framed tooLong body f x \<Longrightarrow> drain (x @ c) = continue [f] (drain c)"
  by (auto simp: framed_def drain_step [of "x @ c"] getUint32_append)

lemma drain_stream: "list_all (\<lambda>f. framed tooLong body f (enc f)) fs \<Longrightarrow> drain (concat (map enc fs) @ c) = continue fs (drain c)"
  by (induction fs) (auto simp: drain_framed)

lemma drain_empty [simp]: "drain [] = ([], [], False)"
  by (simp add: drain_step LENGTH_PREFIX_BYTES_def)

text \<open>A part of a stream gives a part of its frames, and no failure.\<close>

lemma drain_prefix:
  assumes "drain y = (fs, rest, False)" and "prefix b y"
  shows "prefix (fst (drain b)) fs \<and> \<not> snd (snd (drain b))"
proof -
  from assms(2) obtain c where y: "y = b @ c" by (auto simp: prefix_def)
  obtain gs r failed where b: "drain b = (gs, r, failed)" by (metis prod_cases3)
  show ?thesis using assms(1) drain_append [of b gs r c] b
    by (cases failed) (auto simp: y continue_def split: prod.splits)
qed

end

interpretation byteStream: length_prefixed "readBuffered codec" "\<lambda>n. n > MAX_FRAME_BYTES"
    "\<lambda>b. if b = [] then SchemaInvalid else decodeMessage codec b" for codec
  by unfold_locales (subst readBuffered.simps, auto simp: Let_def LENGTH_PREFIX_BYTES_def split: body_result.split)

lemma readFrames_drain:
  "readBuffered codec b = ([], b, False) \<Longrightarrow>
     readFrames codec b chunks = (fst (readBuffered codec (b @ concat chunks)), snd (snd (readBuffered codec (b @ concat chunks))))"
proof (induction chunks arbitrary: b)
  case (Cons chunk chunks)
  obtain fs rest failed where r: "readBuffered codec (b @ chunk) = (fs, rest, failed)" by (metis prod_cases3)
  show ?case
  proof (cases failed)
    case False
    with r have "readBuffered codec rest = ([], rest, False)" using byteStream.drain_rest [of codec "b @ chunk"] by simp
    from Cons.IH [OF this] r False show ?thesis using byteStream.drain_append(1) [of codec "b @ chunk" fs rest "concat chunks"]
      by simp
  next
    case True
    then show ?thesis using r byteStream.drain_append(2) [of codec "b @ chunk" fs rest "concat chunks"] by auto
  qed
qed simp

definition sendable :: "('f, 'j) frame_codec \<Rightarrow> nat \<Rightarrow> 'f \<Rightarrow> bool" where
  "sendable codec limit f \<longleftrightarrow> decodeMessage codec (fc_encode codec f) = DecodedFrame f
     \<and> fc_encode codec f \<noteq> [] \<and> length (fc_encode codec f) \<le> limit"

lemma sendable_framed:
  "sendable codec MAX_FRAME_BYTES f \<Longrightarrow>
     framed (\<lambda>n. n > MAX_FRAME_BYTES) (\<lambda>b. if b = [] then SchemaInvalid else decodeMessage codec b) f (encodeLengthPrefixedFrame codec f)"
  by (auto simp: framed_def sendable_def encodeLengthPrefixedFrame_def Let_def getUint32_setUint32 MAX_FRAME_BYTES_def)

lemma marker_bytes: "STREAM_OPEN_MARKER = [0, 0, 0, 0]"
  by (simp add: STREAM_OPEN_MARKER_def LENGTH_PREFIX_BYTES_def eval_nat_numeral)

lemma stream_opening: "readBuffered codec (STREAM_OPEN_MARKER @ c) = readBuffered codec c"
proof -
  have "getUint32 (STREAM_OPEN_MARKER @ c) = 0"
    by (simp add: marker_bytes getUint32_def)
  then show ?thesis by (subst readBuffered.simps) (simp add: marker_bytes LENGTH_PREFIX_BYTES_def)
qed

lemma streamBytes_drain: "list_all (sendable codec MAX_FRAME_BYTES) fs \<Longrightarrow> readBuffered codec (streamBytes codec opened fs) = (fs, [], False)"
  using byteStream.drain_stream [of codec "encodeLengthPrefixedFrame codec" fs "[]"]
  by (auto simp: streamBytes_def stream_opening list_all_iff sendable_framed continue_def)

text \<open>frames sent over a byte stream arrive. Whatever part of what was written has arrived, and however it
  was cut into chunks, the reader has yielded the first of the frames, in order, without failing; when all
  of it has arrived it has yielded all of them. The marker that opens a stream yields nothing.
\<close>

theorem byte_stream_delivers:
  assumes "list_all (sendable codec MAX_FRAME_BYTES) fs" and "prefix (concat chunks) (streamBytes codec opened fs)"
  shows "prefix (fst (readFrames codec [] chunks)) fs \<and> \<not> snd (readFrames codec [] chunks)
    \<and> (concat chunks = streamBytes codec opened fs \<longrightarrow> readFrames codec [] chunks = (fs, False))"
proof -
  note whole = streamBytes_drain [OF assms(1), of opened]
  show ?thesis
    using byteStream.drain_prefix [OF whole assms(2)] whole readFrames_drain [of codec "[]" chunks] by simp
qed

definition bs_codec :: "(bool, bool) frame_codec" where
  "bs_codec = \<lparr>fc_encode = (\<lambda>b. if b then [7, 7] else [9]), fc_decode = (\<lambda>x. Some (x = [7, 7])), fc_schema = Some\<rparr>"

theorem byte_stream_delivers_witness:
  "readFrames bs_codec [] [[0, 0, 0], [0, 0, 0, 0, 2, 7], [7, 0, 0, 0, 1, 9]] = ([True, False], False)"
proof -
  have "concat [[0, 0, 0], [0, 0, 0, 0, 2, 7], [7, 0, 0, 0, 1, 9]] = streamBytes bs_codec True [True, False]"
    by (simp add: streamBytes_def marker_bytes encodeLengthPrefixedFrame_def setUint32_def bs_codec_def)
  moreover have "list_all (sendable bs_codec MAX_FRAME_BYTES) [True, False]"
    by (simp add: sendable_def bs_codec_def decodeMessage_def MAX_FRAME_BYTES_def)
  ultimately show ?thesis using byte_stream_delivers [of bs_codec "[True, False]" "[[0, 0, 0], [0, 0, 0, 0, 2, 7], [7, 0, 0, 0, 1, 9]]" True]
    by simp
qed

subsection \<open>The socket reader\<close>

text \<open>What a socket's bytes hold, as the reader cuts them: without a limit, and with an empty body decoded like any other.\<close>

function (sequential) socketFrames :: "('f, 'j) frame_codec \<Rightarrow> bytes \<Rightarrow> 'f list \<times> bytes \<times> bool" where
  "socketFrames codec b =
     (if length b < LENGTH_PREFIX_BYTES then ([], b, False)
      else if length b < LENGTH_PREFIX_BYTES + getUint32 b then ([], b, False)
      else case decodeMessage codec (take (getUint32 b) (drop LENGTH_PREFIX_BYTES b)) of
             DecodeFailed \<Rightarrow> ([], drop (LENGTH_PREFIX_BYTES + getUint32 b) b, True)
           | SchemaInvalid \<Rightarrow> socketFrames codec (drop (LENGTH_PREFIX_BYTES + getUint32 b) b)
           | DecodedFrame f \<Rightarrow>
               (case socketFrames codec (drop (LENGTH_PREFIX_BYTES + getUint32 b) b) of (fs, rest, failed) \<Rightarrow> (f # fs, rest, failed)))"
  by pat_completeness auto
termination by (relation "measure (\<lambda>(_, b). length b)") (auto simp: LENGTH_PREFIX_BYTES_def)

declare socketFrames.simps [simp del]

interpretation socket: length_prefixed "socketFrames codec" "\<lambda>_. False" "decodeMessage codec" for codec
  by unfold_locales (subst socketFrames.simps, simp)

fun deliverAll :: "'f list \<Rightarrow> 'f frame_reader \<Rightarrow> 'f reader_effect list \<times> 'f frame_reader" where
  "deliverAll [] r = ([], r)"
| "deliverAll (f # fs) r = (case deliverAll fs (snd (deliver f r)) of (gx, r') \<Rightarrow> (fst (deliver f r) @ gx, r'))"

lemma deliver_buffer:
  "fst (deliver f (r\<lparr>fr_buffer := b\<rparr>)) = fst (deliver f r)"
  "snd (deliver f (r\<lparr>fr_buffer := b\<rparr>)) = (snd (deliver f r))\<lparr>fr_buffer := b\<rparr>"
  "fr_buffer (snd (deliver f r)) = fr_buffer r"
  by (auto simp: deliver_def split: list.splits)

lemma deliverAll_buffer:
  "fst (deliverAll fs (r\<lparr>fr_buffer := b\<rparr>)) = fst (deliverAll fs r)"
  "snd (deliverAll fs (r\<lparr>fr_buffer := b\<rparr>)) = (snd (deliverAll fs r))\<lparr>fr_buffer := b\<rparr>"
  by (induction fs arbitrary: r) (simp_all add: deliver_buffer case_prod_beta)

lemma tryDrain_socket:
  "socketFrames codec (fr_buffer r) = (gs, rest, False) \<Longrightarrow>
     tryDrain codec r = (fst (deliverAll gs r), (snd (deliverAll gs r))\<lparr>fr_buffer := rest\<rparr>)"
proof (induction "length (fr_buffer r)" arbitrary: r gs rule: less_induct)
  case less
  let ?n = "getUint32 (fr_buffer r)"
  let ?tail = "drop (LENGTH_PREFIX_BYTES + ?n) (fr_buffer r)"
  show ?case
  proof (cases "length (fr_buffer r) < LENGTH_PREFIX_BYTES \<or> length (fr_buffer r) < LENGTH_PREFIX_BYTES + ?n")
    case True
    with less.prems have "gs = []" "rest = fr_buffer r" by (auto simp: socketFrames.simps [of codec "fr_buffer r"] split: if_splits)
    with True show ?thesis by (subst tryDrain.simps) (auto simp: Let_def)
  next
    case False
    then have shorter: "length ?tail < length (fr_buffer r)" by (auto simp: LENGTH_PREFIX_BYTES_def)
    from False have nots: "\<not> length (fr_buffer r) < LENGTH_PREFIX_BYTES" "\<not> length (fr_buffer r) < LENGTH_PREFIX_BYTES + ?n" by auto
    show ?thesis
    proof (cases "decodeMessage codec (take ?n (drop LENGTH_PREFIX_BYTES (fr_buffer r)))")
      case (DecodedFrame f)
      with less.prems nots obtain fs where fs: "socketFrames codec ?tail = (fs, rest, False)" "gs = f # fs"
        by (auto simp: socketFrames.simps [of codec "fr_buffer r"] split: prod.splits)
      have "tryDrain codec (snd (deliver f (r\<lparr>fr_buffer := ?tail\<rparr>))) =
          (fst (deliverAll fs (snd (deliver f (r\<lparr>fr_buffer := ?tail\<rparr>)))), (snd (deliverAll fs (snd (deliver f (r\<lparr>fr_buffer := ?tail\<rparr>)))))\<lparr>fr_buffer := rest\<rparr>)"
        using shorter fs(1) by (intro less.hyps) (simp_all add: deliver_buffer)
      with DecodedFrame nots fs(2) show ?thesis
        by (subst tryDrain.simps) (simp add: Let_def deliver_buffer deliverAll_buffer case_prod_beta)
    next
      case SchemaInvalid
      with less.prems nots have "socketFrames codec ?tail = (gs, rest, False)" by (simp add: socketFrames.simps [of codec "fr_buffer r"])
      then have "tryDrain codec (r\<lparr>fr_buffer := ?tail\<rparr>) =
          (fst (deliverAll gs (r\<lparr>fr_buffer := ?tail\<rparr>)), (snd (deliverAll gs (r\<lparr>fr_buffer := ?tail\<rparr>)))\<lparr>fr_buffer := rest\<rparr>)"
        using shorter by (intro less.hyps) simp_all
      with SchemaInvalid nots show ?thesis by (subst tryDrain.simps) (simp add: Let_def deliverAll_buffer)
    next
      case DecodeFailed
      with less.prems nots show ?thesis by (simp add: socketFrames.simps [of codec "fr_buffer r"])
    qed
  qed
qed

text \<open>The frames handed out, with the calls they answered, and the invariant of a reader that has not failed.\<close>

definition yields :: "'f reader_effect list \<Rightarrow> (nat \<times> 'f) list" where
  "yields fx = List.map_filter (\<lambda>x. case x of Yields i f \<Rightarrow> Some (i, f) | _ \<Rightarrow> None) fx"

lemma yields_simps [simp]:
  "yields [] = []" "yields (Yields i f # fx) = (i, f) # yields fx" "yields (Finishes i # fx) = yields fx"
  "yields (Rejects i # fx) = yields fx" "yields (DestroysSocket # fx) = yields fx" "yields (fx @ gx) = yields fx @ yields gx"
  "yields (map Finishes ws) = []"
  by (simp_all add: yields_def List.map_filter_def)

definition readerOk :: "(nat \<times> 'f) list \<Rightarrow> 'f list \<Rightarrow> 'f frame_reader \<Rightarrow> bool" where
  "readerOk ys gs r \<longleftrightarrow> map snd ys @ fr_queued r = gs \<and> (fr_waiters r = [] \<or> fr_queued r = []) \<and> \<not> fr_failed r
     \<and> sorted_wrt (<) (map fst ys @ fr_waiters r) \<and> (\<forall>i \<in> set (map fst ys @ fr_waiters r). i < fr_nextCall r)"

lemma readerOk_deliver: "readerOk ys gs r \<Longrightarrow> readerOk (ys @ yields (fst (deliver f r))) (gs @ [f]) (snd (deliver f r))"
  by (cases "fr_waiters r") (auto simp: readerOk_def deliver_def sorted_wrt_append)

lemma readerOk_deliverAll: "readerOk ys gs r \<Longrightarrow> readerOk (ys @ yields (fst (deliverAll fs r))) (gs @ fs) (snd (deliverAll fs r))"
proof (induction fs arbitrary: ys gs r)
  case (Cons f fs)
  from Cons.IH [OF readerOk_deliver [OF Cons.prems, of f]] show ?case by (simp add: case_prod_beta)
qed simp

lemma readerOk_next: "readerOk ys gs r \<Longrightarrow> readerOk (ys @ yields (fst (nextFrame r))) gs (snd (nextFrame r))"
  by (cases "fr_queued r") (auto simp: readerOk_def nextFrame_def Let_def sorted_wrt_append less_Suc_eq)

lemma readerOk_end: "readerOk ys gs r \<Longrightarrow> readerOk (ys @ yields (fst (endAll r))) gs (snd (endAll r))"
  by (auto simp: readerOk_def endAll_def sorted_wrt_append)

definition dataOf :: "reader_event list \<Rightarrow> bytes" where
  "dataOf es = concat (map (\<lambda>e. case e of BytesArrive chunk \<Rightarrow> chunk | _ \<Rightarrow> []) es)"

lemma readerOk_run:
  assumes "socketFrames codec received = (gs, fr_buffer r, False)" and "readerOk ys gs r"
    and "socketFrames codec (received @ dataOf es) = (all, rest, False)"
  shows "readerOk (ys @ yields (fst (readerRun codec es r))) all (snd (readerRun codec es r))"
  using assms
proof (induction es arbitrary: received gs ys r)
  case Nil
  then show ?case by (simp add: dataOf_def)
next
  case (Cons e es)
  let ?r = "snd (readerStep codec e r)" and ?ys = "ys @ yields (fst (readerStep codec e r))"
  show ?case
  proof (cases e)
    case (BytesArrive chunk)
    let ?b = "fr_buffer r @ chunk"
    have data: "dataOf (e # es) = chunk @ dataOf es" by (simp add: BytesArrive dataOf_def)
    have joined: "socketFrames codec (received @ chunk) = continue gs (socketFrames codec ?b)"
      by (rule socket.drain_append(1) [OF Cons.prems(1)])
    obtain hs rest' failed where hs: "socketFrames codec ?b = (hs, rest', failed)" by (metis prod_cases3)
    have "\<not> failed"
    proof
      assume failed
      with joined hs have "socketFrames codec (received @ chunk) = (gs @ hs, rest', True)" by (simp add: continue_def)
      from socket.drain_append(2) [OF this, of "dataOf es"] Cons.prems(3) data show False by auto
    qed
    with hs have step: "readerStep codec e r = (fst (deliverAll hs r), (snd (deliverAll hs r))\<lparr>fr_buffer := rest'\<rparr>)"
      using tryDrain_socket [of codec "r\<lparr>fr_buffer := ?b\<rparr>" hs rest']
      by (simp add: readerStep_def BytesArrive onData_def deliverAll_buffer)
    have "readerOk ?ys (gs @ hs) ?r" using readerOk_deliverAll [OF Cons.prems(2), of hs] by (simp add: step readerOk_def)
    moreover have "socketFrames codec (received @ chunk) = (gs @ hs, fr_buffer ?r, False)"
      using joined hs \<open>\<not> failed\<close> by (simp add: continue_def step)
    ultimately show ?thesis using Cons.IH [of "received @ chunk" "gs @ hs" ?r ?ys] Cons.prems(3) data by (simp add: case_prod_beta)
  next
    case StreamCloses
    then show ?thesis
      using Cons.IH [of received gs ?r ?ys] Cons.prems readerOk_end [OF Cons.prems(2)]
      by (simp add: readerStep_def dataOf_def endAll_def case_prod_beta)
  next
    case NextCalled
    have "fr_buffer (snd (nextFrame r)) = fr_buffer r" by (simp add: nextFrame_def Let_def split: list.split)
    then show ?thesis
      using NextCalled Cons.IH [of received gs ?r ?ys] Cons.prems readerOk_next [OF Cons.prems(2)]
      by (simp add: readerStep_def dataOf_def case_prod_beta)
  qed
qed

lemma written_frames_drain:
  assumes "list_all (sendable codec (2 ^ 32 - 1)) fs"
  shows "socketFrames codec (concat (map (\<lambda>f. setUint32 (length (fc_encode codec f)) @ fc_encode codec f) fs)) = (fs, [], False)"
proof -
  have "list_all (\<lambda>f. framed (\<lambda>_. False) (decodeMessage codec) f (setUint32 (length (fc_encode codec f)) @ fc_encode codec f)) fs"
    using assms by (auto simp: list_all_iff framed_def sendable_def getUint32_setUint32)
  from socket.drain_stream [OF this, of "[]"] show ?thesis by (simp add: continue_def)
qed

text \<open>a socket's frames reach their readers in order. Whatever part of what the peer wrote has arrived, in
  whatever chunks, and however the calls for the next frame fall between them: the frames handed out, then
  those still queued, are the first of the frames the peer wrote, all of them once everything has arrived;
  no call waits while a frame is queued, and the calls are answered in the order they were made.
\<close>

theorem socket_delivers_in_order:
  assumes "list_all (sendable codec (2 ^ 32 - 1)) fs"
    and "written = concat (map (\<lambda>f. concat (the (writeFrame codec f))) fs)" and "prefix (dataOf es) written"
    and "run = readerRun codec es createFrameReader"
  shows "prefix (map snd (yields (fst run)) @ fr_queued (snd run)) fs
    \<and> (dataOf es = written \<longrightarrow> map snd (yields (fst run)) @ fr_queued (snd run) = fs)
    \<and> (fr_waiters (snd run) = [] \<or> fr_queued (snd run) = []) \<and> \<not> fr_failed (snd run)
    \<and> sorted_wrt (<) (map fst (yields (fst run)) @ fr_waiters (snd run))"
proof -
  have "written = concat (map (\<lambda>f. setUint32 (length (fc_encode codec f)) @ fc_encode codec f) fs)"
    using assms(1,2) by (induction fs arbitrary: written) (auto simp: writeFrame_def sendable_def Let_def)
  then have whole: "socketFrames codec written = (fs, [], False)" using written_frames_drain [OF assms(1)] by simp
  obtain gs rest failed where part: "socketFrames codec (dataOf es) = (gs, rest, failed)" by (metis prod_cases3)
  from socket.drain_prefix [OF whole assms(3)] part have gs: "prefix gs fs" "\<not> failed" by auto
  have "readerOk [] [] (createFrameReader :: 'a frame_reader)" by (simp add: readerOk_def createFrameReader_def)
  from readerOk_run [OF _ this, of codec "[]" es gs rest] part gs(2)
  have "readerOk (yields (fst run)) gs (snd run)" by (simp add: assms(4) createFrameReader_def)
  then show ?thesis using gs(1) part whole by (auto simp: readerOk_def)
qed

theorem socket_delivers_in_order_witness:
  "prefix (map snd (yields (fst (readerRun bs_codec [NextCalled, BytesArrive [0, 0, 0, 2, 7], BytesArrive [7, 0, 0]] createFrameReader)))
     @ fr_queued (snd (readerRun bs_codec [NextCalled, BytesArrive [0, 0, 0, 2, 7], BytesArrive [7, 0, 0]] createFrameReader))) [True, False]"
proof -
  have "list_all (sendable bs_codec (2 ^ 32 - 1)) [True, False]"
    by (simp add: sendable_def bs_codec_def decodeMessage_def)
  moreover have "prefix (dataOf [NextCalled, BytesArrive [0, 0, 0, 2, 7], BytesArrive [7, 0, 0]])
      (concat (map (\<lambda>f. concat (the (writeFrame bs_codec f))) [True, False]))"
    by (simp add: dataOf_def writeFrame_def bs_codec_def setUint32_def)
  ultimately show ?thesis by (rule socket_delivers_in_order [OF _ refl _ refl, THEN conjunct1])
qed

text \<open>
  No length is too long for a socket: after a prefix that announces the largest body, whatever else arrives
  short of it is kept, and nothing ends the connection.
\<close>

lemma socket_buffers_any_length:
  assumes "length x < 2 ^ 32 - 1"
  shows "snd (readerRun codec [BytesArrive ([255, 255, 255, 255] @ x)] createFrameReader) =
    createFrameReader\<lparr>fr_buffer := [255, 255, 255, 255] @ x\<rparr>"
proof -
  have "getUint32 ([255, 255, 255, 255] @ x) = 2 ^ 32 - 1" by (simp add: getUint32_def)
  then show ?thesis using assms
    by (simp add: readerStep_def onData_def createFrameReader_def) (subst tryDrain.simps, simp add: LENGTH_PREFIX_BYTES_def Let_def)
qed

end
