(* ===== verification/Topology.thy ===== *)
theory Topology
  imports MeshSession
begin

text \<open>
  Asking about the mesh: \<open>topology.ts\<close> and \<open>path-trace.ts\<close> of \<open>ts/packages/core/src/domain/\<close>. What a session sends is
  an operation of theory \<open>MeshSession\<close>; what its outcome means to the asker is a function of the outcome.
\<close>

subsection \<open>Topology\<close>

definition TOPOLOGY_GET_CAPABILITY :: string where "TOPOLOGY_GET_CAPABILITY = ''topology:get''"

definition TOPOLOGY_SCOPE :: capability_scope where "TOPOLOGY_SCOPE = \<lparr>kind = ''node'', path = None\<rparr>"

definition buildTopologyGetCommand :: manage_command where
  "buildTopologyGetCommand = \<lparr>mc_verb = TOPOLOGY_GET_CAPABILITY, mc_params = [(''verb'', JString ''topology.get'')]\<rparr>"

definition deviceIdSchema :: "json_value \<Rightarrow> device_id option" where
  "deviceIdSchema j = (case j of JBytes b \<Rightarrow> if length b = DEVICE_ID_LENGTH then Some b else None | _ \<Rightarrow> None)"

definition relayedSchema :: "json_value \<Rightarrow> (device_id \<times> device_id option) option" where
  "relayedSchema j =
     (case j of
        JObject kvs \<Rightarrow>
          (case Option.bind (jget kvs ''device'') deviceIdSchema of
             None \<Rightarrow> None
           | Some d \<Rightarrow> (case jget kvs ''via'' of None \<Rightarrow> Some (d, None) | Some v \<Rightarrow> map_option (\<lambda>v. (d, Some v)) (deviceIdSchema v)))
      | _ \<Rightarrow> None)"

definition topologyPeersSchema :: "json_value \<Rightarrow> topology_peers option" where
  "topologyPeersSchema j =
     (case j of
        JObject kvs \<Rightarrow>
          (case (jget kvs ''direct'', jget kvs ''relayed'') of
             (Some (JArray ds), Some (JArray rs)) \<Rightarrow>
               (case (those (map deviceIdSchema ds), those (map relayedSchema rs)) of
                  (Some direct, Some relayed) \<Rightarrow> Some \<lparr>tp_direct = direct, tp_relayed = relayed\<rparr>
                | _ \<Rightarrow> None)
           | _ \<Rightarrow> None)
      | _ \<Rightarrow> None)"

definition topologyGetSchema :: "(string \<times> json_value) list \<Rightarrow> bool" where
  "topologyGetSchema params \<longleftrightarrow> jget params ''verb'' = Some (JString ''topology.get'')"

definition readTopologyPeers :: "peer_advert \<Rightarrow> topology_peers option" where
  "readTopologyPeers advert =
     (case jget (extensions advert) TOPOLOGY_PEERS_GOSSIP_KEY of None \<Rightarrow> None | Some raw \<Rightarrow> topologyPeersSchema raw)"

datatype topology_edge = DirectEdge device_id device_id | RelayEdge device_id device_id "device_id option"

definition edgesOf :: "device_id \<times> peer_advert \<Rightarrow> topology_edge list" where
  "edgesOf entry =
     (case readTopologyPeers (snd entry) of
        None \<Rightarrow> []
      | Some topology \<Rightarrow>
          map (DirectEdge (fst entry)) (tp_direct topology)
          @ map (\<lambda>(d, via). RelayEdge (fst entry) d via) (tp_relayed topology))"

definition assembleTopologyGraph :: "(device_id \<times> peer_advert) list \<Rightarrow> device_id list \<times> topology_edge list" where
  "assembleTopologyGraph directory = (map fst directory, fold (\<lambda>entry edges. edges @ edgesOf entry) directory [])"

definition sendTopologyGet :: "session_env \<Rightarrow> moment \<Rightarrow> device_id option \<Rightarrow> session_op" where
  "sendTopologyGet env m target = sendManageRequest env m buildTopologyGetCommand TOPOLOGY_SCOPE target None"

datatype topology_error = TopologyRefused string | TopologyMalformed

definition topologyGetResult :: "manage_outcome \<Rightarrow> topology_error + topology_peers" where
  "topologyGetResult outcome =
     (case outcome of
        ManageError code _ \<Rightarrow> Err (TopologyRefused code)
      | ManageOk flds \<Rightarrow>
          (case Option.bind (jget flds ''peers'') topologyPeersSchema of None \<Rightarrow> Err TopologyMalformed | Some tp \<Rightarrow> Ok tp))"

definition handleTopologyGet :: "session_env \<Rightarrow> manage_request \<Rightarrow> mesh_session \<Rightarrow> manage_outcome" where
  "handleTopologyGet env incoming s =
     (if \<not> topologyGetSchema (mc_params (mr_command incoming)) then ManageError ''malformed'' None
      else ManageOk [(''peers'', topologyJson (getTopologyPeers env s))])"

subsection \<open>Path traces\<close>

definition PATH_TRACE_VERB :: string where "PATH_TRACE_VERB = ''path:trace''"

definition PATH_TRACE_SCOPE :: capability_scope where "PATH_TRACE_SCOPE = \<lparr>kind = ''node'', path = None\<rparr>"

definition isPathTrace :: "(string \<times> json_value) list \<Rightarrow> bool" where
  "isPathTrace params \<longleftrightarrow> jget params ''verb'' = Some (JString ''path.trace'')"

definition buildPathTraceCommand :: manage_command where
  "buildPathTraceCommand = \<lparr>mc_verb = PATH_TRACE_VERB, mc_params = [(''verb'', JString ''path.trace'')]\<rparr>"

definition buildPathTraceResponse :: "incoming_request \<Rightarrow> string option \<Rightarrow> manage_outcome" where
  "buildPathTraceResponse incoming hubAddress =
     (let relayed = (ir_origin incoming \<noteq> None)
      in ManageOk ((''relayed'', JBool relayed)
           # (case hubAddress of Some a \<Rightarrow> if relayed then [(''hub-address'', JString a)] else [] | None \<Rightarrow> [])))"

record path_end =
  pe_relayed :: bool
  pe_hubAddress :: "string option"

record path_trace_result =
  pt_rttMs :: int
  pt_local :: path_end
  pt_remote :: "path_end option"
  pt_outcome :: manage_outcome

definition pathTraceOkSchema :: "(string \<times> json_value) list \<Rightarrow> path_end option" where
  "pathTraceOkSchema flds =
     (case jget flds ''relayed'' of
        Some (JBool relayed) \<Rightarrow>
          (case jget flds ''hub-address'' of
             None \<Rightarrow> Some \<lparr>pe_relayed = relayed, pe_hubAddress = None\<rparr>
           | Some (JString a) \<Rightarrow> Some \<lparr>pe_relayed = relayed, pe_hubAddress = Some a\<rparr>
           | Some _ \<Rightarrow> None)
      | _ \<Rightarrow> None)"

definition tracePath :: "session_env \<Rightarrow> moment \<Rightarrow> capability_scope option \<Rightarrow> device_id option \<Rightarrow> cose_sign1 option \<Rightarrow> session_op" where
  "tracePath env m scp target token =
     sendManageRequest env m buildPathTraceCommand (case scp of Some s \<Rightarrow> s | None \<Rightarrow> PATH_TRACE_SCOPE) target token"

text \<open>\<open>None\<close> where an ok outcome has not the shape of a trace and the source throws.\<close>

definition tracePathResult :: "int \<Rightarrow> int \<Rightarrow> device_id option \<Rightarrow> string option \<Rightarrow> manage_outcome \<Rightarrow> path_trace_result option" where
  "tracePathResult startedAt now target localHubAddress outcome =
     (let near = \<lparr>pe_relayed = (target \<noteq> None), pe_hubAddress = (if target \<noteq> None then localHubAddress else None)\<rparr>;
          result = \<lparr>pt_rttMs = now - startedAt, pt_local = near, pt_remote = None, pt_outcome = outcome\<rparr>
      in case outcome of
           ManageError _ _ \<Rightarrow> Some result
         | ManageOk flds \<Rightarrow> map_option (\<lambda>remote. result\<lparr>pt_remote := Some remote\<rparr>) (pathTraceOkSchema flds))"

subsection \<open>What is asked is what is answered\<close>

definition idsOk :: "topology_peers \<Rightarrow> bool" where
  "idsOk tp \<longleftrightarrow> list_all (\<lambda>d. length d = DEVICE_ID_LENGTH) (tp_direct tp)
     \<and> list_all (\<lambda>(d, via). length d = DEVICE_ID_LENGTH \<and> (case via of Some v \<Rightarrow> length v = DEVICE_ID_LENGTH | None \<Rightarrow> True)) (tp_relayed tp)"

lemma those_map_checked: "(\<And>x. f (g x) = (if P x then Some x else None)) \<Longrightarrow> those (map f (map g xs)) = (if list_all P xs then Some xs else None)"
  by (induction xs) auto

lemma topologyPeersSchema_json: "topologyPeersSchema (topologyJson tp) = (if idsOk tp then Some tp else None)"
proof -
  let ?rel = "\<lambda>(d, via). JObject ((''device'', JBytes d) # (case via of Some v \<Rightarrow> [(''via'', JBytes v)] | None \<Rightarrow> []))"
  let ?P = "\<lambda>(d, via). length d = DEVICE_ID_LENGTH \<and> (case via of Some v \<Rightarrow> length v = DEVICE_ID_LENGTH | None \<Rightarrow> True)"
  have "those (map deviceIdSchema (map JBytes (tp_direct tp))) =
      (if list_all (\<lambda>d. length d = DEVICE_ID_LENGTH) (tp_direct tp) then Some (tp_direct tp) else None)"
    by (rule those_map_checked) (simp add: deviceIdSchema_def)
  moreover have "those (map relayedSchema (map ?rel (tp_relayed tp))) = (if list_all ?P (tp_relayed tp) then Some (tp_relayed tp) else None)"
    by (rule those_map_checked) (auto simp: relayedSchema_def deviceIdSchema_def split: option.splits if_splits)
  ultimately show ?thesis by (cases tp) (simp add: topologyPeersSchema_def topologyJson_def idsOk_def)
qed

lemma edges_fold: "fold (\<lambda>entry edges. edges @ edgesOf entry) directory acc = acc @ concat (map edgesOf directory)"
  by (induction directory arbitrary: acc) simp_all

lemma topology_graph_exact:
  "assembleTopologyGraph directory = (map fst directory, concat (map edgesOf directory))"
  by (simp add: assembleTopologyGraph_def edges_fold)

lemma edgesOf_iff:
  "DirectEdge d e \<in> set (edgesOf x) \<longleftrightarrow> fst x = d \<and> (\<exists>tp. readTopologyPeers (snd x) = Some tp \<and> e \<in> set (tp_direct tp))"
  "RelayEdge d e via \<in> set (edgesOf x) \<longleftrightarrow> fst x = d \<and> (\<exists>tp. readTopologyPeers (snd x) = Some tp \<and> (e, via) \<in> set (tp_relayed tp))"
  by (cases "readTopologyPeers (snd x)"; auto simp: edgesOf_def)+

text \<open>the mesh can be asked about itself. A device that answers \<open>topology.get\<close> is read back as having exactly
  the peers its session holds (and as malformed where one of them has no proper device id); the graph assembled from a directory has, for each device and each peer,
  an edge exactly where that device's own advert reports one; and a path trace reports of the remote end
  whether the request reached it through a relay, and the hub's address only then.
\<close>

theorem introspection_faithful:
  "topologyGetResult (handleTopologyGet env \<lparr>mr_requestId = n, mr_command = buildTopologyGetCommand, mr_scope = TOPOLOGY_SCOPE, mr_token = t\<rparr> s)
      = (if idsOk (getTopologyPeers env s) then Ok (getTopologyPeers env s) else Err TopologyMalformed)
   \<and> (DirectEdge d e \<in> set (snd (assembleTopologyGraph directory)) \<longleftrightarrow>
        (\<exists>advert tp. (d, advert) \<in> set directory \<and> readTopologyPeers advert = Some tp \<and> e \<in> set (tp_direct tp)))
   \<and> (RelayEdge d e via \<in> set (snd (assembleTopologyGraph directory)) \<longleftrightarrow>
        (\<exists>advert tp. (d, advert) \<in> set directory \<and> readTopologyPeers advert = Some tp \<and> (e, via) \<in> set (tp_relayed tp)))
   \<and> (\<exists>r. tracePathResult startedAt now target localHub (buildPathTraceResponse incoming hub) = Some r
        \<and> pt_rttMs r = now - startedAt \<and> pe_relayed (pt_local r) = (target \<noteq> None)
        \<and> pt_remote r = Some \<lparr>pe_relayed = (ir_origin incoming \<noteq> None), pe_hubAddress = (if ir_origin incoming \<noteq> None then hub else None)\<rparr>)"
proof (intro conjI)
  show "topologyGetResult (handleTopologyGet env \<lparr>mr_requestId = n, mr_command = buildTopologyGetCommand, mr_scope = TOPOLOGY_SCOPE, mr_token = t\<rparr> s)
      = (if idsOk (getTopologyPeers env s) then Ok (getTopologyPeers env s) else Err TopologyMalformed)"
    by (simp add: handleTopologyGet_def topologyGetSchema_def buildTopologyGetCommand_def topologyGetResult_def topologyPeersSchema_json)
  show "DirectEdge d e \<in> set (snd (assembleTopologyGraph directory)) \<longleftrightarrow>
      (\<exists>advert tp. (d, advert) \<in> set directory \<and> readTopologyPeers advert = Some tp \<and> e \<in> set (tp_direct tp))"
    by (auto simp: topology_graph_exact edgesOf_iff Bex_def)
  show "RelayEdge d e via \<in> set (snd (assembleTopologyGraph directory)) \<longleftrightarrow>
      (\<exists>advert tp. (d, advert) \<in> set directory \<and> readTopologyPeers advert = Some tp \<and> (e, via) \<in> set (tp_relayed tp))"
    by (auto simp: topology_graph_exact edgesOf_iff Bex_def)
  show "\<exists>r. tracePathResult startedAt now target localHub (buildPathTraceResponse incoming hub) = Some r
        \<and> pt_rttMs r = now - startedAt \<and> pe_relayed (pt_local r) = (target \<noteq> None)
        \<and> pt_remote r = Some \<lparr>pe_relayed = (ir_origin incoming \<noteq> None), pe_hubAddress = (if ir_origin incoming \<noteq> None then hub else None)\<rparr>"
    by (auto simp: tracePathResult_def buildPathTraceResponse_def pathTraceOkSchema_def Let_def split: option.split)
qed

end
