(* ===== verification/CapabilityRequests.thy ===== *)
theory CapabilityRequests
  imports Rooms TokenMinting
begin

text \<open>
  Asking for capabilities and pushing them: \<open>capability-request.ts\<close>, \<open>capability-grant.ts\<close> and
  \<open>grant-candidates.ts\<close> of \<open>ts/packages/core/src/domain/\<close>. How a token is written inside a command
  (\<open>token_wire\<close>) belongs to the generated schemas and is an argument. The receiver of requests is a state:
  every request it has handed to the domain, each with the flag that decides between the domain's decision
  and the timer. A decision's minting is one step with the decision: the flag is set and the timer
  cleared before the token is signed, and signing is taken not to reject (if it did, the request would
  never be answered).
\<close>

record token_wire =
  tw_json :: "cose_sign1 \<Rightarrow> json_value"
  tw_schema :: "json_value \<Rightarrow> cose_sign1 option"

subsection \<open>Asking\<close>

definition buildCapabilityRequestCommand :: "string \<Rightarrow> int option \<Rightarrow> manage_command" where
  "buildCapabilityRequestCommand cap validUntil =
     \<lparr>mc_verb = cap,
      mc_params = [(''verb'', JString ''capability.request''), (''capability'', JString cap)]
        @ (case validUntil of Some t \<Rightarrow> [(''valid-until'', JNumber t)] | None \<Rightarrow> [])\<rparr>"

definition capabilityRequestSchema :: "(string \<times> json_value) list \<Rightarrow> (string \<times> int option) option" where
  "capabilityRequestSchema params =
     (if jget params ''verb'' \<noteq> Some (JString ''capability.request'') then None
      else case jget params ''capability'' of
             Some (JString cap) \<Rightarrow>
               (case jget params ''valid-until'' of
                  None \<Rightarrow> Some (cap, None)
                | Some (JNumber t) \<Rightarrow> if t < 0 then None else Some (cap, Some t)
                | Some _ \<Rightarrow> None)
           | _ \<Rightarrow> None)"

text \<open>An ok outcome's fields; a field named \<open>result\<close> is one that was spread over the \<open>ok\<close>.\<close>

definition capabilityGrantOkSchema :: "token_wire \<Rightarrow> (string \<times> json_value) list \<Rightarrow> cose_sign1 option" where
  "capabilityGrantOkSchema tw flds =
     (if jget flds ''result'' \<in> {None, Some (JString ''ok'')} then Option.bind (jget flds ''granted-token'') (tw_schema tw) else None)"

datatype request_failure = CapabilityRequestRefused string string | RequestResponseMalformed string

definition requestCapability ::
    "session_env \<Rightarrow> moment \<Rightarrow> string \<Rightarrow> capability_scope \<Rightarrow> device_id option \<Rightarrow> int option \<Rightarrow> cose_sign1 option \<Rightarrow> session_op" where
  "requestCapability env m cap scp target validUntil requestToken =
     sendManageRequest env m (buildCapabilityRequestCommand cap validUntil) scp target requestToken"

definition requestCapabilityResult :: "token_wire \<Rightarrow> string \<Rightarrow> manage_outcome \<Rightarrow> request_failure + cose_sign1 \<times> (string \<times> json_value) list" where
  "requestCapabilityResult tw cap outcome =
     (case outcome of
        ManageError code _ \<Rightarrow> Err (CapabilityRequestRefused cap code)
      | ManageOk flds \<Rightarrow>
          (case capabilityGrantOkSchema tw flds of
             None \<Rightarrow> Err (RequestResponseMalformed cap)
           | Some tok \<Rightarrow> Ok (tok, flds)))"

subsection \<open>Deciding\<close>

definition MANAGE_REQUEST_CAPABILITY :: string where "MANAGE_REQUEST_CAPABILITY = ''manage:request''"

record request_options =
  ro_capability :: string
  ro_codec :: cbor_codec
  ro_identity :: identity_port
  ro_evaluator :: evaluator
  ro_revocation :: "(bytes \<Rightarrow> revocation_claims list) option"
  ro_requireRequestToken :: bool
  ro_extra :: "extra_handlers option"
  ro_bearerDevice :: device_id
  ro_wire :: token_wire

definition requestEnv :: "request_options \<Rightarrow> (bytes \<Rightarrow> revocation_claims list) \<Rightarrow> int \<Rightarrow> verify_env" where
  "requestEnv opts revocation now =
     \<lparr>env_codec = ro_codec opts, env_identity = ro_identity opts, env_evaluator = ro_evaluator opts, env_now = now,
      env_revocation = revocation, env_extra = (case ro_extra opts of Some x \<Rightarrow> x | None \<Rightarrow> [])\<rparr>"

datatype permission = Permitted | NotPermitted string | PermissionThrows

definition checkRequestPermission :: "nat \<Rightarrow> request_options \<Rightarrow> int \<Rightarrow> manage_request \<Rightarrow> permission option" where
  "checkRequestPermission fuel opts now incoming =
     (case mr_token incoming of
        None \<Rightarrow> Some (NotPermitted ''token_required'')
      | Some token \<Rightarrow>
          (case ro_revocation opts of
             None \<Rightarrow> Some PermissionThrows
           | Some revocation \<Rightarrow>
               (case verifyCapabilityToken fuel (requestEnv opts revocation now) token (Some (ro_bearerDevice opts)) of
                  None \<Rightarrow> None
                | Some (Refused r) \<Rightarrow> Some (NotPermitted (reasonCode r))
                | Some (Accepted claims _ _ _) \<Rightarrow>
                    Some (if capability claims \<noteq> MANAGE_REQUEST_CAPABILITY then NotPermitted ''capability_mismatch''
                          else if (case requests_capability claims of None \<Rightarrow> False | Some c \<Rightarrow> c \<noteq> ro_capability opts)
                          then NotPermitted ''capability_mismatch''
                          else if \<not> scopeNarrows (scope claims) (mr_scope incoming) then NotPermitted ''scope_mismatch''
                          else Permitted))))"

datatype grant_decision =
    AcceptGrant string int "int option" "(string \<times> json_value) list"
  | RejectGrant "string option"

record pending_request =
  pr_scope :: capability_scope
  pr_settled :: bool

text \<open>The requests that reached the domain, by arrival; a request that did not has no entry.\<close>

record request_handler =
  rh_arrivals :: nat
  rh_pending :: "(nat, pending_request) jmap"

definition createCapabilityRequestHandler :: request_handler where
  "createCapabilityRequestHandler = \<lparr>rh_arrivals = 0, rh_pending = []\<rparr>"

datatype request_effect =
    Answers nat manage_outcome
  | AsksDomain nat capability_scope device_id
  | HandlerThrows nat

definition handleCapabilityRequest ::
    "nat \<Rightarrow> request_options \<Rightarrow> int \<Rightarrow> manage_request \<Rightarrow> request_handler \<Rightarrow> (request_effect list \<times> request_handler) option" where
  "handleCapabilityRequest fuel opts now incoming h =
     (let i = rh_arrivals h; h' = h\<lparr>rh_arrivals := Suc i\<rparr>;
          refuse = (\<lambda>code. ([Answers i (ManageError code None)], h'));
          ask = (\<lambda>validUntil.
            if (case validUntil of None \<Rightarrow> False | Some t \<Rightarrow> t \<le> now) then refuse ''expired''
            else ([AsksDomain i (mr_scope incoming) (ro_bearerDevice opts)],
                  h'\<lparr>rh_pending := jset (rh_pending h') i \<lparr>pr_scope = mr_scope incoming, pr_settled = False\<rparr>\<rparr>))
      in case capabilityRequestSchema (mc_params (mr_command incoming)) of
           None \<Rightarrow> Some (refuse ''malformed'')
         | Some (cap, validUntil) \<Rightarrow>
             if cap \<noteq> ro_capability opts then Some (refuse ''malformed'')
             else if ro_requireRequestToken opts
             then (case checkRequestPermission fuel opts now incoming of
                     None \<Rightarrow> None
                   | Some (NotPermitted code) \<Rightarrow> Some (refuse code)
                   | Some PermissionThrows \<Rightarrow> Some ([HandlerThrows i], h')
                   | Some Permitted \<Rightarrow> Some (ask validUntil))
             else Some (ask validUntil))"

definition settleRequest :: "nat \<Rightarrow> pending_request \<Rightarrow> request_handler \<Rightarrow> request_handler" where
  "settleRequest i p h = h\<lparr>rh_pending := jset (rh_pending h) i (p\<lparr>pr_settled := True\<rparr>)\<rparr>"

definition requestTimeout :: "nat \<Rightarrow> request_handler \<Rightarrow> request_effect list \<times> request_handler" where
  "requestTimeout i h =
     (case jget (rh_pending h) i of
        None \<Rightarrow> ([], h)
      | Some p \<Rightarrow>
          if pr_settled p then ([], h)
          else ([Answers i (ManageError ''timeout'' (Some ''no decision within the capability-request timeout''))], settleRequest i p h))"

definition grantOptions :: "request_options \<Rightarrow> int \<Rightarrow> bytes \<Rightarrow> capability_scope \<Rightarrow> string \<Rightarrow> int \<Rightarrow> int option \<Rightarrow> mint_options" where
  "grantOptions opts now tokenId scp cap expiry delegations =
     \<lparr>mo_identity = ro_identity opts, mo_now = now, mo_tokenId = tokenId, mo_bearer = ro_bearerDevice opts, mo_capability = cap,
      mo_scope = scp, mo_expires = expiry, mo_notBefore = None, mo_delegationsRemaining = delegations, mo_parent = None,
      mo_conditions = None, mo_authorisedBy = None, mo_grantsCapability = None, mo_requestsCapability = None\<rparr>"

text \<open>The domain's fields are spread last, so they win over the fields of the response.\<close>

definition grantFields :: "token_wire \<Rightarrow> cose_sign1 \<Rightarrow> (string \<times> json_value) list \<Rightarrow> (string \<times> json_value) list" where
  "grantFields tw tok extra = fold (\<lambda>(k, v) flds. jset flds k v) extra [(''granted-token'', tw_json tw tok)]"

definition grantOutcome :: "request_options \<Rightarrow> int \<Rightarrow> bytes \<Rightarrow> capability_scope \<Rightarrow> grant_decision \<Rightarrow> manage_outcome" where
  "grantOutcome opts now tokenId scp decision =
     (case decision of
        RejectGrant reason \<Rightarrow> ManageError ''denied'' reason
      | AcceptGrant cap expiry delegations extra \<Rightarrow>
          (case mintCapabilityToken (ro_codec opts) (ro_evaluator opts) (grantOptions opts now tokenId scp cap expiry delegations) of
             Inl _ \<Rightarrow> ManageError ''mint_failed'' None
           | Inr tok \<Rightarrow> ManageOk (grantFields (ro_wire opts) tok extra)))"

definition decideRequest ::
    "request_options \<Rightarrow> int \<Rightarrow> bytes \<Rightarrow> nat \<Rightarrow> grant_decision \<Rightarrow> request_handler \<Rightarrow> request_effect list \<times> request_handler" where
  "decideRequest opts now tokenId i decision h =
     (case jget (rh_pending h) i of
        None \<Rightarrow> ([], h)
      | Some p \<Rightarrow>
          if pr_settled p then ([], h)
          else ([Answers i (grantOutcome opts now tokenId (pr_scope p) decision)], settleRequest i p h))"

datatype request_event =
    RequestArrives int manage_request
  | DomainDecides int bytes nat grant_decision
  | TimerFires nat

definition requestStep ::
    "nat \<Rightarrow> request_options \<Rightarrow> request_event \<Rightarrow> request_handler \<Rightarrow> (request_effect list \<times> request_handler) option" where
  "requestStep fuel opts event h =
     (case event of
        RequestArrives now incoming \<Rightarrow> handleCapabilityRequest fuel opts now incoming h
      | DomainDecides now tokenId i decision \<Rightarrow> Some (decideRequest opts now tokenId i decision h)
      | TimerFires i \<Rightarrow> Some (requestTimeout i h))"

inductive request_reach :: "nat \<Rightarrow> request_options \<Rightarrow> request_event list \<Rightarrow> request_effect list \<Rightarrow> request_handler \<Rightarrow> bool"
  for fuel opts where
  request_start: "request_reach fuel opts [] [] createCapabilityRequestHandler"
| request_next: "request_reach fuel opts es fx h \<Longrightarrow> requestStep fuel opts e h = Some (fx', h') \<Longrightarrow>
    request_reach fuel opts (es @ [e]) (fx @ fx') h'"

end
