(* ===== verification/CapabilityGrants.thy ===== *)
theory CapabilityGrants
  imports CapabilityRequests
begin

text \<open>
  The unsolicited counterpart of a request, \<open>capability-grant.ts\<close>, and the adverts by which a device says
  that it would field requests, \<open>grant-candidates.ts\<close>.
\<close>

subsection \<open>Pushing a grant\<close>

definition buildCapabilityGrantCommand :: "token_wire \<Rightarrow> string \<Rightarrow> cose_sign1 \<Rightarrow> manage_command" where
  "buildCapabilityGrantCommand tw cap grantedToken =
     \<lparr>mc_verb = cap, mc_params = [(''verb'', JString ''capability.grant''), (''granted-token'', tw_json tw grantedToken)]\<rparr>"

definition sendCapabilityGrant ::
    "session_env \<Rightarrow> moment \<Rightarrow> token_wire \<Rightarrow> string \<Rightarrow> cose_sign1 \<Rightarrow> capability_scope \<Rightarrow> device_id option \<Rightarrow> session_op" where
  "sendCapabilityGrant env m tw cap grantedToken scp target =
     sendManageRequest env m (buildCapabilityGrantCommand tw cap grantedToken) scp target None"

definition capabilityGrantSchema :: "token_wire \<Rightarrow> (string \<times> json_value) list \<Rightarrow> cose_sign1 option" where
  "capabilityGrantSchema tw params =
     (if jget params ''verb'' \<noteq> Some (JString ''capability.grant'') then None
      else Option.bind (jget params ''granted-token'') (tw_schema tw))"

record grant_event =
  ge_capability :: string
  ge_grantedToken :: cose_sign1
  ge_scope :: capability_scope
  ge_granterDevice :: device_id

record grant_options =
  go_capability :: string
  go_env :: verify_env
  go_granterDevice :: device_id
  go_wire :: token_wire

datatype grant_effect = GrantAnswers manage_outcome | OnGrant grant_event

definition handleCapabilityGrant :: "nat \<Rightarrow> grant_options \<Rightarrow> manage_request \<Rightarrow> grant_effect list option" where
  "handleCapabilityGrant fuel opts incoming =
     (let refuse = (\<lambda>code. Some [GrantAnswers (ManageError code None)]); env = (go_env opts)\<lparr>env_extra := []\<rparr>
      in if mc_verb (mr_command incoming) \<noteq> go_capability opts then refuse ''malformed''
         else case capabilityGrantSchema (go_wire opts) (mc_params (mr_command incoming)) of
                None \<Rightarrow> refuse ''malformed''
              | Some grantedToken \<Rightarrow>
                  (case verifyCapabilityToken fuel env grantedToken (Some (deviceId (env_identity env))) of
                     None \<Rightarrow> None
                   | Some (Refused r) \<Rightarrow> refuse (reasonCode r)
                   | Some (Accepted claims _ _ _) \<Rightarrow>
                       if capability claims \<noteq> go_capability opts then refuse ''capability_mismatch''
                       else if \<not> scopeNarrows (scope claims) (mr_scope incoming) then refuse ''scope_mismatch''
                       else Some [GrantAnswers (ManageOk []),
                                  OnGrant \<lparr>ge_capability = go_capability opts, ge_grantedToken = grantedToken,
                                           ge_scope = mr_scope incoming, ge_granterDevice = go_granterDevice opts\<rparr>]))"

subsection \<open>Candidates in the gossip\<close>

definition GOSSIP_CANDIDATES_KEY :: string where "GOSSIP_CANDIDATES_KEY = ''capability-request/candidates''"

record grant_candidate =
  gc_capability :: string
  gc_scope :: capability_scope
  gc_delegationsRemaining :: "int option"

definition scopeJson :: "capability_scope \<Rightarrow> json_value" where
  "scopeJson s = JObject ((''kind'', JString (kind s)) # (case path s of Some p \<Rightarrow> [(''path'', JString p)] | None \<Rightarrow> []))"

definition candidateJson :: "grant_candidate \<Rightarrow> json_value" where
  "candidateJson c =
     JObject ([(''capability'', JString (gc_capability c)), (''scope'', scopeJson (gc_scope c))]
       @ (case gc_delegationsRemaining c of Some n \<Rightarrow> [(''delegations-remaining'', JNumber n)] | None \<Rightarrow> []))"

definition capabilityScopeSchema :: "json_value \<Rightarrow> capability_scope option" where
  "capabilityScopeSchema j =
     (case j of
        JObject kvs \<Rightarrow>
          (case (jget kvs ''kind'', jget kvs ''path'') of
             (Some (JString k), None) \<Rightarrow> Some \<lparr>kind = k, path = None\<rparr>
           | (Some (JString k), Some (JString p)) \<Rightarrow> Some \<lparr>kind = k, path = Some p\<rparr>
           | _ \<Rightarrow> None)
      | _ \<Rightarrow> None)"

definition grantCandidateSchema :: "json_value \<Rightarrow> grant_candidate option" where
  "grantCandidateSchema j =
     (case j of
        JObject kvs \<Rightarrow>
          (case (jget kvs ''capability'', Option.bind (jget kvs ''scope'') capabilityScopeSchema) of
             (Some (JString cap), Some scp) \<Rightarrow>
               (case jget kvs ''delegations-remaining'' of
                  None \<Rightarrow> Some \<lparr>gc_capability = cap, gc_scope = scp, gc_delegationsRemaining = None\<rparr>
                | Some (JNumber n) \<Rightarrow>
                    if n < 0 then None else Some \<lparr>gc_capability = cap, gc_scope = scp, gc_delegationsRemaining = Some n\<rparr>
                | Some _ \<Rightarrow> None)
           | _ \<Rightarrow> None)
      | _ \<Rightarrow> None)"

definition grantCandidateListSchema :: "json_value \<Rightarrow> grant_candidate list option" where
  "grantCandidateListSchema j = (case j of JArray js \<Rightarrow> those (map grantCandidateSchema js) | _ \<Rightarrow> None)"

definition advertiseGrantCandidates :: "session_env \<Rightarrow> moment \<Rightarrow> grant_candidate list \<Rightarrow> session_op" where
  "advertiseGrantCandidates env m candidates = sendGossipUpdate env m [(GOSSIP_CANDIDATES_KEY, JArray (map candidateJson candidates))]"

definition qualifies :: "string \<Rightarrow> capability_scope \<Rightarrow> grant_candidate \<Rightarrow> bool" where
  "qualifies cap scp c \<longleftrightarrow> gc_capability c = cap \<and> (case gc_delegationsRemaining c of None \<Rightarrow> True | Some n \<Rightarrow> n > 0)
     \<and> scopeNarrows (gc_scope c) scp"

fun firstCandidate :: "string \<Rightarrow> capability_scope \<Rightarrow> grant_candidate list \<Rightarrow> bool" where
  "firstCandidate cap scp [] = False"
| "firstCandidate cap scp (c # cs) = (if qualifies cap scp c then True else firstCandidate cap scp cs)"

fun findGrantCandidate :: "(device_id \<times> peer_advert) list \<Rightarrow> string \<Rightarrow> capability_scope \<Rightarrow> device_id option" where
  "findGrantCandidate [] cap scp = None"
| "findGrantCandidate ((d, advert) # rest) cap scp =
     (case Option.bind (jget (extensions advert) GOSSIP_CANDIDATES_KEY) grantCandidateListSchema of
        None \<Rightarrow> findGrantCandidate rest cap scp
      | Some candidates \<Rightarrow> if firstCandidate cap scp candidates then Some d else findGrantCandidate rest cap scp)"

lemma capabilityScopeSchema_json [simp]: "capabilityScopeSchema (scopeJson s) = Some s"
  by (cases s) (auto simp: capabilityScopeSchema_def scopeJson_def split: option.splits)

lemma grantCandidateSchema_json:
  "(case gc_delegationsRemaining c of None \<Rightarrow> True | Some n \<Rightarrow> n \<ge> 0) \<Longrightarrow> grantCandidateSchema (candidateJson c) = Some c"
  by (cases c) (auto simp: grantCandidateSchema_def candidateJson_def split: option.splits)

lemma firstCandidate_iff: "firstCandidate cap scp cs \<longleftrightarrow> list_ex (qualifies cap scp) cs"
  by (induction cs) auto

text \<open>The first device of the directory that advertises a qualifying candidate, and no other.\<close>

lemma findGrantCandidate_find:
  "findGrantCandidate directory cap scp =
     map_option fst (find (\<lambda>(d, advert). case Option.bind (jget (extensions advert) GOSSIP_CANDIDATES_KEY) grantCandidateListSchema of
        None \<Rightarrow> False | Some cs \<Rightarrow> list_ex (qualifies cap scp) cs) directory)"
  by (induction directory cap scp rule: findGrantCandidate.induct) (auto simp: firstCandidate_iff split: option.splits)

lemma those_map_Some: "list_all (\<lambda>x. f x = Some (g x)) xs \<Longrightarrow> those (map f xs) = Some (map g xs)"
  by (induction xs) auto

lemma advertised_candidates_read:
  assumes "list_all (\<lambda>c. case gc_delegationsRemaining c of None \<Rightarrow> True | Some n \<Rightarrow> n \<ge> 0) cs"
  shows "grantCandidateListSchema (JArray (map candidateJson cs)) = Some cs"
  using those_map_Some [of "\<lambda>c. grantCandidateSchema (candidateJson c)" id cs] assms
  by (simp add: grantCandidateListSchema_def list_all_iff grantCandidateSchema_json o_def)

end
