(* ===== verification/CapabilityProperties.thy ===== *)
theory CapabilityProperties
  imports CapabilityGrants TokenProperties
begin

text \<open>
  What asking and granting promise: a request is answered once, by the domain or by its timer, never by
  both; an answer with a token follows a decision of the domain on a request that was admitted; and the
  token that arrives is one every verifier accepts, whether it was asked for or pushed.
\<close>

subsection \<open>Answers are counted\<close>

text \<open>
  The contract of whatever answers at most so many times: a bound on the answers still to come that every
  step pays from.
\<close>

locale answer_budget =
  fixes step :: "'e \<Rightarrow> 's \<Rightarrow> ('o list \<times> 's) option" and isAnswer :: "'o \<Rightarrow> bool" and budget :: "'s \<Rightarrow> nat"
  assumes paid: "step e s = Some (fx, s') \<Longrightarrow> length (filter isAnswer fx) + budget s' \<le> budget s"
begin

fun run :: "'e list \<Rightarrow> 's \<Rightarrow> ('o list \<times> 's) option" where
  "run [] s = Some ([], s)"
| "run (e # es) s = (case step e s of None \<Rightarrow> None
     | Some (fx, s') \<Rightarrow> (case run es s' of None \<Rightarrow> None | Some (gx, s'') \<Rightarrow> Some (fx @ gx, s'')))"

lemma run_paid: "run es s = Some (fx, s') \<Longrightarrow> length (filter isAnswer fx) + budget s' \<le> budget s"
proof (induction es arbitrary: s fx)
  case (Cons e es)
  then obtain fx1 s1 gx where step: "step e s = Some (fx1, s1)" and rest: "run es s1 = Some (gx, s')" "fx = fx1 @ gx"
    by (auto split: option.splits)
  then show ?case using paid [OF step] Cons.IH [OF rest(1)] by simp
qed simp

lemma run_snoc:
  "run (es @ [e]) s = (case run es s of None \<Rightarrow> None
     | Some (fx, s') \<Rightarrow> (case step e s' of None \<Rightarrow> None | Some (gx, s'') \<Rightarrow> Some (fx @ gx, s'')))"
  by (induction es arbitrary: s) (auto split: option.splits)

end

definition answersTo :: "nat \<Rightarrow> request_effect \<Rightarrow> bool" where
  "answersTo i x \<longleftrightarrow> (case x of Answers j _ \<Rightarrow> j = i | _ \<Rightarrow> False)"

definition stillToAnswer :: "nat \<Rightarrow> request_handler \<Rightarrow> nat" where
  "stillToAnswer i h = (if i \<ge> rh_arrivals h then 1 else 0)
     + (case jget (rh_pending h) i of Some p \<Rightarrow> if pr_settled p then 0 else 1 | None \<Rightarrow> 0)"

lemmas request_defs = handleCapabilityRequest_def requestTimeout_def decideRequest_def settleRequest_def requestStep_def Let_def

lemma arrival_cases:
  assumes "handleCapabilityRequest fuel opts now incoming h = Some (fx, h')"
  obtains (refused) code where "fx = [Answers (rh_arrivals h) (ManageError code None)]" "h' = h\<lparr>rh_arrivals := Suc (rh_arrivals h)\<rparr>"
  | (threw) "fx = [HandlerThrows (rh_arrivals h)]" "h' = h\<lparr>rh_arrivals := Suc (rh_arrivals h)\<rparr>"
  | (asked) validUntil where "capabilityRequestSchema (mc_params (mr_command incoming)) = Some (ro_capability opts, validUntil)"
      "case validUntil of None \<Rightarrow> True | Some t \<Rightarrow> now < t"
      "ro_requireRequestToken opts \<Longrightarrow> checkRequestPermission fuel opts now incoming = Some Permitted"
      "fx = [AsksDomain (rh_arrivals h) (mr_scope incoming) (ro_bearerDevice opts)]"
      "h' = h\<lparr>rh_arrivals := Suc (rh_arrivals h),
              rh_pending := jset (rh_pending h) (rh_arrivals h) \<lparr>pr_scope = mr_scope incoming, pr_settled = False\<rparr>\<rparr>"
  using assms by (auto simp: handleCapabilityRequest_def Let_def split: option.splits if_splits permission.splits)

interpretation requests: answer_budget "requestStep fuel opts" "answersTo i" "stillToAnswer i" for fuel opts i
proof
  fix e h fx h' assume step: "requestStep fuel opts e h = Some (fx, h')"
  show "length (filter (answersTo i) fx) + stillToAnswer i h' \<le> stillToAnswer i h"
  proof (cases e)
    case (RequestArrives now incoming)
    with step have "handleCapabilityRequest fuel opts now incoming h = Some (fx, h')" by (simp add: requestStep_def)
    then show ?thesis by (cases rule: arrival_cases) (auto simp: answersTo_def stillToAnswer_def split: option.splits)
  qed (use step in \<open>auto simp: request_defs answersTo_def stillToAnswer_def split: option.splits if_splits\<close>)
qed

lemma reach_run: "request_reach fuel opts es fx h \<Longrightarrow> requests.run fuel opts es createCapabilityRequestHandler = Some (fx, h)"
  by (induction rule: request_reach.induct) (simp_all add: requests.run_snoc)

lemma settled_was_answered:
  "request_reach fuel opts es fx h \<Longrightarrow> jget (rh_pending h) i = Some p \<Longrightarrow> pr_settled p \<Longrightarrow> filter (answersTo i) fx \<noteq> []"
proof (induction arbitrary: p rule: request_reach.induct)
  case (request_next es fx h e fx' h')
  show ?case
  proof (cases e)
    case (RequestArrives now incoming)
    with request_next.hyps(2) have "handleCapabilityRequest fuel opts now incoming h = Some (fx', h')" by (simp add: requestStep_def)
    then show ?thesis
      using request_next.prems request_next.IH by (cases rule: arrival_cases) (auto split: if_splits)
  qed (use request_next in \<open>auto simp: request_defs answersTo_def split: option.splits if_splits\<close>)
qed (simp add: createCapabilityRequestHandler_def)

text \<open>C30: a capability request is answered at most once, and one that reached the domain exactly once by the time
  its timer has fired: whatever decisions and timers there are, in any order, an undecided request has no
  answer yet, a settled one has exactly one, and when the timer fires the request has its one answer. Signing
  the token of a granted request is taken not to fail.
\<close>

theorem requests_answered_once:
  assumes "request_reach fuel opts es fx h"
  shows "length (filter (answersTo i) fx) \<le> 1
    \<and> (case jget (rh_pending h) i of
          None \<Rightarrow> True
        | Some p \<Rightarrow> length (filter (answersTo i) fx) = (if pr_settled p then 1 else 0)
            \<and> length (filter (answersTo i) (fx @ fst (requestTimeout i h))) = 1)"
proof -
  have spent: "length (filter (answersTo i) fx) + stillToAnswer i h \<le> 1"
    using requests.run_paid [OF reach_run [OF assms], of i] by (simp add: stillToAnswer_def createCapabilityRequestHandler_def)
  show ?thesis
  proof (cases "jget (rh_pending h) i")
    case (Some p)
    then show ?thesis
      using spent settled_was_answered [OF assms Some]
      by (cases "pr_settled p") (auto simp: stillToAnswer_def requestTimeout_def answersTo_def Suc_le_eq le_Suc_eq split: if_splits)
  qed (use spent in simp)
qed

subsection \<open>Answers with a token\<close>

definition admitted :: "nat \<Rightarrow> request_options \<Rightarrow> int \<Rightarrow> manage_request \<Rightarrow> bool" where
  "admitted fuel opts now incoming \<longleftrightarrow>
     (\<exists>validUntil. capabilityRequestSchema (mc_params (mr_command incoming)) = Some (ro_capability opts, validUntil)
        \<and> (case validUntil of None \<Rightarrow> True | Some t \<Rightarrow> now < t))
     \<and> (ro_requireRequestToken opts \<longrightarrow> checkRequestPermission fuel opts now incoming = Some Permitted)"

lemma Permitted_iff:
  "checkRequestPermission fuel opts now incoming = Some Permitted \<longleftrightarrow>
     (\<exists>token revocation claims root key d. mr_token incoming = Some token \<and> ro_revocation opts = Some revocation
        \<and> verifyCapabilityToken fuel (requestEnv opts revocation now) token (Some (ro_bearerDevice opts)) = Some (Accepted claims root key d)
        \<and> capability claims = MANAGE_REQUEST_CAPABILITY \<and> requests_capability claims \<in> {None, Some (ro_capability opts)}
        \<and> scopeNarrows (scope claims) (mr_scope incoming))"
  by (auto simp: checkRequestPermission_def split: option.splits token_verdict.splits if_splits)

lemma step_pending:
  assumes "requestStep fuel opts e h = Some (fx, h')" and "jget (rh_pending h') i = Some p"
  shows "(\<exists>q. jget (rh_pending h) i = Some q \<and> pr_scope q = pr_scope p)
    \<or> (\<exists>now incoming. e = RequestArrives now incoming \<and> i = rh_arrivals h \<and> admitted fuel opts now incoming \<and> pr_scope p = mr_scope incoming)"
proof (cases e)
  case (RequestArrives now incoming)
  with assms(1) have "handleCapabilityRequest fuel opts now incoming h = Some (fx, h')" by (simp add: requestStep_def)
  then show ?thesis
    using assms(2) RequestArrives by (cases rule: arrival_cases) (auto simp: admitted_def split: if_splits)
qed (use assms in \<open>auto simp: request_defs split: option.splits if_splits\<close>)

text \<open>The requests that arrived in a run, in order: the handler numbers them by their position.\<close>

fun arrivalOf :: "request_event \<Rightarrow> (int \<times> manage_request) option" where
  "arrivalOf (RequestArrives now incoming) = Some (now, incoming)"
| "arrivalOf e = None"

definition arrivals :: "request_event list \<Rightarrow> (int \<times> manage_request) list" where
  "arrivals es = List.map_filter arrivalOf es"

lemma arrivals_simps [simp]:
  "arrivals [] = []" "arrivals (es @ [RequestArrives now incoming]) = arrivals es @ [(now, incoming)]"
  "arrivalOf e = None \<Longrightarrow> arrivals (es @ [e]) = arrivals es"
  by (simp_all add: arrivals_def List.map_filter_def)

lemma step_numbers:
  assumes "requestStep fuel opts e h = Some (fx, h')" and "rh_arrivals h = length (arrivals es)"
  shows "rh_arrivals h' = length (arrivals (es @ [e]))"
proof (cases e)
  case (RequestArrives now incoming)
  with assms(1) have "handleCapabilityRequest fuel opts now incoming h = Some (fx, h')" by (simp add: requestStep_def)
  then show ?thesis using assms(2) RequestArrives by (cases rule: arrival_cases) auto
qed (use assms in \<open>auto simp: request_defs split: option.splits if_splits\<close>)

lemma arrivals_numbered: "request_reach fuel opts es fx h \<Longrightarrow> rh_arrivals h = length (arrivals es)"
  by (induction rule: request_reach.induct) (auto simp: createCapabilityRequestHandler_def intro: step_numbers)

lemma pending_admitted:
  "request_reach fuel opts es fx h \<Longrightarrow> jget (rh_pending h) i = Some p \<Longrightarrow>
     \<exists>now incoming. i < length (arrivals es) \<and> arrivals es ! i = (now, incoming)
       \<and> admitted fuel opts now incoming \<and> pr_scope p = mr_scope incoming"
proof (induction arbitrary: p rule: request_reach.induct)
  case (request_next es fx h e fx' h')
  from step_pending [OF request_next.hyps(2) request_next.prems] show ?case
  proof (elim disjE exE conjE)
    fix q assume "jget (rh_pending h) i = Some q" "pr_scope q = pr_scope p"
    with request_next.IH obtain now incoming where "i < length (arrivals es)" "arrivals es ! i = (now, incoming)"
      "admitted fuel opts now incoming" "pr_scope p = mr_scope incoming" by metis
    then show ?thesis by (cases e) (auto simp: nth_append)
  next
    fix now incoming assume "e = RequestArrives now incoming" "i = rh_arrivals h" "admitted fuel opts now incoming" "pr_scope p = mr_scope incoming"
    then show ?thesis using arrivals_numbered [OF request_next.hyps(1)] by auto
  qed
qed (simp add: createCapabilityRequestHandler_def)

lemma step_ok_answer:
  assumes "requestStep fuel opts e h = Some (fx, h')" and "Answers i (ManageOk flds) \<in> set fx"
  shows "\<exists>p now tokenId cap expiry delegations extra tok. jget (rh_pending h) i = Some p
    \<and> e = DomainDecides now tokenId i (AcceptGrant cap expiry delegations extra)
    \<and> mintCapabilityToken (ro_codec opts) (ro_evaluator opts) (grantOptions opts now tokenId (pr_scope p) cap expiry delegations) = Ok tok
    \<and> flds = grantFields (ro_wire opts) tok extra"
proof (cases e)
  case (RequestArrives now incoming)
  with assms(1) have "handleCapabilityRequest fuel opts now incoming h = Some (fx, h')" by (simp add: requestStep_def)
  then show ?thesis using assms(2) by (cases rule: arrival_cases) auto
qed (use assms in \<open>auto simp: request_defs grantOutcome_def split: option.splits if_splits grant_decision.splits sum.splits\<close>)

text \<open>C31: a token is handed out only by a decision of the domain on a request it was shown. An answer to the
  i-th request that carries one belongs to an accepting decision on the i-th request; that request named the
  handler's capability and had not expired, and where requests are gated it came with a request permission,
  borne by the peer, that verifies and covers its scope; the token is minted for that peer and the scope of
  that very request, on the terms of that decision.
\<close>

theorem grants_follow_decisions:
  assumes "request_reach fuel opts es fx h" and "Answers i (ManageOk flds) \<in> set fx"
  shows "\<exists>asked incoming now tokenId cap expiry delegations extra tok.
    i < length (arrivals es) \<and> arrivals es ! i = (asked, incoming)
    \<and> DomainDecides now tokenId i (AcceptGrant cap expiry delegations extra) \<in> set es
    \<and> (\<exists>validUntil. capabilityRequestSchema (mc_params (mr_command incoming)) = Some (ro_capability opts, validUntil)
         \<and> (case validUntil of None \<Rightarrow> True | Some t \<Rightarrow> asked < t))
    \<and> (ro_requireRequestToken opts \<longrightarrow>
         (\<exists>token revocation claims root key d. mr_token incoming = Some token \<and> ro_revocation opts = Some revocation
            \<and> verifyCapabilityToken fuel (requestEnv opts revocation asked) token (Some (ro_bearerDevice opts)) = Some (Accepted claims root key d)
            \<and> capability claims = MANAGE_REQUEST_CAPABILITY \<and> requests_capability claims \<in> {None, Some (ro_capability opts)}
            \<and> scopeNarrows (scope claims) (mr_scope incoming)))
    \<and> mintCapabilityToken (ro_codec opts) (ro_evaluator opts)
        (grantOptions opts now tokenId (mr_scope incoming) cap expiry delegations) = Ok tok
    \<and> flds = grantFields (ro_wire opts) tok extra"
  using assms
proof (induction rule: request_reach.induct)
  case (request_next es fx h e fx' h')
  show ?case
  proof (cases "Answers i (ManageOk flds) \<in> set fx")
    case True
    have grows: "i < length (arrivals es) \<Longrightarrow> i < length (arrivals (es @ [e])) \<and> arrivals (es @ [e]) ! i = arrivals es ! i"
      by (cases e) (auto simp: nth_append)
    from request_next.IH [OF True] grows show ?thesis by (elim exE conjE) (intro exI conjI, auto)
  next
    case False
    with request_next.prems have "Answers i (ManageOk flds) \<in> set fx'" by simp
    from step_ok_answer [OF request_next.hyps(2) this] obtain p now tokenId cap expiry delegations extra tok where
      p: "jget (rh_pending h) i = Some p" and e: "e = DomainDecides now tokenId i (AcceptGrant cap expiry delegations extra)"
      and tok: "mintCapabilityToken (ro_codec opts) (ro_evaluator opts) (grantOptions opts now tokenId (pr_scope p) cap expiry delegations) = Ok tok"
        "flds = grantFields (ro_wire opts) tok extra" by blast
    from pending_admitted [OF request_next.hyps(1) p] obtain asked incoming where
      "i < length (arrivals es)" "arrivals es ! i = (asked, incoming)" "admitted fuel opts asked incoming" "pr_scope p = mr_scope incoming" by blast
    moreover have "arrivals (es @ [e]) = arrivals es" by (simp add: e)
    ultimately show ?thesis using e tok unfolding admitted_def Permitted_iff
      by (intro exI [of _ asked] exI [of _ incoming] exI [of _ now] exI [of _ tokenId] exI [of _ cap] exI [of _ expiry]
          exI [of _ delegations] exI [of _ extra] exI [of _ tok]) simp
  qed
qed simp

subsection \<open>A token that arrives\<close>

lemma jget_fold_jset_notin: "k \<notin> fst ` set extra \<Longrightarrow> jget (fold (\<lambda>(k, v) flds. jset flds k v) extra flds) k = jget flds k"
  by (induction extra arbitrary: flds) (auto simp: case_prod_beta)

lemma granted_mint:
  "mintCapabilityToken codec ev (grantOptions opts now tokenId scp cap expiry delegations) =
     (if expiry \<le> now then Err already_expired
      else Ok (signEnvelope codec (ro_identity opts) (enc_claims codec (mintClaims codec (grantOptions opts now tokenId scp cap expiry delegations)))))"
  by (simp add: mintCapabilityToken_def mintRefusal_def grantOptions_def)

lemma granted_verifies:
  assumes "mintCapabilityToken (env_codec env) ev (grantOptions opts now tokenId scp cap expiry delegations) = Ok tok"
    and "mint_accepted_by env (grantOptions opts now tokenId scp cap expiry delegations)"
  shows "verifyCapabilityToken (Suc fuel) (env\<lparr>env_extra := x\<rparr>) tok (Some (ro_bearerDevice opts)) =
    Some (Accepted (mintClaims (env_codec env) (grantOptions opts now tokenId scp cap expiry delegations))
            (deviceId (ro_identity opts)) (identityKey (ro_identity opts)) 0)"
proof -
  have "mint_accepted_by (env\<lparr>env_extra := x\<rparr>) (grantOptions opts now tokenId scp cap expiry delegations)"
    using assms(2) by (simp add: mint_accepted_by_def grantOptions_def mintClaims_def unconditional)
  from minted_root_verifies [OF _ this, of ev tok fuel] assms(1) show ?thesis
    by (simp add: verifyCapabilityToken_def checkBearer_def mintClaims_def grantOptions_def)
qed

text \<open>what is granted arrives and works. When the domain accepts an open request with an expiry in the future,
  the answer is one the asker reads as a token; every verifier that knows the granter's key, the clock not past
  the expiry and the token not revoked, accepts it for the asker with the granter as its root; and pushed
  instead of asked for, the asker's handler takes the same token and tells its domain.
\<close>

theorem granted_token_arrives:
  assumes "jget (rh_pending h) i = Some p" and "\<not> pr_settled p" and "now < expiry"
    and "o' = grantOptions opts now tokenId (pr_scope p) cap expiry delegations"
    and "tok = signEnvelope (ro_codec opts) (ro_identity opts) (enc_claims (ro_codec opts) (mintClaims (ro_codec opts) o'))"
    and "tw_schema (ro_wire opts) (tw_json (ro_wire opts) tok) = Some tok" and "fst ` set extra \<inter> {''result'', ''granted-token''} = {}"
    and "env_codec env = ro_codec opts" and "mint_accepted_by env o'"
    and "deviceId (env_identity env) = ro_bearerDevice opts" and "scopeNarrows (pr_scope p) (pr_scope p)"
  shows "\<exists>flds. fst (decideRequest opts now tokenId i (AcceptGrant cap expiry delegations extra) h) = [Answers i (ManageOk flds)]
      \<and> requestCapabilityResult (ro_wire opts) cap (ManageOk flds) = Ok (tok, flds)
    \<and> verifyCapabilityToken (Suc fuel) env tok (Some (ro_bearerDevice opts)) =
        Some (Accepted (mintClaims (ro_codec opts) o') (deviceId (ro_identity opts)) (identityKey (ro_identity opts)) 0)
    \<and> handleCapabilityGrant (Suc fuel) \<lparr>go_capability = cap, go_env = env, go_granterDevice = deviceId (ro_identity opts), go_wire = ro_wire opts\<rparr>
          \<lparr>mr_requestId = n, mr_command = buildCapabilityGrantCommand (ro_wire opts) cap tok, mr_scope = pr_scope p, mr_token = None\<rparr> =
        Some [GrantAnswers (ManageOk []),
              OnGrant \<lparr>ge_capability = cap, ge_grantedToken = tok, ge_scope = pr_scope p, ge_granterDevice = deviceId (ro_identity opts)\<rparr>]"
proof (intro exI conjI)
  let ?flds = "grantFields (ro_wire opts) tok extra"
  have mint: "mintCapabilityToken (env_codec env) (ro_evaluator opts) o' = Ok tok"
    using assms(3-5,8) by (simp add: granted_mint)
  then show "fst (decideRequest opts now tokenId i (AcceptGrant cap expiry delegations extra) h) = [Answers i (ManageOk ?flds)]"
    using assms(1,2,4,8) by (simp add: decideRequest_def grantOutcome_def)
  have "jget ?flds ''result'' = None" "jget ?flds ''granted-token'' = Some (tw_json (ro_wire opts) tok)"
    using assms(7) unfolding grantFields_def by (subst jget_fold_jset_notin; auto)+
  then show "requestCapabilityResult (ro_wire opts) cap (ManageOk ?flds) = Ok (tok, ?flds)"
    using assms(6) by (simp add: requestCapabilityResult_def capabilityGrantOkSchema_def)
  note verifies = granted_verifies [OF mint [unfolded assms(4)] assms(9) [unfolded assms(4)]]
  from verifies [of fuel "env_extra env"] show "verifyCapabilityToken (Suc fuel) env tok (Some (ro_bearerDevice opts)) =
      Some (Accepted (mintClaims (ro_codec opts) o') (deviceId (ro_identity opts)) (identityKey (ro_identity opts)) 0)"
    by (simp add: assms(4,8))
  have claims: "capability (mintClaims (env_codec env) o') = cap" "scope (mintClaims (env_codec env) o') = pr_scope p"
    by (simp_all add: assms(4) mintClaims_def grantOptions_def)
  show "handleCapabilityGrant (Suc fuel) \<lparr>go_capability = cap, go_env = env, go_granterDevice = deviceId (ro_identity opts), go_wire = ro_wire opts\<rparr>
          \<lparr>mr_requestId = n, mr_command = buildCapabilityGrantCommand (ro_wire opts) cap tok, mr_scope = pr_scope p, mr_token = None\<rparr> =
        Some [GrantAnswers (ManageOk []),
              OnGrant \<lparr>ge_capability = cap, ge_grantedToken = tok, ge_scope = pr_scope p, ge_granterDevice = deviceId (ro_identity opts)\<rparr>]"
    using verifies [of fuel "[]"] assms(6,10,11) claims
    by (simp add: handleCapabilityGrant_def buildCapabilityGrantCommand_def capabilityGrantSchema_def Let_def assms(4))
qed

subsection \<open>A request, its gate and its answer\<close>

definition q_permission :: token_claims where
  "q_permission = (w_claims 20 1 2 ''manage:request'' ''/work'' 100 None)"

definition q_codec :: cbor_codec where
  "q_codec = w_codec\<lparr>dec_claims := map_of [([100, 10], w_root_claims), ([100, 20], q_permission)]\<rparr>"

definition q_wire :: token_wire where
  "q_wire = \<lparr>tw_json = (\<lambda>t. JBytes (signature t)), tw_schema = (\<lambda>_. Some (w_token 10))\<rparr>"

definition q_options :: request_options where
  "q_options = \<lparr>ro_capability = ''room:send'', ro_codec = q_codec, ro_identity = w_port 1, ro_evaluator = kleene_eval,
     ro_revocation = Some (\<lambda>_. []), ro_requireRequestToken = True, ro_extra = None, ro_bearerDevice = [2], ro_wire = q_wire\<rparr>"

definition q_request :: manage_request where
  "q_request = \<lparr>mr_requestId = 0, mr_command = buildCapabilityRequestCommand ''room:send'' (Some 30),
     mr_scope = \<lparr>kind = ''room'', path = Some ''/work''\<rparr>, mr_token = Some (w_token 20)\<rparr>"

definition q_asked :: request_handler where
  "q_asked = \<lparr>rh_arrivals = 1, rh_pending = [(0, \<lparr>pr_scope = \<lparr>kind = ''room'', path = Some ''/work''\<rparr>, pr_settled = False\<rparr>)]\<rparr>"

definition q_events :: "request_event list" where
  "q_events = [RequestArrives 20 q_request, DomainDecides 20 [10] 0 (AcceptGrant ''room:send'' 100 None [])]"

lemmas q_defs = q_permission_def q_codec_def q_wire_def q_options_def q_request_def q_asked_def q_events_def w_defs

lemma q_arrives: "requestStep 5 q_options (RequestArrives 20 q_request) createCapabilityRequestHandler =
    Some ([AsksDomain 0 \<lparr>kind = ''room'', path = Some ''/work''\<rparr> [2]], q_asked)"
  by code_simp

lemma q_granted: "fst (decideRequest q_options 20 [10] 0 (AcceptGrant ''room:send'' 100 None []) q_asked) =
    [Answers 0 (ManageOk [(''granted-token'', JBytes [100, 10])])]"
  by code_simp

lemma q_reach:
  "\<exists>h. request_reach 5 q_options q_events
     [AsksDomain 0 \<lparr>kind = ''room'', path = Some ''/work''\<rparr> [2], Answers 0 (ManageOk [(''granted-token'', JBytes [100, 10])])] h"
proof -
  obtain h where "requestStep 5 q_options (DomainDecides 20 [10] 0 (AcceptGrant ''room:send'' 100 None [])) q_asked =
      Some ([Answers 0 (ManageOk [(''granted-token'', JBytes [100, 10])])], h)"
    using q_granted by (cases "decideRequest q_options 20 [10] 0 (AcceptGrant ''room:send'' 100 None []) q_asked") (simp add: requestStep_def)
  from request_next [OF request_next [OF request_start q_arrives] this] show ?thesis by (auto simp: q_events_def)
qed

theorem requests_answered_once_witness:
  "\<exists>fx h. request_reach 5 q_options q_events fx h \<and> length (filter (answersTo 0) fx) = 1 \<and> length (filter (answersTo 0) fx) \<le> 1"
proof -
  obtain h where r: "request_reach 5 q_options q_events
     [AsksDomain 0 \<lparr>kind = ''room'', path = Some ''/work''\<rparr> [2], Answers 0 (ManageOk [(''granted-token'', JBytes [100, 10])])] h"
    using q_reach by blast
  have "length (filter (answersTo 0) [AsksDomain 0 \<lparr>kind = ''room'', path = Some ''/work''\<rparr> [2],
      Answers 0 (ManageOk [(''granted-token'', JBytes [100, 10])])]) = 1" by (simp add: answersTo_def)
  with r requests_answered_once [OF r, of 0] show ?thesis by blast
qed

theorem grants_follow_decisions_witness:
  "\<exists>token claims root key d. arrivals q_events ! 0 = (20, q_request) \<and> mr_token q_request = Some token
     \<and> verifyCapabilityToken 5 (requestEnv q_options (\<lambda>_. []) 20) token (Some [2]) = Some (Accepted claims root key d)
     \<and> capability claims = MANAGE_REQUEST_CAPABILITY"
proof -
  obtain h where r: "request_reach 5 q_options q_events
     [AsksDomain 0 \<lparr>kind = ''room'', path = Some ''/work''\<rparr> [2], Answers 0 (ManageOk [(''granted-token'', JBytes [100, 10])])] h"
    using q_reach by blast
  have gate: "ro_requireRequestToken q_options" "ro_revocation q_options = Some (\<lambda>_. [])" "ro_bearerDevice q_options = [2]"
    by (simp_all add: q_options_def)
  have first: "arrivals q_events ! 0 = (20, q_request)" by (simp add: q_events_def arrivals_def List.map_filter_def)
  have "Answers 0 (ManageOk [(''granted-token'', JBytes [100, 10])]) \<in> set [AsksDomain 0 \<lparr>kind = ''room'', path = Some ''/work''\<rparr> [2],
      Answers 0 (ManageOk [(''granted-token'', JBytes [100, 10])])]" by simp
  from grants_follow_decisions [OF r this] obtain token claims root key d where "mr_token q_request = Some token"
    "verifyCapabilityToken 5 (requestEnv q_options (\<lambda>_. []) 20) token (Some [2]) = Some (Accepted claims root key d)"
    "capability claims = MANAGE_REQUEST_CAPABILITY"
    using gate first by (elim exE conjE) auto
  with first show ?thesis by blast
qed

lemma q_accepted: "mint_accepted_by (w_env\<lparr>env_codec := q_codec, env_identity := w_port 2\<rparr>)
    (grantOptions q_options 20 [10] \<lparr>kind = ''room'', path = Some ''/work''\<rparr> ''room:send'' 100 None)"
  by (simp add: mint_accepted_by_def keypair_ok_def mintClaims_def grantOptions_def q_defs)

theorem granted_token_arrives_witness:
  "verifyCapabilityToken 2 (w_env\<lparr>env_codec := q_codec, env_identity := w_port 2\<rparr>) (w_token 10) (Some [2]) =
     Some (Accepted (mintClaims q_codec (grantOptions q_options 20 [10] \<lparr>kind = ''room'', path = Some ''/work''\<rparr> ''room:send'' 100 None))
       [1] \<lparr>alg = -7, public_key = [1]\<rparr> 0)"
proof -
  let ?o = "grantOptions q_options 20 [10] \<lparr>kind = ''room'', path = Some ''/work''\<rparr> ''room:send'' 100 None"
  let ?p = "\<lparr>pr_scope = \<lparr>kind = ''room'', path = Some ''/work''\<rparr>, pr_settled = False\<rparr>"
  have tok: "w_token 10 = signEnvelope (ro_codec q_options) (ro_identity q_options) (enc_claims (ro_codec q_options) (mintClaims (ro_codec q_options) ?o))"
    by code_simp
  have "\<exists>flds. fst (decideRequest q_options 20 [10] 0 (AcceptGrant ''room:send'' 100 None []) q_asked) = [Answers 0 (ManageOk flds)]
      \<and> requestCapabilityResult (ro_wire q_options) ''room:send'' (ManageOk flds) = Ok (w_token 10, flds)
    \<and> verifyCapabilityToken (Suc 1) (w_env\<lparr>env_codec := q_codec, env_identity := w_port 2\<rparr>) (w_token 10) (Some (ro_bearerDevice q_options)) =
        Some (Accepted (mintClaims (ro_codec q_options) ?o) (deviceId (ro_identity q_options)) (identityKey (ro_identity q_options)) 0)
    \<and> handleCapabilityGrant (Suc 1) \<lparr>go_capability = ''room:send'', go_env = w_env\<lparr>env_codec := q_codec, env_identity := w_port 2\<rparr>,
          go_granterDevice = deviceId (ro_identity q_options), go_wire = ro_wire q_options\<rparr>
          \<lparr>mr_requestId = 0, mr_command = buildCapabilityGrantCommand (ro_wire q_options) ''room:send'' (w_token 10),
           mr_scope = pr_scope ?p, mr_token = None\<rparr> =
        Some [GrantAnswers (ManageOk []), OnGrant \<lparr>ge_capability = ''room:send'', ge_grantedToken = w_token 10, ge_scope = pr_scope ?p,
          ge_granterDevice = deviceId (ro_identity q_options)\<rparr>]"
    by (rule granted_token_arrives [where o' = ?o and p = ?p])
      (use tok q_accepted in \<open>simp_all add: q_options_def q_asked_def q_wire_def w_port_def scopeNarrows_def pathNarrows_def
        hasRelativeSegment_def\<close>)
  moreover have "ro_bearerDevice q_options = [2]" "ro_codec q_options = q_codec" "deviceId (ro_identity q_options) = [1]"
    "identityKey (ro_identity q_options) = \<lparr>alg = -7, public_key = [1]\<rparr>" "Suc 1 = 2"
    by (simp_all add: q_options_def w_port_def)
  ultimately show ?thesis by metis
qed

end
