(* ===== verification/Expansion.thy ===== *)
theory Expansion
  imports CapabilityProperties
begin

text \<open>
  Reaching devices beside the session: \<open>gossip-expansion.ts\<close>, which dials the devices a session's gossip
  names, and \<open>direct-manage-request.ts\<close>, one request over a connection of its own, both under
  \<open>ts/packages/core/src/domain/\<close>. Each waits for callbacks of its caller or for the network; every one of them
  settling is an event, in any order.
\<close>

subsection \<open>Expansion\<close>

record expansion_candidate =
  ec_device :: device_id
  ec_addresses :: "string list"

text \<open>Where the attempt for one cand stands.\<close>

datatype attempt =
    AwaitsPolicy expansion_candidate
  | AwaitsDial expansion_candidate string "string list" "string list"
  | AttemptOver

record expansion =
  ex_selfHex :: string
  ex_considered :: "string list"
  ex_attempts :: "attempt list"

definition createGossipExpansion :: "device_id \<Rightarrow> expansion" where
  "createGossipExpansion selfDeviceId = \<lparr>ex_selfHex = deviceIdToHex selfDeviceId, ex_considered = [], ex_attempts = []\<rparr>"

datatype 's expansion_effect =
    AsksPolicy nat expansion_candidate
  | DialsAddress nat string
  | Expanded nat expansion_candidate string 's
  | Declined nat expansion_candidate
  | ExpansionFailed nat expansion_candidate "string list"

definition considerExpansion :: "device_id \<Rightarrow> string list \<Rightarrow> expansion \<Rightarrow> 's expansion_effect list \<times> expansion" where
  "considerExpansion d addrs s =
     (let hex = deviceIdToHex d; cand = \<lparr>ec_device = d, ec_addresses = addrs\<rparr>
      in if hex = ex_selfHex s \<or> hex \<in> set (ex_considered s) \<or> length addrs = 0 then ([], s)
         else ([AsksPolicy (length (ex_attempts s)) cand],
               s\<lparr>ex_considered := ex_considered s @ [hex], ex_attempts := ex_attempts s @ [AwaitsPolicy cand]\<rparr>))"

definition dialInOrder :: "nat \<Rightarrow> expansion_candidate \<Rightarrow> string list \<Rightarrow> string list \<Rightarrow> expansion \<Rightarrow> 's expansion_effect list \<times> expansion" where
  "dialInOrder i cand addrs failures s =
     (case addrs of
        [] \<Rightarrow> ([ExpansionFailed i cand failures], s\<lparr>ex_attempts := (ex_attempts s)[i := AttemptOver]\<rparr>)
      | a # remaining \<Rightarrow> ([DialsAddress i a], s\<lparr>ex_attempts := (ex_attempts s)[i := AwaitsDial cand a remaining failures]\<rparr>))"

datatype policy_answer = Approves | Declines | PolicyThrows string

definition policyAnswers :: "nat \<Rightarrow> policy_answer \<Rightarrow> expansion \<Rightarrow> 's expansion_effect list \<times> expansion" where
  "policyAnswers i answer s =
     (if i \<ge> length (ex_attempts s) then ([], s)
      else case ex_attempts s ! i of
             AwaitsPolicy cand \<Rightarrow>
               (case answer of
                  PolicyThrows e \<Rightarrow> ([ExpansionFailed i cand [e]], s\<lparr>ex_attempts := (ex_attempts s)[i := AttemptOver]\<rparr>)
                | Declines \<Rightarrow> ([Declined i cand], s\<lparr>ex_attempts := (ex_attempts s)[i := AttemptOver]\<rparr>)
                | Approves \<Rightarrow> dialInOrder i cand (ec_addresses cand) [] s)
           | _ \<Rightarrow> ([], s))"

text \<open>
  A dial settles with a session, or fails; \<open>onExpanded\<close> runs inside the same \<open>try\<close>, so an error it throws
  (\<open>callback\<close>) counts as one of the dial.
\<close>

definition dialAnswers :: "nat \<Rightarrow> string + 's \<Rightarrow> string option \<Rightarrow> expansion \<Rightarrow> 's expansion_effect list \<times> expansion" where
  "dialAnswers i result callback s =
     (if i \<ge> length (ex_attempts s) then ([], s)
      else case ex_attempts s ! i of
             AwaitsDial cand a remaining failures \<Rightarrow>
               (case result of
                  Inl e \<Rightarrow> dialInOrder i cand remaining (failures @ [e]) s
                | Inr session \<Rightarrow>
                    (case callback of
                       None \<Rightarrow> ([Expanded i cand a session], s\<lparr>ex_attempts := (ex_attempts s)[i := AttemptOver]\<rparr>)
                     | Some e \<Rightarrow>
                         (case dialInOrder i cand remaining (failures @ [e]) s of
                            (fx, s') \<Rightarrow> (Expanded i cand a session # fx, s'))))
           | _ \<Rightarrow> ([], s))"

datatype 's expansion_event =
    AdvertSeen device_id "string list"
  | PolicySettles nat policy_answer
  | ExpansionDialSettles nat "string + 's" "string option"

definition expansionStep :: "'s expansion_event \<Rightarrow> expansion \<Rightarrow> 's expansion_effect list \<times> expansion" where
  "expansionStep event s =
     (case event of
        AdvertSeen d addrs \<Rightarrow> considerExpansion d addrs s
      | PolicySettles i answer \<Rightarrow> policyAnswers i answer s
      | ExpansionDialSettles i result callback \<Rightarrow> dialAnswers i result callback s)"

subsection \<open>Direct requests\<close>

definition acceptDirectManageRequest :: "mesh_frame option \<Rightarrow> incoming_request option" where
  "acceptDirectManageRequest first =
     (case first of Some (FManageRequest request) \<Rightarrow> Some \<lparr>ir_request = request, ir_origin = None\<rparr> | _ \<Rightarrow> None)"

datatype direct_effect =
    DirectSends mesh_frame
  | DirectCloses
  | DirectResolves manage_outcome
  | DirectRejects string

definition respondDirect :: "incoming_request \<Rightarrow> manage_outcome \<Rightarrow> direct_effect list" where
  "respondDirect incoming outcome = [DirectSends (FManageResponse (mr_requestId (ir_request incoming)) outcome), DirectCloses]"

text \<open>The request while it waits; \<open>dr_timer\<close> says whether a timeout was given.\<close>

record direct_request =
  dr_waiting :: bool
  dr_timer :: bool

definition sendDirectManageRequest ::
    "device_id option \<Rightarrow> device_id option \<Rightarrow> manage_command \<Rightarrow> capability_scope \<Rightarrow> cose_sign1 option \<Rightarrow> bool \<Rightarrow> string option
      \<Rightarrow> direct_effect list \<times> direct_request" where
  "sendDirectManageRequest expectedPeer linkPeer command scp token timed sendFails =
     (if (case (expectedPeer, linkPeer) of (Some e, Some p) \<Rightarrow> deviceIdToHex p \<noteq> deviceIdToHex e | _ \<Rightarrow> False)
      then ([DirectCloses, DirectRejects ''peer-device-id does not match the expected target''], \<lparr>dr_waiting = False, dr_timer = timed\<rparr>)
      else let frame = FManageRequest \<lparr>mr_requestId = 0, mr_command = command, mr_scope = scp, mr_token = token\<rparr>
           in case sendFails of
                Some e \<Rightarrow> ([DirectSends frame, DirectRejects e], \<lparr>dr_waiting = False, dr_timer = timed\<rparr>)
              | None \<Rightarrow> ([DirectSends frame], \<lparr>dr_waiting = True, dr_timer = timed\<rparr>))"

datatype direct_event = DirectFrame mesh_frame | DirectEnds | DirectTimeout

definition settleDirect :: "manage_outcome \<Rightarrow> direct_request \<Rightarrow> direct_effect list \<times> direct_request" where
  "settleDirect outcome s = ([DirectCloses, DirectResolves outcome], s\<lparr>dr_waiting := False\<rparr>)"

definition directStep :: "direct_event \<Rightarrow> direct_request \<Rightarrow> direct_effect list \<times> direct_request" where
  "directStep event s =
     (if \<not> dr_waiting s then ([], s)
      else case event of
             DirectFrame f \<Rightarrow> (case f of FManageResponse i outcome \<Rightarrow> if i = 0 then settleDirect outcome s else ([], s) | _ \<Rightarrow> ([], s))
           | DirectEnds \<Rightarrow> ([DirectRejects ''connection closed before a response arrived''], s\<lparr>dr_waiting := False\<rparr>)
           | DirectTimeout \<Rightarrow> if dr_timer s then settleDirect (ManageError ''timeout'' None) s else ([], s))"

subsection \<open>What an expansion does\<close>

inductive expansion_reach :: "device_id \<Rightarrow> 's expansion_event list \<Rightarrow> 's expansion_effect list \<Rightarrow> expansion \<Rightarrow> bool" for self where
  expansion_start: "expansion_reach self [] [] (createGossipExpansion self)"
| expansion_next: "expansion_reach self es fx s \<Longrightarrow> expansionStep e s = (fx', s') \<Longrightarrow> expansion_reach self (es @ [e]) (fx @ fx') s'"

definition askedFor :: "'s expansion_effect list \<Rightarrow> expansion_candidate list" where
  "askedFor fx = List.map_filter (\<lambda>x. case x of AsksPolicy _ c \<Rightarrow> Some c | _ \<Rightarrow> None) fx"

definition dialled :: "nat \<Rightarrow> 's expansion_effect list \<Rightarrow> string list" where
  "dialled i fx = List.map_filter (\<lambda>x. case x of DialsAddress j a \<Rightarrow> if j = i then Some a else None | _ \<Rightarrow> None) fx"

definition outcomeOf :: "nat \<Rightarrow> 's expansion_effect \<Rightarrow> bool" where
  "outcomeOf i x \<longleftrightarrow> (case x of Expanded j _ _ _ \<Rightarrow> j = i | Declined j _ \<Rightarrow> j = i | ExpansionFailed j _ _ \<Rightarrow> j = i | _ \<Rightarrow> False)"

definition callbackReturns :: "'s expansion_event \<Rightarrow> bool" where
  "callbackReturns e \<longleftrightarrow> (case e of ExpansionDialSettles _ _ (Some _) \<Rightarrow> False | _ \<Rightarrow> True)"

lemma trace_simps [simp]:
  "askedFor [] = []" "askedFor (fx @ gx) = askedFor fx @ askedFor gx" "askedFor (AsksPolicy j c # fx) = c # askedFor fx" "askedFor (DialsAddress j a # fx) = askedFor fx"
  "askedFor (Expanded j c a t # fx) = askedFor fx" "askedFor (Declined j c # fx) = askedFor fx" "askedFor (ExpansionFailed j c l # fx) = askedFor fx"
  "dialled i [] = []" "dialled i (fx @ gx) = dialled i fx @ dialled i gx" "dialled i (AsksPolicy j c # fx) = dialled i fx"
  "dialled i (DialsAddress j a # fx) = (if j = i then a # dialled i fx else dialled i fx)" "dialled i (Expanded j c a t # fx) = dialled i fx"
  "dialled i (Declined j c # fx) = dialled i fx" "dialled i (ExpansionFailed j c l # fx) = dialled i fx"
  by (simp_all add: askedFor_def dialled_def List.map_filter_def)

definition attemptOk :: "'s expansion_event list \<Rightarrow> 's expansion_effect list \<Rightarrow> nat \<Rightarrow> attempt \<Rightarrow> bool" where
  "attemptOk es fx i a \<longleftrightarrow>
     (case a of
        AwaitsPolicy c \<Rightarrow> c = askedFor fx ! i \<and> dialled i fx = []
      | AwaitsDial c _ remaining _ \<Rightarrow> c = askedFor fx ! i \<and> dialled i fx @ remaining = ec_addresses c \<and> PolicySettles i Approves \<in> set es
      | AttemptOver \<Rightarrow> prefix (dialled i fx) (ec_addresses (askedFor fx ! i)) \<and> (dialled i fx \<noteq> [] \<longrightarrow> PolicySettles i Approves \<in> set es))"

definition expansionOk :: "device_id \<Rightarrow> 's expansion_event list \<Rightarrow> 's expansion_effect list \<Rightarrow> expansion \<Rightarrow> bool" where
  "expansionOk self es fx s \<longleftrightarrow>
     ex_selfHex s = deviceIdToHex self \<and> ex_considered s = map (\<lambda>c. deviceIdToHex (ec_device c)) (askedFor fx)
     \<and> distinct (ex_considered s) \<and> ex_selfHex s \<notin> set (ex_considered s)
     \<and> length (ex_attempts s) = length (askedFor fx) \<and> (\<forall>i < length (askedFor fx). attemptOk es fx i (ex_attempts s ! i))
     \<and> (\<forall>i \<ge> length (askedFor fx). dialled i fx = [])"

lemma expansionOk_settle:
  assumes "expansionOk self es fx s" and "i < length (askedFor fx)" and "askedFor fx' = []"
    and "\<And>j. j \<noteq> i \<Longrightarrow> dialled j fx' = []" and "attemptOk (es @ [e]) (fx @ fx') i a"
  shows "expansionOk self (es @ [e]) (fx @ fx') (s\<lparr>ex_attempts := (ex_attempts s)[i := a]\<rparr>)"
proof -
  have "attemptOk (es @ [e]) (fx @ fx') j (ex_attempts s ! j)" if "j \<noteq> i" "j < length (askedFor fx)" for j
    using assms(1) that assms(3,4) by (auto simp: expansionOk_def attemptOk_def split: attempt.splits)
  then show ?thesis using assms by (auto simp: expansionOk_def nth_list_update)
qed

lemma dialInOrder_ok:
  assumes "expansionOk self es fx s" and "i < length (askedFor fx)" and "c = askedFor fx ! i"
    and "dialled i fx @ addrs = ec_addresses c" and "PolicySettles i Approves \<in> set (es @ [e])"
    and "dialInOrder i c addrs failures s = (fx', s')"
  shows "expansionOk self (es @ [e]) (fx @ fx') s'"
  using assms by (cases addrs) (auto simp: dialInOrder_def attemptOk_def prefix_def intro!: expansionOk_settle)

lemma expansionOk_stays: "expansionOk self es fx s \<Longrightarrow> expansionOk self (es @ [e]) fx s"
  by (auto simp: expansionOk_def attemptOk_def split: attempt.splits)

lemma expansionOk_cong:
  "askedFor fx = askedFor gx \<Longrightarrow> (\<And>i. dialled i fx = dialled i gx) \<Longrightarrow> expansionOk self es fx s = expansionOk self es gx s"
proof -
  assume same: "askedFor fx = askedFor gx" "\<And>i. dialled i fx = dialled i gx"
  then have "attemptOk es fx = attemptOk es gx" by (intro ext) (simp add: attemptOk_def split: attempt.split)
  with same show ?thesis by (simp add: expansionOk_def)
qed

lemma prefix_of_append: "xs @ ys = zs \<Longrightarrow> prefix xs zs"
  by auto

lemma considerExpansion_ok:
  assumes "expansionOk self es fx s" and "considerExpansion d addrs s = (fx', s')"
  shows "expansionOk self (es @ [e]) (fx @ fx') s'"
proof (cases "fx' = []")
  case True
  with assms have "s' = s" by (auto simp: considerExpansion_def Let_def split: if_splits)
  with True assms(1) show ?thesis by (simp add: expansionOk_stays)
next
  case False
  let ?c = "\<lparr>ec_device = d, ec_addresses = addrs\<rparr>"
  from False assms have new: "deviceIdToHex d \<noteq> ex_selfHex s" "deviceIdToHex d \<notin> set (ex_considered s)"
      "fx' = [AsksPolicy (length (ex_attempts s)) ?c]"
      "s' = s\<lparr>ex_considered := ex_considered s @ [deviceIdToHex d], ex_attempts := ex_attempts s @ [AwaitsPolicy ?c]\<rparr>"
    by (auto simp: considerExpansion_def Let_def split: if_splits)
  have "attemptOk (es @ [e]) (fx @ fx') i (ex_attempts s ! i)" if "i < length (askedFor fx)" for i
    using assms(1) that by (auto simp: new(3) expansionOk_def attemptOk_def nth_append split: attempt.splits)
  moreover have "attemptOk (es @ [e]) (fx @ fx') (length (askedFor fx)) (AwaitsPolicy ?c)"
    using assms(1) by (simp add: attemptOk_def new(3) expansionOk_def nth_append)
  ultimately have "\<forall>i < Suc (length (askedFor fx)). attemptOk (es @ [e]) (fx @ fx') i ((ex_attempts s @ [AwaitsPolicy ?c]) ! i)"
    using assms(1) by (auto simp: expansionOk_def nth_append less_Suc_eq)
  then show ?thesis using assms(1) new(1,2)
    by (auto simp: new(3,4) expansionOk_def)
qed

lemma expansionStep_ok:
  assumes "expansionOk self es fx s" and "expansionStep e s = (fx', s')"
  shows "expansionOk self (es @ [e]) (fx @ fx') s'"
proof (cases e)
  case (AdvertSeen d addrs)
  with assms show ?thesis using considerExpansion_ok by (auto simp: expansionStep_def)
next
  case (PolicySettles i answer)
  then have step: "policyAnswers i answer s = (fx', s')" using assms(2) by (simp add: expansionStep_def)
  show ?thesis
  proof (cases "i < length (ex_attempts s) \<and> (\<exists>c. ex_attempts s ! i = AwaitsPolicy c)")
    case False
    with step have "fx' = []" "s' = s" by (auto simp: policyAnswers_def split: attempt.splits if_splits)
    with assms(1) show ?thesis by (simp add: expansionOk_stays)
  next
    case True
    then obtain c where c: "ex_attempts s ! i = AwaitsPolicy c" and i: "i < length (askedFor fx)"
      using assms(1) by (auto simp: expansionOk_def)
    with assms(1) have ok: "c = askedFor fx ! i" "dialled i fx = []" by (auto simp: expansionOk_def attemptOk_def)
    show ?thesis
    proof (cases answer)
      case Approves
      with step c True have "dialInOrder i c (ec_addresses c) [] s = (fx', s')" by (simp add: policyAnswers_def)
      from dialInOrder_ok [OF assms(1) i ok(1) _ _ this, of e] ok(2) show ?thesis by (simp add: PolicySettles Approves)
    qed (use step c True assms(1) i ok in \<open>auto simp: policyAnswers_def attemptOk_def intro!: expansionOk_settle\<close>)
  qed
next
  case (ExpansionDialSettles i result callback)
  then have step: "dialAnswers i result callback s = (fx', s')" using assms(2) by (simp add: expansionStep_def)
  show ?thesis
  proof (cases "i < length (ex_attempts s) \<and> (\<exists>c a r l. ex_attempts s ! i = AwaitsDial c a r l)")
    case False
    with step have "fx' = []" "s' = s" by (auto simp: dialAnswers_def split: attempt.splits if_splits)
    with assms(1) show ?thesis by (simp add: expansionOk_stays)
  next
    case True
    then obtain c a r l where c: "ex_attempts s ! i = AwaitsDial c a r l" and i: "i < length (askedFor fx)"
      using assms(1) by (auto simp: expansionOk_def)
    with assms(1) have ok: "c = askedFor fx ! i" "dialled i fx @ r = ec_addresses c" "PolicySettles i Approves \<in> set (es @ [e])"
      by (auto simp: expansionOk_def attemptOk_def)
    note onward = dialInOrder_ok [OF assms(1) i ok(1,2,3)]
    show ?thesis
    proof (cases result)
      case (Inl f)
      with step c True have "dialInOrder i c r (l @ [f]) s = (fx', s')" by (simp add: dialAnswers_def)
      from onward [OF this] show ?thesis .
    next
      case (Inr t)
      show ?thesis
      proof (cases callback)
        case None
        with step c True Inr have "fx' = [Expanded i c a t]" "s' = s\<lparr>ex_attempts := (ex_attempts s)[i := AttemptOver]\<rparr>"
          by (simp_all add: dialAnswers_def)
        then show ?thesis using assms(1) i ok by (auto simp: attemptOk_def intro!: expansionOk_settle intro: prefix_of_append)
      next
        case (Some f)
        obtain gx :: "'a expansion_effect list" and s1 where d: "dialInOrder i c r (l @ [f]) s = (gx, s1)" by (metis prod.exhaust)
        with step c True Inr Some have "fx' = Expanded i c a t # gx" "s' = s1" by (simp_all add: dialAnswers_def)
        with onward [OF d] show ?thesis
          by (subst expansionOk_cong [where gx = "fx @ gx"]) simp_all
      qed
    qed
  qed
qed

lemma expansion_invariant: "expansion_reach self es fx s \<Longrightarrow> expansionOk self es fx s"
proof (induction rule: expansion_reach.induct)
  case expansion_start
  then show ?case by (simp add: expansionOk_def createGossipExpansion_def)
qed (rule expansionStep_ok)

definition outcomesLeft :: "nat \<Rightarrow> expansion \<Rightarrow> nat" where
  "outcomesLeft i s = (if i \<ge> length (ex_attempts s) then 1 else case ex_attempts s ! i of AttemptOver \<Rightarrow> 0 | _ \<Rightarrow> 1)"

interpretation outcomes: answer_budget "\<lambda>e s. if callbackReturns e then Some (expansionStep e s) else None" "outcomeOf i" "outcomesLeft i" for i
proof
  fix e s fx s' assume "(if callbackReturns e then Some (expansionStep e s) else None) = Some (fx, s')"
  then have step: "expansionStep e s = (fx, s')" and returns: "callbackReturns e" by (auto split: if_splits)
  note defs = expansionStep_def considerExpansion_def policyAnswers_def dialAnswers_def dialInOrder_def outcomeOf_def outcomesLeft_def Let_def
  show "length (filter (outcomeOf i) fx) + outcomesLeft i s' \<le> outcomesLeft i s"
    using step returns by (cases e)
      (auto simp: defs nth_append nth_list_update callbackReturns_def split: if_splits attempt.splits policy_answer.splits sum.splits option.splits list.splits)
qed

lemma outcomes_run:
  "expansion_reach self es fx s \<Longrightarrow> list_all callbackReturns es \<Longrightarrow> outcomes.run es (createGossipExpansion self) = Some (fx, s)"
  by (induction rule: expansion_reach.induct) (auto simp: outcomes.run_snoc split: option.splits)

text \<open>gossip is expanded on the caller's terms. Whatever adverts arrive and however decisions and dials settle,
  each device is put to the policy at most once and the device itself never; an address is dialled only
  after the policy approved that device, and a device's addresses in the order it advertised them; and as
  long as the caller's own callback does not throw, at most one outcome is reported per device.
\<close>

theorem expansion_follows_policy:
  assumes "expansion_reach self es fx s"
  shows "distinct (deviceIdToHex self # map (\<lambda>c. deviceIdToHex (ec_device c)) (askedFor fx))
    \<and> (dialled i fx \<noteq> [] \<longrightarrow> PolicySettles i Approves \<in> set es \<and> i < length (askedFor fx) \<and> prefix (dialled i fx) (ec_addresses (askedFor fx ! i)))
    \<and> (list_all callbackReturns es \<longrightarrow> length (filter (outcomeOf i) fx) \<le> 1)"
proof (intro conjI impI)
  note inv = expansion_invariant [OF assms, unfolded expansionOk_def]
  show "distinct (deviceIdToHex self # map (\<lambda>c. deviceIdToHex (ec_device c)) (askedFor fx))" using inv by auto
  assume dials: "dialled i fx \<noteq> []"
  then show i: "i < length (askedFor fx)" using inv by (meson not_le)
  with inv have "attemptOk es fx i (ex_attempts s ! i)" by simp
  with dials show "PolicySettles i Approves \<in> set es" "prefix (dialled i fx) (ec_addresses (askedFor fx ! i))"
    by (auto simp: attemptOk_def split: attempt.splits intro: prefix_of_append)
next
  assume "list_all callbackReturns es"
  from outcomes.run_paid [OF outcomes_run [OF assms this], of i] show "length (filter (outcomeOf i) fx) \<le> 1"
    by (auto simp: outcomesLeft_def split: if_splits attempt.splits)
qed

definition x_events :: "nat expansion_event list" where
  "x_events = [AdvertSeen [2] [''a'', ''b''], PolicySettles 0 Approves, ExpansionDialSettles 0 (Inl ''down'') None,
     ExpansionDialSettles 0 (Inr 7) None]"

lemma x_reach: "\<exists>s. expansion_reach [1] x_events [AsksPolicy 0 \<lparr>ec_device = [2], ec_addresses = [''a'', ''b'']\<rparr>, DialsAddress 0 ''a'', DialsAddress 0 ''b'',
    Expanded 0 \<lparr>ec_device = [2], ec_addresses = [''a'', ''b'']\<rparr> ''b'' 7] s"
proof -
  let ?c = "\<lparr>ec_device = [2], ec_addresses = [''a'', ''b'']\<rparr>"
  let ?s = "\<lambda>a. \<lparr>ex_selfHex = deviceIdToHex [1], ex_considered = [deviceIdToHex [2]], ex_attempts = [a]\<rparr>"
  have hex: "deviceIdToHex [2] \<noteq> deviceIdToHex [1]" by simp
  have "expansion_reach [1] [AdvertSeen [2] [''a'', ''b''] :: nat expansion_event] [AsksPolicy 0 ?c] (?s (AwaitsPolicy ?c))"
    using expansion_next [OF expansion_start [of "[1]"], of "AdvertSeen [2] [''a'', ''b'']" "[AsksPolicy 0 ?c]" "?s (AwaitsPolicy ?c)"] hex
    by (simp add: expansionStep_def considerExpansion_def createGossipExpansion_def Let_def)
  from expansion_next [OF this, of "PolicySettles 0 Approves" "[DialsAddress 0 ''a'']" "?s (AwaitsDial ?c ''a'' [''b''] [])"]
  have "expansion_reach [1] [AdvertSeen [2] [''a'', ''b''], PolicySettles 0 Approves :: nat expansion_event]
      [AsksPolicy 0 ?c, DialsAddress 0 ''a''] (?s (AwaitsDial ?c ''a'' [''b''] []))"
    by (simp add: expansionStep_def policyAnswers_def dialInOrder_def)
  from expansion_next [OF this, of "ExpansionDialSettles 0 (Inl ''down'') None" "[DialsAddress 0 ''b'']" "?s (AwaitsDial ?c ''b'' [] [''down''])"]
  have "expansion_reach [1] [AdvertSeen [2] [''a'', ''b''], PolicySettles 0 Approves, ExpansionDialSettles 0 (Inl ''down'') None :: nat expansion_event]
      [AsksPolicy 0 ?c, DialsAddress 0 ''a'', DialsAddress 0 ''b''] (?s (AwaitsDial ?c ''b'' [] [''down'']))"
    by (simp add: expansionStep_def dialAnswers_def dialInOrder_def)
  from expansion_next [OF this, of "ExpansionDialSettles 0 (Inr 7) None" "[Expanded 0 ?c ''b'' 7]" "?s AttemptOver"] show ?thesis
    by (auto simp: expansionStep_def dialAnswers_def x_events_def)
qed

theorem expansion_follows_policy_witness:
  "\<exists>fx s. expansion_reach [1] x_events fx s \<and> dialled 0 fx = [''a'', ''b''] \<and> PolicySettles 0 Approves \<in> set x_events
     \<and> length (filter (outcomeOf 0) fx) \<le> 1"
proof -
  let ?c = "\<lparr>ec_device = [2], ec_addresses = [''a'', ''b'']\<rparr>"
  let ?fx = "[AsksPolicy 0 ?c, DialsAddress 0 ''a'', DialsAddress 0 ''b'', Expanded 0 ?c ''b'' (7::nat)]"
  obtain s where r: "expansion_reach [1] x_events ?fx s" using x_reach by blast
  have "dialled 0 ?fx = [''a'', ''b'']" by simp
  moreover have "list_all callbackReturns x_events" by (simp add: x_events_def callbackReturns_def)
  ultimately have "dialled 0 ?fx = [''a'', ''b''] \<and> PolicySettles 0 Approves \<in> set x_events \<and> length (filter (outcomeOf 0) ?fx) \<le> 1"
    using expansion_follows_policy [OF r, of 0] by simp
  with r show ?thesis by blast
qed

text \<open>A callback that throws is taken for a failed dial: the next address is dialled although the first connected.\<close>

lemma throwing_callback_dials_on:
  "expansionStep (ExpansionDialSettles 0 (Inr session) (Some e))
      \<lparr>ex_selfHex = h, ex_considered = hs, ex_attempts = [AwaitsDial c a (b # rest) []]\<rparr> =
     ([Expanded 0 c a session, DialsAddress 0 b], \<lparr>ex_selfHex = h, ex_considered = hs, ex_attempts = [AwaitsDial c b rest [e]]\<rparr>)"
  by (simp add: expansionStep_def dialAnswers_def dialInOrder_def)

subsection \<open>What a direct request does\<close>

definition settlesDirect :: "direct_effect \<Rightarrow> bool" where
  "settlesDirect x \<longleftrightarrow> (case x of DirectResolves _ \<Rightarrow> True | DirectRejects _ \<Rightarrow> True | _ \<Rightarrow> False)"

interpretation direct: answer_budget "\<lambda>e s. Some (directStep e s)" settlesDirect "\<lambda>s. if dr_waiting s then 1 else 0"
  by unfold_locales
    (auto simp: directStep_def settleDirect_def settlesDirect_def split: if_splits direct_event.splits mesh_frame.splits)

lemma direct_start_paid:
  "sendDirectManageRequest expectedPeer linkPeer command scp token timed sendFails = (fx, s) \<Longrightarrow>
     length (filter settlesDirect fx) + (if dr_waiting s then 1 else 0) = 1"
  by (auto simp: sendDirectManageRequest_def settlesDirect_def Let_def split: if_splits option.splits)

text \<open>A request settles at most once, however many answers, timers and ends of the connection follow.\<close>

lemma direct_settles_once:
  assumes "sendDirectManageRequest expectedPeer linkPeer command scp token timed sendFails = (fx, s)"
    and "direct.run es s = Some (gx, s')"
  shows "length (filter settlesDirect (fx @ gx)) \<le> 1"
  using direct_start_paid [OF assms(1)] direct.run_paid [OF assms(2)] by (simp split: if_splits)

text \<open>A connection whose authenticated peer is another one carries nothing and is closed.\<close>

lemma direct_spoof_refused:
  "linkPeer = Some p \<Longrightarrow> p \<noteq> e \<Longrightarrow>
     sendDirectManageRequest (Some e) linkPeer command scp token timed sendFails =
       ([DirectCloses, DirectRejects ''peer-device-id does not match the expected target''], \<lparr>dr_waiting = False, dr_timer = timed\<rparr>)"
  by (simp add: sendDirectManageRequest_def)

text \<open>A send that fails rejects and leaves the connection open.\<close>

lemma direct_failed_send_leaks:
  "expectedPeer = None \<Longrightarrow> DirectCloses \<notin> set (fst (sendDirectManageRequest expectedPeer linkPeer command scp token timed (Some e)))"
  by (simp add: sendDirectManageRequest_def)

end
