(* ===== verification/PinnedAddresses.thy ===== *)
theory PinnedAddresses
  imports RoomPaths TokenPredicates
begin

text \<open>
  \<open>ts/packages/core/src/domain/pinned-address.ts\<close>: WebTransport addresses that carry the hashes of the
  certificates they may serve, and the message that announces the next ones. The platform's \<open>URL\<close> is an
  argument, from an address to its parts (\<open>None\<close> where the constructor throws), as is the CBOR codec. Hex is
  read two digits at a time; its callers give it lowercase digits.
\<close>

definition PIN_FRAGMENT :: string where "PIN_FRAGMENT = ''#sha256=''"
definition SHA256_BYTES :: nat where "SHA256_BYTES = 32"
definition MAX_ANNOUNCED_HASHES :: nat where "MAX_ANNOUNCED_HASHES = 8"

record url_parts =
  url_protocol :: string
  url_host :: string
  url_hash :: string
  url_withoutHash :: string

record pinned_address =
  pa_url :: string
  pa_sha256 :: "bytes list"

fun joinComma :: "string list \<Rightarrow> string" where
  "joinComma [] = []"
| "joinComma [x] = x"
| "joinComma (x # y # zs) = x @ CHR '','' # joinComma (y # zs)"

fun splitComma :: "string \<Rightarrow> string list" where
  "splitComma [] = [[]]"
| "splitComma (c # cs) = (if c = CHR '','' then [] # splitComma cs else (c # hd (splitComma cs)) # tl (splitComma cs))"

definition pinHexToBytes :: "string \<Rightarrow> bytes" where
  "pinHexToBytes hex = parseHexPairs hex"

definition formatPinnedAddress :: "string \<Rightarrow> string list \<Rightarrow> string" where
  "formatPinnedAddress hostPort sha256Hex = ''https://'' @ hostPort @ PIN_FRAGMENT @ joinComma sha256Hex"

definition stringIncludes :: "string \<Rightarrow> string \<Rightarrow> bool" where
  "stringIncludes s p = list_ex (\<lambda>i. startsWith (drop i s) p) [0..<Suc (length s)]"

definition isPinnedAddress :: "string \<Rightarrow> bool" where
  "isPinnedAddress address \<longleftrightarrow> startsWith address ''https://'' \<and> stringIncludes address PIN_FRAGMENT"

datatype pin_error = UrlInvalid | NotPinned string

definition parsePinnedAddress :: "(string \<Rightarrow> url_parts option) \<Rightarrow> string \<Rightarrow> pin_error + pinned_address" where
  "parsePinnedAddress parseUrl address =
     (case parseUrl address of
        None \<Rightarrow> Err UrlInvalid
      | Some url \<Rightarrow>
          let hashes = (if startsWith (url_hash url) PIN_FRAGMENT then splitComma (drop (length PIN_FRAGMENT) (url_hash url)) else [])
          in if url_protocol url \<noteq> ''https:'' \<or> length hashes = 0 \<or> \<not> list_all deviceIdHexPattern hashes then Err (NotPinned address)
             else Ok \<lparr>pa_url = url_withoutHash url, pa_sha256 = map pinHexToBytes hashes\<rparr>)"

definition hashesJson :: "string list \<Rightarrow> json_value" where
  "hashesJson sha256Hex = JObject [(''sha256'', JArray (map (\<lambda>h. JBytes (pinHexToBytes h)) sha256Hex))]"

definition encodeCertificateHashes :: "(json_value \<Rightarrow> bytes) \<Rightarrow> string list \<Rightarrow> bytes" where
  "encodeCertificateHashes enc sha256Hex = enc (hashesJson sha256Hex)"

datatype hashes_error = HashesUndecodable | HashesNotAMap | HashesCount nat | HashLength

definition announcedHash :: "json_value \<Rightarrow> bytes option" where
  "announcedHash j = (case j of JBytes b \<Rightarrow> if length b = SHA256_BYTES then Some b else None | _ \<Rightarrow> None)"

definition decodeCertificateHashes :: "(bytes \<Rightarrow> json_value option) \<Rightarrow> bytes \<Rightarrow> hashes_error + bytes list" where
  "decodeCertificateHashes dec bs =
     (case dec bs of
        None \<Rightarrow> Err HashesUndecodable
      | Some decoded \<Rightarrow>
          (case decoded of
             JObject kvs \<Rightarrow>
               (case jget kvs ''sha256'' of
                  Some (JArray announced) \<Rightarrow>
                    if length announced = 0 \<or> length announced > MAX_ANNOUNCED_HASHES then Err (HashesCount (length announced))
                    else (case those (map announcedHash announced) of None \<Rightarrow> Err HashLength | Some hashes \<Rightarrow> Ok hashes)
                | _ \<Rightarrow> Err HashesNotAMap)
           | _ \<Rightarrow> Err HashesNotAMap))"

text \<open>\<open>known\<close> is the set of the hex forms kept so far.\<close>

definition mergeHash :: "bytes \<Rightarrow> bytes list \<times> string list \<Rightarrow> bytes list \<times> string list" where
  "mergeHash hash acc =
     (case acc of (merged, known) \<Rightarrow>
        if bytesToHex hash \<in> set known then (merged, known) else (merged @ [hash], known @ [bytesToHex hash]))"

definition mergeHashes :: "bytes list \<Rightarrow> bytes list \<Rightarrow> bytes list" where
  "mergeHashes hashes more' = fst (fold mergeHash more' (hashes, map bytesToHex hashes))"

definition withPinnedHashes :: "(string \<Rightarrow> url_parts option) \<Rightarrow> string \<Rightarrow> bytes list \<Rightarrow> pin_error + string" where
  "withPinnedHashes parseUrl address sha256 =
     (case parsePinnedAddress parseUrl address of
        Inl e \<Rightarrow> Err e
      | Inr pinned \<Rightarrow>
          (case parseUrl (pa_url pinned) of
             None \<Rightarrow> Err UrlInvalid
           | Some parsed \<Rightarrow> Ok (formatPinnedAddress (url_host parsed) (map bytesToHex sha256))))"

subsection \<open>Round trips\<close>

lemma splitComma_nonempty [simp]: "splitComma s \<noteq> []"
  by (cases s) auto

lemma splitComma_none: "CHR '','' \<notin> set x \<Longrightarrow> splitComma x = [x]"
  by (induction x) auto

lemma splitComma_append: "CHR '','' \<notin> set x \<Longrightarrow> splitComma (x @ CHR '','' # s) = x # splitComma s"
  by (induction x) auto

lemma splitComma_joinComma: "xs \<noteq> [] \<Longrightarrow> list_all (\<lambda>x. CHR '','' \<notin> set x) xs \<Longrightarrow> splitComma (joinComma xs) = xs"
  by (induction xs rule: joinComma.induct) (auto simp: splitComma_none splitComma_append)

lemma hex_digits: "list_all hexChar (bytesToHex bs)"
proof (induction bs)
  case (Cons b bs)
  have "hexChar (hexDigits ! i)" if "i < 16" for i using that by (simp add: hexChar_def hexDigits_def [THEN arg_cong [where f = length], simplified] nth_mem)
  with Cons nibble_bounds show ?case by (simp add: bytesToHex_Cons del: bytesToHex.simps(2))
qed simp

lemma hex_no_comma: "CHR '','' \<notin> set (bytesToHex bs)"
proof
  assume "CHR '','' \<in> set (bytesToHex bs)"
  with hex_digits [of bs] have "CHR '','' \<in> set hexDigits" by (auto simp: list_all_iff hexChar_def)
  then show False by (simp add: hexDigits_def)
qed

lemma joined_hashes:
  assumes "hs \<noteq> []"
  shows "splitComma (joinComma (map bytesToHex hs)) = map bytesToHex hs"
  using assms by (intro splitComma_joinComma) (auto simp: list_all_iff hex_no_comma)

lemma mergeHash_pair [simp]:
  "mergeHash h (merged, known) = (if bytesToHex h \<in> set known then (merged, known) else (merged @ [h], known @ [bytesToHex h]))"
  by (simp add: mergeHash_def)

lemma mergeHashes_filter:
  "fold mergeHash ms (hs, map bytesToHex hs) = (r, k) \<Longrightarrow>
    k = map bytesToHex r \<and> prefix hs r \<and> set r = set hs \<union> set ms \<and> (distinct hs \<longrightarrow> distinct r)"
proof (induction ms arbitrary: hs)
  case (Cons m ms)
  show ?case
  proof (cases "m \<in> set hs")
    case True
    then have "bytesToHex m \<in> set (map bytesToHex hs)" by simp
    with Cons True show ?thesis by (auto simp: insert_absorb)
  next
    case False
    then have "bytesToHex m \<notin> set (map bytesToHex hs)" by auto
    with Cons.prems have "fold mergeHash ms (hs @ [m], map bytesToHex (hs @ [m])) = (r, k)" by simp
    from Cons.IH [OF this] False show ?thesis by (auto intro: append_prefixD)
  qed
qed auto

text \<open>pinned addresses carry their hashes. An address formatted from a host and one or more certificate
  hashes is recognised as pinned and parses back to them; replacing its hashes formats the same host with
  the new ones; an announcement of one to eight hashes decodes to them, and of none or more is refused;
  and merging keeps what was pinned, in order, and adds each new hash once.
\<close>

theorem pinned_address_roundtrip:
  assumes "\<And>fragment. parseUrl (''https://'' @ hostPort @ CHR ''#'' # fragment) =
      Some \<lparr>url_protocol = ''https:'', url_host = hostPort, url_hash = CHR ''#'' # fragment, url_withoutHash = href\<rparr>"
    and "map_option url_host (parseUrl href) = Some hostPort" and "hs \<noteq> []" and "list_all (\<lambda>h. length h = SHA256_BYTES) hs"
    and "address = formatPinnedAddress hostPort (map bytesToHex hs)"
    and "dec (enc (hashesJson (map bytesToHex hs))) = Some (hashesJson (map bytesToHex hs))"
  shows "isPinnedAddress address \<and> parsePinnedAddress parseUrl address = Ok \<lparr>pa_url = href, pa_sha256 = hs\<rparr>
    \<and> withPinnedHashes parseUrl address new = Ok (formatPinnedAddress hostPort (map bytesToHex new))
    \<and> decodeCertificateHashes dec (encodeCertificateHashes enc (map bytesToHex hs)) =
        (if length hs \<le> MAX_ANNOUNCED_HASHES then Ok hs else Err (HashesCount (length hs)))
    \<and> prefix hs (mergeHashes hs new) \<and> set (mergeHashes hs new) = set hs \<union> set new \<and> (distinct hs \<longrightarrow> distinct (mergeHashes hs new))"
proof (intro conjI)
  have url: "parseUrl address = Some \<lparr>url_protocol = ''https:'', url_host = hostPort,
      url_hash = PIN_FRAGMENT @ joinComma (map bytesToHex hs), url_withoutHash = href\<rparr>"
    using assms(1) [of "''sha256='' @ joinComma (map bytesToHex hs)"] by (simp add: assms(5) formatPinnedAddress_def PIN_FRAGMENT_def)
  have "startsWith (drop (length (''https://'' @ hostPort)) address) PIN_FRAGMENT"
    unfolding assms(5) formatPinnedAddress_def startsWith_def by (subst append_assoc [symmetric]) (simp add: PIN_FRAGMENT_def)
  moreover have "length (''https://'' @ hostPort) < Suc (length address)" by (simp add: assms(5) formatPinnedAddress_def)
  ultimately have "stringIncludes address PIN_FRAGMENT" unfolding stringIncludes_def list_ex_iff by (metis atLeastLessThan_iff le0 set_upt)
  then show "isPinnedAddress address" by (simp add: isPinnedAddress_def startsWith_def assms(5) formatPinnedAddress_def)
  show parsed: "parsePinnedAddress parseUrl address = Ok \<lparr>pa_url = href, pa_sha256 = hs\<rparr>"
  proof -
    have "list_all deviceIdHexPattern (map bytesToHex hs)"
      using assms(4) hex_digits by (simp add: list.pred_set deviceIdHexPattern_def SHA256_BYTES_def DEVICE_ID_HEX_LENGTH_def)
    then show ?thesis
      using assms(3) joined_hashes [OF assms(3)] by (simp add: parsePinnedAddress_def url startsWith_def pinHexToBytes_def o_def Let_def)
  qed
  show "withPinnedHashes parseUrl address new = Ok (formatPinnedAddress hostPort (map bytesToHex new))"
    using assms(2) by (auto simp: withPinnedHashes_def parsed)
  have "those (map announcedHash (map JBytes hs)) = Some hs"
    using assms(4) by (induction hs) (auto simp: announcedHash_def)
  moreover have "hashesJson (map bytesToHex hs) = JObject [(''sha256'', JArray (map JBytes hs))]"
    by (simp add: hashesJson_def pinHexToBytes_def o_def)
  ultimately show "decodeCertificateHashes dec (encodeCertificateHashes enc (map bytesToHex hs)) =
      (if length hs \<le> MAX_ANNOUNCED_HASHES then Ok hs else Err (HashesCount (length hs)))"
    using assms(3,6) by (simp add: decodeCertificateHashes_def encodeCertificateHashes_def)
  obtain r k where f: "fold mergeHash new (hs, map bytesToHex hs) = (r, k)" by fastforce
  then have "mergeHashes hs new = r" by (simp add: mergeHashes_def)
  with mergeHashes_filter [OF f]
  show "prefix hs (mergeHashes hs new)" "set (mergeHashes hs new) = set hs \<union> set new" "distinct hs \<longrightarrow> distinct (mergeHashes hs new)" by auto
qed

definition p_url :: "string \<Rightarrow> url_parts option" where
  "p_url s =
     (if s = ''https://h:1/'' then Some \<lparr>url_protocol = ''https:'', url_host = ''h:1'', url_hash = [], url_withoutHash = s\<rparr>
      else if take 12 s = ''https://h:1#''
      then Some \<lparr>url_protocol = ''https:'', url_host = ''h:1'', url_hash = drop 11 s, url_withoutHash = ''https://h:1/''\<rparr>
      else None)"

theorem pinned_address_roundtrip_witness:
  "parsePinnedAddress p_url (formatPinnedAddress ''h:1'' [bytesToHex (replicate 32 7)]) = Ok \<lparr>pa_url = ''https://h:1/'', pa_sha256 = [replicate 32 7]\<rparr>"
proof -
  let ?hs = "[replicate 32 (7 :: byte)]"
  have "parsePinnedAddress p_url (formatPinnedAddress ''h:1'' (map bytesToHex ?hs)) = Ok \<lparr>pa_url = ''https://h:1/'', pa_sha256 = ?hs\<rparr>"
    using pinned_address_roundtrip [of p_url "''h:1''" "''https://h:1/''" ?hs "formatPinnedAddress ''h:1'' (map bytesToHex ?hs)"
        "\<lambda>_. Some (hashesJson (map bytesToHex ?hs))" "\<lambda>_. []" "[]"]
    by (simp add: p_url_def SHA256_BYTES_def)
  then show ?thesis by simp
qed

end
