(* ===== verification/ThresholdWire.thy ===== *)
theory ThresholdWire
  imports Rooms TokenMinting
begin

text \<open>
  The messages of threshold signing: \<open>threshold-network.ts\<close>, \<open>threshold-subject.ts\<close>, \<open>threshold-share-envelope.ts\<close> and
  \<open>threshold-share-wire.ts\<close> of \<open>ts/packages/core/src/domain/\<close>, with the schemas of \<open>generated/protocol.ts\<close> they name. A
  \<open>bigint\<close> of the source is a \<open>nat\<close>, as is a session id on the wire, which is a double.
\<close>

subsection \<open>Commands\<close>

definition THRESHOLD_SIGN_VERB :: string where "THRESHOLD_SIGN_VERB = ''exadev.io/threshold:sign''"
definition THRESHOLD_KEYGEN_VERB :: string where "THRESHOLD_KEYGEN_VERB = ''exadev.io/threshold:keygen''"
definition THRESHOLD_RESHARE_VERB :: string where "THRESHOLD_RESHARE_VERB = ''exadev.io/threshold:reshare''"
definition THRESHOLD_GROUP_SCOPE :: capability_scope where "THRESHOLD_GROUP_SCOPE = \<lparr>kind = ''group'', path = None\<rparr>"

definition keygenCapabilityVerb :: "bool \<Rightarrow> string" where
  "keygenCapabilityVerb isReshare = (if isReshare then THRESHOLD_RESHARE_VERB else THRESHOLD_KEYGEN_VERB)"

definition hasVerb :: "(string \<times> json_value) list \<Rightarrow> string \<Rightarrow> bool" where
  "hasVerb params v \<longleftrightarrow> jget params ''verb'' = Some (JString v)"

definition isThresholdCommit :: "(string \<times> json_value) list \<Rightarrow> bool" where
  "isThresholdCommit params = hasVerb params ''threshold.commit''"
definition isThresholdSign :: "(string \<times> json_value) list \<Rightarrow> bool" where
  "isThresholdSign params = hasVerb params ''threshold.sign''"
definition isThresholdAbort :: "(string \<times> json_value) list \<Rightarrow> bool" where
  "isThresholdAbort params = hasVerb params ''threshold.abort''"
definition isThresholdKeygenRound1 :: "(string \<times> json_value) list \<Rightarrow> bool" where
  "isThresholdKeygenRound1 params = hasVerb params ''threshold.keygen-round1''"
definition isThresholdKeygenRound2 :: "(string \<times> json_value) list \<Rightarrow> bool" where
  "isThresholdKeygenRound2 params = hasVerb params ''threshold.keygen-round2''"
definition isThresholdKeygenConfirm :: "(string \<times> json_value) list \<Rightarrow> bool" where
  "isThresholdKeygenConfirm params = hasVerb params ''threshold.keygen-confirm''"

text \<open>
  \<open>Number(b)\<close> on a non-negative \<open>bigint\<close> below \<open>2 ^ 1024\<close>: a double keeps 53 significant bits, and the rest is rounded to
  the nearest, ties to the even one.
\<close>

function excessBits :: "nat \<Rightarrow> nat" where
  "excessBits n = (if n < 2 ^ 53 then 0 else Suc (excessBits (n div 2)))"
  by pat_completeness auto
termination by (relation "measure id") auto

declare excessBits.simps [simp del]

lemma excessBits_code [code]: "excessBits n = (if int n < 9007199254740992 then 0 else Suc (excessBits (n div 2)))"
  by (subst excessBits.simps) simp

definition numberOfBigInt :: "nat \<Rightarrow> nat" where
  "numberOfBigInt n =
     (let e = excessBits n; q = n div 2 ^ e; r = n mod 2 ^ e
      in (if 2 * r > 2 ^ e \<or> (2 * r = 2 ^ e \<and> odd q) then q + 1 else q) * 2 ^ e)"

record threshold_subject =
  ts_kind :: string
  ts_protected :: bytes
  ts_payload :: bytes

record threshold_commitment =
  tc_participant :: device_id
  tc_hiding :: bytes
  tc_binding :: bytes

definition subjectJson :: "threshold_subject \<Rightarrow> json_value" where
  "subjectJson s = JObject [(''kind'', JString (ts_kind s)), (''protected'', JBytes (ts_protected s)), (''payload'', JBytes (ts_payload s))]"

definition commitmentJson :: "threshold_commitment \<Rightarrow> json_value" where
  "commitmentJson c = JObject [(''participant'', JBytes (tc_participant c)), (''hiding'', JBytes (tc_hiding c)), (''binding'', JBytes (tc_binding c))]"

definition sessionField :: "nat \<Rightarrow> string \<times> json_value" where
  "sessionField sessionId = (''session-id'', JNumber (int (numberOfBigInt sessionId)))"

definition buildCommitCommand :: "nat \<Rightarrow> device_id \<Rightarrow> threshold_subject \<Rightarrow> int \<Rightarrow> manage_command" where
  "buildCommitCommand sessionId grp subject deadlineUnixMs =
     \<lparr>mc_verb = THRESHOLD_SIGN_VERB,
      mc_params = [(''verb'', JString ''threshold.commit''), sessionField sessionId, (''group'', JBytes grp),
                   (''subject'', subjectJson subject), (''deadline'', JNumber deadlineUnixMs)]\<rparr>"

definition buildSignCommand :: "nat \<Rightarrow> threshold_commitment list \<Rightarrow> manage_command" where
  "buildSignCommand sessionId commitments =
     \<lparr>mc_verb = THRESHOLD_SIGN_VERB,
      mc_params = [(''verb'', JString ''threshold.sign''), sessionField sessionId, (''commitments'', JArray (map commitmentJson commitments))]\<rparr>"

definition buildAbortCommand :: "nat \<Rightarrow> string option \<Rightarrow> manage_command" where
  "buildAbortCommand sessionId reason =
     \<lparr>mc_verb = THRESHOLD_SIGN_VERB,
      mc_params = [(''verb'', JString ''threshold.abort''), sessionField sessionId]
        @ (case reason of Some r \<Rightarrow> [(''reason'', JString r)] | None \<Rightarrow> [])\<rparr>"

record keygen_round1_options =
  kr_sessionId :: nat
  kr_threshold :: nat
  kr_participants :: "device_id list"
  kr_commitment :: "bytes list"
  kr_proofOfKnowledge :: "bytes option"
  kr_existingGroupKey :: "bytes option"

definition buildKeygenRound1Command :: "keygen_round1_options \<Rightarrow> manage_command" where
  "buildKeygenRound1Command opts =
     \<lparr>mc_verb = keygenCapabilityVerb (kr_existingGroupKey opts \<noteq> None),
      mc_params = [(''verb'', JString ''threshold.keygen-round1''), sessionField (kr_sessionId opts), (''threshold'', JNumber (int (kr_threshold opts))),
                   (''participants'', JArray (map JBytes (kr_participants opts))), (''commitment'', JArray (map JBytes (kr_commitment opts)))]
        @ (case kr_proofOfKnowledge opts of Some p \<Rightarrow> [(''proof-of-knowledge'', JBytes p)] | None \<Rightarrow> [])
        @ (case kr_existingGroupKey opts of Some k \<Rightarrow> [(''existing-group-key'', JBytes k)] | None \<Rightarrow> [])\<rparr>"

definition buildKeygenRound2Command :: "nat \<Rightarrow> bytes \<Rightarrow> bool \<Rightarrow> manage_command" where
  "buildKeygenRound2Command sessionId share isReshare =
     \<lparr>mc_verb = keygenCapabilityVerb isReshare,
      mc_params = [(''verb'', JString ''threshold.keygen-round2''), sessionField sessionId, (''share'', JBytes share)]\<rparr>"

definition buildKeygenConfirmCommand :: "nat \<Rightarrow> bytes \<Rightarrow> bytes \<Rightarrow> bool \<Rightarrow> manage_command" where
  "buildKeygenConfirmCommand sessionId transcriptDigest groupKey isReshare =
     \<lparr>mc_verb = keygenCapabilityVerb isReshare,
      mc_params = [(''verb'', JString ''threshold.keygen-confirm''), sessionField sessionId, (''transcript-digest'', JBytes transcriptDigest),
                   (''group-key'', JBytes groupKey)]\<rparr>"

subsection \<open>What the schemas read\<close>

definition sessionIdSchema :: "json_value option \<Rightarrow> nat option" where
  "sessionIdSchema j = (case j of Some (JNumber n) \<Rightarrow> if n < 0 then None else Some (nat n) | _ \<Rightarrow> None)"

definition bytesField :: "json_value option \<Rightarrow> bytes option" where
  "bytesField j = (case j of Some (JBytes b) \<Rightarrow> Some b | _ \<Rightarrow> None)"

definition deviceField :: "json_value option \<Rightarrow> device_id option" where
  "deviceField j = (case j of Some (JBytes b) \<Rightarrow> if length b = DEVICE_ID_LENGTH then Some b else None | _ \<Rightarrow> None)"

definition thresholdSubjectSchema :: "json_value option \<Rightarrow> threshold_subject option" where
  "thresholdSubjectSchema j =
     (case j of
        Some (JObject kvs) \<Rightarrow>
          (case (jget kvs ''kind'', bytesField (jget kvs ''protected''), bytesField (jget kvs ''payload'')) of
             (Some (JString k), Some p, Some b) \<Rightarrow> Some \<lparr>ts_kind = k, ts_protected = p, ts_payload = b\<rparr>
           | _ \<Rightarrow> None)
      | _ \<Rightarrow> None)"

definition thresholdCommitmentSchema :: "json_value \<Rightarrow> threshold_commitment option" where
  "thresholdCommitmentSchema j =
     (case j of
        JObject kvs \<Rightarrow>
          (case (deviceField (jget kvs ''participant''), bytesField (jget kvs ''hiding''), bytesField (jget kvs ''binding'')) of
             (Some d, Some h, Some b) \<Rightarrow> Some \<lparr>tc_participant = d, tc_hiding = h, tc_binding = b\<rparr>
           | _ \<Rightarrow> None)
      | _ \<Rightarrow> None)"

datatype threshold_params =
    CommitParams nat device_id threshold_subject int
  | SignParams nat "threshold_commitment list"
  | AbortParams nat
  | OtherParams

definition thresholdCommitSchema :: "(string \<times> json_value) list \<Rightarrow> threshold_params option" where
  "thresholdCommitSchema params =
     (case (sessionIdSchema (jget params ''session-id''), deviceField (jget params ''group''),
            thresholdSubjectSchema (jget params ''subject''), jget params ''deadline'') of
        (Some sid, Some g, Some s, Some (JNumber t)) \<Rightarrow> if t < 0 then None else Some (CommitParams sid g s t)
      | _ \<Rightarrow> None)"

definition thresholdSignSchema :: "(string \<times> json_value) list \<Rightarrow> threshold_params option" where
  "thresholdSignSchema params =
     (case (sessionIdSchema (jget params ''session-id''), jget params ''commitments'') of
        (Some sid, Some (JArray cs)) \<Rightarrow> map_option (SignParams sid) (those (map thresholdCommitmentSchema cs))
      | _ \<Rightarrow> None)"

definition thresholdAbortSchema :: "(string \<times> json_value) list \<Rightarrow> threshold_params option" where
  "thresholdAbortSchema params =
     (case (sessionIdSchema (jget params ''session-id''), jget params ''reason'') of
        (Some sid, None) \<Rightarrow> Some (AbortParams sid)
      | (Some sid, Some (JString _)) \<Rightarrow> Some (AbortParams sid)
      | _ \<Rightarrow> None)"

text \<open>The parameters of a command at the types the source declares for them; \<open>None\<close> where a field has another type.\<close>

definition thresholdParams :: "(string \<times> json_value) list \<Rightarrow> threshold_params option" where
  "thresholdParams params =
     (if isThresholdCommit params then thresholdCommitSchema params
      else if isThresholdSign params then thresholdSignSchema params
      else if isThresholdAbort params then thresholdAbortSchema params
      else Some OtherParams)"

subsection \<open>Subjects\<close>

definition KNOWN_KINDS :: "string list" where
  "KNOWN_KINDS = [''capability-token'', ''revocation-entry'', ''handle-record'', ''room-notice'']"

datatype subject_decision = Authorise | Refuse string

text \<open>\<open>JSON.stringify\<close> on a string.\<close>

definition jsonEscape :: "char \<Rightarrow> string" where
  "jsonEscape c =
     (let n = of_char c :: nat; esc = CHR 0x5C
      in if n = 0x22 then [esc, CHR 0x22] else if n = 0x5C then [esc, esc]
         else if n = 0x08 then [esc, CHR ''b''] else if n = 0x09 then [esc, CHR ''t''] else if n = 0x0A then [esc, CHR ''n'']
         else if n = 0x0C then [esc, CHR ''f''] else if n = 0x0D then [esc, CHR ''r'']
         else if n < 0x20 then esc # ''u00'' @ bytesToHex [of_nat n] else [c])"

definition jsonQuote :: "string \<Rightarrow> string" where
  "jsonQuote s = [CHR 0x22] @ concat (map jsonEscape s) @ [CHR 0x22]"

definition refuseUnrecognisedKind :: "string list \<Rightarrow> threshold_subject \<Rightarrow> subject_decision option" where
  "refuseUnrecognisedKind known subject =
     (if ts_kind subject \<in> set known then None
      else Some (Refuse (''unrecognised threshold-subject.kind '' @ jsonQuote (ts_kind subject) @ '' -- refusing to sign'')))"

definition toBeSigned :: "cbor_codec \<Rightarrow> threshold_subject \<Rightarrow> bytes" where
  "toBeSigned codec subject = sig1ToBeSigned codec (ts_protected subject) (ts_payload subject)"

subsection \<open>Share envelopes\<close>

record share_claims =
  sh_sessionId :: nat
  sh_group :: device_id
  sh_share :: bytes
  sh_issuer :: device_id
  sh_issuerKey :: identity_key

text \<open>The CBOR coder on share claims, with \<open>thresholdShareClaimsSchema\<close> behind the decoder.\<close>

record share_codec =
  enc_share :: "share_claims \<Rightarrow> bytes"
  dec_share :: "bytes \<Rightarrow> share_claims option"

definition mintShareEnvelope :: "cbor_codec \<Rightarrow> share_codec \<Rightarrow> identity_port \<Rightarrow> nat \<Rightarrow> device_id \<Rightarrow> bytes \<Rightarrow> cose_sign1" where
  "mintShareEnvelope codec sc personal sessionId grp share =
     signEnvelope codec personal
       (enc_share sc \<lparr>sh_sessionId = numberOfBigInt sessionId, sh_group = grp, sh_share = share,
                      sh_issuer = deviceId personal, sh_issuerKey = identityKey personal\<rparr>)"

definition verifyShareEnvelope :: "cbor_codec \<Rightarrow> share_codec \<Rightarrow> identity_port \<Rightarrow> cose_sign1 \<Rightarrow> share_claims option" where
  "verifyShareEnvelope codec sc identity envelope =
     (case payload envelope of
        None \<Rightarrow> None
      | Some body \<Rightarrow>
          (case dec_share sc body of
             None \<Rightarrow> None
           | Some claims \<Rightarrow>
               if \<not> bytesEqual (deriveDeviceId identity (public_key (sh_issuerKey claims))) (sh_issuer claims) then None
               else if \<not> verify identity (sh_issuerKey claims) (sig1ToBeSigned codec (protectedHeader envelope) body) (signature envelope) then None
               else Some claims))"

definition decodeShareEnvelopeBytes :: "cbor_codec \<Rightarrow> bytes \<Rightarrow> cose_sign1 option" where
  "decodeShareEnvelopeBytes codec b = dec_token codec b"

definition encodeShareEnvelope :: "cbor_codec \<Rightarrow> cose_sign1 \<Rightarrow> bytes" where
  "encodeShareEnvelope codec envelope = enc_token codec envelope"

subsection \<open>Round trips\<close>

lemma numberOfBigInt_exact [simp]: "n < 2 ^ 53 \<Longrightarrow> numberOfBigInt n = n"
  by (simp add: numberOfBigInt_def excessBits.simps [of n])

lemma numberOfBigInt_rounds: "numberOfBigInt (2 ^ 53 + 1) = 2 ^ 53"
  by (simp add: numberOfBigInt_def excessBits.simps)

lemma session_read: "sessionId < 2 ^ 53 \<Longrightarrow> sessionIdSchema (Some (snd (sessionField sessionId))) = Some sessionId"
  by (simp add: sessionIdSchema_def sessionField_def)

lemmas wire_defs = thresholdParams_def isThresholdCommit_def isThresholdSign_def isThresholdAbort_def hasVerb_def

lemma commit_read:
  assumes "sessionId < 2 ^ 53" "length grp = DEVICE_ID_LENGTH" "deadline \<ge> 0"
  shows "thresholdParams (mc_params (buildCommitCommand sessionId grp subject deadline)) = Some (CommitParams sessionId grp subject deadline)"
  using assms
  by (simp add: wire_defs buildCommitCommand_def sessionField_def thresholdCommitSchema_def sessionIdSchema_def
    deviceField_def thresholdSubjectSchema_def subjectJson_def bytesField_def)

lemma commitment_read: "length (tc_participant c) = DEVICE_ID_LENGTH \<Longrightarrow> thresholdCommitmentSchema (commitmentJson c) = Some c"
  by (simp add: thresholdCommitmentSchema_def commitmentJson_def deviceField_def bytesField_def)

lemma sign_read:
  assumes "sessionId < 2 ^ 53" "list_all (\<lambda>c. length (tc_participant c) = DEVICE_ID_LENGTH) cs"
  shows "thresholdParams (mc_params (buildSignCommand sessionId cs)) = Some (SignParams sessionId cs)"
proof -
  have "those (map (thresholdCommitmentSchema \<circ> commitmentJson) cs) = Some cs"
    using assms(2) by (induction cs) (simp_all add: commitment_read)
  with assms(1) show ?thesis
    by (simp add: wire_defs buildSignCommand_def sessionField_def thresholdSignSchema_def sessionIdSchema_def)
qed

lemma abort_read: "sessionId < 2 ^ 53 \<Longrightarrow> thresholdParams (mc_params (buildAbortCommand sessionId reason)) = Some (AbortParams sessionId)"
  by (cases reason) (simp_all add: wire_defs buildAbortCommand_def sessionField_def thresholdAbortSchema_def sessionIdSchema_def)

lemma envelope_verifies:
  assumes "sessionId < 2 ^ 53"
    and "\<And>claims. claims = \<lparr>sh_sessionId = sessionId, sh_group = grp, sh_share = share, sh_issuer = deviceId personal,
           sh_issuerKey = identityKey personal\<rparr> \<Longrightarrow> dec_share sc (enc_share sc claims) = Some claims"
    and "\<And>msg. verify identity (identityKey personal) msg (sign personal msg)"
    and "deriveDeviceId identity (public_key (identityKey personal)) = deviceId personal"
  shows "verifyShareEnvelope codec sc identity (mintShareEnvelope codec sc personal sessionId grp share) =
    Some \<lparr>sh_sessionId = sessionId, sh_group = grp, sh_share = share, sh_issuer = deviceId personal, sh_issuerKey = identityKey personal\<rparr>"
  using assms by (simp add: verifyShareEnvelope_def mintShareEnvelope_def signEnvelope_def Let_def)

end
