(* ===== verification/ThresholdParticipants.thy ===== *)
theory ThresholdParticipants
  imports ThresholdWire
begin

text \<open>
  The two sides of threshold signing, under \<open>ts/packages/core/src/adapters/\<close>: \<open>memory-nonce-store.ts\<close>,
  \<open>threshold-participant.ts\<close>, \<open>threshold-network-coordinator.ts\<close> and \<open>threshold-identity.ts\<close>, with the wrappers of
  \<open>threshold-wasm.ts\<close> they call. The WebAssembly module is a record of functions, \<open>None\<close> where it throws; what it draws at
  random is an argument of the draw. A participant handles one request at a time, so a request is one step;
  an error its loop does not catch ends the loop.
\<close>

subsection \<open>The module\<close>

record wasm_module =
  w_signing_round1_commit :: "bytes \<Rightarrow> bytes \<Rightarrow> (bytes \<times> bytes) option"
  w_split_commitments :: "bytes \<Rightarrow> (bytes \<times> bytes) option"
  w_combine_commitments :: "bytes \<Rightarrow> bytes \<Rightarrow> bytes option"
  w_signing_build_package :: "device_id list \<Rightarrow> bytes list \<Rightarrow> bytes \<Rightarrow> bytes option"
  w_signing_round2_sign :: "bytes \<Rightarrow> bytes \<Rightarrow> bytes \<Rightarrow> bytes option"
  w_signing_aggregate :: "bytes \<Rightarrow> device_id list \<Rightarrow> bytes list \<Rightarrow> bytes \<Rightarrow> bytes option"

record device_keyed =
  dk_deviceId :: device_id
  dk_value :: bytes

definition toParallelArrays :: "device_keyed list \<Rightarrow> device_id list \<times> bytes list" where
  "toParallelArrays entries = (map dk_deviceId entries, map dk_value entries)"

definition signingRound1Commit :: "wasm_module \<Rightarrow> bytes \<Rightarrow> bytes \<Rightarrow> (bytes \<times> bytes) option" where
  "signingRound1Commit w entropy ownKeyPackage = w_signing_round1_commit w entropy ownKeyPackage"

definition splitCommitments :: "wasm_module \<Rightarrow> bytes \<Rightarrow> (bytes \<times> bytes) option" where
  "splitCommitments w commitments = w_split_commitments w commitments"

definition combineCommitments :: "wasm_module \<Rightarrow> bytes \<Rightarrow> bytes \<Rightarrow> bytes option" where
  "combineCommitments w hiding binding = w_combine_commitments w hiding binding"

definition signingBuildPackage :: "wasm_module \<Rightarrow> device_keyed list \<Rightarrow> bytes \<Rightarrow> bytes option" where
  "signingBuildPackage w commitments message =
     (case toParallelArrays commitments of (ids, vals) \<Rightarrow> w_signing_build_package w ids vals message)"

definition signingRound2Sign :: "wasm_module \<Rightarrow> bytes \<Rightarrow> bytes \<Rightarrow> bytes \<Rightarrow> bytes option" where
  "signingRound2Sign w nonces signingPackage ownKeyPackage = w_signing_round2_sign w nonces signingPackage ownKeyPackage"

definition signingAggregate :: "wasm_module \<Rightarrow> bytes \<Rightarrow> device_keyed list \<Rightarrow> bytes \<Rightarrow> bytes option" where
  "signingAggregate w signingPackage shares publicKeyPackage =
     (case toParallelArrays shares of (ids, vals) \<Rightarrow> w_signing_aggregate w signingPackage ids vals publicKeyPackage)"

subsection \<open>Nonce stores\<close>

datatype nonce_store_error = AlreadyPersisted nat | NoncesUnavailable nat

record 'st nonce_port =
  np_persist :: "nat \<Rightarrow> bytes \<Rightarrow> 'st \<Rightarrow> nonce_store_error + 'st"
  np_take :: "nat \<Rightarrow> 'st \<Rightarrow> nonce_store_error + bytes \<times> 'st"
  np_discard :: "nat \<Rightarrow> 'st \<Rightarrow> 'st"

text \<open>
  What \<open>ports/nonce-store.ts\<close> asks of a store, over the pairs it holds: at most one pair for each session, handed out
  at most once. A store may refuse for reasons of its own.
\<close>

locale nonce_store =
  fixes port :: "'st nonce_port" and pairs :: "'st \<Rightarrow> nat \<rightharpoonup> bytes"
  assumes persisted: "np_persist port sid n st = Inr st' \<Longrightarrow> pairs st sid = None \<and> pairs st' = (pairs st)(sid \<mapsto> n)"
    and taken: "np_take port sid st = Inr (n, st') \<Longrightarrow> pairs st sid = Some n \<and> pairs st' = (pairs st)(sid := None)"
    and discarded: "pairs (np_discard port sid st) = (pairs st)(sid := None)"
begin

lemma take_once: "np_take port sid st = Inr (n, st') \<Longrightarrow> np_take port sid st' \<noteq> Inr (n', st'')"
  by (metis fun_upd_same option.distinct(1) taken)

lemma persist_once: "np_persist port sid n st = Inr st' \<Longrightarrow> np_persist port sid n' st' \<noteq> Inr st''"
  by (metis fun_upd_same option.distinct(1) persisted)

end

type_synonym memory_nonces = "(nat, bytes) jmap"

definition createMemoryNonceStore :: "memory_nonces nonce_port" where
  "createMemoryNonceStore =
     \<lparr>np_persist = (\<lambda>sessionId val nonces.
        if jget nonces sessionId \<noteq> None then Inl (AlreadyPersisted sessionId) else Inr (jset nonces sessionId val)),
      np_take = (\<lambda>sessionId nonces.
        case jget nonces sessionId of None \<Rightarrow> Inl (NoncesUnavailable sessionId) | Some val \<Rightarrow> Inr (val, jdel nonces sessionId)),
      np_discard = (\<lambda>sessionId nonces. jdel nonces sessionId)\<rparr>"

interpretation memory: nonce_store createMemoryNonceStore "\<lambda>nonces sid. jget nonces sid"
  by unfold_locales (auto simp: createMemoryNonceStore_def fun_eq_iff split: if_splits option.splits)

subsection \<open>The participant\<close>

record participant_options =
  po_codec :: cbor_codec
  po_share :: share_codec
  po_personalIdentity :: identity_port
  po_evaluator :: evaluator
  po_keyPackagesByGroup :: "(string, bytes) jmap"
  po_revocation :: "bytes \<Rightarrow> revocation_claims list"
  po_authorise :: "(threshold_subject \<Rightarrow> subject_decision option) option"

record signing_session =
  sg_message :: bytes
  sg_keyPackage :: bytes
  sg_group :: device_id

record 'st participant =
  pt_sessions :: "(string, signing_session) jmap"
  pt_nonces :: 'st
  pt_running :: bool

definition startThresholdParticipant :: "'st \<Rightarrow> 'st participant" where
  "startThresholdParticipant nonces = \<lparr>pt_sessions = [], pt_nonces = nonces, pt_running = True\<rparr>"

text \<open>A request with its parameters at their declared types.\<close>

record threshold_request =
  tr_verb :: string
  tr_token :: "cose_sign1 option"
  tr_params :: threshold_params

definition thresholdRequest :: "manage_request \<Rightarrow> threshold_request option" where
  "thresholdRequest r =
     map_option (\<lambda>ps. \<lparr>tr_verb = mc_verb (mr_command r), tr_token = mr_token r, tr_params = ps\<rparr>) (thresholdParams (mc_params (mr_command r)))"

definition participantEnv :: "participant_options \<Rightarrow> int \<Rightarrow> verify_env" where
  "participantEnv opts now =
     \<lparr>env_codec = po_codec opts, env_identity = po_personalIdentity opts, env_evaluator = po_evaluator opts, env_now = now,
      env_revocation = po_revocation opts, env_extra = []\<rparr>"

definition authorizeIncomingRequest :: "nat \<Rightarrow> participant_options \<Rightarrow> int \<Rightarrow> cose_sign1 option \<Rightarrow> bool option" where
  "authorizeIncomingRequest fuel opts now tok =
     (case tok of
        None \<Rightarrow> Some False
      | Some token \<Rightarrow>
          (case verifyCapabilityToken fuel (participantEnv opts now) token None of
             None \<Rightarrow> None
           | Some (Refused _) \<Rightarrow> Some False
           | Some (Accepted claims _ _ _) \<Rightarrow>
               Some (capability claims = THRESHOLD_SIGN_VERB \<and> kind (scope claims) = kind THRESHOLD_GROUP_SCOPE)))"

definition decideSubject :: "participant_options \<Rightarrow> threshold_subject \<Rightarrow> subject_decision" where
  "decideSubject opts subject =
     (case refuseUnrecognisedKind KNOWN_KINDS subject of
        Some refusal \<Rightarrow> refusal
      | None \<Rightarrow>
          (case po_authorise opts of
             None \<Rightarrow> Authorise
           | Some f \<Rightarrow> (case f subject of None \<Rightarrow> Authorise | Some d \<Rightarrow> d)))"

text \<open>Storing a pair, calling the module to sign with one, and answering.\<close>

datatype participant_effect =
    PersistsNonces nat bytes
  | SignsWith nat bytes bytes bytes
  | ParticipantAnswers manage_outcome

text \<open>An answer that cannot be sent throws.\<close>

definition answer :: "bool \<Rightarrow> manage_outcome \<Rightarrow> 'st participant \<Rightarrow> participant_effect list \<times> 'st participant" where
  "answer sent outcome pt = ([ParticipantAnswers outcome], pt\<lparr>pt_running := sent\<rparr>)"

definition stops :: "'st participant \<Rightarrow> 'st participant" where
  "stops pt = pt\<lparr>pt_running := False\<rparr>"

definition handleCommit ::
    "wasm_module \<Rightarrow> participant_options \<Rightarrow> 'st nonce_port \<Rightarrow> bytes \<Rightarrow> int \<Rightarrow> bool \<Rightarrow> nat \<Rightarrow> device_id \<Rightarrow> threshold_subject \<Rightarrow> int
      \<Rightarrow> 'st participant \<Rightarrow> participant_effect list \<times> 'st participant" where
  "handleCommit w opts port entropy now sent sid grp subject deadline pt =
     (if deadline \<le> now then answer sent (ManageError ''deadline-passed'' None) pt
      else case jget (po_keyPackagesByGroup opts) (deviceIdToHex grp) of
             None \<Rightarrow> answer sent (ManageError ''unknown-group'' None) pt
           | Some keyPackage \<Rightarrow>
               (case decideSubject opts subject of
                  Refuse reason \<Rightarrow> answer sent (ManageError ''refused'' (Some reason)) pt
                | Authorise \<Rightarrow>
                    (case signingRound1Commit w entropy keyPackage of
                       None \<Rightarrow> ([], stops pt)
                     | Some (nonces, commitments) \<Rightarrow>
                         (case np_persist port sid nonces (pt_nonces pt) of
                            Inl _ \<Rightarrow> ([], stops pt)
                          | Inr st \<Rightarrow>
                              let pt' = pt\<lparr>pt_nonces := st,
                                    pt_sessions := jset (pt_sessions pt) (natToString sid)
                                      \<lparr>sg_message = toBeSigned (po_codec opts) subject, sg_keyPackage = keyPackage, sg_group = grp\<rparr>\<rparr>
                              in case splitCommitments w commitments of
                                   None \<Rightarrow> ([PersistsNonces sid nonces], stops pt')
                                 | Some (hiding, binding) \<Rightarrow>
                                     (case answer sent (ManageOk [(''participant'', JBytes (deviceId (po_personalIdentity opts))),
                                                          (''hiding'', JBytes hiding), (''binding'', JBytes binding)]) pt' of
                                        (fx, pt'') \<Rightarrow> (PersistsNonces sid nonces # fx, pt''))))))"

definition commitmentEntries :: "wasm_module \<Rightarrow> threshold_commitment list \<Rightarrow> device_keyed list option" where
  "commitmentEntries w cs =
     those (map (\<lambda>c. map_option (\<lambda>v. \<lparr>dk_deviceId = tc_participant c, dk_value = v\<rparr>) (combineCommitments w (tc_hiding c) (tc_binding c))) cs)"

definition handleSign ::
    "wasm_module \<Rightarrow> participant_options \<Rightarrow> 'st nonce_port \<Rightarrow> bool \<Rightarrow> nat \<Rightarrow> threshold_commitment list
      \<Rightarrow> 'st participant \<Rightarrow> participant_effect list \<times> 'st participant" where
  "handleSign w opts port sent sid commitments pt =
     (case jget (pt_sessions pt) (natToString sid) of
        None \<Rightarrow>
          answer sent (ManageError ''no-such-session'' (Some ''threshold.sign for a session-id with no prior threshold.commit''))
            (pt\<lparr>pt_nonces := np_discard port sid (pt_nonces pt)\<rparr>)
      | Some state \<Rightarrow>
          (case np_take port sid (pt_nonces pt) of
             Inl _ \<Rightarrow>
               answer sent
                 (ManageError ''nonce-unavailable''
                    (Some ''no persisted, unused nonce pair for this session -- already released, expired, or never persisted''))
                 (pt\<lparr>pt_sessions := jdel (pt_sessions pt) (natToString sid)\<rparr>)
           | Inr (nonces, st) \<Rightarrow>
               let pt1 = pt\<lparr>pt_nonces := st\<rparr>
               in case Option.bind (commitmentEntries w commitments) (\<lambda>entries. signingBuildPackage w entries (sg_message state)) of
                    None \<Rightarrow> ([], stops pt1)
                  | Some signingPackage \<Rightarrow>
                      (case signingRound2Sign w nonces signingPackage (sg_keyPackage state) of
                         None \<Rightarrow> ([SignsWith sid nonces signingPackage (sg_keyPackage state)], stops pt1)
                       | Some share \<Rightarrow>
                           let envelope = mintShareEnvelope (po_codec opts) (po_share opts) (po_personalIdentity opts) sid (sg_group state) share
                           in case answer sent (ManageOk [(''share'', JBytes (encodeShareEnvelope (po_codec opts) envelope))])
                                     (pt1\<lparr>pt_sessions := jdel (pt_sessions pt1) (natToString sid)\<rparr>) of
                                (fx, pt2) \<Rightarrow> (SignsWith sid nonces signingPackage (sg_keyPackage state) # fx, pt2))))"

definition handleAbort :: "'st nonce_port \<Rightarrow> bool \<Rightarrow> nat \<Rightarrow> 'st participant \<Rightarrow> participant_effect list \<times> 'st participant" where
  "handleAbort port sent sid pt =
     answer sent (ManageOk [])
       (pt\<lparr>pt_sessions := jdel (pt_sessions pt) (natToString sid), pt_nonces := np_discard port sid (pt_nonces pt)\<rparr>)"

text \<open>
  A request as the loop meets it: at \<open>pe_now\<close>, with what the module would draw, and whether its answer can be sent.
\<close>

record participant_event =
  pe_request :: threshold_request
  pe_now :: int
  pe_entropy :: bytes
  pe_sent :: bool

definition consume ::
    "nat \<Rightarrow> wasm_module \<Rightarrow> participant_options \<Rightarrow> 'st nonce_port \<Rightarrow> participant_event \<Rightarrow> 'st participant
      \<Rightarrow> (participant_effect list \<times> 'st participant) option" where
  "consume fuel w opts port e pt =
     (if \<not> pt_running pt \<or> tr_verb (pe_request e) \<noteq> THRESHOLD_SIGN_VERB then Some ([], pt)
      else case authorizeIncomingRequest fuel opts (pe_now e) (tr_token (pe_request e)) of
             None \<Rightarrow> None
           | Some False \<Rightarrow> Some (answer (pe_sent e) (ManageError ''unauthorized'' None) pt)
           | Some True \<Rightarrow>
               Some (case tr_params (pe_request e) of
                       CommitParams sid grp subject deadline \<Rightarrow>
                         handleCommit w opts port (pe_entropy e) (pe_now e) (pe_sent e) sid grp subject deadline pt
                     | SignParams sid commitments \<Rightarrow> handleSign w opts port (pe_sent e) sid commitments pt
                     | AbortParams sid \<Rightarrow> handleAbort port (pe_sent e) sid pt
                     | OtherParams \<Rightarrow> ([], pt)))"

inductive participant_reach ::
    "nat \<Rightarrow> wasm_module \<Rightarrow> participant_options \<Rightarrow> 'st nonce_port \<Rightarrow> 'st \<Rightarrow> participant_event list \<Rightarrow> participant_effect list \<Rightarrow> 'st participant \<Rightarrow> bool"
  for fuel w opts port nonces where
  participant_start: "participant_reach fuel w opts port nonces [] [] (startThresholdParticipant nonces)"
| participant_next: "participant_reach fuel w opts port nonces es fx pt \<Longrightarrow> consume fuel w opts port e pt = Some (fx', pt') \<Longrightarrow>
    participant_reach fuel w opts port nonces (es @ [e]) (fx @ fx') pt'"

subsection \<open>The coordinator\<close>

record coordinator_options =
  co_codec :: cbor_codec
  co_share :: share_codec
  co_group :: device_id
  co_verifierIdentity :: identity_port
  co_scope :: "capability_scope option"
  co_token :: "cose_sign1 option"

record coordinator_request =
  cq_command :: manage_command
  cq_scope :: capability_scope
  cq_target :: device_id
  cq_token :: "cose_sign1 option"

definition coordinatorRequest :: "coordinator_options \<Rightarrow> manage_command \<Rightarrow> device_id \<Rightarrow> coordinator_request" where
  "coordinatorRequest opts command participant =
     \<lparr>cq_command = command, cq_scope = (case co_scope opts of Some s \<Rightarrow> s | None \<Rightarrow> THRESHOLD_GROUP_SCOPE),
      cq_target = participant, cq_token = co_token opts\<rparr>"

definition isDeviceIdShaped :: "json_value option \<Rightarrow> bool" where
  "isDeviceIdShaped j = (case j of Some (JBytes b) \<Rightarrow> length b = 32 | _ \<Rightarrow> False)"

definition parseCommitOk :: "manage_outcome \<Rightarrow> (device_id \<times> bytes \<times> bytes) option" where
  "parseCommitOk outcome =
     (case outcome of
        ManageError _ _ \<Rightarrow> None
      | ManageOk flds \<Rightarrow>
          if \<not> isDeviceIdShaped (jget flds ''participant'') then None
          else case (jget flds ''participant'', jget flds ''hiding'', jget flds ''binding'') of
                 (Some (JBytes p), Some (JBytes h), Some (JBytes b)) \<Rightarrow> Some (p, h, b)
               | _ \<Rightarrow> None)"

text \<open>
  \<open>Promise.all\<close> over the answers: it rejects if one of them does (a request that rejects, or a module that throws), and
  otherwise gives them in the order of the participants, whose replies are listed in the same order. Entries of \<open>undefined\<close> are dropped.
\<close>

fun promiseAll :: "(string + 'a) list \<Rightarrow> string + 'a list" where
  "promiseAll [] = Inr []"
| "promiseAll (x # xs) = (case x of Inl e \<Rightarrow> Inl e | Inr v \<Rightarrow> (case promiseAll xs of Inl e \<Rightarrow> Inl e | Inr vs \<Rightarrow> Inr (v # vs)))"

definition definedOnes :: "'a option list \<Rightarrow> 'a list" where
  "definedOnes xs = List.map_filter id xs"

definition commitRequests :: "coordinator_options \<Rightarrow> nat \<Rightarrow> device_id list \<Rightarrow> threshold_subject \<Rightarrow> int \<Rightarrow> coordinator_request list" where
  "commitRequests opts sessionId participants subject deadline =
     map (coordinatorRequest opts (buildCommitCommand sessionId (co_group opts) subject deadline)) participants"

definition commitEntry :: "wasm_module \<Rightarrow> device_id \<Rightarrow> string + manage_outcome \<Rightarrow> string + device_keyed option" where
  "commitEntry w participant reply =
     (case reply of
        Inl e \<Rightarrow> Inl e
      | Inr outcome \<Rightarrow>
          (case parseCommitOk outcome of
             None \<Rightarrow> Inr None
           | Some (p, hiding, binding) \<Rightarrow>
               if \<not> bytesEqual p participant then Inr None
               else case combineCommitments w hiding binding of
                      None \<Rightarrow> Inl ''combine_commitments''
                    | Some v \<Rightarrow> Inr (Some \<lparr>dk_deviceId = participant, dk_value = v\<rparr>)))"

definition commitRound :: "wasm_module \<Rightarrow> device_id list \<Rightarrow> (string + manage_outcome) list \<Rightarrow> string + device_keyed list" where
  "commitRound w participants replies =
     (case promiseAll (map2 (commitEntry w) participants replies) of Inl e \<Rightarrow> Inl e | Inr rs \<Rightarrow> Inr (definedOnes rs))"

definition wireCommitments :: "wasm_module \<Rightarrow> device_keyed list \<Rightarrow> threshold_commitment list option" where
  "wireCommitments w commitments =
     those (map (\<lambda>entry. map_option (\<lambda>(h, b). \<lparr>tc_participant = dk_deviceId entry, tc_hiding = h, tc_binding = b\<rparr>)
       (splitCommitments w (dk_value entry))) commitments)"

definition signRequests :: "wasm_module \<Rightarrow> coordinator_options \<Rightarrow> nat \<Rightarrow> device_keyed list \<Rightarrow> string + coordinator_request list" where
  "signRequests w opts sessionId commitments =
     (case wireCommitments w commitments of
        None \<Rightarrow> Inl ''split_commitments''
      | Some wire \<Rightarrow> Inr (map (\<lambda>c. coordinatorRequest opts (buildSignCommand sessionId wire) (dk_deviceId c)) commitments))"

definition shareEntry :: "coordinator_options \<Rightarrow> nat \<Rightarrow> device_id \<Rightarrow> string + manage_outcome \<Rightarrow> string + device_keyed option" where
  "shareEntry opts sessionId participant reply =
     (case reply of
        Inl e \<Rightarrow> Inl e
      | Inr (ManageError _ _) \<Rightarrow> Inr None
      | Inr (ManageOk flds) \<Rightarrow>
          (case jget flds ''share'' of
             Some (JBytes shareBytes) \<Rightarrow>
               (case decodeShareEnvelopeBytes (co_codec opts) shareBytes of
                  None \<Rightarrow> Inr None
                | Some envelope \<Rightarrow>
                    (case verifyShareEnvelope (co_codec opts) (co_share opts) (co_verifierIdentity opts) envelope of
                       None \<Rightarrow> Inr None
                     | Some claims \<Rightarrow>
                         if sh_sessionId claims \<noteq> sessionId \<or> \<not> bytesEqual (sh_group claims) (co_group opts)
                            \<or> \<not> bytesEqual (sh_issuer claims) participant
                         then Inr None
                         else Inr (Some \<lparr>dk_deviceId = participant, dk_value = sh_share claims\<rparr>)))
           | _ \<Rightarrow> Inr None))"

definition signRound ::
    "wasm_module \<Rightarrow> coordinator_options \<Rightarrow> nat \<Rightarrow> device_keyed list \<Rightarrow> (string + manage_outcome) list \<Rightarrow> string + device_keyed list" where
  "signRound w opts sessionId commitments replies =
     (case signRequests w opts sessionId commitments of
        Inl e \<Rightarrow> Inl e
      | Inr _ \<Rightarrow>
          (case promiseAll (map2 (\<lambda>c. shareEntry opts sessionId (dk_deviceId c)) commitments replies) of
             Inl e \<Rightarrow> Inl e
           | Inr rs \<Rightarrow> Inr (definedOnes rs)))"

subsection \<open>The group's identity\<close>

definition ALG_ED25519 :: int where "ALG_ED25519 = - 8"
definition FIRST_SESSION_ID :: nat where "FIRST_SESSION_ID = 1"

record threshold_identity =
  ti_deviceId :: device_id
  ti_identityKey :: identity_key
  ti_nextSessionId :: nat

definition createThresholdIdentity :: "identity_port \<Rightarrow> bytes \<Rightarrow> threshold_identity" where
  "createThresholdIdentity crypto groupVerifyingKey =
     \<lparr>ti_deviceId = deriveDeviceId crypto groupVerifyingKey, ti_identityKey = \<lparr>alg = ALG_ED25519, public_key = groupVerifyingKey\<rparr>,
      ti_nextSessionId = FIRST_SESSION_ID\<rparr>"

datatype sign_error = NotEnoughCommitted nat nat | RoundFailed string | ModuleThrew | AggregateInvalid

definition beginSignSubject :: "threshold_identity \<Rightarrow> nat \<times> threshold_identity" where
  "beginSignSubject ti = (ti_nextSessionId ti, ti\<lparr>ti_nextSessionId := ti_nextSessionId ti + 1\<rparr>)"

text \<open>
  \<open>signSubject\<close> once its session id is taken; the two rounds are the coordinator's, the second given the commitments of the
  first.
\<close>

definition signSubject ::
    "wasm_module \<Rightarrow> cbor_codec \<Rightarrow> identity_port \<Rightarrow> bytes \<Rightarrow> nat \<Rightarrow> threshold_identity \<Rightarrow> threshold_subject
      \<Rightarrow> string + device_keyed list \<Rightarrow> (device_keyed list \<Rightarrow> string + device_keyed list) \<Rightarrow> sign_error + bytes" where
  "signSubject w codec crypto publicKeyPackage quorum ti subject committed signed' =
     (case committed of
        Inl e \<Rightarrow> Inl (RoundFailed e)
      | Inr commitments \<Rightarrow>
          if length commitments < quorum then Inl (NotEnoughCommitted (length commitments) quorum)
          else case signed' commitments of
                 Inl e \<Rightarrow> Inl (RoundFailed e)
               | Inr shares \<Rightarrow>
                   (let message = toBeSigned codec subject
                    in case Option.bind (signingBuildPackage w commitments message) (\<lambda>pkg. signingAggregate w pkg shares publicKeyPackage) of
                         None \<Rightarrow> Inl ModuleThrew
                       | Some sig \<Rightarrow> if verify crypto (ti_identityKey ti) message sig then Inr sig else Inl AggregateInvalid))"

end
