(* ===== verification/ThresholdProperties.thy ===== *)
theory ThresholdProperties
  imports ThresholdParticipants TokenProperties "HOL-Library.Multiset"
begin

text \<open>
  What threshold signing promises. A participant signs with a pair of nonces once, and only what it was asked to
  sign in a commit it authorised; the coordinator takes a share only from the participant it asked, for this
  session and group, and it takes the share an honest participant releases; the group's signature, where one
  is returned, verifies for the subject.
\<close>

subsection \<open>Nonces\<close>

definition signedPairs :: "participant_effect list \<Rightarrow> (nat \<times> bytes) list" where
  "signedPairs fx = List.map_filter (\<lambda>x. case x of SignsWith sid n _ _ \<Rightarrow> Some (sid, n) | _ \<Rightarrow> None) fx"

definition persistedPairs :: "participant_effect list \<Rightarrow> (nat \<times> bytes) list" where
  "persistedPairs fx = List.map_filter (\<lambda>x. case x of PersistsNonces sid n \<Rightarrow> Some (sid, n) | _ \<Rightarrow> None) fx"

lemma pairs_simps [simp]:
  "signedPairs [] = []" "signedPairs (fx @ gx) = signedPairs fx @ signedPairs gx"
  "signedPairs (SignsWith sid n p k # fx) = (sid, n) # signedPairs fx" "signedPairs (PersistsNonces sid n # fx) = signedPairs fx"
  "signedPairs (ParticipantAnswers out # fx) = signedPairs fx"
  "persistedPairs [] = []" "persistedPairs (fx @ gx) = persistedPairs fx @ persistedPairs gx"
  "persistedPairs (SignsWith sid n p k # fx) = persistedPairs fx" "persistedPairs (PersistsNonces sid n # fx) = (sid, n) # persistedPairs fx"
  "persistedPairs (ParticipantAnswers out # fx) = persistedPairs fx"
  by (simp_all add: signedPairs_def persistedPairs_def map_filter_def)

text \<open>The event is a commit that was granted: its token was accepted, its deadline ahead, its subject authorised.\<close>

definition grantsCommit ::
    "nat \<Rightarrow> wasm_module \<Rightarrow> participant_options \<Rightarrow> nat \<Rightarrow> bytes \<Rightarrow> bytes \<Rightarrow> bytes \<Rightarrow> participant_event \<Rightarrow> bool" where
  "grantsCommit fuel w opts sid n kp msg e \<longleftrightarrow>
     (\<exists>grp subject deadline commitments.
        tr_verb (pe_request e) = THRESHOLD_SIGN_VERB
        \<and> authorizeIncomingRequest fuel opts (pe_now e) (tr_token (pe_request e)) = Some True
        \<and> tr_params (pe_request e) = CommitParams sid grp subject deadline \<and> pe_now e < deadline
        \<and> jget (po_keyPackagesByGroup opts) (deviceIdToHex grp) = Some kp
        \<and> ts_kind subject \<in> set KNOWN_KINDS \<and> decideSubject opts subject = Authorise
        \<and> signingRound1Commit w (pe_entropy e) kp = Some (n, commitments) \<and> msg = toBeSigned (po_codec opts) subject)"

lemma decide_known: "decideSubject opts subject = Authorise \<Longrightarrow> ts_kind subject \<in> set KNOWN_KINDS"
  by (auto simp: decideSubject_def refuseUnrecognisedKind_def split: if_splits)

lemmas participant_defs = consume_def handleCommit_def handleSign_def handleAbort_def answer_def stops_def Let_def

lemma consume_cases:
  assumes "consume fuel w opts port e pt = Some (fx, pt')"
  obtains (quiet) "signedPairs fx = []" "persistedPairs fx = []" "pt_nonces pt' = pt_nonces pt" "pt_sessions pt' = pt_sessions pt"
  | (committed) sid n kp msg s where "grantsCommit fuel w opts sid n kp msg e" "np_persist port sid n (pt_nonces pt) = Inr (pt_nonces pt')"
      "pt_sessions pt' = jset (pt_sessions pt) (natToString sid) s" "sg_message s = msg" "sg_keyPackage s = kp"
      "signedPairs fx = []" "persistedPairs fx = [(sid, n)]"
  | (forgot) sid where "pt_nonces pt' = np_discard port sid (pt_nonces pt)" "pt_sessions pt' = jdel (pt_sessions pt) (natToString sid)"
      "signedPairs fx = []" "persistedPairs fx = []"
  | (dropped) sid where "pt_nonces pt' = pt_nonces pt" "pt_sessions pt' = jdel (pt_sessions pt) (natToString sid)"
      "signedPairs fx = []" "persistedPairs fx = []"
  | (took) sid n s where "jget (pt_sessions pt) (natToString sid) = Some s" "np_take port sid (pt_nonces pt) = Inr (n, pt_nonces pt')"
      "pt_sessions pt' \<in> {pt_sessions pt, jdel (pt_sessions pt) (natToString sid)}" "persistedPairs fx = []"
      "signedPairs fx \<in> {[], [(sid, n)]}"
      "\<And>sid' n' pkg kp. SignsWith sid' n' pkg kp \<in> set fx \<Longrightarrow>
         sid' = sid \<and> n' = n \<and> kp = sg_keyPackage s \<and> (\<exists>entries. signingBuildPackage w entries (sg_message s) = Some pkg)"
proof (cases "\<not> pt_running pt \<or> tr_verb (pe_request e) \<noteq> THRESHOLD_SIGN_VERB
     \<or> authorizeIncomingRequest fuel opts (pe_now e) (tr_token (pe_request e)) \<noteq> Some True")
  case True
  with assms show thesis by (intro quiet) (auto simp: participant_defs split: if_splits option.splits bool.splits)
next
  case False
  then have running: "pt_running pt" and v: "tr_verb (pe_request e) = THRESHOLD_SIGN_VERB"
    and auth: "authorizeIncomingRequest fuel opts (pe_now e) (tr_token (pe_request e)) = Some True" by auto
  show thesis
  proof (cases "tr_params (pe_request e)")
    case (CommitParams sid grp subject deadline)
    with assms running v auth have step: "handleCommit w opts port (pe_entropy e) (pe_now e) (pe_sent e) sid grp subject deadline pt = (fx, pt')"
      by (simp add: consume_def)
    show thesis
    proof (cases "persistedPairs fx = []")
      case True
      with step show thesis
        by (intro quiet) (auto simp: handleCommit_def answer_def stops_def Let_def split: if_splits option.splits subject_decision.splits sum.splits prod.splits)
    next
      case False
      with step obtain kp n commitments where granted: "pe_now e < deadline" "jget (po_keyPackagesByGroup opts) (deviceIdToHex grp) = Some kp"
          "decideSubject opts subject = Authorise" "signingRound1Commit w (pe_entropy e) kp = Some (n, commitments)"
        and after: "np_persist port sid n (pt_nonces pt) = Inr (pt_nonces pt')"
          "pt_sessions pt' = jset (pt_sessions pt) (natToString sid)
             \<lparr>sg_message = toBeSigned (po_codec opts) subject, sg_keyPackage = kp, sg_group = grp\<rparr>"
          "signedPairs fx = []" "persistedPairs fx = [(sid, n)]"
        by (auto simp: handleCommit_def answer_def stops_def Let_def split: if_splits option.splits subject_decision.splits sum.splits prod.splits)
      show thesis
        by (rule committed [OF _ after(1,2) _ _ after(3,4)])
          (use granted CommitParams v auth in \<open>auto simp: grantsCommit_def decide_known\<close>)
    qed
  next
    case (SignParams sid cs)
    with assms running v auth have step: "handleSign w opts port (pe_sent e) sid cs pt = (fx, pt')" by (simp add: consume_def)
    show thesis
    proof (cases "jget (pt_sessions pt) (natToString sid)")
      case None
      with step show thesis by (intro forgot [of sid]) (auto simp: handleSign_def answer_def jdel_fresh)
    next
      case (Some s)
      show thesis
      proof (cases "np_take port sid (pt_nonces pt)")
        case (Inl err)
        with step Some show thesis by (intro dropped [of sid]) (auto simp: handleSign_def answer_def)
      next
        case (Inr r)
        with step Some show thesis
          by (cases r, intro took [of sid s "fst r"])
            (auto simp: handleSign_def answer_def stops_def Let_def bind_eq_Some_conv split: option.splits prod.splits)
      qed
    qed
  next
    case (AbortParams sid)
    with assms running v auth show thesis by (intro forgot [of sid]) (auto simp: consume_def handleAbort_def answer_def)
  next
    case OtherParams
    with assms running v auth show thesis by (intro quiet) (auto simp: consume_def)
  qed
qed

context nonce_store
begin

definition held :: "'st participant \<Rightarrow> nat \<times> bytes \<Rightarrow> nat" where
  "held pt p = (if pairs (pt_nonces pt) (fst p) = Some (snd p) then 1 else 0)"

definition matched :: "nat \<Rightarrow> wasm_module \<Rightarrow> participant_options \<Rightarrow> participant_event list \<Rightarrow> 'st participant \<Rightarrow> bool" where
  "matched fuel w opts es pt \<longleftrightarrow>
     (\<forall>sid s n. jget (pt_sessions pt) (natToString sid) = Some s \<longrightarrow> pairs (pt_nonces pt) sid = Some n \<longrightarrow>
        (\<exists>e\<in>set es. grantsCommit fuel w opts sid n (sg_keyPackage s) (sg_message s) e))"

lemma no_signing: "signedPairs fx = [] \<Longrightarrow> SignsWith sid n pkg kp \<notin> set fx"
  by (auto simp: signedPairs_def map_filter_def filter_empty_conv)

text \<open>Every pair that signed or is still held was persisted.\<close>

lemma counted_step:
  assumes "count_list (signedPairs fx) p + held pt p \<le> count_list (persistedPairs fx) p" and step: "consume fuel w opts port e pt = Some (fx', pt')"
  shows "count_list (signedPairs (fx @ fx')) p + held pt' p \<le> count_list (persistedPairs (fx @ fx')) p"
  using step
proof (cases rule: consume_cases)
  case (committed sid n kp msg s)
  with persisted [OF committed(2)] assms(1) show ?thesis by (cases p) (auto simp: held_def)
next
  case (took sid n s)
  with taken [OF took(2)] assms(1) show ?thesis by (cases p) (auto simp: held_def split: if_splits)
qed (use assms(1) in \<open>auto simp: held_def discarded split: if_splits\<close>)

text \<open>A session's pair is the one its commit drew.\<close>

lemma matched_step:
  assumes "matched fuel w opts es pt" and step: "consume fuel w opts port e pt = Some (fx', pt')"
  shows "matched fuel w opts (es @ [e]) pt'"
  using step
proof (cases rule: consume_cases)
  case quiet
  with assms(1) show ?thesis by (auto simp: matched_def)
next
  case (committed sid n kp msg s)
  with persisted [OF committed(2)] assms(1) show ?thesis by (auto simp: matched_def)
next
  case (forgot sid)
  with assms(1) show ?thesis by (auto simp: matched_def discarded)
next
  case (dropped sid)
  with assms(1) show ?thesis by (auto simp: matched_def)
next
  case (took sid n s)
  with taken [OF took(2)] assms(1) show ?thesis by (auto simp: matched_def split: if_splits)
qed

lemma signing_step:
  assumes "matched fuel w opts es pt" and step: "consume fuel w opts port e pt = Some (fx', pt')" and "SignsWith sid n pkg kp \<in> set fx'"
  shows "\<exists>e\<in>set es. \<exists>msg entries. grantsCommit fuel w opts sid n kp msg e \<and> signingBuildPackage w entries msg = Some pkg"
  using step
proof (cases rule: consume_cases)
  case (took sid' n' s)
  from took(6) [OF assms(3)] obtain entries where same: "sid = sid'" "n = n'" "kp = sg_keyPackage s"
    and "signingBuildPackage w entries (sg_message s) = Some pkg" by auto
  with assms(1) took(1) taken [OF took(2)] show ?thesis unfolding matched_def by blast
qed (use assms(3) no_signing in blast)+

lemma reach_sound:
  assumes "participant_reach fuel w opts port nonces es fx pt" and "pairs nonces = (\<lambda>_. None)"
  shows "(\<forall>p. count_list (signedPairs fx) p + held pt p \<le> count_list (persistedPairs fx) p) \<and> matched fuel w opts es pt
    \<and> (\<forall>sid n pkg kp. SignsWith sid n pkg kp \<in> set fx \<longrightarrow>
         (\<exists>e\<in>set es. \<exists>msg entries. grantsCommit fuel w opts sid n kp msg e \<and> signingBuildPackage w entries msg = Some pkg))"
  using assms
proof (induction rule: participant_reach.induct)
  case participant_start
  then show ?case by (simp add: held_def matched_def startThresholdParticipant_def)
next
  case (participant_next es fx pt e fx' pt')
  then have ih: "\<And>p. count_list (signedPairs fx) p + held pt p \<le> count_list (persistedPairs fx) p" "matched fuel w opts es pt"
    "\<And>sid n pkg kp. SignsWith sid n pkg kp \<in> set fx \<Longrightarrow>
       \<exists>e\<in>set es. \<exists>msg entries. grantsCommit fuel w opts sid n kp msg e \<and> signingBuildPackage w entries msg = Some pkg" by blast+
  have "\<exists>e\<in>set (es @ [e]). \<exists>msg entries. grantsCommit fuel w opts sid n kp msg e \<and> signingBuildPackage w entries msg = Some pkg"
    if "SignsWith sid n pkg kp \<in> set (fx @ fx')" for sid n pkg kp
    using that ih(3) signing_step [OF ih(2) participant_next.hyps(2)] by (auto dest!: ih(3))
  with counted_step [OF ih(1) participant_next.hyps(2)] matched_step [OF ih(2) participant_next.hyps(2)] show ?case by blast
qed

lemma signed_submultiset:
  assumes "participant_reach fuel w opts port nonces es fx pt" and "pairs nonces = (\<lambda>_. None)"
  shows "mset (signedPairs fx) \<subseteq># mset (persistedPairs fx)"
proof (rule mset_subset_eqI)
  fix p
  have "count_list (signedPairs fx) p + held pt p \<le> count_list (persistedPairs fx) p" using reach_sound [OF assms] by blast
  then show "count (mset (signedPairs fx)) p \<le> count (mset (persistedPairs fx)) p" by (simp add: count_mset count_list_eq_length_filter)
qed

end

lemma distinct_submultiset:
  assumes "mset xs \<subseteq># mset ys" and "distinct (map f ys)"
  shows "distinct (map f xs)"
proof -
  have "count (mset (map f xs)) a \<le> count (mset (map f ys)) a" for a
    using image_mset_subseteq_mono [OF assms(1), of f] by (simp add: mset_subset_eq_count)
  moreover have "count (mset (map f ys)) a \<le> 1" for a using assms(2) by (simp add: distinct_count_atmost_1)
  moreover have "a \<in> set (map f xs) \<Longrightarrow> count (mset (map f xs)) a \<ge> 1" for a by (simp add: Suc_le_eq)
  ultimately show ?thesis unfolding distinct_count_atmost_1
    by (metis (no_types, lifting) count_mset_0_iff le_antisym le_trans)
qed

text \<open>C25: nonces are spent once, on what was authorised. Whatever requests a participant meets, in any order, it
  signs with each pair of nonces at most as often as it stored that pair, so that pairs drawn without
  repetition never sign twice; and each signature is made for a session whose commit came with an accepted
  token, before its deadline, for a group it has a key package of and a subject of a known kind that its policy
  authorised, with the nonces drawn for that commit and over that subject.
\<close>

theorem nonces_spent_once:
  assumes "participant_reach fuel w opts createMemoryNonceStore [] es fx pt"
  shows "mset (signedPairs fx) \<subseteq># mset (persistedPairs fx)
    \<and> (distinct (map snd (persistedPairs fx)) \<longrightarrow> distinct (map snd (signedPairs fx)))
    \<and> (\<forall>sid n pkg kp. SignsWith sid n pkg kp \<in> set fx \<longrightarrow>
         (\<exists>e\<in>set es. \<exists>msg entries. grantsCommit fuel w opts sid n kp msg e \<and> signingBuildPackage w entries msg = Some pkg))"
proof -
  have empty: "(\<lambda>sid. jget ([] :: memory_nonces) sid) = (\<lambda>_. None)" by simp
  show ?thesis
    using memory.signed_submultiset [OF assms empty] memory.reach_sound [OF assms empty] distinct_submultiset by blast
qed

subsection \<open>A session that succeeds\<close>

definition requestOf :: "cose_sign1 option \<Rightarrow> manage_command \<Rightarrow> manage_request" where
  "requestOf tok command = \<lparr>mr_requestId = 0, mr_command = command, mr_scope = THRESHOLD_GROUP_SCOPE, mr_token = tok\<rparr>"

lemma request_read:
  "thresholdParams (mc_params command) = Some ps \<Longrightarrow> mc_verb command = v \<Longrightarrow>
     thresholdRequest (requestOf tok command) = Some \<lparr>tr_verb = v, tr_token = tok, tr_params = ps\<rparr>"
  by (simp add: thresholdRequest_def requestOf_def)

lemma entries_of_wire:
  assumes "\<And>v h b. splitCommitments w v = Some (h, b) \<Longrightarrow> combineCommitments w h b = Some v"
  shows "wireCommitments w cs = Some wire \<Longrightarrow> commitmentEntries w wire = Some cs"
proof (induction cs arbitrary: wire)
  case (Cons c cs)
  then obtain h b ws where "splitCommitments w (dk_value c) = Some (h, b)" "wireCommitments w cs = Some ws"
    "wire = \<lparr>tc_participant = dk_deviceId c, tc_hiding = h, tc_binding = b\<rparr> # ws"
    by (auto simp: wireCommitments_def split: option.splits)
  with Cons.IH assms show ?case by (simp add: commitmentEntries_def)
qed (simp add: wireCommitments_def commitmentEntries_def)

lemma wire_participants:
  "wireCommitments w cs = Some wire \<Longrightarrow> map tc_participant wire = map dk_deviceId cs"
proof (induction cs arbitrary: wire)
  case (Cons c cs)
  then show ?case by (auto simp: wireCommitments_def split: option.splits)
qed (simp add: wireCommitments_def)

text \<open>C26: a session among honest devices succeeds, when the participant holds no nonces for the session id yet and the
  commit arrives before its deadline. A participant that holds a key package of the group, accepts the
  coordinator's token and authorises the subject reads the coordinator's commit, stores its nonces and answers
  with a commitment the coordinator reads back; given the sign command built from all commitments it signs the
  package the coordinator builds, and the coordinator takes the share from its envelope. The pair is gone after.
\<close>

theorem honest_session_completes:
  fixes opts co
  defines "me \<equiv> deviceId (po_personalIdentity opts)"
  assumes ids: "sid < 2 ^ 53" "length (co_group co) = DEVICE_ID_LENGTH" "length me = DEVICE_ID_LENGTH"
      "list_all (\<lambda>c. length (dk_deviceId c) = DEVICE_ID_LENGTH) commitments"
    and codecs: "co_codec co = po_codec opts" "co_share co = po_share opts"
      "\<And>claims. claims = \<lparr>sh_sessionId = sid, sh_group = co_group co, sh_share = share, sh_issuer = me,
           sh_issuerKey = identityKey (po_personalIdentity opts)\<rparr> \<Longrightarrow> dec_share (po_share opts) (enc_share (po_share opts) claims) = Some claims"
      "\<And>envelope. envelope = mintShareEnvelope (po_codec opts) (po_share opts) (po_personalIdentity opts) sid (co_group co) share \<Longrightarrow>
         dec_token (po_codec opts) (enc_token (po_codec opts) envelope) = Some envelope"
    and keys: "\<And>msg. verify (co_verifierIdentity co) (identityKey (po_personalIdentity opts)) msg (sign (po_personalIdentity opts) msg)"
      "deriveDeviceId (co_verifierIdentity co) (public_key (identityKey (po_personalIdentity opts))) = me"
    and wasm: "\<And>v h b. splitCommitments w v = Some (h, b) \<Longrightarrow> combineCommitments w h b = Some v"
      "signingRound1Commit w entropy kp = Some (n, cmt)" "splitCommitments w cmt = Some (h, b)"
      "wireCommitments w commitments = Some wire"
      "signingBuildPackage w commitments (toBeSigned (po_codec opts) subject) = Some pkg" "signingRound2Sign w n pkg kp = Some share"
    and granted: "authorizeIncomingRequest fuel opts now tok = Some True" "authorizeIncomingRequest fuel opts later tok = Some True"
      "now < deadline" "0 \<le> deadline" "jget (po_keyPackagesByGroup opts) (deviceIdToHex (co_group co)) = Some kp"
      "decideSubject opts subject = Authorise"
    and fresh: "pt_running pt" "jget (pt_nonces pt) sid = None"
  shows "\<exists>ask1 ask2 out1 out2 pt1 pt2.
    thresholdRequest (requestOf tok (buildCommitCommand sid (co_group co) subject deadline)) = Some ask1
    \<and> consume fuel w opts createMemoryNonceStore \<lparr>pe_request = ask1, pe_now = now, pe_entropy = entropy, pe_sent = True\<rparr> pt =
        Some ([PersistsNonces sid n, ParticipantAnswers out1], pt1)
    \<and> commitEntry w me (Inr out1) = Inr (Some \<lparr>dk_deviceId = me, dk_value = cmt\<rparr>)
    \<and> thresholdRequest (requestOf tok (buildSignCommand sid wire)) = Some ask2
    \<and> consume fuel w opts createMemoryNonceStore \<lparr>pe_request = ask2, pe_now = later, pe_entropy = entropy', pe_sent = True\<rparr> pt1 =
        Some ([SignsWith sid n pkg kp, ParticipantAnswers out2], pt2)
    \<and> shareEntry co sid me (Inr out2) = Inr (Some \<lparr>dk_deviceId = me, dk_value = share\<rparr>)
    \<and> pt_running pt2 \<and> jget (pt_nonces pt2) sid = None"
proof -
  let ?ask1 = "\<lparr>tr_verb = THRESHOLD_SIGN_VERB, tr_token = tok, tr_params = CommitParams sid (co_group co) subject deadline\<rparr>"
  let ?ask2 = "\<lparr>tr_verb = THRESHOLD_SIGN_VERB, tr_token = tok, tr_params = SignParams sid wire\<rparr>"
  let ?out1 = "ManageOk [(''participant'', JBytes me), (''hiding'', JBytes h), (''binding'', JBytes b)]"
  let ?pt1 = "pt\<lparr>pt_nonces := jset (pt_nonces pt) sid n, pt_sessions := jset (pt_sessions pt) (natToString sid)
    \<lparr>sg_message = toBeSigned (po_codec opts) subject, sg_keyPackage = kp, sg_group = co_group co\<rparr>, pt_running := True\<rparr>"
  let ?envelope = "mintShareEnvelope (po_codec opts) (po_share opts) (po_personalIdentity opts) sid (co_group co) share"
  let ?out2 = "ManageOk [(''share'', JBytes (encodeShareEnvelope (po_codec opts) ?envelope))]"
  let ?pt2 = "?pt1\<lparr>pt_nonces := jdel (pt_nonces ?pt1) sid, pt_sessions := jdel (pt_sessions ?pt1) (natToString sid), pt_running := True\<rparr>"
  have read1: "thresholdRequest (requestOf tok (buildCommitCommand sid (co_group co) subject deadline)) = Some ?ask1"
    by (rule request_read) (use ids granted in \<open>simp_all add: commit_read buildCommitCommand_def [THEN arg_cong [where f = mc_verb]]\<close>)
  have wireIds: "list_all (\<lambda>c. length (tc_participant c) = DEVICE_ID_LENGTH) wire"
  proof -
    have "list_all (\<lambda>d. length d = DEVICE_ID_LENGTH) (map tc_participant wire)"
      using ids(4) by (simp add: wire_participants [OF wasm(4)] list_all_iff)
    then show ?thesis by (simp add: list_all_iff)
  qed
  have read2: "thresholdRequest (requestOf tok (buildSignCommand sid wire)) = Some ?ask2"
    by (rule request_read) (use ids wireIds in \<open>simp_all add: sign_read buildSignCommand_def [THEN arg_cong [where f = mc_verb]]\<close>)
  have step1: "consume fuel w opts createMemoryNonceStore \<lparr>pe_request = ?ask1, pe_now = now, pe_entropy = entropy, pe_sent = True\<rparr> pt =
      Some ([PersistsNonces sid n, ParticipantAnswers ?out1], ?pt1)"
    using granted fresh wasm by (simp add: participant_defs createMemoryNonceStore_def me_def)
  have entry1: "commitEntry w me (Inr ?out1) = Inr (Some \<lparr>dk_deviceId = me, dk_value = cmt\<rparr>)"
    using ids(3) wasm(1) [OF wasm(3)] by (simp add: commitEntry_def parseCommitOk_def isDeviceIdShaped_def DEVICE_ID_LENGTH_def)
  have step2: "consume fuel w opts createMemoryNonceStore \<lparr>pe_request = ?ask2, pe_now = later, pe_entropy = entropy', pe_sent = True\<rparr> ?pt1 =
      Some ([SignsWith sid n pkg kp, ParticipantAnswers ?out2], ?pt2)"
    using granted(2) wasm(5,6) entries_of_wire [OF wasm(1,4)] by (simp add: participant_defs createMemoryNonceStore_def)
  have entry2: "shareEntry co sid me (Inr ?out2) = Inr (Some \<lparr>dk_deviceId = me, dk_value = share\<rparr>)"
    using codecs(4) [OF refl] envelope_verifies [OF ids(1) codecs(3) [unfolded me_def] keys(1)] keys(2)
    by (simp add: shareEntry_def decodeShareEnvelopeBytes_def encodeShareEnvelope_def codecs(1,2) me_def)
  have "pt_running ?pt2 \<and> jget (pt_nonces ?pt2) sid = None" by simp
  with read1 step1 entry1 read2 step2 entry2 show ?thesis by blast
qed

subsection \<open>What the coordinator returns\<close>

lemma promiseAll_ok: "promiseAll xs = Inr vs \<Longrightarrow> xs = map Inr vs"
  by (induction xs arbitrary: vs) (auto split: sum.splits)

lemma definedOnes_in: "v \<in> set (definedOnes xs) \<longleftrightarrow> Some v \<in> set xs"
  by (force simp: definedOnes_def map_filter_def)

lemma collected:
  assumes "(case promiseAll (map2 f ps rs) of Inl e \<Rightarrow> Inl e | Inr vs \<Rightarrow> Inr (definedOnes vs)) = Inr entries" and "v \<in> set entries"
  shows "\<exists>p r. (p, r) \<in> set (zip ps rs) \<and> f p r = Inr (Some v)"
proof -
  from assms obtain vs where all: "promiseAll (map2 f ps rs) = Inr vs" and v: "Some v \<in> set vs"
    by (auto simp: definedOnes_in split: sum.splits)
  have "Inr (Some v) \<in> set (map2 f ps rs)" using v by (simp add: promiseAll_ok [OF all])
  then show ?thesis by (fastforce simp: eq_commute)
qed

definition shareVouched :: "coordinator_options \<Rightarrow> nat \<Rightarrow> (string + manage_outcome) list \<Rightarrow> device_keyed list \<Rightarrow> device_keyed \<Rightarrow> bool" where
  "shareVouched co sid replies cs share \<longleftrightarrow>
     (\<exists>c flds b envelope claims. (c, Inr (ManageOk flds)) \<in> set (zip cs replies) \<and> dk_deviceId share = dk_deviceId c
        \<and> jget flds ''share'' = Some (JBytes b) \<and> decodeShareEnvelopeBytes (co_codec co) b = Some envelope
        \<and> verifyShareEnvelope (co_codec co) (co_share co) (co_verifierIdentity co) envelope = Some claims
        \<and> sh_sessionId claims = sid \<and> sh_group claims = co_group co \<and> sh_issuer claims = dk_deviceId c \<and> sh_share claims = dk_value share)"

lemma shareEntry_vouched:
  assumes "shareEntry co sid p r = Inr (Some share)"
  obtains flds b envelope claims where "r = Inr (ManageOk flds)" "dk_deviceId share = p" "jget flds ''share'' = Some (JBytes b)"
    "decodeShareEnvelopeBytes (co_codec co) b = Some envelope"
    "verifyShareEnvelope (co_codec co) (co_share co) (co_verifierIdentity co) envelope = Some claims"
    "sh_sessionId claims = sid" "sh_group claims = co_group co" "sh_issuer claims = p" "sh_share claims = dk_value share"
  using assms by (auto simp: shareEntry_def split: sum.splits manage_outcome.splits option.splits json_value.splits if_splits)

lemma commitEntry_from: "commitEntry w p r = Inr (Some c) \<Longrightarrow> dk_deviceId c = p"
  by (auto simp: commitEntry_def split: sum.splits option.splits if_splits)

text \<open>C27: a group signature is what it claims to be. Where \<open>signSubject\<close> returns a signature, it verifies under the group's key
  over the subject that was given; at least the quorum of commitments was collected, each from a participant that
  was asked; and the shares it aggregates each come in an envelope that verifies as signed by the participant
  asked, for this session and this group, and out of no other answer.
\<close>

theorem group_signature_vouched:
  assumes "signSubject w codec crypto publicKeyPackage quorum ti subject (commitRound w participants replies)
      (\<lambda>cs. signRound w co sid cs (answers cs)) = Inr sig"
  shows "verify crypto (ti_identityKey ti) (toBeSigned codec subject) sig
    \<and> (\<exists>cs shares pkg. quorum \<le> length cs \<and> (\<forall>c\<in>set cs. dk_deviceId c \<in> set participants)
         \<and> (\<forall>share\<in>set shares. shareVouched co sid (answers cs) cs share)
         \<and> signingBuildPackage w cs (toBeSigned codec subject) = Some pkg \<and> signingAggregate w pkg shares publicKeyPackage = Some sig)"
proof -
  from assms obtain cs shares pkg where committed: "commitRound w participants replies = Inr cs" and enough: "quorum \<le> length cs"
    and shares: "signRound w co sid cs (answers cs) = Inr shares"
    and made: "signingBuildPackage w cs (toBeSigned codec subject) = Some pkg" "signingAggregate w pkg shares publicKeyPackage = Some sig"
    and ok: "verify crypto (ti_identityKey ti) (toBeSigned codec subject) sig"
    by (auto simp: signSubject_def Let_def bind_eq_Some_conv split: sum.splits if_splits option.splits)
  have "dk_deviceId c \<in> set participants" if "c \<in> set cs" for c
    using collected [OF committed [unfolded commitRound_def] that] commitEntry_from by (metis set_zip_leftD)
  moreover have "shareVouched co sid (answers cs) cs share" if "share \<in> set shares" for share
  proof -
    have "(case promiseAll (map2 (\<lambda>c. shareEntry co sid (dk_deviceId c)) cs (answers cs)) of Inl e \<Rightarrow> Inl e | Inr rs \<Rightarrow> Inr (definedOnes rs)) = Inr shares"
      using shares by (auto simp: signRound_def split: sum.splits)
    from collected [OF this that] obtain c r where "(c, r) \<in> set (zip cs (answers cs))" and entry: "shareEntry co sid (dk_deviceId c) r = Inr (Some share)"
      by blast
    with entry show ?thesis unfolding shareVouched_def by (elim shareEntry_vouched) blast
  qed
  ultimately show ?thesis using ok enough made by blast
qed

subsection \<open>A participant that falls silent\<close>

text \<open>
  A commit that would be granted, for a session whose pair is still stored, ends the participant's loop: the store
  refuses the second pair and nothing catches the error. It answers no request after that.
\<close>

lemma repeated_commit_silences:
  assumes "pt_running pt" and "grantsCommit fuel w opts sid n kp msg e" and "jget (pt_nonces pt) sid \<noteq> None"
  shows "consume fuel w opts createMemoryNonceStore e pt = Some ([], stops pt)
    \<and> consume fuel w opts createMemoryNonceStore e' (stops pt) = Some ([], stops pt)"
proof -
  from assms(2) obtain grp subject deadline commitments where
    "tr_verb (pe_request e) = THRESHOLD_SIGN_VERB" "authorizeIncomingRequest fuel opts (pe_now e) (tr_token (pe_request e)) = Some True"
    "tr_params (pe_request e) = CommitParams sid grp subject deadline" "pe_now e < deadline"
    "jget (po_keyPackagesByGroup opts) (deviceIdToHex grp) = Some kp" "decideSubject opts subject = Authorise"
    "signingRound1Commit w (pe_entropy e) kp = Some (n, commitments)"
    unfolding grantsCommit_def by blast
  with assms(1,3) show ?thesis by (simp add: participant_defs createMemoryNonceStore_def)
qed

text \<open>Each identity counts its sessions from the same number, so two of them for one group ask for the same session.\<close>

lemma sessions_restart:
  "fst (beginSignSubject (createThresholdIdentity crypto key)) = fst (beginSignSubject (createThresholdIdentity crypto' key'))"
  by (simp add: beginSignSubject_def createThresholdIdentity_def)

lemma sessions_of_one_identity_differ: "fst (beginSignSubject (snd (beginSignSubject ti))) \<noteq> fst (beginSignSubject ti)"
  by (simp add: beginSignSubject_def)

subsection \<open>A group of one\<close>

definition t_device :: device_id where "t_device = replicate 32 7"

definition t_port :: identity_port where
  "t_port = \<lparr>deviceId = t_device, identityKey = \<lparr>alg = -8, public_key = t_device\<rparr>, sign = (\<lambda>m. m), verify = (\<lambda>_ m s. s = m), deriveDeviceId = (\<lambda>k. k)\<rparr>"

definition t_claims :: token_claims where
  "t_claims = (w_claims 20 1 2 THRESHOLD_SIGN_VERB [] 100 None)\<lparr>scope := THRESHOLD_GROUP_SCOPE\<rparr>"

definition t_shareCodec :: share_codec where
  "t_shareCodec = \<lparr>enc_share = (\<lambda>_. [55]), dec_share = (\<lambda>_. Some \<lparr>sh_sessionId = 1, sh_group = t_device, sh_share = [5], sh_issuer = t_device,
     sh_issuerKey = \<lparr>alg = -8, public_key = t_device\<rparr>\<rparr>)\<rparr>"

definition t_codec :: cbor_codec where
  "t_codec = w_codec\<lparr>dec_claims := map_of [([100, 20], t_claims)],
     dec_token := (\<lambda>_. Some \<lparr>protectedHeader = [], unprotectedHeader = [], payload = Some [55], signature = [55]\<rparr>)\<rparr>"

definition t_wasm :: wasm_module where
  "t_wasm = \<lparr>w_signing_round1_commit = (\<lambda>entropy _. Some (entropy, 66 # entropy)), w_split_commitments = (\<lambda>v. Some (take 1 v, drop 1 v)),
     w_combine_commitments = (\<lambda>h b. Some (h @ b)), w_signing_build_package = (\<lambda>_ vals m. Some (concat vals @ m)),
     w_signing_round2_sign = (\<lambda>_ _ _. Some [5]), w_signing_aggregate = (\<lambda>_ _ vals _. Some (concat vals))\<rparr>"

definition t_options :: participant_options where
  "t_options = \<lparr>po_codec = t_codec, po_share = t_shareCodec, po_personalIdentity = t_port, po_evaluator = kleene_eval,
     po_keyPackagesByGroup = [(deviceIdToHex t_device, [9])], po_revocation = (\<lambda>_. []), po_authorise = None\<rparr>"

definition t_coordinator :: coordinator_options where
  "t_coordinator = \<lparr>co_codec = t_codec, co_share = t_shareCodec, co_group = t_device, co_verifierIdentity = t_port, co_scope = None, co_token = Some (w_token 20)\<rparr>"

definition t_subject :: threshold_subject where "t_subject = \<lparr>ts_kind = ''room-notice'', ts_protected = [1], ts_payload = [2]\<rparr>"

definition t_event :: "threshold_params \<Rightarrow> participant_event" where
  "t_event ps = \<lparr>pe_request = \<lparr>tr_verb = THRESHOLD_SIGN_VERB, tr_token = Some (w_token 20), tr_params = ps\<rparr>, pe_now = 20, pe_entropy = [3], pe_sent = True\<rparr>"

definition t_commit :: participant_event where "t_commit = t_event (CommitParams 1 t_device t_subject 50)"
definition t_sign :: participant_event where
  "t_sign = t_event (SignParams 1 [\<lparr>tc_participant = t_device, tc_hiding = [66], tc_binding = [3]\<rparr>])"

definition t_committed :: "memory_nonces participant" where
  "t_committed = \<lparr>pt_sessions = [(''1'', \<lparr>sg_message = [1, 2], sg_keyPackage = [9], sg_group = t_device\<rparr>)], pt_nonces = [(1, [3])], pt_running = True\<rparr>"

lemmas t_module_defs = signingRound1Commit_def splitCommitments_def combineCommitments_def wireCommitments_def signingBuildPackage_def
  toParallelArrays_def signingRound2Sign_def signingAggregate_def t_wasm_def

lemma t_authorised: "authorizeIncomingRequest 5 t_options 20 (Some (w_token 20)) = Some True"
  by code_simp

lemma t_step1: "consume 5 t_wasm t_options createMemoryNonceStore t_commit (startThresholdParticipant []) =
    Some ([PersistsNonces 1 [3], ParticipantAnswers (ManageOk [(''participant'', JBytes t_device), (''hiding'', JBytes [66]), (''binding'', JBytes [3])])],
          t_committed)"
  by code_simp

lemma t_step2: "consume 5 t_wasm t_options createMemoryNonceStore t_sign t_committed =
    Some ([SignsWith 1 [3] [66, 3, 1, 2] [9], ParticipantAnswers (ManageOk [(''share'', JBytes [200, 55])])], startThresholdParticipant [])"
proof -
  have one: "natToString 1 = ''1''" by code_simp
  show ?thesis using t_authorised
    by (simp add: t_sign_def t_event_def t_committed_def participant_defs one createMemoryNonceStore_def commitmentEntries_def
      startThresholdParticipant_def mintShareEnvelope_def signEnvelope_def encodeShareEnvelope_def t_options_def t_module_defs t_codec_def w_codec_def
      t_shareCodec_def del: One_nat_def)
qed

theorem nonces_spent_once_witness:
  "\<exists>fx pt. participant_reach 5 t_wasm t_options createMemoryNonceStore [] [t_commit, t_sign] fx pt
     \<and> SignsWith 1 [3] [66, 3, 1, 2] [9] \<in> set fx \<and> distinct (map snd (signedPairs fx))
     \<and> (\<exists>e\<in>set [t_commit, t_sign]. \<exists>msg. grantsCommit 5 t_wasm t_options 1 [3] [9] msg e)"
proof -
  let ?fx = "[PersistsNonces 1 [3], ParticipantAnswers (ManageOk [(''participant'', JBytes t_device), (''hiding'', JBytes [66]), (''binding'', JBytes [3])])]
    @ [SignsWith 1 [3] [66, 3, 1, 2] [9], ParticipantAnswers (ManageOk [(''share'', JBytes [200, 55])])]"
  have r: "participant_reach 5 t_wasm t_options createMemoryNonceStore [] [t_commit, t_sign] ?fx (startThresholdParticipant [])"
    using participant_next [OF participant_next [OF participant_start t_step1] t_step2] by simp
  have "distinct (map snd (persistedPairs ?fx))" "SignsWith 1 [3] [66, 3, 1, 2] [9] \<in> set ?fx" by simp_all
  with r nonces_spent_once [OF r] show ?thesis by blast
qed

theorem honest_session_completes_witness:
  "\<exists>out. shareEntry t_coordinator 1 t_device (Inr out) = Inr (Some \<lparr>dk_deviceId = t_device, dk_value = [5]\<rparr>)"
proof -
  let ?c = "[\<lparr>dk_deviceId = t_device, dk_value = [66, 3]\<rparr>]"
  let ?wire = "[\<lparr>tc_participant = t_device, tc_hiding = [66], tc_binding = [3]\<rparr>]"
  have dev: "length t_device = DEVICE_ID_LENGTH" by (simp add: t_device_def DEVICE_ID_LENGTH_def)
  have wasm: "splitCommitments t_wasm v = Some (h, b) \<Longrightarrow> combineCommitments t_wasm h b = Some v" for v h b
    by (auto simp: splitCommitments_def combineCommitments_def t_wasm_def)
  have env: "envelope = mintShareEnvelope t_codec t_shareCodec t_port 1 t_device [5] \<Longrightarrow> dec_token t_codec (enc_token t_codec envelope) = Some envelope"
    for envelope
    by (simp add: mintShareEnvelope_def signEnvelope_def Let_def t_codec_def w_codec_def t_shareCodec_def t_port_def
      protectedHeaderFor_def sig1ToBeSigned_def)
  have "\<exists>ask1 ask2 out1 out2 pt1 pt2.
    thresholdRequest (requestOf (Some (w_token 20)) (buildCommitCommand 1 (co_group t_coordinator) t_subject 50)) = Some ask1
    \<and> consume 5 t_wasm t_options createMemoryNonceStore \<lparr>pe_request = ask1, pe_now = 20, pe_entropy = [3], pe_sent = True\<rparr> (startThresholdParticipant []) =
        Some ([PersistsNonces 1 [3], ParticipantAnswers out1], pt1)
    \<and> commitEntry t_wasm (deviceId (po_personalIdentity t_options)) (Inr out1) =
        Inr (Some \<lparr>dk_deviceId = deviceId (po_personalIdentity t_options), dk_value = [66, 3]\<rparr>)
    \<and> thresholdRequest (requestOf (Some (w_token 20)) (buildSignCommand 1 ?wire)) = Some ask2
    \<and> consume 5 t_wasm t_options createMemoryNonceStore \<lparr>pe_request = ask2, pe_now = 20, pe_entropy = [], pe_sent = True\<rparr> pt1 =
        Some ([SignsWith 1 [3] [66, 3, 1, 2] [9], ParticipantAnswers out2], pt2)
    \<and> shareEntry t_coordinator 1 (deviceId (po_personalIdentity t_options)) (Inr out2) =
        Inr (Some \<lparr>dk_deviceId = deviceId (po_personalIdentity t_options), dk_value = [5]\<rparr>)
    \<and> pt_running pt2 \<and> jget (pt_nonces pt2) 1 = None"
    by (rule honest_session_completes [where commitments = ?c and h = "[66]" and b = "[3]"])
      (use dev wasm env t_authorised in \<open>simp_all add: t_coordinator_def t_options_def t_port_def t_shareCodec_def t_subject_def
        decideSubject_def refuseUnrecognisedKind_def KNOWN_KINDS_def t_module_defs toBeSigned_def sig1ToBeSigned_def t_codec_def w_codec_def
        startThresholdParticipant_def\<close>)
  then show ?thesis by (auto simp: t_options_def t_port_def)
qed

definition t_replies :: "(string + manage_outcome) list" where
  "t_replies = [Inr (ManageOk [(''participant'', JBytes t_device), (''hiding'', JBytes [66]), (''binding'', JBytes [3])])]"

definition t_answers :: "(string + manage_outcome) list" where
  "t_answers = [Inr (ManageOk [(''share'', JBytes [200, 55])])]"

definition t_verifier :: identity_port where "t_verifier = t_port\<lparr>verify := (\<lambda>_ _ s. s = [5])\<rparr>"

lemma t_signed: "signSubject t_wasm t_codec t_verifier [] 1 (createThresholdIdentity t_verifier t_device) t_subject
    (commitRound t_wasm [t_device] t_replies) (\<lambda>cs. signRound t_wasm t_coordinator 1 cs t_answers) = Inr [5]"
proof -
  have committed: "commitRound t_wasm [t_device] t_replies = Inr [\<lparr>dk_deviceId = t_device, dk_value = [66, 3]\<rparr>]" by code_simp
  have entry: "shareEntry t_coordinator 1 t_device (Inr (ManageOk [(''share'', JBytes [200, 55])])) =
      Inr (Some \<lparr>dk_deviceId = t_device, dk_value = [5]\<rparr>)" by code_simp
  show ?thesis unfolding signSubject_def committed
    by (simp add: signRound_def signRequests_def t_answers_def entry definedOnes_def map_filter_def t_module_defs
      t_verifier_def Let_def del: One_nat_def)
qed

theorem group_signature_vouched_witness:
  "verify t_verifier \<lparr>alg = -8, public_key = t_device\<rparr> (toBeSigned t_codec t_subject) [5]
     \<and> (\<exists>cs shares. 1 \<le> length cs \<and> (\<forall>share\<in>set shares. shareVouched t_coordinator 1 t_answers cs share))"
proof -
  have "ti_identityKey (createThresholdIdentity t_verifier t_device) = \<lparr>alg = -8, public_key = t_device\<rparr>"
    by (simp add: createThresholdIdentity_def ALG_ED25519_def)
  with group_signature_vouched [OF t_signed] show ?thesis by auto
qed

end
