(* ===== verification/ThresholdKeygen.thy ===== *)
theory ThresholdKeygen
  imports ThresholdParticipants
begin

text \<open>
  Key generation and resharing, \<open>ts/packages/core/src/adapters/threshold-dkg.ts\<close>, with the wrappers of \<open>threshold-wasm.ts\<close>
  it calls. One device's ceremony is a state: its three collectors and where its choreography waits. Every
  request that arrives and every \<open>Promise.all\<close> over sends that settles is an event; a message may come before
  or after it is waited for. Peers are told apart by their place in the list, as the source's waiters are.
\<close>

subsection \<open>The module\<close>

record dkg_module =
  w_dkg_round1 :: "bytes \<Rightarrow> device_id \<Rightarrow> nat \<Rightarrow> nat \<Rightarrow> (bytes \<times> bytes) option"
  w_split_round1_package :: "bytes \<Rightarrow> (bytes list \<times> bytes) option"
  w_combine_round1_package :: "bytes list \<Rightarrow> bytes \<Rightarrow> bytes option"
  w_dkg_round2 :: "bytes \<Rightarrow> device_id list \<Rightarrow> bytes list \<Rightarrow> (bytes \<times> bytes list \<times> bytes list) option"
  w_dkg_round3 :: "bytes \<Rightarrow> device_id list \<Rightarrow> bytes list \<Rightarrow> device_id list \<Rightarrow> bytes list \<Rightarrow> (bytes \<times> bytes \<times> bytes) option"
  w_dkg_transcript_digest :: "device_id list \<Rightarrow> bytes list \<Rightarrow> bytes \<Rightarrow> bytes option"
  w_dkg_confirm_matches :: "bytes \<Rightarrow> bytes \<Rightarrow> bytes \<Rightarrow> bytes \<Rightarrow> bool"
  w_key_package_signing_share :: "bytes \<Rightarrow> bytes option"
  w_reshare_round1 :: "bytes \<Rightarrow> device_id \<Rightarrow> bytes \<Rightarrow> device_id list \<Rightarrow> device_id list \<Rightarrow> nat \<Rightarrow> (bytes \<times> bytes list \<times> bytes list) option"
  w_reshare_split_commitment :: "bytes \<Rightarrow> bytes list option"
  w_reshare_combine_commitment_parts :: "bytes list \<Rightarrow> bytes option"
  w_reshare_combine_commitments :: "bytes list \<Rightarrow> bytes option"
  w_reshare_transcript_digest :: "device_id list \<Rightarrow> bytes list \<Rightarrow> bytes \<Rightarrow> bytes option"
  w_reshare_derive_public_key_package :: "bytes \<Rightarrow> device_id list \<Rightarrow> (bytes \<times> bytes) option"
  w_reshare_combine_received_shares :: "device_id \<Rightarrow> bytes list \<Rightarrow> bytes \<Rightarrow> nat \<Rightarrow> bytes option"

definition fromParallelArrays :: "bytes list \<Rightarrow> bytes list \<Rightarrow> device_keyed list option" where
  "fromParallelArrays ids vals =
     (if length ids \<noteq> length vals then None
      else those (map2 (\<lambda>i v. if length i = DEVICE_ID_LENGTH then Some \<lparr>dk_deviceId = i, dk_value = v\<rparr> else None) ids vals))"

definition dkgRound2 :: "dkg_module \<Rightarrow> bytes \<Rightarrow> device_keyed list \<Rightarrow> (bytes \<times> device_keyed list) option" where
  "dkgRound2 w ownSecretPackage round1 =
     (case toParallelArrays round1 of (ids, packages) \<Rightarrow>
        (case w_dkg_round2 w ownSecretPackage ids packages of
           None \<Rightarrow> None
         | Some (secretPackage, recipientIds, outPackages) \<Rightarrow> map_option (Pair secretPackage) (fromParallelArrays recipientIds outPackages)))"

record dkg_result =
  kg_keyPackage :: bytes
  kg_publicKeyPackage :: bytes
  kg_groupVerifyingKey :: bytes

definition dkgRound3 :: "dkg_module \<Rightarrow> bytes \<Rightarrow> device_keyed list \<Rightarrow> device_keyed list \<Rightarrow> dkg_result option" where
  "dkgRound3 w ownSecretPackage round1 round2 =
     (case (toParallelArrays round1, toParallelArrays round2) of ((ids1, packages1), (ids2, packages2)) \<Rightarrow>
        map_option (\<lambda>(k, p, g). \<lparr>kg_keyPackage = k, kg_publicKeyPackage = p, kg_groupVerifyingKey = g\<rparr>)
          (w_dkg_round3 w ownSecretPackage ids1 packages1 ids2 packages2))"

definition dkgTranscriptDigest :: "dkg_module \<Rightarrow> device_keyed list \<Rightarrow> bytes \<Rightarrow> bytes option" where
  "dkgTranscriptDigest w allRound1 key =
     (case toParallelArrays allRound1 of (ids, packages) \<Rightarrow> w_dkg_transcript_digest w ids packages key)"

definition reshareRound1 ::
    "dkg_module \<Rightarrow> bytes \<Rightarrow> device_id \<Rightarrow> bytes \<Rightarrow> device_id list \<Rightarrow> device_id list \<Rightarrow> nat \<Rightarrow> (bytes \<times> device_keyed list) option" where
  "reshareRound1 w entropy ownDeviceId ownOldSigningShare survivors newParticipants newMinSigners =
     (case w_reshare_round1 w entropy ownDeviceId ownOldSigningShare survivors newParticipants newMinSigners of
        None \<Rightarrow> None
      | Some (commitment, recipientIds, shares) \<Rightarrow> map_option (Pair commitment) (fromParallelArrays recipientIds shares))"

definition reshareTranscriptDigest :: "dkg_module \<Rightarrow> device_keyed list \<Rightarrow> bytes \<Rightarrow> bytes option" where
  "reshareTranscriptDigest w survivorCommitments key =
     (case toParallelArrays survivorCommitments of (ids, commitments) \<Rightarrow> w_reshare_transcript_digest w ids commitments key)"

subsection \<open>Collectors\<close>

record 'v collector =
  cl_waiters :: "(string, nat) jmap"
  cl_backlog :: "(string, 'v) jmap"
  cl_failed :: bool

definition newCollector :: "'v collector" where
  "newCollector = \<lparr>cl_waiters = [], cl_backlog = [], cl_failed = False\<rparr>"

datatype 'v await_result = AwaitThrows | AwaitGets 'v | AwaitPends

definition awaitFrom :: "nat \<Rightarrow> string \<Rightarrow> 'v collector \<Rightarrow> 'v await_result \<times> 'v collector" where
  "awaitFrom i hex c =
     (if cl_failed c then (AwaitThrows, c)
      else case jget (cl_backlog c) hex of
             Some v \<Rightarrow> (AwaitGets v, c\<lparr>cl_backlog := jdel (cl_backlog c) hex\<rparr>)
           | None \<Rightarrow> (AwaitPends, c\<lparr>cl_waiters := jset (cl_waiters c) hex i\<rparr>))"

definition deliverFrom :: "string \<Rightarrow> 'v \<Rightarrow> 'v collector \<Rightarrow> nat option \<times> 'v collector" where
  "deliverFrom hex v c =
     (case jget (cl_waiters c) hex of
        Some i \<Rightarrow> (Some i, c\<lparr>cl_waiters := jdel (cl_waiters c) hex\<rparr>)
      | None \<Rightarrow> (None, c\<lparr>cl_backlog := jset (cl_backlog c) hex v\<rparr>))"

definition failCollector :: "'v collector \<Rightarrow> 'v collector" where
  "failCollector c = c\<lparr>cl_failed := True, cl_waiters := []\<rparr>"

text \<open>\<open>awaitFrom\<close> for every peer at once: what is there already, by place, and the collector left waiting for the rest.\<close>

fun awaitAll :: "nat \<Rightarrow> string list \<Rightarrow> 'v collector \<Rightarrow> ((nat \<times> 'v) list \<times> 'v collector) option" where
  "awaitAll i [] c = Some ([], c)"
| "awaitAll i (hex # hexes) c =
     (case awaitFrom i hex c of
        (AwaitThrows, _) \<Rightarrow> None
      | (AwaitGets v, c') \<Rightarrow> map_option (\<lambda>(got, c''). ((i, v) # got, c'')) (awaitAll (Suc i) hexes c')
      | (AwaitPends, c') \<Rightarrow> awaitAll (Suc i) hexes c')"

definition entriesOf :: "device_id list \<Rightarrow> (nat, bytes) jmap \<Rightarrow> device_keyed list option" where
  "entriesOf peers got =
     those (map (\<lambda>i. map_option (\<lambda>v. \<lparr>dk_deviceId = peers ! i, dk_value = v\<rparr>) (jget got i)) [0..<length peers])"

subsection \<open>What arrives\<close>

record round1_payload =
  rp_commitment :: "bytes list"
  rp_proofOfKnowledge :: "bytes option"
  rp_existingGroupKey :: "bytes option"

record confirm_payload =
  cp_transcriptDigest :: bytes
  cp_groupKey :: bytes

datatype keygen_params =
    Round1Params nat round1_payload
  | Round2Params nat bytes
  | ConfirmParams nat confirm_payload
  | OtherKeygenParams

record keygen_request =
  kq_verb :: string
  kq_fromDevice :: "device_id option"
  kq_token :: "cose_sign1 option"
  kq_params :: keygen_params

definition bytesList :: "json_value option \<Rightarrow> bytes list option" where
  "bytesList j = (case j of Some (JArray xs) \<Rightarrow> those (map (\<lambda>x. bytesField (Some x)) xs) | _ \<Rightarrow> None)"

definition optionalBytes :: "json_value option \<Rightarrow> bytes option option" where
  "optionalBytes j = (case j of None \<Rightarrow> Some None | Some x \<Rightarrow> map_option Some (bytesField (Some x)))"

text \<open>
  The parameters at the types the source declares, as in \<open>thresholdKeygenRound1Schema\<close>, \<open>thresholdKeygenRound2Schema\<close> and
  \<open>thresholdKeygenConfirmSchema\<close>; the threshold and the participants a peer announces are not read.
\<close>

definition keygenRound1Schema :: "(string \<times> json_value) list \<Rightarrow> keygen_params option" where
  "keygenRound1Schema params =
     (case (sessionIdSchema (jget params ''session-id''), bytesList (jget params ''commitment''),
            optionalBytes (jget params ''proof-of-knowledge''), optionalBytes (jget params ''existing-group-key'')) of
        (Some sid, Some c, Some p, Some k) \<Rightarrow> Some (Round1Params sid \<lparr>rp_commitment = c, rp_proofOfKnowledge = p, rp_existingGroupKey = k\<rparr>)
      | _ \<Rightarrow> None)"

definition keygenRound2Schema :: "(string \<times> json_value) list \<Rightarrow> keygen_params option" where
  "keygenRound2Schema params =
     (case (sessionIdSchema (jget params ''session-id''), bytesField (jget params ''share'')) of
        (Some sid, Some b) \<Rightarrow> Some (Round2Params sid b) | _ \<Rightarrow> None)"

definition keygenConfirmSchema :: "(string \<times> json_value) list \<Rightarrow> keygen_params option" where
  "keygenConfirmSchema params =
     (case (sessionIdSchema (jget params ''session-id''), bytesField (jget params ''transcript-digest''), bytesField (jget params ''group-key'')) of
        (Some sid, Some d, Some k) \<Rightarrow> Some (ConfirmParams sid \<lparr>cp_transcriptDigest = d, cp_groupKey = k\<rparr>) | _ \<Rightarrow> None)"

definition keygenParams :: "(string \<times> json_value) list \<Rightarrow> keygen_params option" where
  "keygenParams params =
     (if isThresholdKeygenRound1 params then keygenRound1Schema params
      else if isThresholdKeygenRound2 params then keygenRound2Schema params
      else if isThresholdKeygenConfirm params then keygenConfirmSchema params
      else Some OtherKeygenParams)"

subsection \<open>The ceremony of one device\<close>

record fresh_options =
  fd_ownDeviceId :: device_id
  fd_otherParticipants :: "device_id list"
  fd_threshold :: nat

record join_options =
  jr_ownDeviceId :: device_id
  jr_otherSurvivors :: "device_id list"
  jr_ownContribution :: "(bytes \<times> bytes) option"
  jr_newParticipants :: "device_id list"
  jr_newThreshold :: nat
  jr_existingGroupKey :: bytes

datatype ceremony = Fresh fresh_options | Join join_options

definition dealers :: "ceremony \<Rightarrow> device_id list" where
  "dealers c = (case c of Fresh opts \<Rightarrow> fd_otherParticipants opts | Join opts \<Rightarrow> jr_otherSurvivors opts)"

definition confirmers :: "ceremony \<Rightarrow> device_id list" where
  "confirmers c = (case c of Fresh opts \<Rightarrow> fd_otherParticipants opts
     | Join opts \<Rightarrow> filter (\<lambda>peer. \<not> bytesEqual peer (jr_ownDeviceId opts)) (jr_newParticipants opts))"

definition isReshare :: "ceremony \<Rightarrow> bool" where
  "isReshare c = (case c of Fresh _ \<Rightarrow> False | Join _ \<Rightarrow> True)"

datatype dkg_stage = Sending1 | Collecting1 | Sending2 | Collecting2 | SendingConfirm | CollectingConfirm | DkgFinished | DkgFailed

record dkg_run =
  dg_listening :: bool
  dg_round1 :: "round1_payload collector"
  dg_round2 :: "bytes collector"
  dg_confirm :: "confirm_payload collector"
  dg_stage :: dkg_stage
  dg_secretPackage :: bytes
  dg_package :: bytes
  dg_got1 :: "(nat, bytes) jmap"
  dg_got2 :: "(nat, bytes) jmap"
  dg_confirmed :: "nat list"
  dg_entries :: "device_keyed list"
  dg_result :: dkg_result
  dg_digest :: bytes

datatype dkg_effect =
    DkgSends device_id manage_command
  | DkgAnswers
  | DkgResolves dkg_result
  | DkgRejects string

definition newRun :: dkg_run where
  "newRun = \<lparr>dg_listening = True, dg_round1 = newCollector, dg_round2 = newCollector, dg_confirm = newCollector, dg_stage = Sending1,
     dg_secretPackage = [], dg_package = [], dg_got1 = [], dg_got2 = [], dg_confirmed = [], dg_entries = [],
     dg_result = \<lparr>kg_keyPackage = [], kg_publicKeyPackage = [], kg_groupVerifyingKey = []\<rparr>, dg_digest = []\<rparr>"

definition rejects :: "string \<Rightarrow> dkg_run \<Rightarrow> dkg_effect list \<times> dkg_run" where
  "rejects e s = ([DkgRejects e], s\<lparr>dg_stage := DkgFailed\<rparr>)"

definition seqRun :: "dkg_effect list \<times> dkg_run \<Rightarrow> (dkg_run \<Rightarrow> dkg_effect list \<times> dkg_run) \<Rightarrow> dkg_effect list \<times> dkg_run" where
  "seqRun r g = (case r of (fx, s) \<Rightarrow> (case g s of (gx, s') \<Rightarrow> (fx @ gx, s')))"

text \<open>
  What happens to a value that was awaited. Once a \<open>Promise.all\<close> has rejected, what the others bring has no effect.
\<close>

definition absorb1 :: "dkg_module \<Rightarrow> ceremony \<Rightarrow> nat \<Rightarrow> round1_payload \<Rightarrow> dkg_run \<Rightarrow> dkg_effect list \<times> dkg_run" where
  "absorb1 w c i pl s =
     (if dg_stage s \<noteq> Collecting1 then ([], s)
      else case c of
             Fresh _ \<Rightarrow>
               (case rp_proofOfKnowledge pl of
                  None \<Rightarrow> rejects ''missing proof-of-knowledge'' s
                | Some proof' \<Rightarrow>
                    (case w_combine_round1_package w (rp_commitment pl) proof' of
                       None \<Rightarrow> rejects ''combine_round1_package'' s
                     | Some v \<Rightarrow> ([], s\<lparr>dg_got1 := jset (dg_got1 s) i v\<rparr>)))
           | Join _ \<Rightarrow>
               (case w_reshare_combine_commitment_parts w (rp_commitment pl) of
                  None \<Rightarrow> rejects ''reshare_combine_commitment_parts'' s
                | Some v \<Rightarrow> ([], s\<lparr>dg_got1 := jset (dg_got1 s) i v\<rparr>)))"

definition absorb2 :: "nat \<Rightarrow> bytes \<Rightarrow> dkg_run \<Rightarrow> dkg_effect list \<times> dkg_run" where
  "absorb2 i share s = (if dg_stage s \<noteq> Collecting2 then ([], s) else ([], s\<lparr>dg_got2 := jset (dg_got2 s) i share\<rparr>))"

definition absorbConfirm :: "dkg_module \<Rightarrow> nat \<Rightarrow> confirm_payload \<Rightarrow> dkg_run \<Rightarrow> dkg_effect list \<times> dkg_run" where
  "absorbConfirm w i pl s =
     (if dg_stage s \<noteq> CollectingConfirm then ([], s)
      else if w_dkg_confirm_matches w (dg_digest s) (kg_groupVerifyingKey (dg_result s)) (cp_transcriptDigest pl) (cp_groupKey pl)
      then ([], s\<lparr>dg_confirmed := i # dg_confirmed s\<rparr>)
      else rejects ''transcript mismatch''
             (s\<lparr>dg_round1 := failCollector (dg_round1 s), dg_round2 := failCollector (dg_round2 s), dg_confirm := failCollector (dg_confirm s)\<rparr>))"

definition afterConfirm :: "ceremony \<Rightarrow> dkg_run \<Rightarrow> dkg_effect list \<times> dkg_run" where
  "afterConfirm c s =
     (if dg_stage s = CollectingConfirm \<and> set [0..<length (confirmers c)] \<subseteq> set (dg_confirmed s)
      then ([DkgResolves (dg_result s)], s\<lparr>dg_stage := DkgFinished\<rparr>) else ([], s))"

definition sendConfirms :: "nat \<Rightarrow> ceremony \<Rightarrow> bytes \<Rightarrow> dkg_result \<Rightarrow> dkg_run \<Rightarrow> dkg_effect list \<times> dkg_run" where
  "sendConfirms sid c digest result s =
     (map (\<lambda>peer. DkgSends peer (buildKeygenConfirmCommand sid digest (kg_groupVerifyingKey result) (isReshare c))) (confirmers c),
      s\<lparr>dg_stage := SendingConfirm, dg_result := result, dg_digest := digest\<rparr>)"

text \<open>The shares a joining device combines: those of the other survivors in order, its own last.\<close>

definition joinAfter2 :: "dkg_module \<Rightarrow> nat \<Rightarrow> ceremony \<Rightarrow> join_options \<Rightarrow> dkg_run \<Rightarrow> dkg_effect list \<times> dkg_run" where
  "joinAfter2 w sid c opts s =
     (case entriesOf (jr_otherSurvivors opts) (dg_got2 s) of
        None \<Rightarrow> ([], s)
      | Some entries \<Rightarrow>
          (let received = map dk_value entries @ (case jr_ownContribution opts of Some (_, toSelf) \<Rightarrow> [toSelf] | None \<Rightarrow> []);
               r = dg_result s
           in case w_reshare_combine_received_shares w (jr_ownDeviceId opts) received (kg_publicKeyPackage r) (jr_newThreshold opts) of
                None \<Rightarrow> rejects ''reshare_combine_received_shares'' s
              | Some keyPackage \<Rightarrow>
                  (case reshareTranscriptDigest w (dg_entries s) (kg_groupVerifyingKey r) of
                     None \<Rightarrow> rejects ''reshare_transcript_digest'' s
                   | Some digest \<Rightarrow> sendConfirms sid c digest (r\<lparr>kg_keyPackage := keyPackage\<rparr>) s)))"

definition freshAfter2 :: "dkg_module \<Rightarrow> nat \<Rightarrow> ceremony \<Rightarrow> fresh_options \<Rightarrow> dkg_run \<Rightarrow> dkg_effect list \<times> dkg_run" where
  "freshAfter2 w sid c opts s =
     (case entriesOf (fd_otherParticipants opts) (dg_got2 s) of
        None \<Rightarrow> ([], s)
      | Some round2 \<Rightarrow>
          (case dkgRound3 w (dg_secretPackage s) (dg_entries s) round2 of
             None \<Rightarrow> rejects ''dkg_round3'' s
           | Some r \<Rightarrow>
               (case dkgTranscriptDigest w (\<lparr>dk_deviceId = fd_ownDeviceId opts, dk_value = dg_package s\<rparr> # dg_entries s) (kg_groupVerifyingKey r) of
                  None \<Rightarrow> rejects ''dkg_transcript_digest'' s
                | Some digest \<Rightarrow> sendConfirms sid c digest r s)))"

definition after2 :: "dkg_module \<Rightarrow> nat \<Rightarrow> ceremony \<Rightarrow> dkg_run \<Rightarrow> dkg_effect list \<times> dkg_run" where
  "after2 w sid c s =
     (if dg_stage s \<noteq> Collecting2 then ([], s)
      else case c of Fresh opts \<Rightarrow> freshAfter2 w sid c opts s | Join opts \<Rightarrow> joinAfter2 w sid c opts s)"

definition absorbAll :: "(nat \<Rightarrow> 'v \<Rightarrow> dkg_run \<Rightarrow> dkg_effect list \<times> dkg_run) \<Rightarrow> (nat \<times> 'v) list \<Rightarrow> dkg_run \<Rightarrow> dkg_effect list \<times> dkg_run" where
  "absorbAll f got s = fold (\<lambda>(i, v) r. seqRun r (f i v)) got ([], s)"

text \<open>Beginning to wait for round 2, for the confirmations, and for round 1.\<close>

definition collect2 :: "dkg_module \<Rightarrow> nat \<Rightarrow> ceremony \<Rightarrow> dkg_run \<Rightarrow> dkg_effect list \<times> dkg_run" where
  "collect2 w sid c s =
     (case awaitAll 0 (map deviceIdToHex (dealers c)) (dg_round2 s) of
        None \<Rightarrow> rejects ''aborted'' s
      | Some (got, col) \<Rightarrow> seqRun (absorbAll absorb2 got (s\<lparr>dg_stage := Collecting2, dg_round2 := col\<rparr>)) (after2 w sid c))"

definition collectConfirm :: "dkg_module \<Rightarrow> ceremony \<Rightarrow> dkg_run \<Rightarrow> dkg_effect list \<times> dkg_run" where
  "collectConfirm w c s =
     (case awaitAll 0 (map deviceIdToHex (confirmers c)) (dg_confirm s) of
        None \<Rightarrow> rejects ''aborted'' s
      | Some (got, col) \<Rightarrow> seqRun (absorbAll (absorbConfirm w) got (s\<lparr>dg_stage := CollectingConfirm, dg_confirm := col\<rparr>)) (afterConfirm c))"

definition freshAfter1 :: "dkg_module \<Rightarrow> nat \<Rightarrow> fresh_options \<Rightarrow> dkg_run \<Rightarrow> dkg_effect list \<times> dkg_run" where
  "freshAfter1 w sid opts s =
     (case entriesOf (fd_otherParticipants opts) (dg_got1 s) of
        None \<Rightarrow> ([], s)
      | Some entries \<Rightarrow>
          (case dkgRound2 w (dg_secretPackage s) entries of
             None \<Rightarrow> rejects ''dkg_round2'' s
           | Some (secretPackage, outgoing) \<Rightarrow>
               (map (\<lambda>e. DkgSends (dk_deviceId e) (buildKeygenRound2Command sid (dk_value e) False)) outgoing,
                s\<lparr>dg_stage := Sending2, dg_secretPackage := secretPackage, dg_entries := entries\<rparr>)))"

definition joinAfter1 :: "dkg_module \<Rightarrow> nat \<Rightarrow> ceremony \<Rightarrow> join_options \<Rightarrow> dkg_run \<Rightarrow> dkg_effect list \<times> dkg_run" where
  "joinAfter1 w sid c opts s =
     (case entriesOf (jr_otherSurvivors opts) (dg_got1 s) of
        None \<Rightarrow> ([], s)
      | Some others \<Rightarrow>
          (let entries = (case jr_ownContribution opts of
                            Some (commitment, _) \<Rightarrow> \<lparr>dk_deviceId = jr_ownDeviceId opts, dk_value = commitment\<rparr> # others
                          | None \<Rightarrow> others)
           in case w_reshare_combine_commitments w (map dk_value entries) of
                None \<Rightarrow> rejects ''reshare_combine_commitments'' s
              | Some combined \<Rightarrow>
                  (case w_reshare_derive_public_key_package w combined (jr_newParticipants opts) of
                     None \<Rightarrow> rejects ''reshare_derive_public_key_package'' s
                   | Some (publicKeyPackage, key) \<Rightarrow>
                       if \<not> bytesEqual key (jr_existingGroupKey opts) then rejects ''derived group key does not match existing-group-key'' s
                       else collect2 w sid c
                              (s\<lparr>dg_entries := entries,
                                 dg_result := \<lparr>kg_keyPackage = [], kg_publicKeyPackage = publicKeyPackage, kg_groupVerifyingKey = key\<rparr>\<rparr>))))"

definition after1 :: "dkg_module \<Rightarrow> nat \<Rightarrow> ceremony \<Rightarrow> dkg_run \<Rightarrow> dkg_effect list \<times> dkg_run" where
  "after1 w sid c s =
     (if dg_stage s \<noteq> Collecting1 then ([], s)
      else case c of Fresh opts \<Rightarrow> freshAfter1 w sid opts s | Join opts \<Rightarrow> joinAfter1 w sid c opts s)"

definition collect1 :: "dkg_module \<Rightarrow> nat \<Rightarrow> ceremony \<Rightarrow> dkg_run \<Rightarrow> dkg_effect list \<times> dkg_run" where
  "collect1 w sid c s =
     (case awaitAll 0 (map deviceIdToHex (dealers c)) (dg_round1 s) of
        None \<Rightarrow> rejects ''aborted'' s
      | Some (got, col) \<Rightarrow> seqRun (absorbAll (absorb1 w c) got (s\<lparr>dg_stage := Collecting1, dg_round1 := col\<rparr>)) (after1 w sid c))"

definition runFreshThresholdDkg :: "dkg_module \<Rightarrow> nat \<Rightarrow> bytes \<Rightarrow> fresh_options \<Rightarrow> dkg_effect list \<times> dkg_run" where
  "runFreshThresholdDkg w sid entropy opts =
     (case w_dkg_round1 w entropy (fd_ownDeviceId opts) (length (fd_otherParticipants opts) + 1) (fd_threshold opts) of
        None \<Rightarrow> rejects ''dkg_round1'' newRun
      | Some (secretPackage, package) \<Rightarrow>
          (case w_split_round1_package w package of
             None \<Rightarrow> rejects ''split_round1_package'' newRun
           | Some (commitment, proof') \<Rightarrow>
               (map (\<lambda>peer. DkgSends peer (buildKeygenRound1Command
                   \<lparr>kr_sessionId = sid, kr_threshold = fd_threshold opts, kr_participants = fd_ownDeviceId opts # fd_otherParticipants opts,
                    kr_commitment = commitment, kr_proofOfKnowledge = Some proof', kr_existingGroupKey = None\<rparr>)) (fd_otherParticipants opts),
                newRun\<lparr>dg_secretPackage := secretPackage, dg_package := package\<rparr>)))"

definition joinThresholdReshare :: "dkg_module \<Rightarrow> nat \<Rightarrow> join_options \<Rightarrow> dkg_effect list \<times> dkg_run" where
  "joinThresholdReshare w sid opts = collect1 w sid (Join opts) newRun"

definition startCeremony :: "dkg_module \<Rightarrow> nat \<Rightarrow> bytes \<Rightarrow> ceremony \<Rightarrow> dkg_effect list \<times> dkg_run" where
  "startCeremony w sid entropy c = (case c of Fresh opts \<Rightarrow> runFreshThresholdDkg w sid entropy opts | Join opts \<Rightarrow> joinThresholdReshare w sid opts)"

subsection \<open>Events\<close>

datatype dkg_event =
    KeygenArrives keygen_request bool
  | SendsSettle "string option"

text \<open>The loop that delivers requests; an answer that cannot be sent ends it.\<close>

definition consumeKeygen :: "dkg_module \<Rightarrow> nat \<Rightarrow> ceremony \<Rightarrow> keygen_request \<Rightarrow> bool \<Rightarrow> dkg_run \<Rightarrow> dkg_effect list \<times> dkg_run" where
  "consumeKeygen w sid c req sent s =
     (let respond = (\<lambda>s'. ([DkgAnswers], s'\<lparr>dg_listening := sent\<rparr>))
      in if \<not> dg_listening s \<or> kq_verb req \<noteq> keygenCapabilityVerb (isReshare c) then ([], s)
         else case kq_fromDevice req of
                None \<Rightarrow> ([], s)
              | Some from' \<Rightarrow>
                  (case kq_params req of
                     Round1Params sid' pl \<Rightarrow>
                       if sid' \<noteq> numberOfBigInt sid then ([], s)
                       else (case deliverFrom (deviceIdToHex from') pl (dg_round1 s) of
                               (None, col) \<Rightarrow> respond (s\<lparr>dg_round1 := col\<rparr>)
                             | (Some i, col) \<Rightarrow> seqRun (seqRun (absorb1 w c i pl (s\<lparr>dg_round1 := col\<rparr>)) (after1 w sid c)) respond)
                   | Round2Params sid' share \<Rightarrow>
                       if sid' \<noteq> numberOfBigInt sid then ([], s)
                       else (case deliverFrom (deviceIdToHex from') share (dg_round2 s) of
                               (None, col) \<Rightarrow> respond (s\<lparr>dg_round2 := col\<rparr>)
                             | (Some i, col) \<Rightarrow> seqRun (seqRun (absorb2 i share (s\<lparr>dg_round2 := col\<rparr>)) (after2 w sid c)) respond)
                   | ConfirmParams sid' pl \<Rightarrow>
                       if sid' \<noteq> numberOfBigInt sid then ([], s)
                       else (case deliverFrom (deviceIdToHex from') pl (dg_confirm s) of
                               (None, col) \<Rightarrow> respond (s\<lparr>dg_confirm := col\<rparr>)
                             | (Some i, col) \<Rightarrow> seqRun (seqRun (absorbConfirm w i pl (s\<lparr>dg_confirm := col\<rparr>)) (afterConfirm c)) respond)
                   | OtherKeygenParams \<Rightarrow> ([], s)))"

definition sendsSettle :: "dkg_module \<Rightarrow> nat \<Rightarrow> ceremony \<Rightarrow> string option \<Rightarrow> dkg_run \<Rightarrow> dkg_effect list \<times> dkg_run" where
  "sendsSettle w sid c failed s =
     (if dg_stage s \<notin> {Sending1, Sending2, SendingConfirm} then ([], s)
      else case failed of
             Some e \<Rightarrow> rejects e s
           | None \<Rightarrow>
               (if dg_stage s = Sending1 then collect1 w sid c s
                else if dg_stage s = Sending2 then collect2 w sid c s
                else collectConfirm w c s))"

definition dkgStep :: "dkg_module \<Rightarrow> nat \<Rightarrow> ceremony \<Rightarrow> dkg_event \<Rightarrow> dkg_run \<Rightarrow> dkg_effect list \<times> dkg_run" where
  "dkgStep w sid c e s =
     (case e of KeygenArrives req sent \<Rightarrow> consumeKeygen w sid c req sent s | SendsSettle failed \<Rightarrow> sendsSettle w sid c failed s)"

inductive dkg_reach :: "dkg_module \<Rightarrow> nat \<Rightarrow> bytes \<Rightarrow> ceremony \<Rightarrow> dkg_event list \<Rightarrow> dkg_effect list \<Rightarrow> dkg_run \<Rightarrow> bool"
  for w sid entropy c where
  dkg_start: "startCeremony w sid entropy c = (fx, s) \<Longrightarrow> dkg_reach w sid entropy c [] fx s"
| dkg_next: "dkg_reach w sid entropy c es fx s \<Longrightarrow> dkgStep w sid c e s = (fx', s') \<Longrightarrow> dkg_reach w sid entropy c (es @ [e]) (fx @ fx') s'"

subsection \<open>A survivor's contribution\<close>

record contribution_options =
  cb_ownDeviceId :: device_id
  cb_ownOldKeyPackage :: bytes
  cb_survivors :: "device_id list"
  cb_newParticipants :: "device_id list"
  cb_newThreshold :: nat
  cb_existingGroupKey :: bytes

record reshare_contribution =
  rb_commitment :: bytes
  rb_outgoing :: "device_keyed list"
  rb_shareToSelf :: "bytes option"

definition computeReshareContribution :: "dkg_module \<Rightarrow> bytes \<Rightarrow> contribution_options \<Rightarrow> reshare_contribution option" where
  "computeReshareContribution w entropy opts =
     (case w_key_package_signing_share w (cb_ownOldKeyPackage opts) of
        None \<Rightarrow> None
      | Some ownOldShare \<Rightarrow>
          map_option (\<lambda>(commitment, outgoing).
              \<lparr>rb_commitment = commitment, rb_outgoing = outgoing,
               rb_shareToSelf = map_option dk_value (find (\<lambda>e. bytesEqual (dk_deviceId e) (cb_ownDeviceId opts)) outgoing)\<rparr>)
            (reshareRound1 w entropy (cb_ownDeviceId opts) ownOldShare (cb_survivors opts) (cb_newParticipants opts) (cb_newThreshold opts)))"

text \<open>
  The two rounds of sends of \<open>sendReshareContribution\<close>: the second begins once every send of the first has settled.
\<close>

definition contributionRound1 :: "dkg_module \<Rightarrow> nat \<Rightarrow> contribution_options \<Rightarrow> reshare_contribution \<Rightarrow> dkg_effect list option" where
  "contributionRound1 w sid opts contribution =
     map_option (\<lambda>parts. map (\<lambda>peer. DkgSends peer (buildKeygenRound1Command
         \<lparr>kr_sessionId = sid, kr_threshold = cb_newThreshold opts, kr_participants = cb_newParticipants opts, kr_commitment = parts,
          kr_proofOfKnowledge = None, kr_existingGroupKey = Some (cb_existingGroupKey opts)\<rparr>))
       (filter (\<lambda>peer. \<not> bytesEqual peer (cb_ownDeviceId opts)) (cb_newParticipants opts)))
     (w_reshare_split_commitment w (rb_commitment contribution))"

definition contributionRound2 :: "nat \<Rightarrow> contribution_options \<Rightarrow> reshare_contribution \<Rightarrow> dkg_effect list" where
  "contributionRound2 sid opts contribution =
     map (\<lambda>e. DkgSends (dk_deviceId e) (buildKeygenRound2Command sid (dk_value e) True))
       (filter (\<lambda>e. \<not> bytesEqual (dk_deviceId e) (cb_ownDeviceId opts)) (rb_outgoing contribution))"

definition sendReshareContribution ::
    "dkg_module \<Rightarrow> nat \<Rightarrow> contribution_options \<Rightarrow> reshare_contribution \<Rightarrow> string option \<Rightarrow> dkg_effect list option" where
  "sendReshareContribution w sid opts contribution failed =
     map_option (\<lambda>fx. fx @ (case failed of Some e \<Rightarrow> [DkgRejects e] | None \<Rightarrow> contributionRound2 sid opts contribution))
       (contributionRound1 w sid opts contribution)"

end
