(* ===== verification/ThresholdKeygenProperties.thy ===== *)
theory ThresholdKeygenProperties
  imports ThresholdKeygen
begin

text \<open>
  What a ceremony promises the device that runs it: a key package is returned only once every other participant
  has confirmed the same transcript and group key, and it was made from what those participants broadcast; a
  reshare never returns under another group key.
\<close>

subsection \<open>Where values come from\<close>

definition broadcastBy :: "nat \<Rightarrow> ceremony \<Rightarrow> dkg_event list \<Rightarrow> string \<Rightarrow> round1_payload \<Rightarrow> bool" where
  "broadcastBy sid c es hex pl \<longleftrightarrow>
     (\<exists>req sent from'. KeygenArrives req sent \<in> set es \<and> kq_verb req = keygenCapabilityVerb (isReshare c)
        \<and> kq_fromDevice req = Some from' \<and> deviceIdToHex from' = hex \<and> kq_params req = Round1Params (numberOfBigInt sid) pl)"

definition confirmedBy :: "nat \<Rightarrow> ceremony \<Rightarrow> dkg_event list \<Rightarrow> string \<Rightarrow> confirm_payload \<Rightarrow> bool" where
  "confirmedBy sid c es hex pl \<longleftrightarrow>
     (\<exists>req sent from'. KeygenArrives req sent \<in> set es \<and> kq_verb req = keygenCapabilityVerb (isReshare c)
        \<and> kq_fromDevice req = Some from' \<and> deviceIdToHex from' = hex \<and> kq_params req = ConfirmParams (numberOfBigInt sid) pl)"

text \<open>What round 1 of a peer amounts to; \<open>None\<close> without the proof a fresh ceremony demands.\<close>

definition round1Value :: "dkg_module \<Rightarrow> ceremony \<Rightarrow> round1_payload \<Rightarrow> bytes option" where
  "round1Value w c pl =
     (case c of
        Fresh _ \<Rightarrow> Option.bind (rp_proofOfKnowledge pl) (w_combine_round1_package w (rp_commitment pl))
      | Join _ \<Rightarrow> w_reshare_combine_commitment_parts w (rp_commitment pl))"

definition perDeviceOk :: "(string \<Rightarrow> 'v \<Rightarrow> bool) \<Rightarrow> string list \<Rightarrow> 'v collector \<Rightarrow> bool" where
  "perDeviceOk P hexes col \<longleftrightarrow>
     (\<forall>hex v. jget (cl_backlog col) hex = Some v \<longrightarrow> P hex v)
     \<and> (\<forall>hex i. jget (cl_waiters col) hex = Some i \<longrightarrow> i < length hexes \<and> hexes ! i = hex)"

lemma perDeviceOk_new [simp]: "perDeviceOk P hexes newCollector"
  by (simp add: perDeviceOk_def newCollector_def)

lemma perDeviceOk_fail: "perDeviceOk P hexes col \<Longrightarrow> perDeviceOk P hexes (failCollector col)"
  by (simp add: perDeviceOk_def failCollector_def)

lemma perDeviceOk_mono: "perDeviceOk P hexes col \<Longrightarrow> (\<And>hex v. P hex v \<Longrightarrow> Q hex v) \<Longrightarrow> perDeviceOk Q hexes col"
  by (auto simp: perDeviceOk_def)

lemma awaitAll_ok:
  "awaitAll n (drop n hexes) col = Some (got, col') \<Longrightarrow> perDeviceOk P hexes col \<Longrightarrow>
     perDeviceOk P hexes col' \<and> (\<forall>(i, v) \<in> set got. i < length hexes \<and> P (hexes ! i) v)"
proof (induction n "drop n hexes" col arbitrary: got rule: awaitAll.induct)
  case (1 n col)
  then show ?case by simp
next
  case (2 n hex rest col)
  then have n: "n < length hexes" "hexes ! n = hex" "rest = drop (Suc n) hexes"
    by (metis drop_eq_Nil2 linorder_not_less list.distinct(1), metis hd_drop_conv_nth drop_eq_Nil2 linorder_not_less list.distinct(1) list.sel(1),
        metis drop_Suc list.sel(3) tl_drop)
  show ?case
  proof (cases "awaitFrom n hex col")
    case (Pair r c')
    have step: "perDeviceOk P hexes c' \<and> (\<forall>v. r = AwaitGets v \<longrightarrow> P hex v)" if "r \<noteq> AwaitThrows"
      using Pair that 2(5) n by (auto simp: awaitFrom_def perDeviceOk_def split: if_splits option.splits)
    show ?thesis
    proof (cases r)
      case AwaitThrows
      with Pair 2(3,4) show ?thesis by (simp flip: 2(3))
    next
      case (AwaitGets v)
      with Pair 2(3,4) obtain got' where rest: "awaitAll (Suc n) rest c' = Some (got', col')" "got = (n, v) # got'"
        by (auto simp flip: 2(3))
      from 2(1) [OF Pair [symmetric] AwaitGets] show ?thesis using rest step AwaitGets n by auto
    next
      case AwaitPends
      with Pair 2(3,4) have rest: "awaitAll (Suc n) rest c' = Some (got, col')" by (simp flip: 2(3))
      from 2(2) [OF Pair [symmetric] AwaitPends] show ?thesis using rest step AwaitPends n by auto
    qed
  qed
qed

lemma deliverFrom_ok:
  assumes "deliverFrom hex v col = (r, col')" and "perDeviceOk P hexes col" and "P hex v"
  shows "perDeviceOk P hexes col' \<and> (\<forall>i. r = Some i \<longrightarrow> i < length hexes \<and> hexes ! i = hex)"
  using assms by (auto simp: deliverFrom_def perDeviceOk_def split: option.splits if_splits)

subsection \<open>The invariant\<close>

definition own :: "ceremony \<Rightarrow> device_id" where
  "own c = (case c of Fresh opts \<Rightarrow> fd_ownDeviceId opts | Join opts \<Rightarrow> jr_ownDeviceId opts)"

definition underway :: "dkg_run \<Rightarrow> bool" where
  "underway s \<longleftrightarrow> dg_stage s \<in> {Sending2, Collecting2, SendingConfirm, CollectingConfirm, DkgFinished}"

text \<open>A value, the entries of a run and a confirmation, by who broadcast (\<open>P\<close>) or confirmed (\<open>Q\<close>) what.\<close>

definition dealt :: "dkg_module \<Rightarrow> ceremony \<Rightarrow> (string \<Rightarrow> round1_payload \<Rightarrow> bool) \<Rightarrow> device_id \<Rightarrow> bytes \<Rightarrow> bool" where
  "dealt w c P d v \<longleftrightarrow> (\<exists>pl. P (deviceIdToHex d) pl \<and> round1Value w c pl = Some v)"

definition covers :: "dkg_module \<Rightarrow> ceremony \<Rightarrow> (string \<Rightarrow> round1_payload \<Rightarrow> bool) \<Rightarrow> device_keyed list \<Rightarrow> bool" where
  "covers w c P entries \<longleftrightarrow> (\<forall>d\<in>set (dealers c). \<exists>v. \<lparr>dk_deviceId = d, dk_value = v\<rparr> \<in> set entries \<and> dealt w c P d v)"

definition agreed :: "dkg_module \<Rightarrow> ceremony \<Rightarrow> (string \<Rightarrow> confirm_payload \<Rightarrow> bool) \<Rightarrow> bytes \<Rightarrow> bytes \<Rightarrow> nat \<Rightarrow> bool" where
  "agreed w c Q digest key i \<longleftrightarrow> i < length (confirmers c)
     \<and> (\<exists>pl. Q (deviceIdToHex (confirmers c ! i)) pl \<and> w_dkg_confirm_matches w digest key (cp_transcriptDigest pl) (cp_groupKey pl))"

definition keyKept :: "ceremony \<Rightarrow> bytes \<Rightarrow> bool" where
  "keyKept c key \<longleftrightarrow> (case c of Fresh _ \<Rightarrow> True | Join opts \<Rightarrow> key = jr_existingGroupKey opts)"

definition gatheredOk :: "dkg_module \<Rightarrow> ceremony \<Rightarrow> (string \<Rightarrow> round1_payload \<Rightarrow> bool) \<Rightarrow> dkg_run \<Rightarrow> bool" where
  "gatheredOk w c P s \<longleftrightarrow>
     perDeviceOk P (map deviceIdToHex (dealers c)) (dg_round1 s)
     \<and> (\<forall>i v. jget (dg_got1 s) i = Some v \<longrightarrow> i < length (dealers c) \<and> dealt w c P (dealers c ! i) v)
     \<and> (underway s \<longrightarrow> covers w c P (dg_entries s) \<and> keyKept c (kg_groupVerifyingKey (dg_result s)))"

definition confirmsOk :: "dkg_module \<Rightarrow> ceremony \<Rightarrow> (string \<Rightarrow> confirm_payload \<Rightarrow> bool) \<Rightarrow> dkg_effect list \<Rightarrow> dkg_run \<Rightarrow> bool" where
  "confirmsOk w c Q fx s \<longleftrightarrow>
     perDeviceOk Q (map deviceIdToHex (confirmers c)) (dg_confirm s)
     \<and> (\<forall>i\<in>set (dg_confirmed s). agreed w c Q (dg_digest s) (kg_groupVerifyingKey (dg_result s)) i)
     \<and> (dg_confirmed s \<noteq> [] \<longrightarrow> dg_stage s \<in> {CollectingConfirm, DkgFinished, DkgFailed})
     \<and> (dg_stage s = DkgFinished \<longrightarrow> set [0..<length (confirmers c)] \<subseteq> set (dg_confirmed s))
     \<and> (\<forall>r. DkgResolves r \<in> set fx \<longrightarrow> dg_stage s = DkgFinished \<and> dg_result s = r)"

definition runOk where
  "runOk w c P Q fx s \<longleftrightarrow> gatheredOk w c P s \<and> confirmsOk w c Q fx s"

lemma runOk_mono:
  assumes "runOk w c P Q fx s" and "\<And>hex pl. P hex pl \<Longrightarrow> P' hex pl" and "\<And>hex pl. Q hex pl \<Longrightarrow> Q' hex pl"
  shows "runOk w c P' Q' fx s"
proof -
  have dealt: "dealt w c P d v \<Longrightarrow> dealt w c P' d v" for d v using assms(2) by (auto simp: dealt_def)
  then have covers: "covers w c P es \<Longrightarrow> covers w c P' es" for es by (fastforce simp: covers_def)
  have agreed: "agreed w c Q d k i \<Longrightarrow> agreed w c Q' d k i" for d k i using assms(3) by (auto simp: agreed_def)
  have "perDeviceOk P' (map deviceIdToHex (dealers c)) (dg_round1 s)" "perDeviceOk Q' (map deviceIdToHex (confirmers c)) (dg_confirm s)"
    using assms perDeviceOk_mono unfolding runOk_def gatheredOk_def confirmsOk_def by blast+
  with assms(1) dealt covers agreed show ?thesis by (simp add: runOk_def gatheredOk_def confirmsOk_def)
qed

lemmas runOk_defs = runOk_def gatheredOk_def confirmsOk_def underway_def

text \<open>A transition keeps the invariant whatever was done before it.\<close>

definition keeps where
  "keeps w c P Q f \<longleftrightarrow> (\<forall>fx s gx s'. runOk w c P Q fx s \<longrightarrow> f s = (gx, s') \<longrightarrow> runOk w c P Q (fx @ gx) s')"

lemma keepsI: "(\<And>fx s gx s'. runOk w c P Q fx s \<Longrightarrow> f s = (gx, s') \<Longrightarrow> runOk w c P Q (fx @ gx) s') \<Longrightarrow> keeps w c P Q f"
  by (simp add: keeps_def)

lemma keepsD: "keeps w c P Q f \<Longrightarrow> runOk w c P Q fx s \<Longrightarrow> f s = (gx, s') \<Longrightarrow> runOk w c P Q (fx @ gx) s'"
  by (simp add: keeps_def)

lemma keeps_seq: "keeps w c P Q f \<Longrightarrow> keeps w c P Q g \<Longrightarrow> keeps w c P Q (\<lambda>s. seqRun (f s) g)"
proof (rule keepsI)
  fix fx s gx s'
  assume f: "keeps w c P Q f" and g: "keeps w c P Q g" and ok: "runOk w c P Q fx s" and seq: "seqRun (f s) g = (gx, s')"
  obtain f1 s1 where 1: "f s = (f1, s1)" by (cases "f s")
  obtain g1 where 2: "g s1 = (g1, s')" "gx = f1 @ g1" using seq 1 by (cases "g s1") (auto simp: seqRun_def)
  show "runOk w c P Q (fx @ gx) s'" using keepsD [OF g keepsD [OF f ok 1] 2(1)] 2(2) by simp
qed

lemma keeps_fold:
  assumes "\<And>i v. (i, v) \<in> set got \<Longrightarrow> keeps w c P Q (f i v)"
  shows "keeps w c P Q (absorbAll f got)"
proof -
  have "keeps w c P Q h \<Longrightarrow> keeps w c P Q (\<lambda>s. fold (\<lambda>(i, v) r. seqRun r (f i v)) got (h s))" for h
    using assms
  proof (induction got arbitrary: h)
    case (Cons p got)
    obtain i v where p: "p = (i, v)" by (cases p)
    have "keeps w c P Q (\<lambda>s. seqRun (h s) (f i v))" using Cons.prems p by (intro keeps_seq) auto
    from Cons.IH [OF this] Cons.prems(2) p show ?case by simp
  qed simp
  from this [of "\<lambda>s. ([], s)"] show ?thesis unfolding absorbAll_def by (auto simp: keeps_def)
qed

lemma rejects_ok:
  assumes "runOk w c P Q fx s" and "dg_stage s \<noteq> DkgFinished" and "rejects e s = (gx, s')"
  shows "runOk w c P Q (fx @ gx) s'"
proof -
  have "gx = [DkgRejects e]" "s' = s\<lparr>dg_stage := DkgFailed\<rparr>" using assms(3) by (simp_all add: rejects_def)
  with assms(1,2) show ?thesis by (simp add: runOk_defs)
qed

lemma idle_ok: "runOk w c P Q fx s \<Longrightarrow> ([], s) = (gx, s') \<Longrightarrow> runOk w c P Q (fx @ gx) s'"
  by simp

lemma absorb1_keeps:
  assumes "i < length (dealers c)" "P (deviceIdToHex (dealers c ! i)) pl"
  shows "keeps w c P Q (absorb1 w c i pl)"
proof (rule keepsI)
  fix fx s gx s'
  assume ok: "runOk w c P Q fx s" and step: "absorb1 w c i pl s = (gx, s')"
  show "runOk w c P Q (fx @ gx) s'"
  proof (cases "dg_stage s = Collecting1")
    case True
    show ?thesis
    proof (cases "round1Value w c pl")
      case None
      with True obtain e where "absorb1 w c i pl s = rejects e s"
        by (cases "rp_proofOfKnowledge pl") (auto simp: absorb1_def round1Value_def split: ceremony.splits option.splits)
      with step rejects_ok [OF ok] True show ?thesis by simp
    next
      case (Some v)
      with True have "absorb1 w c i pl s = ([], s\<lparr>dg_got1 := jset (dg_got1 s) i v\<rparr>)"
        by (auto simp: absorb1_def round1Value_def bind_eq_Some_conv split: ceremony.splits)
      moreover have "dealt w c P (dealers c ! i) v" using assms Some by (auto simp: dealt_def)
      ultimately show ?thesis using step ok assms(1) True by (auto simp: runOk_def gatheredOk_def confirmsOk_def underway_def)
    qed
  qed (use step ok in \<open>simp add: absorb1_def\<close>)
qed

lemma absorb2_keeps: "keeps w c P Q (absorb2 i share)"
  by (rule keepsI) (auto simp: absorb2_def runOk_defs split: if_splits)

lemma absorbConfirm_keeps:
  assumes "i < length (confirmers c)" "Q (deviceIdToHex (confirmers c ! i)) pl"
  shows "keeps w c P Q (absorbConfirm w i pl)"
proof (rule keepsI)
  fix fx s gx s'
  assume ok: "runOk w c P Q fx s" and step: "absorbConfirm w i pl s = (gx, s')"
  have agree: "runOk w c P Q fx (s\<lparr>dg_confirmed := i # dg_confirmed s\<rparr>)" if "dg_stage s = CollectingConfirm"
      "w_dkg_confirm_matches w (dg_digest s) (kg_groupVerifyingKey (dg_result s)) (cp_transcriptDigest pl) (cp_groupKey pl)"
  proof -
    have "agreed w c Q (dg_digest s) (kg_groupVerifyingKey (dg_result s)) i" using assms that by (auto simp: agreed_def)
    with ok that(1) show ?thesis by (simp add: runOk_defs)
  qed
  have failed: "runOk w c P Q fx (s\<lparr>dg_round1 := failCollector (dg_round1 s), dg_round2 := failCollector (dg_round2 s),
      dg_confirm := failCollector (dg_confirm s)\<rparr>)"
    using ok by (simp add: runOk_defs perDeviceOk_fail)
  show "runOk w c P Q (fx @ gx) s'"
    using step ok agree rejects_ok [OF failed] by (auto simp: absorbConfirm_def split: if_splits)
qed

lemma afterConfirm_keeps: "keeps w c P Q (afterConfirm c)"
proof (rule keepsI)
  fix fx s gx s'
  assume ok: "runOk w c P Q fx s" and step: "afterConfirm c s = (gx, s')"
  show "runOk w c P Q (fx @ gx) s'"
  proof (cases "dg_stage s = CollectingConfirm \<and> set [0..<length (confirmers c)] \<subseteq> set (dg_confirmed s)")
    case True
    with step have "gx = [DkgResolves (dg_result s)]" "s' = s\<lparr>dg_stage := DkgFinished\<rparr>" by (auto simp: afterConfirm_def)
    with ok True show ?thesis by (simp add: runOk_defs)
  next
    case False
    then have "afterConfirm c s = ([], s)" unfolding afterConfirm_def by (simp only: if_False)
    with step ok show ?thesis by simp
  qed
qed

lemma sendConfirms_ok:
  assumes "runOk w c P Q fx s" and "dg_stage s = Collecting2" and "keyKept c (kg_groupVerifyingKey r)" and "sendConfirms sid c digest r s = (gx, s')"
  shows "runOk w c P Q (fx @ gx) s'"
proof -
  have "set gx \<subseteq> {DkgSends p m | p m. True}" "s' = s\<lparr>dg_stage := SendingConfirm, dg_result := r, dg_digest := digest\<rparr>"
    using assms(4) by (auto simp: sendConfirms_def)
  then have "\<forall>r. DkgResolves r \<notin> set gx" "s' = s\<lparr>dg_stage := SendingConfirm, dg_result := r, dg_digest := digest\<rparr>" by auto
  with assms(1-3) show ?thesis by (simp add: runOk_defs)
qed

lemma after2_keeps: "keeps w c P Q (after2 w sid c)"
proof (rule keepsI)
  fix fx s gx s'
  assume ok: "runOk w c P Q fx s" and step: "after2 w sid c s = (gx, s')"
  show "runOk w c P Q (fx @ gx) s'"
  proof (cases "dg_stage s = Collecting2")
    case True
    have kept: "keyKept c (kg_groupVerifyingKey (dg_result s))" using ok True by (simp add: runOk_defs)
    have "(gx, s') = ([], s) \<or> (\<exists>e. rejects e s = (gx, s'))
        \<or> (\<exists>digest r. keyKept c (kg_groupVerifyingKey r) \<and> sendConfirms sid c digest r s = (gx, s'))"
    proof (cases c)
      case (Fresh opts)
      with step True show ?thesis by (auto simp: after2_def freshAfter2_def keyKept_def split: option.splits)
    next
      case (Join opts)
      with step True kept show ?thesis by (auto simp: after2_def joinAfter2_def Let_def keyKept_def split: option.splits)
    qed
    then show ?thesis using ok sendConfirms_ok [OF ok True] rejects_ok [OF ok] True by auto
  qed (use step ok in \<open>simp add: after2_def\<close>)
qed

lemma entries_cover:
  assumes "entriesOf peers got = Some entries" and "d \<in> set peers"
  shows "\<exists>i v. i < length peers \<and> peers ! i = d \<and> jget got i = Some v \<and> \<lparr>dk_deviceId = d, dk_value = v\<rparr> \<in> set entries"
proof -
  from assms(2) obtain i where i: "i < length peers" "peers ! i = d" by (auto simp: in_set_conv_nth)
  have eq: "map (\<lambda>i. map_option (\<lambda>v. \<lparr>dk_deviceId = peers ! i, dk_value = v\<rparr>) (jget got i)) [0..<length peers] = map Some entries"
    using assms(1) unfolding entriesOf_def those_Some_iff .
  then have len: "length entries = length peers" by (auto dest: map_eq_imp_length_eq)
  have "map_option (\<lambda>v. \<lparr>dk_deviceId = d, dk_value = v\<rparr>) (jget got i) = Some (entries ! i)"
    using arg_cong [OF eq, of "\<lambda>l. l ! i"] i len by simp
  moreover have "entries ! i \<in> set entries" using i len by simp
  ultimately show ?thesis using i by auto
qed

lemma gathered_cover:
  assumes "runOk w c P Q fx s" and "entriesOf (dealers c) (dg_got1 s) = Some entries"
  shows "covers w c P entries" and "covers w c P (e # entries)"
proof -
  have "\<exists>v. \<lparr>dk_deviceId = d, dk_value = v\<rparr> \<in> set entries \<and> dealt w c P d v" if "d \<in> set (dealers c)" for d
    using entries_cover [OF assms(2) that] assms(1) by (auto simp: runOk_def gatheredOk_def)
  then show "covers w c P entries" "covers w c P (e # entries)" by (fastforce simp: covers_def)+
qed

lemma collect2_ok:
  assumes "runOk w c P Q fx s" and "dg_stage s \<in> {Collecting1, Sending2}" and "covers w c P (dg_entries s)"
    and "keyKept c (kg_groupVerifyingKey (dg_result s))" and "collect2 w sid c s = (gx, s')"
  shows "runOk w c P Q (fx @ gx) s'"
proof (cases "awaitAll 0 (map deviceIdToHex (dealers c)) (dg_round2 s)")
  case None
  with assms rejects_ok [OF assms(1)] show ?thesis by (auto simp: collect2_def)
next
  case (Some r)
  obtain got col where r: "r = (got, col)" by (cases r)
  have begun: "runOk w c P Q fx (s\<lparr>dg_stage := Collecting2, dg_round2 := col\<rparr>)"
    using assms(1-4) by (auto simp: runOk_defs)
  have "keeps w c P Q (\<lambda>s. seqRun (absorbAll absorb2 got s) (after2 w sid c))"
    by (intro keeps_seq keeps_fold absorb2_keeps after2_keeps)
  from keepsD [OF this begun] assms(5) Some r show ?thesis by (simp add: collect2_def)
qed

lemma freshAfter1_ok:
  assumes ok: "runOk w c P Q fx s" and "dg_stage s = Collecting1" and c: "c = Fresh opts" and step: "freshAfter1 w sid opts s = (gx, s')"
  shows "runOk w c P Q (fx @ gx) s'"
proof (cases "entriesOf (fd_otherParticipants opts) (dg_got1 s)")
  case None
  with ok step show ?thesis by (simp add: freshAfter1_def)
next
  case (Some entries)
  then have cover: "covers w c P entries" using gathered_cover(1) [OF ok] c by (simp add: dealers_def)
  show ?thesis
  proof (cases "dkgRound2 w (dg_secretPackage s) entries")
    case None
    with Some step rejects_ok [OF ok] assms(2) show ?thesis by (simp add: freshAfter1_def)
  next
    case (Some r)
    obtain secretPackage outgoing where r: "r = (secretPackage, outgoing)" by (cases r)
    with Some step \<open>entriesOf _ _ = Some entries\<close>
    have sent: "\<forall>r. DkgResolves r \<notin> set gx"
      and s': "s' = s\<lparr>dg_stage := Sending2, dg_secretPackage := secretPackage, dg_entries := entries\<rparr>"
      by (auto simp: freshAfter1_def)
    from sent ok assms(2) cover c show ?thesis unfolding s' by (simp add: runOk_defs keyKept_def)
  qed
qed

lemma joinAfter1_ok:
  assumes ok: "runOk w c P Q fx s" and stage: "dg_stage s = Collecting1" and c: "c = Join opts" and step: "joinAfter1 w sid c opts s = (gx, s')"
  shows "runOk w c P Q (fx @ gx) s'"
proof (cases "entriesOf (jr_otherSurvivors opts) (dg_got1 s)")
  case None
  with ok step show ?thesis by (simp add: joinAfter1_def)
next
  case (Some others)
  define entries where "entries = (case jr_ownContribution opts of
      Some (commitment, _) \<Rightarrow> \<lparr>dk_deviceId = jr_ownDeviceId opts, dk_value = commitment\<rparr> # others | None \<Rightarrow> others)"
  have cover: "covers w c P entries"
    using gathered_cover [OF ok] Some c by (auto simp: dealers_def entries_def split: option.splits)
  consider (rejected) e where "rejects e s = (gx, s')"
    | (adopted) pkp key where "key = jr_existingGroupKey opts"
        "collect2 w sid c (s\<lparr>dg_entries := entries, dg_result := \<lparr>kg_keyPackage = [], kg_publicKeyPackage = pkp, kg_groupVerifyingKey = key\<rparr>\<rparr>) = (gx, s')"
    using step Some by (auto simp: joinAfter1_def Let_def entries_def [symmetric] split: option.splits if_splits)
  then show ?thesis
  proof cases
    case (rejected e)
    with rejects_ok [OF ok] stage show ?thesis by simp
  next
    case (adopted pkp key)
    let ?s = "s\<lparr>dg_entries := entries, dg_result := \<lparr>kg_keyPackage = [], kg_publicKeyPackage = pkp, kg_groupVerifyingKey = key\<rparr>\<rparr>"
    have "runOk w c P Q fx ?s" using ok stage by (simp add: runOk_defs)
    from collect2_ok [OF this _ _ _ adopted(2)] stage cover adopted(1) c show ?thesis by (simp add: keyKept_def)
  qed
qed

lemma after1_keeps: "keeps w c P Q (after1 w sid c)"
proof (rule keepsI)
  fix fx s gx s'
  assume "runOk w c P Q fx s" and "after1 w sid c s = (gx, s')"
  then show "runOk w c P Q (fx @ gx) s'"
    using freshAfter1_ok joinAfter1_ok by (cases c) (auto simp: after1_def split: if_splits)
qed

lemma collect1_ok:
  assumes ok: "runOk w c P Q fx s" and stage: "dg_stage s = Sending1" and step: "collect1 w sid c s = (gx, s')"
  shows "runOk w c P Q (fx @ gx) s'"
proof (cases "awaitAll 0 (map deviceIdToHex (dealers c)) (dg_round1 s)")
  case None
  with step stage rejects_ok [OF ok] show ?thesis by (simp add: collect1_def)
next
  case (Some r)
  obtain got col where r: "r = (got, col)" by (cases r)
  have "perDeviceOk P (map deviceIdToHex (dealers c)) (dg_round1 s)" using ok by (simp add: runOk_def gatheredOk_def)
  with awaitAll_ok [of 0 "map deviceIdToHex (dealers c)"] Some r
  have col: "perDeviceOk P (map deviceIdToHex (dealers c)) col"
    and got: "(i, pl) \<in> set got \<Longrightarrow> i < length (dealers c) \<and> P (deviceIdToHex (dealers c ! i)) pl" for i pl by fastforce+
  have begun: "runOk w c P Q fx (s\<lparr>dg_stage := Collecting1, dg_round1 := col\<rparr>)" using ok stage col by (simp add: runOk_defs)
  have "keeps w c P Q (\<lambda>s. seqRun (absorbAll (absorb1 w c) got s) (after1 w sid c))"
    using got by (intro keeps_seq keeps_fold absorb1_keeps after1_keeps) blast+
  from keepsD [OF this begun] step Some r show ?thesis by (simp add: collect1_def)
qed

lemma collectConfirm_ok:
  assumes ok: "runOk w c P Q fx s" and stage: "dg_stage s = SendingConfirm" and step: "collectConfirm w c s = (gx, s')"
  shows "runOk w c P Q (fx @ gx) s'"
proof (cases "awaitAll 0 (map deviceIdToHex (confirmers c)) (dg_confirm s)")
  case None
  with step stage rejects_ok [OF ok] show ?thesis by (simp add: collectConfirm_def)
next
  case (Some r)
  obtain got col where r: "r = (got, col)" by (cases r)
  have "perDeviceOk Q (map deviceIdToHex (confirmers c)) (dg_confirm s)" using ok by (simp add: runOk_def confirmsOk_def)
  with awaitAll_ok [of 0 "map deviceIdToHex (confirmers c)"] Some r
  have col: "perDeviceOk Q (map deviceIdToHex (confirmers c)) col"
    and got: "(i, pl) \<in> set got \<Longrightarrow> i < length (confirmers c) \<and> Q (deviceIdToHex (confirmers c ! i)) pl" for i pl by fastforce+
  have begun: "runOk w c P Q fx (s\<lparr>dg_stage := CollectingConfirm, dg_confirm := col\<rparr>)" using ok stage col by (simp add: runOk_defs)
  have "keeps w c P Q (\<lambda>s. seqRun (absorbAll (absorbConfirm w) got s) (afterConfirm c))"
    using got by (intro keeps_seq keeps_fold absorbConfirm_keeps afterConfirm_keeps) blast+
  from keepsD [OF this begun] step Some r show ?thesis by (simp add: collectConfirm_def)
qed

subsection \<open>Every run\<close>

lemma listening_ok: "runOk w c P Q fx s \<Longrightarrow> runOk w c P Q (fx @ [DkgAnswers]) (s\<lparr>dg_listening := sent\<rparr>)"
  by (simp add: runOk_defs)

lemma answered_ok:
  assumes "keeps w c P Q f" and "runOk w c P Q fx s" and "seqRun (f s) (\<lambda>s'. ([DkgAnswers], s'\<lparr>dg_listening := sent\<rparr>)) = (gx, s')"
  shows "runOk w c P Q (fx @ gx) s'"
proof -
  have "keeps w c P Q (\<lambda>s'. ([DkgAnswers], s'\<lparr>dg_listening := sent\<rparr>))" by (rule keepsI) (use listening_ok in auto)
  from keepsD [OF keeps_seq [OF assms(1) this] assms(2,3)] show ?thesis .
qed

lemma round1_heard:
  assumes ok: "runOk w c P Q fx s" and P: "P hex pl" and d: "deliverFrom hex pl (dg_round1 s) = (r, col)"
    and step: "(case r of None \<Rightarrow> ([DkgAnswers], s\<lparr>dg_round1 := col, dg_listening := sent\<rparr>)
       | Some i \<Rightarrow> seqRun (seqRun (absorb1 w c i pl (s\<lparr>dg_round1 := col\<rparr>)) (after1 w sid c)) (\<lambda>s'. ([DkgAnswers], s'\<lparr>dg_listening := sent\<rparr>))) = (gx, s')"
  shows "runOk w c P Q (fx @ gx) s'"
proof -
  have "perDeviceOk P (map deviceIdToHex (dealers c)) (dg_round1 s)" using ok by (simp add: runOk_def gatheredOk_def)
  from deliverFrom_ok [OF d this P] have col: "perDeviceOk P (map deviceIdToHex (dealers c)) col"
    and i: "r = Some i \<Longrightarrow> i < length (dealers c) \<and> deviceIdToHex (dealers c ! i) = hex" for i by auto
  have stored: "runOk w c P Q fx (s\<lparr>dg_round1 := col\<rparr>)" using ok col by (simp add: runOk_defs)
  show ?thesis
  proof (cases r)
    case None
    with step listening_ok [OF stored] show ?thesis by auto
  next
    case (Some k)
    have "keeps w c P Q (\<lambda>s. seqRun (absorb1 w c k pl s) (after1 w sid c))"
      using i [OF Some] P by (intro keeps_seq absorb1_keeps after1_keeps) simp_all
    from answered_ok [OF this stored] step Some show ?thesis by simp
  qed
qed

lemma round2_heard:
  assumes ok: "runOk w c P Q fx s"
    and step: "(case r of None \<Rightarrow> ([DkgAnswers], s\<lparr>dg_round2 := col, dg_listening := sent\<rparr>)
       | Some i \<Rightarrow> seqRun (seqRun (absorb2 i share (s\<lparr>dg_round2 := col\<rparr>)) (after2 w sid c)) (\<lambda>s'. ([DkgAnswers], s'\<lparr>dg_listening := sent\<rparr>))) = (gx, s')"
  shows "runOk w c P Q (fx @ gx) s'"
proof -
  have stored: "runOk w c P Q fx (s\<lparr>dg_round2 := col\<rparr>)" using ok by (simp add: runOk_defs)
  have "keeps w c P Q (\<lambda>s. seqRun (absorb2 k share s) (after2 w sid c))" for k by (intro keeps_seq absorb2_keeps after2_keeps)
  from answered_ok [OF this stored] step listening_ok [OF stored] show ?thesis by (cases r) auto
qed

lemma confirm_heard:
  assumes ok: "runOk w c P Q fx s" and Q: "Q hex pl" and d: "deliverFrom hex pl (dg_confirm s) = (r, col)"
    and step: "(case r of None \<Rightarrow> ([DkgAnswers], s\<lparr>dg_confirm := col, dg_listening := sent\<rparr>)
       | Some i \<Rightarrow> seqRun (seqRun (absorbConfirm w i pl (s\<lparr>dg_confirm := col\<rparr>)) (afterConfirm c)) (\<lambda>s'. ([DkgAnswers], s'\<lparr>dg_listening := sent\<rparr>))) = (gx, s')"
  shows "runOk w c P Q (fx @ gx) s'"
proof -
  have "perDeviceOk Q (map deviceIdToHex (confirmers c)) (dg_confirm s)" using ok by (simp add: runOk_def confirmsOk_def)
  from deliverFrom_ok [OF d this Q] have col: "perDeviceOk Q (map deviceIdToHex (confirmers c)) col"
    and i: "r = Some i \<Longrightarrow> i < length (confirmers c) \<and> deviceIdToHex (confirmers c ! i) = hex" for i by auto
  have stored: "runOk w c P Q fx (s\<lparr>dg_confirm := col\<rparr>)" using ok col by (simp add: runOk_defs)
  show ?thesis
  proof (cases r)
    case None
    with step listening_ok [OF stored] show ?thesis by auto
  next
    case (Some k)
    have "keeps w c P Q (\<lambda>s. seqRun (absorbConfirm w k pl s) (afterConfirm c))"
      using i [OF Some] Q by (intro keeps_seq absorbConfirm_keeps afterConfirm_keeps) simp_all
    from answered_ok [OF this stored] step Some show ?thesis by simp
  qed
qed

text \<open>A request is let through only under the ceremony's verb, for its session, and from a named device.\<close>

lemma keygen_cases:
  assumes "consumeKeygen w sid c req sent s = (gx, s')"
  obtains (ignored) "gx = []" "s' = s"
  | (heard1) from' pl where "kq_verb req = keygenCapabilityVerb (isReshare c)" "kq_fromDevice req = Some from'"
      "kq_params req = Round1Params (numberOfBigInt sid) pl"
      "(case deliverFrom (deviceIdToHex from') pl (dg_round1 s) of (r, col) \<Rightarrow> case r of None \<Rightarrow> ([DkgAnswers], s\<lparr>dg_round1 := col, dg_listening := sent\<rparr>)
         | Some i \<Rightarrow> seqRun (seqRun (absorb1 w c i pl (s\<lparr>dg_round1 := col\<rparr>)) (after1 w sid c)) (\<lambda>s'. ([DkgAnswers], s'\<lparr>dg_listening := sent\<rparr>))) = (gx, s')"
  | (heard2) from' share where
      "(case deliverFrom (deviceIdToHex from') share (dg_round2 s) of (r, col) \<Rightarrow> case r of None \<Rightarrow> ([DkgAnswers], s\<lparr>dg_round2 := col, dg_listening := sent\<rparr>)
         | Some i \<Rightarrow> seqRun (seqRun (absorb2 i share (s\<lparr>dg_round2 := col\<rparr>)) (after2 w sid c)) (\<lambda>s'. ([DkgAnswers], s'\<lparr>dg_listening := sent\<rparr>))) = (gx, s')"
  | (heardC) from' pl where "kq_verb req = keygenCapabilityVerb (isReshare c)" "kq_fromDevice req = Some from'"
      "kq_params req = ConfirmParams (numberOfBigInt sid) pl"
      "(case deliverFrom (deviceIdToHex from') pl (dg_confirm s) of (r, col) \<Rightarrow> case r of None \<Rightarrow> ([DkgAnswers], s\<lparr>dg_confirm := col, dg_listening := sent\<rparr>)
         | Some i \<Rightarrow> seqRun (seqRun (absorbConfirm w i pl (s\<lparr>dg_confirm := col\<rparr>)) (afterConfirm c)) (\<lambda>s'. ([DkgAnswers], s'\<lparr>dg_listening := sent\<rparr>))) = (gx, s')"
proof (cases "kq_fromDevice req")
  case None
  with assms ignored show thesis by (auto simp: consumeKeygen_def Let_def split: if_splits)
next
  case (Some from')
  show thesis
  proof (cases "dg_listening s \<and> kq_verb req = keygenCapabilityVerb (isReshare c)")
    case heard: True
    show thesis
    proof (cases "kq_params req")
      case (Round1Params sid' pl)
      show thesis
      proof (cases "sid' = numberOfBigInt sid")
        case True
        with assms heard Some Round1Params show thesis
          by (intro heard1 [of from' pl]) (auto simp: consumeKeygen_def split: prod.splits option.splits)
      qed (use assms heard Some Round1Params ignored in \<open>simp add: consumeKeygen_def\<close>)
    next
      case (Round2Params sid' share)
      show thesis
      proof (cases "sid' = numberOfBigInt sid")
        case True
        with assms heard Some Round2Params show thesis
          by (intro heard2 [of share from']) (auto simp: consumeKeygen_def split: prod.splits option.splits)
      qed (use assms heard Some Round2Params ignored in \<open>simp add: consumeKeygen_def\<close>)
    next
      case (ConfirmParams sid' pl)
      show thesis
      proof (cases "sid' = numberOfBigInt sid")
        case True
        with assms heard Some ConfirmParams show thesis
          by (intro heardC [of from' pl]) (auto simp: consumeKeygen_def split: prod.splits option.splits)
      qed (use assms heard Some ConfirmParams ignored in \<open>simp add: consumeKeygen_def\<close>)
    qed (use assms heard Some ignored in \<open>simp add: consumeKeygen_def\<close>)
  qed (use assms ignored in \<open>auto simp: consumeKeygen_def Let_def split: if_splits\<close>)
qed

lemma consume_ok:
  assumes ok: "runOk w c (broadcastBy sid c (es @ [e])) (confirmedBy sid c (es @ [e])) fx s"
    and e: "e = KeygenArrives req sent" and step: "consumeKeygen w sid c req sent s = (gx, s')"
  shows "runOk w c (broadcastBy sid c (es @ [e])) (confirmedBy sid c (es @ [e])) (fx @ gx) s'"
  using step
proof (cases rule: keygen_cases)
  case ignored
  with ok show ?thesis by simp
next
  case (heard1 from' pl)
  have "broadcastBy sid c (es @ [e]) (deviceIdToHex from') pl" using heard1 e by (auto simp: broadcastBy_def)
  from round1_heard [OF ok this] heard1(4) show ?thesis by (auto split: prod.splits)
next
  case (heard2 from' share)
  then show ?thesis using round2_heard [OF ok] by (auto split: prod.splits)
next
  case (heardC from' pl)
  have "confirmedBy sid c (es @ [e]) (deviceIdToHex from') pl" using heardC e by (auto simp: confirmedBy_def)
  from confirm_heard [OF ok this] heardC(4) show ?thesis by (auto split: prod.splits)
qed

lemma start_ok:
  assumes "startCeremony w sid entropy c = (fx, s)"
  shows "runOk w c (broadcastBy sid c []) (confirmedBy sid c []) fx s"
proof -
  let ?P = "broadcastBy sid c []" and ?Q = "confirmedBy sid c []"
  have new: "runOk w c ?P ?Q [] newRun" by (simp add: runOk_defs newRun_def)
  show ?thesis
  proof (cases c)
    case (Fresh opts)
    then have "(\<exists>e. rejects e newRun = (fx, s))
        \<or> dg_stage s = Sending1 \<and> dg_confirmed s = [] \<and> dg_got1 s = [] \<and> dg_round1 s = newCollector \<and> dg_confirm s = newCollector
            \<and> (\<forall>r. DkgResolves r \<notin> set fx)"
      using assms by (auto simp: startCeremony_def runFreshThresholdDkg_def newRun_def split: option.splits)
    then show ?thesis
    proof (elim disjE exE conjE)
      fix e assume "rejects e newRun = (fx, s)"
      moreover have "dg_stage newRun \<noteq> DkgFinished" by (simp add: newRun_def)
      ultimately show ?thesis using rejects_ok [OF new] by fastforce
    qed (simp add: runOk_defs)
  next
    case (Join opts)
    with assms have "collect1 w sid c newRun = (fx, s)" by (simp add: startCeremony_def joinThresholdReshare_def)
    moreover have "dg_stage newRun = Sending1" by (simp add: newRun_def)
    ultimately show ?thesis using collect1_ok [OF new] by fastforce
  qed
qed

lemma step_ok:
  assumes "runOk w c (broadcastBy sid c es) (confirmedBy sid c es) fx s" and step: "dkgStep w sid c e s = (gx, s')"
  shows "runOk w c (broadcastBy sid c (es @ [e])) (confirmedBy sid c (es @ [e])) (fx @ gx) s'"
proof -
  have ok: "runOk w c (broadcastBy sid c (es @ [e])) (confirmedBy sid c (es @ [e])) fx s"
    using assms(1) by (rule runOk_mono) (auto simp: broadcastBy_def confirmedBy_def)
  show ?thesis
  proof (cases e)
    case (KeygenArrives req sent)
    with step consume_ok [OF ok] show ?thesis by (simp add: dkgStep_def)
  next
    case (SendsSettle failed)
    have kept: "dg_stage s = Sending2 \<Longrightarrow> covers w c (broadcastBy sid c (es @ [e])) (dg_entries s) \<and> keyKept c (kg_groupVerifyingKey (dg_result s))"
      using ok by (simp add: runOk_defs)
    show ?thesis
    proof (cases "dg_stage s \<in> {Sending1, Sending2, SendingConfirm}")
      case waiting: True
      show ?thesis
      proof (cases failed)
        case None
        consider "dg_stage s = Sending1" "collect1 w sid c s = (gx, s')" | "dg_stage s = Sending2" "collect2 w sid c s = (gx, s')"
          | "dg_stage s = SendingConfirm" "collectConfirm w c s = (gx, s')"
          using step SendsSettle waiting None by (auto simp: dkgStep_def sendsSettle_def)
        then show ?thesis
        proof cases
          case 2
          with kept collect2_ok [OF ok _ _ _ 2(2)] show ?thesis by simp
        qed (use collect1_ok [OF ok] collectConfirm_ok [OF ok] in simp_all)
      next
        case (Some err)
        with step SendsSettle waiting have "rejects err s = (gx, s')" by (auto simp: dkgStep_def sendsSettle_def)
        with rejects_ok [OF ok] waiting show ?thesis by auto
      qed
    next
      case False
      with step SendsSettle have "gx = []" "s' = s" by (simp_all add: dkgStep_def sendsSettle_def)
      with ok show ?thesis by simp
    qed
  qed
qed

lemma reach_ok: "dkg_reach w sid entropy c es fx s \<Longrightarrow> runOk w c (broadcastBy sid c es) (confirmedBy sid c es) fx s"
  by (induction rule: dkg_reach.induct) (auto intro: start_ok step_ok)

text \<open>C28: a key is returned only where all agree on how it was made. Whatever requests arrive, in whatever order and
  before or after they are waited for, a ceremony that returns a key package has, from every other participant,
  a confirmation that matches its own digest and group key, and its transcript has, for every device it was
  to hear from, a value made of what that device broadcast for this session (with its proof of knowledge, in a
  fresh ceremony); a reshare returns under the group's existing key.
\<close>

theorem keygen_returns_confirmed:
  assumes "dkg_reach w sid entropy c es fx s" and "DkgResolves r \<in> set fx"
  shows "r = dg_result s
    \<and> (\<forall>peer\<in>set (confirmers c). \<exists>pl. confirmedBy sid c es (deviceIdToHex peer) pl
         \<and> w_dkg_confirm_matches w (dg_digest s) (kg_groupVerifyingKey r) (cp_transcriptDigest pl) (cp_groupKey pl))
    \<and> (\<forall>peer\<in>set (dealers c). \<exists>v pl. \<lparr>dk_deviceId = peer, dk_value = v\<rparr> \<in> set (dg_entries s)
         \<and> broadcastBy sid c es (deviceIdToHex peer) pl \<and> round1Value w c pl = Some v)
    \<and> (\<forall>opts. c = Join opts \<longrightarrow> kg_groupVerifyingKey r = jr_existingGroupKey opts)"
proof -
  have ok: "runOk w c (broadcastBy sid c es) (confirmedBy sid c es) fx s" by (rule reach_ok [OF assms(1)])
  then have fin: "dg_stage s = DkgFinished" and r: "dg_result s = r" using assms(2) by (auto simp: runOk_def confirmsOk_def)
  have all: "agreed w c (confirmedBy sid c es) (dg_digest s) (kg_groupVerifyingKey r) i" if "i < length (confirmers c)" for i
  proof -
    have "set [0..<length (confirmers c)] \<subseteq> set (dg_confirmed s)" using ok fin by (simp add: runOk_def confirmsOk_def)
    with that have "i \<in> set (dg_confirmed s)" by auto
    with ok r show ?thesis by (simp add: runOk_def confirmsOk_def)
  qed
  have "\<exists>pl. confirmedBy sid c es (deviceIdToHex peer) pl
      \<and> w_dkg_confirm_matches w (dg_digest s) (kg_groupVerifyingKey r) (cp_transcriptDigest pl) (cp_groupKey pl)" if "peer \<in> set (confirmers c)" for peer
    using that all by (auto simp: agreed_def in_set_conv_nth)
  moreover have "covers w c (broadcastBy sid c es) (dg_entries s) \<and> keyKept c (kg_groupVerifyingKey r)"
    using ok fin r by (simp add: runOk_def gatheredOk_def underway_def)
  ultimately show ?thesis using r by (auto simp: covers_def dealt_def keyKept_def)
qed

subsection \<open>Reading and ordering\<close>

lemma keygen_commands_read:
  assumes "sid < 2 ^ 53"
  shows "kr_sessionId opts = sid \<Longrightarrow> keygenParams (mc_params (buildKeygenRound1Command opts)) =
      Some (Round1Params sid \<lparr>rp_commitment = kr_commitment opts, rp_proofOfKnowledge = kr_proofOfKnowledge opts, rp_existingGroupKey = kr_existingGroupKey opts\<rparr>)"
    and "keygenParams (mc_params (buildKeygenRound2Command sid share reshare)) = Some (Round2Params sid share)"
    and "keygenParams (mc_params (buildKeygenConfirmCommand sid digest key reshare)) = Some (ConfirmParams sid \<lparr>cp_transcriptDigest = digest, cp_groupKey = key\<rparr>)"
proof -
  have "those (map ((\<lambda>x. bytesField (Some x)) \<circ> JBytes) bs) = Some bs" for bs by (induction bs) (simp_all add: bytesField_def)
  with assms show "kr_sessionId opts = sid \<Longrightarrow> keygenParams (mc_params (buildKeygenRound1Command opts)) =
      Some (Round1Params sid \<lparr>rp_commitment = kr_commitment opts, rp_proofOfKnowledge = kr_proofOfKnowledge opts, rp_existingGroupKey = kr_existingGroupKey opts\<rparr>)"
    by (cases "kr_proofOfKnowledge opts"; cases "kr_existingGroupKey opts")
      (simp_all add: keygenParams_def isThresholdKeygenRound1_def hasVerb_def buildKeygenRound1Command_def keygenRound1Schema_def sessionField_def
        sessionIdSchema_def bytesList_def optionalBytes_def bytesField_def)
qed (use assms in \<open>simp_all add: keygenParams_def isThresholdKeygenRound1_def isThresholdKeygenRound2_def isThresholdKeygenConfirm_def hasVerb_def
    buildKeygenRound2Command_def buildKeygenConfirmCommand_def keygenRound2Schema_def keygenConfirmSchema_def sessionField_def sessionIdSchema_def bytesField_def\<close>)

text \<open>A value reaches its waiter whether it comes before or after it is waited for, and leaves the collector the same.\<close>

lemma delivery_order_irrelevant:
  assumes "jget (cl_waiters col) hex = None" "jget (cl_backlog col) hex = None" "\<not> cl_failed col"
  shows "\<exists>before after. awaitFrom i hex (snd (deliverFrom hex v col)) = (AwaitGets v, before)
    \<and> deliverFrom hex v (snd (awaitFrom i hex col)) = (Some i, after)
    \<and> (\<forall>h. jget (cl_backlog before) h = jget (cl_backlog after) h \<and> jget (cl_waiters before) h = jget (cl_waiters after) h)"
  using assms by (auto simp: awaitFrom_def deliverFrom_def)

text \<open>No part of what a request is answered with, or does, depends on its token.\<close>

lemma keygen_ignores_tokens: "consumeKeygen w sid c (req\<lparr>kq_token := tok\<rparr>) sent s = consumeKeygen w sid c req sent s"
  by (cases req) (simp only: consumeKeygen_def keygen_request.simps)

subsection \<open>A ceremony of two\<close>

definition g_module :: dkg_module where
  "g_module = \<lparr>w_dkg_round1 = (\<lambda>e _ _ _. Some (e, 1 # e)), w_split_round1_package = (\<lambda>p. Some ([p], [9])),
     w_combine_round1_package = (\<lambda>c _. Some (concat c)), w_dkg_round2 = (\<lambda>s ids _. Some (s, ids, map (\<lambda>_. s) ids)),
     w_dkg_round3 = (\<lambda>s _ p1 _ p2. Some (s, [], concat p1)), w_dkg_transcript_digest = (\<lambda>_ ps _. Some [of_nat (length ps)]),
     w_dkg_confirm_matches = (\<lambda>d k d' k'. d = d' \<and> k = k'), w_key_package_signing_share = Some,
     w_reshare_round1 = (\<lambda>_ _ _ _ _ _. None), w_reshare_split_commitment = (\<lambda>_. None), w_reshare_combine_commitment_parts = (\<lambda>_. None),
     w_reshare_combine_commitments = (\<lambda>_. None), w_reshare_transcript_digest = (\<lambda>_ _ _. None),
     w_reshare_derive_public_key_package = (\<lambda>_ _. None), w_reshare_combine_received_shares = (\<lambda>_ _ _ _. None)\<rparr>"

definition g_peer :: device_id where "g_peer = replicate 32 4"

definition g_ceremony :: ceremony where
  "g_ceremony = Fresh \<lparr>fd_ownDeviceId = replicate 32 3, fd_otherParticipants = [g_peer], fd_threshold = 2\<rparr>"

definition g_arrives :: "keygen_params \<Rightarrow> dkg_event" where
  "g_arrives ps = KeygenArrives \<lparr>kq_verb = THRESHOLD_KEYGEN_VERB, kq_fromDevice = Some g_peer, kq_token = None, kq_params = ps\<rparr> True"

definition g_events :: "dkg_event list" where
  "g_events = [g_arrives (Round1Params 1 \<lparr>rp_commitment = [[8]], rp_proofOfKnowledge = Some [9], rp_existingGroupKey = None\<rparr>),
     SendsSettle None, SendsSettle None, g_arrives (Round2Params 1 [6]),
     g_arrives (ConfirmParams 1 \<lparr>cp_transcriptDigest = [2], cp_groupKey = [8]\<rparr>), SendsSettle None]"

fun dkgRun :: "dkg_module \<Rightarrow> nat \<Rightarrow> ceremony \<Rightarrow> dkg_event list \<Rightarrow> dkg_effect list \<times> dkg_run \<Rightarrow> dkg_effect list \<times> dkg_run" where
  "dkgRun w sid c [] r = r"
| "dkgRun w sid c (e # es) (fx, s) = (case dkgStep w sid c e s of (gx, s') \<Rightarrow> dkgRun w sid c es (fx @ gx, s'))"

lemma dkgRun_reaches:
  "dkg_reach w sid entropy c es fx s \<Longrightarrow> dkgRun w sid c es' (fx, s) = (gx, s') \<Longrightarrow> dkg_reach w sid entropy c (es @ es') gx s'"
proof (induction es' arbitrary: es fx s)
  case (Cons e es')
  obtain hx s1 where step: "dkgStep w sid c e s = (hx, s1)" by (cases "dkgStep w sid c e s")
  with Cons.prems Cons.IH [OF dkg_next [OF Cons.prems(1) step]] show ?case by simp
qed simp

lemma g_resolves:
  "last (fst (dkgRun g_module 1 g_ceremony g_events (startCeremony g_module 1 [7] g_ceremony))) =
     DkgResolves \<lparr>kg_keyPackage = [7], kg_publicKeyPackage = [], kg_groupVerifyingKey = [8]\<rparr>"
  by code_simp

lemma g_resolves_some: "fst (dkgRun g_module 1 g_ceremony g_events (startCeremony g_module 1 [7] g_ceremony)) \<noteq> []"
  by code_simp

theorem keygen_returns_confirmed_witness:
  "\<exists>pl. confirmedBy 1 g_ceremony g_events (deviceIdToHex g_peer) pl \<and> cp_groupKey pl = [8]"
proof -
  let ?r = "\<lparr>kg_keyPackage = [7], kg_publicKeyPackage = [], kg_groupVerifyingKey = [8]\<rparr>"
  obtain fx0 s0 where start: "startCeremony g_module 1 [7] g_ceremony = (fx0, s0)" by (cases "startCeremony g_module 1 [7] g_ceremony")
  obtain fx s where run: "dkgRun g_module 1 g_ceremony g_events (fx0, s0) = (fx, s)" by (cases "dkgRun g_module 1 g_ceremony g_events (fx0, s0)")
  have reach: "dkg_reach g_module 1 [7] g_ceremony g_events fx s"
    using dkgRun_reaches [OF dkg_start [OF start] run] by simp
  have "fx \<noteq> []" using g_resolves_some run start by auto
  with g_resolves run start have "DkgResolves ?r \<in> set fx" by (metis fst_conv last_in_set)
  from keygen_returns_confirmed [OF reach this] obtain pl where "confirmedBy 1 g_ceremony g_events (deviceIdToHex g_peer) pl"
    "w_dkg_confirm_matches g_module (dg_digest s) [8] (cp_transcriptDigest pl) (cp_groupKey pl)"
    by (auto simp: confirmers_def g_ceremony_def)
  then show ?thesis by (auto simp: g_module_def)
qed

end
