(* ===== verification/WebRtcSignaling.thy ===== *)
theory WebRtcSignaling
  imports Rooms TokenMinting
begin

text \<open>
  \<open>ts/packages/core/src/domain/webrtc-signaling.ts\<close>: the commands that carry offers, answers, candidates and track maps,
  the two translations of a candidate, the allocator of negotiation ids, and the check of an offer's token.
\<close>

definition WEBRTC_SIGNAL_VERB :: string where "WEBRTC_SIGNAL_VERB = ''webrtc:signal''"
definition WEBRTC_SIGNAL_SCOPE :: capability_scope where "WEBRTC_SIGNAL_SCOPE = \<lparr>kind = ''node'', path = None\<rparr>"

definition isWebrtcOffer :: "(string \<times> json_value) list \<Rightarrow> bool" where
  "isWebrtcOffer params \<longleftrightarrow> jget params ''verb'' = Some (JString ''webrtc.offer'')"
definition isWebrtcAnswer :: "(string \<times> json_value) list \<Rightarrow> bool" where
  "isWebrtcAnswer params \<longleftrightarrow> jget params ''verb'' = Some (JString ''webrtc.answer'')"
definition isWebrtcIceCandidate :: "(string \<times> json_value) list \<Rightarrow> bool" where
  "isWebrtcIceCandidate params \<longleftrightarrow> jget params ''verb'' = Some (JString ''webrtc.ice-candidate'')"
definition isSfuTrackMap :: "(string \<times> json_value) list \<Rightarrow> bool" where
  "isSfuTrackMap params \<longleftrightarrow> jget params ''verb'' = Some (JString ''webrtc.sfu-track-map'')"

definition buildOfferCommand :: "nat \<Rightarrow> string \<Rightarrow> manage_command" where
  "buildOfferCommand negotiationId sdp =
     \<lparr>mc_verb = WEBRTC_SIGNAL_VERB,
      mc_params = [(''verb'', JString ''webrtc.offer''), (''negotiation-id'', JNumber (int negotiationId)), (''sdp'', JString sdp)]\<rparr>"

definition buildAnswerCommand :: "nat \<Rightarrow> string \<Rightarrow> manage_command" where
  "buildAnswerCommand negotiationId sdp =
     \<lparr>mc_verb = WEBRTC_SIGNAL_VERB,
      mc_params = [(''verb'', JString ''webrtc.answer''), (''negotiation-id'', JNumber (int negotiationId)), (''sdp'', JString sdp)]\<rparr>"

subsection \<open>Candidates\<close>

text \<open>A browser's candidate, whose three last fields may be null, and what is sent of it, whose fields may be absent.\<close>

record rtc_candidate =
  rtc_candidate :: string
  rtc_sdpMid :: "string option"
  rtc_sdpMLineIndex :: "int option"
  rtc_usernameFragment :: "string option"

record ice_candidate_init =
  ic_candidate :: string
  ic_sdpMid :: "string option"
  ic_sdpMLineIndex :: "int option"
  ic_usernameFragment :: "string option"

definition wireIceCandidateFromRtc :: "rtc_candidate \<Rightarrow> ice_candidate_init" where
  "wireIceCandidateFromRtc c =
     \<lparr>ic_candidate = rtc_candidate c, ic_sdpMid = rtc_sdpMid c, ic_sdpMLineIndex = rtc_sdpMLineIndex c,
      ic_usernameFragment = rtc_usernameFragment c\<rparr>"

definition rtcIceCandidateInitFromWire :: "ice_candidate_init \<Rightarrow> rtc_candidate" where
  "rtcIceCandidateInitFromWire wire =
     \<lparr>rtc_candidate = ic_candidate wire, rtc_sdpMid = ic_sdpMid wire, rtc_sdpMLineIndex = ic_sdpMLineIndex wire,
      rtc_usernameFragment = ic_usernameFragment wire\<rparr>"

definition optionalField :: "string \<Rightarrow> ('a \<Rightarrow> json_value) \<Rightarrow> 'a option \<Rightarrow> (string \<times> json_value) list" where
  "optionalField key f x = (case x of Some v \<Rightarrow> [(key, f v)] | None \<Rightarrow> [])"

definition iceCandidateJson :: "ice_candidate_init \<Rightarrow> json_value" where
  "iceCandidateJson c = JObject ((''candidate'', JString (ic_candidate c)) # optionalField ''sdp-mid'' JString (ic_sdpMid c)
     @ optionalField ''sdp-m-line-index'' JNumber (ic_sdpMLineIndex c) @ optionalField ''username-fragment'' JString (ic_usernameFragment c))"

definition optionalRead :: "(json_value \<Rightarrow> 'a option) \<Rightarrow> json_value option \<Rightarrow> 'a option option" where
  "optionalRead f j = (case j of None \<Rightarrow> Some None | Some x \<Rightarrow> map_option Some (f x))"

definition stringOf :: "json_value \<Rightarrow> string option" where
  "stringOf j = (case j of JString s \<Rightarrow> Some s | _ \<Rightarrow> None)"

definition indexOfLine :: "json_value \<Rightarrow> int option" where
  "indexOfLine j = (case j of JNumber n \<Rightarrow> if n < 0 then None else Some n | _ \<Rightarrow> None)"

definition iceCandidateInitSchema :: "json_value \<Rightarrow> ice_candidate_init option" where
  "iceCandidateInitSchema j =
     (case j of
        JObject kvs \<Rightarrow>
          (case (Option.bind (jget kvs ''candidate'') stringOf, optionalRead stringOf (jget kvs ''sdp-mid''),
                 optionalRead indexOfLine (jget kvs ''sdp-m-line-index''), optionalRead stringOf (jget kvs ''username-fragment'')) of
             (Some c, Some m, Some i, Some u) \<Rightarrow> Some \<lparr>ic_candidate = c, ic_sdpMid = m, ic_sdpMLineIndex = i, ic_usernameFragment = u\<rparr>
           | _ \<Rightarrow> None)
      | _ \<Rightarrow> None)"

definition buildIceCandidateCommand :: "nat \<Rightarrow> ice_candidate_init option \<Rightarrow> manage_command" where
  "buildIceCandidateCommand negotiationId cand =
     \<lparr>mc_verb = WEBRTC_SIGNAL_VERB,
      mc_params = [(''verb'', JString ''webrtc.ice-candidate''), (''negotiation-id'', JNumber (int negotiationId))]
        @ optionalField ''candidate'' iceCandidateJson cand\<rparr>"

datatype track_kind = AudioTrack | VideoTrack

record sfu_track_entry =
  tk_mid :: string
  tk_member :: device_id
  tk_kind :: track_kind

definition trackJson :: "sfu_track_entry \<Rightarrow> json_value" where
  "trackJson t = JObject [(''mid'', JString (tk_mid t)), (''member'', JBytes (tk_member t)),
     (''kind'', JString (case tk_kind t of AudioTrack \<Rightarrow> ''audio'' | VideoTrack \<Rightarrow> ''video''))]"

definition buildSfuTrackMapCommand :: "nat \<Rightarrow> sfu_track_entry list \<Rightarrow> manage_command" where
  "buildSfuTrackMapCommand negotiationId tracks =
     \<lparr>mc_verb = WEBRTC_SIGNAL_VERB,
      mc_params = [(''verb'', JString ''webrtc.sfu-track-map''), (''negotiation-id'', JNumber (int negotiationId)), (''tracks'', JArray (map trackJson tracks))]\<rparr>"

subsection \<open>Negotiation ids and offers\<close>

definition createNegotiationIdAllocator :: nat where "createNegotiationIdAllocator = 0"

definition allocateId :: "nat \<Rightarrow> nat \<times> nat" where
  "allocateId upcoming = (upcoming, upcoming + 1)"

fun allocateIds :: "nat \<Rightarrow> nat \<Rightarrow> nat list" where
  "allocateIds 0 upcoming = []"
| "allocateIds (Suc n) upcoming = (case allocateId upcoming of (i, later) \<Rightarrow> i # allocateIds n later)"

definition authorizeIncomingOffer :: "nat \<Rightarrow> verify_env \<Rightarrow> device_id option \<Rightarrow> cose_sign1 option \<Rightarrow> bool option" where
  "authorizeIncomingOffer fuel env expectedBearer tok =
     (case tok of
        None \<Rightarrow> Some False
      | Some token \<Rightarrow>
          (case verifyCapabilityToken fuel env token expectedBearer of
             None \<Rightarrow> None
           | Some (Refused _) \<Rightarrow> Some False
           | Some (Accepted claims _ _ _) \<Rightarrow>
               Some (capability claims = WEBRTC_SIGNAL_VERB \<and> kind (scope claims) = kind WEBRTC_SIGNAL_SCOPE)))"

subsection \<open>Round trips\<close>

lemma candidate_there_and_back:
  "rtcIceCandidateInitFromWire (wireIceCandidateFromRtc c) = c" "wireIceCandidateFromRtc (rtcIceCandidateInitFromWire i) = i"
  by (simp_all add: rtcIceCandidateInitFromWire_def wireIceCandidateFromRtc_def)

lemma optional_read:
  "(\<And>v. x = Some v \<Longrightarrow> g (f v) = Some v) \<Longrightarrow> optionalRead g (map_option f x) = Some x"
  by (cases x) (simp_all add: optionalRead_def)

lemma candidate_read:
  assumes "\<And>i. ic_sdpMLineIndex c = Some i \<Longrightarrow> i \<ge> 0"
  shows "iceCandidateInitSchema (iceCandidateJson c) = Some c"
  using assms
  by (cases "ic_sdpMid c"; cases "ic_sdpMLineIndex c"; cases "ic_usernameFragment c")
    (auto simp: iceCandidateInitSchema_def iceCandidateJson_def optionalField_def optionalRead_def stringOf_def indexOfLine_def)

text \<open>
  Signals arrive as they were sent. A browser's candidate, written into its command and read by the receiver's
  schema, is the same candidate; an offer and an answer are told apart and keep their negotiation; and no two
  negotiations of one allocator share an id.
\<close>

lemma signals_arrive:
  assumes "\<And>i. rtc_sdpMLineIndex c = Some i \<Longrightarrow> i \<ge> 0"
  shows "isWebrtcIceCandidate (mc_params (buildIceCandidateCommand n (Some (wireIceCandidateFromRtc c))))
    \<and> map_option rtcIceCandidateInitFromWire
        (Option.bind (jget (mc_params (buildIceCandidateCommand n (Some (wireIceCandidateFromRtc c)))) ''candidate'') iceCandidateInitSchema) = Some c
    \<and> isWebrtcOffer (mc_params (buildOfferCommand n sdp)) \<and> \<not> isWebrtcAnswer (mc_params (buildOfferCommand n sdp))
    \<and> isWebrtcAnswer (mc_params (buildAnswerCommand n sdp)) \<and> \<not> isWebrtcOffer (mc_params (buildAnswerCommand n sdp))
    \<and> distinct (allocateIds k createNegotiationIdAllocator)"
proof -
  have "allocateIds k upcoming = [upcoming..<upcoming + k]" for upcoming
  proof (induction k arbitrary: upcoming)
    case (Suc k)
    have "[upcoming..<upcoming + Suc k] = upcoming # [Suc upcoming..<Suc upcoming + k]" by (simp add: upt_rec)
    with Suc show ?case by (simp add: allocateId_def)
  qed simp
  moreover have "iceCandidateInitSchema (iceCandidateJson (wireIceCandidateFromRtc c)) = Some (wireIceCandidateFromRtc c)"
    using assms by (intro candidate_read) (simp add: wireIceCandidateFromRtc_def)
  ultimately show ?thesis
    by (simp add: isWebrtcIceCandidate_def isWebrtcOffer_def isWebrtcAnswer_def buildIceCandidateCommand_def buildOfferCommand_def
      buildAnswerCommand_def optionalField_def candidate_there_and_back)
qed

end
