(* ===== verification/HibernatingHub.thy ===== *)
theory HibernatingHub
  imports RelayHubProperties FrameStreams
begin

text \<open>
  The public hub: \<open>ts/packages/cloudflare-hub/src/hibernating-hub.ts\<close> with its extension policy
  (\<open>advert-policy.ts\<close>), its mailbox limits (\<open>mailbox-limits.ts\<close>) and the handlers of \<open>worker.ts\<close> that drive it. The
  runtime may discard the instance at any idle moment while the sockets stay open; what survives is each
  socket's attachment and the mailbox's storage. A \<open>cloud\<close> is that world: the sockets the runtime holds with
  their attachments, those the hub has closed and whose peer has not yet gone, the storage, and the
  instance where there is one. A connection is named by the number of connections its instance made before it.
\<close>

type_synonym socket = nat

subsection \<open>What the public hub carries\<close>

definition exactStrings :: "string list \<Rightarrow> string list \<Rightarrow> json_value \<Rightarrow> bool" where
  "exactStrings required allowed val =
     (case val of
        JObject props \<Rightarrow>
          list_all (\<lambda>(key, v). key \<in> set required \<or> key \<in> set allowed) props \<and>
          list_all (\<lambda>key. case map_of props key of Some (JString s) \<Rightarrow> True | _ \<Rightarrow> False) required \<and>
          list_all (\<lambda>key. case map_of props key of None \<Rightarrow> True | Some (JString s) \<Rightarrow> True | _ \<Rightarrow> False) allowed
      | JBytes b \<Rightarrow> b = [] \<and> required = []
      | _ \<Rightarrow> False)"

definition isPublicRoomList :: "json_value \<Rightarrow> bool" where
  "isPublicRoomList val =
     (case val of
        JArray rooms \<Rightarrow>
          list_all (\<lambda>room. exactStrings [''path'', ''name'', ''type''] [] room \<and>
            (case room of JObject props \<Rightarrow> map_of props ''type'' = Some (JString ''public'') | _ \<Rightarrow> False)) rooms
      | _ \<Rightarrow> False)"

definition AGENT_STATUSES :: "json_value list" where
  "AGENT_STATUSES = [JString ''active'', JString ''idle'', JString ''busy'', JString ''offline'']"

definition publicHubAdvertPolicy :: extension_policy where
  "publicHubAdvertPolicy =
     [(''agent/self'', exactStrings [''name'', ''harness''] [''membership'']),
      (''presence/status'', \<lambda>val. val \<in> set AGENT_STATUSES),
      (''agent-comms/version'', exactStrings [''agentComms''] [''ccPeer'']),
      (''room/hosted'', isPublicRoomList)]"

definition MAILBOX_BUDGET_BYTES :: nat where "MAILBOX_BUDGET_BYTES = 1024 * 1024 * 1024"
definition MAILBOX_MAX_LOGS :: nat where "MAILBOX_MAX_LOGS = 256"

definition mailboxLimits :: mailbox_limits where
  "mailboxLimits =
     \<lparr>maxLogs = MAILBOX_MAX_LOGS, maxLogBytes = MAILBOX_BUDGET_BYTES div MAILBOX_MAX_LOGS,
      maxEntryBytes = 128 * 1024, readBatch = 32\<rparr>"

subsection \<open>Attachments\<close>

datatype attachment = NullAttachment | Kept relay_connection_state | ForeignAttachment

definition deviceIdBytes :: "bytes \<Rightarrow> bool" where
  "deviceIdBytes v \<longleftrightarrow> length v = 32"

definition attachmentSchema :: "relay_connection_state \<Rightarrow> bool" where
  "attachmentSchema st \<longleftrightarrow> deviceIdBytes (rs_device st)
     \<and> list_all (\<lambda>advert. deviceIdBytes (device advert)) (rs_adverts st)
     \<and> list_all deviceIdBytes (rs_pairedDevices st)
     \<and> (case rs_mostRecentDevice st of None \<Rightarrow> True | Some recent \<Rightarrow> deviceIdBytes recent)"

definition attachedState :: "attachment \<Rightarrow> relay_connection_state option" where
  "attachedState att =
     (case att of Kept st \<Rightarrow> if attachmentSchema st then Some st else None | _ \<Rightarrow> None)"

definition attachmentOf :: "relay_connection_state option \<Rightarrow> attachment" where
  "attachmentOf st = (case st of None \<Rightarrow> NullAttachment | Some kept \<Rightarrow> Kept kept)"

subsection \<open>The instance\<close>

record hibernating_hub =
  hh_hub :: relay_hub
  hh_connections :: "(socket, conn) jmap"
  hh_sockets :: "(conn, socket) jmap"
  hh_made :: "socket list"
  hh_adopted :: bool

record cloud =
  cl_sockets :: "(socket, attachment) jmap"
  cl_closing :: "socket list"
  cl_mailbox :: kv_store
  cl_instance :: "hibernating_hub option"

datatype socket_effect =
    SocketSends socket bytes
  | SocketCloses socket nat string
  | WarnsAdvert string
  | WarnsMailbox mailbox_refusal

definition CLOSE_PROTOCOL_ERROR :: nat where "CLOSE_PROTOCOL_ERROR = 1002"

definition createHibernatingRelayHub :: "kv_store \<Rightarrow> hibernating_hub" where
  "createHibernatingRelayHub store =
     \<lparr>hh_hub = createRelayHub store, hh_connections = [], hh_sockets = [], hh_made = [], hh_adopted = False\<rparr>"

definition connectionFor :: "socket \<Rightarrow> hibernating_hub \<Rightarrow> conn \<times> hibernating_hub" where
  "connectionFor sk h =
     (case jget (hh_connections h) sk of
        Some existing \<Rightarrow> (existing, h)
      | None \<Rightarrow>
          let c = length (hh_made h)
          in (c, h\<lparr>hh_hub := registerConnection c (hh_hub h), hh_connections := jset (hh_connections h) sk c,
                   hh_sockets := jset (hh_sockets h) c sk, hh_made := hh_made h @ [sk]\<rparr>))"

text \<open>One turn of the loop over the surviving sockets.\<close>

definition adoptOne :: "socket \<times> attachment \<Rightarrow> hibernating_hub \<times> relay_restore list \<Rightarrow> hibernating_hub \<times> relay_restore list" where
  "adoptOne survivor acc =
     (case survivor of (sk, att) \<Rightarrow> case acc of (h, entries) \<Rightarrow> case connectionFor sk h of (c, h') \<Rightarrow>
        (h', case attachedState att of None \<Rightarrow> entries | Some st \<Rightarrow> entries @ [(c, st)]))"

definition adopt :: "(socket, attachment) jmap \<Rightarrow> hibernating_hub \<Rightarrow> hibernating_hub" where
  "adopt survivors h =
     (if hh_adopted h then h
      else case fold adoptOne survivors (h\<lparr>hh_adopted := True\<rparr>, []) of
             (h', entries) \<Rightarrow> h'\<lparr>hh_hub := restoreConnections entries (hh_hub h')\<rparr>)"

definition instanceOf :: "cloud \<Rightarrow> hibernating_hub" where
  "instanceOf w = (case cl_instance w of Some h \<Rightarrow> h | None \<Rightarrow> createHibernatingRelayHub (cl_mailbox w))"

text \<open>The instance every handler works on: woken where there is none, and whole before anything else.\<close>

definition adopted :: "cloud \<Rightarrow> hibernating_hub" where
  "adopted w = adopt (cl_sockets w) (instanceOf w)"

definition socketOpen :: "cloud \<Rightarrow> socket \<Rightarrow> bool" where
  "socketOpen w sk \<longleftrightarrow> sk \<in> set (jkeys (cl_sockets w)) \<and> sk \<notin> set (cl_closing w)"

definition connectionAlive :: "cloud \<Rightarrow> hibernating_hub \<Rightarrow> conn \<Rightarrow> bool" where
  "connectionAlive w h c \<longleftrightarrow> c < length (hh_made h) \<and> socketOpen w (hh_made h ! c)"

text \<open>
  \<open>persist\<close> runs inside the operation that changed the connection's state. It is applied here to the state the
  operation ends in: nothing an operation does after reporting a connection touches that connection's state.
\<close>

definition persist :: "hibernating_hub \<Rightarrow> conn \<Rightarrow> (socket, attachment) jmap \<Rightarrow> (socket, attachment) jmap" where
  "persist h c atts =
     (case jget (hh_sockets h) c of
        None \<Rightarrow> atts
      | Some sk \<Rightarrow>
          if sk \<in> set (jkeys atts) then jset atts sk (attachmentOf (exportConnection c (hh_hub h))) else atts)"

definition persistEffect :: "hibernating_hub \<Rightarrow> hub_effect \<Rightarrow> (socket, attachment) jmap \<Rightarrow> (socket, attachment) jmap" where
  "persistEffect h e atts = (case e of StateChanged c \<Rightarrow> persist h c atts | _ \<Rightarrow> atts)"

definition socketEffect :: "(frame, 'j) frame_codec \<Rightarrow> hibernating_hub \<Rightarrow> hub_effect \<Rightarrow> socket_effect list" where
  "socketEffect codec h e =
     (case e of
        Send c f \<Rightarrow> [SocketSends (hh_made h ! c) (messageFromFrame codec f)]
      | StateChanged c \<Rightarrow> []
      | AdvertRefused d key \<Rightarrow> [WarnsAdvert key]
      | MailboxRefused d reason \<Rightarrow> [WarnsMailbox reason])"

definition settle ::
    "(frame, 'j) frame_codec \<Rightarrow> hibernating_hub \<Rightarrow> hub_effect list \<Rightarrow> cloud \<Rightarrow> socket_effect list \<times> cloud" where
  "settle codec h effects w =
     (concat (map (socketEffect codec h) effects),
      w\<lparr>cl_sockets := fold (persistEffect h) effects (cl_sockets w), cl_instance := Some h\<rparr>)"

definition forgetSocket :: "(frame, 'j) frame_codec \<Rightarrow> socket \<Rightarrow> hibernating_hub \<Rightarrow> cloud \<Rightarrow> socket_effect list \<times> cloud" where
  "forgetSocket codec sk h w =
     (case jget (hh_connections h) sk of
        None \<Rightarrow> ([], w\<lparr>cl_instance := Some h\<rparr>)
      | Some c \<Rightarrow>
          (case forgetConnection c (hh_hub h) of (hub', effects) \<Rightarrow>
             settle codec (h\<lparr>hh_hub := hub', hh_connections := jdel (hh_connections h) sk, hh_sockets := jdel (hh_sockets h) c\<rparr>)
               effects w))"

subsection \<open>The handlers\<close>

datatype runtime_message = TextMessage string | BinaryMessage bytes

definition hubOptions :: "advert_verifier \<Rightarrow> mailbox_limits option \<Rightarrow> hub_options" where
  "hubOptions identity mailbox =
     \<lparr>ho_identity = identity, ho_extensionPolicy = Some publicHubAdvertPolicy, ho_mailbox = mailbox\<rparr>"

text \<open>\<open>fetch\<close> with an upgrade: the runtime takes the socket, which has no attachment yet.\<close>

definition acceptSocket :: "socket \<Rightarrow> cloud \<Rightarrow> cloud" where
  "acceptSocket sk w =
     (let w' = w\<lparr>cl_sockets := jset (cl_sockets w) sk NullAttachment\<rparr>
      in w'\<lparr>cl_instance := Some (snd (connectionFor sk (adopted w')))\<rparr>)"

definition protocolError :: "(frame, 'j) frame_codec \<Rightarrow> socket \<Rightarrow> cloud \<Rightarrow> socket_effect list \<times> cloud" where
  "protocolError codec sk w =
     (case forgetSocket codec sk (adopted w) (w\<lparr>cl_closing := sadd (cl_closing w) sk\<rparr>) of
        (effects, w') \<Rightarrow> (SocketCloses sk CLOSE_PROTOCOL_ERROR ''protocol error'' # effects, w'))"

definition webSocketMessage ::
    "(frame, 'j) frame_codec \<Rightarrow> hub_options \<Rightarrow> socket \<Rightarrow> runtime_message \<Rightarrow> cloud \<Rightarrow> socket_effect list \<times> cloud" where
  "webSocketMessage codec opts sk msg w =
     (case msg of
        TextMessage t \<Rightarrow> protocolError codec sk w
      | BinaryMessage body \<Rightarrow>
          (case decodeMessage codec body of
             SchemaInvalid \<Rightarrow> ([], w\<lparr>cl_instance := Some (adopted w)\<rparr>)
           | DecodeFailed \<Rightarrow> protocolError codec sk w
           | DecodedFrame f \<Rightarrow>
               (case connectionFor sk (adopted w) of (c, h) \<Rightarrow>
                  case handleFrame opts (connectionAlive w h) c f (hh_hub h) of (hub', effects, rejected) \<Rightarrow>
                    settle codec (h\<lparr>hh_hub := hub'\<rparr>) effects w)))"

text \<open>\<open>webSocketClose\<close> and \<open>webSocketError\<close>: the runtime lets go of the socket and its attachment.\<close>

definition webSocketClose :: "(frame, 'j) frame_codec \<Rightarrow> socket \<Rightarrow> cloud \<Rightarrow> socket_effect list \<times> cloud" where
  "webSocketClose codec sk w =
     (let w' = w\<lparr>cl_sockets := jdel (cl_sockets w) sk, cl_closing := sdel (cl_closing w) sk\<rparr>
      in forgetSocket codec sk (adopted w') w')"

text \<open>Eviction: the instance goes, the sockets with their attachments and the storage stay.\<close>

definition evict :: "cloud \<Rightarrow> cloud" where
  "evict w = w\<lparr>cl_instance := None, cl_mailbox := mailboxStore (hh_hub (instanceOf w))\<rparr>"

definition startCloud :: "kv_store \<Rightarrow> cloud" where
  "startCloud store = \<lparr>cl_sockets = [], cl_closing = [], cl_mailbox = store, cl_instance = None\<rparr>"

end
