(* ===== verification/HibernationInvariant.thy ===== *)
theory HibernationInvariant
  imports HibernatingHub
begin

text \<open>
  The invariant of the public hub: every connection's exported state is on its socket, whatever the handlers
  do. An operation of the relay hub reports every connection whose exported state it changes, and what the
  hub holds is always such that it can be rebuilt from the exports.
\<close>

subsection \<open>What an operation leaves of a connection's state\<close>

lemma filter_jvals_jset:
  "\<not> P v \<Longrightarrow> (\<And>u. jget m k = Some u \<Longrightarrow> \<not> P u) \<Longrightarrow> filter P (jvals (jset m k v)) = filter P (jvals m)"
  by (induction m) (auto split: if_splits)

lemma filter_jvals_filter: "(\<And>x. P (snd x) \<Longrightarrow> Q x) \<Longrightarrow> filter P (jvals (filter Q m)) = filter P (jvals m)"
  by (induction m) auto

lemma supplanted_grows: "set (gw_supplanted w) \<subseteq> set (gw_supplanted (fold (considerAdvert opts c) as w))"
proof (induction as arbitrary: w)
  case (Cons a as)
  have "set (gw_supplanted w) \<subseteq> set (gw_supplanted (considerAdvert opts c a w))"
    by (auto simp: considerAdvert_def Let_def split: sum.splits option.splits)
  with Cons.IH show ?case by fastforce
qed simp

lemma consider_keeps_others:
  assumes "x \<noteq> c" "x \<notin> set (gw_supplanted (considerAdvert opts c a w))"
  shows "filter (\<lambda>r. reg_connection r = x) (jvals (gw_devices (considerAdvert opts c a w)))
       = filter (\<lambda>r. reg_connection r = x) (jvals (gw_devices w))"
  using assms by (auto simp: considerAdvert_def Let_def split: sum.splits option.splits if_splits intro!: filter_jvals_jset)

lemma walk_keeps_others:
  assumes "x \<noteq> c" "x \<notin> set (gw_supplanted (walk opts c peers hub))"
  shows "filter (\<lambda>r. reg_connection r = x) (jvals (gw_devices (walk opts c peers hub)))
       = filter (\<lambda>r. reg_connection r = x) (jvals (devices hub))"
proof -
  have "filter (\<lambda>r. reg_connection r = x) (jvals (gw_devices (fold (considerAdvert opts c) as w)))
      = filter (\<lambda>r. reg_connection r = x) (jvals (gw_devices w))"
    if "x \<notin> set (gw_supplanted (fold (considerAdvert opts c) as w))" for as w
    using that
  proof (induction as arbitrary: w)
    case (Cons a as)
    then have "x \<notin> set (gw_supplanted (considerAdvert opts c a w))"
      using supplanted_grows [of "considerAdvert opts c a w" opts c as] by auto
    with Cons assms(1) show ?case by (simp add: consider_keeps_others)
  qed simp
  from this [OF assms(2) [unfolded walk_def]] show ?thesis by (simp add: walk_def)
qed

lemma export_cong:
  assumes "jget (connectionDevice hub') x = jget (connectionDevice hub) x"
    and "filter (\<lambda>r. reg_connection r = x) (jvals (devices hub')) = filter (\<lambda>r. reg_connection r = x) (jvals (devices hub))"
    and "pairingsOf hub' x = pairingsOf hub x"
    and "jget (mostRecentPairing hub') x = jget (mostRecentPairing hub) x"
  shows "exportConnection x hub' = exportConnection x hub"
  by (simp only: exportConnection_def assms)

lemma consider_accepts:
  "gw_accepted (considerAdvert opts c a w) = gw_accepted w \<and> gw_devices (considerAdvert opts c a w) = gw_devices w
     \<or> gw_accepted (considerAdvert opts c a w) = gw_accepted w @ [a]"
  by (auto simp: considerAdvert_def Let_def split: sum.splits option.splits)

lemma walk_accepts_or_keeps: "gw_accepted (walk opts c peers hub) = [] \<Longrightarrow> gw_devices (walk opts c peers hub) = devices hub"
proof -
  have "gw_accepted (fold (considerAdvert opts c) as w) = [] \<Longrightarrow>
      gw_devices (fold (considerAdvert opts c) as w) = gw_devices w \<and> gw_accepted w = []" for as w
  proof (induction as arbitrary: w)
    case (Cons a as)
    from Cons.prems have "gw_accepted (fold (considerAdvert opts c) as (considerAdvert opts c a w)) = []" by simp
    from Cons.IH [OF this] have "gw_devices (fold (considerAdvert opts c) as (considerAdvert opts c a w)) = gw_devices (considerAdvert opts c a w)"
      "gw_accepted (considerAdvert opts c a w) = []" by simp_all
    with consider_accepts [of opts c a w] show ?case by simp
  qed simp
  then have "gw_devices (fold (considerAdvert opts c) as w) = gw_devices w"
    if "gw_accepted (fold (considerAdvert opts c) as w) = []" for as w using that by blast
  then show "gw_accepted (walk opts c peers hub) = [] \<Longrightarrow> gw_devices (walk opts c peers hub) = devices hub"
    unfolding walk_def by (metis gossip_walk.select_convs(1))
qed

definition reported :: "hub_effect list \<Rightarrow> conn set" where
  "reported effects = {c. StateChanged c \<in> set effects}"

lemma gossip_exports:
  assumes "handleGossip opts alive c peers hub = (hub', effects, rejected)" "x \<notin> reported effects"
  shows "exportConnection x hub' = exportConnection x hub"
proof (cases "gw_accepted (walk opts c peers hub) = []")
  case False
  with assms have "x \<noteq> c" "x \<notin> set (gw_supplanted (walk opts c peers hub))"
    by (auto simp: handleGossip_walk reported_def Let_def)
  with assms(1) False show ?thesis
    by (intro export_cong) (auto simp: handleGossip_walk Let_def walk_keeps_others pairingsOf_def split: option.splits)
next
  case True
  with assms show ?thesis by (auto simp: handleGossip_walk Let_def walk_accepts_or_keeps)
qed

lemma pairingsOf_simps [simp]:
  "pairingsOf (setPairing a key b hub) x = (if x = a then jset (pairingsOf hub a) key b else pairingsOf hub x)"
  "pairingsOf (setRecent a b hub) x = pairingsOf hub x"
  "mostRecentPairing (setPairing a key b hub) = mostRecentPairing hub"
  "jget (mostRecentPairing (setRecent a b hub)) x = (if x = a then Some b else jget (mostRecentPairing hub) x)"
  by (simp_all add: pairingsOf_def setPairing_def setRecent_def)

lemma addPairing_lookups:
  "pairingsOf (addPairing a da b db hub) x =
     (if x = b then jset (if a = b then jset (pairingsOf hub a) (deviceKey db) b else pairingsOf hub b) (deviceKey da) a
      else if x = a then jset (pairingsOf hub a) (deviceKey db) b else pairingsOf hub x)"
  "jget (mostRecentPairing (addPairing a da b db hub)) x =
     (if x = b then Some a else if x = a then Some b else jget (mostRecentPairing hub) x)"
  by (auto simp: addPairing_def)

lemma pairing_exports: "x \<noteq> a \<Longrightarrow> x \<noteq> b \<Longrightarrow> exportConnection x (addPairing a da b db hub) = exportConnection x hub"
  by (rule export_cong) (simp_all add: addPairing_lookups)

lemma forgetPeer_others:
  "x \<noteq> p \<Longrightarrow> pairingsOf (forgetPeer c p hub) x = pairingsOf hub x"
  "x \<noteq> p \<Longrightarrow> jget (mostRecentPairing (forgetPeer c p hub)) x = jget (mostRecentPairing hub) x"
  by (simp_all add: forgetPeer_def Let_def pairingsOf_def split: option.split)

lemma fold_forgetPeer_others:
  "x \<notin> set ps \<Longrightarrow> pairingsOf (fold (forgetPeer c) ps hub) x = pairingsOf hub x"
  "x \<notin> set ps \<Longrightarrow> jget (mostRecentPairing (fold (forgetPeer c) ps hub)) x = jget (mostRecentPairing hub) x"
  by (induction ps arbitrary: hub) (simp_all add: forgetPeer_others)

lemma unregister_lookups:
  "pairings (unregister c hub) = pairings hub" "pairingsOf (unregister c hub) x = pairingsOf hub x"
  "jget (mostRecentPairing (unregister c hub)) x = (if x = c then None else jget (mostRecentPairing hub) x)"
  by (simp_all add: unregister_def pairingsOf_def)

lemma forgetConnection_lookups:
  "pairingsOf (fst (forgetConnection c hub)) x =
     (if x = c then [] else pairingsOf (fold (forgetPeer c) (jvals (pairingsOf hub c)) (unregister c hub)) x)"
  "jget (mostRecentPairing (fst (forgetConnection c hub))) x =
     jget (mostRecentPairing (fold (forgetPeer c) (jvals (pairingsOf hub c)) (unregister c hub))) x"
  by (auto simp: forgetConnection_def Let_def pairingsOf_def unregister_lookups split: option.splits)

lemma forget_exports:
  assumes "forgetConnection c hub = (hub', effects)" "x \<noteq> c" "x \<notin> reported effects"
  shows "exportConnection x hub' = exportConnection x hub"
proof -
  have x: "x \<notin> set (jvals (pairingsOf hub c))"
    using assms by (force simp: forgetConnection_def Let_def reported_def pairingsOf_def unregister_lookups split: option.splits)
  have hub': "hub' = fst (forgetConnection c hub)" using assms(1) by simp
  show ?thesis unfolding hub'
  proof (rule export_cong)
    show "filter (\<lambda>r. reg_connection r = x) (jvals (devices (fst (forgetConnection c hub))))
        = filter (\<lambda>r. reg_connection r = x) (jvals (devices hub))"
      using assms(2) unfolding forgetConnection_frame by (intro filter_jvals_filter) auto
  qed (use assms(2) x in \<open>simp_all add: forgetConnection_frame forgetConnection_lookups fold_forgetPeer_others unregister_lookups\<close>)
qed

text \<open>The state reported for a peer during the loop is the state it has at the end.\<close>

lemma forget_reports_final:
  "exportConnection p (fold (forgetPeer c) qs (forgetPeer c p hub)) = exportConnection p (forgetPeer c p hub)"
proof -
  let ?clear = "\<lambda>h. c \<notin> set (jvals (pairingsOf h p)) \<and> jget (mostRecentPairing h) p \<noteq> Some c"
  have "?clear (forgetPeer c p hub)"
    by (auto simp: forgetPeer_def Let_def pairingsOf_def forgetPairingsWith_def split: option.splits)
  moreover have "?clear h \<Longrightarrow> ?clear (forgetPeer c q h) \<and> pairingsOf (forgetPeer c q h) p = pairingsOf h p
      \<and> jget (mostRecentPairing (forgetPeer c q h)) p = jget (mostRecentPairing h) p" for q h
  proof (cases "q = p")
    case True
    assume "?clear h"
    then have "forgetPairingsWith c own = own" if "jget (pairings h) p = Some own" for own
      using that unfolding forgetPairingsWith_def filter_id_conv by (force simp: pairingsOf_def)
    with True \<open>?clear h\<close> show ?thesis by (auto simp: forgetPeer_def Let_def pairingsOf_def split: option.splits)
  qed (simp_all add: forgetPeer_others)
  ultimately have "pairingsOf (fold (forgetPeer c) qs (forgetPeer c p hub)) p = pairingsOf (forgetPeer c p hub) p
      \<and> jget (mostRecentPairing (fold (forgetPeer c) qs (forgetPeer c p hub))) p = jget (mostRecentPairing (forgetPeer c p hub)) p"
    by (induction qs arbitrary: hub rule: rev_induct) simp_all
  then show ?thesis by (intro export_cong) simp_all
qed

subsection \<open>What can be restored\<close>

definition pairingKey :: "string \<Rightarrow> bool" where
  "pairingKey k \<longleftrightarrow> (\<exists>d. k = deviceKey d \<and> deviceIdBytes d)"

definition recents_ok :: "relay_hub \<Rightarrow> bool" where
  "recents_ok hub \<longleftrightarrow> (\<forall>x q. jget (mostRecentPairing hub) x = Some q \<longrightarrow> (\<exists>k. jget (pairingsOf hub x) k = Some q))"

definition pairings_ok :: "relay_hub \<Rightarrow> bool" where
  "pairings_ok hub \<longleftrightarrow> (\<forall>x. jwf (pairingsOf hub x) \<and> list_all pairingKey (jkeys (pairingsOf hub x))
     \<and> (pairingsOf hub x \<noteq> [] \<longrightarrow> jget (connectionDevice hub) x \<noteq> None))"

definition devices_ok :: "relay_hub \<Rightarrow> bool" where
  "devices_ok hub \<longleftrightarrow> jwf (devices hub)
     \<and> (\<forall>k r. jget (devices hub) k = Some r \<longrightarrow> k = deviceKey (device (reg_advert r)) \<and> deviceIdBytes (device (reg_advert r))
          \<and> jget (connectionDevice hub) (reg_connection r) \<noteq> None)
     \<and> (\<forall>x d. jget (connectionDevice hub) x = Some d \<longrightarrow> deviceIdBytes d)"

definition restorable :: "relay_hub \<Rightarrow> bool" where
  "restorable hub \<longleftrightarrow> uplink hub = None \<and> devices_ok hub \<and> pairings_ok hub \<and> recents_ok hub"

lemma pairingsOf_mailboxStore [simp]: "pairingsOf (hub\<lparr>mailboxStore := store\<rparr>) x = pairingsOf hub x"
  by (simp add: pairingsOf_def)

lemma restorable_mailboxStore: "restorable (hub\<lparr>mailboxStore := store\<rparr>) = restorable hub"
  by (simp add: restorable_def devices_ok_def pairings_ok_def recents_ok_def)

lemma restorable_create: "restorable (createRelayHub store)"
  by (simp add: restorable_def createRelayHub_def devices_ok_def pairings_ok_def recents_ok_def pairingsOf_def)

lemma list_all_jkeys_jset: "list_all P (jkeys m) \<Longrightarrow> P k \<Longrightarrow> list_all P (jkeys (jset m k v))"
  by (induction m) auto

lemma jset_not_Nil [simp]: "jset m k v \<noteq> []"
  by (cases m) (auto split: if_splits)

lemma restorable_pairing:
  assumes "restorable hub" "jget (connectionDevice hub) a \<noteq> None" "jget (connectionDevice hub) b \<noteq> None"
    "deviceIdBytes da" "deviceIdBytes db"
  shows "restorable (addPairing a da b db hub)"
proof -
  have keys: "pairingKey (deviceKey da)" "pairingKey (deviceKey db)" using assms(4,5) by (auto simp: pairingKey_def)
  have "pairings_ok (addPairing a da b db hub)"
    using assms(1-3) keys by (auto simp: restorable_def pairings_ok_def addPairing_lookups list_all_jkeys_jset)
  moreover have "recents_ok (addPairing a da b db hub)"
    using assms(1) by (auto simp: restorable_def recents_ok_def addPairing_lookups)
  ultimately show ?thesis using assms(1) by (simp add: restorable_def devices_ok_def)
qed

lemma walk_bytes:
  assumes "devices_ok hub" "list_all (\<lambda>a. deviceIdBytes (device a)) peers" "jget (gw_devices (walk opts c peers hub)) k = Some r"
  shows "deviceIdBytes (device (reg_advert r))"
proof -
  have "\<forall>k r. jget (gw_devices (fold (considerAdvert opts c) as w)) k = Some r \<longrightarrow> deviceIdBytes (device (reg_advert r))"
    if "\<forall>k r. jget (gw_devices w) k = Some r \<longrightarrow> deviceIdBytes (device (reg_advert r))" "list_all (\<lambda>a. deviceIdBytes (device a)) as" for as w
    using that
  proof (induction as arbitrary: w)
    case (Cons a as)
    have "\<forall>k r. jget (gw_devices (considerAdvert opts c a w)) k = Some r \<longrightarrow> deviceIdBytes (device (reg_advert r))"
      using Cons.prems by (auto simp: considerAdvert_def Let_def split: sum.splits option.splits)
    with Cons show ?case by simp
  qed simp
  from this [of "\<lparr>gw_devices = devices hub, gw_supplanted = [], gw_accepted = [], gw_effects = []\<rparr>"
      "verifiedAdverts opts peers"] assms show ?thesis
    by (auto simp: walk_def verifiedAdverts_def devices_ok_def list_all_iff)
qed

lemma gossip_devices_ok:
  assumes "hub_inv opts hub" "devices_ok hub" "list_all (\<lambda>a. deviceIdBytes (device a)) peers"
  shows "devices_ok (fst (handleGossip opts alive c peers hub))"
proof (cases "gw_accepted (walk opts c peers hub) = []")
  case True
  then show ?thesis using assms(2) by (simp add: handleGossip_walk Let_def walk_accepts_or_keeps)
next
  case False
  let ?ds = "gw_devices (walk opts c peers hub)"
  have w: "walk_inv opts c (devices hub) (walk opts c peers hub)" using assms(1) by (intro walk_ok) (simp add: hub_inv_def)
  then have jwf: "jwf ?ds" and key: "jget ?ds k = Some r \<Longrightarrow> k = deviceKey (device (reg_advert r))"
    and old: "jget ?ds k = Some r \<Longrightarrow> jget (devices hub) k = Some r \<or> reg_connection r = c" for k r
    by (auto simp: walk_inv_def registry_ok_def)
  note bytes = walk_bytes [OF assms(2,3)]
  show ?thesis
  proof (cases "find (\<lambda>r. reg_connection r = c) (jvals ?ds)")
    case None
    then have "jget ?ds k = Some r \<Longrightarrow> reg_connection r \<noteq> c" for k r
      using jvals_iff [OF jwf, of r] by (auto simp: find_None_iff)
    with old assms(2) have "jget ?ds k = Some r \<Longrightarrow> jget (connectionDevice hub) (reg_connection r) \<noteq> None" for k r
      unfolding devices_ok_def by blast
    then show ?thesis using False None assms(2) jwf key bytes by (auto simp: handleGossip_walk Let_def devices_ok_def)
  next
    case (Some r)
    then have "r \<in> set (jvals ?ds)" unfolding find_Some_iff by (metis nth_mem)
    then obtain k where "jget ?ds k = Some r" unfolding jvals_iff [OF jwf] by blast
    then have "deviceIdBytes (device (reg_advert r))" by (rule bytes)
    moreover have "jget ?ds k = Some q \<Longrightarrow> reg_connection q = c \<or> jget (connectionDevice hub) (reg_connection q) \<noteq> None" for k q
      using old [of k q] assms(2) by (auto simp: devices_ok_def)
    ultimately show ?thesis using False Some assms(2) jwf key bytes
      by (auto simp: handleGossip_walk Let_def devices_ok_def)
  qed
qed

lemma gossip_frame:
  "pairings (fst (handleGossip opts alive c peers hub)) = pairings hub"
  "mostRecentPairing (fst (handleGossip opts alive c peers hub)) = mostRecentPairing hub"
  "uplink (fst (handleGossip opts alive c peers hub)) = uplink hub"
  "jget (connectionDevice hub) x \<noteq> None \<Longrightarrow> jget (connectionDevice (fst (handleGossip opts alive c peers hub))) x \<noteq> None"
  by (auto simp: handleGossip_walk Let_def split: option.splits)

lemma restorable_gossip:
  assumes "hub_inv opts hub" "restorable hub" "list_all (\<lambda>a. deviceIdBytes (device a)) peers"
  shows "restorable (fst (handleGossip opts alive c peers hub))"
proof -
  let ?hub = "fst (handleGossip opts alive c peers hub)"
  have "devices_ok ?hub" using assms gossip_devices_ok by (simp add: restorable_def)
  moreover have "pairings_ok ?hub" "recents_ok ?hub" "uplink ?hub = None"
    using assms(2) gossip_frame(4) [of hub _ opts alive c peers]
    by (auto simp: restorable_def pairings_ok_def recents_ok_def pairingsOf_def gossip_frame(1-3))
  ultimately show ?thesis by (simp add: restorable_def)
qed

text \<open>A frame the hub acts on names devices of the size the schema demands.\<close>

definition frameBytes :: "frame \<Rightarrow> bool" where
  "frameBytes f \<longleftrightarrow> (case f of Gossip peers \<Rightarrow> list_all (\<lambda>a. deviceIdBytes (device a)) peers | _ \<Rightarrow> True)"

lemma initiator_device:
  assumes "restorable hub" "initiatorOf hub c claimed = Some d"
  shows "deviceIdBytes d \<and> jget (connectionDevice hub) c \<noteq> None"
proof (cases claimed)
  case None
  with assms show ?thesis by (auto simp: initiatorOf_def restorable_def devices_ok_def)
next
  case (Some e)
  with assms(2) obtain r where r: "jget (devices hub) (deviceKey d) = Some r" "reg_connection r = c"
    by (auto simp: initiatorOf_def split: option.splits if_splits)
  with assms(1) have "deviceKey d = deviceKey (device (reg_advert r)) \<and> deviceIdBytes (device (reg_advert r))
      \<and> jget (connectionDevice hub) (reg_connection r) \<noteq> None" unfolding restorable_def devices_ok_def by blast
  with r(2) show ?thesis by simp
qed

lemma connect_effect:
  assumes "restorable hub" "handleRelayConnect alive c target source hub = (hub', effects, rejected)"
  shows "hub' = hub \<and> effects = [] \<and> \<not> rejected \<or>
    (\<exists>d r. jget (devices hub) (deviceKey target) = Some r \<and> initiatorOf hub c source = Some d \<and>
       hub' = addPairing c d (reg_connection r) (device (reg_advert r)) hub \<and> reported effects = {c, reg_connection r})"
  using assms by (auto simp: handleRelayConnect_def mustSend_def Let_def restorable_def reported_def
      split: option.splits if_splits)

lemma frame_restorable:
  assumes "hub_inv opts hub" "restorable hub" "frameBytes f" "handleFrame opts alive c f hub = (hub', effects, rejected)"
  shows "restorable hub'"
proof (cases f)
  case (Gossip peers)
  then show ?thesis using assms restorable_gossip [OF assms(1,2), of peers alive c] by (simp add: handleFrame_def frameBytes_def)
next
  case (RelayConnect target source)
  with assms(4) have "handleRelayConnect alive c target source hub = (hub', effects, rejected)" by (simp add: handleFrame_def)
  from connect_effect [OF assms(2) this] show ?thesis
  proof (elim disjE exE conjE)
    fix d r assume r: "jget (devices hub) (deviceKey target) = Some r" "initiatorOf hub c source = Some d"
      "hub' = addPairing c d (reg_connection r) (device (reg_advert r)) hub"
    have "deviceIdBytes (device (reg_advert r))" "jget (connectionDevice hub) (reg_connection r) \<noteq> None"
      using assms(2) r(1) by (auto simp: restorable_def devices_ok_def)
    then show ?thesis using initiator_device [OF assms(2) r(2)] restorable_pairing [OF assms(2)] r(3) by blast
  qed (use assms(2) in simp)
next
  case (RelayInbound source target)
  then show ?thesis using assms by (auto simp: handleFrame_def handleUplinkInbound_def restorable_def split: option.splits)
next
  case (RelayData body t s)
  then show ?thesis using assms handleRelayData_state [of alive c body t s hub] by (simp add: handleFrame_def)
next
  case (DataFrame d)
  then show ?thesis using assms
    by (auto simp: handleFrame_def handleMailboxFrame_def Let_def restorable_mailboxStore split: option.splits prod.splits)
qed (use assms in \<open>auto simp: handleFrame_def\<close>)

lemma frame_exports:
  assumes "restorable hub" "handleFrame opts alive c f hub = (hub', effects, rejected)" "x \<notin> reported effects"
  shows "exportConnection x hub' = exportConnection x hub"
proof (cases f)
  case (Gossip peers)
  then show ?thesis using assms gossip_exports by (simp add: handleFrame_def)
next
  case (RelayConnect target source)
  with assms(2) have "handleRelayConnect alive c target source hub = (hub', effects, rejected)" by (simp add: handleFrame_def)
  from connect_effect [OF assms(1) this] assms(3) show ?thesis by (auto intro: pairing_exports)
next
  case (RelayInbound source target)
  then show ?thesis using assms by (auto simp: handleFrame_def handleUplinkInbound_def restorable_def split: option.splits)
next
  case (RelayData body t s)
  then show ?thesis using assms handleRelayData_state [of alive c body t s hub] by (simp add: handleFrame_def)
next
  case (DataFrame d)
  then show ?thesis using assms
    by (auto simp: handleFrame_def handleMailboxFrame_def Let_def pairingsOf_def split: option.splits prod.splits intro!: export_cong)
qed (use assms in \<open>auto simp: handleFrame_def\<close>)

subsection \<open>Leaving\<close>

lemma forgetPeer_entries:
  assumes "jget (pairingsOf (forgetPeer c p hub) x) k = Some q" "jwf (pairingsOf hub x)"
  shows "jget (pairingsOf hub x) k = Some q"
  using assms by (auto simp: forgetPeer_def Let_def pairingsOf_def forgetPairingsWith_def jget_filter split: option.splits if_splits)

lemma forgetPeer_pairings_ok: "pairings_ok hub \<Longrightarrow> pairings_ok (forgetPeer c p hub)"
proof -
  assume ok: "pairings_ok hub"
  have own: "pairingsOf (forgetPeer c p hub) x = (if x = p then forgetPairingsWith c (pairingsOf hub p) else pairingsOf hub x)" for x
    by (auto simp: forgetPeer_def Let_def pairingsOf_def forgetPairingsWith_def split: option.splits)
  have sub: "list_all P (jkeys m) \<Longrightarrow> list_all P (jkeys (forgetPairingsWith c m))" "forgetPairingsWith c m \<noteq> [] \<Longrightarrow> m \<noteq> []"
    "jwf m \<Longrightarrow> jwf (forgetPairingsWith c m)" for P m
    by (auto simp: forgetPairingsWith_def list_all_iff)
  show ?thesis using ok unfolding pairings_ok_def own by (auto intro: sub(1,3) dest: sub(2))
qed

lemma forgetPeer_recents_ok:
  assumes "recents_ok hub" "pairings_ok hub"
  shows "recents_ok (forgetPeer c p hub)"
  unfolding recents_ok_def
proof (intro allI impI)
  fix x q assume q: "jget (mostRecentPairing (forgetPeer c p hub)) x = Some q"
  show "\<exists>k. jget (pairingsOf (forgetPeer c p hub) x) k = Some q"
  proof (cases "x = p")
    case True
    with q have q': "jget (mostRecentPairing hub) p = Some q" "q \<noteq> c"
      by (auto simp: forgetPeer_def Let_def split: option.splits if_splits)
    then obtain k where "jget (pairingsOf hub p) k = Some q" using assms(1) by (auto simp: recents_ok_def)
    moreover have "jwf (pairingsOf hub p)" using assms(2) by (simp add: pairings_ok_def)
    ultimately have "jget (pairingsOf (forgetPeer c p hub) p) k = Some q" using q'(2)
      by (auto simp: forgetPeer_def Let_def pairingsOf_def forgetPairingsWith_def jget_filter split: option.splits)
    with True show ?thesis by blast
  next
    case False
    with q assms(1) show ?thesis by (auto simp: forgetPeer_others recents_ok_def)
  qed
qed

lemma restorable_forget:
  assumes "restorable hub"
  shows "restorable (fst (forgetConnection c hub))"
proof -
  let ?u = "unregister c hub"
  let ?f = "fold (forgetPeer c) (jvals (pairingsOf hub c)) ?u"
  have u: "recents_ok ?u" using assms by (auto simp: restorable_def recents_ok_def unregister_lookups)
  have w: "pairings_ok (hub\<lparr>connectionDevice := connectionDevice hub\<rparr>)" using assms by (simp add: restorable_def)
  define v where "v = ?u\<lparr>connectionDevice := connectionDevice hub\<rparr>"
  have pv: "pairings_ok v" using w by (simp add: v_def pairings_ok_def pairingsOf_def unregister_def)
  have both: "pairings_ok (fold (forgetPeer c) ps h) \<and> recents_ok (fold (forgetPeer c) ps h)"
    if "pairings_ok h" "recents_ok h" for ps h
    using that by (induction ps arbitrary: h) (simp_all add: forgetPeer_pairings_ok forgetPeer_recents_ok)
  have rv: "recents_ok v" using u by (simp add: v_def recents_ok_def pairingsOf_def)
  have same: "pairings (fold (forgetPeer c) ps v) = pairings (fold (forgetPeer c) ps ?u)
      \<and> mostRecentPairing (fold (forgetPeer c) ps v) = mostRecentPairing (fold (forgetPeer c) ps ?u)" for ps
  proof (induction ps rule: rev_induct)
    case (snoc p ps)
    then show ?case by (simp add: forgetPeer_def Let_def split: option.split)
  qed (simp add: v_def)
  have fv: "pairingsOf ?f x = pairingsOf (fold (forgetPeer c) (jvals (pairingsOf hub c)) v) x"
    "mostRecentPairing ?f = mostRecentPairing (fold (forgetPeer c) (jvals (pairingsOf hub c)) v)" for x
    using same by (simp_all add: pairingsOf_def)
  have dv: "connectionDevice (fold (forgetPeer c) ps v) = connectionDevice hub" for ps by (simp add: v_def)
  have p: "pairings_ok (fst (forgetConnection c hub))"
    using both [OF pv rv] unfolding pairings_ok_def forgetConnection_lookups forgetConnection_frame fv dv by auto
  have "jget (mostRecentPairing ?f) c = None"
    using fold_forgetPeer_keys(2) [of c "jvals (pairingsOf hub c)" ?u c] unregister_lookups(3) [of c hub c] by metis
  then have "recents_ok (fst (forgetConnection c hub))"
    using both [OF pv rv] unfolding recents_ok_def forgetConnection_lookups fv by (auto split: if_splits)
  moreover have "devices_ok (fst (forgetConnection c hub))" using assms
    by (auto simp: restorable_def devices_ok_def forgetConnection_frame jget_filter split: option.splits if_splits)
  ultimately show ?thesis using p assms by (simp add: restorable_def forgetConnection_frame)
qed

lemma restorable_register: "restorable (registerConnection c hub) = restorable hub"
  by (simp add: restorable_def devices_ok_def pairings_ok_def recents_ok_def registerConnection_def pairingsOf_def)

subsection \<open>The invariant of the cloud\<close>

definition connections_ok :: "hibernating_hub \<Rightarrow> bool" where
  "connections_ok h \<longleftrightarrow> hh_adopted h \<and> jwf (hh_connections h)
     \<and> (\<forall>sk c. jget (hh_connections h) sk = Some c \<longleftrightarrow> jget (hh_sockets h) c = Some sk)
     \<and> (\<forall>sk c. jget (hh_connections h) sk = Some c \<longrightarrow> c < length (hh_made h) \<and> hh_made h ! c = sk)
     \<and> set (connections (hh_hub h)) = set (jvals (hh_connections h))"

definition attachments_ok :: "cloud \<Rightarrow> hibernating_hub \<Rightarrow> bool" where
  "attachments_ok w h \<longleftrightarrow> jwf (cl_sockets w)
     \<and> (\<forall>sk. jget (hh_connections h) sk \<noteq> None \<longrightarrow> jget (cl_sockets w) sk \<noteq> None)
     \<and> (\<forall>sk. jget (cl_sockets w) sk \<noteq> None \<longrightarrow> sk \<notin> set (cl_closing w) \<longrightarrow> jget (hh_connections h) sk \<noteq> None)
     \<and> (\<forall>sk c. jget (hh_connections h) sk = Some c \<longrightarrow> sk \<notin> set (cl_closing w) \<longrightarrow>
          jget (cl_sockets w) sk = Some (attachmentOf (exportConnection c (hh_hub h))))"

definition cloud_inv :: "hub_options \<Rightarrow> cloud \<Rightarrow> bool" where
  "cloud_inv opts w \<longleftrightarrow> (\<exists>h. cl_instance w = Some h \<and> hub_inv opts (hh_hub h) \<and> restorable (hh_hub h)
     \<and> connections_ok h \<and> attachments_ok w h)"

lemma adopted_same: "cl_instance w = Some h \<Longrightarrow> connections_ok h \<Longrightarrow> adopted w = h"
  by (simp add: adopted_def instanceOf_def adopt_def connections_ok_def)

text \<open>Writing the reported states leaves every socket with the state its connection has.\<close>

lemma persist_lookup:
  "jget (persist h c atts) sk =
     (if jget (hh_sockets h) c = Some sk \<and> jget atts sk \<noteq> None then Some (attachmentOf (exportConnection c (hh_hub h))) else jget atts sk)"
  by (auto simp: persist_def map_of_eq_None_iff split: option.splits)

lemma persist_jwf: "jwf atts \<Longrightarrow> jwf (persist h c atts)"
  by (simp add: persist_def split: option.splits)

lemma reported_Cons: "reported (e # effects) = (case e of StateChanged c \<Rightarrow> insert c (reported effects) | _ \<Rightarrow> reported effects)"
  by (auto simp: reported_def split: hub_effect.splits)

lemma persistEffect_lookup:
  "jget (persistEffect h e atts) sk = (case e of StateChanged c \<Rightarrow> jget (persist h c atts) sk | _ \<Rightarrow> jget atts sk)"
  by (simp add: persistEffect_def split: hub_effect.split)

lemma persistEffects_keys: "jget (fold (persistEffect h) effects atts) sk = None \<longleftrightarrow> jget atts sk = None"
  by (induction effects arbitrary: atts) (auto simp: persistEffect_lookup persist_lookup split: hub_effect.split)

lemma persistEffects_jwf: "jwf atts \<Longrightarrow> jwf (fold (persistEffect h) effects atts)"
  by (induction effects arbitrary: atts) (auto simp: persistEffect_def persist_jwf split: hub_effect.split)

lemma persistEffects_lookup:
  assumes "\<And>d. jget (hh_sockets h) d = Some sk \<longleftrightarrow> d = c" "jget atts sk \<noteq> None"
  shows "jget (fold (persistEffect h) effects atts) sk =
     (if c \<in> reported effects then Some (attachmentOf (exportConnection c (hh_hub h))) else jget atts sk)"
  using assms(2)
proof (induction effects arbitrary: atts)
  case (Cons e effects)
  have "jget (persistEffect h e atts) sk \<noteq> None" using Cons.prems by (auto simp: persistEffect_lookup persist_lookup split: hub_effect.split)
  from Cons.IH [OF this] Cons.prems show ?case
    by (auto simp: persistEffect_lookup persist_lookup assms(1) reported_Cons split: hub_effect.splits)
qed (simp add: reported_def)

lemma settle_inv:
  assumes "hub_inv opts (hh_hub h)" "restorable (hh_hub h)" "connections_ok h" "jwf (cl_sockets w)"
    and known: "\<And>sk. jget (hh_connections h) sk \<noteq> None \<Longrightarrow> jget (cl_sockets w) sk \<noteq> None"
    and all: "\<And>sk. jget (cl_sockets w) sk \<noteq> None \<Longrightarrow> sk \<notin> set (cl_closing w) \<Longrightarrow> jget (hh_connections h) sk \<noteq> None"
    and same: "\<And>sk c. jget (hh_connections h) sk = Some c \<Longrightarrow> sk \<notin> set (cl_closing w) \<Longrightarrow> c \<notin> reported effects \<Longrightarrow>
       jget (cl_sockets w) sk = Some (attachmentOf (exportConnection c (hh_hub h)))"
  shows "cloud_inv opts (snd (settle codec h effects w))"
proof -
  have only: "jget (hh_connections h) sk = Some c \<Longrightarrow> jget (hh_sockets h) d = Some sk \<longleftrightarrow> d = c" for sk c d
    using assms(3) unfolding connections_ok_def by (metis option.inject)
  have "jget (fold (persistEffect h) effects (cl_sockets w)) sk = Some (attachmentOf (exportConnection c (hh_hub h)))"
    if "jget (hh_connections h) sk = Some c" "sk \<notin> set (cl_closing w)" for sk c
    using persistEffects_lookup [OF only [OF that(1)]] known [of sk] same [OF that] that(1) by simp
  moreover have "jget (fold (persistEffect h) effects (cl_sockets w)) sk \<noteq> None"
    if "jget (hh_connections h) sk \<noteq> None" for sk unfolding persistEffects_keys by (rule known [OF that])
  moreover have "jget (hh_connections h) sk \<noteq> None"
    if "jget (fold (persistEffect h) effects (cl_sockets w)) sk \<noteq> None" "sk \<notin> set (cl_closing w)" for sk
    using that all [of sk] unfolding persistEffects_keys by blast
  ultimately have "attachments_ok (snd (settle codec h effects w)) h"
    unfolding attachments_ok_def by (simp add: settle_def persistEffects_jwf assms(4))
  with assms(1-3) show ?thesis by (auto simp: cloud_inv_def settle_def)
qed

subsection \<open>The handlers keep the invariant\<close>

lemma export_register [simp]: "exportConnection x (registerConnection c hub) = exportConnection x hub"
  by (rule export_cong) (simp_all add: registerConnection_def pairingsOf_def)

lemma register_inv: "hub_inv opts hub \<Longrightarrow> hub_inv opts (registerConnection c hub)"
  by (auto simp: hub_inv_def registerConnection_def)

lemma fresh_connection: "connections_ok h \<Longrightarrow> length (hh_made h) \<notin> set (jvals (hh_connections h)) \<and> jget (hh_sockets h) (length (hh_made h)) = None"
proof -
  assume ok: "connections_ok h"
  then have "jget (hh_sockets h) (length (hh_made h)) = None"
    unfolding connections_ok_def by (metis less_irrefl not_None_eq)
  moreover have "length (hh_made h) \<notin> set (jvals (hh_connections h))"
    using ok jvals_iff [of "hh_connections h" "length (hh_made h)"] unfolding connections_ok_def by (metis less_irrefl)
  ultimately show ?thesis by blast
qed

definition connected :: "hub_options \<Rightarrow> hibernating_hub \<Rightarrow> socket \<Rightarrow> conn \<Rightarrow> hibernating_hub \<Rightarrow> bool" where
  "connected opts h sk c h' \<longleftrightarrow> connections_ok h' \<and> hub_inv opts (hh_hub h') \<and> restorable (hh_hub h')
     \<and> jget (hh_connections h') sk = Some c \<and> c \<in> set (connections (hh_hub h'))
     \<and> (\<forall>x. exportConnection x (hh_hub h') = exportConnection x (hh_hub h))
     \<and> (\<forall>other. other \<noteq> sk \<longrightarrow> jget (hh_connections h') other = jget (hh_connections h) other)
     \<and> (jget (hh_connections h) sk = None \<longrightarrow> exportConnection c (hh_hub h') = None)"

lemma connectionFor_ok:
  assumes "connections_ok h" "hub_inv opts (hh_hub h)" "restorable (hh_hub h)" "connectionFor sk h = (c, h')"
  shows "connected opts h sk c h'"
proof (cases "jget (hh_connections h) sk")
  case (Some c')
  then have c': "c' \<in> set (jvals (hh_connections h))" using assms(1) jvals_iff by (fastforce simp: connections_ok_def)
  from Some assms(4) have "c' = c" "h' = h" by (simp_all add: connectionFor_def)
  moreover have "c' \<in> set (connections (hh_hub h))" using c' assms(1) by (simp add: connections_ok_def)
  ultimately show ?thesis using Some assms(1-3) by (simp add: connected_def)
next
  case None
  let ?c = "length (hh_made h)"
  have c: "c = ?c" and hub: "hh_hub h' = registerConnection ?c (hh_hub h)" and ad: "hh_adopted h' = hh_adopted h"
    and cons: "hh_connections h' = hh_connections h @ [(sk, ?c)]" and socks: "hh_sockets h' = hh_sockets h @ [(?c, sk)]"
    and made: "hh_made h' = hh_made h @ [sk]"
    using None assms(4) fresh_connection [OF assms(1)] by (auto simp: connectionFor_def Let_def jset_fresh)
  note fresh = fresh_connection [OF assms(1)]
  have "?c \<notin> set (connections (hh_hub h))" using assms(1) fresh by (simp add: connections_ok_def)
  then have "exportConnection ?c (hh_hub h) = None" using assms(2) by (auto simp: exportConnection_def hub_inv_def split: option.split)
  then have export: "exportConnection ?c (hh_hub h') = None" by (simp add: hub)
  have look: "jget (hh_connections h') s = (if s = sk then Some ?c else jget (hh_connections h) s)"
    "jget (hh_sockets h') x = (if x = ?c then Some sk else jget (hh_sockets h) x)" for s x
    using None fresh by (auto simp: cons socks map_add_def split: option.splits)
  have old: "jget (hh_connections h) s = Some x \<longleftrightarrow> jget (hh_sockets h) x = Some s"
    "jget (hh_connections h) s = Some x \<Longrightarrow> x < ?c \<and> hh_made h ! x = s" for s x
    using assms(1) by (auto simp: connections_ok_def)
  have "connections_ok h'"
    unfolding connections_ok_def
  proof (intro conjI allI impI)
    show "jget (hh_connections h') s = Some x \<longleftrightarrow> jget (hh_sockets h') x = Some s" for s x
      using old [of s x] old(1) [of sk x] None fresh by (auto simp: look)
    show "jwf (hh_connections h')" using assms(1) None by (auto simp: cons connections_ok_def jwf_def map_of_eq_None_iff)
    show "set (connections (hh_hub h')) = set (jvals (hh_connections h'))" using assms(1) by (simp add: hub registerConnection_def cons connections_ok_def)
    fix s x assume "jget (hh_connections h') s = Some x"
    then show "x < length (hh_made h')" "hh_made h' ! x = s" using old(2) [of s x] by (auto simp: look made nth_append split: if_splits)
  qed (use assms(1) in \<open>simp add: ad connections_ok_def\<close>)
  then show ?thesis using assms(2,3) c export
    by (simp add: connected_def look hub register_inv restorable_register) (simp add: registerConnection_def)
qed

lemma handleFrame_connections: "connections (fst (handleFrame opts alive c f hub)) = connections hub"
  by (cases f) (auto simp: handleFrame_def handleGossip_walk handleRelayConnect_def handleUplinkInbound_def handleRelayData_state
      handleMailboxFrame_def mustSend_def Let_def split: option.splits prod.splits)

definition schemaChecksDevices :: "(frame, 'j) frame_codec \<Rightarrow> bool" where
  "schemaChecksDevices codec \<longleftrightarrow> (\<forall>j f. fc_schema codec j = Some f \<longrightarrow> frameBytes f)"

lemma decoded_frameBytes: "schemaChecksDevices codec \<Longrightarrow> decodeMessage codec body = DecodedFrame f \<Longrightarrow> frameBytes f"
  by (auto simp: schemaChecksDevices_def decodeMessage_def split: option.splits)

lemma deliver_inv:
  assumes "cloud_inv opts w" "jget (cl_sockets w) sk \<noteq> None" "frameBytes f" "connectionFor sk (adopted w) = (c, h)"
    "handleFrame opts alive c f (hh_hub h) = (hub', effects, rejected)"
  shows "cloud_inv opts (snd (settle codec (h\<lparr>hh_hub := hub'\<rparr>) effects w))"
proof -
  obtain g where g: "cl_instance w = Some g" "hub_inv opts (hh_hub g)" "restorable (hh_hub g)" "connections_ok g" "attachments_ok w g"
    using assms(1) by (auto simp: cloud_inv_def)
  then have c: "connected opts g sk c h" using assms(4) by (simp add: adopted_same connectionFor_ok)
  have hub': "hub' = fst (handleFrame opts alive c f (hh_hub h))" using assms(5) by simp
  show ?thesis
  proof (rule settle_inv)
    show "hub_inv opts (hh_hub (h\<lparr>hh_hub := hub'\<rparr>))" using c by (simp add: connected_def hub' handleFrame_inv)
    show "restorable (hh_hub (h\<lparr>hh_hub := hub'\<rparr>))" using c frame_restorable assms(3,5) by (auto simp: connected_def)
    show "connections_ok (h\<lparr>hh_hub := hub'\<rparr>)" using c by (simp add: connected_def connections_ok_def hub' handleFrame_connections)
    show "jwf (cl_sockets w)" using g(5) by (simp add: attachments_ok_def)
  next
    fix s assume "jget (hh_connections (h\<lparr>hh_hub := hub'\<rparr>)) s \<noteq> None"
    then show "jget (cl_sockets w) s \<noteq> None" using c g(5) assms(2) by (cases "s = sk") (simp_all add: connected_def attachments_ok_def)
  next
    fix s assume "jget (cl_sockets w) s \<noteq> None" "s \<notin> set (cl_closing w)"
    then show "jget (hh_connections (h\<lparr>hh_hub := hub'\<rparr>)) s \<noteq> None" using c g(5) by (cases "s = sk") (simp_all add: connected_def attachments_ok_def)
  next
    fix s x assume s: "jget (hh_connections (h\<lparr>hh_hub := hub'\<rparr>)) s = Some x" "s \<notin> set (cl_closing w)" "x \<notin> reported effects"
    have "exportConnection x hub' = exportConnection x (hh_hub h)"
      using c s(3) frame_exports [OF _ assms(5)] by (simp add: connected_def)
    moreover have "exportConnection x (hh_hub h) = exportConnection x (hh_hub g)" using c by (simp add: connected_def)
    moreover have "jget (hh_connections g) s = Some x"
    proof (cases "s = sk")
      case True
      then have "jget (hh_connections g) sk \<noteq> None" using g(5) s(2) assms(2) by (simp add: attachments_ok_def)
      then show ?thesis using True s(1) c assms(4) g by (auto simp: connected_def adopted_same connectionFor_def)
    qed (use c s(1) in \<open>simp add: connected_def\<close>)
    ultimately show "jget (cl_sockets w) s = Some (attachmentOf (exportConnection x (hh_hub (h\<lparr>hh_hub := hub'\<rparr>))))"
      using g(5) s(2) by (simp add: attachments_ok_def)
  qed
qed

lemma forget_socket_inv:
  assumes h: "hub_inv opts (hh_hub h)" "restorable (hh_hub h)" "connections_ok h" and "jwf (cl_sockets w)"
    and known: "\<And>s. s \<noteq> sk \<Longrightarrow> jget (hh_connections h) s \<noteq> None \<Longrightarrow> jget (cl_sockets w) s \<noteq> None"
    and all: "\<And>s. jget (cl_sockets w) s \<noteq> None \<Longrightarrow> s \<notin> set (cl_closing w) \<Longrightarrow> s \<noteq> sk \<and> jget (hh_connections h) s \<noteq> None"
    and same: "\<And>s c. jget (hh_connections h) s = Some c \<Longrightarrow> s \<noteq> sk \<Longrightarrow> s \<notin> set (cl_closing w) \<Longrightarrow>
       jget (cl_sockets w) s = Some (attachmentOf (exportConnection c (hh_hub h)))"
  shows "cloud_inv opts (snd (forgetSocket codec sk h w))"
proof (cases "jget (hh_connections h) sk")
  case None
  have "attachments_ok w h" unfolding attachments_ok_def using assms(4) known all same None by (metis option.distinct(1))
  then have "attachments_ok (w\<lparr>cl_instance := Some h\<rparr>) h" by (simp add: attachments_ok_def)
  then show ?thesis using None h by (simp add: forgetSocket_def cloud_inv_def)
next
  case (Some c)
  obtain hub' effects where f: "forgetConnection c (hh_hub h) = (hub', effects)" by fastforce
  then have hub': "hub' = fst (forgetConnection c (hh_hub h))" by simp
  let ?h = "h\<lparr>hh_hub := hub', hh_connections := jdel (hh_connections h) sk, hh_sockets := jdel (hh_sockets h) c\<rparr>"
  have one: "jget (hh_connections h) s = Some c \<Longrightarrow> s = sk" for s
    using h(3) Some unfolding connections_ok_def by (metis option.inject)
  have "cloud_inv opts (snd (settle codec ?h effects w))"
  proof (rule settle_inv)
    show "hub_inv opts (hh_hub ?h)" using h(1) by (simp add: hub' forgetConnection_inv)
    show "restorable (hh_hub ?h)" using h(2) by (simp add: hub' restorable_forget)
    have vals: "set (jvals (jdel (hh_connections h) sk)) = set (jvals (hh_connections h)) - {c}"
    proof -
      have wf: "jwf (hh_connections h)" using h(3) by (simp add: connections_ok_def)
      have "(\<exists>k. jget (jdel (hh_connections h) sk) k = Some x) \<longleftrightarrow> (\<exists>k. jget (hh_connections h) k = Some x) \<and> x \<noteq> c" for x
        using one Some by (metis jget_jdel option.distinct(1) option.inject)
      then show ?thesis unfolding set_eq_iff Diff_iff jvals_iff [OF wf] jvals_iff [OF jwf_jdel [OF wf]] by simp
    qed
    have two: "jget (hh_sockets h) x = Some sk \<longleftrightarrow> x = c" for x using h(3) Some unfolding connections_ok_def by (metis option.inject)
    show "connections_ok ?h" using h(3) one two vals by (auto simp: connections_ok_def hub' forgetConnection_frame)
    show "jwf (cl_sockets w)" by (rule assms(4))
    show "jget (cl_sockets w) s \<noteq> None" if "jget (hh_connections ?h) s \<noteq> None" for s
      using that known [of s] by (simp split: if_splits)
    show "jget (hh_connections ?h) s \<noteq> None" if "jget (cl_sockets w) s \<noteq> None" "s \<notin> set (cl_closing w)" for s
      using all [OF that] by simp
    show "jget (cl_sockets w) s = Some (attachmentOf (exportConnection x (hh_hub ?h)))"
      if "jget (hh_connections ?h) s = Some x" "s \<notin> set (cl_closing w)" "x \<notin> reported effects" for s x
    proof -
      have s: "s \<noteq> sk" "jget (hh_connections h) s = Some x" using that(1) by (simp_all split: if_splits)
      then have "x \<noteq> c" using one by blast
      then have "exportConnection x hub' = exportConnection x (hh_hub h)" using that(3) by (rule forget_exports [OF f])
      then show ?thesis using same [OF s(2,1) that(2)] by simp
    qed
  qed
  then show ?thesis using Some f by (simp add: forgetSocket_def)
qed

lemma accept_inv:
  assumes "cloud_inv opts w" "jget (cl_sockets w) sk = None" "sk \<notin> set (cl_closing w)"
  shows "cloud_inv opts (acceptSocket sk w)"
proof -
  obtain g where g: "cl_instance w = Some g" "hub_inv opts (hh_hub g)" "restorable (hh_hub g)" "connections_ok g" "attachments_ok w g"
    using assms(1) by (auto simp: cloud_inv_def)
  let ?w = "w\<lparr>cl_sockets := jset (cl_sockets w) sk NullAttachment\<rparr>"
  obtain c h where h: "connectionFor sk g = (c, h)" by fastforce
  have new: "jget (hh_connections g) sk = None" using assms(2) g(5) unfolding attachments_ok_def by blast
  have c: "connected opts g sk c h" using connectionFor_ok [OF g(4,2,3) h] .
  have "attachments_ok (?w\<lparr>cl_instance := Some h\<rparr>) h"
    unfolding attachments_ok_def
  proof (intro conjI allI impI)
    show "jwf (cl_sockets (?w\<lparr>cl_instance := Some h\<rparr>))" using g(5) by (simp add: attachments_ok_def)
    show "jget (cl_sockets (?w\<lparr>cl_instance := Some h\<rparr>)) s \<noteq> None" if "jget (hh_connections h) s \<noteq> None" for s
      using that c g(5) by (cases "s = sk") (simp_all add: connected_def attachments_ok_def)
    show "jget (hh_connections h) s \<noteq> None"
      if "jget (cl_sockets (?w\<lparr>cl_instance := Some h\<rparr>)) s \<noteq> None" "s \<notin> set (cl_closing (?w\<lparr>cl_instance := Some h\<rparr>))" for s
      using that c g(5) by (cases "s = sk") (simp_all add: connected_def attachments_ok_def)
    show "jget (cl_sockets (?w\<lparr>cl_instance := Some h\<rparr>)) s = Some (attachmentOf (exportConnection x (hh_hub h)))"
      if "jget (hh_connections h) s = Some x" "s \<notin> set (cl_closing (?w\<lparr>cl_instance := Some h\<rparr>))" for s x
    proof (cases "s = sk")
      case True
      then have "x = c" using that(1) c by (simp add: connected_def)
      moreover have "exportConnection c (hh_hub h) = None" using c new unfolding connected_def by blast
      ultimately show ?thesis using True by (simp add: attachmentOf_def)
    next
      case False
      then show ?thesis using that c g(5) by (simp add: connected_def attachments_ok_def)
    qed
  qed
  moreover have "acceptSocket sk w = ?w\<lparr>cl_instance := Some h\<rparr>"
    using h g(1,4) by (simp add: acceptSocket_def Let_def adopted_same [of ?w g])
  ultimately show ?thesis using c by (simp add: cloud_inv_def connected_def)
qed

lemma protocolError_inv:
  assumes "cloud_inv opts w"
  shows "cloud_inv opts (snd (protocolError codec sk w))"
proof -
  obtain g where g: "cl_instance w = Some g" "hub_inv opts (hh_hub g)" "restorable (hh_hub g)" "connections_ok g" "attachments_ok w g"
    using assms(1) by (auto simp: cloud_inv_def)
  have "cloud_inv opts (snd (forgetSocket codec sk g (w\<lparr>cl_closing := sadd (cl_closing w) sk\<rparr>)))"
    using g(5) unfolding attachments_ok_def by (intro forget_socket_inv [OF g(2-4)]) simp_all
  then show ?thesis using g(1,4) by (simp add: protocolError_def adopted_same case_prod_beta)
qed

lemma close_inv:
  assumes "cloud_inv opts w"
  shows "cloud_inv opts (snd (webSocketClose codec sk w))"
proof -
  obtain g where g: "cl_instance w = Some g" "hub_inv opts (hh_hub g)" "restorable (hh_hub g)" "connections_ok g" "attachments_ok w g"
    using assms(1) by (auto simp: cloud_inv_def)
  let ?w = "w\<lparr>cl_sockets := jdel (cl_sockets w) sk, cl_closing := sdel (cl_closing w) sk\<rparr>"
  have "cloud_inv opts (snd (forgetSocket codec sk g ?w))"
    using g(5) unfolding attachments_ok_def by (intro forget_socket_inv [OF g(2-4)]) (simp_all split: if_splits)
  then show ?thesis using g(1,4) by (simp add: webSocketClose_def Let_def adopted_same [of ?w g])
qed

lemma message_inv:
  assumes "cloud_inv opts w" "schemaChecksDevices codec" "jget (cl_sockets w) sk \<noteq> None"
  shows "cloud_inv opts (snd (webSocketMessage codec opts sk msg w))"
proof (cases msg)
  case (TextMessage t)
  then show ?thesis using assms(1) by (simp add: webSocketMessage_def protocolError_inv)
next
  case (BinaryMessage body)
  show ?thesis
  proof (cases "decodeMessage codec body")
    case (DecodedFrame f)
    obtain c h where c: "connectionFor sk (adopted w) = (c, h)" by fastforce
    obtain hub' effects rejected where f: "handleFrame opts (connectionAlive w h) c f (hh_hub h) = (hub', effects, rejected)"
      by (metis prod_cases3)
    show ?thesis
      using deliver_inv [OF assms(1,3) decoded_frameBytes [OF assms(2) DecodedFrame] c f, of codec] BinaryMessage DecodedFrame c f
      by (simp add: webSocketMessage_def)
  next
    case SchemaInvalid
    obtain g where g: "cl_instance w = Some g" "connections_ok g" using assms(1) by (auto simp: cloud_inv_def)
    then have "w\<lparr>cl_instance := Some (adopted w)\<rparr> = w" by (simp add: adopted_same)
    then show ?thesis using assms(1) BinaryMessage SchemaInvalid by (simp add: webSocketMessage_def)
  next
    case DecodeFailed
    then show ?thesis using assms(1) BinaryMessage by (simp add: webSocketMessage_def protocolError_inv)
  qed
qed

end
