(* ===== verification/HibernationRestore.thy ===== *)
theory HibernationRestore
  imports HibernationInvariant
begin

text \<open>
  What survives eviction. From the attachments alone a new instance rebuilds the registry and the pairings, so
  a frame on a pairing goes where it would have gone. The pairings must be with the connections that hold the
  paired devices now; a last example shows what becomes of one that is not.
\<close>

subsection \<open>Folding writes\<close>

lemma fold_jset_fresh:
  "distinct (jkeys xs) \<Longrightarrow> set (jkeys xs) \<inter> set (jkeys m) = {} \<Longrightarrow> fold (\<lambda>(k, v) t. jset t k v) xs m = m @ xs"
proof (induction xs arbitrary: m)
  case (Cons x xs)
  obtain k v where x: "x = (k, v)" by fastforce
  have "jget m k = None" using Cons.prems(2) x by (auto simp: map_of_eq_None_iff)
  then have "fold (\<lambda>(k, v) t. jset t k v) xs (jset m k v) = (m @ [(k, v)]) @ xs"
    using Cons.prems x by (subst Cons.IH) (auto simp: jset_fresh)
  then show ?case by (simp add: x)
qed simp

lemma fold_jset_source:
  "jget (fold (\<lambda>(k, v) t. jset t k v) xs m) k = Some v \<Longrightarrow> (k, v) \<in> set xs \<or> jget m k = Some v"
  by (induction xs arbitrary: m) (fastforce split: if_splits)+

lemma fold_jset_absent:
  "jget (fold (\<lambda>(k, v) t. if jget t k = None then jset t k v else t) xs m) k =
     (case jget m k of Some v \<Rightarrow> Some v | None \<Rightarrow> jget xs k)"
proof (induction xs arbitrary: m)
  case (Cons x xs)
  obtain a b where "x = (a, b)" by fastforce
  then show ?case using Cons.IH [of m] Cons.IH [of "jset m a b"] by (cases "jget m a") (auto split: option.split)
qed (simp split: option.split)

lemma fold_sadd_members: "set xs \<subseteq> set s \<Longrightarrow> fold (\<lambda>x t. sadd t x) xs s = s"
  by (induction xs arbitrary: s) (auto simp: sadd_def)

subsection \<open>What a restored hub holds\<close>

definition deviceList :: "relay_restore list \<Rightarrow> (string, registration) jmap" where
  "deviceList es = concat (map (\<lambda>(c, st). map (\<lambda>a. (deviceKey (device a), \<lparr>reg_connection = c, reg_advert = a\<rparr>)) (rs_adverts st)) es)"

definition ownList :: "relay_restore list \<Rightarrow> (string, conn) jmap" where
  "ownList es = map (\<lambda>(c, st). (deviceKey (rs_device st), c)) es"

lemma fold_adverts:
  "fold (\<lambda>a ds. jset ds (deviceKey (device a)) \<lparr>reg_connection = c, reg_advert = a\<rparr>) as ds =
     fold (\<lambda>(k, v) t. jset t k v) (map (\<lambda>a. (deviceKey (device a), \<lparr>reg_connection = c, reg_advert = a\<rparr>)) as) ds"
  by (simp add: fold_map comp_def)

lemma fold_registrations:
  "fold restoreRegistrations es (hub, idx) =
     (hub\<lparr>connections := fold (\<lambda>c t. sadd t c) (map fst es) (connections hub),
          connectionDevice := fold (\<lambda>(k, v) t. jset t k v) (map (\<lambda>(c, st). (c, rs_device st)) es) (connectionDevice hub),
          devices := fold (\<lambda>(k, v) t. jset t k v) (deviceList es) (devices hub)\<rparr>,
      fold (\<lambda>(k, v) t. jset t k v) (ownList es) idx)"
  by (induction es arbitrary: hub idx)
    (auto simp: deviceList_def ownList_def restoreRegistrations_def fold_adverts)

lemma fold_resolve:
  "fold resolveAdverts es m =
     fold (\<lambda>(k, v) t. if jget t k = None then jset t k v else t) (map (\<lambda>(k, r). (k, reg_connection r)) (deviceList es)) m"
proof (induction es arbitrary: m)
  case (Cons e es)
  have "resolveAdverts e m = fold (\<lambda>(k, v) t. if jget t k = None then jset t k v else t)
      (map (\<lambda>(k, r). (k, reg_connection r)) (deviceList [e])) m" for m
    by (cases e) (simp add: resolveAdverts_def deviceList_def fold_map comp_def)
  then show ?case using Cons by (simp add: deviceList_def)
qed (simp add: deviceList_def)

definition resolved :: "relay_restore list \<Rightarrow> (string, conn) jmap" where
  "resolved es = fold resolveAdverts es (fold (\<lambda>(k, v) t. jset t k v) (ownList es) [])"

lemma setPairing_frame [simp]:
  "connections (setPairing c k p hub) = connections hub" "devices (setPairing c k p hub) = devices hub"
  "connectionDevice (setPairing c k p hub) = connectionDevice hub" "uplink (setPairing c k p hub) = uplink hub"
  "mailboxStore (setPairing c k p hub) = mailboxStore hub"
  by (simp_all add: setPairing_def)

lemma setRecent_frame [simp]:
  "connections (setRecent c p hub) = connections hub" "devices (setRecent c p hub) = devices hub"
  "connectionDevice (setRecent c p hub) = connectionDevice hub" "uplink (setRecent c p hub) = uplink hub"
  "mailboxStore (setRecent c p hub) = mailboxStore hub" "pairings (setRecent c p hub) = pairings hub"
  by (simp_all add: setRecent_def)

definition pairUp :: "(string, conn) jmap \<Rightarrow> conn \<Rightarrow> device_id list \<Rightarrow> relay_hub \<Rightarrow> relay_hub" where
  "pairUp idx c ds hub = fold (\<lambda>paired hub. case jget idx (deviceKey paired) of None \<Rightarrow> hub
     | Some peer \<Rightarrow> setPairing c (deviceKey paired) peer hub) ds hub"

lemma pairUp_frame [simp]:
  "connections (pairUp idx c ds hub) = connections hub" "devices (pairUp idx c ds hub) = devices hub"
  "connectionDevice (pairUp idx c ds hub) = connectionDevice hub" "uplink (pairUp idx c ds hub) = uplink hub"
  "mailboxStore (pairUp idx c ds hub) = mailboxStore hub" "mostRecentPairing (pairUp idx c ds hub) = mostRecentPairing hub"
  "x \<noteq> c \<Longrightarrow> pairingsOf (pairUp idx c ds hub) x = pairingsOf hub x"
  by (induction ds arbitrary: hub) (simp_all add: pairUp_def split: option.split)

lemma pairUp_own:
  assumes "list_all (\<lambda>d. jget idx (deviceKey d) \<noteq> None) ds" "distinct ds" "set (map deviceKey ds) \<inter> set (jkeys (pairingsOf hub c)) = {}"
  shows "pairingsOf (pairUp idx c ds hub) c = pairingsOf hub c @ map (\<lambda>d. (deviceKey d, the (jget idx (deviceKey d)))) ds"
  using assms
proof (induction ds arbitrary: hub)
  case (Cons d ds)
  then obtain p where p: "jget idx (deviceKey d) = Some p" by auto
  have "jget (pairingsOf hub c) (deviceKey d) = None" using Cons.prems(3) by (auto simp: map_of_eq_None_iff)
  then have own: "pairingsOf (setPairing c (deviceKey d) p hub) c = pairingsOf hub c @ [(deviceKey d, p)]" by (simp add: jset_fresh)
  have "pairingsOf (pairUp idx c ds (setPairing c (deviceKey d) p hub)) c =
      pairingsOf (setPairing c (deviceKey d) p hub) c @ map (\<lambda>d. (deviceKey d, the (jget idx (deviceKey d)))) ds"
    using Cons.prems by (intro Cons.IH) (auto simp: own simp del: pairingsOf_simps)
  then show ?case using p own by (simp add: pairUp_def)
qed (simp add: pairUp_def)

lemma restorePairings_up: "restorePairings idx (c, st) hub = pairUp idx c (rs_pairedDevices st) hub"
  by (simp add: restorePairings_def pairUp_def)

lemma fold_pairings_frame [simp]:
  "connections (fold (restorePairings idx) es hub) = connections hub" "devices (fold (restorePairings idx) es hub) = devices hub"
  "connectionDevice (fold (restorePairings idx) es hub) = connectionDevice hub" "uplink (fold (restorePairings idx) es hub) = uplink hub"
  "mailboxStore (fold (restorePairings idx) es hub) = mailboxStore hub"
  "mostRecentPairing (fold (restorePairings idx) es hub) = mostRecentPairing hub"
  by (induction es arbitrary: hub) (auto simp: restorePairings_up)

lemma fold_pairings_others: "c \<notin> fst ` set es \<Longrightarrow> pairingsOf (fold (restorePairings idx) es hub) c = pairingsOf hub c"
  by (induction es arbitrary: hub) (auto simp: restorePairings_up)

lemma fold_pairings_own:
  assumes "distinct (map fst es)" "(c, st) \<in> set es" "pairingsOf hub c = []"
    "list_all (\<lambda>d. jget idx (deviceKey d) \<noteq> None) (rs_pairedDevices st)" "distinct (rs_pairedDevices st)"
  shows "pairingsOf (fold (restorePairings idx) es hub) c = map (\<lambda>d. (deviceKey d, the (jget idx (deviceKey d)))) (rs_pairedDevices st)"
  using assms(1-3)
proof (induction es arbitrary: hub)
  case (Cons e es)
  obtain x s where e: "e = (x, s)" by fastforce
  show ?case
  proof (cases "x = c")
    case True
    then have "s = st" "c \<notin> fst ` set es" using Cons.prems e by (auto simp: rev_image_eqI)
    then show ?thesis using True e Cons.prems(3) assms(4,5) by (simp add: restorePairings_up fold_pairings_others pairUp_own)
  next
    case False
    then have "(c, st) \<in> set es" "pairingsOf (restorePairings idx e hub) c = []" using Cons.prems e by (auto simp: restorePairings_up)
    then show ?thesis using Cons by simp
  qed
qed simp

definition recentOf :: "(string, conn) jmap \<Rightarrow> relay_connection_state \<Rightarrow> conn option" where
  "recentOf idx st = (case rs_mostRecentDevice st of None \<Rightarrow> None | Some recent \<Rightarrow> jget idx (deviceKey recent))"

lemma restoreRecent_of: "restoreRecent idx (c, st) hub = (case recentOf idx st of None \<Rightarrow> hub | Some p \<Rightarrow> setRecent c p hub)"
  by (simp add: restoreRecent_def recentOf_def split: option.split)

lemma fold_recent_frame [simp]:
  "connections (fold (restoreRecent idx) es hub) = connections hub" "devices (fold (restoreRecent idx) es hub) = devices hub"
  "connectionDevice (fold (restoreRecent idx) es hub) = connectionDevice hub" "uplink (fold (restoreRecent idx) es hub) = uplink hub"
  "mailboxStore (fold (restoreRecent idx) es hub) = mailboxStore hub" "pairings (fold (restoreRecent idx) es hub) = pairings hub"
  by (induction es arbitrary: hub) (auto simp: restoreRecent_of split: option.split)

lemma fold_recent_others: "c \<notin> fst ` set es \<Longrightarrow> jget (mostRecentPairing (fold (restoreRecent idx) es hub)) c = jget (mostRecentPairing hub) c"
  by (induction es arbitrary: hub) (auto simp: restoreRecent_of split: option.split)

lemma fold_recent_own:
  assumes "distinct (map fst es)" "(c, st) \<in> set es" "jget (mostRecentPairing hub) c = None"
  shows "jget (mostRecentPairing (fold (restoreRecent idx) es hub)) c = recentOf idx st"
  using assms
proof (induction es arbitrary: hub)
  case (Cons e es)
  obtain x s where e: "e = (x, s)" by fastforce
  show ?case
  proof (cases "x = c")
    case True
    then have "s = st" "c \<notin> fst ` set es" using Cons.prems e by (auto simp: rev_image_eqI)
    then show ?thesis using True e Cons.prems(3) by (auto simp: restoreRecent_of fold_recent_others split: option.split)
  next
    case False
    then have "(c, st) \<in> set es" "jget (mostRecentPairing (restoreRecent idx e hub)) c = None"
      using Cons.prems e by (auto simp: restoreRecent_of split: option.split)
    then show ?thesis using Cons by simp
  qed
qed simp

end
