(* ===== verification/HibernationProperties.thy ===== *)
theory HibernationProperties
  imports HibernationRestore
begin

text \<open>
  What survives eviction: the instance that wakes routes frames as the one that went would have.
\<close>

subsection \<open>The hub that wakes\<close>

text \<open>
  Every pairing is with the connection that is registered for the paired device now, and no other connection
  is known under that device. Both can fail: a device that moves to a fresher connection leaves its old
  pairings, and its attribution, with the connection it left.
\<close>

definition routesCurrent :: "relay_hub \<Rightarrow> bool" where
  "routesCurrent hub \<longleftrightarrow> list_all (\<lambda>(x, own). list_all (\<lambda>(k, p).
     map_option reg_connection (jget (devices hub) k) = Some p \<and>
     list_all (\<lambda>(y, d). deviceKey d = k \<longrightarrow> y = p) (connectionDevice hub)) own) (pairings hub)"

lemma routesCurrentD:
  assumes "routesCurrent hub" "jget (pairingsOf hub x) k = Some p"
  shows "\<exists>r. jget (devices hub) k = Some r \<and> reg_connection r = p"
    and "jget (connectionDevice hub) y = Some d \<Longrightarrow> deviceKey d = k \<Longrightarrow> y = p"
proof -
  obtain own where "jget (pairings hub) x = Some own" "jget own k = Some p"
    using assms(2) by (auto simp: pairingsOf_def split: option.splits)
  then have "(x, own) \<in> set (pairings hub)" "(k, p) \<in> set own" by (auto dest: map_of_SomeD)
  with assms(1) have r: "map_option reg_connection (jget (devices hub) k) = Some p"
    "list_all (\<lambda>(y, d). deviceKey d = k \<longrightarrow> y = p) (connectionDevice hub)"
    unfolding routesCurrent_def list_all_iff by fastforce+
  from r(1) show "\<exists>r. jget (devices hub) k = Some r \<and> reg_connection r = p" by auto
  from r(2) show "jget (connectionDevice hub) y = Some d \<Longrightarrow> deviceKey d = k \<Longrightarrow> y = p"
    by (auto simp: list_all_iff dest: map_of_SomeD)
qed

definition awakening :: "hub_options \<Rightarrow> relay_hub \<Rightarrow> conn list \<Rightarrow> (conn \<Rightarrow> conn) \<Rightarrow> bool" where
  "awakening opts hub cs rho \<longleftrightarrow> hub_inv opts hub \<and> restorable hub \<and> routesCurrent hub
     \<and> distinct cs \<and> set cs = set (connections hub) \<and> inj_on rho (set cs)"

definition exportsOf :: "relay_hub \<Rightarrow> (conn \<Rightarrow> conn) \<Rightarrow> conn list \<Rightarrow> relay_restore list" where
  "exportsOf hub rho cs = concat (map (\<lambda>c. case exportConnection c hub of None \<Rightarrow> [] | Some st \<Rightarrow> [(rho c, st)]) cs)"

definition moved :: "(conn \<Rightarrow> conn) \<Rightarrow> registration \<Rightarrow> registration" where
  "moved rho r = r\<lparr>reg_connection := rho (reg_connection r)\<rparr>"

lemma moved_fields [simp]: "reg_connection (moved rho r) = rho (reg_connection r)" "reg_advert (moved rho r) = reg_advert r"
  by (simp_all add: moved_def)

lemma moved_at: "reg_connection r = c \<Longrightarrow> moved rho r = \<lparr>reg_connection = rho c, reg_advert = reg_advert r\<rparr>"
  by (cases r) (simp add: moved_def)

lemma exportsOf_iff: "(x, st) \<in> set (exportsOf hub rho cs) \<longleftrightarrow> (\<exists>c \<in> set cs. x = rho c \<and> exportConnection c hub = Some st)"
  by (auto simp: exportsOf_def split: option.splits) (metis list.set_intros(1) option.simps(5))

lemma exportsOf_distinct: "distinct cs \<Longrightarrow> inj_on rho (set cs) \<Longrightarrow> distinct (map fst (exportsOf hub rho cs))"
proof (induction cs)
  case (Cons c cs)
  have "rho c \<notin> fst ` set (exportsOf hub rho cs)"
  proof
    assume "rho c \<in> fst ` set (exportsOf hub rho cs)"
    then obtain st where "(rho c, st) \<in> set (exportsOf hub rho cs)" by force
    then obtain d where "d \<in> set cs" "rho c = rho d" unfolding exportsOf_iff by blast
    with Cons.prems show False by (auto simp: inj_on_def)
  qed
  moreover have "distinct (map fst (exportsOf hub rho cs))" using Cons by (simp add: inj_on_insert)
  ultimately show ?case by (simp add: exportsOf_def split: option.split)
qed (simp add: exportsOf_def)

lemma devices_entry:
  "devices_ok hub \<Longrightarrow> (k, r) \<in> set (devices hub) \<Longrightarrow>
     k = deviceKey (device (reg_advert r)) \<and> jget (connectionDevice hub) (reg_connection r) \<noteq> None"
  unfolding devices_ok_def by (metis jget_in_set)

definition blockOf :: "relay_hub \<Rightarrow> (conn \<Rightarrow> conn) \<Rightarrow> conn \<Rightarrow> (string, registration) jmap" where
  "blockOf hub rho c = map (\<lambda>(k, r). (k, moved rho r)) (filter (\<lambda>(k, r). reg_connection r = c) (devices hub))"

lemma block_iff: "devices_ok hub \<Longrightarrow> (k, q) \<in> set (blockOf hub rho c) \<longleftrightarrow> (\<exists>r. jget (devices hub) k = Some r \<and> reg_connection r = c \<and> q = moved rho r)"
  by (auto simp: blockOf_def devices_ok_def jget_in_set)

lemma deviceList_blocks:
  assumes "devices_ok hub"
  shows "deviceList (exportsOf hub rho cs) = concat (map (blockOf hub rho) cs)"
proof -
  have "deviceList (case exportConnection c hub of None \<Rightarrow> [] | Some st \<Rightarrow> [(rho c, st)]) = blockOf hub rho c" for c
  proof (cases "jget (connectionDevice hub) c")
    case None
    then have "filter (\<lambda>(k, r). reg_connection r = c) (devices hub) = []"
      using devices_entry [OF assms] unfolding filter_empty_conv by fastforce
    then show ?thesis using None by (simp add: exportConnection_def deviceList_def blockOf_def)
  next
    case (Some d)
    have block: "map (\<lambda>a. (deviceKey (device a), \<lparr>reg_connection = rho c, reg_advert = a\<rparr>)) (map reg_advert (filter (\<lambda>r. reg_connection r = c) (jvals m)))
        = map (\<lambda>(k, r). (k, moved rho r)) (filter (\<lambda>(k, r). reg_connection r = c) m)"
      if "\<forall>(k, r) \<in> set m. k = deviceKey (device (reg_advert r))" for m
      using that by (induction m) (simp_all add: moved_at case_prod_beta)
    have "\<forall>(k, r) \<in> set (devices hub). k = deviceKey (device (reg_advert r))"
      using devices_entry [OF assms] by blast
    from block [OF this] show ?thesis using Some by (simp add: exportConnection_def deviceList_def blockOf_def)
  qed
  then show ?thesis unfolding exportsOf_def deviceList_def by (induction cs) (simp_all add: deviceList_def)
qed

lemma blocks_distinct:
  assumes "devices_ok hub" "distinct cs"
  shows "distinct (jkeys (concat (map (blockOf hub rho) cs)))"
  using assms(2)
proof (induction cs)
  case (Cons c cs)
  have "distinct (jkeys (blockOf hub rho c))"
    using assms(1) by (auto simp: blockOf_def devices_ok_def jwf_def comp_def case_prod_beta intro: distinct_map_filter)
  moreover have False if kc: "k \<in> set (jkeys (blockOf hub rho c))" "k \<in> set (jkeys (concat (map (blockOf hub rho) cs)))" for k
  proof -
    obtain q where q: "(k, q) \<in> set (blockOf hub rho c)" using kc(1) by auto
    from kc(2) obtain q' where q': "(k, q') \<in> set (concat (map (blockOf hub rho) cs))" unfolding set_map by force
    then obtain c' where "c' \<in> set cs" "(k, q') \<in> set (blockOf hub rho c')" by auto
    with q have "c = c'" unfolding block_iff [OF assms(1)] by auto
    with \<open>c' \<in> set cs\<close> Cons.prems show False by simp
  qed
  ultimately show ?case using Cons by (auto simp del: set_map)
qed simp

lemma blocks_lookup:
  assumes "devices_ok hub" "distinct cs" "\<And>k r. jget (devices hub) k = Some r \<Longrightarrow> reg_connection r \<in> set cs"
  shows "jget (concat (map (blockOf hub rho) cs)) k = map_option (moved rho) (jget (devices hub) k)"
proof -
  have wf: "jwf (concat (map (blockOf hub rho) cs))" using blocks_distinct [OF assms(1,2)] by (simp add: jwf_def)
  have mem: "(k, q) \<in> set (concat (map (blockOf hub rho) cs)) \<longleftrightarrow> (\<exists>r. jget (devices hub) k = Some r \<and> q = moved rho r)" for q
    using assms(3) by (auto simp: block_iff [OF assms(1)])
  show ?thesis
  proof (cases "jget (devices hub) k")
    case None
    then have "(k, q) \<notin> set (concat (map (blockOf hub rho) cs))" for q unfolding mem by simp
    then have "jget (concat (map (blockOf hub rho) cs)) k = None" unfolding jget_in_set [OF wf] by (cases "jget (concat (map (blockOf hub rho) cs)) k") auto
    with None show ?thesis by simp
  next
    case (Some r)
    then have "(k, moved rho r) \<in> set (concat (map (blockOf hub rho) cs))" unfolding mem by blast
    then show ?thesis using Some unfolding jget_in_set [OF wf] by simp
  qed
qed

lemma blocks_of:
  assumes "distinct cs" "inj_on rho (set cs)" "c \<in> set cs"
  shows "map reg_advert (filter (\<lambda>r. reg_connection r = rho c) (jvals (concat (map (blockOf hub rho) cs))))
       = map reg_advert (filter (\<lambda>r. reg_connection r = c) (jvals (devices hub)))"
proof -
  have own: "map reg_advert (filter (\<lambda>r. reg_connection r = rho c) (jvals (blockOf hub rho x))) =
      (if rho x = rho c then map reg_advert (filter (\<lambda>r. reg_connection r = x) (jvals (devices hub))) else [])" for x
  proof -
    have step: "map reg_advert (filter (\<lambda>r. reg_connection r = rho c) (jvals (map (\<lambda>(k, r). (k, moved rho r)) (filter (\<lambda>(k, r). reg_connection r = x) m)))) =
        (if rho x = rho c then map reg_advert (filter (\<lambda>r. reg_connection r = x) (jvals m)) else [])" for m
      by (induction m) auto
    show ?thesis unfolding blockOf_def by (rule step)
  qed
  show ?thesis using assms
  proof (induction cs)
    case (Cons x cs)
    have other: "map reg_advert (filter (\<lambda>r. reg_connection r = rho c) (jvals (concat (map (blockOf hub rho) ys)))) = []"
      if "\<forall>y \<in> set ys. rho y \<noteq> rho c" for ys
      using that by (induction ys) (simp_all add: own del: map_is_Nil_conv)
    show ?case
    proof (cases "x = c")
      case True
      then have "\<forall>y \<in> set cs. rho y \<noteq> rho c" using Cons.prems by (auto simp: inj_on_def)
      then show ?thesis using True other own by simp
    next
      case False
      then have "c \<in> set cs" "rho x \<noteq> rho c" using Cons.prems by (auto simp: inj_on_def)
      then show ?thesis using Cons own [of x] by (simp add: inj_on_insert)
    qed
  qed simp
qed

text \<open>The index resolves the key of every current pairing to the connection that holds the device.\<close>

lemma resolved_current:
  assumes "awakening opts hub cs rho" "jget (pairingsOf hub x) k = Some p"
  shows "jget (resolved (exportsOf hub rho cs)) k = Some (rho p)"
proof -
  let ?es = "exportsOf hub rho cs"
  have ok: "devices_ok hub" "distinct cs" "inj_on rho (set cs)" "\<And>k r. jget (devices hub) k = Some r \<Longrightarrow> reg_connection r \<in> set cs"
    using assms(1) by (auto simp: awakening_def restorable_def hub_inv_def)
  obtain r where r: "jget (devices hub) k = Some r" "reg_connection r = p"
    and only: "\<And>y d. jget (connectionDevice hub) y = Some d \<Longrightarrow> deviceKey d = k \<Longrightarrow> y = p"
    using assms routesCurrentD [of hub x k p] unfolding awakening_def by blast
  have adverts: "jget (map (\<lambda>(k, r). (k, reg_connection r)) (deviceList ?es)) k = Some (rho p)"
    using r by (simp add: deviceList_blocks [OF ok(1)] blocks_lookup [OF ok(1,2,4)] map_of_map option.map_comp)
  have own: "c = rho p" if "jget (fold (\<lambda>(k, v) t. jset t k v) (ownList ?es) []) k = Some c" for c
  proof -
    from fold_jset_source [OF that] have "(k, c) \<in> set (ownList ?es)" by simp
    then obtain st where "(c, st) \<in> set ?es" "deviceKey (rs_device st) = k" by (auto simp: ownList_def)
    then obtain y where "c = rho y" "exportConnection y hub = Some st" "deviceKey (rs_device st) = k" unfolding exportsOf_iff by blast
    then have "c = rho y" "jget (connectionDevice hub) y = Some (rs_device st)" by (auto simp: exportConnection_def split: option.splits)
    with only \<open>deviceKey (rs_device st) = k\<close> show ?thesis by blast
  qed
  show ?thesis unfolding resolved_def fold_resolve fold_jset_absent adverts using own by (simp split: option.split)
qed

definition awake :: "relay_hub \<Rightarrow> (conn \<Rightarrow> conn) \<Rightarrow> conn list \<Rightarrow> relay_hub \<Rightarrow> relay_hub" where
  "awake hub rho cs hub0 = restoreConnections (exportsOf hub rho cs) hub0"

definition blank :: "conn list \<Rightarrow> relay_hub \<Rightarrow> bool" where
  "blank cs hub0 \<longleftrightarrow> connections hub0 = cs \<and> uplink hub0 = None \<and> devices hub0 = [] \<and> connectionDevice hub0 = []
     \<and> pairings hub0 = [] \<and> mostRecentPairing hub0 = []"

lemma awake_registry:
  assumes "awakening opts hub cs rho" "blank (map rho cs) hub0"
  shows "devices (awake hub rho cs hub0) = concat (map (blockOf hub rho) cs)"
    and "connectionDevice (awake hub rho cs hub0) = map (\<lambda>(c, st). (c, rs_device st)) (exportsOf hub rho cs)"
    and "connections (awake hub rho cs hub0) = map rho cs" "uplink (awake hub rho cs hub0) = None"
    and "mailboxStore (awake hub rho cs hub0) = mailboxStore hub0"
proof -
  let ?es = "exportsOf hub rho cs"
  have ok: "devices_ok hub" "distinct cs" "inj_on rho (set cs)" using assms(1) by (auto simp: awakening_def restorable_def)
  have fr: "fold (\<lambda>c t. sadd t c) (map fst ?es) (map rho cs) = map rho cs"
    by (rule fold_sadd_members) (auto simp: exportsOf_iff)
  have ds: "fold (\<lambda>(k, v) t. jset t k v) (deviceList ?es) [] = concat (map (blockOf hub rho) cs)"
    using fold_jset_fresh [of "deviceList ?es" "[]"] blocks_distinct [OF ok(1,2)] by (simp add: deviceList_blocks [OF ok(1)])
  have cd: "fold (\<lambda>(k, v) t. jset t k v) (map (\<lambda>(c, st). (c, rs_device st)) ?es) [] = map (\<lambda>(c, st). (c, rs_device st)) ?es"
    using fold_jset_fresh [of "map (\<lambda>(c, st). (c, rs_device st)) ?es" "[]"] exportsOf_distinct [OF ok(2,3), of hub]
    by (simp add: comp_def case_prod_beta)
  show "devices (awake hub rho cs hub0) = concat (map (blockOf hub rho) cs)"
    "connectionDevice (awake hub rho cs hub0) = map (\<lambda>(c, st). (c, rs_device st)) ?es"
    "connections (awake hub rho cs hub0) = map rho cs" "uplink (awake hub rho cs hub0) = None"
    "mailboxStore (awake hub rho cs hub0) = mailboxStore hub0"
    using assms(2) fr ds cd by (simp_all add: awake_def restoreConnections_def fold_registrations Let_def blank_def)
qed

lemma awake_pairings:
  assumes "awakening opts hub cs rho" "blank (map rho cs) hub0" "c \<in> set cs"
  shows "pairingsOf (awake hub rho cs hub0) (rho c) = map (\<lambda>(k, p). (k, rho p)) (pairingsOf hub c)"
    and "jget (mostRecentPairing (awake hub rho cs hub0)) (rho c) = map_option rho (jget (mostRecentPairing hub) c)"
proof -
  let ?es = "exportsOf hub rho cs" and ?idx = "resolved (exportsOf hub rho cs)"
  have ok: "pairings_ok hub" "recents_ok hub" "distinct (map fst ?es)" "inj_on rho (set cs)"
    using assms(1) by (auto simp: awakening_def restorable_def exportsOf_distinct)
  define mid where "mid = fst (fold restoreRegistrations ?es (hub0, []))"
  have mid: "pairingsOf mid y = []" "jget (mostRecentPairing mid) y = None" for y
    using assms(2) by (simp_all add: mid_def fold_registrations pairingsOf_def blank_def)
  have aw: "awake hub rho cs hub0 = fold (restoreRecent ?idx) ?es (fold (restorePairings ?idx) ?es mid)"
    by (simp add: awake_def restoreConnections_def fold_registrations Let_def resolved_def mid_def)
  have own: "pairingsOf (awake hub rho cs hub0) y = pairingsOf (fold (restorePairings ?idx) ?es mid) y" for y
    by (simp add: aw pairingsOf_def)
  have "pairingsOf (awake hub rho cs hub0) (rho c) = map (\<lambda>(k, p). (k, rho p)) (pairingsOf hub c)
      \<and> jget (mostRecentPairing (awake hub rho cs hub0)) (rho c) = map_option rho (jget (mostRecentPairing hub) c)"
  proof (cases "exportConnection c hub")
    case None
    then have "jget (connectionDevice hub) c = None" by (simp add: exportConnection_def split: option.splits)
    then have "pairingsOf hub c = []" using ok(1) unfolding pairings_ok_def by blast
    moreover have "jget (mostRecentPairing hub) c = None"
    proof (rule ccontr)
      assume "jget (mostRecentPairing hub) c \<noteq> None"
      then obtain q k where "jget (pairingsOf hub c) k = Some q" using ok(2) unfolding recents_ok_def by blast
      with \<open>pairingsOf hub c = []\<close> show False by simp
    qed
    moreover have "rho c \<notin> fst ` set ?es"
    proof
      assume "rho c \<in> fst ` set ?es"
      then obtain st where "(rho c, st) \<in> set ?es" by force
      then obtain d where "d \<in> set cs" "rho c = rho d" "exportConnection d hub = Some st" unfolding exportsOf_iff by blast
      with ok(4) assms(3) have "d = c" by (simp add: inj_on_eq_iff)
      with None \<open>exportConnection d hub = Some st\<close> show False by simp
    qed
    moreover from this have "pairingsOf (awake hub rho cs hub0) (rho c) = []" "jget (mostRecentPairing (awake hub rho cs hub0)) (rho c) = None"
      unfolding own by (simp_all add: aw fold_pairings_others fold_recent_others mid)
    ultimately show ?thesis by simp
  next
    case (Some st)
    let ?own = "pairingsOf hub c"
    have st: "(rho c, st) \<in> set ?es" using Some assms(3) unfolding exportsOf_iff by blast
    have paired: "rs_pairedDevices st = map deviceFromKey (jkeys ?own)"
      and recent: "rs_mostRecentDevice st = (case jget (mostRecentPairing hub) c of None \<Rightarrow> None
        | Some q \<Rightarrow> map_option (\<lambda>(key, peer). deviceFromKey key) (find (\<lambda>(key, peer). peer = q) ?own))"
      using Some by (auto simp: exportConnection_def split: option.splits)
    have wf: "jwf ?own" and pk: "list_all pairingKey (jkeys ?own)" using ok(1) unfolding pairings_ok_def by blast+
    have keys: "deviceKey (deviceFromKey k) = k" if "k \<in> set (jkeys ?own)" for k
    proof -
      have "pairingKey k" using pk that unfolding list_all_iff by (rule bspec)
      then obtain d where "k = deviceKey d" unfolding pairingKey_def by blast
      then show ?thesis by simp
    qed
    have idx: "jget ?idx (deviceKey (deviceFromKey k)) = Some (rho p)" if "(k, p) \<in> set ?own" for k p
    proof -
      have "deviceKey (deviceFromKey k) = k" using that by (intro keys) force
      moreover have "jget ?own k = Some p" using that wf by (simp add: jget_in_set)
      ultimately show ?thesis using resolved_current [OF assms(1)] by simp
    qed
    have "distinct (rs_pairedDevices st)"
    proof -
      have "inj_on deviceFromKey (set (jkeys ?own))" using keys by (metis inj_onI)
      then show ?thesis using wf by (simp add: paired jwf_def distinct_map comp_inj_on)
    qed
    moreover have "list_all (\<lambda>d. jget ?idx (deviceKey d) \<noteq> None) (rs_pairedDevices st)"
      using idx by (auto simp: paired list_all_iff)
    ultimately have "pairingsOf (fold (restorePairings ?idx) ?es mid) (rho c)
        = map (\<lambda>d. (deviceKey d, the (jget ?idx (deviceKey d)))) (rs_pairedDevices st)"
      using fold_pairings_own [OF ok(3) st mid(1)] by blast
    also have "\<dots> = map (\<lambda>(k, p). (k, rho p)) ?own"
      unfolding paired map_map
    proof (rule map_cong [OF refl])
      fix e assume e: "e \<in> set ?own"
      obtain k p where kp: "e = (k, p)" by fastforce
      then have "deviceKey (deviceFromKey k) = k" using e by (intro keys) force
      then show "((\<lambda>d. (deviceKey d, the (jget ?idx (deviceKey d)))) \<circ> (deviceFromKey \<circ> fst)) e = (case e of (k, p) \<Rightarrow> (k, rho p))"
        using idx [of k p] e kp by simp
    qed
    finally have a: "pairingsOf (awake hub rho cs hub0) (rho c) = map (\<lambda>(k, p). (k, rho p)) ?own" by (simp add: own)
    have "recentOf ?idx st = map_option rho (jget (mostRecentPairing hub) c)"
    proof (cases "jget (mostRecentPairing hub) c")
      case None
      then show ?thesis by (simp add: recentOf_def recent)
    next
      case (Some q)
      then obtain k where "jget ?own k = Some q" using ok(2) unfolding recents_ok_def by blast
      then have "(k, q) \<in> set ?own" by (rule map_of_SomeD)
      then have "find (\<lambda>(key, peer). peer = q) ?own \<noteq> None" by (auto simp: find_None_iff)
      then obtain k' q' where f: "find (\<lambda>(key, peer). peer = q) ?own = Some (k', q')" by auto
      then have "q' = q" "(k', q') \<in> set ?own" unfolding find_Some_iff by (auto simp: in_set_conv_nth)
      with idx f Some show ?thesis by (simp add: recentOf_def recent)
    qed
    moreover have "jget (mostRecentPairing (awake hub rho cs hub0)) (rho c) = recentOf ?idx st"
      unfolding aw by (rule fold_recent_own [OF ok(3) st]) (simp add: mid)
    ultimately show ?thesis using a by simp
  qed
  then show "pairingsOf (awake hub rho cs hub0) (rho c) = map (\<lambda>(k, p). (k, rho p)) (pairingsOf hub c)"
    "jget (mostRecentPairing (awake hub rho cs hub0)) (rho c) = map_option rho (jget (mostRecentPairing hub) c)" by blast+
qed

lemma export_device: "exportConnection c hub = Some st \<Longrightarrow> jget (connectionDevice hub) c = Some (rs_device st)"
  "exportConnection c hub = None \<longleftrightarrow> jget (connectionDevice hub) c = None"
  by (auto simp: exportConnection_def split: option.splits)

lemma awake_devices:
  assumes "awakening opts hub cs rho" "blank (map rho cs) hub0"
  shows "jget (devices (awake hub rho cs hub0)) k = map_option (moved rho) (jget (devices hub) k)"
    and "c \<in> set cs \<Longrightarrow> jget (connectionDevice (awake hub rho cs hub0)) (rho c) = jget (connectionDevice hub) c"
    and "x \<notin> rho ` set cs \<Longrightarrow> jget (connectionDevice (awake hub rho cs hub0)) x = None"
    and "jwf (devices (awake hub rho cs hub0))"
proof -
  let ?es = "exportsOf hub rho cs"
  have ok: "devices_ok hub" "distinct cs" "inj_on rho (set cs)" "\<And>k r. jget (devices hub) k = Some r \<Longrightarrow> reg_connection r \<in> set cs"
    using assms(1) by (auto simp: awakening_def restorable_def hub_inv_def)
  show "jget (devices (awake hub rho cs hub0)) k = map_option (moved rho) (jget (devices hub) k)"
    by (simp add: awake_registry [OF assms] blocks_lookup [OF ok(1,2,4)])
  show "jwf (devices (awake hub rho cs hub0))" 
    unfolding jwf_def awake_registry(1) [OF assms] by (rule blocks_distinct [OF ok(1,2)])
  have dist: "distinct (jkeys (map (\<lambda>(c, st). (c, rs_device st)) ?es))"
    using exportsOf_distinct [OF ok(2,3), of hub] by (simp add: comp_def case_prod_beta)
  have look: "jget (connectionDevice (awake hub rho cs hub0)) x = Some d \<longleftrightarrow> (\<exists>st. (x, st) \<in> set ?es \<and> d = rs_device st)" for x d
    unfolding awake_registry(2) [OF assms] map_of_eq_Some_iff [OF dist] by auto
  have some: "jget (connectionDevice (awake hub rho cs hub0)) x = Some d \<longleftrightarrow>
      (\<exists>c \<in> set cs. x = rho c \<and> jget (connectionDevice hub) c = Some d)" for x d
  proof
    show "jget (connectionDevice (awake hub rho cs hub0)) x = Some d \<Longrightarrow> \<exists>c \<in> set cs. x = rho c \<and> jget (connectionDevice hub) c = Some d"
      unfolding look exportsOf_iff by (blast dest: export_device(1))
    assume "\<exists>c \<in> set cs. x = rho c \<and> jget (connectionDevice hub) c = Some d"
    then obtain c where c: "c \<in> set cs" "x = rho c" "jget (connectionDevice hub) c = Some d" by blast
    then obtain st where st: "exportConnection c hub = Some st" using export_device(2) [of c hub] by (cases "exportConnection c hub") simp_all
    with export_device(1) [OF st] c show "jget (connectionDevice (awake hub rho cs hub0)) x = Some d"
      unfolding look exportsOf_iff by (intro exI [of _ st]) auto
  qed
  show "x \<notin> rho ` set cs \<Longrightarrow> jget (connectionDevice (awake hub rho cs hub0)) x = None"
    using some by (metis imageI not_None_eq)
  assume c: "c \<in> set cs"
  have "jget (connectionDevice (awake hub rho cs hub0)) (rho c) = Some d \<longleftrightarrow> jget (connectionDevice hub) c = Some d" for d
    unfolding some using c ok(3) by (metis inj_on_eq_iff)
  then show "jget (connectionDevice (awake hub rho cs hub0)) (rho c) = jget (connectionDevice hub) c" by (metis not_None_eq)
qed

lemma awake_elsewhere:
  assumes "blank (map rho cs) hub0" "x \<notin> rho ` set cs"
  shows "jget (pairings (awake hub rho cs hub0)) x = None" "jget (mostRecentPairing (awake hub rho cs hub0)) x = None"
proof -
  let ?es = "exportsOf hub rho cs" and ?idx = "resolved (exportsOf hub rho cs)"
  define mid where "mid = fst (fold restoreRegistrations ?es (hub0, []))"
  have mid: "pairings mid = []" "mostRecentPairing mid = []" using assms(1) by (simp_all add: mid_def fold_registrations blank_def)
  have aw: "awake hub rho cs hub0 = fold (restoreRecent ?idx) ?es (fold (restorePairings ?idx) ?es mid)"
    by (simp add: awake_def restoreConnections_def fold_registrations Let_def resolved_def mid_def)
  have x: "x \<notin> fst ` set ?es" using assms(2) by (auto simp: exportsOf_iff)
  have up: "y \<noteq> c \<Longrightarrow> jget (pairings (pairUp idx c ds h)) y = jget (pairings h) y" for y c ds idx h
    by (induction ds arbitrary: h) (simp_all add: pairUp_def setPairing_def split: option.split)
  have "x \<notin> fst ` set es \<Longrightarrow> jget (pairings (fold (restorePairings ?idx) es h)) x = jget (pairings h) x" for es h
    by (induction es arbitrary: h) (auto simp: restorePairings_up up)
  then show "jget (pairings (awake hub rho cs hub0)) x = None" using x by (simp add: aw mid)
  show "jget (mostRecentPairing (awake hub rho cs hub0)) x = None" using x by (simp add: aw fold_recent_others mid)
qed

lemma awake_inv:
  assumes "awakening opts hub cs rho" "blank (map rho cs) hub0"
  shows "hub_inv opts (awake hub rho cs hub0)"
proof -
  have inv: "hub_inv opts hub" and cs: "distinct cs" "set cs = set (connections hub)" "inj_on rho (set cs)"
    using assms(1) by (auto simp: awakening_def)
  have "registry_ok opts (devices (awake hub rho cs hub0))"
    using inv awake_devices(4) [OF assms] by (auto simp: hub_inv_def registry_ok_def awake_devices(1) [OF assms])
  moreover have "reg_connection r \<in> rho ` set cs" if "jget (devices (awake hub rho cs hub0)) k = Some r" for k r
    using that inv cs(2) by (auto simp: awake_devices(1) [OF assms] hub_inv_def)
  moreover have "x \<in> rho ` set cs" if "jget (connectionDevice (awake hub rho cs hub0)) x \<noteq> None \<or> jget (pairings (awake hub rho cs hub0)) x \<noteq> None
      \<or> jget (mostRecentPairing (awake hub rho cs hub0)) x \<noteq> None" for x
    using that awake_devices(3) [OF assms, of x] awake_elsewhere [OF assms(2), of x] by metis
  moreover have "distinct (map rho cs)" using cs by (simp add: distinct_map)
  ultimately show ?thesis by (auto simp: hub_inv_def awake_registry(3,4) [OF assms])
qed

lemma awake_restorable:
  assumes "awakening opts hub cs rho" "blank (map rho cs) hub0"
  shows "restorable (awake hub rho cs hub0)"
proof -
  let ?w = "awake hub rho cs hub0"
  have res: "devices_ok hub" "pairings_ok hub" "recents_ok hub" and cs: "set cs = set (connections hub)" and inv: "hub_inv opts hub"
    using assms(1) by (auto simp: awakening_def restorable_def)
  have live: "reg_connection r \<in> set cs" if "jget (devices hub) k = Some r" for k r using that inv cs by (auto simp: hub_inv_def)
  have "devices_ok ?w"
    unfolding devices_ok_def
  proof (intro conjI allI impI)
    show "jwf (devices ?w)" by (rule awake_devices(4) [OF assms])
  next
    fix k r assume "jget (devices ?w) k = Some r"
    then obtain q where q: "jget (devices hub) k = Some q" "r = moved rho q" by (auto simp: awake_devices(1) [OF assms])
    then show "k = deviceKey (device (reg_advert r))" "deviceIdBytes (device (reg_advert r))" "jget (connectionDevice ?w) (reg_connection r) \<noteq> None"
      using res(1) live [OF q(1)] unfolding devices_ok_def by (simp_all add: awake_devices(2) [OF assms])
  next
    fix x d assume d: "jget (connectionDevice ?w) x = Some d"
    then obtain c where "c \<in> set cs" "x = rho c" using awake_devices(3) [OF assms, of x] by fastforce
    then show "deviceIdBytes d" using d res(1) by (auto simp: awake_devices(2) [OF assms] devices_ok_def)
  qed
  moreover have "pairings_ok ?w"
    unfolding pairings_ok_def
  proof
    fix x
    show "jwf (pairingsOf ?w x) \<and> list_all pairingKey (jkeys (pairingsOf ?w x)) \<and> (pairingsOf ?w x \<noteq> [] \<longrightarrow> jget (connectionDevice ?w) x \<noteq> None)"
    proof (cases "x \<in> rho ` set cs")
      case True
      then obtain c where c: "c \<in> set cs" "x = rho c" by blast
      have keys: "jkeys (map (\<lambda>(k, p). (k, rho p)) m) = jkeys m" for m :: "(string, conn) jmap" by (simp add: comp_def case_prod_beta)
      have "jwf (pairingsOf hub c)" "list_all pairingKey (jkeys (pairingsOf hub c))"
        "pairingsOf hub c \<noteq> [] \<longrightarrow> jget (connectionDevice hub) c \<noteq> None" using res(2) unfolding pairings_ok_def by blast+
      then show ?thesis unfolding c(2) awake_pairings(1) [OF assms c(1)] awake_devices(2) [OF assms c(1)] jwf_def keys by simp
    next
      case False
      then show ?thesis using awake_elsewhere(1) [OF assms(2)] by (simp add: pairingsOf_def)
    qed
  qed
  moreover have "recents_ok ?w"
    unfolding recents_ok_def
  proof (intro allI impI)
    fix x q assume q: "jget (mostRecentPairing ?w) x = Some q"
    then obtain c where c: "c \<in> set cs" "x = rho c" using awake_elsewhere(2) [OF assms(2), of x] by fastforce
    with q obtain p where p: "jget (mostRecentPairing hub) c = Some p" "q = rho p" by (auto simp: awake_pairings(2) [OF assms c(1)])
    then obtain k where "jget (pairingsOf hub c) k = Some p" using res(3) unfolding recents_ok_def by blast
    then have "jget (pairingsOf ?w x) k = Some q" unfolding c(2) awake_pairings(1) [OF assms c(1)] by (simp add: map_of_map p(2))
    then show "\<exists>k. jget (pairingsOf ?w x) k = Some q" ..
  qed
  ultimately show ?thesis by (simp add: restorable_def awake_registry(4) [OF assms])
qed

lemma awake_exports:
  assumes "awakening opts hub cs rho" "blank (map rho cs) hub0" "c \<in> set cs"
  shows "exportConnection (rho c) (awake hub rho cs hub0) = exportConnection c hub"
proof -
  let ?w = "awake hub rho cs hub0"
  have ok: "pairings_ok hub" "recents_ok hub" "distinct cs" "inj_on rho (set cs)" "routesCurrent hub" "hub_inv opts hub" "set cs = set (connections hub)"
    using assms(1) by (auto simp: awakening_def restorable_def)
  have adverts: "map reg_advert (filter (\<lambda>r. reg_connection r = rho c) (jvals (devices ?w)))
      = map reg_advert (filter (\<lambda>r. reg_connection r = c) (jvals (devices hub)))"
    unfolding awake_registry(1) [OF assms(1,2)] by (rule blocks_of [OF ok(3,4) assms(3)])
  have keys: "jkeys (map (\<lambda>(k, p). (k, rho p)) m) = jkeys m" for m :: "(string, conn) jmap" by (simp add: comp_def case_prod_beta)
  have wf: "jwf (pairingsOf hub c)" using ok(1) unfolding pairings_ok_def by blast
  have held: "p \<in> set cs" if "(k, p) \<in> set (pairingsOf hub c)" for k p
  proof -
    have "jget (pairingsOf hub c) k = Some p" using that wf by (simp add: jget_in_set)
    then obtain r where "jget (devices hub) k = Some r" "reg_connection r = p" using routesCurrentD(1) [OF ok(5)] by blast
    then show ?thesis using ok(6,7) by (auto simp: hub_inv_def)
  qed
  have recent: "(case map_option rho (jget (mostRecentPairing hub) c) of None \<Rightarrow> None
      | Some q \<Rightarrow> map_option (\<lambda>(key, peer). deviceFromKey key) (find (\<lambda>(key, peer). peer = q) (map (\<lambda>(k, p). (k, rho p)) (pairingsOf hub c))))
    = (case jget (mostRecentPairing hub) c of None \<Rightarrow> None
      | Some q \<Rightarrow> map_option (\<lambda>(key, peer). deviceFromKey key) (find (\<lambda>(key, peer). peer = q) (pairingsOf hub c)))"
  proof (cases "jget (mostRecentPairing hub) c")
    case (Some q)
    then obtain k where "jget (pairingsOf hub c) k = Some q" using ok(2) unfolding recents_ok_def by blast
    then have q: "q \<in> set cs" using held map_of_SomeD by fast
    have step: "map_option (\<lambda>(key, peer). deviceFromKey key) (find (\<lambda>(key, peer). peer = rho q) (map (\<lambda>(k, p). (k, rho p)) m))
        = map_option (\<lambda>(key, peer). deviceFromKey key) (find (\<lambda>(key, peer). peer = q) m)" if "\<forall>(k, p) \<in> set m. p \<in> set cs" for m
      using that q ok(4) by (induction m) (auto simp: inj_on_eq_iff)
    have "\<forall>(k, p) \<in> set (pairingsOf hub c). p \<in> set cs" using held by blast
    from step [OF this] Some show ?thesis by simp
  qed simp
  show ?thesis
    unfolding exportConnection_def awake_devices(2) [OF assms] awake_pairings [OF assms] adverts keys recent ..
qed

subsection \<open>Relay frames on the hub that wakes\<close>

fun carried :: "(conn \<Rightarrow> conn) \<Rightarrow> hub_effect \<Rightarrow> hub_effect" where
  "carried rho (Send c f) = Send (rho c) f"
| "carried rho (StateChanged c) = StateChanged (rho c)"
| "carried rho e = e"

definition relayFrame :: "frame \<Rightarrow> bool" where
  "relayFrame f \<longleftrightarrow> (case f of RelayConnect t s \<Rightarrow> True | RelayData b t s \<Rightarrow> True | _ \<Rightarrow> False)"

lemma pairing_held:
  assumes "awakening opts hub cs rho" "jget (pairingsOf hub x) k = Some p"
  shows "p \<in> set cs"
proof -
  obtain r where "jget (devices hub) k = Some r" "reg_connection r = p"
    using assms routesCurrentD(1) [of hub x k p] unfolding awakening_def by blast
  then show ?thesis using assms(1) by (auto simp: awakening_def hub_inv_def)
qed

lemma recent_held: "awakening opts hub cs rho \<Longrightarrow> jget (mostRecentPairing hub) x = Some p \<Longrightarrow> p \<in> set cs"
  using pairing_held unfolding awakening_def restorable_def recents_ok_def by metis

lemma awake_initiator:
  assumes "awakening opts hub cs rho" "blank (map rho cs) hub0" "c \<in> set cs"
  shows "initiatorOf (awake hub rho cs hub0) (rho c) claimed = initiatorOf hub c claimed"
proof (cases claimed)
  case None
  then show ?thesis by (simp add: initiatorOf_def awake_devices(2) [OF assms])
next
  case (Some dev)
  have "reg_connection r \<in> set cs" if "jget (devices hub) k = Some r" for k r using that assms(1) by (auto simp: awakening_def hub_inv_def)
  moreover have "inj_on rho (set cs)" using assms(1) unfolding awakening_def by blast
  ultimately show ?thesis using Some assms(3)
    by (auto simp: initiatorOf_def awake_devices(1) [OF assms(1,2)] inj_on_eq_iff split: option.splits)
qed

lemma awake_pairing_lookup:
  assumes "awakening opts hub cs rho" "blank (map rho cs) hub0" "c \<in> set cs"
  shows "jget (pairingsOf (awake hub rho cs hub0) (rho c)) k = map_option rho (jget (pairingsOf hub c) k)"
  unfolding awake_pairings(1) [OF assms] by (simp add: map_of_map)

lemma awake_connect:
  assumes "awakening opts hub cs rho" "blank (map rho cs) hub0" "c \<in> set cs" "\<And>x. x \<in> set cs \<Longrightarrow> alive' (rho x) = alive x"
    "handleRelayConnect alive c target source hub = (hub', effects, rejected)"
  shows "snd (handleRelayConnect alive' (rho c) target source (awake hub rho cs hub0)) = (map (carried rho) effects, rejected)"
proof -
  have "inj_on rho (set cs)" "uplink hub = None" using assms(1) by (auto simp: awakening_def restorable_def)
  moreover have "reg_connection r \<in> set cs" if "jget (devices hub) k = Some r" for k r using that assms(1) by (auto simp: awakening_def hub_inv_def)
  ultimately show ?thesis using assms(3-5)
    by (auto simp: handleRelayConnect_def mustSend_def Let_def awake_devices(1) [OF assms(1,2)] awake_registry(4) [OF assms(1,2)]
        awake_initiator [OF assms(1-3)] inj_on_eq_iff split: option.splits if_splits)
qed

lemma awake_data:
  assumes "awakening opts hub cs rho" "blank (map rho cs) hub0" "c \<in> set cs" "\<And>x. x \<in> set cs \<Longrightarrow> alive' (rho x) = alive x"
    "handleRelayData alive c body to src hub = (hub', effects, rejected)"
  shows "snd (handleRelayData alive' (rho c) body to src (awake hub rho cs hub0)) = (map (carried rho) effects, rejected)"
proof -
  let ?w = "awake hub rho cs hub0"
  define route where "route = (case to of Some d \<Rightarrow> jget (pairingsOf hub c) (deviceKey d) | None \<Rightarrow> jget (mostRecentPairing hub) c)"
  have route': "(case to of Some d \<Rightarrow> jget (pairingsOf ?w (rho c)) (deviceKey d) | None \<Rightarrow> jget (mostRecentPairing ?w) (rho c)) = map_option rho route"
    by (simp add: route_def awake_pairing_lookup [OF assms(1-3)] awake_pairings(2) [OF assms(1-3)] split: option.split)
  show ?thesis
  proof (cases route)
    case None
    then have "effects = []" "\<not> rejected" using assms(5) by (simp_all add: handleRelayData_def route_def)
    then show ?thesis using None by (simp add: handleRelayData_def route')
  next
    case (Some p)
    then have p: "p \<in> set cs" using pairing_held [OF assms(1)] recent_held [OF assms(1)] by (auto simp: route_def split: option.splits)
    have mutual: "jget (pairingsOf ?w (rho p)) k = Some (rho c) \<longleftrightarrow> jget (pairingsOf hub p) k = Some c" for k
      using pairing_held [OF assms(1), of p k] assms(1,3) unfolding awake_pairing_lookup [OF assms(1,2) p]
      by (auto simp: awakening_def inj_on_eq_iff)
    show ?thesis using assms(4) [OF p] assms(5) Some route'
      unfolding handleRelayData_def route_def awake_initiator [OF assms(1-3)]
      by (auto simp: mutual mustSend_def split: option.splits if_splits)
  qed
qed

lemma awake_relay:
  assumes "awakening opts hub cs rho" "blank (map rho cs) hub0" "c \<in> set cs" "\<And>x. x \<in> set cs \<Longrightarrow> alive' (rho x) = alive x"
    "relayFrame f" "handleFrame opts alive c f hub = (hub', effects, rejected)"
  shows "snd (handleFrame opts alive' (rho c) f (awake hub rho cs hub0)) = (map (carried rho) effects, rejected)"
proof (cases f)
  case (RelayConnect t s)
  with assms(6) awake_connect [OF assms(1-3), of alive' alive] assms(4) show ?thesis by (simp add: handleFrame_def)
next
  case (RelayData b t s)
  with assms(6) awake_data [OF assms(1-3), of alive' alive] assms(4) show ?thesis by (simp add: handleFrame_def)
qed (use assms(5) in \<open>simp_all add: relayFrame_def\<close>)

text \<open>A relay frame only speaks of connections the hub holds.\<close>

lemma relay_effects_held:
  assumes "awakening opts hub cs rho" "c \<in> set cs" "relayFrame f" "handleFrame opts alive c f hub = (hub', effects, rejected)"
    "Send p g \<in> set effects"
  shows "p \<in> set cs"
proof -
  have "reg_connection r \<in> set cs" if "jget (devices hub) k = Some r" for k r using that assms(1) by (auto simp: awakening_def hub_inv_def)
  then show ?thesis using assms(2-5) pairing_held [OF assms(1)] recent_held [OF assms(1)]
    by (auto simp: handleFrame_def relayFrame_def handleRelayConnect_def handleRelayData_def mustSend_def Let_def
        split: frame.splits option.splits if_splits)
qed

subsection \<open>Waking\<close>

lemma find_SomeD: "find P xs = Some x \<Longrightarrow> x \<in> set xs \<and> P x"
  by (auto simp: find_Some_iff)

lemma export_schema:
  assumes "restorable hub" "exportConnection c hub = Some st"
  shows "attachmentSchema st"
proof -
  have ok: "devices_ok hub" "pairings_ok hub" using assms(1) by (auto simp: restorable_def)
  have d: "deviceIdBytes (rs_device st)" using export_device(1) [OF assms(2)] ok(1) unfolding devices_ok_def by blast
  have "deviceIdBytes (deviceFromKey k)" if "k \<in> set (jkeys (pairingsOf hub c))" for k
  proof -
    have "pairingKey k" using ok(2) that unfolding pairings_ok_def list_all_iff by blast
    then show ?thesis by (auto simp: pairingKey_def)
  qed
  moreover have "deviceIdBytes (device (reg_advert r))" if "r \<in> set (jvals (devices hub))" for r
    using that ok(1) jvals_iff [of "devices hub" r] unfolding devices_ok_def by blast
  ultimately have k: "\<And>e. e \<in> set (pairingsOf hub c) \<Longrightarrow> deviceIdBytes (deviceFromKey (fst e))"
    and r: "\<And>e. e \<in> set (devices hub) \<Longrightarrow> deviceIdBytes (device (reg_advert (snd e)))" by simp_all
  have "rs_adverts st = map reg_advert (filter (\<lambda>r. reg_connection r = c) (jvals (devices hub)))"
    "rs_pairedDevices st = map deviceFromKey (jkeys (pairingsOf hub c))"
    using assms(2) by (auto simp: exportConnection_def split: option.splits)
  then have "list_all (\<lambda>a. deviceIdBytes (device a)) (rs_adverts st)" "list_all deviceIdBytes (rs_pairedDevices st)"
    using k r by (auto simp: list_all_iff)
  moreover have "deviceIdBytes e" if "rs_mostRecentDevice st = Some e" for e
  proof -
    have "rs_mostRecentDevice st = (case jget (mostRecentPairing hub) c of None \<Rightarrow> None
        | Some q \<Rightarrow> map_option (\<lambda>(key, peer). deviceFromKey key) (find (\<lambda>(key, peer). peer = q) (pairingsOf hub c)))"
      using assms(2) by (auto simp: exportConnection_def split: option.splits)
    with that obtain q x where "find (\<lambda>(key, peer). peer = q) (pairingsOf hub c) = Some x" "e = deviceFromKey (fst x)"
      by (auto split: option.splits)
    then show ?thesis using k find_SomeD by fastforce
  qed
  ultimately show ?thesis using d by (auto simp: attachmentSchema_def split: option.split)
qed

lemma attached_export: "restorable hub \<Longrightarrow> attachedState (attachmentOf (exportConnection c hub)) = exportConnection c hub"
  using export_schema by (auto simp: attachedState_def attachmentOf_def split: option.split)

definition wokenHub :: "kv_store \<Rightarrow> nat \<Rightarrow> relay_hub" where
  "wokenHub store n = (createRelayHub store)\<lparr>connections := [0..<n]\<rparr>"

lemma woken_register: "registerConnection n (wokenHub store n) = wokenHub store (Suc n)"
  by (simp add: registerConnection_def wokenHub_def sadd_def)

text \<open>The loop over the survivors names the connections in the order of their sockets.\<close>

lemma adopt_fold:
  assumes "distinct (jkeys ss)"
  shows "fold adoptOne ss ((createHibernatingRelayHub store)\<lparr>hh_adopted := True\<rparr>, []) =
    (\<lparr>hh_hub = wokenHub store (length ss), hh_connections = zip (jkeys ss) [0..<length ss],
      hh_sockets = zip [0..<length ss] (jkeys ss), hh_made = jkeys ss, hh_adopted = True\<rparr>,
     concat (map (\<lambda>(i, att). case attachedState att of None \<Rightarrow> [] | Some st \<Rightarrow> [(i, st)]) (zip [0..<length ss] (jvals ss))))"
  using assms
proof (induction ss rule: rev_induct)
  case Nil
  then show ?case by (simp add: createHibernatingRelayHub_def wokenHub_def createRelayHub_def)
next
  case (snoc x ss)
  obtain sk att where x: "x = (sk, att)" by fastforce
  let ?n = "length ss"
  have new: "jget (zip (jkeys ss) [0..<?n]) sk = None" "jget (zip [0..<?n] (jkeys ss)) ?n = None"
    using snoc.prems x by (auto simp: map_of_eq_None_iff dest!: set_zip_leftD)
  have z: "zip (jkeys ss @ [sk]) ([0..<?n] @ [?n]) = zip (jkeys ss) [0..<?n] @ [(sk, ?n)]"
    "zip ([0..<?n] @ [?n]) (jkeys ss @ [sk]) = zip [0..<?n] (jkeys ss) @ [(?n, sk)]"
    "zip ([0..<?n] @ [?n]) (jvals ss @ [att]) = zip [0..<?n] (jvals ss) @ [(?n, att)]"
    by (simp_all add: zip_append)
  have "adoptOne (sk, att) (\<lparr>hh_hub = wokenHub store ?n, hh_connections = zip (jkeys ss) [0..<?n],
      hh_sockets = zip [0..<?n] (jkeys ss), hh_made = jkeys ss, hh_adopted = True\<rparr>, es) =
    (\<lparr>hh_hub = wokenHub store (Suc ?n), hh_connections = zip (jkeys ss) [0..<?n] @ [(sk, ?n)],
      hh_sockets = zip [0..<?n] (jkeys ss) @ [(?n, sk)], hh_made = jkeys ss @ [sk], hh_adopted = True\<rparr>,
     es @ (case attachedState att of None \<Rightarrow> [] | Some st \<Rightarrow> [(?n, st)]))" for es
    using new by (simp add: adoptOne_def connectionFor_def Let_def jset_fresh woken_register split: option.split)
  with snoc show ?case by (simp add: x z)
qed

definition wake :: "cloud \<Rightarrow> cloud" where
  "wake w = w\<lparr>cl_instance := Some (adopted w)\<rparr>"

definition settled :: "cloud \<Rightarrow> bool" where
  "settled w \<longleftrightarrow> cl_closing w = [] \<and> routesCurrent (hh_hub (adopted w))"

definition twin :: "hub_options \<Rightarrow> hibernating_hub \<Rightarrow> hibernating_hub \<Rightarrow> conn list \<Rightarrow> (conn \<Rightarrow> conn) \<Rightarrow> relay_hub \<Rightarrow> bool" where
  "twin opts h h' cs rho hub0 \<longleftrightarrow> awakening opts (hh_hub h) cs rho \<and> blank (map rho cs) hub0
     \<and> hh_hub h' = awake (hh_hub h) rho cs hub0 \<and> connections_ok h'
     \<and> (\<forall>sk c. jget (hh_connections h) sk = Some c \<longrightarrow> c \<in> set cs \<and> jget (hh_connections h') sk = Some (rho c))
     \<and> (\<forall>sk. jget (hh_connections h) sk = None \<longrightarrow> jget (hh_connections h') sk = None)
     \<and> (\<forall>c \<in> set cs. rho c < length (hh_made h') \<and> c < length (hh_made h) \<and> hh_made h' ! rho c = hh_made h ! c)"

text \<open>The connections of the old instance in the order of their sockets, and their numbers in the new one.\<close>

definition connOf :: "hibernating_hub \<Rightarrow> socket \<Rightarrow> conn" where
  "connOf h sk = the (jget (hh_connections h) sk)"

definition connsOf :: "cloud \<Rightarrow> hibernating_hub \<Rightarrow> conn list" where
  "connsOf w h = map (connOf h) (jkeys (cl_sockets w))"

definition renumber :: "conn list \<Rightarrow> conn \<Rightarrow> conn" where
  "renumber cs c = the (jget (zip cs [0..<length cs]) c)"

lemma renumber_nth: "distinct cs \<Longrightarrow> i < length cs \<Longrightarrow> renumber cs (cs ! i) = i"
  using map_of_zip_nth [of cs "[0..<length cs]" i] by (simp add: renumber_def)

lemma map_renumber: "distinct cs \<Longrightarrow> map (renumber cs) cs = [0..<length cs]"
  by (rule nth_equalityI) (simp_all add: renumber_nth)

lemma inj_renumber: "distinct cs \<Longrightarrow> inj_on (renumber cs) (set cs)"
  using map_renumber [of cs] distinct_map [of "renumber cs" cs] by simp

lemma length_connsOf [simp]: "length (connsOf w h) = length (cl_sockets w)"
  by (simp add: connsOf_def)

lemma made_socket: "connections_ok h \<Longrightarrow> jget (hh_connections h) sk = Some c \<Longrightarrow> c < length (hh_made h) \<and> hh_made h ! c = sk"
  unfolding connections_ok_def by blast

lemma socket_known:
  assumes "attachments_ok w h" "cl_closing w = []"
  shows "jget (hh_connections h) sk = Some c \<longleftrightarrow> sk \<in> set (jkeys (cl_sockets w)) \<and> c = connOf h sk"
proof -
  have "jget (cl_sockets w) sk \<noteq> None \<longleftrightarrow> jget (hh_connections h) sk \<noteq> None"
    using assms unfolding attachments_ok_def by (metis empty_iff empty_set)
  moreover have "jget (cl_sockets w) sk \<noteq> None \<longleftrightarrow> sk \<in> set (jkeys (cl_sockets w))" by (simp add: map_of_eq_None_iff del: not_None_eq)
  ultimately show ?thesis by (cases "jget (hh_connections h) sk") (auto simp: connOf_def simp del: set_map)
qed

lemma connsOf_ok:
  assumes "connections_ok h" "attachments_ok w h" "cl_closing w = []"
  shows "distinct (connsOf w h)" "set (connsOf w h) = set (connections (hh_hub h))"
proof -
  note known = socket_known [OF assms(2,3)]
  have "distinct (jkeys (cl_sockets w))" using assms(2) by (simp add: attachments_ok_def jwf_def)
  moreover have "inj_on (connOf h) (set (jkeys (cl_sockets w)))"
  proof (rule inj_onI)
    fix a b assume "a \<in> set (jkeys (cl_sockets w))" "b \<in> set (jkeys (cl_sockets w))" "connOf h a = connOf h b"
    then show "a = b" using known [of a "connOf h a"] known [of b "connOf h b"] made_socket [OF assms(1)] by metis
  qed
  ultimately show "distinct (connsOf w h)" unfolding connsOf_def distinct_map by blast
  have wf: "jwf (hh_connections h)" "set (connections (hh_hub h)) = set (jvals (hh_connections h))"
    using assms(1) unfolding connections_ok_def by blast+
  have "c \<in> set (connsOf w h) \<longleftrightarrow> (\<exists>sk. jget (hh_connections h) sk = Some c)" for c
    unfolding known connsOf_def set_map by blast
  then show "set (connsOf w h) = set (connections (hh_hub h))" unfolding wf(2) set_eq_iff jvals_iff [OF wf(1)] by blast
qed

lemma survivor_entries:
  assumes "restorable (hh_hub h)" "connections_ok h" "attachments_ok w h" "cl_closing w = []"
  shows "concat (map (\<lambda>(i, att). case attachedState att of None \<Rightarrow> [] | Some st \<Rightarrow> [(i, st)])
      (zip [0..<length (cl_sockets w)] (jvals (cl_sockets w)))) = exportsOf (hh_hub h) (renumber (connsOf w h)) (connsOf w h)"
proof -
  let ?ss = "cl_sockets w" and ?cs = "connsOf w h"
  have keys: "distinct (jkeys ?ss)" using assms(3) by (simp add: attachments_ok_def jwf_def)
  note dist = connsOf_ok(1) [OF assms(2-4)]
  have entry: "zip [0..<length ?ss] (jvals ?ss) = map (\<lambda>c. (renumber ?cs c, attachmentOf (exportConnection c (hh_hub h)))) ?cs"
  proof (rule nth_equalityI)
    fix i assume "i < length (zip [0..<length ?ss] (jvals ?ss))"
    then have i: "i < length ?ss" by simp
    have "jget ?ss (fst (?ss ! i)) = Some (snd (?ss ! i))" using keys i by simp
    moreover have "jget (hh_connections h) (fst (?ss ! i)) = Some (connOf h (fst (?ss ! i)))"
      using i unfolding socket_known [OF assms(3,4)] by simp
    ultimately have "snd (?ss ! i) = attachmentOf (exportConnection (connOf h (fst (?ss ! i))) (hh_hub h))"
      using assms(3,4) by (simp add: attachments_ok_def)
    then show "zip [0..<length ?ss] (jvals ?ss) ! i = map (\<lambda>c. (renumber ?cs c, attachmentOf (exportConnection c (hh_hub h)))) ?cs ! i"
      using i renumber_nth [OF dist, of i] by (simp add: connsOf_def)
  qed simp
  show ?thesis
    unfolding entry exportsOf_def map_map by (rule arg_cong [where f = concat]) (simp add: attached_export [OF assms(1)] comp_def)
qed

lemma numbered_lookup:
  "distinct xs \<Longrightarrow> jget (zip xs [0..<length xs]) x = Some i \<longleftrightarrow> i < length xs \<and> xs ! i = x"
  "jget (zip [0..<length xs] xs) i = Some x \<longleftrightarrow> i < length xs \<and> xs ! i = x"
  by (auto simp: in_set_zip intro: exI [of _ i])

lemma adopted_evicted:
  assumes "restorable (hh_hub h)" "connections_ok h" "attachments_ok w h" "cl_closing w = []" "cl_instance w = Some h"
  shows "adopted (evict w) =
    \<lparr>hh_hub = awake (hh_hub h) (renumber (connsOf w h)) (connsOf w h) (wokenHub (mailboxStore (hh_hub h)) (length (cl_sockets w))),
     hh_connections = zip (jkeys (cl_sockets w)) [0..<length (cl_sockets w)],
     hh_sockets = zip [0..<length (cl_sockets w)] (jkeys (cl_sockets w)), hh_made = jkeys (cl_sockets w), hh_adopted = True\<rparr>"
proof -
  have keys: "distinct (jkeys (cl_sockets w))" using assms(3) by (simp add: attachments_ok_def jwf_def)
  show ?thesis
    using adopt_fold [OF keys, of "mailboxStore (hh_hub h)"] survivor_entries [OF assms(1-4)] assms(5)
    by (simp add: adopted_def adopt_def evict_def instanceOf_def createHibernatingRelayHub_def awake_def)
qed

lemma wake_twin:
  assumes "cloud_inv opts w" "cl_instance w = Some h" "settled w"
  shows "twin opts h (adopted (evict w)) (connsOf w h) (renumber (connsOf w h)) (wokenHub (mailboxStore (hh_hub h)) (length (cl_sockets w)))"
proof -
  have ok: "hub_inv opts (hh_hub h)" "restorable (hh_hub h)" "connections_ok h" "attachments_ok w h"
    using assms(1,2) by (auto simp: cloud_inv_def)
  have quiet: "cl_closing w = []" "routesCurrent (hh_hub h)" using assms(3) adopted_same [OF assms(2) ok(3)] by (simp_all add: settled_def)
  let ?cs = "connsOf w h" and ?n = "length (cl_sockets w)" and ?keys = "jkeys (cl_sockets w)"
  note cs = connsOf_ok [OF ok(3,4) quiet(1)]
  note known = socket_known [OF ok(4) quiet(1)]
  note new = adopted_evicted [OF ok(2-4) quiet(1) assms(2)]
  have keys: "distinct ?keys" using ok(4) by (simp add: attachments_ok_def jwf_def)
  have aw: "awakening opts (hh_hub h) ?cs (renumber ?cs)" using ok(1,2) quiet(2) cs inj_renumber [OF cs(1)] by (simp add: awakening_def)
  have bl: "blank (map (renumber ?cs) ?cs) (wokenHub (mailboxStore (hh_hub h)) ?n)"
    unfolding map_renumber [OF cs(1)] by (simp add: blank_def wokenHub_def createRelayHub_def)
  have place: "renumber ?cs (connOf h sk) < ?n \<and> ?keys ! renumber ?cs (connOf h sk) = sk \<and> jget (zip ?keys [0..<?n]) sk = Some (renumber ?cs (connOf h sk))"
    if "sk \<in> set ?keys" for sk
  proof -
    from that obtain i where "i < length ?keys" and sk: "?keys ! i = sk" unfolding in_set_conv_nth by blast
    then have i: "i < ?n" "?keys ! i = sk" by simp_all
    have "renumber ?cs (connOf h sk) = i" using renumber_nth [OF cs(1), of i] i by (simp add: connsOf_def)
    then show ?thesis using i map_of_zip_nth [of ?keys "[0..<?n]" i] keys by simp
  qed
  have cok: "connections_ok (adopted (evict w))"
    unfolding connections_ok_def
  proof (intro conjI allI impI)
    show "jget (hh_connections (adopted (evict w))) sk = Some c \<longleftrightarrow> jget (hh_sockets (adopted (evict w))) c = Some sk" for sk c
      using numbered_lookup(1) [OF keys, of sk c] numbered_lookup(2) [of ?keys c sk] by (simp add: new)
    show "set (connections (hh_hub (adopted (evict w)))) = set (jvals (hh_connections (adopted (evict w))))"
      using awake_registry(3) [OF aw bl] map_renumber [OF cs(1)] by (simp add: new)
    show "jwf (hh_connections (adopted (evict w)))" using keys by (simp add: new jwf_def)
    fix sk c assume "jget (hh_connections (adopted (evict w))) sk = Some c"
    then show "c < length (hh_made (adopted (evict w)))" "hh_made (adopted (evict w)) ! c = sk"
      using numbered_lookup(1) [OF keys, of sk c] by (simp_all add: new)
  qed (simp add: new)
  show ?thesis
    unfolding twin_def
  proof (intro conjI allI impI ballI)
    fix sk c assume "jget (hh_connections h) sk = Some c"
    then have sk: "sk \<in> set ?keys" "c = connOf h sk" unfolding known by blast+
    then show "c \<in> set ?cs" unfolding connsOf_def set_map by blast
    show "jget (hh_connections (adopted (evict w))) sk = Some (renumber ?cs c)" using sk(2) place [OF sk(1)] by (simp add: new)
  next
    fix sk assume "jget (hh_connections h) sk = None"
    then have "sk \<notin> set ?keys" using known [of sk "connOf h sk"] by auto
    then show "jget (hh_connections (adopted (evict w))) sk = None" by (auto simp: new map_of_eq_None_iff dest: set_zip_leftD)
  next
    fix c assume "c \<in> set ?cs"
    then obtain sk where sk: "sk \<in> set ?keys" "c = connOf h sk" unfolding connsOf_def set_map by blast
    then have "jget (hh_connections h) sk = Some c" unfolding known by blast
    from made_socket [OF ok(3) this] place [OF sk(1)] sk(2)
    show "renumber ?cs c < length (hh_made (adopted (evict w)))" "c < length (hh_made h)"
      "hh_made (adopted (evict w)) ! renumber ?cs c = hh_made h ! c" by (simp_all add: new)
  qed (use aw bl cok in \<open>simp_all add: new\<close>)
qed

lemma wake_inv:
  assumes "cloud_inv opts w" "settled w"
  shows "cloud_inv opts (wake (evict w))"
proof -
  obtain h where h: "cl_instance w = Some h" "connections_ok h" "attachments_ok w h" using assms(1) by (auto simp: cloud_inv_def)
  obtain cs rho hub0 where t: "twin opts h (adopted (evict w)) cs rho hub0" using wake_twin [OF assms(1) h(1) assms(2)] by blast
  have aw: "awakening opts (hh_hub h) cs rho" "blank (map rho cs) hub0" "hh_hub (adopted (evict w)) = awake (hh_hub h) rho cs hub0"
    and same: "jget (hh_connections h) sk = Some c \<Longrightarrow> c \<in> set cs \<and> jget (hh_connections (adopted (evict w))) sk = Some (rho c)"
    "jget (hh_connections h) sk = None \<Longrightarrow> jget (hh_connections (adopted (evict w))) sk = None" for sk c
    using t by (simp_all add: twin_def)
  have "attachments_ok (wake (evict w)) (adopted (evict w))"
    unfolding attachments_ok_def
  proof (intro conjI allI impI)
    fix sk
    show "jwf (cl_sockets (wake (evict w)))" using h(3) by (simp add: attachments_ok_def wake_def evict_def)
    show "jget (cl_sockets (wake (evict w))) sk \<noteq> None" if "jget (hh_connections (adopted (evict w))) sk \<noteq> None"
      using that h(3) same(2) [of sk] by (cases "jget (hh_connections h) sk") (auto simp: attachments_ok_def wake_def evict_def)
    show "jget (hh_connections (adopted (evict w))) sk \<noteq> None"
      if "jget (cl_sockets (wake (evict w))) sk \<noteq> None" "sk \<notin> set (cl_closing (wake (evict w)))"
      using that h(3) same(1) [of sk] by (auto simp: attachments_ok_def wake_def evict_def)
    fix c assume c: "jget (hh_connections (adopted (evict w))) sk = Some c" "sk \<notin> set (cl_closing (wake (evict w)))"
    then obtain d where d: "jget (hh_connections h) sk = Some d" using same(2) [of sk] by (cases "jget (hh_connections h) sk") auto
    then have "c = rho d" "d \<in> set cs" using same(1) [OF d] c(1) by auto
    then have "exportConnection c (hh_hub (adopted (evict w))) = exportConnection d (hh_hub h)"
      using awake_exports [OF aw(1,2)] aw(3) by simp
    then show "jget (cl_sockets (wake (evict w))) sk = Some (attachmentOf (exportConnection c (hh_hub (adopted (evict w)))))"
      using h(3) d c(2) by (simp add: attachments_ok_def wake_def evict_def)
  qed
  moreover have "hub_inv opts (hh_hub (adopted (evict w)))" "restorable (hh_hub (adopted (evict w)))" "connections_ok (adopted (evict w))"
    using t awake_inv [OF aw(1,2)] awake_restorable [OF aw(1,2)] by (simp_all add: twin_def)
  ultimately show ?thesis by (simp add: cloud_inv_def wake_def)
qed

subsection \<open>Runs of the cloud\<close>

text \<open>
  The runtime's events: sockets open, deliver messages and close, each handled to its end before the next, and
  an instance is evicted in a settled state and woken by the next message. A socket the hub has closed may still
  deliver messages until its peer is gone.
\<close>

inductive cloud_reach :: "(frame, 'j) frame_codec \<Rightarrow> hub_options \<Rightarrow> kv_store \<Rightarrow> cloud \<Rightarrow> bool" for codec opts store where
  started: "cloud_reach codec opts store (wake (startCloud store))"
| opened: "cloud_reach codec opts store w \<Longrightarrow> jget (cl_sockets w) sk = None \<Longrightarrow> sk \<notin> set (cl_closing w) \<Longrightarrow>
    cloud_reach codec opts store (acceptSocket sk w)"
| spoke: "cloud_reach codec opts store w \<Longrightarrow> jget (cl_sockets w) sk \<noteq> None \<Longrightarrow>
    cloud_reach codec opts store (snd (webSocketMessage codec opts sk msg w))"
| closed: "cloud_reach codec opts store w \<Longrightarrow> cloud_reach codec opts store (snd (webSocketClose codec sk w))"
| slept: "cloud_reach codec opts store w \<Longrightarrow> settled w \<Longrightarrow> cloud_reach codec opts store (wake (evict w))"

lemma started_inv: "cloud_inv opts (wake (startCloud store))"
proof -
  have "adopted (startCloud store) = (createHibernatingRelayHub store)\<lparr>hh_adopted := True\<rparr>"
    by (simp add: adopted_def startCloud_def instanceOf_def adopt_def createHibernatingRelayHub_def restoreConnections_def Let_def)
  then show ?thesis
    by (simp add: cloud_inv_def wake_def connections_ok_def attachments_ok_def hub_inv_create restorable_create
        createHibernatingRelayHub_def startCloud_def) (simp add: createRelayHub_def)
qed

lemma cloud_reach_inv: "cloud_reach codec opts store w \<Longrightarrow> schemaChecksDevices codec \<Longrightarrow> cloud_inv opts w"
  by (induction rule: cloud_reach.induct) (simp_all add: started_inv accept_inv message_inv close_inv wake_inv)

text \<open>C10: Evicting the instance in a settled state changes nothing a client could see of a relay frame: the
  message that wakes a new instance, which has only the attachments the old one wrote, is answered by the
  same frames on the same sockets as the instance that went would have sent. A state is settled when no socket
  is being closed, every pairing is with the connection its device is registered at now, and no other
  connection is attributed that device (a connection that a fresher advert supplanted can still be, and may
  then take the route when the hub is restored). This holds in the settled states of every run in which
  sockets open, speak and close in any order, each message is handled to its end before the next, and the
  instance was evicted only in settled states before.
\<close>
theorem eviction_keeps_routes:
  assumes "cloud_reach codec opts store w" "schemaChecksDevices codec" "settled w"
    and "jget (cl_sockets w) sk \<noteq> None" "decodeMessage codec body = DecodedFrame f" "relayFrame f"
  shows "fst (webSocketMessage codec opts sk (BinaryMessage body) (evict w)) = fst (webSocketMessage codec opts sk (BinaryMessage body) w)"
proof -
  have inv: "cloud_inv opts w" by (rule cloud_reach_inv [OF assms(1,2)])
  then obtain h where h: "cl_instance w = Some h" "connections_ok h" "attachments_ok w h" by (auto simp: cloud_inv_def)
  have ad: "adopted w = h" by (rule adopted_same [OF h(1,2)])
  let ?h = "adopted (evict w)"
  obtain cs rho hub0 where t: "twin opts h ?h cs rho hub0" using wake_twin [OF inv h(1) assms(3)] by blast
  have quiet: "cl_closing w = []" using assms(3) by (simp add: settled_def)
  then obtain c where c: "jget (hh_connections h) sk = Some c" using h(3) assms(4) unfolding attachments_ok_def by (metis empty_iff empty_set not_None_eq)
  with t have c': "c \<in> set cs" "jget (hh_connections ?h) sk = Some (rho c)" by (auto simp: twin_def)
  have made: "x \<in> set cs \<Longrightarrow> rho x < length (hh_made ?h) \<and> x < length (hh_made h) \<and> hh_made ?h ! rho x = hh_made h ! x" for x
    using t by (simp add: twin_def)
  have alive: "connectionAlive (evict w) ?h (rho x) = connectionAlive w h x" if "x \<in> set cs" for x
    using made [OF that] by (simp add: connectionAlive_def socketOpen_def evict_def)
  obtain hub' effects rejected where f: "handleFrame opts (connectionAlive w h) c f (hh_hub h) = (hub', effects, rejected)"
    by (metis prod_cases3)
  obtain hub'' where f': "handleFrame opts (connectionAlive (evict w) ?h) (rho c) f (hh_hub ?h) = (hub'', map (carried rho) effects, rejected)"
  proof -
    have "snd (handleFrame opts (connectionAlive (evict w) ?h) (rho c) f (awake (hh_hub h) rho cs hub0)) = (map (carried rho) effects, rejected)"
      by (rule awake_relay [where alive = "connectionAlive w h"]) (use t c'(1) alive assms(6) f in \<open>simp_all add: twin_def\<close>)
    then show ?thesis using that t by (metis prod.collapse twin_def)
  qed
  have send: "socketEffect codec (?h\<lparr>hh_hub := hub''\<rparr>) (carried rho e) = socketEffect codec (h\<lparr>hh_hub := hub'\<rparr>) e" if "e \<in> set effects" for e
  proof (cases e)
    case (Send p g)
    have "awakening opts (hh_hub h) cs rho" using t unfolding twin_def by blast
    from relay_effects_held [OF this c'(1) assms(6) f] Send that have "p \<in> set cs" by blast
    then show ?thesis using Send made [of p] by (simp add: socketEffect_def)
  qed (simp_all add: socketEffect_def)
  have "fst (webSocketMessage codec opts sk (BinaryMessage body) (evict w)) = concat (map (socketEffect codec (?h\<lparr>hh_hub := hub''\<rparr>)) (map (carried rho) effects))"
    using assms(5) c'(2) f' by (simp add: webSocketMessage_def connectionFor_def settle_def)
  also have "\<dots> = concat (map (socketEffect codec (h\<lparr>hh_hub := hub'\<rparr>)) effects)"
    using send by (simp add: comp_def cong: map_cong)
  also have "\<dots> = fst (webSocketMessage codec opts sk (BinaryMessage body) w)"
    using assms(5) c f by (simp add: webSocketMessage_def connectionFor_def settle_def ad)
  finally show ?thesis .
qed

text \<open>Concrete runs: sockets 7, 8 and 9, and messages that pick a frame from a list.\<close>

definition sampleDevice :: "byte \<Rightarrow> device_id" where
  "sampleDevice n = n # replicate 31 0"

definition sampleVerifier :: advert_verifier where
  "sampleVerifier = \<lparr>av_verify = (\<lambda>k m s. Some True), av_deriveDeviceId = (\<lambda>k. Some (k @ replicate 31 0)), av_encode = (\<lambda>c. Some [])\<rparr>"

definition sampleAdvert :: "byte \<Rightarrow> int \<Rightarrow> peer_advert" where
  "sampleAdvert n t = \<lparr>device = sampleDevice n, addresses = [], snapshotSeconds = t,
     advIdentityKey = \<lparr>alg = -7, public_key = [n]\<rparr>, extensions = [(''presence/status'', JString ''idle'')], advSignature = []\<rparr>"

definition sampleOptions :: hub_options where
  "sampleOptions = hubOptions sampleVerifier None"

definition sampleFrame :: "bytes \<Rightarrow> frame option" where
  "sampleFrame body = map_of
     [([1], Gossip [sampleAdvert 1 5]), ([2], Gossip [sampleAdvert 2 5]), ([3], Gossip [sampleAdvert 3 5]),
      ([4], RelayConnect (sampleDevice 2) None), ([5], RelayData [42] (Some (sampleDevice 2)) None),
      ([6], RelayConnect (sampleDevice 3) None), ([7], RelayData [43] (Some (sampleDevice 3)) None),
      ([8], Gossip [sampleAdvert 3 6])] body"

definition sampleCodec :: "(frame, frame) frame_codec" where
  "sampleCodec = \<lparr>fc_encode = (\<lambda>f. case f of RelayData b t s \<Rightarrow> b | _ \<Rightarrow> []), fc_decode = sampleFrame,
     fc_schema = (\<lambda>f. if frameBytes f then Some f else None)\<rparr>"

definition sampleSays :: "socket \<times> byte \<Rightarrow> cloud \<Rightarrow> cloud" where
  "sampleSays e w = (case e of (sk, n) \<Rightarrow> snd (webSocketMessage sampleCodec sampleOptions sk (BinaryMessage [n]) w))"

definition sampleCloud :: "(socket \<times> byte) list \<Rightarrow> cloud" where
  "sampleCloud says = fold sampleSays says (acceptSocket 8 (acceptSocket 7 (wake (startCloud []))))"

lemma message_keeps_sockets: "jget (cl_sockets (snd (webSocketMessage codec opts sk msg w))) s = None \<longleftrightarrow> jget (cl_sockets w) s = None"
  by (auto simp: webSocketMessage_def protocolError_def forgetSocket_def settle_def persistEffects_keys
      split: runtime_message.split body_result.split option.split prod.split)

lemma accept_sockets: "cl_sockets (acceptSocket sk w) = jset (cl_sockets w) sk NullAttachment" "cl_closing (acceptSocket sk w) = cl_closing w"
  by (simp_all add: acceptSocket_def Let_def)

lemma sampleCloud_reach:
  "list_all (\<lambda>(sk, n). sk = 7 \<or> sk = 8) says \<Longrightarrow> cloud_reach sampleCodec sampleOptions [] (sampleCloud says)"
proof -
  let ?start = "acceptSocket 8 (acceptSocket 7 (wake (startCloud [])))"
  have start: "cloud_reach sampleCodec sampleOptions [] ?start"
    by (intro cloud_reach.opened cloud_reach.started) (simp_all add: accept_sockets wake_def startCloud_def)
  have "cloud_reach sampleCodec sampleOptions [] (fold sampleSays says w)"
    if "cloud_reach sampleCodec sampleOptions [] w" "jget (cl_sockets w) 7 \<noteq> None" "jget (cl_sockets w) 8 \<noteq> None"
      "list_all (\<lambda>(sk, n). sk = 7 \<or> sk = 8) says" for w
    using that
  proof (induction says arbitrary: w)
    case (Cons e says)
    obtain sk n where e: "e = (sk, n)" by fastforce
    have "cloud_reach sampleCodec sampleOptions [] (sampleSays e w)"
      using Cons.prems e by (auto simp: sampleSays_def intro: cloud_reach.spoke)
    moreover have "jget (cl_sockets (sampleSays e w)) s = None \<longleftrightarrow> jget (cl_sockets w) s = None" for s
      by (simp add: e sampleSays_def message_keeps_sockets)
    ultimately show ?case using Cons by (simp del: not_None_eq)
  qed simp
  with start show "list_all (\<lambda>(sk, n). sk = 7 \<or> sk = 8) says \<Longrightarrow> cloud_reach sampleCodec sampleOptions [] (sampleCloud says)"
    by (simp add: sampleCloud_def accept_sockets)
qed

theorem eviction_keeps_routes_witness:
  "fst (webSocketMessage sampleCodec sampleOptions 7 (BinaryMessage [5]) (evict (sampleCloud [(7, 1), (8, 2), (7, 4)]))) = [SocketSends 8 [42]]"
proof -
  let ?w = "sampleCloud [(7, 1), (8, 2), (7, 4)]"
  have "fst (webSocketMessage sampleCodec sampleOptions 7 (BinaryMessage [5]) (evict ?w)) =
      fst (webSocketMessage sampleCodec sampleOptions 7 (BinaryMessage [5]) ?w)"
  proof (rule eviction_keeps_routes [where f = "RelayData [42] (Some (sampleDevice 2)) None"])
    show "cloud_reach sampleCodec sampleOptions [] ?w" by (rule sampleCloud_reach) simp
    show "schemaChecksDevices sampleCodec" by (simp add: schemaChecksDevices_def sampleCodec_def)
    show "settled ?w" by code_simp
    show "jget (cl_sockets ?w) 7 \<noteq> None" by (simp add: sampleCloud_def sampleSays_def message_keeps_sockets accept_sockets del: not_None_eq)
    show "decodeMessage sampleCodec [5] = DecodedFrame (RelayData [42] (Some (sampleDevice 2)) None)"
      by (simp add: decodeMessage_def sampleCodec_def sampleFrame_def frameBytes_def)
  qed (simp add: relayFrame_def)
  also have "\<dots> = [SocketSends 8 [42]]" by code_simp
  finally show ?thesis .
qed

text \<open>
  Where a paired device has moved the promise fails. Socket 8 fronts the devices 2 and 3, socket 7 pairs with
  device 3 and then, by a fresher advert, takes it over. What 7 sends to device 3 still goes to 8; after an
  eviction the pairing is restored to the connection that now advertises the device, which is 7 itself.
\<close>

lemma eviction_turns_pairing:
  "map (\<lambda>w. fst (webSocketMessage sampleCodec sampleOptions 7 (BinaryMessage [7]) w))
     [sampleCloud [(7, 1), (8, 2), (8, 3), (7, 6), (7, 8)], evict (sampleCloud [(7, 1), (8, 2), (8, 3), (7, 6), (7, 8)])]
   = [[SocketSends 8 [43]], [SocketSends 7 [43]]]"
  by code_simp

end
