(* ===== verification/CertificateSchedules.thy ===== *)
theory CertificateSchedules
  imports DataSync TokenPredicates
begin

text \<open>
  The certificates a node serves in turn: \<open>ts/packages/node/src/adapters/certificate-schedule.ts\<close> with the
  limits of \<open>certificate-limits.ts\<close> and the times of \<open>pinned-certificate.ts\<close>. Times are milliseconds; the
  time of an invalid \<open>Date\<close> is \<open>None\<close>, which every comparison finds false. The key pairs, the X.509
  encoder, the JSON text and the printed dates are parameters.
\<close>

subsection \<open>Limits\<close>

definition MILLISECONDS_PER_DAY :: int where "MILLISECONDS_PER_DAY = 24 * 60 * 60 * 1000"
definition MAX_PINNED_CERTIFICATE_LIFETIME_MS :: int where "MAX_PINNED_CERTIFICATE_LIFETIME_MS = 14 * MILLISECONDS_PER_DAY"
definition PINNED_CERTIFICATE_LIFETIME_MS :: int where
  "PINNED_CERTIFICATE_LIFETIME_MS = MAX_PINNED_CERTIFICATE_LIFETIME_MS - 1 * MILLISECONDS_PER_DAY"
definition ADVERTISED_CERTIFICATES :: nat where "ADVERTISED_CERTIFICATES = 3"
definition STORAGE_KEY :: string where "STORAGE_KEY = ''webtransport-certificates''"

subsection \<open>Certificates and their stored form\<close>

type_synonym cert_keys = "string \<times> string \<times> string"

text \<open>A \<open>Date\<close> further than \<open>8.64e15\<close> milliseconds from the epoch is invalid.\<close>

definition MAX_TIME :: int where "MAX_TIME = 8640000000000000"

definition jsDate :: "int \<Rightarrow> int option" where
  "jsDate t = (if \<bar>t\<bar> \<le> MAX_TIME then Some t else None)"

record pinned_certificate =
  pc_certificatePem :: string
  pc_privateKeyPem :: string
  pc_sha256Hex :: string
  pc_notBefore :: "int option"
  pc_notAfter :: "int option"

definition mintPinnedCertificate :: "cert_keys \<Rightarrow> int option \<Rightarrow> int \<Rightarrow> pinned_certificate" where
  "mintPinnedCertificate keys notBefore lifetimeMs =
     (case keys of (pem, privatePem, hash) \<Rightarrow>
        \<lparr>pc_certificatePem = pem, pc_privateKeyPem = privatePem, pc_sha256Hex = hash,
         pc_notBefore = notBefore, pc_notAfter = Option.bind notBefore (\<lambda>t. jsDate (t + lifetimeMs))\<rparr>)"

record cert_text =
  ct_parse :: "bytes \<Rightarrow> json_value option"
  ct_print :: "json_value \<Rightarrow> bytes"
  ct_parseDate :: "string \<Rightarrow> int option"
  ct_printDate :: "int \<Rightarrow> string"

definition storedField :: "json_value \<Rightarrow> string \<Rightarrow> string option" where
  "storedField val key =
     (case val of
        JObject props \<Rightarrow> (case map_of props key of Some (JString s) \<Rightarrow> Some s | _ \<Rightarrow> None)
      | _ \<Rightarrow> None)"

definition isStoredCertificate :: "json_value \<Rightarrow> bool" where
  "isStoredCertificate val \<longleftrightarrow> storedField val ''certificatePem'' \<noteq> None \<and> storedField val ''privateKeyPem'' \<noteq> None
     \<and> storedField val ''sha256Hex'' \<noteq> None \<and> storedField val ''notBefore'' \<noteq> None \<and> storedField val ''notAfter'' \<noteq> None"

definition fromStored :: "cert_text \<Rightarrow> json_value \<Rightarrow> pinned_certificate" where
  "fromStored txt val =
     \<lparr>pc_certificatePem = the (storedField val ''certificatePem''), pc_privateKeyPem = the (storedField val ''privateKeyPem''),
      pc_sha256Hex = the (storedField val ''sha256Hex''),
      pc_notBefore = ct_parseDate txt (the (storedField val ''notBefore'')),
      pc_notAfter = ct_parseDate txt (the (storedField val ''notAfter''))\<rparr>"

datatype schedule_error = NotJson | UnexpectedShape | InvalidTime | EmptySchedule

text \<open>\<open>toISOString\<close> throws for an invalid date.\<close>

definition toStored :: "cert_text \<Rightarrow> pinned_certificate \<Rightarrow> schedule_error + json_value" where
  "toStored txt cert =
     (case (pc_notBefore cert, pc_notAfter cert) of
        (Some start, Some finish) \<Rightarrow>
          Ok (JObject [(''certificatePem'', JString (pc_certificatePem cert)), (''privateKeyPem'', JString (pc_privateKeyPem cert)),
                       (''sha256Hex'', JString (pc_sha256Hex cert)), (''notBefore'', JString (ct_printDate txt start)),
                       (''notAfter'', JString (ct_printDate txt finish))])
      | _ \<Rightarrow> Err InvalidTime)"

definition readStored :: "cert_text \<Rightarrow> kv_store \<Rightarrow> schedule_error + pinned_certificate list" where
  "readStored txt store =
     (case jget store STORAGE_KEY of
        None \<Rightarrow> Ok []
      | Some b \<Rightarrow>
          (case ct_parse txt b of
             None \<Rightarrow> Err NotJson
           | Some (JArray vals) \<Rightarrow> if list_all isStoredCertificate vals then Ok (map (fromStored txt) vals) else Err UnexpectedShape
           | Some _ \<Rightarrow> Err UnexpectedShape))"

fun storedAll :: "cert_text \<Rightarrow> pinned_certificate list \<Rightarrow> schedule_error + json_value list" where
  "storedAll txt [] = Ok []"
| "storedAll txt (cert # certs) =
     (case toStored txt cert of
        Inl e \<Rightarrow> Err e
      | Inr v \<Rightarrow> (case storedAll txt certs of Inl e \<Rightarrow> Err e | Inr vs \<Rightarrow> Ok (v # vs)))"

definition writeStored :: "cert_text \<Rightarrow> pinned_certificate list \<Rightarrow> kv_store \<Rightarrow> schedule_error + kv_store" where
  "writeStored txt certs store =
     (case storedAll txt certs of Inl e \<Rightarrow> Err e | Inr vs \<Rightarrow> Ok (jset store STORAGE_KEY (ct_print txt (JArray vs))))"

subsection \<open>The schedule\<close>

record certificate_schedule =
  cs_serving :: pinned_certificate
  cs_advertised :: "pinned_certificate list"
  cs_rotatesAt :: "int option"

definition later :: "int option \<Rightarrow> int \<Rightarrow> bool" where
  "later t now = (case t of None \<Rightarrow> False | Some x \<Rightarrow> x > now)"

definition begun :: "int option \<Rightarrow> int \<Rightarrow> bool" where
  "begun t now = (case t of None \<Rightarrow> False | Some x \<Rightarrow> x \<le> now)"

text \<open>\<open>findLastIndex\<close> followed by \<open>slice\<close>: the list from its last element with the property, or nothing.\<close>

definition sliceFromLast :: "('a \<Rightarrow> bool) \<Rightarrow> 'a list \<Rightarrow> 'a list" where
  "sliceFromLast P xs =
     (let after = takeWhile (\<lambda>x. \<not> P x) (rev xs)
      in if length after = length xs then [] else drop (length xs - length after - 1) xs)"

text \<open>The start of the \<open>index\<close>-th successor: half a lifetime is served, and \<open>Date\<close> cuts fractions towards zero.\<close>

definition successorStart :: "int \<Rightarrow> int \<Rightarrow> nat \<Rightarrow> int option" where
  "successorStart start lifetimeMs index =
     (let halves = 2 * start + lifetimeMs * (int index + 1)
      in jsDate (if halves \<ge> 0 then halves div 2 else - ((- halves) div 2)))"

definition mintSuccessors :: "(nat \<Rightarrow> cert_keys) \<Rightarrow> int \<Rightarrow> int \<Rightarrow> nat \<Rightarrow> pinned_certificate list" where
  "mintSuccessors keys start lifetimeMs missing =
     map (\<lambda>i. mintPinnedCertificate (keys (Suc i)) (successorStart start lifetimeMs i) lifetimeMs) [0..<missing]"

definition currentCertificates ::
    "(nat \<Rightarrow> cert_keys) \<Rightarrow> pinned_certificate list \<Rightarrow> int \<Rightarrow> int \<Rightarrow> pinned_certificate list" where
  "currentCertificates keys stored now lifetimeMs =
     (let stillValid = filter (\<lambda>c. later (pc_notAfter c) now) stored
      in case sliceFromLast (\<lambda>c. begun (pc_notBefore c) now) stillValid of
           [] \<Rightarrow> [mintPinnedCertificate (keys 0) (Some now) lifetimeMs]
         | certs \<Rightarrow> certs)"

definition completeSchedule ::
    "(nat \<Rightarrow> cert_keys) \<Rightarrow> int \<Rightarrow> pinned_certificate list \<Rightarrow> schedule_error + pinned_certificate list" where
  "completeSchedule keys lifetimeMs certs =
     (if length certs \<ge> ADVERTISED_CERTIFICATES + 1 then Ok certs
      else if certs = [] then Err EmptySchedule
      else case pc_notBefore (last certs) of
             None \<Rightarrow> Err InvalidTime
           | Some start \<Rightarrow> Ok (certs @ mintSuccessors keys start lifetimeMs (ADVERTISED_CERTIFICATES + 1 - length certs)))"

definition advanceCertificateSchedule ::
    "cert_text \<Rightarrow> (nat \<Rightarrow> cert_keys) \<Rightarrow> kv_store \<Rightarrow> int \<Rightarrow> int option \<Rightarrow> schedule_error + certificate_schedule \<times> kv_store" where
  "advanceCertificateSchedule txt keys store now lifetime =
     (let lifetimeMs = (case lifetime of Some ms \<Rightarrow> ms | None \<Rightarrow> PINNED_CERTIFICATE_LIFETIME_MS)
      in case readStored txt store of
           Inl e \<Rightarrow> Err e
         | Inr stored \<Rightarrow>
             (case completeSchedule keys lifetimeMs (currentCertificates keys stored now lifetimeMs) of
                Inl e \<Rightarrow> Err e
              | Inr certs \<Rightarrow>
                  (case writeStored txt certs store of
                     Inl e \<Rightarrow> Err e
                   | Inr store' \<Rightarrow>
                       (case certs of
                          serving # successor # _ \<Rightarrow>
                            Ok (\<lparr>cs_serving = serving, cs_advertised = take ADVERTISED_CERTIFICATES certs,
                                 cs_rotatesAt = pc_notBefore successor\<rparr>, store')
                        | _ \<Rightarrow> Err EmptySchedule))))"

subsection \<open>What is served is valid\<close>

text \<open>JSON text and ISO dates read back as what was printed.\<close>

definition textual :: "cert_text \<Rightarrow> bool" where
  "textual txt \<longleftrightarrow>
     (\<forall>certs vals. storedAll txt certs = Ok vals \<longrightarrow> ct_parse txt (ct_print txt (JArray vals)) = Some (JArray vals)) \<and>
     (\<forall>t. \<bar>t\<bar> \<le> MAX_TIME \<longrightarrow> ct_parseDate txt (ct_printDate txt t) = Some t)"

lemma sliceFromLast_decomp:
  "sliceFromLast P xs = [] \<and> list_all (\<lambda>x. \<not> P x) xs \<or>
   (\<exists>before x after. xs = before @ x # after \<and> P x \<and> list_all (\<lambda>y. \<not> P y) after \<and> sliceFromLast P xs = x # after)"
proof (cases "\<exists>x \<in> set xs. P x")
  case True
  then obtain before x after where xs: "xs = before @ x # after" "P x" "\<forall>y \<in> set after. \<not> P y"
    by (metis split_list_last_prop)
  then have "takeWhile (\<lambda>x. \<not> P x) (rev xs) = rev after"
    using takeWhile_append2 [of "rev after" "\<lambda>x. \<not> P x" "x # rev before"] by simp
  with xs show ?thesis by (simp add: sliceFromLast_def list_all_iff)
next
  case False
  then have all: "takeWhile (\<lambda>x. \<not> P x) (rev xs) = rev xs" by (simp add: takeWhile_eq_all_conv)
  have "sliceFromLast P xs = []" unfolding sliceFromLast_def all Let_def by simp
  with False show ?thesis by (simp add: list_all_iff)
qed

definition validAt :: "int \<Rightarrow> pinned_certificate \<Rightarrow> bool" where
  "validAt now cert \<longleftrightarrow> begun (pc_notBefore cert) now \<and> later (pc_notAfter cert) now"

lemma current_valid:
  assumes "lifetimeMs > 0" "\<bar>now\<bar> + lifetimeMs \<le> MAX_TIME"
  shows "currentCertificates keys stored now lifetimeMs \<noteq> [] \<and> validAt now (hd (currentCertificates keys stored now lifetimeMs))"
proof -
  let ?valid = "filter (\<lambda>c. later (pc_notAfter c) now) stored"
  from sliceFromLast_decomp [of "\<lambda>c. begun (pc_notBefore c) now" ?valid] show ?thesis
  proof (elim disjE exE conjE)
    assume "sliceFromLast (\<lambda>c. begun (pc_notBefore c) now) ?valid = []"
    moreover have "\<bar>now + lifetimeMs\<bar> \<le> MAX_TIME" using assms by linarith
    ultimately show ?thesis using assms
      by (simp add: currentCertificates_def validAt_def mintPinnedCertificate_def begun_def later_def jsDate_def split: prod.split)
  next
    fix before x after
    assume v: "?valid = before @ x # after" "begun (pc_notBefore x) now" "sliceFromLast (\<lambda>c. begun (pc_notBefore c) now) ?valid = x # after"
    have "x \<in> set ?valid" unfolding v(1) by simp
    then show ?thesis using v(2,3) by (simp add: currentCertificates_def validAt_def)
  qed
qed

lemma complete_keeps: "completeSchedule keys lifetimeMs certs = Ok certs' \<Longrightarrow>
    \<exists>more. certs' = certs @ more \<and> length certs' \<ge> ADVERTISED_CERTIFICATES + 1"
  by (auto simp: completeSchedule_def mintSuccessors_def split: if_splits option.splits)

lemma advance_cases:
  assumes "advanceCertificateSchedule txt keys store now lifetime = Ok (sched, store')"
  obtains stored certs where "readStored txt store = Ok stored"
    "completeSchedule keys (case lifetime of Some ms \<Rightarrow> ms | None \<Rightarrow> PINNED_CERTIFICATE_LIFETIME_MS)
       (currentCertificates keys stored now (case lifetime of Some ms \<Rightarrow> ms | None \<Rightarrow> PINNED_CERTIFICATE_LIFETIME_MS)) = Ok certs"
    "writeStored txt certs store = Ok store'" "cs_serving sched = hd certs" "cs_advertised sched = take ADVERTISED_CERTIFICATES certs"
    "cs_rotatesAt sched = pc_notBefore (certs ! 1)" "length certs \<ge> 2"
  using assms by (auto simp: advanceCertificateSchedule_def Let_def split: sum.splits list.splits option.splits)

lemma served_certificate_valid:
  assumes "advanceCertificateSchedule txt keys store now lifetime = Ok (sched, store')"
    and "case lifetime of Some ms \<Rightarrow> ms > 0 | None \<Rightarrow> True"
    and "\<bar>now\<bar> + (case lifetime of Some ms \<Rightarrow> ms | None \<Rightarrow> PINNED_CERTIFICATE_LIFETIME_MS) \<le> MAX_TIME"
  shows "validAt now (cs_serving sched)"
proof -
  let ?ms = "case lifetime of Some ms \<Rightarrow> ms | None \<Rightarrow> PINNED_CERTIFICATE_LIFETIME_MS"
  have ms: "?ms > 0" using assms(2)
    by (simp add: PINNED_CERTIFICATE_LIFETIME_MS_def MAX_PINNED_CERTIFICATE_LIFETIME_MS_def MILLISECONDS_PER_DAY_def split: option.splits)
  obtain stored certs where c: "completeSchedule keys ?ms (currentCertificates keys stored now ?ms) = Ok certs" "cs_serving sched = hd certs"
    using advance_cases [OF assms(1)] by metis
  from complete_keeps [OF c(1)] current_valid [OF ms assms(3), of keys stored] c(2) show ?thesis by auto
qed

subsection \<open>An address stays usable\<close>

definition spaced :: "int \<Rightarrow> int \<Rightarrow> nat \<Rightarrow> pinned_certificate \<Rightarrow> bool" where
  "spaced b s i cert \<longleftrightarrow> pc_notBefore cert = Some (b + int i * s) \<and> pc_notAfter cert = Some (b + int i * s + 2 * s)"

definition regular :: "int \<Rightarrow> int \<Rightarrow> pinned_certificate list \<Rightarrow> bool" where
  "regular b s certs \<longleftrightarrow>
     0 \<le> b \<and> b + 5 * s \<le> MAX_TIME \<and> (case certs of [c0, c1, c2, c3] \<Rightarrow> spaced b s 0 c0 \<and> spaced b s 1 c1 \<and> spaced b s 2 c2 \<and> spaced b s 3 c3 | _ \<Rightarrow> False)"

lemma regular_four: "regular b s certs \<longleftrightarrow> 0 \<le> b \<and> b + 5 * s \<le> MAX_TIME \<and>
    (\<exists>c0 c1 c2 c3. certs = [c0, c1, c2, c3] \<and> spaced b s 0 c0 \<and> spaced b s 1 c1 \<and> spaced b s 2 c2 \<and> spaced b s 3 c3)"
  unfolding regular_def by (simp split: list.splits)

lemma successorStart_even: "successorStart start (2 * s) i = jsDate (start + s * (int i + 1))"
proof -
  define h where "h = start + s * (int i + 1)"
  have "2 * start + 2 * s * (int i + 1) = 2 * h" by (simp add: h_def algebra_simps)
  moreover have "(- (2 * h)) div 2 = - h" by presburger
  ultimately have "successorStart start (2 * s) i = jsDate h" unfolding successorStart_def Let_def by simp
  then show ?thesis by (simp add: h_def)
qed

lemma successorStart_even': "successorStart start (s * 2) i = jsDate (start + s * (int i + 1))"
  using successorStart_even [of start s i] by (simp add: mult.commute)

lemma current_regular:
  assumes "regular b s certs" "s > 0" "b \<le> now"
  shows "now < b + 5 * s \<Longrightarrow> \<exists>j \<le> 3. currentCertificates keys certs now (2 * s) = drop j certs \<and> b + int j * s \<le> now
      \<and> (now < b + 3 * s \<longrightarrow> j \<le> 2)"
    and "b + 5 * s \<le> now \<Longrightarrow> currentCertificates keys certs now (2 * s) = [mintPinnedCertificate (keys 0) (Some now) (2 * s)]"
proof -
  obtain c0 c1 c2 c3 where c: "certs = [c0, c1, c2, c3]" "spaced b s 0 c0" "spaced b s 1 c1" "spaced b s 2 c2" "spaced b s 3 c3"
    using assms(1) unfolding regular_four by blast
  have at: "pc_notBefore c0 = Some b" "pc_notAfter c0 = Some (b + 2 * s)" "pc_notBefore c1 = Some (b + s)" "pc_notAfter c1 = Some (b + 3 * s)"
    "pc_notBefore c2 = Some (b + 2 * s)" "pc_notAfter c2 = Some (b + 4 * s)" "pc_notBefore c3 = Some (b + 3 * s)" "pc_notAfter c3 = Some (b + 5 * s)"
    using c by (simp_all add: spaced_def)
  note eval = c(1) at currentCertificates_def later_def begun_def sliceFromLast_def
  show "currentCertificates keys certs now (2 * s) = [mintPinnedCertificate (keys 0) (Some now) (2 * s)]" if "b + 5 * s \<le> now"
    using that assms(2) by (simp add: eval)
  assume late: "now < b + 5 * s"
  have "currentCertificates keys certs now (2 * s) = drop 3 certs" if "b + 3 * s \<le> now"
    using that late assms(2) by (simp add: eval)
  moreover have "currentCertificates keys certs now (2 * s) = drop 2 certs" if "b + 2 * s \<le> now" "now < b + 3 * s"
    using that assms(2) by (simp add: eval)
  moreover have "currentCertificates keys certs now (2 * s) = drop 1 certs" if "b + s \<le> now" "now < b + 2 * s"
    using that assms(2) by (simp add: eval)
  moreover have "currentCertificates keys certs now (2 * s) = drop 0 certs" if "now < b + s"
    using that assms(2,3) by (simp add: eval)
  ultimately show "\<exists>j \<le> 3. currentCertificates keys certs now (2 * s) = drop j certs \<and> b + int j * s \<le> now \<and> (now < b + 3 * s \<longrightarrow> j \<le> 2)"
    using assms(3) by (cases "now < b + s"; cases "now < b + 2 * s"; cases "now < b + 3 * s") (force intro: exI [of _ 0] exI [of _ 1] exI [of _ 2] exI [of _ 3])+
qed

definition dated :: "pinned_certificate \<Rightarrow> bool" where
  "dated c \<longleftrightarrow> (\<exists>start finish. pc_notBefore c = Some start \<and> pc_notAfter c = Some finish \<and> \<bar>start\<bar> \<le> MAX_TIME \<and> \<bar>finish\<bar> \<le> MAX_TIME)"

lemma stored_roundtrip:
  assumes "textual txt" "\<forall>c \<in> set certs. dated c"
  shows "\<exists>vs. storedAll txt certs = Ok vs \<and> list_all isStoredCertificate vs \<and> map (fromStored txt) vs = certs"
  using assms(2)
proof (induction certs)
  case (Cons cert certs)
  then obtain vs where vs: "storedAll txt certs = Ok vs" "list_all isStoredCertificate vs" "map (fromStored txt) vs = certs" by auto
  obtain start finish where t: "pc_notBefore cert = Some start" "pc_notAfter cert = Some finish" "\<bar>start\<bar> \<le> MAX_TIME" "\<bar>finish\<bar> \<le> MAX_TIME"
    using Cons.prems by (auto simp: dated_def)
  have "\<exists>v. toStored txt cert = Ok v \<and> isStoredCertificate v \<and> fromStored txt v = cert"
    using t assms(1) by (simp add: toStored_def isStoredCertificate_def fromStored_def storedField_def textual_def)
  with vs show ?case by auto
qed simp

lemma write_read:
  assumes "textual txt" "\<forall>c \<in> set certs. dated c"
  shows "\<exists>store'. writeStored txt certs store = Ok store' \<and> readStored txt store' = Ok certs"
  using stored_roundtrip [OF assms] assms(1)
  by (auto simp: writeStored_def readStored_def textual_def)

lemma regular_dated: "regular b s certs \<Longrightarrow> s > 0 \<Longrightarrow> \<forall>c \<in> set certs. dated c"
  by (auto simp: regular_four spaced_def dated_def)

lemma complete_dropped:
  assumes "regular b s certs" "j \<le> 3" "s > 0" "b + int j * s + 5 * s \<le> MAX_TIME"
  shows "\<exists>minted. completeSchedule keys (2 * s) (drop j certs) = Ok (drop j certs @ minted) \<and> regular (b + int j * s) s (drop j certs @ minted)"
proof -
  obtain c0 c1 c2 c3 where c: "certs = [c0, c1, c2, c3]" "spaced b s 0 c0" "spaced b s 1 c1" "spaced b s 2 c2" "spaced b s 3 c3"
    and low: "0 \<le> b" using assms(1) unfolding regular_four by blast
  consider "j = 0" | "j = 1" | "j = 2" | "j = 3" using assms(2) by linarith
  then show ?thesis
    by cases (use c low assms(3,4) in \<open>simp_all add: completeSchedule_def ADVERTISED_CERTIFICATES_def mintSuccessors_def upt_rec regular_def
      successorStart_even successorStart_even' spaced_def mintPinnedCertificate_def jsDate_def algebra_simps split: prod.split\<close>)
qed

lemma complete_fresh:
  "s > 0 \<Longrightarrow> 0 \<le> now \<Longrightarrow> now + 5 * s \<le> MAX_TIME \<Longrightarrow> \<exists>minted. completeSchedule keys (2 * s) [mintPinnedCertificate k (Some now) (2 * s)] = Ok minted \<and> regular now s minted"
  by (simp add: completeSchedule_def ADVERTISED_CERTIFICATES_def mintSuccessors_def upt_rec regular_def
      successorStart_even successorStart_even' spaced_def mintPinnedCertificate_def jsDate_def algebra_simps split: prod.split)

definition lifetimeOf :: "int option \<Rightarrow> int" where
  "lifetimeOf lifetime = (case lifetime of Some ms \<Rightarrow> ms | None \<Rightarrow> PINNED_CERTIFICATE_LIFETIME_MS)"

lemma advance_result:
  assumes "textual txt" "readStored txt store = Ok stored"
    and "completeSchedule keys (lifetimeOf lifetime) (currentCertificates keys stored now (lifetimeOf lifetime)) = Ok certs" "regular b s certs" "s > 0"
  shows "\<exists>sched store'. advanceCertificateSchedule txt keys store now lifetime = Ok (sched, store')
      \<and> cs_serving sched = hd certs \<and> cs_advertised sched = take 3 certs \<and> readStored txt store' = Ok certs"
proof -
  obtain c0 c1 c2 c3 where c: "certs = [c0, c1, c2, c3]" using assms(4) unfolding regular_four by blast
  obtain store' where "writeStored txt certs store = Ok store'" "readStored txt store' = Ok certs"
    using write_read [OF assms(1) regular_dated [OF assms(4,5)]] by blast
  with assms(2,3) c show ?thesis
    by (simp add: advanceCertificateSchedule_def Let_def lifetimeOf_def ADVERTISED_CERTIFICATES_def)
qed

text \<open>The stored certificates are none, or four evenly spaced ones of which the first has begun.\<close>

definition schedule_ok :: "cert_text \<Rightarrow> int \<Rightarrow> kv_store \<Rightarrow> int \<Rightarrow> bool" where
  "schedule_ok txt s store now \<longleftrightarrow>
     0 \<le> now \<and> readStored txt store = Ok [] \<or> (\<exists>certs b. readStored txt store = Ok certs \<and> regular b s certs \<and> b \<le> now)"

text \<open>One advance from four stored certificates: those not yet begun stay, or all were over.\<close>

lemma advance_regular:
  assumes "textual txt" "readStored txt store = Ok certs" "regular b s certs" "b \<le> now" "s > 0" "lifetimeOf lifetime = 2 * s"
    and "now + 5 * s \<le> MAX_TIME"
  shows "\<exists>sched store' certs' b'. advanceCertificateSchedule txt keys store now lifetime = Ok (sched, store')
      \<and> cs_serving sched = hd certs' \<and> cs_advertised sched = take 3 certs' \<and> readStored txt store' = Ok certs' \<and> regular b' s certs' \<and> b' \<le> now
      \<and> (now < b + 5 * s \<longrightarrow> (\<exists>j \<le> 3. b' = b + int j * s \<and> take (4 - j) certs' = drop j certs))"
proof (cases "now < b + 5 * s")
  case True
  obtain j where j: "j \<le> 3" "currentCertificates keys certs now (2 * s) = drop j certs" "b + int j * s \<le> now"
    using current_regular(1) [OF assms(3,5,4) True, of keys] by blast
  obtain minted where m: "completeSchedule keys (2 * s) (drop j certs) = Ok (drop j certs @ minted)" "regular (b + int j * s) s (drop j certs @ minted)"
    using complete_dropped [OF assms(3) j(1) assms(5), of keys] assms(7) j(3) by auto
  have "length certs = 4" using assms(3) by (auto simp: regular_four)
  then have kept: "take (4 - j) (drop j certs @ minted) = drop j certs" by simp
  have "completeSchedule keys (lifetimeOf lifetime) (currentCertificates keys certs now (lifetimeOf lifetime)) = Ok (drop j certs @ minted)"
    using m(1) j(2) assms(6) by simp
  from advance_result [OF assms(1,2) this m(2) assms(5)] show ?thesis using kept j(1,3) m(2) by blast
next
  case False
  then have "currentCertificates keys certs now (2 * s) = [mintPinnedCertificate (keys 0) (Some now) (2 * s)]"
    using current_regular(2) [OF assms(3,5,4)] by simp
  moreover have "0 \<le> now" using assms(3,4) by (simp add: regular_def)
  moreover obtain minted where "completeSchedule keys (2 * s) [mintPinnedCertificate (keys 0) (Some now) (2 * s)] = Ok minted" "regular now s minted"
    using complete_fresh assms(5,7) calculation(2) by blast
  ultimately show ?thesis using advance_result [OF assms(1,2), of keys lifetime now minted now s] assms(5,6) False by auto
qed

lemma advance_empty:
  assumes "textual txt" "readStored txt store = Ok []" "s > 0" "lifetimeOf lifetime = 2 * s" "0 \<le> now" "now + 5 * s \<le> MAX_TIME"
  shows "\<exists>sched store' certs'. advanceCertificateSchedule txt keys store now lifetime = Ok (sched, store')
      \<and> cs_serving sched = hd certs' \<and> cs_advertised sched = take 3 certs' \<and> readStored txt store' = Ok certs' \<and> regular now s certs'"
proof -
  have "currentCertificates keys [] now (2 * s) = [mintPinnedCertificate (keys 0) (Some now) (2 * s)]"
    by (simp add: currentCertificates_def sliceFromLast_def)
  moreover obtain minted where "completeSchedule keys (2 * s) [mintPinnedCertificate (keys 0) (Some now) (2 * s)] = Ok minted" "regular now s minted"
    using complete_fresh assms(3,5,6) by blast
  ultimately show ?thesis using advance_result [OF assms(1,2), of keys lifetime now minted now s] assms(3,4) by auto
qed

lemma advance_ok:
  assumes "textual txt" "schedule_ok txt s store now" "s > 0" "lifetimeOf lifetime = 2 * s" "now + 5 * s \<le> MAX_TIME"
  shows "\<exists>sched store' certs b. advanceCertificateSchedule txt keys store now lifetime = Ok (sched, store') \<and> cs_serving sched = hd certs
      \<and> cs_advertised sched = take 3 certs \<and> readStored txt store' = Ok certs \<and> regular b s certs \<and> b \<le> now"
  using assms(2) unfolding schedule_ok_def
proof (elim disjE exE conjE)
  assume "0 \<le> now" "readStored txt store = Ok []"
  from advance_empty [OF assms(1) this(2) assms(3,4) this(1) assms(5), of keys] show ?thesis by force
next
  fix certs b assume r: "readStored txt store = Ok certs" "regular b s certs" "b \<le> now"
  show ?thesis using advance_regular [OF assms(1) r assms(3-5), of keys] by metis
qed

subsection \<open>Advances in turn, restarts included\<close>

inductive advanced :: "cert_text \<Rightarrow> int option \<Rightarrow> kv_store \<Rightarrow> int \<Rightarrow> kv_store \<Rightarrow> int \<Rightarrow> bool"
  for texts lifetime store now where
  advanced_stay: "now \<le> now' \<Longrightarrow> advanced texts lifetime store now store now'"
| advanced_step: "advanced texts lifetime store now store' now' \<Longrightarrow> now' \<le> now'' \<Longrightarrow>
    advanceCertificateSchedule texts keys store' now' lifetime = Ok (sched, store'') \<Longrightarrow>
    advanced texts lifetime store now store'' now''"

lemma schedule_ok_later: "schedule_ok txt s store now \<Longrightarrow> now \<le> now' \<Longrightarrow> schedule_ok txt s store now'"
  unfolding schedule_ok_def by fastforce

lemma advanced_schedule_ok:
  assumes "advanced txt lifetime store now store' now'" "textual txt" "schedule_ok txt s store now" "s > 0" "lifetimeOf lifetime = 2 * s"
    and "now' + 5 * s \<le> MAX_TIME"
  shows "schedule_ok txt s store' now'"
  using assms
proof (induction rule: advanced.induct)
  case (advanced_stay now')
  then show ?case using schedule_ok_later by blast
next
  case (advanced_step store' now' now'' keys sched store'')
  have soon: "now' + 5 * s \<le> MAX_TIME" using advanced_step.hyps(2) advanced_step.prems(5) by linarith
  have "schedule_ok txt s store'' now'"
    using advance_ok [OF advanced_step.prems(1) advanced_step.IH [OF advanced_step.prems(1-4) soon] advanced_step.prems(3,4) soon, of keys]
      advanced_step.hyps(3)
    unfolding schedule_ok_def by auto
  then show ?case using advanced_step.hyps(2) schedule_ok_later by blast
qed

text \<open>While the last listed certificate is to be served, the stored list starts within the listed three.\<close>

definition still_listed :: "cert_text \<Rightarrow> int \<Rightarrow> int \<Rightarrow> pinned_certificate list \<Rightarrow> kv_store \<Rightarrow> int \<Rightarrow> bool" where
  "still_listed txt s b listed store now \<longleftrightarrow>
     (\<exists>certs k. readStored txt store = Ok certs \<and> regular (b + int k * s) s certs \<and> b + int k * s \<le> now \<and> k \<le> 2 \<and> take (3 - k) certs = drop k listed)"

lemma still_listed_advance:
  assumes "textual txt" "still_listed txt s b listed store now" "s > 0" "lifetimeOf lifetime = 2 * s" "length listed = 3" "now < b + 3 * s"
    and "now + 5 * s \<le> MAX_TIME"
  shows "\<exists>sched store'. advanceCertificateSchedule txt keys store now lifetime = Ok (sched, store')
     \<and> still_listed txt s b listed store' now \<and> cs_serving sched \<in> set listed"
proof -
  obtain certs k where c: "readStored txt store = Ok certs" "regular (b + int k * s) s certs" "b + int k * s \<le> now" "k \<le> 2" "take (3 - k) certs = drop k listed"
    using assms(2) unfolding still_listed_def by blast
  have "0 \<le> int k * s" using assms(3) by simp
  then have early: "now < b + int k * s + 5 * s" using assms(3,6) by linarith
  then obtain sched store' certs' j where a: "advanceCertificateSchedule txt keys store now lifetime = Ok (sched, store')"
      "cs_serving sched = hd certs'" "readStored txt store' = Ok certs'" "regular (b + int k * s + int j * s) s certs'"
      "b + int k * s + int j * s \<le> now" "j \<le> 3" "take (4 - j) certs' = drop j certs"
    using advance_regular [OF assms(1) c(1-3) assms(3,4,7), of keys] by blast
  have sum: "b + int k * s + int j * s = b + int (k + j) * s" by (simp add: algebra_simps)
  have "int (k + j) * s < 3 * s" using a(5) assms(6) unfolding sum by linarith
  then have kj: "k + j \<le> 2" using assms(3) by (simp add: mult_less_cancel_right)
  have "take (3 - (k + j)) certs' = take (3 - (k + j)) (take (4 - j) certs')" using kj by (simp add: min_def)
  also have "\<dots> = drop j (take (3 - k) certs)" unfolding a(7) by (simp add: drop_take)
  also have "\<dots> = drop (k + j) listed" unfolding c(5) by (simp add: add.commute)
  finally have suffix: "take (3 - (k + j)) certs' = drop (k + j) listed" .
  have "certs' \<noteq> []" using a(4) by (auto simp: regular_four)
  then have "hd certs' = hd (drop (k + j) listed)" unfolding suffix [symmetric] using kj by simp
  moreover have "drop (k + j) listed \<noteq> []" using kj assms(5) by simp
  ultimately have "cs_serving sched \<in> set listed" using a(2) by (metis hd_in_set in_set_dropD)
  moreover have "still_listed txt s b listed store' now" unfolding still_listed_def using a(3-5) kj suffix unfolding sum by blast
  ultimately show ?thesis using a(1) by blast
qed

lemma still_listed_later: "still_listed txt s b listed store now \<Longrightarrow> now \<le> now' \<Longrightarrow> still_listed txt s b listed store now'"
  unfolding still_listed_def by force

lemma advanced_mono: "advanced txt lifetime store now store' now' \<Longrightarrow> now \<le> now'"
  by (induction rule: advanced.induct) auto

lemma advanced_still_listed:
  assumes "advanced txt lifetime store now store' now'" "textual txt" "still_listed txt s b listed store now" "s > 0" "lifetimeOf lifetime = 2 * s"
    "length listed = 3" "now' < b + 3 * s" "now' + 5 * s \<le> MAX_TIME"
  shows "still_listed txt s b listed store' now'"
  using assms
proof (induction rule: advanced.induct)
  case (advanced_stay now')
  then show ?case using still_listed_later by blast
next
  case (advanced_step store' now' now'' keys sched store'')
  have soon: "now' < b + 3 * s" "now' + 5 * s \<le> MAX_TIME" using advanced_step.hyps(2) advanced_step.prems by linarith+
  have "still_listed txt s b listed store' now'" using advanced_step.IH advanced_step.prems soon by blast
  from still_listed_advance [OF advanced_step.prems(1) this advanced_step.prems(3-5) soon, of keys] advanced_step.hyps(3)
  have "still_listed txt s b listed store'' now'" by auto
  then show ?case using advanced_step.hyps(2) still_listed_later by blast
qed

end
