(* ===== verification/SampleCodecs.thy ===== *)
theory SampleCodecs
  imports JsText
begin

text \<open>
  Self-delimiting byte strings, from which the witnesses of the development build concrete instances of the codecs that
  are parameters of the model: each character or byte stands behind a mark, and a zero ends the string.
\<close>

fun markString :: "string \<Rightarrow> bytes" where
  "markString [] = [0]"
| "markString (c # cs) = 1 # word_of_nat (of_char c) # markString cs"

fun unmarkString :: "bytes \<Rightarrow> (string \<times> bytes) option" where
  "unmarkString (m # bs) =
     (if m = 0 then Some ([], bs)
      else case bs of
             [] \<Rightarrow> None
           | b # rest \<Rightarrow> (case unmarkString rest of None \<Rightarrow> None | Some (cs, r) \<Rightarrow> Some (char_of (unat b) # cs, r)))"
| "unmarkString [] = None"

fun markBytes :: "bytes \<Rightarrow> bytes" where
  "markBytes [] = [0]"
| "markBytes (b # bs) = 1 # b # markBytes bs"

fun unmarkBytes :: "bytes \<Rightarrow> (bytes \<times> bytes) option" where
  "unmarkBytes (m # bs) =
     (if m = 0 then Some ([], bs)
      else case bs of [] \<Rightarrow> None | b # rest \<Rightarrow> (case unmarkBytes rest of None \<Rightarrow> None | Some (cs, r) \<Rightarrow> Some (b # cs, r)))"
| "unmarkBytes [] = None"

definition markInt :: "int \<Rightarrow> bytes" where
  "markInt i = (if i < 0 then 1 else 0) # markBytes (replicate (nat \<bar>i\<bar>) 0)"

definition unmarkInt :: "bytes \<Rightarrow> (int \<times> bytes) option" where
  "unmarkInt bs =
     (case bs of
        [] \<Rightarrow> None
      | s # rest \<Rightarrow> map_option (\<lambda>(cs, r). (if s = 1 then - int (length cs) else int (length cs), r)) (unmarkBytes rest))"

lemma char_byte: "char_of (unat (word_of_nat (of_char c) :: byte)) = c"
proof -
  have "(of_char c :: nat) < 2 ^ 8" using rangeI [of "of_char :: char \<Rightarrow> nat" c] unfolding range_nat_of_char by simp
  then have "unat (word_of_nat (of_char c) :: byte) = of_char c" by (simp add: unat_of_nat take_bit_nat_eq_self_iff)
  then show ?thesis by simp
qed

lemma unmark_mark [simp]: "unmarkString (markString cs @ bs) = Some (cs, bs)"
  by (induction cs) (simp_all add: char_byte)

lemma markString_nonempty [simp]: "markString cs \<noteq> []"
  by (cases cs) simp_all

lemma unmark_markBytes [simp]: "unmarkBytes (markBytes cs @ bs) = Some (cs, bs)"
  by (induction cs) simp_all

lemma unmark_markInt [simp]: "unmarkInt (markInt i @ bs) = Some (i, bs)"
  by (simp add: unmarkInt_def markInt_def)

end
