(* ===== verification/CertificateProperties.thy ===== *)
theory CertificateProperties
  imports CertificateSchedules SampleCodecs
begin

text \<open>
  What the certificate schedule promises the addresses a node hands out, over every run of advances, and a concrete text
  format at which the promise is instantiated.
\<close>

subsection \<open>A concrete text format\<close>

text \<open>An instance of the parameters: a printed string is marked, a date is written in unary.\<close>

definition fieldText :: "json_value \<Rightarrow> bytes" where
  "fieldText v = concat (map (\<lambda>k. markString (the (storedField v k)))
     [''certificatePem'', ''privateKeyPem'', ''sha256Hex'', ''notBefore'', ''notAfter''])"

fun readFields :: "string list \<Rightarrow> bytes \<Rightarrow> ((string \<times> json_value) list \<times> bytes) option" where
  "readFields [] bs = Some ([], bs)"
| "readFields (k # ks) bs =
     (case unmarkString bs of
        None \<Rightarrow> None
      | Some (text, rest) \<Rightarrow> (case readFields ks rest of None \<Rightarrow> None | Some (props, r) \<Rightarrow> Some ((k, JString text) # props, r)))"

fun readObjects :: "nat \<Rightarrow> bytes \<Rightarrow> json_value list option" where
  "readObjects n [] = Some []"
| "readObjects (Suc n) bs =
     (case readFields [''certificatePem'', ''privateKeyPem'', ''sha256Hex'', ''notBefore'', ''notAfter''] bs of
        None \<Rightarrow> None
      | Some (props, rest) \<Rightarrow> map_option ((#) (JObject props)) (readObjects n rest))"
| "readObjects 0 bs = None"

definition marked_text :: cert_text where
  "marked_text =
     \<lparr>ct_parse = (\<lambda>bs. map_option JArray (readObjects (length bs) bs)),
      ct_print = (\<lambda>v. case v of JArray vals \<Rightarrow> concat (map fieldText vals) | _ \<Rightarrow> []),
      ct_parseDate = (\<lambda>s. case s of c # cs \<Rightarrow> Some (if c = CHR ''-'' then - int (length cs) else int (length cs)) | [] \<Rightarrow> None),
      ct_printDate = (\<lambda>t. (if t < 0 then CHR ''-'' else CHR ''+'') # replicate (nat \<bar>t\<bar>) CHR ''i'')\<rparr>"

lemma readFields_text:
  assumes "toStored txt cert = Ok v"
  shows "readFields [''certificatePem'', ''privateKeyPem'', ''sha256Hex'', ''notBefore'', ''notAfter''] (fieldText v @ bs) = Some (case v of JObject props \<Rightarrow> props, bs)"
    and "\<exists>props. v = JObject props" "fieldText v \<noteq> []"
  using assms by (auto simp: toStored_def fieldText_def storedField_def split: option.splits)

lemma readObjects_text:
  "storedAll txt certs = Ok vals \<Longrightarrow> n \<ge> length vals \<Longrightarrow> readObjects n (concat (map fieldText vals)) = Some vals"
proof (induction certs arbitrary: vals n)
  case (Cons cert certs)
  then obtain v vs where v: "toStored txt cert = Ok v" "storedAll txt certs = Ok vs" "vals = v # vs" by (auto split: sum.splits)
  then obtain m where n: "n = Suc m" "m \<ge> length vs" using Cons.prems(2) by (cases n) auto
  obtain b bs where coded: "fieldText v @ concat (map fieldText vs) = b # bs" using readFields_text(3) [OF v(1)] by (cases "fieldText v") auto
  obtain props where props: "v = JObject props" using readFields_text(2) [OF v(1)] by blast
  then have "readFields [''certificatePem'', ''privateKeyPem'', ''sha256Hex'', ''notBefore'', ''notAfter''] (b # bs) = Some (props, concat (map fieldText vs))"
    using readFields_text(1) [OF v(1), of "concat (map fieldText vs)"] coded by simp
  then show ?case using Cons.IH [OF v(2) n(2)] by (simp add: v(3) n(1) coded del: readFields.simps) (simp add: props)
qed simp

lemma objects_length: "storedAll txt certs = Ok vals \<Longrightarrow> length vals \<le> length (concat (map fieldText vals))"
proof (induction certs arbitrary: vals)
  case (Cons cert certs)
  then obtain v vs where v: "toStored txt cert = Ok v" "storedAll txt certs = Ok vs" "vals = v # vs" by (auto split: sum.splits)
  have "length (fieldText v) \<ge> 1" using readFields_text(3) [OF v(1)] by (cases "fieldText v") auto
  then show ?case using Cons.IH [OF v(2)] v(3) by simp
qed simp

lemma marked_textual: "textual marked_text"
  unfolding textual_def
proof (intro conjI allI impI)
  fix certs vals assume "storedAll marked_text certs = Ok vals"
  from readObjects_text [OF this objects_length [OF this]]
  show "ct_parse marked_text (ct_print marked_text (JArray vals)) = Some (JArray vals)" by (simp add: marked_text_def)
next
  fix t :: int assume "\<bar>t\<bar> \<le> MAX_TIME"
  show "ct_parseDate marked_text (ct_printDate marked_text t) = Some t" by (simp add: marked_text_def)
qed

definition witness_keys :: "nat \<Rightarrow> cert_keys" where
  "witness_keys i = (replicate i CHR ''c'', replicate i CHR ''k'', replicate i CHR ''h'')"

definition witness_first :: "certificate_schedule \<times> kv_store" where
  "witness_first = projr (advanceCertificateSchedule marked_text witness_keys [] 0 (Some 2))"

definition witness_second :: "certificate_schedule \<times> kv_store" where
  "witness_second = projr (advanceCertificateSchedule marked_text witness_keys (snd witness_first) 1 (Some 2))"

lemma witness_advances:
  "advanceCertificateSchedule marked_text witness_keys [] 0 (Some 2) = Ok witness_first"
  "advanceCertificateSchedule marked_text witness_keys (snd witness_first) 1 (Some 2) = Ok witness_second"
  by code_simp+

text \<open>C34: an address handed out by an advance stays usable: whatever advances and restarts follow it, until one serving period
  after its last listed certificate begins, the next advance succeeds and serves a certificate the address lists. The
  store starts without a schedule, the clock starts after the epoch, never goes back and stays away from the last
  representable date, and the lifetime is an even number of milliseconds.
\<close>

theorem pinned_address_usable:
  assumes "textual txt" "s > 0" "lifetimeOf lifetime = 2 * s"
    and "0 \<le> now" "now2 + 5 * s \<le> MAX_TIME" "jget store STORAGE_KEY = None" "advanced txt lifetime store now store0 now0"
    and "advanceCertificateSchedule txt keys store0 now0 lifetime = Ok (sched0, store1)"
    and "advanced txt lifetime store1 now0 store2 now2" "later (map_option (\<lambda>start. start + s) (pc_notBefore (last (cs_advertised sched0)))) now2"
  shows "\<exists>sched store3. advanceCertificateSchedule txt keys' store2 now2 lifetime = Ok (sched, store3) \<and> cs_serving sched \<in> set (cs_advertised sched0)"
proof -
  have "now0 \<le> now2" using advanced_mono assms(9) by blast
  then have bound: "now0 + 5 * s \<le> MAX_TIME" using assms(5) by linarith
  have "schedule_ok txt s store now" using assms(4,6) by (simp add: schedule_ok_def readStored_def)
  then have ok: "schedule_ok txt s store0 now0" using advanced_schedule_ok assms(1-3,7) bound by blast
  obtain certs b where c: "cs_advertised sched0 = take 3 certs" "readStored txt store1 = Ok certs" "regular b s certs" "b \<le> now0"
    using advance_ok [OF assms(1) ok assms(2,3) bound, of keys] assms(8) by auto
  obtain c0 c1 c2 c3 where four: "certs = [c0, c1, c2, c3]" "spaced b s 2 c2" using c(3) unfolding regular_four by blast
  then have soon: "now2 < b + 3 * s" using assms(10) c(1) by (simp add: later_def spaced_def)
  have "still_listed txt s b (cs_advertised sched0) store1 now0"
    unfolding still_listed_def using c by (intro exI [of _ certs] exI [of _ 0]) simp
  moreover have three: "length (cs_advertised sched0) = 3" using c(1) four(1) by simp
  ultimately have "still_listed txt s b (cs_advertised sched0) store2 now2"
    using advanced_still_listed [OF assms(9,1)] assms(2,3,5) soon by blast
  from still_listed_advance [OF assms(1) this assms(2,3) three soon assms(5), of keys'] show ?thesis by blast
qed

theorem pinned_address_usable_witness:
  "\<exists>sched store3. advanceCertificateSchedule marked_text witness_keys (snd witness_second) 2 (Some 2) = Ok (sched, store3)
     \<and> cs_serving sched \<in> set (cs_advertised (fst witness_first))"
proof (rule pinned_address_usable [where s = 1 and now = 0 and ?now0.0 = 0 and ?store0.0 = "[]" and store = "[]" and ?store1.0 = "snd witness_first" and keys = witness_keys])
  show "advanced marked_text (Some 2) [] 0 [] 0" by (rule advanced_stay) simp
  show "advanced marked_text (Some 2) (snd witness_first) 0 (snd witness_second) 2"
    using advanced_step [OF advanced_stay, of 0 1 2 marked_text witness_keys "snd witness_first" "Some 2" "fst witness_second" "snd witness_second"]
      witness_advances(2) by simp
  show "later (map_option (\<lambda>start. start + 1) (pc_notBefore (last (cs_advertised (fst witness_first))))) 2" by code_simp
qed (use marked_textual witness_advances(1) in \<open>simp_all add: lifetimeOf_def MAX_TIME_def\<close>)

end
