(* ===== verification/MessageStores.thy ===== *)
theory MessageStores
  imports RoomPaths DataSync TokenPredicates
begin

text \<open>
  The message history of the web console, \<open>ts/packages/web-console/src/message-store.ts\<close>: one storage key per
  message, built so that the order of the keys of a room is the order of its messages. The CBOR codec is a parameter.
\<close>

subsection \<open>Sorting as \<open>Array.prototype.sort\<close> does\<close>

fun insertBy :: "('a \<Rightarrow> 'a \<Rightarrow> int) \<Rightarrow> 'a \<Rightarrow> 'a list \<Rightarrow> 'a list" where
  "insertBy cmp x [] = [x]"
| "insertBy cmp x (y # ys) = (if cmp x y \<le> 0 then x # y # ys else y # insertBy cmp x ys)"

definition sortBy :: "('a \<Rightarrow> 'a \<Rightarrow> int) \<Rightarrow> 'a list \<Rightarrow> 'a list" where
  "sortBy cmp xs = foldr (insertBy cmp) xs []"

definition compareStrings :: "string \<Rightarrow> string \<Rightarrow> int" where
  "compareStrings a b = (if strLess a b then - 1 else if strLess b a then 1 else 0)"

definition intToString :: "int \<Rightarrow> string" where
  "intToString i = (if i < 0 then CHR ''-'' # natToString (nat (- i)) else natToString (nat i))"

subsection \<open>Messages and their keys\<close>

datatype message_direction = MessageSent | MessageReceived

record stored_message =
  msg_direction :: message_direction
  msg_text :: string
  msg_messageId :: bytes
  msg_sentAt :: int

definition SENT_AT_KEY_WIDTH :: nat where "SENT_AT_KEY_WIDTH = length (natToString 9007199254740991)"
definition MESSAGE_KEY_PREFIX :: string where "MESSAGE_KEY_PREFIX = ''message''"

definition messageKey :: "string \<Rightarrow> stored_message \<Rightarrow> string" where
  "messageKey roomPath message =
     MESSAGE_KEY_PREFIX @ CHR ''/'' # roomPath @ CHR ''/'' # padStart SENT_AT_KEY_WIDTH (CHR ''0'') (intToString (msg_sentAt message))
       @ CHR ''-'' # bytesToHex (msg_messageId message)"

text \<open>\<open>slice(0, lastIndexOf("/"))\<close>: everything before the last slash, or all but the last character where there is none.\<close>

definition beforeLastSlash :: "string \<Rightarrow> string" where
  "beforeLastSlash s = (if CHR ''/'' \<in> set s then rev (tl (dropWhile (\<lambda>c. c \<noteq> CHR ''/'') (rev s))) else butlast s)"

definition roomPathOfKey :: "string \<Rightarrow> string" where
  "roomPathOfKey key = beforeLastSlash (drop (length MESSAGE_KEY_PREFIX + 1) key)"

definition directionJson :: "message_direction \<Rightarrow> json_value" where
  "directionJson d = (case d of MessageSent \<Rightarrow> JString ''sent'' | MessageReceived \<Rightarrow> JString ''received'')"

definition isDirection :: "json_value \<Rightarrow> message_direction option" where
  "isDirection v =
     (if v = JString ''sent'' then Some MessageSent else if v = JString ''received'' then Some MessageReceived else None)"

definition messageJson :: "stored_message \<Rightarrow> json_value" where
  "messageJson m =
     JObject [(''direction'', directionJson (msg_direction m)), (''text'', JString (msg_text m)),
              (''messageId'', JBytes (msg_messageId m)), (''sentAt'', JNumber (msg_sentAt m))]"

definition isStoredMessage :: "json_value \<Rightarrow> stored_message option" where
  "isStoredMessage v =
     (case v of
        JObject props \<Rightarrow>
          (case (Option.bind (map_of props ''direction'') isDirection, map_of props ''text'', map_of props ''messageId'', map_of props ''sentAt'') of
             (Some d, Some (JString text), Some (JBytes i), Some (JNumber t)) \<Rightarrow>
               Some \<lparr>msg_direction = d, msg_text = text, msg_messageId = i, msg_sentAt = t\<rparr>
           | _ \<Rightarrow> None)
      | _ \<Rightarrow> None)"

record store_codec =
  scd_encode :: "json_value \<Rightarrow> bytes"
  scd_decode :: "bytes \<Rightarrow> json_value option"

definition storageKeys :: "kv_store \<Rightarrow> string \<Rightarrow> string list" where
  "storageKeys st pre = filter (\<lambda>k. take (length pre) k = pre) (jkeys st)"

definition appendMessage :: "store_codec \<Rightarrow> string \<Rightarrow> stored_message \<Rightarrow> kv_store \<Rightarrow> kv_store" where
  "appendMessage codec roomPath message st = jset st (messageKey roomPath message) (scd_encode codec (messageJson message))"

definition roomPaths :: "kv_store \<Rightarrow> string list" where
  "roomPaths st = foldl sadd [] (map roomPathOfKey (storageKeys st (MESSAGE_KEY_PREFIX @ ''/'')))"

fun readMessages :: "store_codec \<Rightarrow> kv_store \<Rightarrow> string list \<Rightarrow> string + stored_message list" where
  "readMessages codec st [] = Ok []"
| "readMessages codec st (key # keys) =
     (case jget st key of
        None \<Rightarrow> readMessages codec st keys
      | Some raw \<Rightarrow>
          (case Option.bind (scd_decode codec raw) isStoredMessage of
             None \<Rightarrow> Err key
           | Some m \<Rightarrow> (case readMessages codec st keys of Inl e \<Rightarrow> Err e | Inr ms \<Rightarrow> Ok (m # ms))))"

definition listMessages :: "store_codec \<Rightarrow> string \<Rightarrow> kv_store \<Rightarrow> string + stored_message list" where
  "listMessages codec roomPath st =
     readMessages codec st (sortBy compareStrings (storageKeys st (MESSAGE_KEY_PREFIX @ CHR ''/'' # roomPath @ ''/'')))"

subsection \<open>Sorted lists\<close>

lemma set_insertBy [simp]: "set (insertBy cmp x xs) = insert x (set xs)"
  by (induction xs) auto

lemma set_sortBy [simp]: "set (sortBy cmp xs) = set xs"
  by (induction xs) (simp_all add: sortBy_def)

lemma length_insertBy [simp]: "length (insertBy cmp x xs) = Suc (length xs)"
  by (induction xs) simp_all

lemma length_sortBy [simp]: "length (sortBy cmp xs) = length xs"
  by (induction xs) (simp_all add: sortBy_def)

lemma distinct_sortBy [simp]: "distinct (sortBy cmp xs) = distinct xs"
  by (metis set_sortBy length_sortBy card_distinct distinct_card)

text \<open>A strict order behind a comparator: what the sorted lists of two sortings agree on.\<close>

locale comparator =
  fixes cmp :: "'a \<Rightarrow> 'a \<Rightarrow> int"
  assumes cmp_swap: "cmp x y \<le> 0 \<or> cmp y x < 0"
    and cmp_trans: "cmp x y \<le> 0 \<Longrightarrow> cmp y z \<le> 0 \<Longrightarrow> cmp x z \<le> 0"
begin

lemma cmp_sorted_insert: "sorted_wrt (\<lambda>x y. cmp x y \<le> 0) xs \<Longrightarrow> sorted_wrt (\<lambda>x y. cmp x y \<le> 0) (insertBy cmp x xs)"
proof (induction xs)
  case (Cons y ys)
  show ?case
  proof (cases "cmp x y \<le> 0")
    case True
    then show ?thesis using Cons.prems cmp_trans by fastforce
  next
    case False
    then have "cmp y x \<le> 0" using cmp_swap [of x y] by linarith
    then show ?thesis using Cons False by simp
  qed
qed simp

lemma cmp_sorted_sort: "sorted_wrt (\<lambda>x y. cmp x y \<le> 0) (sortBy cmp xs)"
  by (induction xs) (simp_all add: sortBy_def cmp_sorted_insert)

lemma cmp_sorted_unique:
  assumes "sorted_wrt (\<lambda>x y. cmp x y \<le> 0) xs" "sorted_wrt (\<lambda>x y. cmp x y \<le> 0) ys" "distinct xs" "distinct ys" "set xs = set ys"
    and anti: "\<And>x y. x \<in> set xs \<Longrightarrow> y \<in> set xs \<Longrightarrow> cmp x y \<le> 0 \<Longrightarrow> cmp y x \<le> 0 \<Longrightarrow> x = y"
  shows "xs = ys"
  using assms
proof (induction xs arbitrary: ys)
  case (Cons x xs)
  obtain y ys' where ys: "ys = y # ys'" using Cons.prems(5) by (cases ys) auto
  have "x = y"
  proof (rule ccontr)
    assume "x \<noteq> y"
    then have "x \<in> set ys'" "y \<in> set xs" using Cons.prems(5) unfolding ys by auto
    then have "cmp y x \<le> 0" "cmp x y \<le> 0" using Cons.prems(1,2) unfolding ys by auto
    then show False using Cons.prems(6) \<open>x \<noteq> y\<close> \<open>y \<in> set xs\<close> by auto
  qed
  moreover have "xs = ys'"
  proof (rule Cons.IH)
    show "set xs = set ys'" using Cons.prems(3-5) unfolding ys \<open>x = y\<close> by auto
    show "a = b" if "a \<in> set xs" "b \<in> set xs" "cmp a b \<le> 0" "cmp b a \<le> 0" for a b
      using that Cons.prems(6) by simp
  qed (use Cons.prems(1-4) in \<open>simp_all add: ys\<close>)
  ultimately show ?case using ys by simp
qed simp

end

subsection \<open>The order of strings\<close>

lemma strLess_irrefl [simp]: "\<not> strLess s s"
  by (induction s) simp_all

lemma strLess_trans: "strLess a b \<Longrightarrow> strLess b c \<Longrightarrow> strLess a c"
proof (induction a c arbitrary: b rule: strLess.induct)
  case (1 as)
  then show ?case by (cases b) auto
next
  case (3 a as b' bs)
  then show ?case by (cases b) auto
qed simp

lemma strLess_append [simp]: "strLess (p @ x) (p @ y) = strLess x y"
  by (induction p) auto

lemma strLess_same_length: "length x = length y \<Longrightarrow> strLess (x @ s) (y @ t) \<longleftrightarrow> strLess x y \<or> x = y \<and> strLess s t"
  by (induction x y rule: list_induct2) auto

interpretation strings: comparator compareStrings
proof
  fix x y :: string
  show "compareStrings x y \<le> 0 \<or> compareStrings y x < 0"
    using strLess_total [of x y] by (cases "x = y") (auto simp: compareStrings_def)
next
  fix x y z :: string
  assume "compareStrings x y \<le> 0" "compareStrings y z \<le> 0"
  then show "compareStrings x z \<le> 0"
    using strLess_total [of x y] strLess_total [of y z] strLess_trans [of x y z]
    by (cases "x = y"; cases "y = z") (auto simp: compareStrings_def split: if_splits)
qed

lemma strings_antisym: "compareStrings x y \<le> 0 \<Longrightarrow> compareStrings y x \<le> 0 \<Longrightarrow> x = y"
  using strLess_total [of x y] strLess_asym [of x y] by (auto simp: compareStrings_def split: if_splits)

subsection \<open>The order of keys is the order of messages\<close>

lemma digit_value_char: "isDigit c \<Longrightarrow> (of_char c :: nat) = 48 + digitValue c \<and> digitValue c < 10"
  by (auto simp: isDigit_def decDigits_def digitValue_def)

lemma stringToNat_Cons: "stringToNat (c # s) = digitValue c * 10 ^ length s + stringToNat s"
proof -
  have "foldl (\<lambda>n c. 10 * n + digitValue c) a s = a * 10 ^ length s + foldl (\<lambda>n c. 10 * n + digitValue c) 0 s" for a
  proof (induction s arbitrary: a)
    case (Cons d s)
    show ?case unfolding foldl.simps Cons.IH [of "10 * a + digitValue d"] Cons.IH [of "10 * 0 + digitValue d"]
      by (simp add: algebra_simps)
  qed simp
  from this [of "digitValue c"] show ?thesis by (simp add: stringToNat_def)
qed

lemma stringToNat_bound: "list_all isDigit s \<Longrightarrow> stringToNat s < 10 ^ length s"
proof (induction s)
  case (Cons c s)
  have "digitValue c * 10 ^ length s + stringToNat s < (digitValue c + 1) * 10 ^ length s" using Cons by simp
  also have "\<dots> \<le> 10 * 10 ^ length s" using Cons.prems digit_value_char [of c] by (intro mult_right_mono) auto
  finally show ?case by (simp add: stringToNat_Cons)
qed (simp add: stringToNat_def)

lemma digits_order:
  "length s = length t \<Longrightarrow> list_all isDigit s \<Longrightarrow> list_all isDigit t \<Longrightarrow> strLess s t \<longleftrightarrow> stringToNat s < stringToNat t"
proof (induction s t rule: list_induct2)
  case (Cons c s d t)
  let ?n = "10 ^ length t :: nat"
  have b: "stringToNat s < ?n" "stringToNat t < ?n" using stringToNat_bound [of s] stringToNat_bound [of t] Cons by auto
  have d: "(of_char c :: nat) = 48 + digitValue c" "(of_char d :: nat) = 48 + digitValue d"
    using Cons.prems digit_value_char by auto
  have less: "x * ?n + u < y * ?n + v" if "x < y" "u < ?n" for x y u v :: nat
  proof -
    have "x * ?n + u < (x + 1) * ?n" using that by simp
    also have "\<dots> \<le> y * ?n" using that by (intro mult_right_mono) auto
    finally show ?thesis by simp
  qed
  consider "digitValue c < digitValue d" | "digitValue d < digitValue c" | "c = d"
    using d by (metis linorder_neqE_nat of_char_eq_iff)
  then show ?case
  proof cases
    case 1
    then show ?thesis using less [OF 1 b(1)] Cons.hyps d by (simp add: stringToNat_Cons)
  next
    case 2
    then show ?thesis using less [OF 2 b(2), of "stringToNat s"] Cons.hyps d by (auto simp: stringToNat_Cons)
  next
    case 3
    then show ?thesis using Cons by (simp add: stringToNat_Cons)
  qed
qed (simp add: stringToNat_def)

lemma width_16 [code]: "SENT_AT_KEY_WIDTH = 16"
  by (simp add: SENT_AT_KEY_WIDTH_def natToString.simps)

lemma natToString_length: "n < 10 ^ k \<Longrightarrow> k > 0 \<Longrightarrow> length (natToString n) \<le> k"
proof (induction n arbitrary: k rule: natToString.induct)
  case (1 n)
  show ?case
  proof (cases "n < 10")
    case False
    then obtain j where k: "k = Suc j" "j > 0" using 1(2,3) by (cases k; cases "k - 1") auto
    then have "n div 10 < 10 ^ j" using 1(2) by (simp add: less_mult_imp_div_less mult.commute)
    then show ?thesis using 1(1) [OF False _ k(2)] False k by (subst natToString.simps) simp
  qed (use 1(3) in \<open>subst natToString.simps, simp\<close>)
qed

lemma padded_digits:
  assumes "n < 10 ^ 16"
  shows "length (padStart SENT_AT_KEY_WIDTH (CHR ''0'') (natToString n)) = 16"
    and "list_all isDigit (padStart SENT_AT_KEY_WIDTH (CHR ''0'') (natToString n))"
    and "stringToNat (padStart SENT_AT_KEY_WIDTH (CHR ''0'') (natToString n)) = n"
proof -
  show "length (padStart SENT_AT_KEY_WIDTH (CHR ''0'') (natToString n)) = 16"
    using natToString_length [OF assms] by (simp add: padStart_def width_16)
  have zero: "isDigit (CHR ''0'')" "digitValue (CHR ''0'') = 0" by (simp_all add: isDigit_def decDigits_def digitValue_def)
  then show "list_all isDigit (padStart SENT_AT_KEY_WIDTH (CHR ''0'') (natToString n))"
    using natToString_digits by (auto simp: padStart_def list_all_iff)
  have "stringToNat (replicate k (CHR ''0'') @ s) = stringToNat s" for k s
    by (induction k) (simp_all add: stringToNat_Cons zero)
  then show "stringToNat (padStart SENT_AT_KEY_WIDTH (CHR ''0'') (natToString n)) = n" by (simp add: padStart_def)
qed

definition compareMessages :: "stored_message \<Rightarrow> stored_message \<Rightarrow> int" where
  "compareMessages a b =
     (if msg_sentAt a \<noteq> msg_sentAt b then msg_sentAt a - msg_sentAt b
      else compareStrings (bytesToHex (msg_messageId a)) (bytesToHex (msg_messageId b)))"

definition timely :: "stored_message \<Rightarrow> bool" where
  "timely m \<longleftrightarrow> 0 \<le> msg_sentAt m \<and> msg_sentAt m < 10 ^ 16"

lemma messageKey_less:
  assumes "timely a" "timely b"
  shows "strLess (messageKey room a) (messageKey room b) \<longleftrightarrow> compareMessages a b < 0"
proof -
  let ?pad = "\<lambda>m. padStart SENT_AT_KEY_WIDTH (CHR ''0'') (natToString (nat (msg_sentAt m)))"
  have n: "nat (msg_sentAt a) < 10 ^ 16" "nat (msg_sentAt b) < 10 ^ 16" using assms by (simp_all add: timely_def nat_less_iff)
  have "strLess (messageKey room a) (messageKey room b) \<longleftrightarrow> strLess (?pad a) (?pad b) \<or> ?pad a = ?pad b
      \<and> strLess (bytesToHex (msg_messageId a)) (bytesToHex (msg_messageId b))"
    using assms strLess_same_length [of "?pad a" "?pad b"] padded_digits(1) n
    by (simp add: messageKey_def intToString_def timely_def)
  also have "strLess (?pad a) (?pad b) \<longleftrightarrow> msg_sentAt a < msg_sentAt b"
    using digits_order [of "?pad a" "?pad b"] padded_digits n assms by (auto simp: timely_def)
  also have "?pad a = ?pad b \<longleftrightarrow> msg_sentAt a = msg_sentAt b"
    using padded_digits(3) n assms unfolding timely_def by (metis eq_nat_nat_iff)
  finally show ?thesis by (auto simp: compareMessages_def compareStrings_def)
qed

lemma storageKeys_jset:
  "set (storageKeys (jset st k v) pre) = set (storageKeys st pre) \<union> (if take (length pre) k = pre then {k} else {})"
  by (auto simp: storageKeys_def update_keys)

end
