(* ===== verification/ConsoleConversations.thy ===== *)
theory ConsoleConversations
  imports MessageStores NoticeBoard
begin

text \<open>
  The conversations of the web console, \<open>ts/packages/web-console/src/conversations.ts\<close>: one entry per room path and the
  reducer that evolves them. Sessions and hubs are numbered, and so are the decisions a pending request waits for.
\<close>

subsection \<open>State and actions\<close>

record relay_route =
  rr_hub :: nat
  rr_peer :: device_id

datatype conversation_via = ViaDirect | ViaHub

datatype conversation_status = ConversationConnected | ConversationClosed

datatype outgoing_status = AwaitingApproval | BeingSent | SendFailed string

record pending_outgoing =
  po_localId :: string
  po_text :: string
  po_status :: outgoing_status

record conversation =
  cv_roomPath :: string
  cv_participants :: "string list"
  cv_status :: conversation_status
  cv_via :: "conversation_via option"
  cv_messages :: "stored_message list"
  cv_notices :: "notice_board_entry list"
  cv_outgoing :: "pending_outgoing list"
  cv_pendingJoinRequest :: "(string \<times> nat) option"
  cv_unread :: nat
  cv_direct :: "nat option"
  cv_relay :: "relay_route option"
  cv_token :: "cose_sign1 option"

type_synonym conversations = "(string, conversation) jmap"

datatype conversation_action =
    DirectOpened string "string list" nat
  | RelayOpened string "string list" relay_route
  | DirectClosed string
  | HubClosed nat
  | Restored string "string list" "stored_message list"
  | Message string stored_message
  | Read string
  | Outgoing string pending_outgoing
  | OutgoingRemoved string string
  | Notices string "notice_board_entry list"
  | JoinRequest string "string \<times> nat"
  | JoinRequestSettled string
  | TokenHeld string cose_sign1

subsection \<open>The reducer\<close>

definition addedMessages :: "stored_message list \<Rightarrow> stored_message list \<Rightarrow> stored_message list" where
  "addedMessages existing incoming =
     (let known = map (\<lambda>m. bytesToHex (msg_messageId m)) existing
      in filter (\<lambda>m. bytesToHex (msg_messageId m) \<notin> set known) incoming)"

definition mergeMessages :: "stored_message list \<Rightarrow> stored_message list \<Rightarrow> stored_message list" where
  "mergeMessages existing incoming =
     (let added = addedMessages existing incoming
      in if added = [] then existing else sortBy compareMessages (existing @ added))"

definition updateConversation :: "conversations \<Rightarrow> string \<Rightarrow> (conversation \<Rightarrow> conversation) \<Rightarrow> conversations" where
  "updateConversation state roomPath change =
     (case jget state roomPath of None \<Rightarrow> state | Some entry \<Rightarrow> jset state roomPath (change entry))"

definition blank :: "string \<Rightarrow> string list \<Rightarrow> conversation" where
  "blank roomPath participants =
     \<lparr>cv_roomPath = roomPath, cv_participants = participants, cv_status = ConversationClosed, cv_via = None, cv_messages = [],
      cv_notices = [], cv_outgoing = [], cv_pendingJoinRequest = None, cv_unread = 0, cv_direct = None, cv_relay = None, cv_token = None\<rparr>"

definition withRoutes :: "conversation \<Rightarrow> nat option \<Rightarrow> relay_route option \<Rightarrow> conversation" where
  "withRoutes entry direct relay =
     (let via = (if direct \<noteq> None then Some ViaDirect else if relay \<noteq> None then Some ViaHub else None)
      in entry\<lparr>cv_direct := direct, cv_relay := relay, cv_via := via,
               cv_status := (if via = None then ConversationClosed else ConversationConnected)\<rparr>)"

definition orBlank :: "conversations \<Rightarrow> string \<Rightarrow> string list \<Rightarrow> conversation" where
  "orBlank state roomPath participants = (case jget state roomPath of Some entry \<Rightarrow> entry | None \<Rightarrow> blank roomPath participants)"

definition dropHubRoute :: "nat \<Rightarrow> conversation \<Rightarrow> conversations \<Rightarrow> conversations" where
  "dropHubRoute hub entry next =
     (if map_option rr_hub (cv_relay entry) = Some hub
      then updateConversation next (cv_roomPath entry) (\<lambda>current. withRoutes current (cv_direct current) None)
      else next)"

definition putOutgoing :: "pending_outgoing \<Rightarrow> pending_outgoing list \<Rightarrow> pending_outgoing list" where
  "putOutgoing entry outgoing =
     (if \<exists>q \<in> set outgoing. po_localId q = po_localId entry
      then map (\<lambda>q. if po_localId q = po_localId entry then entry else q) outgoing
      else outgoing @ [entry])"

definition receiveMessage :: "stored_message \<Rightarrow> conversation \<Rightarrow> conversation" where
  "receiveMessage message entry =
     (let isNew = addedMessages (cv_messages entry) [message] \<noteq> []
      in entry\<lparr>cv_messages := mergeMessages (cv_messages entry) [message],
               cv_unread := (if isNew \<and> msg_direction message = MessageReceived then cv_unread entry + 1 else cv_unread entry)\<rparr>)"

definition reduceConversations :: "conversations \<Rightarrow> conversation_action \<Rightarrow> conversations" where
  "reduceConversations state action =
     (case action of
        DirectOpened roomPath participants session \<Rightarrow>
          let entry = orBlank state roomPath participants
          in jset state roomPath ((withRoutes entry (Some session) (cv_relay entry))\<lparr>cv_participants := participants, cv_notices := []\<rparr>)
      | RelayOpened roomPath participants route \<Rightarrow>
          let entry = orBlank state roomPath participants
          in jset state roomPath (withRoutes entry (cv_direct entry) (Some route))
      | DirectClosed roomPath \<Rightarrow> updateConversation state roomPath (\<lambda>entry. withRoutes entry None (cv_relay entry))
      | HubClosed hub \<Rightarrow> fold (dropHubRoute hub) (jvals state) state
      | Restored roomPath participants messages \<Rightarrow>
          (case jget state roomPath of
             Some _ \<Rightarrow> updateConversation state roomPath (\<lambda>entry. entry\<lparr>cv_messages := mergeMessages (cv_messages entry) messages\<rparr>)
           | None \<Rightarrow> jset state roomPath ((blank roomPath participants)\<lparr>cv_messages := mergeMessages [] messages\<rparr>))
      | Notices roomPath notices \<Rightarrow> updateConversation state roomPath (\<lambda>entry. entry\<lparr>cv_notices := notices\<rparr>)
      | Message roomPath message \<Rightarrow> updateConversation state roomPath (receiveMessage message)
      | Read roomPath \<Rightarrow> updateConversation state roomPath (\<lambda>entry. entry\<lparr>cv_unread := 0\<rparr>)
      | Outgoing roomPath pending \<Rightarrow> updateConversation state roomPath (\<lambda>entry. entry\<lparr>cv_outgoing := putOutgoing pending (cv_outgoing entry)\<rparr>)
      | OutgoingRemoved roomPath localId \<Rightarrow>
          updateConversation state roomPath (\<lambda>entry. entry\<lparr>cv_outgoing := filter (\<lambda>q. po_localId q \<noteq> localId) (cv_outgoing entry)\<rparr>)
      | JoinRequest roomPath request \<Rightarrow> updateConversation state roomPath (\<lambda>entry. entry\<lparr>cv_pendingJoinRequest := Some request\<rparr>)
      | JoinRequestSettled roomPath \<Rightarrow> updateConversation state roomPath (\<lambda>entry. entry\<lparr>cv_pendingJoinRequest := None\<rparr>)
      | TokenHeld roomPath token \<Rightarrow> updateConversation state roomPath (\<lambda>entry. entry\<lparr>cv_token := Some token\<rparr>))"

definition participantsOf :: "string \<Rightarrow> string \<Rightarrow> room_path_error + string list" where
  "participantsOf roomPath ownDeviceHex =
     (case parseRoomPath roomPath of
        Inl e \<Rightarrow> Err e
      | Inr (Dm a b) \<Rightarrow> Ok (filter (\<lambda>h. h \<noteq> ownDeviceHex) [a, b])
      | Inr (OwnerNamed owner _) \<Rightarrow> Ok (if owner = ownDeviceHex then [] else [owner]))"

end
