(* ===== verification/RoomRouters.thy ===== *)
theory RoomRouters
  imports Rooms CapabilityRequests CapabilityGrants
begin

text \<open>
  The console's end of a room, \<open>ts/packages/web-console/src/room-client.ts\<close>, with the choice of a request permission in
  \<open>request-permission.ts\<close>: what is sent into a room, and the one reader of a session's room requests, which answers
  messages, joins, invitations and rekeys. A request the router is asked to decide is numbered by its arrival at the
  request handler, which keeps it until the decision or the timer. A walk of tokens that does not return is \<open>None\<close>;
  an error that leaves a handler ends the reader's loop.
\<close>

subsection \<open>Sending into a room\<close>

definition MESSAGE_ID_BYTE_LENGTH :: nat where "MESSAGE_ID_BYTE_LENGTH = 16"
definition DEFAULT_JOIN_REQUEST_TIMEOUT_MS :: int where "DEFAULT_JOIN_REQUEST_TIMEOUT_MS = 5 * 60 * 1000"

definition roomScope :: "string \<Rightarrow> capability_scope" where
  "roomScope roomPath = \<lparr>kind = ''room'', path = Some roomPath\<rparr>"

definition buildRoomSendCommand :: "string \<Rightarrow> bytes \<Rightarrow> int \<Rightarrow> manage_command" where
  "buildRoomSendCommand text messageId sentAt =
     \<lparr>mc_verb = ROOM_MEMBER_CAPABILITY,
      mc_params = [(''verb'', JString ''room.send''), (''message-id'', JBytes messageId), (''sent-at'', JNumber sentAt), (''text'', JString text)]\<rparr>"

definition sendRoomMessage ::
    "session_env \<Rightarrow> moment \<Rightarrow> string \<Rightarrow> string \<Rightarrow> bytes \<Rightarrow> int \<Rightarrow> cose_sign1 \<Rightarrow> device_id option \<Rightarrow> session_op" where
  "sendRoomMessage env m roomPath text messageId sentAt token target =
     sendManageRequest env m (buildRoomSendCommand text messageId sentAt) (roomScope roomPath) target (Some token)"

definition describeRequestRefusal :: "request_failure \<Rightarrow> string option" where
  "describeRequestRefusal failure =
     (case failure of
        RequestResponseMalformed _ \<Rightarrow> None
      | CapabilityRequestRefused _ code \<Rightarrow>
          Some (if code = ''denied'' then ''the other side denied the request''
                else if code = ''token_required'' then ''the other side only accepts requests that present a request permission, and this device holds none that covers this one''
                else if code = ''capability_mismatch'' then ''the request permission presented does not cover this capability''
                else if code = ''scope_mismatch'' then ''the request permission presented does not cover this conversation''
                else ''the request permission presented was refused ('' @ code @ '')''))"

definition requestToJoin :: "session_env \<Rightarrow> moment \<Rightarrow> string \<Rightarrow> device_id option \<Rightarrow> cose_sign1 option \<Rightarrow> session_op" where
  "requestToJoin env m roomPath target requestToken =
     requestCapability env m ROOM_MEMBER_CAPABILITY (roomScope roomPath) target None requestToken"

definition memberDevice :: "json_value \<Rightarrow> device_id option" where
  "memberDevice v =
     (case v of
        JObject props \<Rightarrow> (case jget props ''device'' of Some (JBytes d) \<Rightarrow> if length d = 32 then Some d else None | _ \<Rightarrow> None)
      | _ \<Rightarrow> None)"

definition roomJoinOkSchema :: "token_wire \<Rightarrow> (string \<times> json_value) list \<Rightarrow> (cose_sign1 \<times> device_id list) option" where
  "roomJoinOkSchema tw flds =
     (case capabilityGrantOkSchema tw flds of
        None \<Rightarrow> None
      | Some token \<Rightarrow>
          (case jget flds ''members'' of
             Some (JArray members) \<Rightarrow> map_option (\<lambda>ds. (token, ds)) (those (map memberDevice members))
           | _ \<Rightarrow> None))"

datatype join_failure = JoinDescribed string | JoinFailed request_failure | JoinMalformed string

definition requestToJoinResult :: "token_wire \<Rightarrow> string \<Rightarrow> manage_outcome \<Rightarrow> join_failure + cose_sign1 \<times> device_id list" where
  "requestToJoinResult tw roomPath outcome =
     (case requestCapabilityResult tw ROOM_MEMBER_CAPABILITY outcome of
        Inl failure \<Rightarrow> Err (case describeRequestRefusal failure of Some text \<Rightarrow> JoinDescribed text | None \<Rightarrow> JoinFailed failure)
      | Inr (_, flds) \<Rightarrow>
          (case roomJoinOkSchema tw flds of None \<Rightarrow> Err (JoinMalformed roomPath) | Some joined \<Rightarrow> Ok joined))"

definition inviteOptions :: "identity_port \<Rightarrow> int \<Rightarrow> bytes \<Rightarrow> string \<Rightarrow> device_id \<Rightarrow> int \<Rightarrow> int option \<Rightarrow> mint_options" where
  "inviteOptions ident now tokenId roomPath invitee expiry delegations =
     \<lparr>mo_identity = ident, mo_now = now, mo_tokenId = tokenId, mo_bearer = invitee, mo_capability = ROOM_MEMBER_CAPABILITY,
      mo_scope = roomScope roomPath, mo_expires = expiry, mo_notBefore = None, mo_delegationsRemaining = delegations, mo_parent = None,
      mo_conditions = None, mo_authorisedBy = None, mo_grantsCapability = None, mo_requestsCapability = None\<rparr>"

definition mintRoomInviteGrant ::
    "cbor_codec \<Rightarrow> evaluator \<Rightarrow> identity_port \<Rightarrow> int \<Rightarrow> bytes \<Rightarrow> string \<Rightarrow> device_id \<Rightarrow> int \<Rightarrow> int option \<Rightarrow> mint_refusal_reason + cose_sign1" where
  "mintRoomInviteGrant codec ev ident now tokenId roomPath invitee expiry delegations =
     mintCapabilityToken codec ev (inviteOptions ident now tokenId roomPath invitee expiry delegations)"

definition sendRoomInvite :: "session_env \<Rightarrow> moment \<Rightarrow> token_wire \<Rightarrow> string \<Rightarrow> cose_sign1 \<Rightarrow> device_id option \<Rightarrow> session_op" where
  "sendRoomInvite env m tw roomPath grantedToken target =
     sendCapabilityGrant env m tw ROOM_MEMBER_CAPABILITY grantedToken (roomScope roomPath) target"

subsection \<open>The router\<close>

record room_router_options =
  rro_env :: verify_env
  rro_wire :: token_wire
  rro_peerDevice :: device_id
  rro_currentMembers :: "device_id list option"
  rro_onMessage :: bool
  rro_onJoinRequest :: bool
  rro_onGrantIssued :: bool
  rro_onRoomInvite :: bool
  rro_onRekey :: bool

record incoming_room_message =
  irm_roomPath :: string
  irm_text :: string
  irm_messageId :: bytes
  irm_sentAt :: int

datatype room_join_decision = AcceptJoin string int "int option" | RejectJoin "string option"

datatype router_effect =
    RouterAnswers nat manage_outcome
  | OnMessage incoming_room_message
  | OnJoinRequest nat string device_id
  | OnGrantIssued cose_sign1
  | OnRoomInvite string device_id cose_sign1
  | OnRekey incoming_request
  | RouterThrows

text \<open>The requests waiting for a decision, with the ids their answers go to; \<open>rr_ended\<close> once the loop has thrown.\<close>

record room_router =
  rtr_joins :: request_handler
  rtr_requestIds :: "(nat, nat) jmap"
  rtr_ended :: bool

definition createRoomRouter :: room_router where
  "createRoomRouter = \<lparr>rtr_joins = createCapabilityRequestHandler, rtr_requestIds = [], rtr_ended = False\<rparr>"

definition roomMessage :: "string \<Rightarrow> (string \<times> json_value) list \<Rightarrow> incoming_room_message option" where
  "roomMessage roomPath params =
     (case (jget params ''message-id'', jget params ''sent-at'', jget params ''text'') of
        (Some (JBytes messageId), Some (JNumber sentAt), Some (JString text)) \<Rightarrow>
          Some \<lparr>irm_roomPath = roomPath, irm_text = text, irm_messageId = messageId, irm_sentAt = sentAt\<rparr>
      | _ \<Rightarrow> None)"

definition handleRoomSend :: "nat \<Rightarrow> room_router_options \<Rightarrow> manage_request \<Rightarrow> router_effect list option" where
  "handleRoomSend fuel opts incoming =
     (let refuse = Some [RouterAnswers (mr_requestId incoming) (ManageError ''unauthorized'' None)]
      in case (path (mr_scope incoming), mr_token incoming) of
           (Some roomPath, Some token) \<Rightarrow>
             (case verifyRoomToken fuel (rro_env opts) token (rro_peerDevice opts) roomPath SelfOnly of
                None \<Rightarrow> None
              | Some (Inl _) \<Rightarrow> Some [RouterThrows]
              | Some (Inr (RoomRefused _)) \<Rightarrow> refuse
              | Some (Inr (RoomAccepted _ _)) \<Rightarrow>
                  Some (RouterAnswers (mr_requestId incoming) (ManageOk []) #
                    (case roomMessage roomPath (mc_params (mr_command incoming)) of
                       None \<Rightarrow> []
                     | Some message \<Rightarrow> if rro_onMessage opts then [OnMessage message] else [])))
         | _ \<Rightarrow> refuse)"

definition memberJson :: "device_id \<Rightarrow> json_value" where
  "memberJson d = JObject [(''device'', JBytes d)]"

definition adaptRoomJoinDecision :: "room_router_options \<Rightarrow> room_join_decision \<Rightarrow> grant_decision" where
  "adaptRoomJoinDecision opts decision =
     (case decision of
        RejectJoin reason \<Rightarrow> RejectGrant reason
      | AcceptJoin cap expiry delegations \<Rightarrow>
          let members = (case rro_currentMembers opts of Some ds \<Rightarrow> ds | None \<Rightarrow> []) @ [rro_peerDevice opts]
          in AcceptGrant cap expiry delegations [(''members'', JArray (map memberJson members))])"

definition joinOptions :: "room_router_options \<Rightarrow> request_options" where
  "joinOptions opts =
     \<lparr>ro_capability = ROOM_MEMBER_CAPABILITY, ro_codec = env_codec (rro_env opts), ro_identity = env_identity (rro_env opts),
      ro_evaluator = env_evaluator (rro_env opts), ro_revocation = None, ro_requireRequestToken = False, ro_extra = None,
      ro_bearerDevice = rro_peerDevice opts, ro_wire = rro_wire opts\<rparr>"

text \<open>The wrapped answer of a join: a token that goes out is reported first.\<close>

definition joinAnswer :: "room_router_options \<Rightarrow> (nat, nat) jmap \<Rightarrow> nat \<Rightarrow> manage_outcome \<Rightarrow> router_effect list" where
  "joinAnswer opts ids i outcome =
     (case outcome of
        ManageOk flds \<Rightarrow>
          (case Option.bind (jget flds ''granted-token'') (tw_schema (rro_wire opts)) of
             Some token \<Rightarrow> if rro_onGrantIssued opts then [OnGrantIssued token] else []
           | None \<Rightarrow> [])
      | ManageError _ _ \<Rightarrow> [])
     @ [RouterAnswers (case jget ids i of Some requestId \<Rightarrow> requestId | None \<Rightarrow> 0) outcome]"

fun joinEffects ::
    "room_router_options \<Rightarrow> int \<Rightarrow> (nat, nat) jmap \<Rightarrow> request_effect list \<Rightarrow> request_handler \<Rightarrow> router_effect list \<times> request_handler" where
  "joinEffects opts now ids [] h = ([], h)"
| "joinEffects opts now ids (e # es) h =
     (let (fx, h') =
        (case e of
           Answers i outcome \<Rightarrow> (joinAnswer opts ids i outcome, h)
         | HandlerThrows _ \<Rightarrow> ([RouterThrows], h)
         | AsksDomain i scp requester \<Rightarrow>
             (if path scp = None \<or> \<not> rro_onJoinRequest opts
              then case decideRequest (joinOptions opts) now [] i (RejectGrant (Some ''unsupported verb'')) h of
                     (answers, h') \<Rightarrow> (concat (map (\<lambda>a. case a of Answers j outcome \<Rightarrow> joinAnswer opts ids j outcome | _ \<Rightarrow> []) answers), h')
              else ([OnJoinRequest i (the (path scp)) requester], h)))
      in case joinEffects opts now ids es h' of (fx', h'') \<Rightarrow> (fx @ fx', h''))"

definition handleRoomJoin :: "nat \<Rightarrow> room_router_options \<Rightarrow> int \<Rightarrow> manage_request \<Rightarrow> room_router \<Rightarrow> (router_effect list \<times> room_router) option" where
  "handleRoomJoin fuel opts now incoming router =
     (let refuse = (\<lambda>code. Some ([RouterAnswers (mr_requestId incoming) (ManageError code None)], router))
      in if path (mr_scope incoming) = None then refuse ''missing_scope_path''
         else if \<not> rro_onJoinRequest opts then refuse ''unsupported_verb''
         else let ids = jset (rtr_requestIds router) (rh_arrivals (rtr_joins router)) (mr_requestId incoming)
              in case handleCapabilityRequest fuel (joinOptions opts) now incoming (rtr_joins router) of
                   None \<Rightarrow> None
                 | Some (effects, h) \<Rightarrow>
                     (case joinEffects opts now ids effects h of
                        (fx, h') \<Rightarrow> Some (fx, router\<lparr>rtr_joins := h', rtr_requestIds := ids\<rparr>)))"

definition inviteHandlerOptions :: "room_router_options \<Rightarrow> grant_options" where
  "inviteHandlerOptions opts =
     \<lparr>go_capability = ROOM_MEMBER_CAPABILITY, go_env = rro_env opts, go_granterDevice = rro_peerDevice opts, go_wire = rro_wire opts\<rparr>"

definition inviteEffect :: "room_router_options \<Rightarrow> nat \<Rightarrow> grant_effect \<Rightarrow> router_effect list" where
  "inviteEffect opts requestId e =
     (case e of
        GrantAnswers outcome \<Rightarrow> [RouterAnswers requestId outcome]
      | OnGrant event \<Rightarrow>
          (case path (ge_scope event) of
             Some roomPath \<Rightarrow> if rro_onRoomInvite opts then [OnRoomInvite roomPath (ge_granterDevice event) (ge_grantedToken event)] else []
           | None \<Rightarrow> []))"

definition handleRoomInvite :: "nat \<Rightarrow> room_router_options \<Rightarrow> manage_request \<Rightarrow> router_effect list option" where
  "handleRoomInvite fuel opts incoming =
     (let refuse = (\<lambda>code. Some [RouterAnswers (mr_requestId incoming) (ManageError code None)])
      in if path (mr_scope incoming) = None then refuse ''missing_scope_path''
         else if \<not> rro_onRoomInvite opts then refuse ''unsupported_verb''
         else map_option (\<lambda>effects. concat (map (inviteEffect opts (mr_requestId incoming)) effects))
                (handleCapabilityGrant fuel (inviteHandlerOptions opts) incoming))"

definition routeRequest :: "nat \<Rightarrow> room_router_options \<Rightarrow> int \<Rightarrow> incoming_request \<Rightarrow> room_router \<Rightarrow> (router_effect list \<times> room_router) option" where
  "routeRequest fuel opts now incoming router =
     (let request = ir_request incoming; verb = jget (mc_params (mr_command request)) ''verb'';
          alone = map_option (\<lambda>fx. (fx, router\<lparr>rtr_ended := RouterThrows \<in> set fx\<rparr>))
      in if rtr_ended router \<or> mc_verb (mr_command request) \<noteq> ROOM_MEMBER_CAPABILITY then Some ([], router)
         else if verb = Some (JString ''room.send'') then alone (handleRoomSend fuel opts request)
         else if verb = Some (JString ''capability.request'')
         then map_option (\<lambda>(fx, router'). (fx, router'\<lparr>rtr_ended := RouterThrows \<in> set fx\<rparr>)) (handleRoomJoin fuel opts now request router)
         else if verb = Some (JString ''capability.grant'') then alone (handleRoomInvite fuel opts request)
         else if verb = Some (JString ''room.rekey'') \<and> rro_onRekey opts then Some ([OnRekey incoming], router)
         else Some ([], router))"

definition decideJoin :: "room_router_options \<Rightarrow> int \<Rightarrow> bytes \<Rightarrow> nat \<Rightarrow> room_join_decision \<Rightarrow> room_router \<Rightarrow> router_effect list \<times> room_router" where
  "decideJoin opts now tokenId i decision router =
     (case decideRequest (joinOptions opts) now tokenId i (adaptRoomJoinDecision opts decision) (rtr_joins router) of
        (effects, h) \<Rightarrow>
          (case joinEffects opts now (rtr_requestIds router) effects h of (fx, h') \<Rightarrow> (fx, router\<lparr>rtr_joins := h'\<rparr>)))"

definition joinTimeout :: "room_router_options \<Rightarrow> int \<Rightarrow> nat \<Rightarrow> room_router \<Rightarrow> router_effect list \<times> room_router" where
  "joinTimeout opts now i router =
     (case requestTimeout i (rtr_joins router) of
        (effects, h) \<Rightarrow>
          (case joinEffects opts now (rtr_requestIds router) effects h of (fx, h') \<Rightarrow> (fx, router\<lparr>rtr_joins := h'\<rparr>)))"

end
