(* ===== verification/NoticeWiring.thy ===== *)
theory NoticeWiring
  imports NoticeBoard HubMailbox MessageStores
begin

text \<open>
  The notice board of the web console on the wire, \<open>ts/packages/web-console/src/notices.ts\<close>, and the room secrets it
  keeps, \<open>persistent-room-state.ts\<close>. The senders are numbered; a frame that is sent to one is an effect, and so is the
  signal that what a room shows may have changed. A handler runs to its end before the next frame is taken.
\<close>

subsection \<open>Room keys, tokens and deliveries in storage\<close>

definition ROOM_KEY_PREFIX :: string where "ROOM_KEY_PREFIX = ''room-key/''"
definition ROOM_TOKEN_PREFIX :: string where "ROOM_TOKEN_PREFIX = ''room-token/''"
definition DELIVERED_PREFIX :: string where "DELIVERED_PREFIX = ''room-key-delivered/''"

definition epochKey :: "string \<Rightarrow> nat \<Rightarrow> string" where
  "epochKey room epoch = ROOM_KEY_PREFIX @ room @ CHR ''/'' # padStart SENT_AT_KEY_WIDTH (CHR ''0'') (natToString epoch)"

definition roomKeyGet :: "kv_store \<Rightarrow> string \<Rightarrow> nat \<Rightarrow> bytes option" where
  "roomKeyGet st room epoch = jget st (epochKey room epoch)"

definition roomKeySet :: "string \<Rightarrow> nat \<Rightarrow> bytes \<Rightarrow> kv_store \<Rightarrow> kv_store" where
  "roomKeySet room epoch key st = jset st (epochKey room epoch) key"

definition afterLastSlash :: "string \<Rightarrow> string" where
  "afterLastSlash s = rev (takeWhile (\<lambda>c. c \<noteq> CHR ''/'') (rev s))"

definition roomKeyCurrentEpoch :: "kv_store \<Rightarrow> string \<Rightarrow> nat option" where
  "roomKeyCurrentEpoch st room =
     (let keys = sortBy compareStrings (storageKeys st (ROOM_KEY_PREFIX @ room @ ''/''))
      in if keys = [] then None else Some (stringToNat (afterLastSlash (last keys))))"

definition createPersistentRoomKeyStore :: "kv_store \<Rightarrow> room_keys" where
  "createPersistentRoomKeyStore st =
     \<lparr>rks_get = (\<lambda>room epoch. if epoch < 0 then None else roomKeyGet st room (nat epoch)),
      rks_currentEpoch = (\<lambda>room. map_option int (roomKeyCurrentEpoch st room))\<rparr>"

record token_bytes =
  tb_encode :: "cose_sign1 \<Rightarrow> bytes"
  tb_decode :: "bytes \<Rightarrow> cose_sign1 option"

text \<open>A stored token that no longer verifies for this device is removed when it is read.\<close>

definition roomTokenGet :: "nat \<Rightarrow> token_bytes \<Rightarrow> verify_env \<Rightarrow> string \<Rightarrow> kv_store \<Rightarrow> (cose_sign1 option \<times> kv_store) option" where
  "roomTokenGet fuel tb env room st =
     (case jget st (ROOM_TOKEN_PREFIX @ room) of
        None \<Rightarrow> Some (None, st)
      | Some stored \<Rightarrow>
          (case tb_decode tb stored of
             None \<Rightarrow> Some (None, jdel st (ROOM_TOKEN_PREFIX @ room))
           | Some token \<Rightarrow>
               (case verifyCapabilityToken fuel (env\<lparr>env_extra := []\<rparr>) token (Some (deviceId (env_identity env))) of
                  None \<Rightarrow> None
                | Some (Accepted _ _ _ _) \<Rightarrow> Some (Some token, st)
                | Some (Refused _) \<Rightarrow> Some (None, jdel st (ROOM_TOKEN_PREFIX @ room)))))"

definition roomTokenSet :: "token_bytes \<Rightarrow> string \<Rightarrow> cose_sign1 \<Rightarrow> kv_store \<Rightarrow> kv_store" where
  "roomTokenSet tb room token st = jset st (ROOM_TOKEN_PREFIX @ room) (tb_encode tb token)"

definition tokenRooms :: "kv_store \<Rightarrow> string list" where
  "tokenRooms st = map (drop (length ROOM_TOKEN_PREFIX)) (storageKeys st ROOM_TOKEN_PREFIX)"

definition isDelivered :: "kv_store \<Rightarrow> string \<Rightarrow> bool" where
  "isDelivered st room \<longleftrightarrow> jget st (DELIVERED_PREFIX @ room) \<noteq> None"

definition markDelivered :: "string \<Rightarrow> kv_store \<Rightarrow> kv_store" where
  "markDelivered room st = jset st (DELIVERED_PREFIX @ room) [1]"

subsection \<open>The wiring\<close>

definition CATCH_UP_BATCH_LIMIT :: nat where "CATCH_UP_BATCH_LIMIT = 32"

datatype wiring_effect = SendsTo nat data_frame | NoticesChanged

definition requestCatchUp :: "kv_store \<Rightarrow> nat \<Rightarrow> device_id \<Rightarrow> wiring_effect" where
  "requestCatchUp st sender peer = SendsTo sender (DataRequest \<lparr>req_peer = peer, req_from = headSeqFor st peer\<rparr>)"

definition announceOwnLog :: "kv_store \<Rightarrow> device_id \<Rightarrow> nat \<Rightarrow> wiring_effect list" where
  "announceOwnLog st own sender =
     (let head = headSeqFor st own
      in if head = 0 then [] else [SendsTo sender (DataHave \<lparr>have_peer = own, have_head = head\<rparr>)])"

definition handleNoticeFrame :: "data_frame \<Rightarrow> nat \<Rightarrow> kv_store \<Rightarrow> wiring_effect list \<times> kv_store" where
  "handleNoticeFrame frame sender st =
     (case frame of
        DataHave have \<Rightarrow> ([requestCatchUp st sender (have_peer have)], st)
      | DataEntries entries \<Rightarrow>
          (case handleDataEntries st entries of
             Inl _ \<Rightarrow> ([], st)
           | Inr st' \<Rightarrow>
               ((if length (ent_entries entries) \<ge> CATCH_UP_BATCH_LIMIT then [requestCatchUp st' sender (ent_peer entries)] else [])
                  @ [NoticesChanged], st'))
      | DataRequest request \<Rightarrow>
          (case handleDataRequest st request CATCH_UP_BATCH_LIMIT of
             None \<Rightarrow> ([], st)
           | Some entries \<Rightarrow> ([SendsTo sender (DataEntries entries)], st)))"

definition postNoticeFrames ::
    "board_options \<Rightarrow> bytes \<Rightarrow> bytes \<Rightarrow> nat list \<Rightarrow> notice_post \<Rightarrow> kv_store \<Rightarrow> post_error + wiring_effect list \<times> kv_store" where
  "postNoticeFrames opts iv randomId senders post st =
     (case postEncryptedNotice (opts\<lparr>bo_keys := createPersistentRoomKeyStore st\<rparr>) iv randomId post st of
        Inl e \<Rightarrow> Err e
      | Inr ((dataHave, _, _), st') \<Rightarrow> Ok (map (\<lambda>sender. SendsTo sender (DataHave dataHave)) senders @ [NoticesChanged], st'))"

fun readPeers :: "nat \<Rightarrow> board_options \<Rightarrow> string \<Rightarrow> kv_store \<Rightarrow> device_id list \<Rightarrow> room_path_error option + notice_board_entry list" where
  "readPeers fuel opts room st [] = Ok []"
| "readPeers fuel opts room st (peer # peers) =
     (case readPeerNotices fuel opts peer room st of
        Inl e \<Rightarrow> Err e
      | Inr entries \<Rightarrow> (case readPeers fuel opts room st peers of Inl e \<Rightarrow> Err e | Inr others \<Rightarrow> Ok (entries @ others)))"

definition readRoom :: "nat \<Rightarrow> board_options \<Rightarrow> string \<Rightarrow> device_id list \<Rightarrow> kv_store \<Rightarrow> room_path_error option + notice_board_entry list" where
  "readRoom fuel opts room peers st =
     (let opts' = opts\<lparr>bo_keys := createPersistentRoomKeyStore st\<rparr>
      in case readOwnNotices fuel opts' room st of
           Inl e \<Rightarrow> Err e
         | Inr own \<Rightarrow> (case readPeers fuel opts' room st peers of Inl e \<Rightarrow> Err e | Inr others \<Rightarrow> Ok (own @ others)))"

definition syncNotices :: "kv_store \<Rightarrow> device_id \<Rightarrow> nat \<Rightarrow> device_id list \<Rightarrow> wiring_effect list" where
  "syncNotices st own sender peers = announceOwnLog st own sender @ map (requestCatchUp st sender) peers"

definition pullNotices :: "kv_store \<Rightarrow> nat list \<Rightarrow> device_id list \<Rightarrow> wiring_effect list" where
  "pullNotices st senders peers = concat (map (\<lambda>sender. map (requestCatchUp st sender) peers) senders)"

subsection \<open>The first key of a direct conversation\<close>

datatype bootstrap_error =
    OwnTokenFails room_token_reason | OwnPathThrows room_path_error | NoSharedSecrets | LostFirstKey string | SecretFails | RekeyRefused string

datatype bootstrap_step = BootstrapDone | BootstrapThrows bootstrap_error | BootstrapSends bytes kv_store

record bootstrap_options =
  bs_env :: verify_env
  bs_crypto :: group_crypto
  bs_deriveSharedSecret :: "(identity_key \<Rightarrow> bytes option) option"
  bs_ownToken :: cose_sign1
  bs_roomPath :: string

definition FIRST_EPOCH :: nat where "FIRST_EPOCH = 1"

text \<open>What is sent, or why nothing is: the wrapped key, with the storage as it is when the rekey goes out.\<close>

definition bootstrapDmEpoch1 :: "nat \<Rightarrow> bootstrap_options \<Rightarrow> bytes \<Rightarrow> bytes \<Rightarrow> kv_store \<Rightarrow> bootstrap_step option" where
  "bootstrapDmEpoch1 fuel opts fresh iv st =
     (let room = bs_roomPath opts; lower = takeWhile (\<lambda>c. c \<noteq> CHR ''+'') room;
          self = deviceId (env_identity (bs_env opts)); epoch = roomKeyCurrentEpoch st room
      in if lower = [] \<or> deviceIdToHex self \<noteq> lower then Some BootstrapDone
         else if epoch \<noteq> None \<and> epoch \<noteq> Some FIRST_EPOCH then Some BootstrapDone
         else if isDelivered st room then Some BootstrapDone
         else case verifyRoomToken fuel (bs_env opts) (bs_ownToken opts) self room EitherParticipant of
                None \<Rightarrow> None
              | Some (Inl e) \<Rightarrow> Some (BootstrapThrows (OwnPathThrows e))
              | Some (Inr (RoomRefused reason)) \<Rightarrow> Some (BootstrapThrows (OwnTokenFails reason))
              | Some (Inr (RoomAccepted _ rootKey)) \<Rightarrow>
                  (case bs_deriveSharedSecret opts of
                     None \<Rightarrow> Some (BootstrapThrows NoSharedSecrets)
                   | Some derive \<Rightarrow>
                       (case (if epoch = None then Some fresh else roomKeyGet st room FIRST_EPOCH) of
                          None \<Rightarrow> Some (BootstrapThrows (LostFirstKey room))
                        | Some contentKey \<Rightarrow>
                            (case derive rootKey of
                               None \<Rightarrow> Some (BootstrapThrows SecretFails)
                             | Some secret \<Rightarrow>
                                 Some (BootstrapSends
                                   (wrapContentKey (bs_crypto opts) iv (deriveWrappingKey (bs_crypto opts) secret room (int FIRST_EPOCH)) contentKey)
                                   (if epoch = None then roomKeySet room FIRST_EPOCH contentKey st else st))))))"

definition bootstrapAnswered :: "bootstrap_options \<Rightarrow> manage_outcome \<Rightarrow> kv_store \<Rightarrow> bootstrap_error + kv_store" where
  "bootstrapAnswered opts outcome st =
     (case outcome of
        ManageError code _ \<Rightarrow> Err (RekeyRefused code)
      | ManageOk _ \<Rightarrow> Ok (markDelivered (bs_roomPath opts) st))"

subsection \<open>Anyone may write to any log\<close>

text \<open>
  Entries are stored for the log they name, whoever sent them: a sender can fill the log of another device, and even
  this device's own, at its head.
\<close>

lemma entries_from_anyone:
  assumes "log_ok st owner"
  shows "\<exists>st'. handleNoticeFrame (DataEntries \<lparr>ent_peer = owner, ent_from = headSeqFor st owner, ent_entries = es\<rparr>) sender st
      = ((if length es \<ge> CATCH_UP_BATCH_LIMIT then [requestCatchUp st' sender owner] else []) @ [NoticesChanged], st')
    \<and> logOf st' owner = logOf st owner @ es"
proof -
  obtain st' where st': "handleDataEntries st \<lparr>ent_peer = owner, ent_from = headSeqFor st owner, ent_entries = es\<rparr> = Ok st'"
    by (simp add: handleDataEntries_def headSeqFor_def)
  then have "logOf st' owner = logOf st owner @ es" using handleDataEntries_ok [OF _ st'] assms by simp
  with st' show ?thesis by (simp add: handleNoticeFrame_def)
qed

end
