(* ===== verification/GrantStores.thy ===== *)
theory GrantStores
  imports Complex_Main RevocationViews CapabilityRequests MessageStores
begin

text \<open>
  What the web console does with capability tokens: the code a person copies (\<open>ts/packages/web-console/src/grants.ts\<close>),
  the grants it keeps (\<open>grant-store.ts\<close>), the revocations it keeps (\<open>revocation-store.ts\<close>), the grants a person mints
  (\<open>mint-grant.ts\<close>) and the request permission it presents (\<open>request-permission.ts\<close>). Strings are of characters below
  256; a number of hours is a rational, or nothing where it is not finite.
\<close>

subsection \<open>Base64\<close>

definition base64Alphabet :: string where
  "base64Alphabet = ''ABCDEFGHIJKLMNOPQRSTUVWXYZabcdefghijklmnopqrstuvwxyz0123456789+/''"

fun btoa :: "bytes \<Rightarrow> string" where
  "btoa [] = []"
| "btoa [a] = [base64Alphabet ! (unat a div 4), base64Alphabet ! (unat a mod 4 * 16), CHR ''='', CHR ''='']"
| "btoa [a, b] =
     [base64Alphabet ! (unat a div 4), base64Alphabet ! (unat a mod 4 * 16 + unat b div 16), base64Alphabet ! (unat b mod 16 * 4), CHR ''='']"
| "btoa (a # b # c # bs) =
     base64Alphabet ! (unat a div 4) # base64Alphabet ! (unat a mod 4 * 16 + unat b div 16)
       # base64Alphabet ! (unat b mod 16 * 4 + unat c div 64) # base64Alphabet ! (unat c mod 64) # btoa bs"

text \<open>The forgiving decoder of the platform: white space and up to two trailing pad characters of a whole text are dropped.\<close>

definition asciiSpace :: "char \<Rightarrow> bool" where
  "asciiSpace c \<longleftrightarrow> of_char c \<in> {9, 10, 12, 13, 32 :: nat}"

definition unpad :: "string \<Rightarrow> string" where
  "unpad s =
     (if length s mod 4 \<noteq> 0 then s
      else if length s \<ge> 2 \<and> drop (length s - 2) s = ''=='' then take (length s - 2) s
      else if s \<noteq> [] \<and> last s = CHR ''='' then butlast s else s)"

fun fromSextets :: "nat list \<Rightarrow> bytes option" where
  "fromSextets [] = Some []"
| "fromSextets [p] = None"
| "fromSextets [p, q] = Some [word_of_nat (p * 4 + q div 16)]"
| "fromSextets [p, q, r] = Some [word_of_nat (p * 4 + q div 16), word_of_nat (q mod 16 * 16 + r div 4)]"
| "fromSextets (p # q # r # s # rest) =
     map_option (\<lambda>bs. word_of_nat (p * 4 + q div 16) # word_of_nat (q mod 16 * 16 + r div 4) # word_of_nat (r mod 4 * 64 + s) # bs)
       (fromSextets rest)"

definition atob :: "string \<Rightarrow> bytes option" where
  "atob s = Option.bind (those (map (indexOf base64Alphabet) (unpad (filter (\<lambda>c. \<not> asciiSpace c) s)))) fromSextets"

definition replaceChar :: "char \<Rightarrow> char \<Rightarrow> string \<Rightarrow> string" where
  "replaceChar c d s = map (\<lambda>x. if x = c then d else x) s"

definition toBase64Url :: "bytes \<Rightarrow> string" where
  "toBase64Url bs =
     rev (dropWhile (\<lambda>c. c = CHR ''='') (rev (replaceChar (CHR ''/'') (CHR ''_'') (replaceChar (CHR ''+'') (CHR ''-'') (btoa bs)))))"

definition fromBase64Url :: "string \<Rightarrow> bytes option" where
  "fromBase64Url s = atob (replaceChar (CHR ''_'') (CHR ''/'') (replaceChar (CHR ''-'') (CHR ''+'') s))"

subsection \<open>Grant codes\<close>

definition GRANT_CODE_PREFIX :: string where "GRANT_CODE_PREFIX = ''wm-grant1.''"

definition jsSpace :: "char \<Rightarrow> bool" where
  "jsSpace c \<longleftrightarrow> of_char c \<in> {9, 10, 11, 12, 13, 32, 160 :: nat}"

definition trim :: "string \<Rightarrow> string" where
  "trim s = rev (dropWhile jsSpace (rev (dropWhile jsSpace s)))"

definition decodeGrantClaims :: "cbor_codec \<Rightarrow> cose_sign1 \<Rightarrow> token_claims option" where
  "decodeGrantClaims codec token = Option.bind (payload token) (dec_claims codec)"

definition encodeGrantCode :: "cbor_codec \<Rightarrow> cose_sign1 \<Rightarrow> string" where
  "encodeGrantCode codec token = GRANT_CODE_PREFIX @ toBase64Url (enc_token codec token)"

datatype grant_code_error = NotGrantCode | DamagedGrantCode | NoCapabilityToken

text \<open>\<open>decodes\<close> is whether the bytes are CBOR at all, which decides which of two errors is thrown.\<close>

definition decodeGrantCode :: "cbor_codec \<Rightarrow> (bytes \<Rightarrow> bool) \<Rightarrow> string \<Rightarrow> grant_code_error + cose_sign1" where
  "decodeGrantCode codec decodes code =
     (let trimmed = trim code
      in if take (length GRANT_CODE_PREFIX) trimmed \<noteq> GRANT_CODE_PREFIX then Err NotGrantCode
         else case fromBase64Url (drop (length GRANT_CODE_PREFIX) trimmed) of
                None \<Rightarrow> Err DamagedGrantCode
              | Some raw \<Rightarrow>
                  if \<not> decodes raw then Err DamagedGrantCode
                  else (case dec_token codec raw of
                          None \<Rightarrow> Err NoCapabilityToken
                        | Some token \<Rightarrow> if decodeGrantClaims codec token = None then Err NoCapabilityToken else Ok token))"

datatype grant_status = GrantValid | GrantInvalid token_verdict_reason

definition grantStatus :: "nat \<Rightarrow> verify_env \<Rightarrow> cose_sign1 \<Rightarrow> device_id option \<Rightarrow> grant_status option" where
  "grantStatus fuel env token expectedBearer =
     map_option (\<lambda>v. case v of Accepted _ _ _ _ \<Rightarrow> GrantValid | Refused r \<Rightarrow> GrantInvalid r)
       (verifyCapabilityToken fuel env token expectedBearer)"

subsection \<open>Kept grants\<close>

datatype grant_direction = GrantHeld | GrantIssued

record grant_record =
  gr_tokenId :: string
  gr_direction :: grant_direction
  gr_token :: cose_sign1
  gr_claims :: token_claims
  gr_recordedAt :: int

record grant_bytes =
  gb_encode :: "cose_sign1 \<times> int \<Rightarrow> bytes"
  gb_decode :: "bytes \<Rightarrow> (cose_sign1 \<times> int) option"

definition GRANT_KEY_PREFIX :: string where "GRANT_KEY_PREFIX = ''grant/''"

definition directionText :: "grant_direction \<Rightarrow> string" where
  "directionText d = (case d of GrantHeld \<Rightarrow> ''held'' | GrantIssued \<Rightarrow> ''issued'')"

definition grantKeyFor :: "grant_direction \<Rightarrow> string \<Rightarrow> string" where
  "grantKeyFor d tokenId = GRANT_KEY_PREFIX @ directionText d @ CHR ''/'' # tokenId"

definition directionOfKey :: "string \<Rightarrow> grant_direction option" where
  "directionOfKey key =
     (let d = takeWhile (\<lambda>c. c \<noteq> CHR ''/'') (drop (length GRANT_KEY_PREFIX) key)
      in if d = ''held'' then Some GrantHeld else if d = ''issued'' then Some GrantIssued else None)"

datatype grant_store_error = UnreadableClaims | MalformedGrant string | UnreadableStoredClaims string | NoDirection string

text \<open>The flag says whether the listeners are told.\<close>

definition recordGrant ::
    "cbor_codec \<Rightarrow> grant_bytes \<Rightarrow> grant_direction \<Rightarrow> cose_sign1 \<Rightarrow> int \<Rightarrow> kv_store \<Rightarrow> grant_store_error + bool \<times> kv_store" where
  "recordGrant codec gb d token when st =
     (case decodeGrantClaims codec token of
        None \<Rightarrow> Err UnreadableClaims
      | Some claims \<Rightarrow>
          let key = grantKeyFor d (bytesToHex (token_id claims))
          in if jget st key \<noteq> None then Ok (False, st) else Ok (True, jset st key (gb_encode gb (token, when))))"

definition storedGrant :: "cbor_codec \<Rightarrow> grant_bytes \<Rightarrow> string \<Rightarrow> bytes \<Rightarrow> grant_store_error + grant_record" where
  "storedGrant codec gb key raw =
     (case gb_decode gb raw of
        None \<Rightarrow> Err (MalformedGrant key)
      | Some (token, when) \<Rightarrow>
          (case decodeGrantClaims codec token of
             None \<Rightarrow> Err (UnreadableStoredClaims key)
           | Some claims \<Rightarrow>
               (case directionOfKey key of
                  None \<Rightarrow> Err (NoDirection key)
                | Some d \<Rightarrow>
                    Ok \<lparr>gr_tokenId = bytesToHex (token_id claims), gr_direction = d, gr_token = token, gr_claims = claims, gr_recordedAt = when\<rparr>)))"

fun storedGrants :: "cbor_codec \<Rightarrow> grant_bytes \<Rightarrow> kv_store \<Rightarrow> string list \<Rightarrow> grant_store_error + grant_record list" where
  "storedGrants codec gb st [] = Ok []"
| "storedGrants codec gb st (key # keys) =
     (case jget st key of
        None \<Rightarrow> storedGrants codec gb st keys
      | Some raw \<Rightarrow>
          (case storedGrant codec gb key raw of
             Inl e \<Rightarrow> Err e
           | Inr r \<Rightarrow> (case storedGrants codec gb st keys of Inl e \<Rightarrow> Err e | Inr rs \<Rightarrow> Ok (r # rs))))"

definition listGrants :: "cbor_codec \<Rightarrow> grant_bytes \<Rightarrow> kv_store \<Rightarrow> grant_store_error + grant_record list" where
  "listGrants codec gb st =
     (case storedGrants codec gb st (storageKeys st GRANT_KEY_PREFIX) of
        Inl e \<Rightarrow> Err e
      | Inr records \<Rightarrow> Ok (sortBy (\<lambda>a b. gr_recordedAt b - gr_recordedAt a) records))"

subsection \<open>The permission presented with a request\<close>

definition requestCandidate :: "string \<Rightarrow> capability_scope \<Rightarrow> grant_record \<Rightarrow> bool" where
  "requestCandidate cap scp r \<longleftrightarrow> gr_direction r = GrantHeld \<and> capability (gr_claims r) = MANAGE_REQUEST_CAPABILITY
     \<and> (case requests_capability (gr_claims r) of None \<Rightarrow> True | Some covered \<Rightarrow> covered = cap)
     \<and> scopeNarrows (scope (gr_claims r)) scp"

fun firstValid :: "nat \<Rightarrow> verify_env \<Rightarrow> device_id option \<Rightarrow> grant_record list \<Rightarrow> cose_sign1 option option" where
  "firstValid fuel env expectedBearer [] = Some None"
| "firstValid fuel env expectedBearer (r # rs) =
     (case grantStatus fuel env (gr_token r) expectedBearer of
        None \<Rightarrow> None
      | Some GrantValid \<Rightarrow> Some (Some (gr_token r))
      | Some (GrantInvalid _) \<Rightarrow> firstValid fuel env expectedBearer rs)"

definition heldRequestToken ::
    "nat \<Rightarrow> verify_env \<Rightarrow> device_id option \<Rightarrow> string \<Rightarrow> capability_scope \<Rightarrow> grant_record list \<Rightarrow> cose_sign1 option option" where
  "heldRequestToken fuel env expectedBearer cap scp grants =
     firstValid fuel env expectedBearer (filter (requestCandidate cap scp) grants)"

subsection \<open>Kept revocations\<close>

definition REVOCATION_KEY_PREFIX :: string where "REVOCATION_KEY_PREFIX = ''revocation/''"

record revocation_store =
  rvs_view :: revocation_view
  rvs_storage :: kv_store
  rvs_unreadable :: "(string \<times> string) list"

definition revocationStoreKey :: "revocation_claims \<Rightarrow> string" where
  "revocationStoreKey claims = REVOCATION_KEY_PREFIX @ bytesToHex (rc_issuer claims) @ CHR ''/'' # bytesToHex (rc_token_id claims)"

record entry_bytes =
  eb_encode :: "cose_sign1 \<Rightarrow> bytes"
  eb_isCbor :: "bytes \<Rightarrow> bool"
  eb_decode :: "bytes \<Rightarrow> cose_sign1 option"

definition entryReason :: "revocation_entry_reason \<Rightarrow> string" where
  "entryReason r = (case r of re_malformed \<Rightarrow> ''malformed'' | re_bad_signature \<Rightarrow> ''bad_signature'' | re_wrong_issuer \<Rightarrow> ''wrong_issuer'')"

definition loadStored :: "cbor_codec \<Rightarrow> entry_bytes \<Rightarrow> identity_port \<Rightarrow> bytes \<Rightarrow> revocation_view \<Rightarrow> string option \<times> revocation_view" where
  "loadStored codec eb ident raw view =
     (if \<not> eb_isCbor eb raw then (Some ''it is not valid CBOR'', view)
      else case eb_decode eb raw of
             None \<Rightarrow> (Some ''it is not a revocation entry'', view)
           | Some entry \<Rightarrow>
               (case record_entry codec ident view entry of
                  (Inr _, view') \<Rightarrow> (None, view')
                | (Inl r, view') \<Rightarrow> (Some (''it no longer verifies ('' @ entryReason r @ '')''), view')))"

definition ingestRevocation ::
    "cbor_codec \<Rightarrow> entry_bytes \<Rightarrow> identity_port \<Rightarrow> cose_sign1 \<Rightarrow> revocation_store \<Rightarrow> (revocation_entry_reason + revocation_claims) \<times> revocation_store" where
  "ingestRevocation codec eb ident entry s =
     (case record_entry codec ident (rvs_view s) entry of
        (Inl r, _) \<Rightarrow> (Err r, s)
      | (Inr claims, view) \<Rightarrow>
          (Ok claims, s\<lparr>rvs_view := view, rvs_storage := jset (rvs_storage s) (revocationStoreKey claims) (eb_encode eb entry)\<rparr>))"

definition loadOne :: "cbor_codec \<Rightarrow> entry_bytes \<Rightarrow> identity_port \<Rightarrow> kv_store \<Rightarrow> string \<Rightarrow> revocation_view \<times> (string \<times> string) list \<Rightarrow> revocation_view \<times> (string \<times> string) list" where
  "loadOne codec eb ident st key w =
     (case w of (view, unreadable) \<Rightarrow>
        case jget st key of
          None \<Rightarrow> (view, unreadable)
        | Some raw \<Rightarrow>
            (case loadStored codec eb ident raw view of
               (None, view') \<Rightarrow> (view', unreadable)
             | (Some reason, view') \<Rightarrow> (view', unreadable @ [(key, reason)])))"

definition createRevocationStore :: "cbor_codec \<Rightarrow> entry_bytes \<Rightarrow> identity_port \<Rightarrow> kv_store \<Rightarrow> revocation_store" where
  "createRevocationStore codec eb ident st =
     (case fold (loadOne codec eb ident st) (storageKeys st REVOCATION_KEY_PREFIX) (createRevocationView, []) of
        (view, unreadable) \<Rightarrow> \<lparr>rvs_view = view, rvs_storage = st, rvs_unreadable = unreadable\<rparr>)"

definition discardUnreadable :: "string \<Rightarrow> revocation_store \<Rightarrow> revocation_store" where
  "discardUnreadable key s =
     s\<lparr>rvs_storage := jdel (rvs_storage s) key, rvs_unreadable := filter (\<lambda>u. fst u \<noteq> key) (rvs_unreadable s)\<rparr>"

definition revokeToken ::
    "cbor_codec \<Rightarrow> entry_bytes \<Rightarrow> identity_port \<Rightarrow> int \<Rightarrow> bytes \<Rightarrow> revocation_store \<Rightarrow> (revocation_entry_reason + cose_sign1) \<times> revocation_store" where
  "revokeToken codec eb ident now tokenId s =
     (let entry = mintRevocationEntry codec ident tokenId now
      in case ingestRevocation codec eb ident entry s of
           (Inl r, s') \<Rightarrow> (Err r, s')
         | (Inr _, s') \<Rightarrow> (Ok entry, s'))"

subsection \<open>Minting what a person typed\<close>

definition lowerLetter :: "char \<Rightarrow> bool" where "lowerLetter c = charIn (CHR ''a'') (CHR ''z'') c"
definition digitChar :: "char \<Rightarrow> bool" where "digitChar c = charIn (CHR ''0'') (CHR ''9'') c"

definition verbChar :: "char \<Rightarrow> bool" where
  "verbChar c \<longleftrightarrow> lowerLetter c \<or> digitChar c \<or> c = CHR ''-''"

definition namespaceChar :: "char \<Rightarrow> bool" where
  "namespaceChar c \<longleftrightarrow> verbChar c \<or> c = CHR ''.''"

definition wordChar :: "char \<Rightarrow> bool" where
  "wordChar c \<longleftrightarrow> namespaceChar c \<or> charIn (CHR ''A'') (CHR ''Z'') c \<or> c = CHR ''_''"

text \<open>A run of a class and then a character outside it, in front of the rest.\<close>

definition runThen :: "(char \<Rightarrow> bool) \<Rightarrow> char \<Rightarrow> (string \<Rightarrow> bool) \<Rightarrow> string \<Rightarrow> bool" where
  "runThen cls c pat s \<longleftrightarrow> takeWhile cls s \<noteq> [] \<and> (case dropWhile cls s of [] \<Rightarrow> False | d # rest \<Rightarrow> d = c \<and> pat rest)"

definition headIn :: "(char \<Rightarrow> bool) \<Rightarrow> string \<Rightarrow> bool" where
  "headIn cls s = (case s of [] \<Rightarrow> False | c # _ \<Rightarrow> cls c)"

definition coreCapabilityPattern :: "string \<Rightarrow> bool" where
  "coreCapabilityPattern s \<longleftrightarrow> headIn lowerLetter s \<and> runThen verbChar (CHR '':'') (headIn lowerLetter) s"

definition namespacedCapabilityPattern :: "string \<Rightarrow> bool" where
  "namespacedCapabilityPattern s \<longleftrightarrow> runThen namespaceChar (CHR ''/'') (runThen wordChar (CHR '':'') (headIn wordChar)) s"

definition privateUseCapabilityPattern :: "string \<Rightarrow> bool" where
  "privateUseCapabilityPattern s \<longleftrightarrow> take 2 s = ''x-'' \<and> runThen wordChar (CHR '':'') (headIn wordChar) (drop 2 s)"

definition capabilityVerbSchema :: "string \<Rightarrow> bool" where
  "capabilityVerbSchema s \<longleftrightarrow> matchesAt coreCapabilityPattern s \<or> matchesAt namespacedCapabilityPattern s \<or> matchesAt privateUseCapabilityPattern s"

definition toLowerAscii :: "string \<Rightarrow> string" where
  "toLowerAscii s = map (\<lambda>c. if charIn (CHR ''A'') (CHR ''Z'') c then char_of (of_char c + 32 :: nat) else c) s"

record mint_grant_input =
  mg_bearerHex :: string
  mg_capability :: string
  mg_scopeKind :: string
  mg_scopePath :: string
  mg_lifetimeHours :: "rat option"
  mg_delegationsRemaining :: "int option"
  mg_parent :: "cose_sign1 option"
  mg_authorisedBy :: "cose_sign1 option"
  mg_targetVerb :: "string option"
  mg_selfGrantBars :: "string list option"

datatype mint_grant_error =
    BearerNotHex | CapabilityNotVerb | ScopeNeedsKind | LifetimeNotPositive | DelegationsNotWhole | NoCoveredVerb
  | CoveredNotVerb | OnlyGrantBars | BarNotVerb string | MintRefused mint_refusal_reason

datatype target_claim = GrantsCapability | RequestsCapability

definition TARGET_VERB_CLAIM :: "string \<Rightarrow> target_claim option" where
  "TARGET_VERB_CLAIM cap =
     (if cap = MANAGE_GRANT_CAPABILITY then Some GrantsCapability
      else if cap = MANAGE_REQUEST_CAPABILITY then Some RequestsCapability else None)"

definition parseTargetVerb :: "string \<Rightarrow> string option \<Rightarrow> mint_grant_error + (target_claim \<times> string) option" where
  "parseTargetVerb cap raw =
     (let trimmed = trim (case raw of Some s \<Rightarrow> s | None \<Rightarrow> [])
      in if trimmed = [] then Ok None
         else case TARGET_VERB_CLAIM cap of
                None \<Rightarrow> Err NoCoveredVerb
              | Some claim \<Rightarrow> if capabilityVerbSchema trimmed then Ok (Some (claim, trimmed)) else Err CoveredNotVerb)"

definition MS_PER_HOUR :: rat where "MS_PER_HOUR = 3600000"
definition MAX_SAFE_INTEGER :: int where "MAX_SAFE_INTEGER = 9007199254740991"

fun parseBars :: "device_id \<Rightarrow> string list \<Rightarrow> mint_grant_error + predicate_node list" where
  "parseBars holder [] = Ok []"
| "parseBars holder (raw # bars) =
     (if \<not> capabilityVerbSchema (trim raw) then Err (BarNotVerb raw)
      else case parseBars holder bars of Inl e \<Rightarrow> Err e | Inr nodes \<Rightarrow> Ok (noSelfGrantBar (trim raw) holder # nodes))"

definition grantMintOptions ::
    "identity_port \<Rightarrow> int \<Rightarrow> bytes \<Rightarrow> mint_grant_input \<Rightarrow> device_id \<Rightarrow> rat \<Rightarrow> (target_claim \<times> string) option \<Rightarrow> predicate_node list \<Rightarrow> mint_options" where
  "grantMintOptions ident now tokenId input holder hours covered bars =
     \<lparr>mo_identity = ident, mo_now = now, mo_tokenId = tokenId, mo_bearer = holder, mo_capability = trim (mg_capability input),
      mo_scope = \<lparr>kind = trim (mg_scopeKind input), path = (if trim (mg_scopePath input) = [] then None else Some (trim (mg_scopePath input)))\<rparr>,
      mo_expires = \<lfloor>of_int now + hours * MS_PER_HOUR + 1 / 2\<rfloor>, mo_notBefore = None,
      mo_delegationsRemaining = mg_delegationsRemaining input, mo_parent = mg_parent input,
      mo_conditions = (if bars = [] then None else Some bars), mo_authorisedBy = mg_authorisedBy input,
      mo_grantsCapability = (case covered of Some (GrantsCapability, verb) \<Rightarrow> Some verb | _ \<Rightarrow> None),
      mo_requestsCapability = (case covered of Some (RequestsCapability, verb) \<Rightarrow> Some verb | _ \<Rightarrow> None)\<rparr>"

definition mintGrant :: "cbor_codec \<Rightarrow> evaluator \<Rightarrow> identity_port \<Rightarrow> int \<Rightarrow> bytes \<Rightarrow> mint_grant_input \<Rightarrow> mint_grant_error + cose_sign1" where
  "mintGrant codec ev ident now tokenId input =
     (case deviceIdFromHex (toLowerAscii (trim (mg_bearerHex input))) of
        Inl _ \<Rightarrow> Err BearerNotHex
      | Inr holder \<Rightarrow>
          if \<not> capabilityVerbSchema (trim (mg_capability input)) then Err CapabilityNotVerb
          else if trim (mg_scopeKind input) = [] then Err ScopeNeedsKind
          else case mg_lifetimeHours input of
                 None \<Rightarrow> Err LifetimeNotPositive
               | Some hours \<Rightarrow>
                   if hours \<le> 0 then Err LifetimeNotPositive
                   else if (case mg_delegationsRemaining input of None \<Rightarrow> False | Some n \<Rightarrow> n < 0 \<or> n > MAX_SAFE_INTEGER) then Err DelegationsNotWhole
                   else (case parseTargetVerb (trim (mg_capability input)) (mg_targetVerb input) of
                           Inl e \<Rightarrow> Err e
                         | Inr covered \<Rightarrow>
                             let bars = (case mg_selfGrantBars input of Some bs \<Rightarrow> bs | None \<Rightarrow> [])
                             in if bars \<noteq> [] \<and> trim (mg_capability input) \<noteq> MANAGE_GRANT_CAPABILITY then Err OnlyGrantBars
                                else case parseBars holder bars of
                                       Inl e \<Rightarrow> Err e
                                     | Inr nodes \<Rightarrow>
                                         (case mintCapabilityToken codec ev (grantMintOptions ident now tokenId input holder hours covered nodes) of
                                            Inl r \<Rightarrow> Err (MintRefused r)
                                          | Inr token \<Rightarrow> Ok token)))"

end
