(* ===== verification/ConsoleRooms.thy ===== *)
theory ConsoleRooms
  imports ConsoleConversations RoomRouters NoticeWiring GrantStores
begin

text \<open>
  The messaging of the web console, \<open>ts/packages/web-console/src/hooks/use-room-messaging.ts\<close>: the conversations, the
  storage behind them, and what is done with each request a room router hands on. A call over the network is an effect and
  is given its result, an outcome or the error it rejects with; sessions and hubs are numbered. Participants are the hex of
  device ids in every conversation, so reading one back does not throw. Left out are the renders of the hook and that a
  callback may see the conversations of an earlier one; an operation runs to its end before the next, so a first key that
  is being delivered is never met by a second delivery.
\<close>

record messaging_env =
  me_verify :: verify_env
  me_wire :: token_wire
  me_codec :: store_codec
  me_grantBytes :: grant_bytes
  me_tokenBytes :: token_bytes
  me_crypto :: group_crypto
  me_deriveSharedSecret :: "(identity_key \<Rightarrow> bytes option) option"
  me_board :: board_options

record messaging =
  ms_conversations :: conversations
  ms_messages :: kv_store
  ms_rooms :: kv_store
  ms_grants :: kv_store
  ms_tokens :: "(string, cose_sign1) jmap"
  ms_hubs :: "nat list"
  ms_seen :: "nat list"

datatype messaging_effect =
    RespondsTo nat manage_outcome
  | NoticeEffects "wiring_effect list"
  | PersistenceFails grant_store_error
  | Calls nat "device_id option" manage_command capability_scope "cose_sign1 option"

definition ownHex :: "messaging_env \<Rightarrow> string" where
  "ownHex env = deviceIdToHex (deviceId (env_identity (me_verify env)))"

definition dispatch :: "conversation_action \<Rightarrow> messaging \<Rightarrow> messaging" where
  "dispatch action s = s\<lparr>ms_conversations := reduceConversations (ms_conversations s) action\<rparr>"

subsection \<open>Routes and senders\<close>

definition routeOf :: "conversation option \<Rightarrow> string + nat \<times> device_id option" where
  "routeOf entry =
     (case entry of
        None \<Rightarrow> Err ''conversation is not connected''
      | Some e \<Rightarrow>
          (case cv_direct e of
             Some session \<Rightarrow> Ok (session, None)
           | None \<Rightarrow>
               (case cv_relay e of
                  Some route \<Rightarrow> Ok (rr_hub route, Some (rr_peer route))
                | None \<Rightarrow> Err ''conversation is not connected'')))"

definition peerDevices :: "string list \<Rightarrow> device_id list" where
  "peerDevices hexes = concat (map (\<lambda>h. case deviceIdFromHex h of Inr d \<Rightarrow> [d] | Inl _ \<Rightarrow> []) hexes)"

definition knownPeers :: "messaging \<Rightarrow> device_id list" where
  "knownPeers s = concat (map (\<lambda>e. peerDevices (cv_participants e)) (jvals (ms_conversations s)))"

definition sendersOf :: "messaging \<Rightarrow> nat list" where
  "sendersOf s =
     foldl sadd []
       (concat (map (\<lambda>e. (case cv_direct e of Some d \<Rightarrow> [d] | None \<Rightarrow> []) @ (case cv_relay e of Some r \<Rightarrow> [rr_hub r] | None \<Rightarrow> []))
          (jvals (ms_conversations s))) @ ms_hubs s)"

definition participantsIn :: "messaging \<Rightarrow> string \<Rightarrow> string list" where
  "participantsIn s roomPath = (case jget (ms_conversations s) roomPath of Some e \<Rightarrow> cv_participants e | None \<Rightarrow> [])"

subsection \<open>Tokens held for a room\<close>

definition rememberToken :: "messaging_env \<Rightarrow> string \<Rightarrow> cose_sign1 \<Rightarrow> messaging \<Rightarrow> messaging" where
  "rememberToken env roomPath token s =
     s\<lparr>ms_tokens := jset (ms_tokens s) roomPath token, ms_rooms := roomTokenSet (me_tokenBytes env) roomPath token (ms_rooms s)\<rparr>"

definition heldToken :: "nat \<Rightarrow> messaging_env \<Rightarrow> string \<Rightarrow> messaging \<Rightarrow> (cose_sign1 option \<times> messaging) option" where
  "heldToken fuel env roomPath s =
     (case jget (ms_tokens s) roomPath of
        Some token \<Rightarrow> Some (Some token, s)
      | None \<Rightarrow>
          (case roomTokenGet fuel (me_tokenBytes env) (me_verify env) roomPath (ms_rooms s) of
             None \<Rightarrow> None
           | Some (None, rooms) \<Rightarrow> Some (None, s\<lparr>ms_rooms := rooms\<rparr>)
           | Some (Some token, rooms) \<Rightarrow> Some (Some token, s\<lparr>ms_rooms := rooms, ms_tokens := jset (ms_tokens s) roomPath token\<rparr>)))"

definition recordGrantIn :: "messaging_env \<Rightarrow> grant_direction \<Rightarrow> cose_sign1 \<Rightarrow> messaging \<Rightarrow> messaging_effect list \<times> messaging" where
  "recordGrantIn env d token s =
     (case recordGrant (env_codec (me_verify env)) (me_grantBytes env) d token (env_now (me_verify env)) (ms_grants s) of
        Inl e \<Rightarrow> ([PersistenceFails e], s)
      | Inr (_, grants) \<Rightarrow> ([], s\<lparr>ms_grants := grants\<rparr>))"

text \<open>The notices of a conversation are read again; a read that throws leaves them as they are.\<close>

definition showNotices :: "nat \<Rightarrow> messaging_env \<Rightarrow> string \<Rightarrow> string list \<Rightarrow> messaging \<Rightarrow> messaging" where
  "showNotices fuel env roomPath participants s =
     (case readRoom fuel (me_board env) roomPath (peerDevices participants) (ms_rooms s) of
        Inl _ \<Rightarrow> s
      | Inr notices \<Rightarrow> dispatch (Notices roomPath notices) s)"

definition refreshRoom :: "nat \<Rightarrow> messaging_env \<Rightarrow> string \<Rightarrow> messaging \<Rightarrow> messaging" where
  "refreshRoom fuel env roomPath s =
     (case jget (ms_conversations s) roomPath of
        None \<Rightarrow> s
      | Some e \<Rightarrow> showNotices fuel env roomPath (cv_participants e) s)"

definition refreshAll :: "nat \<Rightarrow> messaging_env \<Rightarrow> messaging \<Rightarrow> messaging" where
  "refreshAll fuel env s = fold (refreshRoom fuel env) (jkeys (ms_conversations s)) s"

subsection \<open>The first key of a conversation\<close>

type_synonym call_result = "string + manage_outcome"

definition bootstrapOptions :: "messaging_env \<Rightarrow> string \<Rightarrow> cose_sign1 \<Rightarrow> bootstrap_options" where
  "bootstrapOptions env roomPath token =
     \<lparr>bs_env = me_verify env, bs_crypto = me_crypto env, bs_deriveSharedSecret = me_deriveSharedSecret env, bs_ownToken = token,
      bs_roomPath = roomPath\<rparr>"

datatype first_epoch_error = BootstrapFails bootstrap_error | RekeyRejects string

definition deliverFirstEpoch ::
    "nat \<Rightarrow> messaging_env \<Rightarrow> string \<Rightarrow> cose_sign1 \<Rightarrow> nat \<times> device_id option \<Rightarrow> bytes \<Rightarrow> bytes \<Rightarrow> call_result \<Rightarrow> messaging
       \<Rightarrow> (first_epoch_error option \<times> messaging_effect list \<times> messaging) option" where
  "deliverFirstEpoch fuel env roomPath token route fresh iv rekeyResult s =
     (let opts = bootstrapOptions env roomPath token
      in case bootstrapDmEpoch1 fuel opts fresh iv (ms_rooms s) of
           None \<Rightarrow> None
         | Some BootstrapDone \<Rightarrow> Some (None, [], s)
         | Some (BootstrapThrows e) \<Rightarrow> Some (Some (BootstrapFails e), [], s)
         | Some (BootstrapSends wrapped rooms) \<Rightarrow>
             let calls = [Calls (fst route) (snd route) (buildRoomRekeyCommand (int FIRST_EPOCH) (OneKey wrapped)) (roomScope roomPath) (Some token)]
             in (case rekeyResult of
                   Inl e \<Rightarrow> Some (Some (RekeyRejects e), calls, s\<lparr>ms_rooms := rooms\<rparr>)
                 | Inr outcome \<Rightarrow>
                     (case bootstrapAnswered opts outcome rooms of
                        Inl e \<Rightarrow> Some (Some (BootstrapFails e), calls, s\<lparr>ms_rooms := rooms\<rparr>)
                      | Inr rooms' \<Rightarrow> Some (None, calls, s\<lparr>ms_rooms := rooms'\<rparr>))))"

subsection \<open>What a router hands on\<close>

definition storedReceived :: "incoming_room_message \<Rightarrow> stored_message" where
  "storedReceived m =
     \<lparr>msg_direction = MessageReceived, msg_text = irm_text m, msg_messageId = irm_messageId m, msg_sentAt = irm_sentAt m\<rparr>"

definition onMessage :: "messaging_env \<Rightarrow> string \<Rightarrow> incoming_room_message \<Rightarrow> messaging \<Rightarrow> messaging_effect list \<times> messaging" where
  "onMessage env roomPath m s =
     (let stored = storedReceived m;
          s' = dispatch (Message roomPath stored) (s\<lparr>ms_messages := appendMessage (me_codec env) roomPath stored (ms_messages s)\<rparr>)
      in ([NoticeEffects (pullNotices (ms_rooms s) (sendersOf s) (peerDevices (participantsIn s roomPath)))], s'))"

definition onJoinRequest :: "string \<Rightarrow> nat \<Rightarrow> device_id \<Rightarrow> messaging \<Rightarrow> messaging" where
  "onJoinRequest roomPath i requester s = dispatch (JoinRequest roomPath (deviceIdToHex requester, i)) s"

text \<open>The keys of a rekey are set one after another, the last at the epoch the event names.\<close>

definition epochKeyAt :: "string \<Rightarrow> int \<Rightarrow> string" where
  "epochKeyAt room epoch = ROOM_KEY_PREFIX @ room @ CHR ''/'' # padStart SENT_AT_KEY_WIDTH (CHR ''0'') (intToString epoch)"

definition storeRoomKeys :: "string \<Rightarrow> rekey_event \<Rightarrow> kv_store \<Rightarrow> kv_store" where
  "storeRoomKeys roomPath event st =
     fold (\<lambda>(i, key) st. jset st (epochKeyAt roomPath (re_keyEpoch event - int (length (re_contentKeys event)) + 1 + int i)) key)
       (enumerate 0 (re_contentKeys event)) st"

definition rekeyOptions :: "messaging_env \<Rightarrow> cose_sign1 \<Rightarrow> rekey_options" where
  "rekeyOptions env ownToken =
     \<lparr>rk_env = me_verify env, rk_crypto = me_crypto env, rk_deriveSharedSecret = me_deriveSharedSecret env, rk_ownToken = ownToken,
      rk_onRekey = (\<lambda>_. None)\<rparr>"

definition rekeyEffect :: "nat \<Rightarrow> messaging_env \<Rightarrow> string \<Rightarrow> nat \<Rightarrow> rekey_effect \<Rightarrow> messaging_effect list \<times> messaging \<Rightarrow> messaging_effect list \<times> messaging" where
  "rekeyEffect fuel env roomPath requestId e w =
     (case w of (fx, s) \<Rightarrow>
        case e of
          Responds outcome \<Rightarrow> (fx @ [RespondsTo requestId outcome], s)
        | StoresKeys event \<Rightarrow> (fx, refreshRoom fuel env roomPath (s\<lparr>ms_rooms := storeRoomKeys roomPath event (ms_rooms s)\<rparr>)))"

definition onRekey :: "nat \<Rightarrow> messaging_env \<Rightarrow> string \<Rightarrow> incoming_request \<Rightarrow> messaging \<Rightarrow> (messaging_effect list \<times> messaging) option" where
  "onRekey fuel env roomPath incoming s =
     (case heldToken fuel env roomPath s of
        None \<Rightarrow> None
      | Some (None, s') \<Rightarrow> Some ([RespondsTo (mr_requestId (ir_request incoming)) (ManageError ''no_token'' None)], s')
      | Some (Some ownToken, s') \<Rightarrow>
          map_option (\<lambda>(effects, _). fold (rekeyEffect fuel env roomPath (mr_requestId (ir_request incoming))) effects ([], s'))
            (handleRoomRekey fuel (rekeyOptions env ownToken) incoming))"

definition roomHandler :: "nat \<Rightarrow> messaging_env \<Rightarrow> string \<Rightarrow> router_effect \<Rightarrow> messaging \<Rightarrow> (messaging_effect list \<times> messaging) option" where
  "roomHandler fuel env roomPath e s =
     (case e of
        RouterAnswers requestId outcome \<Rightarrow> Some ([RespondsTo requestId outcome], s)
      | OnMessage m \<Rightarrow> Some (onMessage env roomPath m s)
      | OnGrantIssued token \<Rightarrow> Some (recordGrantIn env GrantIssued token s)
      | OnJoinRequest i _ requester \<Rightarrow> Some ([], onJoinRequest roomPath i requester s)
      | OnRekey incoming \<Rightarrow> onRekey fuel env roomPath incoming s
      | OnRoomInvite _ _ _ \<Rightarrow> Some ([], s)
      | RouterThrows \<Rightarrow> Some ([], s))"

fun roomHandlers :: "nat \<Rightarrow> messaging_env \<Rightarrow> string \<Rightarrow> router_effect list \<Rightarrow> messaging \<Rightarrow> (messaging_effect list \<times> messaging) option" where
  "roomHandlers fuel env roomPath [] s = Some ([], s)"
| "roomHandlers fuel env roomPath (e # es) s =
     (case roomHandler fuel env roomPath e s of
        None \<Rightarrow> None
      | Some (fx, s') \<Rightarrow> map_option (\<lambda>(gx, s''). (fx @ gx, s'')) (roomHandlers fuel env roomPath es s'))"

text \<open>The router of a conversation with one peer, whichever route its requests come over.\<close>

definition conversationRouter :: "messaging_env \<Rightarrow> device_id \<Rightarrow> room_router_options" where
  "conversationRouter env peer =
     \<lparr>rro_env = me_verify env, rro_wire = me_wire env, rro_peerDevice = peer,
      rro_currentMembers = Some [deviceId (env_identity (me_verify env)), peer], rro_onMessage = True, rro_onJoinRequest = True,
      rro_onGrantIssued = True, rro_onRoomInvite = False, rro_onRekey = True\<rparr>"

definition requestForConversation ::
    "nat \<Rightarrow> messaging_env \<Rightarrow> string \<Rightarrow> device_id \<Rightarrow> int \<Rightarrow> incoming_request \<Rightarrow> room_router \<times> messaging \<Rightarrow> (messaging_effect list \<times> room_router \<times> messaging) option" where
  "requestForConversation fuel env roomPath peer now incoming w =
     (case w of (router, s) \<Rightarrow>
        case routeRequest fuel (conversationRouter env peer) now incoming router of
          None \<Rightarrow> None
        | Some (effects, router') \<Rightarrow> map_option (\<lambda>(fx, s'). (fx, router', s')) (roomHandlers fuel env roomPath effects s))"

text \<open>
  After a decision the peer may hold its token, so the first key is tried again if this side holds one; whatever that
  meets is ignored.
\<close>

definition firstEpochAfterDecision ::
    "nat \<Rightarrow> messaging_env \<Rightarrow> string \<Rightarrow> bytes \<Rightarrow> bytes \<Rightarrow> call_result \<Rightarrow> messaging \<Rightarrow> (messaging_effect list \<times> messaging) option" where
  "firstEpochAfterDecision fuel env roomPath fresh iv rekeyResult s =
     (case heldToken fuel env roomPath s of
        None \<Rightarrow> None
      | Some (held, s') \<Rightarrow>
          (case (held, jget (ms_conversations s') roomPath) of
             (Some token, Some entry) \<Rightarrow>
               (case routeOf (Some entry) of
                  Inl _ \<Rightarrow> Some ([], s')
                | Inr route \<Rightarrow> map_option snd (deliverFirstEpoch fuel env roomPath token route fresh iv rekeyResult s'))
           | _ \<Rightarrow> Some ([], s')))"

definition decideJoinRequest ::
    "nat \<Rightarrow> messaging_env \<Rightarrow> string \<Rightarrow> device_id \<Rightarrow> int \<Rightarrow> bytes \<Rightarrow> nat \<Rightarrow> room_join_decision \<Rightarrow> bytes \<Rightarrow> bytes \<Rightarrow> call_result
       \<Rightarrow> room_router \<times> messaging \<Rightarrow> (messaging_effect list \<times> room_router \<times> messaging) option" where
  "decideJoinRequest fuel env roomPath peer now tokenId i decision fresh iv rekeyResult w =
     (case w of (router, s) \<Rightarrow>
        case decideJoin (conversationRouter env peer) now tokenId i decision router of
          (effects, router') \<Rightarrow>
            (case roomHandlers fuel env roomPath effects (dispatch (JoinRequestSettled roomPath) s) of
               None \<Rightarrow> None
             | Some (fx, s') \<Rightarrow>
                 map_option (\<lambda>(gx, s''). (fx @ gx, router', s'')) (firstEpochAfterDecision fuel env roomPath fresh iv rekeyResult s')))"

subsection \<open>Sending\<close>

definition grantErrorText :: "grant_store_error \<Rightarrow> string" where
  "grantErrorText e =
     (case e of
        UnreadableClaims \<Rightarrow> ''a grant must carry readable token claims''
      | MalformedGrant key \<Rightarrow> ''stored grant at '' @ key @ '' is malformed''
      | UnreadableStoredClaims key \<Rightarrow> ''stored grant at '' @ key @ '' has unreadable claims''
      | NoDirection key \<Rightarrow> ''stored grant key '' @ key @ '' names no direction'')"

definition requestTokenFor :: "nat \<Rightarrow> messaging_env \<Rightarrow> string \<Rightarrow> messaging \<Rightarrow> (string + cose_sign1 option) option" where
  "requestTokenFor fuel env roomPath s =
     (case listGrants (env_codec (me_verify env)) (me_grantBytes env) (ms_grants s) of
        Inl e \<Rightarrow> Some (Err (grantErrorText e))
      | Inr records \<Rightarrow>
          map_option Ok (heldRequestToken fuel ((me_verify env)\<lparr>env_extra := []\<rparr>) (Some (deviceId (env_identity (me_verify env))))
            ROOM_MEMBER_CAPABILITY (roomScope roomPath) records))"

definition joinErrorText :: "join_failure \<Rightarrow> string" where
  "joinErrorText f =
     (case f of
        JoinDescribed text \<Rightarrow> text
      | JoinFailed (CapabilityRequestRefused _ code) \<Rightarrow> code
      | JoinFailed (RequestResponseMalformed cap) \<Rightarrow> ''capability.request response for '' @ cap @ '' was malformed''
      | JoinMalformed roomPath \<Rightarrow> ''room.join response for '' @ roomPath @ '' was malformed'')"

text \<open>What an attempt meets: the results of its calls, and the random values it draws.\<close>

record attempt_inputs =
  at_join :: call_result
  at_rekey :: call_result
  at_send :: call_result
  at_freshKey :: bytes
  at_iv :: bytes
  at_wireId :: bytes
  at_wireTime :: int
  at_storedId :: bytes

text \<open>Joining the room: the call, the granted token kept and recorded.\<close>

definition keepJoined :: "messaging_env \<Rightarrow> string \<Rightarrow> cose_sign1 \<Rightarrow> messaging \<Rightarrow> messaging_effect list \<times> messaging" where
  "keepJoined env roomPath token s =
     (case recordGrantIn env GrantHeld token (rememberToken env roomPath token s) of
        (fx, s') \<Rightarrow> (fx, dispatch (TokenHeld roomPath token) s'))"

definition joinRoom ::
    "nat \<Rightarrow> messaging_env \<Rightarrow> string \<Rightarrow> nat \<times> device_id option \<Rightarrow> call_result \<Rightarrow> messaging \<Rightarrow> ((string + cose_sign1) \<times> messaging_effect list) option" where
  "joinRoom fuel env roomPath route joinResult s =
     (case requestTokenFor fuel env roomPath s of
        None \<Rightarrow> None
      | Some (Inl e) \<Rightarrow> Some (Err e, [])
      | Some (Inr requestToken) \<Rightarrow>
          Some ((case joinResult of
                   Inl e \<Rightarrow> Err e
                 | Inr outcome \<Rightarrow>
                     (case requestToJoinResult (me_wire env) roomPath outcome of
                        Inl f \<Rightarrow> Err (joinErrorText f)
                      | Inr (token, _) \<Rightarrow> Ok token)),
                [Calls (fst route) (snd route) (buildCapabilityRequestCommand ROOM_MEMBER_CAPABILITY None) (roomScope roomPath) requestToken]))"

definition phase :: "string \<Rightarrow> string \<Rightarrow> string \<Rightarrow> outgoing_status \<Rightarrow> messaging \<Rightarrow> messaging" where
  "phase roomPath localId text status s = dispatch (Outgoing roomPath \<lparr>po_localId = localId, po_text = text, po_status = status\<rparr>) s"

text \<open>The token a delivery goes out under: the conversation's, or one the peer grants now, which also lets the first key go out.\<close>

definition joinForDelivery ::
    "nat \<Rightarrow> messaging_env \<Rightarrow> string \<Rightarrow> string \<Rightarrow> string \<Rightarrow> nat \<times> device_id option \<Rightarrow> attempt_inputs \<Rightarrow> messaging
       \<Rightarrow> ((string + cose_sign1) \<times> messaging_effect list \<times> messaging) option" where
  "joinForDelivery fuel env roomPath localId text route inp s =
     (let waiting = phase roomPath localId text AwaitingApproval s
      in case joinRoom fuel env roomPath route (at_join inp) waiting of
           None \<Rightarrow> None
         | Some (Inl e, fx) \<Rightarrow> Some (Err e, fx, waiting)
         | Some (Inr token, fx) \<Rightarrow>
             (case keepJoined env roomPath token (phase roomPath localId text BeingSent waiting) of
                (gx, kept) \<Rightarrow>
                  map_option (\<lambda>(_, hx, s'). (Ok token, fx @ gx @ hx, s'))
                    (deliverFirstEpoch fuel env roomPath token route (at_freshKey inp) (at_iv inp) (at_rekey inp) kept)))"

definition storedSent :: "messaging_env \<Rightarrow> string \<Rightarrow> bytes \<Rightarrow> stored_message" where
  "storedSent env text messageId =
     \<lparr>msg_direction = MessageSent, msg_text = text, msg_messageId = messageId, msg_sentAt = env_now (me_verify env)\<rparr>"

definition sendAndStore ::
    "messaging_env \<Rightarrow> string \<Rightarrow> string \<Rightarrow> nat \<times> device_id option \<Rightarrow> cose_sign1 \<Rightarrow> attempt_inputs \<Rightarrow> messaging
       \<Rightarrow> (string + stored_message) \<times> messaging_effect list \<times> messaging" where
  "sendAndStore env roomPath text route token inp s =
     (let calls = [Calls (fst route) (snd route) (buildRoomSendCommand text (at_wireId inp) (at_wireTime inp)) (roomScope roomPath) (Some token)];
          stored = storedSent env text (at_storedId inp)
      in case at_send inp of
           Inl e \<Rightarrow> (Err e, calls, s)
         | Inr (ManageError code _) \<Rightarrow> (Err (''send failed: '' @ code), calls, s)
         | Inr (ManageOk _) \<Rightarrow> (Ok stored, calls, s\<lparr>ms_messages := appendMessage (me_codec env) roomPath stored (ms_messages s)\<rparr>))"

definition deliverMessage ::
    "nat \<Rightarrow> messaging_env \<Rightarrow> string \<Rightarrow> string \<Rightarrow> string \<Rightarrow> attempt_inputs \<Rightarrow> messaging
       \<Rightarrow> ((string + stored_message) \<times> messaging_effect list \<times> messaging) option" where
  "deliverMessage fuel env roomPath localId text inp s =
     (let entry = jget (ms_conversations s) roomPath
      in case routeOf entry of
           Inl e \<Rightarrow> Some (Err e, [], s)
         | Inr route \<Rightarrow>
             (case Option.bind entry cv_token of
                Some token \<Rightarrow> Some (sendAndStore env roomPath text route token inp s)
              | None \<Rightarrow>
                  (case joinForDelivery fuel env roomPath localId text route inp s of
                     None \<Rightarrow> None
                   | Some (Inl e, fx, s') \<Rightarrow> Some (Err e, fx, s')
                   | Some (Inr token, fx, s') \<Rightarrow>
                       (case sendAndStore env roomPath text route token inp s' of (res, gx, s'') \<Rightarrow> Some (res, fx @ gx, s'')))))"

definition attemptSend ::
    "nat \<Rightarrow> messaging_env \<Rightarrow> string \<Rightarrow> string \<Rightarrow> string \<Rightarrow> attempt_inputs \<Rightarrow> messaging \<Rightarrow> (messaging_effect list \<times> messaging) option" where
  "attemptSend fuel env roomPath localId text inp s =
     (case deliverMessage fuel env roomPath localId text inp (phase roomPath localId text BeingSent s) of
        None \<Rightarrow> None
      | Some (Inl e, fx, s') \<Rightarrow> Some (fx, phase roomPath localId text (SendFailed e) s')
      | Some (Inr stored, fx, s') \<Rightarrow> Some (fx, dispatch (OutgoingRemoved roomPath localId) (dispatch (Message roomPath stored) s')))"

definition retrySend ::
    "nat \<Rightarrow> messaging_env \<Rightarrow> string \<Rightarrow> string \<Rightarrow> attempt_inputs \<Rightarrow> messaging \<Rightarrow> (messaging_effect list \<times> messaging) option" where
  "retrySend fuel env roomPath localId inp s =
     (case Option.bind (jget (ms_conversations s) roomPath) (\<lambda>e. List.find (\<lambda>q. po_localId q = localId) (cv_outgoing e)) of
        None \<Rightarrow> Some ([], s)
      | Some pending \<Rightarrow> attemptSend fuel env roomPath localId (po_text pending) inp s)"

datatype notice_failure = NoticeNotSent string | NoticeKeyFails first_epoch_error | NoticePostFails post_error

text \<open>Posting needs the key, so here a first key that cannot be delivered ends the attempt.\<close>

definition postWithToken ::
    "nat \<Rightarrow> messaging_env \<Rightarrow> string \<Rightarrow> string \<Rightarrow> nat \<times> device_id option \<Rightarrow> cose_sign1 \<Rightarrow> bytes \<Rightarrow> bytes \<Rightarrow> attempt_inputs \<Rightarrow> messaging
       \<Rightarrow> (notice_failure option \<times> messaging_effect list \<times> messaging) option" where
  "postWithToken fuel env roomPath text route token iv noticeId inp s =
     (case deliverFirstEpoch fuel env roomPath token route (at_freshKey inp) (at_iv inp) (at_rekey inp) s of
        None \<Rightarrow> None
      | Some (Some e, fx, s') \<Rightarrow> Some (Some (NoticeKeyFails e), fx, s')
      | Some (None, fx, s') \<Rightarrow>
          (case postNoticeFrames (me_board env) iv noticeId (sendersOf s')
                  \<lparr>np_room = roomPath, np_token = token, np_contentType = ''text/plain'', np_plaintext = textEncode text, np_noticeId = None\<rparr> (ms_rooms s') of
             Inl e \<Rightarrow> Some (Some (NoticePostFails e), fx, s')
           | Inr (wx, rooms) \<Rightarrow> Some (None, fx @ [NoticeEffects wx], refreshRoom fuel env roomPath (refreshAll fuel env (s'\<lparr>ms_rooms := rooms\<rparr>)))))"

definition postNotice ::
    "nat \<Rightarrow> messaging_env \<Rightarrow> string \<Rightarrow> string \<Rightarrow> bytes \<Rightarrow> bytes \<Rightarrow> attempt_inputs \<Rightarrow> messaging \<Rightarrow> (notice_failure option \<times> messaging_effect list \<times> messaging) option" where
  "postNotice fuel env roomPath text iv noticeId inp s =
     (let entry = jget (ms_conversations s) roomPath
      in case routeOf entry of
           Inl e \<Rightarrow> Some (Some (NoticeNotSent e), [], s)
         | Inr route \<Rightarrow>
             (case (case Option.bind entry cv_token of Some token \<Rightarrow> Some (Some token, s) | None \<Rightarrow> heldToken fuel env roomPath s) of
                None \<Rightarrow> None
              | Some (Some token, s') \<Rightarrow> postWithToken fuel env roomPath text route token iv noticeId inp s'
              | Some (None, s') \<Rightarrow>
                  (case joinRoom fuel env roomPath route (at_join inp) s' of
                     None \<Rightarrow> None
                   | Some (Inl e, fx) \<Rightarrow> Some (Some (NoticeNotSent e), fx, s')
                   | Some (Inr token, fx) \<Rightarrow>
                       (case keepJoined env roomPath token s' of
                          (gx, kept) \<Rightarrow>
                            map_option (\<lambda>(res, hx, s''). (res, fx @ gx @ hx, s''))
                              (postWithToken fuel env roomPath text route token iv noticeId inp kept)))))"

definition discardOutgoing :: "string \<Rightarrow> string \<Rightarrow> messaging \<Rightarrow> messaging" where
  "discardOutgoing roomPath localId s = dispatch (OutgoingRemoved roomPath localId) s"

definition markRead :: "string \<Rightarrow> messaging \<Rightarrow> messaging" where
  "markRead roomPath s = dispatch (Read roomPath) s"

subsection \<open>Hubs and direct connections\<close>

definition restoreRoom :: "messaging_env \<Rightarrow> string \<Rightarrow> string list \<Rightarrow> messaging \<Rightarrow> messaging" where
  "restoreRoom env roomPath participants s =
     (case listMessages (me_codec env) roomPath (ms_messages s) of
        Inl _ \<Rightarrow> s
      | Inr messages \<Rightarrow> dispatch (Restored roomPath participants messages) s)"

text \<open>
  At the start the rooms of the stored messages and tokens are restored one at a time; a room whose messages do not read
  back ends it.
\<close>

fun restoreEach :: "nat \<Rightarrow> messaging_env \<Rightarrow> string list \<Rightarrow> messaging \<Rightarrow> messaging" where
  "restoreEach fuel env [] s = s"
| "restoreEach fuel env (roomPath # others) s =
     (case listMessages (me_codec env) roomPath (ms_messages s) of
        Inl _ \<Rightarrow> s
      | Inr messages \<Rightarrow>
          (case participantsOf roomPath (ownHex env) of
             Inl _ \<Rightarrow> s
           | Inr participants \<Rightarrow>
               restoreEach fuel env others
                 (showNotices fuel env roomPath participants (dispatch (Restored roomPath participants messages) s))))"

definition restoreAll :: "nat \<Rightarrow> messaging_env \<Rightarrow> messaging \<Rightarrow> messaging" where
  "restoreAll fuel env s = restoreEach fuel env (foldl sadd [] (roomPaths (ms_messages s) @ tokenRooms (ms_rooms s))) s"

definition openRelay :: "messaging_env \<Rightarrow> nat \<Rightarrow> device_id \<Rightarrow> messaging \<Rightarrow> messaging_effect list \<times> messaging" where
  "openRelay env hub peer s =
     (case dmRoomPath (ownHex env) (deviceIdToHex peer) of
        Inl _ \<Rightarrow> ([], s)
      | Inr roomPath \<Rightarrow>
          let participants = [deviceIdToHex peer];
              opened = dispatch (RelayOpened roomPath participants \<lparr>rr_hub = hub, rr_peer = peer\<rparr>) s
          in ([NoticeEffects (syncNotices (ms_rooms s) (deviceId (env_identity (me_verify env))) hub [peer])],
              restoreRoom env roomPath participants opened))"

definition dropHub :: "nat \<Rightarrow> messaging \<Rightarrow> messaging" where
  "dropHub hub s = dispatch (HubClosed hub) (s\<lparr>ms_hubs := sdel (ms_hubs s) hub\<rparr>)"

definition watchHub :: "nat \<Rightarrow> messaging \<Rightarrow> messaging" where
  "watchHub hub s = s\<lparr>ms_hubs := sadd (ms_hubs s) hub\<rparr>"

text \<open>
  The reader of a hub's requests: each goes to the router of the peer its channel authenticated, and the first of a peer
  opens that peer's conversation. A peer that gives no room path ends the reader.
\<close>

record hub_reader =
  hr_routers :: "(string, room_router) jmap"
  hr_ended :: bool

definition hubRequest ::
    "nat \<Rightarrow> messaging_env \<Rightarrow> nat \<Rightarrow> int \<Rightarrow> incoming_request \<Rightarrow> hub_reader \<times> messaging \<Rightarrow> (messaging_effect list \<times> hub_reader \<times> messaging) option" where
  "hubRequest fuel env hub now incoming w =
     (case w of (reader, s) \<Rightarrow>
        case map_option fst (ir_origin incoming) of
          None \<Rightarrow> Some ([], reader, s)
        | Some peer \<Rightarrow>
            let key = deviceIdToHex peer
            in if hr_ended reader then Some ([], reader, s)
               else case dmRoomPath (ownHex env) key of
                      Inl _ \<Rightarrow> Some ([], reader\<lparr>hr_ended := True\<rparr>, s)
                    | Inr roomPath \<Rightarrow>
                        (case (case jget (hr_routers reader) key of
                                 Some router \<Rightarrow> (router, [], s)
                               | None \<Rightarrow> (createRoomRouter, openRelay env hub peer s)) of
                           (router, fx, s') \<Rightarrow>
                             map_option (\<lambda>(gx, router', s''). (fx @ gx, reader\<lparr>hr_routers := jset (hr_routers reader) key router'\<rparr>, s''))
                               (requestForConversation fuel env roomPath peer now incoming (router, s'))))"

text \<open>A direct connection once its handshake has named the peer; \<open>False\<close> is the session being closed again.\<close>

definition attachDirect :: "messaging_env \<Rightarrow> nat \<Rightarrow> device_id \<Rightarrow> messaging \<Rightarrow> bool \<times> messaging_effect list \<times> messaging" where
  "attachDirect env session peer s =
     (case dmRoomPath (ownHex env) (deviceIdToHex peer) of
        Inl _ \<Rightarrow> (True, [], s)
      | Inr roomPath \<Rightarrow>
          if (case jget (ms_conversations s) roomPath of None \<Rightarrow> False | Some e \<Rightarrow> cv_direct e \<noteq> None) then (False, [], s)
          else let participants = [deviceIdToHex peer];
                   opened = dispatch (DirectOpened roomPath participants session) s
               in (True, [NoticeEffects (syncNotices (ms_rooms s) (deviceId (env_identity (me_verify env))) session [peer])],
                   restoreRoom env roomPath participants opened))"

definition directClosed :: "string \<Rightarrow> messaging \<Rightarrow> messaging" where
  "directClosed roomPath s = dispatch (DirectClosed roomPath) s"

text \<open>A frame for the notice wiring, from a direct connection or a hub; a change reads every conversation's notices again.\<close>

definition noticeFrame :: "nat \<Rightarrow> messaging_env \<Rightarrow> data_frame \<Rightarrow> nat \<Rightarrow> messaging \<Rightarrow> messaging_effect list \<times> messaging" where
  "noticeFrame fuel env frame sender s =
     (case handleNoticeFrame frame sender (ms_rooms s) of
        (fx, rooms) \<Rightarrow>
          let s' = s\<lparr>ms_rooms := rooms\<rparr>
          in ([NoticeEffects fx], if NoticesChanged \<in> set fx then refreshAll fuel env s' else s'))"

definition onHubFrame :: "nat \<Rightarrow> messaging_env \<Rightarrow> nat \<Rightarrow> nat \<Rightarrow> data_frame \<Rightarrow> messaging \<Rightarrow> messaging_effect list \<times> messaging" where
  "onHubFrame fuel env hub connection frame s =
     (let first = connection \<notin> set (ms_seen s);
          announced = (if first then [NoticeEffects (syncNotices (ms_rooms s) (deviceId (env_identity (me_verify env))) hub (knownPeers s))] else [])
      in case noticeFrame fuel env frame hub (s\<lparr>ms_seen := sadd (ms_seen s) connection\<rparr>) of
           (fx, s') \<Rightarrow> (announced @ fx, s'))"

end
