(* ===== verification/ConsoleHistory.thy ===== *)
theory ConsoleHistory
  imports ConsoleConversations
begin

text \<open>
  A console over its message store, as \<open>ts/packages/web-console/src/hooks/use-room-messaging.ts\<close> drives it. The store is
  asynchronous: a received message is shown at once and its write, which nothing waits for, ends or fails later; a sent
  message is stored first and shown after; a room's history is listed and shown after. What is under way is part of
  the state, and each step is one of these halves. \<open>None\<close> marks a step that cannot happen in the state.
\<close>

record console_world =
  cw_store :: kv_store
  cw_state :: conversations
  cw_writes :: "(string \<times> stored_message) list"
  cw_sends :: "(string \<times> stored_message) list"
  cw_reads :: "(string \<times> stored_message list) list"

definition freshConsole :: "kv_store \<Rightarrow> console_world" where
  "freshConsole st = \<lparr>cw_store = st, cw_state = [], cw_writes = [], cw_sends = [], cw_reads = []\<rparr>"

datatype console_event =
    Receives string stored_message
  | WriteEnds string stored_message
  | WriteFails string stored_message
  | SendStored string stored_message
  | SendShown string stored_message
  | ListsHistory string
  | Restores string "string list" "stored_message list"
  | Acts conversation_action
  | Reloads

text \<open>
  \<open>onMessage\<close>: starts the write through \<open>persist\<close>, and dispatches the message. Routers are created, and messages sent,
  for conversations that have been opened.
\<close>

definition receivesMessage :: "string \<Rightarrow> stored_message \<Rightarrow> console_world \<Rightarrow> console_world option" where
  "receivesMessage roomPath message w =
     (if jget (cw_state w) roomPath = None then None
      else Some (w\<lparr>cw_writes := cw_writes w @ [(roomPath, message)],
                   cw_state := reduceConversations (cw_state w) (Message roomPath message)\<rparr>))"

definition persistSettles :: "store_codec \<Rightarrow> bool \<Rightarrow> string \<Rightarrow> stored_message \<Rightarrow> console_world \<Rightarrow> console_world option" where
  "persistSettles codec succeeded roomPath message w =
     (if (roomPath, message) \<in> set (cw_writes w)
      then Some (w\<lparr>cw_writes := remove1 (roomPath, message) (cw_writes w),
                   cw_store := (if succeeded then appendMessage codec roomPath message (cw_store w) else cw_store w)\<rparr>)
      else None)"

text \<open>The end of \<open>deliver\<close>, once the peer has answered and the append has ended, and what \<open>attempt\<close> does with the result.\<close>

definition sendStored :: "store_codec \<Rightarrow> string \<Rightarrow> stored_message \<Rightarrow> console_world \<Rightarrow> console_world option" where
  "sendStored codec roomPath message w =
     (if jget (cw_state w) roomPath = None then None
      else Some (w\<lparr>cw_store := appendMessage codec roomPath message (cw_store w), cw_sends := cw_sends w @ [(roomPath, message)]\<rparr>))"

definition sendShown :: "string \<Rightarrow> stored_message \<Rightarrow> console_world \<Rightarrow> console_world option" where
  "sendShown roomPath message w =
     (if (roomPath, message) \<in> set (cw_sends w)
      then Some (w\<lparr>cw_sends := remove1 (roomPath, message) (cw_sends w),
                   cw_state := reduceConversations (cw_state w) (Message roomPath message)\<rparr>)
      else None)"

definition listsHistory :: "store_codec \<Rightarrow> string \<Rightarrow> console_world \<Rightarrow> console_world" where
  "listsHistory codec roomPath w =
     (case listMessages codec roomPath (cw_store w) of
        Inl _ \<Rightarrow> w
      | Inr messages \<Rightarrow> w\<lparr>cw_reads := cw_reads w @ [(roomPath, messages)]\<rparr>)"

definition restoresHistory :: "string \<Rightarrow> string list \<Rightarrow> stored_message list \<Rightarrow> console_world \<Rightarrow> console_world option" where
  "restoresHistory roomPath participants messages w =
     (if (roomPath, messages) \<in> set (cw_reads w)
      then Some (w\<lparr>cw_reads := remove1 (roomPath, messages) (cw_reads w),
                   cw_state := reduceConversations (cw_state w) (Restored roomPath participants messages)\<rparr>)
      else None)"

text \<open>Any other action of the reducer; and loading the page again, which leaves only what is stored.\<close>

definition consoleStep :: "store_codec \<Rightarrow> console_event \<Rightarrow> console_world \<Rightarrow> console_world option" where
  "consoleStep codec ev w =
     (case ev of
        Receives roomPath message \<Rightarrow> receivesMessage roomPath message w
      | WriteEnds roomPath message \<Rightarrow> persistSettles codec True roomPath message w
      | WriteFails roomPath message \<Rightarrow> persistSettles codec False roomPath message w
      | SendStored roomPath message \<Rightarrow> sendStored codec roomPath message w
      | SendShown roomPath message \<Rightarrow> sendShown roomPath message w
      | ListsHistory roomPath \<Rightarrow> Some (listsHistory codec roomPath w)
      | Restores roomPath participants messages \<Rightarrow> restoresHistory roomPath participants messages w
      | Acts action \<Rightarrow> Some (w\<lparr>cw_state := reduceConversations (cw_state w) action\<rparr>)
      | Reloads \<Rightarrow> Some (freshConsole (cw_store w)))"

definition consoleRun :: "store_codec \<Rightarrow> console_event list \<Rightarrow> console_world option" where
  "consoleRun codec evs = foldl (\<lambda>w ev. Option.bind w (consoleStep codec ev)) (Some (freshConsole [])) evs"

lemma console_run_nil [simp]: "consoleRun codec [] = Some (freshConsole [])"
  by (simp add: consoleRun_def)

lemma console_run_snoc [simp]: "consoleRun codec (evs @ [ev]) = Option.bind (consoleRun codec evs) (consoleStep codec ev)"
  by (simp add: consoleRun_def)

lemma freshConsole_simps [simp]:
  "cw_store (freshConsole st) = st" "cw_state (freshConsole st) = []" "cw_writes (freshConsole st) = []" "cw_sends (freshConsole st) = []"
  "cw_reads (freshConsole st) = []"
  by (simp_all add: freshConsole_def)

end
