(* ===== verification/ConsoleProperties.thy ===== *)
theory ConsoleProperties
  imports ConsoleHistory SampleCodecs
begin

text \<open>
  The conversations a console shows against the history it keeps: an invariant of the reducer, and how far, at any
  time after its history was loaded, what a conversation shows is what a reload would show.
\<close>

subsection \<open>The order of messages\<close>

interpretation messages: comparator compareMessages
proof
  fix x y :: stored_message
  show "compareMessages x y \<le> 0 \<or> compareMessages y x < 0"
    using strings.cmp_swap by (auto simp: compareMessages_def)
next
  fix x y z :: stored_message
  assume "compareMessages x y \<le> 0" "compareMessages y z \<le> 0"
  then show "compareMessages x z \<le> 0"
    using strings.cmp_trans by (auto simp: compareMessages_def split: if_splits)
qed

abbreviation shownInOrder :: "stored_message list \<Rightarrow> bool" where
  "shownInOrder \<equiv> sorted_wrt (\<lambda>x y. compareMessages x y \<le> 0)"

definition ids_unique :: "stored_message set \<Rightarrow> bool" where
  "ids_unique M \<longleftrightarrow> (\<forall>m \<in> M. \<forall>m' \<in> M. msg_messageId m = msg_messageId m' \<longrightarrow> m = m')"

lemma ids_unique_subset: "ids_unique M \<Longrightarrow> N \<subseteq> M \<Longrightarrow> ids_unique N"
  unfolding ids_unique_def by blast

lemma messages_antisym:
  "ids_unique M \<Longrightarrow> a \<in> M \<Longrightarrow> b \<in> M \<Longrightarrow> compareMessages a b \<le> 0 \<Longrightarrow> compareMessages b a \<le> 0 \<Longrightarrow> a = b"
  using strings_antisym [of "bytesToHex (msg_messageId a)" "bytesToHex (msg_messageId b)"]
  unfolding ids_unique_def by (auto simp: compareMessages_def split: if_splits)

lemma messages_unique:
  assumes "shownInOrder xs" "shownInOrder ys" "distinct xs" "distinct ys" "set xs = set ys" "ids_unique (set xs)"
  shows "xs = ys"
  by (rule messages.cmp_sorted_unique [OF assms(1-5)]) (use messages_antisym [OF assms(6)] in blast)

subsection \<open>What a room's history holds\<close>

definition roomPrefix :: "string \<Rightarrow> string" where
  "roomPrefix room = MESSAGE_KEY_PREFIX @ CHR ''/'' # room @ ''/''"

definition codec_law :: "store_codec \<Rightarrow> bool" where
  "codec_law codec \<longleftrightarrow> (\<forall>m. scd_decode codec (scd_encode codec (messageJson m)) = Some (messageJson m))"

definition holds_room :: "store_codec \<Rightarrow> string \<Rightarrow> kv_store \<Rightarrow> stored_message set \<Rightarrow> bool" where
  "holds_room codec room st M \<longleftrightarrow> jwf st \<and> set (storageKeys st (roomPrefix room)) = messageKey room ` M
     \<and> (\<forall>m \<in> M. jget st (messageKey room m) = Some (scd_encode codec (messageJson m)))"

lemma stored_message_roundtrip [simp]: "isStoredMessage (messageJson m) = Some m"
  by (cases m; cases "msg_direction m") (simp_all add: isStoredMessage_def messageJson_def isDirection_def directionJson_def)

lemma messageKey_inj:
  assumes "timely a" "timely b" "ids_unique M" "a \<in> M" "b \<in> M" "messageKey room a = messageKey room b"
  shows "a = b"
proof -
  have "\<not> compareMessages a b < 0" "\<not> compareMessages b a < 0"
    using messageKey_less [OF assms(1,2), of room] messageKey_less [OF assms(2,1), of room] assms(6) by auto
  then have "compareMessages a b \<le> 0" "compareMessages b a \<le> 0"
    using messages.cmp_swap [of a b] messages.cmp_swap [of b a] by linarith+
  then show ?thesis using messages_antisym assms(3-5) by blast
qed

lemma read_keys:
  assumes "codec_law codec" "\<forall>k \<in> set keys. \<exists>m \<in> M. k = messageKey room m"
    and "\<forall>m \<in> M. jget st (messageKey room m) = Some (scd_encode codec (messageJson m))"
  shows "\<exists>ms. readMessages codec st keys = Ok ms \<and> map (messageKey room) ms = keys \<and> set ms \<subseteq> M"
  using assms(2)
proof (induction keys)
  case (Cons k keys)
  then obtain ms m where "readMessages codec st keys = Ok ms" "map (messageKey room) ms = keys" "set ms \<subseteq> M" "m \<in> M" "k = messageKey room m"
    by auto
  moreover have "jget st (messageKey room m) = Some (scd_encode codec (messageJson m))" using assms(3) \<open>m \<in> M\<close> by blast
  ultimately show ?case using assms(1) by (auto simp: codec_law_def intro!: exI [of _ "m # ms"])
qed simp

lemma list_room:
  assumes "codec_law codec" "holds_room codec room st M" "\<forall>m \<in> M. timely m" "ids_unique M"
  shows "\<exists>ms. listMessages codec room st = Ok ms \<and> set ms = M \<and> distinct ms \<and> shownInOrder ms"
proof -
  let ?keys = "sortBy compareStrings (storageKeys st (roomPrefix room))"
  have keys: "set ?keys = messageKey room ` M" "distinct ?keys" "sorted_wrt (\<lambda>x y. compareStrings x y \<le> 0) ?keys"
    using assms(2) strings.cmp_sorted_sort unfolding holds_room_def by (auto simp: storageKeys_def jwf_def)
  obtain ms where ms: "readMessages codec st ?keys = Ok ms" "map (messageKey room) ms = ?keys" "set ms \<subseteq> M"
    using read_keys [OF assms(1), of ?keys M room st] keys(1) assms(2) unfolding holds_room_def by blast
  have "m \<in> set ms" if "m \<in> M" for m
  proof -
    have "messageKey room m \<in> set (map (messageKey room) ms)" unfolding ms(2) keys(1) using that by simp
    then obtain m' where "m' \<in> set ms" "messageKey room m' = messageKey room m" by auto
    then show ?thesis using messageKey_inj assms(3,4) ms(3) that by blast
  qed
  then have "set ms = M" using ms(3) by blast
  moreover have "distinct ms" using keys(2) ms(2) by (metis distinct_map)
  moreover have "shownInOrder ms"
  proof (rule sorted_wrt_mono_rel)
    show "sorted_wrt (\<lambda>x y. compareStrings (messageKey room x) (messageKey room y) \<le> 0) ms"
      using keys(3) unfolding ms(2) [symmetric] sorted_wrt_map .
    show "compareMessages x y \<le> 0" if "x \<in> set ms" "y \<in> set ms" "compareStrings (messageKey room x) (messageKey room y) \<le> 0" for x y
    proof -
      have "\<not> strLess (messageKey room y) (messageKey room x)"
        using that(3) strLess_asym by (auto simp: compareStrings_def split: if_splits)
      then have "\<not> compareMessages y x < 0" using messageKey_less that(1,2) ms(3) assms(3) by blast
      then show ?thesis using messages.cmp_swap [of x y] by blast
    qed
  qed
  ultimately show ?thesis using ms(1) by (simp add: listMessages_def roomPrefix_def)
qed

subsection \<open>Rooms do not share keys\<close>

lemma room_shape:
  assumes "is_ok (parseRoomPath room)"
  obtains owner nm where "room = owner @ CHR ''/'' # nm" "deviceIdHexPattern owner" "CHR ''/'' \<notin> set nm"
  | a b where "room = a @ CHR ''+'' # b" "CHR ''/'' \<notin> set room" "CHR ''+'' \<in> set room"
proof -
  from assms obtain parsed where p: "parseRoomPath room = Ok parsed" by (auto simp: is_ok_iff)
  show thesis
  proof (cases parsed)
    case (OwnerNamed owner nm)
    then have "deviceIdHexPattern owner" "localNamePattern nm" "room = owner @ CHR ''/'' # nm" using p parse_owner_iff by auto
    moreover from this(2) have "CHR ''/'' \<notin> set nm" by (auto simp: localNamePattern_def list_all_iff)
    ultimately show thesis using that(1) by blast
  next
    case (Dm a b)
    then have "deviceIdHexPattern a" "deviceIdHexPattern b" "room = a @ CHR ''+'' # b" using p parse_dm_iff by auto
    then show thesis using that(2) [of a b] pattern_no_separator [of a] pattern_no_separator [of b] by auto
  qed
qed

lemma before_separator: "c \<notin> set x \<Longrightarrow> c \<notin> set y \<Longrightarrow> x @ c # u = y @ c # v \<Longrightarrow> x = y \<and> u = v"
proof (induction x arbitrary: y)
  case Nil
  then show ?case by (cases y) auto
next
  case (Cons d x)
  then show ?case by (cases y) auto
qed

lemma rooms_apart:
  assumes "is_ok (parseRoomPath room)" "is_ok (parseRoomPath room')" "CHR ''/'' \<notin> set rest"
    and same: "room @ CHR ''/'' # rest = room' @ CHR ''/'' # others"
  shows "room = room'"
  using assms(2)
proof (cases rule: room_shape)
  case (1 owner' nm')
  note r' = 1
  show ?thesis using assms(1)
  proof (cases rule: room_shape)
    case (1 owner nm)
    have "owner @ CHR ''/'' # (nm @ CHR ''/'' # rest) = owner' @ CHR ''/'' # (nm' @ CHR ''/'' # others)" using same 1(1) r'(1) by simp
    from before_separator [OF _ _ this] have "owner = owner'" "nm @ CHR ''/'' # rest = nm' @ CHR ''/'' # others"
      using pattern_no_separator [OF 1(2)] pattern_no_separator [OF r'(2)] by simp_all
    with before_separator [OF 1(3) r'(3) this(2)] show ?thesis using 1(1) r'(1) by simp
  next
    case (2 a b)
    have "room @ CHR ''/'' # rest = owner' @ CHR ''/'' # (nm' @ CHR ''/'' # others)" using same r'(1) by simp
    from before_separator [OF 2(2) _ this] have "rest = nm' @ CHR ''/'' # others" using pattern_no_separator [OF r'(2)] by simp
    then show ?thesis using assms(3) by simp
  qed
next
  case (2 a' b')
  note r' = 2
  show ?thesis using assms(1)
  proof (cases rule: room_shape)
    case (1 owner nm)
    have "owner @ CHR ''/'' # (nm @ CHR ''/'' # rest) = room' @ CHR ''/'' # others" using same 1(1) by simp
    from before_separator [OF _ r'(2) this] have "owner = room'" using pattern_no_separator [OF 1(2)] by simp
    then show ?thesis using pattern_no_separator [OF 1(2)] r'(3) by simp
  next
    case (2 a b)
    from before_separator [OF 2(2) r'(2) same] show ?thesis by simp
  qed
qed

subsection \<open>Keeping a message\<close>

lemma key_parts:
  assumes "timely m"
  shows "\<exists>rest. messageKey room m = MESSAGE_KEY_PREFIX @ CHR ''/'' # room @ CHR ''/'' # rest \<and> CHR ''/'' \<notin> set rest"
proof -
  have "\<not> isDigit (CHR ''/'')" by (simp add: isDigit_def decDigits_def)
  then have "CHR ''/'' \<notin> set (padStart SENT_AT_KEY_WIDTH (CHR ''0'') (natToString (nat (msg_sentAt m))))"
    using natToString_digits [of "nat (msg_sentAt m)"] by (auto simp: padStart_def list_all_iff)
  then show ?thesis using assms hex_no_slash [of "msg_messageId m"] by (auto simp: messageKey_def intToString_def timely_def)
qed

lemma key_own_prefix: "take (length (roomPrefix room)) (messageKey room m) = roomPrefix room"
  by (simp add: messageKey_def roomPrefix_def)

lemma key_other_prefix:
  assumes "timely m" "is_ok (parseRoomPath room)" "is_ok (parseRoomPath room')" "room \<noteq> room'"
  shows "take (length (roomPrefix room')) (messageKey room m) \<noteq> roomPrefix room'"
proof
  assume "take (length (roomPrefix room')) (messageKey room m) = roomPrefix room'"
  then have "messageKey room m = roomPrefix room' @ drop (length (roomPrefix room')) (messageKey room m)"
    using append_take_drop_id [of "length (roomPrefix room')" "messageKey room m"] by simp
  moreover obtain rest where rest: "messageKey room m = MESSAGE_KEY_PREFIX @ CHR ''/'' # room @ CHR ''/'' # rest" "CHR ''/'' \<notin> set rest"
    using key_parts [OF assms(1)] by blast
  ultimately have "room @ CHR ''/'' # rest = room' @ CHR ''/'' # drop (length (roomPrefix room')) (messageKey room m)"
    unfolding roomPrefix_def by simp
  then show False using rooms_apart [OF assms(2,3) rest(2)] assms(4) by blast
qed

lemma append_holds:
  assumes "holds_room codec room st M" "\<forall>x \<in> insert m M. timely x" "ids_unique (insert m M)"
  shows "holds_room codec room (appendMessage codec room m st) (insert m M)"
proof -
  have "jget (appendMessage codec room m st) (messageKey room x) = Some (scd_encode codec (messageJson x))" if "x \<in> insert m M" for x
  proof (cases "messageKey room x = messageKey room m")
    case True
    then have "x = m" using messageKey_inj [OF _ _ assms(3) that _ True] assms(2) that by blast
    then show ?thesis by (simp add: appendMessage_def)
  next
    case False
    then show ?thesis using that assms(1) by (auto simp: appendMessage_def holds_room_def)
  qed
  then show ?thesis using assms(1) unfolding holds_room_def
    by (simp add: appendMessage_def storageKeys_jset key_own_prefix)
qed

lemma append_elsewhere:
  assumes "holds_room codec room' st M" "timely m" "is_ok (parseRoomPath room)" "is_ok (parseRoomPath room')" "room \<noteq> room'"
  shows "holds_room codec room' (appendMessage codec room m st) M"
proof -
  have no: "take (length (roomPrefix room')) (messageKey room m) \<noteq> roomPrefix room'" using key_other_prefix assms(2-5) by blast
  then have "messageKey room' x \<noteq> messageKey room m" for x using key_own_prefix by metis
  then show ?thesis using assms(1) no unfolding holds_room_def by (simp add: appendMessage_def storageKeys_jset)
qed

subsection \<open>What a conversation shows\<close>

definition shown :: "stored_message set \<Rightarrow> conversation \<Rightarrow> bool" where
  "shown M entry \<longleftrightarrow> shownInOrder (cv_messages entry) \<and> distinct (cv_messages entry) \<and> set (cv_messages entry) \<subseteq> M"

lemma merge_shown:
  assumes "shownInOrder existing" "distinct existing" "set existing \<subseteq> M" "distinct incoming" "set incoming \<subseteq> M" "ids_unique M"
  shows "shownInOrder (mergeMessages existing incoming) \<and> distinct (mergeMessages existing incoming)
    \<and> set (mergeMessages existing incoming) = set existing \<union> set incoming"
proof -
  have added: "set (addedMessages existing incoming) = set incoming - set existing"
    using assms(3,5,6) unfolding ids_unique_def by (auto simp: addedMessages_def) (metis subsetD)
  have "distinct (addedMessages existing incoming)" using assms(4) by (simp add: addedMessages_def)
  then have "distinct (existing @ addedMessages existing incoming)" using assms(2) added by auto
  moreover have "set incoming \<subseteq> set existing" if "addedMessages existing incoming = []" using added that by auto
  ultimately show ?thesis using assms(1,2) messages.cmp_sorted_sort added
    by (cases "addedMessages existing incoming = []") (auto simp: mergeMessages_def Let_def)
qed

lemma shown_mono: "shown M entry \<Longrightarrow> M \<subseteq> N \<Longrightarrow> shown N entry"
  unfolding shown_def by blast

definition carries :: "conversation_action \<Rightarrow> bool" where
  "carries a = (case a of Restored _ _ _ \<Rightarrow> True | Message _ _ \<Rightarrow> True | _ \<Rightarrow> False)"

text \<open>How an action may change the messages of a room: not at all, but for a new entry without any.\<close>

definition keeps_messages :: "conversations \<Rightarrow> conversations \<Rightarrow> bool" where
  "keeps_messages old new \<longleftrightarrow>
     (\<forall>room. case jget old room of
        Some e \<Rightarrow> (\<exists>e'. jget new room = Some e' \<and> cv_messages e' = cv_messages e)
      | None \<Rightarrow> (\<forall>e'. jget new room = Some e' \<longrightarrow> cv_messages e' = []))"

lemma keeps_refl: "keeps_messages s s"
  by (simp add: keeps_messages_def split: option.split)

lemma keeps_trans: "keeps_messages a b \<Longrightarrow> keeps_messages b c \<Longrightarrow> keeps_messages a c"
proof -
  assume ab: "keeps_messages a b" and bc: "keeps_messages b c"
  show ?thesis unfolding keeps_messages_def
  proof (intro allI)
    fix room
    show "case jget a room of Some e \<Rightarrow> \<exists>e'. jget c room = Some e' \<and> cv_messages e' = cv_messages e
        | None \<Rightarrow> \<forall>e'. jget c room = Some e' \<longrightarrow> cv_messages e' = []"
      using ab [unfolded keeps_messages_def, rule_format, of room] bc [unfolded keeps_messages_def, rule_format, of room]
      by (cases "jget a room"; cases "jget b room") auto
  qed
qed

lemma keeps_update: "(\<And>e. cv_messages (f e) = cv_messages e) \<Longrightarrow> keeps_messages s (updateConversation s room f)"
  by (auto simp: keeps_messages_def updateConversation_def split: option.split)

lemma keeps_put: "cv_messages e' = cv_messages (orBlank s room ps) \<Longrightarrow> keeps_messages s (jset s room e')"
  by (auto simp: keeps_messages_def orBlank_def blank_def split: option.split)

lemma withRoutes_messages [simp]: "cv_messages (withRoutes e d r) = cv_messages e"
  by (simp add: withRoutes_def Let_def)

lemma keeps_drop_hubs: "keeps_messages s (fold (dropHubRoute hub) es t)" if "keeps_messages s t"
  using that
proof (induction es arbitrary: t)
  case (Cons e es)
  have "keeps_messages t (dropHubRoute hub e t)"
    using keeps_update [of "\<lambda>current. withRoutes current (cv_direct current) None" t] keeps_refl by (simp add: dropHubRoute_def)
  then show ?case using Cons keeps_trans by fastforce
qed simp

lemma reduce_keeps: "\<not> carries a \<Longrightarrow> keeps_messages s (reduceConversations s a)"
  by (cases a) (auto simp: reduceConversations_def carries_def Let_def intro!: keeps_update keeps_put keeps_drop_hubs keeps_refl)

subsection \<open>Routes\<close>

text \<open>An entry stands under its room path, reports the route it has, and holds each outgoing message once.\<close>

definition conversation_ok :: "string \<Rightarrow> conversation \<Rightarrow> bool" where
  "conversation_ok room e \<longleftrightarrow> cv_roomPath e = room
     \<and> cv_via e = (if cv_direct e \<noteq> None then Some ViaDirect else if cv_relay e \<noteq> None then Some ViaHub else None)
     \<and> cv_status e = (if cv_via e = None then ConversationClosed else ConversationConnected)
     \<and> distinct (map po_localId (cv_outgoing e))"

definition conversations_ok :: "conversations \<Rightarrow> bool" where
  "conversations_ok s \<longleftrightarrow> jwf s \<and> (\<forall>room e. jget s room = Some e \<longrightarrow> conversation_ok room e)"

lemma conversations_ok_jset: "conversations_ok s \<Longrightarrow> conversation_ok room e \<Longrightarrow> conversations_ok (jset s room e)"
  by (simp add: conversations_ok_def)

lemma conversations_ok_update:
  "conversations_ok s \<Longrightarrow> (\<And>e. conversation_ok room e \<Longrightarrow> conversation_ok room (f e)) \<Longrightarrow> conversations_ok (updateConversation s room f)"
  by (simp add: updateConversation_def conversations_ok_def split: option.split)

lemma orBlank_ok: "conversations_ok s \<Longrightarrow> conversation_ok room (orBlank s room ps)"
  by (simp add: conversations_ok_def orBlank_def blank_def conversation_ok_def split: option.split)

lemma withRoutes_ok: "conversation_ok room e \<Longrightarrow> conversation_ok room (withRoutes e d r)"
  by (simp add: conversation_ok_def withRoutes_def Let_def)

lemma putOutgoing_distinct: "distinct (map po_localId os) \<Longrightarrow> distinct (map po_localId (putOutgoing p os))"
proof -
  have "map (po_localId \<circ> (\<lambda>q. if po_localId q = po_localId p then p else q)) os = map po_localId os" by auto
  then show "distinct (map po_localId os) \<Longrightarrow> distinct (map po_localId (putOutgoing p os))"
    unfolding putOutgoing_def by (simp only: map_map if_distrib [of "map po_localId"] if_distrib [of distinct]) auto
qed

lemma drop_hubs_ok: "conversations_ok s \<Longrightarrow> conversations_ok (fold (dropHubRoute hub) es s)"
  by (induction es arbitrary: s) (simp_all add: dropHubRoute_def conversations_ok_update withRoutes_ok)

lemma reduce_ok: "conversations_ok s \<Longrightarrow> conversations_ok (reduceConversations s a)"
proof (cases a)
  case (DirectOpened room ps session)
  assume ok: "conversations_ok s"
  let ?e = "withRoutes (orBlank s room ps) (Some session) (cv_relay (orBlank s room ps))"
  have "conversation_ok room ?e" using withRoutes_ok orBlank_ok [OF ok] by blast
  then have "conversation_ok room (?e\<lparr>cv_participants := ps, cv_notices := []\<rparr>)" by (simp add: conversation_ok_def)
  then show ?thesis using conversations_ok_jset [OF ok] DirectOpened by (simp add: reduceConversations_def Let_def)
next
  case (Restored room ps ms)
  assume ok: "conversations_ok s"
  have "conversation_ok room ((blank room ps)\<lparr>cv_messages := mergeMessages [] ms\<rparr>)" by (simp add: conversation_ok_def blank_def)
  then have "conversations_ok (jset s room ((blank room ps)\<lparr>cv_messages := mergeMessages [] ms\<rparr>))" using conversations_ok_jset [OF ok] by blast
  moreover have "conversations_ok (updateConversation s room (\<lambda>e. e\<lparr>cv_messages := mergeMessages (cv_messages e) ms\<rparr>))"
    by (rule conversations_ok_update [OF ok]) (simp add: conversation_ok_def)
  ultimately show ?thesis using Restored by (simp add: reduceConversations_def split: option.split)
next
  case (Message room m)
  then show "conversations_ok s \<Longrightarrow> ?thesis"
    using conversations_ok_update [of s room "receiveMessage m"] by (simp add: reduceConversations_def conversation_ok_def receiveMessage_def Let_def)
qed (auto simp: reduceConversations_def Let_def conversation_ok_def distinct_map_filter putOutgoing_distinct
  intro!: conversations_ok_jset conversations_ok_update withRoutes_ok orBlank_ok drop_hubs_ok)

subsection \<open>A console over its storage\<close>

definition storedIn :: "string \<Rightarrow> console_event list \<Rightarrow> stored_message set" where
  "storedIn room evs = {m. WriteEnds room m \<in> set evs \<or> SendStored room m \<in> set evs}"

definition receivedIn :: "string \<Rightarrow> console_event list \<Rightarrow> stored_message set" where
  "receivedIn room evs = {m. Receives room m \<in> set evs}"

text \<open>Received, but its write has not ended well.\<close>

definition unwritten :: "string \<Rightarrow> console_event list \<Rightarrow> stored_message set" where
  "unwritten room evs = receivedIn room evs - storedIn room evs"

definition messagesOf :: "string \<Rightarrow> console_event list \<Rightarrow> stored_message set" where
  "messagesOf room evs = receivedIn room evs \<union> storedIn room evs"

definition proper :: "console_event \<Rightarrow> bool" where
  "proper ev =
     (case ev of
        Receives room m \<Rightarrow> is_ok (parseRoomPath room) \<and> timely m
      | SendStored room m \<Rightarrow> is_ok (parseRoomPath room) \<and> timely m
      | ListsHistory room \<Rightarrow> is_ok (parseRoomPath room)
      | Acts a \<Rightarrow> \<not> carries a
      | _ \<Rightarrow> True)"

definition shownIn :: "console_world \<Rightarrow> string \<Rightarrow> stored_message set" where
  "shownIn w room = (case jget (cw_state w) room of None \<Rightarrow> {} | Some entry \<Rightarrow> set (cv_messages entry))"

definition sendsIn :: "console_world \<Rightarrow> string \<Rightarrow> stored_message set" where
  "sendsIn w room = {m. (room, m) \<in> set (cw_sends w)}"

text \<open>
  Of one room: the store holds what was stored, what is shown is in order and was received or stored, what is being written
  or sent belongs to an open conversation, and what has been stored since a list was taken is shown or about to be.
\<close>

definition room_ok :: "store_codec \<Rightarrow> console_event list \<Rightarrow> console_world \<Rightarrow> string \<Rightarrow> bool" where
  "room_ok codec evs w room \<longleftrightarrow>
     holds_room codec room (cw_store w) (storedIn room evs)
     \<and> (\<forall>entry. jget (cw_state w) room = Some entry \<longrightarrow> shown (messagesOf room evs) entry)
     \<and> (\<forall>m. (room, m) \<in> set (cw_writes w) \<longrightarrow> m \<in> shownIn w room \<and> m \<in> receivedIn room evs)
     \<and> sendsIn w room \<subseteq> storedIn room evs \<and> (sendsIn w room \<noteq> {} \<longrightarrow> jget (cw_state w) room \<noteq> None)
     \<and> (\<forall>ms. (room, ms) \<in> set (cw_reads w) \<longrightarrow> set ms \<subseteq> storedIn room evs \<and> distinct ms
          \<and> storedIn room evs \<subseteq> set ms \<union> shownIn w room \<union> sendsIn w room)"

definition console_ok :: "store_codec \<Rightarrow> console_event list \<Rightarrow> console_world \<Rightarrow> bool" where
  "console_ok codec evs w \<longleftrightarrow>
     (\<forall>room. is_ok (parseRoomPath room) \<longrightarrow> room_ok codec evs w room)
     \<and> list_all (\<lambda>(room, m). is_ok (parseRoomPath room) \<and> timely m) (cw_writes w)
     \<and> list_all (\<lambda>(room, m). is_ok (parseRoomPath room)) (cw_sends w)
     \<and> list_all (\<lambda>(room, ms). is_ok (parseRoomPath room)) (cw_reads w)"

lemma sets_snoc [simp]:
  "storedIn room (evs @ [ev]) = storedIn room evs \<union> {m. ev = WriteEnds room m \<or> ev = SendStored room m}"
  "receivedIn room (evs @ [ev]) = receivedIn room evs \<union> {m. ev = Receives room m}"
  "messagesOf room (evs @ [ev]) = messagesOf room evs \<union> {m. ev = Receives room m \<or> ev = WriteEnds room m \<or> ev = SendStored room m}"
  by (auto simp: storedIn_def receivedIn_def messagesOf_def)

lemma keeps_shown:
  assumes "keeps_messages s s'" "\<And>entry. jget s room = Some entry \<Longrightarrow> shown M entry" "jget s' room = Some entry"
  shows "shown M entry"
  using assms(1) [unfolded keeps_messages_def, rule_format, of room] assms(2,3)
  by (cases "jget s room") (auto simp: shown_def)

lemma restored_messages:
  "jget (reduceConversations s (Restored room ps ms)) r =
     (if r = room then Some ((case jget s room of Some e \<Rightarrow> e | None \<Rightarrow> blank room ps)
        \<lparr>cv_messages := mergeMessages (case jget s room of Some e \<Rightarrow> cv_messages e | None \<Rightarrow> []) ms\<rparr>) else jget s r)"
  by (simp add: reduceConversations_def updateConversation_def split: option.split)

lemma message_messages:
  "jget (reduceConversations s (Message room m)) r = (if r = room then map_option (receiveMessage m) (jget s room) else jget s r)"
  by (simp add: reduceConversations_def updateConversation_def split: option.split)

lemma received_messages [simp]: "cv_messages (receiveMessage m e) = mergeMessages (cv_messages e) [m]"
  by (simp add: receiveMessage_def Let_def)

text \<open>What a step does to a conversation: it merges messages, or leaves them.\<close>

definition merged :: "console_world \<Rightarrow> string \<Rightarrow> stored_message list \<Rightarrow> console_world \<Rightarrow> bool" where
  "merged w room ms w' \<longleftrightarrow>
     (\<forall>entry'. jget (cw_state w') room = Some entry' \<longrightarrow> cv_messages entry' =
        mergeMessages (case jget (cw_state w) room of Some e \<Rightarrow> cv_messages e | None \<Rightarrow> []) ms)
     \<and> (jget (cw_state w) room \<noteq> None \<longrightarrow> jget (cw_state w') room \<noteq> None)"

lemma merge_nothing [simp]: "mergeMessages xs [] = xs"
  by (simp add: mergeMessages_def addedMessages_def)

lemma merged_shown:
  assumes "merged w room ms w'" "\<forall>entry. jget (cw_state w) room = Some entry \<longrightarrow> shown M entry"
    and "M \<subseteq> N" "set ms \<subseteq> N" "distinct ms" "ids_unique N"
  shows "\<forall>entry. jget (cw_state w') room = Some entry \<longrightarrow> shown N entry"
    and "shownIn w room \<subseteq> shownIn w' room" "jget (cw_state w') room \<noteq> None \<Longrightarrow> shownIn w' room = shownIn w room \<union> set ms"
proof -
  let ?old = "case jget (cw_state w) room of Some e \<Rightarrow> cv_messages e | None \<Rightarrow> []"
  have old: "shownInOrder ?old \<and> distinct ?old \<and> set ?old \<subseteq> N" "set ?old = shownIn w room"
    using assms(2,3) by (auto simp: shown_def shownIn_def split: option.split)
  note m = merge_shown [of ?old N ms, OF _ _ _ assms(5,4,6)]
  show "\<forall>entry. jget (cw_state w') room = Some entry \<longrightarrow> shown N entry"
    using assms(1,4) m old by (auto simp: merged_def shown_def)
  show all: "jget (cw_state w') room \<noteq> None \<Longrightarrow> shownIn w' room = shownIn w room \<union> set ms"
    using assms(1) m old by (auto simp: merged_def shownIn_def [of w'])
  show "shownIn w room \<subseteq> shownIn w' room"
  proof (cases "jget (cw_state w') room")
    case None
    then show ?thesis using assms(1) by (auto simp: merged_def shownIn_def)
  qed (use all in auto)
qed

text \<open>The messages a step merges into a room.\<close>

definition mergedBy :: "console_event \<Rightarrow> string \<Rightarrow> stored_message list" where
  "mergedBy ev room =
     (case ev of
        Receives r m \<Rightarrow> if r = room then [m] else []
      | SendShown r m \<Rightarrow> if r = room then [m] else []
      | Restores r ps ms \<Rightarrow> if r = room then ms else []
      | _ \<Rightarrow> [])"

lemma keeps_merged: "keeps_messages (cw_state w) (cw_state w') \<Longrightarrow> merged w room [] w'"
  by (auto simp: merged_def keeps_messages_def split: option.splits dest!: spec [of _ room])

lemma step_merges:
  assumes "consoleStep codec ev w = Some w'" "proper ev" "ev \<noteq> Reloads"
  shows "merged w room (mergedBy ev room) w'"
proof (cases ev)
  case (Acts a)
  then show ?thesis using assms reduce_keeps [of a "cw_state w"] keeps_merged [of w w' room]
    by (auto simp: consoleStep_def mergedBy_def proper_def)
qed (use assms in \<open>auto simp: consoleStep_def receivesMessage_def persistSettles_def sendStored_def sendShown_def listsHistory_def
       restoresHistory_def merged_def mergedBy_def message_messages restored_messages split: if_splits option.splits sum.splits\<close>)

lemma step_store:
  assumes "consoleStep codec ev w = Some w'"
  shows "cw_store w' = (case ev of WriteEnds room m \<Rightarrow> appendMessage codec room m (cw_store w)
    | SendStored room m \<Rightarrow> appendMessage codec room m (cw_store w) | _ \<Rightarrow> cw_store w)"
  using assms by (auto simp: consoleStep_def receivesMessage_def persistSettles_def sendStored_def sendShown_def listsHistory_def
      restoresHistory_def split: console_event.splits if_splits sum.splits)

lemma stored_holds:
  assumes "consoleStep codec ev w = Some w'" "console_ok codec evs w" "proper ev" "is_ok (parseRoomPath room)"
    and timely: "\<And>r. \<forall>m \<in> messagesOf r (evs @ [ev]). timely m" and unique: "\<And>r. ids_unique (messagesOf r (evs @ [ev]))"
  shows "holds_room codec room (cw_store w') (storedIn room (evs @ [ev]))"
proof -
  have held: "holds_room codec room (cw_store w) (storedIn room evs)" using assms(2,4) by (simp add: console_ok_def room_ok_def)
  have app: "holds_room codec room (appendMessage codec r m (cw_store w)) (if r = room then insert m (storedIn room evs) else storedIn room evs)"
    if "is_ok (parseRoomPath r)" "m \<in> messagesOf r (evs @ [ev])" for r m
  proof (cases "r = room")
    case True
    have "insert m (storedIn room evs) \<subseteq> messagesOf room (evs @ [ev])" using that(2) True by (auto simp: messagesOf_def)
    then show ?thesis using True append_holds [OF held] timely [of room] ids_unique_subset [OF unique [of room]] by (simp add: subset_iff)
  next
    case False
    then show ?thesis using append_elsewhere [OF held _ that(1) assms(4)] timely [of r] that(2) by auto
  qed
  show ?thesis
  proof (cases ev)
    case (WriteEnds r m)
    then have "(r, m) \<in> set (cw_writes w)" using assms(1) by (simp add: consoleStep_def persistSettles_def split: if_splits)
    then have "is_ok (parseRoomPath r)" using assms(2) by (auto simp: console_ok_def list_all_iff)
    with app [of r m] WriteEnds show ?thesis unfolding step_store [OF assms(1)] by (cases "r = room") auto
  next
    case (SendStored r m)
    with app [of r m] assms(3) show ?thesis unfolding step_store [OF assms(1)] by (cases "r = room") (auto simp: proper_def)
  qed (use held in \<open>simp_all add: step_store [OF assms(1)]\<close>)
qed

lemmas console_defs = consoleStep_def receivesMessage_def persistSettles_def sendStored_def sendShown_def listsHistory_def restoresHistory_def

lemma step_needs:
  assumes "consoleStep codec ev w = Some w'"
  shows "ev = Receives r m \<or> ev = SendStored r m \<Longrightarrow> jget (cw_state w) r \<noteq> None"
    and "ev = SendShown r m \<Longrightarrow> (r, m) \<in> set (cw_sends w)" and "ev = Restores r ps ms \<Longrightarrow> (r, ms) \<in> set (cw_reads w)"
    and "ev = WriteEnds r m \<or> ev = WriteFails r m \<Longrightarrow> (r, m) \<in> set (cw_writes w)"
  using assms by (auto simp: console_defs split: if_splits)

lemma console_step_pending:
  assumes "consoleStep codec ev w = Some w'"
  shows "set (cw_writes w') \<subseteq> set (cw_writes w) \<union> {(r, m). ev = Receives r m}"
    and "set (cw_sends w') \<subseteq> set (cw_sends w) \<union> {(r, m). ev = SendStored r m}"
    and "ev \<noteq> Reloads \<Longrightarrow> set (cw_sends w) \<subseteq> set (cw_sends w') \<union> {(r, m). ev = SendShown r m}"
    and "ev = SendStored r m \<Longrightarrow> (r, m) \<in> set (cw_sends w')"
    and "set (cw_reads w') \<subseteq> set (cw_reads w) \<union> {(r, ms). ev = ListsHistory r \<and> listMessages codec r (cw_store w) = Ok ms}"
  using assms set_remove1_subset
  by (auto simp: console_defs split: console_event.splits if_splits sum.splits dest: set_remove1_subset [THEN subsetD] in_set_remove1 [THEN iffD2, rotated])

lemma room_okD:
  assumes "console_ok codec evs w" "is_ok (parseRoomPath room)"
  shows "holds_room codec room (cw_store w) (storedIn room evs)"
    and "\<forall>entry. jget (cw_state w) room = Some entry \<longrightarrow> shown (messagesOf room evs) entry"
    and "(room, m) \<in> set (cw_writes w) \<Longrightarrow> m \<in> shownIn w room \<and> m \<in> receivedIn room evs"
    and "sendsIn w room \<subseteq> storedIn room evs" and "sendsIn w room \<noteq> {} \<Longrightarrow> jget (cw_state w) room \<noteq> None"
    and "(room, ms) \<in> set (cw_reads w) \<Longrightarrow> set ms \<subseteq> storedIn room evs \<and> distinct ms
          \<and> storedIn room evs \<subseteq> set ms \<union> shownIn w room \<union> sendsIn w room"
  using assms unfolding console_ok_def room_ok_def by blast+

text \<open>Every step but a reload keeps what is shown, shows what it merges, and leaves the conversation open.\<close>

lemma step_shows:
  assumes "consoleStep codec ev w = Some w'" "console_ok codec evs w" "proper ev" "ev \<noteq> Reloads" "is_ok (parseRoomPath room)"
    and "ids_unique (messagesOf room (evs @ [ev]))"
  shows "\<forall>entry. jget (cw_state w') room = Some entry \<longrightarrow> shown (messagesOf room (evs @ [ev])) entry"
    and "shownIn w room \<subseteq> shownIn w' room"
    and "jget (cw_state w') room \<noteq> None \<Longrightarrow> shownIn w' room = shownIn w room \<union> set (mergedBy ev room)"
    and "jget (cw_state w) room \<noteq> None \<Longrightarrow> jget (cw_state w') room \<noteq> None"
proof -
  note ok = room_okD [OF assms(2,5)]
  have known: "set (mergedBy ev room) \<subseteq> messagesOf room (evs @ [ev])" "distinct (mergedBy ev room)"
  proof -
    have shows_sent: "m \<in> storedIn room evs" if "ev = SendShown room m" for m
      using step_needs(2) [OF assms(1) that] ok(4) by (auto simp: sendsIn_def)
    have shows_list: "set ms \<subseteq> storedIn room evs" "distinct ms" if "ev = Restores room ps ms" for ps ms
      using step_needs(3) [OF assms(1) that] ok(6) by blast+
    show "set (mergedBy ev room) \<subseteq> messagesOf room (evs @ [ev])"
      using shows_sent shows_list by (cases ev) (auto simp: mergedBy_def messagesOf_def)
    show "distinct (mergedBy ev room)" using shows_list by (cases ev) (auto simp: mergedBy_def)
  qed
  note m = merged_shown [OF step_merges [OF assms(1,3,4)] ok(2) _ known assms(6)]
  show "\<forall>entry. jget (cw_state w') room = Some entry \<longrightarrow> shown (messagesOf room (evs @ [ev])) entry"
    "shownIn w room \<subseteq> shownIn w' room"
    "jget (cw_state w') room \<noteq> None \<Longrightarrow> shownIn w' room = shownIn w room \<union> set (mergedBy ev room)"
    using m by auto
  show "jget (cw_state w) room \<noteq> None \<Longrightarrow> jget (cw_state w') room \<noteq> None"
    using step_merges [OF assms(1,3,4), of room] by (simp add: merged_def)
qed

lemma sends_settle:
  assumes "consoleStep codec ev w = Some w'" "console_ok codec evs w" "proper ev" "ev \<noteq> Reloads" "is_ok (parseRoomPath room)"
    and "ids_unique (messagesOf room (evs @ [ev]))"
  shows "shownIn w room \<union> sendsIn w room \<subseteq> shownIn w' room \<union> sendsIn w' room"
proof -
  note st = step_shows [OF assms] and ok = room_okD [OF assms(2,5)]
  have "m \<in> shownIn w' room" if "ev = SendShown room m" for m
  proof -
    have "sendsIn w room \<noteq> {}" using step_needs(2) [OF assms(1) that] by (auto simp: sendsIn_def)
    then show ?thesis using st(3) st(4) ok(5) that by (simp add: mergedBy_def)
  qed
  then show ?thesis using st(2) console_step_pending(3) [OF assms(1,4)] by (auto simp: sendsIn_def)
qed

lemma room_step:
  assumes "codec_law codec" "consoleStep codec ev w = Some w'" "console_ok codec evs w" "proper ev" "ev \<noteq> Reloads" "is_ok (parseRoomPath room)"
    and timely: "\<And>r. \<forall>m \<in> messagesOf r (evs @ [ev]). timely m" and unique: "\<And>r. ids_unique (messagesOf r (evs @ [ev]))"
  shows "room_ok codec (evs @ [ev]) w' room"
proof -
  note st = step_shows [OF assms(2-6) unique] and ok = room_okD [OF assms(3,6)] and pend = console_step_pending [OF assms(2)] and needs = step_needs [OF assms(2)]
  have writes: "m \<in> shownIn w' room \<and> m \<in> receivedIn room (evs @ [ev])" if "(room, m) \<in> set (cw_writes w')" for m
  proof (cases "ev = Receives room m")
    case True
    then show ?thesis using st(3) st(4) needs(1) [of room m] by (simp add: mergedBy_def)
  next
    case False
    then show ?thesis using pend(1) that ok(3) st(2) by auto
  qed
  have sends: "sendsIn w' room \<subseteq> storedIn room (evs @ [ev])" "sendsIn w' room \<noteq> {} \<Longrightarrow> jget (cw_state w') room \<noteq> None"
    using pend(2) ok(4) ok(5) st(4) needs(1) by (fastforce simp: sendsIn_def)+
  have stays: "storedIn room (evs @ [ev]) \<subseteq> set ms \<union> shownIn w' room \<union> sendsIn w' room"
    if "storedIn room evs \<subseteq> set ms \<union> shownIn w room \<union> sendsIn w room" for ms
  proof -
    have "m \<in> shownIn w' room" if "ev = WriteEnds room m" for m using needs(4) [of room m] ok(3) st(2) that by auto
    moreover have "m \<in> sendsIn w' room" if "ev = SendStored room m" for m using pend(4) that by (simp add: sendsIn_def)
    ultimately show ?thesis using that sends_settle [OF assms(2-6) unique] by auto
  qed
  have reads: "set ms \<subseteq> storedIn room (evs @ [ev]) \<and> distinct ms \<and> storedIn room (evs @ [ev]) \<subseteq> set ms \<union> shownIn w' room \<union> sendsIn w' room"
    if "(room, ms) \<in> set (cw_reads w')" for ms
  proof (cases "(room, ms) \<in> set (cw_reads w)")
    case True
    then show ?thesis using ok(6) [of ms] stays [of ms] by auto
  next
    case False
    then have listed: "ev = ListsHistory room" "listMessages codec room (cw_store w) = Ok ms" using pend(5) that by auto
    have "\<forall>m \<in> storedIn room evs. timely m" "ids_unique (storedIn room evs)"
      using timely [of room] ids_unique_subset [OF unique [of room]] by (auto simp: messagesOf_def)
    from list_room [OF assms(1) ok(1) this] listed(2) have "set ms = storedIn room evs" "distinct ms" by auto
    then show ?thesis using stays [of ms] by auto
  qed
  show ?thesis
    unfolding room_ok_def
    using stored_holds [OF assms(2,3,4,6) timely unique] st(1) writes sends reads by blast
qed

lemma console_step_ok:
  assumes "codec_law codec" "consoleStep codec ev w = Some w'" "console_ok codec evs w" "proper ev"
    and timely: "\<And>r. \<forall>m \<in> messagesOf r (evs @ [ev]). timely m" and unique: "\<And>r. ids_unique (messagesOf r (evs @ [ev]))"
  shows "console_ok codec (evs @ [ev]) w'"
proof (cases "ev = Reloads")
  case True
  then have w': "w' = freshConsole (cw_store w)" using assms(2) by (simp add: consoleStep_def)
  have "room_ok codec (evs @ [ev]) w' room" if "is_ok (parseRoomPath room)" for room
    using room_okD(1) [OF assms(3) that] True by (simp add: room_ok_def w' sendsIn_def)
  then show ?thesis by (simp add: console_ok_def w')
next
  case False
  have "list_all (\<lambda>(room, m). is_ok (parseRoomPath room) \<and> timely m) (cw_writes w')"
    "list_all (\<lambda>(room, m). is_ok (parseRoomPath room)) (cw_sends w')" "list_all (\<lambda>(room, ms). is_ok (parseRoomPath room)) (cw_reads w')"
    using assms(3,4) console_step_pending [OF assms(2)] by (fastforce simp: console_ok_def list_all_iff proper_def)+
  moreover have "room_ok codec (evs @ [ev]) w' room" if "is_ok (parseRoomPath room)" for room
    by (rule room_step [OF assms(1-4) False that timely unique])
  ultimately show ?thesis by (simp add: console_ok_def)
qed

lemma console_run_ok:
  assumes "codec_law codec" "consoleRun codec evs = Some w" "\<forall>ev \<in> set evs. proper ev" "\<And>room. ids_unique (messagesOf room evs)"
  shows "console_ok codec evs w \<and> (\<forall>room. \<forall>m \<in> messagesOf room evs. timely m)"
  using assms(2-4)
proof (induction evs arbitrary: w rule: rev_induct)
  case Nil
  then show ?case by (auto simp: console_ok_def room_ok_def holds_room_def storedIn_def receivedIn_def messagesOf_def storageKeys_def sendsIn_def)
next
  case (snoc ev evs)
  then obtain w0 where w0: "consoleRun codec evs = Some w0" "consoleStep codec ev w0 = Some w" by (auto simp: Option.bind_eq_Some_conv)
  have "ids_unique (messagesOf room evs)" for room
    by (rule ids_unique_subset [OF snoc.prems(3) [of room]]) auto
  then have ih: "console_ok codec evs w0" "\<forall>room. \<forall>m \<in> messagesOf room evs. timely m"
    using snoc.IH [OF w0(1)] snoc.prems(2) by simp_all
  have "timely m" if "ev = WriteEnds room m" for room m
    using step_needs(4) [OF w0(2)] that ih(1) by (fastforce simp: console_ok_def list_all_iff)
  then have timely: "\<forall>m \<in> messagesOf room (evs @ [ev]). timely m" for room
    using ih(2) snoc.prems(2) by (auto simp: proper_def)
  show ?case using console_step_ok [OF assms(1) w0(2) ih(1) _ timely snoc.prems(3)] snoc.prems(2) timely by simp
qed

text \<open>Once a room's history is restored, its conversation shows every stored message, or is about to, until the page is loaded again.\<close>

definition loaded :: "string \<Rightarrow> console_event list \<Rightarrow> console_world \<Rightarrow> bool" where
  "loaded room evs w \<longleftrightarrow> jget (cw_state w) room \<noteq> None \<and> storedIn room evs \<subseteq> shownIn w room \<union> sendsIn w room"

lemma restore_loads:
  assumes "consoleStep codec (Restores room ps ms) w = Some w'" "console_ok codec evs w" "is_ok (parseRoomPath room)"
    and "ids_unique (messagesOf room (evs @ [Restores room ps ms]))"
  shows "loaded room (evs @ [Restores room ps ms]) w'"
proof -
  have p: "proper (Restores room ps ms)" "Restores room ps ms \<noteq> Reloads" by (simp_all add: proper_def)
  note st = step_shows [OF assms(1,2) p assms(3,4)]
  have exists: "jget (cw_state w') room \<noteq> None"
    using assms(1) by (auto simp: console_defs restored_messages split: if_splits)
  have "storedIn room evs \<subseteq> set ms \<union> shownIn w room \<union> sendsIn w room"
    using step_needs(3) [OF assms(1)] room_okD(6) [OF assms(2,3)] by blast
  moreover have "set ms \<subseteq> shownIn w' room" using st(3) [OF exists] by (simp add: mergedBy_def)
  ultimately show ?thesis using exists sends_settle [OF assms(1,2) p assms(3,4)] by (auto simp: loaded_def)
qed

lemma step_loaded:
  assumes "consoleStep codec ev w = Some w'" "console_ok codec evs w" "proper ev" "ev \<noteq> Reloads" "is_ok (parseRoomPath room)"
    and "ids_unique (messagesOf room (evs @ [ev]))" "loaded room evs w"
  shows "loaded room (evs @ [ev]) w'"
proof -
  note st = step_shows [OF assms(1-6)]
  have "m \<in> shownIn w' room" if "ev = WriteEnds room m" for m
    using step_needs(4) [OF assms(1)] room_okD(3) [OF assms(2,5)] st(2) that by auto
  moreover have "m \<in> sendsIn w' room" if "ev = SendStored room m" for m using console_step_pending(4) [OF assms(1) that] by (simp add: sendsIn_def)
  ultimately show ?thesis using assms(7) sends_settle [OF assms(1-6)] st(4) by (auto simp: loaded_def)
qed

lemma run_loaded:
  assumes "codec_law codec" "consoleRun codec (evs1 @ Restores room ps ms # evs2) = Some w"
    and "\<forall>ev \<in> set (evs1 @ Restores room ps ms # evs2). proper ev" "Reloads \<notin> set evs2" "is_ok (parseRoomPath room)"
    and "\<And>r. ids_unique (messagesOf r (evs1 @ Restores room ps ms # evs2))"
  shows "loaded room (evs1 @ Restores room ps ms # evs2) w"
  using assms(2-4,6)
proof (induction evs2 arbitrary: w rule: rev_induct)
  case Nil
  then obtain w0 where w0: "consoleRun codec evs1 = Some w0" "consoleStep codec (Restores room ps ms) w0 = Some w"
    by (auto simp: Option.bind_eq_Some_conv)
  have "ids_unique (messagesOf r evs1)" for r by (rule ids_unique_subset [OF Nil(4) [of r]]) auto
  then have "console_ok codec evs1 w0" using console_run_ok [OF assms(1) w0(1)] Nil(2) by simp
  from restore_loads [OF w0(2) this assms(5) Nil(4)] show ?case .
next
  case (snoc ev evs2)
  let ?evs = "evs1 @ Restores room ps ms # evs2"
  have all: "evs1 @ Restores room ps ms # evs2 @ [ev] = ?evs @ [ev]" by simp
  obtain w0 where w0: "consoleRun codec ?evs = Some w0" "consoleStep codec ev w0 = Some w"
    using snoc.prems(1) unfolding all console_run_snoc by (auto simp: Option.bind_eq_Some_conv)
  have unique: "ids_unique (messagesOf r (?evs @ [ev]))" for r using snoc.prems(4) [of r] unfolding all .
  have unique': "ids_unique (messagesOf r ?evs)" for r by (rule ids_unique_subset [OF unique [of r]]) (simp only: sets_snoc, blast)
  have pr: "\<forall>ev \<in> set ?evs. proper ev" "proper ev" "ev \<noteq> Reloads" using snoc.prems by auto
  have "loaded room ?evs w0" by (rule snoc.IH [OF w0(1) pr(1)]) (use snoc.prems(3) unique' in auto)
  moreover have "console_ok codec ?evs w0" using console_run_ok [OF assms(1) w0(1) pr(1) unique'] by blast
  ultimately have "loaded room (?evs @ [ev]) w" using step_loaded [OF w0(2) _ pr(2,3) assms(5) unique] by blast
  then show ?case unfolding all .
qed

text \<open>C32: a conversation shows what a reload would, but for what the store has not taken. At any time after a room's history
  was restored, whatever was sent, received, opened, closed or listed since and however the writes to the store are
  delayed or fail: every message the store lists for the room is shown, or is a sent one whose append has ended and that
  is about to be shown; every message shown is listed, or was received and its write has not ended well (not yet, or it
  failed, which the console reports); the shown messages are in the store's order; and when neither exception
  applies the conversation shows exactly the list. The messages of one room have ids of their own and times of at
  most sixteen digits, as the store's keys assume.
\<close>

theorem conversation_shows_history:
  assumes "codec_law codec" "consoleRun codec (evs1 @ Restores room ps ms # evs2) = Some w"
    and "\<forall>ev \<in> set (evs1 @ Restores room ps ms # evs2). proper ev" "Reloads \<notin> set evs2" "is_ok (parseRoomPath room)"
    and "\<And>r. ids_unique (messagesOf r (evs1 @ Restores room ps ms # evs2))"
  shows "\<exists>entry listed. jget (cw_state w) room = Some entry \<and> listMessages codec room (cw_store w) = Ok listed
     \<and> (\<forall>m \<in> set listed. m \<in> set (cv_messages entry) \<or> (room, m) \<in> set (cw_sends w))
     \<and> (\<forall>m \<in> set (cv_messages entry). m \<in> set listed \<or> m \<in> unwritten room (evs1 @ Restores room ps ms # evs2))
     \<and> sorted_wrt (\<lambda>x y. compareMessages x y \<le> 0) (cv_messages entry)
     \<and> ((\<forall>m. (room, m) \<notin> set (cw_sends w)) \<and> unwritten room (evs1 @ Restores room ps ms # evs2) = {} \<longrightarrow> cv_messages entry = listed)"
proof -
  let ?evs = "evs1 @ Restores room ps ms # evs2"
  have ok: "console_ok codec ?evs w" "\<forall>m \<in> messagesOf room ?evs. timely m" using console_run_ok [OF assms(1,2,3,6)] by blast+
  obtain entry where entry: "jget (cw_state w) room = Some entry" "storedIn room ?evs \<subseteq> set (cv_messages entry) \<union> sendsIn w room"
    using run_loaded [OF assms] by (auto simp: loaded_def shownIn_def)
  note r = room_okD [OF ok(1) assms(5)]
  have sh: "shown (messagesOf room ?evs) entry" using r(2) entry(1) by blast
  have "\<forall>m \<in> storedIn room ?evs. timely m" "ids_unique (storedIn room ?evs)"
    using ok(2) ids_unique_subset [OF assms(6) [of room]] by (auto simp: messagesOf_def)
  then obtain listed where listed: "listMessages codec room (cw_store w) = Ok listed" "set listed = storedIn room ?evs" "distinct listed" "shownInOrder listed"
    using list_room [OF assms(1) r(1)] by blast
  have known: "set (cv_messages entry) \<subseteq> storedIn room ?evs \<union> unwritten room ?evs"
    using sh by (auto simp: shown_def messagesOf_def unwritten_def)
  have "cv_messages entry = listed" if "\<forall>m. (room, m) \<notin> set (cw_sends w)" "unwritten room ?evs = {}"
  proof (rule messages_unique)
    show "set (cv_messages entry) = set listed" using that known entry(2) listed(2) by (auto simp: sendsIn_def)
    show "ids_unique (set (cv_messages entry))" using sh ids_unique_subset [OF assms(6) [of room]] by (simp add: shown_def)
  qed (use sh listed in \<open>simp_all add: shown_def\<close>)
  then show ?thesis
    using entry known listed(1,2) sh
    by (intro exI [of _ entry] exI [of _ listed]) (auto simp: sendsIn_def shown_def)
qed

text \<open>A concrete codec for stored messages.\<close>

definition marked_encode :: "json_value \<Rightarrow> bytes" where
  "marked_encode v =
     (case isStoredMessage v of
        Some m \<Rightarrow> (if msg_direction m = MessageSent then 1 else 0) # markString (msg_text m) @ markBytes (msg_messageId m) @ markInt (msg_sentAt m)
      | None \<Rightarrow> [])"

definition marked_decode :: "bytes \<Rightarrow> json_value option" where
  "marked_decode bs =
     (case bs of
        [] \<Rightarrow> None
      | d # rest \<Rightarrow>
          Option.bind (unmarkString rest) (\<lambda>(text, rest). Option.bind (unmarkBytes rest) (\<lambda>(i, rest). map_option
            (\<lambda>(t, _). messageJson \<lparr>msg_direction = (if d = 1 then MessageSent else MessageReceived), msg_text = text, msg_messageId = i, msg_sentAt = t\<rparr>)
            (unmarkInt rest))))"

definition marked_codec :: store_codec where
  "marked_codec = \<lparr>scd_encode = marked_encode, scd_decode = marked_decode\<rparr>"

lemma marked_codec_law: "codec_law marked_codec"
  unfolding codec_law_def
proof
  fix m :: stored_message
  have "unmarkInt (markInt (msg_sentAt m)) = Some (msg_sentAt m, [])" using unmark_markInt [of "msg_sentAt m" "[]"] by simp
  then show "scd_decode marked_codec (scd_encode marked_codec (messageJson m)) = Some (messageJson m)"
    by (cases m; cases "msg_direction m") (simp_all add: marked_codec_def marked_encode_def marked_decode_def)
qed

definition w_room :: string where
  "w_room = replicate 64 CHR ''a'' @ CHR ''+'' # replicate 64 CHR ''b''"

definition w_message :: "message_direction \<Rightarrow> byte \<Rightarrow> int \<Rightarrow> stored_message" where
  "w_message d i t = \<lparr>msg_direction = d, msg_text = ''hello'', msg_messageId = [i], msg_sentAt = t\<rparr>"

lemma w_room_ok: "is_ok (parseRoomPath w_room)"
  by code_simp

definition w_events :: "console_event list" where
  "w_events = [Acts (RelayOpened w_room [replicate 64 CHR ''b''] \<lparr>rr_hub = 0, rr_peer = []\<rparr>), Receives w_room (w_message MessageReceived 7 12),
     WriteEnds w_room (w_message MessageReceived 7 12), SendStored w_room (w_message MessageSent 5 9), Reloads, ListsHistory w_room]"

definition w_later :: "console_event list" where
  "w_later = [Receives w_room (w_message MessageReceived 2 10), SendStored w_room (w_message MessageSent 3 11)]"

definition w_history :: "stored_message list" where
  "w_history = [w_message MessageSent 5 9, w_message MessageReceived 7 12]"

lemma w_run: "\<exists>w. consoleRun marked_codec (w_events @ Restores w_room [] w_history # w_later) = Some w"
proof -
  have "consoleRun marked_codec (w_events @ Restores w_room [] w_history # w_later) \<noteq> None" by code_simp
  then show ?thesis by simp
qed

theorem conversation_shows_history_witness:
  "\<exists>w entry listed. consoleRun marked_codec (w_events @ Restores w_room [] w_history # w_later) = Some w
     \<and> jget (cw_state w) w_room = Some entry \<and> listMessages marked_codec w_room (cw_store w) = Ok listed
     \<and> (\<forall>m \<in> set listed. m \<in> set (cv_messages entry) \<or> (w_room, m) \<in> set (cw_sends w))"
proof -
  obtain w where run: "consoleRun marked_codec (w_events @ Restores w_room [] w_history # w_later) = Some w" using w_run by blast
  have "\<forall>ev \<in> set (w_events @ Restores w_room [] w_history # w_later). proper ev"
    using w_room_ok by (simp add: w_events_def w_later_def proper_def timely_def w_message_def carries_def)
  moreover have "Reloads \<notin> set w_later" by (simp add: w_later_def)
  moreover have "ids_unique (messagesOf r (w_events @ Restores w_room [] w_history # w_later))" for r
    by (auto simp: ids_unique_def messagesOf_def receivedIn_def storedIn_def w_events_def w_later_def w_message_def)
  ultimately show ?thesis using conversation_shows_history [OF marked_codec_law run _ _ w_room_ok] run by blast
qed

text \<open>How many messages a run shows for a room.\<close>

definition shownCount :: "console_event list \<Rightarrow> nat option" where
  "shownCount evs = Option.bind (consoleRun marked_codec evs) (\<lambda>w. map_option (\<lambda>e. length (cv_messages e)) (jget (cw_state w) ''r''))"

text \<open>
  A received message whose write fails is shown until the page is loaded again, and then gone; the console reports the
  failure, and nothing writes the message again.
\<close>

lemma failed_write_forgotten:
  "let evs = [Acts (RelayOpened ''r'' [] \<lparr>rr_hub = 0, rr_peer = []\<rparr>), Receives ''r'' (w_message MessageReceived 7 12), WriteFails ''r'' (w_message MessageReceived 7 12)]
   in shownCount evs = Some 1 \<and> shownCount (evs @ [Reloads, ListsHistory ''r'', Restores ''r'' [] []]) = Some 0"
  by code_simp

text \<open>
  Where the peer sends a message id again with another time, the store keeps both under keys of their own: a reload shows
  two messages where the conversation, which tells messages apart by id alone, showed one.
\<close>

lemma repeated_id_shown_after_reload:
  "let a = w_message MessageReceived 7 12; b = w_message MessageReceived 7 13;
       evs = [Acts (RelayOpened ''r'' [] \<lparr>rr_hub = 0, rr_peer = []\<rparr>), Receives ''r'' a, WriteEnds ''r'' a, Receives ''r'' b, WriteEnds ''r'' b]
   in shownCount evs = Some 1 \<and> shownCount (evs @ [Reloads, ListsHistory ''r'', Restores ''r'' [] [a, b]]) = Some 2"
  by code_simp

text \<open>The time of a received message is the sender's, and unchecked: two times before the epoch are kept in the wrong order.\<close>

lemma early_times_out_of_order:
  "let a = w_message MessageReceived 1 (- 7); b = w_message MessageReceived 2 (- 5)
   in compareMessages a b < 0 \<and> strLess (messageKey ''r'' b) (messageKey ''r'' a)"
  by code_simp

end
