(* ===== verification/RoomRouterProperties.thy ===== *)
theory RoomRouterProperties
  imports RoomRouters RoomProperties TokenMinting
begin

text \<open>
  What the room router lets through: a message reaches the console only under a token of the room it names, and a request
  that arrives is answered at most once by the router itself.
\<close>

lemma joinEffects_no_message: "OnMessage msg \<notin> set (fst (joinEffects opts now ids es h))"
proof (induction es arbitrary: h)
  case (Cons e es)
  have no: "OnMessage msg \<notin> set (joinAnswer opts ids i outcome)" for i outcome
    by (simp add: joinAnswer_def split: manage_outcome.split option.split)
  have "OnMessage msg \<notin> set (concat (map (\<lambda>a. case a of Answers j outcome \<Rightarrow> joinAnswer opts ids j outcome | _ \<Rightarrow> []) answers))" for answers
    using no by (auto split: request_effect.splits)
  with no Cons show ?case by (auto simp: Let_def split: request_effect.splits prod.splits if_splits) (metis fst_conv)+
qed simp

lemma invite_no_message: "OnMessage msg \<notin> set (concat (map (inviteEffect opts i) effects))"
  by (auto simp: inviteEffect_def split: grant_effect.splits option.splits if_splits)

lemma send_message_iff:
  "handleRoomSend fuel opts request = Some fx \<Longrightarrow> OnMessage msg \<in> set fx \<Longrightarrow>
     \<exists>roomPath token c key. path (mr_scope request) = Some roomPath \<and> mr_token request = Some token
       \<and> verifyRoomToken fuel (rro_env opts) token (rro_peerDevice opts) roomPath SelfOnly = Some (Ok (RoomAccepted c key))
       \<and> roomMessage roomPath (mc_params (mr_command request)) = Some msg"
  by (auto simp: handleRoomSend_def Let_def split: option.splits sum.splits room_token_verdict.splits if_splits)

lemma roomMessage_room: "roomMessage roomPath params = Some msg \<Longrightarrow> irm_roomPath msg = roomPath"
  by (auto simp: roomMessage_def split: option.splits json_value.splits)

lemma routed_message:
  assumes "routeRequest fuel opts now incoming router = Some (fx, router')" "OnMessage msg \<in> set fx"
  shows "handleRoomSend fuel opts (ir_request incoming) = Some fx"
proof -
  have "OnMessage msg \<notin> set gx" if "handleRoomJoin fuel opts now (ir_request incoming) router = Some (gx, r)" for gx r
    using that joinEffects_no_message [of msg opts now]
    by (auto simp: handleRoomJoin_def Let_def split: if_splits option.splits prod.splits) (metis fst_conv)
  moreover have "OnMessage msg \<notin> set gx" if "handleRoomInvite fuel opts (ir_request incoming) = Some gx" for gx
    using that invite_no_message [of msg opts] by (auto simp: handleRoomInvite_def Let_def split: if_splits)
  ultimately show ?thesis using assms by (auto simp: routeRequest_def Let_def split: if_splits)
qed

text \<open>a message the router hands the console was sent under a token of its room: the token the request presents heads a
  chain of authentic, current tokens, bears the peer of the session, is scoped to the very room the message is handed
  on under, and its chain ends at the room's owner, or at this device for a direct conversation.
\<close>

theorem routed_message_authorised:
  assumes "trilean_spec (env_evaluator (rro_env opts))" "routeRequest fuel opts now incoming router = Some (fx, router')" "OnMessage msg \<in> set fx"
  shows "\<exists>token c cs parsed. mr_token (ir_request incoming) = Some token \<and> delegation (rro_env opts) token (c # cs)
    \<and> bearer c = rro_peerDevice opts \<and> scope c = roomScope (irm_roomPath msg) \<and> parseRoomPath (irm_roomPath msg) = Ok parsed
    \<and> rootAllowed (deviceId (env_identity (rro_env opts))) SelfOnly (issuer (last (c # cs))) parsed"
proof -
  obtain roomPath token c key where m: "mr_token (ir_request incoming) = Some token"
      "verifyRoomToken fuel (rro_env opts) token (rro_peerDevice opts) roomPath SelfOnly = Some (Ok (RoomAccepted c key))"
      "irm_roomPath msg = roomPath"
    using send_message_iff [OF routed_message [OF assms(2,3)] assms(3)] roomMessage_room by blast
  from verifyRoomToken_sound [OF assms(1) m(2)] obtain cs parsed where
    "delegation (rro_env opts) token (c # cs)" "bearer c = rro_peerDevice opts" "scope c = roomScope roomPath"
    "parseRoomPath roomPath = Ok parsed" "rootAllowed (deviceId (env_identity (rro_env opts))) SelfOnly (issuer (last (c # cs))) parsed"
    unfolding roomScope_def by metis
  then show ?thesis using m(1,3) by blast
qed

text \<open>
  A peer needs nobody's leave to be let through: it mints itself a token for a room of its own, and a message sent under
  it is accepted and handed to the console, which was asked nothing.
\<close>

lemma own_room_message_routed:
  assumes "ownerNamedRoomPath (deviceIdToHex (deviceId peer)) nm = Ok roomPath"
    and "mintRoomInviteGrant (env_codec (rro_env opts)) ev peer now' tokenId roomPath (deviceId peer) expiry None = Ok token"
    and "mint_accepted_by ((rro_env opts)\<lparr>env_extra := []\<rparr>) (inviteOptions peer now' tokenId roomPath (deviceId peer) expiry None)"
    and "rro_peerDevice opts = deviceId peer" "rro_onMessage opts" "\<not> rtr_ended router"
    and "ir_request incoming = \<lparr>mr_requestId = i, mr_command = buildRoomSendCommand text messageId sentAt, mr_scope = roomScope roomPath, mr_token = Some token\<rparr>"
  shows "routeRequest (Suc fuel) opts now incoming router =
    Some ([RouterAnswers i (ManageOk []), OnMessage \<lparr>irm_roomPath = roomPath, irm_text = text, irm_messageId = messageId, irm_sentAt = sentAt\<rparr>],
          router)"
proof -
  let ?env = "(rro_env opts)\<lparr>env_extra := []\<rparr>"
  let ?mint = "inviteOptions peer now' tokenId roomPath (deviceId peer) expiry None"
  have "mintCapabilityToken (env_codec ?env) ev ?mint = Ok token" using assms(2) by (simp add: mintRoomInviteGrant_def)
  from minted_root_verifies [OF this assms(3)]
  have "verifyTokenChain (Suc fuel) ?env token None 0 [] = Some (Accepted (mintClaims (env_codec ?env) ?mint) (deviceId peer) (identityKey peer) 0)"
    by (simp add: inviteOptions_def)
  then have verified: "verifyCapabilityToken (Suc fuel) ?env token (Some (deviceId peer)) =
      Some (Accepted (mintClaims (env_codec ?env) ?mint) (deviceId peer) (identityKey peer) 0)"
    by (simp add: verifyCapabilityToken_def checkBearer_def mintClaims_def inviteOptions_def)
  have "parseRoomPath roomPath = Ok (OwnerNamed (deviceIdToHex (deviceId peer)) nm)"
    using assms(1) unfolding ownerNamed_Ok_iff parse_owner_iff .
  then have "verifyRoomToken (Suc fuel) (rro_env opts) token (deviceId peer) roomPath SelfOnly =
      Some (Ok (RoomAccepted (mintClaims (env_codec ?env) ?mint) (identityKey peer)))"
    using verified by (simp add: verifyRoomToken_def mintClaims_def inviteOptions_def roomScope_def rootAllowed_def)
  then have "handleRoomSend (Suc fuel) opts (ir_request incoming) =
      Some [RouterAnswers i (ManageOk []), OnMessage \<lparr>irm_roomPath = roomPath, irm_text = text, irm_messageId = messageId, irm_sentAt = sentAt\<rparr>]"
    using assms(4,5,7) by (simp add: handleRoomSend_def roomScope_def roomMessage_def buildRoomSendCommand_def)
  then show ?thesis using assms(6,7) by (cases router) (simp add: routeRequest_def buildRoomSendCommand_def ROOM_MEMBER_CAPABILITY_def)
qed

end
