(* ===== verification/ConsoleRoomProperties.thy ===== *)
theory ConsoleRoomProperties
  imports ConsoleRooms ConsoleProperties RoomRouterProperties
begin

text \<open>
  What the console's messaging promises: a message a person sends is never lost, and what a conversation may show that its
  room's tokens do not cover.
\<close>

subsection \<open>A message that is sent is kept or can be sent again\<close>

lemma dispatch_conversations [simp]: "ms_conversations (dispatch a s) = reduceConversations (ms_conversations s) a"
  by (simp add: dispatch_def)

lemma outgoing_entry:
  "jget (reduceConversations c (Outgoing room p)) r =
     (if r = room then map_option (\<lambda>e. e\<lparr>cv_outgoing := putOutgoing p (cv_outgoing e)\<rparr>) (jget c room) else jget c r)"
  by (simp add: reduceConversations_def updateConversation_def split: option.split)

lemma removed_entry:
  "jget (reduceConversations c (OutgoingRemoved room i)) r =
     (if r = room then map_option (\<lambda>e. e\<lparr>cv_outgoing := filter (\<lambda>q. po_localId q \<noteq> i) (cv_outgoing e)\<rparr>) (jget c room) else jget c r)"
  by (simp add: reduceConversations_def updateConversation_def split: option.split)

lemma token_entry:
  "jget (reduceConversations c (TokenHeld room t)) r = (if r = room then map_option (\<lambda>e. e\<lparr>cv_token := Some t\<rparr>) (jget c room) else jget c r)"
  by (simp add: reduceConversations_def updateConversation_def split: option.split)

lemma putOutgoing_in: "p \<in> set (putOutgoing p os)"
  by (auto simp: putOutgoing_def)

lemma phase_conversations [simp]:
  "ms_conversations (phase room i body st s) = reduceConversations (ms_conversations s) (Outgoing room \<lparr>po_localId = i, po_text = body, po_status = st\<rparr>)"
  by (simp add: phase_def)

lemma recordGrant_conversations [simp]: "ms_conversations (snd (recordGrantIn env d t s)) = ms_conversations s"
  by (simp add: recordGrantIn_def split: sum.split prod.split)

lemma remember_conversations [simp]: "ms_conversations (rememberToken env room t s) = ms_conversations s"
  by (simp add: rememberToken_def)

lemma firstEpoch_conversations:
  assumes "deliverFirstEpoch fuel env room t route fresh iv res s = Some (e, fx, s')"
  shows "ms_conversations s' = ms_conversations s"
  using assms by (auto simp: deliverFirstEpoch_def Let_def split: option.splits bootstrap_step.splits sum.splits)

text \<open>A delivery leaves the messages of the conversation as they are.\<close>

definition same_room_messages :: "string \<Rightarrow> messaging \<Rightarrow> messaging \<Rightarrow> bool" where
  "same_room_messages room s s' \<longleftrightarrow>
     map_option cv_messages (jget (ms_conversations s') room) = map_option cv_messages (jget (ms_conversations s) room)"

lemma same_phase: "same_room_messages room s (phase room i body st s)"
  by (simp add: same_room_messages_def outgoing_entry option.map_comp comp_def)

lemma same_trans: "same_room_messages room a b \<Longrightarrow> same_room_messages room b c \<Longrightarrow> same_room_messages room a c"
  by (simp add: same_room_messages_def)

lemma same_conversations: "ms_conversations s' = ms_conversations s \<Longrightarrow> same_room_messages room s s'"
  by (simp add: same_room_messages_def)

lemma same_keep: "same_room_messages room s (snd (keepJoined env room t s))"
proof -
  obtain fx s' where r: "recordGrantIn env GrantHeld t (rememberToken env room t s) = (fx, s')" by fastforce
  then have "ms_conversations s' = ms_conversations s" using recordGrant_conversations [of env GrantHeld t "rememberToken env room t s"] by simp
  with r show ?thesis by (simp add: keepJoined_def same_room_messages_def token_entry option.map_comp comp_def)
qed

lemma join_keeps:
  assumes "joinForDelivery fuel env room i body route inp s = Some (r, fx, s')"
  shows "same_room_messages room s s'"
proof -
  let ?waiting = "phase room i body AwaitingApproval s"
  obtain joined jx where j: "joinRoom fuel env room route (at_join inp) ?waiting = Some (joined, jx)"
    using assms by (auto simp: joinForDelivery_def Let_def split: option.splits)
  show ?thesis
  proof (cases joined)
    case (Inl e)
    then show ?thesis using assms j same_phase by (auto simp: joinForDelivery_def Let_def)
  next
    case (Inr token)
    obtain gx kept where k: "keepJoined env room token (phase room i body BeingSent ?waiting) = (gx, kept)" by fastforce
    obtain e hx where "deliverFirstEpoch fuel env room token route (at_freshKey inp) (at_iv inp) (at_rekey inp) kept = Some (e, hx, s')"
      using assms j Inr k by (auto simp: joinForDelivery_def Let_def)
    then have "same_room_messages room kept s'" by (intro same_conversations firstEpoch_conversations)
    moreover have "same_room_messages room (phase room i body BeingSent ?waiting) kept" using same_keep k by (metis snd_conv)
    ultimately show ?thesis using same_phase same_trans by blast
  qed
qed

lemma send_keeps:
  assumes "sendAndStore env room body route token inp s = (r, fx, s')"
  shows "ms_conversations s' = ms_conversations s"
  using assms by (auto simp: sendAndStore_def Let_def split: sum.splits manage_outcome.splits)

lemma send_stored:
  assumes "sendAndStore env room body route token inp s = (Ok stored, fx, s')"
  shows "stored = storedSent env body (at_storedId inp) \<and> jget (ms_messages s') (messageKey room stored) \<noteq> None"
  using assms by (auto simp: sendAndStore_def Let_def appendMessage_def split: sum.splits manage_outcome.splits)

lemma deliver_cases:
  assumes "deliverMessage fuel env room i body inp s = Some (r, fx, s')"
  shows "(\<exists>e. r = Err e) \<and> same_room_messages room s s'
    \<or> (\<exists>route token s0 gx. same_room_messages room s s0 \<and> sendAndStore env room body route token inp s0 = (r, gx, s'))"
proof (cases "routeOf (jget (ms_conversations s) room)")
  case (Inl e)
  with assms show ?thesis by (auto simp: deliverMessage_def same_conversations)
next
  case (Inr route)
  show ?thesis
  proof (cases "Option.bind (jget (ms_conversations s) room) cv_token")
    case (Some token)
    then have "sendAndStore env room body route token inp s = (r, fx, s')" using assms Inr by (simp add: deliverMessage_def)
    then show ?thesis using same_conversations [of s s] by blast
  next
    case None
    then obtain r1 fx1 s1 where j: "joinForDelivery fuel env room i body route inp s = Some (r1, fx1, s1)"
      using assms Inr by (auto simp: deliverMessage_def split: option.splits)
    note same = join_keeps [OF j]
    show ?thesis
    proof (cases r1)
      case (Inl e)
      with assms \<open>routeOf _ = _\<close> None j same show ?thesis by (auto simp: deliverMessage_def)
    next
      case r1: (Inr token)
      obtain r2 gx s2 where "sendAndStore env room body route token inp s1 = (r2, gx, s2)" by (metis prod_cases3)
      with assms Inr None j r1 have "sendAndStore env room body route token inp s1 = (r, gx, s')" by (simp add: deliverMessage_def)
      then show ?thesis using same by blast
    qed
  qed
qed

text \<open>sending never loses a message: when an attempt in a conversation that exists ends, however its calls went, the text
  either stands in the conversation's history and in the message store, and no longer among the outgoing ones, or it
  stands among the outgoing ones as failed, with the reason, from where it can be sent again.
\<close>

theorem attempt_settles:
  assumes "jget (ms_conversations s) room = Some e" "at_storedId inp \<notin> msg_messageId ` set (cv_messages e)"
    and "attemptSend fuel env room i body inp s = Some (fx, s')"
  shows "\<exists>e'. jget (ms_conversations s') room = Some e'
    \<and> ((storedSent env body (at_storedId inp) \<in> set (cv_messages e') \<and> i \<notin> po_localId ` set (cv_outgoing e')
          \<and> jget (ms_messages s') (messageKey room (storedSent env body (at_storedId inp))) \<noteq> None)
      \<or> (\<exists>reason. \<lparr>po_localId = i, po_text = body, po_status = SendFailed reason\<rparr> \<in> set (cv_outgoing e')))"
proof -
  let ?started = "phase room i body BeingSent s"
  obtain res gx s1 where d: "deliverMessage fuel env room i body inp ?started = Some (res, gx, s1)"
    using assms(3) by (auto simp: attemptSend_def split: option.splits)
  have "same_room_messages room ?started s1"
    using deliver_cases [OF d] send_keeps same_conversations same_trans by metis
  then obtain e1 where e1: "jget (ms_conversations s1) room = Some e1" "cv_messages e1 = cv_messages e"
    using assms(1) same_trans [OF same_phase] by (auto simp: same_room_messages_def outgoing_entry)
  show ?thesis
  proof (cases res)
    case (Inl reason)
    then have s': "s' = phase room i body (SendFailed reason) s1" using d assms(3) by (simp add: attemptSend_def)
    show ?thesis unfolding s' using e1(1) putOutgoing_in by (auto simp: outgoing_entry)
  next
    case (Inr stored)
    then have s': "s' = dispatch (OutgoingRemoved room i) (dispatch (Message room stored) s1)" using d assms(3) by (simp add: attemptSend_def)
    have stored: "stored = storedSent env body (at_storedId inp)" "jget (ms_messages s1) (messageKey room stored) \<noteq> None"
      using deliver_cases [OF d] send_stored Inr by auto
    have new: "addedMessages (cv_messages e1) [stored] = [stored]"
      using assms(2) by (auto simp: addedMessages_def Let_def e1(2) stored(1) storedSent_def)
    have "set (mergeMessages (cv_messages e1) [stored]) = insert stored (set (cv_messages e1))"
      unfolding mergeMessages_def Let_def new by simp
    then show ?thesis unfolding s' using e1(1) stored
      by (auto simp: removed_entry message_messages) (simp_all add: dispatch_def)
  qed
qed

text \<open>With a token in hand an attempt ends whatever the walk of tokens would do.\<close>

lemma attempt_ends:
  assumes "jget (ms_conversations s) room = Some e" "cv_token e = Some token"
  shows "\<exists>fx s'. attemptSend fuel env room i body inp s = Some (fx, s')"
proof -
  have "jget (ms_conversations (phase room i body BeingSent s)) room
      = Some (e\<lparr>cv_outgoing := putOutgoing \<lparr>po_localId = i, po_text = body, po_status = BeingSent\<rparr> (cv_outgoing e)\<rparr>)"
    using assms(1) by (simp add: outgoing_entry)
  then have "deliverMessage fuel env room i body inp (phase room i body BeingSent s) \<noteq> None" using assms(2)
    by (simp add: deliverMessage_def Let_def split: sum.split) (metis prod_cases3)
  then show ?thesis by (auto simp: attemptSend_def split: sum.splits)
qed

subsection \<open>What a conversation shows of other rooms\<close>

text \<open>
  The router of a direct conversation checks a message against the room the message names, and the console shows it in the
  conversation whatever that room is. A peer this device has granted nothing can so write into the conversation: it mints
  itself a token for a room of its own.
\<close>

lemma stranger_writes_into_conversation:
  assumes "ownerNamedRoomPath (deviceIdToHex (deviceId peer)) nm = Ok foreign"
    and "mintRoomInviteGrant (env_codec (me_verify env)) ev peer now' tokenId foreign (deviceId peer) expiry None = Ok token"
    and "mint_accepted_by ((me_verify env)\<lparr>env_extra := []\<rparr>) (inviteOptions peer now' tokenId foreign (deviceId peer) expiry None)"
    and "\<not> rtr_ended router" "jget (ms_conversations s) room = Some e" "mid \<notin> msg_messageId ` set (cv_messages e)"
    and "ir_request incoming = \<lparr>mr_requestId = i, mr_command = buildRoomSendCommand body mid sentAt, mr_scope = roomScope foreign, mr_token = Some token\<rparr>"
  shows "\<exists>fx s' e'. requestForConversation (Suc fuel) env room (deviceId peer) now incoming (router, s) = Some (fx, router, s')
    \<and> RespondsTo i (ManageOk []) \<in> set fx \<and> jget (ms_conversations s') room = Some e'
    \<and> \<lparr>msg_direction = MessageReceived, msg_text = body, msg_messageId = mid, msg_sentAt = sentAt\<rparr> \<in> set (cv_messages e')
    \<and> cv_unread e' = cv_unread e + 1"
proof -
  let ?m = "\<lparr>irm_roomPath = foreign, irm_text = body, irm_messageId = mid, irm_sentAt = sentAt\<rparr>"
  let ?stored = "\<lparr>msg_direction = MessageReceived, msg_text = body, msg_messageId = mid, msg_sentAt = sentAt\<rparr>"
  have routed: "routeRequest (Suc fuel) (conversationRouter env (deviceId peer)) now incoming router = Some ([RouterAnswers i (ManageOk []), OnMessage ?m], router)"
    by (rule own_room_message_routed [OF assms(1)]) (use assms in \<open>simp_all add: conversationRouter_def\<close>)
  have new: "addedMessages (cv_messages e) [?stored] = [?stored]" using assms(6) by (auto simp: addedMessages_def Let_def)
  then have "set (mergeMessages (cv_messages e) [?stored]) = insert ?stored (set (cv_messages e))" by (simp add: mergeMessages_def)
  then have "?stored \<in> set (cv_messages (receiveMessage ?stored e))" by simp
  moreover have "cv_unread (receiveMessage ?stored e) = cv_unread e + 1" by (simp add: receiveMessage_def new)
  ultimately show ?thesis using routed assms(5)
    by (simp add: requestForConversation_def roomHandler_def onMessage_def Let_def storedReceived_def message_messages)
qed

text \<open>
  A join request shows as the conversation's whatever room it asks for, and accepting it grants what was asked: a token for
  the requested room, not for the conversation.
\<close>

lemma join_for_another_room:
  assumes "path (mr_scope (ir_request incoming)) = Some foreign"
    and "mr_command (ir_request incoming) = buildCapabilityRequestCommand ROOM_MEMBER_CAPABILITY None"
    and "\<not> rtr_ended router" "jget (ms_conversations s) room = Some e"
  shows "\<exists>i router' s' e'. requestForConversation fuel env room peer now incoming (router, s) = Some ([], router', s')
    \<and> jget (ms_conversations s') room = Some e' \<and> cv_pendingJoinRequest e' = Some (deviceIdToHex peer, i)
    \<and> (\<forall>now' tokenId cap expiry delegations token.
         mintCapabilityToken (env_codec (me_verify env)) (env_evaluator (me_verify env))
           (grantOptions (joinOptions (conversationRouter env peer)) now' tokenId (mr_scope (ir_request incoming)) cap expiry delegations) = Ok token
         \<longrightarrow> (\<exists>fields. fst (decideRequest (joinOptions (conversationRouter env peer)) now' tokenId i
                 (adaptRoomJoinDecision (conversationRouter env peer) (AcceptJoin cap expiry delegations)) (rtr_joins router'))
               = [Answers i (ManageOk fields)] \<and> jget fields ''granted-token'' = Some (tw_json (me_wire env) token)))"
proof -
  let ?i = "rh_arrivals (rtr_joins router)" and ?opts = "conversationRouter env peer"
  let ?h = "(rtr_joins router)\<lparr>rh_arrivals := Suc ?i, rh_pending := jset (rh_pending (rtr_joins router)) ?i \<lparr>pr_scope = mr_scope (ir_request incoming), pr_settled = False\<rparr>\<rparr>"
  let ?router = "router\<lparr>rtr_joins := ?h, rtr_requestIds := jset (rtr_requestIds router) ?i (mr_requestId (ir_request incoming))\<rparr>"
  have "handleCapabilityRequest fuel (joinOptions ?opts) now (ir_request incoming) (rtr_joins router) =
      Some ([AsksDomain ?i (mr_scope (ir_request incoming)) peer], ?h)"
    using assms(2) by (simp add: handleCapabilityRequest_def Let_def capabilityRequestSchema_def buildCapabilityRequestCommand_def joinOptions_def conversationRouter_def)
  then have "handleRoomJoin fuel ?opts now (ir_request incoming) router =
      Some ([OnJoinRequest ?i foreign peer], router\<lparr>rtr_joins := ?h, rtr_requestIds := jset (rtr_requestIds router) ?i (mr_requestId (ir_request incoming))\<rparr>)"
    using assms(1) by (simp add: handleRoomJoin_def) (simp add: conversationRouter_def)
  then have "routeRequest fuel ?opts now incoming router = Some ([OnJoinRequest ?i foreign peer], ?router)"
    using assms(2,3) by (simp add: routeRequest_def Let_def buildCapabilityRequestCommand_def)
  then have "requestForConversation fuel env room peer now incoming (router, s) = Some ([], ?router, onJoinRequest room ?i peer s)"
    by (simp add: requestForConversation_def roomHandler_def)
  moreover have "jget (ms_conversations (onJoinRequest room ?i peer s)) room = Some (e\<lparr>cv_pendingJoinRequest := Some (deviceIdToHex peer, ?i)\<rparr>)"
    using assms(4) by (simp add: onJoinRequest_def reduceConversations_def updateConversation_def)
  moreover have "\<exists>fields. fst (decideRequest (joinOptions ?opts) now' tokenId ?i (adaptRoomJoinDecision ?opts (AcceptJoin cap expiry delegations)) (rtr_joins ?router))
      = [Answers ?i (ManageOk fields)] \<and> jget fields ''granted-token'' = Some (tw_json (me_wire env) token)"
    if "mintCapabilityToken (env_codec (me_verify env)) (env_evaluator (me_verify env))
          (grantOptions (joinOptions ?opts) now' tokenId (mr_scope (ir_request incoming)) cap expiry delegations) = Ok token"
    for now' tokenId cap expiry delegations token
    using that by (simp add: decideRequest_def adaptRoomJoinDecision_def grantOutcome_def Let_def) (simp add: joinOptions_def conversationRouter_def grantFields_def)
  ultimately show ?thesis by (intro exI [of _ ?i] exI [of _ ?router] exI [of _ "onJoinRequest room ?i peer s"]) auto
qed

end
