(* ===== verification/NoticeWiringProperties.thy ===== *)
theory NoticeWiringProperties
  imports NoticeWiring
begin

text \<open>
  What the notice wiring promises: a log is fetched whole in batches, the kept room keys are those that were set and the
  current epoch is the last, and a first key that did not arrive is sent again unchanged.
\<close>

subsection \<open>Catching up\<close>

definition framesOf :: "wiring_effect list \<Rightarrow> data_frame list" where
  "framesOf fx = concat (map (\<lambda>e. case e of SendsTo _ frame \<Rightarrow> [frame] | NoticesChanged \<Rightarrow> []) fx)"

definition handleAll :: "data_frame list \<Rightarrow> kv_store \<Rightarrow> data_frame list \<times> kv_store" where
  "handleAll frames st =
     foldl (\<lambda>(out, st) frame. case handleNoticeFrame frame 0 st of (fx, st') \<Rightarrow> (out @ framesOf fx, st')) ([], st) frames"

text \<open>Two consoles over one connection: the frames under way to the holder are answered one after another.\<close>

fun exchange :: "nat \<Rightarrow> kv_store \<Rightarrow> kv_store \<times> data_frame list \<Rightarrow> kv_store \<times> data_frame list" where
  "exchange 0 holder w = w"
| "exchange (Suc n) holder (replica, []) = (replica, [])"
| "exchange (Suc n) holder (replica, frame # frames) =
     (case handleNoticeFrame frame 0 holder of
        (fx, holder') \<Rightarrow>
          (case handleAll (framesOf fx) replica of (wanted, replica') \<Rightarrow> exchange n holder' (replica', frames @ wanted)))"

lemma exchange_round:
  assumes "log_ok holder peer" "log_ok replica peer" "logOf replica peer = take m (logOf holder peer)" "m \<le> length (logOf holder peer)"
  shows "\<exists>replica'. exchange (Suc n) holder (replica, [DataRequest \<lparr>req_peer = peer, req_from = m\<rparr>]) =
      exchange n holder (replica', if m + 32 \<le> length (logOf holder peer) then [DataRequest \<lparr>req_peer = peer, req_from = m + 32\<rparr>] else [])
    \<and> log_ok replica' peer \<and> logOf replica' peer = take (m + 32) (logOf holder peer)"
proof -
  let ?es = "take 32 (drop m (logOf holder peer))"
  have head: "readHeadSeq replica peer = m" using assms(3,4) by (metis length_logOf length_take min.absorb2)
  have answer: "handleDataRequest holder \<lparr>req_peer = peer, req_from = m\<rparr> CATCH_UP_BATCH_LIMIT =
      (if ?es = [] then None else Some \<lparr>ent_peer = peer, ent_from = m, ent_entries = ?es\<rparr>)"
    using handleDataRequest_log [of holder "\<lparr>req_peer = peer, req_from = m\<rparr>" 32] assms(1) by (simp add: Let_def CATCH_UP_BATCH_LIMIT_def)
  show ?thesis
  proof (cases "?es = []")
    case True
    then have "m = length (logOf holder peer)" using assms(4) by auto
    then show ?thesis using answer assms by (intro exI [of _ replica]) (simp add: handleNoticeFrame_def framesOf_def handleAll_def)
  next
    case False
    obtain r where r: "handleDataEntries replica \<lparr>ent_peer = peer, ent_from = m, ent_entries = ?es\<rparr> = Ok r"
      using head by (simp add: handleDataEntries_def)
    have log: "logOf r peer = take (m + 32) (logOf holder peer)" "log_ok r peer"
      using handleDataEntries_ok [OF _ r] assms by (simp_all add: take_add)
    have full: "32 \<le> length ?es \<longleftrightarrow> m + 32 \<le> length (logOf holder peer)" by auto
    have "readHeadSeq r peer = m + 32" if "m + 32 \<le> length (logOf holder peer)"
      using log(1) that by (metis length_logOf length_take min.absorb2)
    then have "handleAll [DataEntries \<lparr>ent_peer = peer, ent_from = m, ent_entries = ?es\<rparr>] replica =
        (if m + 32 \<le> length (logOf holder peer) then [DataRequest \<lparr>req_peer = peer, req_from = m + 32\<rparr>] else [], r)"
      using r full by (simp add: handleAll_def handleNoticeFrame_def framesOf_def CATCH_UP_BATCH_LIMIT_def requestCatchUp_def headSeqFor_def)
    then show ?thesis using answer False log
      by (intro exI [of _ r]) (simp add: handleNoticeFrame_def framesOf_def)
  qed
qed

lemma exchange_completes:
  assumes "log_ok holder peer" "log_ok replica peer" "logOf replica peer = take m (logOf holder peer)" "m \<le> length (logOf holder peer)"
    and "n \<ge> (length (logOf holder peer) - m) div 32 + 1"
  shows "\<exists>replica'. exchange n holder (replica, [DataRequest \<lparr>req_peer = peer, req_from = m\<rparr>]) = (replica', [])
    \<and> log_ok replica' peer \<and> logOf replica' peer = logOf holder peer"
  using assms
proof (induction n arbitrary: m replica)
  case (Suc n)
  obtain r where r: "exchange (Suc n) holder (replica, [DataRequest \<lparr>req_peer = peer, req_from = m\<rparr>]) =
      exchange n holder (r, if m + 32 \<le> length (logOf holder peer) then [DataRequest \<lparr>req_peer = peer, req_from = m + 32\<rparr>] else [])"
      "log_ok r peer" "logOf r peer = take (m + 32) (logOf holder peer)"
    using exchange_round [OF Suc.prems(1-4), of n] by blast
  show ?case
  proof (cases "m + 32 \<le> length (logOf holder peer)")
    case True
    then have "n \<ge> (length (logOf holder peer) - (m + 32)) div 32 + 1" using Suc.prems(5) by (simp add: le_div_geq)
    from Suc.IH [OF assms(1) r(2,3) True this] show ?thesis using r(1) True by simp
  next
    case False
    then show ?thesis using r by (cases n) simp_all
  qed
qed simp

text \<open>a console that asks a sender for a peer's log ends up with all of it: while the log it holds is a beginning of the
  sender's, the request and the answers it leads to, in batches of thirty-two, copy the rest, and the exchange ends with
  nothing under way after one answer per batch.
\<close>

theorem notice_catch_up_completes:
  assumes "log_ok holder peer" "log_ok replica peer"
    and "logOf replica peer = take (headSeqFor replica peer) (logOf holder peer)" "headSeqFor replica peer \<le> headSeqFor holder peer"
    and "n \<ge> (headSeqFor holder peer - headSeqFor replica peer) div CATCH_UP_BATCH_LIMIT + 1"
  shows "\<exists>replica'. exchange n holder (replica, framesOf (pullNotices replica [sender] [peer])) = (replica', [])
    \<and> readEntries replica' peer 0 = readEntries holder peer 0"
proof -
  have frames: "framesOf (pullNotices replica [sender] [peer]) = [DataRequest \<lparr>req_peer = peer, req_from = headSeqFor replica peer\<rparr>]"
    by (simp add: framesOf_def pullNotices_def requestCatchUp_def)
  have len: "length (logOf holder peer) = headSeqFor holder peer" by (simp add: headSeqFor_def)
  obtain r where "exchange n holder (replica, [DataRequest \<lparr>req_peer = peer, req_from = headSeqFor replica peer\<rparr>]) = (r, [])"
      "log_ok r peer" "logOf r peer = logOf holder peer"
    using exchange_completes [OF assms(1-3)] assms(4,5) unfolding len CATCH_UP_BATCH_LIMIT_def by blast
  then show ?thesis using frames readEntries_log assms(1) by simp
qed

definition sample_log :: "device_id \<Rightarrow> nat \<Rightarrow> kv_store" where
  "sample_log peer n = snd (handleNoticeFrame (DataEntries \<lparr>ent_peer = peer, ent_from = 0, ent_entries = replicate n [7]\<rparr>) 0 [])"

lemma sample_log: "log_ok (sample_log peer n) peer" "logOf (sample_log peer n) peer = replicate n [7]"
proof -
  have empty: "log_ok [] peer" "logOf [] peer = []" "headSeqFor [] peer = 0" by (simp_all add: log_ok_def logOf_def readHeadSeq_def headSeqFor_def)
  obtain st where st: "handleDataEntries [] \<lparr>ent_peer = peer, ent_from = 0, ent_entries = replicate n [7]\<rparr> = Ok st"
    using empty(3) by (simp add: handleDataEntries_def headSeqFor_def)
  then have "sample_log peer n = st" by (simp add: sample_log_def handleNoticeFrame_def)
  then show "log_ok (sample_log peer n) peer" "logOf (sample_log peer n) peer = replicate n [7]"
    using handleDataEntries_ok [OF _ st] empty by simp_all
qed

theorem notice_catch_up_completes_witness:
  "\<exists>replica'. exchange 4 (sample_log [1] 100) (sample_log [1] 3, framesOf (pullNotices (sample_log [1] 3) [0] [[1]])) = (replica', [])
    \<and> readEntries replica' [1] 0 = readEntries (sample_log [1] 100) [1] 0"
proof -
  have heads: "headSeqFor (sample_log [1] n) [1] = n" for n
    using sample_log(2) [of "[1]" n] by (metis headSeqFor_def length_logOf length_replicate)
  show ?thesis
    by (rule notice_catch_up_completes) (use sample_log [of "[1]"] heads in \<open>simp_all add: CATCH_UP_BATCH_LIMIT_def\<close>)
qed

subsection \<open>Room keys\<close>

definition keeps_keys :: "string \<Rightarrow> kv_store \<Rightarrow> (nat \<rightharpoonup> bytes) \<Rightarrow> bool" where
  "keeps_keys room st K \<longleftrightarrow> jwf st \<and> set (storageKeys st (ROOM_KEY_PREFIX @ room @ ''/'')) = epochKey room ` dom K
     \<and> (\<forall>e. jget st (epochKey room e) = K e) \<and> (\<forall>e \<in> dom K. e < 10 ^ 16)"

lemma epochKey_less:
  assumes "a < 10 ^ 16" "b < 10 ^ 16"
  shows "strLess (epochKey room a) (epochKey room b) \<longleftrightarrow> a < b"
  using digits_order [of "padStart SENT_AT_KEY_WIDTH (CHR ''0'') (natToString a)" "padStart SENT_AT_KEY_WIDTH (CHR ''0'') (natToString b)"]
    padded_digits [OF assms(1)] padded_digits [OF assms(2)] by (simp add: epochKey_def)

lemma epochKey_inject: "epochKey room a = epochKey room b \<longleftrightarrow> a = b"
proof -
  have "stringToNat (padStart SENT_AT_KEY_WIDTH (CHR ''0'') (natToString n)) = n" for n
  proof -
    have "stringToNat (replicate k (CHR ''0'') @ s) = stringToNat s" for k s
      by (induction k) (simp_all add: stringToNat_Cons digitValue_def)
    then show ?thesis by (simp add: padStart_def)
  qed
  then show ?thesis unfolding epochKey_def by (metis append_same_eq list.inject same_append_eq)
qed

lemma epochKey_number: "stringToNat (afterLastSlash (epochKey room e)) = e" if "e < 10 ^ 16"
proof -
  let ?pad = "padStart SENT_AT_KEY_WIDTH (CHR ''0'') (natToString e)"
  have "\<not> isDigit (CHR ''/'')" by (simp add: isDigit_def decDigits_def)
  then have "\<forall>c \<in> set (rev ?pad). c \<noteq> CHR ''/''" using padded_digits(2) [OF that] by (auto simp: list_all_iff)
  then have "takeWhile (\<lambda>c. c \<noteq> CHR ''/'') (rev ?pad @ CHR ''/'' # rev room @ rev ROOM_KEY_PREFIX) = rev ?pad"
    by (subst takeWhile_append2) auto
  then have "afterLastSlash (epochKey room e) = ?pad" by (simp add: afterLastSlash_def epochKey_def)
  then show ?thesis using padded_digits(3) [OF that] by simp
qed

lemma sorted_last_max:
  assumes "sorted_wrt (\<lambda>x y. compareStrings x y \<le> 0) ks" "k \<in> set ks"
  shows "\<not> strLess (last ks) k"
proof -
  have "ks \<noteq> []" using assms(2) by auto
  then obtain ks' where ks: "ks = ks' @ [last ks]" by (metis append_butlast_last_id)
  then have "k = last ks \<or> k \<in> set ks'" using assms(2) by (metis Un_iff empty_iff insert_iff list.set(1,2) set_append)
  moreover have "compareStrings x (last ks) \<le> 0" if "x \<in> set ks'" for x
    using assms(1) that by (subst (asm) ks) (simp add: sorted_wrt_append)
  ultimately show ?thesis using strLess_asym by (fastforce simp: compareStrings_def split: if_splits)
qed

lemma currentEpoch_max:
  assumes "keeps_keys room st K"
  shows "roomKeyCurrentEpoch st room = (if dom K = {} then None else Some (Max (dom K)))"
proof -
  let ?ks = "sortBy compareStrings (storageKeys st (ROOM_KEY_PREFIX @ room @ ''/''))"
  have ks: "set ?ks = epochKey room ` dom K" using assms by (simp add: keeps_keys_def)
  have small: "\<forall>e \<in> dom K. e < 10 ^ 16" using assms by (simp add: keeps_keys_def)
  have "finite (dom K)" using ks finite_imageD [of "epochKey room" "dom K"] by (metis List.finite_set epochKey_inject inj_onI)
  show ?thesis
  proof (cases "dom K = {}")
    case True
    then have "?ks = []" using ks by (simp only: image_empty set_empty)
    then show ?thesis using True by (simp only: roomKeyCurrentEpoch_def Let_def simp_thms if_True)
  next
    case False
    then have ne: "?ks \<noteq> []" using ks by (metis image_is_empty set_empty)
    then obtain e where e: "e \<in> dom K" "last ?ks = epochKey room e" using ks last_in_set by (metis imageE)
    have "x \<le> e" if "x \<in> dom K" for x
    proof -
      have "epochKey room x \<in> set ?ks" using that ks by simp
      then have "\<not> strLess (epochKey room e) (epochKey room x)"
        using sorted_last_max [OF strings.cmp_sorted_sort] e(2) by metis
      then show ?thesis using epochKey_less small e(1) that by (metis not_le_imp_less)
    qed
    then have "Max (dom K) = e" using \<open>finite (dom K)\<close> e(1) by (intro Max_eqI) auto
    moreover have "roomKeyCurrentEpoch st room = Some e"
      using ne e epochKey_number small by (simp add: roomKeyCurrentEpoch_def Let_def)
    ultimately show ?thesis using False by simp
  qed
qed

lemma roomKeySet_keeps:
  assumes "keeps_keys room st K" "e < 10 ^ 16"
  shows "keeps_keys room (roomKeySet room e k st) (K(e \<mapsto> k))"
proof -
  have "take (length (ROOM_KEY_PREFIX @ room @ ''/'')) (epochKey room e) = ROOM_KEY_PREFIX @ room @ ''/''" by (simp add: epochKey_def)
  then have "set (storageKeys (roomKeySet room e k st) (ROOM_KEY_PREFIX @ room @ ''/'')) = insert (epochKey room e) (epochKey room ` dom K)"
    using assms(1) unfolding keeps_keys_def roomKeySet_def storageKeys_jset by (simp only: if_True) auto
  then show ?thesis using assms by (auto simp: keeps_keys_def roomKeySet_def epochKey_inject)
qed

text \<open>A first key that was not acknowledged is sent again, wrapped anew: the peer never gets two first keys.\<close>

lemma bootstrap_resends_same_key:
  assumes "keeps_keys (bs_roomPath opts) st (Map.empty)" "bootstrapDmEpoch1 fuel opts fresh iv st = Some (BootstrapSends w st')"
  shows "\<exists>secret. w = wrapContentKey (bs_crypto opts) iv (deriveWrappingKey (bs_crypto opts) secret (bs_roomPath opts) 1) fresh
    \<and> bootstrapDmEpoch1 fuel opts fresh' iv' st' =
        Some (BootstrapSends (wrapContentKey (bs_crypto opts) iv' (deriveWrappingKey (bs_crypto opts) secret (bs_roomPath opts) 1) fresh) st')"
proof -
  let ?room = "bs_roomPath opts"
  have none: "roomKeyCurrentEpoch st ?room = None" using currentEpoch_max [OF assms(1)] by simp
  have st': "st' = roomKeySet ?room FIRST_EPOCH fresh st"
    using assms(2) none by (auto simp: bootstrapDmEpoch1_def Let_def split: if_splits option.splits sum.splits room_token_verdict.splits)
  have kept: "keeps_keys ?room st' [FIRST_EPOCH \<mapsto> fresh]"
    using roomKeySet_keeps [OF assms(1), of FIRST_EPOCH fresh] st' by (simp add: FIRST_EPOCH_def)
  have now: "roomKeyCurrentEpoch st' ?room = Some FIRST_EPOCH" "roomKeyGet st' ?room FIRST_EPOCH = Some fresh"
    using currentEpoch_max [OF kept] kept by (simp_all add: roomKeyGet_def keeps_keys_def)
  have "DELIVERED_PREFIX @ ?room \<noteq> epochKey ?room FIRST_EPOCH" by (simp add: DELIVERED_PREFIX_def epochKey_def ROOM_KEY_PREFIX_def)
  then have same: "isDelivered st' ?room = isDelivered st ?room" by (simp add: st' isDelivered_def roomKeySet_def)
  show ?thesis using assms(2) none now same
    by (auto simp: bootstrapDmEpoch1_def Let_def FIRST_EPOCH_def split: if_splits option.splits sum.splits room_token_verdict.splits)
qed

end
