(* ===== verification/GrantStoreProperties.thy ===== *)
theory GrantStoreProperties
  imports GrantStores
begin

text \<open>
  Grant codes decode to the token they were made from, and a revocation the console has kept is known again after a
  reload.
\<close>

subsection \<open>Base64 round trip\<close>

lemma alphabet_index: "n < 64 \<Longrightarrow> indexOf base64Alphabet (base64Alphabet ! n) = Some n"
proof -
  have "list_all (\<lambda>n. indexOf base64Alphabet (base64Alphabet ! n) = Some n) [0..<64]" by code_simp
  then show "n < 64 \<Longrightarrow> indexOf base64Alphabet (base64Alphabet ! n) = Some n" by (simp add: list_all_iff del: upt_Suc)
qed

lemma alphabet_no_pad: "n < 64 \<Longrightarrow> CHR ''='' \<noteq> base64Alphabet ! n"
proof -
  have "list_all (\<lambda>n. CHR ''='' \<noteq> base64Alphabet ! n) [0..<64]" by code_simp
  then show "n < 64 \<Longrightarrow> CHR ''='' \<noteq> base64Alphabet ! n" by (simp add: list_all_iff del: upt_Suc)
qed

definition urlSafe :: "char \<Rightarrow> char" where
  "urlSafe c = (if c = CHR ''+'' then CHR ''-'' else if c = CHR ''/'' then CHR ''_'' else c)"

lemma url_char: "n < 64 \<Longrightarrow> urlSafe (base64Alphabet ! n) \<noteq> CHR ''='' \<and> \<not> asciiSpace (base64Alphabet ! n) \<and> \<not> jsSpace (urlSafe (base64Alphabet ! n))
    \<and> (if urlSafe (base64Alphabet ! n) = CHR ''-'' then CHR ''+'' else if urlSafe (base64Alphabet ! n) = CHR ''_'' then CHR ''/'' else urlSafe (base64Alphabet ! n)) = base64Alphabet ! n"
proof -
  have "list_all (\<lambda>n. urlSafe (base64Alphabet ! n) \<noteq> CHR ''='' \<and> \<not> asciiSpace (base64Alphabet ! n) \<and> \<not> jsSpace (urlSafe (base64Alphabet ! n))
    \<and> (if urlSafe (base64Alphabet ! n) = CHR ''-'' then CHR ''+'' else if urlSafe (base64Alphabet ! n) = CHR ''_'' then CHR ''/'' else urlSafe (base64Alphabet ! n)) = base64Alphabet ! n) [0..<64]"
    by code_simp
  then show "n < 64 \<Longrightarrow> ?thesis" by (simp add: list_all_iff del: upt_Suc)
qed

fun sextets :: "bytes \<Rightarrow> nat list" where
  "sextets [] = []"
| "sextets [a] = [unat a div 4, unat a mod 4 * 16]"
| "sextets [a, b] = [unat a div 4, unat a mod 4 * 16 + unat b div 16, unat b mod 16 * 4]"
| "sextets (a # b # c # bs) =
     unat a div 4 # (unat a mod 4 * 16 + unat b div 16) # (unat b mod 16 * 4 + unat c div 64) # unat c mod 64 # sextets bs"

lemma sextet_bounds:
  "unat (a :: byte) div 4 < 64" "unat (a :: byte) mod 4 * 16 + unat (b :: byte) div 16 < 64" "unat (b :: byte) mod 16 * 4 + unat (c :: byte) div 64 < 64"
proof -
  have "unat a mod 4 < 4" "unat b mod 16 < 16" by simp_all
  then show "unat a div 4 < 64" "unat a mod 4 * 16 + unat b div 16 < 64" "unat b mod 16 * 4 + unat c div 64 < 64"
    using unat_byte_less [of a] unat_byte_less [of b] unat_byte_less [of c] by linarith+
qed

lemma sextets_small: "\<forall>n \<in> set (sextets bs). n < 64"
proof (induction bs rule: sextets.induct)
  case (2 a)
  then show ?case using sextet_bounds(1) [of a] sextet_bounds(2) [of a 0] by simp
next
  case (3 a b)
  then show ?case using sextet_bounds(1) [of a] sextet_bounds(2) [of a b] sextet_bounds(3) [of b 0] by simp
next
  case (4 a b c bs)
  then show ?case using sextet_bounds(1) [of a] sextet_bounds(2) [of a b] sextet_bounds(3) [of b c] by simp
qed simp

definition padOf :: "bytes \<Rightarrow> string" where
  "padOf bs = replicate ((3 - length bs mod 3) mod 3) CHR ''=''"

lemma btoa_sextets: "btoa bs = map ((!) base64Alphabet) (sextets bs) @ padOf bs"
proof (induction bs rule: sextets.induct)
  case (4 a b c bs)
  have "length (a # b # c # bs) mod 3 = length bs mod 3" by simp
  then show ?case using 4 by (simp add: padOf_def)
qed (simp_all add: padOf_def numeral_2_eq_2)

lemma fromSextets_sextets: "fromSextets (sextets bs) = Some bs"
proof (induction bs rule: sextets.induct)
  case (2 a)
  then show ?case using unat_byte_less [of a] by simp
next
  case (3 a b)
  have "(unat a mod 4 * 16 + unat b div 16) div 16 = unat a mod 4" "(unat a mod 4 * 16 + unat b div 16) mod 16 = unat b div 16"
    using unat_byte_less [of b] by simp_all
  then show ?case by simp
next
  case (4 a b c bs)
  have "(unat a mod 4 * 16 + unat b div 16) div 16 = unat a mod 4" "(unat a mod 4 * 16 + unat b div 16) mod 16 = unat b div 16"
    "(unat b mod 16 * 4 + unat c div 64) div 4 = unat b mod 16" "(unat b mod 16 * 4 + unat c div 64) mod 4 = unat c div 64"
    using unat_byte_less [of b] unat_byte_less [of c] by simp_all
  then show ?case using 4 by simp
qed simp

lemma toBase64Url_sextets: "toBase64Url bs = map (\<lambda>n. urlSafe (base64Alphabet ! n)) (sextets bs)"
proof -
  let ?body = "map (\<lambda>n. urlSafe (base64Alphabet ! n)) (sextets bs)"
  have replaced: "replaceChar (CHR ''/'') (CHR ''_'') (replaceChar (CHR ''+'') (CHR ''-'') s) = map urlSafe s" for s
    by (induction s) (simp_all add: replaceChar_def urlSafe_def)
  have pad: "map urlSafe (padOf bs) = padOf bs" by (simp add: padOf_def urlSafe_def)
  have "\<forall>c \<in> set (rev ?body). c \<noteq> CHR ''=''" using url_char sextets_small [of bs] by auto
  then have "dropWhile (\<lambda>c. c = CHR ''='') (rev ?body) = rev ?body"
    by (cases "rev ?body") (auto simp del: rev_map)
  then have "dropWhile (\<lambda>c. c = CHR ''='') (rev (padOf bs) @ rev ?body) = rev ?body"
    by (subst dropWhile_append2) (auto simp: padOf_def)
  then show ?thesis unfolding toBase64Url_def replaced btoa_sextets map_append pad by (simp add: rev_map comp_def)
qed

lemma base64_roundtrip: "fromBase64Url (toBase64Url bs) = Some bs"
proof -
  let ?body = "map ((!) base64Alphabet) (sextets bs)"
  have undone: "replaceChar (CHR ''_'') (CHR ''/'') (replaceChar (CHR ''-'') (CHR ''+'') s) =
      map (\<lambda>c. if c = CHR ''-'' then CHR ''+'' else if c = CHR ''_'' then CHR ''/'' else c) s" for s
    by (induction s) (simp_all add: replaceChar_def)
  have "replaceChar (CHR ''_'') (CHR ''/'') (replaceChar (CHR ''-'') (CHR ''+'') (toBase64Url bs)) = ?body"
    unfolding undone toBase64Url_sextets map_map using url_char sextets_small [of bs] by (intro map_cong) auto
  moreover have "filter (\<lambda>c. \<not> asciiSpace c) ?body = ?body"
    using url_char sextets_small [of bs] by (intro filter_True) auto
  moreover have "unpad ?body = ?body"
  proof -
    have "CHR ''='' \<notin> set ?body" using alphabet_no_pad sextets_small [of bs] by auto
    then have "drop n ?body \<noteq> ''==''" "?body \<noteq> [] \<Longrightarrow> last ?body \<noteq> CHR ''=''" for n
      using set_drop_subset [of n ?body] last_in_set [of ?body] by force+
    then show ?thesis unfolding unpad_def by presburger
  qed
  moreover have "those (map (indexOf base64Alphabet) ?body) = Some (sextets bs)"
  proof -
    have "map (indexOf base64Alphabet) ?body = map Some (sextets bs)"
      unfolding map_map using alphabet_index sextets_small [of bs] by (intro map_cong) auto
    then show ?thesis by (simp add: those_Some_iff)
  qed
  ultimately show ?thesis by (simp add: fromBase64Url_def atob_def fromSextets_sextets)
qed

subsection \<open>Grant codes\<close>

lemma trim_around:
  assumes "list_all jsSpace before" "list_all jsSpace after" "s \<noteq> []" "\<not> jsSpace (hd s)" "\<not> jsSpace (last s)"
  shows "trim (before @ s @ after) = s"
proof -
  have front: "dropWhile jsSpace (before @ s @ after) = s @ after"
    using assms by (subst dropWhile_append2) (auto simp: list_all_iff dropWhile_append1 neq_Nil_conv)
  have "rev s \<noteq> []" "\<not> jsSpace (hd (rev s))" using assms(3,5) by (simp_all add: hd_rev)
  then have "dropWhile jsSpace (rev s) = rev s" by (cases "rev s") (simp_all del: rev_is_Nil_conv)
  then have "dropWhile jsSpace (rev after @ rev s) = rev s" using assms(2) by (subst dropWhile_append2) (auto simp: list_all_iff)
  then show ?thesis unfolding trim_def front by simp
qed

text \<open>a grant code carries its token: what is pasted back, with white space around it or not, decodes to the very token
  the code was made from, given that the token's own CBOR reads back and its claims can be read.
\<close>

theorem grant_code_roundtrip:
  assumes "dec_token codec (enc_token codec token) = Some token" "decodes (enc_token codec token)" "decodeGrantClaims codec token \<noteq> None"
    and "list_all jsSpace before" "list_all jsSpace after"
  shows "decodeGrantCode codec decodes (before @ encodeGrantCode codec token @ after) = Ok token"
proof -
  let ?code = "encodeGrantCode codec token" and ?body = "toBase64Url (enc_token codec token)"
  have "\<not> jsSpace (last ?body)" if "?body \<noteq> []"
    using that url_char sextets_small [of "enc_token codec token"] unfolding toBase64Url_sextets by (auto simp: last_map)
  then have "\<not> jsSpace (last ?code)"
    by (cases "?body = []") (simp_all add: encodeGrantCode_def GRANT_CODE_PREFIX_def jsSpace_def)
  moreover have "?code \<noteq> []" "\<not> jsSpace (hd ?code)" by (simp_all add: encodeGrantCode_def GRANT_CODE_PREFIX_def jsSpace_def)
  ultimately have "trim (before @ ?code @ after) = ?code" using trim_around assms(4,5) by blast
  then show ?thesis using assms(1-3) base64_roundtrip [of "enc_token codec token"]
    by (simp add: decodeGrantCode_def) (simp add: encodeGrantCode_def)
qed

subsection \<open>Revocations across a reload\<close>

text \<open>The console's storage as a run of ingests leaves it, from an empty one.\<close>

fun ingestAll :: "cbor_codec \<Rightarrow> entry_bytes \<Rightarrow> identity_port \<Rightarrow> cose_sign1 list \<Rightarrow> revocation_store \<Rightarrow> revocation_store" where
  "ingestAll codec eb ident [] s = s"
| "ingestAll codec eb ident (e # es) s = ingestAll codec eb ident es (snd (ingestRevocation codec eb ident e s))"

definition revocation_bytes_law :: "entry_bytes \<Rightarrow> bool" where
  "revocation_bytes_law eb \<longleftrightarrow> (\<forall>e. eb_isCbor eb (eb_encode eb e) \<and> eb_decode eb (eb_encode eb e) = Some e)"

text \<open>What is stored is an entry that verifies, under the key of its claims.\<close>

definition keptEntry :: "cbor_codec \<Rightarrow> entry_bytes \<Rightarrow> identity_port \<Rightarrow> string \<times> bytes \<Rightarrow> bool" where
  "keptEntry codec eb ident kv \<longleftrightarrow>
     (\<exists>e claims. verifyRevocationEntry codec ident e = Ok claims \<and> kv = (revocationStoreKey claims, eb_encode eb e))"

definition revocations_kept :: "cbor_codec \<Rightarrow> entry_bytes \<Rightarrow> identity_port \<Rightarrow> kv_store \<Rightarrow> bool" where
  "revocations_kept codec eb ident st \<longleftrightarrow> jwf st \<and> (\<forall>kv \<in> set st. keptEntry codec eb ident kv)"

lemma revocationStoreKey_iff: "revocationStoreKey a = revocationStoreKey b \<longleftrightarrow> rc_issuer a = rc_issuer b \<and> rc_token_id a = rc_token_id b"
  using prefix_to_slash_unique [of "CHR ''/''" "bytesToHex (rc_issuer a)" "bytesToHex (rc_issuer b)"]
  by (simp add: revocationStoreKey_def hex_no_slash)

lemma ingest_result:
  "ingestRevocation codec eb ident e s =
     (case verifyRevocationEntry codec ident e of
        Inl r \<Rightarrow> (Err r, s)
      | Inr claims \<Rightarrow> (Ok claims, s\<lparr>rvs_view := snd (record_entry codec ident (rvs_view s) e),
          rvs_storage := jset (rvs_storage s) (revocationStoreKey claims) (eb_encode eb e)\<rparr>))"
  using record_entry_Err record_entry_Ok [of codec ident e _ "rvs_view s"]
  by (auto simp: ingestRevocation_def split: sum.split prod.split)

lemma ingest_kept:
  assumes "revocations_kept codec eb ident (rvs_storage s)"
  shows "revocations_kept codec eb ident (rvs_storage (snd (ingestRevocation codec eb ident e s)))"
proof (cases "verifyRevocationEntry codec ident e")
  case (Inr claims)
  have "keptEntry codec eb ident (revocationStoreKey claims, eb_encode eb e)" using Inr by (auto simp: keptEntry_def)
  moreover have "set (jset st k v) \<subseteq> insert (k, v) (set st)" for st :: kv_store and k v by (induction st) auto
  ultimately have "\<forall>kv \<in> set (jset (rvs_storage s) (revocationStoreKey claims) (eb_encode eb e)). keptEntry codec eb ident kv"
    using assms unfolding revocations_kept_def by blast
  then show ?thesis using assms Inr unfolding revocations_kept_def ingest_result by simp
qed (use assms in \<open>simp add: ingest_result\<close>)

lemma ingestAll_kept:
  "revocations_kept codec eb ident (rvs_storage s) \<Longrightarrow> revocations_kept codec eb ident (rvs_storage (ingestAll codec eb ident es s))"
  by (induction es arbitrary: s) (simp_all add: ingest_kept)

lemma ingestAll_grows:
  "jget (rvs_storage s) k \<noteq> None \<Longrightarrow> jget (rvs_storage (ingestAll codec eb ident es s)) k \<noteq> None"
proof (induction es arbitrary: s)
  case (Cons e es)
  have "jget (rvs_storage (snd (ingestRevocation codec eb ident e s))) k \<noteq> None"
    using Cons.prems by (auto simp: ingest_result split: sum.split)
  then show ?case using Cons.IH by simp
qed simp

lemma ingested_stored:
  "e \<in> set es \<Longrightarrow> verifyRevocationEntry codec ident e = Ok claims \<Longrightarrow>
     jget (rvs_storage (ingestAll codec eb ident es s)) (revocationStoreKey claims) \<noteq> None"
proof (induction es arbitrary: s)
  case (Cons f es)
  let ?s = "snd (ingestRevocation codec eb ident f s)"
  show ?case
  proof (cases "f = e")
    case True
    then have "jget (rvs_storage ?s) (revocationStoreKey claims) \<noteq> None" using Cons.prems(2) by (simp add: ingest_result)
    then show ?thesis using ingestAll_grows by simp
  next
    case False
    then show ?thesis using Cons by simp
  qed
qed simp

lemma load_one:
  assumes "revocation_bytes_law eb" "revocations_kept codec eb ident st" "key \<in> set (jkeys st)"
  obtains e claims where "jget st key = Some (eb_encode eb e)" "verifyRevocationEntry codec ident e = Ok claims" "key = revocationStoreKey claims"
    "snd (loadOne codec eb ident st key w) = snd w"
    "\<And>tid. entriesFor (fst (loadOne codec eb ident st key w)) tid = entriesFor (fst w) tid @ (if tid = rc_token_id claims then [claims] else [])"
proof -
  obtain v where v: "jget st key = Some v" using assms(3) by (cases "jget st key") (auto simp: map_of_eq_None_iff)
  then have "keptEntry codec eb ident (key, v)" using assms(2) map_of_SomeD unfolding revocations_kept_def by fast
  then obtain e claims where e: "verifyRevocationEntry codec ident e = Ok claims" "key = revocationStoreKey claims" "v = eb_encode eb e"
    by (auto simp: keptEntry_def)
  have "loadOne codec eb ident st key w = (snd (record_entry codec ident (fst w) e), snd w)"
    using v e assms(1) record_entry_Ok [OF e(1), of "fst w"]
    by (auto simp: loadOne_def loadStored_def revocation_bytes_law_def split: prod.split)
  then show thesis using that [of e claims] v e record_entry_Ok [OF e(1), of "fst w"] by simp
qed

lemma load_all:
  assumes "revocation_bytes_law eb" "revocations_kept codec eb ident st" "set keys \<subseteq> set (jkeys st)"
  shows "snd (fold (loadOne codec eb ident st) keys w) = snd w
    \<and> (\<forall>tid. set (entriesFor (fst w) tid) \<subseteq> set (entriesFor (fst (fold (loadOne codec eb ident st) keys w)) tid))
    \<and> (\<forall>k \<in> set keys. \<exists>e claims. jget st k = Some (eb_encode eb e) \<and> verifyRevocationEntry codec ident e = Ok claims \<and> k = revocationStoreKey claims
        \<and> claims \<in> set (entriesFor (fst (fold (loadOne codec eb ident st) keys w)) (rc_token_id claims)))"
  using assms(3)
proof (induction keys arbitrary: w)
  case (Cons key keys)
  then have key: "key \<in> set (jkeys st)" "set keys \<subseteq> set (jkeys st)" by simp_all
  let ?w = "loadOne codec eb ident st key w"
  obtain e claims where e: "jget st key = Some (eb_encode eb e)" "verifyRevocationEntry codec ident e = Ok claims" "key = revocationStoreKey claims"
    "snd ?w = snd w" "\<And>tid. entriesFor (fst ?w) tid = entriesFor (fst w) tid @ (if tid = rc_token_id claims then [claims] else [])"
    using load_one [OF assms(1,2) key(1), of w] by blast
  have fold: "fold (loadOne codec eb ident st) (key # keys) w = fold (loadOne codec eb ident st) keys ?w" by simp
  from Cons.IH [OF key(2), of ?w] have IH: "snd (fold (loadOne codec eb ident st) keys ?w) = snd ?w"
      "\<And>tid. set (entriesFor (fst ?w) tid) \<subseteq> set (entriesFor (fst (fold (loadOne codec eb ident st) keys ?w)) tid)"
      "\<forall>k \<in> set keys. \<exists>e claims. jget st k = Some (eb_encode eb e) \<and> verifyRevocationEntry codec ident e = Ok claims \<and> k = revocationStoreKey claims
        \<and> claims \<in> set (entriesFor (fst (fold (loadOne codec eb ident st) keys ?w)) (rc_token_id claims))"
    by blast+
  have "set (entriesFor (fst w) tid) \<subseteq> set (entriesFor (fst (fold (loadOne codec eb ident st) keys ?w)) tid)" for tid
    using IH(2) [of tid] e(5) [of tid] by auto
  moreover have "claims \<in> set (entriesFor (fst (fold (loadOne codec eb ident st) keys ?w)) (rc_token_id claims))"
    using IH(2) [of "rc_token_id claims"] e(5) [of "rc_token_id claims"] by auto
  ultimately show ?case unfolding fold using IH(1,3) e(1-4) by auto
qed simp

text \<open>a kept revocation survives a reload: whatever entries the console has taken in, each one that verified leaves, in
  the view a reload builds from the storage, an entry of the same issuer for the same token, and nothing kept is unreadable.
\<close>

theorem revocations_survive_reload:
  assumes "revocation_bytes_law eb" "e \<in> set es" "verifyRevocationEntry codec ident e = Ok claims"
  defines "kept \<equiv> rvs_storage (ingestAll codec eb ident es (createRevocationStore codec eb ident []))"
  shows "(\<exists>claims' \<in> set (entriesFor (rvs_view (createRevocationStore codec eb ident kept)) (rc_token_id claims)). rc_issuer claims' = rc_issuer claims)
    \<and> rvs_unreadable (createRevocationStore codec eb ident kept) = []"
proof -
  let ?s0 = "createRevocationStore codec eb ident []"
  have empty: "rvs_storage ?s0 = []" by (simp add: createRevocationStore_def storageKeys_def)
  have start: "revocations_kept codec eb ident (rvs_storage ?s0)" unfolding empty by (simp add: revocations_kept_def)
  have stored: "revocations_kept codec eb ident kept" "jget kept (revocationStoreKey claims) \<noteq> None"
    using ingestAll_kept [OF start] ingested_stored [OF assms(2,3)] unfolding kept_def by blast+
  have "storageKeys kept REVOCATION_KEY_PREFIX = jkeys kept"
    using stored(1) unfolding storageKeys_def revocations_kept_def keptEntry_def revocationStoreKey_def
    by (intro filter_True) fastforce
  then have all: "set (storageKeys kept REVOCATION_KEY_PREFIX) = set (jkeys kept)" by simp
  define w where "w = fold (loadOne codec eb ident kept) (storageKeys kept REVOCATION_KEY_PREFIX) (createRevocationView, [])"
  have "revocationStoreKey claims \<in> set (storageKeys kept REVOCATION_KEY_PREFIX)"
    using stored(2) unfolding all by (auto simp: map_of_eq_None_iff)
  moreover have "snd w = []" and loaded: "\<forall>k \<in> set (storageKeys kept REVOCATION_KEY_PREFIX). \<exists>e claims. jget kept k = Some (eb_encode eb e)
      \<and> verifyRevocationEntry codec ident e = Ok claims \<and> k = revocationStoreKey claims \<and> claims \<in> set (entriesFor (fst w) (rc_token_id claims))"
    using load_all [OF assms(1) stored(1), of "storageKeys kept REVOCATION_KEY_PREFIX" "(createRevocationView, [])"] all
    unfolding w_def by auto
  ultimately obtain claims' where "revocationStoreKey claims = revocationStoreKey claims'" "claims' \<in> set (entriesFor (fst w) (rc_token_id claims'))" by blast
  then have "claims' \<in> set (entriesFor (fst w) (rc_token_id claims))" "rc_issuer claims' = rc_issuer claims" by (simp_all add: revocationStoreKey_iff)
  moreover have "rvs_view (createRevocationStore codec eb ident kept) = fst w" "rvs_unreadable (createRevocationStore codec eb ident kept) = snd w"
    by (simp_all add: createRevocationStore_def w_def split: prod.split)
  ultimately show ?thesis using \<open>snd w = []\<close> by auto
qed

text \<open>
  Which of an issuer's entries for a token is kept is the last one: a second entry that verifies replaces the first, though
  only the first may carry the authorisation that makes it a revocation. Until the reload both count.
\<close>

lemma later_entry_replaces_earlier:
  assumes "revocation_bytes_law eb" "verifyRevocationEntry codec ident e1 = Ok c1" "verifyRevocationEntry codec ident e2 = Ok c2"
    and "rc_issuer c1 = rc_issuer c2" "rc_token_id c1 = rc_token_id c2"
  defines "s \<equiv> ingestAll codec eb ident [e1, e2] (createRevocationStore codec eb ident [])"
  shows "entriesFor (rvs_view s) (rc_token_id c1) = [c1, c2]
    \<and> entriesFor (rvs_view (createRevocationStore codec eb ident (rvs_storage s))) (rc_token_id c1) = [c2]"
proof -
  let ?s0 = "createRevocationStore codec eb ident []"
  have s0: "rvs_storage ?s0 = []" "rvs_view ?s0 = []" by (simp_all add: createRevocationStore_def storageKeys_def createRevocationView_def)
  have key: "revocationStoreKey c1 = revocationStoreKey c2" using assms(4,5) by (simp add: revocationStoreKey_iff)
  have "rvs_storage s = [(revocationStoreKey c2, eb_encode eb e2)]" unfolding s_def using assms(2,3) s0 key by (simp add: ingest_result)
  moreover have "storageKeys [(revocationStoreKey c2, v)] REVOCATION_KEY_PREFIX = [revocationStoreKey c2]" for v :: bytes
    by (simp add: storageKeys_def revocationStoreKey_def)
  moreover have "entriesFor (snd (record_entry codec ident [] e2)) (rc_token_id c1) = [c2]"
    using record_entry_Ok [OF assms(3), of "[]" "rc_token_id c1"] assms(5) by (simp add: entriesFor_def)
  ultimately have "entriesFor (rvs_view (createRevocationStore codec eb ident (rvs_storage s))) (rc_token_id c1) = [c2]"
    using assms(1,3) record_entry_Ok [OF assms(3), of "[]"]
    by (auto simp: createRevocationStore_def loadOne_def loadStored_def revocation_bytes_law_def createRevocationView_def split: prod.split)
  moreover have "entriesFor (rvs_view s) (rc_token_id c1) = [c1, c2]"
    unfolding s_def using assms(2,3,5) s0 record_entry_Ok [OF assms(2), of "[]" "rc_token_id c1"]
      record_entry_Ok [OF assms(3), of "snd (record_entry codec ident [] e1)" "rc_token_id c1"]
    by (simp add: ingest_result) (simp add: entriesFor_def)
  ultimately show ?thesis by blast
qed

end
