(* ===== verification/Spec2Isabelle.thy ===== *)
theory Spec2Isabelle
  imports TokenProperties ErasureProperties Election VerdictCache RelayGate SecureChannel BulkProperties
    RelayChannelProperties MeshSessionProperties NoticeBoard ShardedDelivery
    FrameStreamProperties Topology Expansion PinnedAddresses ThresholdProperties ThresholdKeygenProperties
    WebRtcSignaling HibernationProperties CertificateProperties ConsoleRoomProperties NoticeWiringProperties GrantStoreProperties
begin

text \<open>
  A verification of wire-mesh: capability-secured management and messaging between devices, directly or
  through relay hubs. The code is TypeScript under \<open>ts/packages/\<close>; the parts modelled are
  \<open>core/src/domain/\<close>, which carries the protocol's own logic, the framing adapters of \<open>core/src/adapters/\<close>, the
  hub that survives eviction in \<open>cloudflare-hub/src/\<close>, the certificate schedule of \<open>node/src/\<close>, and the
  messaging, rooms, notices and grants of \<open>web-console/src/\<close>.

  \<^bold>\<open>The parts and how they interact.\<close> A device is named by the hash of its identity key. What one device may
  do to another is a capability token: a signed claim set that a device mints (\<open>tokens.ts\<close>) by narrowing
  a token it holds or under an authoriser's grant, judged by predicates (\<open>token-predicates.ts\<close>) over
  scopes (\<open>token-scope.ts\<close>), and refused once a revocation entry is known (\<open>revocation-view.ts\<close>). Devices
  find each other by signed adverts (\<open>peer-advert.ts\<close>), which a hub (\<open>relay-hub.ts\<close>) keeps, hands on and
  routes by; a hub pairs two connections, forwards opaque data between them, and keeps a mailbox of
  signed log entries (\<open>hub-mailbox.ts\<close> on \<open>data-sync.ts\<close>). Through a hub two devices run a handshake
  (\<open>secure-channel.ts\<close>, \<open>relay-channels.ts\<close>) so that the hub sees ciphertext only. A session
  (\<open>mesh-session.ts\<close>) is one device's side of a connection: it negotiates, keeps the directory, answers
  and correlates requests, seals what goes through a relay and reconnects. Large payloads move by the
  acknowledged window protocol of \<open>bulk.ts\<close>; payloads spread over several holders are erasure coded
  (\<open>erasure-coding.ts\<close>), named in a manifest (\<open>shard-manifest.ts\<close>) and pushed, served and collected by
  \<open>sharded-delivery.ts\<close>; \<open>coordinator-election.ts\<close> settles which device coordinates. Rooms
  (\<open>room-path.ts\<close>, \<open>room-token-verification.ts\<close>, \<open>room.ts\<close>) are paths whose members hold tokens; their notices are signed,
  encrypted under keys that \<open>room-rekey.ts\<close> distributes (\<open>group-key.ts\<close>) and kept in the logs of data sync
  (\<open>notice-board.ts\<close>). A device asks another for a token and is answered once (\<open>capability-request.ts\<close>), or is
  handed one (\<open>capability-grant.ts\<close>); peers report their neighbours and trace paths (\<open>topology.ts\<close>,
  \<open>path-trace.ts\<close>), dial adverts that a policy approves (\<open>gossip-expansion.ts\<close>), send a single request over a
  connection of its own (\<open>direct-manage-request.ts\<close>) and exchange call signals (\<open>webrtc-signaling.ts\<close>). An
  identity may be split over several devices: they generate and reshare its key (\<open>threshold-dkg.ts\<close>) and sign
  with it in two rounds (\<open>threshold-participant.ts\<close>, \<open>threshold-network-coordinator.ts\<close>). Frames reach the
  wire by \<open>frame-codec.ts\<close>, \<open>byte-stream-connection.ts\<close> and \<open>tcp-transport.ts\<close>; \<open>pinned-address.ts\<close> names a
  server with the certificates it may show, which a schedule of short-lived certificates keeps usable. On
  Cloudflare the hub runs in an object that is evicted and woken (\<open>hibernating-hub.ts\<close>, \<open>worker.ts\<close>). The web
  console keeps the messages of its conversations in storage and shows them (\<open>use-room-messaging.ts\<close>,
  \<open>conversations.ts\<close>), routes room traffic and notices over its sessions, and keeps grants and revocations.

  \<^bold>\<open>Theories.\<close>
  \<^item> \<open>WM_Prelude\<close>: results, bytes, JavaScript maps as association lists in insertion order (\<open>jget\<close>, \<open>jset\<close>,
    \<open>jdel\<close>), \<open>sequential.ts\<close>; \<open>JsText\<close>: strings; \<open>DeviceIds\<close>: \<open>device-id.ts\<close>.
  \<^item> \<open>TokenScope\<close>, \<open>TokenPredicates\<close>, \<open>Tokens\<close>, \<open>TokenMinting\<close>, \<open>TokenChains\<close>, \<open>RevocationViews\<close>: the capability
    tokens; \<open>TokenProperties\<close> states that acceptance establishes a delegation chain to a trusted root which
    never widens, that verification returns where revocation entries are not self-authorising and diverges
    where they are, that minting is exact and minted tokens verify, and that a gossiped revocation takes effect.
  \<^item> \<open>GF256\<close>, \<open>FieldMatrix\<close>, \<open>ErasureCoding\<close>, \<open>ErasureElimination\<close>, \<open>ErasureProperties\<close>: the field, the code and
    its Gauss-Jordan inversion; any \<open>dataShards\<close> of the shards give the input again.
  \<^item> \<open>Election\<close>, \<open>VerdictCache\<close>, \<open>PeerAdverts\<close> (with gossip extensions and relay offers), \<open>DataSync\<close>, \<open>HubMailbox\<close>.
    The mailbox's handler is run stage by stage between its storage calls: the limits hold where handlers do
    not overlap, and \<open>overlapping_handlers_exceed_limit\<close> shows that they fail where they do.
  \<^item> \<open>RelayHub\<close>, \<open>RelayHubProperties\<close>, \<open>RelayGate\<close>: the hub as one state with one operation per frame, and what
    holds in every state it reaches. The verification of gossiped adverts is a stage of its own, so other frames
    and lost connections come between it and the registration.
  \<^item> \<open>HibernatingHub\<close>, \<open>HibernationInvariant\<close>, \<open>HibernationRestore\<close>, \<open>HibernationProperties\<close>: the hub in a runtime that
    evicts it; a woken instance routes as before where no other connection is attributed the paired device.
  \<^item> \<open>SecureChannel\<close>, \<open>RelayChannels\<close>, \<open>RelayChannelProperties\<close>: the end-to-end channel and its handshakes.
  \<^item> \<open>Bulk\<close>, \<open>BulkProperties\<close>: sender and receiver of a transfer, interleaved at every wait.
  \<^item> \<open>SessionParts\<close>, \<open>MeshSession\<close>, \<open>MeshSessionProperties\<close>: the session; every call, received frame, timer, dial
    result and lost connection is a step, \<open>session_reach\<close> is any sequence of them and \<open>session_run\<close> names the
    sequence, so that what a session holds is traced to the hello it received.
  \<^item> \<open>ShardManifests\<close>, \<open>ShardedDelivery\<close>: manifests round trip, and a collector that meets genuine holders in any
    order settles with the payload as soon as the threshold of shards has been read back.
  \<^item> \<open>RoomPaths\<close>, \<open>GroupKeys\<close>, \<open>Rooms\<close>, \<open>RoomProperties\<close>, \<open>NoticeBoard\<close>: paths print and parse, an accepted notice comes
    from a member, a distributed key arrives, a posted notice is read, and readers agree on the order.
  \<^item> \<open>CapabilityRequests\<close>, \<open>CapabilityGrants\<close>, \<open>CapabilityProperties\<close>: a request is answered exactly once, by the
    decision or by the timer; what is granted is what was decided, and it verifies where it arrives.
  \<^item> \<open>FrameStreams\<close>, \<open>FrameStreamProperties\<close>: whatever the chunks a byte stream arrives in, the frames read are
    those written, in order. \<open>PinnedAddresses\<close>: addresses with certificate hashes print and parse.
    \<open>CertificateSchedules\<close>, \<open>CertificateProperties\<close>: a pinned address stays usable over advances and restarts.
  \<^item> \<open>Topology\<close>, \<open>Expansion\<close> (with direct requests), \<open>WebRtcSignaling\<close>: introspection tells what the session holds,
    expansion dials only what the policy approved, signals arrive as sent.
  \<^item> \<open>ThresholdWire\<close>, \<open>ThresholdParticipants\<close>, \<open>ThresholdProperties\<close>: the messages and both sides of a signing
    session; a device never signs twice with the same nonces, honest sessions complete, and a group signature
    rests on shares the coordinator has verified. \<open>ThresholdKeygen\<close>, \<open>ThresholdKeygenProperties\<close>: key generation and
    resharing under any delivery order; a key is returned only when every device has confirmed it.
  \<^item> \<open>MessageStores\<close>, \<open>ConsoleConversations\<close>, \<open>ConsoleHistory\<close>, \<open>ConsoleProperties\<close>: the console's stored messages and its
    conversations; writes settle or fail after what they write is shown, and a reload shows what was written.
    \<open>RoomRouters\<close>, \<open>RoomRouterProperties\<close>, \<open>NoticeWiring\<close>, \<open>NoticeWiringProperties\<close>, \<open>GrantStores\<close>,
    \<open>GrantStoreProperties\<close>, \<open>ConsoleRooms\<close>, \<open>ConsoleRoomProperties\<close>: its rooms, notices, grants and revocations.
    \<open>SampleCodecs\<close> holds the concrete codecs that witnesses use.

  \<^bold>\<open>State and effects.\<close> A class or closure of the source is a record, its methods are functions from the old
  record to an outcome and the new one; thrown errors are the left of a sum or an error option, what goes to
  the network, to callbacks or to a promise is a list of effects. An \<open>await\<close> whose order matters splits the
  operation in two, with what is suspended kept in the state (\<open>VerdictCache\<close>, \<open>Bulk\<close>, \<open>RelayChannels\<close>,
  \<open>MeshSession\<close>, the gossip stages of \<open>RelayHubProperties\<close>, \<open>HubMailbox\<close>, \<open>ConsoleHistory\<close>); elsewhere an operation runs to its end before the next.

  \<^bold>\<open>Parameters.\<close> Signatures, hashes, Web Crypto, the CBOR codec and the generated schemas, the trilean
  evaluator, the clock, random values and the transport are arguments. What a theorem needs of them is a
  named hypothesis (a signature made by a device verifies, decryption inverts encryption, decoding inverts
  encoding), and its witness instantiates it.

  \<^bold>\<open>Fuel and bounds.\<close> \<open>verifyCapabilityToken\<close> takes fuel since the source's recursion can diverge;
  \<open>verification_returns\<close> gives the fuel that is enough. All other loops are structural or proved to
  terminate. Numbers are \<open>int\<close> or \<open>nat\<close> where the source's doubles are exact; bytes are 8-bit words.

  \<^bold>\<open>Not modelled.\<close> The FROST mathematics, which is in a WebAssembly module built from the Rust crates and is a
  parameter here; sockets, TLS, files, key generation of an identity and the system clock, which are input
  and output of the platform; the command line and servers of the node package, the HTTP routing of the
  Cloudflare worker, the console's user interface, dialling and remembered names, and the media server, which
  are built around the parts above; the conformance generator, the generated schemas apart from those the
  theories name, and the Rust crates.
\<close>

end
